(* ===== verification/Prelude.thy ===== *)
theory Prelude
  imports Main "HOL-Library.Sublist"
begin

text \<open>
  Shared vocabulary of the development. A Go \<open>string\<close> or \<open>[]byte\<close> is a \<^typ>\<open>string\<close>: an Isabelle
  character is one byte. The theory holds the pieces of the Go standard library the program
  calls on such byte strings (prefix and suffix tests, \<open>strings.Cut\<close>, \<open>strconv.Itoa\<close> and
  \<open>strconv.Atoi\<close>), each with the lemmas the components share, and the collections
  \<open>go_str\<close> (string operations) and \<open>result_simps\<close> (results as sums).
\<close>

named_theorems go_str \<open>characteristic facts of the string operations\<close>
named_theorems result_simps \<open>elimination of the two-armed results\<close>

section \<open>Results\<close>

text \<open>A fallible Go function \<open>(v, err)\<close> returns \<open>Inl err\<close> or \<open>Inr v\<close>.\<close>

definition result_bind :: "'e + 'a \<Rightarrow> ('a \<Rightarrow> 'e + 'b) \<Rightarrow> 'e + 'b" where
  "result_bind r f = (case r of Inl e \<Rightarrow> Inl e | Inr a \<Rightarrow> f a)"

lemma result_bind_Inl [simp, result_simps]: "result_bind (Inl e) f = Inl e"
  by (simp add: result_bind_def)

lemma result_bind_Inr [simp, result_simps]: "result_bind (Inr a) f = f a"
  by (simp add: result_bind_def)

lemma result_bind_eq_Inr [result_simps]:
  "result_bind r f = Inr b \<longleftrightarrow> (\<exists>a. r = Inr a \<and> f a = Inr b)"
  by (cases r) auto

definition is_ok :: "'e + 'a \<Rightarrow> bool" where
  "is_ok r = (case r of Inl _ \<Rightarrow> False | Inr _ \<Rightarrow> True)"

lemma is_ok_simps [simp, result_simps]: "is_ok (Inr a)" "\<not> is_ok (Inl e)"
  by (simp_all add: is_ok_def)

section \<open>Lists\<close>

lemma find_SomeD: "find P xs = Some x \<Longrightarrow> x \<in> set xs \<and> P x"
  by (induction xs) (auto split: if_splits)

section \<open>Strings\<close>

definition has_prefix :: "string \<Rightarrow> string \<Rightarrow> bool" where
  "has_prefix s p \<longleftrightarrow> take (length p) s = p"

definition has_suffix :: "string \<Rightarrow> string \<Rightarrow> bool" where
  "has_suffix s p \<longleftrightarrow> length p \<le> length s \<and> drop (length s - length p) s = p"

definition trim_prefix :: "string \<Rightarrow> string \<Rightarrow> string" where
  "trim_prefix s p = (if has_prefix s p then drop (length p) s else s)"

definition trim_suffix :: "string \<Rightarrow> string \<Rightarrow> string" where
  "trim_suffix s p = (if has_suffix s p then take (length s - length p) s else s)"

text \<open>\<open>strings.Contains\<close> / \<open>bytes.Contains\<close>: does \<open>sub\<close> occur in \<open>s\<close>?\<close>

fun contains :: "string \<Rightarrow> string \<Rightarrow> bool" where
  "contains [] sub = (sub = [])"
| "contains (c # s) sub = (has_prefix (c # s) sub \<or> contains s sub)"

text \<open>\<open>strings.Cut\<close> at a one-byte separator: text before, text after, found.\<close>

fun cut_at :: "char \<Rightarrow> string \<Rightarrow> string \<times> string \<times> bool" where
  "cut_at sep [] = ([], [], False)"
| "cut_at sep (c # s) =
     (if c = sep then ([], s, True)
      else case cut_at sep s of (before, after, found) \<Rightarrow> (c # before, after, found))"

lemma has_prefix_append [simp, go_str]: "has_prefix (p @ s) p"
  by (simp add: has_prefix_def)

lemma has_prefix_iff [go_str]: "has_prefix s p \<longleftrightarrow> (\<exists>t. s = p @ t)"
  by (auto simp: has_prefix_def) (metis append_take_drop_id)

lemma has_prefix_Nil [simp]: "has_prefix s []"
  by (simp add: has_prefix_def)

lemma has_prefix_Cons [simp]: "has_prefix (c # s) (d # p) \<longleftrightarrow> c = d \<and> has_prefix s p"
  by (auto simp: has_prefix_def)

lemma has_prefix_empty [simp]: "has_prefix [] (d # p) = False"
  by (simp add: has_prefix_def)

lemma has_suffix_iff [go_str]: "has_suffix s p \<longleftrightarrow> (\<exists>t. s = t @ p)"
  by (auto simp: has_suffix_def) (metis append_take_drop_id)

lemma has_suffix_append [simp, go_str]: "has_suffix (s @ p) p"
  by (auto simp: has_suffix_iff)

lemma trim_prefix_append [simp, go_str]: "trim_prefix (p @ s) p = s"
  by (simp add: trim_prefix_def)

lemma contains_iff [go_str]: "contains s sub \<longleftrightarrow> (\<exists>a b. s = a @ sub @ b)"
proof (induction s)
  case Nil
  then show ?case by auto
next
  case (Cons c s)
  show ?case
  proof
    assume "contains (c # s) sub"
    then consider "has_prefix (c # s) sub" | "contains s sub" by auto
    then show "\<exists>a b. c # s = a @ sub @ b"
    proof cases
      case 1
      then show ?thesis by (metis has_prefix_iff append_Nil)
    next
      case 2
      then show ?thesis using Cons.IH by (metis append_Cons)
    qed
  next
    assume "\<exists>a b. c # s = a @ sub @ b"
    then obtain a b where ab: "c # s = a @ sub @ b" by blast
    show "contains (c # s) sub"
    proof (cases a)
      case Nil
      with ab have "has_prefix (c # s) sub" by (simp add: has_prefix_iff)
      then show ?thesis by simp
    next
      case (Cons x xs)
      with ab show ?thesis using Cons.prems Cons.IH by auto
    qed
  qed
qed

lemma contains_sublist: "contains s sub \<longleftrightarrow> sublist sub s"
  by (simp add: contains_iff sublist_def)

lemma cut_at_found [go_str]:
  "sep \<notin> set a \<Longrightarrow> cut_at sep (a @ sep # b) = (a, b, True)"
  by (induction a) auto

lemma cut_at_absent [go_str]: "sep \<notin> set a \<Longrightarrow> cut_at sep a = (a, [], False)"
  by (induction a) auto

lemma cut_at_cases:
  "(sep \<notin> set s \<and> cut_at sep s = (s, [], False)) \<or>
   (\<exists>a b. s = a @ sep # b \<and> sep \<notin> set a \<and> cut_at sep s = (a, b, True))"
  by (metis cut_at_absent cut_at_found split_list_first)

section \<open>Decimal numbers\<close>

text \<open>The byte values the parsers test.\<close>

definition is_digit :: "char \<Rightarrow> bool" where
  "is_digit c \<longleftrightarrow> 48 \<le> (of_char c :: nat) \<and> (of_char c :: nat) \<le> 57"

definition digit_value :: "char \<Rightarrow> nat" where
  "digit_value c = of_char c - 48"

definition digit_char :: "nat \<Rightarrow> char" where
  "digit_char n = char_of (48 + n)"

lemma is_digit_digit_char [simp]: "n < 10 \<Longrightarrow> is_digit (digit_char n)"
  by (simp add: is_digit_def digit_char_def)

lemma digit_value_digit_char [simp]: "n < 10 \<Longrightarrow> digit_value (digit_char n) = n"
  by (simp add: digit_value_def digit_char_def)

lemma digit_value_le: "is_digit c \<Longrightarrow> digit_value c \<le> 9"
  by (auto simp: is_digit_def digit_value_def)

text \<open>Reading a run of digits, the accumulator first; \<open>strconv\<close> reads them so.\<close>

definition dec_step :: "nat \<Rightarrow> char \<Rightarrow> nat" where
  "dec_step n c = n * 10 + digit_value c"

definition dec_value :: "string \<Rightarrow> nat" where
  "dec_value ds = foldl dec_step 0 ds"

text \<open>\<open>strconv.Itoa\<close> on a non-negative value.\<close>

fun nat_to_dec :: "nat \<Rightarrow> string" where
  "nat_to_dec n = (if n < 10 then [digit_char n] else nat_to_dec (n div 10) @ [digit_char (n mod 10)])"

declare nat_to_dec.simps [simp del]

lemma nat_to_dec_nonempty [simp]: "nat_to_dec n \<noteq> []"
  by (subst nat_to_dec.simps) simp

lemma nat_to_dec_digits: "list_all is_digit (nat_to_dec n)"
proof (induction n rule: nat_to_dec.induct)
  case (1 n)
  then show ?case by (subst nat_to_dec.simps) (simp add: list_all_append)
qed

lemma dec_value_snoc: "dec_value (ds @ [c]) = dec_value ds * 10 + digit_value c"
  by (simp add: dec_value_def dec_step_def)

lemma dec_value_nat_to_dec [simp]: "dec_value (nat_to_dec n) = n"
proof (induction n rule: nat_to_dec.induct)
  case (1 n)
  show ?case
  proof (cases "n < 10")
    case True
    then show ?thesis by (subst nat_to_dec.simps) (simp add: dec_value_def dec_step_def)
  next
    case False
    with 1 have "dec_value (nat_to_dec (n div 10)) = n div 10" by simp
    with False show ?thesis by (subst nat_to_dec.simps) (simp add: dec_value_snoc)
  qed
qed

text \<open>\<open>strconv.Itoa\<close> on a signed value.\<close>

definition itoa :: "int \<Rightarrow> string" where
  "itoa z = (if z < 0 then CHR ''-'' # nat_to_dec (nat (- z)) else nat_to_dec (nat z))"

text \<open>
  \<open>strconv.Atoi\<close> on a 64-bit platform: the value and the error, since callers that drop the
  error use the value (0 on a syntax error, the nearest bound on a range error).
\<close>

datatype num_error = ErrSyntax | ErrRange

definition max_int64 :: int where "max_int64 = 9223372036854775807"
definition min_int64 :: int where "min_int64 = - 9223372036854775808"

definition atoi_full :: "string \<Rightarrow> int \<times> num_error option" where
  "atoi_full s =
     (let (neg, ds) = (case s of [] \<Rightarrow> (False, [])
                        | c # cs \<Rightarrow> if c = CHR ''-'' then (True, cs)
                                    else if c = CHR ''+'' then (False, cs) else (False, s))
      in if ds = [] \<or> \<not> list_all is_digit ds then (0, Some ErrSyntax)
         else let n = int (dec_value ds)
              in if neg then (if - n < min_int64 then (min_int64, Some ErrRange) else (- n, None))
                 else (if max_int64 < n then (max_int64, Some ErrRange) else (n, None)))"

definition atoi :: "string \<Rightarrow> int option" where
  "atoi s = (case atoi_full s of (n, None) \<Rightarrow> Some n | (n, Some _) \<Rightarrow> None)"

lemma digit_not_sign [simp]:
  "\<not> is_digit CHR ''-''" "\<not> is_digit CHR ''+''" "\<not> is_digit CHR ''.''"
  "\<not> is_digit CHR '',''" "\<not> is_digit CHR '';''"
  by (simp_all add: is_digit_def)

lemma atoi_digits:
  assumes "ds \<noteq> []" "list_all is_digit ds" "int (dec_value ds) \<le> max_int64"
  shows "atoi ds = Some (int (dec_value ds))"
proof -
  obtain c cs where ds: "ds = c # cs" using assms(1) by (cases ds) auto
  have "c \<noteq> CHR ''-''" "c \<noteq> CHR ''+''" using assms(2) ds by auto
  with ds assms show ?thesis by (simp add: atoi_def atoi_full_def Let_def)
qed

lemma atoi_itoa:
  assumes "min_int64 \<le> z" "z \<le> max_int64"
  shows "atoi (itoa z) = Some z"
proof (cases "z < 0")
  case True
  have "list_all is_digit (nat_to_dec (nat (- z)))" by (rule nat_to_dec_digits)
  with True assms show ?thesis by (simp add: itoa_def atoi_def atoi_full_def Let_def)
next
  case False
  then show ?thesis using assms by (simp add: itoa_def atoi_digits nat_to_dec_digits)
qed

lemma atoi_bounds: "atoi s = Some z \<Longrightarrow> min_int64 \<le> z \<and> z \<le> max_int64"
  by (auto simp: atoi_def atoi_full_def Let_def max_int64_def min_int64_def
      split: prod.splits list.splits if_splits)

end
