(* ===== verification/Utf8.thy ===== *)
theory Utf8
  imports Prelude
begin

text \<open>
  Go's \<open>unicode/utf8\<close> as the WebSocket proxy uses it: \<open>DecodeRune\<close>, \<open>FullRune\<close>, the encoding
  of a rune, \<open>[]rune(s)\<close> and \<open>string(runes)\<close>. A rune is a \<^typ>\<open>nat\<close>. Decoding is total: an
  ill-formed sequence yields the replacement rune and consumes one byte, as in Go. The lemmas
  give the round trip between runes and bytes, and say when the decoder may run before the
  rest of the input has arrived (\<open>full_rune_append\<close>).
\<close>

definition rune_error :: nat where "rune_error = 65533"

definition scalar :: "nat \<Rightarrow> bool" where
  "scalar r \<longleftrightarrow> r < 55296 \<or> (57344 \<le> r \<and> r \<le> 1114111)"

text \<open>Number of bytes the first byte announces: 1 also for a byte that can start no sequence.\<close>

definition seq_len :: "nat \<Rightarrow> nat" where
  "seq_len b = (if b < 194 then 1 else if b < 224 then 2 else if b < 240 then 3
                else if b < 245 then 4 else 1)"

text \<open>The range of the second byte, narrower after the bytes E0, ED, F0 and F4.\<close>

definition second_ok :: "nat \<Rightarrow> nat \<Rightarrow> bool" where
  "second_ok b0 b1 \<longleftrightarrow>
     (if b0 = 224 then 160 else if b0 = 240 then 144 else 128) \<le> b1 \<and>
     b1 \<le> (if b0 = 237 then 159 else if b0 = 244 then 143 else 191)"

definition cont_ok :: "nat \<Rightarrow> bool" where
  "cont_ok b \<longleftrightarrow> 128 \<le> b \<and> b \<le> 191"

abbreviation byte :: "char \<Rightarrow> nat" where "byte c \<equiv> of_char c"

text \<open>\<open>utf8.DecodeRune\<close>: the rune and the number of bytes it took; \<open>(RuneError, 0)\<close> on no input.\<close>

definition decode_rune :: "string \<Rightarrow> nat \<times> nat" where
  "decode_rune s = (case s of
     [] \<Rightarrow> (rune_error, 0)
   | c0 # s1 \<Rightarrow>
      let b0 = byte c0 in
      if b0 < 128 then (b0, 1)
      else if seq_len b0 = 1 then (rune_error, 1)
      else (case s1 of
         [] \<Rightarrow> (rune_error, 1)
       | c1 # s2 \<Rightarrow>
          if length s < seq_len b0 \<or> \<not> second_ok b0 (byte c1) then (rune_error, 1)
          else if seq_len b0 = 2 then (b0 mod 32 * 64 + byte c1 mod 64, 2)
          else (case s2 of
             [] \<Rightarrow> (rune_error, 1)
           | c2 # s3 \<Rightarrow>
              if \<not> cont_ok (byte c2) then (rune_error, 1)
              else if seq_len b0 = 3
                then (b0 mod 16 * 4096 + byte c1 mod 64 * 64 + byte c2 mod 64, 3)
              else (case s3 of
                 [] \<Rightarrow> (rune_error, 1)
               | c3 # s4 \<Rightarrow>
                  if \<not> cont_ok (byte c3) then (rune_error, 1)
                  else (b0 mod 8 * 262144 + byte c1 mod 64 * 4096 + byte c2 mod 64 * 64
                          + byte c3 mod 64, 4)))))"

text \<open>\<open>utf8.FullRune\<close>: do the bytes begin with a rune that is complete (or already ill formed)?\<close>

definition full_rune :: "string \<Rightarrow> bool" where
  "full_rune s = (case s of
     [] \<Rightarrow> False
   | c0 # s1 \<Rightarrow>
      if seq_len (byte c0) \<le> length s then True
      else (case s1 of
         [] \<Rightarrow> False
       | c1 # s2 \<Rightarrow>
          if \<not> second_ok (byte c0) (byte c1) then True
          else (case s2 of [] \<Rightarrow> False | c2 # _ \<Rightarrow> \<not> cont_ok (byte c2))))"

text \<open>\<open>utf8.AppendRune\<close>: a value that is no scalar is encoded as the replacement rune.\<close>

definition encode_scalar :: "nat \<Rightarrow> string" where
  "encode_scalar r =
     (if r < 128 then [char_of r]
      else if r < 2048 then [char_of (192 + r div 64), char_of (128 + r mod 64)]
      else if r < 65536 then
        [char_of (224 + r div 4096), char_of (128 + r div 64 mod 64), char_of (128 + r mod 64)]
      else
        [char_of (240 + r div 262144), char_of (128 + r div 4096 mod 64),
         char_of (128 + r div 64 mod 64), char_of (128 + r mod 64)])"

definition encode_rune :: "nat \<Rightarrow> string" where
  "encode_rune r = encode_scalar (if scalar r then r else rune_error)"

section \<open>One rune\<close>

lemma byte_lt [simp]: "byte c < 256"
  by (metis of_char_mod_256 mod_less_divisor zero_less_numeral)

lemma byte_char_of [simp]: "byte (char_of n) = n mod 256"
  by simp

lemma decode_rune_Nil [simp]: "decode_rune [] = (rune_error, 0)"
  by (simp add: decode_rune_def)

lemma decode_rune_ascii [simp]: "byte c < 128 \<Longrightarrow> decode_rune (c # s) = (byte c, 1)"
  by (simp add: decode_rune_def Let_def)

lemma decode_rune_size:
  "s \<noteq> [] \<Longrightarrow> 1 \<le> snd (decode_rune s) \<and> snd (decode_rune s) \<le> length s"
  by (auto simp: decode_rune_def Let_def split: list.splits)

lemma decode_rune_size_pos [simp]: "s \<noteq> [] \<Longrightarrow> 0 < snd (decode_rune s)"
  using decode_rune_size by fastforce

lemma decode_rune_size_le: "snd (decode_rune s) \<le> length s"
  by (cases "s = []") (simp_all add: decode_rune_size)

lemma scalar_rune_error [simp]: "scalar rune_error"
  by (simp add: scalar_def rune_error_def)

lemma mod_offset:
  fixes a b m :: nat
  assumes "a \<le> b" "b < a + m" "m dvd a"
  shows "b mod m = b - a"
proof -
  from assms(1) obtain k where k: "b = a + k" using le_Suc_ex by blast
  with assms show ?thesis by (simp add: mod_add_left_eq [symmetric, of a] mod_eq_0_iff_dvd [THEN iffD2])
qed

lemma second_okD: "second_ok b0 b1 \<Longrightarrow> 128 \<le> b1 \<and> b1 < 192"
  by (auto simp: second_ok_def split: if_splits)

lemma cont_ok_mod: "128 \<le> b \<Longrightarrow> b < 192 \<Longrightarrow> b mod 64 = b - (128::nat)"
  by (rule mod_offset) auto

lemma scalar_decode2:
  assumes "194 \<le> b0" "b0 < 224"
  shows "scalar (b0 mod 32 * 64 + b1 mod 64)"
proof -
  have "b0 mod 32 < 32" "b1 mod 64 < 64" by simp_all
  then show ?thesis unfolding scalar_def by linarith
qed

lemma scalar_decode3:
  assumes "224 \<le> b0" "b0 < 240" "second_ok b0 b1"
  shows "scalar (b0 mod 16 * 4096 + b1 mod 64 * 64 + b2 mod 64)"
proof -
  define z where "z = b2 mod 64"
  have x: "b0 mod 16 = b0 - 224" using assms(1,2) by (intro mod_offset) auto
  have y: "b1 mod 64 = b1 - 128" using second_okD [OF assms(3)] by (intro cont_ok_mod) auto
  have z: "z < 64" by (simp add: z_def)
  have "b0 = 237 \<longrightarrow> b1 < 160"
    using assms(3) by (auto simp: second_ok_def)
  then have "b0 < 237 \<or> b0 = 237 \<and> b1 < 160 \<or> 238 \<le> b0" by linarith
  then show ?thesis unfolding x y z_def [symmetric] scalar_def
    using z second_okD [OF assms(3)] assms(1,2) by linarith
qed

lemma scalar_decode4:
  assumes "240 \<le> b0" "b0 < 245" "second_ok b0 b1"
  shows "scalar (b0 mod 8 * 262144 + b1 mod 64 * 4096 + b2 mod 64 * 64 + b3 mod 64)"
proof -
  define z w where "z = b2 mod 64" and "w = b3 mod 64"
  have x: "b0 mod 8 = b0 - 240" using assms(1,2) by (intro mod_offset) auto
  have y: "b1 mod 64 = b1 - 128" using second_okD [OF assms(3)] by (intro cont_ok_mod) auto
  have zw: "z < 64" "w < 64" by (simp_all add: z_def w_def)
  have "b0 = 240 \<longrightarrow> 144 \<le> b1" "b0 = 244 \<longrightarrow> b1 < 144"
    using assms(3) by (auto simp: second_ok_def)
  then have "b0 = 240 \<and> 144 \<le> b1 \<or> 241 \<le> b0 \<and> b0 \<le> 243 \<or> b0 = 244 \<and> b1 < 144"
    using assms(1,2) by linarith
  then show ?thesis
    unfolding x y z_def [symmetric] w_def [symmetric] scalar_def
    using zw second_okD [OF assms(3)] by linarith
qed

lemma seq_len_two: "seq_len b = 2 \<longleftrightarrow> 194 \<le> b \<and> b < 224"
  and seq_len_three: "seq_len b = 3 \<longleftrightarrow> 224 \<le> b \<and> b < 240"
  and seq_len_four: "seq_len b = 4 \<longleftrightarrow> 240 \<le> b \<and> b < 245"
  by (auto simp: seq_len_def)

lemma seq_len_consider:
  obtains "seq_len b = 1" | "seq_len b = 2" | "seq_len b = 3" | "seq_len b = 4"
proof -
  have "seq_len b = 1 \<or> seq_len b = 2 \<or> seq_len b = 3 \<or> seq_len b = 4"
    by (simp add: seq_len_def)
  with that show thesis by blast
qed

lemma scalar_decode_rune: "scalar (fst (decode_rune s))"
proof (cases s)
  case Nil
  then show ?thesis by simp
next
  case (Cons c0 s1)
  have ascii: "byte c0 < 128 \<Longrightarrow> scalar (byte c0)" by (simp add: scalar_def)
  show ?thesis
  proof (cases "byte c0" rule: seq_len_consider)
    case 1
    then show ?thesis using ascii by (simp add: Cons decode_rune_def Let_def)
  next
    case 2
    note b0 = 2 [unfolded seq_len_two]
    show ?thesis using ascii 2 b0
      by (auto simp: Cons decode_rune_def Let_def intro: scalar_decode2 split: list.splits)
  next
    case 3
    note b0 = 3 [unfolded seq_len_three]
    show ?thesis using ascii 3 b0
      by (auto simp: Cons decode_rune_def Let_def intro: scalar_decode3 split: list.splits)
  next
    case 4
    note b0 = 4 [unfolded seq_len_four]
    show ?thesis using ascii 4 b0
      by (auto simp: Cons decode_rune_def Let_def intro: scalar_decode4 split: list.splits)
  qed
qed

text \<open>Decoding what was encoded, whatever follows.\<close>

lemma decode_encode_scalar:
  assumes "scalar r"
  shows "decode_rune (encode_scalar r @ s) = (r, length (encode_scalar r))"
proof -
  consider "r < 128" | "128 \<le> r" "r < 2048" | "2048 \<le> r" "r < 65536" | "65536 \<le> r" by linarith
  then show ?thesis
  proof cases
    case 1
    then show ?thesis by (simp add: encode_scalar_def decode_rune_def)
  next
    case 2
    define a b where "a = r div 64" and "b = r mod 64"
    have r: "r = a * 64 + b" and b: "b < 64" by (simp_all add: a_def b_def)
    have a: "2 \<le> a" "a < 32" using 2 r b by linarith+
    have "seq_len (192 + a) = 2" using a by (simp add: seq_len_two)
    moreover have "second_ok (192 + a) (128 + b)" using a b by (auto simp: second_ok_def)
    moreover have "(192 + a) mod 32 = a" using a mod_offset [of 192 "192 + a" 32] by simp
    moreover have "(128 + b) mod 64 = b" using b by (simp add: cont_ok_mod)
    ultimately show ?thesis using 2 a b
      by (simp add: encode_scalar_def decode_rune_def Let_def a_def [symmetric] b_def [symmetric]
          r [symmetric])
  next
    case 3
    define a b c where "a = r div 4096" and "b = r div 64 mod 64" and "c = r mod 64"
    have "a = r div 64 div 64" by (simp add: a_def div_mult2_eq [symmetric])
    then have "r div 64 = a * 64 + b" by (simp add: b_def)
    moreover have "r = r div 64 * 64 + c" by (simp add: c_def)
    ultimately have r: "r = a * 4096 + b * 64 + c" by linarith
    have bc: "b < 64" "c < 64" by (simp_all add: b_def c_def)
    have a: "a < 16" using 3 r bc by linarith
    have "a = 0 \<longrightarrow> 32 \<le> b" using 3 r bc by linarith
    moreover have "a = 13 \<longrightarrow> b < 32" using assms r bc by (auto simp: scalar_def)
    ultimately have "second_ok (224 + a) (128 + b)" using a bc by (auto simp: second_ok_def)
    moreover have "seq_len (224 + a) = 3" using a by (simp add: seq_len_three)
    moreover have "cont_ok (128 + c)" using bc by (simp add: cont_ok_def)
    moreover have "(224 + a) mod 16 = a" using a mod_offset [of 224 "224 + a" 16] by simp
    moreover have "(128 + b) mod 64 = b" "(128 + c) mod 64 = c" using bc by (simp_all add: cont_ok_mod)
    ultimately show ?thesis using 3 a bc
      by (simp add: encode_scalar_def decode_rune_def Let_def a_def [symmetric] b_def [symmetric]
          c_def [symmetric] r [symmetric])
  next
    case 4
    define a b c d where "a = r div 262144" and "b = r div 4096 mod 64"
      and "c = r div 64 mod 64" and "d = r mod 64"
    have "a = r div 4096 div 64" by (simp add: a_def div_mult2_eq [symmetric])
    then have "r div 4096 = a * 64 + b" by (simp add: b_def)
    moreover have "r div 4096 = r div 64 div 64" by (simp add: div_mult2_eq [symmetric])
    then have "r div 64 = r div 4096 * 64 + c" by (simp add: c_def)
    moreover have "r = r div 64 * 64 + d" by (simp add: d_def)
    ultimately have r: "r = a * 262144 + b * 4096 + c * 64 + d" by linarith
    have bcd: "b < 64" "c < 64" "d < 64" by (simp_all add: b_def c_def d_def)
    have a: "a < 5" using assms 4 r bcd by (simp add: scalar_def)
    have "a = 0 \<longrightarrow> 16 \<le> b" using 4 r bcd by linarith
    moreover have "a = 4 \<longrightarrow> b < 16" using assms r bcd 4 by (simp add: scalar_def)
    ultimately have "second_ok (240 + a) (128 + b)" using a bcd by (auto simp: second_ok_def)
    moreover have "seq_len (240 + a) = 4" using a by (simp add: seq_len_four)
    moreover have "cont_ok (128 + c)" "cont_ok (128 + d)" using bcd by (simp_all add: cont_ok_def)
    moreover have "(240 + a) mod 8 = a" using a mod_offset [of 240 "240 + a" 8] by simp
    moreover have "(128 + b) mod 64 = b" "(128 + c) mod 64 = c" "(128 + d) mod 64 = d"
      using bcd by (simp_all add: cont_ok_mod)
    ultimately show ?thesis using 4 a bcd
      by (simp add: encode_scalar_def decode_rune_def Let_def a_def [symmetric] b_def [symmetric]
          c_def [symmetric] d_def [symmetric] r [symmetric])
  qed
qed

lemma decode_encode_rune [simp]:
  "scalar r \<Longrightarrow> decode_rune (encode_rune r @ s) = (r, length (encode_rune r))"
  by (simp add: encode_rune_def decode_encode_scalar)

lemma encode_rune_nonempty [simp]: "encode_rune r \<noteq> []"
  by (simp add: encode_rune_def encode_scalar_def)

text \<open>
  Once the bytes hold a full rune the decoder's answer no longer depends on what follows; this
  is what lets a streaming reader decode before the rest has arrived.
\<close>

lemma ascii_seq_len: "b < 128 \<Longrightarrow> seq_len b = 1"
  by (simp add: seq_len_def)

lemma seq_len_bounds: "1 \<le> seq_len b" "seq_len b \<le> 4"
  by (simp_all add: seq_len_def)

lemma string_shapes:
  obtains "s = []" | c0 where "s = [c0]" | c0 c1 where "s = [c0, c1]"
  | c0 c1 c2 where "s = [c0, c1, c2]" | c0 c1 c2 c3 s4 where "s = c0 # c1 # c2 # c3 # s4"
  by (metis list.exhaust)

lemma full_rune_append [simp]:
  assumes "full_rune s"
  shows "decode_rune (s @ t) = decode_rune s"
proof (cases s rule: string_shapes)
  case 1
  with assms show ?thesis by (simp add: full_rune_def)
next
  case (2 c0)
  with assms seq_len_bounds [of "byte c0"] have "seq_len (byte c0) = 1"
    by (simp add: full_rune_def split: if_splits)
  with 2 show ?thesis by (simp add: decode_rune_def Let_def)
next
  case (3 c0 c1)
  with assms have "seq_len (byte c0) \<le> 2 \<or> \<not> second_ok (byte c0) (byte c1)"
    by (simp add: full_rune_def split: if_splits)
  with 3 show ?thesis
    by (cases "byte c0" rule: seq_len_consider) (simp_all add: decode_rune_def Let_def)
next
  case (4 c0 c1 c2)
  with assms have "seq_len (byte c0) \<le> 3 \<or> \<not> second_ok (byte c0) (byte c1) \<or> \<not> cont_ok (byte c2)"
    by (simp add: full_rune_def split: if_splits)
  with 4 show ?thesis
    by (cases "byte c0" rule: seq_len_consider) (simp_all add: decode_rune_def Let_def)
next
  case (5 c0 c1 c2 c3 s4)
  then show ?thesis
    by (cases "byte c0" rule: seq_len_consider) (simp_all add: decode_rune_def Let_def)
qed

lemma full_rune_mono:
  assumes "full_rune s"
  shows "full_rune (s @ t)"
  using assms seq_len_bounds(2) [of "byte (hd s)"]
  by (cases s rule: string_shapes) (simp_all add: full_rune_def split: if_splits)

lemma full_rune_ascii: "byte c < 128 \<Longrightarrow> full_rune (c # s)"
  by (simp add: full_rune_def seq_len_def)

lemma full_rune_if_long:
  "s \<noteq> [] \<Longrightarrow> seq_len (byte (hd s)) \<le> length s \<Longrightarrow> full_rune s"
  by (cases s) (simp_all add: full_rune_def)

lemma full_rune_encode [simp]: "full_rune (encode_rune r @ s)"
proof -
  have "full_rune (encode_scalar q @ s)" if "scalar q" for q
  proof -
    consider "q < 128" | "128 \<le> q" "q < 2048" | "2048 \<le> q" "q < 65536" | "65536 \<le> q"
      by linarith
    then show ?thesis
    proof cases
      case 1
      then show ?thesis by (intro full_rune_if_long) (simp_all add: encode_scalar_def seq_len_def)
    next
      case 2
      then have "q div 64 < 32" by simp
      with 2 show ?thesis by (intro full_rune_if_long) (simp_all add: encode_scalar_def seq_len_def)
    next
      case 3
      then have "q div 4096 < 16" by simp
      with 3 show ?thesis by (intro full_rune_if_long) (simp_all add: encode_scalar_def seq_len_def)
    next
      case 4
      then have "length (encode_scalar q @ s) \<ge> 4" by (simp add: encode_scalar_def)
      moreover have "encode_scalar q \<noteq> []" by (simp add: encode_scalar_def)
      ultimately show ?thesis
        using seq_len_bounds(2) [of "byte (hd (encode_scalar q @ s))"]
        by (intro full_rune_if_long) (simp, linarith)
    qed
  qed
  then show ?thesis by (simp add: encode_rune_def)
qed

text \<open>An ASCII byte ends any sequence, complete or not.\<close>

lemma full_rune_ascii_end:
  assumes "w \<noteq> []" "byte c < 128"
  shows "full_rune (w @ c # t)"
proof -
  have "full_rune (w @ [c])"
    using assms seq_len_bounds(2) [of "byte (hd w)"]
    by (cases w rule: string_shapes) (auto simp: full_rune_def second_ok_def cont_ok_def)
  then show ?thesis using full_rune_mono [of "w @ [c]" t] by simp
qed

lemma decode_rune_ascii_end:
  assumes "w \<noteq> []" "byte c < 128"
  shows "decode_rune (w @ c # t) = decode_rune (w @ c # t')"
  using full_rune_append [OF full_rune_ascii_end [OF assms, of "[]"], of t]
    full_rune_append [OF full_rune_ascii_end [OF assms, of "[]"], of t'] by simp

section \<open>Rune sequences\<close>

text \<open>\<open>[]rune(s)\<close>, also what \<open>for _, r := range s\<close> visits.\<close>

function runes :: "string \<Rightarrow> nat list" where
  "runes s = (if s = [] then []
              else fst (decode_rune s) # runes (drop (snd (decode_rune s)) s))"
  by pat_completeness auto
termination
  by (relation "measure length") (auto simp: length_greater_0_conv [symmetric] simp del: length_greater_0_conv)

declare runes.simps [simp del]

definition utf8_encode :: "nat list \<Rightarrow> string" where
  "utf8_encode rs = concat (map encode_rune rs)"

text \<open>A string is valid UTF-8 when decoding loses nothing.\<close>

definition valid_utf8 :: "string \<Rightarrow> bool" where
  "valid_utf8 s \<longleftrightarrow> utf8_encode (runes s) = s"

lemma runes_Nil [simp]: "runes [] = []"
  by (simp add: runes.simps)

lemma runes_nonempty:
  "s \<noteq> [] \<Longrightarrow> runes s = fst (decode_rune s) # runes (drop (snd (decode_rune s)) s)"
  by (simp add: runes.simps [of s])

lemma utf8_encode_simps [simp]:
  "utf8_encode [] = []" "utf8_encode (r # rs) = encode_rune r @ utf8_encode rs"
  "utf8_encode (rs @ qs) = utf8_encode rs @ utf8_encode qs"
  by (simp_all add: utf8_encode_def)

lemma runes_scalar: "r \<in> set (runes s) \<Longrightarrow> scalar r"
proof (induction s rule: runes.induct)
  case (1 s)
  then show ?case
    by (cases "s = []") (auto simp: runes_nonempty scalar_decode_rune)
qed

lemma runes_utf8_encode [simp]: "list_all scalar rs \<Longrightarrow> runes (utf8_encode rs) = rs"
  by (induction rs) (simp_all add: runes_nonempty)

lemma valid_utf8_encode: "list_all scalar rs \<Longrightarrow> valid_utf8 (utf8_encode rs)"
  by (simp add: valid_utf8_def)

lemma runes_utf8_runes: "runes (utf8_encode (runes s)) = runes s"
  by (rule runes_utf8_encode) (auto simp: list_all_iff runes_scalar)

lemma length_runes_le: "length (runes s) \<le> length s"
proof (induction s rule: runes.induct)
  case (1 s)
  show ?case
  proof (cases "s = []")
    case False
    show ?thesis using 1 [OF False] decode_rune_size [OF False]
      by (simp add: runes_nonempty False) linarith
  qed simp
qed

lemma runes_ascii: "list_all (\<lambda>c. byte c < 128) s \<Longrightarrow> runes s = map byte s"
  by (induction s) (simp_all add: runes_nonempty)

lemma encode_rune_ascii: "r < 128 \<Longrightarrow> encode_rune r = [char_of r]"
  by (simp add: encode_rune_def encode_scalar_def scalar_def)

lemma valid_utf8_ascii: "list_all (\<lambda>c. byte c < 128) s \<Longrightarrow> valid_utf8 s"
  unfolding valid_utf8_def
  by (induction s) (simp_all add: runes_nonempty encode_rune_ascii)

end
