(* ===== verification/Guac_Instruction.thy ===== *)
theory Guac_Instruction
  imports Utf8
begin

text \<open>
  \<open>wwt/internal/guac/instruction.go\<close>: the Guacamole instruction, its wire form
  \<open>LEN.VALUE,LEN.VALUE,...;\<close> and the parser both clipboard directions share. Lengths count
  code points. The parser works on the bytes still unread and returns the rest; each
  \<open>fmt.Errorf\<close> of the source is a constructor of \<open>guac_error\<close>.
\<close>

record instruction =
  opcode :: string
  args :: "string list"

datatype guac_error =
    ReadingLength
  | ParsingLength string
  | IllegalLength int
  | ReadingValue
  | ReadingSeparator
  | UnexpectedSeparator char

definition max_pending_bytes :: nat where "max_pending_bytes = 1048576"

section \<open>Encoding\<close>

definition write_element :: "string \<Rightarrow> string" where
  "write_element v = nat_to_dec (length (runes v)) @ CHR ''.'' # v"

definition encode :: "instruction \<Rightarrow> string" where
  "encode i = write_element (opcode i)
     @ concat (map (\<lambda>a. CHR '','' # write_element a) (args i)) @ '';''"

definition encode_all :: "instruction list \<Rightarrow> string" where
  "encode_all is = concat (map encode is)"

section \<open>Parsing\<close>

text \<open>The rune loop: \<open>n\<close> times \<open>ReadRune\<close>; \<open>None\<close> when the input ends first.\<close>

fun read_value :: "nat \<Rightarrow> string \<Rightarrow> (nat list \<times> string) option" where
  "read_value 0 s = Some ([], s)"
| "read_value (Suc n) s =
     (if s = [] then None
      else case decode_rune s of (r, k) \<Rightarrow>
        (case read_value n (drop k s) of
           None \<Rightarrow> None
         | Some (rs, t) \<Rightarrow> Some (r # rs, t)))"

definition read_element :: "string \<Rightarrow> guac_error + string \<times> char \<times> string" where
  "read_element s = (case cut_at CHR ''.'' s of (len_str, s1, found) \<Rightarrow>
     if \<not> found then Inl ReadingLength
     else case atoi len_str of
       None \<Rightarrow> Inl (ParsingLength len_str)
     | Some len \<Rightarrow>
        if len < 0 \<or> int max_pending_bytes < len then Inl (IllegalLength len)
        else case read_value (nat len) s1 of
          None \<Rightarrow> Inl ReadingValue
        | Some (rs, s2) \<Rightarrow>
           (case s2 of [] \<Rightarrow> Inl ReadingSeparator
            | sep # s3 \<Rightarrow> Inr (utf8_encode rs, sep, s3)))"

lemma read_value_length: "read_value n s = Some (rs, t) \<Longrightarrow> length t \<le> length s"
proof (induction n arbitrary: s rs)
  case (Suc n)
  from Suc.prems obtain qs where "read_value n (drop (snd (decode_rune s)) s) = Some (qs, t)"
    by (auto split: if_splits prod.splits option.splits)
  from Suc.IH [OF this] show ?case by simp
qed simp

lemma read_element_InrD:
  assumes "read_element s = Inr (v, sep, t)"
  obtains ds b n rs where "s = ds @ CHR ''.'' # b" "CHR ''.'' \<notin> set ds" "atoi ds = Some (int n)"
    "n \<le> max_pending_bytes" "read_value n b = Some (rs, sep # t)" "v = utf8_encode rs"
proof -
  from assms obtain ds b z where c: "cut_at CHR ''.'' s = (ds, b, True)" and z: "atoi ds = Some z"
    and le: "0 \<le> z" "z \<le> int max_pending_bytes"
    and r: "(case read_value (nat z) b of None \<Rightarrow> Inl ReadingValue
        | Some (rs, s2) \<Rightarrow> (case s2 of [] \<Rightarrow> Inl ReadingSeparator
            | sep # s3 \<Rightarrow> Inr (utf8_encode rs, sep, s3))) = Inr (v, sep, t)"
    by (auto simp: read_element_def not_less split: prod.splits if_splits option.splits)
  from r obtain rs where "read_value (nat z) b = Some (rs, sep # t)" "v = utf8_encode rs"
    by (auto split: option.splits list.splits)
  moreover have "s = ds @ CHR ''.'' # b" "CHR ''.'' \<notin> set ds"
    using c cut_at_cases [of "CHR ''.''" s] by auto
  moreover have "atoi ds = Some (int (nat z))" "nat z \<le> max_pending_bytes" using z le by simp_all
  ultimately show thesis using that by blast
qed

lemma read_element_InrI:
  assumes "CHR ''.'' \<notin> set ds" "atoi ds = Some (int n)"
    "n \<le> max_pending_bytes" "read_value n b = Some (rs, sep # t)"
  shows "read_element (ds @ CHR ''.'' # b) = Inr (utf8_encode rs, sep, t)"
  using assms by (simp add: read_element_def cut_at_found)

lemma read_element_shorter:
  assumes "read_element s = Inr (v, sep, t)"
  shows "length t < length s"
proof -
  from assms obtain ds b n rs where "s = ds @ CHR ''.'' # b" "read_value n b = Some (rs, sep # t)"
    by (rule read_element_InrD)
  moreover from this have "length (sep # t) \<le> length b" by (blast dest: read_value_length)
  ultimately show ?thesis by simp
qed

text \<open>
  \<open>ReadInstruction\<close>: the elements read so far are the accumulator; at the \<open>;\<close> the first is the
  opcode.
\<close>

function read_elements :: "string list \<Rightarrow> string \<Rightarrow> guac_error + instruction \<times> string" where
  "read_elements acc s = (case read_element s of
     Inl e \<Rightarrow> Inl e
   | Inr (v, sep, t) \<Rightarrow>
      if sep = CHR '','' then read_elements (acc @ [v]) t
      else if sep = CHR '';''
        then Inr (\<lparr>opcode = hd (acc @ [v]), args = tl (acc @ [v])\<rparr>, t)
      else Inl (UnexpectedSeparator sep))"
  by pat_completeness auto
termination
  by (relation "measure (\<lambda>(acc, s). length s)") (auto simp: read_element_shorter)

declare read_elements.simps [simp del]

definition read_instruction :: "string \<Rightarrow> guac_error + instruction \<times> string" where
  "read_instruction s = read_elements [] s"

lemma read_elements_Inr:
  "read_elements acc s = Inr (i, t) \<longleftrightarrow>
     (\<exists>v u. read_element s = Inr (v, CHR '','', u) \<and> read_elements (acc @ [v]) u = Inr (i, t)) \<or>
     (\<exists>v. read_element s = Inr (v, CHR '';'', t) \<and>
          i = \<lparr>opcode = hd (acc @ [v]), args = tl (acc @ [v])\<rparr>)"
  by (subst read_elements.simps) (auto split: sum.splits prod.splits)

text \<open>Induction over a successful run of the parser, one case per separator.\<close>

lemma read_elements_success_induct [consumes 1, case_names more last]:
  assumes "read_elements acc s = Inr (i, t)"
    and more: "\<And>acc s v u. read_element s = Inr (v, CHR '','', u) \<Longrightarrow>
      read_elements (acc @ [v]) u = Inr (i, t) \<Longrightarrow> P (acc @ [v]) u \<Longrightarrow> P acc s"
    and last: "\<And>acc s v. read_element s = Inr (v, CHR '';'', t) \<Longrightarrow>
      i = \<lparr>opcode = hd (acc @ [v]), args = tl (acc @ [v])\<rparr> \<Longrightarrow> P acc s"
  shows "P acc s"
  using assms(1)
proof (induction acc s rule: read_elements.induct)
  case (1 acc s)
  from iffD1 [OF read_elements_Inr "1.prems"] show ?case
  proof (elim disjE exE conjE)
    fix v u
    assume e: "read_element s = Inr (v, CHR '','', u)" and r: "read_elements (acc @ [v]) u = Inr (i, t)"
    show "P acc s" by (rule more [OF e r "1.IH" [OF e refl refl refl r]])
  next
    fix v
    assume "read_element s = Inr (v, CHR '';'', t)"
      "i = \<lparr>opcode = hd (acc @ [v]), args = tl (acc @ [v])\<rparr>"
    then show "P acc s" by (rule last)
  qed
qed

lemma read_elements_shorter: "read_elements acc s = Inr (i, t) \<Longrightarrow> length t < length s"
  by (induction rule: read_elements_success_induct) (auto dest: read_element_shorter)

text \<open>The loop over a whole frame: \<open>Peek(1)\<close> decides whether another instruction follows.\<close>

function read_all :: "string \<Rightarrow> guac_error + instruction list" where
  "read_all s =
     (if s = [] then Inr []
      else case read_instruction s of
        Inl e \<Rightarrow> Inl e
      | Inr (i, t) \<Rightarrow> (case read_all t of Inl e \<Rightarrow> Inl e | Inr is \<Rightarrow> Inr (i # is)))"
  by pat_completeness auto
termination
  by (relation "measure length") (auto simp: read_instruction_def read_elements_shorter)

declare read_all.simps [simp del]

section \<open>Round trip\<close>

definition wf_element :: "string \<Rightarrow> bool" where
  "wf_element v \<longleftrightarrow> valid_utf8 v \<and> length (runes v) \<le> max_pending_bytes"

definition wf_instruction :: "instruction \<Rightarrow> bool" where
  "wf_instruction i \<longleftrightarrow> list_all wf_element (opcode i # args i)"

lemma read_value_encode:
  "list_all scalar rs \<Longrightarrow> read_value (length rs) (utf8_encode rs @ t) = Some (rs, t)"
  by (induction rs) simp_all

lemma read_value_runes:
  assumes "valid_utf8 v"
  shows "read_value (length (runes v)) (v @ t) = Some (runes v, t)"
proof -
  have "list_all scalar (runes v)" by (auto simp: list_all_iff runes_scalar)
  from read_value_encode [OF this, of t] assms show ?thesis by (simp add: valid_utf8_def)
qed

lemma cut_digits:
  "list_all is_digit ds \<Longrightarrow> cut_at CHR ''.'' (ds @ CHR ''.'' # s) = (ds, s, True)"
  by (rule cut_at_found) (auto simp: list_all_iff)

lemma read_element_write [simp]:
  assumes "wf_element v"
  shows "read_element (write_element v @ sep # t) = Inr (v, sep, t)"
proof -
  have len: "length (runes v) \<le> max_pending_bytes" and v: "utf8_encode (runes v) = v"
    using assms by (simp_all add: wf_element_def valid_utf8_def)
  have "atoi (nat_to_dec (length (runes v))) = Some (int (length (runes v)))"
    using len by (subst atoi_digits) (simp_all add: nat_to_dec_digits max_int64_def max_pending_bytes_def)
  moreover have "read_value (length (runes v)) (v @ sep # t) = Some (runes v, sep # t)"
    using assms by (simp add: wf_element_def read_value_runes)
  ultimately show ?thesis using len v
    by (simp add: read_element_def write_element_def cut_digits nat_to_dec_digits)
qed

lemma read_elements_args:
  assumes "list_all wf_element (v # vs)"
  shows "read_elements acc (write_element v @ concat (map (\<lambda>a. CHR '','' # write_element a) vs) @ CHR '';'' # t)
       = Inr (\<lparr>opcode = hd (acc @ v # vs), args = tl (acc @ v # vs)\<rparr>, t)"
  using assms
proof (induction vs arbitrary: acc v)
  case Nil
  then show ?case by (subst read_elements.simps) simp
next
  case (Cons w vs)
  then show ?case by (subst read_elements.simps) simp
qed

lemma read_instruction_encode [simp]:
  assumes "wf_instruction i"
  shows "read_instruction (encode i @ t) = Inr (i, t)"
  using read_elements_args [of "opcode i" "args i" "[]" t] assms
  by (simp add: read_instruction_def encode_def wf_instruction_def)

lemma encode_nonempty [simp]: "encode i \<noteq> []"
  by (simp add: encode_def)

lemma encode_all_simps [simp]:
  "encode_all [] = []" "encode_all (i # is) = encode i @ encode_all is"
  "encode_all (is @ js) = encode_all is @ encode_all js"
  by (simp_all add: encode_all_def)

lemma read_all_Nil [simp]: "read_all [] = Inr []"
  by (simp add: read_all.simps)

lemma read_all_encode [simp]:
  assumes "wf_instruction i"
  shows "read_all (encode i @ t) = (case read_all t of Inl e \<Rightarrow> Inl e | Inr is \<Rightarrow> Inr (i # is))"
  using assms by (subst read_all.simps) simp

lemma read_all_encode_all: "list_all wf_instruction is \<Longrightarrow> read_all (encode_all is) = Inr is"
  by (induction "is") simp_all

text \<open>What the parser returns is well formed, so it survives being encoded again.\<close>

lemma read_value_scalar:
  "read_value n s = Some (rs, t) \<Longrightarrow> list_all scalar rs \<and> length rs = n"
proof (induction n arbitrary: s rs)
  case (Suc n)
  from Suc.prems obtain q qs where "rs = q # qs" "read_value n (drop (snd (decode_rune s)) s) = Some (qs, t)"
    "q = fst (decode_rune s)"
    by (auto split: if_splits prod.splits option.splits)
  with Suc.IH show ?case by (auto simp: scalar_decode_rune)
qed simp

lemma read_element_wf:
  assumes "read_element s = Inr (v, sep, t)"
  shows "wf_element v"
proof -
  from assms obtain b n rs where v: "v = utf8_encode rs" and n: "n \<le> max_pending_bytes"
    and rs: "read_value n b = Some (rs, sep # t)"
    by (rule read_element_InrD)
  from read_value_scalar [OF rs] v n show ?thesis
    by (simp add: wf_element_def valid_utf8_encode)
qed

lemma read_elements_wf:
  "read_elements acc s = Inr (i, t) \<Longrightarrow> list_all wf_element acc \<Longrightarrow> wf_instruction i"
proof (induction rule: read_elements_success_induct)
  case (more acc s v u)
  then show ?case by (simp add: read_element_wf [OF more(1)])
next
  case (last acc s v)
  then show ?case
    by (cases acc) (simp_all add: wf_instruction_def read_element_wf [OF last(1)])
qed

lemma read_instruction_wf: "read_instruction s = Inr (i, t) \<Longrightarrow> wf_instruction i"
  by (simp add: read_instruction_def read_elements_wf)

lemma read_all_wf: "read_all s = Inr is \<Longrightarrow> list_all wf_instruction is"
proof (induction s arbitrary: "is" rule: read_all.induct)
  case (1 s)
  from "1.prems" show ?case
    by (subst (asm) read_all.simps)
      (auto split: if_splits sum.splits prod.splits dest: read_instruction_wf intro: "1.IH")
qed

section \<open>Properties\<close>

text \<open>The instructions a byte stream can carry are exactly the well-formed ones, and encoding them and
  reading them back returns them.\<close>

lemma instruction_roundtrip:
  "(list_all wf_instruction is \<longleftrightarrow> (\<exists>s. read_all s = Inr is)) \<and>
   (list_all wf_instruction is \<longrightarrow> read_all (encode_all is) = Inr is)"
  using read_all_encode_all [of "is"] read_all_wf [of _ "is"] by blast

lemma wf_instruction_ascii:
  "list_all (\<lambda>v. list_all (\<lambda>c. byte c < 128) v \<and> length v \<le> max_pending_bytes) (opcode i # args i) \<Longrightarrow>
   wf_instruction i"
  by (auto simp: wf_instruction_def wf_element_def list_all_iff valid_utf8_ascii runes_ascii)

theorem instruction_roundtrip_witness:
  "read_all (encode_all [\<lparr>opcode = ''sync'', args = [''42'', '''']\<rparr>, \<lparr>opcode = [], args = []\<rparr>]) =
    Inr [\<lparr>opcode = ''sync'', args = [''42'', '''']\<rparr>, \<lparr>opcode = [], args = []\<rparr>]"
proof -
  have "list_all wf_instruction [\<lparr>opcode = ''sync'', args = [''42'', '''']\<rparr>, \<lparr>opcode = [], args = []\<rparr>]"
    by (simp add: wf_instruction_ascii max_pending_bytes_def)
  then show ?thesis using instruction_roundtrip by blast
qed

end
