(* ===== verification/Guac_Framing.thy ===== *)
theory Guac_Framing
  imports Guac_Instruction
begin

text \<open>
  \<open>wwt/internal/guac/framing.go\<close>: the Framer cuts the raw guacd byte stream at instruction
  boundaries. The Go code walks an index \<open>p\<close> over the buffer; the model walks the suffix
  \<open>b[p:]\<close> and keeps \<open>p\<close> beside it. The lemmas relate one scanned element to one parsed
  element, show that nothing is lost or reordered, that every emitted frame parses, and that a
  legal stream is never rejected, however the reads split it.
\<close>

datatype frame_error =
    FrameLengthExceeds nat
  | FrameLengthPrefix
  | FrameSeparator char
  | FrameNoBoundary nat

datatype scan =
    ScanError frame_error
  | ScanMore
  | ScanSep bool string

section \<open>Scanning\<close>

fun scan_digits :: "string \<Rightarrow> nat \<Rightarrow> nat \<Rightarrow> frame_error + nat \<times> nat \<times> string" where
  "scan_digits [] len digits = Inr (len, digits, [])"
| "scan_digits (c # s) len digits =
     (if is_digit c
      then let len' = dec_step len c
           in if max_pending_bytes < len' then Inl (FrameLengthExceeds len')
              else scan_digits s len' (Suc digits)
      else Inr (len, digits, c # s))"

text \<open>Skip \<open>n\<close> code points; \<open>None\<close> when the value continues in the next read.\<close>

fun skip_runes :: "nat \<Rightarrow> string \<Rightarrow> string option" where
  "skip_runes 0 s = Some s"
| "skip_runes (Suc n) [] = None"
| "skip_runes (Suc n) (c # s) =
     (if byte c < 128 then skip_runes n s
      else if \<not> full_rune (c # s) then None
      else skip_runes n (drop (snd (decode_rune (c # s))) (c # s)))"

definition scan_element :: "string \<Rightarrow> scan" where
  "scan_element s = (case scan_digits s 0 0 of
     Inl e \<Rightarrow> ScanError e
   | Inr (len, digits, s1) \<Rightarrow>
      (case s1 of [] \<Rightarrow> ScanMore
       | c # s2 \<Rightarrow>
          if digits = 0 \<or> c \<noteq> CHR ''.'' then ScanError FrameLengthPrefix
          else (case skip_runes len s2 of
             None \<Rightarrow> ScanMore
           | Some [] \<Rightarrow> ScanMore
           | Some (sep # s3) \<Rightarrow>
              if sep = CHR '','' then ScanSep False s3
              else if sep = CHR '';'' then ScanSep True s3
              else ScanError (FrameSeparator sep))))"

lemma scan_digits_Inr:
  assumes "scan_digits s len digits = Inr (n, k, t)"
  shows "\<exists>ds. s = ds @ t \<and> list_all is_digit ds \<and> n = foldl dec_step len ds \<and> k = digits + length ds \<and>
    (len \<le> max_pending_bytes \<longrightarrow> n \<le> max_pending_bytes) \<and> (t = [] \<or> \<not> is_digit (hd t))"
  using assms
proof (induction s len digits rule: scan_digits.induct)
  case (2 c s len digits)
  show ?case
  proof (cases "is_digit c")
    case True
    with 2 obtain ds where "s = ds @ t" "list_all is_digit ds" "n = foldl dec_step (dec_step len c) ds"
      "k = Suc digits + length ds" "n \<le> max_pending_bytes" "t = [] \<or> \<not> is_digit (hd t)"
      by (auto simp: Let_def split: if_splits)
    with True show ?thesis by (intro exI [of _ "c # ds"]) auto
  next
    case False
    with 2 show ?thesis by auto
  qed
qed auto

lemma skip_runes_length: "skip_runes n s = Some t \<Longrightarrow> length t \<le> length s"
  by (induction n s rule: skip_runes.induct) (auto split: if_splits)

lemma scan_element_shorter:
  assumes "scan_element s = ScanSep f t"
  shows "length t < length s"
proof -
  obtain len k c s2 sep where d: "scan_digits s 0 0 = Inr (len, k, c # s2)" and
    "skip_runes len s2 = Some (sep # t)"
    using assms by (auto simp: scan_element_def split: sum.splits prod.splits list.splits if_splits option.splits)
  then have "length (sep # t) \<le> length s2" by (blast dest: skip_runes_length)
  with scan_digits_Inr [OF d] show ?thesis by auto
qed

text \<open>The loop of \<open>completePrefix\<close>: \<open>s\<close> is \<open>b[p:]\<close>, \<open>done_at\<close> the end of the last whole instruction.\<close>

function prefix_loop :: "string \<Rightarrow> nat \<Rightarrow> nat \<Rightarrow> frame_error + nat" where
  "prefix_loop s p done_at =
     (if s = [] then Inr done_at
      else case scan_element s of
        ScanError e \<Rightarrow> Inl e
      | ScanMore \<Rightarrow> Inr done_at
      | ScanSep final t \<Rightarrow>
         (let p' = p + (length s - length t)
          in prefix_loop t p' (if final then p' else done_at)))"
  by pat_completeness auto
termination
  by (relation "measure (\<lambda>(s, p, d). length s)") (auto simp: scan_element_shorter)

declare prefix_loop.simps [simp del]

definition complete_prefix :: "string \<Rightarrow> frame_error + nat" where
  "complete_prefix b = prefix_loop b 0 0"

section \<open>The Framer\<close>

record framer =
  buf :: string
  start :: nat

definition new_framer :: framer where "new_framer = \<lparr>buf = [], start = 0\<rparr>"

definition push :: "framer \<Rightarrow> string \<Rightarrow> (frame_error + string option) \<times> framer" where
  "push f data =
     (let f1 = (if 0 < start f then f\<lparr>buf := drop (start f) (buf f), start := 0\<rparr> else f);
          f2 = f1\<lparr>buf := buf f1 @ data\<rparr>
      in case complete_prefix (buf f2) of
           Inl e \<Rightarrow> (Inl e, f2)
         | Inr n \<Rightarrow>
            if n = 0
            then (if max_pending_bytes < length (buf f2)
                  then (Inl (FrameNoBoundary (length (buf f2))), f2)
                  else (Inr None, f2))
            else (Inr (Some (take n (buf f2))), f2\<lparr>start := n\<rparr>))"

text \<open>\<open>IsInternalPing\<close> and \<open>IsInternalMessage\<close>.\<close>

definition is_internal_ping :: "string \<Rightarrow> bool" where
  "is_internal_ping msg = has_prefix msg ''0.,4.ping,''"

definition is_internal_message :: "string \<Rightarrow> bool" where
  "is_internal_message msg \<longleftrightarrow> has_prefix msg ''0.,'' \<or> has_prefix msg ''0.;''"

text \<open>The bytes received but not yet emitted.\<close>

definition pending :: "framer \<Rightarrow> string" where "pending f = drop (start f) (buf f)"

text \<open>A run of the Framer over the reads of the connection: the frames, in order.\<close>

fun push_all :: "framer \<Rightarrow> string list \<Rightarrow> (frame_error + string list) \<times> framer" where
  "push_all f [] = (Inr [], f)"
| "push_all f (d # ds) = (case push f d of
     (Inl e, f') \<Rightarrow> (Inl e, f')
   | (Inr fr, f') \<Rightarrow>
      (case push_all f' ds of
         (Inl e, f'') \<Rightarrow> (Inl e, f'')
       | (Inr frs, f'') \<Rightarrow> (Inr (case fr of None \<Rightarrow> frs | Some x \<Rightarrow> x # frs), f'')))"

section \<open>One element: scanned and parsed alike\<close>

definition sep_char :: "bool \<Rightarrow> char" where
  "sep_char final = (if final then CHR '';'' else CHR '','')"

lemma sep_char_ascii [simp]: "byte (sep_char f) < 128"
  by (simp add: sep_char_def)

text \<open>Up to an ASCII byte after the value, skipping depends on nothing that follows it.\<close>

lemma skip_runes_stable:
  assumes "skip_runes n s = Some (sep # t)" "byte sep < 128"
  shows "\<exists>v rs. s = v @ sep # t \<and>
    (\<forall>u. skip_runes n (v @ sep # u) = Some (sep # u) \<and>
         read_value n (v @ sep # u) = Some (rs, sep # u))"
  using assms(1)
proof (induction n s rule: skip_runes.induct)
  case (1 s)
  then show ?case by (intro exI [of _ "[]"]) simp
next
  case (3 n c s)
  define k where "k = snd (decode_rune (c # s))"
  have k: "1 \<le> k" "k \<le> length (c # s)" using decode_rune_size [of "c # s"] by (simp_all add: k_def)
  have "skip_runes n (drop k (c # s)) = Some (sep # t)"
    using "3.prems" by (auto simp: k_def split: if_splits)
  moreover have "(byte c < 128 \<and> drop k (c # s) = s) \<or> (\<not> byte c < 128 \<and> full_rune (c # s))"
    using "3.prems" by (auto simp: k_def split: if_splits)
  ultimately obtain v rs where v: "drop k (c # s) = v @ sep # t" and
    IH: "\<And>u. skip_runes n (v @ sep # u) = Some (sep # u)"
        "\<And>u. read_value n (v @ sep # u) = Some (rs, sep # u)"
    using "3.IH" unfolding k_def by fastforce
  define w where "w = take k (c # s) @ v"
  have w: "c # s = w @ sep # t" using v append_take_drop_id [of k "c # s"] by (simp add: w_def)
  have wne: "w \<noteq> []" using k by (simp add: w_def take_Cons')
  then obtain w' where wc: "w = c # w'" using w by (cases w) auto
  have dec: "decode_rune (w @ sep # u) = (fst (decode_rune (c # s)), k)" for u
    using decode_rune_ascii_end [OF wne assms(2), of u t] w by (simp add: k_def)
  have dr: "drop k (w @ sep # u) = v @ sep # u" for u
    using k by (simp add: w_def)
  have "skip_runes (Suc n) (w @ sep # u) = Some (sep # u)" for u
  proof (cases "byte c < 128")
    case True
    have "drop (Suc 0) (w @ sep # u) = v @ sep # u"
      using dr [of u] dec [of u] True wc by simp
    then show ?thesis using True wc IH(1) by simp
  next
    case False
    have "full_rune (w @ sep # u)" by (rule full_rune_ascii_end [OF wne assms(2)])
    then show ?thesis using False wc IH(1) dec [of u] dr [of u] by simp
  qed
  moreover have "read_value (Suc n) (w @ sep # u) = Some (fst (decode_rune (c # s)) # rs, sep # u)" for u
    using dec [of u] dr [of u] IH(2) wne by simp
  ultimately show ?case using w by blast
qed simp

lemma scan_element_SepD:
  assumes "scan_element s = ScanSep f t"
  obtains ds n b where "s = ds @ CHR ''.'' # b" "ds \<noteq> []" "list_all is_digit ds"
    "n = dec_value ds" "n \<le> max_pending_bytes" "skip_runes n b = Some (sep_char f # t)"
    "scan_digits s 0 0 = Inr (n, length ds, CHR ''.'' # b)"
proof -
  from assms obtain n k b sep where d: "scan_digits s 0 0 = Inr (n, k, CHR ''.'' # b)" "k \<noteq> 0"
    and "skip_runes n b = Some (sep # t)" "sep = sep_char f"
    by (auto simp: scan_element_def sep_char_def split: sum.splits prod.splits list.splits if_splits option.splits)
  moreover from scan_digits_Inr [OF d(1)] obtain ds where "s = ds @ CHR ''.'' # b"
    "list_all is_digit ds" "n = dec_value ds" "k = length ds" "n \<le> max_pending_bytes"
    by (auto simp: dec_value_def)
  ultimately show thesis using that by auto
qed

lemma scan_digits_prefix:
  assumes "scan_digits (ds @ c # b) l k = Inr (n, m, c # b)" "\<not> is_digit c" "list_all is_digit ds"
  shows "scan_digits (ds @ c # u) l k = Inr (n, m, c # u)"
  using assms by (induction ds arbitrary: l k) (auto simp: Let_def split: if_splits)

text \<open>
  A scanned element is a byte string of its own: scanning and parsing it give the same result
  whatever follows, and the parser agrees on the separator.
\<close>

lemma scan_element_stable:
  assumes "scan_element s = ScanSep f t"
  shows "\<exists>w v. w \<noteq> [] \<and> s = w @ t \<and>
    (\<forall>u. scan_element (w @ u) = ScanSep f u \<and> read_element (w @ u) = Inr (v, sep_char f, u))"
proof -
  obtain ds n b where s: "s = ds @ CHR ''.'' # b" and ds: "ds \<noteq> []" "list_all is_digit ds"
    and n: "n = dec_value ds" "n \<le> max_pending_bytes" and sk: "skip_runes n b = Some (sep_char f # t)"
    and sd: "scan_digits s 0 0 = Inr (n, length ds, CHR ''.'' # b)"
    using assms by (rule scan_element_SepD)
  obtain v rs where b: "b = v @ sep_char f # t"
    and v: "\<And>u. skip_runes n (v @ sep_char f # u) = Some (sep_char f # u)"
           "\<And>u. read_value n (v @ sep_char f # u) = Some (rs, sep_char f # u)"
    using skip_runes_stable [OF sk sep_char_ascii] by blast
  define w where "w = ds @ CHR ''.'' # v @ [sep_char f]"
  have dot: "CHR ''.'' \<notin> set ds" using ds(2) by (auto simp: list_all_iff)
  have at: "atoi ds = Some (int n)"
    using atoi_digits [OF ds] n by (simp add: max_int64_def max_pending_bytes_def)
  have "scan_element (w @ u) = ScanSep f u" for u
  proof -
    have "scan_digits (w @ u) 0 0 = Inr (n, length ds, CHR ''.'' # v @ sep_char f # u)"
      using scan_digits_prefix [of ds "CHR ''.''" b 0 0 n "length ds" "v @ sep_char f # u"] sd s ds(2)
      by (simp add: w_def)
    then show ?thesis using ds(1) v(1) by (simp add: scan_element_def sep_char_def)
  qed
  moreover have "read_element (w @ u) = Inr (utf8_encode rs, sep_char f, u)" for u
    using read_element_InrI [OF dot at n(2) v(2)] by (simp add: w_def)
  moreover have "s = w @ t" "w \<noteq> []" by (simp_all add: s b w_def)
  ultimately show ?thesis by blast
qed

section \<open>Scanning under more input\<close>

lemma skip_runes_append:
  "skip_runes n s = Some r \<Longrightarrow> skip_runes n (s @ t) = Some (r @ t)"
proof (induction n s rule: skip_runes.induct)
  case (3 n c s)
  show ?case
  proof (cases "byte c < 128")
    case True
    with 3 show ?thesis by simp
  next
    case False
    with "3.prems" have full: "full_rune (c # s)" by (simp split: if_splits)
    have "full_rune (c # s @ t)" using full_rune_mono [OF full, of t] by simp
    moreover have "decode_rune (c # s @ t) = decode_rune (c # s)"
      using full_rune_append [OF full, of t] by simp
    moreover have "drop (snd (decode_rune (c # s))) (c # s @ t) = drop (snd (decode_rune (c # s))) (c # s) @ t"
      using decode_rune_size_le [of "c # s"] by (cases "snd (decode_rune (c # s))") simp_all
    ultimately show ?thesis using 3 False full by simp
  qed
qed auto

lemma scan_digits_append:
  "scan_digits s l k = Inl e \<Longrightarrow> scan_digits (s @ t) l k = Inl e"
  "scan_digits s l k = Inr (n, m, c # b) \<Longrightarrow> scan_digits (s @ t) l k = Inr (n, m, c # b @ t)"
  by (induction s l k rule: scan_digits.induct) (auto simp: Let_def split: if_splits)

lemma scan_element_error_append:
  assumes "scan_element s = ScanError e"
  shows "scan_element (s @ t) = ScanError e"
proof (cases "scan_digits s 0 0")
  case (Inl x)
  then show ?thesis using assms scan_digits_append(1) [OF Inl] by (simp add: scan_element_def)
next
  case (Inr r)
  then obtain n k b where d: "scan_digits s 0 0 = Inr (n, k, b)" by (cases r) auto
  with assms obtain c b' where b: "b = c # b'" by (cases b) (auto simp: scan_element_def)
  note d' = scan_digits_append(2) [OF d [unfolded b], of t]
  show ?thesis
  proof (cases "k = 0 \<or> c \<noteq> CHR ''.''")
    case True
    then show ?thesis using assms d d' b by (simp add: scan_element_def)
  next
    case False
    with assms d b obtain x r where "skip_runes n b' = Some (x # r)" "x \<noteq> CHR '',''" "x \<noteq> CHR '';''"
      "e = FrameSeparator x"
      by (auto simp: scan_element_def split: option.splits list.splits if_splits)
    with False d' skip_runes_append [of n b' "x # r" t] show ?thesis
      by (simp add: scan_element_def)
  qed
qed

lemma prefix_loop_Nil [simp]: "prefix_loop [] p d = Inr d"
  by (simp add: prefix_loop.simps)

lemma prefix_loop_step:
  "scan_element s = ScanSep f t \<Longrightarrow>
   prefix_loop s p d = prefix_loop t (p + (length s - length t)) (if f then p + (length s - length t) else d)"
  using scan_element_shorter [of s f t] by (subst prefix_loop.simps) (auto simp: Let_def)

lemma prefix_loop_shift:
  "prefix_loop s (p + q) (d + q) = map_sum id (\<lambda>n. n + q) (prefix_loop s p d)"
proof (induction s p d rule: prefix_loop.induct)
  case (1 s p d)
  show ?case
  proof (cases "s = []")
    case False
    show ?thesis
    proof (cases "scan_element s")
      case (ScanSep f t)
      from "1.IH" [OF False ScanSep refl] show ?thesis
        by (simp add: prefix_loop_step [OF ScanSep] algebra_simps split: if_splits)
    qed (use False in \<open>simp_all add: prefix_loop.simps [of s]\<close>)
  qed simp
qed

lemma prefix_loop_error_append:
  "prefix_loop s p d = Inl e \<Longrightarrow> prefix_loop (s @ t) p d = Inl e"
proof (induction s p d rule: prefix_loop.induct)
  case (1 s p d)
  then have ne: "s \<noteq> []" by auto
  show ?case
  proof (cases "scan_element s")
    case (ScanError x)
    with "1.prems" ne scan_element_error_append [OF ScanError, of t] show ?thesis
      by (simp add: prefix_loop.simps [of s] prefix_loop.simps [of "s @ t"])
  next
    case ScanMore
    with "1.prems" ne show ?thesis by (simp add: prefix_loop.simps [of s])
  next
    case (ScanSep f u)
    from scan_element_stable [OF ScanSep] obtain w where w: "s = w @ u"
      "scan_element (w @ (u @ t)) = ScanSep f (u @ t)" by blast
    then have st: "scan_element (s @ t) = ScanSep f (u @ t)" by simp
    have len: "length s - length u = length w" "length (s @ t) - length (u @ t) = length w"
      using w(1) by simp_all
    from "1.IH" [OF ne ScanSep refl] "1.prems" show ?thesis
      unfolding prefix_loop_step [OF ScanSep] prefix_loop_step [OF st] len by simp
  qed
qed

lemma complete_prefix_error_append:
  "complete_prefix s = Inl e \<Longrightarrow> complete_prefix (s @ t) = Inl e"
  by (simp add: complete_prefix_def prefix_loop_error_append)

text \<open>
  A prefix the loop accepts is the rest of an instruction followed by whole instructions, and
  the parser reads it, whatever follows.
\<close>

definition parses :: "string \<Rightarrow> bool" where
  "parses x \<longleftrightarrow> (\<forall>acc. \<exists>i t is. read_all t = Inr is \<and> (\<forall>u. read_elements acc (x @ u) = Inr (i, t @ u)))"

lemma parses_read_all:
  assumes "parses x"
  shows "\<exists>is. is \<noteq> [] \<and> read_all x = Inr is"
proof -
  obtain i t "is" where r: "read_all t = Inr is" "\<And>u. read_elements [] (x @ u) = Inr (i, t @ u)"
    using assms unfolding parses_def by blast
  have "read_instruction x = Inr (i, t)" using r(2) [of "[]"] by (simp add: read_instruction_def)
  moreover have "x \<noteq> []" using calculation by (auto simp: read_instruction_def read_elements.simps [of "[]" "[]"] read_element_def)
  ultimately show ?thesis using r(1) by (subst read_all.simps) auto
qed

lemma prefix_loop_parses:
  "prefix_loop s p d = Inr n \<Longrightarrow>
   n = d \<or> (\<exists>x y. s = x @ y \<and> n = p + length x \<and> parses x)"
proof (induction s p d rule: prefix_loop.induct)
  case (1 s p d)
  show ?case
  proof (cases "s = [] \<or> (\<forall>f t. scan_element s \<noteq> ScanSep f t)")
    case True
    with "1.prems" show ?thesis
      by (cases "scan_element s") (auto simp: prefix_loop.simps [of s] split: if_splits)
  next
    case False
    then obtain f t where ne: "s \<noteq> []" and e: "scan_element s = ScanSep f t" by blast
    obtain w v where w: "s = w @ t" and v: "\<And>u. read_element (w @ u) = Inr (v, sep_char f, u)"
      using scan_element_stable [OF e] by blast
    let ?p = "p + length w" and ?d = "if f then p + length w else d"
    have len: "length s - length t = length w" using w by simp
    have step: "prefix_loop t ?p ?d = Inr n"
      using "1.prems" unfolding prefix_loop_step [OF e] len .
    have IH: "n = ?d \<or> (\<exists>x y. t = x @ y \<and> n = ?p + length x \<and> parses x)"
      using "1.IH" [OF ne e refl, unfolded len] step by blast
    have parses_w: "parses (w @ x)" if x: "f \<and> x = [] \<or> parses x" for x
      unfolding parses_def
    proof
      fix acc
      show "\<exists>i u is. read_all u = Inr is \<and> (\<forall>r. read_elements acc ((w @ x) @ r) = Inr (i, u @ r))"
      proof (cases f)
        case True
        obtain "is" where "read_all x = Inr is" using x parses_read_all by fastforce
        moreover have "read_elements acc ((w @ x) @ r)
            = Inr (\<lparr>opcode = hd (acc @ [v]), args = tl (acc @ [v])\<rparr>, x @ r)" for r
          using True v [of "x @ r"] by (subst read_elements.simps) (simp add: sep_char_def)
        ultimately show ?thesis by blast
      next
        case False
        with x obtain i u "is" where "read_all u = Inr is"
          "\<And>r. read_elements (acc @ [v]) (x @ r) = Inr (i, u @ r)"
          unfolding parses_def by blast
        moreover have "read_elements acc ((w @ x) @ r) = read_elements (acc @ [v]) (x @ r)" for r
          using False v [of "x @ r"] by (subst read_elements.simps) (simp add: sep_char_def)
        ultimately show ?thesis by metis
      qed
    qed
    from IH show ?thesis
    proof
      assume "n = ?d"
      then show ?thesis
      proof (cases f)
        case True
        with \<open>n = ?d\<close> w parses_w [of "[]"] show ?thesis by (intro disjI2 exI [of _ w] exI [of _ t]) simp
      qed simp
    next
      assume "\<exists>x y. t = x @ y \<and> n = ?p + length x \<and> parses x"
      then obtain x y where "t = x @ y" "n = ?p + length x" "parses x" by blast
      with w parses_w [of x] show ?thesis by (intro disjI2 exI [of _ "w @ x"] exI [of _ y]) simp
    qed
  qed
qed

lemma complete_prefix_parses:
  assumes "complete_prefix b = Inr n" "n \<noteq> 0"
  shows "n \<le> length b \<and> parses (take n b)"
  using prefix_loop_parses [OF assms(1) [unfolded complete_prefix_def]] assms(2) by auto

section \<open>Legal streams\<close>

lemma foldl_dec_step_ge: "l \<le> foldl dec_step l ds"
proof (induction ds arbitrary: l)
  case (Cons d ds)
  have "l \<le> dec_step l d" by (simp add: dec_step_def)
  also have "\<dots> \<le> foldl dec_step (dec_step l d) ds" by (rule Cons.IH)
  finally show ?case by simp
qed simp

lemma scan_digits_legal:
  "list_all is_digit ds \<Longrightarrow> foldl dec_step l ds \<le> max_pending_bytes \<Longrightarrow> \<not> is_digit c \<Longrightarrow>
   scan_digits (ds @ c # b) l k = Inr (foldl dec_step l ds, k + length ds, c # b)"
proof (induction ds arbitrary: l k)
  case (Cons d ds)
  have "dec_step l d \<le> foldl dec_step (dec_step l d) ds" by (rule foldl_dec_step_ge)
  with Cons show ?case by (simp add: Let_def)
qed simp

lemma skip_runes_step:
  "s \<noteq> [] \<Longrightarrow> full_rune s \<Longrightarrow> skip_runes (Suc n) s = skip_runes n (drop (snd (decode_rune s)) s)"
  by (cases s) simp_all

lemma skip_runes_encode:
  "list_all scalar rs \<Longrightarrow> skip_runes (length rs) (utf8_encode rs @ t) = Some t"
  by (induction rs) (simp_all add: skip_runes_step del: skip_runes.simps(3))

lemma skip_runes_valid:
  assumes "valid_utf8 v"
  shows "skip_runes (length (runes v)) (v @ t) = Some t"
proof -
  have "list_all scalar (runes v)" by (auto simp: list_all_iff runes_scalar)
  from skip_runes_encode [OF this, of t] assms show ?thesis by (simp add: valid_utf8_def)
qed

lemma scan_element_write [simp]:
  assumes "wf_element v"
  shows "scan_element (write_element v @ sep_char f # t) = ScanSep f t"
proof -
  define ds where "ds = nat_to_dec (length (runes v))"
  have "foldl dec_step 0 ds = length (runes v)"
    using dec_value_nat_to_dec [of "length (runes v)"] by (simp add: ds_def dec_value_def)
  moreover have "list_all is_digit ds" "ds \<noteq> []" by (simp_all add: ds_def nat_to_dec_digits)
  moreover have "length (runes v) \<le> max_pending_bytes" "valid_utf8 v"
    using assms by (simp_all add: wf_element_def)
  ultimately show ?thesis
    by (simp add: scan_element_def write_element_def ds_def [symmetric] scan_digits_legal
        skip_runes_valid) (simp add: sep_char_def)
qed

lemma prefix_loop_args:
  assumes "list_all wf_element (v # vs)"
  shows "prefix_loop (write_element v @ concat (map (\<lambda>a. CHR '','' # write_element a) vs) @ CHR '';'' # t) p d
    = prefix_loop t (p + length (write_element v @ concat (map (\<lambda>a. CHR '','' # write_element a) vs) @ '';''))
        (p + length (write_element v @ concat (map (\<lambda>a. CHR '','' # write_element a) vs) @ '';''))"
  using assms
proof (induction vs arbitrary: p v)
  case Nil
  then have "scan_element (write_element v @ CHR '';'' # t) = ScanSep True t"
    using scan_element_write [of v True t] by (simp add: sep_char_def)
  from prefix_loop_step [OF this] show ?case by simp
next
  case (Cons w vs)
  define t' where "t' = write_element w @ concat (map (\<lambda>a. CHR '','' # write_element a) vs) @ CHR '';'' # t"
  have "scan_element (write_element v @ CHR '','' # t') = ScanSep False t'"
    using scan_element_write [of v False t'] Cons.prems by (simp add: sep_char_def)
  from prefix_loop_step [OF this]
  have "prefix_loop (write_element v @ CHR '','' # t') p d = prefix_loop t' (p + Suc (length (write_element v))) d"
    by simp
  then show ?case using Cons by (simp add: t'_def algebra_simps)
qed

lemma prefix_loop_encode:
  assumes "wf_instruction i"
  shows "prefix_loop (encode i @ t) p d = prefix_loop t (p + length (encode i)) (p + length (encode i))"
  using prefix_loop_args [of "opcode i" "args i" t p d] assms
  by (simp add: encode_def wf_instruction_def)

lemma complete_prefix_encode_all:
  assumes "list_all wf_instruction is"
  shows "complete_prefix (encode_all is @ q) = map_sum id (\<lambda>n. n + length (encode_all is)) (complete_prefix q)"
proof -
  have "prefix_loop (encode_all is @ q) p p = prefix_loop q (p + length (encode_all is)) (p + length (encode_all is))" for p
    using assms by (induction "is" arbitrary: p) (simp_all add: prefix_loop_encode algebra_simps)
  from this [of 0] show ?thesis
    using prefix_loop_shift [of q 0 "length (encode_all is)" 0] by (simp add: complete_prefix_def)
qed

text \<open>A proper prefix of one instruction holds no boundary.\<close>

lemma complete_prefix_partial:
  assumes wf: "wf_instruction i" and b: "encode i = b @ z" "z \<noteq> []"
  shows "complete_prefix b = Inr 0"
proof (cases "complete_prefix b")
  case (Inl e)
  then have "complete_prefix (encode i) = Inl e" using b by (simp add: complete_prefix_error_append)
  moreover have "complete_prefix (encode_all [i] @ []) = Inr (length (encode i))"
    using wf by (subst complete_prefix_encode_all) (simp_all add: complete_prefix_def)
  ultimately show ?thesis by simp
next
  case (Inr n)
  show ?thesis
  proof (cases "n = 0")
    case False
    then have "parses (take n b)" using complete_prefix_parses [OF Inr] by blast
    then obtain j t where "read_elements [] (take n b @ u) = Inr (j, t @ u)" for u
      unfolding parses_def by blast
    from this [of "drop n b @ z"] have "read_elements [] (b @ z) = Inr (j, t @ drop n b @ z)"
      by (metis append.assoc append_take_drop_id)
    then have "read_instruction (encode i) = Inr (j, t @ drop n b @ z)"
      using b by (simp add: read_instruction_def)
    with read_instruction_encode [OF wf, of "[]"] b show ?thesis by simp
  qed (simp add: Inr)
qed

lemma split_stream:
  assumes "b @ r = encode_all is" "list_all wf_instruction is"
    "list_all (\<lambda>i. length (encode i) \<le> max_pending_bytes) is"
  shows "\<exists>js ks q. is = js @ ks \<and> b = encode_all js @ q \<and> q @ r = encode_all ks
    \<and> complete_prefix q = Inr 0 \<and> length q \<le> max_pending_bytes"
  using assms
proof (induction "is" arbitrary: b)
  case Nil
  then show ?case by (simp add: complete_prefix_def)
next
  case (Cons i "is")
  show ?case
  proof (cases "length (encode i) \<le> length b")
    case True
    define b' where "b' = drop (length (encode i)) b"
    have "take (length (encode i)) (b @ r) = encode i" using Cons.prems(1) by simp
    with True have "b = encode i @ b'"
      unfolding b'_def by (metis append_take_drop_id diff_is_0_eq take0 append_Nil2 take_append)
    with Cons.prems(1) have b: "b = encode i @ b'" "b' @ r = encode_all is" by simp_all
    from Cons.IH [OF b(2)] Cons.prems obtain js ks q where "is = js @ ks" "b' = encode_all js @ q"
      "q @ r = encode_all ks" "complete_prefix q = Inr 0" "length q \<le> max_pending_bytes" by auto
    with b show ?thesis by (intro exI [of _ "i # js"] exI [of _ ks] exI [of _ q]) simp
  next
    case False
    have "take (length b) (encode i @ encode_all is) = b"
      using Cons.prems(1) by (metis append_eq_conv_conj encode_all_simps(2))
    with False have "take (length b) (encode i) = b" by simp
    then have z: "encode i = b @ drop (length b) (encode i)" by (metis append_take_drop_id)
    have ne: "drop (length b) (encode i) \<noteq> []" using False by simp
    have "complete_prefix b = Inr 0" by (rule complete_prefix_partial [OF _ z ne]) (use Cons.prems in simp)
    with False Cons.prems show ?thesis
      by (intro exI [of _ "[]"] exI [of _ "i # is"] exI [of _ b]) auto
  qed
qed

section \<open>Runs of the Framer\<close>

lemma push_buf:
  "push f data = (case complete_prefix (pending f @ data) of
     Inl e \<Rightarrow> (Inl e, \<lparr>buf = pending f @ data, start = 0\<rparr>)
   | Inr n \<Rightarrow>
      if n = 0
      then (if max_pending_bytes < length (pending f @ data)
            then (Inl (FrameNoBoundary (length (pending f @ data))), \<lparr>buf = pending f @ data, start = 0\<rparr>)
            else (Inr None, \<lparr>buf = pending f @ data, start = 0\<rparr>))
      else (Inr (Some (take n (pending f @ data))), \<lparr>buf = pending f @ data, start = n\<rparr>))"
  by (cases f) (auto simp: push_def pending_def Let_def split: sum.splits)

lemma push_Inr:
  assumes "complete_prefix (pending f @ d) = Inr n" "n = 0 \<Longrightarrow> length (pending f @ d) \<le> max_pending_bytes"
  shows "push f d = (Inr (if n = 0 then None else Some (take n (pending f @ d))),
    \<lparr>buf = pending f @ d, start = n\<rparr>)"
  unfolding push_buf using assms by (cases "n = 0") simp_all

lemma push_conserves:
  assumes "push f d = (Inr fr, f')"
  shows "(case fr of None \<Rightarrow> [] | Some x \<Rightarrow> x) @ pending f' = pending f @ d"
  using assms
  by (auto simp: push_buf pending_def [of f'] simp del: take_append drop_append split: sum.splits if_splits)

lemma push_all_conserves:
  "push_all f ds = (Inr frs, f') \<Longrightarrow> concat frs @ pending f' = pending f @ concat ds"
proof (induction ds arbitrary: f frs)
  case Nil
  then show ?case by simp
next
  case (Cons d ds)
  from Cons.prems obtain fr g grs where p: "push f d = (Inr fr, g)" and r: "push_all g ds = (Inr grs, f')"
    and frs: "frs = (case fr of None \<Rightarrow> grs | Some x \<Rightarrow> x # grs)"
    by (auto split: prod.splits sum.splits)
  have "concat frs @ pending f' = (case fr of None \<Rightarrow> [] | Some x \<Rightarrow> x) @ pending g @ concat ds"
    using Cons.IH [OF r] frs by (cases fr) simp_all
  with push_conserves [OF p] show ?case by (metis append.assoc concat.simps(2))
qed

lemma push_frame_parses:
  assumes "push f d = (Inr (Some x), f')"
  shows "\<exists>is. is \<noteq> [] \<and> read_all x = Inr is"
proof -
  obtain n where "complete_prefix (pending f @ d) = Inr n" "n \<noteq> 0" "x = take n (pending f @ d)"
    using assms by (auto simp: push_buf split: sum.splits if_splits)
  with complete_prefix_parses parses_read_all show ?thesis by blast
qed

text \<open>
  One read of a legal stream: the frame holds whole instructions, and what stays pending is a
  proper beginning of the next one.
\<close>

lemma push_legal:
  assumes "(pending f @ d) @ r = encode_all is" "list_all wf_instruction is"
    "list_all (\<lambda>i. length (encode i) \<le> max_pending_bytes) is"
  obtains js ks g where "is = js @ ks"
    "push f d = (Inr (if js = [] then None else Some (encode_all js)), g)"
    "pending g @ r = encode_all ks" "complete_prefix (pending g) = Inr 0"
proof -
  from split_stream [OF assms] obtain js ks q where jk: "is = js @ ks"
    and b: "pending f @ d = encode_all js @ q" and q: "q @ r = encode_all ks"
    "complete_prefix q = Inr 0" "length q \<le> max_pending_bytes" by blast
  have cp: "complete_prefix (pending f @ d) = Inr (length (encode_all js))"
    using assms(2) jk q(2) by (simp add: b complete_prefix_encode_all)
  define g where "g = \<lparr>buf = pending f @ d, start = length (encode_all js)\<rparr>"
  have "js = [] \<longleftrightarrow> length (encode_all js) = 0" by (cases js) simp_all
  then have "push f d = (Inr (if js = [] then None else Some (encode_all js)), g)"
    using push_Inr [OF cp] q(3) b by (auto simp: g_def)
  moreover have "pending g = q" by (simp add: g_def b pending_def [of "\<lparr>buf = _, start = _\<rparr>"])
  ultimately show thesis using that jk q by blast
qed

lemma complete_prefix_encode_all_Nil:
  "list_all wf_instruction is \<Longrightarrow> complete_prefix (encode_all is) = Inr 0 \<Longrightarrow> is = []"
  using complete_prefix_encode_all [of "is" "[]"]
  by (cases "is") (simp_all add: complete_prefix_def)

lemma push_all_legal:
  assumes "pending f @ concat ds = encode_all is" "list_all wf_instruction is"
    "list_all (\<lambda>i. length (encode i) \<le> max_pending_bytes) is"
    "complete_prefix (pending f) = Inr 0"
  shows "\<exists>iss f'. push_all f ds = (Inr (map encode_all iss), f') \<and> concat iss = is
    \<and> [] \<notin> set iss \<and> pending f' = []"
  using assms
proof (induction ds arbitrary: f "is")
  case Nil
  then have "is = []" by (intro complete_prefix_encode_all_Nil) simp_all
  with Nil show ?case by (intro exI [of _ "[]"]) simp
next
  case (Cons d ds)
  have "(pending f @ d) @ concat ds = encode_all is" using Cons.prems(1) by simp
  then obtain js ks g where jk: "is = js @ ks"
    and g: "push f d = (Inr (if js = [] then None else Some (encode_all js)), g)"
    and k: "pending g @ concat ds = encode_all ks" "complete_prefix (pending g) = Inr 0"
    using Cons.prems(2,3) by (rule push_legal)
  have "list_all wf_instruction ks" "list_all (\<lambda>i. length (encode i) \<le> max_pending_bytes) ks"
    using Cons.prems(2,3) jk by simp_all
  from Cons.IH [OF k(1) this k(2)] obtain iss f' where r: "push_all g ds = (Inr (map encode_all iss), f')"
    "concat iss = ks" "[] \<notin> set iss" "pending f' = []"
    by blast
  have "push_all f (d # ds) = (Inr (map encode_all (if js = [] then iss else js # iss)), f')"
    by (simp add: g r(1))
  moreover have "concat (if js = [] then iss else js # iss) = is" using r(2) jk by simp
  moreover have "[] \<notin> set (if js = [] then iss else js # iss)" using r(3) by simp
  ultimately show ?case using r(4) by blast
qed

lemma pending_new_framer [simp]: "pending new_framer = []" "complete_prefix [] = Inr 0"
  by (simp_all add: pending_def new_framer_def complete_prefix_def)

section \<open>Properties\<close>

text \<open>C22: However the reads split a stream of instructions that each fit the buffer, the Framer never reports an
  error, its frames hold whole instructions in order, and nothing is left once the stream is read.\<close>

theorem framer_reassembles:
  assumes "concat ds = encode_all is" "list_all wf_instruction is"
    "list_all (\<lambda>i. length (encode i) \<le> max_pending_bytes) is"
  shows "\<exists>iss f'. push_all new_framer ds = (Inr (map encode_all iss), f') \<and> concat iss = is \<and>
    [] \<notin> set iss \<and> pending f' = []"
  using push_all_legal [of new_framer ds "is"] assms by simp

text \<open>On any bytes, from a correct peer or not: the frames emitted and the bytes pending are the bytes read, and
  every frame parses into at least one instruction.\<close>

lemma framer_frames_parse:
  assumes "push_all new_framer ds = (Inr frs, f')"
  shows "concat frs @ pending f' = concat ds \<and> (\<forall>x \<in> set frs. \<exists>is. is \<noteq> [] \<and> read_all x = Inr is)"
proof
  show "concat frs @ pending f' = concat ds" using push_all_conserves [OF assms] by simp
  have "push_all f ds = (Inr frs, f') \<Longrightarrow> x \<in> set frs \<Longrightarrow> \<exists>is. is \<noteq> [] \<and> read_all x = Inr is" for f x
  proof (induction ds arbitrary: f frs)
    case (Cons d ds)
    from Cons.prems(1) obtain fr g grs where p: "push f d = (Inr fr, g)" and r: "push_all g ds = (Inr grs, f')"
      and frs: "frs = (case fr of None \<Rightarrow> grs | Some x \<Rightarrow> x # grs)"
      by (auto split: prod.splits sum.splits)
    from Cons.prems(2) frs have "x \<in> set grs \<or> fr = Some x" by (auto split: option.splits)
    with Cons.IH [OF r] push_frame_parses [of f d x g] p show ?case by blast
  qed simp
  with assms show "\<forall>x \<in> set frs. \<exists>is. is \<noteq> [] \<and> read_all x = Inr is" by blast
qed

lemma encode_nop: "encode \<lparr>opcode = ''nop'', args = []\<rparr> = ''3.nop;''"
proof -
  have "nat_to_dec 3 = ''3''" by code_simp
  moreover have "length (runes ''nop'') = 3" by (simp add: runes_ascii)
  ultimately show ?thesis by (simp add: encode_def write_element_def)
qed

theorem framer_reassembles_witness:
  "\<exists>iss f'. push_all new_framer [''3.n'', ''op;3.'', ''nop;''] = (Inr (map encode_all iss), f') \<and>
     concat iss = [\<lparr>opcode = ''nop'', args = []\<rparr>, \<lparr>opcode = ''nop'', args = []\<rparr>] \<and> [] \<notin> set iss \<and> pending f' = []"
  by (rule framer_reassembles) (simp_all add: encode_nop wf_instruction_ascii max_pending_bytes_def)

theorem framer_frames_parse_witness:
  "\<exists>frs f'. push_all new_framer [''3.n'', ''op;''] = (Inr frs, f') \<and> concat frs @ pending f' = ''3.nop;'' \<and>
    (\<forall>x \<in> set frs. \<exists>is. is \<noteq> [] \<and> read_all x = Inr is)"
proof -
  have "\<exists>iss f'. push_all new_framer [''3.n'', ''op;''] = (Inr (map encode_all iss), f') \<and>
      concat iss = [\<lparr>opcode = ''nop'', args = []\<rparr>] \<and> [] \<notin> set iss \<and> pending f' = []"
    by (rule push_all_legal) (simp_all add: encode_nop wf_instruction_ascii max_pending_bytes_def)
  then obtain frs f' where "push_all new_framer [''3.n'', ''op;''] = (Inr frs, f')" by blast
  with framer_frames_parse [OF this] show ?thesis by auto
qed

end
