(* ===== verification/Guac_Clipboard.thy ===== *)
theory Guac_Clipboard
  imports Guac_Framing
begin

text \<open>
  \<open>wwt/internal/guac/clipboard.go\<close>: the filter that enforces the clipboard grant of the
  connection token on the live instruction stream. The two sets of blocked stream indices are
  the Go maps; the two counters are the \<open>ClipboardBlocked\<close> metric, one per direction. The mutex
  makes each operation atomic, so an operation is a function from the filter to the filter.
  The lemmas show the byte-level operations to implement a filter on instruction lists, the
  fast path to change nothing, and the grant to bound every user toggle.
\<close>

record clipboard_filter =
  grant_copy :: bool
  grant_paste :: bool
  want_copy :: bool
  want_paste :: bool
  blocked_server :: "string set"
  blocked_client :: "string set"
  metric_copy :: nat
  metric_paste :: nat

definition new_clipboard_filter :: "bool \<Rightarrow> bool \<Rightarrow> clipboard_filter" where
  "new_clipboard_filter allow_copy allow_paste =
     \<lparr>grant_copy = allow_copy, grant_paste = allow_paste,
      want_copy = allow_copy, want_paste = allow_paste,
      blocked_server = {}, blocked_client = {}, metric_copy = 0, metric_paste = 0\<rparr>"

definition set_copy :: "clipboard_filter \<Rightarrow> bool \<Rightarrow> bool \<times> clipboard_filter" where
  "set_copy f enabled =
     (let f' = f\<lparr>want_copy := enabled \<and> grant_copy f\<rparr> in (want_copy f', f'))"

definition set_paste :: "clipboard_filter \<Rightarrow> bool \<Rightarrow> bool \<times> clipboard_filter" where
  "set_paste f enabled =
     (let f' = f\<lparr>want_paste := enabled \<and> grant_paste f\<rparr> in (want_paste f', f'))"

definition copy_blocked :: "clipboard_filter \<Rightarrow> bool" where "copy_blocked f = (\<not> want_copy f)"
definition paste_blocked :: "clipboard_filter \<Rightarrow> bool" where "paste_blocked f = (\<not> want_paste f)"

datatype side = Server | Client

definition blocked :: "side \<Rightarrow> clipboard_filter \<Rightarrow> string set" where
  "blocked sd f = (case sd of Server \<Rightarrow> blocked_server f | Client \<Rightarrow> blocked_client f)"

definition direction_blocked :: "side \<Rightarrow> clipboard_filter \<Rightarrow> bool" where
  "direction_blocked sd f = (case sd of Server \<Rightarrow> copy_blocked f | Client \<Rightarrow> paste_blocked f)"

definition set_blocked :: "side \<Rightarrow> string set \<Rightarrow> clipboard_filter \<Rightarrow> clipboard_filter" where
  "set_blocked sd B f = (case sd of Server \<Rightarrow> f\<lparr>blocked_server := B\<rparr> | Client \<Rightarrow> f\<lparr>blocked_client := B\<rparr>)"

definition count_blocked :: "side \<Rightarrow> clipboard_filter \<Rightarrow> clipboard_filter" where
  "count_blocked sd f = (case sd of Server \<Rightarrow> f\<lparr>metric_copy := Suc (metric_copy f)\<rparr>
                                  | Client \<Rightarrow> f\<lparr>metric_paste := Suc (metric_paste f)\<rparr>)"

text \<open>The error ack of a refused client stream (0x0303 CLIENT_FORBIDDEN).\<close>

definition forbidden_ack :: "string \<Rightarrow> instruction" where
  "forbidden_ack idx = \<lparr>opcode = ''ack'', args = [idx, ''clipboard disabled by policy'', ''771'']\<rparr>"

text \<open>
  The body of the loop of \<open>rewriteWithReplies\<close> for one instruction: the new filter, whether the
  instruction is kept, and the acks it caused. \<open>db\<close> is \<open>directionBlocked\<close>, computed once.
\<close>

definition filter_step ::
  "side \<Rightarrow> bool \<Rightarrow> clipboard_filter \<Rightarrow> instruction \<Rightarrow> clipboard_filter \<times> bool \<times> instruction list" where
  "filter_step sd db f i =
     (if opcode i = ''clipboard'' then
        (case args i of
           [] \<Rightarrow> (f, True, [])
         | idx # _ \<Rightarrow>
            if db
            then (count_blocked sd (set_blocked sd (insert idx (blocked sd f)) f), False,
                  if sd = Client then [forbidden_ack idx] else [])
            else (f, True, []))
      else if opcode i = ''blob'' then
        (case args i of
           [] \<Rightarrow> (f, True, [])
         | idx # _ \<Rightarrow> (f, idx \<notin> blocked sd f, []))
      else if opcode i = ''end'' then
        (case args i of
           [] \<Rightarrow> (f, True, [])
         | idx # _ \<Rightarrow>
            if idx \<in> blocked sd f then (set_blocked sd (blocked sd f - {idx}) f, False, [])
            else (f, True, []))
      else (f, True, []))"

function rewrite_loop ::
  "side \<Rightarrow> bool \<Rightarrow> clipboard_filter \<Rightarrow> string \<Rightarrow> string \<Rightarrow> string
     \<Rightarrow> (guac_error + string \<times> string option) \<times> clipboard_filter" where
  "rewrite_loop sd db f s out reply =
     (if s = [] then (Inr (out, if reply = [] then None else Some reply), f)
      else case read_instruction s of
        Inl e \<Rightarrow> (Inl e, f)
      | Inr (i, t) \<Rightarrow>
         (case filter_step sd db f i of
            (f', keep, acks) \<Rightarrow>
              rewrite_loop sd db f' t (if keep then out @ encode i else out) (reply @ encode_all acks)))"
  by pat_completeness auto
termination
  by (relation "measure (\<lambda>(sd, db, f, s, out, reply). length s)")
    (auto simp: read_instruction_def read_elements_shorter)

declare rewrite_loop.simps [simp del]

definition rewrite_with_replies ::
  "clipboard_filter \<Rightarrow> string \<Rightarrow> side \<Rightarrow> (guac_error + string \<times> string option) \<times> clipboard_filter" where
  "rewrite_with_replies f frame sd = rewrite_loop sd (direction_blocked sd f) f frame [] []"

definition rewrite :: "clipboard_filter \<Rightarrow> string \<Rightarrow> side \<Rightarrow> (guac_error + string) \<times> clipboard_filter" where
  "rewrite f frame sd = (case rewrite_with_replies f frame sd of
     (Inl e, f') \<Rightarrow> (Inl e, f') | (Inr (kept, _), f') \<Rightarrow> (Inr kept, f'))"

definition clipboard_opcode :: string where "clipboard_opcode = ''9.clipboard,''"

definition filter_to_browser :: "clipboard_filter \<Rightarrow> string \<Rightarrow> (guac_error + string) \<times> clipboard_filter" where
  "filter_to_browser f frame =
     (if blocked_server f = {} \<and> (\<not> copy_blocked f \<or> \<not> contains frame clipboard_opcode)
      then (Inr frame, f)
      else rewrite f frame Server)"

definition filter_to_guacd ::
  "clipboard_filter \<Rightarrow> string \<Rightarrow> (guac_error + string \<times> string option) \<times> clipboard_filter" where
  "filter_to_guacd f message =
     (if \<not> paste_blocked f \<and> blocked_client f = {} then (Inr (message, None), f)
      else rewrite_with_replies f message Client)"

text \<open>The tunnel-internal control; \<open>None\<close> is the nil reply of an unrecognised message.\<close>

definition control_clipboard :: string where "control_clipboard = ''waas-clipboard''"

definition control_reply :: "string \<Rightarrow> bool \<Rightarrow> string" where
  "control_reply dir effective =
     encode \<lparr>opcode = [], args = [control_clipboard, dir, if effective then ''1'' else ''0'']\<rparr>"

definition handle_control :: "clipboard_filter \<Rightarrow> string \<Rightarrow> string option \<times> clipboard_filter" where
  "handle_control f message = (case read_instruction message of
     Inl e \<Rightarrow> (None, f)
   | Inr (i, _) \<Rightarrow>
      (if opcode i \<noteq> [] \<or> length (args i) < 3 \<or> args i ! 0 \<noteq> control_clipboard then (None, f)
       else let enable = (args i ! 2 = ''1'') in
         if args i ! 1 = ''copy''
           then (case set_copy f enable of (eff, f') \<Rightarrow> (Some (control_reply ''copy'' eff), f'))
         else if args i ! 1 = ''paste''
           then (case set_paste f enable of (eff, f') \<Rightarrow> (Some (control_reply ''paste'' eff), f'))
         else (None, f)))"

section \<open>The filter on instruction lists\<close>

fun filter_instructions ::
  "side \<Rightarrow> bool \<Rightarrow> clipboard_filter \<Rightarrow> instruction list
     \<Rightarrow> instruction list \<times> instruction list \<times> clipboard_filter" where
  "filter_instructions sd db f [] = ([], [], f)"
| "filter_instructions sd db f (i # is) =
     (case filter_step sd db f i of (f', keep, acks) \<Rightarrow>
        (case filter_instructions sd db f' is of (kept, replies, f'') \<Rightarrow>
           (if keep then i # kept else kept, acks @ replies, f'')))"

lemma read_all_Cons:
  "s \<noteq> [] \<Longrightarrow> read_all s = Inr is \<longleftrightarrow>
     (\<exists>i t js. read_instruction s = Inr (i, t) \<and> read_all t = Inr js \<and> is = i # js)"
  by (subst read_all.simps) (auto split: sum.splits prod.splits)

lemma rewrite_loop_instructions:
  assumes "read_all s = Inr is"
  shows "rewrite_loop sd db f s out reply =
    (case filter_instructions sd db f is of (kept, replies, f') \<Rightarrow>
       (Inr (out @ encode_all kept,
             if reply @ encode_all replies = [] then None else Some (reply @ encode_all replies)), f'))"
  using assms
proof (induction "is" arbitrary: s f out reply)
  case Nil
  then have "s = []" by (cases "s = []") (auto simp: read_all_Cons)
  then show ?case by (subst rewrite_loop.simps) simp
next
  case (Cons i "is")
  then have ne: "s \<noteq> []" by auto
  with Cons.prems obtain t where r: "read_instruction s = Inr (i, t)" and t: "read_all t = Inr is"
    by (auto simp: read_all_Cons)
  show ?case
    using ne r Cons.IH [OF t] by (subst rewrite_loop.simps) (auto split: prod.splits)
qed

lemma encode_all_eq_Nil [simp]: "encode_all is = [] \<longleftrightarrow> is = []"
  by (cases "is") simp_all

lemma rewrite_with_replies_instructions:
  "read_all frame = Inr is \<Longrightarrow> rewrite_with_replies f frame sd =
    (case filter_instructions sd (direction_blocked sd f) f is of (kept, replies, f') \<Rightarrow>
       (Inr (encode_all kept, if replies = [] then None else Some (encode_all replies)), f'))"
  by (simp add: rewrite_with_replies_def rewrite_loop_instructions split: prod.splits)

lemma filter_step_grants:
  "filter_step sd db f i = (f', keep, acks) \<Longrightarrow>
   grant_copy f' = grant_copy f \<and> grant_paste f' = grant_paste f \<and>
   want_copy f' = want_copy f \<and> want_paste f' = want_paste f"
  by (auto simp: filter_step_def count_blocked_def set_blocked_def
      split: if_splits list.splits side.splits)

lemma filter_step_other_side:
  "filter_step sd db f i = (f', keep, acks) \<Longrightarrow> sd \<noteq> sd' \<Longrightarrow> blocked sd' f' = blocked sd' f"
  by (auto simp: filter_step_def count_blocked_def set_blocked_def blocked_def
      split: if_splits list.splits side.splits)

definition same_rights :: "clipboard_filter \<Rightarrow> clipboard_filter \<Rightarrow> bool" where
  "same_rights f g \<longleftrightarrow> grant_copy g = grant_copy f \<and> grant_paste g = grant_paste f \<and>
     want_copy g = want_copy f \<and> want_paste g = want_paste f"

lemma rewrite_loop_rights:
  "rewrite_loop sd db f s out reply = (r, g) \<Longrightarrow>
   same_rights f g \<and> (\<forall>sd'. sd' \<noteq> sd \<longrightarrow> blocked sd' g = blocked sd' f)"
proof (induction sd db f s out reply rule: rewrite_loop.induct)
  case (1 sd db f s out reply)
  show ?case
  proof (cases "s = [] \<or> \<not> is_ok (read_instruction s)")
    case True
    with "1.prems" show ?thesis
      by (subst (asm) rewrite_loop.simps) (auto simp: same_rights_def is_ok_def split: if_splits sum.splits)
  next
    case False
    then obtain i t where ne: "s \<noteq> []" and r: "read_instruction s = Inr (i, t)"
      by (cases "read_instruction s") auto
    obtain f' keep acks where st: "filter_step sd db f i = (f', keep, acks)" by (metis prod_cases3)
    have "rewrite_loop sd db f' t (if keep then out @ encode i else out) (reply @ encode_all acks) = (r, g)"
      using "1.prems" ne r st by (subst (asm) rewrite_loop.simps) simp
    from "1.IH" [OF ne r refl st [symmetric] refl this] filter_step_grants [OF st]
      filter_step_other_side [OF st] show ?thesis
      by (auto simp: same_rights_def)
  qed
qed

lemma rewrite_with_replies_rights:
  "rewrite_with_replies f frame sd = (r, g) \<Longrightarrow>
   same_rights f g \<and> (\<forall>sd'. sd' \<noteq> sd \<longrightarrow> blocked sd' g = blocked sd' f)"
  by (simp add: rewrite_with_replies_def rewrite_loop_rights)

section \<open>Rights under every operation\<close>

text \<open>User toggles never exceed the grant.\<close>

definition within_grant :: "clipboard_filter \<Rightarrow> bool" where
  "within_grant f \<longleftrightarrow> (want_copy f \<longrightarrow> grant_copy f) \<and> (want_paste f \<longrightarrow> grant_paste f)"

lemma within_grant_new: "within_grant (new_clipboard_filter c p)"
  by (simp add: within_grant_def new_clipboard_filter_def)

lemma filter_to_browser_rights:
  "filter_to_browser f frame = (r, g) \<Longrightarrow> same_rights f g \<and> blocked_client g = blocked_client f"
  using rewrite_with_replies_rights [of f frame Server]
  by (auto simp: filter_to_browser_def rewrite_def same_rights_def blocked_def
      split: if_splits prod.splits sum.splits)

lemma filter_to_guacd_rights:
  "filter_to_guacd f msg = (r, g) \<Longrightarrow> same_rights f g \<and> blocked_server g = blocked_server f"
  using rewrite_with_replies_rights [of f msg Client]
  by (auto simp: filter_to_guacd_def same_rights_def blocked_def split: if_splits)

lemma handle_control_rights:
  assumes "handle_control f msg = (r, g)"
  shows "grant_copy g = grant_copy f" "grant_paste g = grant_paste f"
    "blocked_server g = blocked_server f" "blocked_client g = blocked_client f"
    "within_grant f \<Longrightarrow> within_grant g"
  using assms
  by (auto simp: handle_control_def set_copy_def set_paste_def within_grant_def Let_def
      split: sum.splits prod.splits if_splits)

lemma same_rights_within_grant: "same_rights f g \<Longrightarrow> within_grant f \<Longrightarrow> within_grant g"
  by (simp add: same_rights_def within_grant_def)

section \<open>What a blocked direction lets through\<close>

text \<open>
  The abstract promise: a clipboard stream is removed as a whole, from the instruction that opens
  it to its \<open>end\<close>; everything else passes in order. \<open>B\<close> holds the indices being dropped.
\<close>

definition opens_clipboard :: "instruction \<Rightarrow> bool" where
  "opens_clipboard i \<longleftrightarrow> opcode i = ''clipboard'' \<and> args i \<noteq> []"

definition continues_stream :: "string set \<Rightarrow> instruction \<Rightarrow> bool" where
  "continues_stream B i \<longleftrightarrow> (opcode i = ''blob'' \<or> opcode i = ''end'') \<and> args i \<noteq> [] \<and> hd (args i) \<in> B"

definition track_stream :: "string set \<Rightarrow> instruction \<Rightarrow> string set" where
  "track_stream B i = (if opens_clipboard i then insert (hd (args i)) B
     else if opcode i = ''end'' \<and> args i \<noteq> [] then B - {hd (args i)} else B)"

fun strip_clipboard :: "string set \<Rightarrow> instruction list \<Rightarrow> instruction list" where
  "strip_clipboard B [] = []"
| "strip_clipboard B (i # is) =
     (if opens_clipboard i \<or> continues_stream B i then strip_clipboard (track_stream B i) is
      else i # strip_clipboard (track_stream B i) is)"

definition open_streams :: "string set \<Rightarrow> instruction list \<Rightarrow> string set" where
  "open_streams B is = foldl track_stream B is"

lemma strip_clipboard_append:
  "strip_clipboard B (is @ js) = strip_clipboard B is @ strip_clipboard (open_streams B is) js"
  by (induction "is" arbitrary: B) (simp_all add: open_streams_def)

lemma open_streams_append: "open_streams B (is @ js) = open_streams (open_streams B is) js"
  by (simp add: open_streams_def)

lemma strip_clipboard_subset: "set (strip_clipboard B is) \<subseteq> set is"
  by (induction "is" arbitrary: B) auto

lemma strip_clipboard_no_open: "i \<in> set (strip_clipboard B is) \<Longrightarrow> \<not> opens_clipboard i"
  by (induction "is" arbitrary: B) (auto split: if_splits)

lemma filter_step_blocking:
  "filter_step sd True f i =
     (f', keep, acks) \<Longrightarrow> keep = (\<not> (opens_clipboard i \<or> continues_stream (blocked sd f) i)) \<and>
       blocked sd f' = track_stream (blocked sd f) i"
  by (cases sd; cases "args i")
    (auto simp: filter_step_def opens_clipboard_def continues_stream_def track_stream_def
      set_blocked_def count_blocked_def blocked_def split: if_splits)

lemma filter_instructions_blocking:
  "filter_instructions sd True f is = (kept, replies, f') \<Longrightarrow>
   kept = strip_clipboard (blocked sd f) is \<and> blocked sd f' = open_streams (blocked sd f) is"
proof (induction "is" arbitrary: f kept replies)
  case Nil
  then show ?case by (simp add: open_streams_def)
next
  case (Cons i "is")
  obtain g keep acks where st: "filter_step sd True f i = (g, keep, acks)" by (metis prod_cases3)
  from Cons.prems st obtain ks rs where rest: "filter_instructions sd True g is = (ks, rs, f')"
    and "kept = (if keep then i # ks else ks)" by (auto split: prod.splits)
  with Cons.IH [OF rest] filter_step_blocking [OF st] show ?case
    by (simp add: open_streams_def)
qed

text \<open>When nothing is being dropped and nothing is to be dropped, the filter is the identity.\<close>

lemma filter_instructions_idle:
  "blocked sd f = {} \<Longrightarrow> \<not> db \<or> \<not> list_ex opens_clipboard is \<Longrightarrow>
   filter_instructions sd db f is = (is, [], f)"
proof (induction "is")
  case (Cons i "is")
  then have "filter_step sd db f i = (f, True, [])"
    by (auto simp: filter_step_def opens_clipboard_def split: list.splits)
  with Cons show ?case by auto
qed simp

lemma nat_to_dec_digit: "n < 10 \<Longrightarrow> nat_to_dec n = [digit_char n]"
  by (simp add: nat_to_dec.simps)

lemma digit_char_9: "digit_char 9 = CHR ''9''"
  by code_simp

lemma write_element_clipboard: "write_element ''clipboard'' = ''9.clipboard''"
proof -
  have "length (runes ''clipboard'') = 9" by (simp add: runes_ascii)
  then show ?thesis by (simp add: write_element_def nat_to_dec_digit digit_char_9)
qed

lemma contains_append: "contains s p \<Longrightarrow> contains (a @ s @ b) p"
  unfolding contains_iff by (metis append.assoc)

lemma encode_opens_clipboard:
  assumes "opens_clipboard i"
  shows "contains (encode i) clipboard_opcode"
proof -
  obtain a as where "args i = a # as" "opcode i = ''clipboard''"
    using assms by (cases "args i") (auto simp: opens_clipboard_def)
  then have "encode i = clipboard_opcode @ (write_element a
      @ concat (map (\<lambda>a. CHR '','' # write_element a) as) @ '';'')"
    by (simp add: encode_def write_element_clipboard clipboard_opcode_def)
  then show ?thesis unfolding contains_iff by (metis append_Nil)
qed

lemma encode_all_opens_clipboard:
  "list_ex opens_clipboard is \<Longrightarrow> contains (encode_all is) clipboard_opcode"
proof (induction "is")
  case (Cons i "is")
  then show ?case
    using encode_opens_clipboard contains_append [of "encode i" clipboard_opcode "[]"]
      contains_append [of "encode_all is" clipboard_opcode "encode i" "[]"] by auto
qed simp

lemma fast_path_instructions:
  assumes "blocked_server f = {}" "\<not> copy_blocked f \<or> \<not> contains (encode_all is) clipboard_opcode"
  shows "filter_instructions Server (direction_blocked Server f) f is = (is, [], f)"
  by (rule filter_instructions_idle)
    (use assms encode_all_opens_clipboard in \<open>auto simp: blocked_def direction_blocked_def\<close>)

lemma rewrite_instructions:
  "read_all frame = Inr is \<Longrightarrow> rewrite f frame sd =
    (case filter_instructions sd (direction_blocked sd f) f is of (kept, replies, f') \<Rightarrow>
       (Inr (encode_all kept), f'))"
  by (simp add: rewrite_def rewrite_with_replies_instructions split: prod.splits)

lemma filter_to_browser_instructions:
  assumes "list_all wf_instruction is"
  shows "filter_to_browser f (encode_all is) =
    (case filter_instructions Server (direction_blocked Server f) f is of (kept, _, f') \<Rightarrow>
       (Inr (encode_all kept), f'))"
proof (cases "blocked_server f = {} \<and> (\<not> copy_blocked f \<or> \<not> contains (encode_all is) clipboard_opcode)")
  case True
  with fast_path_instructions [of f "is"] show ?thesis by (simp add: filter_to_browser_def)
next
  case False
  with rewrite_instructions [OF read_all_encode_all [OF assms], of f Server] show ?thesis
    by (auto simp: filter_to_browser_def)
qed

lemma filter_to_browser_blocked:
  assumes "list_all wf_instruction is" "\<not> want_copy f"
  shows "\<exists>g. filter_to_browser f (encode_all is) = (Inr (encode_all (strip_clipboard (blocked_server f) is)), g)
    \<and> blocked_server g = open_streams (blocked_server f) is \<and> same_rights f g"
proof -
  obtain kept replies g where fi: "filter_instructions Server True f is = (kept, replies, g)"
    by (metis prod_cases3)
  have "filter_to_browser f (encode_all is) = (Inr (encode_all kept), g)"
    using assms(2) by (simp add: filter_to_browser_instructions [OF assms(1)] direction_blocked_def
        copy_blocked_def fi)
  with filter_instructions_blocking [OF fi] filter_to_browser_rights show ?thesis
    by (auto simp: blocked_def)
qed

lemma rewrite_loop_reads:
  "rewrite_loop sd db f s out reply = (Inr r, g) \<Longrightarrow> \<exists>is. read_all s = Inr is"
proof (induction sd db f s out reply rule: rewrite_loop.induct)
  case (1 sd db f s out reply)
  show ?case
  proof (cases "s = []")
    case False
    with "1.prems" obtain i t where r: "read_instruction s = Inr (i, t)"
      by (subst (asm) rewrite_loop.simps) (auto split: sum.splits)
    obtain f' keep acks where st: "filter_step sd db f i = (f', keep, acks)" by (metis prod_cases3)
    have "rewrite_loop sd db f' t (if keep then out @ encode i else out) (reply @ encode_all acks) = (Inr r, g)"
      using "1.prems" False r st by (subst (asm) rewrite_loop.simps) simp
    from "1.IH" [OF False r refl st [symmetric] refl this] obtain "is" where "read_all t = Inr is" ..
    with r False show ?thesis by (auto simp: read_all_Cons)
  qed simp
qed

lemma rewrite_with_replies_Inr:
  assumes "rewrite_with_replies f msg sd = (Inr (kept, reply), g)"
  obtains "is" ks rs where "read_all msg = Inr is"
    "filter_instructions sd (direction_blocked sd f) f is = (ks, rs, g)" "kept = encode_all ks"
    "reply = (if rs = [] then None else Some (encode_all rs))"
proof -
  obtain "is" where r: "read_all msg = Inr is"
    using assms rewrite_loop_reads unfolding rewrite_with_replies_def by blast
  obtain ks rs h where fi: "filter_instructions sd (direction_blocked sd f) f is = (ks, rs, h)"
    by (metis prod_cases3)
  from rewrite_with_replies_instructions [OF r, of f sd] fi assms
  have "h = g" "kept = encode_all ks" "reply = (if rs = [] then None else Some (encode_all rs))" by auto
  with r fi that show thesis by blast
qed

text \<open>
  Paste, against any browser: what a filter with paste off forwards to guacd is a sequence of
  instructions none of which opens a clipboard stream or continues a blocked one.
\<close>

lemma filter_to_guacd_blocked:
  assumes "filter_to_guacd f msg = (Inr (fwd, reply), g)" "\<not> want_paste f"
  shows "\<exists>is. read_all msg = Inr is \<and>
    read_all fwd = Inr (strip_clipboard (blocked_client f) is) \<and>
    blocked_client g = open_streams (blocked_client f) is"
proof -
  have "rewrite_with_replies f msg Client = (Inr (fwd, reply), g)"
    using assms by (simp add: filter_to_guacd_def paste_blocked_def)
  then obtain "is" ks rs where r: "read_all msg = Inr is" and fwd: "fwd = encode_all ks"
    and fi: "filter_instructions Client True f is = (ks, rs, g)"
    by (rule rewrite_with_replies_Inr) (use assms(2) in \<open>simp add: direction_blocked_def paste_blocked_def\<close>)
  have ks: "ks = strip_clipboard (blocked_client f) is" "blocked_client g = open_streams (blocked_client f) is"
    using filter_instructions_blocking [OF fi] by (simp_all add: blocked_def)
  have "list_all wf_instruction ks"
    using read_all_wf [OF r] strip_clipboard_subset [of "blocked_client f" "is"] ks
    by (auto simp: list_all_iff)
  with r fwd ks show ?thesis by (simp add: read_all_encode_all)
qed

section \<open>Properties\<close>

text \<open>The acks of a blocked client direction, one for each stream it refused, in order.\<close>

lemma filter_instructions_acks:
  "filter_instructions sd True f is = (kept, replies, f') \<Longrightarrow>
   replies = (if sd = Client then map (\<lambda>i. forbidden_ack (hd (args i))) (filter opens_clipboard is) else [])"
proof (induction "is" arbitrary: f kept replies)
  case (Cons i "is")
  obtain g keep acks where st: "filter_step sd True f i = (g, keep, acks)" by (metis prod_cases3)
  obtain ks rs h where fi: "filter_instructions sd True g is = (ks, rs, h)" by (metis prod_cases3)
  have acks: "acks = (if opens_clipboard i \<and> sd = Client then [forbidden_ack (hd (args i))] else [])"
    using st by (cases "args i") (auto simp: filter_step_def opens_clipboard_def split: if_splits)
  from Cons.prems have "replies = acks @ rs" "h = f'" by (simp_all add: st fi)
  with Cons.IH [of g ks rs] fi acks show ?case by simp
qed simp

text \<open>The byte-level shortcut of \<open>FilterToBrowser\<close>, which forwards a frame unparsed when no stream is being
  dropped and the frame holds no clipboard opcode, changes nothing: on every well-formed frame the result is the
  instruction-level filter's.\<close>

lemma fast_path_transparent:
  assumes "list_all wf_instruction is"
  shows "filter_to_browser f (encode_all is) =
    (case filter_instructions Server (direction_blocked Server f) f is of (kept, _, f') \<Rightarrow>
       (Inr (encode_all kept), f'))"
  by (rule filter_to_browser_instructions [OF assms])

text \<open>While pasting is blocked, what \<open>FilterToGuacd\<close> forwards of a message it accepts is the message with every
  clipboard stream cut out whole, and the browser receives one 771 ack for each stream refused, in order.\<close>

lemma blocked_paste_acked:
  assumes "filter_to_guacd f msg = (Inr (fwd, reply), g)" "\<not> want_paste f"
  shows "\<exists>is. read_all msg = Inr is \<and> fwd = encode_all (strip_clipboard (blocked_client f) is) \<and>
    blocked_client g = open_streams (blocked_client f) is \<and>
    (case reply of None \<Rightarrow> [] | Some b \<Rightarrow> b) =
      encode_all (map (\<lambda>i. forbidden_ack (hd (args i))) (filter opens_clipboard is))"
proof -
  have "rewrite_with_replies f msg Client = (Inr (fwd, reply), g)"
    using assms by (simp add: filter_to_guacd_def paste_blocked_def)
  then obtain "is" ks rs where r: "read_all msg = Inr is"
    and fi: "filter_instructions Client (direction_blocked Client f) f is = (ks, rs, g)"
    and k: "fwd = encode_all ks" "reply = (if rs = [] then None else Some (encode_all rs))"
    by (rule rewrite_with_replies_Inr)
  have "filter_instructions Client True f is = (ks, rs, g)"
    using fi assms(2) by (simp add: direction_blocked_def paste_blocked_def)
  from filter_instructions_blocking [OF this] filter_instructions_acks [OF this] r k show ?thesis
    by (intro exI [of _ "is"]) (auto simp: blocked_def)
qed

definition paste_stream :: "instruction list" where
  "paste_stream = [\<lparr>opcode = ''clipboard'', args = [''0'', ''text/plain'']\<rparr>, \<lparr>opcode = ''blob'', args = [''0'', ''YQ'']\<rparr>,
     \<lparr>opcode = ''key'', args = [''65'', ''1'']\<rparr>, \<lparr>opcode = ''end'', args = [''0'']\<rparr>]"

lemma paste_stream_wf: "list_all wf_instruction paste_stream"
  by (simp add: paste_stream_def wf_instruction_ascii max_pending_bytes_def)

theorem fast_path_transparent_witness:
  "fst (filter_to_browser (new_clipboard_filter False False) (encode_all paste_stream)) =
    Inr (encode_all [\<lparr>opcode = ''key'', args = [''65'', ''1'']\<rparr>])"
  by (simp add: fast_path_transparent [OF paste_stream_wf])
    (simp add: paste_stream_def filter_step_def direction_blocked_def copy_blocked_def new_clipboard_filter_def
      blocked_def set_blocked_def count_blocked_def)

theorem blocked_paste_acked_witness:
  "\<exists>fwd reply g. filter_to_guacd (new_clipboard_filter False False) (encode_all paste_stream) = (Inr (fwd, reply), g) \<and>
     fwd = encode_all [\<lparr>opcode = ''key'', args = [''65'', ''1'']\<rparr>] \<and> reply = Some (encode (forbidden_ack ''0''))"
proof -
  let ?f = "new_clipboard_filter False False"
  have no: "\<not> want_paste ?f" "blocked_client ?f = {}" by (simp_all add: new_clipboard_filter_def)
  obtain kept replies g where fi: "filter_instructions Client (direction_blocked Client ?f) ?f paste_stream = (kept, replies, g)"
    by (metis prod_cases3)
  have "filter_to_guacd ?f (encode_all paste_stream) =
      (Inr (encode_all kept, if replies = [] then None else Some (encode_all replies)), g)"
    using no rewrite_with_replies_instructions [OF read_all_encode_all [OF paste_stream_wf], of ?f Client] fi
    by (simp add: filter_to_guacd_def paste_blocked_def)
  then obtain fwd reply where fg: "filter_to_guacd ?f (encode_all paste_stream) = (Inr (fwd, reply), g)" by blast
  obtain js where "read_all (encode_all paste_stream) = Inr js" "fwd = encode_all (strip_clipboard (blocked_client ?f) js)"
    "(case reply of None \<Rightarrow> [] | Some b \<Rightarrow> b) = encode_all (map (\<lambda>i. forbidden_ack (hd (args i))) (filter opens_clipboard js))"
    using blocked_paste_acked [OF fg no(1)] by blast
  moreover from this(1) have "js = paste_stream" using read_all_encode_all [OF paste_stream_wf] by simp
  ultimately have "fwd = encode_all (strip_clipboard {} paste_stream)"
    "(case reply of None \<Rightarrow> [] | Some b \<Rightarrow> b) =
      encode_all (map (\<lambda>i. forbidden_ack (hd (args i))) (filter opens_clipboard paste_stream))"
    unfolding no(2) by simp_all
  note outcome = this
  have "strip_clipboard {} paste_stream = [\<lparr>opcode = ''key'', args = [''65'', ''1'']\<rparr>]"
    "filter opens_clipboard paste_stream = [\<lparr>opcode = ''clipboard'', args = [''0'', ''text/plain'']\<rparr>]"
    by (simp_all add: paste_stream_def opens_clipboard_def continues_stream_def track_stream_def)
  with outcome have fwd: "fwd = encode_all [\<lparr>opcode = ''key'', args = [''65'', ''1'']\<rparr>]"
    and rp: "(case reply of None \<Rightarrow> [] | Some b \<Rightarrow> b) = encode (forbidden_ack ''0'')" by simp_all
  have "encode (forbidden_ack ''0'') \<noteq> []" by simp
  with rp have "reply = Some (encode (forbidden_ack ''0''))" by (metis option.case option.exhaust)
  with fg fwd show ?thesis by blast
qed

end
