(* ===== verification/Guac_Handshake.thy ===== *)
theory Guac_Handshake
  imports Guac_Instruction
begin

text \<open>
  \<open>wwt/internal/guac/handshake.go\<close>: the client side of the guacd handshake, select, args,
  size/audio/video/image, connect, ready. What guacd sends is the byte string still to be read;
  a write may fail, so the environment says for each write, by its number, whether it succeeds.
  The result carries every instruction written, also on an error.
\<close>

record connection_params =
  cp_protocol :: string
  cp_hostname :: string
  cp_port :: int
  cp_username :: string
  cp_password :: string
  cp_extra :: "string \<rightharpoonup> string"
  cp_width :: int
  cp_height :: int
  cp_dpi :: int
  cp_client_layout :: string

datatype handshake_error =
    SendFailed string
  | ReadingArgs guac_error
  | ExpectedArgs string
  | ReadingReady guac_error
  | GuacdRefused string
  | ExpectedReady string

text \<open>\<open>strings.Join(elems, " ")\<close>.\<close>

fun join_space :: "string list \<Rightarrow> string" where
  "join_space [] = []"
| "join_space [s] = s"
| "join_space (s # ss) = s @ CHR '' '' # join_space ss"

definition param_value :: "string \<Rightarrow> connection_params \<Rightarrow> string" where
  "param_value name p =
     (if has_prefix name ''VERSION_'' then name
      else if name = ''hostname'' then cp_hostname p
      else if name = ''port'' then itoa (cp_port p)
      else case cp_extra p name of
        Some v \<Rightarrow> v
      | None \<Rightarrow>
         (if name = ''username'' then cp_username p
          else if name = ''password'' then cp_password p
          else if name = ''ignore-cert'' \<and> cp_protocol p = ''rdp'' then ''true''
          else if name = ''server-layout'' \<and> cp_protocol p = ''rdp'' then cp_client_layout p
          else if name = ''audio-servername'' \<and> cp_protocol p = ''vnc'' then cp_hostname p
          else []))"

text \<open>\<open>send\<close> in sequence: stops at the first write that fails.\<close>

fun send_seq :: "(nat \<Rightarrow> bool) \<Rightarrow> instruction list \<Rightarrow> instruction list \<Rightarrow> handshake_error option \<times> instruction list" where
  "send_seq ok sent [] = (None, sent)"
| "send_seq ok sent (i # is) =
     (if ok (length sent) then send_seq ok (sent @ [i]) is else (Some (SendFailed (opcode i)), sent))"

definition or_default :: "int \<Rightarrow> int \<Rightarrow> int" where
  "or_default v d = (if v \<le> 0 then d else v)"

definition display_instructions :: "connection_params \<Rightarrow> instruction list" where
  "display_instructions p =
     [\<lparr>opcode = ''size'', args = [itoa (or_default (cp_width p) 1920), itoa (or_default (cp_height p) 1080),
                                   itoa (or_default (cp_dpi p) 96)]\<rparr>,
      \<lparr>opcode = ''audio'', args = [''audio/L16'']\<rparr>,
      \<lparr>opcode = ''video'', args = []\<rparr>,
      \<lparr>opcode = ''image'', args = [''image/png'', ''image/jpeg'', ''image/webp'']\<rparr>]"

definition connect_instruction :: "connection_params \<Rightarrow> string list \<Rightarrow> instruction" where
  "connect_instruction p names = \<lparr>opcode = ''connect'', args = map (\<lambda>name. param_value name p) names\<rparr>"

text \<open>\<open>Handshake\<close>: the connection id and the unread bytes, and what was written.\<close>

definition handshake ::
  "(nat \<Rightarrow> bool) \<Rightarrow> string \<Rightarrow> connection_params
     \<Rightarrow> (handshake_error + string \<times> string) \<times> instruction list" where
  "handshake ok inp p =
     (case send_seq ok [] [\<lparr>opcode = ''select'', args = [cp_protocol p]\<rparr>] of
        (Some e, sent) \<Rightarrow> (Inl e, sent)
      | (None, sent1) \<Rightarrow>
     (case read_instruction inp of
        Inl e \<Rightarrow> (Inl (ReadingArgs e), sent1)
      | Inr (announced, inp1) \<Rightarrow>
         if opcode announced \<noteq> ''args'' then (Inl (ExpectedArgs (opcode announced)), sent1)
         else
     (case send_seq ok sent1 (display_instructions p) of
        (Some e, sent) \<Rightarrow> (Inl e, sent)
      | (None, sent2) \<Rightarrow>
     (case send_seq ok sent2 [connect_instruction p (args announced)] of
        (Some e, sent) \<Rightarrow> (Inl e, sent)
      | (None, sent3) \<Rightarrow>
     (case read_instruction inp1 of
        Inl e \<Rightarrow> (Inl (ReadingReady e), sent3)
      | Inr (ready, inp2) \<Rightarrow>
         if opcode ready = ''error'' then (Inl (GuacdRefused (join_space (args ready))), sent3)
         else (case args ready of
            [] \<Rightarrow> (Inl (ExpectedReady (opcode ready)), sent3)
          | cid # _ \<Rightarrow>
             if opcode ready \<noteq> ''ready'' then (Inl (ExpectedReady (opcode ready)), sent3)
             else (Inr (cid, inp2), sent3)))))))"

section \<open>Facts\<close>

lemma send_seq_sent:
  "send_seq ok sent is = (r, sent') \<Longrightarrow> \<exists>js ks. is = js @ ks \<and> sent' = sent @ js \<and> (r = None \<longleftrightarrow> ks = [])"
proof (induction ok sent "is" arbitrary: r sent' rule: send_seq.induct)
  case (2 ok sent i "is")
  show ?case
  proof (cases "ok (length sent)")
    case True
    with 2 obtain js ks where "is = js @ ks" "sent' = (sent @ [i]) @ js" "r = None \<longleftrightarrow> ks = []" by force
    then show ?thesis by (intro exI [of _ "i # js"] exI [of _ ks]) simp
  next
    case False
    with "2.prems" show ?thesis by (intro exI [of _ "[]"] exI [of _ "i # is"]) auto
  qed
qed simp

lemma send_seq_None: "send_seq ok sent is = (None, sent') \<Longrightarrow> sent' = sent @ is"
  using send_seq_sent by fastforce

text \<open>Platform-managed names, whatever the extra parameters hold.\<close>

lemma param_value_hostname [simp]: "param_value ''hostname'' p = cp_hostname p"
  by (simp add: param_value_def)

lemma param_value_port [simp]: "param_value ''port'' p = itoa (cp_port p)"
  by (simp add: param_value_def)

text \<open>A full run, with the announced names and guacd's two answers.\<close>

definition client_script :: "connection_params \<Rightarrow> string list \<Rightarrow> instruction list" where
  "client_script p names = \<lparr>opcode = ''select'', args = [cp_protocol p]\<rparr> # display_instructions p
     @ [connect_instruction p names]"

lemma handshake_Inr:
  assumes "handshake ok inp p = (Inr (cid, rest), sent)"
  obtains announced inp1 ready where "read_instruction inp = Inr (announced, inp1)"
    "opcode announced = ''args''" "read_instruction inp1 = Inr (ready, rest)"
    "opcode ready = ''ready''" "args ready \<noteq> []" "cid = hd (args ready)"
    "sent = client_script p (args announced)"
proof -
  from assms obtain sent1 sent2 announced inp1 ready where
    s1: "send_seq ok [] [\<lparr>opcode = ''select'', args = [cp_protocol p]\<rparr>] = (None, sent1)"
    and r1: "read_instruction inp = Inr (announced, inp1)" "opcode announced = ''args''"
    and s2: "send_seq ok sent1 (display_instructions p) = (None, sent2)"
    and s3: "send_seq ok sent2 [connect_instruction p (args announced)] = (None, sent)"
    and r2: "read_instruction inp1 = Inr (ready, rest)" "opcode ready = ''ready''"
    "args ready \<noteq> []" "cid = hd (args ready)"
    unfolding handshake_def
    by (auto split: prod.splits option.splits sum.splits if_splits list.splits simp del: send_seq.simps)
  have "sent = client_script p (args announced)"
    using send_seq_None [OF s1] send_seq_None [OF s2] send_seq_None [OF s3]
    by (simp add: client_script_def)
  with that r1 r2 show thesis by blast
qed

lemma handshake_connect:
  assumes "handshake ok inp p = (r, sent)" "i \<in> set sent" "opcode i = ''connect''"
  obtains announced inp1 where "read_instruction inp = Inr (announced, inp1)"
    "opcode announced = ''args''" "i = connect_instruction p (args announced)"
proof -
  have disp: "opcode i \<noteq> ''connect''" if "i \<in> set (\<lparr>opcode = ''select'', args = [cp_protocol p]\<rparr> # display_instructions p)" for i
    using that by (auto simp: display_instructions_def)
  obtain r1 sent1 where s1: "send_seq ok [] [\<lparr>opcode = ''select'', args = [cp_protocol p]\<rparr>] = (r1, sent1)"
    by (metis prod.exhaust)
  have sub1: "set sent1 \<subseteq> {\<lparr>opcode = ''select'', args = [cp_protocol p]\<rparr>}"
    using send_seq_sent [OF s1] by (auto simp: Cons_eq_append_conv)
  show thesis
  proof (cases "r1 = None \<and> (\<exists>a inp1. read_instruction inp = Inr (a, inp1) \<and> opcode a = ''args'')")
    case False
    then have "sent = sent1"
      using assms(1) s1 unfolding handshake_def
      by (auto split: option.splits sum.splits if_splits simp del: send_seq.simps)
    with assms disp sub1 show ?thesis by auto
  next
    case True
    then obtain a inp1 where a: "r1 = None" "read_instruction inp = Inr (a, inp1)" "opcode a = ''args''" by blast
    obtain r2 sent2 where s2: "send_seq ok sent1 (display_instructions p) = (r2, sent2)" by (metis prod.exhaust)
    have sub2: "set sent2 \<subseteq> set (\<lparr>opcode = ''select'', args = [cp_protocol p]\<rparr> # display_instructions p)"
      using send_seq_sent [OF s2] sub1 by auto
    obtain r3 sent3 where s3: "send_seq ok sent2 [connect_instruction p (args a)] = (r3, sent3)"
      by (metis prod.exhaust)
    have sub3: "set sent3 \<subseteq> set sent2 \<union> {connect_instruction p (args a)}"
      using send_seq_sent [OF s3] by (auto simp: Cons_eq_append_conv)
    have "sent = sent2 \<or> sent = sent3"
      using assms(1) s1 a s2 s3 unfolding handshake_def
      by (auto split: option.splits sum.splits if_splits list.splits simp del: send_seq.simps)
    with assms disp sub2 sub3 have "i = connect_instruction p (args a)" by blast
    with that a show ?thesis by blast
  qed
qed

section \<open>Properties\<close>

text \<open>Whatever guacd announces and whatever parameters the workspace carries, a connect instruction sent answers
  the announced names one for one, its host and port are the platform's, and a protocol version is echoed.\<close>

lemma connect_platform_managed:
  assumes "handshake ok inp p = (r, sent)" "i \<in> set sent" "opcode i = ''connect''"
  shows "\<exists>announced inp1. read_instruction inp = Inr (announced, inp1) \<and> length (args i) = length (args announced) \<and>
    (\<forall>k < length (args i).
      (args announced ! k = ''hostname'' \<longrightarrow> args i ! k = cp_hostname p) \<and>
      (args announced ! k = ''port'' \<longrightarrow> args i ! k = itoa (cp_port p)) \<and>
      (has_prefix (args announced ! k) ''VERSION_'' \<longrightarrow> args i ! k = args announced ! k))"
proof -
  obtain announced inp1 where "read_instruction inp = Inr (announced, inp1)"
    "i = connect_instruction p (args announced)"
    using handshake_connect [OF assms] by metis
  then show ?thesis
    by (intro exI [of _ announced] exI [of _ inp1]) (auto simp: connect_instruction_def param_value_def)
qed

text \<open>A handshake that succeeds wrote the select, size, audio, video, image and connect instructions in this order
  and nothing else, after guacd sent args and then ready, and leaves every byte after ready unread.\<close>

lemma handshake_success:
  assumes "handshake ok inp p = (Inr (cid, rest), sent)"
  shows "\<exists>announced inp1 ready. read_instruction inp = Inr (announced, inp1) \<and> opcode announced = ''args'' \<and>
    read_instruction inp1 = Inr (ready, rest) \<and> opcode ready = ''ready'' \<and> cid = hd (args ready) \<and>
    sent = client_script p (args announced)"
  using handshake_Inr [OF assms] by metis

definition vnc_params :: connection_params where
  "vnc_params = \<lparr>cp_protocol = ''vnc'', cp_hostname = ''desk'', cp_port = 5901, cp_username = '''', cp_password = ''s'',
     cp_extra = [''hostname'' \<mapsto> ''evil''], cp_width = 0, cp_height = 0, cp_dpi = 0, cp_client_layout = ''''\<rparr>"

definition vnc_answers :: "instruction list" where
  "vnc_answers = [\<lparr>opcode = ''args'', args = [''hostname'', ''port'']\<rparr>, \<lparr>opcode = ''ready'', args = [''c1'']\<rparr>]"

lemma vnc_handshake:
  "handshake (\<lambda>_. True) (encode_all vnc_answers @ ''x'') vnc_params =
    (Inr (''c1'', ''x''), client_script vnc_params [''hostname'', ''port''])"
proof -
  have wf: "wf_instruction \<lparr>opcode = ''args'', args = [''hostname'', ''port'']\<rparr>"
    "wf_instruction \<lparr>opcode = ''ready'', args = [''c1'']\<rparr>"
    by (simp_all add: wf_instruction_ascii max_pending_bytes_def)
  then show ?thesis
    by (simp add: handshake_def vnc_answers_def client_script_def display_instructions_def)
qed

theorem connect_platform_managed_witness:
  "\<exists>i \<in> set (snd (handshake (\<lambda>_. True) (encode_all vnc_answers @ ''x'') vnc_params)).
     opcode i = ''connect'' \<and> length (args i) = 2 \<and> args i ! 0 = ''desk''"
proof -
  let ?i = "connect_instruction vnc_params [''hostname'', ''port'']"
  have i: "?i \<in> set (client_script vnc_params [''hostname'', ''port''])" "opcode ?i = ''connect''" "length (args ?i) = 2"
    by (simp_all add: client_script_def connect_instruction_def)
  obtain announced inp1 where a: "read_instruction (encode_all vnc_answers @ ''x'') = Inr (announced, inp1)"
    and n: "\<forall>k < length (args ?i). args announced ! k = ''hostname'' \<longrightarrow> args ?i ! k = cp_hostname vnc_params"
    using connect_platform_managed [OF vnc_handshake i(1,2)] by blast
  have "announced = \<lparr>opcode = ''args'', args = [''hostname'', ''port'']\<rparr>"
    using a by (simp add: vnc_answers_def wf_instruction_ascii max_pending_bytes_def)
  with n i(3) have "args ?i ! 0 = ''desk''" by (simp add: vnc_params_def)
  with i show ?thesis unfolding vnc_handshake by auto
qed

theorem handshake_success_witness:
  "\<exists>announced inp1 ready. read_instruction (encode_all vnc_answers @ ''x'') = Inr (announced, inp1) \<and>
    opcode announced = ''args'' \<and> read_instruction inp1 = Inr (ready, ''x'') \<and> opcode ready = ''ready'' \<and>
    ''c1'' = hd (args ready) \<and> client_script vnc_params [''hostname'', ''port''] = client_script vnc_params (args announced)"
  by (rule handshake_success [OF vnc_handshake])

end
