(* ===== verification/Jwks.thy ===== *)
theory Jwks
  imports Prelude
begin

text \<open>
  \<open>wwt/internal/jwks/jwks.go\<close>: the cached key set of the API server. A key is what the decoder
  makes of a JWKS entry: the decoder (base64 and big integers) is the parameter \<open>dec\<close>, one
  result per entry, and the HTTP exchange is the parameter \<open>fetch\<close>, the outcome of this call's
  request if it is made. Time is in nanoseconds.
\<close>

record jwk =
  kty :: string
  kid :: string
  jwk_n :: string
  jwk_e :: string

datatype jwks_error = FetchFailed string | DecodeFailed string | NoKey string

record 'k jwks_client =
  keys :: "string \<rightharpoonup> 'k"
  fetched :: int

definition cache_ttl :: int where "cache_ttl = 5 * 60 * 1000000000"

definition new_jwks_client :: "'k jwks_client" where
  "new_jwks_client = \<lparr>keys = Map.empty, fetched = 0\<rparr>"

text \<open>The loop over the document: non-RSA entries are skipped, a malformed one fails the refresh.\<close>

fun decode_keys :: "(jwk \<Rightarrow> 'k option) \<Rightarrow> jwk list \<Rightarrow> (string \<rightharpoonup> 'k) \<Rightarrow> jwks_error + (string \<rightharpoonup> 'k)" where
  "decode_keys dec [] m = Inr m"
| "decode_keys dec (j # js) m =
     (if kty j \<noteq> ''RSA'' then decode_keys dec js m
      else case dec j of
        None \<Rightarrow> Inl (DecodeFailed (kid j))
      | Some k \<Rightarrow> decode_keys dec js (m(kid j \<mapsto> k)))"

definition refresh ::
  "(jwk \<Rightarrow> 'k option) \<Rightarrow> int \<Rightarrow> string + jwk list \<Rightarrow> 'k jwks_client \<Rightarrow> jwks_error option \<times> 'k jwks_client" where
  "refresh dec now fetch c = (case fetch of
     Inl e \<Rightarrow> (Some (FetchFailed e), c)
   | Inr doc \<Rightarrow> (case decode_keys dec doc Map.empty of
       Inl e \<Rightarrow> (Some e, c)
     | Inr m \<Rightarrow> (None, c\<lparr>keys := m, fetched := now\<rparr>)))"

definition jwks_key ::
  "(jwk \<Rightarrow> 'k option) \<Rightarrow> int \<Rightarrow> string + jwk list \<Rightarrow> 'k jwks_client \<Rightarrow> string
     \<Rightarrow> (jwks_error + 'k) \<times> 'k jwks_client" where
  "jwks_key dec now fetch c i =
     (case (if now - fetched c < cache_ttl then keys c i else None) of
        Some k \<Rightarrow> (Inr k, c)
      | None \<Rightarrow> (case refresh dec now fetch c of
          (Some e, c') \<Rightarrow> (case keys c' i of Some k \<Rightarrow> (Inr k, c') | None \<Rightarrow> (Inl e, c'))
        | (None, c') \<Rightarrow> (case keys c' i of Some k \<Rightarrow> (Inr k, c') | None \<Rightarrow> (Inl (NoKey i), c'))))"

section \<open>Facts\<close>

text \<open>The last RSA entry with an id decides its key.\<close>

lemma decode_keys_Inr:
  "decode_keys dec js m = Inr m' \<Longrightarrow> m' i = Some k \<Longrightarrow>
   m i = Some k \<or> (\<exists>j \<in> set js. kty j = ''RSA'' \<and> kid j = i \<and> dec j = Some k)"
  by (induction dec js m rule: decode_keys.induct)
    (auto split: if_splits option.splits)

lemma refresh_failed: "refresh dec now fetch c = (Some e, c') \<Longrightarrow> c' = c"
  by (auto simp: refresh_def split: sum.splits)

lemma refresh_ok:
  "refresh dec now fetch c = (None, c') \<Longrightarrow> keys c' i = Some k \<Longrightarrow>
   \<exists>doc. fetch = Inr doc \<and> fetched c' = now \<and> (\<exists>j \<in> set doc. kty j = ''RSA'' \<and> kid j = i \<and> dec j = Some k)"
  by (auto simp: refresh_def split: sum.splits dest: decode_keys_Inr)

text \<open>
  Where a served key can come from: a cache younger than the TTL, this call's document, or, when
  the refresh failed, the cache however old.
\<close>

lemma jwks_key_source:
  assumes "jwks_key dec now fetch c i = (Inr k, c')"
  shows "keys c i = Some k \<and> now - fetched c < cache_ttl \<and> c' = c \<or>
    (\<exists>doc. fetch = Inr doc \<and> fetched c' = now \<and> (\<exists>j \<in> set doc. kty j = ''RSA'' \<and> kid j = i \<and> dec j = Some k)) \<or>
    (\<exists>e. refresh dec now fetch c = (Some e, c) \<and> keys c i = Some k \<and> c' = c)"
proof (cases "now - fetched c < cache_ttl \<and> keys c i \<noteq> None")
  case True
  with assms show ?thesis by (auto simp: jwks_key_def)
next
  case False
  then have "(if now - fetched c < cache_ttl then keys c i else None) = None" by auto
  with assms have r: "(case refresh dec now fetch c of
          (Some e, c') \<Rightarrow> (case keys c' i of Some k \<Rightarrow> (Inr k, c') | None \<Rightarrow> (Inl e, c'))
        | (None, c') \<Rightarrow> (case keys c' i of Some k \<Rightarrow> (Inr k, c') | None \<Rightarrow> (Inl (NoKey i), c'))) = (Inr k, c')"
    by (simp add: jwks_key_def)
  obtain e d where rd: "refresh dec now fetch c = (e, d)" by (metis prod.exhaust)
  show ?thesis
  proof (cases e)
    case None
    with r rd have "keys c' i = Some k" "d = c'" by (auto split: option.splits)
    with refresh_ok [of dec now fetch c c' i k] rd None show ?thesis by blast
  next
    case (Some x)
    with r rd have "keys c' i = Some k" "d = c'" by (auto split: option.splits)
    with refresh_failed [of dec now fetch c x d] rd Some show ?thesis by auto
  qed
qed

section \<open>The client over its calls\<close>

text \<open>The client after the calls made of it since the process started, each with its time, the outcome of its request
  if it makes one, and the key id asked for; and the documents the server answered with.\<close>

definition jwks_after :: "(jwk \<Rightarrow> 'k option) \<Rightarrow> (int \<times> (string + jwk list) \<times> string) list \<Rightarrow> 'k jwks_client" where
  "jwks_after dec calls = foldl (\<lambda>c (now, fetch, i). snd (jwks_key dec now fetch c i)) new_jwks_client calls"

fun documents :: "(string + jwk list) list \<Rightarrow> jwk list list" where
  "documents [] = []"
| "documents (Inl e # fs) = documents fs"
| "documents (Inr doc # fs) = doc # documents fs"

definition published_key :: "(jwk \<Rightarrow> 'k option) \<Rightarrow> jwk list list \<Rightarrow> string \<Rightarrow> 'k \<Rightarrow> bool" where
  "published_key dec docs i k \<longleftrightarrow> (\<exists>doc \<in> set docs. \<exists>j \<in> set doc. kty j = ''RSA'' \<and> kid j = i \<and> dec j = Some k)"

lemma documents_append: "documents (a @ b) = documents a @ documents b"
  by (induction a rule: documents.induct) simp_all

lemma published_append: "published_key dec docs i k \<Longrightarrow> published_key dec (docs @ docs') i k"
  by (auto simp: published_key_def)

lemma refresh_published:
  assumes "refresh dec now fetch c = (e, c')" "keys c' i = Some k"
  shows "keys c i = Some k \<or> published_key dec (documents [fetch]) i k"
  using assms by (cases fetch) (auto simp: refresh_def published_key_def split: sum.splits dest: decode_keys_Inr)

lemma jwks_key_state: "jwks_key dec now fetch c i = (r, c') \<Longrightarrow> c' = c \<or> (\<exists>e. refresh dec now fetch c = (e, c'))"
  by (cases "refresh dec now fetch c"; cases "fst (refresh dec now fetch c)")
    (auto simp: jwks_key_def split: option.splits if_splits)

text \<open>Every key the client holds was in a document the server answered with.\<close>

lemma held_published: "keys (jwks_after dec calls) i = Some k \<Longrightarrow> published_key dec (documents (map (fst \<circ> snd) calls)) i k"
proof (induction calls arbitrary: i k rule: rev_induct)
  case Nil
  then show ?case by (simp add: jwks_after_def new_jwks_client_def)
next
  case (snoc call calls)
  obtain now fetch j where call: "call = (now, fetch, j)" by (cases call)
  let ?c = "jwks_after dec calls"
  obtain r c' where key: "jwks_key dec now fetch ?c j = (r, c')" by fastforce
  have after: "jwks_after dec (calls @ [call]) = c'" using key by (simp add: jwks_after_def call)
  from snoc.prems after have k: "keys c' i = Some k" by simp
  have "keys ?c i = Some k \<or> published_key dec (documents [fetch]) i k"
    using jwks_key_state [OF key] refresh_published k by fastforce
  then show ?case
  proof
    assume "keys ?c i = Some k"
    from published_append [OF snoc.IH [OF this]] show ?thesis by (simp add: documents_append)
  next
    assume "published_key dec (documents [fetch]) i k"
    then show ?thesis by (auto simp: documents_append call published_key_def)
  qed
qed

end
