(* ===== verification/Proxy.thy ===== *)
theory Proxy
  imports Guac_Clipboard Guac_Handshake Jwks
begin

text \<open>
  \<open>wwt/internal/proxy/proxy.go\<close> and the token verification of \<open>shared/auth/keys.go\<close>: the \<open>/ws\<close>
  endpoint and the relay loop. A request is handled in one pass over an environment that gives
  the outcome of every call leaving the process (JWT library, API server, TCP dial, guacd,
  WebSocket upgrade); the handler's result is the trace of those calls and of the HTTP answer.
  The relay is a machine whose events are the reads of the two connections, in any
  interleaving, each with the outcome of the writes it causes.
\<close>

section \<open>Connection tokens\<close>

record clipboard_grant =
  grant_c :: bool
  grant_p :: bool

record connection_claims =
  session_id :: string
  workspace_id :: string
  clipboard :: clipboard_grant

text \<open>
  The JWT library: \<open>peek_kid\<close> is \<open>ParseUnverified\<close> followed by the read of the \<open>kid\<close> header
  (absent reads as the empty string); \<open>parse_claims\<close> is \<open>ParseWithClaims\<close>, given the allowed
  algorithms, the issuer, the audience and whether an expiration is required.
\<close>

record 'k jwt_library =
  peek_kid :: "string \<Rightarrow> string option"
  parse_claims :: "string list \<Rightarrow> string \<Rightarrow> string \<Rightarrow> bool \<Rightarrow> 'k \<Rightarrow> string \<Rightarrow> connection_claims option"

definition audience_connection :: string where "audience_connection = ''waas-connection''"

definition verify_connection_token ::
  "'k jwt_library \<Rightarrow> string \<Rightarrow> string \<Rightarrow> 'k \<Rightarrow> connection_claims option" where
  "verify_connection_token lib token issuer key =
     parse_claims lib [''RS256''] issuer audience_connection True key token"

datatype token_error = MissingToken | ParsingToken | KeyError jwks_error | InvalidToken

definition validate_connection_token ::
  "'k jwt_library \<Rightarrow> (string \<Rightarrow> 's \<Rightarrow> (jwks_error + 'k) \<times> 's)
     \<Rightarrow> string \<Rightarrow> 's \<Rightarrow> string \<Rightarrow> (token_error + connection_claims) \<times> 's" where
  "validate_connection_token lib key_of issuer c token =
     (if token = [] then (Inl MissingToken, c)
      else case peek_kid lib token of
        None \<Rightarrow> (Inl ParsingToken, c)
      | Some k \<Rightarrow> (case key_of k c of
          (Inl e, c') \<Rightarrow> (Inl (KeyError e), c')
        | (Inr key, c') \<Rightarrow> (case verify_connection_token lib token issuer key of
            None \<Rightarrow> (Inl InvalidToken, c')
          | Some claims \<Rightarrow> (Inr claims, c'))))"

text \<open>
  What the check relies on is a source of keys; what the data planes rely on is a check. The first
  contract gives the second: a token that passes carries claims the JWT library accepted under a
  key the source serves for the id the token names.
\<close>

locale key_source =
  fixes key_of :: "string \<Rightarrow> 's \<Rightarrow> (jwks_error + 'k) \<times> 's"
    and served :: "'s \<Rightarrow> string \<Rightarrow> 'k \<Rightarrow> bool"
  assumes key_served: "key_of i c = (Inr k, c') \<Longrightarrow> served c i k"

locale session_gate =
  fixes validate :: "string \<Rightarrow> token_error + connection_claims"
    and genuine :: "string \<Rightarrow> connection_claims \<Rightarrow> bool"
  assumes passes: "validate token = Inr claims \<Longrightarrow> genuine token claims"

definition signed_by :: "'k jwt_library \<Rightarrow> string \<Rightarrow> (string \<Rightarrow> 'k \<Rightarrow> bool) \<Rightarrow> string \<Rightarrow> connection_claims \<Rightarrow> bool" where
  "signed_by lib issuer published token claims \<longleftrightarrow>
     token \<noteq> [] \<and> (\<exists>i k. peek_kid lib token = Some i \<and> published i k \<and>
       verify_connection_token lib token issuer k = Some claims)"

locale token_checker = key_source key_of served
  for key_of :: "string \<Rightarrow> 's \<Rightarrow> (jwks_error + 'k) \<times> 's" and served :: "'s \<Rightarrow> string \<Rightarrow> 'k \<Rightarrow> bool" +
  fixes lib :: "'k jwt_library"
    and issuer :: string
    and state :: 's
begin

lemma validated:
  assumes "validate_connection_token lib key_of issuer state token = (Inr claims, c')"
  shows "signed_by lib issuer (served state) token claims"
proof -
  from assms have ne: "token \<noteq> []" by (auto simp: validate_connection_token_def)
  from assms ne obtain i where i: "peek_kid lib token = Some i"
    by (cases "peek_kid lib token") (simp_all add: validate_connection_token_def)
  obtain r c1 where k: "key_of i state = (r, c1)" by (cases "key_of i state")
  with assms ne i obtain key where r: "r = Inr key"
    by (cases r) (simp_all add: validate_connection_token_def)
  with assms ne i k have "verify_connection_token lib token issuer key = Some claims"
    by (simp add: validate_connection_token_def split: option.splits)
  with ne i key_served [of i state key c1] k r show ?thesis by (auto simp: signed_by_def)
qed

end

sublocale token_checker \<subseteq> gate: session_gate
  "\<lambda>token. fst (validate_connection_token lib key_of issuer state token)" "signed_by lib issuer (served state)"
proof
  fix token claims
  assume "fst (validate_connection_token lib key_of issuer state token) = Inr claims"
  then show "signed_by lib issuer (served state) token claims"
    using validated [of token claims "snd (validate_connection_token lib key_of issuer state token)"]
    by (metis prod.collapse)
qed

text \<open>The JWKS client is such a source.\<close>

definition jwks_served ::
  "(jwk \<Rightarrow> 'k option) \<Rightarrow> int \<Rightarrow> string + jwk list \<Rightarrow> 'k jwks_client \<Rightarrow> string \<Rightarrow> 'k \<Rightarrow> bool" where
  "jwks_served dec now fetch c i k \<longleftrightarrow>
     keys c i = Some k \<and> (now - fetched c < cache_ttl \<or> (\<exists>e. refresh dec now fetch c = (Some e, c))) \<or>
     (\<exists>doc. fetch = Inr doc \<and> (\<exists>j \<in> set doc. kty j = ''RSA'' \<and> kid j = i \<and> dec j = Some k))"

interpretation jwks: token_checker "\<lambda>i c. jwks_key dec now fetch c i" "jwks_served dec now fetch" lib issuer c
  for dec :: "jwk \<Rightarrow> 'k option" and now fetch lib issuer c
proof
  fix i c k c'
  assume "jwks_key dec now fetch c i = (Inr k, c')"
  then show "jwks_served dec now fetch c i k"
    by (elim jwks_key_source [elim_format] disjE) (auto simp: jwks_served_def)
qed

text \<open>A token accepted by a client that started empty was signed with a key of a document the server answered with,
  to this request or to an earlier one of the process.\<close>

definition fetched_documents :: "(int \<times> (string + jwk list) \<times> string) list \<Rightarrow> string + jwk list \<Rightarrow> jwk list list" where
  "fetched_documents earlier fetch = documents (map (fst \<circ> snd) earlier @ [fetch])"

lemma served_published:
  assumes "jwks_served dec now fetch (jwks_after dec earlier) i k"
  shows "published_key dec (fetched_documents earlier fetch) i k"
  using assms held_published [of dec earlier i k] published_append
  by (auto simp: jwks_served_def fetched_documents_def documents_append published_key_def)

lemma signed_published:
  "signed_by lib issuer (jwks_served dec now fetch (jwks_after dec earlier)) token claims \<Longrightarrow>
    signed_by lib issuer (published_key dec (fetched_documents earlier fetch)) token claims"
  using served_published unfolding signed_by_def by fast

section \<open>The /ws handler\<close>

record connection_info =
  ci_protocol :: string
  ci_hostname :: string
  ci_port :: int
  ci_username :: string
  ci_password :: string
  ci_params :: "string \<rightharpoonup> string"

record ws_request =
  q_token :: string
  q_width :: string
  q_height :: string
  q_dpi :: string
  q_layout :: string

record ws_env =
  env_validate :: "string \<Rightarrow> token_error + connection_claims"
  env_connection_info :: "string \<Rightarrow> connection_info option"
  env_dial :: bool
  env_write_ok :: "nat \<Rightarrow> bool"
  env_guacd_bytes :: string
  env_upgrade :: bool

datatype ws_action =
    ConnectionInfo string
  | DialGuacd
  | GuacdWrote "instruction list"
  | CloseGuacd
  | UpgradeWs
  | Pipe string clipboard_filter
  | EndSession string
  | HttpError nat

text \<open>\<open>intQuery\<close> drops the error of \<open>Atoi\<close> and keeps its value.\<close>

definition int_query :: "string \<Rightarrow> int" where
  "int_query s = fst (atoi_full s)"

definition ws_params :: "ws_request \<Rightarrow> connection_info \<Rightarrow> connection_params" where
  "ws_params r info = \<lparr>cp_protocol = ci_protocol info, cp_hostname = ci_hostname info,
     cp_port = ci_port info, cp_username = ci_username info, cp_password = ci_password info,
     cp_extra = ci_params info, cp_width = int_query (q_width r), cp_height = int_query (q_height r),
     cp_dpi = int_query (q_dpi r), cp_client_layout = q_layout r\<rparr>"

definition serve_ws :: "ws_env \<Rightarrow> ws_request \<Rightarrow> ws_action list" where
  "serve_ws env r =
     (case env_validate env (q_token r) of
        Inl _ \<Rightarrow> [HttpError 401]
      | Inr claims \<Rightarrow>
         ConnectionInfo (session_id claims) #
         (case env_connection_info env (session_id claims) of
            None \<Rightarrow> [HttpError 409]
          | Some info \<Rightarrow>
             if ci_protocol info = ''kasmvnc'' then [HttpError 409]
             else DialGuacd #
               (if \<not> env_dial env then [HttpError 502]
                else case handshake (env_write_ok env) (env_guacd_bytes env) (ws_params r info) of
                  (Inl _, sent) \<Rightarrow> [GuacdWrote sent, CloseGuacd, HttpError 502]
                | (Inr (cid, rest), sent) \<Rightarrow>
                    GuacdWrote sent # UpgradeWs #
                    (if \<not> env_upgrade env then [CloseGuacd]
                     else [Pipe rest (new_clipboard_filter (grant_c (clipboard claims)) (grant_p (clipboard claims))),
                           EndSession (session_id claims)]))))"

section \<open>The relay\<close>

record pipe =
  p_framer :: framer
  p_filter :: clipboard_filter
  p_open :: bool

text \<open>The booleans are the outcomes of the writes: to the browser, to guacd.\<close>

datatype pipe_event =
    GuacdRead string bool
  | GuacdClosed
  | BrowserMessage string bool bool
  | BrowserClosed

datatype pipe_output =
    ToBrowser string
  | ReplyToBrowser string
  | ToGuacd string

definition new_pipe :: "clipboard_filter \<Rightarrow> pipe" where
  "new_pipe f = \<lparr>p_framer = new_framer, p_filter = f, p_open = True\<rparr>"

text \<open>The body of the guacd-to-browser goroutine for one read.\<close>

definition on_guacd_read :: "pipe \<Rightarrow> string \<Rightarrow> bool \<Rightarrow> pipe \<times> pipe_output list" where
  "on_guacd_read p data ok =
     (case push (p_framer p) data of
        (Inl _, fr) \<Rightarrow> (p\<lparr>p_framer := fr, p_open := False\<rparr>, [])
      | (Inr None, fr) \<Rightarrow> (p\<lparr>p_framer := fr\<rparr>, [])
      | (Inr (Some frame), fr) \<Rightarrow>
         (case filter_to_browser (p_filter p) frame of
            (Inl _, f) \<Rightarrow> (p\<lparr>p_framer := fr, p_filter := f, p_open := False\<rparr>, [])
          | (Inr out, f) \<Rightarrow>
             (let p' = p\<lparr>p_framer := fr, p_filter := f\<rparr> in
              if out = [] then (p', [])
              else if ok then (p', [ToBrowser out]) else (p'\<lparr>p_open := False\<rparr>, []))))"

text \<open>The body of the browser-to-guacd goroutine for one message.\<close>

definition on_browser_message :: "pipe \<Rightarrow> string \<Rightarrow> bool \<Rightarrow> bool \<Rightarrow> pipe \<times> pipe_output list" where
  "on_browser_message p msg ok_ws ok_guacd =
     (if is_internal_message msg then
        (case (if is_internal_ping msg then (Some msg, p_filter p) else handle_control (p_filter p) msg) of
           (None, f) \<Rightarrow> (p\<lparr>p_filter := f\<rparr>, [])
         | (Some reply, f) \<Rightarrow>
            if ok_ws then (p\<lparr>p_filter := f\<rparr>, [ReplyToBrowser reply])
            else (p\<lparr>p_filter := f, p_open := False\<rparr>, []))
      else (case filter_to_guacd (p_filter p) msg of
           (Inl _, f) \<Rightarrow> (p\<lparr>p_filter := f, p_open := False\<rparr>, [])
         | (Inr (fwd, reply), f) \<Rightarrow>
            (let p' = p\<lparr>p_filter := f\<rparr>;
                 rs = (case reply of None \<Rightarrow> [] | Some x \<Rightarrow> [ReplyToBrowser x]) in
             if reply \<noteq> None \<and> \<not> ok_ws then (p'\<lparr>p_open := False\<rparr>, [])
             else if fwd = [] then (p', rs)
             else if ok_guacd then (p', rs @ [ToGuacd fwd]) else (p'\<lparr>p_open := False\<rparr>, rs))))"

text \<open>Either side ending closes both connections: later events find the relay closed.\<close>

definition pipe_step :: "pipe \<Rightarrow> pipe_event \<Rightarrow> pipe \<times> pipe_output list" where
  "pipe_step p ev =
     (if \<not> p_open p then (p, [])
      else case ev of
        GuacdRead data ok \<Rightarrow> on_guacd_read p data ok
      | GuacdClosed \<Rightarrow> (p\<lparr>p_open := False\<rparr>, [])
      | BrowserMessage msg ok_ws ok_guacd \<Rightarrow> on_browser_message p msg ok_ws ok_guacd
      | BrowserClosed \<Rightarrow> (p\<lparr>p_open := False\<rparr>, []))"

fun pipe_run :: "pipe \<Rightarrow> pipe_event list \<Rightarrow> pipe \<times> pipe_output list" where
  "pipe_run p [] = (p, [])"
| "pipe_run p (ev # evs) =
     (case pipe_step p ev of (p', out) \<Rightarrow>
        (case pipe_run p' evs of (p'', outs) \<Rightarrow> (p'', out @ outs)))"

section \<open>Rights through the relay\<close>

definition pipe_inv :: "bool \<Rightarrow> bool \<Rightarrow> pipe \<Rightarrow> bool" where
  "pipe_inv c q p \<longleftrightarrow> within_grant (p_filter p) \<and> grant_copy (p_filter p) = c \<and> grant_paste (p_filter p) = q"

lemma pipe_inv_new: "pipe_inv c q (new_pipe (new_clipboard_filter c q))"
  by (simp add: pipe_inv_def new_pipe_def within_grant_new) (simp add: new_clipboard_filter_def)

lemma pipe_inv_filter:
  "same_rights (p_filter p) f \<Longrightarrow> pipe_inv c q p \<Longrightarrow>
   pipe_inv c q (p\<lparr>p_filter := f\<rparr>)"
  by (auto simp: pipe_inv_def within_grant_def same_rights_def)

lemma pipe_inv_simps [simp]:
  "pipe_inv c q (p\<lparr>p_open := b\<rparr>) = pipe_inv c q p"
  "pipe_inv c q (p\<lparr>p_framer := fr\<rparr>) = pipe_inv c q p"
  "pipe_inv c q (p\<lparr>p_framer := fr, p_filter := f\<rparr>) = pipe_inv c q (p\<lparr>p_filter := f\<rparr>)"
  "pipe_inv c q (p\<lparr>p_framer := fr, p_open := b\<rparr>) = pipe_inv c q p"
  "pipe_inv c q (p\<lparr>p_filter := f, p_open := b\<rparr>) = pipe_inv c q (p\<lparr>p_filter := f\<rparr>)"
  "pipe_inv c q (p\<lparr>p_framer := fr, p_filter := f, p_open := b\<rparr>) = pipe_inv c q (p\<lparr>p_filter := f\<rparr>)"
  by (simp_all add: pipe_inv_def)

lemma on_guacd_read_inv:
  assumes "on_guacd_read p data ok = (p', out)" "pipe_inv c q p"
  shows "pipe_inv c q p'"
proof -
  obtain r fr where pu: "push (p_framer p) data = (r, fr)" by (metis prod.exhaust)
  show ?thesis
  proof (cases "\<exists>frame. r = Inr (Some frame)")
    case False
    with assms pu show ?thesis
      by (auto simp: on_guacd_read_def split: sum.splits option.splits)
  next
    case True
    then obtain frame where r: "r = Inr (Some frame)" ..
    obtain b f where fb: "filter_to_browser (p_filter p) frame = (b, f)" by (metis prod.exhaust)
    have "pipe_inv c q (p\<lparr>p_filter := f\<rparr>)"
      using filter_to_browser_rights [OF fb] assms(2) by (simp add: pipe_inv_filter)
    with assms pu r fb show ?thesis
      by (auto simp: on_guacd_read_def Let_def split: sum.splits if_splits)
  qed
qed

lemma on_browser_message_inv:
  assumes "on_browser_message p msg okw okg = (p', out)" "pipe_inv c q p"
  shows "pipe_inv c q p'"
proof (cases "is_internal_message msg")
  case True
  obtain r f where hc: "(if is_internal_ping msg then (Some msg, p_filter p) else handle_control (p_filter p) msg) = (r, f)"
    by (metis prod.exhaust)
  have "pipe_inv c q (p\<lparr>p_filter := f\<rparr>)"
    using hc handle_control_rights [of "p_filter p" msg r f] assms(2)
    by (auto simp: pipe_inv_def split: if_splits)
  with assms True hc show ?thesis
    by (auto simp: on_browser_message_def split: option.splits if_splits)
next
  case False
  obtain r f where fg: "filter_to_guacd (p_filter p) msg = (r, f)" by (metis prod.exhaust)
  have "pipe_inv c q (p\<lparr>p_filter := f\<rparr>)"
    using filter_to_guacd_rights [OF fg] assms(2) by (simp add: pipe_inv_filter)
  with assms False fg show ?thesis
    by (auto simp: on_browser_message_def Let_def split: sum.splits if_splits prod.splits)
qed

lemma pipe_step_inv: "pipe_step p ev = (p', out) \<Longrightarrow> pipe_inv c q p \<Longrightarrow> pipe_inv c q p'"
  by (auto simp: pipe_step_def split: if_splits pipe_event.splits
      dest: on_guacd_read_inv on_browser_message_inv)

lemma pipe_run_inv: "pipe_run p evs = (p', outs) \<Longrightarrow> pipe_inv c q p \<Longrightarrow> pipe_inv c q p'"
proof (induction evs arbitrary: p outs)
  case (Cons ev evs)
  then show ?case by (auto split: prod.splits dest: pipe_step_inv)
qed simp

section \<open>The two directions, end to end\<close>

fun guacd_bytes :: "pipe_event list \<Rightarrow> string" where
  "guacd_bytes [] = []"
| "guacd_bytes (GuacdRead d _ # evs) = d @ guacd_bytes evs"
| "guacd_bytes (_ # evs) = guacd_bytes evs"

fun browser_frames :: "pipe_output list \<Rightarrow> string" where
  "browser_frames [] = []"
| "browser_frames (ToBrowser b # outs) = b @ browser_frames outs"
| "browser_frames (_ # outs) = browser_frames outs"

lemma browser_frames_append [simp]: "browser_frames (a @ b) = browser_frames a @ browser_frames b"
  by (induction a rule: browser_frames.induct) simp_all

lemma pipe_inv_no_copy: "pipe_inv False q p \<Longrightarrow> \<not> want_copy (p_filter p)"
  by (auto simp: pipe_inv_def within_grant_def)

lemma pipe_inv_no_paste: "pipe_inv c False p \<Longrightarrow> \<not> want_paste (p_filter p)"
  by (auto simp: pipe_inv_def within_grant_def)

lemma pipe_run_closed: "\<not> p_open p \<Longrightarrow> pipe_run p evs = (p, [])"
  by (induction evs) (simp_all add: pipe_step_def)

lemma control_outcome_frame:
  assumes bl: "blocked_server f = blocked_server (p_filter p)"
  and e: "(case r of None \<Rightarrow> (p\<lparr>p_filter := f\<rparr>, [])
      | Some reply \<Rightarrow> if okw then (p\<lparr>p_filter := f\<rparr>, [ReplyToBrowser reply])
          else (p\<lparr>p_filter := f, p_open := False\<rparr>, [])) = (p', out)"
   shows "p_framer p' = p_framer p \<and> blocked_server (p_filter p') = blocked_server (p_filter p)
    \<and> browser_frames out = []"
proof (cases r)
  case None
  with e have "p' = p\<lparr>p_filter := f\<rparr>" "out = []" by (simp_all only: option.case prod.inject)
  then show ?thesis using bl by simp
next
  case (Some x)
  with e have e: "(if okw then (p\<lparr>p_filter := f\<rparr>, [ReplyToBrowser x])
          else (p\<lparr>p_filter := f, p_open := False\<rparr>, [])) = (p', out)" by (simp only: option.case)
  show ?thesis
  proof (cases okw)
    case True
    with e have "p' = p\<lparr>p_filter := f\<rparr>" "out = [ReplyToBrowser x]" by (simp_all only: if_True if_False prod.inject)
    then show ?thesis using bl by simp
  next
    case False
    with e have "p' = p\<lparr>p_filter := f, p_open := False\<rparr>" "out = []" by (simp_all only: if_True if_False prod.inject)
    then show ?thesis using bl by simp
  qed
qed

lemma message_outcome:
  "(if a then (x, []) else if b then (y, rs) else if c then (y, rs @ s) else (x, rs)) = (z, out) \<Longrightarrow>
   (z = x \<or> z = y) \<and> (out = [] \<or> out = rs \<or> out = rs @ s)"
  by (auto split: if_splits)

lemma on_browser_message_frame:
  assumes "on_browser_message p msg okw okg = (p', out)"
  shows "p_framer p' = p_framer p \<and> blocked_server (p_filter p') = blocked_server (p_filter p)
    \<and> browser_frames out = []"
proof (cases "is_internal_message msg")
  case True
  obtain r f where hc: "(if is_internal_ping msg then (Some msg, p_filter p) else handle_control (p_filter p) msg) = (r, f)"
    by (metis prod.exhaust)
  have "blocked_server f = blocked_server (p_filter p)"
    using hc handle_control_rights(3) [of "p_filter p" msg r f] by (auto split: if_splits)
  moreover have "(case r of None \<Rightarrow> (p\<lparr>p_filter := f\<rparr>, [])
      | Some reply \<Rightarrow> if okw then (p\<lparr>p_filter := f\<rparr>, [ReplyToBrowser reply])
          else (p\<lparr>p_filter := f, p_open := False\<rparr>, [])) = (p', out)"
    using assms True unfolding on_browser_message_def hc by simp
  ultimately show ?thesis by (rule control_outcome_frame)
next
  case False
  obtain r f where fg: "filter_to_guacd (p_filter p) msg = (r, f)" by (metis prod.exhaust)
  have bl: "blocked_server f = blocked_server (p_filter p)" using filter_to_guacd_rights [OF fg] by simp
  show ?thesis
  proof (cases r)
    case (Inl e)
    have "(p\<lparr>p_filter := f, p_open := False\<rparr>, []) = (p', out)"
      using assms unfolding on_browser_message_def fg Inl by (simp only: False if_False prod.case sum.case)
    then have "p' = p\<lparr>p_filter := f, p_open := False\<rparr>" "out = []" by (simp_all only: prod.inject)
    then show ?thesis using bl by simp
  next
    case (Inr fr)
    obtain fwd reply where fr: "fr = (fwd, reply)" by (cases fr)
    let ?p' = "p\<lparr>p_filter := f\<rparr>" and ?rs = "case reply of None \<Rightarrow> [] | Some x \<Rightarrow> [ReplyToBrowser x]"
    have e: "(if reply \<noteq> None \<and> \<not> okw then (?p'\<lparr>p_open := False\<rparr>, []) else if fwd = [] then (?p', ?rs)
       else if okg then (?p', ?rs @ [ToGuacd fwd]) else (?p'\<lparr>p_open := False\<rparr>, ?rs)) = (p', out)"
      using assms unfolding on_browser_message_def fg Inr fr Let_def
      by (simp only: False if_False prod.case sum.case)
    have rs: "browser_frames ?rs = []" by (cases reply) simp_all
    from message_outcome [OF e] show ?thesis
      by (elim conjE disjE) (simp_all add: bl rs)
  qed
qed

lemma on_guacd_read_legal:
  assumes stream: "(pending (p_framer p) @ d) @ r = encode_all is" "list_all wf_instruction is"
    "list_all (\<lambda>i. length (encode i) \<le> max_pending_bytes) is"
    and nocopy: "\<not> want_copy (p_filter p)" and st: "on_guacd_read p d ok = (p', out)"
  obtains js ks where "is = js @ ks" "pending (p_framer p') @ r = encode_all ks"
    "complete_prefix (pending (p_framer p')) = Inr 0"
    "blocked_server (p_filter p') = open_streams (blocked_server (p_filter p)) js"
    "browser_frames out = encode_all (strip_clipboard (blocked_server (p_filter p)) js) \<or>
       browser_frames out = [] \<and> \<not> p_open p'"
proof -
  from stream obtain js ks g where jk: "is = js @ ks"
    and g: "push (p_framer p) d = (Inr (if js = [] then None else Some (encode_all js)), g)"
    and k: "pending g @ r = encode_all ks" "complete_prefix (pending g) = Inr 0"
    by (rule push_legal)
  show thesis
  proof (cases "js = []")
    case True
    with st g have "p' = p\<lparr>p_framer := g\<rparr>" "out = []" by (auto simp: on_guacd_read_def)
    with that [of "[]" ks] jk k True show thesis by (simp add: open_streams_def)
  next
    case False
    have "list_all wf_instruction js" using stream(2) jk by simp
    from filter_to_browser_blocked [OF this nocopy] obtain f where
      f: "filter_to_browser (p_filter p) (encode_all js) =
        (Inr (encode_all (strip_clipboard (blocked_server (p_filter p)) js)), f)"
      "blocked_server f = open_streams (blocked_server (p_filter p)) js" by blast
    with st g False have "p_framer p' = g" "p_filter p' = f"
      "browser_frames out = encode_all (strip_clipboard (blocked_server (p_filter p)) js) \<or>
        browser_frames out = [] \<and> \<not> p_open p'"
      by (auto simp: on_guacd_read_def Let_def split: if_splits)
    with that [of js ks] jk k f show thesis by simp
  qed
qed

lemma pipe_run_copy_denied:
  assumes "pipe_run p evs = (p', outs)" "pipe_inv False q p"
    "pending (p_framer p) @ guacd_bytes evs = encode_all is" "list_all wf_instruction is"
    "list_all (\<lambda>i. length (encode i) \<le> max_pending_bytes) is"
    "complete_prefix (pending (p_framer p)) = Inr 0"
  shows "\<exists>js ks. is = js @ ks \<and> (p_open p' \<longrightarrow> ks = []) \<and>
    browser_frames outs = encode_all (strip_clipboard (blocked_server (p_filter p)) js)"
  using assms
proof (induction evs arbitrary: p "is" outs)
  case Nil
  then have "is = []" by (intro complete_prefix_encode_all_Nil) simp_all
  with Nil show ?case by simp
next
  case (Cons ev evs)
  show ?case
  proof (cases "p_open p")
    case False
    with Cons.prems(1) have "p' = p" "outs = []" by (simp_all add: pipe_run_closed del: pipe_run.simps)
    with False show ?thesis by (intro exI [of _ "[]"] exI [of _ "is"]) simp
  next
    case op: True
    obtain p1 out1 where st: "pipe_step p ev = (p1, out1)" by (metis prod.exhaust)
    with Cons.prems(1) obtain out2 where run: "pipe_run p1 evs = (p', out2)" and outs: "outs = out1 @ out2"
      by (auto split: prod.splits)
    have inv: "pipe_inv False q p1" using pipe_step_inv [OF st Cons.prems(2)] .
    consider d ok where "ev = GuacdRead d ok" | m a b where "ev = BrowserMessage m a b"
      | "ev = GuacdClosed \<or> ev = BrowserClosed" by (cases ev) auto
    then show ?thesis
    proof cases
      case (1 d ok)
      have stream: "(pending (p_framer p) @ d) @ guacd_bytes evs = encode_all is"
        using Cons.prems(3) 1 by simp
      have rd: "on_guacd_read p d ok = (p1, out1)" using st op 1 by (simp add: pipe_step_def)
      obtain js ks where jk: "is = js @ ks" and k: "pending (p_framer p1) @ guacd_bytes evs = encode_all ks"
        "complete_prefix (pending (p_framer p1)) = Inr 0"
        and bl: "blocked_server (p_filter p1) = open_streams (blocked_server (p_filter p)) js"
        and fr: "browser_frames out1 = encode_all (strip_clipboard (blocked_server (p_filter p)) js) \<or>
           browser_frames out1 = [] \<and> \<not> p_open p1"
        using on_guacd_read_legal [OF stream Cons.prems(4,5) pipe_inv_no_copy [OF Cons.prems(2)] rd] by blast
      show ?thesis
      proof (cases "browser_frames out1 = encode_all (strip_clipboard (blocked_server (p_filter p)) js)")
        case True
        have "list_all wf_instruction ks" "list_all (\<lambda>i. length (encode i) \<le> max_pending_bytes) ks"
          using Cons.prems(4,5) jk by simp_all
        from Cons.IH [OF run inv k(1) this k(2)] obtain js' ks' where "ks = js' @ ks'"
          "p_open p' \<longrightarrow> ks' = []"
          "browser_frames out2 = encode_all (strip_clipboard (blocked_server (p_filter p1)) js')" by blast
        with True jk bl outs show ?thesis
          by (intro exI [of _ "js @ js'"] exI [of _ ks']) (simp add: strip_clipboard_append)
      next
        case False
        with fr have cl: "\<not> p_open p1" "browser_frames out1 = []" by simp_all
        with run have "p' = p1" "out2 = []" by (simp_all add: pipe_run_closed)
        with cl outs show ?thesis by (intro exI [of _ "[]"] exI [of _ "is"]) simp
      qed
    next
      case (2 m a b)
      then have "on_browser_message p m a b = (p1, out1)" using st op by (simp add: pipe_step_def)
      from on_browser_message_frame [OF this] have same: "p_framer p1 = p_framer p"
        "blocked_server (p_filter p1) = blocked_server (p_filter p)" "browser_frames out1 = []" by simp_all
      have "pending (p_framer p1) @ guacd_bytes evs = encode_all is" using Cons.prems(3) 2 same by simp
      from Cons.IH [OF run inv this Cons.prems(4,5)] Cons.prems(6) same outs show ?thesis by simp
    next
      case 3
      with st op have "\<not> p_open p1" "out1 = []" by (auto simp: pipe_step_def)
      with run outs have "\<not> p_open p'" "outs = []" by (simp_all add: pipe_run_closed)
      then show ?thesis by (intro exI [of _ "[]"] exI [of _ "is"]) simp
    qed
  qed
qed

lemma on_browser_message_paste:
  assumes "on_browser_message p msg okw okg = (p', out)" "\<not> want_paste (p_filter p)" "ToGuacd m \<in> set out"
  shows "\<exists>is. read_all m = Inr is \<and> \<not> list_ex opens_clipboard is"
proof -
  from assms(1,3) obtain fwd reply f where fg: "filter_to_guacd (p_filter p) msg = (Inr (fwd, reply), f)"
    and m: "m = fwd"
    by (auto simp: on_browser_message_def Let_def split: if_splits option.splits sum.splits prod.splits)
  from filter_to_guacd_blocked [OF fg assms(2)] m strip_clipboard_no_open show ?thesis
    by (force simp: list_ex_iff)
qed

lemma on_guacd_read_not_to_guacd: "on_guacd_read p d ok = (p', out) \<Longrightarrow> ToGuacd m \<notin> set out"
  by (auto simp: on_guacd_read_def Let_def split: sum.splits option.splits prod.splits if_splits)

lemma pipe_run_paste_denied:
  assumes "pipe_run p evs = (p', outs)" "pipe_inv c False p" "ToGuacd m \<in> set outs"
  shows "\<exists>is. read_all m = Inr is \<and> \<not> list_ex opens_clipboard is"
  using assms
proof (induction evs arbitrary: p outs)
  case (Cons ev evs)
  obtain p1 out1 where st: "pipe_step p ev = (p1, out1)" by (metis prod.exhaust)
  with Cons.prems(1) obtain out2 where run: "pipe_run p1 evs = (p', out2)" and outs: "outs = out1 @ out2"
    by (auto split: prod.splits)
  show ?case
  proof (cases "ToGuacd m \<in> set out1")
    case True
    then obtain msg a b where "on_browser_message p msg a b = (p1, out1)"
      using st on_guacd_read_not_to_guacd
      by (cases ev) (fastforce simp: pipe_step_def split: if_splits)+
    from on_browser_message_paste [OF this pipe_inv_no_paste [OF Cons.prems(2)] True] show ?thesis .
  next
    case False
    with Cons.prems(3) outs Cons.IH [OF run pipe_step_inv [OF st Cons.prems(2)]] show ?thesis by simp
  qed
qed simp

section \<open>The handler's guarantees\<close>

lemma serve_ws_pipe:
  assumes "Pipe rest f \<in> set (serve_ws env r)"
  obtains claims info where "env_validate env (q_token r) = Inr claims"
    "env_connection_info env (session_id claims) = Some info" "ci_protocol info \<noteq> ''kasmvnc''"
    "f = new_clipboard_filter (grant_c (clipboard claims)) (grant_p (clipboard claims))"
    "last (serve_ws env r) = EndSession (session_id claims)"
proof -
  obtain claims where v: "env_validate env (q_token r) = Inr claims"
    using assms by (cases "env_validate env (q_token r)") (simp_all add: serve_ws_def)
  obtain info where i: "env_connection_info env (session_id claims) = Some info"
    using assms v by (cases "env_connection_info env (session_id claims)") (simp_all add: serve_ws_def)
  obtain x sent where h: "handshake (env_write_ok env) (env_guacd_bytes env) (ws_params r info) = (x, sent)"
    by (metis prod.exhaust)
  have k: "ci_protocol info \<noteq> ''kasmvnc''" "env_dial env"
    using assms v i by (auto simp: serve_ws_def split: if_splits)
  with assms v i h obtain y where "x = Inr y" by (cases x) (simp_all add: serve_ws_def)
  then obtain cid rest' where x: "x = Inr (cid, rest')" by (cases y) simp
  with assms v i h k have up: "env_upgrade env" by (auto simp: serve_ws_def split: if_splits)
  show thesis
    by (rule that [OF v i k(1)]) (use assms v i h k x up in \<open>simp_all add: serve_ws_def\<close>)
qed

text \<open>Without a token that passes, the handler makes no call and answers 401.\<close>

lemma serve_ws_refused: "env_validate env (q_token r) = Inl e \<Longrightarrow> serve_ws env r = [HttpError 401]"
  by (simp add: serve_ws_def)

text \<open>The whole exchange of a request that gets a relay.\<close>

lemma serve_ws_trace:
  assumes "Pipe rest f \<in> set (serve_ws env r)" "env_validate env (q_token r) = Inr claims"
    "env_connection_info env (session_id claims) = Some info"
  obtains cid sent where "handshake (env_write_ok env) (env_guacd_bytes env) (ws_params r info) = (Inr (cid, rest), sent)"
    "serve_ws env r = [ConnectionInfo (session_id claims), DialGuacd, GuacdWrote sent, UpgradeWs, Pipe rest f,
       EndSession (session_id claims)]"
proof -
  obtain x sent where h: "handshake (env_write_ok env) (env_guacd_bytes env) (ws_params r info) = (x, sent)"
    by (metis prod.exhaust)
  have k: "ci_protocol info \<noteq> ''kasmvnc''" "env_dial env"
    using assms by (auto simp: serve_ws_def split: if_splits)
  with assms h obtain y where "x = Inr y" by (cases x) (simp_all add: serve_ws_def)
  then obtain cid rest' where x: "x = Inr (cid, rest')" by (cases y) simp
  with assms h k have up: "env_upgrade env" by (auto simp: serve_ws_def split: if_splits)
  have "rest' = rest" using assms h k x up by (simp add: serve_ws_def)
  with that h x show thesis using assms k up by (simp add: serve_ws_def)
qed

text \<open>What guacd is told to connect to: the protocol selected, and one connect instruction that answers the names guacd
  announced, the host and the port with those of the resolved session, and the user name and the password with its
  own unless its parameters carry their own.\<close>

definition dials :: "connection_info \<Rightarrow> string \<Rightarrow> instruction list \<Rightarrow> bool" where
  "dials info answer sent \<longleftrightarrow> hd sent = \<lparr>opcode = ''select'', args = [ci_protocol info]\<rparr> \<and>
     (\<exists>announced inp1 values. read_instruction answer = Inr (announced, inp1) \<and>
        filter (\<lambda>i. opcode i = ''connect'') sent = [\<lparr>opcode = ''connect'', args = values\<rparr>] \<and>
        length values = length (args announced) \<and>
        (\<forall>k < length values.
          (args announced ! k = ''hostname'' \<longrightarrow> values ! k = ci_hostname info) \<and>
          (args announced ! k = ''port'' \<longrightarrow> values ! k = itoa (ci_port info)) \<and>
          (args announced ! k = ''username'' \<longrightarrow> ci_params info ''username'' = None \<longrightarrow> values ! k = ci_username info) \<and>
          (args announced ! k = ''password'' \<longrightarrow> ci_params info ''password'' = None \<longrightarrow> values ! k = ci_password info)))"

lemma handshake_dials:
  assumes "handshake ok answer (ws_params r info) = (Inr (cid, rest), sent)"
  shows "dials info answer sent"
  using assms
proof (rule handshake_Inr)
  fix announced inp1
  assume a: "read_instruction answer = Inr (announced, inp1)" "sent = client_script (ws_params r info) (args announced)"
  have "\<not> has_prefix ''username'' ''VERSION_''" "\<not> has_prefix ''password'' ''VERSION_''" by (simp_all add: has_prefix_def)
  then have v: "ci_params info ''username'' = None \<Longrightarrow> param_value ''username'' (ws_params r info) = ci_username info"
    "ci_params info ''password'' = None \<Longrightarrow> param_value ''password'' (ws_params r info) = ci_password info"
    by (simp_all add: param_value_def ws_params_def)
  have hp: "cp_hostname (ws_params r info) = ci_hostname info" "cp_port (ws_params r info) = ci_port info"
    "cp_protocol (ws_params r info) = ci_protocol info" by (simp_all add: ws_params_def)
  show ?thesis unfolding dials_def
  proof (intro conjI exI allI impI)
    show "read_instruction answer = Inr (announced, inp1)" by (rule a(1))
    show "hd sent = \<lparr>opcode = ''select'', args = [ci_protocol info]\<rparr>" by (simp add: a(2) client_script_def hp)
    show "filter (\<lambda>i. opcode i = ''connect'') sent = [\<lparr>opcode = ''connect'',
        args = map (\<lambda>name. param_value name (ws_params r info)) (args announced)\<rparr>]"
      by (simp add: a(2) client_script_def display_instructions_def connect_instruction_def)
  qed (simp_all add: hp v)
qed

text \<open>C5: A relay is opened only for a token that the JWT library accepts under a key, named by the token, of a key document
  the API server answered with, to this request or to an earlier one of the process (the client starts with no key; when
  a refresh fails it goes on with what it has, however old). The whole exchange is then that of the token's session:
  its connection data are asked for, they are not those of a kasmvnc one, guacd is told their protocol, host, port and
  credentials, the relay's clipboard filter has the token's grants, and the session is ended when the relay returns.\<close>

theorem ws_relay_authorized:
  assumes "env_validate env = (\<lambda>t. fst (validate_connection_token lib (\<lambda>i c. jwks_key dec now fetch c i) issuer
      (jwks_after dec earlier) t))"
    "Pipe rest f \<in> set (serve_ws env r)"
  shows "\<exists>claims info sent. signed_by lib issuer (published_key dec (fetched_documents earlier fetch)) (q_token r) claims \<and>
    env_connection_info env (session_id claims) = Some info \<and> ci_protocol info \<noteq> ''kasmvnc'' \<and>
    f = new_clipboard_filter (grant_c (clipboard claims)) (grant_p (clipboard claims)) \<and>
    dials info (env_guacd_bytes env) sent \<and>
    serve_ws env r = [ConnectionInfo (session_id claims), DialGuacd, GuacdWrote sent, UpgradeWs, Pipe rest f,
      EndSession (session_id claims)]"
proof -
  obtain claims info where c: "env_validate env (q_token r) = Inr claims" "env_connection_info env (session_id claims) = Some info"
    "ci_protocol info \<noteq> ''kasmvnc''" "f = new_clipboard_filter (grant_c (clipboard claims)) (grant_p (clipboard claims))"
    using serve_ws_pipe [OF assms(2)] by metis
  from serve_ws_trace [OF assms(2) c(1,2)] obtain cid sent
    where t: "handshake (env_write_ok env) (env_guacd_bytes env) (ws_params r info) = (Inr (cid, rest), sent)"
      "serve_ws env r = [ConnectionInfo (session_id claims), DialGuacd, GuacdWrote sent, UpgradeWs, Pipe rest f,
        EndSession (session_id claims)]" by metis
  have "signed_by lib issuer (jwks_served dec now fetch (jwks_after dec earlier)) (q_token r) claims"
    using jwks.gate.passes c(1) unfolding assms(1) by blast
  from signed_published [OF this] c handshake_dials [OF t(1)] t(2) show ?thesis by blast
qed

text \<open>When the token does not grant copying, the browser receives guacd's stream with every clipboard stream cut out
  whole, instruction by instruction and in order, whatever the reads, the browser's messages (toggles included) and
  their interleaving; it is cut short only when the relay closes.\<close>

lemma relay_copy_denied:
  assumes "pipe_run (new_pipe (new_clipboard_filter False q)) evs = (p', outs)"
    "guacd_bytes evs = encode_all is" "list_all wf_instruction is"
    "list_all (\<lambda>i. length (encode i) \<le> max_pending_bytes) is"
  shows "\<exists>js ks. is = js @ ks \<and> (p_open p' \<longrightarrow> ks = []) \<and> browser_frames outs = encode_all (strip_clipboard {} js)"
proof -
  let ?p = "new_pipe (new_clipboard_filter False q)"
  have p: "pending (p_framer ?p) = []" "blocked_server (p_filter ?p) = {}"
    by (simp_all add: new_pipe_def new_clipboard_filter_def)
  have "pending (p_framer ?p) @ guacd_bytes evs = encode_all is" "complete_prefix (pending (p_framer ?p)) = Inr 0"
    using assms(2) p by simp_all
  from pipe_run_copy_denied [OF assms(1) pipe_inv_new this(1) assms(3,4) this(2)] p(2) show ?thesis by simp
qed

text \<open>When the token does not grant pasting, nothing written to guacd opens a clipboard stream, whatever bytes the
  browser sends and whatever controls it uses.\<close>

lemma relay_paste_denied:
  assumes "pipe_run (new_pipe (new_clipboard_filter c False)) evs = (p', outs)" "ToGuacd m \<in> set outs"
  shows "\<exists>is. read_all m = Inr is \<and> \<not> list_ex opens_clipboard is"
  by (rule pipe_run_paste_denied [OF assms(1) pipe_inv_new assms(2)])

text \<open>The user's live toggles never go beyond the token's grants, and the grants never change, over any sequence of
  events.\<close>

lemma relay_toggles_bounded:
  assumes "pipe_run (new_pipe (new_clipboard_filter c q)) evs = (p', outs)"
  shows "(want_copy (p_filter p') \<longrightarrow> c) \<and> (want_paste (p_filter p') \<longrightarrow> q) \<and>
    grant_copy (p_filter p') = c \<and> grant_paste (p_filter p') = q"
  using pipe_run_inv [OF assms pipe_inv_new] by (auto simp: pipe_inv_def within_grant_def)

section \<open>A concrete session\<close>

definition demo_claims :: "bool \<Rightarrow> bool \<Rightarrow> connection_claims" where
  "demo_claims c q = \<lparr>session_id = ''s1'', workspace_id = ''w1'', clipboard = \<lparr>grant_c = c, grant_p = q\<rparr>\<rparr>"

definition demo_jwt :: "nat jwt_library" where
  "demo_jwt = \<lparr>peek_kid = (\<lambda>t. Some ''k1''),
     parse_claims = (\<lambda>algs iss aud exp k t. if k = 7 \<and> t = ''good'' \<and> exp \<and> aud = ''waas-connection''
       then Some (demo_claims True False) else None)\<rparr>"

definition demo_decode :: "jwk \<Rightarrow> nat option" where
  "demo_decode j = (if jwk_n j = ''seven'' then Some 7 else None)"

definition demo_calls :: "(int \<times> (string + jwk list) \<times> string) list" where
  "demo_calls = [(cache_ttl, Inr [\<lparr>kty = ''RSA'', kid = ''k1'', jwk_n = ''seven'', jwk_e = ''AQAB''\<rparr>], ''k1'')]"

abbreviation demo_keys :: "nat jwks_client" where "demo_keys \<equiv> jwks_after demo_decode demo_calls"

lemma demo_keys_held: "demo_keys = \<lparr>keys = [''k1'' \<mapsto> 7], fetched = cache_ttl\<rparr>"
  by (simp add: jwks_after_def demo_calls_def demo_decode_def new_jwks_client_def jwks_key_def refresh_def)

definition demo_validate :: "string \<Rightarrow> token_error + connection_claims" where
  "demo_validate t = fst (validate_connection_token demo_jwt (\<lambda>i c. jwks_key demo_decode cache_ttl (Inl ''down'') c i) ''waas'' demo_keys t)"

definition demo_info :: "string \<Rightarrow> connection_info" where
  "demo_info proto = \<lparr>ci_protocol = proto, ci_hostname = ''desk'', ci_port = 5901, ci_username = '''', ci_password = ''s'',
     ci_params = [''hostname'' \<mapsto> ''evil'']\<rparr>"

definition demo_env :: ws_env where
  "demo_env = \<lparr>env_validate = demo_validate, env_connection_info = (\<lambda>s. if s = ''s1'' then Some (demo_info ''vnc'') else None),
     env_dial = True, env_write_ok = (\<lambda>_. True), env_guacd_bytes = encode_all vnc_answers @ ''x'', env_upgrade = True\<rparr>"

definition demo_request :: "string \<Rightarrow> ws_request" where
  "demo_request t = \<lparr>q_token = t, q_width = '''', q_height = '''', q_dpi = '''', q_layout = ''''\<rparr>"

lemma demo_validate_good [simp]: "demo_validate ''good'' = Inr (demo_claims True False)"
  by (simp add: demo_validate_def validate_connection_token_def demo_jwt_def jwks_key_def demo_keys_held cache_ttl_def
      verify_connection_token_def audience_connection_def)

lemma demo_relay: "Pipe ''x'' (new_clipboard_filter True False) \<in> set (serve_ws demo_env (demo_request ''good''))"
proof -
  have "ws_params (demo_request ''good'') (demo_info ''vnc'') = vnc_params"
    by (simp add: ws_params_def demo_request_def demo_info_def vnc_params_def int_query_def atoi_full_def)
  then show ?thesis
    by (simp add: serve_ws_def demo_env_def demo_request_def demo_claims_def vnc_handshake [unfolded demo_env_def] demo_info_def)
qed

theorem ws_relay_authorized_witness:
  "\<exists>claims info sent. signed_by demo_jwt ''waas'' (published_key demo_decode (fetched_documents demo_calls (Inl ''down''))) ''good'' claims \<and>
    env_connection_info demo_env (session_id claims) = Some info \<and> ci_protocol info \<noteq> ''kasmvnc'' \<and>
    dials info (env_guacd_bytes demo_env) sent \<and> GuacdWrote sent \<in> set (serve_ws demo_env (demo_request ''good''))"
proof -
  have "env_validate demo_env = (\<lambda>t. fst (validate_connection_token demo_jwt
      (\<lambda>i c. jwks_key demo_decode cache_ttl (Inl ''down'') c i) ''waas'' demo_keys t))"
    by (simp add: demo_env_def demo_validate_def fun_eq_iff)
  from ws_relay_authorized [OF this demo_relay] obtain claims info sent where
    w: "signed_by demo_jwt ''waas'' (published_key demo_decode (fetched_documents demo_calls (Inl ''down''))) ''good'' claims"
      "env_connection_info demo_env (session_id claims) = Some info" "ci_protocol info \<noteq> ''kasmvnc''"
      "dials info (env_guacd_bytes demo_env) sent"
      "serve_ws demo_env (demo_request ''good'') = [ConnectionInfo (session_id claims), DialGuacd, GuacdWrote sent, UpgradeWs,
        Pipe ''x'' (new_clipboard_filter True False), EndSession (session_id claims)]"
    by (auto simp: demo_request_def)
  have "GuacdWrote sent \<in> set (serve_ws demo_env (demo_request ''good''))" unfolding w(5) by simp
  with w(1-4) show ?thesis by blast
qed

lemma nat_to_dec_length: "length (nat_to_dec n) \<le> n + 1"
proof (induction n rule: nat_to_dec.induct)
  case (1 n)
  show ?case
  proof (cases "n < 10")
    case False
    then have "length (nat_to_dec (n div 10)) \<le> n div 10 + 1" "n div 10 + 1 \<le> n" using 1 by auto
    with False show ?thesis by (simp add: nat_to_dec.simps [of n])
  qed (simp add: nat_to_dec.simps [of n])
qed

lemma write_element_length: "length (write_element v) \<le> 2 * length v + 2"
  using nat_to_dec_length [of "length (runes v)"] length_runes_le [of v] by (simp add: write_element_def)

lemma paste_stream_small: "list_all (\<lambda>i. length (encode i) \<le> max_pending_bytes) paste_stream"
proof -
  note w = write_element_length [of "''clipboard''"] write_element_length [of "''0''"] write_element_length [of "''text/plain''"]
    write_element_length [of "''blob''"] write_element_length [of "''YQ''"] write_element_length [of "''key''"]
    write_element_length [of "''65''"] write_element_length [of "''1''"] write_element_length [of "''end''"]
  show ?thesis
    using w by (simp add: paste_stream_def encode_def max_pending_bytes_def)
qed

theorem relay_copy_denied_witness:
  "\<exists>p' outs js ks. pipe_run (new_pipe (new_clipboard_filter False True)) [GuacdRead (encode_all paste_stream) True] = (p', outs) \<and>
     paste_stream = js @ ks \<and> (p_open p' \<longrightarrow> ks = []) \<and> browser_frames outs = encode_all (strip_clipboard {} js)"
proof -
  obtain p' outs where run: "pipe_run (new_pipe (new_clipboard_filter False True)) [GuacdRead (encode_all paste_stream) True] = (p', outs)"
    by (metis prod.exhaust)
  have "guacd_bytes [GuacdRead (encode_all paste_stream) True] = encode_all paste_stream" by simp
  from relay_copy_denied [OF run this paste_stream_wf paste_stream_small] run show ?thesis by blast
qed

lemma demo_paste_forwarded:
  "pipe_run (new_pipe (new_clipboard_filter True False)) [BrowserMessage ''3.nop;'' True True] =
    ((new_pipe (new_clipboard_filter True False)), [ToGuacd ''3.nop;''])"
proof -
  let ?f = "new_clipboard_filter True False" and ?i = "\<lparr>opcode = ''nop'', args = []\<rparr>"
  have "list_all wf_instruction [?i]" by (simp add: wf_instruction_ascii max_pending_bytes_def)
  from rewrite_with_replies_instructions [OF read_all_encode_all [OF this], of ?f Client]
  have "rewrite_with_replies ?f ''3.nop;'' Client = (Inr (''3.nop;'', None), ?f)"
    by (simp add: encode_nop filter_step_def)
  then have "filter_to_guacd ?f ''3.nop;'' = (Inr (''3.nop;'', None), ?f)"
    by (simp add: filter_to_guacd_def paste_blocked_def)
  then show ?thesis
    by (simp add: pipe_step_def on_browser_message_def new_pipe_def is_internal_message_def Let_def)
qed

theorem relay_paste_denied_witness: "\<exists>is. read_all ''3.nop;'' = Inr is \<and> \<not> list_ex opens_clipboard is"
  by (rule relay_paste_denied [OF demo_paste_forwarded]) simp

theorem relay_toggles_bounded_witness:
  "\<not> want_paste (p_filter (fst (pipe_run (new_pipe (new_clipboard_filter True False)) [BrowserMessage ''3.nop;'' True True])))"
  using relay_toggles_bounded [OF demo_paste_forwarded] unfolding demo_paste_forwarded by simp

end
