(* ===== verification/Go_Text.thy ===== *)
theory Go_Text
  imports Prelude Utf8
begin

text \<open>
  The text functions of the Go standard library the control plane calls: \<open>strings.Split\<close> and
  \<open>Join\<close>, \<open>path.Clean\<close> on an absolute path, \<open>strings.ToLower\<close>, \<open>EqualFold\<close> and \<open>TrimSpace\<close>.
  The case table of Unicode beyond ASCII is a parameter (\<open>ul\<close>) of the definitions that use it.
\<close>

section \<open>Split and join\<close>

fun split_on :: "char \<Rightarrow> string \<Rightarrow> string list" where
  "split_on sep [] = [[]]"
| "split_on sep (c # s) =
     (if c = sep then [] # split_on sep s
      else case split_on sep s of [] \<Rightarrow> [[c]] | w # ws \<Rightarrow> (c # w) # ws)"

fun join_with :: "string \<Rightarrow> string list \<Rightarrow> string" where
  "join_with sep [] = []"
| "join_with sep [w] = w"
| "join_with sep (w # ws) = w @ sep @ join_with sep ws"

lemma split_on_nonempty [simp]: "split_on sep s \<noteq> []"
  by (induction s) (auto split: list.splits)

lemma split_on_free: "sep \<notin> set s \<Longrightarrow> split_on sep s = [s]"
  by (induction s) auto

lemma split_on_append_sep [go_str]: "split_on sep (a @ sep # b) = split_on sep a @ split_on sep b"
  by (induction a) (auto split: list.splits)

lemma split_on_words: "w \<in> set (split_on sep s) \<Longrightarrow> sep \<notin> set w"
proof (induction s arbitrary: w)
  case (Cons c s)
  then show ?case by (cases "split_on sep s") (auto split: if_splits)
qed simp

lemma join_with_Cons: "ws \<noteq> [] \<Longrightarrow> join_with sep (w # ws) = w @ sep @ join_with sep ws"
  by (cases ws) simp_all

lemma join_with_append:
  "a \<noteq> [] \<Longrightarrow> b \<noteq> [] \<Longrightarrow> join_with sep (a @ b) = join_with sep a @ sep @ join_with sep b"
proof (induction a)
  case (Cons x a)
  then show ?case by (cases a) (simp_all add: join_with_Cons)
qed simp

lemma join_split [simp, go_str]: "join_with [sep] (split_on sep s) = s"
proof (induction s)
  case (Cons c s)
  obtain w ws where "split_on sep s = w # ws" by (cases "split_on sep s") simp_all
  with Cons show ?case by (cases ws) auto
qed simp

lemma split_join [go_str]:
  "ws \<noteq> [] \<Longrightarrow> \<forall>w \<in> set ws. sep \<notin> set w \<Longrightarrow> split_on sep (join_with [sep] ws) = ws"
proof (induction ws)
  case (Cons w ws)
  then show ?case
    by (cases ws) (simp_all add: split_on_free split_on_append_sep)
qed simp

section \<open>path.Clean\<close>

text \<open>
  On a path that starts with a slash: empty and dot elements disappear, a dot-dot element removes
  the element before it, and at the root it disappears as well. The accumulator is the output
  so far, last element first.
\<close>

fun clean_segments :: "string list \<Rightarrow> string list \<Rightarrow> string list" where
  "clean_segments acc [] = rev acc"
| "clean_segments acc (w # ws) =
     (if w = '''' \<or> w = ''.'' then clean_segments acc ws
      else if w = ''..'' then clean_segments (tl acc) ws
      else clean_segments (w # acc) ws)"

definition path_segments :: "string \<Rightarrow> string list" where
  "path_segments p = clean_segments [] (split_on CHR ''/'' p)"

definition path_clean :: "string \<Rightarrow> string" where
  "path_clean p = CHR ''/'' # join_with ''/'' (path_segments p)"

definition plain_segment :: "string \<Rightarrow> bool" where
  "plain_segment w \<longleftrightarrow> w \<noteq> '''' \<and> w \<noteq> ''.'' \<and> w \<noteq> ''..'' \<and> CHR ''/'' \<notin> set w"

lemma clean_segments_append:
  "clean_segments acc (a @ b) = clean_segments (rev (clean_segments acc a)) b"
  by (induction acc a rule: clean_segments.induct) simp_all

lemma list_all_tl: "list_all P xs \<Longrightarrow> list_all P (tl xs)"
  by (cases xs) simp_all

lemma clean_segments_plain:
  "list_all plain_segment acc \<Longrightarrow> \<forall>w \<in> set ws. CHR ''/'' \<notin> set w \<Longrightarrow>
   list_all plain_segment (clean_segments acc ws)"
proof (induction acc ws rule: clean_segments.induct)
  case (2 acc w ws)
  then show ?case by (simp add: list_all_tl) (simp add: plain_segment_def)
qed (simp add: list_all_rev)

lemma path_segments_plain: "list_all plain_segment (path_segments p)"
  by (simp add: path_segments_def clean_segments_plain split_on_words)

lemma clean_segments_fixed:
  "list_all plain_segment ws \<Longrightarrow> clean_segments acc ws = rev acc @ ws"
  by (induction acc ws rule: clean_segments.induct) (auto simp: plain_segment_def)

lemma path_segments_clean [simp]: "path_segments (path_clean p) = path_segments p"
proof (cases "path_segments p = []")
  case True
  then show ?thesis by (simp add: path_segments_def path_clean_def)
next
  case False
  have pl: "list_all plain_segment (path_segments p)" by (rule path_segments_plain)
  then have "\<forall>w \<in> set (path_segments p). CHR ''/'' \<notin> set w"
    by (simp add: list_all_iff plain_segment_def)
  with False have "split_on CHR ''/'' (path_clean p) = [] # path_segments p"
    by (simp add: path_clean_def split_join)
  with pl show ?thesis
    by (simp add: path_segments_def [of "path_clean p"] clean_segments_fixed)
qed

lemma path_clean_idem [simp]: "path_clean (path_clean p) = path_clean p"
  by (metis path_clean_def path_segments_clean)

section \<open>Letter case\<close>

definition ascii_lower :: "nat \<Rightarrow> nat" where
  "ascii_lower r = (if 65 \<le> r \<and> r \<le> 90 then r + 32 else r)"

definition rune_lower :: "(nat \<Rightarrow> nat) \<Rightarrow> nat \<Rightarrow> nat" where
  "rune_lower ul r = (if r < 128 then ascii_lower r else ul r)"

definition to_lower :: "(nat \<Rightarrow> nat) \<Rightarrow> string \<Rightarrow> string" where
  "to_lower ul s = utf8_encode (map (rune_lower ul) (runes s))"

text \<open>
  \<open>strings.EqualFold\<close> against a lower-case ASCII text: beyond ASCII only the long s (U+017F) and
  the Kelvin sign (U+212A) fold to a letter of it.
\<close>

definition fold_ascii :: "nat \<Rightarrow> nat" where
  "fold_ascii r = (if r = 383 then 115 else if r = 8490 then 107 else ascii_lower r)"

definition equal_fold :: "string \<Rightarrow> string \<Rightarrow> bool" where
  "equal_fold s t \<longleftrightarrow> map fold_ascii (runes s) = map byte t"

text \<open>An ASCII byte is never part of a longer sequence, so a rune before it decodes as if it ended there.\<close>

lemma decode_rune_cut:
  assumes "a \<noteq> []" "byte c < 128"
  shows "decode_rune (a @ c # b) = decode_rune a"
proof -
  have c: "\<not> second_ok x (byte c)" "\<not> cont_ok (byte c)" for x
    using assms(2) by (auto simp: second_ok_def cont_ok_def)
  have l: "\<not> Suc (Suc (Suc (Suc n))) < seq_len x" for n x
    using seq_len_bounds(2) [of x] by simp
  show ?thesis
    using assms(1) by (cases a rule: string_shapes) (simp_all add: decode_rune_def Let_def c l split: list.split)
qed

lemma runes_append_ascii:
  assumes "byte c < 128"
  shows "runes (a @ c # b) = runes a @ byte c # runes b"
proof (induction a rule: runes.induct)
  case (1 a)
  show ?case
  proof (cases "a = []")
    case True
    with assms show ?thesis by (simp add: runes_nonempty)
  next
    case False
    have "decode_rune (a @ c # b) = decode_rune a"
    proof (rule decode_rune_cut)
      show "a \<noteq> []" "byte c < 128" by fact+
    qed
    moreover have "snd (decode_rune a) \<le> length a" by (rule decode_rune_size_le)
    ultimately show ?thesis using 1 [OF False] False
      by (simp add: runes_nonempty)
  qed
qed

lemma rune_lower_ascii [simp]: "r < 128 \<Longrightarrow> rune_lower ul r = ascii_lower r"
  by (simp add: rune_lower_def)

lemma to_lower_Nil [simp]: "to_lower ul [] = []"
  by (simp add: to_lower_def)

lemma char_of_slash [simp]: "char_of (47 :: nat) = CHR ''/''"
  by code_simp

lemma to_lower_slash [go_str]:
  "to_lower ul (a @ CHR ''/'' # b) = to_lower ul a @ CHR ''/'' # to_lower ul b"
  by (simp add: to_lower_def runes_append_ascii ascii_lower_def encode_rune_ascii)

lemma to_lower_Cons_slash [simp]: "to_lower ul (CHR ''/'' # b) = CHR ''/'' # to_lower ul b"
  using to_lower_slash [of ul "[]" b] by simp

lemma to_lower_join: "to_lower ul (join_with ''/'' ws) = join_with ''/'' (map (to_lower ul) ws)"
proof (induction ws)
  case (Cons w ws)
  then show ?case by (cases ws) (simp_all add: to_lower_slash)
qed simp

text \<open>On ASCII text the case table is not consulted.\<close>

definition ascii_lower_char :: "char \<Rightarrow> char" where
  "ascii_lower_char c = char_of (ascii_lower (byte c))"

lemma to_lower_ascii: "list_all (\<lambda>c. byte c < 128) s \<Longrightarrow> to_lower ul s = map ascii_lower_char s"
proof (induction s)
  case (Cons c s)
  then show ?case
    by (simp add: to_lower_def runes_nonempty ascii_lower_char_def ascii_lower_def encode_rune_ascii)
qed simp

lemma ascii_lower_char_id [simp]: "\<not> (65 \<le> byte c \<and> byte c \<le> 90) \<Longrightarrow> ascii_lower_char c = c"
  by (auto simp: ascii_lower_char_def ascii_lower_def)

section \<open>TrimSpace\<close>

text \<open>\<open>unicode.IsSpace\<close> is the White_Space property.\<close>

definition is_space_rune :: "nat \<Rightarrow> bool" where
  "is_space_rune r \<longleftrightarrow> 9 \<le> r \<and> r \<le> 13 \<or> r = 32 \<or> r = 133 \<or> r = 160 \<or> r = 5760 \<or>
     8192 \<le> r \<and> r \<le> 8202 \<or> r = 8232 \<or> r = 8233 \<or> r = 8239 \<or> r = 8287 \<or> r = 12288"

text \<open>The byte sequences of the runes of a string, an undecodable byte standing alone.\<close>

function rune_chunks :: "string \<Rightarrow> string list" where
  "rune_chunks s = (if s = [] then []
     else take (snd (decode_rune s)) s # rune_chunks (drop (snd (decode_rune s)) s))"
  by pat_completeness auto
termination
  by (relation "measure length") (auto simp: length_greater_0_conv [symmetric] simp del: length_greater_0_conv)

declare rune_chunks.simps [simp del]

definition is_space_chunk :: "string \<Rightarrow> bool" where
  "is_space_chunk w \<longleftrightarrow> is_space_rune (fst (decode_rune w))"

definition trim_space :: "string \<Rightarrow> string" where
  "trim_space s = concat (rev (dropWhile is_space_chunk (rev (dropWhile is_space_chunk (rune_chunks s)))))"

lemma rune_chunks_Nil [simp]: "rune_chunks [] = []"
  by (simp add: rune_chunks.simps)

lemma trim_space_Nil [simp]: "trim_space [] = []"
  by (simp add: trim_space_def)

lemma concat_rune_chunks [simp]: "concat (rune_chunks s) = s"
proof (induction s rule: rune_chunks.induct)
  case (1 s)
  then show ?case by (cases "s = []") (simp_all add: rune_chunks.simps [of s])
qed

lemma rune_chunks_ascii: "list_all (\<lambda>c. byte c < 128) s \<Longrightarrow> rune_chunks s = map (\<lambda>c. [c]) s"
  by (induction s) (simp_all add: rune_chunks.simps)

lemma trim_space_ascii:
  assumes "list_all (\<lambda>c. byte c < 128) s"
  shows "trim_space s = (let sp = \<lambda>c. is_space_rune (byte c) in rev (dropWhile sp (rev (dropWhile sp s))))"
proof -
  have d: "list_all (\<lambda>c. byte c < 128) t \<Longrightarrow>
      dropWhile is_space_chunk (map (\<lambda>c. [c]) t) = map (\<lambda>c. [c]) (dropWhile (\<lambda>c. is_space_rune (byte c)) t)" for t
    by (induction t) (simp_all add: is_space_chunk_def)
  have "list_all (\<lambda>c. byte c < 128) (rev (dropWhile (\<lambda>c. is_space_rune (byte c)) s))"
    using assms by (auto simp: list_all_iff dest: set_dropWhileD)
  with assms show ?thesis
    by (simp add: trim_space_def rune_chunks_ascii d rev_map Let_def)
qed

lemma trim_space_sublist: "\<exists>a b. s = a @ trim_space s @ b"
proof -
  define w where "w = rune_chunks s"
  define d where "d = rev (dropWhile is_space_chunk w)"
  have "w = takeWhile is_space_chunk w @ rev (takeWhile is_space_chunk d @ dropWhile is_space_chunk d)"
    by (simp add: d_def)
  then have "concat w = concat (takeWhile is_space_chunk w) @ concat (rev (dropWhile is_space_chunk d)) @
      concat (rev (takeWhile is_space_chunk d))"
    by (metis concat_append rev_append)
  then show ?thesis unfolding w_def d_def trim_space_def [of s] by auto
qed

text \<open>On ASCII text the functions evaluate without decoding.\<close>

definition ascii_space :: "char \<Rightarrow> bool" where
  "ascii_space c \<longleftrightarrow> 9 \<le> byte c \<and> byte c \<le> 13 \<or> byte c = 32"

lemma is_space_rune_ascii: "byte c < 128 \<Longrightarrow> is_space_rune (byte c) = ascii_space c"
  by (auto simp: is_space_rune_def ascii_space_def)

lemma dropWhile_ascii_space:
  "list_all (\<lambda>c. byte c < 128) s \<Longrightarrow> dropWhile (\<lambda>c. is_space_rune (byte c)) s = dropWhile ascii_space s"
  by (induction s) (auto simp: is_space_rune_ascii)

lemma list_all_dropWhile: "list_all P s \<Longrightarrow> list_all P (dropWhile Q s)"
  by (auto simp: list_all_iff dest: set_dropWhileD)

lemma trim_space_code [code]:
  "trim_space s =
     (if list_all (\<lambda>c. byte c < 128) s then rev (dropWhile ascii_space (rev (dropWhile ascii_space s)))
      else concat (rev (dropWhile is_space_chunk (rev (dropWhile is_space_chunk (rune_chunks s))))))"
proof (cases "list_all (\<lambda>c. byte c < 128) s")
  case True
  then have "list_all (\<lambda>c. byte c < 128) (rev (dropWhile ascii_space s))"
    using list_all_dropWhile by (simp add: list_all_iff)
  with True show ?thesis by (simp add: trim_space_ascii dropWhile_ascii_space)
qed (simp only: trim_space_def if_False)

lemma to_lower_code [code]:
  "to_lower ul s = (if list_all (\<lambda>c. byte c < 128) s then map ascii_lower_char s else utf8_encode (map (rune_lower ul) (runes s)))"
  by (simp add: to_lower_ascii) (simp add: to_lower_def)

lemma rune_chunks_code [code]:
  "rune_chunks s =
     (if list_all (\<lambda>c. byte c < 128) s then map (\<lambda>c. [c]) s
      else take (snd (decode_rune s)) s # rune_chunks (drop (snd (decode_rune s)) s))"
  by (auto simp: rune_chunks_ascii) (subst rune_chunks.simps, auto)

lemma is_space_chunk_code [code]:
  "is_space_chunk w =
     (case w of [c] \<Rightarrow> if byte c < 128 then ascii_space c else is_space_rune (fst (decode_rune w)) | _ \<Rightarrow> is_space_rune (fst (decode_rune w)))"
  by (auto simp: is_space_chunk_def is_space_rune_ascii split: list.splits)

lemma ascii_lower_char_code [code]:
  "ascii_lower_char (Char b0 b1 b2 b3 b4 b5 b6 b7) =
     (if 65 \<le> byte (Char b0 b1 b2 b3 b4 b5 b6 b7) \<and> byte (Char b0 b1 b2 b3 b4 b5 b6 b7) \<le> 90
      then Char b0 b1 b2 b3 b4 True b6 b7 else Char b0 b1 b2 b3 b4 b5 b6 b7)"
proof -
  have v: "byte (Char c0 c1 c2 c3 c4 c5 c6 c7) = of_bool c0 + 2 * of_bool c1 + 4 * of_bool c2 + 8 * of_bool c3 + 16 * of_bool c4 +
      32 * of_bool c5 + 64 * of_bool c6 + 128 * of_bool c7" for c0 c1 c2 c3 c4 c5 c6 c7
    by (simp add: horner_sum_simps)
  have bit: "of_bool b \<le> (1 :: nat)" for b by (cases b) simp_all
  have "byte (Char b0 b1 b2 b3 b4 b5 b6 b7) + 32 = byte (Char b0 b1 b2 b3 b4 True b6 b7)"
    if "65 \<le> byte (Char b0 b1 b2 b3 b4 b5 b6 b7)" "byte (Char b0 b1 b2 b3 b4 b5 b6 b7) \<le> 90"
    using that bit [of b0] bit [of b1] bit [of b2] bit [of b3] bit [of b4] unfolding v
    by (cases b5; cases b6; cases b7) simp_all
  then show ?thesis by (auto simp: ascii_lower_char_def ascii_lower_def simp del: of_char_Char) 
qed

end
