(* ===== verification/Kasm.thy ===== *)
theory Kasm
  imports Proxy Go_Text
begin

text \<open>
  \<open>wwt/internal/kasm/kasm.go\<close>: the reverse proxy of the \<open>/kasm/{sessionID}/\<close> subtree. A request is
  handled in two steps, since the proxied request of a desktop stream returns only when its tunnel
  closes: \<open>kasm_serve\<close> is the handler up to the call of the reverse proxy, \<open>kasm_stream_end\<close> what
  follows it. In between other requests run, so the cache of connection data is state of a machine
  whose events interleave. Time is in nanoseconds.
\<close>

section \<open>Paths\<close>

definition route_prefix :: string where "route_prefix = ''/kasm/''"
definition cookie_name :: string where "cookie_name = ''waas_kasm''"
definition info_ttl :: int where "info_ttl = 20 * 1000000000"

definition split_path :: "string \<Rightarrow> (string \<times> string) option" where
  "split_path p =
     (if \<not> has_prefix p route_prefix then None
      else case cut_at CHR ''/'' (trim_prefix p route_prefix) of (sid, rest, _) \<Rightarrow>
        if sid = [] then None else Some (sid, CHR ''/'' # rest))"

definition is_downloads_api_path :: "(nat \<Rightarrow> nat) \<Rightarrow> string \<Rightarrow> bool" where
  "is_downloads_api_path ul p =
     (let clean = to_lower ul (path_clean p)
      in clean = ''/api/downloads'' \<or> has_prefix clean ''/api/downloads/'')"

lemma split_path_some:
  "split_path p = Some (sid, rest) \<Longrightarrow>
   sid \<noteq> [] \<and> CHR ''/'' \<notin> set sid \<and> (\<exists>t. rest = CHR ''/'' # t \<and> (p = route_prefix @ sid @ rest \<or> p = route_prefix @ sid \<and> t = []))"
  using cut_at_cases [of "CHR ''/''" "trim_prefix p route_prefix"]
  by (auto simp: split_path_def has_prefix_iff split: if_splits)

lemma split_path_route:
  assumes "sid \<noteq> []" "CHR ''/'' \<notin> set sid"
  shows "split_path (route_prefix @ sid @ CHR ''/'' # t) = Some (sid, CHR ''/'' # t)"
    "split_path (route_prefix @ sid) = Some (sid, ''/'')"
  using assms cut_at_found [of "CHR ''/''" sid t] cut_at_absent [of "CHR ''/''" sid]
  by (simp_all add: split_path_def)

text \<open>Whatever the spelling: the path is blocked when its first two elements read api and downloads.\<close>

lemma downloads_blocked:
  assumes "path_segments p = a # b # ws" "to_lower ul a = ''api''" "to_lower ul b = ''downloads''"
  shows "is_downloads_api_path ul p"
proof -
  have "to_lower ul (path_clean p) = CHR ''/'' # join_with ''/'' (''api'' # ''downloads'' # map (to_lower ul) ws)"
    using assms by (simp add: path_clean_def to_lower_join del: join_with.simps)
  then show ?thesis
    by (cases ws) (simp_all add: is_downloads_api_path_def Let_def)
qed

section \<open>The request sent upstream\<close>

record http_request =
  hr_path :: string
  hr_host :: string
  hr_query :: "string \<rightharpoonup> string list"
  hr_headers :: "string \<rightharpoonup> string list"

text \<open>\<open>Header.Get\<close> and \<open>Values.Get\<close>: the first value, empty when there is none.\<close>

definition first_value :: "(string \<rightharpoonup> string list) \<Rightarrow> string \<Rightarrow> string" where
  "first_value m k = (case m k of Some (v # _) \<Rightarrow> v | _ \<Rightarrow> [])"

definition join_host_port :: "string \<Rightarrow> string \<Rightarrow> string" where
  "join_host_port host port =
     (if CHR '':'' \<in> set host then ''['' @ host @ '']:'' @ port else host @ '':'' @ port)"

definition target_host :: "connection_info \<Rightarrow> string" where
  "target_host info = join_host_port (ci_hostname info) (itoa (ci_port info))"

text \<open>Base64 of \<open>user:password\<close>, what \<open>SetBasicAuth\<close> writes.\<close>

definition b64_digit :: "nat \<Rightarrow> char" where
  "b64_digit n = ''ABCDEFGHIJKLMNOPQRSTUVWXYZabcdefghijklmnopqrstuvwxyz0123456789+/'' ! n"

fun base64 :: "string \<Rightarrow> string" where
  "base64 [] = []"
| "base64 [a] = [b64_digit (byte a div 4), b64_digit (byte a mod 4 * 16), CHR ''='', CHR ''='']"
| "base64 [a, b] = [b64_digit (byte a div 4), b64_digit (byte a mod 4 * 16 + byte b div 16),
     b64_digit (byte b mod 16 * 4), CHR ''='']"
| "base64 (a # b # c # s) = b64_digit (byte a div 4) # b64_digit (byte a mod 4 * 16 + byte b div 16) #
     b64_digit (byte b mod 16 * 4 + byte c div 64) # b64_digit (byte c mod 64) # base64 s"

definition basic_auth :: "string \<Rightarrow> string \<Rightarrow> string" where
  "basic_auth user pass = ''Basic '' @ base64 (user @ '':'' @ pass)"

definition proxy_rewrite :: "connection_info \<Rightarrow> string \<Rightarrow> http_request \<Rightarrow> http_request" where
  "proxy_rewrite info rest r =
     (let user = (if ci_username info = [] then ''kasm_user'' else ci_username info);
          hs = ((hr_headers r)(''Cookie'' := None))(''Authorization'' \<mapsto> [basic_auth user (ci_password info)]);
          hs' = (if first_value hs ''Origin'' = [] then hs(''Origin'' \<mapsto> [''https://'' @ target_host info]) else hs)
      in r\<lparr>hr_path := rest, hr_host := target_host info, hr_query := (hr_query r)(''token'' := None),
           hr_headers := hs'\<rparr>)"
lemma proxy_rewrite_secrets:
  "hr_headers (proxy_rewrite info rest r) ''Cookie'' = None"
  "hr_query (proxy_rewrite info rest r) ''token'' = None"
  "hr_path (proxy_rewrite info rest r) = rest"
  "hr_host (proxy_rewrite info rest r) = target_host info"
  "hr_headers (proxy_rewrite info rest r) ''Authorization'' =
     Some [basic_auth (if ci_username info = [] then ''kasm_user'' else ci_username info) (ci_password info)]"
  by (simp_all add: proxy_rewrite_def Let_def)

lemma proxy_rewrite_passes:
  "k \<noteq> ''token'' \<Longrightarrow> hr_query (proxy_rewrite info rest r) k = hr_query r k"
  "k \<notin> {''Cookie'', ''Authorization'', ''Origin''} \<Longrightarrow> hr_headers (proxy_rewrite info rest r) k = hr_headers r k"
  by (simp_all add: proxy_rewrite_def Let_def)

section \<open>The handler\<close>

text \<open>
  The request also carries the session cookie, if any, and whether it came over TLS; the
  environment gives the token check, the answer of the API server and the two readings of the
  clock: when the cache is looked up and when an answer is stored.
\<close>

record kasm_request =
  kr_http :: http_request
  kr_cookie :: "string option"
  kr_tls :: bool

record kasm_env =
  ke_validate :: "string \<Rightarrow> token_error + connection_claims"
  ke_info :: "string \<Rightarrow> connection_info option"
  ke_now :: int
  ke_stored :: int

record cached_info =
  ca_info :: connection_info
  ca_expires :: int

type_synonym kasm_cache = "string \<rightharpoonup> cached_info"

datatype kasm_action =
    KNotFound
  | KError nat
  | KSetCookie string string bool
  | KProxy string http_request

definition connection_info_of ::
  "kasm_env \<Rightarrow> string \<Rightarrow> kasm_cache \<Rightarrow> connection_info option \<times> kasm_cache" where
  "connection_info_of env sid infos =
     (case (case infos sid of
              Some c \<Rightarrow> if ke_now env < ca_expires c then Some (ca_info c) else None
            | None \<Rightarrow> None) of
        Some i \<Rightarrow> (Some i, infos)
      | None \<Rightarrow> (case ke_info env sid of
          None \<Rightarrow> (None, infos)
        | Some i \<Rightarrow> (Some i, infos(sid \<mapsto> \<lparr>ca_info = i, ca_expires = ke_stored env + info_ttl\<rparr>))))"

definition kasm_serve ::
  "(nat \<Rightarrow> nat) \<Rightarrow> kasm_env \<Rightarrow> kasm_request \<Rightarrow> kasm_cache \<Rightarrow> kasm_action list \<times> kasm_cache" where
  "kasm_serve ul env r infos =
     (let h = kr_http r in
      case split_path (hr_path h) of
        None \<Rightarrow> ([KNotFound], infos)
      | Some (sid, rest) \<Rightarrow>
         (let query_token = first_value (hr_query h) ''token'';
              token = (if query_token = [] then (case kr_cookie r of Some v \<Rightarrow> v | None \<Rightarrow> []) else query_token)
          in case ke_validate env token of
            Inl _ \<Rightarrow> ([KError 401], infos)
          | Inr claims \<Rightarrow>
             if session_id claims \<noteq> sid then ([KError 403], infos)
             else (case connection_info_of env sid infos of
                 (None, infos') \<Rightarrow> ([KError 409], infos')
               | (Some info, infos') \<Rightarrow>
                  if ci_protocol info \<noteq> ''kasmvnc'' then ([KError 409], infos')
                  else if is_downloads_api_path ul rest then ([KError 403], infos')
                  else ((if query_token \<noteq> []
                         then [KSetCookie (route_prefix @ sid) token
                                 (kr_tls r \<or> first_value (hr_headers h) ''X-Forwarded-Proto'' = ''https'')]
                         else []) @ [KProxy sid (proxy_rewrite info rest h)], infos'))))"

definition is_desktop_stream :: "kasm_request \<Rightarrow> bool" where
  "is_desktop_stream r = equal_fold (first_value (hr_headers (kr_http r)) ''Upgrade'') ''websocket''"

text \<open>After the reverse proxy returned: \<open>EndSession\<close> is called and the entry forgotten.\<close>

definition kasm_stream_end :: "kasm_request \<Rightarrow> string \<Rightarrow> kasm_cache \<Rightarrow> string list \<times> kasm_cache" where
  "kasm_stream_end r sid infos =
     (if is_desktop_stream r then ([sid], infos(sid := None)) else ([], infos))"

section \<open>What is proxied\<close>

lemma connection_info_of_cases:
  assumes "connection_info_of env sid infos = (Some i, infos')"
  obtains c where "infos sid = Some c" "ke_now env < ca_expires c" "i = ca_info c" "infos' = infos"
    | "ke_info env sid = Some i" "infos' = infos(sid \<mapsto> \<lparr>ca_info = i, ca_expires = ke_stored env + info_ttl\<rparr>)"
proof (cases "\<exists>c. infos sid = Some c \<and> ke_now env < ca_expires c")
  case True
  then obtain c where c: "infos sid = Some c" "ke_now env < ca_expires c" by blast
  with assms have "i = ca_info c" "infos' = infos" by (simp_all add: connection_info_of_def)
  with c that(1) show thesis by blast
next
  case False
  then have "(case infos sid of Some c \<Rightarrow> if ke_now env < ca_expires c then Some (ca_info c) else None
      | None \<Rightarrow> None) = None"
    by (simp split: option.split)
  with assms have "ke_info env sid = Some i \<and>
      infos' = infos(sid \<mapsto> \<lparr>ca_info = i, ca_expires = ke_stored env + info_ttl\<rparr>)"
    by (cases "ke_info env sid") (simp_all add: connection_info_of_def)
  with that(2) show thesis by blast
qed

lemma connection_info_of_failed: "connection_info_of env sid infos = (None, infos') \<Longrightarrow> infos' = infos"
  by (auto simp: connection_info_of_def split: option.splits)

definition request_token :: "kasm_request \<Rightarrow> string" where
  "request_token r =
     (let q = first_value (hr_query (kr_http r)) ''token''
      in if q = [] then (case kr_cookie r of Some v \<Rightarrow> v | None \<Rightarrow> []) else q)"

text \<open>The outcomes of the handler, one per return.\<close>

lemma kasm_serve_cases:
  assumes "kasm_serve ul env r infos = (acts, infos')"
  obtains (early) e where "acts = [e]" "e \<in> {KNotFound, KError 401, KError 403}" "infos' = infos"
    | (refused) sid i n where "acts = [KError n]" "connection_info_of env sid infos = (i, infos')"
    | (proxied) sid rest claims info pre where
      "split_path (hr_path (kr_http r)) = Some (sid, rest)"
      "ke_validate env (request_token r) = Inr claims" "session_id claims = sid"
      "connection_info_of env sid infos = (Some info, infos')" "ci_protocol info = ''kasmvnc''"
      "\<not> is_downloads_api_path ul rest"
      "acts = pre @ [KProxy sid (proxy_rewrite info rest (kr_http r))]"
      "pre = (if first_value (hr_query (kr_http r)) ''token'' = [] then []
        else [KSetCookie (route_prefix @ sid) (request_token r)
          (kr_tls r \<or> first_value (hr_headers (kr_http r)) ''X-Forwarded-Proto'' = ''https'')])"
proof (cases "split_path (hr_path (kr_http r))")
  case None
  with assms show thesis by (intro early [of KNotFound]) (simp_all add: kasm_serve_def Let_def)
next
  case (Some p)
  obtain sid rest where p: "p = (sid, rest)" by (cases p)
  note serve = assms [unfolded kasm_serve_def Let_def Some p option.case prod.case,
      folded request_token_def [of r, unfolded Let_def]]
  show thesis
  proof (cases "ke_validate env (request_token r)")
    case (Inl e)
    with serve show thesis by (intro early [of "KError 401"]) simp_all
  next
    case (Inr claims)
    show thesis
    proof (cases "session_id claims = sid")
      case False
      with serve Inr show thesis by (intro early [of "KError 403"]) simp_all
    next
      case True
      obtain i c where ci: "connection_info_of env sid infos = (i, c)" by (cases "connection_info_of env sid infos")
      show thesis
      proof (cases i)
        case None
        with serve Inr True ci show thesis by (intro refused [of 409 sid i]) simp_all
      next
        case (Some info)
        consider "ci_protocol info \<noteq> ''kasmvnc''" | "ci_protocol info = ''kasmvnc''" "is_downloads_api_path ul rest"
          | "ci_protocol info = ''kasmvnc''" "\<not> is_downloads_api_path ul rest" by blast
        then show thesis
        proof cases
          case 1
          with serve Inr True ci Some show thesis by (intro refused [of 409 sid i]) simp_all
        next
          case 2
          with serve Inr True ci Some show thesis by (intro refused [of 403 sid i]) simp_all
        next
          case 3
          with serve Inr True ci Some have "c = infos'" and acts: "acts = (if first_value (hr_query (kr_http r)) ''token'' = [] then []
              else [KSetCookie (route_prefix @ sid) (request_token r)
                (kr_tls r \<or> first_value (hr_headers (kr_http r)) ''X-Forwarded-Proto'' = ''https'')]) @
              [KProxy sid (proxy_rewrite info rest (kr_http r))]"
            by (simp_all split: if_split_asm)
          from proxied [OF _ Inr True _ 3 acts refl] ci Some this(1) \<open>split_path (hr_path (kr_http r)) = Some p\<close> p
          show thesis by simp
        qed
      qed
    qed
  qed
qed

lemma kasm_serve_proxied:
  assumes "kasm_serve ul env r infos = (acts, infos')" "KProxy sid out \<in> set acts"
  obtains rest claims info where
    "split_path (hr_path (kr_http r)) = Some (sid, rest)"
    "ke_validate env (request_token r) = Inr claims" "session_id claims = sid"
    "connection_info_of env sid infos = (Some info, infos')" "ci_protocol info = ''kasmvnc''"
    "\<not> is_downloads_api_path ul rest" "out = proxy_rewrite info rest (kr_http r)"
  using assms(1)
proof (cases rule: kasm_serve_cases)
  case (proxied sid' rest claims info pre)
  with assms(2) have "sid' = sid" "out = proxy_rewrite info rest (kr_http r)" by (auto split: if_splits)
  with proxied that show thesis by blast
qed (use assms(2) in auto)

lemma kasm_serve_cache:
  assumes "kasm_serve ul env r infos = (acts, infos')"
  shows "infos' = infos \<or> (\<exists>sid i. ke_info env sid = Some i \<and>
    infos' = infos(sid \<mapsto> \<lparr>ca_info = i, ca_expires = ke_stored env + info_ttl\<rparr>))"
proof -
  have "?thesis" if "connection_info_of env sid infos = (i, infos')" for sid i
    using that by (cases i) (auto dest: connection_info_of_failed elim!: connection_info_of_cases)
  with assms show ?thesis by (cases rule: kasm_serve_cases) blast+
qed

section \<open>The cache under interleaved requests\<close>

datatype kasm_event = KRequest kasm_env kasm_request | KReturn kasm_request string

inductive kasm_step :: "(nat \<Rightarrow> nat) \<Rightarrow> kasm_cache \<Rightarrow> kasm_event \<Rightarrow> kasm_cache \<Rightarrow> bool" for ul where
  request: "kasm_serve ul env r infos = (acts, infos') \<Longrightarrow> kasm_step ul infos (KRequest env r) infos'"
| return: "kasm_stream_end r sid infos = (ended, infos') \<Longrightarrow> kasm_step ul infos (KReturn r sid) infos'"

inductive_cases kasm_requestE: "kasm_step ul infos (KRequest env r) infos'"
inductive_cases kasm_returnE: "kasm_step ul infos (KReturn r sid) infos'"

inductive kasm_reach :: "(nat \<Rightarrow> nat) \<Rightarrow> kasm_event list \<Rightarrow> kasm_cache \<Rightarrow> bool" for ul where
  start: "kasm_reach ul [] Map.empty"
| step: "kasm_reach ul evs infos \<Longrightarrow> kasm_step ul infos ev infos' \<Longrightarrow> kasm_reach ul (evs @ [ev]) infos'"

definition answered :: "kasm_event list \<Rightarrow> string \<Rightarrow> connection_info \<Rightarrow> int \<Rightarrow> bool" where
  "answered evs sid i t \<longleftrightarrow> (\<exists>env r. KRequest env r \<in> set evs \<and> ke_info env sid = Some i \<and> ke_stored env = t)"

lemma answered_mono: "answered evs sid i t \<Longrightarrow> answered (evs @ [ev]) sid i t"
  by (auto simp: answered_def)

lemma kasm_cache_answered:
  "kasm_reach ul evs infos \<Longrightarrow> infos sid = Some c \<Longrightarrow> answered evs sid (ca_info c) (ca_expires c - info_ttl)"
proof (induction arbitrary: c rule: kasm_reach.induct)
  case (step evs infos ev infos')
  from step.hyps(2) show ?case
  proof cases
    case (request env r acts)
    from kasm_serve_cache [OF request(2)] show ?thesis
    proof
      assume "infos' = infos"
      with step show ?thesis by (simp add: answered_mono)
    next
      assume "\<exists>sid i. ke_info env sid = Some i \<and>
        infos' = infos(sid \<mapsto> \<lparr>ca_info = i, ca_expires = ke_stored env + info_ttl\<rparr>)"
      with step request(1) show ?thesis
        by (auto simp: answered_mono split: if_splits) (auto simp: answered_def)
    qed
  next
    case (return r sid' ended)
    with step.prems have "infos sid = Some c" by (auto simp: kasm_stream_end_def split: if_splits)
    with step.IH show ?thesis by (simp add: answered_mono)
  qed
qed simp

lemma kasm_proxy_fresh:
  assumes "kasm_reach ul evs infos" "connection_info_of env sid infos = (Some info, infos')"
  shows "ke_info env sid = Some info \<or> (\<exists>t. answered evs sid info t \<and> ke_now env < t + info_ttl)"
  using assms(2)
proof (cases rule: connection_info_of_cases)
  case (1 c)
  with kasm_cache_answered [OF assms(1) 1(1)] show ?thesis by (intro disjI2 exI [of _ "ca_expires c - info_ttl"]) simp
qed simp

lemma kasm_forgotten:
  assumes "kasm_step ul infos (KReturn r sid) infos'" "is_desktop_stream r"
  shows "fst (connection_info_of env sid infos') = ke_info env sid"
  using assms by (auto simp: kasm_stream_end_def connection_info_of_def elim!: kasm_returnE split: option.splits)

section \<open>Properties\<close>

text \<open>C6: A request reaches a desktop only with a token (its first query value, else its cookie) that the JWT library
  accepts under a key of a document the API server answered with, to this request or earlier, and that was minted for
  the session its path names: the path is that of the session's subtree, and what follows is what the desktop is
  asked for. It goes to the host of a kasmvnc session, resolved by this request or at most twenty seconds ago whatever
  requests ran in between, and carries the injected credentials; the Cookie header, with the platform's cookie, and the
  token key of the query are dropped (other headers and keys are passed on as the browser sent them).\<close>

theorem kasm_proxy_authorized:
  assumes "kasm_reach ul evs infos"
    "ke_validate env = (\<lambda>t. fst (validate_connection_token lib (\<lambda>i c. jwks_key dec now fetch c i) issuer
      (jwks_after dec earlier) t))"
    "kasm_serve ul env r infos = (acts, infos')" "KProxy sid out \<in> set acts"
  shows "(\<exists>claims token. token = (case hr_query (kr_http r) ''token'' of
          Some (c # _) \<Rightarrow> if c = [] then (case kr_cookie r of Some k \<Rightarrow> k | None \<Rightarrow> []) else c
        | _ \<Rightarrow> (case kr_cookie r of Some k \<Rightarrow> k | None \<Rightarrow> [])) \<and>
      signed_by lib issuer (published_key dec (fetched_documents earlier fetch)) token claims \<and> session_id claims = sid) \<and>
    sid \<noteq> [] \<and> CHR ''/'' \<notin> set sid \<and>
    (hr_path (kr_http r) = ''/kasm/'' @ sid @ hr_path out \<or> hr_path (kr_http r) = ''/kasm/'' @ sid \<and> hr_path out = ''/'') \<and>
    (\<exists>info. ci_protocol info = ''kasmvnc'' \<and> hr_host out = target_host info \<and>
      hr_headers out ''Authorization'' =
        Some [basic_auth (if ci_username info = [] then ''kasm_user'' else ci_username info) (ci_password info)] \<and>
      (ke_info env sid = Some info \<or> (\<exists>t. answered evs sid info t \<and> ke_now env < t + info_ttl))) \<and>
    hr_headers out ''Cookie'' = None \<and> hr_query out ''token'' = None"
proof -
  obtain rest claims info where sp: "split_path (hr_path (kr_http r)) = Some (sid, rest)"
    and v: "ke_validate env (request_token r) = Inr claims" "session_id claims = sid"
    and ci: "connection_info_of env sid infos = (Some info, infos')" "ci_protocol info = ''kasmvnc''"
    and out: "out = proxy_rewrite info rest (kr_http r)"
    using kasm_serve_proxied [OF assms(3,4)] by metis
  have "signed_by lib issuer (jwks_served dec now fetch (jwks_after dec earlier)) (request_token r) claims"
    using jwks.gate.passes v(1) unfolding assms(2) by blast
  note t = signed_published [OF this]
  have tk: "request_token r = (case hr_query (kr_http r) ''token'' of
          Some (c # _) \<Rightarrow> if c = [] then (case kr_cookie r of Some k \<Rightarrow> k | None \<Rightarrow> []) else c
        | _ \<Rightarrow> (case kr_cookie r of Some k \<Rightarrow> k | None \<Rightarrow> []))"
    by (auto simp: request_token_def first_value_def Let_def split: option.split list.split)
  have p: "sid \<noteq> []" "CHR ''/'' \<notin> set sid"
    "hr_path (kr_http r) = ''/kasm/'' @ sid @ rest \<or> hr_path (kr_http r) = ''/kasm/'' @ sid \<and> rest = ''/''"
    using split_path_some [OF sp] by (auto simp: route_prefix_def)
  from kasm_proxy_fresh [OF assms(1) ci(1)] ci(2) t tk v(2) p
  show ?thesis unfolding out proxy_rewrite_secrets by blast
qed

text \<open>The downloads API of the desktop is out of reach: whatever the spelling of the path (doubled slashes, dot
  segments, letter case, what follows), a request whose first two resolved segments read api and downloads is
  not proxied.\<close>

lemma kasm_downloads_refused:
  assumes "kasm_serve ul env r infos = (acts, infos')" "split_path (hr_path (kr_http r)) = Some (sid, rest)"
    "path_segments rest = a # b # ws" "to_lower ul a = ''api''" "to_lower ul b = ''downloads''"
  shows "KProxy s out \<notin> set acts"
  using kasm_serve_proxied [OF assms(1)] downloads_blocked [OF assms(3-5)] assms(2) by (metis option.inject prod.inject)

text \<open>Once a desktop stream has ended its session is reported and forgotten: whatever state the cache was in, the next
  resolution of the session asks the API server, so a paused or deleted workspace stops resolving.\<close>

lemma kasm_stream_end_forgets:
  assumes "kasm_stream_end r sid infos = (ended, infos')" "is_desktop_stream r"
  shows "ended = [sid] \<and> fst (connection_info_of env sid infos') = ke_info env sid \<and>
    (\<forall>s. s \<noteq> sid \<longrightarrow> infos' s = infos s)"
proof -
  have "kasm_step id infos (KReturn r sid) infos'" by (rule kasm_step.return [OF assms(1)])
  from kasm_forgotten [OF this assms(2)] assms show ?thesis by (auto simp: kasm_stream_end_def)
qed

definition kasm_demo_request :: "string \<Rightarrow> kasm_request" where
  "kasm_demo_request p = \<lparr>kr_http = \<lparr>hr_path = p, hr_host = ''waas'', hr_query = [''token'' \<mapsto> [''good'']],
     hr_headers = [''Cookie'' \<mapsto> [''waas_kasm=x''], ''Upgrade'' \<mapsto> [''websocket'']]\<rparr>, kr_cookie = Some ''x'', kr_tls = True\<rparr>"

definition kasm_demo_env :: kasm_env where
  "kasm_demo_env = \<lparr>ke_validate = demo_validate, ke_info = (\<lambda>s. if s = ''s1'' then Some (demo_info ''kasmvnc'') else None),
     ke_now = 5, ke_stored = 6\<rparr>"

lemma kasm_demo_split: "split_path (''/kasm/s1/'' @ t) = Some (''s1'', CHR ''/'' # t)"
  using split_path_route(1) [of "''s1''" t] by (simp add: route_prefix_def)

lemma kasm_demo_info: "connection_info_of kasm_demo_env ''s1'' Map.empty =
   (Some (demo_info ''kasmvnc''), [''s1'' \<mapsto> \<lparr>ca_info = demo_info ''kasmvnc'', ca_expires = 6 + info_ttl\<rparr>])"
  by (simp add: connection_info_of_def kasm_demo_env_def)

lemma kasm_demo_proxied:
  "\<exists>acts infos' out. kasm_serve id kasm_demo_env (kasm_demo_request ''/kasm/s1/index.html'') Map.empty = (acts, infos') \<and>
     KProxy ''s1'' out \<in> set acts"
proof -
  have sp: "split_path ''/kasm/s1/index.html'' = Some (''s1'', ''/index.html'')"
    using kasm_demo_split [of "''index.html''"] by simp
  have "\<not> is_downloads_api_path id ''/index.html''"
    by (simp add: is_downloads_api_path_def Let_def path_clean_def path_segments_def to_lower_ascii)
  then show ?thesis
    using sp kasm_demo_info
    by (simp add: kasm_serve_def kasm_demo_request_def first_value_def Let_def)
      (simp add: kasm_demo_env_def demo_claims_def demo_info_def)
qed

theorem kasm_proxy_authorized_witness:
  "\<exists>acts infos' out. kasm_serve id kasm_demo_env (kasm_demo_request ''/kasm/s1/index.html'') Map.empty = (acts, infos') \<and>
     KProxy ''s1'' out \<in> set acts \<and> hr_headers out ''Cookie'' = None \<and> hr_query out ''token'' = None"
proof -
  obtain acts infos' out where s: "kasm_serve id kasm_demo_env (kasm_demo_request ''/kasm/s1/index.html'') Map.empty = (acts, infos')"
    "KProxy ''s1'' out \<in> set acts" using kasm_demo_proxied by blast
  have "ke_validate kasm_demo_env = (\<lambda>t. fst (validate_connection_token demo_jwt
      (\<lambda>i c. jwks_key demo_decode cache_ttl (Inl ''down'') c i) ''waas'' demo_keys t))"
    by (simp add: kasm_demo_env_def demo_validate_def fun_eq_iff)
  from kasm_proxy_authorized [OF kasm_reach.start this s] s show ?thesis by blast
qed

theorem kasm_downloads_refused_witness:
  "\<forall>s out. KProxy s out \<notin> set (fst (kasm_serve id kasm_demo_env (kasm_demo_request ''/kasm/s1/x/..//api/./downloads/f'') Map.empty))"
proof -
  obtain acts infos' where k: "kasm_serve id kasm_demo_env (kasm_demo_request ''/kasm/s1/x/..//api/./downloads/f'') Map.empty = (acts, infos')"
    by (metis prod.exhaust)
  have sp: "split_path (hr_path (kr_http (kasm_demo_request ''/kasm/s1/x/..//api/./downloads/f''))) =
      Some (''s1'', ''/x/..//api/./downloads/f'')"
    using kasm_demo_split [of "''x/..//api/./downloads/f''"] by (simp add: kasm_demo_request_def)
  have seg: "path_segments ''/x/..//api/./downloads/f'' = ''api'' # ''downloads'' # [''f'']"
    by (simp add: path_segments_def)
  show ?thesis using kasm_downloads_refused [OF k sp seg] k by (auto simp: to_lower_ascii)
qed

theorem kasm_stream_end_forgets_witness:
  "fst (connection_info_of kasm_demo_env ''s1'' (snd (kasm_stream_end (kasm_demo_request ''/kasm/s1/websockify'') ''s1''
     [''s1'' \<mapsto> \<lparr>ca_info = demo_info ''vnc'', ca_expires = 100\<rparr>]))) = Some (demo_info ''kasmvnc'')"
proof -
  obtain ended infos' where k: "kasm_stream_end (kasm_demo_request ''/kasm/s1/websockify'') ''s1''
     [''s1'' \<mapsto> \<lparr>ca_info = demo_info ''vnc'', ca_expires = 100\<rparr>] = (ended, infos')" by (metis prod.exhaust)
  have "is_desktop_stream (kasm_demo_request ''/kasm/s1/websockify'')"
    by (simp add: is_desktop_stream_def kasm_demo_request_def first_value_def equal_fold_def fold_ascii_def runes_ascii
        ascii_lower_def)
  from kasm_stream_end_forgets [OF k this, of kasm_demo_env] k show ?thesis by (simp add: kasm_demo_env_def)
qed

end
