(* ===== verification/Api_Types.thy ===== *)
theory Api_Types
  imports Prelude "HOL-Library.Word"
begin

text \<open>
  \<open>operator/api/v1alpha1\<close>: the custom resources the control plane reads and writes, with the methods
  the types define. Kubernetes types that are only carried through (environment entries, security
  contexts, volumes, tolerations) are strings, their serialized form. A quantity is an exact integer
  amount, in the smallest unit Kubernetes knows. Metadata keeps the name, the namespace, labels and
  annotations, the UID and whether a deletion timestamp is set.
\<close>

type_synonym quantity = int
type_synonym k8s_value = string

record object_meta =
  md_name :: string
  md_namespace :: string
  md_uid :: string
  md_labels :: "string \<rightharpoonup> string"
  md_annotations :: "string \<rightharpoonup> string"
  md_deleted :: bool
  md_created :: int

text \<open>Reading a Go map of strings at a key: the empty string when absent.\<close>

definition str_at :: "(string \<rightharpoonup> string) \<Rightarrow> string \<Rightarrow> string" where
  "str_at m k = (case m k of Some v \<Rightarrow> v | None \<Rightarrow> [])"

lemma str_at_simps [simp]: "str_at Map.empty k = []" "m k = Some v \<Longrightarrow> str_at m k = v"
  by (simp_all add: str_at_def)

section \<open>identity.go\<close>

definition annotation_username :: string where "annotation_username = ''waas.xorhub.io/username''"
definition annotation_groups :: string where "annotation_groups = ''waas.xorhub.io/groups''"
definition annotation_role :: string where "annotation_role = ''waas.xorhub.io/role''"
definition annotation_delete_home :: string where "annotation_delete_home = ''waas.xorhub.io/delete-home''"
definition label_managed_by :: string where "label_managed_by = ''app.kubernetes.io/managed-by''"
definition label_workspace :: string where "label_workspace = ''waas.xorhub.io/workspace''"
definition label_workspace_namespace :: string where "label_workspace_namespace = ''waas.xorhub.io/workspace-namespace''"
definition label_owner :: string where "label_owner = ''waas.xorhub.io/owner''"
definition manager_name :: string where "manager_name = ''waas-operator''"
definition label_retained :: string where "label_retained = ''waas.xorhub.io/retained''"
definition annotation_origin_workspace :: string where "annotation_origin_workspace = ''waas.xorhub.io/origin-workspace''"
definition annotation_retained_at :: string where "annotation_retained_at = ''waas.xorhub.io/retained-at''"

lemmas annotation_names = annotation_username_def annotation_groups_def annotation_role_def annotation_delete_home_def
lemmas label_names = label_managed_by_def label_workspace_def label_workspace_namespace_def label_owner_def
  label_retained_def

section \<open>workspace_types.go\<close>

record resource_requirements =
  rr_limits :: "string \<rightharpoonup> quantity"
  rr_requests :: "string \<rightharpoonup> quantity"

record workspace_schedule =
  sch_timezone :: string
  sch_uptime :: "string list"
  sch_downtime :: "string list"

text \<open>\<open>corev1.EnvVar\<close>: a literal value, or a reference the kubelet resolves.\<close>

record env_var =
  ev_name :: string
  ev_value :: string
  ev_value_from :: "k8s_value option"

record workspace_overrides =
  ov_env :: "env_var list"
  ov_security_context :: "k8s_value option"
  ov_pod_security_context :: "k8s_value option"
  ov_volumes :: "(string \<times> k8s_value) list"
  ov_volume_mounts :: "(string \<times> k8s_value) list"
  ov_node_selector :: "(string \<times> string) list"
  ov_tolerations :: "k8s_value list"
  ov_protocol :: string
  ov_schedule :: "workspace_schedule option"
  ov_labels :: "(string \<times> string) list"
  ov_annotations :: "(string \<times> string) list"

record workspace_spec =
  sp_template_ref :: string
  sp_owner :: string
  sp_display_name :: string
  sp_paused :: bool
  sp_target_namespace :: string
  sp_workload_name :: string
  sp_home_volume_name :: string
  sp_resources :: "resource_requirements option"
  sp_overrides :: "workspace_overrides option"

record workspace =
  ws_meta :: object_meta
  ws_spec :: workspace_spec

definition ws_annotation :: "workspace \<Rightarrow> string \<Rightarrow> string" where
  "ws_annotation ws k = str_at (md_annotations (ws_meta ws)) k"

definition effective_target_namespace :: "workspace \<Rightarrow> string" where
  "effective_target_namespace ws =
     (if sp_target_namespace (ws_spec ws) \<noteq> [] then sp_target_namespace (ws_spec ws) else md_namespace (ws_meta ws))"

definition effective_workload_name :: "workspace \<Rightarrow> string" where
  "effective_workload_name ws =
     (if sp_workload_name (ws_spec ws) \<noteq> [] then sp_workload_name (ws_spec ws) else ''ws-'' @ md_name (ws_meta ws))"

section \<open>workspacetemplate_types.go\<close>

definition os_linux :: string where "os_linux = ''linux''"
definition pulse_audio_port :: int where "pulse_audio_port = 4713"
definition os_windows :: string where "os_windows = ''windows''"

datatype overridable_field =
    FieldEnv | FieldSecurityContext | FieldPodSecurityContext | FieldVolumes | FieldNodeSelector
  | FieldTolerations | FieldResources | FieldProtocol | FieldProtocolParams | FieldSchedule
  | FieldPlacement | FieldMetadata

definition all_overridable_fields :: "overridable_field list" where
  "all_overridable_fields = [FieldEnv, FieldSecurityContext, FieldPodSecurityContext, FieldVolumes,
     FieldNodeSelector, FieldTolerations, FieldResources, FieldProtocol,
     FieldProtocolParams, FieldSchedule, FieldPlacement, FieldMetadata]"

record workspace_placement =
  pl_namespace :: string
  pl_namespace_labels :: "(string \<times> string) list"
  pl_namespace_annotations :: "(string \<times> string) list"
  pl_cleanup :: string

record workspace_workload =
  wl_kind :: string
  wl_security_context :: "k8s_value option"
  wl_pod_security_context :: "k8s_value option"
  wl_volumes :: "(string \<times> k8s_value) list"
  wl_volume_mounts :: "(string \<times> k8s_value) list"
  wl_node_selector :: "(string \<times> string) list"
  wl_tolerations :: "k8s_value list"
  wl_service_account_name :: string
  wl_labels :: "(string \<times> string) list"
  wl_annotations :: "(string \<times> string) list"

record workspace_home_volume =
  hv_labels :: "(string \<times> string) list"
  hv_annotations :: "(string \<times> string) list"

record workspace_protocol =
  wp_name :: string
  wp_port :: int
  wp_default :: bool
  wp_params :: "(string \<times> string) list"
  wp_user_params :: "string list"
  wp_expose_audio_port :: bool
  wp_credentials_secret_ref :: string

record template_overrides =
  to_allowed_fields :: "overridable_field list"
  to_owner :: string

record template_spec =
  ts_display_name :: string
  ts_description :: string
  ts_logo :: string
  ts_os :: string
  ts_image :: string
  ts_port :: int
  ts_resources :: resource_requirements
  ts_home_size :: "quantity option"
  ts_home_mount_path :: string
  ts_kasmvnc_config :: string
  ts_storage_class_name :: "string option"
  ts_env :: "env_var list"
  ts_workload :: "workspace_workload option"
  ts_home_volume :: "workspace_home_volume option"
  ts_protocols :: "workspace_protocol list"
  ts_overrides :: "template_overrides option"
  ts_schedule :: "workspace_schedule option"
  ts_placement :: "workspace_placement option"

record workspace_template =
  tp_meta :: object_meta
  tp_spec :: template_spec

definition effective_home_mount_path :: "template_spec \<Rightarrow> string" where
  "effective_home_mount_path s =
     (if ts_home_mount_path s \<noteq> [] then ts_home_mount_path s else ''/home/waas_user'')"

definition placement_namespace_pattern :: "template_spec \<Rightarrow> string" where
  "placement_namespace_pattern s = (case ts_placement s of None \<Rightarrow> [] | Some p \<Rightarrow> pl_namespace p)"

definition cleanup_policy_or_default :: "template_spec \<Rightarrow> string" where
  "cleanup_policy_or_default s = (case ts_placement s of
     None \<Rightarrow> ''Retain'' | Some p \<Rightarrow> if pl_cleanup p = [] then ''Retain'' else pl_cleanup p)"

definition effective_protocols :: "template_spec \<Rightarrow> workspace_protocol list" where
  "effective_protocols s =
     (if ts_protocols s \<noteq> [] then ts_protocols s
      else [\<lparr>wp_name = (if ts_os s = os_windows then ''rdp'' else ''vnc''),
             wp_port = (if ts_port s = 0 then (if ts_os s = os_windows then 3389 else 5901) else ts_port s),
             wp_default = True, wp_params = [], wp_user_params = [], wp_expose_audio_port = False,
             wp_credentials_secret_ref = []\<rparr>])"

definition audio_port_exposed :: "template_spec \<Rightarrow> bool" where
  "audio_port_exposed s = list_ex wp_expose_audio_port (effective_protocols s)"

definition default_protocol :: "template_spec \<Rightarrow> workspace_protocol" where
  "default_protocol s =
     (case find wp_default (effective_protocols s) of Some p \<Rightarrow> p | None \<Rightarrow> hd (effective_protocols s))"

definition desktop_port :: "template_spec \<Rightarrow> int" where "desktop_port s = wp_port (default_protocol s)"
definition protocol_of :: "template_spec \<Rightarrow> string" where "protocol_of s = wp_name (default_protocol s)"

definition protocol_named :: "template_spec \<Rightarrow> string \<Rightarrow> workspace_protocol option" where
  "protocol_named s name = find (\<lambda>p. wp_name p = name) (effective_protocols s)"

definition workload_kind_or_default :: "template_spec \<Rightarrow> string" where
  "workload_kind_or_default s = (case ts_workload s of
     Some w \<Rightarrow> if wl_kind w \<noteq> [] then wl_kind w else ''Deployment'' | None \<Rightarrow> ''Deployment'')"

definition field_overridable :: "template_spec \<Rightarrow> overridable_field \<Rightarrow> bool" where
  "field_overridable s f = (case ts_overrides s of None \<Rightarrow> False | Some t \<Rightarrow> f \<in> set (to_allowed_fields t))"

section \<open>workspacepolicy_types.go\<close>

record policy_subject =
  ps_kind :: string
  ps_name :: string

record compute_size =
  cs_cpu :: "quantity option"
  cs_memory :: "quantity option"

record per_workspace_caps =
  pw_cpu :: "quantity option"
  pw_memory :: "quantity option"
  pw_home :: "quantity option"

record aggregate_caps =
  ag_cpu :: "quantity option"
  ag_memory :: "quantity option"
  ag_storage :: "quantity option"

record policy_limits =
  lm_max_workspaces :: "32 word option"
  lm_max_running :: "32 word option"
  lm_per_workspace :: "per_workspace_caps option"
  lm_aggregate :: "aggregate_caps option"
  lm_defaults :: "compute_size option"

record clipboard_policy =
  cb_copy :: "bool option"
  cb_paste :: "bool option"

record policy_lifecycle =
  lc_idle_suspend_after :: "int option"
  lc_max_lifetime :: "int option"

record workspace_policy =
  wp_meta_name :: string
  po_priority :: "32 word"
  po_subjects :: "policy_subject list"
  po_images :: "string list"
  po_limits :: policy_limits
  po_lifecycle :: "policy_lifecycle option"
  po_clipboard :: "clipboard_policy option"
  po_overrides :: "overridable_field list option"
  po_remote_workspaces :: bool

section \<open>workspaceimage_types.go\<close>

record image_resources =
  ir_default :: "compute_size option"
  ir_min :: "compute_size option"
  ir_max :: "compute_size option"

record catalog_key_ref =
  ck_name :: string
  ck_key :: string

record image_catalog_source =
  src_url :: string
  src_config_map :: "catalog_key_ref option"
  src_secret :: "catalog_key_ref option"

record image_catalog =
  ic_from :: image_catalog_source
  ic_bearer_secret :: "string option"

record workspace_image =
  im_name :: string
  im_display_name :: string
  im_description :: string
  im_image :: string
  im_registry :: string
  im_tag_policy :: string
  im_protocols :: "string list"
  im_architectures :: "string list"
  im_enabled :: bool
  im_allowed_groups :: "string list"
  im_image_pull_secret_ref :: string
  im_resources :: "image_resources option"
  im_catalog :: "image_catalog option"

section \<open>Facts\<close>

lemma effective_protocols_nonempty [simp]: "effective_protocols s \<noteq> []"
  by (simp add: effective_protocols_def)

text \<open>The default protocol is one of the declared ones, so asking for it by name finds a protocol.\<close>

lemma default_protocol_in: "default_protocol s \<in> set (effective_protocols s)"
  by (auto simp: default_protocol_def find_Some_iff split: option.split)

lemma protocol_named_iff: "protocol_named s n \<noteq> None \<longleftrightarrow> n \<in> wp_name ` set (effective_protocols s)"
  by (auto simp: protocol_named_def find_None_iff)

lemma protocol_named_some:
  "protocol_named s n = Some p \<Longrightarrow> p \<in> set (effective_protocols s) \<and> wp_name p = n"
  by (auto simp: protocol_named_def find_Some_iff)

lemma set_all_overridable_fields [simp]: "f \<in> set all_overridable_fields"
  by (cases f) (simp_all add: all_overridable_fields_def)

end
