(* ===== verification/Naming.thy ===== *)
theory Naming
  imports Go_Text
begin

text \<open>
  \<open>operator/pkg/naming/naming.go\<close>: normalization of identity-derived strings into DNS-1123 labels and
  the placement namespace pattern. Unicode normalization, the two character tables and SHA-256 are
  the parameter record \<open>text_lib\<close>; nothing is assumed of them where a result must be a label, since the
  code tests every character after folding it.
\<close>

record text_lib =
  nfkd :: "string \<Rightarrow> nat list"
  is_mark :: "nat \<Rightarrow> bool"
  lower_rune :: "nat \<Rightarrow> nat"
  sha256_hex :: "string \<Rightarrow> string"

definition max_label :: nat where "max_label = 63"

section \<open>Normalization\<close>

definition label_rune :: "nat \<Rightarrow> bool" where
  "label_rune r \<longleftrightarrow> 97 \<le> r \<and> r \<le> 122 \<or> 48 \<le> r \<and> r \<le> 57"

text \<open>The loop of \<open>normalizeLabel\<close>: the builder and the pending dash.\<close>

fun label_loop :: "text_lib \<Rightarrow> nat list \<Rightarrow> string \<Rightarrow> bool \<Rightarrow> string" where
  "label_loop lib [] out dash = out"
| "label_loop lib (r # rs) out dash =
     (if is_mark lib r then label_loop lib rs out dash
      else let r' = lower_rune lib r
           in if label_rune r'
              then label_loop lib rs (out @ (if dash \<and> out \<noteq> [] then ''-'' else []) @ [char_of r']) False
              else label_loop lib rs out True)"

definition trim_right_dash :: "string \<Rightarrow> string" where
  "trim_right_dash s = rev (dropWhile (\<lambda>c. c = CHR ''-'') (rev s))"

definition normalize_label :: "text_lib \<Rightarrow> string \<Rightarrow> int \<Rightarrow> string" where
  "normalize_label lib s limit =
     (let l = (if limit \<le> 0 \<or> int max_label < limit then max_label else nat limit);
          out = label_loop lib (nfkd lib s) [] False
      in if l < length out then trim_right_dash (take l out) else out)"

definition sanitize_with_limit :: "text_lib \<Rightarrow> string \<Rightarrow> int \<Rightarrow> string" where
  "sanitize_with_limit lib s limit =
     (let out = normalize_label lib s limit in if out \<noteq> [] then out else ''x'')"

definition sanitize :: "text_lib \<Rightarrow> string \<Rightarrow> string" where
  "sanitize lib s = sanitize_with_limit lib s (int max_label)"

definition suffix_of :: "text_lib \<Rightarrow> string \<Rightarrow> string" where
  "suffix_of lib raw = CHR ''-'' # take 5 (sha256_hex lib raw)"

definition identity_segment :: "text_lib \<Rightarrow> string \<Rightarrow> string" where
  "identity_segment lib user_id =
     (let parts = split_on CHR ''-'' user_id;
          seg = (if 1 < length parts then hd parts @ ''-'' @ last parts else hd parts)
      in sanitize lib seg)"

section \<open>Labels\<close>

datatype name_error =
    EmptyName
  | NameTooLong string
  | NotALabel string
  | UnknownPlaceholder string
  | UnbalancedBraces string
  | NoRoom string
  | NoUsableName string

definition label_char :: "char \<Rightarrow> bool" where
  "label_char c \<longleftrightarrow> label_rune (byte c)"

text \<open>
  The byte test is the rune test of the source: a rune of more than one byte has only bytes from
  128 on, and fails both.
\<close>

definition validate_label :: "string \<Rightarrow> name_error option" where
  "validate_label s =
     (if s = [] then Some EmptyName
      else if max_label < length s then Some (NameTooLong s)
      else if list_all (\<lambda>i. label_char (s ! i) \<or> s ! i = CHR ''-'' \<and> 0 < i \<and> i < length s - 1) [0 ..< length s]
        then None else Some (NotALabel s))"

section \<open>Placement patterns\<close>

record pattern_values =
  pv_user :: string
  pv_user_id :: string
  pv_workspace :: string
  pv_template :: string
  pv_os :: string

definition token_user :: string where "token_user = ''{user}''"
definition token_workspace :: string where "token_workspace = ''{workspace}''"
definition token_template_name :: string where "token_template_name = ''{templateName}''"
definition token_os :: string where "token_os = ''{os}''"

definition builtin_namespace_pattern :: string where
  "builtin_namespace_pattern = ''waas-'' @ token_user"

definition by_token :: "pattern_values \<Rightarrow> string \<rightharpoonup> string" where
  "by_token v = [token_user \<mapsto> pv_user v, token_workspace \<mapsto> pv_workspace v,
     token_template_name \<mapsto> pv_template v, token_os \<mapsto> pv_os v]"

text \<open>The leftmost matches of the token expression, the characters between them one by one.\<close>

datatype piece = Lit char | Tok string

fun close_brace :: "string \<Rightarrow> (string \<times> string) option" where
  "close_brace [] = None"
| "close_brace (c # s) =
     (if c = CHR ''}'' then Some ([], s)
      else if c = CHR ''{'' then None
      else (case close_brace s of None \<Rightarrow> None | Some (inner, rest) \<Rightarrow> Some (c # inner, rest)))"

lemma close_brace_shorter: "close_brace s = Some (inner, rest) \<Longrightarrow> length rest < length s"
  by (induction s arbitrary: inner) (fastforce split: if_splits option.splits)+

function scan_pattern :: "string \<Rightarrow> piece list" where
  "scan_pattern [] = []"
| "scan_pattern (c # s) =
     (if c = CHR ''{'' then
        (case close_brace s of
           None \<Rightarrow> Lit c # scan_pattern s
         | Some (inner, rest) \<Rightarrow> Tok (CHR ''{'' # inner @ ''}'') # scan_pattern rest)
      else Lit c # scan_pattern s)"
  by pat_completeness auto
termination
  by (relation "measure length") (auto dest: close_brace_shorter)

definition pattern_tokens :: "string \<Rightarrow> string list" where
  "pattern_tokens p = List.map_filter (\<lambda>x. case x of Tok t \<Rightarrow> Some t | Lit _ \<Rightarrow> None) (scan_pattern p)"

definition pattern_literals :: "string \<Rightarrow> string" where
  "pattern_literals p = List.map_filter (\<lambda>x. case x of Lit c \<Rightarrow> Some c | Tok _ \<Rightarrow> None) (scan_pattern p)"

definition effective_pattern :: "string \<Rightarrow> string \<Rightarrow> string" where
  "effective_pattern template_pattern global_pattern =
     (if template_pattern \<noteq> [] then template_pattern
      else if global_pattern \<noteq> [] then global_pattern
      else builtin_namespace_pattern)"

definition fit_segment :: "text_lib \<Rightarrow> string \<Rightarrow> int \<Rightarrow> string" where
  "fit_segment lib raw budget =
     (let sanitized = sanitize lib raw in
      if int (length sanitized) \<le> budget then sanitized
      else let suffix = suffix_of lib raw;
               h = budget - int (length suffix);
               h' = (if h < 1 then 1 else h)
           in sanitize_with_limit lib raw h' @ suffix)"

definition expand_token :: "text_lib \<Rightarrow> pattern_values \<Rightarrow> int \<Rightarrow> string \<Rightarrow> name_error + string" where
  "expand_token lib v budget tok =
     (let raw = (case by_token v tok of Some x \<Rightarrow> x | None \<Rightarrow> []) in
      if tok = token_user \<and> normalize_label lib raw (int max_label) = []
      then (if pv_user_id v = [] then Inl (NoUsableName raw)
            else Inr (fit_segment lib (identity_segment lib (pv_user_id v)) budget))
      else Inr (fit_segment lib raw budget))"

fun expand_pieces :: "text_lib \<Rightarrow> pattern_values \<Rightarrow> int \<Rightarrow> piece list \<Rightarrow> name_error + string" where
  "expand_pieces lib v budget [] = Inr []"
| "expand_pieces lib v budget (Lit c # ps) =
     result_bind (expand_pieces lib v budget ps) (\<lambda>out. Inr (c # out))"
| "expand_pieces lib v budget (Tok t # ps) =
     result_bind (expand_token lib v budget t) (\<lambda>x.
       result_bind (expand_pieces lib v budget ps) (\<lambda>out. Inr (x @ out)))"

text \<open>The budget of one token; the division is by the number of tokens when there is one.\<close>

definition token_budget :: "string \<Rightarrow> int" where
  "token_budget p =
     (let n = length (pattern_tokens p) in
      if 0 < n then (int max_label - int (length (pattern_literals p))) div int n else int max_label)"

definition resolve_namespace :: "text_lib \<Rightarrow> string \<Rightarrow> pattern_values \<Rightarrow> name_error + string" where
  "resolve_namespace lib pattern v =
     (if pattern = [] then Inr []
      else case find (\<lambda>t. by_token v t = None) (pattern_tokens pattern) of
        Some t \<Rightarrow> Inl (UnknownPlaceholder t)
      | None \<Rightarrow>
         if list_ex (\<lambda>c. c = CHR ''{'' \<or> c = CHR ''}'') (pattern_literals pattern) then Inl (UnbalancedBraces pattern)
         else if token_budget pattern < 1 then Inl (NoRoom pattern)
         else result_bind (expand_pieces lib v (token_budget pattern) (scan_pattern pattern)) (\<lambda>out.
           case validate_label out of Some e \<Rightarrow> Inl e | None \<Rightarrow> Inr out))"

definition personal_namespace :: "text_lib \<Rightarrow> string \<Rightarrow> string \<Rightarrow> string" where
  "personal_namespace lib username user_id =
     (case resolve_namespace lib builtin_namespace_pattern
        \<lparr>pv_user = username, pv_user_id = user_id, pv_workspace = [], pv_template = [], pv_os = []\<rparr> of
        Inl _ \<Rightarrow> [] | Inr ns \<Rightarrow> ns)"

definition is_personal_namespace_of :: "text_lib \<Rightarrow> string \<Rightarrow> string \<Rightarrow> string \<Rightarrow> bool" where
  "is_personal_namespace_of lib username user_id ns =
     (let user_ns = personal_namespace lib username user_id in
      if user_ns = [] \<or> ns = [] then False
      else ns = user_ns \<or> has_prefix ns (user_ns @ ''-''))"

definition validate_pattern :: "text_lib \<Rightarrow> string \<Rightarrow> name_error option" where
  "validate_pattern lib pattern =
     (case resolve_namespace lib pattern \<lparr>pv_user = ''sample-user'', pv_user_id = [],
        pv_workspace = ''sample-workspace'', pv_template = ''sample-template'', pv_os = ''linux''\<rparr> of
        Inl e \<Rightarrow> Some e | Inr _ \<Rightarrow> None)"

section \<open>Labels, inductively\<close>

definition label_body :: "char \<Rightarrow> bool" where
  "label_body c \<longleftrightarrow> label_char c \<or> c = CHR ''-''"

definition labelish :: "string \<Rightarrow> bool" where
  "labelish s \<longleftrightarrow> s = [] \<or> list_all label_body s \<and> label_char (hd s) \<and> label_char (last s)"

lemma dash_no_label_char [simp]: "\<not> label_char CHR ''-''"
  by (simp add: label_char_def label_rune_def)

lemma label_char_of [simp]: "label_rune r \<Longrightarrow> label_char (char_of r)"
  by (auto simp: label_char_def label_rune_def)

lemma labelish_Nil [simp]: "labelish []"
  by (simp add: labelish_def)

lemma list_all_nth: "list_all P xs \<longleftrightarrow> (\<forall>i < length xs. P (xs ! i))"
  by (auto simp: list_all_length)

lemma validate_label_iff:
  "validate_label s = None \<longleftrightarrow> s \<noteq> [] \<and> labelish s \<and> length s \<le> max_label"
proof (cases "s = []")
  case False
  have ends: "hd s = s ! 0" "last s = s ! (length s - 1)" using False by (simp_all add: hd_conv_nth last_conv_nth)
  have "(\<forall>i < length s. label_char (s ! i) \<or> s ! i = CHR ''-'' \<and> 0 < i \<and> i < length s - 1) \<longleftrightarrow> labelish s"
  proof
    assume a: "\<forall>i < length s. label_char (s ! i) \<or> s ! i = CHR ''-'' \<and> 0 < i \<and> i < length s - 1"
    have "0 < length s" "length s - 1 < length s" using False by simp_all
    with a have "label_char (s ! 0)" "label_char (s ! (length s - 1))" by blast+
    with a show "labelish s" by (auto simp: labelish_def ends list_all_nth label_body_def)
  next
    assume l: "labelish s"
    show "\<forall>i < length s. label_char (s ! i) \<or> s ! i = CHR ''-'' \<and> 0 < i \<and> i < length s - 1"
    proof (intro allI impI)
      fix i assume i: "i < length s"
      from l False have b: "label_body (s ! i)" "label_char (s ! 0)" "label_char (s ! (length s - 1))"
        using i by (auto simp: labelish_def ends list_all_nth)
      show "label_char (s ! i) \<or> s ! i = CHR ''-'' \<and> 0 < i \<and> i < length s - 1"
      proof (cases "label_char (s ! i)")
        case nl: False
        have "i \<noteq> 0" "i \<noteq> length s - 1" using b nl by metis+
        with i have "0 < i \<and> i < length s - 1" by simp
        with nl b(1) show ?thesis by (simp add: label_body_def)
      qed simp
    qed
  qed
  then show ?thesis using False by (auto simp: validate_label_def list_all_iff)
qed (simp add: validate_label_def)

lemma labelish_snoc:
  "labelish out \<Longrightarrow> label_char c \<Longrightarrow> labelish (out @ [c])"
  "labelish out \<Longrightarrow> out \<noteq> [] \<Longrightarrow> label_char c \<Longrightarrow> labelish (out @ ''-'' @ [c])"
  by (cases out; auto simp: labelish_def label_body_def)+

lemma label_loop_labelish: "labelish out \<Longrightarrow> labelish (label_loop lib rs out dash)"
proof (induction lib rs out dash rule: label_loop.induct)
  case (2 lib r rs out dash)
  then show ?case
    using labelish_snoc [of out "char_of (lower_rune lib r)"] by (auto simp: Let_def)
qed simp

lemma trim_right_dash_take:
  assumes "labelish s" "s \<noteq> []" "0 < l"
  shows "labelish (trim_right_dash (take l s)) \<and> trim_right_dash (take l s) \<noteq> [] \<and>
    length (trim_right_dash (take l s)) \<le> l"
proof -
  define t where "t = take l s"
  have t: "t \<noteq> []" "list_all label_body t" "label_char (hd t)" "length t \<le> l"
    using assms by (auto simp: t_def labelish_def list_all_iff dest: in_set_takeD)
  define u where "u = trim_right_dash t"
  obtain ds where ds: "t = u @ ds" "list_all (\<lambda>c. c = CHR ''-'') ds"
  proof
    show "t = u @ rev (takeWhile (\<lambda>c. c = CHR ''-'') (rev t))"
      by (metis rev_append rev_rev_ident takeWhile_dropWhile_id trim_right_dash_def u_def)
    show "list_all (\<lambda>c. c = CHR ''-'') (rev (takeWhile (\<lambda>c. c = CHR ''-'') (rev t)))"
      by (auto simp: list_all_iff dest: set_takeWhileD)
  qed
  have "u \<noteq> []"
  proof
    assume "u = []"
    with ds t(1) have "hd t = CHR ''-''" by (cases t) auto
    with t(3) show False by simp
  qed
  moreover have "last u \<noteq> CHR ''-''"
    using \<open>u \<noteq> []\<close> hd_dropWhile [of "\<lambda>c. c = CHR ''-''" "rev t"] by (simp add: u_def trim_right_dash_def last_rev)
  moreover have "label_body (last u)" using \<open>u \<noteq> []\<close> ds(1) t(2) by (simp add: list_all_iff)
  ultimately show ?thesis
    unfolding t_def [symmetric] u_def [symmetric]
    using ds(1) t by (auto simp: labelish_def label_body_def)
qed

definition label_limit :: "int \<Rightarrow> nat" where
  "label_limit limit = (if limit \<le> 0 \<or> int max_label < limit then max_label else nat limit)"

lemma label_limit_bounds: "0 < label_limit l" "label_limit l \<le> max_label"
  by (auto simp: label_limit_def max_label_def)

lemma normalize_label_labelish:
  "labelish (normalize_label lib s limit) \<and> length (normalize_label lib s limit) \<le> label_limit limit"
proof -
  define out where "out = label_loop lib (nfkd lib s) [] False"
  have l: "labelish out" by (simp add: out_def label_loop_labelish)
  have n: "normalize_label lib s limit = (if label_limit limit < length out then trim_right_dash (take (label_limit limit) out) else out)"
    by (simp add: normalize_label_def label_limit_def out_def Let_def)
  show ?thesis
  proof (cases "label_limit limit < length out")
    case True
    then have "out \<noteq> []" by auto
    from trim_right_dash_take [OF l this label_limit_bounds(1) [of limit]] True show ?thesis by (simp add: n)
  qed (use l n in simp)
qed

lemma sanitize_with_limit_label:
  "validate_label (sanitize_with_limit lib s limit) = None \<and> length (sanitize_with_limit lib s limit) \<le> label_limit limit"
proof -
  have "labelish ''x''" by (simp add: labelish_def label_body_def label_char_def label_rune_def)
  moreover have "length ''x'' \<le> label_limit limit" using label_limit_bounds(1) [of limit] by simp
  ultimately show ?thesis
    using normalize_label_labelish [of lib s limit] label_limit_bounds(2) [of limit]
    by (auto simp: sanitize_with_limit_def validate_label_iff Let_def)
qed

section \<open>Segments\<close>

text \<open>What the code relies on of SHA-256 in hexadecimal: at least five characters, all lower-case digits.\<close>

definition hex_digest :: "text_lib \<Rightarrow> bool" where
  "hex_digest lib \<longleftrightarrow> (\<forall>s. 5 \<le> length (sha256_hex lib s) \<and> list_all label_char (sha256_hex lib s))"

lemma suffix_of_label:
  assumes "hex_digest lib"
  shows "length (suffix_of lib raw) = 6" "list_all label_body (suffix_of lib raw)"
    "label_char (last (suffix_of lib raw))"
proof -
  let ?h = "take 5 (sha256_hex lib raw)"
  have h: "length ?h = 5" "list_all label_char ?h"
    using assms by (auto simp: hex_digest_def list_all_iff dest: in_set_takeD)
  then have ne: "?h \<noteq> []" by auto
  then have "last ?h \<in> set ?h" by simp
  with h ne show "length (suffix_of lib raw) = 6" "list_all label_body (suffix_of lib raw)"
    "label_char (last (suffix_of lib raw))"
    by (auto simp: suffix_of_def label_body_def list_all_iff simp del: last_in_set)
qed

lemma labelish_append:
  "labelish a \<Longrightarrow> a \<noteq> [] \<Longrightarrow> list_all label_body b \<Longrightarrow> b \<noteq> [] \<Longrightarrow> label_char (last b) \<Longrightarrow> labelish (a @ b)"
  by (auto simp: labelish_def)

lemma fit_segment_label:
  assumes "hex_digest lib" "1 \<le> budget" "budget \<le> int max_label"
  shows "labelish (fit_segment lib raw budget) \<and> fit_segment lib raw budget \<noteq> [] \<and>
    int (length (fit_segment lib raw budget)) \<le> max budget 7"
proof (cases "int (length (sanitize lib raw)) \<le> budget")
  case True
  with sanitize_with_limit_label [of lib raw "int max_label"] show ?thesis
    by (simp add: fit_segment_def sanitize_def validate_label_iff)
next
  case False
  define h where "h = (if budget - 6 < 1 then 1 else budget - 6)"
  note suf = suffix_of_label [OF assms(1), of raw]
  have fs: "fit_segment lib raw budget = sanitize_with_limit lib raw h @ suffix_of lib raw"
    using False suf(1) by (simp add: fit_segment_def Let_def h_def)
  have h: "1 \<le> h" "h \<le> int max_label" "h + 6 \<le> max budget 7"
    using assms(2,3) by (auto simp: h_def)
  then have "int (label_limit h) = h" by (simp add: label_limit_def)
  moreover have v: "labelish (sanitize_with_limit lib raw h)" "sanitize_with_limit lib raw h \<noteq> []"
    "length (sanitize_with_limit lib raw h) \<le> label_limit h"
    using sanitize_with_limit_label [of lib raw h] by (simp_all add: validate_label_iff)
  ultimately have "int (length (sanitize_with_limit lib raw h)) \<le> h" by linarith
  moreover have "suffix_of lib raw \<noteq> []" using suf(1) by auto
  ultimately show ?thesis using labelish_append [OF v(1,2) suf(2) _ suf(3)] suf(1) v(2) h(3)
    by (auto simp: fs)
qed

section \<open>Expansion\<close>

definition usable_name :: "text_lib \<Rightarrow> pattern_values \<Rightarrow> bool" where
  "usable_name lib v \<longleftrightarrow> pv_user_id v \<noteq> [] \<or> normalize_label lib (pv_user v) (int max_label) \<noteq> []"

lemma by_token_user [simp]: "by_token v token_user = Some (pv_user v)"
  by (simp add: by_token_def token_user_def token_workspace_def token_template_name_def token_os_def)

lemma expand_token_label:
  assumes "hex_digest lib" "usable_name lib v" "1 \<le> budget" "budget \<le> int max_label"
  obtains x where "expand_token lib v budget t = Inr x" "labelish x" "x \<noteq> []" "int (length x) \<le> max budget 7"
proof -
  have "\<exists>raw. expand_token lib v budget t = Inr (fit_segment lib raw budget)"
    using assms(2) by (auto simp: expand_token_def usable_name_def Let_def)
  with fit_segment_label [OF assms(1,3,4)] that show thesis by blast
qed

definition piece_body :: "piece \<Rightarrow> bool" where
  "piece_body x = (case x of Lit c \<Rightarrow> label_body c | Tok _ \<Rightarrow> True)"

definition piece_edge :: "piece \<Rightarrow> bool" where
  "piece_edge x = (case x of Lit c \<Rightarrow> label_char c | Tok _ \<Rightarrow> True)"

definition piece_size :: "int \<Rightarrow> piece \<Rightarrow> int" where
  "piece_size b x = (case x of Lit _ \<Rightarrow> 1 | Tok _ \<Rightarrow> b)"

lemma piece_simps [simp]:
  "piece_body (Lit c) = label_body c" "piece_body (Tok t)" "piece_edge (Lit c) = label_char c" "piece_edge (Tok t)"
  "piece_size b (Lit c) = 1" "piece_size b (Tok t) = b"
  by (simp_all add: piece_body_def piece_edge_def piece_size_def)

lemma expand_pieces_label:
  assumes "hex_digest lib" "usable_name lib v" "1 \<le> budget" "budget \<le> int max_label" "list_all piece_body ps"
  shows "\<exists>out. expand_pieces lib v budget ps = Inr out \<and> list_all label_body out \<and> (ps = [] \<longleftrightarrow> out = []) \<and>
    (ps \<noteq> [] \<longrightarrow> piece_edge (hd ps) \<longrightarrow> label_char (hd out)) \<and>
    (ps \<noteq> [] \<longrightarrow> piece_edge (last ps) \<longrightarrow> label_char (last out)) \<and>
    int (length out) \<le> sum_list (map (piece_size (max budget 7)) ps)"
  using assms(5)
proof (induction ps)
  case (Cons p ps)
  then obtain out where out: "expand_pieces lib v budget ps = Inr out" "list_all label_body out" "ps = [] \<longleftrightarrow> out = []"
    "ps \<noteq> [] \<longrightarrow> piece_edge (last ps) \<longrightarrow> label_char (last out)"
    "int (length out) \<le> sum_list (map (piece_size (max budget 7)) ps)"
    by auto
  show ?case
  proof (cases p)
    case (Lit c)
    with out Cons.prems show ?thesis by auto
  next
    case (Tok t)
    obtain x where x: "expand_token lib v budget t = Inr x" "labelish x" "x \<noteq> []" "int (length x) \<le> max budget 7"
      using expand_token_label [OF assms(1-4)] by metis
    with out Tok show ?thesis by (auto simp: labelish_def)
  qed
qed simp

lemma sum_piece_size:
  "sum_list (map (piece_size b) ps) =
    int (length (List.map_filter (\<lambda>x. case x of Lit c \<Rightarrow> Some c | Tok _ \<Rightarrow> None) ps)) +
    int (length (List.map_filter (\<lambda>x. case x of Tok t \<Rightarrow> Some t | Lit _ \<Rightarrow> None) ps)) * b"
  by (induction ps) (auto simp: List.map_filter_simps algebra_simps split: piece.splits)

lemma literal_body:
  "list_all piece_body ps \<Longrightarrow>
   list_all label_body (List.map_filter (\<lambda>x. case x of Lit c \<Rightarrow> Some c | Tok _ \<Rightarrow> None) ps)"
  by (induction ps) (auto simp: List.map_filter_simps piece_body_def split: piece.splits)

lemma token_budget_fits:
  assumes "pattern_tokens p \<noteq> []"
  shows "int (length (pattern_tokens p)) * token_budget p \<le> int max_label - int (length (pattern_literals p))"
  using assms by (simp add: token_budget_def Let_def minus_mod_eq_mult_div [symmetric])

lemma pattern_size:
  assumes "pattern_tokens p \<noteq> []"
  shows "sum_list (map (piece_size (token_budget p)) (scan_pattern p)) \<le> int max_label"
  using token_budget_fits [OF assms]
  by (simp add: sum_piece_size pattern_tokens_def [symmetric] pattern_literals_def [symmetric])

section \<open>Properties\<close>

text \<open>Whatever the input and whatever the Unicode tables say, normalization yields a valid DNS-1123 label within the
  requested limit.\<close>

lemma sanitize_is_label:
  "validate_label (sanitize_with_limit lib s limit) = None \<and>
   int (length (sanitize_with_limit lib s limit)) \<le> (if 0 < limit \<and> limit \<le> int max_label then limit else int max_label)"
  using sanitize_with_limit_label [of lib s limit] by (auto simp: label_limit_def)

text \<open>A pattern of known placeholders whose literal text is made of label characters, with label characters at its
  ends, and that leaves each placeholder at least seven characters, resolves for every workspace of an account with a
  usable name or an id: the result is a valid label, so no user is ever unable to place a workspace.\<close>

lemma pattern_resolves:
  assumes "hex_digest lib" "usable_name lib v" "pattern \<noteq> []"
    "list_all (\<lambda>t. by_token v t \<noteq> None) (pattern_tokens pattern)"
    "list_all piece_body (scan_pattern pattern)"
    "piece_edge (hd (scan_pattern pattern))" "piece_edge (last (scan_pattern pattern))"
    "7 \<le> token_budget pattern" "pattern_tokens pattern \<noteq> []"
  shows "\<exists>ns. resolve_namespace lib pattern v = Inr ns \<and> validate_label ns = None"
proof -
  have ne: "scan_pattern pattern \<noteq> []" using assms(9) by (auto simp: pattern_tokens_def List.map_filter_simps)
  have known: "find (\<lambda>t. by_token v t = None) (pattern_tokens pattern) = None"
    using assms(4) by (auto simp: find_None_iff list_all_iff)
  have braces: "\<not> list_ex (\<lambda>c. c = CHR ''{'' \<or> c = CHR ''}'') (pattern_literals pattern)"
  proof -
    have "list_all label_body (pattern_literals pattern)"
      using assms(5) by (simp add: pattern_literals_def literal_body)
    then show ?thesis by (auto simp: list_all_iff list_ex_iff label_body_def label_char_def label_rune_def)
  qed
  have "1 \<le> int (length (pattern_tokens pattern))" using assms(9) by (cases "pattern_tokens pattern") simp_all
  then have "1 * token_budget pattern \<le> int (length (pattern_tokens pattern)) * token_budget pattern"
    using assms(8) by (intro mult_right_mono) simp_all
  with token_budget_fits [OF assms(9)] have "token_budget pattern \<le> int max_label" by simp
  moreover have "1 \<le> token_budget pattern" using assms(8) by simp
  ultimately obtain out where o: "expand_pieces lib v (token_budget pattern) (scan_pattern pattern) = Inr out"
    "list_all label_body out" "scan_pattern pattern = [] \<longleftrightarrow> out = []"
    "scan_pattern pattern \<noteq> [] \<longrightarrow> piece_edge (hd (scan_pattern pattern)) \<longrightarrow> label_char (hd out)"
    "scan_pattern pattern \<noteq> [] \<longrightarrow> piece_edge (last (scan_pattern pattern)) \<longrightarrow> label_char (last out)"
    "int (length out) \<le> sum_list (map (piece_size (max (token_budget pattern) 7)) (scan_pattern pattern))"
    using expand_pieces_label [OF assms(1,2) _ _ assms(5)] by blast
  then have out: "expand_pieces lib v (token_budget pattern) (scan_pattern pattern) = Inr out"
    "list_all label_body out" "out \<noteq> []" "label_char (hd out)" "label_char (last out)"
    "int (length out) \<le> sum_list (map (piece_size (max (token_budget pattern) 7)) (scan_pattern pattern))"
    using ne assms(6,7) by simp_all
  have "int (length out) \<le> int max_label"
    using out(6) pattern_size [OF assms(9)] assms(8) by (simp add: max_def)
  with out have "validate_label out = None" by (simp add: validate_label_iff labelish_def)
  with known braces out(1) assms(3,8) show ?thesis by (simp add: resolve_namespace_def)
qed

lemma builtin_scan: "scan_pattern builtin_namespace_pattern =
   [Lit CHR ''w'', Lit CHR ''a'', Lit CHR ''a'', Lit CHR ''s'', Lit CHR ''-'', Tok token_user]"
  by (simp add: builtin_namespace_pattern_def token_user_def)

lemma builtin_parts:
  "pattern_tokens builtin_namespace_pattern = [token_user]"
  "pattern_literals builtin_namespace_pattern = ''waas-''"
  "token_budget builtin_namespace_pattern = 58"
proof -
  show t: "pattern_tokens builtin_namespace_pattern = [token_user]"
    by (simp add: pattern_tokens_def builtin_scan List.map_filter_simps)
  show l: "pattern_literals builtin_namespace_pattern = ''waas-''"
    by (simp add: pattern_literals_def builtin_scan List.map_filter_simps)
  show "token_budget builtin_namespace_pattern = 58"
    by (simp add: token_budget_def t l max_label_def)
qed

text \<open>The raw value the user token stands for.\<close>

definition user_raw :: "text_lib \<Rightarrow> string \<Rightarrow> string \<Rightarrow> string" where
  "user_raw lib username user_id =
     (if normalize_label lib username (int max_label) = [] then identity_segment lib user_id else username)"

lemma waas_label:
  assumes "labelish x" "x \<noteq> []" "length x \<le> 58"
  shows "validate_label (''waas-'' @ x) = None"
proof -
  have w: "labelish ''waas''" "list_all label_body (CHR ''-'' # x)"
    using assms by (simp_all add: labelish_def label_body_def label_char_def label_rune_def)
  have "labelish (''waas'' @ CHR ''-'' # x)"
    by (rule labelish_append [OF w(1) _ w(2)]) (use assms in \<open>simp_all add: labelish_def\<close>)
  with assms(3) show ?thesis by (simp add: validate_label_iff max_label_def)
qed

lemma personal_namespace_eq:
  assumes "hex_digest lib" "user_id \<noteq> [] \<or> normalize_label lib username (int max_label) \<noteq> []"
  shows "personal_namespace lib username user_id = ''waas-'' @ fit_segment lib (user_raw lib username user_id) 58"
proof -
  let ?v = "\<lparr>pv_user = username, pv_user_id = user_id, pv_workspace = [], pv_template = [], pv_os = []\<rparr>"
  have tok: "expand_token lib ?v 58 token_user = Inr (fit_segment lib (user_raw lib username user_id) 58)"
    using assms(2) by (auto simp: expand_token_def user_raw_def Let_def)
  have "labelish (fit_segment lib (user_raw lib username user_id) 58) \<and>
      fit_segment lib (user_raw lib username user_id) 58 \<noteq> [] \<and>
      int (length (fit_segment lib (user_raw lib username user_id) 58)) \<le> max 58 7"
    by (rule fit_segment_label [OF assms(1)]) (simp_all add: max_label_def)
  then have "validate_label (''waas-'' @ fit_segment lib (user_raw lib username user_id) 58) = None"
    by (intro waas_label) simp_all
  with tok show ?thesis
    by (simp add: personal_namespace_def resolve_namespace_def builtin_parts builtin_scan)
       (simp add: builtin_namespace_pattern_def)
qed

text \<open>Every account with an id has a personal namespace, also when its username leaves no usable character; it is a
  valid label under the platform prefix, an account's own namespace is recognized as its own, and so is any namespace
  derived from it by a dash.\<close>

lemma personal_namespace_total:
  assumes "hex_digest lib" "user_id \<noteq> []"
  shows "validate_label (personal_namespace lib username user_id) = None \<and>
    has_prefix (personal_namespace lib username user_id) ''waas-'' \<and>
    is_personal_namespace_of lib username user_id (personal_namespace lib username user_id) \<and>
    is_personal_namespace_of lib username user_id (personal_namespace lib username user_id @ ''-'' @ t)"
proof -
  have e: "personal_namespace lib username user_id = ''waas-'' @ fit_segment lib (user_raw lib username user_id) 58"
    using assms by (simp add: personal_namespace_eq)
  have "labelish (fit_segment lib (user_raw lib username user_id) 58) \<and>
      fit_segment lib (user_raw lib username user_id) 58 \<noteq> [] \<and>
      int (length (fit_segment lib (user_raw lib username user_id) 58)) \<le> max 58 7"
    by (rule fit_segment_label [OF assms(1)]) (simp_all add: max_label_def)
  then have "validate_label (personal_namespace lib username user_id) = None"
    unfolding e by (intro waas_label) simp_all
  moreover have "personal_namespace lib username user_id \<noteq> []" unfolding e by simp
  moreover have "has_prefix (p @ ''-'' @ t) (p @ ''-'')" for p
    by (metis append.assoc has_prefix_append)
  moreover have "has_prefix (personal_namespace lib username user_id) ''waas-''" unfolding e by (rule has_prefix_append)
  ultimately show ?thesis by (auto simp: is_personal_namespace_of_def Let_def)
qed

text \<open>A token that is truncated to fit its budget ends with the digest of the raw value, so two values are given the
  same segment only when the digests agree in five characters; a value that fits is kept readable.\<close>

lemma truncated_segments_distinguished:
  assumes "hex_digest lib" "7 \<le> budget" "budget \<le> int max_label"
    "budget < int (length (sanitize lib a))" "budget < int (length (sanitize lib b))"
    "fit_segment lib a budget = fit_segment lib b budget"
  shows "suffix_of lib a = suffix_of lib b"
proof -
  have "fit_segment lib x budget = sanitize_with_limit lib x (budget - 6) @ suffix_of lib x"
    if "budget < int (length (sanitize lib x))" for x
    using that assms(2) suffix_of_label(1) [OF assms(1)] by (simp add: fit_segment_def Let_def)
  with assms(4-6) suffix_of_label(1) [OF assms(1)] show ?thesis by (metis append_eq_append_conv)
qed

text \<open>The budget of a placeholder is not always respected: under a budget of less than seven a value that does not
  fit is expanded to exactly seven characters, more than its share of the 63.\<close>

lemma small_budget_exceeded:
  assumes "hex_digest lib" "1 \<le> budget" "budget < 7" "budget < int (length (sanitize lib raw))"
  shows "int (length (fit_segment lib raw budget)) = 7"
proof -
  have "length (sanitize_with_limit lib raw 1) = 1"
    using sanitize_with_limit_label [of lib raw 1]
    by (cases "sanitize_with_limit lib raw 1") (simp_all add: label_limit_def max_label_def validate_label_iff)
  with assms suffix_of_label(1) [OF assms(1)] show ?thesis by (auto simp: fit_segment_def Let_def)
qed

section \<open>On ASCII text\<close>

definition ascii_lib :: text_lib where
  "ascii_lib = \<lparr>nfkd = map byte, is_mark = (\<lambda>_. False), lower_rune = ascii_lower, sha256_hex = (\<lambda>_. ''0a1b2c'')\<rparr>"

lemma ascii_lib_digest: "hex_digest ascii_lib"
  by (simp add: hex_digest_def ascii_lib_def label_char_def label_rune_def)

definition demo_values :: pattern_values where
  "demo_values = \<lparr>pv_user = '''', pv_user_id = ''a1-b2'', pv_workspace = ''w'', pv_template = ''t'', pv_os = ''linux''\<rparr>"

theorem pattern_resolves_witness:
  "\<exists>ns. resolve_namespace ascii_lib ''lab-{user}-{os}'' demo_values = Inr ns \<and> validate_label ns = None"
proof -
  let ?p = "''lab-{user}-{os}''"
  have s: "scan_pattern ?p = [Lit CHR ''l'', Lit CHR ''a'', Lit CHR ''b'', Lit CHR ''-'', Tok token_user, Lit CHR ''-'', Tok token_os]"
    by (simp add: token_user_def token_os_def)
  have t: "pattern_tokens ?p = [token_user, token_os]" "pattern_literals ?p = ''lab--''"
    by (simp_all only: pattern_tokens_def pattern_literals_def s) (simp_all add: List.map_filter_simps)
  have b: "token_budget ?p = 29" by (simp only: token_budget_def t) (simp add: max_label_def)
  show ?thesis
    by (rule pattern_resolves [OF ascii_lib_digest])
      (simp_all only: s t b, simp_all add: usable_name_def demo_values_def by_token_def label_body_def label_char_def label_rune_def)
qed

theorem personal_namespace_total_witness:
  "validate_label (personal_namespace ascii_lib '''' ''a1-b2'') = None"
  using personal_namespace_total [OF ascii_lib_digest, of "''a1-b2''" "''''" "''''"] by simp

definition long_name :: "char \<Rightarrow> string" where
  "long_name c = replicate 60 c"

lemma char_of_97: "char_of (97 :: nat) = CHR ''a''"
  by code_simp

lemma char_of_98: "char_of (98 :: nat) = CHR ''b''"
  by code_simp

lemma ascii_nfkd: "nfkd ascii_lib s = map byte s"
  by (simp add: ascii_lib_def)

lemma ascii_label_loop:
  "label_loop ascii_lib (replicate n 97) out False = out @ replicate n CHR ''a''"
  "label_loop ascii_lib (replicate n 97 @ [98]) out False = out @ replicate n CHR ''a'' @ ''b''"
  by (induction n arbitrary: out)
    (simp_all add: ascii_lib_def ascii_lower_def label_rune_def char_of_97 char_of_98)

lemma ascii_runes:
  "nfkd ascii_lib (long_name CHR ''a'') = replicate 60 97"
  "nfkd ascii_lib (long_name CHR ''a'' @ ''b'') = replicate 60 97 @ [98]"
  by (simp_all add: ascii_lib_def long_name_def)

lemma long_name_label:
  "length (sanitize ascii_lib (long_name CHR ''a'')) = 60"
  "length (sanitize ascii_lib (long_name CHR ''a'' @ ''b'')) = 61"
  unfolding sanitize_def sanitize_with_limit_def normalize_label_def ascii_runes ascii_label_loop
  by (simp_all add: max_label_def)

lemma long_name_cut:
  "sanitize_with_limit ascii_lib (long_name CHR ''a'') 14 = trim_right_dash (replicate 14 CHR ''a'')"
  "sanitize_with_limit ascii_lib (long_name CHR ''a'' @ ''b'') 14 = trim_right_dash (replicate 14 CHR ''a'')"
proof -
  have "trim_right_dash (replicate 14 CHR ''a'') \<noteq> []" by code_simp
  then show "sanitize_with_limit ascii_lib (long_name CHR ''a'') 14 = trim_right_dash (replicate 14 CHR ''a'')"
    "sanitize_with_limit ascii_lib (long_name CHR ''a'' @ ''b'') 14 = trim_right_dash (replicate 14 CHR ''a'')"
    unfolding sanitize_with_limit_def normalize_label_def ascii_runes ascii_label_loop
    by (simp_all add: max_label_def)
qed

theorem truncated_segments_distinguished_witness:
  "suffix_of ascii_lib (long_name CHR ''a'') = suffix_of ascii_lib (long_name CHR ''a'' @ ''b'')"
proof (rule truncated_segments_distinguished [OF ascii_lib_digest, of 20])
  have "suffix_of ascii_lib s = ''-0a1b2''" for s by (simp add: suffix_of_def ascii_lib_def)
  then show "fit_segment ascii_lib (long_name CHR ''a'') 20 = fit_segment ascii_lib (long_name CHR ''a'' @ ''b'') 20"
    by (simp add: fit_segment_def long_name_label long_name_cut)
qed (simp_all add: long_name_label max_label_def)

theorem small_budget_exceeded_witness:
  "int (length (fit_segment ascii_lib (long_name CHR ''a'') 3)) = 7"
  by (rule small_budget_exceeded [OF ascii_lib_digest]) (simp_all add: long_name_label)

end
