(* ===== verification/Policy.thy ===== *)
theory Policy
  imports Api_Types Go_Text Naming "HOL-Library.Char_ord" "HOL-Library.List_Lexorder"
    "HOL-Library.Product_Lexorder" "HOL-Library.Multiset"
begin

text \<open>
  \<open>operator/pkg/policy\<close>: which policy governs an identity, which catalog images it may use, whether a
  workspace fits its quotas and which overrides its creator may make (\<open>policy.go\<close>, \<open>overrides.go\<close>).
  A denial is a constructor per message, with what the message names. A sequence of early returns
  over pure checks is \<open>first_denial\<close> of their outcomes.
\<close>

definition gi :: quantity where "gi = 1024 * 1024 * 1024 * 1000000000"

definition default_home_size :: quantity where "default_home_size = 10 * gi"

section \<open>Identity\<close>

record identity =
  id_owner :: string
  id_username :: string
  id_groups :: "string list"

text \<open>\<open>strings.Split\<close> at commas, trimmed, the empty parts dropped.\<close>

definition split_list :: "string \<Rightarrow> string list" where
  "split_list raw = (if raw = [] then [] else filter (\<lambda>g. g \<noteq> []) (map trim_space (split_on CHR '','' raw)))"

definition identity_of :: "workspace \<Rightarrow> identity" where
  "identity_of ws =
     \<lparr>id_owner = sp_owner (ws_spec ws),
      id_username = (if ws_annotation ws annotation_username = [] then sp_owner (ws_spec ws)
                     else ws_annotation ws annotation_username),
      id_groups = split_list (ws_annotation ws annotation_groups)\<rparr>"

section \<open>Denials\<close>

datatype reason =
    ReasonNoPolicy | ReasonImageNotInCatalog | ReasonImageTagPolicy | ReasonImageDisabled
  | ReasonImageNotAllowed | ReasonProtocolMismatch | ReasonResourcesInvalid | ReasonQuotaExceeded
  | ReasonIdentityViolation | ReasonOverrideNotAllowed | ReasonPlacementDenied | ReasonVolumeDenied
  | ReasonInternalError

record denial =
  dn_reason :: reason
  dn_about :: "string list"

definition deny :: "reason \<Rightarrow> string list \<Rightarrow> denial" where
  "deny r about = \<lparr>dn_reason = r, dn_about = about\<rparr>"

definition deny_if :: "bool \<Rightarrow> denial \<Rightarrow> denial option" where
  "deny_if b d = (if b then Some d else None)"

fun first_denial :: "denial option list \<Rightarrow> denial option" where
  "first_denial [] = None"
| "first_denial (Some d # ds) = Some d"
| "first_denial (None # ds) = first_denial ds"

lemma deny_if_None [simp]: "deny_if b d = None \<longleftrightarrow> \<not> b"
  by (simp add: deny_if_def)

lemma first_denial_None: "first_denial ds = None \<longleftrightarrow> (\<forall>d \<in> set ds. d = None)"
  by (induction ds rule: first_denial.induct) auto

section \<open>The governing policy\<close>

definition non_empty :: "string \<Rightarrow> string \<Rightarrow> string" where
  "non_empty a b = (if a \<noteq> [] then a else b)"

definition subject_matches :: "policy_subject \<Rightarrow> identity \<Rightarrow> bool" where
  "subject_matches s i \<longleftrightarrow>
     (if ps_kind s = ''User'' then ps_name s = id_owner i \<or> id_username i \<noteq> [] \<and> ps_name s = id_username i
      else if ps_kind s = ''Group'' then ps_name s \<in> set (id_groups i)
      else False)"

definition matched_via :: "policy_subject list \<Rightarrow> identity \<Rightarrow> string" where
  "matched_via subjects i =
     (if subjects = [] then ''*''
      else case find (\<lambda>s. subject_matches s i) subjects of
        Some s \<Rightarrow> ps_kind s @ '':'' @ ps_name s
      | None \<Rightarrow> [])"

definition subjects_match :: "policy_subject list \<Rightarrow> identity \<Rightarrow> bool" where
  "subjects_match subjects i \<longleftrightarrow> matched_via subjects i \<noteq> []"

definition policy_rank :: "workspace_policy \<Rightarrow> int \<times> string" where
  "policy_rank p = (- sint (po_priority p), wp_meta_name p)"

text \<open>The policy and, when the first two tie, the two names of the warning.\<close>

definition resolve_policy ::
  "workspace_policy list \<Rightarrow> identity \<Rightarrow> denial + workspace_policy \<times> (string \<times> string) option" where
  "resolve_policy policies i =
     (let matching = filter (\<lambda>p. subjects_match (po_subjects p) i) policies in
      case sort_key policy_rank matching of
        [] \<Rightarrow> Inl (deny ReasonNoPolicy (non_empty (id_username i) (id_owner i) # id_groups i))
      | [p] \<Rightarrow> Inr (p, None)
      | p # q # _ \<Rightarrow> Inr (p, if po_priority p = po_priority q then Some (wp_meta_name p, wp_meta_name q) else None))"

definition clipboard_of :: "workspace_policy option \<Rightarrow> bool \<times> bool" where
  "clipboard_of pol = (case pol of
     None \<Rightarrow> (False, False)
   | Some p \<Rightarrow> (case po_clipboard p of
       None \<Rightarrow> (True, True)
     | Some c \<Rightarrow> (case cb_copy c of None \<Rightarrow> True | Some b \<Rightarrow> b, case cb_paste c of None \<Rightarrow> True | Some b \<Rightarrow> b)))"

definition remote_workspaces_allowed :: "workspace_policy option \<Rightarrow> bool" where
  "remote_workspaces_allowed pol = (case pol of None \<Rightarrow> False | Some p \<Rightarrow> po_remote_workspaces p)"

section \<open>The image catalog\<close>

definition image_allowed :: "workspace_image \<Rightarrow> workspace_policy \<Rightarrow> identity \<Rightarrow> denial option" where
  "image_allowed img pol i = first_denial
     [deny_if (\<not> im_enabled img) (deny ReasonImageDisabled [im_name img]),
      deny_if (im_allowed_groups img \<noteq> [] \<and> \<not> list_ex (\<lambda>g. g \<in> set (id_groups i)) (im_allowed_groups img))
        (deny ReasonImageNotAllowed [im_name img, non_empty (id_username i) (id_owner i)]),
      deny_if (po_images pol \<noteq> [] \<and> im_name img \<notin> set (po_images pol))
        (deny ReasonImageNotAllowed [wp_meta_name pol, im_name img])]"

definition allowed_images :: "workspace_image list \<Rightarrow> workspace_policy \<Rightarrow> identity \<Rightarrow> workspace_image list" where
  "allowed_images catalog pol i = filter (\<lambda>img. image_allowed img pol i = None) catalog"

definition registry_prefix :: "workspace_image \<Rightarrow> string" where
  "registry_prefix img = trim_suffix (im_registry img) ''/''"

definition registry_matches :: "string \<Rightarrow> workspace_image \<Rightarrow> bool" where
  "registry_matches ref img \<longleftrightarrow> registry_prefix img \<noteq> [] \<and> has_prefix ref (registry_prefix img @ ''/'')"

fun longest_registry :: "string \<Rightarrow> workspace_image list \<Rightarrow> workspace_image option \<Rightarrow> workspace_image option" where
  "longest_registry ref [] best = best"
| "longest_registry ref (img # imgs) best =
     (if \<not> registry_matches ref img then longest_registry ref imgs best
      else longest_registry ref imgs
        (case best of
           None \<Rightarrow> Some img
         | Some b \<Rightarrow> if length (registry_prefix b) < length (registry_prefix img) then Some img else Some b))"

definition find_image :: "workspace_image list \<Rightarrow> string \<Rightarrow> workspace_image option" where
  "find_image catalog ref =
     (case find (\<lambda>img. im_image img \<noteq> [] \<and> im_image img = ref) catalog of
        Some img \<Rightarrow> Some img
      | None \<Rightarrow> longest_registry ref catalog None)"

text \<open>\<open>strings.LastIndex\<close> of a byte.\<close>

fun last_index :: "char \<Rightarrow> string \<Rightarrow> int" where
  "last_index c [] = - 1"
| "last_index c (x # xs) =
     (let r = last_index c xs in if 0 \<le> r then r + 1 else if x = c then 0 else - 1)"

definition image_tag :: "string \<Rightarrow> string" where
  "image_tag ref =
     (let r = takeWhile (\<lambda>c. c \<noteq> CHR ''@'') ref;
          slash = last_index CHR ''/'' r;
          colon = last_index CHR '':'' r
      in if slash < colon then drop (nat (colon + 1)) r else [])"

definition effective_tag_policy :: "workspace_image \<Rightarrow> string" where
  "effective_tag_policy img =
     (if im_tag_policy img = [] then (if im_image img \<noteq> [] then ''any'' else ''tag'') else im_tag_policy img)"

definition check_tag_discipline :: "workspace_image \<Rightarrow> string \<Rightarrow> denial option" where
  "check_tag_discipline img ref =
     (let pol = effective_tag_policy img; has_digest = contains ref ''@sha256:'' in
      if pol = ''any'' then None
      else if pol = ''digest'' then deny_if (\<not> has_digest) (deny ReasonImageTagPolicy [im_name img, ref])
      else if has_digest then None
      else deny_if (image_tag ref = [] \<or> image_tag ref = ''latest'') (deny ReasonImageTagPolicy [im_name img, ref]))"

definition check_protocol :: "workspace_template \<Rightarrow> workspace_image \<Rightarrow> denial option" where
  "check_protocol tpl img =
     (case find (\<lambda>p. wp_name p \<notin> set (im_protocols img)) (effective_protocols (tp_spec tpl)) of
        Some p \<Rightarrow> Some (deny ReasonProtocolMismatch [md_name (tp_meta tpl), wp_name p, im_name img])
      | None \<Rightarrow> None)"

section \<open>Loads\<close>

record load =
  ld_cpu :: quantity
  ld_memory :: quantity
  ld_storage :: quantity
  ld_paused :: bool
  ld_detached :: bool

definition pick :: "resource_requirements \<Rightarrow> string \<Rightarrow> quantity option" where
  "pick rr name = (case rr_limits rr name of Some q \<Rightarrow> Some q | None \<Rightarrow> rr_requests rr name)"

definition image_default :: "workspace_image option \<Rightarrow> (compute_size \<Rightarrow> quantity option) \<Rightarrow> quantity option" where
  "image_default img sel = (case img of
     None \<Rightarrow> None
   | Some im \<Rightarrow> (case im_resources im of
       None \<Rightarrow> None
     | Some ir \<Rightarrow> (case ir_default ir of None \<Rightarrow> None | Some d \<Rightarrow> sel d)))"

definition or_else :: "'a option \<Rightarrow> 'a option \<Rightarrow> 'a option" where
  "or_else a b = (case a of Some x \<Rightarrow> Some x | None \<Rightarrow> b)"

definition load_of :: "workspace \<Rightarrow> workspace_template \<Rightarrow> workspace_image option \<Rightarrow> load \<times> bool" where
  "load_of ws tpl img =
     (let rr = (case sp_resources (ws_spec ws) of Some r \<Rightarrow> r | None \<Rightarrow> ts_resources (tp_spec tpl));
          cpu = or_else (pick rr ''cpu'') (image_default img cs_cpu);
          mem = or_else (pick rr ''memory'') (image_default img cs_memory)
      in (\<lparr>ld_cpu = (case cpu of Some q \<Rightarrow> q | None \<Rightarrow> 0), ld_memory = (case mem of Some q \<Rightarrow> q | None \<Rightarrow> 0),
           ld_storage = (case ts_home_size (tp_spec tpl) of Some q \<Rightarrow> q | None \<Rightarrow> default_home_size),
           ld_paused = sp_paused (ws_spec ws), ld_detached = False\<rparr>,
          cpu \<noteq> None \<and> mem \<noteq> None))"

definition templates_by_name :: "workspace_template list \<Rightarrow> string \<rightharpoonup> workspace_template" where
  "templates_by_name items = foldl (\<lambda>m t. m(md_name (tp_meta t) \<mapsto> t)) Map.empty items"

definition counted_sibling :: "string \<Rightarrow> string \<Rightarrow> workspace \<Rightarrow> bool" where
  "counted_sibling owner exclude ws \<longleftrightarrow>
     md_name (ws_meta ws) \<noteq> exclude \<and> sp_owner (ws_spec ws) = owner \<and> \<not> md_deleted (ws_meta ws)"

definition sibling_load :: "(string \<rightharpoonup> workspace_template) \<Rightarrow> workspace_image list \<Rightarrow> workspace \<Rightarrow> load" where
  "sibling_load templates catalog ws =
     (case templates (sp_template_ref (ws_spec ws)) of
        None \<Rightarrow> \<lparr>ld_cpu = 0, ld_memory = 0, ld_storage = default_home_size, ld_paused = sp_paused (ws_spec ws),
                 ld_detached = False\<rparr>
      | Some tpl \<Rightarrow> fst (load_of ws tpl (find_image catalog (ts_image (tp_spec tpl)))))"

definition owner_loads ::
  "workspace list \<Rightarrow> string \<Rightarrow> string \<Rightarrow> (string \<rightharpoonup> workspace_template) \<Rightarrow> workspace_image list \<Rightarrow> load list" where
  "owner_loads workspaces owner exclude templates catalog =
     map (sibling_load templates catalog) (filter (counted_sibling owner exclude) workspaces)"

definition retained_load :: "quantity \<Rightarrow> load" where
  "retained_load sz = \<lparr>ld_cpu = 0, ld_memory = 0, ld_storage = sz, ld_paused = True, ld_detached = True\<rparr>"

text \<open>A volume claim: its metadata, its storage request, when it has one, and its storage class.\<close>

record volume_claim =
  vc_meta :: object_meta
  vc_storage :: "quantity option"
  vc_storage_class :: "string option"

definition retained_volume_loads :: "volume_claim list \<Rightarrow> string \<times> string \<Rightarrow> load list" where
  "retained_volume_loads pvcs exclude =
     map (\<lambda>v. retained_load (case vc_storage v of Some q \<Rightarrow> q | None \<Rightarrow> 0))
       (filter (\<lambda>v. \<not> md_deleted (vc_meta v) \<and> (md_namespace (vc_meta v), md_name (vc_meta v)) \<noteq> exclude) pvcs)"

section \<open>Quotas\<close>

definition exceeds :: "quantity \<Rightarrow> quantity option \<Rightarrow> bool" where
  "exceeds q cap = (case cap of None \<Rightarrow> False | Some c \<Rightarrow> c < q)"

definition below :: "quantity \<Rightarrow> quantity option \<Rightarrow> bool" where
  "below q m = (case m of None \<Rightarrow> False | Some c \<Rightarrow> q < c)"

definition with_some :: "'a option \<Rightarrow> ('a \<Rightarrow> bool) \<Rightarrow> bool" where
  "with_some x P = (case x of None \<Rightarrow> False | Some y \<Rightarrow> P y)"

lemma with_some_iff [simp]: "with_some x P \<longleftrightarrow> (\<exists>y. x = Some y \<and> P y)"
  by (cases x) (simp_all add: with_some_def)

lemma exceeds_iff: "exceeds q cap \<longleftrightarrow> (\<exists>c. cap = Some c \<and> c < q)"
  by (cases cap) (simp_all add: exceeds_def)

lemma below_iff: "below q m \<longleftrightarrow> (\<exists>c. m = Some c \<and> q < c)"
  by (cases m) (simp_all add: below_def)

text \<open>\<open>int32(n)+1 > *cap\<close>: the conversion and the addition wrap.\<close>

definition count_exceeds :: "nat \<Rightarrow> 32 word option \<Rightarrow> bool" where
  "count_exceeds n cap = with_some cap (\<lambda>c. sint c < sint ((word_of_nat n :: 32 word) + 1))"

definition caps_compute :: "workspace_image \<Rightarrow> workspace_policy \<Rightarrow> bool" where
  "caps_compute img pol \<longleftrightarrow>
     with_some (lm_per_workspace (po_limits pol)) (\<lambda>w. pw_cpu w \<noteq> None \<or> pw_memory w \<noteq> None) \<or>
     with_some (lm_aggregate (po_limits pol)) (\<lambda>a. ag_cpu a \<noteq> None \<or> ag_memory a \<noteq> None) \<or>
     with_some (im_resources img) (\<lambda>r. ir_max r \<noteq> None)"

definition workspace_count :: "load list \<Rightarrow> nat" where
  "workspace_count others = length (filter (\<lambda>o'. \<not> ld_detached o') others)"

definition running_count :: "load list \<Rightarrow> nat" where
  "running_count others = length (filter (\<lambda>o'. \<not> ld_detached o' \<and> \<not> ld_paused o') others)"

definition total_compute :: "(load \<Rightarrow> quantity) \<Rightarrow> load \<Rightarrow> load list \<Rightarrow> quantity" where
  "total_compute sel ld others =
     sum_list (map sel (filter (\<lambda>o'. \<not> ld_paused o') others)) + (if ld_paused ld then 0 else sel ld)"

definition total_storage :: "load \<Rightarrow> load list \<Rightarrow> quantity" where
  "total_storage ld others = sum_list (map ld_storage others) + ld_storage ld"

definition image_min :: "workspace_image \<Rightarrow> compute_size option" where
  "image_min img = (case im_resources img of None \<Rightarrow> None | Some r \<Rightarrow> ir_min r)"

definition image_max :: "workspace_image \<Rightarrow> compute_size option" where
  "image_max img = (case im_resources img of None \<Rightarrow> None | Some r \<Rightarrow> ir_max r)"

definition check_limits ::
  "load \<Rightarrow> bool \<Rightarrow> workspace_image \<Rightarrow> workspace_policy \<Rightarrow> load list \<Rightarrow> denial option" where
  "check_limits ld compute_known img pol others =
     (let lim = po_limits pol; pn = wp_meta_name pol; iname = im_name img in
      first_denial
       [deny_if (count_exceeds (workspace_count others) (lm_max_workspaces lim)) (deny ReasonQuotaExceeded [pn, ''workspaces'']),
        deny_if (\<not> ld_paused ld \<and> count_exceeds (running_count others) (lm_max_running lim)) (deny ReasonQuotaExceeded [pn, ''running'']),
        deny_if (caps_compute img pol \<and> \<not> compute_known) (deny ReasonResourcesInvalid [pn, iname]),
        deny_if (with_some (image_min img) (\<lambda>m. below (ld_cpu ld) (cs_cpu m))) (deny ReasonResourcesInvalid [iname, ''min cpu'']),
        deny_if (with_some (image_min img) (\<lambda>m. below (ld_memory ld) (cs_memory m))) (deny ReasonResourcesInvalid [iname, ''min memory'']),
        deny_if (with_some (image_max img) (\<lambda>m. exceeds (ld_cpu ld) (cs_cpu m))) (deny ReasonResourcesInvalid [iname, ''max cpu'']),
        deny_if (with_some (image_max img) (\<lambda>m. exceeds (ld_memory ld) (cs_memory m))) (deny ReasonResourcesInvalid [iname, ''max memory'']),
        deny_if (with_some (lm_per_workspace lim) (\<lambda>w. exceeds (ld_cpu ld) (pw_cpu w))) (deny ReasonResourcesInvalid [pn, ''cpu'']),
        deny_if (with_some (lm_per_workspace lim) (\<lambda>w. exceeds (ld_memory ld) (pw_memory w))) (deny ReasonResourcesInvalid [pn, ''memory'']),
        deny_if (with_some (lm_per_workspace lim) (\<lambda>w. exceeds (ld_storage ld) (pw_home w))) (deny ReasonResourcesInvalid [pn, ''home'']),
        deny_if (with_some (lm_aggregate lim) (\<lambda>a. exceeds (total_compute ld_cpu ld others) (ag_cpu a))) (deny ReasonQuotaExceeded [pn, ''cpu'']),
        deny_if (with_some (lm_aggregate lim) (\<lambda>a. exceeds (total_compute ld_memory ld others) (ag_memory a))) (deny ReasonQuotaExceeded [pn, ''memory'']),
        deny_if (with_some (lm_aggregate lim) (\<lambda>a. exceeds (total_storage ld others) (ag_storage a))) (deny ReasonQuotaExceeded [pn, ''storage''])])"

section \<open>Overrides\<close>

text \<open>
  The claims table and the reflection over it: one entry per field of the overrides block, in the
  order of the struct, with the right it consumes and whether the field is used.
\<close>

definition override_claims :: "(string \<times> overridable_field \<times> (workspace_overrides \<Rightarrow> bool)) list" where
  "override_claims =
     [(''env'', FieldEnv, \<lambda>o'. ov_env o' \<noteq> []),
      (''securityContext'', FieldSecurityContext, \<lambda>o'. ov_security_context o' \<noteq> None),
      (''podSecurityContext'', FieldPodSecurityContext, \<lambda>o'. ov_pod_security_context o' \<noteq> None),
      (''volumes'', FieldVolumes, \<lambda>o'. ov_volumes o' \<noteq> []),
      (''volumeMounts'', FieldVolumes, \<lambda>o'. ov_volume_mounts o' \<noteq> []),
      (''nodeSelector'', FieldNodeSelector, \<lambda>o'. ov_node_selector o' \<noteq> []),
      (''tolerations'', FieldTolerations, \<lambda>o'. ov_tolerations o' \<noteq> []),
      (''protocol'', FieldProtocol, \<lambda>o'. ov_protocol o' \<noteq> []),
      (''schedule'', FieldSchedule, \<lambda>o'. ov_schedule o' \<noteq> None),
      (''labels'', FieldMetadata, \<lambda>o'. ov_labels o' \<noteq> []),
      (''annotations'', FieldMetadata, \<lambda>o'. ov_annotations o' \<noteq> [])]"

definition overrides_usage :: "workspace_overrides option \<Rightarrow> overridable_field set" where
  "overrides_usage ov = (case ov of
     None \<Rightarrow> {}
   | Some x \<Rightarrow> set (map (fst \<circ> snd) (filter (\<lambda>c. snd (snd c) x) override_claims)))"

definition placement_values :: "workspace \<Rightarrow> workspace_template \<Rightarrow> identity \<Rightarrow> pattern_values" where
  "placement_values ws tpl i =
     \<lparr>pv_user = id_username i, pv_user_id = id_owner i, pv_workspace = sp_display_name (ws_spec ws),
      pv_template = md_name (tp_meta tpl), pv_os = ts_os (tp_spec tpl)\<rparr>"

definition resolved_default_namespace ::
  "text_lib \<Rightarrow> workspace \<Rightarrow> workspace_template \<Rightarrow> identity \<Rightarrow> string \<Rightarrow> name_error + string" where
  "resolved_default_namespace lib ws tpl i global_pattern =
     resolve_namespace lib (effective_pattern (placement_namespace_pattern (tp_spec tpl)) global_pattern)
       (placement_values ws tpl i)"

definition is_template_owner :: "workspace_template \<Rightarrow> identity \<Rightarrow> bool" where
  "is_template_owner tpl i = with_some (ts_overrides (tp_spec tpl)) (\<lambda>o'. to_owner o' \<noteq> [] \<and> to_owner o' = id_username i)"

definition policy_allows :: "workspace_policy option \<Rightarrow> overridable_field \<Rightarrow> bool" where
  "policy_allows pol f = (case pol of
     None \<Rightarrow> True
   | Some p \<Rightarrow> (case po_overrides p of None \<Rightarrow> True | Some fs \<Rightarrow> f \<in> set fs))"

definition check_field ::
  "workspace_template \<Rightarrow> workspace_policy option \<Rightarrow> identity \<Rightarrow> overridable_field \<Rightarrow> denial option" where
  "check_field tpl pol i f = first_denial
     [deny_if (\<not> is_template_owner tpl i \<and> \<not> field_overridable (tp_spec tpl) f) (deny ReasonOverrideNotAllowed [md_name (tp_meta tpl)]),
      deny_if (\<not> policy_allows pol f) (deny ReasonOverrideNotAllowed (case pol of None \<Rightarrow> [] | Some p \<Rightarrow> [wp_meta_name p]))]"

text \<open>
  A target namespace deviates when it is not the resolved default; a pattern that does not resolve
  gives the empty default, since the error is dropped.
\<close>

definition placement_deviates :: "text_lib \<Rightarrow> workspace \<Rightarrow> workspace_template \<Rightarrow> identity \<Rightarrow> string \<Rightarrow> bool" where
  "placement_deviates lib ws tpl i global_pattern \<longleftrightarrow>
     sp_target_namespace (ws_spec ws) \<noteq> [] \<and>
     sp_target_namespace (ws_spec ws) \<noteq>
       (case resolved_default_namespace lib ws tpl i global_pattern of Inl _ \<Rightarrow> [] | Inr d \<Rightarrow> d)"

text \<open>The loop over the used rights visits them in an order of the runtime's choosing: \<open>order\<close>.\<close>

definition check_overrides ::
  "text_lib \<Rightarrow> (overridable_field set \<Rightarrow> overridable_field list) \<Rightarrow> workspace \<Rightarrow> workspace_template
     \<Rightarrow> workspace_policy option \<Rightarrow> identity \<Rightarrow> string \<Rightarrow> denial option" where
  "check_overrides lib order ws tpl pol i global_pattern =
     (if ws_annotation ws annotation_role = ''admin'' then None
      else first_denial
        ([if placement_deviates lib ws tpl i global_pattern then check_field tpl pol i FieldPlacement else None,
          if sp_resources (ws_spec ws) \<noteq> None then check_field tpl pol i FieldResources else None]
         @ map (check_field tpl pol i) (order (overrides_usage (sp_overrides (ws_spec ws))))
         @ [case sp_overrides (ws_spec ws) of
              None \<Rightarrow> None
            | Some o' \<Rightarrow> deny_if (ov_protocol o' \<noteq> [] \<and> protocol_named (tp_spec tpl) (ov_protocol o') = None)
                (deny ReasonProtocolMismatch [ov_protocol o', md_name (tp_meta tpl)])]))"

section \<open>Facts\<close>

lemma matched_via_iff: "subjects_match ss i \<longleftrightarrow> ss = [] \<or> (\<exists>s \<in> set ss. subject_matches s i)"
  by (auto simp: subjects_match_def matched_via_def find_None_iff split: option.split dest: find_SomeD)

lemma check_field_None:
  "check_field tpl pol i f = None \<longleftrightarrow>
    (is_template_owner tpl i \<or> field_overridable (tp_spec tpl) f) \<and> policy_allows pol f"
  by (auto simp: check_field_def first_denial_None)

lemma image_allowed_None:
  "image_allowed img pol i = None \<longleftrightarrow> im_enabled img \<and>
     (im_allowed_groups img = [] \<or> set (im_allowed_groups img) \<inter> set (id_groups i) \<noteq> {}) \<and>
     (po_images pol = [] \<or> im_name img \<in> set (po_images pol))"
  by (auto simp: image_allowed_def first_denial_None list_ex_iff)

section \<open>Properties\<close>

lemma resolve_policy_cases:
  assumes "resolve_policy policies i = r"
  obtains (none) "r = Inl (deny ReasonNoPolicy (non_empty (id_username i) (id_owner i) # id_groups i))"
      "\<forall>p \<in> set policies. \<not> subjects_match (po_subjects p) i"
    | (some) p w ps where "r = Inr (p, w)"
      "sort_key policy_rank (filter (\<lambda>p. subjects_match (po_subjects p) i) policies) = p # ps"
proof (cases "sort_key policy_rank (filter (\<lambda>p. subjects_match (po_subjects p) i) policies)")
  case Nil
  then have "set (filter (\<lambda>p. subjects_match (po_subjects p) i) policies) = {}"
    by (metis empty_set set_sort)
  with Nil assms none show thesis by (auto simp: resolve_policy_def)
next
  case (Cons p ps)
  with assms some show thesis by (cases ps) (auto simp: resolve_policy_def)
qed

text \<open>The governing policy is a matching one of the highest priority, by name among those; without a matching policy
  the identity is denied, and only then.\<close>

lemma resolved_policy_is_highest:
  assumes "resolve_policy policies i = r"
  shows "case r of
      Inl d \<Rightarrow> dn_reason d = ReasonNoPolicy \<and> (\<forall>q \<in> set policies. \<not> subjects_match (po_subjects q) i)
    | Inr (p, _) \<Rightarrow> p \<in> set policies \<and> subjects_match (po_subjects p) i \<and>
        (\<forall>q \<in> set policies. subjects_match (po_subjects q) i \<longrightarrow>
          sint (po_priority q) < sint (po_priority p) \<or>
          po_priority q = po_priority p \<and> wp_meta_name p \<le> wp_meta_name q)"
  using assms
proof (cases rule: resolve_policy_cases)
  case none
  then show ?thesis by (simp add: deny_def)
next
  case (some p w ps)
  let ?m = "filter (\<lambda>p. subjects_match (po_subjects p) i) policies"
  have "set (p # ps) = set ?m" using some(2) by (metis set_sort)
  moreover have "sorted (map policy_rank (p # ps))" using some(2) by (metis sorted_sort_key)
  ultimately have low: "policy_rank p \<le> policy_rank q" if "q \<in> set policies" "subjects_match (po_subjects q) i" for q
    using that by force
  have eq: "x = y" if "sint x = sint y" for x y :: "32 word" using that by (rule signed_word_eqI)
  from some(1) \<open>set (p # ps) = set ?m\<close> show ?thesis
    using low by (force simp: policy_rank_def less_eq_prod_def dest: eq)
qed

text \<open>Who a policy speaks of, and which of two policies takes precedence, in terms of their fields alone.\<close>

definition speaks_of :: "workspace_policy \<Rightarrow> identity \<Rightarrow> bool" where
  "speaks_of pol i \<longleftrightarrow> po_subjects pol = [] \<or> (\<exists>s \<in> set (po_subjects pol).
     ps_kind s = ''User'' \<and> (ps_name s = id_owner i \<or> id_username i \<noteq> [] \<and> ps_name s = id_username i) \<or>
     ps_kind s = ''Group'' \<and> ps_name s \<in> set (id_groups i))"

definition takes_precedence :: "workspace_policy \<Rightarrow> workspace_policy \<Rightarrow> bool" where
  "takes_precedence pol q \<longleftrightarrow> sint (po_priority q) < sint (po_priority pol) \<or>
     po_priority q = po_priority pol \<and> wp_meta_name pol \<le> wp_meta_name q"

definition governs :: "workspace_policy \<Rightarrow> workspace_policy list \<Rightarrow> identity \<Rightarrow> bool" where
  "governs pol policies i \<longleftrightarrow> pol \<in> set policies \<and> speaks_of pol i \<and>
     (\<forall>q \<in> set policies. speaks_of q i \<longrightarrow> takes_precedence pol q)"

lemma subject_matches_iff: "subject_matches s i \<longleftrightarrow>
    ps_kind s = ''User'' \<and> (ps_name s = id_owner i \<or> id_username i \<noteq> [] \<and> ps_name s = id_username i) \<or>
    ps_kind s = ''Group'' \<and> ps_name s \<in> set (id_groups i)"
  by (auto simp: subject_matches_def)

lemma speaks_of_iff: "subjects_match (po_subjects pol) i \<longleftrightarrow> speaks_of pol i"
  by (simp only: matched_via_iff speaks_of_def subject_matches_iff)

lemma resolve_policy_governs: "resolve_policy policies i = Inr (p, w) \<Longrightarrow> governs p policies i"
  using resolved_policy_is_highest [of policies i "Inr (p, w)"]
  by (simp add: governs_def takes_precedence_def speaks_of_iff)

lemma resolve_policy_none: "resolve_policy policies i = Inl d \<Longrightarrow> q \<in> set policies \<Longrightarrow> \<not> speaks_of q i"
  using resolved_policy_is_highest [of policies i "Inl d"] by (simp add: speaks_of_iff)

lemma filter_single: "distinct xs \<Longrightarrow> k \<in> set xs \<Longrightarrow> filter (\<lambda>x. x = k) xs = [k]"
  by (induction xs) (auto simp: filter_empty_conv)

text \<open>Resolution does not depend on the order in which the policies are listed, policies having distinct names.\<close>

lemma resolution_order_independent:
  assumes "mset policies = mset policies'" "distinct (map wp_meta_name policies)"
  shows "resolve_policy policies i = resolve_policy policies' i"
proof -
  let ?f = "filter (\<lambda>p. subjects_match (po_subjects p) i)"
  have m: "mset (?f policies) = mset (?f policies')" using assms(1) by simp
  have inj: "inj_on policy_rank (set (?f policies))"
    using assms(2) by (intro inj_onI) (auto simp: policy_rank_def distinct_map inj_on_def)
  have "sort_key policy_rank (?f policies) = sort_key policy_rank (?f policies')"
  proof (rule properties_for_sort_key)
    show "mset (sort_key policy_rank (?f policies')) = mset (?f policies)" using m by simp
    have d: "distinct (?f policies)" using assms(2) by (simp add: distinct_map)
    have sm: "set (?f policies') = set (?f policies)" using m by (metis mset_eq_setD)
    have d': "distinct (sort_key policy_rank (?f policies'))"
      using d m mset_eq_imp_distinct_iff [OF m] by simp
    fix k assume "k \<in> set (sort_key policy_rank (?f policies'))"
    then have "k \<in> set (?f policies')" by simp
    then have k: "k \<in> set (?f policies)" unfolding sm .
    have "filter (\<lambda>x. policy_rank k = policy_rank x) xs = [k]" if "distinct xs" "set xs = set (?f policies)" for xs
    proof -
      have "filter (\<lambda>x. policy_rank k = policy_rank x) xs = filter (\<lambda>x. x = k) xs"
        using inj that(2) k by (intro filter_cong) (auto dest: inj_onD)
      also have "\<dots> = [k]" using that(1) k that(2) by (intro filter_single) simp_all
      finally show ?thesis .
    qed
    from this [OF d] this [of "sort_key policy_rank (?f policies')"] d' sm
    show "filter (\<lambda>x. policy_rank k = policy_rank x) (sort_key policy_rank (?f policies')) =
        filter (\<lambda>x. policy_rank k = policy_rank x) (?f policies)"
      by (simp only: set_sort)
  qed simp
  then show ?thesis by (simp add: resolve_policy_def)
qed

lemma longest_registry_props:
  "longest_registry ref imgs best = Some b \<Longrightarrow>
    (best = Some b \<or> b \<in> set imgs \<and> registry_matches ref b) \<and>
    (\<forall>img \<in> set imgs. registry_matches ref img \<longrightarrow> length (registry_prefix img) \<le> length (registry_prefix b)) \<and>
    (\<forall>x. best = Some x \<longrightarrow> length (registry_prefix x) \<le> length (registry_prefix b))"
  "longest_registry ref imgs best = None \<longleftrightarrow> best = None \<and> (\<forall>img \<in> set imgs. \<not> registry_matches ref img)"
proof (induction ref imgs best rule: longest_registry.induct)
  case (2 ref img imgs best)
  let ?best = "case best of None \<Rightarrow> Some img
    | Some b \<Rightarrow> if length (registry_prefix b) < length (registry_prefix img) then Some img else Some b"
  {
    case 1
    show ?case
    proof (cases "registry_matches ref img")
      case True
      with 1 2(3) have "(?best = Some b \<or> b \<in> set imgs \<and> registry_matches ref b) \<and>
        (\<forall>img \<in> set imgs. registry_matches ref img \<longrightarrow> length (registry_prefix img) \<le> length (registry_prefix b)) \<and>
        (\<forall>x. ?best = Some x \<longrightarrow> length (registry_prefix x) \<le> length (registry_prefix b))" by simp
      with True show ?thesis by (cases best) (auto split: if_splits)
    qed (use 1 2(1) in auto)
  next
    case 2
    show ?case
    proof (cases "registry_matches ref img")
      case True
      with "2.IH"(4) show ?thesis by (cases best) simp_all
    qed (use "2.IH"(2) in simp)
  }
qed simp_all

text \<open>An image reference is approved by an exact entry, else by the registry entry with the longest prefix that ends at
  a path boundary of the reference, and it is unapproved only when no entry of either kind matches.\<close>

lemma image_approval:
  shows "(find_image catalog ref = Some img \<longrightarrow> img \<in> set catalog \<and>
      (im_image img \<noteq> [] \<and> im_image img = ref \<or>
       (\<forall>x \<in> set catalog. im_image x = [] \<or> im_image x \<noteq> ref) \<and> registry_matches ref img \<and>
       (\<forall>x \<in> set catalog. registry_matches ref x \<longrightarrow> length (registry_prefix x) \<le> length (registry_prefix img)))) \<and>
    (find_image catalog ref = None \<longleftrightarrow>
      (\<forall>x \<in> set catalog. (im_image x = [] \<or> im_image x \<noteq> ref) \<and> \<not> registry_matches ref x))"
proof (cases "find (\<lambda>img. im_image img \<noteq> [] \<and> im_image img = ref) catalog")
  case None
  then have "\<forall>x \<in> set catalog. im_image x = [] \<or> im_image x \<noteq> ref" by (auto simp: find_None_iff)
  with None longest_registry_props [of ref catalog None] show ?thesis by (auto simp: find_image_def)
next
  case (Some y)
  from find_SomeD [OF this] Some show ?thesis by (auto simp: find_image_def)
qed

lemma last_index_absent: "c \<notin> set s \<Longrightarrow> last_index c s = - 1"
  by (induction s) auto

lemma last_index_lt: "last_index c s < int (length s)"
  by (induction s) (auto simp: Let_def)

lemma last_index_last: "c \<notin> set b \<Longrightarrow> last_index c (a @ c # b) = int (length a)"
proof (induction a)
  case Nil
  then show ?case by (simp add: last_index_absent)
qed (simp add: Let_def)

text \<open>The tag of a reference is the text after its last colon when that colon follows the last slash, so a registry
  port is not a tag and a digest after the tag does not hide it; without one the reference is tag-less and, under
  tag discipline without a digest, refused as a moving one.\<close>

lemma tag_read:
  assumes "CHR '':'' \<notin> set tag" "CHR ''/'' \<notin> set tag" "CHR ''@'' \<notin> set repo" "CHR ''@'' \<notin> set tag"
    "digest = [] \<or> hd digest = CHR ''@''"
  shows "image_tag (repo @ '':'' @ tag @ digest) = tag \<and>
    (CHR '':'' \<notin> set tag \<longrightarrow> image_tag (repo @ ''/'' @ tag @ digest) = []) \<and>
    (effective_tag_policy img = ''tag'' \<and> \<not> contains (repo @ ''/'' @ tag @ digest) ''@sha256:'' \<longrightarrow>
      check_tag_discipline img (repo @ ''/'' @ tag @ digest) \<noteq> None)"
proof -
  have tw: "takeWhile (\<lambda>c. c \<noteq> CHR ''@'') (w @ digest) = w" if "CHR ''@'' \<notin> set w" for w
    using that assms(5) by (cases digest) (auto simp: takeWhile_append takeWhile_eq_all_conv [THEN iffD2])
  have t1: "takeWhile (\<lambda>c. c \<noteq> CHR ''@'') (repo @ '':'' @ tag @ digest) = repo @ CHR '':'' # tag"
    using tw [of "repo @ CHR '':'' # tag"] assms(3,4) by simp
  have t2: "takeWhile (\<lambda>c. c \<noteq> CHR ''@'') (repo @ ''/'' @ tag @ digest) = repo @ CHR ''/'' # tag"
    using tw [of "repo @ CHR ''/'' # tag"] assms(3,4) by simp
  have absent: "last_index c (w @ v) = last_index c w" if "c \<notin> set v" for c w v
    using that by (induction w) (simp_all add: last_index_absent Let_def)
  have s1: "last_index CHR ''/'' (repo @ CHR '':'' # tag) < int (length repo)"
    using absent [of "CHR ''/''" "CHR '':'' # tag" repo] assms(2) last_index_lt [of "CHR ''/''" repo] by simp
  have c2: "last_index CHR '':'' (repo @ CHR ''/'' # tag) < int (length repo)"
    using absent [of "CHR '':''" "CHR ''/'' # tag" repo] assms(1) last_index_lt [of "CHR '':''" repo] by simp
  have one: "image_tag (repo @ '':'' @ tag @ digest) = tag"
    unfolding image_tag_def Let_def t1 using s1 assms(1) by (simp add: last_index_last nat_add_distrib)
  have two: "image_tag (repo @ ''/'' @ tag @ digest) = []"
    unfolding image_tag_def Let_def t2 using c2 assms(2) by (simp add: last_index_last)
  from one two show ?thesis by (simp add: check_tag_discipline_def Let_def)
qed

subsection \<open>Quotas\<close>

lemma count_exceeds_iff:
  assumes "int n < 2147483647"
  shows "count_exceeds n cap \<longleftrightarrow> (\<exists>c. cap = Some c \<and> sint c < int n + 1)"
proof -
  have "(word_of_nat n :: 32 word) + 1 = word_of_int (int n + 1)" by simp
  moreover have "sint (word_of_int (int n + 1) :: 32 word) = int n + 1"
    unfolding int_word_sint using assms by simp
  ultimately show ?thesis by (simp add: count_exceeds_def)
qed

lemma workspace_count_le: "workspace_count ls \<le> length ls" "running_count ls \<le> workspace_count ls"
proof -
  have "running_count ls = length (filter (\<lambda>o'. \<not> ld_paused o') (filter (\<lambda>o'. \<not> ld_detached o') ls))"
    by (simp add: running_count_def conj_commute)
  then show "running_count ls \<le> workspace_count ls" unfolding workspace_count_def by (simp only: length_filter_le)
qed (simp add: workspace_count_def)

text \<open>What a policy promises of a workspace and its owner's others, in whole numbers.\<close>

definition at_most :: "'m option \<Rightarrow> ('m \<Rightarrow> quantity option) \<Rightarrow> quantity \<Rightarrow> bool" where
  "at_most m sel q \<longleftrightarrow> (\<forall>x c. m = Some x \<longrightarrow> sel x = Some c \<longrightarrow> q \<le> c)"

definition at_least :: "'m option \<Rightarrow> ('m \<Rightarrow> quantity option) \<Rightarrow> quantity \<Rightarrow> bool" where
  "at_least m sel q \<longleftrightarrow> (\<forall>x c. m = Some x \<longrightarrow> sel x = Some c \<longrightarrow> c \<le> q)"

definition fits_bounds :: "load \<Rightarrow> workspace_image \<Rightarrow> workspace_policy \<Rightarrow> bool" where
  "fits_bounds ld img pol \<longleftrightarrow>
     at_least (image_min img) cs_cpu (ld_cpu ld) \<and> at_least (image_min img) cs_memory (ld_memory ld) \<and>
     at_most (image_max img) cs_cpu (ld_cpu ld) \<and> at_most (image_max img) cs_memory (ld_memory ld) \<and>
     at_most (lm_per_workspace (po_limits pol)) pw_cpu (ld_cpu ld) \<and>
     at_most (lm_per_workspace (po_limits pol)) pw_memory (ld_memory ld) \<and>
     at_most (lm_per_workspace (po_limits pol)) pw_home (ld_storage ld)"

definition fits_totals :: "load \<Rightarrow> workspace_policy \<Rightarrow> load list \<Rightarrow> bool" where
  "fits_totals ld pol others \<longleftrightarrow>
     (\<forall>c. lm_max_workspaces (po_limits pol) = Some c \<longrightarrow> int (workspace_count others) + 1 \<le> sint c) \<and>
     (ld_paused ld \<or> (\<forall>c. lm_max_running (po_limits pol) = Some c \<longrightarrow> int (running_count others) + 1 \<le> sint c)) \<and>
     at_most (lm_aggregate (po_limits pol)) ag_cpu (total_compute ld_cpu ld others) \<and>
     at_most (lm_aggregate (po_limits pol)) ag_memory (total_compute ld_memory ld others) \<and>
     at_most (lm_aggregate (po_limits pol)) ag_storage (total_storage ld others)"

lemma not_exceeds: "\<not> with_some m (\<lambda>x. exceeds q (sel x)) \<longleftrightarrow> at_most m sel q"
  by (auto simp: at_most_def exceeds_iff not_less)

lemma not_below: "\<not> with_some m (\<lambda>x. below q (sel x)) \<longleftrightarrow> at_least m sel q"
  by (auto simp: at_least_def below_iff not_less)

lemma not_count_exceeds:
  "int n < 2147483647 \<Longrightarrow> \<not> count_exceeds n x \<longleftrightarrow> (\<forall>c. x = Some c \<longrightarrow> int n + 1 \<le> sint c)"
  by (auto simp: count_exceeds_iff)

lemma check_limits_None:
  assumes "int (length others) < 2147483647"
  shows "check_limits ld known img pol others = None \<longleftrightarrow>
    fits_totals ld pol others \<and> fits_bounds ld img pol \<and> (caps_compute img pol \<longrightarrow> known)"
proof -
  have c: "int (workspace_count others) < 2147483647" "int (running_count others) < 2147483647"
    using assms workspace_count_le [of others] by linarith+
  show ?thesis
    unfolding check_limits_def Let_def first_denial_None fits_totals_def fits_bounds_def
    by (simp only: list.set ball_simps deny_if_None simp_thms not_exceeds not_below not_count_exceeds [OF c(1)]
        not_count_exceeds [OF c(2)] de_Morgan_conj not_not) blast
qed

text \<open>With fewer than 2^31 - 1 other workspaces, a workspace passes the quota check exactly when its policy and image
  bounds hold for it alone and, counted with the owner's others, for their number and their total compute and storage;
  and where anything caps compute, only when its compute is known.\<close>

lemma quota_check_exact:
  assumes "int (length others) < 2147483647"
  shows "check_limits ld known img pol others = None \<longleftrightarrow>
    fits_totals ld pol others \<and> fits_bounds ld img pol \<and> (caps_compute img pol \<longrightarrow> known)"
  by (rule check_limits_None [OF assms])

text \<open>
  An owner's loads under a fixed policy: a workspace is admitted, paused, resumed, deleted with its
  volume, or deleted leaving a retained volume; the transitions into compute and storage are checked.
\<close>

inductive ledger :: "workspace_policy \<Rightarrow> load list \<Rightarrow> bool" for pol where
  empty: "ledger pol []"
| admit: "ledger pol ls \<Longrightarrow> int (length ls) < 2147483647 \<Longrightarrow> check_limits ld known img pol ls = None \<Longrightarrow>
    \<not> ld_detached ld \<Longrightarrow> 0 \<le> ld_cpu ld \<Longrightarrow> 0 \<le> ld_memory ld \<Longrightarrow> 0 \<le> ld_storage ld \<Longrightarrow> ledger pol (ld # ls)"
| pause: "ledger pol (a @ ld # b) \<Longrightarrow> ledger pol (a @ ld\<lparr>ld_paused := True\<rparr> # b)"
| resume: "ledger pol (a @ ld # b) \<Longrightarrow> int (length (a @ b)) < 2147483647 \<Longrightarrow> \<not> ld_detached ld \<Longrightarrow>
    check_limits (ld\<lparr>ld_paused := False\<rparr>) known img pol (a @ b) = None \<Longrightarrow> ledger pol (a @ ld\<lparr>ld_paused := False\<rparr> # b)"
| remove: "ledger pol (a @ ld # b) \<Longrightarrow> ledger pol (a @ b)"
| retain: "ledger pol (a @ ld # b) \<Longrightarrow> ledger pol (a @ retained_load (ld_storage ld) # b)"

definition compute_of :: "(load \<Rightarrow> quantity) \<Rightarrow> load list \<Rightarrow> quantity" where
  "compute_of sel ls = sum_list (map (\<lambda>l. if ld_paused l then 0 else sel l) ls)"

definition storage_of :: "load list \<Rightarrow> quantity" where
  "storage_of ls = sum_list (map ld_storage ls)"

lemma compute_of_simps [simp]:
  "compute_of sel [] = 0"
  "compute_of sel (l # ls) = (if ld_paused l then 0 else sel l) + compute_of sel ls"
  "compute_of sel (a @ b) = compute_of sel a + compute_of sel b"
  "storage_of [] = 0" "storage_of (l # ls) = ld_storage l + storage_of ls"
  "storage_of (a @ b) = storage_of a + storage_of b"
  by (simp_all add: compute_of_def storage_of_def)

lemma count_simps [simp]:
  "workspace_count [] = 0" "workspace_count (l # ls) = (if ld_detached l then 0 else 1) + workspace_count ls"
  "workspace_count (a @ b) = workspace_count a + workspace_count b"
  "running_count [] = 0" "running_count (l # ls) = (if ld_detached l \<or> ld_paused l then 0 else 1) + running_count ls"
  "running_count (a @ b) = running_count a + running_count b"
  by (simp_all add: workspace_count_def running_count_def)

lemma total_compute_of: "total_compute sel ld others = compute_of sel others + (if ld_paused ld then 0 else sel ld)"
  by (induction others) (simp_all add: total_compute_def)

lemma total_storage_of: "total_storage ld others = storage_of others + ld_storage ld"
  by (simp add: total_storage_def storage_of_def)

lemma retained_load_simps [simp]:
  "ld_storage (retained_load q) = q" "ld_paused (retained_load q)" "ld_detached (retained_load q)"
  "ld_cpu (retained_load q) = 0" "ld_memory (retained_load q) = 0"
  by (simp_all add: retained_load_def)

definition nonneg_load :: "load \<Rightarrow> bool" where
  "nonneg_load l \<longleftrightarrow> 0 \<le> ld_cpu l \<and> 0 \<le> ld_memory l \<and> 0 \<le> ld_storage l"

definition within_caps :: "workspace_policy \<Rightarrow> load list \<Rightarrow> bool" where
  "within_caps pol ls \<longleftrightarrow>
     (\<forall>c. lm_max_workspaces (po_limits pol) = Some c \<longrightarrow> int (workspace_count ls) \<le> max 0 (sint c)) \<and>
     (\<forall>c. lm_max_running (po_limits pol) = Some c \<longrightarrow> int (running_count ls) \<le> max 0 (sint c)) \<and>
     (\<forall>a q. lm_aggregate (po_limits pol) = Some a \<longrightarrow>
        (ag_cpu a = Some q \<longrightarrow> compute_of ld_cpu ls \<le> max 0 q) \<and>
        (ag_memory a = Some q \<longrightarrow> compute_of ld_memory ls \<le> max 0 q) \<and>
        (ag_storage a = Some q \<longrightarrow> storage_of ls \<le> max 0 q))"

lemma within_caps_less:
  assumes "within_caps pol ls" "workspace_count ls' \<le> workspace_count ls" "running_count ls' \<le> running_count ls"
    "compute_of ld_cpu ls' \<le> compute_of ld_cpu ls" "compute_of ld_memory ls' \<le> compute_of ld_memory ls"
    "storage_of ls' \<le> storage_of ls"
  shows "within_caps pol ls'"
  using assms unfolding within_caps_def by (meson of_nat_mono order_trans)

lemma within_caps_checked:
  assumes "within_caps pol others" "fits_totals ld pol others" "\<not> ld_detached ld"
    "workspace_count ls = workspace_count others + 1" "running_count ls = running_count others + (if ld_paused ld then 0 else 1)"
    "compute_of ld_cpu ls = total_compute ld_cpu ld others" "compute_of ld_memory ls = total_compute ld_memory ld others"
    "storage_of ls = total_storage ld others"
  shows "within_caps pol ls"
proof -
  have m: "at_most m sel x \<Longrightarrow> m = Some a \<Longrightarrow> sel a = Some q \<Longrightarrow> x \<le> max 0 q" for m :: "aggregate_caps option" and sel x a q
    by (auto simp: at_most_def)
  note t = assms(2) [unfolded fits_totals_def]
  show ?thesis
    unfolding within_caps_def
  proof (intro conjI allI impI)
    fix c assume c: "lm_max_workspaces (po_limits pol) = Some c"
    then have "int (workspace_count others) + 1 \<le> sint c" using t by blast
    then show "int (workspace_count ls) \<le> max 0 (sint c)" using assms(4) by simp
  next
    fix c assume c: "lm_max_running (po_limits pol) = Some c"
    show "int (running_count ls) \<le> max 0 (sint c)"
    proof (cases "ld_paused ld")
      case True
      then show ?thesis using assms(1,5) c by (simp add: within_caps_def)
    next
      case False
      then have "int (running_count others) + 1 \<le> sint c" using t c by blast
      then show ?thesis using assms(5) False by simp
    qed
  next
    fix a q assume a: "lm_aggregate (po_limits pol) = Some a"
    show "ag_cpu a = Some q \<Longrightarrow> compute_of ld_cpu ls \<le> max 0 q" unfolding assms(6) using t a m by blast
    show "ag_memory a = Some q \<Longrightarrow> compute_of ld_memory ls \<le> max 0 q" unfolding assms(7) using t a m by blast
    show "ag_storage a = Some q \<Longrightarrow> storage_of ls \<le> max 0 q" unfolding assms(8) using t a m by blast
  qed
qed

lemma ledger_within_caps: "ledger pol ls \<Longrightarrow> within_caps pol ls \<and> list_all nonneg_load ls"
proof (induction rule: ledger.induct)
  case empty
  then show ?case by (simp add: within_caps_def)
next
  case (admit ls ld known img)
  have "fits_totals ld pol ls" using iffD1 [OF check_limits_None [OF admit.hyps(2)] admit.hyps(3)] by blast
  then have "within_caps pol (ld # ls)"
    by - (rule within_caps_checked [of pol ls ld], use admit.IH admit.hyps(4) in \<open>simp_all add: total_compute_of total_storage_of\<close>)
  with admit.IH admit.hyps(5-7) show ?case by (simp add: nonneg_load_def)
next
  case (pause a ld b)
  then have n: "nonneg_load ld" by simp
  have "within_caps pol (a @ ld\<lparr>ld_paused := True\<rparr> # b)"
    by (rule within_caps_less [of pol "a @ ld # b"]) (use pause n in \<open>simp_all add: nonneg_load_def\<close>)
  with pause show ?case by (simp add: nonneg_load_def)
next
  case (resume a ld b known img)
  let ?ld = "ld\<lparr>ld_paused := False\<rparr>"
  from resume.IH have n: "nonneg_load ld" by simp
  have f: "fits_totals ?ld pol (a @ b)" using iffD1 [OF check_limits_None [OF resume.hyps(2)] resume.hyps(4)] by blast
  have "within_caps pol (a @ b)"
    by (rule within_caps_less [of pol "a @ ld # b"]) (use resume.IH n in \<open>simp_all add: nonneg_load_def\<close>)
  then have "within_caps pol (a @ ?ld # b)"
    using f by - (rule within_caps_checked [of pol "a @ b" ?ld], use resume.hyps(3) in \<open>simp_all add: total_compute_of total_storage_of\<close>)
  with resume.IH show ?case by (simp add: nonneg_load_def)
next
  case (remove a ld b)
  then have n: "nonneg_load ld" by simp
  have "within_caps pol (a @ b)"
    by (rule within_caps_less [of pol "a @ ld # b"]) (use remove n in \<open>simp_all add: nonneg_load_def\<close>)
  with remove show ?case by simp
next
  case (retain a ld b)
  then have n: "nonneg_load ld" by simp
  have "within_caps pol (a @ retained_load (ld_storage ld) # b)"
    by (rule within_caps_less [of pol "a @ ld # b"]) (use retain n in \<open>simp_all add: nonneg_load_def\<close>)
  with retain show ?case by (simp add: nonneg_load_def)
qed


subsection \<open>Overrides\<close>

definition rights_used ::
  "text_lib \<Rightarrow> workspace \<Rightarrow> workspace_template \<Rightarrow> identity \<Rightarrow> string \<Rightarrow> overridable_field set" where
  "rights_used lib ws tpl i global_pattern =
     (if placement_deviates lib ws tpl i global_pattern then {FieldPlacement} else {}) \<union>
     (if sp_resources (ws_spec ws) \<noteq> None then {FieldResources} else {}) \<union>
     overrides_usage (sp_overrides (ws_spec ws))"

definition entitled :: "text_lib \<Rightarrow> workspace \<Rightarrow> workspace_template \<Rightarrow> workspace_policy option \<Rightarrow> identity \<Rightarrow> string \<Rightarrow> bool" where
  "entitled lib ws tpl pol i gp \<longleftrightarrow>
     (\<forall>f \<in> rights_used lib ws tpl i gp.
        (is_template_owner tpl i \<or> field_overridable (tp_spec tpl) f) \<and> policy_allows pol f) \<and>
     (\<forall>o'. sp_overrides (ws_spec ws) = Some o' \<longrightarrow> ov_protocol o' \<noteq> [] \<longrightarrow>
        protocol_named (tp_spec tpl) (ov_protocol o') \<noteq> None)"

lemma check_overrides_None:
  assumes "\<And>S. set (order S) = S"
  shows "check_overrides lib order ws tpl pol i gp = None \<longleftrightarrow>
    ws_annotation ws annotation_role = ''admin'' \<or> entitled lib ws tpl pol i gp"
proof (cases "ws_annotation ws annotation_role = ''admin''")
  case True
  then show ?thesis by (simp add: check_overrides_def)
next
  case False
  have p: "(case sp_overrides (ws_spec ws) of None \<Rightarrow> None
      | Some o' \<Rightarrow> deny_if (ov_protocol o' \<noteq> [] \<and> protocol_named (tp_spec tpl) (ov_protocol o') = None)
          (deny ReasonProtocolMismatch [ov_protocol o', md_name (tp_meta tpl)])) = None \<longleftrightarrow>
      (\<forall>o'. sp_overrides (ws_spec ws) = Some o' \<longrightarrow> ov_protocol o' \<noteq> [] \<longrightarrow>
        protocol_named (tp_spec tpl) (ov_protocol o') \<noteq> None)"
    by (cases "sp_overrides (ws_spec ws)") auto
  have i: "(if b then check_field tpl pol i f else None) = None \<longleftrightarrow> (b \<longrightarrow> check_field tpl pol i f = None)" for b f
    by simp
  show ?thesis
    unfolding check_overrides_def entitled_def if_not_P [OF False] first_denial_None set_append set_map assms list.set ball_Un
      ball_simps p i check_field_None rights_used_def
    using False by auto
qed


text \<open>No field of the overrides block escapes the rights: a block that consumes no right is the empty block.\<close>

lemma overrides_all_governed:
  "overrides_usage (Some ov) = {} \<longleftrightarrow> ov = \<lparr>ov_env = [], ov_security_context = None, ov_pod_security_context = None,
     ov_volumes = [], ov_volume_mounts = [], ov_node_selector = [], ov_tolerations = [], ov_protocol = [],
     ov_schedule = None, ov_labels = [], ov_annotations = []\<rparr>"
  by (cases ov) (simp add: overrides_usage_def override_claims_def)

section \<open>A small company\<close>

definition demo_identity :: identity where
  "demo_identity = \<lparr>id_owner = ''u1'', id_username = ''zoe'', id_groups = [''dev'']\<rparr>"

definition demo_limits :: policy_limits where
  "demo_limits = \<lparr>lm_max_workspaces = Some 2, lm_max_running = Some 1, lm_per_workspace = None,
     lm_aggregate = Some \<lparr>ag_cpu = Some 4, ag_memory = None, ag_storage = Some 30\<rparr>, lm_defaults = None\<rparr>"

definition demo_policy :: "string \<Rightarrow> 32 word \<Rightarrow> policy_subject list \<Rightarrow> workspace_policy" where
  "demo_policy n pr ss = \<lparr>wp_meta_name = n, po_priority = pr, po_subjects = ss, po_images = [], po_limits = demo_limits,
     po_lifecycle = None, po_clipboard = None, po_overrides = Some [FieldEnv], po_remote_workspaces = False\<rparr>"

definition demo_image :: "string \<Rightarrow> string \<Rightarrow> workspace_image" where
  "demo_image im reg = \<lparr>im_name = ''img'', im_display_name = [], im_description = [], im_image = im, im_registry = reg, im_tag_policy = '''', im_protocols = [''vnc''],
     im_architectures = [], im_enabled = True, im_allowed_groups = [], im_image_pull_secret_ref = [],
     im_resources = None, im_catalog = None\<rparr>"

definition demo_load :: load where
  "demo_load = \<lparr>ld_cpu = 2, ld_memory = 1, ld_storage = 10, ld_paused = False, ld_detached = False\<rparr>"

theorem resolved_policy_is_highest_witness:
  "\<exists>p w. resolve_policy [demo_policy ''default'' 0 [], demo_policy ''devs'' 5 [\<lparr>ps_kind = ''Group'', ps_name = ''dev''\<rparr>]] demo_identity
     = Inr (p, w) \<and> 5 \<le> sint (po_priority p)"
proof -
  let ?ps = "[demo_policy ''default'' 0 [], demo_policy ''devs'' 5 [\<lparr>ps_kind = ''Group'', ps_name = ''dev''\<rparr>]]"
  have m: "subjects_match (po_subjects q) demo_identity" if "q \<in> set ?ps" for q
    using that by (auto simp: matched_via_iff demo_policy_def subject_matches_def demo_identity_def)
  from resolved_policy_is_highest [OF refl, of ?ps demo_identity] obtain p w where
    r: "resolve_policy ?ps demo_identity = Inr (p, w)"
    and h: "\<forall>q \<in> set ?ps. subjects_match (po_subjects q) demo_identity \<longrightarrow>
      sint (po_priority q) < sint (po_priority p) \<or> po_priority q = po_priority p \<and> wp_meta_name p \<le> wp_meta_name q"
    using m by (cases "resolve_policy ?ps demo_identity") fastforce+
  from h m have "5 \<le> sint (po_priority p)" by (force simp: demo_policy_def)
  with r show ?thesis by blast
qed

theorem resolution_order_independent_witness:
  "resolve_policy [demo_policy ''a'' 1 [], demo_policy ''b'' 1 []] demo_identity =
   resolve_policy [demo_policy ''b'' 1 [], demo_policy ''a'' 1 []] demo_identity"
  by (rule resolution_order_independent) (simp_all add: demo_policy_def)

theorem image_approval_witness:
  "find_image [demo_image '''' ''ghcr.io/acme/'', demo_image ''ghcr.io/x:1'' ''''] ''ghcr.io/acme-evil/y:1'' = None"
  using image_approval [of "[demo_image '''' ''ghcr.io/acme/'', demo_image ''ghcr.io/x:1'' '''']" "''ghcr.io/acme-evil/y:1''"]
  by (simp add: demo_image_def registry_matches_def registry_prefix_def trim_suffix_def has_suffix_def)

theorem tag_read_witness: "image_tag (''host:5000/repo'' @ '':'' @ ''1.2'' @ ''@sha256:ab'') = ''1.2''"
  using tag_read [of "''1.2''" "''host:5000/repo''" "''@sha256:ab''"] by simp

theorem quota_check_exact_witness:
  "check_limits demo_load True (demo_image ''i'' '''') (demo_policy ''p'' 0 []) [demo_load] \<noteq> None"
  using quota_check_exact [of "[demo_load]" demo_load True "demo_image ''i'' ''''" "demo_policy ''p'' 0 []"]
  by (simp add: fits_totals_def demo_policy_def demo_limits_def demo_load_def)


definition demo_meta :: "string \<Rightarrow> object_meta" where
  "demo_meta n = \<lparr>md_name = n, md_namespace = ''waas'', md_uid = ''uid-'' @ n, md_labels = Map.empty,
     md_annotations = Map.empty, md_deleted = False, md_created = 0\<rparr>"

definition empty_overrides :: workspace_overrides where
  "empty_overrides = \<lparr>ov_env = [], ov_security_context = None, ov_pod_security_context = None, ov_volumes = [],
     ov_volume_mounts = [], ov_node_selector = [], ov_tolerations = [], ov_protocol = [], ov_schedule = None,
     ov_labels = [], ov_annotations = []\<rparr>"

definition demo_workspace :: workspace where
  "demo_workspace = \<lparr>ws_meta = demo_meta ''w1'', ws_spec = \<lparr>sp_template_ref = ''t1'', sp_owner = ''u1'', sp_display_name = ''W'',
     sp_paused = False, sp_target_namespace = [], sp_workload_name = [], sp_home_volume_name = [], sp_resources = None,
     sp_overrides = Some (empty_overrides\<lparr>ov_env := [\<lparr>ev_name = ''A'', ev_value = ''1'', ev_value_from = None\<rparr>]\<rparr>)\<rparr>\<rparr>"

definition demo_template :: workspace_template where
  "demo_template = \<lparr>tp_meta = demo_meta ''t1'', tp_spec = \<lparr>ts_display_name = ''T'', ts_description = [], ts_logo = [],
     ts_os = os_linux, ts_image = ''i'', ts_port = 0, ts_resources = \<lparr>rr_limits = Map.empty, rr_requests = Map.empty\<rparr>,
     ts_home_size = None, ts_home_mount_path = [], ts_kasmvnc_config = [], ts_storage_class_name = None, ts_env = [],
     ts_workload = None, ts_home_volume = None, ts_protocols = [],
     ts_overrides = Some \<lparr>to_allowed_fields = [FieldEnv], to_owner = []\<rparr>, ts_schedule = None, ts_placement = None\<rparr>\<rparr>"


end
