(* ===== verification/Schedule.thy ===== *)
theory Schedule
  imports Prelude
begin

text \<open>
  \<open>operator/pkg/schedule/schedule.go\<close>: uptime and downtime crons and conflict rule B. Instants are
  integers in nanoseconds. The cron library and the timezone database are parameters: a parsed
  expression read in a location is its \<open>Next\<close> function, \<^const>\<open>None\<close> standing for the zero time it
  returns when it finds no activation.
\<close>

type_synonym cron = "int \<Rightarrow> int option"

record 'l cron_lib =
  parse_cron :: "string \<Rightarrow> ('l \<Rightarrow> cron) option"
  load_location :: "string \<Rightarrow> 'l option"

record schedule_spec =
  timezone :: string
  uptime :: "string list"
  downtime :: "string list"

record edge =
  edge_time :: int
  edge_up :: bool

record decision =
  dec_down :: bool
  dec_manual :: bool
  dec_next :: "edge option"

definition is_zero :: "schedule_spec \<Rightarrow> bool" where
  "is_zero s \<longleftrightarrow> uptime s = [] \<and> downtime s = []"

definition scan_horizon :: int where
  "scan_horizon = 8 * 24 * 3600 * 1000000000"

datatype schedule_error = TimezoneRequired | InvalidTimezone string | InvalidCron string

definition location :: "'l cron_lib \<Rightarrow> schedule_spec \<Rightarrow> schedule_error + 'l" where
  "location lib s =
     (if timezone s = [] then Inl TimezoneRequired
      else case load_location lib (timezone s) of
        None \<Rightarrow> Inl (InvalidTimezone (timezone s))
      | Some loc \<Rightarrow> Inr loc)"

fun validate_crons :: "'l cron_lib \<Rightarrow> string list \<Rightarrow> schedule_error option" where
  "validate_crons lib [] = None"
| "validate_crons lib (e # es) =
     (case parse_cron lib e of None \<Rightarrow> Some (InvalidCron e) | Some _ \<Rightarrow> validate_crons lib es)"

definition validate_schedule :: "'l cron_lib \<Rightarrow> schedule_spec \<Rightarrow> schedule_error option" where
  "validate_schedule lib s =
     (if is_zero s then None
      else case location lib s of Inl e \<Rightarrow> Some e
        | Inr _ \<Rightarrow> validate_crons lib (uptime s @ downtime s))"

fun parse_all :: "'l cron_lib \<Rightarrow> 'l \<Rightarrow> string list \<Rightarrow> cron list" where
  "parse_all lib loc [] = []"
| "parse_all lib loc (e # es) =
     (case parse_cron lib e of
        Some sc \<Rightarrow> sc loc # parse_all lib loc es
      | None \<Rightarrow> parse_all lib loc es)"

fun next_of_loop :: "cron list \<Rightarrow> int \<Rightarrow> int option \<Rightarrow> int option" where
  "next_of_loop [] t best = best"
| "next_of_loop (sc # scs) t best =
     (case sc t of
        None \<Rightarrow> next_of_loop scs t best
      | Some n \<Rightarrow> next_of_loop scs t
          (case best of None \<Rightarrow> Some n | Some b \<Rightarrow> if n < b then Some n else Some b))"

definition next_of :: "cron list \<Rightarrow> int \<Rightarrow> int option" where
  "next_of scs t = next_of_loop scs t None"

text \<open>The inner loop of \<open>lastOf\<close>: at most \<open>fuel\<close> activations, and the accumulator (\<open>last\<close>) survives an empty scan.\<close>

fun last_scan :: "cron \<Rightarrow> int \<Rightarrow> nat \<Rightarrow> int \<Rightarrow> int option \<Rightarrow> int option" where
  "last_scan sc t 0 cur acc = acc"
| "last_scan sc t (Suc fuel) cur acc =
     (case sc cur of
        None \<Rightarrow> acc
      | Some n \<Rightarrow> if t < n then acc else last_scan sc t fuel n (Some n))"

definition scan_limit :: nat where "scan_limit = 200000"

fun last_of_loop :: "cron list \<Rightarrow> int \<Rightarrow> int option \<Rightarrow> int option" where
  "last_of_loop [] t acc = acc"
| "last_of_loop (sc # scs) t acc =
     last_of_loop scs t (last_scan sc t scan_limit (t - scan_horizon) acc)"

definition last_of :: "cron list \<Rightarrow> int \<Rightarrow> int option" where
  "last_of scs t = last_of_loop scs t None"

text \<open>\<^const>\<open>None\<close> is \<open>ok=false\<close>: no opinion.\<close>

definition scheduled_down :: "'l cron_lib \<Rightarrow> schedule_spec \<Rightarrow> int \<Rightarrow> bool option" where
  "scheduled_down lib s t =
     (if is_zero s then None
      else case location lib s of
        Inl _ \<Rightarrow> None
      | Inr loc \<Rightarrow>
         (case (last_of (parse_all lib loc (uptime s)) t, last_of (parse_all lib loc (downtime s)) t) of
            (None, None) \<Rightarrow> None
          | (Some _, None) \<Rightarrow> Some False
          | (None, Some _) \<Rightarrow> Some True
          | (Some up, Some dn) \<Rightarrow> Some (up < dn)))"

definition next_edge :: "'l cron_lib \<Rightarrow> schedule_spec \<Rightarrow> int \<Rightarrow> edge option" where
  "next_edge lib s t =
     (if is_zero s then None
      else case location lib s of
        Inl _ \<Rightarrow> None
      | Inr loc \<Rightarrow>
         (case (next_of (parse_all lib loc (uptime s)) t, next_of (parse_all lib loc (downtime s)) t) of
            (None, None) \<Rightarrow> None
          | (Some up, None) \<Rightarrow> Some \<lparr>edge_time = up, edge_up = True\<rparr>
          | (None, Some dn) \<Rightarrow> Some \<lparr>edge_time = dn, edge_up = False\<rparr>
          | (Some up, Some dn) \<Rightarrow>
              if \<not> dn < up then Some \<lparr>edge_time = up, edge_up = True\<rparr>
              else Some \<lparr>edge_time = dn, edge_up = False\<rparr>))"

definition next_edge_of_kind :: "'l cron_lib \<Rightarrow> schedule_spec \<Rightarrow> int \<Rightarrow> bool \<Rightarrow> int option" where
  "next_edge_of_kind lib s t want_up =
     (case location lib s of
        Inl _ \<Rightarrow> None
      | Inr loc \<Rightarrow> next_of (parse_all lib loc (if want_up then uptime s else downtime s)) t)"

definition resolve_schedule ::
  "'l cron_lib \<Rightarrow> schedule_spec \<Rightarrow> int \<Rightarrow> bool \<Rightarrow> int option \<Rightarrow> decision" where
  "resolve_schedule lib s now manual_paused manual_at =
     (let nextp = next_edge lib s now in
      case scheduled_down lib s now of
        None \<Rightarrow> \<lparr>dec_down = manual_paused, dec_manual = manual_paused, dec_next = nextp\<rparr>
      | Some sched_down \<Rightarrow>
         if (case manual_at of
               None \<Rightarrow> False
             | Some a \<Rightarrow> (case next_edge_of_kind lib s a manual_paused of
                 None \<Rightarrow> False | Some opp \<Rightarrow> now < opp))
         then \<lparr>dec_down = manual_paused, dec_manual = True, dec_next = nextp\<rparr>
         else \<lparr>dec_down = sched_down, dec_manual = False, dec_next = nextp\<rparr>)"

section \<open>What the cron library promises\<close>

text \<open>
  \<open>Next\<close> returns the first activation strictly after its argument, or nothing when there is none
  for years (the library gives up after five, here only the scan horizon is used); activations of a
  5-field expression are at least a minute apart.
\<close>

definition minute :: int where "minute = 60 * 1000000000"

definition cron_laws :: "(int \<Rightarrow> bool) \<Rightarrow> cron \<Rightarrow> bool" where
  "cron_laws fires sc \<longleftrightarrow>
     (\<forall>t n. sc t = Some n \<longrightarrow> t < n \<and> fires n \<and> (\<forall>f. fires f \<longrightarrow> t < f \<longrightarrow> n \<le> f)) \<and>
     (\<forall>t f. sc t = None \<longrightarrow> fires f \<longrightarrow> t < f \<longrightarrow> t + scan_horizon < f) \<and>
     (\<forall>f g. fires f \<longrightarrow> fires g \<longrightarrow> f < g \<longrightarrow> f + minute \<le> g)"

lemma cron_lawsD:
  assumes "cron_laws fires sc"
  shows "sc t = Some n \<Longrightarrow> t < n" "sc t = Some n \<Longrightarrow> fires n"
    "sc t = Some n \<Longrightarrow> fires f \<Longrightarrow> t < f \<Longrightarrow> n \<le> f"
    "sc t = None \<Longrightarrow> fires f \<Longrightarrow> t < f \<Longrightarrow> t + scan_horizon < f"
    "fires f \<Longrightarrow> fires g \<Longrightarrow> f < g \<Longrightarrow> f + minute \<le> g"
  using assms unfolding cron_laws_def by blast+

text \<open>The most recent activation at or before \<open>t\<close> no older than the horizon.\<close>

definition latest :: "(int \<Rightarrow> bool) \<Rightarrow> int \<Rightarrow> int option \<Rightarrow> bool" where
  "latest fires t r \<longleftrightarrow>
     (case r of
        None \<Rightarrow> \<forall>f. fires f \<longrightarrow> t - scan_horizon < f \<longrightarrow> t < f
      | Some m \<Rightarrow> fires m \<and> t - scan_horizon < m \<and> m \<le> t \<and> (\<forall>f. fires f \<longrightarrow> f \<le> t \<longrightarrow> f \<le> m))"

text \<open>A period of \<open>p\<close> from offset \<open>d\<close>: a daily or weekly expression in a zone without shifts.\<close>

definition every :: "int \<Rightarrow> int \<Rightarrow> cron" where
  "every p d t = Some ((t - d) div p * p + p + d)"

lemma every_laws:
  assumes "minute \<le> p"
  shows "cron_laws (\<lambda>f. (f - d) mod p = 0) (every p d)"
proof -
  have p: "0 < p" using assms by (simp add: minute_def)
  have lt: "t < (t - d) div p * p + p + d" for t
    using p div_mult_mod_eq [of "t - d" p] pos_mod_bound [OF p, of "t - d"] by linarith
  have dv: "\<exists>i. x = p * i" if "x mod p = 0" for x
    using that by (auto simp: mod_eq_0_iff_dvd dvd_def)
  have gap: "a + p \<le> b" if ea: "(a - d) mod p = 0" and eb: "(b - d) mod p = 0" and "a < b" for a b
  proof -
    obtain i where i: "a - d = p * i" using dv [OF ea] by blast
    obtain j where j: "b - d = p * j" using dv [OF eb] by blast
    have "p * i < p * j" using i j \<open>a < b\<close> by linarith
    then have "i + 1 \<le> j" using p by (simp add: mult_less_cancel_left_pos)
    then have "p * (i + 1) \<le> p * j" using p by (simp only: mult_le_cancel_left_pos)
    then show ?thesis using i j by (simp add: distrib_left)
  qed
  have least: "(t - d) div p * p + p + d \<le> f" if ef: "(f - d) mod p = 0" and tf: "t < f" for t f
  proof -
    obtain j where j: "f - d = p * j" using dv [OF ef] by blast
    have "(t - d) div p < j"
    proof (rule ccontr)
      assume "\<not> (t - d) div p < j"
      then have "p * j \<le> p * ((t - d) div p)" using p by (simp add: mult_left_mono)
      also have "\<dots> \<le> t - d" using pos_mod_sign [OF p, of "t - d"] mult_div_mod_eq [of p "t - d"] by linarith
      finally show False using tf j by linarith
    qed
    then have "(t - d) div p + 1 \<le> j" by simp
    then have "((t - d) div p + 1) * p \<le> j * p" using p by (simp only: mult_le_cancel_right_pos)
    then show ?thesis using j by (simp add: algebra_simps)
  qed
  show ?thesis
    unfolding cron_laws_def
  proof (intro conjI allI impI)
    fix t n assume e: "every p d t = Some n"
    then show "t < n" "(n - d) mod p = 0" using lt by (auto simp: every_def)
    fix f assume "(f - d) mod p = 0" "t < f"
    with e least show "n \<le> f" by (auto simp: every_def)
  next
    fix f g :: int assume "(f - d) mod p = 0" "(g - d) mod p = 0" "f < g"
    then show "f + minute \<le> g" using gap [of f g] assms by simp
  qed (simp add: every_def)
qed

section \<open>The backward scan\<close>

text \<open>
  The scan from a point at or before every activation of interest visits them in order; the fuel
  is enough when it exceeds the minutes left to scan.
\<close>

lemma last_scan_latest:
  assumes "cron_laws fires sc" "t - scan_horizon \<le> cur" "cur \<le> t" "nat ((t - cur) div minute) + 1 < fuel"
    "fires cur \<and> t - scan_horizon < cur \<and> acc = Some cur \<or>
      acc = None \<and> cur = t - scan_horizon \<and> (t - cur) div minute + 2 < int fuel"
  shows "latest fires t (last_scan sc t fuel cur acc)"
  using assms(2-)
proof (induction fuel arbitrary: cur acc)
  case (Suc fuel)
  note law = cron_lawsD [OF assms(1)]
  show ?case
  proof (cases "sc cur")
    case None
    have "f \<le> cur \<or> t < f" if "fires f" for f
      using law(4) [OF None that] Suc.prems(1) by linarith
    then show ?thesis using Suc.prems None by (cases acc) (force simp: latest_def)+
  next
    case (Some n)
    note n = law(1-3) [OF Some]
    show ?thesis
    proof (cases "t < n")
      case True
      have "f \<le> cur \<or> t < f" if "fires f" for f using n(3) [OF that] True by linarith
      then show ?thesis using Suc.prems Some True by (cases acc) (force simp: latest_def)+
    next
      case False
      have "latest fires t (last_scan sc t fuel n (Some n))"
      proof (rule Suc.IH)
        show "t - scan_horizon \<le> n" "n \<le> t" using n Suc.prems(1) False by linarith+
        show "fires n \<and> t - scan_horizon < n \<and> Some n = Some n \<or>
            Some n = None \<and> n = t - scan_horizon \<and> (t - n) div minute + 2 < int fuel"
          using n Suc.prems(1) by simp
        show "nat ((t - n) div minute) + 1 < fuel"
          using Suc.prems(4)
        proof
          assume "fires cur \<and> t - scan_horizon < cur \<and> acc = Some cur"
          then have "cur + minute \<le> n" using law(5) n by blast
          then have "(t - n) div minute \<le> (t - cur - minute) div minute"
            by (intro zdiv_mono1) (simp_all add: minute_def)
          also have "\<dots> = (t - cur) div minute - 1"
            by (simp add: minute_def)
          finally have "(t - n) div minute + 1 \<le> (t - cur) div minute" by simp
          moreover have "0 \<le> (t - n) div minute" using False by (simp add: minute_def pos_imp_zdiv_nonneg_iff)
          ultimately show ?thesis using Suc.prems(3) by linarith
        next
          assume "acc = None \<and> cur = t - scan_horizon \<and> (t - cur) div minute + 2 < int (Suc fuel)"
          moreover have "(t - n) div minute \<le> (t - cur) div minute"
            using n by (intro zdiv_mono1) (simp_all add: minute_def)
          moreover have "0 \<le> (t - n) div minute" using False by (simp add: minute_def pos_imp_zdiv_nonneg_iff)
          ultimately show ?thesis by linarith
        qed
      qed
      with Some False show ?thesis by simp
    qed
  qed
qed simp

lemma last_scan_enough:
  assumes "cron_laws fires sc"
  shows "latest fires t (last_scan sc t scan_limit (t - scan_horizon) None)"
  by (rule last_scan_latest [OF assms]) (simp_all add: scan_limit_def scan_horizon_def minute_def)

lemma last_of_single: "cron_laws fires sc \<Longrightarrow> latest fires t (last_of [sc] t)"
  by (simp add: last_of_def last_scan_enough)

lemma latest_unique: "latest fires t (Some m) \<Longrightarrow> latest fires t r \<Longrightarrow> r = Some m"
  by (cases r) (force simp: latest_def)+

lemma latest_at: "fires t \<Longrightarrow> latest fires t (Some t)"
  by (simp add: latest_def scan_horizon_def)

lemma last_scan_acc:
  "last_scan sc t fuel cur acc = (case last_scan sc t fuel cur None of None \<Rightarrow> acc | Some m \<Rightarrow> Some m)"
proof (induction fuel arbitrary: cur acc)
  case (Suc fuel)
  show ?case
  proof (cases "sc cur")
    case (Some n)
    with Suc.IH [of n "Some n"] show ?thesis by (auto split: option.splits)
  qed simp
qed simp

text \<open>With several expressions the last of them that fired in the window decides, earlier or not.\<close>

lemma last_of_loop_snoc:
  "last_of_loop (scs @ [sc]) t acc =
   (case last_of [sc] t of None \<Rightarrow> last_of_loop scs t acc | Some m \<Rightarrow> Some m)"
proof (induction scs arbitrary: acc)
  case Nil
  then show ?case by (simp add: last_of_def last_scan_acc [of sc t scan_limit _ acc] split: option.split)
qed (simp split: option.split)

lemma last_of_snoc:
  "last_of (scs @ [sc]) t = (case last_of [sc] t of None \<Rightarrow> last_of scs t | Some m \<Rightarrow> Some m)"
  unfolding last_of_def [of "scs @ [sc]"] last_of_def [of scs] by (rule last_of_loop_snoc)

lemma last_scan_source:
  "last_scan sc t fuel cur acc = Some m \<Longrightarrow> acc = Some m \<or> m \<le> t \<and> (\<exists>c. sc c = Some m)"
proof (induction fuel arbitrary: cur acc)
  case (Suc fuel)
  show ?case
  proof (cases "sc cur")
    case (Some n)
    with Suc.prems Suc.IH [of n "Some n"] show ?thesis by (auto split: if_splits)
  qed (use Suc.prems in simp)
qed simp

lemma last_of_source: "last_of scs t = Some m \<Longrightarrow> m \<le> t \<and> (\<exists>sc \<in> set scs. \<exists>c. sc c = Some m)"
proof (induction scs rule: rev_induct)
  case (snoc sc scs)
  show ?case
  proof (cases "last_of [sc] t")
    case None
    with snoc show ?thesis by (auto simp: last_of_snoc)
  next
    case (Some n)
    with snoc.prems have "m = n" by (simp add: last_of_snoc)
    with Some last_scan_source [of sc t scan_limit _ None m] show ?thesis by (auto simp: last_of_def)
  qed
qed (simp add: last_of_def)

section \<open>The next edge\<close>

lemma next_of_loop_cases:
  "next_of_loop scs t best = None \<longleftrightarrow> best = None \<and> (\<forall>sc \<in> set scs. sc t = None)"
  "next_of_loop scs t best = Some n \<Longrightarrow>
    (best = Some n \<or> (\<exists>sc \<in> set scs. sc t = Some n)) \<and> (\<forall>b. best = Some b \<longrightarrow> n \<le> b) \<and>
    (\<forall>sc \<in> set scs. \<forall>m. sc t = Some m \<longrightarrow> n \<le> m)"
  by (induction scs t best rule: next_of_loop.induct) (force split: option.splits if_splits)+

lemma next_of_Some:
  "next_of scs t = Some n \<Longrightarrow> (\<exists>sc \<in> set scs. sc t = Some n) \<and> (\<forall>sc \<in> set scs. \<forall>m. sc t = Some m \<longrightarrow> n \<le> m)"
  using next_of_loop_cases(2) [of scs t None n] by (simp add: next_of_def)

lemma next_of_None: "next_of scs t = None \<longleftrightarrow> (\<forall>sc \<in> set scs. sc t = None)"
  by (simp add: next_of_def next_of_loop_cases(1))

lemma next_of_single [simp]: "next_of [sc] t = sc t"
  by (simp add: next_of_def split: option.split)

section \<open>The schedule\<close>

lemma parse_all_length:
  "validate_crons lib es = None \<Longrightarrow> length (parse_all lib loc es) = length es"
  by (induction es) (auto split: option.splits)

lemma validate_crons_append:
  "validate_crons lib (a @ b) = None \<longleftrightarrow> validate_crons lib a = None \<and> validate_crons lib b = None"
  by (induction a) (auto split: option.splits)

lemma parse_all_empty: "parse_all lib loc [] = []"
  by simp

lemma parsed_not_zero:
  "parse_all lib loc (uptime s) \<noteq> [] \<or> parse_all lib loc (downtime s) \<noteq> [] \<Longrightarrow> \<not> is_zero s"
  by (auto simp: is_zero_def)

definition decide :: "int option \<Rightarrow> int option \<Rightarrow> bool option" where
  "decide up dn = (case (up, dn) of
      (None, None) \<Rightarrow> None | (Some _, None) \<Rightarrow> Some False | (None, Some _) \<Rightarrow> Some True
    | (Some u, Some d) \<Rightarrow> Some (u < d))"

lemma scheduled_down_decide:
  assumes "location lib s = Inr loc" "\<not> is_zero s"
  shows "scheduled_down lib s t =
    decide (last_of (parse_all lib loc (uptime s)) t) (last_of (parse_all lib loc (downtime s)) t)"
  using assms by (simp add: scheduled_down_def decide_def)

lemma resolve_no_opinion:
  "scheduled_down lib s now = None \<Longrightarrow> dec_down (resolve_schedule lib s now p m) = p"
  by (simp add: resolve_schedule_def Let_def)

lemma resolve_manual:
  assumes "next_edge_of_kind lib s a p = Some opp" "now < opp"
  shows "dec_down (resolve_schedule lib s now p (Some a)) = p"
  using assms by (simp add: resolve_schedule_def Let_def split: option.split)

lemma resolve_scheduled:
  assumes "scheduled_down lib s now = Some d" "next_edge_of_kind lib s a p = Some opp" "opp \<le> now"
  shows "resolve_schedule lib s now p (Some a) = \<lparr>dec_down = d, dec_manual = False, dec_next = next_edge lib s now\<rparr>"
  using assms by (simp add: resolve_schedule_def Let_def)

text \<open>With one uptime and one downtime expression that behave as crons do, the scheduled state is decided
  by the most recent activation of each kind within the eight-day horizon: the scan of at most 200000
  activations always reaches it.\<close>

lemma scheduled_down_latest:
  assumes "location lib s = Inr loc"
    "parse_all lib loc (uptime s) = [u]" "parse_all lib loc (downtime s) = [d]"
    "cron_laws fu u" "cron_laws fd d"
  shows "\<exists>ru rd. latest fu t ru \<and> latest fd t rd \<and> scheduled_down lib s t = decide ru rd"
  using assms last_of_single [OF assms(4), of t] last_of_single [OF assms(5), of t]
    parsed_not_zero [of lib loc s] by (auto simp: scheduled_down_decide)

text \<open>Conflict rule B for a pause: a workspace paused by hand at \<open>a\<close> stays down up to the first uptime
  activation after \<open>a\<close> and is up at that activation, although \<open>spec.paused\<close> is still set.\<close>

lemma manual_pause_until_uptime:
  assumes "location lib s = Inr loc" "parse_all lib loc (uptime s) = [u]" "cron_laws fu u" "u a = Some opp"
  shows "(now < opp \<longrightarrow> dec_down (resolve_schedule lib s now True (Some a))) \<and>
    resolve_schedule lib s opp True (Some a) =
      \<lparr>dec_down = False, dec_manual = False, dec_next = next_edge lib s opp\<rparr>"
proof -
  have kind: "next_edge_of_kind lib s a True = Some opp"
    using assms by (simp add: next_edge_of_kind_def)
  have "fu opp" using cron_lawsD(2) [OF assms(3,4)] .
  then have "last_of [u] opp = Some opp"
    using latest_unique [OF latest_at last_of_single [OF assms(3)]] by blast
  moreover have "\<not> opp < dn" if "last_of (parse_all lib loc (downtime s)) opp = Some dn" for dn
    using last_of_source [OF that] by simp
  ultimately have "scheduled_down lib s opp = Some False"
    using assms(1,2) parsed_not_zero [of lib loc s]
    by (cases "last_of (parse_all lib loc (downtime s)) opp") (simp_all add: scheduled_down_decide decide_def)
  with resolve_manual [OF kind] resolve_scheduled [OF _ kind order.refl] show ?thesis by auto
qed

text \<open>Conflict rule B for a resume: a workspace resumed by hand at \<open>a\<close> stays up to the first downtime
  activation after \<open>a\<close> and is down at that activation, unless an uptime activation falls on the same
  instant.\<close>

lemma manual_resume_until_downtime:
  assumes "location lib s = Inr loc" "parse_all lib loc (downtime s) = [d]" "cron_laws fd d" "d a = Some opp"
    "\<forall>sc \<in> set (parse_all lib loc (uptime s)). \<forall>c. sc c \<noteq> Some opp"
  shows "(now < opp \<longrightarrow> \<not> dec_down (resolve_schedule lib s now False (Some a))) \<and>
    resolve_schedule lib s opp False (Some a) =
      \<lparr>dec_down = True, dec_manual = False, dec_next = next_edge lib s opp\<rparr>"
proof -
  have kind: "next_edge_of_kind lib s a False = Some opp"
    using assms by (simp add: next_edge_of_kind_def)
  have "fd opp" using cron_lawsD(2) [OF assms(3,4)] .
  then have "last_of [d] opp = Some opp"
    using latest_unique [OF latest_at last_of_single [OF assms(3)]] by blast
  moreover have "up < opp" if "last_of (parse_all lib loc (uptime s)) opp = Some up" for up
    using last_of_source [OF that] assms(5) by (auto simp: order.strict_iff_order)
  ultimately have "scheduled_down lib s opp = Some True"
    using assms(1,2) parsed_not_zero [of lib loc s]
    by (cases "last_of (parse_all lib loc (uptime s)) opp") (simp_all add: scheduled_down_decide decide_def)
  with resolve_manual [OF kind] resolve_scheduled [OF _ kind order.refl] show ?thesis by auto
qed

section \<open>Between two edges\<close>

lemma latest_earlier:
  assumes "latest f t' (Some m)" "t \<le> t'" "\<And>x. f x \<Longrightarrow> t < x \<Longrightarrow> t' < x"
  shows "latest f t (Some m)"
  using assms(1,2) assms(3) [of m] unfolding latest_def by (force simp: not_less)

lemma last_of_earlier:
  assumes "cron_laws f sc" "t \<le> t'" "last_of [sc] t' = Some m" "\<And>x. sc t = Some x \<Longrightarrow> t' < x" "sc t \<noteq> None"
  shows "last_of [sc] t = Some m"
proof -
  obtain n where n: "sc t = Some n" using assms(5) by blast
  have none: "t' < x" if "f x" "t < x" for x
    using cron_lawsD(3) [OF assms(1) n that] assms(4) [OF n] by simp
  have "latest f t' (Some m)" using last_of_single [OF assms(1), of t'] assms(3) by simp
  from latest_earlier [OF this assms(2) none] last_of_single [OF assms(1), of t] show ?thesis
    by (rule latest_unique)
qed

lemma last_of_recent: "cron_laws f sc \<Longrightarrow> last_of [sc] t = Some m \<Longrightarrow> t - scan_horizon < m"
  using last_of_single [of f sc t] by (simp add: latest_def)

lemma last_of_out:
  assumes "cron_laws f sc" "t \<le> t'" "last_of [sc] t' = None" "last_of [sc] t = Some m"
  shows "m \<le> t' - scan_horizon"
  using last_of_single [OF assms(1), of t] last_of_single [OF assms(1), of t'] assms(2-)
  by (fastforce simp: latest_def)

lemma next_edge_before:
  assumes "location lib s = Inr loc" "parse_all lib loc (uptime s) = [u]" "parse_all lib loc (downtime s) = [d]"
    "next_edge lib s t = Some e" "t' < edge_time e"
  shows "u t = Some x \<Longrightarrow> t' < x" "d t = Some x \<Longrightarrow> t' < x"
  using assms parsed_not_zero [of lib loc s]
  by (auto simp: next_edge_def split: option.splits if_splits)

text \<open>No transition happens before the edge \<open>NextEdge\<close> announces: an opinion the schedule has before that edge
  is the one it already had.\<close>

lemma no_transition_before_next_edge:
  assumes "location lib s = Inr loc"
    "parse_all lib loc (uptime s) = [u]" "parse_all lib loc (downtime s) = [d]"
    "cron_laws fu u" "cron_laws fd d" "u t \<noteq> None" "d t \<noteq> None"
    "next_edge lib s t = Some e" "t \<le> t'" "t' < edge_time e" "scheduled_down lib s t' = Some b"
  shows "scheduled_down lib s t = Some b"
proof -
  note before = next_edge_before [OF assms(1,2,3,8,10)]
  have keep: "last_of [u] t' = Some m \<Longrightarrow> last_of [u] t = Some m" "last_of [d] t' = Some m \<Longrightarrow> last_of [d] t = Some m" for m
    using last_of_earlier [OF assms(4,9) _ before(1) assms(6)] last_of_earlier [OF assms(5,9) _ before(2) assms(7)]
    by blast+
  have gone: "last_of [u] t' = None \<Longrightarrow> last_of [u] t = Some m \<Longrightarrow> m \<le> t' - scan_horizon"
    "last_of [d] t' = None \<Longrightarrow> last_of [d] t = Some m \<Longrightarrow> m \<le> t' - scan_horizon" for m
    using last_of_out [OF assms(4,9)] last_of_out [OF assms(5,9)] by blast+
  have recent: "last_of [u] t' = Some m \<Longrightarrow> t' - scan_horizon < m" "last_of [d] t' = Some m \<Longrightarrow> t' - scan_horizon < m" for m
    using last_of_recent [OF assms(4)] last_of_recent [OF assms(5)] by blast+
  have sd: "scheduled_down lib s x = decide (last_of [u] x) (last_of [d] x)" for x
    using assms(1-3) parsed_not_zero [of lib loc s] by (simp add: scheduled_down_decide)
  show ?thesis
    using assms(11) keep gone recent unfolding sd decide_def
    by (cases "last_of [u] t'"; cases "last_of [d] t'"; cases "last_of [u] t"; cases "last_of [d] t") force+
qed

section \<open>Several expressions of one kind\<close>

text \<open>
  A library of four expressions in a zone without shifts, the origin being a Monday at midnight:
  daily at 8 and at 20, Mondays at 8, and every thirty days at midnight.
\<close>

definition hour :: int where "hour = 60 * minute"

definition office_lib :: "unit cron_lib" where
  "office_lib = \<lparr>parse_cron = (\<lambda>e.
       if e = ''0 8 * * *'' then Some (\<lambda>_. every (24 * hour) (8 * hour))
       else if e = ''0 20 * * *'' then Some (\<lambda>_. every (24 * hour) (20 * hour))
       else if e = ''0 8 * * 1'' then Some (\<lambda>_. every (168 * hour) (8 * hour))
       else if e = ''0 0 1 * *'' then Some (\<lambda>_. every (720 * hour) 0)
       else None),
     load_location = (\<lambda>z. if z = ''UTC'' then Some () else None)\<rparr>"

definition office_hours :: "string list \<Rightarrow> schedule_spec" where
  "office_hours ups = \<lparr>timezone = ''UTC'', uptime = ups, downtime = [''0 20 * * *'']\<rparr>"

lemma hour_minute: "minute \<le> 24 * hour" "minute \<le> 168 * hour" "minute \<le> 720 * hour"
  by (simp_all add: hour_def minute_def)

lemma every_latest:
  assumes "minute \<le> p" "(m - d) mod p = 0" "t - scan_horizon < m" "m \<le> t" "t < m + p"
  shows "last_of [every p d] t = Some m"
proof (rule latest_unique [OF _ last_of_single [OF every_laws [OF assms(1)]]])
  have "f \<le> m" if "(f - d) mod p = 0" "f \<le> t" for f
  proof (rule ccontr)
    assume "\<not> f \<le> m"
    have "(f - m) mod p = ((f - d) - (m - d)) mod p" by simp
    also have "\<dots> = 0" using that(1) assms(2) by (metis diff_self mod_0 mod_diff_eq)
    finally have "p dvd f - m" by (simp add: mod_eq_0_iff_dvd)
    then have "p \<le> f - m" using \<open>\<not> f \<le> m\<close> by (intro zdvd_imp_le) simp_all
    then show False using that(2) assms(5) by linarith
  qed
  then show "latest (\<lambda>f. (f - d) mod p = 0) t (Some m)" using assms by (simp add: latest_def)
qed

text \<open>With several expressions of one kind the scan does not return the latest activation: the last listed
  expression that fired within the horizon decides, whatever fired after it. Listing Monday 8:00 after daily
  8:00 puts the workspace down on a Wednesday at 10:00, inside the office hours.\<close>

lemma last_listed_expression_decides:
  "last_of (scs @ [sc]) t = (case last_of [sc] t of None \<Rightarrow> last_of scs t | Some m \<Rightarrow> Some m) \<and>
   scheduled_down office_lib (office_hours [''0 8 * * *'']) (58 * hour) = Some False \<and>
   scheduled_down office_lib (office_hours [''0 8 * * *'', ''0 8 * * 1'']) (58 * hour) = Some True"
proof -
  have daily: "last_of [every (24 * hour) (8 * hour)] (58 * hour) = Some (56 * hour)"
    by (rule every_latest) (simp_all add: hour_def minute_def scan_horizon_def)
  have weekly: "last_of [every (168 * hour) (8 * hour)] (58 * hour) = Some (8 * hour)"
    by (rule every_latest) (simp_all add: hour_def minute_def scan_horizon_def)
  have down: "last_of [every (24 * hour) (20 * hour)] (58 * hour) = Some (44 * hour)"
    by (rule every_latest) (simp_all add: hour_def minute_def scan_horizon_def)
  have both: "last_of [every (24 * hour) (8 * hour), every (168 * hour) (8 * hour)] (58 * hour) = Some (8 * hour)"
    using last_of_snoc [of "[every (24 * hour) (8 * hour)]"] weekly by simp
  show ?thesis
    using daily down both
    by (simp add: last_of_snoc scheduled_down_decide decide_def office_hours_def office_lib_def location_def is_zero_def
        hour_def minute_def)
qed

text \<open>
  Past the horizon the schedule has no opinion: nine days after a monthly downtime activation the
  workspace follows \<open>spec.paused\<close> again, although no uptime activation came.
\<close>

lemma monthly_downtime_forgotten:
  "scheduled_down office_lib \<lparr>timezone = ''UTC'', uptime = [], downtime = [''0 0 1 * *'']\<rparr> (168 * hour) = Some True \<and>
   scheduled_down office_lib \<lparr>timezone = ''UTC'', uptime = [], downtime = [''0 0 1 * *'']\<rparr> (216 * hour) = None"
proof -
  have early: "last_of [every (720 * hour) 0] (168 * hour) = Some 0"
    by (rule every_latest) (simp_all add: hour_def minute_def scan_horizon_def)
  have late: "last_of [every (720 * hour) 0] (216 * hour) = None"
  proof (rule ccontr)
    assume "last_of [every (720 * hour) 0] (216 * hour) \<noteq> None"
    then obtain m where "last_of [every (720 * hour) 0] (216 * hour) = Some m" by blast
    then have m: "m mod (720 * hour) = 0" "216 * hour - scan_horizon < m" "m \<le> 216 * hour"
      using last_of_single [OF every_laws [OF hour_minute(3)], of 0 "216 * hour"] by (simp_all add: latest_def)
    then have "m = m mod (720 * hour)"
      by (intro mod_pos_pos_trivial [symmetric]) (simp_all add: hour_def minute_def scan_horizon_def)
    with m show False by (simp add: hour_def minute_def scan_horizon_def)
  qed
  have nil: "last_of [] t = None" for t by (simp add: last_of_def)
  show ?thesis
    using early late by (simp add: scheduled_down_decide decide_def office_lib_def location_def is_zero_def nil)
qed

section \<open>The properties at office hours\<close>

lemma office_parsed:
  "location office_lib (office_hours [''0 8 * * *'']) = Inr ()"
  "parse_all office_lib () (uptime (office_hours [''0 8 * * *''])) = [every (24 * hour) (8 * hour)]"
  "parse_all office_lib () (downtime (office_hours ups)) = [every (24 * hour) (20 * hour)]"
  by (simp_all add: office_lib_def office_hours_def location_def)

lemmas office_laws = every_laws [OF hour_minute(1), of "8 * hour"] every_laws [OF hour_minute(1), of "20 * hour"]

lemma office_next:
  "every (24 * hour) (8 * hour) (10 * hour) = Some (32 * hour)"
  "every (24 * hour) (20 * hour) (7 * hour) = Some (20 * hour)"
  "every (24 * hour) (20 * hour) (10 * hour) = Some (20 * hour)"
  by (simp_all add: every_def hour_def minute_def)

theorem scheduled_down_latest_witness:
  "\<exists>ru rd. latest (\<lambda>f. (f - 8 * hour) mod (24 * hour) = 0) (58 * hour) ru \<and>
     latest (\<lambda>f. (f - 20 * hour) mod (24 * hour) = 0) (58 * hour) rd \<and>
     scheduled_down office_lib (office_hours [''0 8 * * *'']) (58 * hour) = decide ru rd"
  by (rule scheduled_down_latest [OF office_parsed(1,2,3) office_laws])

theorem manual_pause_until_uptime_witness:
  "dec_down (resolve_schedule office_lib (office_hours [''0 8 * * *'']) (31 * hour) True (Some (10 * hour))) \<and>
   \<not> dec_down (resolve_schedule office_lib (office_hours [''0 8 * * *'']) (32 * hour) True (Some (10 * hour)))"
  using manual_pause_until_uptime [OF office_parsed(1,2) office_laws(1) office_next(1), of "31 * hour"]
  by (simp add: hour_def minute_def)

theorem manual_resume_until_downtime_witness:
  "dec_down (resolve_schedule office_lib (office_hours [''0 8 * * *'']) (20 * hour) False (Some (7 * hour)))"
proof -
  have "every (24 * hour) (8 * hour) c \<noteq> Some (20 * hour)" for c
  proof
    assume "every (24 * hour) (8 * hour) c = Some (20 * hour)"
    then have "(20 * hour - 8 * hour) mod (24 * hour) = 0"
      using cron_lawsD(2) [OF office_laws(1)] by blast
    then show False by (simp add: hour_def minute_def)
  qed
  then show ?thesis
    using manual_resume_until_downtime [OF office_parsed(1,3) office_laws(2) office_next(2)]
    by (simp add: office_parsed(2))
qed

theorem no_transition_before_next_edge_witness:
  "scheduled_down office_lib (office_hours [''0 8 * * *'']) (10 * hour) = Some False"
proof -
  have up: "last_of [every (24 * hour) (8 * hour)] (12 * hour) = Some (8 * hour)"
    by (rule every_latest) (simp_all add: hour_def minute_def scan_horizon_def)
  have dn: "last_of [every (24 * hour) (20 * hour)] (12 * hour) = Some (- 4 * hour)"
    by (rule every_latest) (simp_all add: hour_def minute_def scan_horizon_def)
  have zero: "\<not> is_zero (office_hours [''0 8 * * *''])" by (simp add: is_zero_def office_hours_def)
  have sd: "scheduled_down office_lib (office_hours [''0 8 * * *'']) (12 * hour) = Some False"
    using up dn zero by (simp add: scheduled_down_decide [OF office_parsed(1)] office_parsed(2,3) decide_def hour_def minute_def)
  have ne: "next_edge office_lib (office_hours [''0 8 * * *'']) (10 * hour) = Some \<lparr>edge_time = 20 * hour, edge_up = False\<rparr>"
  proof -
    have "every (24 * hour) (8 * hour) (10 * hour) = Some (32 * hour)" by (rule office_next)
    then show ?thesis
      using office_next(3) zero
      by (simp add: next_edge_def office_parsed(1,2,3)) (simp add: hour_def minute_def)
  qed
  show ?thesis
    by (rule no_transition_before_next_edge [OF office_parsed(1,2,3) office_laws _ _ ne _ _ sd])
      (simp_all add: every_def hour_def minute_def)
qed

end
