(* ===== verification/Metakeys.thy ===== *)
theory Metakeys
  imports Go_Text
begin

text \<open>
  \<open>operator/pkg/metakeys/metakeys.go\<close>, the denylist of label and annotation keys, and
  \<open>operator/pkg/kasmcfg/kasmcfg.go\<close>, the kasmvnc.yaml keys the platform owns. A Go map argument is an
  association list in iteration order; a result map is a map. The YAML parser is a parameter that
  gives the document as nested maps.
\<close>

section \<open>Reserved metadata keys\<close>

definition denied_domains :: "string list" where
  "denied_domains = [''kubernetes.io'', ''k8s.io'', ''xorhub.io'', ''argoproj.io'', ''istio.io'', ''linkerd.io'',
     ''vault.hashicorp.com'', ''cilium.io'', ''openshift.io'']"

text \<open>\<open>deniedBare\<close>: the one entry is allowed, an absent key reads as false.\<close>

definition denied_bare :: "string \<Rightarrow> bool" where
  "denied_bare key = (case [''name'' \<mapsto> False] key of Some b \<Rightarrow> b | None \<Rightarrow> False)"

datatype metakey_error = EmptyKey | ReservedKey string | ReservedDomain string string

definition domain_denied :: "string \<Rightarrow> bool" where
  "domain_denied d \<longleftrightarrow> list_ex (\<lambda>x. d = x \<or> has_suffix d (CHR ''.'' # x)) denied_domains"

definition check_key :: "string \<Rightarrow> metakey_error option" where
  "check_key key =
     (if key = [] then Some EmptyKey
      else case cut_at CHR ''/'' key of (d, _, found) \<Rightarrow>
        if \<not> found then (if denied_bare key then Some (ReservedKey key) else None)
        else if domain_denied d then Some (ReservedDomain key d)
        else None)"

fun check_meta :: "(string \<times> string) list \<Rightarrow> metakey_error option" where
  "check_meta [] = None"
| "check_meta ((k, v) # m) = (case check_key k of Some e \<Rightarrow> Some e | None \<Rightarrow> check_meta m)"

text \<open>The two loops of \<open>MergeAllowed\<close>; the nil map and the empty map are the same map.\<close>

fun put_allowed :: "(string \<rightharpoonup> string) \<Rightarrow> (string \<times> string) list \<Rightarrow> (string \<rightharpoonup> string)" where
  "put_allowed out [] = out"
| "put_allowed out ((k, v) # m) = put_allowed (if check_key k = None then out(k \<mapsto> v) else out) m"

fun put_all :: "(string \<rightharpoonup> string) \<Rightarrow> (string \<times> string) list \<Rightarrow> (string \<rightharpoonup> string)" where
  "put_all out [] = out"
| "put_all out ((k, v) # m) = put_all (out(k \<mapsto> v)) m"

definition merge_allowed :: "(string \<times> string) list \<Rightarrow> (string \<times> string) list \<Rightarrow> (string \<rightharpoonup> string)" where
  "merge_allowed user platform =
     (if user = [] \<and> platform = [] then Map.empty else put_all (put_allowed Map.empty user) platform)"

section \<open>The keys kasmvnc.yaml leaves to the platform\<close>

datatype yaml = YMap "(string \<times> yaml) list" | YScalar string | YList "yaml list"

definition managed_clipboard_key_paths :: "string list list" where
  "managed_clipboard_key_paths =
     [[''data_loss_prevention'', ''clipboard'', ''server_to_client'', ''enabled''],
      [''data_loss_prevention'', ''clipboard'', ''client_to_server'', ''enabled''],
      [''runtime_configuration'', ''allow_client_to_override_kasm_server_settings'']]"

fun has_nested_key :: "(string \<times> yaml) list \<Rightarrow> string list \<Rightarrow> bool" where
  "has_nested_key cur [] = False"
| "has_nested_key cur (k # ks) =
     (case map_of cur k of
        None \<Rightarrow> False
      | Some v \<Rightarrow>
         if ks = [] then True
         else (case v of YMap m \<Rightarrow> has_nested_key m ks | _ \<Rightarrow> False))"

definition policy_managed_clipboard_keys ::
  "(string \<Rightarrow> (string \<times> yaml) list option) \<Rightarrow> string \<Rightarrow> string list option" where
  "policy_managed_clipboard_keys parse raw =
     (if trim_space raw = [] then Some []
      else case parse raw of
        None \<Rightarrow> None
      | Some root \<Rightarrow> Some (map (join_with ''.'') (filter (has_nested_key root) managed_clipboard_key_paths)))"

section \<open>Facts\<close>

lemma check_key_slash:
  "CHR ''/'' \<notin> set d \<Longrightarrow> check_key (d @ CHR ''/'' # n) = (if domain_denied d then Some (ReservedDomain (d @ CHR ''/'' # n) d) else None)"
  by (simp add: check_key_def cut_at_found)

lemma check_key_plain: "CHR ''/'' \<notin> set key \<Longrightarrow> check_key key = (if key = [] then Some EmptyKey else None)"
  by (simp add: check_key_def denied_bare_def cut_at_absent)

lemma check_meta_iff: "check_meta m = None \<longleftrightarrow> (\<forall>kv \<in> set m. check_key (fst kv) = None)"
  by (induction m rule: check_meta.induct) (auto split: option.splits)

lemma put_all_map: "put_all out m = out ++ map_of (rev m)"
proof (induction out m rule: put_all.induct)
  case (2 out k v m)
  show ?case unfolding put_all.simps 2 by (simp add: map_add_upd_left map_add_assoc [symmetric])
qed simp

lemma put_allowed_map:
  "put_allowed out m = out ++ map_of (rev (filter (\<lambda>kv. check_key (fst kv) = None) m))"
proof (induction out m rule: put_allowed.induct)
  case (2 out k v m)
  show ?case unfolding put_allowed.simps 2 by (simp add: map_add_assoc [symmetric])
qed simp

lemma merge_allowed_map:
  "merge_allowed user platform =
    map_of (rev (filter (\<lambda>kv. check_key (fst kv) = None) user)) ++ map_of (rev platform)"
  by (simp add: merge_allowed_def put_all_map put_allowed_map)

lemma map_of_rev_distinct: "distinct (map fst m) \<Longrightarrow> map_of (rev m) = map_of m"
  by (rule map_of_inject_set [THEN iffD2]) (simp_all add: rev_map [symmetric])

section \<open>Properties\<close>

text \<open>A key is reserved exactly when its domain is one of the listed domains or a subdomain of one; a name
  without a domain is free. A map is accepted exactly when all its keys are.\<close>

lemma reserved_keys:
  assumes "CHR ''/'' \<notin> set d"
  shows "(check_key (d @ CHR ''/'' # n) \<noteq> None \<longleftrightarrow> (\<exists>x \<in> set denied_domains. d = x \<or> (\<exists>sub. d = sub @ CHR ''.'' # x))) \<and>
    (d \<noteq> [] \<longrightarrow> check_key d = None) \<and>
    (check_meta m = None \<longleftrightarrow> (\<forall>kv \<in> set m. check_key (fst kv) = None))"
  using assms by (auto simp: check_key_slash check_key_plain check_meta_iff domain_denied_def list_ex_iff has_suffix_iff)

text \<open>Merging user metadata under platform metadata keeps every platform entry, whatever the user wrote under the same
  key, and takes from the user exactly the entries whose key is neither reserved nor the platform's.\<close>

lemma merge_allowed_platform_wins:
  assumes "distinct (map fst user)" "distinct (map fst platform)"
  shows "merge_allowed user platform k = (case map_of platform k of
      Some v \<Rightarrow> Some v
    | None \<Rightarrow> if check_key k = None then map_of user k else None)"
proof -
  have f: "map_of (filter (\<lambda>kv. check_key (fst kv) = None) user) k = (if check_key k = None then map_of user k else None)"
    by (induction user) auto
  have "distinct (map fst (filter (\<lambda>kv. check_key (fst kv) = None) user))"
    using assms(1) by (simp add: distinct_map_filter)
  then show ?thesis
    using assms(2) f by (simp add: merge_allowed_map map_of_rev_distinct map_add_def split: option.split)
qed

text \<open>The value at a path of nested maps.\<close>

fun yaml_at :: "yaml \<Rightarrow> string list \<Rightarrow> yaml option" where
  "yaml_at y [] = Some y"
| "yaml_at (YMap m) (k # ks) = (case map_of m k of None \<Rightarrow> None | Some v \<Rightarrow> yaml_at v ks)"
| "yaml_at y (k # ks) = None"

lemma has_nested_key_at: "ks \<noteq> [] \<Longrightarrow> has_nested_key m ks \<longleftrightarrow> yaml_at (YMap m) ks \<noteq> None"
proof (induction m ks rule: has_nested_key.induct)
  case (2 cur k ks)
  show ?case
  proof (cases "map_of cur k")
    case (Some v)
    with 2 show ?thesis by (cases ks; cases v) simp_all
  qed simp
qed simp

text \<open>On a document that parses, the keys reported to the administrator are, in order, exactly the managed paths the
  document gives a value to, be it false or null.\<close>

lemma managed_keys_reported:
  assumes "trim_space raw \<noteq> []" "parse raw = Some root"
  shows "policy_managed_clipboard_keys parse raw =
    Some (map (join_with ''.'') (filter (\<lambda>path. yaml_at (YMap root) path \<noteq> None) managed_clipboard_key_paths))"
proof -
  have "filter (has_nested_key root) managed_clipboard_key_paths =
      filter (\<lambda>path. yaml_at (YMap root) path \<noteq> None) managed_clipboard_key_paths"
    by (rule filter_cong) (auto simp: has_nested_key_at managed_clipboard_key_paths_def simp del: has_nested_key.simps yaml_at.simps)
  with assms show ?thesis by (simp add: policy_managed_clipboard_keys_def del: yaml_at.simps)
qed

theorem reserved_keys_witness:
  "check_key (''sidecar.istio.io'' @ CHR ''/'' # ''inject'') \<noteq> None \<and> check_key (''example.com'' @ CHR ''/'' # ''x'') = None"
proof -
  have "\<exists>x \<in> set denied_domains. ''sidecar.istio.io'' = x \<or> (\<exists>sub. ''sidecar.istio.io'' = sub @ CHR ''.'' # x)"
    by (intro bexI [of _ "''istio.io''"] disjI2 exI [of _ "''sidecar''"]) (simp_all add: denied_domains_def)
  moreover have "\<not> domain_denied ''example.com''" by code_simp
  then have "\<not> (\<exists>x \<in> set denied_domains. ''example.com'' = x \<or> (\<exists>sub. ''example.com'' = sub @ CHR ''.'' # x))"
    by (auto simp: domain_denied_def list_ex_iff has_suffix_iff)
  ultimately show ?thesis
    using reserved_keys [of "''sidecar.istio.io''" "''inject''" "[]"] reserved_keys [of "''example.com''" "''x''" "[]"] by simp
qed

theorem merge_allowed_platform_wins_witness:
  "merge_allowed [(''team'', ''a''), (''app'', ''mine''), (''k8s.io/x'', ''1'')] [(''app'', ''waas'')] ''app'' = Some ''waas''"
  by (subst merge_allowed_platform_wins) simp_all

theorem managed_keys_reported_witness:
  "policy_managed_clipboard_keys (\<lambda>_. Some [(''runtime_configuration'', YMap [(''allow_client_to_override_kasm_server_settings'', YScalar ''null'')])])
     ''runtime_configuration:'' = Some [''runtime_configuration.allow_client_to_override_kasm_server_settings'']"
proof -
  have "trim_space ''runtime_configuration:'' \<noteq> []" by (simp add: trim_space_ascii is_space_rune_def)
  from managed_keys_reported [OF this refl] show ?thesis by (simp add: managed_clipboard_key_paths_def)
qed

end
