(* ===== verification/Kube_Store.thy ===== *)
theory Kube_Store
  imports Api_Types
begin

text \<open>
  The Kubernetes API as the reconciler uses it: per kind, a store of objects by namespace and name, and
  the calls \<open>Get\<close>, \<open>Create\<close>, \<open>Update\<close> and \<open>Delete\<close> of the controller-runtime client. Whether a call reaches
  the server is a parameter of each call, as is the object another writer may create between a read
  that missed and the creation after it. The locale \<open>convergent_step\<close> is the contract of a reconcile
  step that keeps an object at its desired state; the components interpret it.
\<close>

section \<open>Objects and calls\<close>

datatype 'a fetched = Found 'a | Missing | Failed

type_synonym object_key = "string \<times> string"
type_synonym 'a store = "object_key \<rightharpoonup> 'a"

record 'a api =
  on_get :: bool
  on_create :: bool
  on_update :: bool
  on_delete :: bool
  raced :: "'a option"

text \<open>The errors the code tells apart: none, \<open>AlreadyExists\<close>, \<open>NotFound\<close>, any other.\<close>

datatype outcome = Done | AlreadyThere | Gone | Refused

definition kube_get :: "'a api \<Rightarrow> 'a store \<Rightarrow> object_key \<Rightarrow> 'a fetched" where
  "kube_get c st k = (if \<not> on_get c then Failed else case st k of None \<Rightarrow> Missing | Some v \<Rightarrow> Found v)"

definition kube_create :: "'a api \<Rightarrow> 'a store \<Rightarrow> object_key \<Rightarrow> 'a \<Rightarrow> outcome \<times> 'a store" where
  "kube_create c st k v =
     (if \<not> on_create c then (Refused, st)
      else case st k of
        Some _ \<Rightarrow> (AlreadyThere, st)
      | None \<Rightarrow> (case raced c of
          Some w \<Rightarrow> (AlreadyThere, st(k \<mapsto> w))
        | None \<Rightarrow> (Done, st(k \<mapsto> v))))"

definition kube_update :: "'a api \<Rightarrow> 'a store \<Rightarrow> object_key \<Rightarrow> 'a \<Rightarrow> outcome \<times> 'a store" where
  "kube_update c st k v =
     (if \<not> on_update c then (Refused, st)
      else case st k of None \<Rightarrow> (Gone, st) | Some _ \<Rightarrow> (Done, st(k \<mapsto> v)))"

definition kube_delete :: "'a api \<Rightarrow> 'a store \<Rightarrow> object_key \<Rightarrow> outcome \<times> 'a store" where
  "kube_delete c st k =
     (if \<not> on_delete c then (Refused, st)
      else case st k of None \<Rightarrow> (Gone, st) | Some _ \<Rightarrow> (Done, st(k := None)))"

text \<open>\<open>client.IgnoreNotFound\<close> and \<open>client.IgnoreAlreadyExists\<close> on the outcome of a call.\<close>

definition deleted_or_gone :: "outcome \<Rightarrow> bool" where
  "deleted_or_gone r \<longleftrightarrow> r = Done \<or> r = Gone"

definition created_or_there :: "outcome \<Rightarrow> bool" where
  "created_or_there r \<longleftrightarrow> r = Done \<or> r = AlreadyThere"

definition quiet :: "'a api \<Rightarrow> bool" where
  "quiet c \<longleftrightarrow> raced c = None"

definition answering :: "'a api" where
  "answering = \<lparr>on_get = True, on_create = True, on_update = True, on_delete = True, raced = None\<rparr>"

named_theorems kube_simps \<open>evaluation of the calls\<close>

lemma kube_get_simps [kube_simps]:
  "kube_get c st k = Failed \<longleftrightarrow> \<not> on_get c"
  "kube_get c st k = Missing \<longleftrightarrow> on_get c \<and> st k = None"
  "kube_get c st k = Found v \<longleftrightarrow> on_get c \<and> st k = Some v"
  by (auto simp: kube_get_def split: option.splits)

lemma outcome_simps [simp]:
  "deleted_or_gone Done" "deleted_or_gone Gone" "\<not> deleted_or_gone Refused" "\<not> deleted_or_gone AlreadyThere"
  "created_or_there Done" "created_or_there AlreadyThere" "\<not> created_or_there Refused" "\<not> created_or_there Gone"
  by (simp_all add: deleted_or_gone_def created_or_there_def)

lemma kube_create_at:
  assumes "kube_create c st k v = (r, st')" "created_or_there r" "quiet c" "st k = None"
  shows "r = Done \<and> st' = st(k \<mapsto> v)"
  using assms by (auto simp: kube_create_def quiet_def split: if_splits)

text \<open>A call at one key leaves the objects at the others alone.\<close>

lemma kube_frame:
  "j \<noteq> k \<Longrightarrow> snd (kube_create c st k v) j = st j"
  "j \<noteq> k \<Longrightarrow> snd (kube_update c st k v) j = st j"
  "j \<noteq> k \<Longrightarrow> snd (kube_delete c st k) j = st j"
  by (auto simp: kube_create_def kube_update_def kube_delete_def split: option.split)

lemma answering_simps [simp]:
  "on_get answering" "on_create answering" "on_update answering" "on_delete answering" "raced answering = None" "quiet answering"
  by (simp_all add: answering_def quiet_def)

section \<open>Steps that converge\<close>

text \<open>The state after a sequence of reconcile passes, each with its own answers of the server.\<close>

fun passes :: "('c \<Rightarrow> 's \<Rightarrow> 'r \<times> 's) \<Rightarrow> 'c list \<Rightarrow> 's \<Rightarrow> 's" where
  "passes step [] s = s"
| "passes step (c # cs) s = passes step cs (snd (step c s))"

lemma passes_append: "passes step (cs @ ds) s = passes step ds (passes step cs s)"
  by (induction cs arbitrary: s) simp_all

text \<open>
  A pass that succeeds while nobody else writes leaves the state settled, and a settled state rests:
  no pass, failing or not, touches it again.
\<close>

locale convergent_step =
  fixes step :: "'c \<Rightarrow> 's \<Rightarrow> ('e + 'r) \<times> 's"
    and calm :: "'c \<Rightarrow> bool"
    and settled :: "'s \<Rightarrow> bool"
  assumes settles: "calm c \<Longrightarrow> step c s = (Inr r, s') \<Longrightarrow> settled s'"
    and rests: "settled s \<Longrightarrow> snd (step c s) = s"
begin

lemma rests_passes: "settled s \<Longrightarrow> passes step cs s = s"
  by (induction cs) (simp_all add: rests)

lemma one_success_suffices:
  assumes "calm c" "step c (passes step cs s) = (Inr r, s')"
  shows "settled s' \<and> passes step (cs @ c # ds) s = s'"
proof -
  have "settled s'" using settles [OF assms] .
  then show ?thesis by (simp add: passes_append assms(2) rests_passes)
qed

end

end
