(* ===== verification/Webhook.thy ===== *)
theory Webhook
  imports Policy Schedule Metakeys Kube_Store
begin

text \<open>
  \<open>operator/internal/webhook/v1alpha1/workspace_webhook.go\<close>: the admission webhook of workspaces, the
  enforcement point of the platform's governance. What the Kubernetes client answers is the record
  \<open>cluster\<close>: every read finds, misses or fails, every list may fail. The record \<open>validator\<close> holds the
  configuration and the library functions the checks use: the text functions of \<open>Naming\<close>, the cron
  parser of \<open>Schedule\<close>, the order in which a Go map is visited and \<open>reflect.DeepEqual\<close> on two specs,
  which sees more of a spec than the record holds (a nil or an empty list, the notation of a
  quantity) and is therefore only assumed to imply equality, where a result needs it.
\<close>

record cluster =
  cl_template :: "string \<Rightarrow> string \<Rightarrow> workspace_template fetched"
  cl_namespace :: "string \<Rightarrow> object_meta fetched"
  cl_claim :: "string \<Rightarrow> string \<Rightarrow> volume_claim fetched"
  cl_workspaces :: "string \<Rightarrow> workspace list option"
  cl_templates :: "string \<Rightarrow> workspace_template list option"
  cl_images :: "string \<Rightarrow> workspace_image list option"
  cl_policies :: "string \<Rightarrow> workspace_policy list option"
  cl_claims :: "volume_claim list option"

record 'l validator =
  v_kubevirt :: bool
  v_trusted_writers :: "string list"
  v_bypass_subjects :: "string list"
  v_pattern :: string
  v_text :: text_lib
  v_cron :: "'l cron_lib"
  v_order :: "overridable_field set \<Rightarrow> overridable_field list"
  v_same_spec :: "workspace_spec \<Rightarrow> workspace_spec \<Rightarrow> bool"

record admission_request =
  rq_username :: string
  rq_groups :: "string list"

datatype admission_warning =
    WarnTie string string
  | WarnTemplateMissing string
  | WarnBypassed string

datatype verdict =
    Admitted "admission_warning list"
  | Denied denial
  | Errored

fun is_admitted :: "verdict \<Rightarrow> bool" where
  "is_admitted (Admitted _) = True"
| "is_admitted _ = False"

section \<open>Identity\<close>

definition bypassed :: "'l validator \<Rightarrow> string \<Rightarrow> string list \<Rightarrow> bool" where
  "bypassed v username groups \<longleftrightarrow>
     username \<in> set (v_bypass_subjects v) \<or> list_ex (\<lambda>g. g \<in> set (v_bypass_subjects v)) groups"

definition has_annotation :: "workspace \<Rightarrow> string \<Rightarrow> bool" where
  "has_annotation ws k \<longleftrightarrow> md_annotations (ws_meta ws) k \<noteq> None"

definition resolve_identity :: "'l validator \<Rightarrow> admission_request \<Rightarrow> workspace \<Rightarrow> denial + identity" where
  "resolve_identity v req ws =
     (if rq_username req \<in> set (v_trusted_writers v) then
        Inr \<lparr>id_owner = sp_owner (ws_spec ws), id_username = ws_annotation ws annotation_username,
             id_groups = split_list (ws_annotation ws annotation_groups)\<rparr>
      else case first_denial
          [deny_if (has_annotation ws annotation_username) (deny ReasonIdentityViolation [annotation_username, rq_username req]),
           deny_if (has_annotation ws annotation_groups) (deny ReasonIdentityViolation [annotation_groups, rq_username req]),
           deny_if (sp_owner (ws_spec ws) \<noteq> rq_username req)
             (deny ReasonIdentityViolation [sp_owner (ws_spec ws), rq_username req])] of
        Some d \<Rightarrow> Inl d
      | None \<Rightarrow> Inr \<lparr>id_owner = rq_username req, id_username = rq_username req, id_groups = rq_groups req\<rparr>)"

section \<open>Rules for every caller\<close>

text \<open>What an update may not change.\<close>

definition check_frozen :: "workspace \<Rightarrow> workspace \<Rightarrow> denial option" where
  "check_frozen old ws =
     (let o' = ws_spec old; s = ws_spec ws in first_denial
       ([deny_if (sp_owner s \<noteq> sp_owner o') (deny ReasonIdentityViolation [sp_owner o'])] @
        map (\<lambda>ann. deny_if (ws_annotation ws ann \<noteq> ws_annotation old ann) (deny ReasonIdentityViolation [ann]))
          [annotation_username, annotation_groups, annotation_role] @
        [deny_if (sp_target_namespace s \<noteq> sp_target_namespace o') (deny ReasonPlacementDenied [sp_target_namespace o']),
         deny_if (sp_workload_name s \<noteq> sp_workload_name o') (deny ReasonPlacementDenied [sp_workload_name o']),
         deny_if (sp_home_volume_name s \<noteq> sp_home_volume_name o') (deny ReasonPlacementDenied [sp_home_volume_name o'])]))"

definition label_of :: "object_meta \<Rightarrow> string \<Rightarrow> string" where
  "label_of m k = str_at (md_labels m) k"

definition check_home_volume_adoption :: "cluster \<Rightarrow> workspace \<Rightarrow> denial option" where
  "check_home_volume_adoption cl ws =
     (let name = sp_home_volume_name (ws_spec ws) in
      case cl_claim cl (effective_target_namespace ws) name of
        Missing \<Rightarrow> Some (deny ReasonVolumeDenied [name, effective_target_namespace ws])
      | Failed \<Rightarrow> Some (deny ReasonInternalError [name])
      | Found pvc \<Rightarrow> first_denial
          [deny_if (label_of (vc_meta pvc) label_managed_by \<noteq> manager_name \<or> label_of (vc_meta pvc) label_retained \<noteq> ''true'')
             (deny ReasonVolumeDenied [name]),
           deny_if (label_of (vc_meta pvc) label_owner \<noteq> sp_owner (ws_spec ws)) (deny ReasonVolumeDenied [name])])"

definition validate_shape :: "workspace \<Rightarrow> denial option" where
  "validate_shape ws =
     (let s = ws_spec ws; tns = sp_target_namespace s; wn = sp_workload_name s in first_denial
       ([deny_if (tns \<noteq> [] \<and> validate_label tns \<noteq> None) (deny ReasonPlacementDenied [tns]),
         deny_if (tns \<noteq> [] \<and> (tns = md_namespace (ws_meta ws) \<or> has_prefix tns ''kube-'')) (deny ReasonPlacementDenied [tns]),
         deny_if (wn \<noteq> [] \<and> validate_label wn \<noteq> None) (deny ReasonPlacementDenied [wn])] @
        (case sp_overrides s of
           None \<Rightarrow> []
         | Some ov \<Rightarrow>
            [deny_if (check_meta (ov_labels ov) \<noteq> None) (deny ReasonOverrideNotAllowed [''overrides.labels'']),
             deny_if (check_meta (ov_annotations ov) \<noteq> None) (deny ReasonOverrideNotAllowed [''overrides.annotations'']),
             (case find (\<lambda>e. ev_value_from e \<noteq> None) (ov_env ov) of
                None \<Rightarrow> None
              | Some e \<Rightarrow> Some (deny ReasonOverrideNotAllowed [''overrides.env'', ev_name e]))])))"

section \<open>Placement\<close>

definition check_placement_ownership ::
  "'l validator \<Rightarrow> cluster \<Rightarrow> workspace \<Rightarrow> workspace_template \<Rightarrow> identity \<Rightarrow> denial option" where
  "check_placement_ownership v cl ws tpl i =
     (let tns = sp_target_namespace (ws_spec ws) in
      if tns = [] \<or> ws_annotation ws annotation_role = ''admin'' then None
      else if resolved_default_namespace (v_text v) ws tpl i (v_pattern v) = Inr tns then None
      else let owner_label = (case cl_namespace cl tns of Found m \<Rightarrow> Some (label_of m label_owner) | _ \<Rightarrow> None) in
        if owner_label = Some (sp_owner (ws_spec ws)) then None
        else if is_personal_namespace_of (v_text v) (id_username i) (id_owner i) tns
          then deny_if (owner_label \<noteq> None \<and> owner_label \<noteq> Some []) (deny ReasonPlacementDenied [tns])
        else Some (deny ReasonPlacementDenied
          [tns, personal_namespace (v_text v) (id_username i) (id_owner i), sp_owner (ws_spec ws)]))"

definition collides :: "workspace \<Rightarrow> workspace \<Rightarrow> bool" where
  "collides ws sib \<longleftrightarrow> md_name (ws_meta sib) \<noteq> md_name (ws_meta ws) \<and>
     effective_target_namespace sib = effective_target_namespace ws \<and>
     effective_workload_name sib = effective_workload_name ws"

definition check_workload_name_collision :: "cluster \<Rightarrow> workspace \<Rightarrow> denial option" where
  "check_workload_name_collision cl ws =
     (case cl_workspaces cl (md_namespace (ws_meta ws)) of
        None \<Rightarrow> Some (deny ReasonInternalError [])
      | Some sibs \<Rightarrow> (case find (collides ws) sibs of
          None \<Rightarrow> None
        | Some sib \<Rightarrow> Some (deny ReasonPlacementDenied
            [effective_workload_name ws, effective_target_namespace ws, md_name (ws_meta sib)])))"

section \<open>The governance decision\<close>

definition retained_of :: "string \<Rightarrow> volume_claim \<Rightarrow> bool" where
  "retained_of owner pvc \<longleftrightarrow>
     md_labels (vc_meta pvc) label_retained = Some ''true'' \<and> md_labels (vc_meta pvc) label_owner = Some owner"

text \<open>The list of retained claims is not restricted to a namespace.\<close>

definition other_loads :: "cluster \<Rightarrow> workspace \<Rightarrow> string \<Rightarrow> workspace_image list \<Rightarrow> load list option" where
  "other_loads cl ws owner catalog =
     (case (cl_workspaces cl (md_namespace (ws_meta ws)), cl_templates cl (md_namespace (ws_meta ws)), cl_claims cl) of
        (Some all, Some templates, Some claims) \<Rightarrow>
          Some (owner_loads all owner (md_name (ws_meta ws)) (templates_by_name templates) catalog @
                retained_volume_loads (filter (retained_of owner) claims)
                  (effective_target_namespace ws, sp_home_volume_name (ws_spec ws)))
      | _ \<Rightarrow> None)"

definition schedule_spec_of :: "workspace_schedule \<Rightarrow> schedule_spec" where
  "schedule_spec_of s = \<lparr>timezone = sch_timezone s, uptime = sch_uptime s, downtime = sch_downtime s\<rparr>"

definition check_schedule_override :: "'l validator \<Rightarrow> workspace \<Rightarrow> denial option" where
  "check_schedule_override v ws =
     (case sp_overrides (ws_spec ws) of
        None \<Rightarrow> None
      | Some ov \<Rightarrow> (case ov_schedule ov of
          None \<Rightarrow> None
        | Some s \<Rightarrow> deny_if (validate_schedule (v_cron v) (schedule_spec_of s) \<noteq> None)
            (deny ReasonOverrideNotAllowed [''schedule''])))"

text \<open>An adopted volume is weighed with its own size.\<close>

definition weighed_load :: "cluster \<Rightarrow> workspace \<Rightarrow> load \<Rightarrow> load" where
  "weighed_load cl ws ld =
     (if sp_home_volume_name (ws_spec ws) = [] then ld
      else case cl_claim cl (effective_target_namespace ws) (sp_home_volume_name (ws_spec ws)) of
        Found pvc \<Rightarrow> (case vc_storage pvc of Some sz \<Rightarrow> ld\<lparr>ld_storage := sz\<rparr> | None \<Rightarrow> ld)
      | _ \<Rightarrow> ld)"

definition enforce ::
  "'l validator \<Rightarrow> cluster \<Rightarrow> workspace \<Rightarrow> workspace_template \<Rightarrow> identity \<Rightarrow> denial + admission_warning list" where
  "enforce v cl ws tpl i =
     (let ns = md_namespace (ws_meta ws); ref = ts_image (tp_spec tpl) in
      case first_denial [check_placement_ownership v cl ws tpl i, check_workload_name_collision cl ws] of
        Some d \<Rightarrow> Inl d
      | None \<Rightarrow> (case (cl_images cl ns, cl_policies cl ns) of
          (Some catalog, Some policies) \<Rightarrow> (case resolve_policy policies i of
              Inl d \<Rightarrow> Inl d
            | Inr (pol, tie) \<Rightarrow> (case find_image catalog ref of
                None \<Rightarrow> Inl (deny ReasonImageNotInCatalog [ref, md_name (tp_meta tpl)])
              | Some img \<Rightarrow> (case first_denial
                    [image_allowed img pol i, check_tag_discipline img ref, check_protocol tpl img,
                     check_overrides (v_text v) (v_order v) ws tpl (Some pol) i (v_pattern v),
                     check_schedule_override v ws] of
                  Some d \<Rightarrow> Inl d
                | None \<Rightarrow> (case other_loads cl ws (id_owner i) catalog of
                    None \<Rightarrow> Inl (deny ReasonInternalError [])
                  | Some others \<Rightarrow>
                      (case load_of ws tpl (Some img) of (ld, known) \<Rightarrow>
                        (case check_limits (weighed_load cl ws ld) known img pol others of
                           Some d \<Rightarrow> Inl d
                         | None \<Rightarrow> Inr (case tie of None \<Rightarrow> [] | Some (a, b) \<Rightarrow> [WarnTie a b])))))))
        | _ \<Rightarrow> Inl (deny ReasonInternalError [])))"

section \<open>The verdict\<close>

definition pause_only :: "'l validator \<Rightarrow> workspace_spec \<Rightarrow> workspace_spec \<Rightarrow> bool" where
  "pause_only v old s \<longleftrightarrow> \<not> sp_paused old \<and> sp_paused s \<and> v_same_spec v old (s\<lparr>sp_paused := sp_paused old\<rparr>)"

definition exempt :: "'l validator \<Rightarrow> workspace option \<Rightarrow> workspace \<Rightarrow> bool" where
  "exempt v old ws = (case old of
     None \<Rightarrow> False
   | Some o' \<Rightarrow> v_same_spec v (ws_spec o') (ws_spec ws) \<or> pause_only v (ws_spec o') (ws_spec ws))"

definition structural_denial :: "cluster \<Rightarrow> workspace option \<Rightarrow> workspace \<Rightarrow> denial option" where
  "structural_denial cl old ws = first_denial
     [(case old of Some o' \<Rightarrow> check_frozen o' ws | None \<Rightarrow> None),
      (if old = None \<and> sp_home_volume_name (ws_spec ws) \<noteq> [] then check_home_volume_adoption cl ws else None),
      validate_shape ws]"

definition validate_workspace ::
  "'l validator \<Rightarrow> cluster \<Rightarrow> admission_request \<Rightarrow> workspace option \<Rightarrow> workspace \<Rightarrow> verdict" where
  "validate_workspace v cl req old ws =
     (case structural_denial cl old ws of
        Some d \<Rightarrow> Denied d
      | None \<Rightarrow>
         if exempt v old ws then Admitted []
         else (case cl_template cl (md_namespace (ws_meta ws)) (sp_template_ref (ws_spec ws)) of
             Missing \<Rightarrow> Admitted [WarnTemplateMissing (sp_template_ref (ws_spec ws))]
           | Failed \<Rightarrow> Errored
           | Found tpl \<Rightarrow>
              if ts_os (tp_spec tpl) = os_windows \<and> \<not> v_kubevirt v
                then Denied (deny ReasonProtocolMismatch [md_name (tp_meta tpl)])
              else if bypassed v (rq_username req) (rq_groups req) then Admitted [WarnBypassed (rq_username req)]
              else (case resolve_identity v req ws of
                  Inl d \<Rightarrow> Denied d
                | Inr i \<Rightarrow> (case enforce v cl ws tpl i of Inl d \<Rightarrow> Denied d | Inr warns \<Rightarrow> Admitted warns))))"

section \<open>Facts\<close>

lemma frozen_spec:
  assumes "check_frozen old ws = None"
  shows "sp_owner (ws_spec ws) = sp_owner (ws_spec old)"
    "sp_target_namespace (ws_spec ws) = sp_target_namespace (ws_spec old)"
    "sp_workload_name (ws_spec ws) = sp_workload_name (ws_spec old)"
    "sp_home_volume_name (ws_spec ws) = sp_home_volume_name (ws_spec old)"
    "k \<in> {annotation_username, annotation_groups, annotation_role} \<Longrightarrow> ws_annotation ws k = ws_annotation old k"
  using assms by (auto simp: check_frozen_def first_denial_None Let_def)

lemma admitted_structural:
  assumes "is_admitted (validate_workspace v cl req old ws)"
  shows "structural_denial cl old ws = None"
  using assms by (cases "structural_denial cl old ws") (simp_all add: validate_workspace_def)

lemma structural_None:
  "structural_denial cl old ws = None \<longleftrightarrow> (case old of Some o' \<Rightarrow> check_frozen o' ws = None
     | None \<Rightarrow> sp_home_volume_name (ws_spec ws) = [] \<or> check_home_volume_adoption cl ws = None) \<and>
   validate_shape ws = None"
  by (cases old) (auto simp: structural_denial_def first_denial_None)

lemma resolve_identity_untrusted:
  assumes "rq_username req \<notin> set (v_trusted_writers v)"
  shows "resolve_identity v req ws = Inr i \<longleftrightarrow> sp_owner (ws_spec ws) = rq_username req \<and>
    md_annotations (ws_meta ws) annotation_username = None \<and> md_annotations (ws_meta ws) annotation_groups = None \<and>
    i = \<lparr>id_owner = rq_username req, id_username = rq_username req, id_groups = rq_groups req\<rparr>"
proof -
  let ?ds = "[deny_if (has_annotation ws annotation_username) (deny ReasonIdentityViolation [annotation_username, rq_username req]),
    deny_if (has_annotation ws annotation_groups) (deny ReasonIdentityViolation [annotation_groups, rq_username req]),
    deny_if (sp_owner (ws_spec ws) \<noteq> rq_username req) (deny ReasonIdentityViolation [sp_owner (ws_spec ws), rq_username req])]"
  have n: "first_denial ?ds = None \<longleftrightarrow> sp_owner (ws_spec ws) = rq_username req \<and>
      md_annotations (ws_meta ws) annotation_username = None \<and> md_annotations (ws_meta ws) annotation_groups = None"
    by (auto simp: first_denial_None has_annotation_def)
  show ?thesis
    using n by (cases "first_denial ?ds") (auto simp: resolve_identity_def assms)
qed

lemma resolve_policy_member:
  assumes "resolve_policy policies i = Inr (p, w)"
  shows "p \<in> set policies \<and> subjects_match (po_subjects p) i"
  using assms
proof (cases rule: resolve_policy_cases)
  case (some p' w' ps)
  then have "p \<in> set (sort_key policy_rank (filter (\<lambda>p. subjects_match (po_subjects p) i) policies))" by simp
  then show ?thesis by simp
qed simp

lemma find_image_member: "find_image catalog ref = Some img \<Longrightarrow> img \<in> set catalog"
  using longest_registry_props [of ref catalog None]
  by (auto simp: find_image_def split: option.splits dest: find_SomeD)

lemma no_collision:
  assumes "check_workload_name_collision cl ws = None"
  obtains sibs where "cl_workspaces cl (md_namespace (ws_meta ws)) = Some sibs" "\<forall>sib \<in> set sibs. \<not> collides ws sib"
  using assms that by (auto simp: check_workload_name_collision_def find_None_iff split: option.splits)

text \<open>What an accepted decision rests on.\<close>

lemma enforce_ok:
  assumes "enforce v cl ws tpl i = Inr warns"
  obtains catalog policies p tie img others sibs where
    "check_placement_ownership v cl ws tpl i = None"
    "cl_workspaces cl (md_namespace (ws_meta ws)) = Some sibs" "\<forall>sib \<in> set sibs. \<not> collides ws sib"
    "cl_images cl (md_namespace (ws_meta ws)) = Some catalog" "cl_policies cl (md_namespace (ws_meta ws)) = Some policies"
    "resolve_policy policies i = Inr (p, tie)" "find_image catalog (ts_image (tp_spec tpl)) = Some img"
    "image_allowed img p i = None" "check_tag_discipline img (ts_image (tp_spec tpl)) = None" "check_protocol tpl img = None"
    "check_overrides (v_text v) (v_order v) ws tpl (Some p) i (v_pattern v) = None" "check_schedule_override v ws = None"
    "other_loads cl ws (id_owner i) catalog = Some others"
    "check_limits (weighed_load cl ws (fst (load_of ws tpl (Some img)))) (snd (load_of ws tpl (Some img))) img p others = None"
proof -
  let ?a = "[check_placement_ownership v cl ws tpl i, check_workload_name_collision cl ws]"
  from assms have a: "first_denial ?a = None" by (cases "first_denial ?a") (simp_all add: enforce_def Let_def)
  note u = assms [unfolded enforce_def Let_def a option.case]
  from u obtain catalog policies where b: "cl_images cl (md_namespace (ws_meta ws)) = Some catalog"
      "cl_policies cl (md_namespace (ws_meta ws)) = Some policies"
    by (auto split: option.splits)
  note u = u [unfolded b prod.case option.case]
  from u obtain p tie where c: "resolve_policy policies i = Inr (p, tie)"
    by (cases "resolve_policy policies i") auto
  note u = u [unfolded c prod.case sum.case]
  from u obtain img where d: "find_image catalog (ts_image (tp_spec tpl)) = Some img"
    by (cases "find_image catalog (ts_image (tp_spec tpl))") auto
  note u = u [unfolded d option.case]
  let ?e = "[image_allowed img p i, check_tag_discipline img (ts_image (tp_spec tpl)), check_protocol tpl img,
    check_overrides (v_text v) (v_order v) ws tpl (Some p) i (v_pattern v), check_schedule_override v ws]"
  from u have e: "first_denial ?e = None" by (cases "first_denial ?e") auto
  note u = u [unfolded e option.case]
  from u obtain others where f: "other_loads cl ws (id_owner i) catalog = Some others"
    by (cases "other_loads cl ws (id_owner i) catalog") auto
  note u = u [unfolded f option.case split_beta]
  let ?g = "check_limits (weighed_load cl ws (fst (load_of ws tpl (Some img)))) (snd (load_of ws tpl (Some img))) img p others"
  from u have g: "?g = None" by (cases ?g) auto
  from a obtain sibs where "cl_workspaces cl (md_namespace (ws_meta ws)) = Some sibs" "\<forall>sib \<in> set sibs. \<not> collides ws sib"
    using no_collision by (auto simp: first_denial_None)
  with a b c d e f g that show thesis by (simp add: first_denial_None)
qed

section \<open>Properties\<close>

text \<open>C24: An update the webhook admits, whoever the caller and even under a bypass, leaves the owner, the identity and
  role annotations, the placement, the workload name and the adopted volume of the workspace as they were.\<close>

theorem identity_frozen:
  assumes "is_admitted (validate_workspace v cl req (Some old) ws)"
  shows "sp_owner (ws_spec ws) = sp_owner (ws_spec old) \<and>
    list_all (\<lambda>k. ws_annotation ws k = ws_annotation old k) [annotation_username, annotation_groups, annotation_role] \<and>
    sp_target_namespace (ws_spec ws) = sp_target_namespace (ws_spec old) \<and>
    sp_workload_name (ws_spec ws) = sp_workload_name (ws_spec old) \<and>
    sp_home_volume_name (ws_spec ws) = sp_home_volume_name (ws_spec old)"
proof -
  from admitted_structural [OF assms] have "check_frozen old ws = None" by (simp add: structural_None)
  from frozen_spec [OF this] show ?thesis by simp
qed

text \<open>A workspace created on an existing volume, whoever the caller and even under a bypass, adopts a volume of its
  target namespace that the platform manages, that was retained from a deleted workspace and that belongs to the same
  owner: no admission hands a user the data of another, or a volume in use.\<close>

lemma adopted_volume_owned:
  assumes "is_admitted (validate_workspace v cl req None ws)" "sp_home_volume_name (ws_spec ws) \<noteq> []"
  shows "\<exists>pvc. cl_claim cl (effective_target_namespace ws) (sp_home_volume_name (ws_spec ws)) = Found pvc \<and>
    label_of (vc_meta pvc) label_managed_by = manager_name \<and> label_of (vc_meta pvc) label_retained = ''true'' \<and>
    label_of (vc_meta pvc) label_owner = sp_owner (ws_spec ws)"
proof -
  from admitted_structural [OF assms(1)] assms(2) have "check_home_volume_adoption cl ws = None"
    by (simp add: structural_None)
  then show ?thesis
    by (cases "cl_claim cl (effective_target_namespace ws) (sp_home_volume_name (ws_spec ws))")
      (simp_all add: check_home_volume_adoption_def first_denial_None Let_def)
qed

text \<open>A target namespace is the owner's to use when it is the platform namespace, the default its placement
  pattern gives the owner, a namespace labelled as the owner's, or one derived from the owner's personal
  name that carries no other owner's label; a namespace that cannot be read counts as unlabelled.\<close>

definition owners_to_use :: "'s validator \<Rightarrow> cluster \<Rightarrow> workspace \<Rightarrow> workspace_template \<Rightarrow> identity \<Rightarrow> bool" where
  "owners_to_use v cl ws tpl i \<longleftrightarrow>
     (let tns = sp_target_namespace (ws_spec ws) in
      tns = [] \<or>
      resolved_default_namespace (v_text v) ws tpl i (v_pattern v) = Inr tns \<or>
      (case cl_namespace cl tns of Found m \<Rightarrow> label_of m label_owner = sp_owner (ws_spec ws) | _ \<Rightarrow> False) \<or>
      is_personal_namespace_of (v_text v) (id_username i) (id_owner i) tns \<and>
        (case cl_namespace cl tns of Found m \<Rightarrow> label_of m label_owner = [] | _ \<Rightarrow> True))"

lemma placement_admitted:
  "check_placement_ownership v cl ws tpl i = None \<longleftrightarrow>
    ws_annotation ws annotation_role = ''admin'' \<or> owners_to_use v cl ws tpl i"
  by (cases "cl_namespace cl (sp_target_namespace (ws_spec ws))")
    (auto simp: check_placement_ownership_def owners_to_use_def Let_def)

text \<open>What the policy that governs the identity has to say for a workspace to be admitted: its image, the catalog's
  entry for the template's reference, is enabled, open to a group of the identity and listed by the policy; and, counted
  with the owner's others, the load keeps within the policy's caps and the image's bounds.\<close>

definition approved_image :: "workspace_image \<Rightarrow> workspace_policy \<Rightarrow> identity \<Rightarrow> bool" where
  "approved_image img p i \<longleftrightarrow> im_enabled img \<and>
     (im_allowed_groups img = [] \<or> set (im_allowed_groups img) \<inter> set (id_groups i) \<noteq> {}) \<and>
     (po_images p = [] \<or> im_name img \<in> set (po_images p))"

definition within_quota :: "cluster \<Rightarrow> workspace \<Rightarrow> workspace_template \<Rightarrow> workspace_image \<Rightarrow> workspace_policy \<Rightarrow> load list \<Rightarrow> bool" where
  "within_quota cl ws tpl img p others \<longleftrightarrow>
     (let ld = weighed_load cl ws (fst (load_of ws tpl (Some img))) in
      fits_totals ld p others \<and> fits_bounds ld img p \<and>
      (caps_compute img p \<longrightarrow> snd (load_of ws tpl (Some img))))"

text \<open>C1: A creation or a real change of a workspace whose template exists is admitted for a caller without bypass only
  under the policy that governs the owner (the matching one of the highest priority), with an enabled image of the catalog
  that is open to the owner's groups and that the policy lists, a workload name no sibling of the namespace uses, and a
  load that keeps, beside everything else the owner holds, within the policy's caps and the image's bounds (counted for
  fewer than 2^31 - 1 others). A caller that is not a trusted writer acts as itself, with its own groups. Unless the
  workspace carries the role annotation admin, which lifts these two checks and which the code lets any caller set when it
  creates a workspace, its target namespace is the owner's to use and every override it makes is granted by the policy and
  by the template. The order in which the rights are visited and the libraries are parameters.\<close>

theorem governed_admission:
  assumes "is_admitted (validate_workspace v cl req old ws)" "\<not> exempt v old ws"
    "\<not> bypassed v (rq_username req) (rq_groups req)"
    "cl_template cl (md_namespace (ws_meta ws)) (sp_template_ref (ws_spec ws)) = Found tpl"
    "\<And>S. set (v_order v S) = S"
  shows "\<exists>i p img catalog policies sibs others. resolve_identity v req ws = Inr i \<and>
    (rq_username req \<in> set (v_trusted_writers v) \<or> sp_owner (ws_spec ws) = rq_username req \<and>
      i = \<lparr>id_owner = rq_username req, id_username = rq_username req, id_groups = rq_groups req\<rparr>) \<and>
    cl_policies cl (md_namespace (ws_meta ws)) = Some policies \<and> governs p policies i \<and>
    cl_images cl (md_namespace (ws_meta ws)) = Some catalog \<and> img \<in> set catalog \<and>
    find_image catalog (ts_image (tp_spec tpl)) = Some img \<and> approved_image img p i \<and>
    cl_workspaces cl (md_namespace (ws_meta ws)) = Some sibs \<and> list_all (\<lambda>sib. \<not> collides ws sib) sibs \<and>
    other_loads cl ws (id_owner i) catalog = Some others \<and>
    (int (length others) < 2147483647 \<longrightarrow> within_quota cl ws tpl img p others) \<and>
    (ws_annotation ws annotation_role \<noteq> ''admin'' \<longrightarrow>
      owners_to_use v cl ws tpl i \<and> entitled (v_text v) ws tpl (Some p) i (v_pattern v))"
proof -
  note a = assms(1) [unfolded validate_workspace_def admitted_structural [OF assms(1)] option.case if_not_P [OF assms(2)]
      if_not_P [OF assms(3)] assms(4) fetched.case]
  from a obtain i warns where i: "resolve_identity v req ws = Inr i" "enforce v cl ws tpl i = Inr warns"
    by (auto split: if_splits sum.splits)
  have untrusted: "rq_username req \<in> set (v_trusted_writers v) \<or> sp_owner (ws_spec ws) = rq_username req \<and>
      i = \<lparr>id_owner = rq_username req, id_username = rq_username req, id_groups = rq_groups req\<rparr>"
    using i(1) resolve_identity_untrusted by blast
  show ?thesis
  proof (rule enforce_ok [OF i(2)])
    fix catalog policies p tie img others sibs
    assume d: "check_placement_ownership v cl ws tpl i = None" "cl_workspaces cl (md_namespace (ws_meta ws)) = Some sibs"
      "\<forall>sib \<in> set sibs. \<not> collides ws sib" "cl_images cl (md_namespace (ws_meta ws)) = Some catalog"
      "cl_policies cl (md_namespace (ws_meta ws)) = Some policies" "resolve_policy policies i = Inr (p, tie)"
      "find_image catalog (ts_image (tp_spec tpl)) = Some img" "image_allowed img p i = None"
      "check_overrides (v_text v) (v_order v) ws tpl (Some p) i (v_pattern v) = None"
      "other_loads cl ws (id_owner i) catalog = Some others"
      "check_limits (weighed_load cl ws (fst (load_of ws tpl (Some img)))) (snd (load_of ws tpl (Some img))) img p others = None"
    have img: "approved_image img p i" using d(8) by (simp add: approved_image_def image_allowed_None)
    have quota: "int (length others) < 2147483647 \<longrightarrow> within_quota cl ws tpl img p others"
      using check_limits_None d(11) unfolding within_quota_def Let_def by blast
    have role: "ws_annotation ws annotation_role \<noteq> ''admin'' \<longrightarrow>
        owners_to_use v cl ws tpl i \<and> entitled (v_text v) ws tpl (Some p) i (v_pattern v)"
      using d(1,9) placement_admitted check_overrides_None [of "v_order v", OF assms(5)] by blast
    have "governs p policies i" "img \<in> set catalog" using resolve_policy_governs find_image_member d(6,7) by blast+
    with d img quota role i(1) untrusted show ?thesis unfolding list_all_iff by blast
  qed
qed

text \<open>The role annotation is not among the identity claims an untrusted caller is refused: set to admin on a
  workspace of its own, it leaves the resolved identity as it is and lifts every placement and override check, whatever
  the target namespace, the overrides, the template and the policy.\<close>

lemma self_declared_admin:
  assumes "rq_username req \<notin> set (v_trusted_writers v)" "resolve_identity v req ws = Inr i"
    "ws' = ws\<lparr>ws_meta := (ws_meta ws)\<lparr>md_annotations := (md_annotations (ws_meta ws))(annotation_role \<mapsto> ''admin'')\<rparr>\<rparr>"
  shows "resolve_identity v req ws' = Inr i \<and> check_placement_ownership v cl ws' tpl i = None \<and>
    check_overrides (v_text v) (v_order v) ws' tpl pol i (v_pattern v) = None"
proof -
  have "ws_annotation ws' annotation_role = ''admin''" by (simp add: assms(3) ws_annotation_def)
  moreover have "resolve_identity v req ws' = Inr i"
    using assms(2) unfolding resolve_identity_untrusted [OF assms(1)] by (simp add: assms(3) annotation_names)
  ultimately show ?thesis by (simp add: check_placement_ownership_def check_overrides_def)
qed

text \<open>While its template does not exist, a workspace of valid shape that adopts no volume is admitted for every
  caller, whatever owner, groups and role it claims: the identity checks come after the deferral.\<close>

lemma deferred_identity_unchecked:
  assumes "validate_shape ws = None" "sp_home_volume_name (ws_spec ws) = []"
    "cl_template cl (md_namespace (ws_meta ws)) (sp_template_ref (ws_spec ws)) = Missing"
  shows "validate_workspace v cl req None ws = Admitted [WarnTemplateMissing (sp_template_ref (ws_spec ws))]"
proof -
  have "structural_denial cl None ws = None" by (simp add: structural_None assms)
  then show ?thesis by (simp add: validate_workspace_def exempt_def assms(3))
qed

section \<open>A small cluster\<close>

definition demo_sized_template :: workspace_template where
  "demo_sized_template = demo_template\<lparr>tp_spec := (tp_spec demo_template)
     \<lparr>ts_resources := \<lparr>rr_limits = [''cpu'' \<mapsto> 2, ''memory'' \<mapsto> 1], rr_requests = Map.empty\<rparr>, ts_home_size := Some 10\<rparr>\<rparr>"

definition demo_claim :: "string \<Rightarrow> string \<Rightarrow> volume_claim" where
  "demo_claim n owner = \<lparr>vc_meta = (demo_meta n)\<lparr>md_labels := [label_managed_by \<mapsto> manager_name, label_retained \<mapsto> ''true'',
     label_owner \<mapsto> owner]\<rparr>, vc_storage = Some 5, vc_storage_class = None\<rparr>"

definition demo_cluster :: cluster where
  "demo_cluster = \<lparr>cl_template = (\<lambda>_ n. if n = ''t1'' then Found demo_sized_template else Missing),
     cl_namespace = (\<lambda>_. Missing),
     cl_claim = (\<lambda>_ n. if n = ''old-home'' then Found (demo_claim n ''u1'') else Missing),
     cl_workspaces = (\<lambda>_. Some []), cl_templates = (\<lambda>_. Some [demo_sized_template]),
     cl_images = (\<lambda>_. Some [demo_image ''i'' '''']), cl_policies = (\<lambda>_. Some [demo_policy ''p'' 0 []]),
     cl_claims = Some [demo_claim ''old-home'' ''u1'']\<rparr>"

definition demo_validator :: "unit validator" where
  "demo_validator = \<lparr>v_kubevirt = False, v_trusted_writers = [''api-server''], v_bypass_subjects = [''gitops''],
     v_pattern = [], v_text = ascii_lib, v_cron = office_lib,
     v_order = (\<lambda>S. filter (\<lambda>f. f \<in> S) all_overridable_fields), v_same_spec = (=)\<rparr>"

definition demo_caller :: "string \<Rightarrow> admission_request" where
  "demo_caller u = \<lparr>rq_username = u, rq_groups = []\<rparr>"

lemmas webhook_demo = demo_validator_def demo_cluster_def demo_caller_def demo_workspace_def demo_meta_def demo_sized_template_def
  demo_template_def demo_policy_def demo_image_def demo_claim_def demo_limits_def empty_overrides_def

lemma demo_shape: "validate_shape demo_workspace = None"
  by (simp add: validate_shape_def first_denial_None webhook_demo Let_def)

lemma demo_untouched: "check_frozen ws ws = None"
  by (simp add: check_frozen_def first_denial_None Let_def)

theorem identity_frozen_witness:
  "sp_owner (ws_spec (demo_workspace\<lparr>ws_spec := (ws_spec demo_workspace)\<lparr>sp_paused := True\<rparr>\<rparr>)) = ''u1''"
proof -
  let ?ws = "demo_workspace\<lparr>ws_spec := (ws_spec demo_workspace)\<lparr>sp_paused := True\<rparr>\<rparr>"
  have "structural_denial demo_cluster (Some demo_workspace) ?ws = None"
    by (simp add: structural_None check_frozen_def validate_shape_def first_denial_None webhook_demo Let_def ws_annotation_def)
  moreover have "exempt demo_validator (Some demo_workspace) ?ws"
    by (simp add: exempt_def pause_only_def webhook_demo)
  ultimately have "is_admitted (validate_workspace demo_validator demo_cluster (demo_caller ''eve'') (Some demo_workspace) ?ws)"
    by (simp add: validate_workspace_def)
  from identity_frozen [OF this] show ?thesis by (simp add: demo_workspace_def)
qed

theorem adopted_volume_owned_witness:
  "\<exists>pvc. cl_claim demo_cluster ''waas'' ''old-home'' = Found pvc \<and> label_of (vc_meta pvc) label_owner = ''u1''"
proof -
  let ?ws = "demo_workspace\<lparr>ws_spec := (ws_spec demo_workspace)\<lparr>sp_home_volume_name := ''old-home'', sp_template_ref := ''t9''\<rparr>\<rparr>"
  have ns: "effective_target_namespace ?ws = ''waas''"
    by (simp add: effective_target_namespace_def demo_workspace_def demo_meta_def)
  have "structural_denial demo_cluster None ?ws = None"
    unfolding structural_None check_home_volume_adoption_def ns
    by (simp add: first_denial_None webhook_demo Let_def label_of_def label_names validate_shape_def)
  then have "is_admitted (validate_workspace demo_validator demo_cluster (demo_caller ''u1'') None ?ws)"
    by (simp add: validate_workspace_def exempt_def demo_cluster_def)
  from adopted_volume_owned [OF this] ns show ?thesis by (auto simp: demo_workspace_def)
qed

abbreviation demo_caller_identity :: identity where
  "demo_caller_identity \<equiv> \<lparr>id_owner = ''u1'', id_username = ''u1'', id_groups = []\<rparr>"

lemma demo_identity_resolved:
  "resolve_identity demo_validator (demo_caller ''u1'') demo_workspace = Inr demo_caller_identity"
  by (simp add: resolve_identity_untrusted webhook_demo)

theorem self_declared_admin_witness:
  "let ws' = demo_workspace\<lparr>ws_meta := (ws_meta demo_workspace)\<lparr>md_annotations :=
      (md_annotations (ws_meta demo_workspace))(annotation_role \<mapsto> ''admin'')\<rparr>\<rparr>
   in check_overrides (v_text demo_validator) (v_order demo_validator) ws' demo_sized_template None
      \<lparr>id_owner = ''u1'', id_username = ''u1'', id_groups = []\<rparr> (v_pattern demo_validator) = None"
  unfolding Let_def
  by (rule self_declared_admin [OF _ demo_identity_resolved refl, THEN conjunct2, THEN conjunct2])
    (simp add: demo_validator_def demo_caller_def)

theorem deferred_identity_unchecked_witness:
  "is_admitted (validate_workspace demo_validator (demo_cluster\<lparr>cl_template := \<lambda>_ _. Missing\<rparr>) (demo_caller ''eve'') None demo_workspace)"
  using deferred_identity_unchecked [OF demo_shape, of "demo_cluster\<lparr>cl_template := \<lambda>_ _. Missing\<rparr>" demo_validator "demo_caller ''eve''"]
  by (simp add: demo_workspace_def)

lemma demo_decision:
  shows "resolve_policy [demo_policy ''p'' 0 []] demo_caller_identity = Inr (demo_policy ''p'' 0 [], None)"
    and "find_image [demo_image ''i'' ''''] (ts_image (tp_spec demo_sized_template)) = Some (demo_image ''i'' '''')"
    and "image_allowed (demo_image ''i'' '''') (demo_policy ''p'' 0 []) demo_caller_identity = None"
    and "check_tag_discipline (demo_image ''i'' '''') (ts_image (tp_spec demo_sized_template)) = None"
    and "check_protocol demo_sized_template (demo_image ''i'' '''') = None"
    and "check_overrides (v_text demo_validator) (v_order demo_validator) demo_workspace demo_sized_template
      (Some (demo_policy ''p'' 0 [])) demo_caller_identity (v_pattern demo_validator) = None"
    and "load_of demo_workspace demo_sized_template (Some (demo_image ''i'' '''')) = (demo_load, True)"
    and "check_limits demo_load True (demo_image ''i'' '''') (demo_policy ''p'' 0 []) [retained_load 5] = None"
    and "cl_images demo_cluster ns = Some [demo_image ''i'' '''']" "cl_policies demo_cluster ns = Some [demo_policy ''p'' 0 []]"
proof -
  let ?p = "demo_policy ''p'' 0 []" and ?img = "demo_image ''i'' ''''"
  show "resolve_policy [?p] demo_caller_identity = Inr (?p, None)"
    by (simp add: resolve_policy_def matched_via_iff demo_policy_def)
  show "find_image [?img] (ts_image (tp_spec demo_sized_template)) = Some ?img"
    by (simp add: find_image_def demo_image_def demo_sized_template_def demo_template_def)
  show "image_allowed ?img ?p demo_caller_identity = None" by (simp add: image_allowed_None demo_image_def demo_policy_def)
  show "check_tag_discipline ?img (ts_image (tp_spec demo_sized_template)) = None"
    by (simp add: check_tag_discipline_def effective_tag_policy_def demo_image_def Let_def)
  show "check_protocol demo_sized_template ?img = None"
    by (simp add: check_protocol_def effective_protocols_def demo_sized_template_def demo_template_def demo_image_def os_linux_def os_windows_def)
  have us: "overrides_usage (sp_overrides (ws_spec demo_workspace)) = {FieldEnv}"
    by (simp add: demo_workspace_def overrides_usage_def override_claims_def empty_overrides_def)
  show "check_overrides (v_text demo_validator) (v_order demo_validator) demo_workspace demo_sized_template (Some ?p) demo_caller_identity
      (v_pattern demo_validator) = None"
    unfolding check_overrides_def us
    by (simp add: first_denial_None placement_deviates_def demo_validator_def all_overridable_fields_def check_field_None
        field_overridable_def policy_allows_def demo_sized_template_def demo_template_def demo_policy_def demo_workspace_def
        empty_overrides_def)
  show "load_of demo_workspace demo_sized_template (Some ?img) = (demo_load, True)"
    by (simp add: load_of_def demo_workspace_def demo_sized_template_def demo_template_def pick_def or_else_def demo_load_def)
  show "check_limits demo_load True ?img ?p [retained_load 5] = None"
    by (simp add: check_limits_None fits_totals_def fits_bounds_def demo_policy_def demo_limits_def demo_load_def retained_load_def
        demo_image_def at_most_def at_least_def image_min_def image_max_def total_compute_def total_storage_def
        workspace_count_def running_count_def)
  show "cl_images demo_cluster ns = Some [?img]" "cl_policies demo_cluster ns = Some [?p]"
    by (simp_all add: demo_cluster_def)
qed

lemma demo_others: "other_loads demo_cluster demo_workspace ''u1'' [demo_image ''i'' ''''] = Some [retained_load 5]"
  by (simp add: other_loads_def demo_cluster_def owner_loads_def retained_volume_loads_def retained_of_def demo_claim_def
      label_names demo_meta_def demo_workspace_def)

lemma demo_enforced:
  "enforce demo_validator demo_cluster demo_workspace demo_sized_template demo_caller_identity = Inr []"
proof -
  have pl: "check_placement_ownership demo_validator demo_cluster demo_workspace demo_sized_template demo_caller_identity = None"
    by (simp add: check_placement_ownership_def demo_workspace_def)
  have co: "check_workload_name_collision demo_cluster demo_workspace = None"
    by (simp add: check_workload_name_collision_def demo_cluster_def)
  have sc: "check_schedule_override demo_validator demo_workspace = None"
    by (simp add: check_schedule_override_def demo_workspace_def empty_overrides_def)
  have we: "weighed_load demo_cluster demo_workspace demo_load = demo_load"
    by (simp add: weighed_load_def demo_workspace_def)
  show ?thesis
    by (simp add: enforce_def Let_def pl co sc demo_others we demo_decision)
qed

theorem governed_admission_witness:
  "\<exists>i p img others. governs p [demo_policy ''p'' 0 []] i \<and> sp_owner (ws_spec demo_workspace) = id_owner i \<and>
    within_quota demo_cluster demo_workspace demo_sized_template img p others \<and>
    entitled ascii_lib demo_workspace demo_sized_template (Some p) i []"
proof -
  have t: "cl_template demo_cluster (md_namespace (ws_meta demo_workspace)) (sp_template_ref (ws_spec demo_workspace)) =
      Found demo_sized_template"
    by (simp add: demo_cluster_def demo_workspace_def)
  have b: "\<not> bypassed demo_validator (rq_username (demo_caller ''u1'')) (rq_groups (demo_caller ''u1''))"
    by (simp add: bypassed_def demo_validator_def demo_caller_def)
  have "structural_denial demo_cluster None demo_workspace = None"
    by (simp add: structural_None demo_shape) (simp add: demo_workspace_def)
  then have a: "is_admitted (validate_workspace demo_validator demo_cluster (demo_caller ''u1'') None demo_workspace)"
    using b by (simp add: validate_workspace_def exempt_def t demo_identity_resolved demo_enforced)
      (simp add: demo_sized_template_def demo_template_def os_linux_def os_windows_def)
  have e: "\<not> exempt demo_validator None demo_workspace" by (simp add: exempt_def)
  have o: "set (v_order demo_validator S) = S" for S
    by (auto simp: demo_validator_def)
  from governed_admission [OF a e b t this] show ?thesis
  proof (elim exE conjE)
    fix i p img catalog policies others
    assume h: "resolve_identity demo_validator (demo_caller ''u1'') demo_workspace = Inr i" "governs p policies i"
      "cl_policies demo_cluster (md_namespace (ws_meta demo_workspace)) = Some policies"
      "cl_images demo_cluster (md_namespace (ws_meta demo_workspace)) = Some catalog"
      "other_loads demo_cluster demo_workspace (id_owner i) catalog = Some others"
      "int (length others) < 2147483647 \<longrightarrow> within_quota demo_cluster demo_workspace demo_sized_template img p others"
      "ws_annotation demo_workspace annotation_role \<noteq> ''admin'' \<longrightarrow> owners_to_use demo_validator demo_cluster demo_workspace demo_sized_template i \<and>
        entitled (v_text demo_validator) demo_workspace demo_sized_template (Some p) i (v_pattern demo_validator)"
    have i: "i = demo_caller_identity" using h(1) by (simp add: demo_identity_resolved)
    have p: "governs p [demo_policy ''p'' 0 []] i" using h(2,3) by (simp add: demo_cluster_def)
    have "others = [retained_load 5]" using h(4,5) demo_others by (auto simp: i demo_decision)
    then have q: "within_quota demo_cluster demo_workspace demo_sized_template img p others" using h(6) by simp
    have "entitled ascii_lib demo_workspace demo_sized_template (Some p) i []"
      using h(7) by (simp add: demo_validator_def ws_annotation_def demo_workspace_def demo_meta_def)
    with p q show ?thesis by (intro exI [of _ i] exI [of _ p] exI [of _ img] exI [of _ others]) (simp add: i demo_workspace_def)
  qed
qed

end
