(* ===== verification/Home_Volume.thy ===== *)
theory Home_Volume
  imports Webhook
begin

text \<open>
  The life of a home volume in the operator: \<open>syncHomeVolumeMeta\<close> and \<open>syncMetaSide\<close> of
  \<open>home_volume_meta.go\<close>, \<open>ensureHomePVC\<close> and \<open>finalizeHomeVolume\<close> of \<open>workspace_controller.go\<close>, and the
  expiry of \<open>enforceLifetime\<close> in \<open>workspace_governance.go\<close>. The claims of the cluster are a map from
  namespace and name. A deletion marks the claim, the server drops it later. The JSON codec of the
  ledger annotation, the rendering of the clock and the outcomes of the API calls are parameters.
\<close>

section \<open>Template-driven metadata\<close>

definition annotation_template_meta :: string where "annotation_template_meta = ''waas.xorhub.io/template-meta''"

record template_meta_ledger =
  lg_labels :: "string list"
  lg_annotations :: "string list"

record ledger_codec =
  lc_decode :: "string \<Rightarrow> template_meta_ledger"
  lc_encode :: "template_meta_ledger \<Rightarrow> string"

fun drop_ledgered ::
  "(string \<times> string) list \<Rightarrow> string list \<Rightarrow> (string \<rightharpoonup> string) \<Rightarrow> bool \<Rightarrow> (string \<rightharpoonup> string) \<times> bool" where
  "drop_ledgered desired [] cur changed = (cur, changed)"
| "drop_ledgered desired (k # ks) cur changed =
     (if check_key k \<noteq> None then drop_ledgered desired ks cur changed
      else if map_of desired k \<noteq> None then drop_ledgered desired ks cur changed
      else if cur k \<noteq> None then drop_ledgered desired ks (cur(k := None)) True
      else drop_ledgered desired ks cur changed)"

fun stamp_desired ::
  "(string \<times> string) list \<Rightarrow> (string \<rightharpoonup> string) \<Rightarrow> string list \<Rightarrow> bool
     \<Rightarrow> (string \<rightharpoonup> string) \<times> string list \<times> bool" where
  "stamp_desired [] cur stamped changed = (cur, stamped, changed)"
| "stamp_desired ((k, v) # m) cur stamped changed =
     (if check_key k \<noteq> None then stamp_desired m cur stamped changed
      else if cur k = Some v then stamp_desired m cur (stamped @ [k]) changed
      else stamp_desired m (cur(k \<mapsto> v)) (stamped @ [k]) True)"

definition sync_meta_side ::
  "(string \<rightharpoonup> string) \<Rightarrow> (string \<times> string) list \<Rightarrow> string list \<Rightarrow> bool \<Rightarrow> (string \<rightharpoonup> string) \<times> string list \<times> bool" where
  "sync_meta_side cur desired ledgered changed =
     (case drop_ledgered desired ledgered cur changed of (cur', changed') \<Rightarrow>
        (case stamp_desired desired cur' [] changed' of (cur'', stamped, changed'') \<Rightarrow>
           (cur'', sort stamped, changed'')))"

definition home_metadata :: "template_spec \<Rightarrow> workspace_home_volume" where
  "home_metadata s = (case ts_home_volume s of None \<Rightarrow> \<lparr>hv_labels = [], hv_annotations = []\<rparr> | Some hv \<Rightarrow> hv)"

text \<open>An absent annotation is an empty ledger.\<close>

definition ledger_of :: "ledger_codec \<Rightarrow> object_meta \<Rightarrow> template_meta_ledger" where
  "ledger_of codec m = (case md_annotations m annotation_template_meta of
     Some raw \<Rightarrow> lc_decode codec raw | None \<Rightarrow> \<lparr>lg_labels = [], lg_annotations = []\<rparr>)"

definition sync_home_volume_meta :: "ledger_codec \<Rightarrow> template_spec \<Rightarrow> object_meta \<Rightarrow> object_meta \<times> bool" where
  "sync_home_volume_meta codec s m =
     (let hv = home_metadata s;
          lg = ledger_of codec m
      in case sync_meta_side (md_labels m) (hv_labels hv) (lg_labels lg) False of (labels, ll, c1) \<Rightarrow>
         (case sync_meta_side (md_annotations m) (hv_annotations hv) (lg_annotations lg) c1 of (anns, la, c2) \<Rightarrow>
            (let m' = m\<lparr>md_labels := labels, md_annotations := anns\<rparr>; prev = anns annotation_template_meta in
             if ll = [] \<and> la = []
             then (if prev \<noteq> None then (m'\<lparr>md_annotations := anns(annotation_template_meta := None)\<rparr>, True) else (m', c2))
             else let nxt = lc_encode codec \<lparr>lg_labels = ll, lg_annotations = la\<rparr> in
               if prev \<noteq> Some nxt then (m'\<lparr>md_annotations := anns(annotation_template_meta \<mapsto> nxt)\<rparr>, True)
               else (m', c2))))"

section \<open>The claim of a workspace\<close>

type_synonym claims = "string \<times> string \<rightharpoonup> volume_claim"

datatype api_outcome = ApiOk | ApiNotFound | ApiAlreadyExists | ApiError

record volume_api =
  api_get :: bool
  api_update :: api_outcome
  api_delete :: api_outcome
  api_create :: api_outcome

datatype volume_error =
    FetchFailed string
  | TerminatingClaim string
  | ForeignClaim string
  | UpdateFailed string
  | CreateFailed string
  | DeleteFailed string

datatype volume_event =
    HomeVolumeDeleted string
  | HomeVolumeRetained string
  | HomeVolumeMetaSynced string
  | MaxLifetimeReached

definition home_pvc_name :: "workspace \<Rightarrow> string" where
  "home_pvc_name ws =
     (if sp_home_volume_name (ws_spec ws) \<noteq> [] then sp_home_volume_name (ws_spec ws)
      else effective_workload_name ws @ ''-home'')"

definition home_key :: "workspace \<Rightarrow> string \<times> string" where
  "home_key ws = (effective_target_namespace ws, home_pvc_name ws)"

definition workspace_labels :: "workspace \<Rightarrow> (string \<times> string) list" where
  "workspace_labels ws =
     [(label_managed_by, manager_name), (label_workspace, md_name (ws_meta ws)),
      (label_workspace_namespace, md_namespace (ws_meta ws)), (label_owner, sp_owner (ws_spec ws))]"

definition put_labels :: "(string \<times> string) list \<Rightarrow> (string \<rightharpoonup> string) \<Rightarrow> (string \<rightharpoonup> string)" where
  "put_labels kvs m = foldl (\<lambda>m (k, v). m(k \<mapsto> v)) m kvs"

text \<open>A read of the store: a missing claim, a failed read or the claim.\<close>

definition get_claim :: "volume_api \<Rightarrow> claims \<Rightarrow> string \<times> string \<Rightarrow> volume_claim fetched" where
  "get_claim api st key =
     (if \<not> api_get api then Failed else case st key of None \<Rightarrow> Missing | Some pvc \<Rightarrow> Found pvc)"

definition mark_deleted :: "volume_claim \<Rightarrow> volume_claim" where
  "mark_deleted pvc = pvc\<lparr>vc_meta := (vc_meta pvc)\<lparr>md_deleted := True\<rparr>\<rparr>"

text \<open>The deletion request at a key: the server marks the claim, if it holds one.\<close>

definition delete_claim :: "volume_api \<Rightarrow> claims \<Rightarrow> string \<times> string \<Rightarrow> bool \<times> claims" where
  "delete_claim api st key =
     (case api_delete api of
        ApiOk \<Rightarrow> (True, st(key := map_option mark_deleted (st key)))
      | ApiNotFound \<Rightarrow> (True, st)
      | _ \<Rightarrow> (False, st))"

definition finalize_home_volume ::
  "volume_api \<Rightarrow> string \<Rightarrow> workspace \<Rightarrow> claims \<Rightarrow> (volume_error + volume_event list) \<times> claims" where
  "finalize_home_volume api now ws st =
     (let key = home_key ws in
      case get_claim api st key of
        Missing \<Rightarrow> (Inr [], st)
      | Failed \<Rightarrow> (Inl (FetchFailed (snd key)), st)
      | Found pvc \<Rightarrow>
          if label_of (vc_meta pvc) label_workspace \<noteq> md_name (ws_meta ws) then (Inr [], st)
          else if ws_annotation ws annotation_delete_home = ''true'' then
            (case delete_claim api st key of (ok, st') \<Rightarrow>
               if ok then (Inr [HomeVolumeDeleted (snd key)], st') else (Inl (DeleteFailed (snd key)), st'))
          else
            (let m = vc_meta pvc;
                 origin = (if sp_display_name (ws_spec ws) = [] then md_name (ws_meta ws) else sp_display_name (ws_spec ws));
                 m' = m\<lparr>md_labels := ((md_labels m)(label_retained \<mapsto> ''true''))(label_workspace := None, label_workspace_namespace := None),
                        md_annotations := (md_annotations m)(annotation_origin_workspace \<mapsto> origin, annotation_retained_at \<mapsto> now)\<rparr>
             in if api_update api = ApiOk
                then (Inr [HomeVolumeRetained (snd key)], st(key \<mapsto> pvc\<lparr>vc_meta := m'\<rparr>))
                else (Inl (UpdateFailed (snd key)), st)))"

definition adopt_meta :: "workspace \<Rightarrow> object_meta \<Rightarrow> object_meta \<times> bool" where
  "adopt_meta ws m =
     (if label_of m label_retained = ''true'' \<or> label_of m label_workspace \<noteq> md_name (ws_meta ws)
      then (m\<lparr>md_labels := (put_labels (workspace_labels ws) (md_labels m))(label_retained := None),
              md_annotations := (md_annotations m)(annotation_retained_at := None)\<rparr>, True)
      else (m, False))"

definition new_home_claim :: "ledger_codec \<Rightarrow> workspace \<Rightarrow> template_spec \<Rightarrow> volume_claim" where
  "new_home_claim codec ws s =
     (let m = \<lparr>md_name = home_pvc_name ws, md_namespace = effective_target_namespace ws, md_uid = [],
               md_labels = map_of (workspace_labels ws), md_annotations = Map.empty, md_deleted = False, md_created = 0\<rparr>
      in \<lparr>vc_meta = fst (sync_home_volume_meta codec s m),
          vc_storage = Some (case ts_home_size s of Some q \<Rightarrow> q | None \<Rightarrow> default_home_size),
          vc_storage_class = ts_storage_class_name s\<rparr>)"

definition ensure_home_pvc ::
  "volume_api \<Rightarrow> ledger_codec \<Rightarrow> workspace \<Rightarrow> template_spec \<Rightarrow> claims
     \<Rightarrow> (volume_error + string \<times> volume_event list) \<times> claims" where
  "ensure_home_pvc api codec ws s st =
     (let key = home_key ws; name = home_pvc_name ws in
      case get_claim api st key of
        Failed \<Rightarrow> (Inl (FetchFailed name), st)
      | Missing \<Rightarrow>
          (case api_create api of
             ApiOk \<Rightarrow> (Inr (name, []), st(key \<mapsto> new_home_claim codec ws s))
           | ApiAlreadyExists \<Rightarrow> (Inr (name, []), st)
           | _ \<Rightarrow> (Inl (CreateFailed name), st))
      | Found pvc \<Rightarrow>
          (let m = vc_meta pvc; owner = label_of m label_owner in
           if md_deleted m then (Inl (TerminatingClaim name), st)
           else if owner \<noteq> [] \<and> owner \<noteq> sp_owner (ws_spec ws) then (Inl (ForeignClaim name), st)
           else case adopt_meta ws m of (m1, adopted) \<Rightarrow>
             (case (if label_of m1 label_workspace = md_name (ws_meta ws) then sync_home_volume_meta codec s m1 else (m1, False)) of
               (m2, changed) \<Rightarrow>
                 if adopted \<or> changed then
                   (if api_update api = ApiOk
                    then (Inr (name, if changed then [HomeVolumeMetaSynced name] else []), st(key \<mapsto> pvc\<lparr>vc_meta := m2\<rparr>))
                    else (Inl (UpdateFailed name), st))
                 else (Inr (name, []), st))))"

section \<open>Expiry\<close>

text \<open>
  The outcome of \<open>enforceLifetime\<close> at an instant: whether the workspace was deleted, and otherwise the
  delay to its expiry (zero: none). The last argument of the outcomes is the deletion of the workspace.
\<close>

definition enforce_lifetime ::
  "volume_api \<Rightarrow> api_outcome \<Rightarrow> workspace_policy list option \<Rightarrow> int \<Rightarrow> workspace \<Rightarrow> claims
     \<Rightarrow> (volume_error + bool \<times> int) \<times> volume_event list \<times> claims" where
  "enforce_lifetime api ws_delete policies now ws st =
     (case policies of
        None \<Rightarrow> (Inl (FetchFailed ''policies''), [], st)
      | Some ps \<Rightarrow>
         (case resolve_policy ps (identity_of ws) of
            Inl _ \<Rightarrow> (Inr (False, 0), [], st)
          | Inr (pol, _) \<Rightarrow>
             (case (case po_lifecycle pol of None \<Rightarrow> None | Some lc \<Rightarrow> lc_max_lifetime lc) of
                None \<Rightarrow> (Inr (False, 0), [], st)
              | Some ttl \<Rightarrow>
                 if ttl \<le> 0 then (Inr (False, 0), [], st)
                 else let remaining = md_created (ws_meta ws) + ttl - now in
                   if 0 < remaining then (Inr (False, remaining), [], st)
                   else (case delete_claim api st (home_key ws) of (ok, st') \<Rightarrow>
                     if \<not> ok then (Inl (DeleteFailed (home_pvc_name ws)), [MaxLifetimeReached], st')
                     else if ws_delete = ApiOk \<or> ws_delete = ApiNotFound then (Inr (True, 0), [MaxLifetimeReached], st')
                     else (Inl (DeleteFailed (md_name (ws_meta ws))), [MaxLifetimeReached], st')))))"

section \<open>Facts on metadata\<close>

lemma platform_keys_denied:
  "k \<in> {label_retained, label_owner, label_workspace, label_workspace_namespace, label_managed_by, annotation_template_meta,
     annotation_origin_workspace, annotation_retained_at} \<Longrightarrow> check_key k \<noteq> None"
  unfolding label_names annotation_template_meta_def annotation_origin_workspace_def annotation_retained_at_def
  by (elim insertE emptyE) (simp_all add: check_key_def domain_denied_def denied_domains_def has_suffix_def)

lemma drop_ledgered_at:
  "fst (drop_ledgered desired ks cur changed) k =
    (if k \<in> set ks \<and> check_key k = None \<and> map_of desired k = None then None else cur k)"
  by (induction ks arbitrary: cur changed) auto

lemma drop_ledgered_changed:
  "snd (drop_ledgered desired ks cur changed) \<longleftrightarrow> changed \<or> fst (drop_ledgered desired ks cur changed) \<noteq> cur"
proof (induction ks arbitrary: cur changed)
  case (Cons k ks)
  have "fst (drop_ledgered desired ks (cur(k := None)) True) \<noteq> cur" if "cur k \<noteq> None"
  proof -
    have "fst (drop_ledgered desired ks (cur(k := None)) True) k = None" by (simp add: drop_ledgered_at)
    with that show ?thesis by metis
  qed
  with Cons show ?case by auto
qed simp

lemma stamp_desired_at:
  "distinct (map fst m) \<Longrightarrow> fst (stamp_desired m cur stamped changed) k =
    (if check_key k = None \<and> map_of m k \<noteq> None then map_of m k else cur k)"
proof (induction m arbitrary: cur stamped changed)
  case (Cons kv m)
  then have "map_of m (fst kv) = None" by (simp add: map_of_eq_None_iff)
  with Cons show ?case by (cases kv) (auto simp del: not_None_eq)
qed simp

lemma stamp_desired_names:
  "fst (snd (stamp_desired m cur stamped changed)) = stamped @ filter (\<lambda>k. check_key k = None) (map fst m)"
  by (induction m arbitrary: cur stamped changed) (auto split: prod.splits)

lemma stamp_desired_changed:
  "distinct (map fst m) \<Longrightarrow>
    snd (snd (stamp_desired m cur stamped changed)) \<longleftrightarrow> changed \<or> fst (stamp_desired m cur stamped changed) \<noteq> cur"
proof (induction m arbitrary: cur stamped changed)
  case (Cons kv m)
  obtain k v where kv: "kv = (k, v)" by fastforce
  have "fst (stamp_desired m (cur(k \<mapsto> v)) (stamped @ [k]) True) \<noteq> cur" if "cur k \<noteq> Some v"
  proof -
    have "fst (stamp_desired m (cur(k \<mapsto> v)) (stamped @ [k]) True) k = Some v"
      using Cons.prems by (simp add: kv stamp_desired_at map_of_eq_None_iff [THEN iffD2])
    with that show ?thesis by metis
  qed
  with Cons kv show ?case by auto
qed simp

lemma sync_meta_side_at:
  assumes "distinct (map fst desired)" "sync_meta_side cur desired ledgered changed = (new, names, c)"
  shows "new k = (if check_key k \<noteq> None then cur k else case map_of desired k of
      Some v \<Rightarrow> Some v | None \<Rightarrow> if k \<in> set ledgered then None else cur k)"
    "names = sort (filter (\<lambda>k. check_key k = None) (map fst desired))"
    "c \<longleftrightarrow> changed \<or> new \<noteq> cur"
proof -
  obtain cur' ch' where d: "drop_ledgered desired ledgered cur changed = (cur', ch')" by fastforce
  obtain stamped where s: "stamp_desired desired cur' [] ch' = (new, stamped, c)" "names = sort stamped"
    using assms(2) by (auto simp: sync_meta_side_def d split: prod.splits)
  have cur': "cur' k = (if k \<in> set ledgered \<and> check_key k = None \<and> map_of desired k = None then None else cur k)" for k
    using drop_ledgered_at [of desired ledgered cur changed k] by (simp add: d)
  have new: "new k = (if check_key k = None \<and> map_of desired k \<noteq> None then map_of desired k else cur' k)" for k
    using stamp_desired_at [OF assms(1), of cur' "[]" ch' k] by (simp add: s(1))
  show "new k = (if check_key k \<noteq> None then cur k else case map_of desired k of
      Some v \<Rightarrow> Some v | None \<Rightarrow> if k \<in> set ledgered then None else cur k)"
    using new [of k] cur' [of k] by (auto split: option.split)
  show "names = sort (filter (\<lambda>k. check_key k = None) (map fst desired))"
    using stamp_desired_names [of desired cur' "[]" ch'] by (simp add: s)
  have c: "ch' \<longleftrightarrow> changed \<or> cur' \<noteq> cur"
    using drop_ledgered_changed [of desired ledgered cur changed] by (simp add: d)
  have c': "c \<longleftrightarrow> ch' \<or> new \<noteq> cur'"
    using stamp_desired_changed [OF assms(1), of cur' "[]" ch'] unfolding s(1) by simp
  have "new \<noteq> cur \<longleftrightarrow> cur' \<noteq> cur \<or> new \<noteq> cur'"
  proof
    assume "cur' \<noteq> cur \<or> new \<noteq> cur'"
    then have "\<exists>k. cur' k \<noteq> cur k \<or> new k \<noteq> cur' k" by (metis ext)
    then obtain k where "cur' k \<noteq> cur k \<or> new k \<noteq> cur' k" ..
    then have "new k \<noteq> cur k" using new [of k] cur' [of k] by (auto split: if_splits)
    then show "new \<noteq> cur" by metis
  qed auto
  with c c' show "c \<longleftrightarrow> changed \<or> new \<noteq> cur" by blast
qed

text \<open>An unchanged side is the side it was, whatever the template holds.\<close>

lemma sync_meta_side_unchanged:
  assumes "sync_meta_side cur desired ledgered changed = (new, names, c)" "\<not> c"
  shows "new = cur \<and> \<not> changed"
proof -
  have mono: "changed \<Longrightarrow> snd (snd (stamp_desired m cur stamped changed))" for m cur stamped changed
    by (induction m arbitrary: cur stamped changed) (auto split: prod.splits)
  have stamp: "fst (stamp_desired m cur stamped changed) = cur \<and> \<not> changed"
    if "\<not> snd (snd (stamp_desired m cur stamped changed))" for m cur stamped changed
    using that by (induction m arbitrary: cur stamped changed) (auto split: prod.splits if_splits simp: mono)
  obtain cur' ch' where d: "drop_ledgered desired ledgered cur changed = (cur', ch')" by fastforce
  with assms have "\<not> snd (snd (stamp_desired desired cur' [] ch'))" "new = fst (stamp_desired desired cur' [] ch')"
    by (auto simp: sync_meta_side_def split: prod.splits)
  with stamp have "new = cur'" "\<not> ch'" by blast+
  with drop_ledgered_changed [of desired ledgered cur changed] show ?thesis by (simp add: d)
qed

text \<open>A side that shows all it should and whose ledger names only what is desired is left alone.\<close>

lemma sync_meta_side_fixed:
  assumes "distinct (map fst desired)"
    "\<And>k v. check_key k = None \<Longrightarrow> map_of desired k = Some v \<Longrightarrow> cur k = Some v" "set ledgered \<subseteq> fst ` set desired"
  shows "sync_meta_side cur desired ledgered changed = (cur, sort (filter (\<lambda>k. check_key k = None) (map fst desired)), changed)"
proof -
  obtain new names c where r: "sync_meta_side cur desired ledgered changed = (new, names, c)" by (metis prod_cases3)
  note a = sync_meta_side_at [OF assms(1) r]
  have "new k = cur k" for k
    using a(1) [of k] assms(2,3) by (auto split: option.splits simp: map_of_eq_None_iff)
  then have "new = cur" by blast
  with a(2,3) r show ?thesis by simp
qed

text \<open>The three parts of a synchronization.\<close>

lemma sync_home_volume_meta_cases:
  assumes "sync_home_volume_meta codec s m = (m', c)"
  obtains labels ll c1 anns la c2 where
    "sync_meta_side (md_labels m) (hv_labels (home_metadata s)) (lg_labels (ledger_of codec m)) False = (labels, ll, c1)"
    "sync_meta_side (md_annotations m) (hv_annotations (home_metadata s)) (lg_annotations (ledger_of codec m)) c1 = (anns, la, c2)"
    "md_labels m' = labels" "\<And>k. k \<noteq> annotation_template_meta \<Longrightarrow> md_annotations m' k = anns k"
    "md_annotations m' annotation_template_meta =
       (if ll = [] \<and> la = [] then None else Some (lc_encode codec \<lparr>lg_labels = ll, lg_annotations = la\<rparr>))"
    "c \<longleftrightarrow> c2 \<or> md_annotations m' \<noteq> anns"
    "m' = m\<lparr>md_labels := md_labels m', md_annotations := md_annotations m'\<rparr>"
proof -
  obtain labels ll c1 where l: "sync_meta_side (md_labels m) (hv_labels (home_metadata s)) (lg_labels (ledger_of codec m)) False = (labels, ll, c1)"
    by (metis prod_cases3)
  obtain anns la c2 where a: "sync_meta_side (md_annotations m) (hv_annotations (home_metadata s)) (lg_annotations (ledger_of codec m)) c1 = (anns, la, c2)"
    by (metis prod_cases3)
  define nxt where "nxt = lc_encode codec \<lparr>lg_labels = ll, lg_annotations = la\<rparr>"
  have r: "(if ll = [] \<and> la = []
      then (if anns annotation_template_meta \<noteq> None
        then (m\<lparr>md_labels := labels, md_annotations := anns(annotation_template_meta := None)\<rparr>, True)
        else (m\<lparr>md_labels := labels, md_annotations := anns\<rparr>, c2))
      else if anns annotation_template_meta \<noteq> Some nxt
        then (m\<lparr>md_labels := labels, md_annotations := anns(annotation_template_meta \<mapsto> nxt)\<rparr>, True)
        else (m\<lparr>md_labels := labels, md_annotations := anns\<rparr>, c2)) = (m', c)"
    using assms unfolding sync_home_volume_meta_def Let_def l prod.case a nxt_def [symmetric]
    by (simp cong: if_cong)
  have ne: "f(k := x) \<noteq> f" if "f k \<noteq> x" for f :: "string \<rightharpoonup> string" and k x using that by (metis fun_upd_same)
  show thesis
    by (rule that [OF l a]) (use r ne in \<open>auto split: if_splits simp: nxt_def\<close>)
qed

lemma stamp_desired_denied: "check_key k \<noteq> None \<Longrightarrow> fst (stamp_desired m cur stamped changed) k = cur k"
proof (induction m arbitrary: cur stamped changed)
  case (Cons kv m)
  then show ?case by (cases kv) (auto simp del: not_None_eq)
qed simp

lemma sync_keeps_platform:
  assumes "check_key k \<noteq> None"
  shows "md_labels (fst (sync_home_volume_meta codec s m)) k = md_labels m k"
    "md_deleted (fst (sync_home_volume_meta codec s m)) = md_deleted m"
proof -
  have side: "fst (sync_meta_side cur desired ledgered changed) k = cur k" for cur desired ledgered changed
    using assms drop_ledgered_at [of desired ledgered cur changed k] stamp_desired_denied [OF assms]
    by (auto simp: sync_meta_side_def split: prod.splits) (metis fst_conv)+
  obtain m' c where r: "sync_home_volume_meta codec s m = (m', c)" by fastforce
  show "md_labels (fst (sync_home_volume_meta codec s m)) k = md_labels m k"
    by (rule sync_home_volume_meta_cases [OF r]) (use side in \<open>metis fst_conv r\<close>)
  show "md_deleted (fst (sync_home_volume_meta codec s m)) = md_deleted m"
  proof (rule sync_home_volume_meta_cases [OF r])
    assume "m' = m\<lparr>md_labels := md_labels m', md_annotations := md_annotations m'\<rparr>"
    then have "md_deleted m' = md_deleted (m\<lparr>md_labels := md_labels m', md_annotations := md_annotations m'\<rparr>)"
      by (rule arg_cong)
    then show ?thesis by (simp add: r)
  qed
qed

lemma sync_keeps_deleted: "md_deleted (fst (sync_home_volume_meta codec s m)) = md_deleted m"
  by (rule sync_keeps_platform(2) [of label_owner]) (rule platform_keys_denied, simp)

section \<open>Runs\<close>

text \<open>What happens to the claims: the operations above on any workspaces, and the server dropping a marked claim.\<close>

datatype volume_op =
    Ensure volume_api ledger_codec workspace template_spec
  | Finalize volume_api string workspace
  | Expire volume_api api_outcome "workspace_policy list option" int workspace
  | Release "string \<times> string"

fun apply_op :: "volume_op \<Rightarrow> claims \<Rightarrow> claims" where
  "apply_op (Ensure api codec ws s) st = snd (ensure_home_pvc api codec ws s st)"
| "apply_op (Finalize api now ws) st = snd (finalize_home_volume api now ws st)"
| "apply_op (Expire api wsd ps now ws) st = snd (snd (enforce_lifetime api wsd ps now ws st))"
| "apply_op (Release key) st =
     (case st key of Some pvc \<Rightarrow> if md_deleted (vc_meta pvc) then st(key := None) else st | None \<Rightarrow> st)"

definition run_ops :: "volume_op list \<Rightarrow> claims \<Rightarrow> claims" where
  "run_ops ops st = foldl (\<lambda>st op. apply_op op st) st ops"

text \<open>The claim keeps its owner, its size and, once marked, its mark.\<close>

definition kept :: "volume_claim \<Rightarrow> volume_claim \<Rightarrow> bool" where
  "kept pvc pvc' \<longleftrightarrow> label_of (vc_meta pvc') label_owner = label_of (vc_meta pvc) label_owner \<and>
     vc_storage pvc' = vc_storage pvc \<and> (md_deleted (vc_meta pvc) \<longrightarrow> md_deleted (vc_meta pvc'))"

lemma kept_refl [simp]: "kept pvc pvc"
  by (simp add: kept_def)

lemma kept_trans: "kept a b \<Longrightarrow> kept b c \<Longrightarrow> kept a c"
  by (simp add: kept_def)

lemma label_distinct [simp]:
  "label_owner \<noteq> label_retained" "label_owner \<noteq> label_workspace" "label_owner \<noteq> label_workspace_namespace"
  "label_owner \<noteq> label_managed_by" "label_retained \<noteq> label_owner" "label_retained \<noteq> label_workspace"
  "label_retained \<noteq> label_workspace_namespace" "label_retained \<noteq> label_managed_by" "label_workspace \<noteq> label_owner"
  "label_workspace \<noteq> label_retained" "label_workspace \<noteq> label_workspace_namespace" "label_workspace \<noteq> label_managed_by"
  "label_managed_by \<noteq> label_owner" "label_managed_by \<noteq> label_workspace" "label_managed_by \<noteq> label_retained"
  "label_managed_by \<noteq> label_workspace_namespace" "label_workspace_namespace \<noteq> label_owner"
  "label_workspace_namespace \<noteq> label_workspace" "label_workspace_namespace \<noteq> label_retained"
  "label_workspace_namespace \<noteq> label_managed_by"
  by (simp_all add: label_names)

lemma put_labels_at:
  "put_labels (workspace_labels ws) m label_owner = Some (sp_owner (ws_spec ws))"
  "put_labels (workspace_labels ws) m label_workspace = Some (md_name (ws_meta ws))"
  "put_labels (workspace_labels ws) m label_managed_by = Some manager_name"
  by (simp_all add: put_labels_def workspace_labels_def)

lemma sync_label_of:
  assumes "k \<in> {label_retained, label_owner, label_workspace, label_managed_by}"
  shows "label_of (fst (sync_home_volume_meta codec s m)) k = label_of m k"
proof -
  have "check_key k \<noteq> None" by (rule platform_keys_denied) (use assms in auto)
  then show ?thesis by (simp add: label_of_def str_at_def sync_keeps_platform(1))
qed

lemma adopt_meta_facts:
  "label_of m label_owner = [] \<or> label_of m label_owner = sp_owner (ws_spec ws) \<Longrightarrow>
    label_of m label_owner \<noteq> [] \<Longrightarrow> label_of (fst (adopt_meta ws m)) label_owner = label_of m label_owner"
  "md_deleted (fst (adopt_meta ws m)) = md_deleted m"
  "label_of (fst (adopt_meta ws m)) label_workspace = md_name (ws_meta ws)"
  "label_of (fst (adopt_meta ws m)) label_retained \<noteq> ''true''"
  by (auto simp: adopt_meta_def label_of_def put_labels_at str_at_def)

text \<open>The three outcomes of \<open>ensureHomePVC\<close> on an existing claim.\<close>

lemma ensure_existing:
  assumes "st (home_key ws) = Some pvc"
  obtains (failed) e where "ensure_home_pvc api codec ws s st = (Inl e, st)"
  | (kept) evs m where "ensure_home_pvc api codec ws s st = (Inr (home_pvc_name ws, evs), st(home_key ws \<mapsto> pvc\<lparr>vc_meta := m\<rparr>))"
      "\<not> md_deleted (vc_meta pvc)" "label_of (vc_meta pvc) label_owner = [] \<or> label_of (vc_meta pvc) label_owner = sp_owner (ws_spec ws)"
      "m = fst (sync_home_volume_meta codec s (fst (adopt_meta ws (vc_meta pvc))))"
proof -
  define m where "m = vc_meta pvc"
  obtain m1 ad where a: "adopt_meta ws m = (m1, ad)" by fastforce
  have w: "label_of m1 label_workspace = md_name (ws_meta ws)" using adopt_meta_facts(3) [of ws m] a by simp
  have same: "m1 = m" if "\<not> ad" using a that by (auto simp: adopt_meta_def split: if_splits)
  obtain m2 ch where y: "sync_home_volume_meta codec s m1 = (m2, ch)" by fastforce
  have unchanged: "m2 = m1" if "\<not> ch"
  proof (rule sync_home_volume_meta_cases [OF y])
    fix labels ll c1 anns la c2
    assume *: "sync_meta_side (md_labels m1) (hv_labels (home_metadata s)) (lg_labels (ledger_of codec m1)) False = (labels, ll, c1)"
      "sync_meta_side (md_annotations m1) (hv_annotations (home_metadata s)) (lg_annotations (ledger_of codec m1)) c1 = (anns, la, c2)"
      "md_labels m2 = labels" "ch \<longleftrightarrow> c2 \<or> md_annotations m2 \<noteq> anns"
      "m2 = m1\<lparr>md_labels := md_labels m2, md_annotations := md_annotations m2\<rparr>"
    with that have "\<not> c2" "md_annotations m2 = anns" by simp_all
    with * sync_meta_side_unchanged show ?thesis by (metis object_meta.surjective object_meta.update_convs(4,5))
  qed
  have st: "st(home_key ws \<mapsto> pvc\<lparr>vc_meta := m\<rparr>) = st" using assms by (simp add: m_def fun_upd_idem)
  have two: "(if label_of m1 label_workspace = md_name (ws_meta ws) then sync_home_volume_meta codec s m1 else (m1, False)) = (m2, ch)"
    by (simp add: w y)
  note e = ensure_home_pvc_def [of api codec ws s st, unfolded get_claim_def assms Let_def option.case]
  show thesis
  proof (cases "api_get api \<and> \<not> md_deleted m \<and> (label_of m label_owner = [] \<or> label_of m label_owner = sp_owner (ws_spec ws)) \<and>
      ((ad \<or> ch) \<longrightarrow> api_update api = ApiOk)")
    case True
    then have "\<exists>evs. ensure_home_pvc api codec ws s st = (Inr (home_pvc_name ws, evs), st(home_key ws \<mapsto> pvc\<lparr>vc_meta := m2\<rparr>))"
      using same unchanged st y by (cases "ad \<or> ch") (auto simp: e a two m_def [symmetric])
    moreover have "m2 = fst (sync_home_volume_meta codec s (fst (adopt_meta ws (vc_meta pvc))))" by (simp add: a y m_def [symmetric])
    ultimately show ?thesis using True kept by (auto simp: m_def)
  next
    case False
    then have "\<exists>x. ensure_home_pvc api codec ws s st = (Inl x, st)"
      by (auto simp: e a two m_def [symmetric])
    with failed show ?thesis by blast
  qed
qed

section \<open>Properties\<close>

text \<open>Synchronizing the metadata of a home volume converges at once: every permitted key of the template is stamped, a
  permitted key the ledger names and the template dropped is removed, every other key stays, those of a reserved domain
  always (the ledger itself excepted), and a second synchronization finds nothing to change.\<close>

lemma home_metadata_converges:
  assumes "\<And>l. lc_decode codec (lc_encode codec l) = l"
    "distinct (map fst (hv_labels (home_metadata s)))" "distinct (map fst (hv_annotations (home_metadata s)))"
    "sync_home_volume_meta codec s m = (m', c)"
  shows "md_labels m' k = (if check_key k \<noteq> None then md_labels m k else case map_of (hv_labels (home_metadata s)) k of
        Some v \<Rightarrow> Some v | None \<Rightarrow> if k \<in> set (lg_labels (ledger_of codec m)) then None else md_labels m k) \<and>
    (k = annotation_template_meta \<or> md_annotations m' k = (if check_key k \<noteq> None then md_annotations m k
      else case map_of (hv_annotations (home_metadata s)) k of Some v \<Rightarrow> Some v
        | None \<Rightarrow> if k \<in> set (lg_annotations (ledger_of codec m)) then None else md_annotations m k)) \<and>
    sync_home_volume_meta codec s m' = (m', False)"
proof -
  obtain labels ll c1 anns la c2 where
    l: "sync_meta_side (md_labels m) (hv_labels (home_metadata s)) (lg_labels (ledger_of codec m)) False = (labels, ll, c1)"
    and a: "sync_meta_side (md_annotations m) (hv_annotations (home_metadata s)) (lg_annotations (ledger_of codec m)) c1 = (anns, la, c2)"
    and m': "md_labels m' = labels" "\<And>k. k \<noteq> annotation_template_meta \<Longrightarrow> md_annotations m' k = anns k"
      "md_annotations m' annotation_template_meta =
        (if ll = [] \<and> la = [] then None else Some (lc_encode codec \<lparr>lg_labels = ll, lg_annotations = la\<rparr>))"
    by (rule sync_home_volume_meta_cases [OF assms(4)]) (rule that; assumption)
  note L = sync_meta_side_at [OF assms(2) l] and A = sync_meta_side_at [OF assms(3) a]
  have d: "check_key annotation_template_meta \<noteq> None" by (rule platform_keys_denied) simp
  have lg: "ledger_of codec m' = \<lparr>lg_labels = ll, lg_annotations = la\<rparr>"
    using m'(3) by (auto simp: ledger_of_def assms(1) split: if_splits)
  have l2: "sync_meta_side (md_labels m') (hv_labels (home_metadata s)) ll False = (md_labels m', ll, False)"
    using sync_meta_side_fixed [OF assms(2), of labels ll False] L(1) unfolding m'(1) L(2) by force
  have "md_annotations m' x = Some v" if "check_key x = None" "map_of (hv_annotations (home_metadata s)) x = Some v" for x v
    using that d m'(2) [of x] A(1) [of x] by (cases "x = annotation_template_meta") auto
  then have a2: "sync_meta_side (md_annotations m') (hv_annotations (home_metadata s)) la False = (md_annotations m', la, False)"
    using sync_meta_side_fixed [OF assms(3), of "md_annotations m'" la False] unfolding A(2) by force
  have "sync_home_volume_meta codec s m' = (m', False)"
    using m'(3) unfolding sync_home_volume_meta_def Let_def lg template_meta_ledger.simps l2 prod.case a2 by simp
  moreover have "k = annotation_template_meta \<or> md_annotations m' k = anns k" using m'(2) by blast
  ultimately show ?thesis using L(1) [of k] A(1) [of k] m'(1) by auto
qed

lemma ensure_elsewhere: "k \<noteq> home_key ws \<Longrightarrow> snd (ensure_home_pvc api codec ws s st) k = st k"
  unfolding ensure_home_pvc_def Let_def
  by (simp split: fetched.split api_outcome.split prod.split)

lemma ensure_kept:
  assumes "st k = Some pvc" "label_of (vc_meta pvc) label_owner \<noteq> []"
  shows "\<exists>pvc'. snd (ensure_home_pvc api codec ws s st) k = Some pvc' \<and> kept pvc pvc' \<and> vc_storage_class pvc' = vc_storage_class pvc \<and>
    md_deleted (vc_meta pvc') = md_deleted (vc_meta pvc)"
proof (cases "k = home_key ws")
  case True
  with assms(1) have st: "st (home_key ws) = Some pvc" by simp
  show ?thesis
  proof (rule ensure_existing [of st ws pvc api codec s, OF st])
    fix e
    assume "ensure_home_pvc api codec ws s st = (Inl e, st)"
    with assms(1) show ?thesis by simp
  next
    fix evs m
    assume "ensure_home_pvc api codec ws s st = (Inr (home_pvc_name ws, evs), st(home_key ws \<mapsto> pvc\<lparr>vc_meta := m\<rparr>))"
      "label_of (vc_meta pvc) label_owner = [] \<or> label_of (vc_meta pvc) label_owner = sp_owner (ws_spec ws)"
      "m = fst (sync_home_volume_meta codec s (fst (adopt_meta ws (vc_meta pvc))))"
    with assms(2) True show ?thesis
      by (simp add: kept_def sync_label_of adopt_meta_facts sync_keeps_deleted)
  qed
qed (simp add: ensure_elsewhere assms(1))

lemma delete_claim_at:
  "snd (delete_claim api st key) k = st k \<or> k = key \<and> snd (delete_claim api st key) k = map_option mark_deleted (st k)"
  by (cases "api_delete api") (auto simp: delete_claim_def)

lemma mark_deleted_facts [simp]:
  "kept pvc (mark_deleted pvc)" "md_deleted (vc_meta (mark_deleted pvc))"
  by (simp_all add: kept_def mark_deleted_def label_of_def)

lemma finalize_elsewhere: "k \<noteq> home_key ws \<Longrightarrow> snd (finalize_home_volume api now ws st) k = st k"
  using delete_claim_at [of api st "home_key ws" k]
  unfolding finalize_home_volume_def Let_def
  by (simp split: fetched.split prod.split) (metis snd_conv)

text \<open>What the finalizer does to the claim of its workspace.\<close>

lemma finalize_at:
  assumes "st (home_key ws) = Some pvc"
  shows "snd (finalize_home_volume api now ws st) (home_key ws) = Some pvc \<or>
    label_of (vc_meta pvc) label_workspace = md_name (ws_meta ws) \<and> (\<exists>pvc'.
      snd (finalize_home_volume api now ws st) (home_key ws) = Some pvc' \<and>
      (if ws_annotation ws annotation_delete_home = ''true'' then pvc' = mark_deleted pvc
       else kept pvc pvc' \<and> md_deleted (vc_meta pvc') = md_deleted (vc_meta pvc) \<and>
         label_of (vc_meta pvc') label_retained = ''true'' \<and> label_of (vc_meta pvc') label_workspace = [] \<and>
         label_of (vc_meta pvc') label_managed_by = label_of (vc_meta pvc) label_managed_by \<and>
         md_annotations (vc_meta pvc') annotation_retained_at = Some now))"
proof (cases "api_get api \<and> label_of (vc_meta pvc) label_workspace = md_name (ws_meta ws)")
  case False
  then have "snd (finalize_home_volume api now ws st) = st"
    by (cases "api_get api") (simp_all add: finalize_home_volume_def get_claim_def assms Let_def)
  with assms show ?thesis by simp
next
  case True
  note f = finalize_home_volume_def [of api now ws st, unfolded get_claim_def assms Let_def option.case]
  show ?thesis
  proof (cases "ws_annotation ws annotation_delete_home = ''true''")
    case del: True
    then have "snd (finalize_home_volume api now ws st) = snd (delete_claim api st (home_key ws))"
      using True by (simp add: f split: prod.split)
    with delete_claim_at [of api st "home_key ws" "home_key ws"] True del assms show ?thesis by auto
  next
    case keep: False
    show ?thesis
    proof (cases "api_update api = ApiOk")
      case upd: True
      show ?thesis
        using True keep by (simp add: f upd kept_def label_of_def str_at_def)
    next
      case False
      with True keep assms show ?thesis by (simp add: f)
    qed
  qed
qed

lemma expire_at:
  "snd (snd (enforce_lifetime api wsd ps now ws st)) k = st k \<or>
    k = home_key ws \<and> snd (snd (enforce_lifetime api wsd ps now ws st)) k = map_option mark_deleted (st k)"
proof -
  obtain ok st' where d: "delete_claim api st (home_key ws) = (ok, st')" by fastforce
  have "snd (snd (enforce_lifetime api wsd ps now ws st)) = st \<or> snd (snd (enforce_lifetime api wsd ps now ws st)) = st'"
    unfolding enforce_lifetime_def Let_def d prod.case
    by (simp split: option.split sum.split prod.split)
  with delete_claim_at [of api st "home_key ws" k] d show ?thesis by auto
qed

text \<open>One operation on an owned claim, the release of the claim excepted.\<close>

lemma apply_op_kept:
  assumes "st k = Some pvc" "label_of (vc_meta pvc) label_owner \<noteq> []" "op \<noteq> Release k"
  shows "\<exists>pvc'. apply_op op st k = Some pvc' \<and> kept pvc pvc'"
proof (cases op)
  case (Ensure api codec ws s)
  with ensure_kept [of st k pvc api codec ws s, OF assms(1,2)] show ?thesis by auto
next
  case (Finalize api now ws)
  show ?thesis
  proof (cases "k = home_key ws")
    case True
    with finalize_at [of st ws pvc api now] assms(1) Finalize show ?thesis by (auto split: if_splits)
  qed (simp add: Finalize finalize_elsewhere assms(1))
next
  case (Expire api wsd ps now ws)
  with expire_at [of api wsd ps now ws st k] assms(1) show ?thesis by auto
next
  case (Release key)
  with assms(1,3) show ?thesis by (auto split: option.split)
qed

lemma run_ops_simps [simp]: "run_ops [] st = st" "run_ops (op # ops) st = run_ops ops (apply_op op st)"
  by (simp_all add: run_ops_def)

lemma run_ops_kept:
  assumes "st k = Some pvc" "label_of (vc_meta pvc) label_owner \<noteq> []" "Release k \<notin> set ops"
  shows "\<exists>pvc'. run_ops ops st k = Some pvc' \<and> kept pvc pvc'"
  using assms
proof (induction ops arbitrary: st pvc)
  case (Cons op ops)
  then obtain p where p: "apply_op op st k = Some p" "kept pvc p" using apply_op_kept [of st k pvc op] by auto
  with Cons.IH [of "apply_op op st" p] Cons.prems obtain p' where "run_ops ops (apply_op op st) k = Some p'" "kept p p'"
    by (auto simp: kept_def)
  with p kept_trans show ?case by auto
qed simp

definition deletes :: "string \<times> string \<Rightarrow> volume_op \<Rightarrow> bool" where
  "deletes k op \<longleftrightarrow> (case op of
     Finalize _ _ ws \<Rightarrow> home_key ws = k \<and> ws_annotation ws annotation_delete_home = ''true''
   | Expire _ _ _ _ ws \<Rightarrow> home_key ws = k
   | _ \<Rightarrow> False)"

lemma apply_op_live:
  assumes "st k = Some pvc" "label_of (vc_meta pvc) label_owner \<noteq> []" "\<not> md_deleted (vc_meta pvc)" "\<not> deletes k op"
  shows "\<exists>pvc'. apply_op op st k = Some pvc' \<and> kept pvc pvc' \<and> \<not> md_deleted (vc_meta pvc')"
proof (cases op)
  case (Ensure api codec ws s)
  with ensure_kept [of st k pvc api codec ws s, OF assms(1,2)] assms(3) show ?thesis by auto
next
  case (Finalize api now ws)
  show ?thesis
  proof (cases "k = home_key ws")
    case True
    with finalize_at [of st ws pvc api now] assms Finalize show ?thesis by (auto simp: deletes_def split: if_splits)
  qed (simp add: Finalize finalize_elsewhere assms)
next
  case (Expire api wsd ps now ws)
  with expire_at [of api wsd ps now ws st k] assms show ?thesis by (auto simp: deletes_def)
next
  case (Release key)
  with assms show ?thesis by (cases "k = key") (auto split: option.split)
qed

text \<open>C4: A home volume never changes hands: through any sequence of reconciliations, deletions and expiries of any
  workspaces, until the server has dropped it, a volume keeps its owner and its size, and a workspace of another owner
  that resolves to it is refused.\<close>

theorem volume_never_changes_hands:
  assumes "st k = Some pvc" "label_of (vc_meta pvc) label_owner = u" "u \<noteq> []" "Release k \<notin> set ops"
    "home_key ws = k" "sp_owner (ws_spec ws) \<noteq> u"
  shows "\<exists>pvc' e. run_ops ops st k = Some pvc' \<and> label_of (vc_meta pvc') label_owner = u \<and> vc_storage pvc' = vc_storage pvc \<and>
    ensure_home_pvc api codec ws s (run_ops ops st) = (Inl e, run_ops ops st)"
proof -
  from run_ops_kept [of st k pvc ops] assms(1-4) obtain p where
    p: "run_ops ops st k = Some p" "label_of (vc_meta p) label_owner = u" "vc_storage p = vc_storage pvc"
    by (auto simp: kept_def)
  have "\<exists>e. ensure_home_pvc api codec ws s (run_ops ops st) = (Inl e, run_ops ops st)"
    using p(1,2) assms(3,5,6)
    by (cases "api_get api"; cases "md_deleted (vc_meta p)") (auto simp: ensure_home_pvc_def get_claim_def Let_def)
  with p show ?thesis by blast
qed

text \<open>No home volume is deleted without an explicit choice: over any sequence of operations a volume in use or
  retained is still there, with its owner and its size, unless its workspace was deleted with the delete-home
  annotation or its lifetime expired.\<close>

lemma home_deleted_by_choice_only:
  assumes "st k = Some pvc" "label_of (vc_meta pvc) label_owner \<noteq> []" "\<not> md_deleted (vc_meta pvc)"
    "list_all (\<lambda>op. \<not> deletes k op) ops"
  shows "\<exists>pvc'. run_ops ops st k = Some pvc' \<and> kept pvc pvc' \<and> \<not> md_deleted (vc_meta pvc')"
  using assms
proof (induction ops arbitrary: st pvc)
  case (Cons op ops)
  then obtain p where p: "apply_op op st k = Some p" "kept pvc p" "\<not> md_deleted (vc_meta p)"
    using apply_op_live [of st k pvc op] by auto
  with Cons.IH [of "apply_op op st" p] Cons.prems obtain p' where
    "run_ops ops (apply_op op st) k = Some p'" "kept p p'" "\<not> md_deleted (vc_meta p')"
    by (auto simp: kept_def)
  with p kept_trans show ?case by auto
qed simp

text \<open>Expiry has no ownership guard: when the lifetime of a workspace runs out, the volume under its home name is
  deleted also when it belongs to another owner, a volume the same workspace is refused as its home.\<close>

lemma expiry_deletes_foreign:
  assumes "resolve_policy ps (identity_of ws) = Inr (pol, w)" "po_lifecycle pol = Some lc" "lc_max_lifetime lc = Some ttl"
    "0 < ttl" "md_created (ws_meta ws) + ttl \<le> now" "api_delete api = ApiOk" "st (home_key ws) = Some pvc"
    "label_of (vc_meta pvc) label_owner = u" "u \<noteq> []" "u \<noteq> sp_owner (ws_spec ws)"
  shows "snd (snd (enforce_lifetime api wsd (Some ps) now ws st)) (home_key ws) = Some (mark_deleted pvc) \<and>
    (\<exists>e. ensure_home_pvc api codec ws s st = (Inl e, st))"
proof -
  have "delete_claim api st (home_key ws) = (True, st(home_key ws \<mapsto> mark_deleted pvc))"
    using assms(6,7) by (simp add: delete_claim_def)
  then have "snd (snd (enforce_lifetime api wsd (Some ps) now ws st)) = st(home_key ws \<mapsto> mark_deleted pvc)"
    using assms(1-5) by (simp add: enforce_lifetime_def Let_def)
  moreover have "\<exists>e. ensure_home_pvc api codec ws s st = (Inl e, st)"
    using assms(7-10) by (cases "api_get api"; cases "md_deleted (vc_meta pvc)") (auto simp: ensure_home_pvc_def get_claim_def Let_def)
  ultimately show ?thesis by simp
qed

text \<open>C25: A volume survives its workspace and can be taken up again: detached by the finalizer, it passes the adoption
  check of the webhook for a new workspace of the same owner in the same namespace, and the reconciler makes it that
  workspace's live home with its size.\<close>

theorem retained_volume_adoptable:
  assumes "st (home_key ws) = Some pvc" "label_of (vc_meta pvc) label_workspace = md_name (ws_meta ws)"
    "label_of (vc_meta pvc) label_managed_by = manager_name" "label_of (vc_meta pvc) label_owner = sp_owner (ws_spec ws)"
    "\<not> md_deleted (vc_meta pvc)" "ws_annotation ws annotation_delete_home \<noteq> ''true''" "api_get api" "api_update api = ApiOk"
    "st' = snd (finalize_home_volume api now ws st)"
    "sp_owner (ws_spec ws') = sp_owner (ws_spec ws)" "home_key ws' = home_key ws" "sp_home_volume_name (ws_spec ws') \<noteq> []"
    "cl_claim cl (effective_target_namespace ws') (sp_home_volume_name (ws_spec ws')) = get_claim api st' (home_key ws')"
  shows "check_home_volume_adoption cl ws' = None \<and>
    (\<exists>evs pvc'. ensure_home_pvc api codec ws' s st' = (Inr (home_pvc_name ws', evs), st'(home_key ws' \<mapsto> pvc')) \<and>
      label_of (vc_meta pvc') label_workspace = md_name (ws_meta ws') \<and> label_of (vc_meta pvc') label_retained \<noteq> ''true'' \<and>
      label_of (vc_meta pvc') label_owner = sp_owner (ws_spec ws') \<and> vc_storage pvc' = vc_storage pvc)"
proof -
  have f: "\<exists>p. st' (home_key ws) = Some p \<and> kept pvc p \<and> md_deleted (vc_meta p) = md_deleted (vc_meta pvc) \<and>
      label_of (vc_meta p) label_retained = ''true'' \<and> label_of (vc_meta p) label_managed_by = manager_name"
    using assms(1-9) by (simp add: finalize_home_volume_def get_claim_def Let_def kept_def label_of_def str_at_def)
  then obtain p where p: "st' (home_key ws) = Some p" "label_of (vc_meta p) label_owner = sp_owner (ws_spec ws)"
      "vc_storage p = vc_storage pvc" "\<not> md_deleted (vc_meta p)" "label_of (vc_meta p) label_retained = ''true''"
      "label_of (vc_meta p) label_managed_by = manager_name"
    using assms(4,5) by (auto simp: kept_def)
  have "check_home_volume_adoption cl ws' = None"
    using p assms(7,10,11,13) by (simp add: check_home_volume_adoption_def get_claim_def first_denial_None Let_def)
  moreover obtain m1 where a: "adopt_meta ws' (vc_meta p) = (m1, True)"
    using p(5) by (simp add: adopt_meta_def)
  define m where "m = fst (sync_home_volume_meta codec s m1)"
  have m1: "label_of m1 label_workspace = md_name (ws_meta ws')" "label_of m1 label_retained \<noteq> ''true''"
    using adopt_meta_facts(3,4) [of ws' "vc_meta p"] by (simp_all add: a)
  have own: "label_of m1 label_owner = sp_owner (ws_spec ws')"
    using a p(5) by (auto simp: adopt_meta_def label_of_def put_labels_at)
  have "\<exists>evs. ensure_home_pvc api codec ws' s st' = (Inr (home_pvc_name ws', evs), st'(home_key ws' \<mapsto> p\<lparr>vc_meta := m\<rparr>))"
    using p(1,2,4) assms(7,8,10,11) m1(1)
    unfolding ensure_home_pvc_def Let_def m_def by (simp add: a get_claim_def split: prod.split)
  moreover have "label_of m label_workspace = md_name (ws_meta ws')" "label_of m label_retained \<noteq> ''true''"
      "label_of m label_owner = sp_owner (ws_spec ws')"
    by (simp_all add: m_def sync_label_of m1 own)
  ultimately show ?thesis using p(3) by fastforce
qed

section \<open>A concrete ledger and two workspaces\<close>

text \<open>A codec of two lists of strings: each character, end of string and end of list is a pair of characters.\<close>

definition enc_word :: "string \<Rightarrow> string" where
  "enc_word s = concat (map (\<lambda>c. [CHR ''c'', c]) s) @ ''e.''"

definition enc_words :: "string list \<Rightarrow> string" where
  "enc_words ss = concat (map enc_word ss) @ ''l.''"

fun dec_words :: "string \<Rightarrow> string list list" where
  "dec_words (a # b # r) =
     (if a = CHR ''l'' then [] # dec_words r
      else if a = CHR ''e'' then (case dec_words r of ss # ls \<Rightarrow> ([] # ss) # ls | [] \<Rightarrow> [])
      else (case dec_words r of (s # ss) # ls \<Rightarrow> ((b # s) # ss) # ls | _ \<Rightarrow> []))"
| "dec_words _ = []"

lemma dec_enc_word: "dec_words r = ss # ls \<Longrightarrow> dec_words (enc_word s @ r) = (s # ss) # ls"
  by (induction s) (simp_all add: enc_word_def)

lemma dec_enc_words: "dec_words (enc_words ss @ r) = ss # dec_words r"
proof (induction ss)
  case (Cons s ss)
  have "enc_words (s # ss) @ r = enc_word s @ enc_words ss @ r" by (simp add: enc_words_def)
  with dec_enc_word [OF Cons] show ?case by simp
qed (simp add: enc_words_def)

definition demo_codec :: ledger_codec where
  "demo_codec = \<lparr>lc_decode = (\<lambda>raw. case dec_words raw of [a, b] \<Rightarrow> \<lparr>lg_labels = a, lg_annotations = b\<rparr>
       | _ \<Rightarrow> \<lparr>lg_labels = [], lg_annotations = []\<rparr>),
     lc_encode = (\<lambda>l. enc_words (lg_labels l) @ enc_words (lg_annotations l))\<rparr>"

lemma demo_codec_inverse: "lc_decode demo_codec (lc_encode demo_codec l) = l"
  using dec_enc_words [of "lg_labels l" "enc_words (lg_annotations l)"] dec_enc_words [of "lg_annotations l" "[]"]
  by (simp add: demo_codec_def)

definition demo_api :: volume_api where
  "demo_api = \<lparr>api_get = True, api_update = ApiOk, api_delete = ApiOk, api_create = ApiOk\<rparr>"

definition demo_home :: volume_claim where
  "demo_home = \<lparr>vc_meta = (demo_meta ''ws-w1-home'')\<lparr>md_labels := map_of (workspace_labels demo_workspace)\<rparr>, vc_storage = Some 5,
     vc_storage_class = None\<rparr>"

definition demo_claims :: claims where
  "demo_claims = [(''waas'', ''ws-w1-home'') \<mapsto> demo_home]"

definition demo_backup :: template_spec where
  "demo_backup = (tp_spec demo_template)\<lparr>ts_home_volume := Some \<lparr>hv_labels = [(''backup'', ''daily'')], hv_annotations = []\<rparr>\<rparr>"

lemma demo_home_facts:
  "home_key demo_workspace = (''waas'', ''ws-w1-home'')" "demo_claims (home_key demo_workspace) = Some demo_home"
  "label_of (vc_meta demo_home) label_owner = ''u1''" "label_of (vc_meta demo_home) label_workspace = ''w1''"
  "label_of (vc_meta demo_home) label_managed_by = manager_name" "\<not> md_deleted (vc_meta demo_home)"
proof -
  show k: "home_key demo_workspace = (''waas'', ''ws-w1-home'')"
    by (simp add: home_key_def home_pvc_name_def effective_target_namespace_def effective_workload_name_def webhook_demo)
  show "demo_claims (home_key demo_workspace) = Some demo_home" by (simp add: k demo_claims_def)
  show "label_of (vc_meta demo_home) label_owner = ''u1''" "label_of (vc_meta demo_home) label_workspace = ''w1''"
    "label_of (vc_meta demo_home) label_managed_by = manager_name" "\<not> md_deleted (vc_meta demo_home)"
    by (simp_all add: demo_home_def label_of_def str_at_def workspace_labels_def webhook_demo)
qed

theorem home_metadata_converges_witness:
  "md_labels (fst (sync_home_volume_meta demo_codec demo_backup (vc_meta demo_home))) ''backup'' = Some ''daily''"
proof -
  have d: "distinct (map fst (hv_labels (home_metadata demo_backup)))" "distinct (map fst (hv_annotations (home_metadata demo_backup)))"
    "map_of (hv_labels (home_metadata demo_backup)) ''backup'' = Some ''daily''"
    by (simp_all add: home_metadata_def demo_backup_def)
  have "check_key ''backup'' = None" by (simp add: check_key_def denied_bare_def cut_at_absent)
  with home_metadata_converges [OF demo_codec_inverse d(1,2) prod.collapse [symmetric], of "vc_meta demo_home" "''backup''"] d(3)
  show ?thesis by simp
qed

theorem volume_never_changes_hands_witness:
  "\<exists>e. ensure_home_pvc demo_api demo_codec (demo_workspace\<lparr>ws_spec := (ws_spec demo_workspace)\<lparr>sp_owner := ''u2''\<rparr>\<rparr>)
     demo_backup (run_ops [Finalize demo_api ''now'' demo_workspace] demo_claims) =
     (Inl e, run_ops [Finalize demo_api ''now'' demo_workspace] demo_claims)"
proof -
  let ?ws = "demo_workspace\<lparr>ws_spec := (ws_spec demo_workspace)\<lparr>sp_owner := ''u2''\<rparr>\<rparr>"
  have "home_key ?ws = home_key demo_workspace"
    by (simp add: home_key_def home_pvc_name_def effective_target_namespace_def effective_workload_name_def)
  with volume_never_changes_hands [of demo_claims "home_key demo_workspace" demo_home "''u1''"
      "[Finalize demo_api ''now'' demo_workspace]" ?ws demo_api demo_codec demo_backup] demo_home_facts(2,3)
  show ?thesis by auto
qed

theorem home_deleted_by_choice_only_witness:
  "run_ops [Finalize demo_api ''now'' demo_workspace] demo_claims (''waas'', ''ws-w1-home'') \<noteq> None"
proof -
  have "list_all (\<lambda>op. \<not> deletes (home_key demo_workspace) op) [Finalize demo_api ''now'' demo_workspace]"
    by (simp add: deletes_def ws_annotation_def webhook_demo)
  with home_deleted_by_choice_only [of demo_claims "home_key demo_workspace" demo_home
      "[Finalize demo_api ''now'' demo_workspace]"] demo_home_facts(2,3,6) show ?thesis
    by (auto simp: demo_home_facts(1))
qed

definition demo_short_policy :: workspace_policy where
  "demo_short_policy = (demo_policy ''p'' 0 [])\<lparr>po_lifecycle := Some \<lparr>lc_idle_suspend_after = None, lc_max_lifetime = Some 10\<rparr>\<rparr>"

theorem expiry_deletes_foreign_witness:
  "let ws = demo_workspace\<lparr>ws_spec := (ws_spec demo_workspace)\<lparr>sp_owner := ''u2''\<rparr>\<rparr> in
   snd (snd (enforce_lifetime demo_api ApiOk (Some [demo_short_policy]) 20 ws demo_claims)) (home_key ws) = Some (mark_deleted demo_home)"
proof -
  let ?ws = "demo_workspace\<lparr>ws_spec := (ws_spec demo_workspace)\<lparr>sp_owner := ''u2''\<rparr>\<rparr>"
  have k: "home_key ?ws = home_key demo_workspace"
    by (simp add: home_key_def home_pvc_name_def effective_target_namespace_def effective_workload_name_def)
  have "subjects_match (po_subjects demo_short_policy) i" for i
    by (simp add: demo_short_policy_def demo_policy_def matched_via_iff)
  then have r: "resolve_policy [demo_short_policy] (identity_of ?ws) = Inr (demo_short_policy, None)"
    by (simp add: resolve_policy_def)
  show ?thesis unfolding Let_def
    by (rule expiry_deletes_foreign [OF r, THEN conjunct1,
        of "\<lparr>lc_idle_suspend_after = None, lc_max_lifetime = Some 10\<rparr>" 10 20 demo_api demo_claims demo_home "''u1''"])
      (simp_all add: k demo_home_facts, simp_all add: demo_claims_def demo_short_policy_def demo_workspace_def demo_meta_def demo_api_def)
qed

theorem retained_volume_adoptable_witness:
  "\<exists>evs pvc. ensure_home_pvc demo_api demo_codec
      (demo_workspace\<lparr>ws_meta := demo_meta ''w2'', ws_spec := (ws_spec demo_workspace)\<lparr>sp_home_volume_name := ''ws-w1-home''\<rparr>\<rparr>) demo_backup
      (snd (finalize_home_volume demo_api ''now'' demo_workspace demo_claims)) = (Inr (''ws-w1-home'', evs), pvc)"
proof -
  let ?ws = "demo_workspace\<lparr>ws_meta := demo_meta ''w2'', ws_spec := (ws_spec demo_workspace)\<lparr>sp_home_volume_name := ''ws-w1-home''\<rparr>\<rparr>"
  let ?st = "snd (finalize_home_volume demo_api ''now'' demo_workspace demo_claims)"
  have k: "home_key ?ws = home_key demo_workspace"
    by (simp add: demo_home_facts(1)) (simp add: home_key_def home_pvc_name_def effective_target_namespace_def webhook_demo)
  have n: "home_pvc_name ?ws = ''ws-w1-home''" by (simp add: home_pvc_name_def)
  have c: "cl_claim (demo_cluster\<lparr>cl_claim := \<lambda>ns n. get_claim demo_api ?st (ns, n)\<rparr>) (effective_target_namespace ?ws)
      (sp_home_volume_name (ws_spec ?ws)) = get_claim demo_api ?st (home_key ?ws)"
    by (simp add: home_key_def home_pvc_name_def)
  have d: "ws_annotation demo_workspace annotation_delete_home \<noteq> ''true''" by (simp add: ws_annotation_def webhook_demo)
  have w: "label_of (vc_meta demo_home) label_workspace = md_name (ws_meta demo_workspace)"
    "label_of (vc_meta demo_home) label_owner = sp_owner (ws_spec demo_workspace)"
    by (simp_all add: demo_home_facts) (simp_all add: webhook_demo)
  have a: "api_get demo_api" "api_update demo_api = ApiOk" by (simp_all add: demo_api_def)
  from retained_volume_adoptable [of demo_claims demo_workspace demo_home demo_api ?st "''now''" ?ws,
      OF demo_home_facts(2) w(1) demo_home_facts(5) w(2) demo_home_facts(6) d a refl _ k _ c, of demo_codec demo_backup]
  show ?thesis by (auto simp: n)
qed

end
