(* ===== verification/Desktop_Secrets.thy ===== *)
theory Desktop_Secrets
  imports Home_Volume
begin

text \<open>
  What a desktop container is given besides its image, in the operator: the environment merge of
  \<open>workload.go\<close>, the generated passwords of \<open>kasm_credentials.go\<close> and \<open>desktop_credentials.go\<close>, the
  effective \<open>kasmvnc.yaml\<close> of \<open>kasm_config.go\<close> and the registry credentials of \<open>pull_secret.go\<close>. Secrets
  and config maps are stores of \<open>Kube_Store\<close>. A secret written with \<open>StringData\<close> is stored as written
  and read the way \<open>secretPassword\<close> reads it. The YAML library and the random source are parameters.
\<close>

section \<open>Environment\<close>

text \<open>The three merges of \<open>workload.go\<close> are one function of the name of an entry.\<close>

fun replace_named :: "('a \<Rightarrow> string) \<Rightarrow> 'a \<Rightarrow> 'a list \<Rightarrow> 'a list" where
  "replace_named nm e [] = [e]"
| "replace_named nm e (x # xs) = (if nm x = nm e then e # xs else x # replace_named nm e xs)"

definition overlay :: "('a \<Rightarrow> string) \<Rightarrow> 'a list \<Rightarrow> 'a list \<Rightarrow> 'a list" where
  "overlay nm base over = foldl (\<lambda>out e. replace_named nm e out) base over"

definition merge_env :: "env_var list \<Rightarrow> env_var list \<Rightarrow> env_var list" where
  "merge_env = overlay ev_name"

definition merge_volumes :: "(string \<times> k8s_value) list \<Rightarrow> (string \<times> k8s_value) list \<Rightarrow> (string \<times> k8s_value) list" where
  "merge_volumes = overlay fst"

definition merge_volume_mounts :: "(string \<times> k8s_value) list \<Rightarrow> (string \<times> k8s_value) list \<Rightarrow> (string \<times> k8s_value) list" where
  "merge_volume_mounts = overlay fst"

text \<open>A Go map is an association list with distinct keys.\<close>

definition merge_string_map :: "(string \<times> string) list \<Rightarrow> (string \<times> string) list \<Rightarrow> (string \<times> string) list" where
  "merge_string_map base over = filter (\<lambda>kv. fst kv \<notin> set (map fst over)) base @ over"

definition sanitize_override_env :: "env_var list \<Rightarrow> env_var list" where
  "sanitize_override_env over = filter (\<lambda>e. ev_value_from e = None) over"

definition override_env :: "workspace \<Rightarrow> env_var list" where
  "override_env ws = (case sp_overrides (ws_spec ws) of None \<Rightarrow> [] | Some ov \<Rightarrow> ov_env ov)"

section \<open>Generated passwords\<close>

definition protocol_kasmvnc :: string where "protocol_kasmvnc = ''kasmvnc''"
definition protocol_vnc :: string where "protocol_vnc = ''vnc''"
definition protocol_rdp :: string where "protocol_rdp = ''rdp''"

definition kasm_secret_name :: "string \<Rightarrow> string" where
  "kasm_secret_name ws_name = ''waas-kasm-'' @ ws_name"

definition desktop_secret_name :: "string \<Rightarrow> string" where
  "desktop_secret_name ws_name = ''waas-desktop-'' @ ws_name"

definition kasm_password_generated :: "workspace \<Rightarrow> template_spec \<Rightarrow> bool" where
  "kasm_password_generated ws s \<longleftrightarrow>
     (if ts_os s = os_windows then False
      else case find (\<lambda>p. wp_name p = protocol_kasmvnc) (effective_protocols s) of
        None \<Rightarrow> False
      | Some kasm \<Rightarrow>
         if wp_credentials_secret_ref kasm \<noteq> [] then False
         else \<not> list_ex (\<lambda>e. ev_name e = ''VNC_PW'') (merge_env (ts_env s) (override_env ws)))"

definition desktop_password_generated :: "workspace \<Rightarrow> template_spec \<Rightarrow> bool" where
  "desktop_password_generated ws s \<longleftrightarrow>
     (if ts_os s = os_windows then False
      else if kasm_password_generated ws s then False
      else if \<not> list_ex (\<lambda>p. (wp_name p = protocol_vnc \<or> wp_name p = protocol_rdp) \<and> wp_credentials_secret_ref p = [])
                 (effective_protocols s) then False
      else \<not> list_ex (\<lambda>e. ev_name e = ''WAAS_DESKTOP_PASSWORD'') (merge_env (ts_env s) (override_env ws)))"

text \<open>A reference to a key of a secret, in the notation of the manifest.\<close>

definition secret_key_ref :: "string \<Rightarrow> string \<Rightarrow> k8s_value" where
  "secret_key_ref name key = ''secretKeyRef:'' @ name @ ''/'' @ key"

definition kasm_password_env :: "workspace \<Rightarrow> env_var" where
  "kasm_password_env ws = \<lparr>ev_name = ''VNC_PW'', ev_value = [], ev_value_from = Some (secret_key_ref (effective_workload_name ws) ''password'')\<rparr>"

definition desktop_credentials_env :: "workspace \<Rightarrow> env_var" where
  "desktop_credentials_env ws =
     \<lparr>ev_name = ''WAAS_DESKTOP_PASSWORD'', ev_value = [], ev_value_from = Some (secret_key_ref (effective_workload_name ws) ''password'')\<rparr>"

definition desktop_env :: "workspace \<Rightarrow> template_spec \<Rightarrow> env_var list" where
  "desktop_env ws s =
     merge_env (ts_env s) (sanitize_override_env (override_env ws))
       @ (if kasm_password_generated ws s then [kasm_password_env ws] else [])
       @ (if desktop_password_generated ws s then [desktop_credentials_env ws] else [])"

record secret =
  sc_meta :: object_meta
  sc_type :: string
  sc_data :: "(string \<times> string) list"
  sc_string_data :: "(string \<times> string) list"
  sc_controller :: "string option"

datatype secret_error =
    RandomFailed
  | FetchSecretFailed object_key
  | CreateSecretFailed object_key
  | RefetchSecretFailed object_key
  | UpdateSecretFailed object_key
  | DeleteSecretFailed object_key

definition compute_key :: "workspace \<Rightarrow> object_key" where
  "compute_key ws = (effective_target_namespace ws, effective_workload_name ws)"

text \<open>\<open>setOwnerIfLocal\<close>: the controller of a new object, which only an object beside its workspace has.\<close>

definition owner_if_local :: "workspace \<Rightarrow> string \<Rightarrow> string option" where
  "owner_if_local ws ns = (if ns \<noteq> md_namespace (ws_meta ws) then None else Some (md_uid (ws_meta ws)))"

definition labelled_meta :: "workspace \<Rightarrow> object_key \<Rightarrow> object_meta" where
  "labelled_meta ws key = \<lparr>md_name = snd key, md_namespace = fst key, md_uid = [], md_labels = map_of (workspace_labels ws),
     md_annotations = Map.empty, md_deleted = False, md_created = 0\<rparr>"

definition secret_password :: "secret \<Rightarrow> string" where
  "secret_password s = (case map_of (sc_data s) ''password'' of
     Some v \<Rightarrow> v | None \<Rightarrow> str_at (map_of (sc_string_data s)) ''password'')"

definition password_secret :: "workspace \<Rightarrow> object_key \<Rightarrow> string \<Rightarrow> secret" where
  "password_secret ws key pw = \<lparr>sc_meta = labelled_meta ws key, sc_type = [], sc_data = [],
     sc_string_data = [(''password'', pw)], sc_controller = owner_if_local ws (fst key)\<rparr>"

record secret_calls =
  se_resolver :: "secret api"
  se_refetch :: bool
  se_pod :: "secret api"
  se_random :: "string option"

text \<open>The password of the resolver copy: the stored one, or a fresh one that becomes the stored one.\<close>

definition resolve_password ::
  "secret_calls \<Rightarrow> string \<Rightarrow> workspace \<Rightarrow> secret store \<Rightarrow> (secret_error + string) \<times> secret store" where
  "resolve_password e name ws st =
     (let key = (md_namespace (ws_meta ws), name) in
      case kube_get (se_resolver e) st key of
        Failed \<Rightarrow> (Inl (FetchSecretFailed key), st)
      | Found s \<Rightarrow> (Inr (secret_password s), st)
      | Missing \<Rightarrow> (case se_random e of
          None \<Rightarrow> (Inl RandomFailed, st)
        | Some pw \<Rightarrow> (case kube_create (se_resolver e) st key (password_secret ws key pw) of
            (Done, st') \<Rightarrow> (Inr pw, st')
          | (AlreadyThere, st') \<Rightarrow> (case (se_refetch e, st' key) of
              (True, Some s) \<Rightarrow> (Inr (secret_password s), st')
            | _ \<Rightarrow> (Inl (RefetchSecretFailed key), st'))
          | (_, st') \<Rightarrow> (Inl (CreateSecretFailed key), st'))))"

definition sync_pod_copy ::
  "secret_calls \<Rightarrow> workspace \<Rightarrow> string \<Rightarrow> secret store \<Rightarrow> (secret_error + unit) \<times> secret store" where
  "sync_pod_copy e ws pw st =
     (let key = compute_key ws in
      case kube_get (se_pod e) st key of
        Failed \<Rightarrow> (Inl (FetchSecretFailed key), st)
      | Missing \<Rightarrow> (case kube_create (se_pod e) st key (password_secret ws key pw) of
          (r, st') \<Rightarrow> (if created_or_there r then Inr () else Inl (CreateSecretFailed key), st'))
      | Found s \<Rightarrow>
          if secret_password s \<noteq> pw then
            (case kube_update (se_pod e) st key (s\<lparr>sc_data := [], sc_string_data := [(''password'', pw)]\<rparr>) of
               (r, st') \<Rightarrow> (if r = Done then Inr () else Inl (UpdateSecretFailed key), st'))
          else (Inr (), st))"

text \<open>The two mechanisms are the same steps on secrets of different names.\<close>

definition ensure_password ::
  "secret_calls \<Rightarrow> string \<Rightarrow> workspace \<Rightarrow> secret store \<Rightarrow> (secret_error + unit) \<times> secret store" where
  "ensure_password e name ws st =
     (case resolve_password e name ws st of
        (Inl err, st') \<Rightarrow> (Inl err, st')
      | (Inr pw, st') \<Rightarrow> sync_pod_copy e ws pw st')"

definition ensure_kasm_credentials ::
  "secret_calls \<Rightarrow> workspace \<Rightarrow> template_spec \<Rightarrow> secret store \<Rightarrow> (secret_error + unit) \<times> secret store" where
  "ensure_kasm_credentials e ws s st =
     (if \<not> kasm_password_generated ws s then (Inr (), st)
      else ensure_password e (kasm_secret_name (md_name (ws_meta ws))) ws st)"

definition ensure_desktop_credentials ::
  "secret_calls \<Rightarrow> workspace \<Rightarrow> template_spec \<Rightarrow> secret store \<Rightarrow> (secret_error + unit) \<times> secret store" where
  "ensure_desktop_credentials e ws s st =
     (if \<not> desktop_password_generated ws s then (Inr (), st)
      else ensure_password e (desktop_secret_name (md_name (ws_meta ws))) ws st)"

section \<open>The effective kasmvnc.yaml\<close>

record yaml_codec =
  yc_parse :: "string \<Rightarrow> (string \<times> yaml) list option"
  yc_render :: "(string \<times> yaml) list \<Rightarrow> string option"

definition template_has_kasmvnc :: "template_spec \<Rightarrow> bool" where
  "template_has_kasmvnc s \<longleftrightarrow> list_ex (\<lambda>p. wp_name p = protocol_kasmvnc) (ts_protocols s)"

text \<open>The policies of the namespace, or nothing when the list fails.\<close>

definition kasm_clipboard_grant :: "workspace_policy list option \<Rightarrow> workspace \<Rightarrow> bool \<times> bool" where
  "kasm_clipboard_grant policies ws =
     (case policies of
        None \<Rightarrow> (False, False)
      | Some ps \<Rightarrow> (case resolve_policy ps (identity_of ws) of
          Inl _ \<Rightarrow> (False, False)
        | Inr (pol, _) \<Rightarrow> clipboard_of (Some pol)))"

fun put_key :: "string \<Rightarrow> 'v \<Rightarrow> (string \<times> 'v) list \<Rightarrow> (string \<times> 'v) list" where
  "put_key k v [] = [(k, v)]"
| "put_key k v ((j, w) # m) = (if j = k then (k, v) # m else (j, w) # put_key k v m)"

text \<open>The empty path, on which the code would index out of range, is never passed.\<close>

fun set_nested :: "(string \<times> yaml) list \<Rightarrow> yaml \<Rightarrow> string list \<Rightarrow> (string \<times> yaml) list" where
  "set_nested m v [] = m"
| "set_nested m v [k] = put_key k v m"
| "set_nested m v (k # k' # ks) =
     put_key k (YMap (set_nested (case map_of m k of Some (YMap n) \<Rightarrow> n | _ \<Rightarrow> []) v (k' # ks))) m"

definition yaml_bool :: "bool \<Rightarrow> yaml" where
  "yaml_bool b = YScalar (if b then ''true'' else ''false'')"

definition enforce_clipboard :: "(string \<times> yaml) list \<Rightarrow> bool \<Rightarrow> bool \<Rightarrow> (string \<times> yaml) list" where
  "enforce_clipboard root copy_ok paste_ok =
     foldl (\<lambda>m (path, v). set_nested m v path) root
       (zip managed_clipboard_key_paths [yaml_bool copy_ok, yaml_bool paste_ok, yaml_bool False])"

datatype config_error = ParsingConfig | SerializingConfig

definition apply_clipboard_policy :: "yaml_codec \<Rightarrow> string \<Rightarrow> bool \<Rightarrow> bool \<Rightarrow> config_error + string" where
  "apply_clipboard_policy codec raw copy_ok paste_ok =
     (case (if trim_space raw \<noteq> [] then yc_parse codec raw else Some []) of
        None \<Rightarrow> Inl ParsingConfig
      | Some root \<Rightarrow> (case yc_render codec (enforce_clipboard root copy_ok paste_ok) of
          None \<Rightarrow> Inl SerializingConfig
        | Some out \<Rightarrow> Inr out))"

record config_map =
  cm_meta :: object_meta
  cm_data :: "(string \<times> string) list"
  cm_controller :: "string option"

datatype kasm_config_error =
    DeleteConfigFailed object_key
  | BuildConfigFailed config_error
  | CreateConfigFailed object_key
  | FetchConfigFailed object_key
  | UpdateConfigFailed object_key

definition kasm_config_key :: string where "kasm_config_key = ''kasmvnc.yaml''"

definition kasm_config_map :: "workspace \<Rightarrow> string \<Rightarrow> config_map" where
  "kasm_config_map ws content = \<lparr>cm_meta = labelled_meta ws (compute_key ws), cm_data = [(kasm_config_key, content)],
     cm_controller = owner_if_local ws (effective_target_namespace ws)\<rparr>"

definition ensure_kasm_config ::
  "yaml_codec \<Rightarrow> config_map api \<Rightarrow> workspace_policy list option \<Rightarrow> workspace \<Rightarrow> template_spec \<Rightarrow> config_map store
     \<Rightarrow> (kasm_config_error + unit) \<times> config_map store" where
  "ensure_kasm_config codec c policies ws s st =
     (let key = compute_key ws; existing = kube_get c st key in
      if \<not> template_has_kasmvnc s then
        (case existing of
           Found _ \<Rightarrow> (case kube_delete c st key of
             (r, st') \<Rightarrow> (if deleted_or_gone r then Inr () else Inl (DeleteConfigFailed key), st'))
         | _ \<Rightarrow> (Inr (), st))
      else case kasm_clipboard_grant policies ws of (copy_ok, paste_ok) \<Rightarrow>
        (case apply_clipboard_policy codec (ts_kasmvnc_config s) copy_ok paste_ok of
           Inl err \<Rightarrow> (Inl (BuildConfigFailed err), st)
         | Inr content \<Rightarrow> (case existing of
             Missing \<Rightarrow> (case kube_create c st key (kasm_config_map ws content) of
               (r, st') \<Rightarrow> (if created_or_there r then Inr () else Inl (CreateConfigFailed key), st'))
           | Failed \<Rightarrow> (Inl (FetchConfigFailed key), st)
           | Found cm \<Rightarrow>
               if str_at (map_of (cm_data cm)) kasm_config_key \<noteq> content then
                 (case kube_update c st key (cm\<lparr>cm_data := [(kasm_config_key, content)]\<rparr>) of
                    (r, st') \<Rightarrow> (if r = Done then Inr () else Inl (UpdateConfigFailed key), st'))
               else (Inr (), st))))"

section \<open>Registry credentials\<close>

definition label_pull_secret :: string where "label_pull_secret = ''waas.xorhub.io/pull-secret''"

definition pull_secret_pod_name :: "workspace \<Rightarrow> string \<Rightarrow> string" where
  "pull_secret_pod_name ws ref =
     (if effective_target_namespace ws = md_namespace (ws_meta ws) then ref else ''waas-pull-'' @ ref)"

definition image_pull_secret_ref :: "workspace_image list option \<Rightarrow> template_spec \<Rightarrow> string" where
  "image_pull_secret_ref catalog s =
     (case catalog of
        None \<Rightarrow> []
      | Some imgs \<Rightarrow> (case find_image imgs (ts_image s) of None \<Rightarrow> [] | Some img \<Rightarrow> im_image_pull_secret_ref img))"

text \<open>Two Go maps of byte strings: as many keys, and every key of the first reads the same in the second.\<close>

definition secret_data_equal :: "(string \<times> string) list \<Rightarrow> (string \<times> string) list \<Rightarrow> bool" where
  "secret_data_equal a b \<longleftrightarrow>
     length (remdups (map fst a)) = length (remdups (map fst b)) \<and>
     list_all (\<lambda>k. str_at (map_of b) k = str_at (map_of a) k) (map fst a)"

datatype pull_denial = PullSecretMissing string string string

record pull_calls =
  pc_source :: bool
  pc_dest :: "secret api"

definition pull_copy :: "object_key \<Rightarrow> secret \<Rightarrow> secret" where
  "pull_copy key source =
     \<lparr>sc_meta = \<lparr>md_name = snd key, md_namespace = fst key, md_uid = [],
                 md_labels = [label_managed_by \<mapsto> manager_name, label_pull_secret \<mapsto> ''true''],
                 md_annotations = Map.empty, md_deleted = False, md_created = 0\<rparr>,
      sc_type = sc_type source, sc_data = sc_data source, sc_string_data = [], sc_controller = None\<rparr>"

definition ensure_pull_secret ::
  "pull_calls \<Rightarrow> workspace_image list option \<Rightarrow> workspace \<Rightarrow> template_spec \<Rightarrow> secret store
     \<Rightarrow> (secret_error + pull_denial option) \<times> secret store" where
  "ensure_pull_secret e catalog ws s st =
     (let ref = image_pull_secret_ref catalog s; ns = md_namespace (ws_meta ws) in
      if ref = [] then (Inr None, st)
      else if \<not> pc_source e then (Inl (FetchSecretFailed (ns, ref)), st)
      else case st (ns, ref) of
        None \<Rightarrow> (Inr (Some (PullSecretMissing (ts_image s) ref ns)), st)
      | Some source \<Rightarrow>
         if effective_target_namespace ws = ns then (Inr None, st)
         else let key = (effective_target_namespace ws, pull_secret_pod_name ws ref); c = pc_dest e in
           (case kube_get c st key of
              Missing \<Rightarrow> (case kube_create c st key (pull_copy key source) of
                (r, st') \<Rightarrow> (if created_or_there r then Inr None else Inl (CreateSecretFailed key), st'))
            | Failed \<Rightarrow> (Inl (FetchSecretFailed key), st)
            | Found dest \<Rightarrow>
                if sc_type dest \<noteq> sc_type source then
                  (case kube_delete c st key of (r, st1) \<Rightarrow>
                     if \<not> deleted_or_gone r then (Inl (DeleteSecretFailed key), st1)
                     else case kube_create c st1 key (pull_copy key source) of
                       (r', st2) \<Rightarrow> (if created_or_there r' then Inr None else Inl (CreateSecretFailed key), st2))
                else if \<not> secret_data_equal (sc_data dest) (sc_data source) then
                  (case kube_update c st key (dest\<lparr>sc_data := sc_data source, sc_string_data := []\<rparr>) of
                     (r, st') \<Rightarrow> (if r = Done then Inr None else Inl (UpdateSecretFailed key), st'))
                else (Inr None, st)))"

section \<open>Facts on the merges\<close>

lemma find_replace_named:
  "find (\<lambda>x. nm x = n) (replace_named nm e xs) = (if nm e = n then Some e else find (\<lambda>x. nm x = n) xs)"
  by (induction xs) auto

lemma set_replace_named: "set (replace_named nm e xs) \<subseteq> insert e (set xs)"
  by (induction xs) auto

lemma names_replace_named: "nm ` set (replace_named nm e xs) = insert (nm e) (nm ` set xs)"
  by (induction xs) auto

lemma overlay_Nil [simp]: "overlay nm base [] = base"
  by (simp add: overlay_def)

lemma overlay_snoc: "overlay nm base (over @ [e]) = replace_named nm e (overlay nm base over)"
  by (simp add: overlay_def)

text \<open>The last override of a name wins, and a name without an override keeps the entry of the base.\<close>

lemma find_overlay:
  "find (\<lambda>x. nm x = n) (overlay nm base over) =
    (case find (\<lambda>x. nm x = n) (rev over) of Some e \<Rightarrow> Some e | None \<Rightarrow> find (\<lambda>x. nm x = n) base)"
  by (induction over rule: rev_induct) (simp_all add: overlay_snoc find_replace_named)

lemma set_overlay: "set (overlay nm base over) \<subseteq> set base \<union> set over"
proof (induction over rule: rev_induct)
  case (snoc e over)
  then show ?case using set_replace_named [of nm e "overlay nm base over"] by (auto simp: overlay_snoc)
qed simp

lemma names_overlay: "nm ` set (overlay nm base over) = nm ` set base \<union> nm ` set over"
  by (induction over rule: rev_induct) (auto simp: overlay_snoc names_replace_named)

lemma named_find: "n \<in> nm ` set xs \<longleftrightarrow> find (\<lambda>x. nm x = n) xs \<noteq> None"
  by (auto simp: find_None_iff)

lemma sanitize_override_env_simps [simp]:
  "set (sanitize_override_env over) = {e \<in> set over. ev_value_from e = None}"
  by (auto simp: sanitize_override_env_def)

lemma map_of_merge_string_map:
  "map_of (merge_string_map base over) k = (case map_of over k of Some v \<Rightarrow> Some v | None \<Rightarrow> map_of base k)"
proof -
  have "map_of (filter (\<lambda>kv. fst kv \<notin> K) base) k = (if k \<in> K then None else map_of base k)" for K
    by (induction base) auto
  moreover have "k \<in> fst ` set over \<longleftrightarrow> map_of over k \<noteq> None" by (simp add: map_of_eq_None_iff)
  ultimately show ?thesis
    by (cases "map_of over k") (simp_all add: merge_string_map_def map_add_def split: option.split)
qed

section \<open>Facts on the environment\<close>

lemma generated_exclusive: "\<not> (kasm_password_generated ws s \<and> desktop_password_generated ws s)"
  by (simp add: desktop_password_generated_def)

text \<open>A password is generated only where no entry of its name exists, in the template or the overrides.\<close>

lemma generated_unnamed:
  "kasm_password_generated ws s \<Longrightarrow> ''VNC_PW'' \<notin> ev_name ` (set (ts_env s) \<union> set (override_env ws))"
  "desktop_password_generated ws s \<Longrightarrow> ''WAAS_DESKTOP_PASSWORD'' \<notin> ev_name ` (set (ts_env s) \<union> set (override_env ws))"
proof -
  have named: "\<not> list_ex (\<lambda>e. ev_name e = n) (merge_env (ts_env s) (override_env ws)) \<Longrightarrow>
      n \<notin> ev_name ` (set (ts_env s) \<union> set (override_env ws))" for n
    unfolding image_Un names_overlay [symmetric] by (auto simp: merge_env_def list_ex_iff)
  show "kasm_password_generated ws s \<Longrightarrow> ''VNC_PW'' \<notin> ev_name ` (set (ts_env s) \<union> set (override_env ws))"
    by (rule named) (simp add: kasm_password_generated_def split: if_splits option.splits)
  show "desktop_password_generated ws s \<Longrightarrow> ''WAAS_DESKTOP_PASSWORD'' \<notin> ev_name ` (set (ts_env s) \<union> set (override_env ws))"
    by (rule named) (simp add: desktop_password_generated_def split: if_splits)
qed

lemma generated_names [simp]:
  "ev_name (kasm_password_env ws) = ''VNC_PW''" "ev_name (desktop_credentials_env ws) = ''WAAS_DESKTOP_PASSWORD''"
  by (simp_all add: kasm_password_env_def desktop_credentials_env_def)

lemma find_append: "find P (xs @ ys) = (case find P xs of None \<Rightarrow> find P ys | Some x \<Rightarrow> Some x)"
  by (induction xs) auto

text \<open>Secrets reach a desktop through the template or the operator only. Every entry of the container's
  environment that refers to a secret is an entry of the template or one of the two generated
  references, which the container gets exactly when the password is generated; and an entry of the
  template stays as it is for a name that the workspace overrides by references only.
\<close>

lemma desktop_env_vetted:
  "(\<forall>e \<in> set (desktop_env ws s). ev_value_from e \<noteq> None \<longrightarrow>
      e \<in> set (ts_env s) \<or> (kasm_password_generated ws s \<and> e = kasm_password_env ws)
        \<or> (desktop_password_generated ws s \<and> e = desktop_credentials_env ws)) \<and>
   (kasm_password_generated ws s \<longrightarrow> find (\<lambda>e. ev_name e = ''VNC_PW'') (desktop_env ws s) = Some (kasm_password_env ws)) \<and>
   (\<forall>n e. find (\<lambda>x. ev_name x = n) (ts_env s) = Some e \<longrightarrow>
      (\<forall>x \<in> set (override_env ws). ev_name x = n \<longrightarrow> ev_value_from x \<noteq> None) \<longrightarrow>
      find (\<lambda>x. ev_name x = n) (desktop_env ws s) = Some e)"
proof (intro conjI ballI allI impI)
  fix e assume "e \<in> set (desktop_env ws s)" "ev_value_from e \<noteq> None"
  then show "e \<in> set (ts_env s) \<or> (kasm_password_generated ws s \<and> e = kasm_password_env ws)
      \<or> (desktop_password_generated ws s \<and> e = desktop_credentials_env ws)"
    using set_overlay [of ev_name "ts_env s" "sanitize_override_env (override_env ws)"]
    by (auto simp: desktop_env_def merge_env_def split: if_splits)
next
  assume g: "kasm_password_generated ws s"
  have "''VNC_PW'' \<notin> ev_name ` set (overlay ev_name (ts_env s) (sanitize_override_env (override_env ws)))"
    using generated_unnamed(1) [OF g] unfolding names_overlay by auto
  then have "find (\<lambda>e. ev_name e = ''VNC_PW'') (overlay ev_name (ts_env s) (sanitize_override_env (override_env ws))) = None"
    unfolding named_find by simp
  with g show "find (\<lambda>e. ev_name e = ''VNC_PW'') (desktop_env ws s) = Some (kasm_password_env ws)"
    by (simp add: desktop_env_def merge_env_def find_append)
next
  fix n e
  assume e: "find (\<lambda>x. ev_name x = n) (ts_env s) = Some e"
    and refs: "\<forall>x \<in> set (override_env ws). ev_name x = n \<longrightarrow> ev_value_from x \<noteq> None"
  have "find (\<lambda>x. ev_name x = n) (rev (sanitize_override_env (override_env ws))) = None"
    using refs by (auto simp: find_None_iff)
  with e show "find (\<lambda>x. ev_name x = n) (desktop_env ws s) = Some e"
    by (simp add: desktop_env_def merge_env_def find_append find_overlay)
qed

text \<open>A reference stored before references were refused leaves a desktop without a password. When a
  workspace overrides \<open>VNC_PW\<close> by references only and the template sets none, the references are dropped
  from the container's environment, yet they count as an explicit source, so no password is generated:
  the container gets no \<open>VNC_PW\<close> at all.
\<close>

lemma dropped_reference_still_counts:
  assumes "x \<in> set (override_env ws)" "ev_name x = ''VNC_PW''"
    "\<forall>x \<in> set (override_env ws). ev_name x = ''VNC_PW'' \<longrightarrow> ev_value_from x \<noteq> None"
    "''VNC_PW'' \<notin> ev_name ` set (ts_env s)"
  shows "\<not> kasm_password_generated ws s \<and> ''VNC_PW'' \<notin> ev_name ` set (desktop_env ws s)"
proof -
  have g: "\<not> kasm_password_generated ws s" using generated_unnamed(1) assms(1,2) by force
  have "''VNC_PW'' \<notin> ev_name ` set (overlay ev_name (ts_env s) (sanitize_override_env (override_env ws)))"
    unfolding names_overlay using assms(3,4) by auto
  with g show ?thesis by (auto simp: desktop_env_def merge_env_def)
qed

section \<open>Facts on the passwords\<close>

lemma password_secret_password [simp]: "secret_password (password_secret ws key pw) = pw"
  by (simp add: secret_password_def password_secret_def)

lemma resolve_password_stored:
  assumes "resolve_password e name ws st = (Inr pw, st')"
  shows "\<exists>a. st' (md_namespace (ws_meta ws), name) = Some a \<and> secret_password a = pw"
  using assms
  by (auto simp: resolve_password_def Let_def kube_simps kube_create_def
      split: fetched.splits option.splits prod.splits outcome.splits if_splits bool.splits)

lemma resolve_password_frame:
  assumes "resolve_password e name ws st = (r, st')"
  shows "st key = Some a \<Longrightarrow> st' key = Some a"
  using assms
  by (auto simp: resolve_password_def Let_def kube_simps kube_create_def
      split: fetched.splits option.splits prod.splits outcome.splits if_splits bool.splits)

lemma sync_pod_copy_frame:
  assumes "sync_pod_copy e ws pw st = (r, st')" "key \<noteq> compute_key ws"
  shows "st' key = st key"
  using assms
  by (auto simp: sync_pod_copy_def Let_def kube_create_def kube_update_def
      split: fetched.splits option.splits prod.splits if_splits)

lemma sync_pod_copy_synced:
  assumes "sync_pod_copy e ws pw st = (Inr (), st')" "quiet (se_pod e)"
  shows "\<exists>b. st' (compute_key ws) = Some b \<and> secret_password b = pw"
  using assms
  by (auto simp: sync_pod_copy_def Let_def kube_simps kube_create_def kube_update_def quiet_def secret_password_def password_secret_def
      split: fetched.splits option.splits prod.splits if_splits)

lemma sync_pod_copy_rests:
  "st (compute_key ws) = Some b \<Longrightarrow> secret_password b = pw \<Longrightarrow> snd (sync_pod_copy e ws pw st) = st"
  by (auto simp: sync_pod_copy_def Let_def kube_simps split: fetched.split)

text \<open>Both copies of the password exist and agree.\<close>

definition passwords_agree :: "string \<Rightarrow> workspace \<Rightarrow> secret store \<Rightarrow> bool" where
  "passwords_agree name ws st \<longleftrightarrow>
     (case (st (md_namespace (ws_meta ws), name), st (compute_key ws)) of
        (Some a, Some b) \<Rightarrow> secret_password a = secret_password b
      | _ \<Rightarrow> False)"

lemma ensure_password_agrees:
  assumes "quiet (se_pod e)" "ensure_password e name ws st = (Inr (), st')"
  shows "passwords_agree name ws st'"
proof -
  let ?r = "(md_namespace (ws_meta ws), name)"
  obtain pw st1 where r: "resolve_password e name ws st = (Inr pw, st1)" and s: "sync_pod_copy e ws pw st1 = (Inr (), st')"
    using assms(2) by (auto simp: ensure_password_def split: prod.splits sum.splits)
  obtain a where a: "st1 ?r = Some a" "secret_password a = pw" using resolve_password_stored [OF r] by blast
  obtain b where b: "st' (compute_key ws) = Some b" "secret_password b = pw" using sync_pod_copy_synced [OF s assms(1)] by blast
  show ?thesis
  proof (cases "?r = compute_key ws")
    case True
    with b show ?thesis by (simp add: passwords_agree_def)
  next
    case False
    with sync_pod_copy_frame [OF s] a have "st' ?r = Some a" by simp
    with a b show ?thesis by (simp add: passwords_agree_def)
  qed
qed

lemma ensure_password_rests:
  assumes "passwords_agree name ws st"
  shows "snd (ensure_password e name ws st) = st"
proof -
  let ?r = "(md_namespace (ws_meta ws), name)"
  obtain a b where ab: "st ?r = Some a" "st (compute_key ws) = Some b" "secret_password a = secret_password b"
    using assms by (auto simp: passwords_agree_def split: option.splits)
  have "resolve_password e name ws st = (if on_get (se_resolver e) then Inr (secret_password a) else Inl (FetchSecretFailed ?r), st)"
    by (simp add: resolve_password_def kube_get_def ab(1))
  then show ?thesis using sync_pod_copy_rests [of st ws b "secret_password a" e] ab
    by (auto simp: ensure_password_def)
qed

lemma ensure_password_frame:
  assumes "ensure_password e name ws st = (r, st')" "st key = Some a" "key \<noteq> compute_key ws"
  shows "st' key = Some a"
proof -
  obtain r1 st1 where r: "resolve_password e name ws st = (r1, st1)" by fastforce
  with assms(2) have "st1 key = Some a" by (auto dest: resolve_password_frame)
  with assms r show ?thesis
    by (cases r1) (auto simp: ensure_password_def dest: sync_pod_copy_frame)
qed

interpretation password: convergent_step "\<lambda>e. ensure_password e name ws" "\<lambda>e. quiet (se_pod e)" "passwords_agree name ws"
  by unfold_locales (use ensure_password_agrees ensure_password_rests in auto)

text \<open>What a connection uses is what the desktop got. Once one pass has generated and copied the
  password without an error, the copy the API server reads and the copy the container reads hold the
  same password, whatever the passes before it did, and no later pass, failing or not, changes either;
  and no pass ever replaces a password the API server could already read.
\<close>

lemma generated_password_shared:
  assumes "quiet (se_pod e)" "ensure_password e name ws (passes (\<lambda>e. ensure_password e name ws) es st) = (Inr (), st')"
  shows "passwords_agree name ws (passes (\<lambda>e. ensure_password e name ws) (es @ e # later) st) \<and>
    passes (\<lambda>e. ensure_password e name ws) (es @ e # later) st = st' \<and>
    (\<forall>a. st (md_namespace (ws_meta ws), name) = Some a \<longrightarrow> (md_namespace (ws_meta ws), name) \<noteq> compute_key ws \<longrightarrow>
       st' (md_namespace (ws_meta ws), name) = Some a)"
proof -
  let ?r = "(md_namespace (ws_meta ws), name)" and ?run = "passes (\<lambda>e. ensure_password e name ws)"
  have frame: "s ?r = Some a \<Longrightarrow> ?r \<noteq> compute_key ws \<Longrightarrow> snd (ensure_password x name ws s) ?r = Some a" for x s a
    using ensure_password_frame [of x name ws s _ _ ?r a] by (metis prod.collapse)
  have run: "s ?r = Some a \<Longrightarrow> ?r \<noteq> compute_key ws \<Longrightarrow> ?run xs s ?r = Some a" for xs s a
    by (induction xs arbitrary: s) (simp_all add: frame)
  have done_: "passwords_agree name ws st' \<and> ?run (es @ e # later) st = st'"
    using password.one_success_suffices [OF assms, of later] .
  have "st' ?r = Some a" if "st ?r = Some a" "?r \<noteq> compute_key ws" for a
    using run [of st a "es @ [e]"] that by (simp add: passes_append assms(2))
  with done_ show ?thesis by metis
qed

section \<open>Facts on the configuration\<close>

lemma map_of_put_key: "map_of (put_key k v m) = (map_of m)(k \<mapsto> v)"
  by (induction m) (auto simp: fun_eq_iff)

lemma set_nested_at: "p \<noteq> [] \<Longrightarrow> yaml_at (YMap (set_nested m v p)) p = Some v"
  by (induction m v p rule: set_nested.induct) (simp_all add: map_of_put_key)

lemma yaml_at_empty: "q \<noteq> [] \<Longrightarrow> yaml_at (YMap []) q = None"
  by (cases q) auto

lemma yaml_at_scalar: "(\<forall>m. y \<noteq> YMap m) \<Longrightarrow> q \<noteq> [] \<Longrightarrow> yaml_at y q = None"
  by (cases y; cases q) auto

text \<open>A path that is neither above nor below the written one reads what it read.\<close>

lemma set_nested_elsewhere:
  "\<not> prefix p q \<Longrightarrow> \<not> prefix q p \<Longrightarrow> yaml_at (YMap (set_nested m v p)) q = yaml_at (YMap m) q"
proof (induction m v p arbitrary: q rule: set_nested.induct)
  case (2 m v k)
  then obtain j q' where "q = j # q'" "j \<noteq> k" by (cases q) auto
  then show ?case by (simp add: map_of_put_key)
next
  case (3 m v k k' ks)
  then obtain j q' where q: "q = j # q'" by (cases q) auto
  show ?case
  proof (cases "j = k")
    case False
    with q show ?thesis by (simp add: map_of_put_key)
  next
    case True
    with 3 q have q': "\<not> prefix (k' # ks) q'" "\<not> prefix q' (k' # ks)" by auto
    then have "q' \<noteq> []" by auto
    with "3.IH" [OF q'] q True show ?thesis
      by (auto simp: map_of_put_key yaml_at_scalar yaml_at_empty split: option.splits yaml.splits)
  qed
qed simp

definition unmanaged_path :: "string list \<Rightarrow> bool" where
  "unmanaged_path q \<longleftrightarrow> list_all (\<lambda>p. \<not> prefix p q \<and> \<not> prefix q p) managed_clipboard_key_paths"

lemma enforce_clipboard_at:
  "map (yaml_at (YMap (enforce_clipboard root c p))) managed_clipboard_key_paths =
    [Some (yaml_bool c), Some (yaml_bool p), Some (yaml_bool False)]"
  by (simp add: enforce_clipboard_def managed_clipboard_key_paths_def set_nested_elsewhere set_nested_at
      del: set_nested.simps yaml_at.simps)

lemma enforce_clipboard_elsewhere:
  "unmanaged_path q \<Longrightarrow> yaml_at (YMap (enforce_clipboard root c p)) q = yaml_at (YMap root) q"
  by (simp add: enforce_clipboard_def unmanaged_path_def managed_clipboard_key_paths_def set_nested_elsewhere
      del: set_nested.simps yaml_at.simps)

text \<open>The content the config map of a KasmVNC workspace has to have.\<close>

definition effective_config :: "yaml_codec \<Rightarrow> workspace_policy list option \<Rightarrow> workspace \<Rightarrow> template_spec \<Rightarrow> config_error + string" where
  "effective_config codec policies ws s =
     (case kasm_clipboard_grant policies ws of (c, p) \<Rightarrow> apply_clipboard_policy codec (ts_kasmvnc_config s) c p)"

definition config_settled :: "yaml_codec \<Rightarrow> workspace_policy list option \<Rightarrow> workspace \<Rightarrow> template_spec \<Rightarrow> config_map store \<Rightarrow> bool" where
  "config_settled codec policies ws s st \<longleftrightarrow>
     (if template_has_kasmvnc s
      then (case (effective_config codec policies ws s, st (compute_key ws)) of
          (Inr content, Some cm) \<Rightarrow> str_at (map_of (cm_data cm)) kasm_config_key = content
        | _ \<Rightarrow> False)
      else st (compute_key ws) = None)"

lemma ensure_kasm_config_settles:
  assumes "quiet c \<and> on_get c" "ensure_kasm_config codec c policies ws s st = (Inr (), st')"
  shows "config_settled codec policies ws s st'"
  using assms
  by (auto simp: ensure_kasm_config_def config_settled_def effective_config_def Let_def kube_simps kube_create_def
      kube_update_def kube_delete_def quiet_def kasm_config_map_def
      split: prod.splits sum.splits fetched.splits if_splits option.splits)

lemma ensure_kasm_config_rests:
  assumes "config_settled codec policies ws s st"
  shows "snd (ensure_kasm_config codec c policies ws s st) = st"
  using assms
  by (auto simp: ensure_kasm_config_def config_settled_def effective_config_def Let_def kube_get_def
      split: prod.splits sum.splits fetched.splits option.splits if_splits)

interpretation config: convergent_step "\<lambda>c. ensure_kasm_config codec c policies ws s" "\<lambda>c. quiet c \<and> on_get c"
  "config_settled codec policies ws s"
  by unfold_locales (use ensure_kasm_config_settles ensure_kasm_config_rests in auto)

text \<open>The clipboard rights that are due under a list of policies, read off the policies themselves: none when
  the list cannot be read or speaks of nobody like the owner, else what the policy of the highest priority
  (by name among equals) leaves undenied.\<close>

definition clipboard_due :: "workspace_policy list option \<Rightarrow> workspace \<Rightarrow> bool \<Rightarrow> bool \<Rightarrow> bool" where
  "clipboard_due policies ws copy paste \<longleftrightarrow>
     (case policies of
        None \<Rightarrow> \<not> copy \<and> \<not> paste
      | Some ps \<Rightarrow>
          if \<forall>q \<in> set ps. \<not> speaks_of q (identity_of ws) then \<not> copy \<and> \<not> paste
          else \<exists>pol. governs pol ps (identity_of ws) \<and>
            (copy \<longleftrightarrow> (\<forall>c. po_clipboard pol = Some c \<longrightarrow> cb_copy c \<noteq> Some False)) \<and>
            (paste \<longleftrightarrow> (\<forall>c. po_clipboard pol = Some c \<longrightarrow> cb_paste c \<noteq> Some False)))"

lemma clipboard_of_Some: "clipboard_of (Some pol) = (c, p) \<Longrightarrow>
    (c \<longleftrightarrow> (\<forall>b. po_clipboard pol = Some b \<longrightarrow> cb_copy b \<noteq> Some False)) \<and>
    (p \<longleftrightarrow> (\<forall>b. po_clipboard pol = Some b \<longrightarrow> cb_paste b \<noteq> Some False))"
  by (auto simp: clipboard_of_def split: option.splits)

lemma grant_is_due:
  assumes "kasm_clipboard_grant policies ws = (c, p)"
  shows "clipboard_due policies ws c p"
proof (cases policies)
  case None
  with assms show ?thesis by (simp add: kasm_clipboard_grant_def clipboard_due_def)
next
  case (Some ps)
  show ?thesis
  proof (cases "resolve_policy ps (identity_of ws)")
    case (Inl d)
    with assms Some resolve_policy_none [OF Inl] show ?thesis
      by (simp add: kasm_clipboard_grant_def clipboard_due_def)
  next
    case (Inr r)
    obtain pol w where r: "r = (pol, w)" by fastforce
    have h: "governs pol ps (identity_of ws)" using resolve_policy_governs Inr r by simp
    then have h': "\<not> (\<forall>q \<in> set ps. \<not> speaks_of q (identity_of ws))" by (auto simp: governs_def)
    have "clipboard_of (Some pol) = (c, p)" using assms Some Inr r by (simp add: kasm_clipboard_grant_def)
    from clipboard_of_Some [OF this] h show ?thesis
      unfolding clipboard_due_def Some option.case if_not_P [OF h'] by blast
  qed
qed


text \<open>A config map is dropped whoever made it. For a workspace without KasmVNC a pass deletes the config
  map that has the workload's name in the target namespace, whatever its labels and its controller
  are; the store is the only thing consulted.
\<close>

lemma stale_config_dropped_unlabelled:
  assumes "\<not> template_has_kasmvnc s" "on_get c" "on_delete c"
  shows "ensure_kasm_config codec c policies ws s st = (Inr (), st(compute_key ws := None))"
proof -
  have "st (compute_key ws) = None \<Longrightarrow> st(compute_key ws := None) = st" by (simp add: fun_upd_idem)
  with assms show ?thesis
    by (auto simp: ensure_kasm_config_def Let_def kube_get_def kube_delete_def split: fetched.split option.split)
qed

section \<open>Facts on the registry credentials\<close>

definition pull_settled :: "workspace_image list option \<Rightarrow> workspace \<Rightarrow> template_spec \<Rightarrow> secret store \<Rightarrow> bool" where
  "pull_settled catalog ws s st \<longleftrightarrow>
     (let ref = image_pull_secret_ref catalog s; ns = md_namespace (ws_meta ws); target = effective_target_namespace ws in
      if ref = [] \<or> target = ns then True
      else case (st (ns, ref), st (target, pull_secret_pod_name ws ref)) of
        (Some source, Some dest) \<Rightarrow> sc_type dest = sc_type source \<and> secret_data_equal (sc_data dest) (sc_data source)
      | _ \<Rightarrow> False)"

lemma secret_data_equal_refl [simp]: "secret_data_equal a a"
  by (simp add: secret_data_equal_def list_all_iff)

lemma pull_copy_simps [simp]: "sc_type (pull_copy key source) = sc_type source" "sc_data (pull_copy key source) = sc_data source"
  by (simp_all add: pull_copy_def)

lemma ensure_pull_secret_settles:
  assumes "quiet (pc_dest e)" "ensure_pull_secret e catalog ws s st = (Inr None, st')"
  shows "pull_settled catalog ws s st'"
proof -
  let ?ref = "image_pull_secret_ref catalog s" and ?ns = "md_namespace (ws_meta ws)" and ?t = "effective_target_namespace ws"
  let ?key = "(?t, pull_secret_pod_name ws ?ref)"
  show ?thesis
  proof (cases "?ref = [] \<or> ?t = ?ns")
    case False
    with assms(2) obtain source where source: "st (?ns, ?ref) = Some source" and ok: "pc_source e"
      by (auto simp: ensure_pull_secret_def Let_def split: if_splits option.splits)
    have "st' (?ns, ?ref) = Some source \<and>
      (\<exists>dest. st' ?key = Some dest \<and> sc_type dest = sc_type source \<and> secret_data_equal (sc_data dest) (sc_data source))"
      using assms False source ok
      by (auto simp: ensure_pull_secret_def Let_def kube_simps kube_create_def kube_update_def kube_delete_def quiet_def
          split: fetched.splits prod.splits if_splits option.splits)
    with False show ?thesis by (auto simp: pull_settled_def Let_def)
  qed (auto simp: pull_settled_def Let_def)
qed

lemma ensure_pull_secret_rests: "pull_settled catalog ws s st \<Longrightarrow> snd (ensure_pull_secret e catalog ws s st) = st"
  by (auto simp: ensure_pull_secret_def pull_settled_def Let_def kube_simps
      split: fetched.split if_splits option.splits)

text \<open>A pass over the credentials, with the denial as an error.\<close>

definition pull_pass ::
  "pull_calls \<Rightarrow> workspace_image list option \<Rightarrow> workspace \<Rightarrow> template_spec \<Rightarrow> secret store
     \<Rightarrow> ((secret_error + pull_denial) + unit) \<times> secret store" where
  "pull_pass e catalog ws s st =
     (case ensure_pull_secret e catalog ws s st of
        (Inl err, st') \<Rightarrow> (Inl (Inl err), st')
      | (Inr (Some d), st') \<Rightarrow> (Inl (Inr d), st')
      | (Inr None, st') \<Rightarrow> (Inr (), st'))"

interpretation pull: convergent_step "\<lambda>e. pull_pass e catalog ws s" "\<lambda>e. quiet (pc_dest e)" "pull_settled catalog ws s"
proof
  fix e st r st'
  assume "quiet (pc_dest e)" "pull_pass e catalog ws s st = (Inr r, st')"
  then show "pull_settled catalog ws s st'"
    by (auto simp: pull_pass_def split: prod.splits sum.splits option.splits intro: ensure_pull_secret_settles)
next
  fix e st
  assume "pull_settled catalog ws s st"
  then show "snd (pull_pass e catalog ws s st) = st"
    using ensure_pull_secret_rests [of catalog ws s st e] by (auto simp: pull_pass_def split: prod.split sum.split option.split)
qed

text \<open>A rotated registry credential reaches the desktops. Once a pass has copied the credentials of a
  catalog entry without an error or a denial, the copy in the target namespace has the type and the
  data of the source, and no later pass touches a secret while the source stays as it is.
\<close>

lemma pull_secret_converges:
  assumes "quiet (pc_dest e)" "ensure_pull_secret e catalog ws s (passes (\<lambda>e. pull_pass e catalog ws s) es st) = (Inr None, st')"
    "image_pull_secret_ref catalog s \<noteq> []" "effective_target_namespace ws \<noteq> md_namespace (ws_meta ws)"
  shows "passes (\<lambda>e. pull_pass e catalog ws s) (es @ e # later) st = st' \<and>
    (\<exists>source dest. st' (md_namespace (ws_meta ws), image_pull_secret_ref catalog s) = Some source \<and>
       st' (effective_target_namespace ws, ''waas-pull-'' @ image_pull_secret_ref catalog s) = Some dest \<and>
       sc_type dest = sc_type source \<and> secret_data_equal (sc_data dest) (sc_data source))"
proof -
  have "pull_pass e catalog ws s (passes (\<lambda>e. pull_pass e catalog ws s) es st) = (Inr (), st')"
    by (simp add: pull_pass_def assms(2))
  from pull.one_success_suffices [OF assms(1) this, of later] assms(3,4) show ?thesis
    by (auto simp: pull_settled_def Let_def pull_secret_pod_name_def split: option.splits)
qed

section \<open>Instances\<close>

definition demo_kasm_spec :: template_spec where
  "demo_kasm_spec = (tp_spec demo_template)\<lparr>ts_protocols := [\<lparr>wp_name = ''kasmvnc'', wp_port = 6901, wp_default = True,
     wp_params = [], wp_user_params = [], wp_expose_audio_port = False, wp_credentials_secret_ref = []\<rparr>]\<rparr>"

definition demo_secret_calls :: secret_calls where
  "demo_secret_calls = \<lparr>se_resolver = answering, se_refetch = True, se_pod = answering, se_random = Some ''0a1b''\<rparr>"

definition placed_workspace :: workspace where
  "placed_workspace = demo_workspace\<lparr>ws_spec := (ws_spec demo_workspace)\<lparr>sp_target_namespace := ''waas-u1'', sp_workload_name := ''desk''\<rparr>\<rparr>"

definition legacy_workspace :: workspace where
  "legacy_workspace = demo_workspace\<lparr>ws_spec := (ws_spec demo_workspace)\<lparr>sp_overrides :=
     Some (empty_overrides\<lparr>ov_env := [\<lparr>ev_name = ''VNC_PW'', ev_value = [], ev_value_from = Some ''ref''\<rparr>]\<rparr>)\<rparr>\<rparr>"

lemmas secrets_demo = demo_kasm_spec_def demo_secret_calls_def placed_workspace_def legacy_workspace_def demo_workspace_def
  demo_template_def demo_meta_def empty_overrides_def

lemma demo_generated: "kasm_password_generated demo_workspace demo_kasm_spec"
  by (simp add: kasm_password_generated_def secrets_demo effective_protocols_def protocol_kasmvnc_def override_env_def
      merge_env_def overlay_def os_windows_def os_linux_def)

theorem desktop_env_vetted_witness:
  "find (\<lambda>e. ev_name e = ''VNC_PW'') (desktop_env demo_workspace demo_kasm_spec) = Some (kasm_password_env demo_workspace)"
  using desktop_env_vetted [of demo_workspace demo_kasm_spec] demo_generated by blast

theorem dropped_reference_still_counts_witness:
  "\<not> kasm_password_generated legacy_workspace demo_kasm_spec \<and>
    ''VNC_PW'' \<notin> ev_name ` set (desktop_env legacy_workspace demo_kasm_spec)"
  by (rule dropped_reference_still_counts [of "\<lparr>ev_name = ''VNC_PW'', ev_value = [], ev_value_from = Some ''ref''\<rparr>"])
    (simp_all add: secrets_demo override_env_def)

theorem generated_password_shared_witness:
  "passwords_agree ''waas-kasm-w1'' placed_workspace
     (passes (\<lambda>e. ensure_password e ''waas-kasm-w1'' placed_workspace) [demo_secret_calls] Map.empty)"
proof -
  have "\<exists>st'. ensure_password demo_secret_calls ''waas-kasm-w1'' placed_workspace Map.empty = (Inr (), st')"
    by (simp add: ensure_password_def resolve_password_def sync_pod_copy_def secrets_demo kube_get_def kube_create_def
        compute_key_def effective_target_namespace_def effective_workload_name_def Let_def)
  then obtain st' where "ensure_password demo_secret_calls ''waas-kasm-w1'' placed_workspace
      (passes (\<lambda>e. ensure_password e ''waas-kasm-w1'' placed_workspace) [] Map.empty) = (Inr (), st')" by auto
  moreover have "quiet (se_pod demo_secret_calls)" by (simp add: demo_secret_calls_def)
  ultimately show ?thesis
    using generated_password_shared [of demo_secret_calls "''waas-kasm-w1''" placed_workspace "[]" Map.empty st' "[]", THEN conjunct1]
    unfolding append_Nil by blast
qed

definition plain_codec :: yaml_codec where
  "plain_codec = \<lparr>yc_parse = (\<lambda>_. Some []), yc_render = (\<lambda>_. Some ''rendered'')\<rparr>"

definition copy_only_policy :: workspace_policy where
  "copy_only_policy = (demo_policy ''p'' 0 [])\<lparr>po_clipboard := Some \<lparr>cb_copy = None, cb_paste = Some False\<rparr>\<rparr>"


theorem stale_config_dropped_unlabelled_witness:
  "ensure_kasm_config plain_codec answering None placed_workspace (tp_spec demo_template)
     [compute_key placed_workspace \<mapsto> \<lparr>cm_meta = demo_meta ''istio-ca-root-cert'', cm_data = [], cm_controller = None\<rparr>]
     = (Inr (), Map.empty)"
  by (subst stale_config_dropped_unlabelled) (simp_all add: template_has_kasmvnc_def secrets_demo)

theorem pull_secret_converges_witness:
  "\<exists>st' dest. st' (''waas-u1'', ''waas-pull-reg'') = Some dest \<and> sc_data dest = [(''.dockerconfigjson'', ''{}'')] \<and>
     passes (\<lambda>e. pull_pass e (Some [(demo_image ''i'' ''i'')\<lparr>im_image_pull_secret_ref := ''reg''\<rparr>]) placed_workspace (tp_spec demo_template))
       [\<lparr>pc_source = True, pc_dest = answering\<rparr>]
       [(''waas'', ''reg'') \<mapsto> (pull_copy (''waas'', ''reg'') \<lparr>sc_meta = demo_meta ''reg'', sc_type = ''dockerconfigjson'',
          sc_data = [(''.dockerconfigjson'', ''{}'')], sc_string_data = [], sc_controller = None\<rparr>)] = st'"
  (is "\<exists>st' dest. _ \<and> _ \<and> passes (\<lambda>e. pull_pass e ?cat ?ws ?s) [?e] ?st = st'")
proof -
  have ref: "image_pull_secret_ref ?cat ?s = ''reg''"
    by (simp add: image_pull_secret_ref_def find_image_def secrets_demo demo_image_def)
  have ns: "effective_target_namespace ?ws = ''waas-u1''" "md_namespace (ws_meta ?ws) = ''waas''"
    by (simp_all add: secrets_demo effective_target_namespace_def)
  have "\<exists>st'. ensure_pull_secret ?e ?cat ?ws ?s ?st = (Inr None, st') \<and>
      (\<exists>dest. st' (''waas-u1'', ''waas-pull-reg'') = Some dest \<and> sc_data dest = [(''.dockerconfigjson'', ''{}'')])"
    by (simp add: ensure_pull_secret_def ref ns pull_secret_pod_name_def kube_get_def kube_create_def Let_def)
  then obtain st' dest where st': "ensure_pull_secret ?e ?cat ?ws ?s (passes (\<lambda>e. pull_pass e ?cat ?ws ?s) [] ?st) = (Inr None, st')"
    "st' (''waas-u1'', ''waas-pull-reg'') = Some dest" "sc_data dest = [(''.dockerconfigjson'', ''{}'')]" by auto
  from pull_secret_converges [OF _ st'(1), of "[]"] st'(2,3) show ?thesis by (simp add: ref ns)
qed

end
