(* ===== verification/Workload.thy ===== *)
theory Workload
  imports Desktop_Secrets
begin

text \<open>
  The workload of a workspace in the operator: \<open>buildPodTemplate\<close>, \<open>workloadMeta\<close>, \<open>effectiveProtocol\<close>,
  \<open>ensureWorkload\<close> and its three kinds (\<open>workload.go\<close>, and \<open>ensurePod\<close> of \<open>workspace_controller.go\<close>),
  \<open>ensureVirtualMachine\<close>, \<open>computeExists\<close> and \<open>ensureService\<close>. The fingerprint of a pod template (JSON
  and SHA-256) and the digest of the KasmVNC configuration are parameters. A pod keeps existing while it
  is being deleted; a deployment, a stateful set, a service and a virtual machine are records of what the
  code sets and reads.
\<close>

section \<open>The desired pod template\<close>

definition annotation_pod_template_hash :: string where "annotation_pod_template_hash = ''waas.xorhub.io/pod-template-hash''"
definition annotation_kasm_config_hash :: string where "annotation_kasm_config_hash = ''waas.xorhub.io/kasmvnc-config-hash''"
definition annotation_reload_requested_at :: string where "annotation_reload_requested_at = ''waas.xorhub.io/reload-requested-at''"
definition audio_port_name :: string where "audio_port_name = ''audio''"

datatype pod_volume =
    ClaimVolume string string
  | ConfigVolume string string string
  | ScratchVolume string
  | PassedVolume "string \<times> k8s_value"

datatype pod_mount =
    MountAt string string string bool
  | PassedMount "string \<times> k8s_value"

record tcp_probe =
  pb_port :: int
  pb_initial_delay :: int
  pb_period :: int

record pod_template =
  pt_labels :: "string \<rightharpoonup> string"
  pt_annotations :: "string \<rightharpoonup> string"
  pt_restart_policy :: string
  pt_architectures :: "string list"
  pt_pull_secrets :: "string list"
  pt_node_selector :: "(string \<times> string) list"
  pt_tolerations :: "k8s_value list"
  pt_automount_token :: bool
  pt_service_account :: string
  pt_pod_security :: "k8s_value option"
  pt_image :: string
  pt_env :: "env_var list"
  pt_resources :: resource_requirements
  pt_ports :: "(string \<times> int) list"
  pt_security :: "k8s_value option"
  pt_mounts :: "pod_mount list"
  pt_readiness :: tcp_probe
  pt_liveness :: tcp_probe
  pt_volumes :: "pod_volume list"

text \<open>What the build reads besides the resources: the lists of the namespace and the library functions.\<close>

record build_input =
  bi_catalog :: "workspace_image list option"
  bi_policies :: "workspace_policy list option"
  bi_codec :: yaml_codec
  bi_digest :: "string \<Rightarrow> string"
  bi_fingerprint :: "pod_template \<Rightarrow> string"

definition no_workload :: workspace_workload where
  "no_workload = \<lparr>wl_kind = [], wl_security_context = None, wl_pod_security_context = None, wl_volumes = [], wl_volume_mounts = [],
     wl_node_selector = [], wl_tolerations = [], wl_service_account_name = [], wl_labels = [], wl_annotations = []\<rparr>"

definition workload_or_none :: "template_spec \<Rightarrow> workspace_workload" where
  "workload_or_none s = (case ts_workload s of None \<Rightarrow> no_workload | Some w \<Rightarrow> w)"

definition overrides_or_none :: "workspace \<Rightarrow> workspace_overrides" where
  "overrides_or_none ws = (case sp_overrides (ws_spec ws) of None \<Rightarrow> empty_overrides | Some ov \<Rightarrow> ov)"

definition workload_meta :: "workspace \<Rightarrow> template_spec \<Rightarrow> (string \<rightharpoonup> string) \<times> (string \<rightharpoonup> string)" where
  "workload_meta ws s =
     (let wl = workload_or_none s; ov = overrides_or_none ws in
      (merge_allowed (merge_string_map (wl_labels wl) (ov_labels ov)) (workspace_labels ws),
       merge_allowed (merge_string_map (wl_annotations wl) (ov_annotations ov)) []))"

definition effective_protocol :: "workspace \<Rightarrow> template_spec \<Rightarrow> workspace_protocol" where
  "effective_protocol ws s =
     (let chosen = ov_protocol (overrides_or_none ws) in
      if chosen \<noteq> [] then (case protocol_named s chosen of Some p \<Rightarrow> p | None \<Rightarrow> default_protocol s)
      else default_protocol s)"

definition arch_affinity :: "workspace_image option \<Rightarrow> string list" where
  "arch_affinity img = (case img of None \<Rightarrow> [] | Some i \<Rightarrow> im_architectures i)"

definition catalog_entry :: "build_input \<Rightarrow> template_spec \<Rightarrow> workspace_image option" where
  "catalog_entry bi s = (case bi_catalog bi of None \<Rightarrow> None | Some imgs \<Rightarrow> find_image imgs (ts_image s))"

definition pod_pull_secrets :: "build_input \<Rightarrow> workspace \<Rightarrow> template_spec \<Rightarrow> string list" where
  "pod_pull_secrets bi ws s =
     (case catalog_entry bi s of
        None \<Rightarrow> []
      | Some img \<Rightarrow> if im_image_pull_secret_ref img \<noteq> [] then [pull_secret_pod_name ws (im_image_pull_secret_ref img)] else [])"

definition container_ports :: "template_spec \<Rightarrow> (string \<times> int) list" where
  "container_ports s =
     map (\<lambda>p. (wp_name p, wp_port p)) (effective_protocols s) @
     (if audio_port_exposed s then [(audio_port_name, pulse_audio_port)] else [])"

text \<open>The configuration to mount; the empty string when there is none, or when it does not parse.\<close>

definition pod_kasm_config :: "build_input \<Rightarrow> workspace \<Rightarrow> template_spec \<Rightarrow> string" where
  "pod_kasm_config bi ws s =
     (if template_has_kasmvnc s
      then (case effective_config (bi_codec bi) (bi_policies bi) ws s of Inl _ \<Rightarrow> [] | Inr content \<Rightarrow> content)
      else [])"

definition pod_volumes :: "workspace \<Rightarrow> template_spec \<Rightarrow> string \<Rightarrow> string \<Rightarrow> pod_volume list" where
  "pod_volumes ws s pvc config =
     ClaimVolume ''home'' pvc #
     map PassedVolume (merge_volumes (wl_volumes (workload_or_none s)) (ov_volumes (overrides_or_none ws))) @
     (if config \<noteq> [] then [ConfigVolume ''kasmvnc-config'' (effective_workload_name ws) kasm_config_key, ScratchVolume ''kasmvnc-dir''] else [])"

definition pod_mounts :: "workspace \<Rightarrow> template_spec \<Rightarrow> string \<Rightarrow> pod_mount list" where
  "pod_mounts ws s config =
     MountAt ''home'' (effective_home_mount_path s) [] False #
     map PassedMount (merge_volume_mounts (wl_volume_mounts (workload_or_none s)) (ov_volume_mounts (overrides_or_none ws))) @
     (if config \<noteq> [] then
        [MountAt ''kasmvnc-dir'' (effective_home_mount_path s @ ''/.vnc'') [] False,
         MountAt ''kasmvnc-config'' (effective_home_mount_path s @ ''/.vnc/'' @ kasm_config_key) kasm_config_key True]
      else [])"

definition or_override :: "'a option \<Rightarrow> 'a option \<Rightarrow> 'a option" where
  "or_override base over = (case over of Some v \<Rightarrow> Some v | None \<Rightarrow> base)"

definition bare_pod_template :: "build_input \<Rightarrow> workspace \<Rightarrow> template_spec \<Rightarrow> string \<Rightarrow> pod_template" where
  "bare_pod_template bi ws s pvc =
     (let wl = workload_or_none s; ov = overrides_or_none ws; config = pod_kasm_config bi ws s;
          port = wp_port (effective_protocol ws s); meta = workload_meta ws s in
      \<lparr>pt_labels = fst meta,
       pt_annotations = (if config \<noteq> [] then (snd meta)(annotation_kasm_config_hash \<mapsto> bi_digest bi config) else snd meta),
       pt_restart_policy = ''Always'',
       pt_architectures = arch_affinity (catalog_entry bi s),
       pt_pull_secrets = pod_pull_secrets bi ws s,
       pt_node_selector = merge_string_map (wl_node_selector wl) (ov_node_selector ov),
       pt_tolerations = wl_tolerations wl @ ov_tolerations ov,
       pt_automount_token = False,
       pt_service_account = wl_service_account_name wl,
       pt_pod_security = or_override (wl_pod_security_context wl) (ov_pod_security_context ov),
       pt_image = ts_image s,
       pt_env = desktop_env ws s,
       pt_resources = (case sp_resources (ws_spec ws) of Some r \<Rightarrow> r | None \<Rightarrow> ts_resources s),
       pt_ports = container_ports s,
       pt_security = or_override (wl_security_context wl) (ov_security_context ov),
       pt_mounts = pod_mounts ws s config,
       pt_readiness = \<lparr>pb_port = port, pb_initial_delay = 5, pb_period = 5\<rparr>,
       pt_liveness = \<lparr>pb_port = port, pb_initial_delay = 30, pb_period = 10\<rparr>,
       pt_volumes = pod_volumes ws s pvc config\<rparr>)"

definition build_pod_template :: "build_input \<Rightarrow> workspace \<Rightarrow> template_spec \<Rightarrow> string \<Rightarrow> pod_template" where
  "build_pod_template bi ws s pvc =
     (let built = bare_pod_template bi ws s pvc in
      built\<lparr>pt_annotations := (pt_annotations built)(annotation_pod_template_hash \<mapsto> bi_fingerprint bi built)\<rparr>)"

definition template_hash :: "pod_template \<Rightarrow> string" where
  "template_hash t = str_at (pt_annotations t) annotation_pod_template_hash"

section \<open>Deployments and stateful sets\<close>

record scaled_workload =
  sw_meta :: object_meta
  sw_replicas :: "int option"
  sw_template :: pod_template
  sw_ready_replicas :: int
  sw_selector :: "(string \<times> string) list"
  sw_strategy :: string
  sw_service_name :: string
  sw_controller :: "string option"

text \<open>What an \<open>ensure\<close> reports: ready, drifted, reloaded.\<close>

record ensured =
  en_ready :: bool
  en_drifted :: bool
  en_reloaded :: bool

definition nothing_yet :: ensured where
  "nothing_yet = \<lparr>en_ready = False, en_drifted = False, en_reloaded = False\<rparr>"

datatype workload_error =
    FetchWorkloadFailed object_key
  | CreateWorkloadFailed object_key
  | UpdateWorkloadFailed object_key
  | PauseFailed object_key
  | ReloadFailed object_key

definition reload_requested :: "workspace \<Rightarrow> bool" where
  "reload_requested ws \<longleftrightarrow> ws_annotation ws annotation_reload_requested_at \<noteq> []"

definition desired_replicas :: "bool \<Rightarrow> int" where
  "desired_replicas paused = (if paused then 0 else 1)"

text \<open>
  The branch on an existing workload, which the code writes once per kind: the workload to store,
  whether it has to be stored, and the report.
\<close>

definition converge_scaled :: "bool \<Rightarrow> bool \<Rightarrow> pod_template \<Rightarrow> scaled_workload \<Rightarrow> scaled_workload \<times> bool \<times> ensured" where
  "converge_scaled paused reload desired w =
     (let want = desired_replicas paused;
          was_down = (case sw_replicas w of None \<Rightarrow> True | Some n \<Rightarrow> n = 0);
          rescaled = sw_replicas w \<noteq> Some want;
          w1 = (if rescaled then w\<lparr>sw_replicas := Some want\<rparr> else w);
          drifted = template_hash (sw_template w) \<noteq> template_hash desired;
          boundary = drifted \<and> (was_down \<or> want = 0);
          reloaded = drifted \<and> \<not> boundary \<and> reload;
          w2 = (if boundary \<or> reloaded then w1\<lparr>sw_template := desired\<rparr> else w1)
      in (w2, rescaled \<or> boundary \<or> reloaded,
          \<lparr>en_ready = 0 < sw_ready_replicas w \<and> \<not> paused \<and> \<not> reloaded,
           en_drifted = drifted \<and> \<not> boundary \<and> \<not> reloaded, en_reloaded = reloaded\<rparr>))"

definition ensure_scaled ::
  "scaled_workload api \<Rightarrow> object_key \<Rightarrow> scaled_workload \<Rightarrow> bool \<Rightarrow> bool \<Rightarrow> pod_template \<Rightarrow> scaled_workload store
     \<Rightarrow> (workload_error + ensured) \<times> scaled_workload store" where
  "ensure_scaled c key fresh paused reload desired st =
     (case kube_get c st key of
        Failed \<Rightarrow> (Inl (FetchWorkloadFailed key), st)
      | Missing \<Rightarrow> (case kube_create c st key fresh of
          (r, st') \<Rightarrow> (if created_or_there r then Inr nothing_yet else Inl (CreateWorkloadFailed key), st'))
      | Found w \<Rightarrow> (case converge_scaled paused reload desired w of (w', changed, report) \<Rightarrow>
          if changed then
            (case kube_update c st key w' of
               (r, st') \<Rightarrow> (if r = Done then Inr report else Inl (UpdateWorkloadFailed key), st'))
          else (Inr report, st)))"

text \<open>New objects carry the labels and annotations of the pod template.\<close>

definition workload_object_meta :: "object_key \<Rightarrow> pod_template \<Rightarrow> object_meta" where
  "workload_object_meta key t = \<lparr>md_name = snd key, md_namespace = fst key, md_uid = [], md_labels = pt_labels t,
     md_annotations = pt_annotations t, md_deleted = False, md_created = 0\<rparr>"

definition new_deployment :: "workspace \<Rightarrow> bool \<Rightarrow> pod_template \<Rightarrow> scaled_workload" where
  "new_deployment ws paused t =
     \<lparr>sw_meta = workload_object_meta (compute_key ws) t, sw_replicas = Some (desired_replicas paused), sw_template = t,
      sw_ready_replicas = 0, sw_selector = [(label_workspace, md_name (ws_meta ws))], sw_strategy = ''Recreate'',
      sw_service_name = [], sw_controller = owner_if_local ws (effective_target_namespace ws)\<rparr>"

definition new_stateful_set :: "workspace \<Rightarrow> bool \<Rightarrow> pod_template \<Rightarrow> scaled_workload" where
  "new_stateful_set ws paused t =
     \<lparr>sw_meta = workload_object_meta (compute_key ws) t, sw_replicas = Some (desired_replicas paused), sw_template = t,
      sw_ready_replicas = 0, sw_selector = [(label_workspace, md_name (ws_meta ws))], sw_strategy = [],
      sw_service_name = effective_workload_name ws, sw_controller = owner_if_local ws (effective_target_namespace ws)\<rparr>"

definition ensure_deployment ::
  "scaled_workload api \<Rightarrow> build_input \<Rightarrow> workspace \<Rightarrow> template_spec \<Rightarrow> string \<Rightarrow> bool \<Rightarrow> scaled_workload store
     \<Rightarrow> (workload_error + ensured) \<times> scaled_workload store" where
  "ensure_deployment c bi ws s pvc paused st =
     (let t = build_pod_template bi ws s pvc in
      ensure_scaled c (compute_key ws) (new_deployment ws paused t) paused (reload_requested ws) t st)"

definition ensure_stateful_set ::
  "scaled_workload api \<Rightarrow> build_input \<Rightarrow> workspace \<Rightarrow> template_spec \<Rightarrow> string \<Rightarrow> bool \<Rightarrow> scaled_workload store
     \<Rightarrow> (workload_error + ensured) \<times> scaled_workload store" where
  "ensure_stateful_set c bi ws s pvc paused st =
     (let t = build_pod_template bi ws s pvc in
      ensure_scaled c (compute_key ws) (new_stateful_set ws paused t) paused (reload_requested ws) t st)"

section \<open>Bare pods\<close>

record desktop_pod =
  dp_meta :: object_meta
  dp_template :: pod_template
  dp_phase :: string
  dp_conditions :: "(string \<times> string) list"
  dp_controller :: "string option"

definition pod_ready :: "desktop_pod \<Rightarrow> bool" where
  "pod_ready p =
     (if dp_phase p \<noteq> ''Running'' then False
      else case find (\<lambda>c. fst c = ''Ready'') (dp_conditions p) of None \<Rightarrow> False | Some c \<Rightarrow> snd c = ''True'')"

text \<open>Deleting a pod starts its graceful termination: the pod stays, marked.\<close>

definition delete_pod :: "desktop_pod api \<Rightarrow> desktop_pod store \<Rightarrow> object_key \<Rightarrow> outcome \<times> desktop_pod store" where
  "delete_pod c st key =
     (if \<not> on_delete c then (Refused, st)
      else case st key of
        None \<Rightarrow> (Gone, st)
      | Some p \<Rightarrow> (Done, st(key \<mapsto> p\<lparr>dp_meta := (dp_meta p)\<lparr>md_deleted := True\<rparr>\<rparr>)))"

definition new_pod :: "workspace \<Rightarrow> pod_template \<Rightarrow> desktop_pod" where
  "new_pod ws t = \<lparr>dp_meta = workload_object_meta (compute_key ws) t, dp_template = t, dp_phase = [], dp_conditions = [],
     dp_controller = owner_if_local ws (effective_target_namespace ws)\<rparr>"

definition ensure_pod ::
  "desktop_pod api \<Rightarrow> build_input \<Rightarrow> workspace \<Rightarrow> template_spec \<Rightarrow> string \<Rightarrow> bool \<Rightarrow> desktop_pod store
     \<Rightarrow> (workload_error + ensured) \<times> desktop_pod store" where
  "ensure_pod c bi ws s pvc paused st =
     (let key = compute_key ws; desired = build_pod_template bi ws s pvc in
      case kube_get c st key of
        Found p \<Rightarrow>
          if paused then
            (case delete_pod c st key of
               (r, st') \<Rightarrow> (if deleted_or_gone r then Inr nothing_yet else Inl (PauseFailed key), st'))
          else let drifted = str_at (md_annotations (dp_meta p)) annotation_pod_template_hash \<noteq> template_hash desired in
            if drifted \<and> reload_requested ws then
              (case delete_pod c st key of
                 (r, st') \<Rightarrow> (if deleted_or_gone r then Inr (nothing_yet\<lparr>en_reloaded := True\<rparr>) else Inl (ReloadFailed key), st'))
            else (Inr \<lparr>en_ready = pod_ready p, en_drifted = drifted, en_reloaded = False\<rparr>, st)
      | Failed \<Rightarrow> (Inl (FetchWorkloadFailed key), st)
      | Missing \<Rightarrow>
          if paused then (Inr nothing_yet, st)
          else (case kube_create c st key (new_pod ws desired) of
            (r, st') \<Rightarrow> (if created_or_there r then Inr nothing_yet else Inl (CreateWorkloadFailed key), st')))"

section \<open>Virtual machines\<close>

record virtual_machine =
  vm_meta :: object_meta
  vm_running :: "bool option"
  vm_ready :: "bool option"
  vm_labels :: "(string \<times> string) list"
  vm_requests :: "string \<rightharpoonup> quantity"
  vm_image :: string
  vm_claim :: string
  vm_controller :: "string option"

definition some_true :: "bool option \<Rightarrow> bool" where "some_true b \<longleftrightarrow> b = Some True"

definition default_vm_requests :: "string \<rightharpoonup> quantity" where
  "default_vm_requests = [''memory'' \<mapsto> 4 * gi, ''cpu'' \<mapsto> 2 * 1000000000]"

text \<open>The flag says whether the requests are non-empty; a Go map is tested by its length.\<close>

definition vm_resources :: "workspace \<Rightarrow> template_spec \<Rightarrow> resource_requirements" where
  "vm_resources ws s = (case sp_resources (ws_spec ws) of Some r \<Rightarrow> r | None \<Rightarrow> ts_resources s)"

definition new_virtual_machine :: "workspace \<Rightarrow> template_spec \<Rightarrow> string \<Rightarrow> bool \<Rightarrow> virtual_machine" where
  "new_virtual_machine ws s pvc running =
     \<lparr>vm_meta = labelled_meta ws (compute_key ws), vm_running = Some running, vm_ready = None, vm_labels = workspace_labels ws,
      vm_requests = (if rr_requests (vm_resources ws s) = Map.empty then default_vm_requests else rr_requests (vm_resources ws s)),
      vm_image = ts_image s, vm_claim = pvc, vm_controller = owner_if_local ws (effective_target_namespace ws)\<rparr>"

definition ensure_virtual_machine ::
  "virtual_machine api \<Rightarrow> workspace \<Rightarrow> template_spec \<Rightarrow> string \<Rightarrow> bool \<Rightarrow> virtual_machine store
     \<Rightarrow> (workload_error + bool) \<times> virtual_machine store" where
  "ensure_virtual_machine c ws s pvc running st =
     (let key = compute_key ws in
      case kube_get c st key of
        Failed \<Rightarrow> (Inl (FetchWorkloadFailed key), st)
      | Missing \<Rightarrow> (case kube_create c st key (new_virtual_machine ws s pvc running) of
          (r, st') \<Rightarrow> (if created_or_there r then Inr False else Inl (CreateWorkloadFailed key), st'))
      | Found vm \<Rightarrow>
          if some_true (vm_running vm) \<noteq> running then
            (case kube_update c st key (vm\<lparr>vm_running := Some running\<rparr>) of
               (r, st') \<Rightarrow> (if r = Done then Inr (some_true (vm_ready vm) \<and> running) else Inl (UpdateWorkloadFailed key), st'))
          else (Inr (some_true (vm_ready vm) \<and> running), st))"

section \<open>The workload of a workspace\<close>

record workloads =
  wk_deployments :: "scaled_workload store"
  wk_stateful_sets :: "scaled_workload store"
  wk_pods :: "desktop_pod store"
  wk_machines :: "virtual_machine store"

record workload_calls =
  wc_deployment :: "scaled_workload api"
  wc_stateful_set :: "scaled_workload api"
  wc_pod :: "desktop_pod api"
  wc_machine :: "virtual_machine api"

definition ensure_workload ::
  "workload_calls \<Rightarrow> build_input \<Rightarrow> workspace \<Rightarrow> template_spec \<Rightarrow> string \<Rightarrow> bool \<Rightarrow> workloads
     \<Rightarrow> (workload_error + ensured) \<times> workloads" where
  "ensure_workload cs bi ws s pvc paused w =
     (if workload_kind_or_default s = ''Pod'' then
        (case ensure_pod (wc_pod cs) bi ws s pvc paused (wk_pods w) of (r, st) \<Rightarrow> (r, w\<lparr>wk_pods := st\<rparr>))
      else if workload_kind_or_default s = ''StatefulSet'' then
        (case ensure_stateful_set (wc_stateful_set cs) bi ws s pvc paused (wk_stateful_sets w) of
           (r, st) \<Rightarrow> (r, w\<lparr>wk_stateful_sets := st\<rparr>))
      else
        (case ensure_deployment (wc_deployment cs) bi ws s pvc paused (wk_deployments w) of
           (r, st) \<Rightarrow> (r, w\<lparr>wk_deployments := st\<rparr>)))"

text \<open>One read of the three of \<open>computeExists\<close>, in the order of the code; the rest runs on a miss.\<close>

definition exists_or :: "'a fetched \<Rightarrow> unit + bool \<Rightarrow> unit + bool" where
  "exists_or r rest = (case r of Found _ \<Rightarrow> Inr True | Missing \<Rightarrow> rest | Failed \<Rightarrow> Inl ())"

definition compute_exists :: "workload_calls \<Rightarrow> workspace \<Rightarrow> template_spec \<Rightarrow> workloads \<Rightarrow> unit + bool" where
  "compute_exists cs ws s w =
     (let key = compute_key ws in
      if ts_os s = os_windows then exists_or (kube_get (wc_machine cs) (wk_machines w) key) (Inr False)
      else exists_or (kube_get (wc_deployment cs) (wk_deployments w) key)
             (exists_or (kube_get (wc_stateful_set cs) (wk_stateful_sets w) key)
               (exists_or (kube_get (wc_pod cs) (wk_pods w) key) (Inr False))))"

section \<open>The service\<close>

record service_port =
  vp_name :: string
  vp_port :: int
  vp_target :: int
  vp_protocol :: string

record service =
  sv_meta :: object_meta
  sv_selector :: "(string \<times> string) list"
  sv_ports :: "service_port list"
  sv_controller :: "string option"

definition desired_service_ports :: "template_spec \<Rightarrow> service_port list" where
  "desired_service_ports s =
     map (\<lambda>p. \<lparr>vp_name = wp_name p, vp_port = wp_port p, vp_target = wp_port p, vp_protocol = []\<rparr>) (effective_protocols s) @
     (if audio_port_exposed s
      then [\<lparr>vp_name = audio_port_name, vp_port = pulse_audio_port, vp_target = pulse_audio_port, vp_protocol = []\<rparr>] else [])"

definition same_port :: "service_port \<Rightarrow> service_port \<Rightarrow> bool" where
  "same_port live want \<longleftrightarrow> \<not> (vp_name live \<noteq> vp_name want \<or> vp_port live \<noteq> vp_port want \<or> vp_target live \<noteq> vp_target want
     \<or> (vp_protocol live \<noteq> [] \<and> vp_protocol live \<noteq> ''TCP''))"

definition service_ports_equal :: "service_port list \<Rightarrow> service_port list \<Rightarrow> bool" where
  "service_ports_equal live desired \<longleftrightarrow> length live = length desired \<and> list_all2 same_port live desired"

datatype service_error = FetchServiceFailed object_key | CreateServiceFailed object_key | UpdateServiceFailed object_key

definition new_service :: "workspace \<Rightarrow> template_spec \<Rightarrow> service" where
  "new_service ws s = \<lparr>sv_meta = labelled_meta ws (compute_key ws), sv_selector = [(label_workspace, md_name (ws_meta ws))],
     sv_ports = desired_service_ports s, sv_controller = owner_if_local ws (effective_target_namespace ws)\<rparr>"

definition ensure_service ::
  "service api \<Rightarrow> workspace \<Rightarrow> template_spec \<Rightarrow> service store \<Rightarrow> (service_error + unit) \<times> service store" where
  "ensure_service c ws s st =
     (let key = compute_key ws; ports = desired_service_ports s in
      case kube_get c st key of
        Failed \<Rightarrow> (Inl (FetchServiceFailed key), st)
      | Missing \<Rightarrow> (case kube_create c st key (new_service ws s) of
          (r, st') \<Rightarrow> (if created_or_there r then Inr () else Inl (CreateServiceFailed key), st'))
      | Found svc \<Rightarrow>
          if service_ports_equal (sv_ports svc) ports then (Inr (), st)
          else (case kube_update c st key (svc\<lparr>sv_ports := ports\<rparr>) of
            (r, st') \<Rightarrow> (if r = Done then Inr () else Inl (UpdateServiceFailed key), st')))"

section \<open>Facts on the pod template\<close>

lemma template_hash_build:
  "template_hash (build_pod_template bi ws s pvc) = bi_fingerprint bi (bare_pod_template bi ws s pvc)"
  by (simp add: template_hash_def build_pod_template_def Let_def)

lemma build_pod_template_fields:
  "pt_labels (build_pod_template bi ws s pvc) = fst (workload_meta ws s)"
  "pt_env (build_pod_template bi ws s pvc) = desktop_env ws s"
  "pt_automount_token (build_pod_template bi ws s pvc) = False"
  "pt_ports (build_pod_template bi ws s pvc) = container_ports s"
  "pb_port (pt_readiness (build_pod_template bi ws s pvc)) = wp_port (effective_protocol ws s)"
  "pb_port (pt_liveness (build_pod_template bi ws s pvc)) = wp_port (effective_protocol ws s)"
  "pt_volumes (build_pod_template bi ws s pvc) = pod_volumes ws s pvc (pod_kasm_config bi ws s)"
  "pt_mounts (build_pod_template bi ws s pvc) = pod_mounts ws s (pod_kasm_config bi ws s)"
  by (simp_all add: build_pod_template_def bare_pod_template_def Let_def)

lemma effective_protocol_in: "effective_protocol ws s \<in> set (effective_protocols s)"
  by (auto simp: effective_protocol_def Let_def default_protocol_in split: option.split dest: protocol_named_some)

lemma workspace_labels_distinct: "distinct (map fst (workspace_labels ws))"
  by (simp add: workspace_labels_def label_names)

lemma workload_labels_at:
  "fst (workload_meta ws s) k = (case map_of (workspace_labels ws) k of
     Some v \<Rightarrow> Some v
   | None \<Rightarrow> map_of (rev (filter (\<lambda>kv. check_key (fst kv) = None)
       (merge_string_map (wl_labels (workload_or_none s)) (ov_labels (overrides_or_none ws))))) k)"
  using workspace_labels_distinct [of ws]
  by (simp add: workload_meta_def merge_allowed_map Let_def map_add_def map_of_rev_distinct split: option.split)

lemma workload_label_reserved:
  "fst (workload_meta ws s) k = Some v \<Longrightarrow> map_of (workspace_labels ws) k = None \<Longrightarrow> check_key k = None"
  by (auto simp: workload_labels_at split: option.splits dest!: map_of_SomeD)

text \<open>Platform metadata and mounts cannot be overridden by a tenant. In the pod template of every workspace,
  whatever the template and the overrides say, the four operator labels have the values of the workspace,
  every other label key is outside the reserved domains, no token of the Kubernetes API is mounted, the
  home volume is the claim of the workspace, mounted first at the home path, the probes test the port of a
  protocol the template declares, and the service and the deployment select the pod.
\<close>

lemma platform_shape_enforced:
  "(\<forall>k. pt_labels (build_pod_template bi ws s pvc) k =
     (if k = label_managed_by then Some manager_name
      else if k = label_workspace then Some (md_name (ws_meta ws))
      else if k = label_workspace_namespace then Some (md_namespace (ws_meta ws))
      else if k = label_owner then Some (sp_owner (ws_spec ws))
      else if check_key k = None then pt_labels (build_pod_template bi ws s pvc) k else None)) \<and>
   \<not> pt_automount_token (build_pod_template bi ws s pvc) \<and>
   hd (pt_volumes (build_pod_template bi ws s pvc)) = ClaimVolume ''home'' pvc \<and>
   hd (pt_mounts (build_pod_template bi ws s pvc)) = MountAt ''home'' (effective_home_mount_path s) [] False \<and>
   pb_port (pt_readiness (build_pod_template bi ws s pvc)) \<in> wp_port ` set (effective_protocols s) \<and>
   list_all (\<lambda>(k, v). pt_labels (build_pod_template bi ws s pvc) k = Some v)
     (sv_selector (new_service ws s) @ sw_selector (new_deployment ws paused t))"
proof -
  have at: "pt_labels (build_pod_template bi ws s pvc) k =
     (if k = label_managed_by then Some manager_name
      else if k = label_workspace then Some (md_name (ws_meta ws))
      else if k = label_workspace_namespace then Some (md_namespace (ws_meta ws))
      else if k = label_owner then Some (sp_owner (ws_spec ws))
      else if check_key k = None then pt_labels (build_pod_template bi ws s pvc) k else None)" for k
  proof (cases "map_of (workspace_labels ws) k")
    case None
    then show ?thesis
      using workload_label_reserved [of ws s k]
      by (cases "fst (workload_meta ws s) k") (auto simp: build_pod_template_fields workspace_labels_def split: if_splits)
  next
    case (Some v)
    then have "fst (workload_meta ws s) k = Some v" by (simp add: workload_labels_at)
    with Some show ?thesis by (auto simp: build_pod_template_fields workspace_labels_def split: if_splits)
  qed
  have sel: "pt_labels (build_pod_template bi ws s pvc) label_workspace = Some (md_name (ws_meta ws))"
    by (simp add: build_pod_template_fields workload_labels_at workspace_labels_def label_names)
  show ?thesis
    using at sel effective_protocol_in [of ws s]
    by (simp add: build_pod_template_fields pod_volumes_def pod_mounts_def new_service_def new_deployment_def)
qed

section \<open>Facts on the convergence of the shape\<close>

lemma converge_scaled_facts:
  assumes "converge_scaled paused reload desired w = (w', changed, report)"
  shows "\<not> changed \<Longrightarrow> w' = w"
    "sw_replicas w' = Some (desired_replicas paused)"
    "en_drifted report \<longleftrightarrow> template_hash (sw_template w') \<noteq> template_hash desired"
    "en_reloaded report \<Longrightarrow> reload \<and> \<not> paused \<and> sw_replicas w \<noteq> None \<and> sw_replicas w \<noteq> Some 0"
    "en_ready report \<Longrightarrow> \<not> paused"
    "sw_template w' \<noteq> sw_template w \<Longrightarrow>
       (paused \<or> sw_replicas w = None \<or> sw_replicas w = Some 0 \<or> reload) \<and> sw_template w' = desired"
    "paused \<or> sw_replicas w = None \<or> sw_replicas w = Some 0 \<or> reload \<Longrightarrow> \<not> en_drifted report"
  using assms unfolding converge_scaled_def Let_def prod.inject
  by (auto simp: desired_replicas_def split: option.splits if_splits)

text \<open>No desktop runs in a workload that is missing or scaled to zero.\<close>

definition asleep :: "scaled_workload option \<Rightarrow> bool" where
  "asleep w \<longleftrightarrow> (case w of None \<Rightarrow> True | Some d \<Rightarrow> sw_replicas d = None \<or> sw_replicas d = Some 0)"

text \<open>
  The contract the two scaled kinds share: an \<open>ensure\<close> is the scaled convergence on a fresh object that
  has the wanted replicas and the wanted template.
\<close>

locale scaled_kind =
  fixes ensure :: "scaled_workload api \<Rightarrow> build_input \<Rightarrow> workspace \<Rightarrow> template_spec \<Rightarrow> string \<Rightarrow> bool \<Rightarrow> scaled_workload store
      \<Rightarrow> (workload_error + ensured) \<times> scaled_workload store"
    and fresh :: "workspace \<Rightarrow> bool \<Rightarrow> pod_template \<Rightarrow> scaled_workload"
  assumes ensure_scaled: "ensure c bi ws s pvc paused st =
      ensure_scaled c (compute_key ws) (fresh ws paused (build_pod_template bi ws s pvc)) paused (reload_requested ws)
        (build_pod_template bi ws s pvc) st"
    and fresh_replicas: "sw_replicas (fresh ws paused t) = Some (desired_replicas paused)"
    and fresh_template: "sw_template (fresh ws paused t) = t"
begin

text \<open>A workload that is up, in a pass that neither pauses nor reloads, is left as it is.\<close>

lemma up_untouched:
  assumes "st (compute_key ws) = Some w" "sw_replicas w = Some 1" "\<not> reload_requested ws"
  shows "snd (ensure c bi ws s pvc False st) = st"
  using assms
  by (auto simp: ensure_scaled ensure_scaled_def converge_scaled_def desired_replicas_def Let_def kube_get_def split: fetched.split)

lemma ensure_frame: "key \<noteq> compute_key ws \<Longrightarrow> snd (ensure c bi ws s pvc paused st) key = st key"
  by (auto simp: ensure_scaled ensure_scaled_def kube_create_def kube_update_def split: fetched.split option.split prod.split)

text \<open>A successful pass leaves the wanted replicas, reports the drift that is left, and leaves none at a boundary.\<close>

lemma converged:
  assumes "quiet c" "ensure c bi ws s pvc paused st = (Inr report, st')"
  shows "\<exists>w. st' (compute_key ws) = Some w \<and> sw_replicas w = Some (desired_replicas paused) \<and>
     (en_drifted report \<longleftrightarrow> template_hash (sw_template w) \<noteq> template_hash (build_pod_template bi ws s pvc)) \<and>
     (en_ready report \<longrightarrow> \<not> paused) \<and>
     (paused \<or> asleep (st (compute_key ws)) \<or> reload_requested ws \<longrightarrow> \<not> en_drifted report)"
proof -
  let ?t = "build_pod_template bi ws s pvc" and ?key = "compute_key ws"
  have e: "ensure_scaled c ?key (fresh ws paused ?t) paused (reload_requested ws) ?t st = (Inr report, st')"
    using assms(2) by (simp add: ensure_scaled)
  show ?thesis
  proof (cases "st ?key")
    case None
    with e assms(1) have "report = nothing_yet" "st' = st(?key \<mapsto> fresh ws paused ?t)"
      by (auto simp: ensure_scaled_def kube_get_def kube_create_def quiet_def split: if_splits)
    then show ?thesis by (simp add: nothing_yet_def fresh_replicas fresh_template)
  next
    case (Some w)
    obtain w' changed r where cv: "converge_scaled paused (reload_requested ws) ?t w = (w', changed, r)" by (metis prod_cases3)
    from e Some cv have out: "report = r" "st' ?key = Some w'"
      using converge_scaled_facts(1) [OF cv]
      by (auto simp: ensure_scaled_def kube_get_def kube_update_def split: if_splits)
    have "paused \<or> asleep (Some w) \<or> reload_requested ws \<longrightarrow> \<not> en_drifted r"
      using converge_scaled_facts(7) [OF cv] by (auto simp: asleep_def)
    with out Some converge_scaled_facts(2,3,5) [OF cv] show ?thesis by auto
  qed
qed

end

interpretation deployment: scaled_kind ensure_deployment new_deployment
  by unfold_locales (simp_all add: ensure_deployment_def new_deployment_def Let_def)

interpretation stateful_set: scaled_kind ensure_stateful_set new_stateful_set
  by unfold_locales (simp_all add: ensure_stateful_set_def new_stateful_set_def Let_def)

section \<open>Properties of the workload\<close>

text \<open>One pass over the workload, with everything that may change between two passes.\<close>

record workload_pass =
  lp_calls :: workload_calls
  lp_input :: build_input
  lp_workspace :: workspace
  lp_spec :: template_spec
  lp_claim :: string
  lp_paused :: bool

definition workload_step :: "workload_pass \<Rightarrow> workloads \<Rightarrow> (workload_error + ensured) \<times> workloads" where
  "workload_step p = ensure_workload (lp_calls p) (lp_input p) (lp_workspace p) (lp_spec p) (lp_claim p) (lp_paused p)"

definition calm_pass :: "object_key \<Rightarrow> workload_pass \<Rightarrow> bool" where
  "calm_pass key p \<longleftrightarrow> compute_key (lp_workspace p) = key \<and> \<not> lp_paused p \<and> \<not> reload_requested (lp_workspace p)"

lemma ensure_pod_running:
  assumes "st (compute_key ws) = Some p" "\<not> reload_requested ws"
  shows "snd (ensure_pod c bi ws s pvc False st) = st"
  using assms by (auto simp: ensure_pod_def Let_def kube_get_def split: fetched.split)

lemma workload_step_keeps:
  assumes "calm_pass key p"
  shows "wk_deployments w key = Some d \<Longrightarrow> sw_replicas d = Some 1 \<Longrightarrow> wk_deployments (snd (workload_step p w)) key = Some d"
    "wk_stateful_sets w key = Some d \<Longrightarrow> sw_replicas d = Some 1 \<Longrightarrow> wk_stateful_sets (snd (workload_step p w)) key = Some d"
    "wk_pods w key = Some x \<Longrightarrow> wk_pods (snd (workload_step p w)) key = Some x"
  using assms deployment.up_untouched [of "wk_deployments w" "lp_workspace p" d]
    stateful_set.up_untouched [of "wk_stateful_sets w" "lp_workspace p" d]
    ensure_pod_running [of "wk_pods w" "lp_workspace p" x]
  by (auto simp: workload_step_def ensure_workload_def calm_pass_def split: prod.splits) (metis snd_conv)+

text \<open>As long as the passes find the workspace up and no reload asked for, every deployment or stateful set at one
  replica and every pod of the workspace is, after any number of passes over the workload, the object it was.
\<close>

lemma workload_passes_untouched:
  assumes "list_all (calm_pass key) ps"
  shows "(\<forall>d. wk_deployments w key = Some d \<longrightarrow> sw_replicas d = Some 1 \<longrightarrow> wk_deployments (passes workload_step ps w) key = Some d) \<and>
    (\<forall>d. wk_stateful_sets w key = Some d \<longrightarrow> sw_replicas d = Some 1 \<longrightarrow> wk_stateful_sets (passes workload_step ps w) key = Some d) \<and>
    (\<forall>x. wk_pods w key = Some x \<longrightarrow> wk_pods (passes workload_step ps w) key = Some x)"
  using assms
proof (induction ps arbitrary: w)
  case (Cons p ps)
  then have "calm_pass key p" by simp
  from workload_step_keeps [OF this, of w] Cons show ?case by simp
qed simp

text \<open>A template change reaches every desktop at its next boundary. When a pass over a deployment or a stateful
  set succeeds and nobody else created the object meanwhile, the object has the replicas the pause state
  asks for, drift is reported exactly when its pod template is not the desired one, and no drift is left
  if the workspace is paused, was at zero replicas or absent, or asked for a reload.
\<close>

lemma shape_converges_at_boundary:
  assumes "workload_kind_or_default s \<noteq> ''Pod''" "quiet (wc_deployment cs)" "quiet (wc_stateful_set cs)"
    "ensure_workload cs bi ws s pvc paused w = (Inr report, w')"
    "live = (if workload_kind_or_default s = ''StatefulSet'' then wk_stateful_sets else wk_deployments)"
  shows "\<exists>d. live w' (compute_key ws) = Some d \<and> sw_replicas d = Some (if paused then 0 else 1) \<and>
    (en_drifted report \<longleftrightarrow> template_hash (sw_template d) \<noteq> template_hash (build_pod_template bi ws s pvc)) \<and>
    (paused \<or> asleep (live w (compute_key ws)) \<or> reload_requested ws \<longrightarrow> \<not> en_drifted report)"
  using assms
    deployment.converged [of "wc_deployment cs" bi ws s pvc paused "wk_deployments w" report "wk_deployments w'"]
    stateful_set.converged [of "wc_stateful_set cs" bi ws s pvc paused "wk_stateful_sets w" report "wk_stateful_sets w'"]
  by (auto simp: ensure_workload_def desired_replicas_def split: prod.splits if_splits)

text \<open>Editing the workload kind of a template starts a second desktop on the same home volume. When a
  workspace runs as a deployment and its template asks for a stateful set, one pass leaves the deployment
  as it is and creates a stateful set beside it, both mounting the home claim, and a paused pass scales
  only the stateful set, so the old desktop keeps running.
\<close>

lemma kind_change_doubles_workload:
  assumes "wk_deployments w (compute_key ws) = Some d" "sw_replicas d = Some 1"
    "ClaimVolume ''home'' pvc \<in> set (pt_volumes (sw_template d))"
    "workload_kind_or_default s = ''StatefulSet''" "quiet (wc_stateful_set cs)"
    "ensure_workload cs bi ws s pvc False w = (Inr report, w1)"
    "ensure_workload cs bi ws s pvc True w1 = (Inr report', w2)"
  shows "wk_deployments w1 (compute_key ws) = Some d \<and> wk_deployments w2 (compute_key ws) = Some d \<and>
    (\<exists>t. wk_stateful_sets w1 (compute_key ws) = Some t \<and> sw_replicas t = Some 1) \<and>
    (\<exists>t. wk_stateful_sets w2 (compute_key ws) = Some t \<and> sw_replicas t = Some 0) \<and>
    (wk_stateful_sets w (compute_key ws) = None \<longrightarrow>
       (\<exists>t. wk_stateful_sets w1 (compute_key ws) = Some t \<and> ClaimVolume ''home'' pvc \<in> set (pt_volumes (sw_template t))))"
proof -
  let ?key = "compute_key ws"
  have step: "ensure_stateful_set (wc_stateful_set cs) bi ws s pvc False (wk_stateful_sets w) = (Inr report, wk_stateful_sets w1)"
    "ensure_stateful_set (wc_stateful_set cs) bi ws s pvc True (wk_stateful_sets w1) = (Inr report', wk_stateful_sets w2)"
    "wk_deployments w1 = wk_deployments w" "wk_deployments w2 = wk_deployments w"
    using assms(4,6,7) by (auto simp: ensure_workload_def split: prod.splits)
  have "\<exists>t. wk_stateful_sets w1 ?key = Some t \<and> ClaimVolume ''home'' pvc \<in> set (pt_volumes (sw_template t))"
    if "wk_stateful_sets w ?key = None"
  proof -
    have "wk_stateful_sets w1 = (wk_stateful_sets w)(?key \<mapsto> new_stateful_set ws False (build_pod_template bi ws s pvc))"
      using step(1) assms(5) that
      by (auto simp: ensure_stateful_set_def ensure_scaled_def kube_get_def kube_create_def quiet_def Let_def split: if_splits)
    then show ?thesis by (simp add: new_stateful_set_def build_pod_template_fields pod_volumes_def)
  qed
  with step assms(1) stateful_set.converged [OF assms(5) step(1)] stateful_set.converged [OF assms(5) step(2)]
  show ?thesis by (auto simp: desired_replicas_def)
qed

section \<open>Facts on the service\<close>

lemma desired_ports_plain: "p \<in> set (desired_service_ports s) \<Longrightarrow> vp_protocol p = []"
  by (auto simp: desired_service_ports_def split: if_splits)

lemma service_ports_equal_desired: "service_ports_equal (desired_service_ports s) (desired_service_ports s)"
  by (auto simp: service_ports_equal_def same_port_def list_all2_same desired_ports_plain)

definition service_settled :: "workspace \<Rightarrow> template_spec \<Rightarrow> service store \<Rightarrow> bool" where
  "service_settled ws s st \<longleftrightarrow>
     (case st (compute_key ws) of None \<Rightarrow> False | Some svc \<Rightarrow> service_ports_equal (sv_ports svc) (desired_service_ports s))"

interpretation service: convergent_step "\<lambda>c. ensure_service c ws s" quiet "service_settled ws s"
proof
  fix c st r st'
  assume "quiet c" "ensure_service c ws s st = (Inr r, st')"
  then show "service_settled ws s st'"
    by (auto simp: ensure_service_def service_settled_def Let_def kube_simps kube_create_def kube_update_def quiet_def
        new_service_def service_ports_equal_desired split: fetched.splits if_splits prod.splits)
next
  fix c st
  assume "service_settled ws s st"
  then show "snd (ensure_service c ws s st) = st"
    by (auto simp: ensure_service_def service_settled_def Let_def kube_get_def split: fetched.split option.splits)
qed

text \<open>Only the ports of an existing service change.\<close>

lemma ensure_service_keeps:
  assumes "t (compute_key ws) = Some svc0" "svc0\<lparr>sv_ports := sv_ports old\<rparr> = old"
  shows "\<exists>svc. snd (ensure_service c ws s t) (compute_key ws) = Some svc \<and> svc\<lparr>sv_ports := sv_ports old\<rparr> = old"
  using assms by (auto simp: ensure_service_def Let_def kube_get_def kube_update_def split: fetched.split if_splits)

lemma service_passes_keep:
  assumes "t (compute_key ws) = Some svc0" "svc0\<lparr>sv_ports := sv_ports old\<rparr> = old"
  shows "\<exists>svc. passes (\<lambda>c. ensure_service c ws s) cs t (compute_key ws) = Some svc \<and> svc\<lparr>sv_ports := sv_ports old\<rparr> = old"
  using assms
proof (induction cs arbitrary: t svc0)
  case (Cons c cs)
  from ensure_service_keeps [of t ws svc0 old c s] Cons.prems
  obtain svc where "snd (ensure_service c ws s t) (compute_key ws) = Some svc" "svc\<lparr>sv_ports := sv_ports old\<rparr> = old"
    by blast
  with Cons.IH [of "snd (ensure_service c ws s t)" svc] show ?case by simp
qed auto

text \<open>The service mirrors the protocols of the template. Once a pass over the service succeeds while nobody
  else creates it, its ports are the declared protocols in order, with the audio port last when a protocol
  exposes it, up to the transport the server fills in, and no later pass writes it again while the
  template stays; and no pass ever changes anything but the ports.
\<close>

lemma service_ports_converge:
  assumes "quiet c" "ensure_service c ws s (passes (\<lambda>c. ensure_service c ws s) cs st) = (Inr (), st')"
  shows "passes (\<lambda>c. ensure_service c ws s) (cs @ c # later) st = st' \<and>
    (\<exists>svc. st' (compute_key ws) = Some svc \<and>
       map (\<lambda>p. (vp_name p, vp_port p, vp_target p)) (sv_ports svc) =
         map (\<lambda>(n, p). (n, p, p)) (container_ports s) \<and>
       set (map vp_protocol (sv_ports svc)) \<subseteq> {[], ''TCP''} \<and>
       (case st (compute_key ws) of None \<Rightarrow> True | Some old \<Rightarrow> svc\<lparr>sv_ports := sv_ports old\<rparr> = old))"
proof -
  let ?key = "compute_key ws"
  have ports: "map (\<lambda>p. (vp_name p, vp_port p, vp_target p)) live = map (\<lambda>p. (vp_name p, vp_port p, vp_target p)) want \<and>
      set (map vp_protocol live) \<subseteq> {[], ''TCP''}" if "list_all2 same_port live want" for live want
    using that by (induction rule: list_all2_induct) (auto simp: same_port_def)
  have want: "map (\<lambda>p. (vp_name p, vp_port p, vp_target p)) (desired_service_ports s) = map (\<lambda>(n, p). (n, p, p)) (container_ports s)"
    by (simp add: desired_service_ports_def container_ports_def)
  from service.one_success_suffices [OF assms, of later]
  obtain svc where svc: "st' ?key = Some svc" "list_all2 same_port (sv_ports svc) (desired_service_ports s)"
    and rest: "passes (\<lambda>c. ensure_service c ws s) (cs @ c # later) st = st'"
    by (auto simp: service_settled_def service_ports_equal_def split: option.splits)
  have "case st ?key of None \<Rightarrow> True | Some old \<Rightarrow> svc\<lparr>sv_ports := sv_ports old\<rparr> = old"
    using service_passes_keep [of st ws _ _ s "cs @ [c]"] svc(1) assms(2)
    by (cases "st ?key") (auto simp: passes_append)
  with svc rest ports [OF svc(2)] want show ?thesis by auto
qed

section \<open>Instances\<close>

definition demo_input :: build_input where
  "demo_input = \<lparr>bi_catalog = Some [], bi_policies = Some [], bi_codec = plain_codec, bi_digest = id, bi_fingerprint = pt_image\<rparr>"

definition demo_calls :: workload_calls where
  "demo_calls = \<lparr>wc_deployment = answering, wc_stateful_set = answering, wc_pod = answering, wc_machine = answering\<rparr>"

definition demo_spec :: template_spec where "demo_spec = tp_spec demo_template"

definition demo_edited_spec :: template_spec where
  "demo_edited_spec = demo_spec\<lparr>ts_image := ''j'', ts_workload := Some (no_workload\<lparr>wl_kind := ''StatefulSet''\<rparr>)\<rparr>"

definition demo_deployment :: scaled_workload where
  "demo_deployment = new_deployment demo_workspace False (build_pod_template demo_input demo_workspace demo_spec ''h'')"

definition demo_running :: workloads where
  "demo_running = \<lparr>wk_deployments = [compute_key demo_workspace \<mapsto> demo_deployment], wk_stateful_sets = Map.empty,
     wk_pods = Map.empty, wk_machines = Map.empty\<rparr>"

definition demo_pass :: workload_pass where
  "demo_pass = \<lparr>lp_calls = demo_calls, lp_input = demo_input, lp_workspace = demo_workspace, lp_spec = demo_edited_spec,
     lp_claim = ''h'', lp_paused = False\<rparr>"

lemma demo_deployment_up: "sw_replicas demo_deployment = Some 1"
  by (simp add: demo_deployment_def new_deployment_def desired_replicas_def)

lemma demo_no_reload: "\<not> reload_requested demo_workspace"
  by (simp add: reload_requested_def ws_annotation_def demo_workspace_def demo_meta_def)

lemma demo_kinds:
  "workload_kind_or_default demo_spec = ''Deployment''" "workload_kind_or_default demo_edited_spec = ''StatefulSet''"
  by (simp_all add: workload_kind_or_default_def demo_edited_spec_def demo_spec_def demo_template_def no_workload_def)

theorem shape_converges_at_boundary_witness:
  "\<exists>report w'. ensure_workload demo_calls demo_input demo_workspace demo_edited_spec ''h'' True demo_running = (Inr report, w') \<and>
     \<not> en_drifted report"
proof -
  have "\<exists>report w'. ensure_workload demo_calls demo_input demo_workspace demo_edited_spec ''h'' True demo_running = (Inr report, w')"
    by (simp add: ensure_workload_def demo_kinds ensure_stateful_set_def ensure_scaled_def kube_get_def kube_create_def
        demo_running_def demo_calls_def Let_def)
  then obtain report w' where "ensure_workload demo_calls demo_input demo_workspace demo_edited_spec ''h'' True demo_running = (Inr report, w')"
    by blast
  with shape_converges_at_boundary [OF _ _ _ this refl] show ?thesis by (auto simp: demo_kinds demo_calls_def)
qed

theorem kind_change_doubles_workload_witness:
  "\<exists>(w1 :: workloads) (w2 :: workloads). wk_deployments w1 (compute_key demo_workspace) = Some demo_deployment \<and>
     wk_deployments w2 (compute_key demo_workspace) = Some demo_deployment \<and>
     with_some (wk_stateful_sets w1 (compute_key demo_workspace)) (\<lambda>t. sw_replicas t = Some 1) \<and>
     with_some (wk_stateful_sets w2 (compute_key demo_workspace)) (\<lambda>t. sw_replicas t = Some 0)"
proof -
  let ?e = "ensure_workload demo_calls demo_input demo_workspace demo_edited_spec ''h''"
  have ok: "\<exists>report w'. ?e paused w = (Inr report, w')" for paused w
    by (auto simp: ensure_workload_def demo_kinds ensure_stateful_set_def ensure_scaled_def kube_get_def kube_create_def
        kube_update_def demo_calls_def Let_def split: option.split prod.split)
  from ok obtain r1 w1 where p1: "?e False demo_running = (Inr r1, w1)" by blast
  from ok obtain r2 w2 where p2: "?e True w1 = (Inr r2, w2)" by blast
  have d: "wk_deployments demo_running (compute_key demo_workspace) = Some demo_deployment" by (simp add: demo_running_def)
  have claim: "ClaimVolume ''home'' ''h'' \<in> set (pt_volumes (sw_template demo_deployment))"
    by (simp add: demo_deployment_def new_deployment_def build_pod_template_fields pod_volumes_def)
  from kind_change_doubles_workload [OF d demo_deployment_up claim demo_kinds(2) _ p1 p2]
  show ?thesis by (auto simp: demo_calls_def with_some_def)
qed

theorem service_ports_converge_witness:
  "\<exists>svc. passes (\<lambda>c. ensure_service c demo_workspace demo_spec) [answering, answering] Map.empty (compute_key demo_workspace) = Some svc \<and>
     map (\<lambda>p. (vp_name p, vp_port p, vp_target p)) (sv_ports svc) = [(''vnc'', 5901, 5901)]"
proof -
  have "\<exists>st'. ensure_service answering demo_workspace demo_spec Map.empty = (Inr (), st')"
    by (simp add: ensure_service_def kube_get_def kube_create_def Let_def)
  then obtain st' where "ensure_service answering demo_workspace demo_spec
      (passes (\<lambda>c. ensure_service c demo_workspace demo_spec) [] Map.empty) = (Inr (), st')" by auto
  moreover have "container_ports demo_spec = [(''vnc'', 5901)]"
    by (simp add: container_ports_def effective_protocols_def audio_port_exposed_def demo_spec_def demo_template_def
        os_windows_def os_linux_def)
  ultimately show ?thesis
    using service_ports_converge [of answering demo_workspace demo_spec "[]" Map.empty st' "[answering]"] by auto
qed

end
