(* ===== verification/Workspace_Status.thy ===== *)
theory Workspace_Status
  imports Workload
begin

text \<open>
  What the reconciler tells the user: the conditions and the status patch of \<open>workspace_status.go\<close>, and
  the diagnosis of a workload that is not ready, \<open>workload_failure.go\<close>. The workspaces of the API server are
  a store of resources with their generation, finalizers and status; the status call and the object
  call are separate calls of that store. A message is the list of the values it is formatted from.
\<close>

section \<open>Conditions\<close>

record status_condition =
  cd_type :: string
  cd_status :: string
  cd_reason :: string
  cd_message :: "string list"
  cd_transition :: int
  cd_generation :: int

record protocol_status =
  prs_name :: string
  prs_port :: int
  prs_default :: bool

record workspace_status =
  st_phase :: string
  st_observed_generation :: int
  st_os :: string
  st_address :: string
  st_port :: int
  st_protocol :: string
  st_protocols :: "protocol_status list"
  st_pvc_name :: string
  st_next_transition :: "edge option"
  st_conditions :: "status_condition list"

definition condition_ready :: string where "condition_ready = ''Ready''"
definition condition_connection_ready :: string where "condition_connection_ready = ''ConnectionReady''"
definition condition_template_drifted :: string where "condition_template_drifted = ''TemplateDrifted''"

text \<open>The loop of \<open>setTypedCondition\<close> over the conditions present.\<close>

fun put_condition :: "status_condition \<Rightarrow> status_condition list \<Rightarrow> status_condition list" where
  "put_condition c [] = [c]"
| "put_condition c (e # es) =
     (if cd_type e = cd_type c then
        (if cd_status e = cd_status c \<and> cd_reason e = cd_reason c \<and> cd_message e = cd_message c then e # es
         else if cd_status e = cd_status c then c\<lparr>cd_transition := cd_transition e\<rparr> # es
         else c # es)
      else e # put_condition c es)"

definition set_typed_condition ::
  "int \<Rightarrow> string \<Rightarrow> string \<Rightarrow> string \<Rightarrow> string list \<Rightarrow> workspace_status \<Rightarrow> workspace_status" where
  "set_typed_condition now ctype status rsn message st =
     st\<lparr>st_conditions := put_condition \<lparr>cd_type = ctype, cd_status = status, cd_reason = rsn, cd_message = message,
        cd_transition = now, cd_generation = 0\<rparr> (st_conditions st)\<rparr>"

definition set_condition :: "int \<Rightarrow> string \<Rightarrow> string \<Rightarrow> string list \<Rightarrow> workspace_status \<Rightarrow> workspace_status" where
  "set_condition now status rsn message st = set_typed_condition now condition_ready status rsn message st"

definition set_drift_condition :: "int \<Rightarrow> bool \<Rightarrow> workspace_status \<Rightarrow> workspace_status" where
  "set_drift_condition now drifted st =
     (if drifted
      then set_typed_condition now condition_template_drifted ''True'' ''TemplateChanged'' [''the desired configuration changed''] st
      else set_typed_condition now condition_template_drifted ''False'' ''InSync'' [''the workload matches its desired configuration''] st)"

definition has_drift_condition :: "workspace_status \<Rightarrow> bool" where
  "has_drift_condition st =
     (case find (\<lambda>c. cd_type c = condition_template_drifted) (st_conditions st) of
        None \<Rightarrow> False | Some c \<Rightarrow> cd_status c = ''True'')"

section \<open>The status patch\<close>

record workspace_object =
  wo_workspace :: workspace
  wo_generation :: int
  wo_finalizers :: "string list"
  wo_status :: workspace_status

datatype status_error = FetchWorkspaceFailed | UpdateStatusFailed string

definition workspace_key :: "workspace \<Rightarrow> object_key" where
  "workspace_key ws = (md_namespace (ws_meta ws), md_name (ws_meta ws))"

definition stamp_generation :: "int \<Rightarrow> workspace_status \<Rightarrow> workspace_status" where
  "stamp_generation g st = st\<lparr>st_observed_generation := g,
     st_conditions := map (\<lambda>c. c\<lparr>cd_generation := g\<rparr>) (st_conditions st)\<rparr>"

definition patch_status ::
  "workspace_object api \<Rightarrow> workspace \<Rightarrow> (workspace_status \<Rightarrow> workspace_status) \<Rightarrow> workspace_object store
     \<Rightarrow> (status_error + unit) \<times> workspace_object store" where
  "patch_status c ws mutate st =
     (let key = workspace_key ws in
      case kube_get c st key of
        Missing \<Rightarrow> (Inr (), st)
      | Failed \<Rightarrow> (Inl FetchWorkspaceFailed, st)
      | Found o' \<Rightarrow>
          (case kube_update c st key (o'\<lparr>wo_status := stamp_generation (wo_generation o') (mutate (wo_status o'))\<rparr>) of
             (r, st') \<Rightarrow> (if r = Done then Inr () else Inl (UpdateStatusFailed (snd key)), st')))"

definition set_unready ::
  "workspace_object api \<Rightarrow> int \<Rightarrow> workspace \<Rightarrow> string \<Rightarrow> string \<Rightarrow> string list \<Rightarrow> workspace_object store
     \<Rightarrow> (status_error + unit) \<times> workspace_object store" where
  "set_unready c now ws phase rsn message st =
     patch_status c ws (\<lambda>s. set_condition now ''False'' rsn message (s\<lparr>st_phase := phase\<rparr>)) st"

section \<open>Failure detection\<close>

record container_waiting =
  cw_reason :: string
  cw_message :: string

record container_terminated =
  ct_exit_code :: int
  ct_reason :: string

record container_status =
  ctr_name :: string
  ctr_waiting :: "container_waiting option"
  ctr_last_terminated :: "container_terminated option"
  ctr_restarts :: int

record pod_condition =
  pc_type :: string
  pc_status :: string
  pc_reason :: string
  pc_message :: string

record observed_pod =
  op_name :: string
  op_namespace :: string
  op_labels :: "string \<rightharpoonup> string"
  op_deleting :: bool
  op_phase :: string
  op_reason :: string
  op_message :: string
  op_conditions :: "pod_condition list"
  op_init_statuses :: "container_status list"
  op_statuses :: "container_status list"

record workload_failure =
  wf_reason :: string
  wf_message :: "string list"

definition failure_waiting_reasons :: "string list" where
  "failure_waiting_reasons = [''CrashLoopBackOff'', ''ImagePullBackOff'', ''ErrImagePull'', ''CreateContainerConfigError'',
     ''CreateContainerError'', ''InvalidImageName'', ''RunContainerError'']"

definition container_failure :: "container_status \<Rightarrow> workload_failure option" where
  "container_failure cs =
     (case ctr_waiting cs of
        None \<Rightarrow> None
      | Some waiting \<Rightarrow>
         if cw_reason waiting \<notin> set failure_waiting_reasons then None
         else Some \<lparr>wf_reason = cw_reason waiting,
           wf_message = [ctr_name cs, cw_reason waiting] @
             (if cw_message waiting \<noteq> [] then [cw_message waiting] else []) @
             (case ctr_last_terminated cs of
                None \<Rightarrow> []
              | Some t \<Rightarrow> [itoa (ct_exit_code t)] @ (if ct_reason t \<noteq> [] then [ct_reason t] else [])
                            @ [itoa (ctr_restarts cs)])\<rparr>)"

fun first_some :: "'a option list \<Rightarrow> 'a option" where
  "first_some [] = None"
| "first_some (x # xs) = (case x of None \<Rightarrow> first_some xs | Some v \<Rightarrow> Some v)"

definition pod_failure :: "observed_pod \<Rightarrow> workload_failure option" where
  "pod_failure p =
     (if op_phase p = ''Failed'' then
        Some \<lparr>wf_reason = (if op_reason p = [] then ''PodFailed'' else op_reason p), wf_message = [op_name p, op_message p]\<rparr>
      else first_some (map container_failure (op_init_statuses p @ op_statuses p)))"

definition scheduling_detail :: "observed_pod \<Rightarrow> string \<Rightarrow> string" where
  "scheduling_detail p detail =
     foldl (\<lambda>d c. if pc_type c = ''PodScheduled'' \<and> pc_status c = ''False'' \<and> pc_reason c = ''Unschedulable'' then pc_message c else d)
       detail (op_conditions p)"

fun detect_loop :: "observed_pod list \<Rightarrow> string \<Rightarrow> workload_failure option \<times> string" where
  "detect_loop [] detail = (None, detail)"
| "detect_loop (p # ps) detail =
     (if op_deleting p then detect_loop ps detail
      else case pod_failure p of
        Some f \<Rightarrow> (Some f, [])
      | None \<Rightarrow> detect_loop ps (scheduling_detail p detail))"

definition pods_of :: "workspace \<Rightarrow> observed_pod list \<Rightarrow> observed_pod list" where
  "pods_of ws pods = filter (\<lambda>p. op_namespace p = effective_target_namespace ws \<and>
     op_labels p label_workspace = Some (md_name (ws_meta ws)) \<and>
     op_labels p label_workspace_namespace = Some (md_namespace (ws_meta ws))) pods"

text \<open>The pods of the cluster, or nothing when the list fails.\<close>

definition detect_workload_failure :: "observed_pod list option \<Rightarrow> workspace \<Rightarrow> unit + workload_failure option \<times> string" where
  "detect_workload_failure pods ws =
     (case pods of None \<Rightarrow> Inl () | Some ps \<Rightarrow> Inr (detect_loop (pods_of ws ps) []))"

section \<open>Facts on conditions\<close>

lemma put_condition_types: "cd_type ` set (put_condition c cs) = insert (cd_type c) (cd_type ` set cs)"
  by (induction c cs rule: put_condition.induct) auto

lemma put_condition_distinct: "distinct (map cd_type cs) \<Longrightarrow> distinct (map cd_type (put_condition c cs))"
proof (induction c cs rule: put_condition.induct)
  case (2 c e es)
  have "cd_type e \<noteq> cd_type c \<Longrightarrow> cd_type e \<notin> cd_type ` set (put_condition c es)"
    using 2 unfolding put_condition_types by auto
  with 2 show ?case by auto
qed simp

definition condition_at :: "string \<Rightarrow> status_condition list \<Rightarrow> status_condition option" where
  "condition_at t cs = find (\<lambda>c. cd_type c = t) cs"

lemma put_condition_at:
  "condition_at t (put_condition c cs) =
    (if t \<noteq> cd_type c then condition_at t cs
     else case condition_at t cs of
       None \<Rightarrow> Some c
     | Some e \<Rightarrow> Some (if cd_status e = cd_status c \<and> cd_reason e = cd_reason c \<and> cd_message e = cd_message c then e
         else if cd_status e = cd_status c then c\<lparr>cd_transition := cd_transition e\<rparr> else c))"
  by (induction c cs rule: put_condition.induct) (auto simp: condition_at_def)

text \<open>A condition tells since when it holds. Setting a condition leaves one condition of its type, with the
  status, reason and message it was given, changes no other condition, keeps the types of the list distinct, and
  moves the transition time to now exactly when the type was absent or its status flips.
\<close>

lemma condition_transitions:
  assumes "distinct (map cd_type (st_conditions st))"
  shows "distinct (map cd_type (st_conditions (set_typed_condition now t status rsn message st))) \<and>
    (\<exists>c. condition_at t (st_conditions (set_typed_condition now t status rsn message st)) = Some c \<and>
       cd_status c = status \<and> cd_reason c = rsn \<and> cd_message c = message \<and>
       cd_transition c = (case condition_at t (st_conditions st) of
         Some e \<Rightarrow> if cd_status e = status then cd_transition e else now | None \<Rightarrow> now)) \<and>
    (\<forall>t'. t' \<noteq> t \<longrightarrow> condition_at t' (st_conditions (set_typed_condition now t status rsn message st)) =
       condition_at t' (st_conditions st))"
  using put_condition_distinct [OF assms]
  by (auto simp: set_typed_condition_def put_condition_at split: option.split)

section \<open>Facts on the diagnosis\<close>

lemma first_some_None: "first_some xs = None \<longleftrightarrow> list_all (\<lambda>x. x = None) xs"
  by (induction xs) (auto split: option.split)

lemma first_some_in: "first_some xs = Some v \<Longrightarrow> Some v \<in> set xs"
  by (induction xs) (auto split: option.splits)

definition stuck :: "observed_pod \<Rightarrow> bool" where
  "stuck p \<longleftrightarrow> op_phase p = ''Failed'' \<or>
     (\<exists>c \<in> set (op_init_statuses p @ op_statuses p). with_some (ctr_waiting c) (\<lambda>w. cw_reason w \<in> set failure_waiting_reasons))"

lemma container_failure_None:
  "container_failure c = None \<longleftrightarrow> \<not> with_some (ctr_waiting c) (\<lambda>w. cw_reason w \<in> set failure_waiting_reasons)"
  by (auto simp: container_failure_def with_some_def split: option.split)

lemma pod_failure_stuck: "pod_failure p \<noteq> None \<longleftrightarrow> stuck p"
proof -
  have "first_some (map container_failure cs) \<noteq> None \<longleftrightarrow>
      (\<exists>c \<in> set cs. with_some (ctr_waiting c) (\<lambda>w. cw_reason w \<in> set failure_waiting_reasons))" for cs
    unfolding first_some_None list_all_iff by (simp add: container_failure_None del: not_None_eq)
  from this [of "op_init_statuses p @ op_statuses p"] show ?thesis
    unfolding pod_failure_def stuck_def by (simp del: not_None_eq map_append set_append)
qed

lemma detect_loop_failure:
  "fst (detect_loop ps detail) = first_some (map pod_failure (filter (\<lambda>p. \<not> op_deleting p) ps))"
  by (induction ps detail rule: detect_loop.induct) (auto split: option.split)

lemma detect_loop_detail: "fst (detect_loop ps detail) \<noteq> None \<Longrightarrow> snd (detect_loop ps detail) = []"
  by (induction ps detail rule: detect_loop.induct) (auto split: option.splits if_splits)

text \<open>A desktop is reported failed exactly when one of its live pods is stuck. The diagnosis names a failure if and
  only if some pod of the workspace that is not being deleted has failed or has a container waiting for a
  reason the kubelet does not recover from by itself, and it is the failure of the first such pod; pods of
  other workspaces and pods on their way out never count.
\<close>

lemma failure_means_stuck_pod:
  assumes "detect_workload_failure (Some pods) ws = Inr (failure, detail)"
  shows "(failure \<noteq> None \<longleftrightarrow> (\<exists>p \<in> set (pods_of ws pods). \<not> op_deleting p \<and> stuck p)) \<and>
    failure = first_some (map pod_failure (filter (\<lambda>p. \<not> op_deleting p \<and> stuck p) (pods_of ws pods))) \<and>
    (failure \<noteq> None \<longrightarrow> detail = [])"
proof -
  have out: "detect_loop (pods_of ws pods) [] = (failure, detail)" using assms by (simp add: detect_workload_failure_def)
  have live: "failure = first_some (map pod_failure (filter (\<lambda>p. \<not> op_deleting p) (pods_of ws pods)))"
    using detect_loop_failure [of "pods_of ws pods" "[]"] by (simp add: out)
  have skip: "first_some (map pod_failure (filter (\<lambda>p. \<not> op_deleting p) ps)) =
      first_some (map pod_failure (filter (\<lambda>p. \<not> op_deleting p \<and> stuck p) ps))" for ps
    by (induction ps) (auto simp: pod_failure_stuck [symmetric] split: option.split)
  have "failure \<noteq> None \<longleftrightarrow> (\<exists>p \<in> set (pods_of ws pods). \<not> op_deleting p \<and> stuck p)"
    unfolding live first_some_None by (auto simp: list_all_iff pod_failure_stuck [symmetric])
  moreover have "failure \<noteq> None \<longrightarrow> detail = []"
    using detect_loop_detail [of "pods_of ws pods" "[]"] by (auto simp: out)
  ultimately show ?thesis using live skip by simp
qed

section \<open>Instances\<close>

definition empty_status :: workspace_status where
  "empty_status = \<lparr>st_phase = [], st_observed_generation = 0, st_os = [], st_address = [], st_port = 0, st_protocol = [],
     st_protocols = [], st_pvc_name = [], st_next_transition = None, st_conditions = []\<rparr>"

definition demo_pod :: "string \<Rightarrow> bool \<Rightarrow> string \<Rightarrow> observed_pod" where
  "demo_pod n deleting waiting = \<lparr>op_name = n, op_namespace = ''waas'',
     op_labels = [label_workspace \<mapsto> ''w1'', label_workspace_namespace \<mapsto> ''waas''], op_deleting = deleting, op_phase = ''Pending'',
     op_reason = [], op_message = [], op_conditions = [], op_init_statuses = [],
     op_statuses = [\<lparr>ctr_name = ''desktop'', ctr_waiting = Some \<lparr>cw_reason = waiting, cw_message = []\<rparr>, ctr_last_terminated = None,
       ctr_restarts = 3\<rparr>]\<rparr>"

theorem condition_transitions_witness:
  "condition_at ''Ready'' (st_conditions (set_typed_condition 9 ''Ready'' ''False'' ''Paused'' []
     (set_typed_condition 5 ''Ready'' ''False'' ''Provisioning'' [] empty_status)))
   = Some \<lparr>cd_type = ''Ready'', cd_status = ''False'', cd_reason = ''Paused'', cd_message = [], cd_transition = 5, cd_generation = 0\<rparr>"
proof -
  let ?st = "set_typed_condition 5 ''Ready'' ''False'' ''Provisioning'' [] empty_status"
  have "distinct (map cd_type (st_conditions ?st))" by (simp add: set_typed_condition_def empty_status_def)
  from condition_transitions [OF this, of 9 "''Ready''" "''False''" "''Paused''" "[]"]
  show ?thesis by (auto simp: set_typed_condition_def empty_status_def condition_at_def)
qed

theorem failure_means_stuck_pod_witness:
  "\<exists>f. detect_workload_failure (Some [demo_pod ''old'' True ''ErrImagePull'', demo_pod ''new'' False ''CrashLoopBackOff'']) demo_workspace
     = Inr (Some f, []) \<and> wf_reason f = ''CrashLoopBackOff''"
proof -
  let ?pods = "[demo_pod ''old'' True ''ErrImagePull'', demo_pod ''new'' False ''CrashLoopBackOff'']"
  have of: "pods_of demo_workspace ?pods = ?pods"
    by (simp add: pods_of_def demo_pod_def demo_workspace_def demo_meta_def effective_target_namespace_def label_names)
  have stuck: "stuck (demo_pod ''new'' False ''CrashLoopBackOff'')" "\<not> op_deleting (demo_pod ''new'' False ''CrashLoopBackOff'')"
    "op_deleting (demo_pod ''old'' True ''ErrImagePull'')"
    by (simp_all add: stuck_def demo_pod_def with_some_def failure_waiting_reasons_def)
  obtain failure detail where d: "detect_workload_failure (Some ?pods) demo_workspace = Inr (failure, detail)"
    by (cases "detect_workload_failure (Some ?pods) demo_workspace") (auto simp: detect_workload_failure_def)
  have failing: "pod_failure (demo_pod ''new'' False ''CrashLoopBackOff'') =
      Some \<lparr>wf_reason = ''CrashLoopBackOff'', wf_message = [''desktop'', ''CrashLoopBackOff'']\<rparr>"
    by (simp add: pod_failure_def demo_pod_def container_failure_def failure_waiting_reasons_def)
  from failure_means_stuck_pod [OF d] stuck have
    "failure = first_some (map pod_failure [demo_pod ''new'' False ''CrashLoopBackOff''])" "failure \<noteq> None \<longrightarrow> detail = []"
    by (simp_all add: of)
  with failing d show ?thesis by simp
qed

end
