(* ===== verification/Portal.thy ===== *)
theory Portal
  imports Workspace_Status
begin

text \<open>
  What the services of the API server share: accounts and callers, the problems of
  \<open>internal/apierror\<close>, the session table of \<open>repository/session_sql.go\<close> with the meaning of its SQL
  statements, and the registry rows of remote workspaces. A user's preferences are opaque. A time is in nanoseconds.
\<close>

section \<open>Accounts and callers\<close>

record user =
  us_id :: string
  us_username :: string
  us_display_name :: string
  us_email :: string
  us_password_hash :: string
  us_role :: string
  us_active :: bool
  us_max_workspaces :: int
  us_created_at :: int
  us_updated_at :: int
  us_last_login_at :: "int option"
  us_tokens_valid_after :: "int option"
  us_groups :: "string list"
  us_preferences :: k8s_value
  us_oidc_subject :: string

definition user_sso :: "user \<Rightarrow> bool" where
  "user_sso u \<longleftrightarrow> us_oidc_subject u \<noteq> []"

record actor =
  ac_id :: string
  ac_username :: string
  ac_role :: string
  ac_client_ip :: string

definition role_admin :: string where "role_admin = ''admin''"
definition role_user :: string where "role_user = ''user''"

section \<open>Problems\<close>

text \<open>A problem of \<open>apierror\<close> with what its detail names, or any other error.\<close>

datatype api_error =
    BadRequest "string list"
  | Unauthorized "string list"
  | Forbidden "string list"
  | NotFound "string list"
  | Conflict "string list"
  | Internal "string list"
  | Unavailable "string list"
  | BadGateway "string list"
  | Unexpected "string list"

text \<open>\<open>statusOf\<close> is 0 for an error that is no problem; \<open>Write\<close> answers 500 for it.\<close>

fun status_of :: "api_error \<Rightarrow> nat" where
  "status_of (BadRequest d) = 400"
| "status_of (Unauthorized d) = 401"
| "status_of (Forbidden d) = 403"
| "status_of (NotFound d) = 404"
| "status_of (Conflict d) = 409"
| "status_of (Internal d) = 500"
| "status_of (Unavailable d) = 503"
| "status_of (BadGateway d) = 502"
| "status_of (Unexpected d) = 0"

fun written_problem :: "api_error \<Rightarrow> nat \<times> string list" where
  "written_problem (BadRequest d) = (400, d)"
| "written_problem (Unauthorized d) = (401, d)"
| "written_problem (Forbidden d) = (403, d)"
| "written_problem (NotFound d) = (404, d)"
| "written_problem (Conflict d) = (409, d)"
| "written_problem (Internal d) = (500, d)"
| "written_problem (Unavailable d) = (503, d)"
| "written_problem (BadGateway d) = (502, d)"
| "written_problem (Unexpected d) = (500, [''an unexpected error occurred''])"

lemma written_problem_opaque: "status_of e = 0 \<Longrightarrow> written_problem e = (500, [''an unexpected error occurred''])"
  by (cases e) simp_all

record audit_entry =
  au_actor :: actor
  au_action :: string
  au_resource :: string
  au_id :: string
  au_about :: "string list"

definition record_audit :: "actor \<Rightarrow> string \<Rightarrow> string \<Rightarrow> string \<Rightarrow> string list \<Rightarrow> audit_entry" where
  "record_audit act action resource i about =
     \<lparr>au_actor = act, au_action = action, au_resource = resource, au_id = i, au_about = about\<rparr>"

text \<open>An actor the code names only by its username and address.\<close>

definition named_actor :: "string \<Rightarrow> string \<Rightarrow> actor" where
  "named_actor username ip = \<lparr>ac_id = [], ac_username = username, ac_role = [], ac_client_ip = ip\<rparr>"

section \<open>Remote workspaces\<close>

record remote_protocol =
  rp_name :: string
  rp_port :: int
  rp_default :: bool
  rp_params :: "(string \<times> string) list"

record remote_workspace =
  rw_id :: string
  rw_owner_id :: string
  rw_name :: string
  rw_hostname :: string
  rw_port :: int
  rw_protocol :: string
  rw_protocols :: "remote_protocol list"
  rw_mac_address :: string
  rw_params :: "(string \<times> string) list"
  rw_secret_name :: string
  rw_credential_keys :: "string list"
  rw_created_at :: int
  rw_updated_at :: int

definition remote_effective_protocols :: "remote_workspace \<Rightarrow> remote_protocol list" where
  "remote_effective_protocols rw =
     (if rw_protocols rw \<noteq> [] then rw_protocols rw
      else [\<lparr>rp_name = rw_protocol rw, rp_port = rw_port rw, rp_default = True, rp_params = rw_params rw\<rparr>])"

definition remote_default_protocol :: "remote_workspace \<Rightarrow> remote_protocol" where
  "remote_default_protocol rw =
     (case find rp_default (remote_effective_protocols rw) of
        Some p \<Rightarrow> p | None \<Rightarrow> hd (remote_effective_protocols rw))"

definition remote_protocol_named :: "remote_workspace \<Rightarrow> string \<Rightarrow> remote_protocol option" where
  "remote_protocol_named rw n = find (\<lambda>p. rp_name p = n) (remote_effective_protocols rw)"

lemma remote_effective_protocols_nonempty [simp]: "remote_effective_protocols rw \<noteq> []"
  by (simp add: remote_effective_protocols_def)

lemma remote_default_protocol_in: "remote_default_protocol rw \<in> set (remote_effective_protocols rw)"
  by (auto simp: remote_default_protocol_def split: option.split dest: find_SomeD)

section \<open>Sessions\<close>

definition session_kind_workspace :: string where "session_kind_workspace = ''workspace''"
definition session_kind_remote :: string where "session_kind_remote = ''remote''"

record session =
  sn_id :: string
  sn_user_id :: string
  sn_workspace_id :: string
  sn_workspace_name :: string
  sn_protocol :: string
  sn_client_ip :: string
  sn_started_at :: int
  sn_ended_at :: "int option"
  sn_params :: "(string \<times> string) list"
  sn_kind :: string

text \<open>
  The table, its rows in the order of insertion. \<open>ok\<close> says whether the statement reaches the database;
  the primary key refuses a second row with an id. A row without a kind is stored as a workspace's.
\<close>

definition session_create :: "bool \<Rightarrow> session \<Rightarrow> session list \<Rightarrow> (api_error + unit) \<times> session list" where
  "session_create ok s rows =
     (if ok \<and> sn_id s \<notin> sn_id ` set rows
      then (Inr (), rows @ [s\<lparr>sn_kind := (if sn_kind s = [] then session_kind_workspace else sn_kind s)\<rparr>])
      else (Inl (Unexpected [''creating session'', sn_id s]), rows))"

definition session_find :: "bool \<Rightarrow> string \<Rightarrow> session list \<Rightarrow> session fetched" where
  "session_find ok i rows =
     (if \<not> ok then Failed else case find (\<lambda>s. sn_id s = i) rows of None \<Rightarrow> Missing | Some s \<Rightarrow> Found s)"

definition close_row :: "int \<Rightarrow> session \<Rightarrow> session" where
  "close_row tm s = (if sn_ended_at s = None then s\<lparr>sn_ended_at := Some tm\<rparr> else s)"

definition session_end :: "string \<Rightarrow> int \<Rightarrow> session list \<Rightarrow> session list" where
  "session_end i tm rows = map (\<lambda>s. if sn_id s = i then close_row tm s else s) rows"

definition end_all_for_workspace :: "string \<Rightarrow> int \<Rightarrow> session list \<Rightarrow> nat \<times> session list" where
  "end_all_for_workspace wid tm rows =
     (length (filter (\<lambda>s. sn_workspace_id s = wid \<and> sn_ended_at s = None) rows),
      map (\<lambda>s. if sn_workspace_id s = wid then close_row tm s else s) rows)"

definition list_open :: "session list \<Rightarrow> session list" where
  "list_open rows = sort_key sn_started_at (filter (\<lambda>s. sn_ended_at s = None) rows)"

record workspace_activity =
  wa_last :: int
  wa_active_now :: bool

definition last_seen :: "session \<Rightarrow> int" where
  "last_seen s = (case sn_ended_at s of Some t \<Rightarrow> t | None \<Rightarrow> sn_started_at s)"

definition session_activity :: "session list \<Rightarrow> string \<Rightarrow> workspace_activity option" where
  "session_activity rows wid =
     (case filter (\<lambda>s. sn_workspace_id s = wid) rows of
        [] \<Rightarrow> None
      | s # rest \<Rightarrow> Some \<lparr>wa_last = fold (\<lambda>r m. max m (last_seen r)) rest (last_seen s),
          wa_active_now = list_ex (\<lambda>r. sn_ended_at r = None) (s # rest)\<rparr>)"

text \<open>Every row keeps its target and its owner, and an end, once written, stays.\<close>

definition same_session :: "session \<Rightarrow> session \<Rightarrow> bool" where
  "same_session s t \<longleftrightarrow> t\<lparr>sn_ended_at := None\<rparr> = s\<lparr>sn_ended_at := None\<rparr> \<and>
     (\<forall>e. sn_ended_at s = Some e \<longrightarrow> sn_ended_at t = Some e)"

lemma same_session_refl [simp]: "same_session s s"
  by (simp add: same_session_def)

lemma same_session_close [simp]: "same_session s (close_row tm s)"
  by (simp add: same_session_def close_row_def)

lemma same_session_trans: "same_session s t \<Longrightarrow> same_session t u \<Longrightarrow> same_session s u"
  by (simp add: same_session_def)

lemma close_row_simps [simp]:
  "sn_id (close_row t s) = sn_id s" "sn_workspace_id (close_row t s) = sn_workspace_id s"
  "sn_ended_at (close_row t s) \<noteq> None" "close_row u (close_row t s) = close_row t s"
  by (auto simp: close_row_def)

lemma session_end_ids [simp]: "map sn_id (session_end i t rows) = map sn_id rows"
  by (simp add: session_end_def)

lemma list_open_set: "set (list_open rows) = {s \<in> set rows. sn_ended_at s = None}"
  by (simp add: list_open_def)

lemma fold_max_seen: "fold (\<lambda>r m. max m (f r)) rs (m :: int) = Max (insert m (f ` set rs))"
proof (induction rs arbitrary: m)
  case (Cons r rs)
  have "Max (insert (max m (f r)) (f ` set rs)) = Max (insert m (insert (f r) (f ` set rs)))"
    by (cases "f ` set rs = {}") (simp_all add: max.assoc)
  with Cons show ?case by simp
qed simp

text \<open>The aggregate of a workspace's rows is the latest time any of them was seen.\<close>

lemma session_activity_spec:
  "session_activity rows wid = (if \<exists>s \<in> set rows. sn_workspace_id s = wid
     then Some \<lparr>wa_last = Max (last_seen ` {s \<in> set rows. sn_workspace_id s = wid}),
                wa_active_now = (\<exists>s \<in> set rows. sn_workspace_id s = wid \<and> sn_ended_at s = None)\<rparr>
     else None)"
proof (cases "filter (\<lambda>s. sn_workspace_id s = wid) rows")
  case Nil
  then show ?thesis by (auto simp: session_activity_def filter_empty_conv)
next
  case (Cons s rest)
  then have set: "{s \<in> set rows. sn_workspace_id s = wid} = set (s # rest)" by (metis set_filter)
  have "Max (last_seen ` set (s # rest)) = fold (\<lambda>r m. max m (last_seen r)) rest (last_seen s)"
    using fold_max_seen [of last_seen rest "last_seen s"] by simp
  moreover have "list_ex (\<lambda>r. sn_ended_at r = None) (s # rest) = (\<exists>r \<in> set rows. sn_workspace_id r = wid \<and> sn_ended_at r = None)"
    using set by (auto simp: list_ex_iff)
  ultimately show ?thesis using Cons set by (auto simp: session_activity_def)
qed

end
