(* ===== verification/Fleet.thy ===== *)
theory Fleet
  imports Portal
begin

text \<open>
  The workspaces of the platform namespace as the API server's services see them: looked up by uid,
  owned strictly, and updated optimistically. Every object carries the resource version of its last
  write and an update names the version it was read at; the fleet's revision is the highest one handed
  out. Other writers (the operator, other requests, \<open>kubectl\<close>) are a parameter of each attempt.
\<close>

section \<open>The namespace\<close>

record fleet_item =
  fi_version :: nat
  fi_object :: workspace_object

record fleet =
  fl_revision :: nat
  fl_items :: "fleet_item list"

definition item_meta :: "fleet_item \<Rightarrow> object_meta" where
  "item_meta i = ws_meta (wo_workspace (fi_object i))"

definition item_spec :: "fleet_item \<Rightarrow> workspace_spec" where
  "item_spec i = ws_spec (wo_workspace (fi_object i))"

definition item_named :: "fleet \<Rightarrow> string \<Rightarrow> fleet_item option" where
  "item_named fl n = find (\<lambda>i. md_name (item_meta i) = n) (fl_items fl)"

definition fleet_ok :: "fleet \<Rightarrow> bool" where
  "fleet_ok fl \<longleftrightarrow> distinct (map (\<lambda>i. md_name (item_meta i)) (fl_items fl)) \<and>
     list_all (\<lambda>i. fi_version i \<le> fl_revision fl) (fl_items fl)"

text \<open>What any sequence of writes through the server does to the namespace.\<close>

definition later :: "fleet \<Rightarrow> fleet \<Rightarrow> bool" where
  "later fl fl' \<longleftrightarrow> fleet_ok fl' \<and> fl_revision fl \<le> fl_revision fl' \<and>
     (\<forall>j \<in> set (fl_items fl'). j \<in> set (fl_items fl) \<or> fl_revision fl < fi_version j)"

section \<open>findByUID and fetchByID\<close>

definition find_by_uid :: "fleet option \<Rightarrow> string \<Rightarrow> api_error + fleet_item" where
  "find_by_uid served uid =
     (case served of
        None \<Rightarrow> Inl (Unexpected [''listing workspaces''])
      | Some fl \<Rightarrow> (case find (\<lambda>i. md_uid (item_meta i) = uid) (fl_items fl) of
          None \<Rightarrow> Inl (NotFound [''workspace not found''])
        | Some i \<Rightarrow> Inr i))"

definition fetch_by_id :: "fleet option \<Rightarrow> actor \<Rightarrow> string \<Rightarrow> api_error + fleet_item" where
  "fetch_by_id served act uid =
     (case find_by_uid served uid of
        Inl e \<Rightarrow> Inl e
      | Inr i \<Rightarrow> if sp_owner (item_spec i) \<noteq> ac_id act then Inl (NotFound [''workspace not found'']) else Inr i)"

lemma find_by_uid_ok: "find_by_uid served uid = Inr i \<Longrightarrow> \<exists>fl. served = Some fl \<and> i \<in> set (fl_items fl) \<and> md_uid (item_meta i) = uid"
  by (auto simp: find_by_uid_def split: option.splits dest: find_SomeD)

lemma fetch_by_id_ok:
  assumes "fetch_by_id served act uid = Inr i"
  shows "\<exists>fl. served = Some fl \<and> i \<in> set (fl_items fl)" "md_uid (item_meta i) = uid" "sp_owner (item_spec i) = ac_id act"
  using assms by (auto simp: fetch_by_id_def split: sum.splits if_splits dest: find_by_uid_ok)

text \<open>Another user's workspace and one that does not exist are answered alike.\<close>

lemma fetch_by_id_hides:
  assumes "find_by_uid (Some fl) uid = Inr i" "sp_owner (item_spec i) \<noteq> ac_id act"
    and "find (\<lambda>i. md_uid (item_meta i) = uid) (fl_items fl') = None"
  shows "fetch_by_id (Some fl) act uid = fetch_by_id (Some fl') act uid"
  using assms by (simp add: fetch_by_id_def find_by_uid_def [of "Some fl'"])

section \<open>Conditional updates\<close>

datatype write_answer = Written | Conflicted | DeniedBy "string list" | NotWritten

text \<open>
  One update call: whether it reaches the server, and the admission webhook's answer to the object
  it would store, given the stored one.
\<close>

record write_call =
  wc_reaches :: bool
  wc_admission :: "workspace option \<Rightarrow> workspace \<Rightarrow> string list option"

definition put_item :: "fleet_item \<Rightarrow> workspace_object \<Rightarrow> fleet \<Rightarrow> fleet" where
  "put_item i new fl =
     \<lparr>fl_revision = Suc (fl_revision fl),
      fl_items = map (\<lambda>j. if md_name (item_meta j) = md_name (item_meta i)
         then \<lparr>fi_version = Suc (fl_revision fl), fi_object = new\<rparr> else j) (fl_items fl)\<rparr>"

definition fleet_update :: "write_call \<Rightarrow> fleet_item \<Rightarrow> workspace_object \<Rightarrow> fleet \<Rightarrow> write_answer \<times> fleet" where
  "fleet_update c i new fl =
     (if \<not> wc_reaches c then (NotWritten, fl)
      else case item_named fl (md_name (item_meta i)) of
        None \<Rightarrow> (NotWritten, fl)
      | Some cur \<Rightarrow>
          if fi_version cur \<noteq> fi_version i then (Conflicted, fl)
          else case wc_admission c (Some (wo_workspace (fi_object cur))) (wo_workspace new) of
            Some d \<Rightarrow> (DeniedBy d, fl)
          | None \<Rightarrow> (Written, put_item i new fl))"

locale versioned_reads =
  fixes current :: "'s \<Rightarrow> string \<Rightarrow> 'i option" and stamp :: "'i \<Rightarrow> nat" and since :: "'s \<Rightarrow> 's \<Rightarrow> bool"
  assumes same_stamp: "since s s' \<Longrightarrow> current s k = Some i \<Longrightarrow> current s' k = Some j \<Longrightarrow> stamp j = stamp i \<Longrightarrow> j = i"
begin

lemma copy_is_current:
  assumes "since s s'" "current s k = Some i" "current s' k = Some j" "\<not> stamp j \<noteq> stamp i"
  shows "current s' k = Some i"
  using assms same_stamp by fastforce

end

lemma item_named_mem:
  assumes "fleet_ok fl"
  shows "item_named fl n = Some i \<longleftrightarrow> i \<in> set (fl_items fl) \<and> md_name (item_meta i) = n"
proof
  assume "item_named fl n = Some i"
  then show "i \<in> set (fl_items fl) \<and> md_name (item_meta i) = n" by (auto simp: item_named_def dest: find_SomeD)
next
  assume i: "i \<in> set (fl_items fl) \<and> md_name (item_meta i) = n"
  then obtain j where j: "item_named fl n = Some j"
    by (cases "item_named fl n") (auto simp: item_named_def find_None_iff)
  then have "j \<in> set (fl_items fl)" "md_name (item_meta j) = n" by (auto simp: item_named_def dest: find_SomeD)
  with i assms have "j = i" by (auto simp: fleet_ok_def distinct_map inj_on_def)
  with j show "item_named fl n = Some i" by simp
qed

lemma later_refl: "fleet_ok fl \<Longrightarrow> later fl fl"
  by (simp add: later_def)

lemma later_trans: "later a b \<Longrightarrow> later b c \<Longrightarrow> later a c"
  unfolding later_def by (meson le_less_trans le_trans)

lemma later_same_version:
  assumes "fleet_ok fl" "later fl fl'" "item_named fl n = Some i" "item_named fl' n = Some j" "fi_version j = fi_version i"
  shows "j = i"
proof -
  have ok: "fleet_ok fl'" using assms(2) by (simp add: later_def)
  have j: "j \<in> set (fl_items fl')" "md_name (item_meta j) = n" using assms(4) ok by (simp_all add: item_named_mem)
  have i: "i \<in> set (fl_items fl)" using assms(1,3) by (simp add: item_named_mem)
  then have "fi_version j \<le> fl_revision fl" using assms(1,5) by (auto simp: fleet_ok_def list_all_iff)
  with j(1) assms(2) have "j \<in> set (fl_items fl)" by (auto simp: later_def)
  with j(2) have "item_named fl n = Some j" using assms(1) by (simp add: item_named_mem)
  with assms(3) show ?thesis by simp
qed

interpretation versions: versioned_reads item_named fi_version "\<lambda>fl fl'. fleet_ok fl \<and> later fl fl'"
  by unfold_locales (blast intro: later_same_version)

lemma later_put_item:
  assumes "fleet_ok fl" "md_name (ws_meta (wo_workspace new)) = md_name (item_meta i)"
  shows "later fl (put_item i new fl)"
proof -
  have names: "map (\<lambda>j. md_name (item_meta j)) (fl_items (put_item i new fl)) = map (\<lambda>j. md_name (item_meta j)) (fl_items fl)"
    using assms(2) by (auto simp: put_item_def item_meta_def)
  have "list_all (\<lambda>j. fi_version j \<le> fl_revision (put_item i new fl)) (fl_items (put_item i new fl))"
    using assms(1) by (auto simp: put_item_def fleet_ok_def list_all_iff)
  with assms(1) have "fleet_ok (put_item i new fl)" unfolding fleet_ok_def names by blast
  then show ?thesis by (auto simp: later_def put_item_def)
qed

text \<open>A written update replaced the very object it was computed from.\<close>

lemma fleet_update_written:
  assumes "fleet_update c i new fl' = (Written, fl'')" "fleet_ok fl" "later fl fl'" "i \<in> set (fl_items fl)"
  shows "item_named fl' (md_name (item_meta i)) = Some i \<and> fl'' = put_item i new fl' \<and>
    wc_admission c (Some (wo_workspace (fi_object i))) (wo_workspace new) = None"
proof -
  obtain j where j: "item_named fl' (md_name (item_meta i)) = Some j" "\<not> fi_version j \<noteq> fi_version i"
    "wc_admission c (Some (wo_workspace (fi_object j))) (wo_workspace new) = None" "fl'' = put_item i new fl'"
    using assms(1) by (auto simp: fleet_update_def split: if_splits option.splits)
  have "item_named fl (md_name (item_meta i)) = Some i" using assms(2,4) by (simp add: item_named_mem)
  with versions.copy_is_current [of fl fl' _ i j] assms(2,3) j have "item_named fl' (md_name (item_meta i)) = Some i" by blast
  with j show ?thesis by simp
qed

lemma fleet_update_rejected: "fleet_update c i new fl = (r, fl') \<Longrightarrow> r \<noteq> Written \<Longrightarrow> fl' = fl"
  by (auto simp: fleet_update_def split: if_splits option.splits)

section \<open>updateWithConflictRetry\<close>

datatype attempt_error = Raced | Refused_By "string list" | Failing api_error

text \<open>
  What is documented of \<open>retry.RetryOnConflict\<close>, a parameter of the model: it calls the function again after
  a conflict only, a bounded number of times, and returns what the last call did.
\<close>

fun retry_on_conflict :: "nat \<Rightarrow> (nat \<Rightarrow> 's \<Rightarrow> (attempt_error + 'a) \<times> 's) \<Rightarrow> nat \<Rightarrow> 's \<Rightarrow> (attempt_error + 'a) \<times> 's" where
  "retry_on_conflict 0 f k s = (Inl Raced, s)"
| "retry_on_conflict (Suc n) f k s =
     (case f k s of
        (Inl Raced, s') \<Rightarrow> retry_on_conflict n f (Suc k) s'
      | r \<Rightarrow> r)"

type_synonym 'a retry_helper =
  "(nat \<Rightarrow> fleet \<Rightarrow> (attempt_error + 'a) \<times> fleet) \<Rightarrow> fleet \<Rightarrow> (attempt_error + 'a) \<times> fleet"

definition documented_retry :: "nat \<Rightarrow> 'a retry_helper \<Rightarrow> bool" where
  "documented_retry n retry \<longleftrightarrow> 0 < n \<and> (\<forall>f s. retry f s = retry_on_conflict n f 0 s)"

record attempt =
  at_served :: bool
  at_others :: "fleet \<Rightarrow> fleet"
  at_write :: write_call
  at_backoff :: "fleet \<Rightarrow> fleet"

definition one_attempt ::
  "attempt \<Rightarrow> actor \<Rightarrow> string \<Rightarrow> (workspace_object \<Rightarrow> api_error + workspace_object) \<Rightarrow> fleet
     \<Rightarrow> (attempt_error + workspace_object) \<times> fleet" where
  "one_attempt a act uid mutate fl =
     (case fetch_by_id (if at_served a then Some fl else None) act uid of
        Inl e \<Rightarrow> (Inl (Failing e), fl)
      | Inr i \<Rightarrow> (case mutate (fi_object i) of
          Inl e \<Rightarrow> (Inl (Failing e), fl)
        | Inr new \<Rightarrow> (case fleet_update (at_write a) i new (at_others a fl) of
            (Written, fl') \<Rightarrow> (Inr new, fl')
          | (Conflicted, fl') \<Rightarrow> (Inl Raced, at_backoff a fl')
          | (DeniedBy d, fl') \<Rightarrow> (Inl (Refused_By d), fl')
          | (NotWritten, fl') \<Rightarrow> (Inl (Failing (Unexpected [''updating workspace'', md_name (item_meta i)])), fl'))))"

datatype update_error = Problem api_error | Admission "string list"

definition update_with_conflict_retry ::
  "workspace_object retry_helper \<Rightarrow> (nat \<Rightarrow> attempt) \<Rightarrow> actor \<Rightarrow> string \<Rightarrow> (workspace_object \<Rightarrow> api_error + workspace_object) \<Rightarrow> fleet
     \<Rightarrow> (update_error + workspace_object) \<times> fleet" where
  "update_with_conflict_retry retry ats act uid mutate fl =
     (case retry (\<lambda>k. one_attempt (ats k) act uid mutate) fl of
        (Inl Raced, fl') \<Rightarrow> (Inl (Problem (Conflict [''workspace was modified concurrently; retry the request''])), fl')
      | (Inl (Refused_By d), fl') \<Rightarrow> (Inl (Admission d), fl')
      | (Inl (Failing e), fl') \<Rightarrow> (Inl (Problem e), fl')
      | (Inr new, fl') \<Rightarrow> (Inr new, fl'))"

text \<open>
  A loop of attempts, each of which either leaves the state to the others or does its work on what
  the others left.
\<close>

locale retried =
  fixes att :: "nat \<Rightarrow> 's \<Rightarrow> (attempt_error + 'a) \<times> 's" and others :: "'s \<Rightarrow> 's \<Rightarrow> bool"
    and work :: "'s \<Rightarrow> 'a \<Rightarrow> 's \<Rightarrow> bool"
  assumes others_trans: "others r s \<Longrightarrow> others s t \<Longrightarrow> others r t"
    and att_failed: "others r s \<Longrightarrow> att k s = (Inl e, s') \<Longrightarrow> others r s'"
    and att_done: "others r s \<Longrightarrow> att k s = (Inr a, s') \<Longrightarrow> \<exists>m. others r m \<and> work m a s'"
begin

lemma loop_failed: "others r s \<Longrightarrow> retry_on_conflict n att k s = (Inl e, s') \<Longrightarrow> others r s'"
proof (induction n arbitrary: k s)
  case (Suc n)
  obtain q t where q: "att k s = (q, t)" by fastforce
  show ?case
  proof (cases "q = Inl Raced")
    case True
    with q Suc.prems att_failed [OF Suc.prems(1)] show ?thesis by (auto intro: Suc.IH)
  next
    case False
    with q Suc.prems have "q = Inl e" "t = s'" by (auto split: sum.splits attempt_error.splits)
    with q att_failed [OF Suc.prems(1)] show ?thesis by blast
  qed
qed simp

lemma loop_done: "others r s \<Longrightarrow> retry_on_conflict n att k s = (Inr a, s') \<Longrightarrow> \<exists>m. others r m \<and> work m a s'"
proof (induction n arbitrary: k s)
  case (Suc n)
  obtain q t where q: "att k s = (q, t)" by fastforce
  show ?case
  proof (cases "q = Inl Raced")
    case True
    with q Suc.prems att_failed [OF Suc.prems(1)] show ?thesis by (auto intro: Suc.IH)
  next
    case False
    with q Suc.prems have "q = Inr a" "t = s'" by (auto split: sum.splits attempt_error.splits)
    with q att_done [OF Suc.prems(1)] show ?thesis by blast
  qed
qed simp

end

text \<open>The attempts that end in a conflict are counted: an error of that kind took all the steps.\<close>

lemma raced_means_all:
  assumes "retry_on_conflict n f k s = (Inl Raced, s')" "0 < n"
  shows "\<exists>ss. ss 0 = s \<and> ss n = s' \<and> (\<forall>m < n. f (k + m) (ss m) = (Inl Raced, ss (Suc m)))"
  using assms
proof (induction n arbitrary: k s)
  case (Suc n)
  obtain t where t: "f k s = (Inl Raced, t)" "retry_on_conflict n f (Suc k) t = (Inl Raced, s')"
    using Suc.prems(1) by (cases "f k s") (auto split: sum.splits attempt_error.splits)
  show ?case
  proof (cases "n = 0")
    case True
    with t show ?thesis by (intro exI [of _ "\<lambda>m. if m = 0 then s else t"]) simp
  next
    case False
    with Suc.IH [OF t(2)] obtain ss where ss: "ss 0 = t" "ss n = s'" "\<forall>m < n. f (Suc k + m) (ss m) = (Inl Raced, ss (Suc m))" by auto
    have "f (k + m) ((\<lambda>m. if m = 0 then s else ss (m - 1)) m) = (Inl Raced, ss m)" if "m < Suc n" for m
      using that t(1) ss by (cases m) auto
    with ss show ?thesis by (intro exI [of _ "\<lambda>m. if m = 0 then s else ss (m - 1)"]) auto
  qed
qed simp

text \<open>What an update by its owner does to the namespace the others left.\<close>

definition owner_write ::
  "actor \<Rightarrow> string \<Rightarrow> (workspace_object \<Rightarrow> api_error + workspace_object) \<Rightarrow> fleet \<Rightarrow> workspace_object \<Rightarrow> fleet \<Rightarrow> bool" where
  "owner_write act uid mutate m new fl' \<longleftrightarrow>
     (\<exists>i. item_named m (md_name (item_meta i)) = Some i \<and> md_uid (item_meta i) = uid \<and> sp_owner (item_spec i) = ac_id act \<and>
        mutate (fi_object i) = Inr new \<and> fl' = put_item i new m)"

definition well_behaved :: "(nat \<Rightarrow> attempt) \<Rightarrow> bool" where
  "well_behaved ats \<longleftrightarrow> (\<forall>k g. fleet_ok g \<longrightarrow> later g (at_others (ats k) g) \<and> later g (at_backoff (ats k) g))"

lemma one_attempt_failed:
  assumes "well_behaved ats" "fleet_ok fl" "one_attempt (ats k) act uid mutate fl = (Inl e, fl')"
  shows "later fl fl'"
proof -
  note l = assms(1) [unfolded well_behaved_def, rule_format]
  have o': "later fl (at_others (ats k) fl)" using l assms(2) by blast
  then have ok: "fleet_ok (at_others (ats k) fl)" by (simp add: later_def)
  show ?thesis
  proof (cases "fl' = fl")
    case True
    then show ?thesis using later_refl assms(2) by simp
  next
    case False
    with assms(3) obtain i new r g where u: "fleet_update (at_write (ats k)) i new (at_others (ats k) fl) = (r, g)" "r \<noteq> Written"
      "fl' = g \<or> fl' = at_backoff (ats k) g"
      by (auto simp: one_attempt_def split: sum.splits prod.splits write_answer.splits)
    then have "g = at_others (ats k) fl" using fleet_update_rejected by blast
    with u(3) o' ok l later_trans show ?thesis by blast
  qed
qed

lemma one_attempt_done:
  assumes "well_behaved ats" "fleet_ok fl" "one_attempt (ats k) act uid mutate fl = (Inr new, fl')"
  shows "\<exists>m. later fl m \<and> owner_write act uid mutate m new fl'"
proof -
  have o': "later fl (at_others (ats k) fl)" using assms(1,2) by (simp add: well_behaved_def)
  obtain i where i: "fetch_by_id (Some fl) act uid = Inr i" "mutate (fi_object i) = Inr new"
    "fleet_update (at_write (ats k)) i new (at_others (ats k) fl) = (Written, fl')"
    using assms(3) by (auto simp: one_attempt_def find_by_uid_def fetch_by_id_def split: sum.splits prod.splits write_answer.splits if_splits)
  have "i \<in> set (fl_items fl)" using fetch_by_id_ok(1) [OF i(1)] by simp
  with fleet_update_written [OF i(3) assms(2) o'] fetch_by_id_ok(2,3) [OF i(1)] i(2) o'
  show ?thesis unfolding owner_write_def by blast
qed

interpretation fleet_loop: retried "\<lambda>k. one_attempt (ats k) act uid mutate" "\<lambda>r s. well_behaved ats \<longrightarrow> later r s"
  "\<lambda>m new fl'. well_behaved ats \<longrightarrow> owner_write act uid mutate m new fl'"
proof unfold_locales
  fix r s t :: fleet
  assume "well_behaved ats \<longrightarrow> later r s" "well_behaved ats \<longrightarrow> later s t"
  then show "well_behaved ats \<longrightarrow> later r t" using later_trans by blast
next
  fix r s s' :: fleet and k e
  assume "well_behaved ats \<longrightarrow> later r s" "one_attempt (ats k) act uid mutate s = (Inl e, s')"
  then show "well_behaved ats \<longrightarrow> later r s'" using one_attempt_failed later_trans later_def by metis
next
  fix r s s' :: fleet and k a
  assume r: "well_behaved ats \<longrightarrow> later r s" and d: "one_attempt (ats k) act uid mutate s = (Inr a, s')"
  show "\<exists>m. (well_behaved ats \<longrightarrow> later r m) \<and> (well_behaved ats \<longrightarrow> owner_write act uid mutate m a s')"
  proof (cases "well_behaved ats")
    case True
    with r have rs: "later r s" by simp
    then have "fleet_ok s" by (simp add: later_def)
    with one_attempt_done [OF True _ d] obtain m where "later s m" "owner_write act uid mutate m a s'" by blast
    with rs later_trans show ?thesis by blast
  qed simp
qed

text \<open>The three ends of an update.\<close>

lemma update_written:
  assumes "documented_retry n retry" "well_behaved ats" "fleet_ok fl" "update_with_conflict_retry retry ats act uid mutate fl = (Inr new, fl')"
  shows "\<exists>m. later fl m \<and> owner_write act uid mutate m new fl'"
proof -
  have "retry_on_conflict n (\<lambda>k. one_attempt (ats k) act uid mutate) 0 fl = (Inr new, fl')"
    using assms(1,4) by (auto simp: update_with_conflict_retry_def documented_retry_def split: prod.splits sum.splits attempt_error.splits)
  from fleet_loop.loop_done [OF _ this, where r = fl] assms(2,3) later_refl show ?thesis by blast
qed

lemma update_failed:
  assumes "documented_retry n retry" "well_behaved ats" "fleet_ok fl" "update_with_conflict_retry retry ats act uid mutate fl = (Inl e, fl')"
  shows "later fl fl'"
proof -
  obtain e' where "retry_on_conflict n (\<lambda>k. one_attempt (ats k) act uid mutate) 0 fl = (Inl e', fl')"
    using assms(1,4) by (auto simp: update_with_conflict_retry_def documented_retry_def split: prod.splits sum.splits attempt_error.splits)
  from fleet_loop.loop_failed [OF _ this, where r = fl] assms(2,3) later_refl show ?thesis by blast
qed

text \<open>An attempt that fails for another reason than a conflict ends the request at once.\<close>

lemma retry_stops: "f k s = (r, s') \<Longrightarrow> r \<noteq> Inl Raced \<Longrightarrow> retry_on_conflict (Suc n) f k s = (r, s')"
  by (cases r) (auto split: attempt_error.splits)

end
