(* ===== verification/Tokens.thy ===== *)
theory Tokens
  imports Portal Proxy Go_Text
begin

text \<open>
  The tokens of \<open>shared/auth\<close> and the middlewares of the API server that accept them
  (\<open>internal/middleware\<close>): claims per audience, the bearer re-checked against the account's current
  state, the session cookie and its same-origin guard, the service-to-service token. The JWT library
  and the account lookup are parameters. Times are in nanoseconds.
\<close>

section \<open>Claims\<close>

record registered_claims =
  rc_issuer :: string
  rc_subject :: string
  rc_audience :: "string list"
  rc_issued_at :: "int option"
  rc_not_before :: "int option"
  rc_expires_at :: "int option"

record access_claims =
  al_role :: string
  al_registered :: registered_claims

definition audience_api :: string where "audience_api = ''waas-api''"
definition audience_stream :: string where "audience_stream = ''waas-stream''"

text \<open>A numeric date of the JWT library keeps whole seconds.\<close>

definition numeric_date :: "int \<Rightarrow> int" where
  "numeric_date t = t - t mod 1000000000"

definition registered :: "string \<Rightarrow> string \<Rightarrow> string \<Rightarrow> int \<Rightarrow> int \<Rightarrow> registered_claims" where
  "registered issuer subject audience now ttl =
     \<lparr>rc_issuer = issuer, rc_subject = subject, rc_audience = [audience],
      rc_issued_at = Some (numeric_date now), rc_not_before = Some (numeric_date now),
      rc_expires_at = Some (numeric_date (now + ttl))\<rparr>"

definition new_access_claims :: "string \<Rightarrow> string \<Rightarrow> string \<Rightarrow> int \<Rightarrow> int \<Rightarrow> access_claims" where
  "new_access_claims issuer uid role now ttl = \<lparr>al_role = role, al_registered = registered issuer uid audience_api now ttl\<rparr>"

definition new_stream_claims :: "string \<Rightarrow> string \<Rightarrow> string \<Rightarrow> int \<Rightarrow> int \<Rightarrow> access_claims" where
  "new_stream_claims issuer uid role now ttl = \<lparr>al_role = role, al_registered = registered issuer uid audience_stream now ttl\<rparr>"

definition new_connection_claims ::
  "string \<Rightarrow> string \<Rightarrow> string \<Rightarrow> string \<Rightarrow> clipboard_grant \<Rightarrow> int \<Rightarrow> int \<Rightarrow> registered_claims \<times> connection_claims" where
  "new_connection_claims issuer uid sid wid clip now ttl =
     (registered issuer uid audience_connection now ttl,
      \<lparr>session_id = sid, workspace_id = wid, clipboard = clip\<rparr>)"

section \<open>Signing and verifying\<close>

text \<open>
  The claims in a signed token: an access payload (also of stream tokens) or a connection payload. \<open>sl_sign\<close>
  is \<open>Signer.Sign\<close>, \<open>sl_parse\<close> is \<open>jwt.ParseWithClaims\<close> under the signer's public key at a time, given
  the allowed algorithms, the issuer, the audience and whether an expiration is required.
\<close>

datatype token_payload = AccessPayload access_claims | ConnectionPayload registered_claims connection_claims

fun payload_registered :: "token_payload \<Rightarrow> registered_claims" where
  "payload_registered (AccessPayload c) = al_registered c"
| "payload_registered (ConnectionPayload r c) = r"

record signing_library =
  sl_sign :: "token_payload \<Rightarrow> string option"
  sl_parse :: "int \<Rightarrow> string list \<Rightarrow> string \<Rightarrow> string \<Rightarrow> bool \<Rightarrow> string \<Rightarrow> token_payload option"

text \<open>An access payload read from a connection token has no role; the subject is the token's.\<close>

fun as_access :: "token_payload \<Rightarrow> access_claims" where
  "as_access (AccessPayload c) = c"
| "as_access (ConnectionPayload r c) = \<lparr>al_role = [], al_registered = r\<rparr>"

definition verify_access_token :: "signing_library \<Rightarrow> int \<Rightarrow> string \<Rightarrow> string \<Rightarrow> access_claims option" where
  "verify_access_token lib now token issuer =
     map_option as_access (sl_parse lib now [''RS256''] issuer audience_api True token)"

definition verify_stream_token :: "signing_library \<Rightarrow> int \<Rightarrow> string \<Rightarrow> string \<Rightarrow> access_claims option" where
  "verify_stream_token lib now token issuer =
     map_option as_access (sl_parse lib now [''RS256''] issuer audience_stream True token)"

text \<open>
  What is relied on of the library: it accepts only what was signed, for the audience and issuer asked,
  before its expiration; two payloads do not share a token.
\<close>

definition honest_library :: "signing_library \<Rightarrow> bool" where
  "honest_library lib \<longleftrightarrow>
     (\<forall>now algs issuer aud token p. sl_parse lib now algs issuer aud True token = Some p \<longrightarrow>
        sl_sign lib p = Some token \<and> aud \<in> set (rc_audience (payload_registered p)) \<and>
        rc_issuer (payload_registered p) = issuer \<and>
        (\<exists>e. rc_expires_at (payload_registered p) = Some e \<and> now < e)) \<and>
     (\<forall>p q token. sl_sign lib p = Some token \<longrightarrow> sl_sign lib q = Some token \<longrightarrow> p = q)"

lemma honest_libraryD:
  assumes "honest_library lib" "sl_parse lib now algs issuer aud True token = Some p"
  shows "sl_sign lib p = Some token" "aud \<in> set (rc_audience (payload_registered p))"
    "rc_issuer (payload_registered p) = issuer" "\<exists>e. rc_expires_at (payload_registered p) = Some e \<and> now < e"
  using assms unfolding honest_library_def by blast+

lemma honest_library_inj: "honest_library lib \<Longrightarrow> sl_sign lib p = Some token \<Longrightarrow> sl_sign lib q = Some token \<Longrightarrow> p = q"
  unfolding honest_library_def by blast

text \<open>A token signed for one audience passes no check for another.\<close>

lemma other_audience_rejected:
  assumes "honest_library lib" "sl_sign lib p = Some token" "aud \<notin> set (rc_audience (payload_registered p))"
  shows "sl_parse lib now algs issuer aud True token = None"
proof (rule ccontr)
  assume "sl_parse lib now algs issuer aud True token \<noteq> None"
  then obtain q where q: "sl_parse lib now algs issuer aud True token = Some q" by blast
  from honest_libraryD [OF assms(1) q] honest_library_inj [OF assms(1,2), of q] assms(3) show False by metis
qed

section \<open>The bearer against the account\<close>

definition revoked :: "user \<Rightarrow> access_claims \<Rightarrow> bool" where
  "revoked u c = (case us_tokens_valid_after u of
     None \<Rightarrow> False
   | Some bound \<Rightarrow> (case rc_issued_at (al_registered c) of None \<Rightarrow> True | Some i \<Rightarrow> i < bound))"

definition vet_bearer :: "(string \<Rightarrow> user fetched) \<Rightarrow> access_claims \<Rightarrow> api_error option" where
  "vet_bearer users c =
     (case users (rc_subject (al_registered c)) of
        Missing \<Rightarrow> Some (Unauthorized [''account no longer exists''])
      | Failed \<Rightarrow> Some (Unavailable [''user state is temporarily unavailable''])
      | Found u \<Rightarrow>
         if \<not> us_active u then Some (Unauthorized [''account is disabled''])
         else if us_role u \<noteq> al_role c then Some (Unauthorized [''role has changed''])
         else if revoked u c then Some (Unauthorized [''token has been revoked''])
         else None)"

record http_request =
  hr_authorization :: string
  hr_cookie :: "string option"
  hr_fetch_site :: string
  hr_access_token :: string
  hr_internal_token :: string
  hr_tls :: bool
  hr_forwarded_proto :: string
  hr_client_ip :: string

text \<open>What a middleware does with a request: pass it on with claims, or answer, clearing the cookie or not.\<close>

datatype gate = Pass access_claims | Answer api_error bool

definition access_token :: "http_request \<Rightarrow> string \<times> bool" where
  "access_token r =
     (let header = (if has_prefix (hr_authorization r) ''Bearer '' then trim_prefix (hr_authorization r) ''Bearer '' else []) in
      if header \<noteq> [] then (header, False)
      else case hr_cookie r of
        Some c \<Rightarrow> if c \<noteq> [] then (c, True) else ([], False)
      | None \<Rightarrow> ([], False))"

definition same_origin_request :: "http_request \<Rightarrow> bool" where
  "same_origin_request r \<longleftrightarrow> hr_fetch_site r = [] \<or> hr_fetch_site r = ''same-origin''"

definition is_unauthorized :: "api_error \<Rightarrow> bool" where
  "is_unauthorized e \<longleftrightarrow> status_of e = 401"

definition deny_session :: "bool \<Rightarrow> api_error \<Rightarrow> gate" where
  "deny_session from_cookie e = Answer e (from_cookie \<and> is_unauthorized e)"

definition auth :: "signing_library \<Rightarrow> int \<Rightarrow> string \<Rightarrow> (string \<Rightarrow> user fetched) \<Rightarrow> http_request \<Rightarrow> gate" where
  "auth lib now issuer users r =
     (case access_token r of (token, from_cookie) \<Rightarrow>
        if token = [] then Answer (Unauthorized [''missing bearer token'']) False
        else if from_cookie \<and> \<not> same_origin_request r then Answer (Unauthorized [''cross-site request rejected'']) False
        else case verify_access_token lib now token issuer of
          None \<Rightarrow> deny_session from_cookie (Unauthorized [''invalid or expired token''])
        | Some c \<Rightarrow> (case vet_bearer users c of
            Some e \<Rightarrow> deny_session from_cookie e
          | None \<Rightarrow> Pass c))"

definition same_origin_gate :: "http_request \<Rightarrow> api_error option" where
  "same_origin_gate r = (if same_origin_request r then None else Some (Forbidden [''cross-site request rejected'']))"

definition stream_auth :: "signing_library \<Rightarrow> int \<Rightarrow> string \<Rightarrow> (string \<Rightarrow> user fetched) \<Rightarrow> http_request \<Rightarrow> gate" where
  "stream_auth lib now issuer users r =
     (let token = hr_access_token r in
      if token = [] then Answer (Unauthorized [''missing stream token'']) False
      else case verify_stream_token lib now token issuer of
        None \<Rightarrow> Answer (Unauthorized [''invalid or expired stream token'']) False
      | Some c \<Rightarrow> (case vet_bearer users c of Some e \<Rightarrow> Answer e False | None \<Rightarrow> Pass c))"

definition require_admin :: "access_claims option \<Rightarrow> api_error option" where
  "require_admin claims =
     (case claims of
        None \<Rightarrow> Some (Forbidden [''admin role required''])
      | Some c \<Rightarrow> if al_role c \<noteq> role_admin then Some (Forbidden [''admin role required'']) else None)"

definition actor_of :: "http_request \<Rightarrow> access_claims option \<Rightarrow> actor" where
  "actor_of r claims =
     (case claims of
        None \<Rightarrow> \<lparr>ac_id = [], ac_username = [], ac_role = [], ac_client_ip = hr_client_ip r\<rparr>
      | Some c \<Rightarrow> \<lparr>ac_id = rc_subject (al_registered c), ac_username = [], ac_role = al_role c, ac_client_ip = hr_client_ip r\<rparr>)"

definition internal_gate :: "string \<Rightarrow> http_request \<Rightarrow> api_error option" where
  "internal_gate token r =
     (if token = [] \<or> hr_internal_token r \<noteq> token then Some (Unauthorized [''invalid internal token'']) else None)"

section \<open>The session cookie\<close>

record session_cookie =
  ck_value :: string
  ck_path :: string
  ck_expired :: bool
  ck_http_only :: bool
  ck_secure :: bool
  ck_strict :: bool

definition session_cookie_path :: string where "session_cookie_path = ''/api''"

definition is_https :: "http_request \<Rightarrow> bool" where
  "is_https r \<longleftrightarrow> hr_tls r \<or> equal_fold (trim_space (fst (cut_at CHR '','' (hr_forwarded_proto r)))) ''https''"

definition set_session_cookie :: "http_request \<Rightarrow> string \<Rightarrow> session_cookie" where
  "set_session_cookie r token =
     \<lparr>ck_value = token, ck_path = session_cookie_path, ck_expired = False, ck_http_only = True, ck_secure = is_https r, ck_strict = True\<rparr>"

definition clear_session_cookie :: "http_request \<Rightarrow> session_cookie" where
  "clear_session_cookie r =
     \<lparr>ck_value = [], ck_path = session_cookie_path, ck_expired = True, ck_http_only = True, ck_secure = is_https r, ck_strict = True\<rparr>"

text \<open>The client's hop decides, whatever the proxies behind it append and however it is capitalized.\<close>

lemma is_https_first_hop:
  assumes "CHR '','' \<notin> set hop"
  shows "is_https (r\<lparr>hr_forwarded_proto := hop @ '','' @ rest\<rparr>) = is_https (r\<lparr>hr_forwarded_proto := hop\<rparr>)"
  using assms by (simp add: is_https_def cut_at_found cut_at_absent)

section \<open>What a request that passes has\<close>

lemma vet_bearer_none:
  "vet_bearer users c = None \<longleftrightarrow> (\<exists>u. users (rc_subject (al_registered c)) = Found u \<and> us_active u \<and> us_role u = al_role c \<and> \<not> revoked u c)"
  by (auto simp: vet_bearer_def split: fetched.splits if_splits)

lemma vet_bearer_status:
  "vet_bearer users c = Some e \<Longrightarrow> status_of e = (if users (rc_subject (al_registered c)) = Failed then 503 else 401)"
  by (auto simp: vet_bearer_def split: fetched.splits if_splits)

lemma verify_access_tokenD:
  assumes "honest_library lib" "verify_access_token lib now token issuer = Some c"
  shows "\<exists>p. c = as_access p \<and> sl_sign lib p = Some token \<and> audience_api \<in> set (rc_audience (payload_registered p)) \<and>
    rc_issuer (payload_registered p) = issuer \<and> (\<exists>e. rc_expires_at (payload_registered p) = Some e \<and> now < e)"
  using assms honest_libraryD [OF assms(1)] by (auto simp: verify_access_token_def)

text \<open>C8: The bearer check passes a request on only for a caller the platform recognises at that moment: with the token
  after \<open>Bearer\<close> in its Authorization header, or, when there is none, that of its session cookie, one the signer issued
  for the API under this issuer and that has not expired; the subject is at this moment an active account with the very
  role the token names, and if its tokens are bounded the token was issued at the bound or later. A cookie counts only in
  a request that a page of the platform's own origin made, or that has no Sec-Fetch-Site header at all, which the code
  takes for a client that is no browser. The claims passed on are those of the token. Which routes sit behind the check is
  not modelled; the signing library is a parameter, relied on to accept only what was signed.
\<close>

theorem bearer_vetted:
  assumes "honest_library lib" "auth lib now issuer users r = Pass c"
  shows "\<exists>p u token. c = as_access p \<and> sl_sign lib p = Some token \<and>
    (hr_authorization r = ''Bearer '' @ token \<or>
     hr_cookie r = Some token \<and> (hr_fetch_site r = ''same-origin'' \<or> hr_fetch_site r = []) \<and>
       (\<forall>t. hr_authorization r = ''Bearer '' @ t \<longrightarrow> t = [])) \<and> token \<noteq> [] \<and>
    ''waas-api'' \<in> set (rc_audience (payload_registered p)) \<and> rc_issuer (payload_registered p) = issuer \<and>
    (\<exists>e. rc_expires_at (payload_registered p) = Some e \<and> now < e) \<and>
    users (rc_subject (al_registered c)) = Found u \<and> us_active u \<and> us_role u = al_role c \<and>
    (\<forall>bound. us_tokens_valid_after u = Some bound \<longrightarrow> (\<exists>i. rc_issued_at (al_registered c) = Some i \<and> bound \<le> i))"
proof -
  obtain token cookie where t: "access_token r = (token, cookie)" by fastforce
  with assms(2) have v: "verify_access_token lib now token issuer = Some c" "vet_bearer users c = None"
    "cookie \<longrightarrow> same_origin_request r" "token \<noteq> []"
    by (auto simp: auth_def deny_session_def split: if_splits option.splits)
  have src: "hr_authorization r = ''Bearer '' @ token \<and> \<not> cookie \<or>
      hr_cookie r = Some token \<and> cookie \<and> (\<forall>t. hr_authorization r = ''Bearer '' @ t \<longrightarrow> t = [])"
    using t v(4) by (auto simp: access_token_def Let_def trim_prefix_def has_prefix_iff split: if_splits option.splits)
  obtain u where u: "users (rc_subject (al_registered c)) = Found u" "us_active u" "us_role u = al_role c" "\<not> revoked u c"
    using v(2) by (auto simp: vet_bearer_none)
  have "\<forall>bound. us_tokens_valid_after u = Some bound \<longrightarrow> (\<exists>i. rc_issued_at (al_registered c) = Some i \<and> bound \<le> i)"
    using u(4) by (auto simp: revoked_def split: option.splits)
  with verify_access_tokenD [OF assms(1) v(1)] v(3,4) src u(1-3) show ?thesis
    by (auto simp: same_origin_request_def audience_api_def)
qed

text \<open>The three audiences never mix. A token the platform minted for the event stream or for a desktop connection opens no
  API route, an API token opens neither the stream nor a desktop, and this whatever header, cookie or
  query parameter carries it.
\<close>

lemma audiences_separated:
  assumes "honest_library lib"
  shows "(sl_sign lib (AccessPayload (new_stream_claims iss uid role t ttl)) = Some token \<longrightarrow>
      verify_access_token lib now token issuer = None \<and>
      sl_parse lib now [''RS256''] issuer audience_connection True token = None) \<and>
    (sl_sign lib (AccessPayload (new_access_claims iss uid role t ttl)) = Some token \<longrightarrow>
      verify_stream_token lib now token issuer = None \<and>
      sl_parse lib now [''RS256''] issuer audience_connection True token = None) \<and>
    (new_connection_claims iss uid sid wid clip t ttl = (rc, cc) \<and> sl_sign lib (ConnectionPayload rc cc) = Some token \<longrightarrow>
      verify_access_token lib now token issuer = None \<and> verify_stream_token lib now token issuer = None)"
  using other_audience_rejected [OF assms]
  by (auto simp: verify_access_token_def verify_stream_token_def new_stream_claims_def new_access_claims_def
      new_connection_claims_def registered_def audience_api_def audience_stream_def audience_connection_def)

text \<open>
  The two refusals a browser can tell apart: only a dead credential of its own is taken from it, never one
  the server could not judge.
\<close>

lemma cookie_cleared_only_when_dead:
  assumes "auth lib now issuer users r = Answer e True"
  shows "snd (access_token r) \<and> same_origin_request r \<and> status_of e = 401 \<and>
    (\<forall>c. verify_access_token lib now (fst (access_token r)) issuer = Some c \<longrightarrow>
       users (rc_subject (al_registered c)) \<noteq> Failed)"
  using assms vet_bearer_status
  by (auto simp: auth_def deny_session_def is_unauthorized_def split: if_splits option.splits prod.splits)

lemma numeric_date_le: "numeric_date t \<le> t"
  by (simp add: numeric_date_def)

text \<open>A token minted strictly before the bound is dead, whatever the sub-second part its date has lost.\<close>

lemma minted_before_revoked:
  assumes "us_tokens_valid_after u = Some bound" "t < bound"
  shows "revoked u (new_access_claims issuer uid role t ttl)" "revoked u (new_stream_claims issuer uid role t ttl)"
  using assms numeric_date_le [of t]
  by (simp_all add: revoked_def new_access_claims_def new_stream_claims_def registered_def)

text \<open>An account whose tokens are bounded by the past passes with a token minted a second later.\<close>

lemma minted_after_accepted:
  assumes "us_tokens_valid_after u = Some bound" "bound + 1000000000 \<le> t"
  shows "\<not> revoked u (new_access_claims issuer uid role t ttl)"
proof -
  have "t - 1000000000 < numeric_date t" by (simp add: numeric_date_def)
  with assms show ?thesis by (simp add: revoked_def new_access_claims_def registered_def)
qed

section \<open>A concrete signer\<close>

text \<open>One API token, issued at second 5 for an hour.\<close>

definition badge_payload :: token_payload where
  "badge_payload = AccessPayload (new_access_claims ''waas'' ''a'' role_admin 5000000000 3600000000000)"

definition badge_library :: signing_library where
  "badge_library = \<lparr>sl_sign = (\<lambda>p. if p = badge_payload then Some ''badge'' else None),
     sl_parse = (\<lambda>now algs issuer aud exp token. if token = ''badge'' \<and> issuer = ''waas'' \<and> aud = audience_api \<and> now < 3605000000000
       then Some badge_payload else None)\<rparr>"

definition badge_request :: http_request where
  "badge_request = \<lparr>hr_authorization = ''Bearer badge'', hr_cookie = None, hr_fetch_site = [], hr_access_token = [], hr_internal_token = [],
     hr_tls = True, hr_forwarded_proto = [], hr_client_ip = []\<rparr>"

definition badge_user :: user where
  "badge_user = \<lparr>us_id = ''a'', us_username = ''ada'', us_display_name = [], us_email = [], us_password_hash = ''h'', us_role = role_admin,
     us_active = True, us_max_workspaces = 3, us_created_at = 0, us_updated_at = 0, us_last_login_at = None, us_tokens_valid_after = None,
     us_groups = [], us_preferences = [], us_oidc_subject = []\<rparr>"

lemma badge_honest: "honest_library badge_library"
  by (auto simp: honest_library_def badge_library_def badge_payload_def new_access_claims_def registered_def numeric_date_def
      audience_api_def split: if_splits)

lemma badge_signed: "sl_sign badge_library badge_payload = Some ''badge''"
  by (simp add: badge_library_def)

lemma badge_token: "access_token badge_request = (''badge'', False)"
  by (simp add: access_token_def badge_request_def has_prefix_def trim_prefix_def)

lemma badge_passes:
  "auth badge_library 6000000000 ''waas'' (\<lambda>i. Found badge_user) badge_request = Pass (as_access badge_payload)"
proof -
  have "verify_access_token badge_library 6000000000 ''badge'' ''waas'' = Some (as_access badge_payload)"
    by (simp add: verify_access_token_def badge_library_def)
  moreover have "vet_bearer (\<lambda>i. Found badge_user) (as_access badge_payload) = None"
    by (simp add: vet_bearer_none badge_user_def badge_payload_def new_access_claims_def revoked_def)
  ultimately show ?thesis by (simp add: auth_def badge_token)
qed

theorem bearer_vetted_witness:
  "\<exists>p token. as_access badge_payload = as_access p \<and> sl_sign badge_library p = Some token \<and>
    (hr_authorization badge_request = ''Bearer '' @ token \<or> hr_cookie badge_request = Some token) \<and>
    (\<exists>e. rc_expires_at (payload_registered p) = Some e \<and> 6000000000 < e)"
  using bearer_vetted [OF badge_honest badge_passes] by blast

end
