(* ===== verification/Params.thy ===== *)
theory Params
  imports Prelude "HOL-Library.Char_ord" "HOL-Library.List_Lexorder" "HOL-Library.Product_Lexorder"
begin

text \<open>
  \<open>operator/pkg/params/params.go\<close>: the registry of guacd connection parameters and the gates every
  writer of a parameter goes through (template parameters, template delegations, user overrides).
  The registry is the table of the source, entry by entry, in five parts that follow its sections.
  A Go map is an association list in the order the loop visits it; the gates' verdict (accepted or
  not) is shown independent of that order.
\<close>

section \<open>Vocabulary\<close>

datatype tier = TierUI | TierAdvanced | TierPlatform

datatype category = CatDisplay | CatAudio | CatInput | CatClipboard | CatSession | CatSecurity | CatConnection

fun category_name :: "category \<Rightarrow> string" where
  "category_name CatDisplay = ''display''"
| "category_name CatAudio = ''audio''"
| "category_name CatInput = ''input''"
| "category_name CatClipboard = ''clipboard''"
| "category_name CatSession = ''session''"
| "category_name CatSecurity = ''security''"
| "category_name CatConnection = ''connection''"

definition all_categories :: "category list" where
  "all_categories = [CatDisplay, CatAudio, CatInput, CatClipboard, CatSession, CatSecurity, CatConnection]"

datatype kind = KindString | KindBool | KindInt | KindEnum

record param =
  pname :: string
  pprotocols :: "string list"
  pkind :: kind
  penum :: "string list"
  pmin :: "int option"
  pmax :: "int option"
  pdefault :: string
  ptier :: tier
  pcategory :: category
  plive :: bool
  pdescription :: string

text \<open>The dash of the descriptions, in UTF-8.\<close>

abbreviation em_dash :: string where "em_dash \<equiv> [CHR 0xE2, CHR 0x80, CHR 0x94]"

section \<open>The registry\<close>

definition registry_shared :: "param list" where
  "registry_shared = [
  \<lparr>pname = ''read-only'', pprotocols = [''vnc'', ''rdp'', ''ssh''], pkind = KindBool,
     penum = [], pmin = None, pmax = None, pdefault = ''false'',
     ptier = TierUI, pcategory = CatSecurity, plive = False,
     pdescription = ''View-only session: display without mouse/keyboard input.''\<rparr>,
  \<lparr>pname = ''disable-copy'', pprotocols = [''vnc'', ''rdp'', ''ssh''], pkind = KindBool,
     penum = [], pmin = None, pmax = None, pdefault = ''false'',
     ptier = TierUI, pcategory = CatClipboard, plive = True,
     pdescription = ''Block copying FROM the remote desktop to the local clipboard. Enforced by the wwt proxy, live-toggleable.''\<rparr>,
  \<lparr>pname = ''disable-paste'', pprotocols = [''vnc'', ''rdp'', ''ssh''], pkind = KindBool,
     penum = [], pmin = None, pmax = None, pdefault = ''false'',
     ptier = TierUI, pcategory = CatClipboard, plive = True,
     pdescription = ''Block pasting FROM the local clipboard to the remote desktop. Enforced by the wwt proxy, live-toggleable.''\<rparr>]"

definition registry_vnc :: "param list" where
  "registry_vnc = [
  \<lparr>pname = ''color-depth'', pprotocols = [''vnc'', ''rdp''], pkind = KindEnum,
     penum = [''8'', ''16'', ''24'', ''32''], pmin = None, pmax = None, pdefault = ''24'',
     ptier = TierUI, pcategory = CatDisplay, plive = False,
     pdescription = ''Display color depth in bits per pixel; lower saves bandwidth.''\<rparr>,
  \<lparr>pname = ''swap-red-blue'', pprotocols = [''vnc''], pkind = KindBool,
     penum = [], pmin = None, pmax = None, pdefault = ''false'',
     ptier = TierUI, pcategory = CatDisplay, plive = False,
     pdescription = ''Fix red/blue channel inversion produced by some VNC servers.''\<rparr>,
  \<lparr>pname = ''cursor'', pprotocols = [''vnc''], pkind = KindEnum,
     penum = [''local'', ''remote''], pmin = None, pmax = None, pdefault = ''local'',
     ptier = TierUI, pcategory = CatDisplay, plive = False,
     pdescription = ''Render the mouse cursor locally (responsive) or remotely (accurate for cursor-morphing apps).''\<rparr>,
  \<lparr>pname = ''force-lossless'', pprotocols = [''vnc''], pkind = KindBool,
     penum = [], pmin = None, pmax = None, pdefault = ''false'',
     ptier = TierUI, pcategory = CatDisplay, plive = False,
     pdescription = ''Force lossless compression (sharp text, higher bandwidth).''\<rparr>,
  \<lparr>pname = ''enable-audio'', pprotocols = [''vnc''], pkind = KindBool,
     penum = [], pmin = None, pmax = None, pdefault = ''false'',
     ptier = TierUI, pcategory = CatAudio, plive = False,
     pdescription = ''Stream audio from the workspace's PulseAudio server (requires the image to run one).''\<rparr>,
  \<lparr>pname = ''audio-servername'', pprotocols = [''vnc''], pkind = KindString,
     penum = [], pmin = None, pmax = None, pdefault = '''',
     ptier = TierAdvanced, pcategory = CatAudio, plive = False,
     pdescription = ''PulseAudio server name when it differs from the VNC hostname.''\<rparr>,
  \<lparr>pname = ''encodings'', pprotocols = [''vnc''], pkind = KindString,
     penum = [], pmin = None, pmax = None, pdefault = '''',
     ptier = TierAdvanced, pcategory = CatDisplay, plive = False,
     pdescription = ''Space-separated VNC encodings offered to the server (expert tuning).''\<rparr>,
  \<lparr>pname = ''autoretry'', pprotocols = [''vnc''], pkind = KindInt,
     penum = [], pmin = Some 0, pmax = Some 10, pdefault = '''',
     ptier = TierAdvanced, pcategory = CatConnection, plive = False,
     pdescription = ''Connection retries before giving up (covers desktops still booting).''\<rparr>,
  \<lparr>pname = ''clipboard-encoding'', pprotocols = [''vnc''], pkind = KindEnum,
     penum = [''ISO8859-1'', ''UTF-8'', ''UTF-16'', ''CP1252''], pmin = None, pmax = None, pdefault = ''ISO8859-1'',
     ptier = TierAdvanced, pcategory = CatClipboard, plive = False,
     pdescription = ''Character encoding the VNC server uses for clipboard data.''\<rparr>]"

definition registry_rdp :: "param list" where
  "registry_rdp = [
  \<lparr>pname = ''resize-method'', pprotocols = [''rdp''], pkind = KindEnum,
     penum = [''display-update'', ''reconnect''], pmin = None, pmax = None, pdefault = ''display-update'',
     ptier = TierUI, pcategory = CatDisplay, plive = False,
     pdescription = ''How guacd propagates resizes to a remote RDP server (display-update = live resize). No effect on in-cluster desktops, which WaaS resizes via pod exec.''\<rparr>,
  \<lparr>pname = ''security'', pprotocols = [''rdp''], pkind = KindEnum,
     penum = [''any'', ''nla'', ''tls'', ''rdp''], pmin = None, pmax = None, pdefault = ''any'',
     ptier = TierAdvanced, pcategory = CatSecurity, plive = False,
     pdescription = ''RDP security negotiation mode; in-cluster Windows VMs may need a specific one.''\<rparr>,
  \<lparr>pname = ''ignore-cert'', pprotocols = [''rdp''], pkind = KindBool,
     penum = [], pmin = None, pmax = None, pdefault = ''true'',
     ptier = TierAdvanced, pcategory = CatSecurity, plive = False,
     pdescription = ''Accept the RDP server certificate unverified. Acceptable in-cluster (self-signed VM certs); the connection never leaves the cluster network.''\<rparr>,
  \<lparr>pname = ''disable-audio'', pprotocols = [''rdp''], pkind = KindBool,
     penum = [], pmin = None, pmax = None, pdefault = ''false'',
     ptier = TierUI, pcategory = CatAudio, plive = False,
     pdescription = ''Disable audio redirection from the remote desktop.''\<rparr>,
  \<lparr>pname = ''enable-audio-input'', pprotocols = [''rdp''], pkind = KindBool,
     penum = [], pmin = None, pmax = None, pdefault = ''false'',
     ptier = TierAdvanced, pcategory = CatAudio, plive = False,
     pdescription = ''Redirect the local microphone into the remote session.''\<rparr>,
  \<lparr>pname = ''server-layout'', pprotocols = [''rdp''], pkind = KindEnum,
     penum = [''en-us-qwerty'', ''en-gb-qwerty'', ''cs-cz-qwertz'', ''da-dk-qwerty'', ''de-ch-qwertz'', ''de-de-qwertz'', ''es-es-qwerty'', ''es-latam-qwerty'', ''fr-be-azerty'', ''fr-ca-qwerty'', ''fr-ch-qwertz'', ''fr-fr-azerty'', ''hu-hu-qwertz'', ''it-it-qwerty'', ''ja-jp-qwerty'', ''nl-nl-qwerty'', ''no-no-qwerty'', ''pl-pl-qwertz'', ''pt-br-qwerty'', ''pt-pt-qwerty'', ''ro-ro-qwerty'', ''sv-se-qwerty'', ''tr-tr-qwerty'', ''failsafe''], pmin = None, pmax = None, pdefault = ''en-us-qwerty'',
     ptier = TierUI, pcategory = CatInput, plive = False,
     pdescription = ''Keyboard layout the RDP server expects. Left unset, the platform auto-detects it from the browser locale (failsafe sends Unicode events).''\<rparr>,
  \<lparr>pname = ''console'', pprotocols = [''rdp''], pkind = KindBool,
     penum = [], pmin = None, pmax = None, pdefault = ''false'',
     ptier = TierAdvanced, pcategory = CatSession, plive = False,
     pdescription = ''Attach to the console (admin) session instead of a new one.''\<rparr>,
  \<lparr>pname = ''enable-wallpaper'', pprotocols = [''rdp''], pkind = KindBool,
     penum = [], pmin = None, pmax = None, pdefault = ''false'',
     ptier = TierAdvanced, pcategory = CatDisplay, plive = False,
     pdescription = ''Render the desktop wallpaper (bandwidth for cosmetics).''\<rparr>,
  \<lparr>pname = ''enable-font-smoothing'', pprotocols = [''rdp''], pkind = KindBool,
     penum = [], pmin = None, pmax = None, pdefault = ''false'',
     ptier = TierAdvanced, pcategory = CatDisplay, plive = False,
     pdescription = ''Enable ClearType font smoothing.''\<rparr>,
  \<lparr>pname = ''enable-desktop-composition'', pprotocols = [''rdp''], pkind = KindBool,
     penum = [], pmin = None, pmax = None, pdefault = ''false'',
     ptier = TierAdvanced, pcategory = CatDisplay, plive = False,
     pdescription = ''Enable Windows Aero desktop composition effects.''\<rparr>,
  \<lparr>pname = ''enable-full-window-drag'', pprotocols = [''rdp''], pkind = KindBool,
     penum = [], pmin = None, pmax = None, pdefault = ''false'',
     ptier = TierAdvanced, pcategory = CatDisplay, plive = False,
     pdescription = ''Render window contents while dragging (bandwidth for comfort).''\<rparr>,
  \<lparr>pname = ''enable-menu-animations'', pprotocols = [''rdp''], pkind = KindBool,
     penum = [], pmin = None, pmax = None, pdefault = ''false'',
     ptier = TierAdvanced, pcategory = CatDisplay, plive = False,
     pdescription = ''Enable menu open/close animations.''\<rparr>,
  \<lparr>pname = ''enable-theming'', pprotocols = [''rdp''], pkind = KindBool,
     penum = [], pmin = None, pmax = None, pdefault = ''false'',
     ptier = TierAdvanced, pcategory = CatDisplay, plive = False,
     pdescription = ''Enable desktop/window theming.''\<rparr>,
  \<lparr>pname = ''disable-bitmap-caching'', pprotocols = [''rdp''], pkind = KindBool,
     penum = [], pmin = None, pmax = None, pdefault = ''false'',
     ptier = TierAdvanced, pcategory = CatDisplay, plive = False,
     pdescription = ''Disable the RDP bitmap cache (workaround for buggy servers).''\<rparr>,
  \<lparr>pname = ''disable-offscreen-caching'', pprotocols = [''rdp''], pkind = KindBool,
     penum = [], pmin = None, pmax = None, pdefault = ''false'',
     ptier = TierAdvanced, pcategory = CatDisplay, plive = False,
     pdescription = ''Disable caching of off-screen regions (workaround for buggy servers).''\<rparr>,
  \<lparr>pname = ''disable-glyph-caching'', pprotocols = [''rdp''], pkind = KindBool,
     penum = [], pmin = None, pmax = None, pdefault = ''false'',
     ptier = TierAdvanced, pcategory = CatDisplay, plive = False,
     pdescription = ''Disable glyph caching (workaround for text rendering glitches).''\<rparr>,
  \<lparr>pname = ''normalize-clipboard'', pprotocols = [''rdp''], pkind = KindEnum,
     penum = [''preserve'', ''text''], pmin = None, pmax = None, pdefault = ''preserve'',
     ptier = TierAdvanced, pcategory = CatClipboard, plive = False,
     pdescription = ''Line-ending normalization applied to clipboard text.''\<rparr>,
  \<lparr>pname = ''initial-program'', pprotocols = [''rdp''], pkind = KindString,
     penum = [], pmin = None, pmax = None, pdefault = '''',
     ptier = TierAdvanced, pcategory = CatSession, plive = False,
     pdescription = ''Program launched instead of the full desktop (kiosk-style templates).''\<rparr>,
  \<lparr>pname = ''client-name'', pprotocols = [''rdp''], pkind = KindString,
     penum = [], pmin = None, pmax = None, pdefault = '''',
     ptier = TierAdvanced, pcategory = CatSession, plive = False,
     pdescription = ''Client hostname announced to the RDP server (some session brokers key on it).''\<rparr>,
  \<lparr>pname = ''console-audio'', pprotocols = [''rdp''], pkind = KindBool,
     penum = [], pmin = None, pmax = None, pdefault = ''false'',
     ptier = TierAdvanced, pcategory = CatAudio, plive = False,
     pdescription = ''Play audio on the server console instead of streaming it to the client.''\<rparr>,
  \<lparr>pname = ''timezone'', pprotocols = [''rdp'', ''ssh''], pkind = KindString,
     penum = [], pmin = None, pmax = None, pdefault = '''',
     ptier = TierAdvanced, pcategory = CatSession, plive = False,
     pdescription = ''IANA timezone forwarded to the session (e.g. Europe/Paris).''\<rparr>]"

definition registry_ssh :: "param list" where
  "registry_ssh = [
  \<lparr>pname = ''font-size'', pprotocols = [''ssh''], pkind = KindInt,
     penum = [], pmin = Some 6, pmax = Some 48, pdefault = ''12'',
     ptier = TierUI, pcategory = CatDisplay, plive = False,
     pdescription = ''Terminal font size in points.''\<rparr>,
  \<lparr>pname = ''color-scheme'', pprotocols = [''ssh''], pkind = KindEnum,
     penum = [''black-white'', ''gray-black'', ''green-black'', ''white-black''], pmin = None, pmax = None, pdefault = ''gray-black'',
     ptier = TierUI, pcategory = CatDisplay, plive = False,
     pdescription = ''Terminal color scheme.''\<rparr>,
  \<lparr>pname = ''font-name'', pprotocols = [''ssh''], pkind = KindString,
     penum = [], pmin = None, pmax = None, pdefault = '''',
     ptier = TierAdvanced, pcategory = CatDisplay, plive = False,
     pdescription = ''Terminal font family (must exist server-side in guacd).''\<rparr>,
  \<lparr>pname = ''scrollback'', pprotocols = [''ssh''], pkind = KindInt,
     penum = [], pmin = Some 0, pmax = Some 100000, pdefault = ''1000'',
     ptier = TierAdvanced, pcategory = CatDisplay, plive = False,
     pdescription = ''Scrollback buffer size in rows.''\<rparr>,
  \<lparr>pname = ''terminal-type'', pprotocols = [''ssh''], pkind = KindString,
     penum = [], pmin = None, pmax = None, pdefault = ''linux'',
     ptier = TierAdvanced, pcategory = CatSession, plive = False,
     pdescription = ''TERM value announced to the SSH server.''\<rparr>,
  \<lparr>pname = ''command'', pprotocols = [''ssh''], pkind = KindString,
     penum = [], pmin = None, pmax = None, pdefault = '''',
     ptier = TierAdvanced, pcategory = CatSession, plive = False,
     pdescription = ''Command to run instead of an interactive shell (kiosk-style templates).''\<rparr>,
  \<lparr>pname = ''server-alive-interval'', pprotocols = [''ssh''], pkind = KindInt,
     penum = [], pmin = Some 0, pmax = Some 3600, pdefault = '''',
     ptier = TierAdvanced, pcategory = CatConnection, plive = False,
     pdescription = ''SSH keep-alive interval in seconds.''\<rparr>,
  \<lparr>pname = ''backspace'', pprotocols = [''ssh''], pkind = KindInt,
     penum = [], pmin = Some 1, pmax = Some 255, pdefault = ''127'',
     ptier = TierAdvanced, pcategory = CatInput, plive = False,
     pdescription = ''Code sent by the backspace key (127 = ASCII DEL, 8 = BS for legacy hosts).''\<rparr>,
  \<lparr>pname = ''locale'', pprotocols = [''ssh''], pkind = KindString,
     penum = [], pmin = None, pmax = None, pdefault = '''',
     ptier = TierAdvanced, pcategory = CatSession, plive = False,
     pdescription = ''LANG value forwarded to the SSH session (server must accept env forwarding).''\<rparr>,
  \<lparr>pname = ''host-key'', pprotocols = [''ssh''], pkind = KindString,
     penum = [], pmin = None, pmax = None, pdefault = '''',
     ptier = TierAdvanced, pcategory = CatSecurity, plive = False,
     pdescription = ''Expected server host key (Base64); connection is refused on mismatch.''\<rparr>]"

definition registry_platform :: "param list" where
  "registry_platform = [
  \<lparr>pname = ''hostname'', pprotocols = [''vnc'', ''rdp'', ''ssh''], pkind = KindString,
     penum = [], pmin = None, pmax = None, pdefault = '''',
     ptier = TierPlatform, pcategory = CatConnection, plive = False,
     pdescription = ''Always the workspace service address, resolved by the operator.''\<rparr>,
  \<lparr>pname = ''port'', pprotocols = [''vnc'', ''rdp'', ''ssh''], pkind = KindInt,
     penum = [], pmin = None, pmax = None, pdefault = '''',
     ptier = TierPlatform, pcategory = CatConnection, plive = False,
     pdescription = ''Always the workspace protocol port, resolved by the operator.''\<rparr>,
  \<lparr>pname = ''username'', pprotocols = [''vnc'', ''rdp'', ''ssh''], pkind = KindString,
     penum = [], pmin = None, pmax = None, pdefault = '''',
     ptier = TierPlatform, pcategory = CatConnection, plive = False,
     pdescription = ''Desktop credential '' @ em_dash @ '' comes from the protocol's credentials Secret, never from a CR param.''\<rparr>,
  \<lparr>pname = ''password'', pprotocols = [''vnc'', ''rdp'', ''ssh''], pkind = KindString,
     penum = [], pmin = None, pmax = None, pdefault = '''',
     ptier = TierPlatform, pcategory = CatConnection, plive = False,
     pdescription = ''Desktop credential '' @ em_dash @ '' comes from the protocol's credentials Secret, never from a CR param.''\<rparr>,
  \<lparr>pname = ''private-key'', pprotocols = [''ssh''], pkind = KindString,
     penum = [], pmin = None, pmax = None, pdefault = '''',
     ptier = TierPlatform, pcategory = CatConnection, plive = False,
     pdescription = ''SSH private key '' @ em_dash @ '' comes from the protocol's credentials Secret, never from a CR param.''\<rparr>,
  \<lparr>pname = ''passphrase'', pprotocols = [''ssh''], pkind = KindString,
     penum = [], pmin = None, pmax = None, pdefault = '''',
     ptier = TierPlatform, pcategory = CatConnection, plive = False,
     pdescription = ''SSH key passphrase '' @ em_dash @ '' comes from the protocol's credentials Secret, never from a CR param.''\<rparr>,
  \<lparr>pname = ''dest-host'', pprotocols = [''vnc''], pkind = KindString,
     penum = [], pmin = None, pmax = None, pdefault = '''',
     ptier = TierPlatform, pcategory = CatConnection, plive = False,
     pdescription = ''VNC repeater redirection '' @ em_dash @ '' banned: would let a CR reroute guacd to an arbitrary host.''\<rparr>,
  \<lparr>pname = ''dest-port'', pprotocols = [''vnc''], pkind = KindInt,
     penum = [], pmin = None, pmax = None, pdefault = '''',
     ptier = TierPlatform, pcategory = CatConnection, plive = False,
     pdescription = ''VNC repeater redirection '' @ em_dash @ '' banned (see dest-host).''\<rparr>,
  \<lparr>pname = ''gateway-hostname'', pprotocols = [''rdp''], pkind = KindString,
     penum = [], pmin = None, pmax = None, pdefault = '''',
     ptier = TierPlatform, pcategory = CatConnection, plive = False,
     pdescription = ''RDP gateway '' @ em_dash @ '' banned: workspace traffic never leaves the cluster network.''\<rparr>,
  \<lparr>pname = ''gateway-port'', pprotocols = [''rdp''], pkind = KindInt,
     penum = [], pmin = None, pmax = None, pdefault = '''',
     ptier = TierPlatform, pcategory = CatConnection, plive = False,
     pdescription = ''RDP gateway '' @ em_dash @ '' banned (see gateway-hostname).''\<rparr>,
  \<lparr>pname = ''gateway-username'', pprotocols = [''rdp''], pkind = KindString,
     penum = [], pmin = None, pmax = None, pdefault = '''',
     ptier = TierPlatform, pcategory = CatConnection, plive = False,
     pdescription = ''RDP gateway credential '' @ em_dash @ '' banned (see gateway-hostname).''\<rparr>,
  \<lparr>pname = ''gateway-password'', pprotocols = [''rdp''], pkind = KindString,
     penum = [], pmin = None, pmax = None, pdefault = '''',
     ptier = TierPlatform, pcategory = CatConnection, plive = False,
     pdescription = ''RDP gateway credential '' @ em_dash @ '' banned (see gateway-hostname).''\<rparr>,
  \<lparr>pname = ''enable-sftp'', pprotocols = [''vnc'', ''rdp'', ''ssh''], pkind = KindBool,
     penum = [], pmin = None, pmax = None, pdefault = '''',
     ptier = TierPlatform, pcategory = CatSession, plive = False,
     pdescription = ''File transfer '' @ em_dash @ '' platform-owned until the file-transfer feature ships with its own policy gate.''\<rparr>,
  \<lparr>pname = ''enable-drive'', pprotocols = [''rdp''], pkind = KindBool,
     penum = [], pmin = None, pmax = None, pdefault = '''',
     ptier = TierPlatform, pcategory = CatSession, plive = False,
     pdescription = ''Drive redirection '' @ em_dash @ '' platform-owned until the file-transfer feature ships with its own policy gate.''\<rparr>,
  \<lparr>pname = ''wol-send-packet'', pprotocols = [''vnc'', ''rdp'', ''ssh''], pkind = KindBool,
     penum = [], pmin = None, pmax = None, pdefault = '''',
     ptier = TierPlatform, pcategory = CatConnection, plive = False,
     pdescription = ''Wake-on-LAN '' @ em_dash @ '' meaningless in-cluster, banned.''\<rparr>,
  \<lparr>pname = ''domain'', pprotocols = [''rdp''], pkind = KindString,
     penum = [], pmin = None, pmax = None, pdefault = '''',
     ptier = TierPlatform, pcategory = CatConnection, plive = False,
     pdescription = ''RDP credential '' @ em_dash @ '' comes from the protocol's credentials Secret, never from a CR param.''\<rparr>,
  \<lparr>pname = ''disable-auth'', pprotocols = [''rdp''], pkind = KindBool,
     penum = [], pmin = None, pmax = None, pdefault = '''',
     ptier = TierPlatform, pcategory = CatSecurity, plive = False,
     pdescription = ''Disables RDP authentication entirely '' @ em_dash @ '' banned: authentication is platform policy, never a per-connection parameter.''\<rparr>,
  \<lparr>pname = ''static-channels'', pprotocols = [''rdp''], pkind = KindString,
     penum = [], pmin = None, pmax = None, pdefault = '''',
     ptier = TierPlatform, pcategory = CatSession, plive = False,
     pdescription = ''Raw static virtual channel pass-through '' @ em_dash @ '' banned: uncontrolled side channel.''\<rparr>,
  \<lparr>pname = ''load-balance-info'', pprotocols = [''rdp''], pkind = KindString,
     penum = [], pmin = None, pmax = None, pdefault = '''',
     ptier = TierPlatform, pcategory = CatConnection, plive = False,
     pdescription = ''RDP broker routing token '' @ em_dash @ '' platform topology concern, banned in CRs.''\<rparr>,
  \<lparr>pname = ''recording-path'', pprotocols = [''vnc'', ''rdp'', ''ssh''], pkind = KindString,
     penum = [], pmin = None, pmax = None, pdefault = '''',
     ptier = TierPlatform, pcategory = CatSession, plive = False,
     pdescription = ''Session recording '' @ em_dash @ '' platform-owned until the recording feature ships with its own policy gate.''\<rparr>,
  \<lparr>pname = ''recording-name'', pprotocols = [''vnc'', ''rdp'', ''ssh''], pkind = KindString,
     penum = [], pmin = None, pmax = None, pdefault = '''',
     ptier = TierPlatform, pcategory = CatSession, plive = False,
     pdescription = ''Session recording '' @ em_dash @ '' platform-owned (see recording-path).''\<rparr>,
  \<lparr>pname = ''create-recording-path'', pprotocols = [''vnc'', ''rdp'', ''ssh''], pkind = KindBool,
     penum = [], pmin = None, pmax = None, pdefault = '''',
     ptier = TierPlatform, pcategory = CatSession, plive = False,
     pdescription = ''Session recording '' @ em_dash @ '' platform-owned (see recording-path).''\<rparr>,
  \<lparr>pname = ''typescript-path'', pprotocols = [''ssh''], pkind = KindString,
     penum = [], pmin = None, pmax = None, pdefault = '''',
     ptier = TierPlatform, pcategory = CatSession, plive = False,
     pdescription = ''Terminal typescript recording '' @ em_dash @ '' platform-owned (see recording-path).''\<rparr>,
  \<lparr>pname = ''sftp-hostname'', pprotocols = [''vnc'', ''rdp''], pkind = KindString,
     penum = [], pmin = None, pmax = None, pdefault = '''',
     ptier = TierPlatform, pcategory = CatConnection, plive = False,
     pdescription = ''SFTP side-channel to an arbitrary host '' @ em_dash @ '' banned (the whole sftp-* family is unregistered on purpose).''\<rparr>]"
definition registry :: "param list" where
  "registry = registry_shared @ registry_vnc @ registry_rdp @ registry_ssh @ registry_platform"

lemmas registry_parts =
  registry_shared_def registry_vnc_def registry_rdp_def registry_ssh_def registry_platform_def

section \<open>Reading the registry\<close>

text \<open>The display order: categories and tiers by rank.\<close>

fun index_of :: "'a list \<Rightarrow> 'a \<Rightarrow> nat" where
  "index_of [] x = 0"
| "index_of (y # ys) x = (if y = x then 0 else Suc (index_of ys x))"

definition cat_rank :: "category \<Rightarrow> nat" where
  "cat_rank c = index_of all_categories c"

fun tier_rank :: "tier \<Rightarrow> nat" where
  "tier_rank TierUI = 0"
| "tier_rank TierAdvanced = 1"
| "tier_rank TierPlatform = 2"

instantiation category :: linorder
begin

definition less_eq_category :: "category \<Rightarrow> category \<Rightarrow> bool" where
  "less_eq_category c d \<longleftrightarrow> cat_rank c \<le> cat_rank d"

definition less_category :: "category \<Rightarrow> category \<Rightarrow> bool" where
  "less_category c d \<longleftrightarrow> cat_rank c < cat_rank d"

instance
proof
  fix c d :: category
  show "c \<le> d \<Longrightarrow> d \<le> c \<Longrightarrow> c = d"
    by (cases c; cases d) (simp_all add: less_eq_category_def cat_rank_def all_categories_def)
qed (auto simp: less_eq_category_def less_category_def)

end

instantiation tier :: linorder
begin

definition less_eq_tier :: "tier \<Rightarrow> tier \<Rightarrow> bool" where
  "less_eq_tier s t \<longleftrightarrow> tier_rank s \<le> tier_rank t"

definition less_tier :: "tier \<Rightarrow> tier \<Rightarrow> bool" where
  "less_tier s t \<longleftrightarrow> tier_rank s < tier_rank t"

instance
proof
  fix s t :: tier
  show "s \<le> t \<Longrightarrow> t \<le> s \<Longrightarrow> s = t" by (cases s; cases t) (simp_all add: less_eq_tier_def)
qed (auto simp: less_eq_tier_def less_tier_def)

end

definition display_key :: "param \<Rightarrow> category \<times> tier \<times> string" where
  "display_key p = (pcategory p, ptier p, pname p)"

definition for_protocol :: "string \<Rightarrow> param list" where
  "for_protocol protocol = sort_key display_key (filter (\<lambda>p. protocol \<in> set (pprotocols p)) registry)"

definition protocols :: "string list" where
  "protocols = [''vnc'', ''rdp'', ''ssh'', ''kasmvnc'']"

definition lookup_param :: "string \<Rightarrow> string \<Rightarrow> param option" where
  "lookup_param protocol name = find (\<lambda>p. pname p = name \<and> protocol \<in> set (pprotocols p)) registry"

definition category_selector_prefix :: string where "category_selector_prefix = ''cat:''"

definition selected_category :: "string \<Rightarrow> string option" where
  "selected_category entry =
     (if \<not> has_prefix entry category_selector_prefix then None
      else Some (trim_prefix entry category_selector_prefix))"

definition known_category :: "string \<Rightarrow> bool" where
  "known_category c \<longleftrightarrow> list_ex (\<lambda>k. category_name k = c) all_categories"

text \<open>\<open>add\<close>: the output list is also the set of names seen.\<close>

definition add_name :: "string list \<Rightarrow> string \<Rightarrow> string list" where
  "add_name out name = (if name \<in> set out then out else out @ [name])"

fun resolve_loop :: "string \<Rightarrow> string list \<Rightarrow> string list \<Rightarrow> string list" where
  "resolve_loop protocol [] out = out"
| "resolve_loop protocol (entry # entries) out =
     (case selected_category entry of
        None \<Rightarrow> resolve_loop protocol entries (add_name out entry)
      | Some cat \<Rightarrow>
          resolve_loop protocol entries
            (foldl add_name out
              (map pname (filter (\<lambda>p. category_name (pcategory p) = cat \<and> ptier p \<noteq> TierPlatform)
                 (for_protocol protocol)))))"

definition resolve_user_param_names :: "string \<Rightarrow> string list \<Rightarrow> string list" where
  "resolve_user_param_names protocol entries = resolve_loop protocol entries []"

section \<open>The gates\<close>

datatype param_reason =
    MustBeBool string
  | MustBeInteger string
  | MustBeAtLeast int int
  | MustBeAtMost int int
  | MustBeOneOf "string list" string
  | NotRegistered string
  | PlatformOwned string
  | NotDelegable
  | UnknownCategory string
  | NotConfigurable string "string list"

record violation =
  vname :: string
  vreason :: param_reason

definition validate_value :: "param \<Rightarrow> string \<Rightarrow> violation option" where
  "validate_value p v =
     (let reject = \<lambda>r. Some \<lparr>vname = pname p, vreason = r\<rparr> in
      case pkind p of
        KindBool \<Rightarrow> if v \<noteq> ''true'' \<and> v \<noteq> ''false'' then reject (MustBeBool v) else None
      | KindInt \<Rightarrow>
         (case atoi v of
            None \<Rightarrow> reject (MustBeInteger v)
          | Some n \<Rightarrow>
             (case pmin p of
                Some m \<Rightarrow> if n < m then reject (MustBeAtLeast m n)
                          else (case pmax p of
                            Some m' \<Rightarrow> if m' < n then reject (MustBeAtMost m' n) else None
                          | None \<Rightarrow> None)
              | None \<Rightarrow> (case pmax p of
                  Some m' \<Rightarrow> if m' < n then reject (MustBeAtMost m' n) else None
                | None \<Rightarrow> None)))
      | KindEnum \<Rightarrow> if v \<in> set (penum p) then None else reject (MustBeOneOf (penum p) v)
      | KindString \<Rightarrow> None)"

fun validate_template_params :: "string \<Rightarrow> (string \<times> string) list \<Rightarrow> violation option" where
  "validate_template_params protocol [] = None"
| "validate_template_params protocol ((name, v) # ps) =
     (case lookup_param protocol name of
        None \<Rightarrow> Some \<lparr>vname = name, vreason = NotRegistered protocol\<rparr>
      | Some p \<Rightarrow>
         if ptier p = TierPlatform then Some \<lparr>vname = name, vreason = PlatformOwned (pdescription p)\<rparr>
         else (case validate_value p v of
            Some e \<Rightarrow> Some e
          | None \<Rightarrow> validate_template_params protocol ps))"

fun validate_user_param_names :: "string \<Rightarrow> string list \<Rightarrow> violation option" where
  "validate_user_param_names protocol [] = None"
| "validate_user_param_names protocol (name # names) =
     (case selected_category name of
        Some cat \<Rightarrow>
          if \<not> known_category cat then Some \<lparr>vname = name, vreason = UnknownCategory cat\<rparr>
          else validate_user_param_names protocol names
      | None \<Rightarrow>
         (case lookup_param protocol name of
            None \<Rightarrow> Some \<lparr>vname = name, vreason = NotRegistered protocol\<rparr>
          | Some p \<Rightarrow>
             if ptier p = TierPlatform then Some \<lparr>vname = name, vreason = NotDelegable\<rparr>
             else validate_user_param_names protocol names))"

fun validate_user_overrides ::
  "string \<Rightarrow> (string \<times> string) list \<Rightarrow> string list \<Rightarrow> bool \<Rightarrow> violation option" where
  "validate_user_overrides protocol [] allow bypass = None"
| "validate_user_overrides protocol ((name, v) # ps) allow bypass =
     (case lookup_param protocol name of
        None \<Rightarrow> Some \<lparr>vname = name, vreason = NotRegistered protocol\<rparr>
      | Some p \<Rightarrow>
         if ptier p = TierPlatform then Some \<lparr>vname = name, vreason = PlatformOwned (pdescription p)\<rparr>
         else if \<not> bypass \<and> name \<notin> set allow
           then Some \<lparr>vname = name, vreason = NotConfigurable protocol allow\<rparr>
         else (case validate_value p v of
            Some e \<Rightarrow> Some e
          | None \<Rightarrow> validate_user_overrides protocol ps allow bypass))"

section \<open>The table is coherent\<close>

definition coherent :: "param \<Rightarrow> bool" where
  "coherent p \<longleftrightarrow> pprotocols p \<noteq> [] \<and> list_all (\<lambda>q. q \<in> set [''vnc'', ''rdp'', ''ssh'']) (pprotocols p) \<and>
     (pkind p = KindEnum) = (penum p \<noteq> []) \<and>
     (pkind p \<noteq> KindInt \<longrightarrow> pmin p = None \<and> pmax p = None) \<and>
     (case (pmin p, pmax p) of (Some a, Some b) \<Rightarrow> a \<le> b | (None, None) \<Rightarrow> True | _ \<Rightarrow> False) \<and>
     (pdefault p = [] \<or> validate_value p (pdefault p) = None) \<and>
     \<not> has_prefix (pname p) category_selector_prefix"

lemma registry_names_distinct: "distinct (map pname registry)"
  by code_simp

lemma registry_parts_coherent:
  "list_all coherent registry_shared" "list_all coherent registry_vnc" "list_all coherent registry_rdp"
  "list_all coherent registry_ssh" "list_all coherent registry_platform"
  by code_simp+

lemma registry_coherent: "p \<in> set registry \<Longrightarrow> coherent p"
  using registry_parts_coherent by (auto simp: registry_def list_all_iff)

lemma find_unique:
  assumes "distinct (map f xs)" "x \<in> set xs" "P x"
  shows "find (\<lambda>y. f y = f x \<and> P y) xs = Some x"
  using assms by (induction xs) (auto simp: rev_image_eqI)

lemma lookup_registered [simp]:
  "p \<in> set registry \<Longrightarrow> protocol \<in> set (pprotocols p) \<Longrightarrow> lookup_param protocol (pname p) = Some p"
  unfolding lookup_param_def by (rule find_unique [OF registry_names_distinct])

lemma lookup_some:
  "lookup_param protocol name = Some p \<Longrightarrow> p \<in> set registry \<and> pname p = name \<and> protocol \<in> set (pprotocols p)"
  unfolding lookup_param_def by (force simp: find_Some_iff)

lemma set_for_protocol [simp]:
  "set (for_protocol protocol) = {p \<in> set registry. protocol \<in> set (pprotocols p)}"
  by (auto simp: for_protocol_def)

lemma protocol_registered: "p \<in> set registry \<Longrightarrow> protocol \<in> set (pprotocols p) \<Longrightarrow> protocol \<in> {''vnc'', ''rdp'', ''ssh''}"
  using registry_coherent [of p] by (auto simp: coherent_def list_all_iff)

section \<open>The gates as sets\<close>

definition settable :: "string \<Rightarrow> string \<times> string \<Rightarrow> bool" where
  "settable protocol nv \<longleftrightarrow> (\<exists>p \<in> set registry. protocol \<in> set (pprotocols p) \<and> pname p = fst nv \<and>
     ptier p \<noteq> TierPlatform \<and> validate_value p (snd nv) = None)"

lemma settable_lookup:
  "settable protocol (n, v) \<longleftrightarrow>
    (\<exists>p. lookup_param protocol n = Some p \<and> ptier p \<noteq> TierPlatform \<and> validate_value p v = None)"
  unfolding settable_def by (auto dest: lookup_some)

lemma validate_template_params_iff:
  "validate_template_params protocol ps = None \<longleftrightarrow> (\<forall>nv \<in> set ps. settable protocol nv)"
proof (induction protocol ps rule: validate_template_params.induct)
  case (2 protocol name v ps)
  show ?case
  proof (cases "lookup_param protocol name")
    case (Some p)
    with 2 [OF Some] show ?thesis by (cases "ptier p"; cases "validate_value p v") (simp_all add: settable_lookup [of protocol name v])
  qed (simp add: settable_lookup [of protocol name v])
qed simp

lemma validate_user_overrides_iff:
  "validate_user_overrides protocol ps allow bypass = None \<longleftrightarrow>
    (\<forall>nv \<in> set ps. settable protocol nv \<and> (bypass \<or> fst nv \<in> set allow))"
proof (induction protocol ps allow bypass rule: validate_user_overrides.induct)
  case (2 protocol name v ps allow bypass)
  show ?case
  proof (cases "lookup_param protocol name")
    case (Some p)
    with 2 [OF Some] show ?thesis
      by (cases "ptier p"; cases "validate_value p v"; cases bypass; cases "name \<in> set allow")
        (simp_all add: settable_lookup [of protocol name v])
  qed (simp add: settable_lookup [of protocol name v])
qed simp

definition delegable :: "string \<Rightarrow> string \<Rightarrow> bool" where
  "delegable protocol n \<longleftrightarrow> (\<exists>p. lookup_param protocol n = Some p \<and> ptier p \<noteq> TierPlatform)"

lemma validate_user_param_names_iff:
  "validate_user_param_names protocol names = None \<longleftrightarrow>
    (\<forall>n \<in> set names. case selected_category n of
       Some cat \<Rightarrow> \<exists>c. cat = category_name c | None \<Rightarrow> delegable protocol n)"
proof -
  have known: "known_category c \<longleftrightarrow> (\<exists>k. c = category_name k)" for c
  proof
    assume "\<exists>k. c = category_name k"
    then obtain k where "c = category_name k" ..
    then show "known_category c" by (cases k) (simp_all add: known_category_def all_categories_def)
  qed (auto simp: known_category_def list_ex_iff)
  show ?thesis
  proof (induction protocol names rule: validate_user_param_names.induct)
    case (2 protocol name names)
    show ?case
    proof (cases "selected_category name")
      case None
      with 2 show ?thesis
        by (cases "lookup_param protocol name") (auto simp: delegable_def)
    next
      case (Some cat)
      with 2 show ?thesis by (simp add: known)
    qed
  qed simp
qed

section \<open>Expanding delegations\<close>

lemma set_add_name [simp]: "set (add_name out n) = insert n (set out)"
  by (auto simp: add_name_def)

lemma distinct_add_name [simp]: "distinct (add_name out n) = distinct out"
  by (auto simp: add_name_def)

lemma foldl_add_name:
  "set (foldl add_name out ns) = set out \<union> set ns" "distinct out \<Longrightarrow> distinct (foldl add_name out ns)"
  by (induction ns arbitrary: out) auto

definition expansion :: "string \<Rightarrow> string \<Rightarrow> string set" where
  "expansion protocol entry = (case selected_category entry of
     None \<Rightarrow> {entry}
   | Some cat \<Rightarrow> {n. \<exists>p \<in> set registry. pname p = n \<and> protocol \<in> set (pprotocols p) \<and>
       category_name (pcategory p) = cat \<and> ptier p \<noteq> TierPlatform})"

lemma set_resolve_loop:
  "set (resolve_loop protocol entries out) = set out \<union> (\<Union>e \<in> set entries. expansion protocol e)"
  by (induction protocol entries out rule: resolve_loop.induct)
    (auto simp: expansion_def foldl_add_name(1) split: option.splits)

lemma distinct_resolve_loop: "distinct out \<Longrightarrow> distinct (resolve_loop protocol entries out)"
  by (induction protocol entries out rule: resolve_loop.induct)
    (auto simp: foldl_add_name(2) split: option.splits)

lemma expansion_delegable:
  assumes "case selected_category e of Some cat \<Rightarrow> \<exists>c. cat = category_name c | None \<Rightarrow> delegable protocol e"
    "n \<in> expansion protocol e"
  shows "delegable protocol n"
  using assms by (auto simp: expansion_def delegable_def split: option.splits)

section \<open>Properties\<close>

text \<open>The verdict on user overrides depends on the set of assignments and not on the order the loop visits the map:
  they are accepted exactly when each names a registered parameter of the protocol that is not platform-owned, with a
  value of its kind and bounds, and, unless an administrator asks, inside the template's allow-list.\<close>

lemma user_overrides_accepted:
  "validate_user_overrides protocol ps allow bypass = None \<longleftrightarrow>
    (\<forall>nv \<in> set ps. settable protocol nv \<and> (bypass \<or> fst nv \<in> set allow))"
  by (rule validate_user_overrides_iff)

text \<open>A parameter owned by the platform (host, port, credentials, gateways, file transfer, recording) is set by nobody:
  template parameters and user overrides that hold one are rejected whatever the value, the allow-list and the
  administrator bypass, and it is never among the names a delegation the webhook accepts expands to.\<close>

lemma platform_parameters_closed:
  assumes "p \<in> set registry" "ptier p = TierPlatform" "protocol \<in> set (pprotocols p)"
  shows "((pname p, v) \<in> set ps \<longrightarrow> validate_template_params protocol ps \<noteq> None \<and>
      validate_user_overrides protocol ps allow bypass \<noteq> None) \<and>
    (validate_user_param_names protocol entries = None \<longrightarrow>
      pname p \<notin> set (resolve_user_param_names protocol entries))"
proof -
  have no: "\<not> settable protocol (pname p, v)" "\<not> delegable protocol (pname p)" for v
    using assms by (simp_all add: settable_lookup delegable_def)
  have "pname p \<notin> set (resolve_user_param_names protocol entries)"
    if "validate_user_param_names protocol entries = None"
  proof
    assume "pname p \<in> set (resolve_user_param_names protocol entries)"
    then obtain e where "e \<in> set entries" "pname p \<in> expansion protocol e"
      by (auto simp: resolve_user_param_names_def set_resolve_loop)
    with that expansion_delegable no(2) show False by (auto simp: validate_user_param_names_iff)
  qed
  with no show ?thesis by (auto simp: validate_template_params_iff validate_user_overrides_iff)
qed

text \<open>A delegation the webhook accepted expands, without duplicates, to names every one of which a user may then
  override: any value well formed for the parameter passes the connect-time gate with the expansion as allow-list.\<close>

lemma accepted_delegation_usable:
  assumes "validate_user_param_names protocol entries = None"
  shows "distinct (resolve_user_param_names protocol entries) \<and>
    (\<forall>n \<in> set (resolve_user_param_names protocol entries). \<exists>p. lookup_param protocol n = Some p \<and>
      (\<forall>v. validate_value p v = None \<longrightarrow>
        validate_user_overrides protocol [(n, v)] (resolve_user_param_names protocol entries) False = None))"
proof -
  have "delegable protocol n" if "n \<in> set (resolve_user_param_names protocol entries)" for n
  proof -
    from that obtain e where "e \<in> set entries" "n \<in> expansion protocol e"
      by (auto simp: resolve_user_param_names_def set_resolve_loop)
    with assms expansion_delegable show ?thesis by (auto simp: validate_user_param_names_iff)
  qed
  moreover have "distinct (resolve_user_param_names protocol entries)"
    by (simp add: resolve_user_param_names_def distinct_resolve_loop)
  ultimately show ?thesis by (fastforce simp: delegable_def)
qed

text \<open>A protocol without guacd parameters, kasmvnc among them, is fail-closed: any override is rejected, also an
  administrator's, and a category selector delegates nothing.\<close>

lemma unregistered_protocol_closed:
  assumes "protocol \<notin> {''vnc'', ''rdp'', ''ssh''}" "ps \<noteq> []"
  shows "validate_user_overrides protocol ps allow bypass \<noteq> None \<and> validate_template_params protocol ps \<noteq> None \<and>
    for_protocol protocol = [] \<and> resolve_user_param_names protocol [category_selector_prefix @ c] = []"
proof -
  have none: "protocol \<notin> set (pprotocols p)" if "p \<in> set registry" for p
    using protocol_registered that assms(1) by blast
  then have fp: "for_protocol protocol = []" using set_for_protocol [of protocol] by (metis (no_types, lifting) Collect_empty_eq set_empty)
  have "\<not> settable protocol nv" for nv using none by (auto simp: settable_def)
  with assms(2) fp show ?thesis
    by (cases ps) (auto simp: validate_user_overrides_iff validate_template_params_iff resolve_user_param_names_def
        selected_category_def)
qed

theorem user_overrides_accepted_witness:
  "validate_user_overrides ''vnc'' [(''read-only'', ''true''), (''color-depth'', ''24'')] [''read-only'', ''color-depth''] False = None"
proof -
  let ?ps = "[(''read-only'', ''true''), (''color-depth'', ''24'')]"
  have "list_all (\<lambda>nv. case lookup_param ''vnc'' (fst nv) of None \<Rightarrow> False
      | Some p \<Rightarrow> ptier p \<noteq> TierPlatform \<and> validate_value p (snd nv) = None) ?ps" by code_simp
  then have "\<forall>nv \<in> set ?ps. settable ''vnc'' nv"
    by (auto simp: settable_lookup split: option.splits prod.splits)
  with user_overrides_accepted [of "''vnc''" ?ps "[''read-only'', ''color-depth'']" False] show ?thesis by simp
qed

theorem platform_parameters_closed_witness:
  "validate_user_overrides ''rdp'' [(''read-only'', ''true''), (''hostname'', ''10.0.0.1'')] [''hostname''] True \<noteq> None"
proof -
  have "case lookup_param ''rdp'' ''hostname'' of Some p \<Rightarrow> ptier p = TierPlatform | None \<Rightarrow> False" by code_simp
  then obtain p where p: "lookup_param ''rdp'' ''hostname'' = Some p" "ptier p = TierPlatform"
    by (cases "lookup_param ''rdp'' ''hostname''") simp_all
  with lookup_some [OF p(1)] have "p \<in> set registry" "''rdp'' \<in> set (pprotocols p)" "pname p = ''hostname''" by auto
  with platform_parameters_closed [OF this(1) p(2) this(2), of "''10.0.0.1''"
      "[(''read-only'', ''true''), (''hostname'', ''10.0.0.1'')]" "[''hostname'']" True "[]"] show ?thesis
    by (simp del: validate_user_overrides.simps not_None_eq)
qed

theorem accepted_delegation_usable_witness:
  "distinct (resolve_user_param_names ''vnc'' [''cat:audio'', ''enable-audio''])"
proof -
  have "validate_user_param_names ''vnc'' [''cat:audio'', ''enable-audio''] = None" by code_simp
  from accepted_delegation_usable [OF this] show ?thesis by blast
qed

theorem unregistered_protocol_closed_witness:
  "validate_user_overrides ''kasmvnc'' [(''read-only'', ''true'')] [] True \<noteq> None"
  using unregistered_protocol_closed [of "''kasmvnc''" "[(''read-only'', ''true'')]" "[]" True] by simp

end
