(* ===== verification/Template_Webhook.thy ===== *)
theory Template_Webhook
  imports Api_Types Params Metakeys Naming Schedule
begin

text \<open>
  \<open>operator/internal/webhook/v1alpha1/workspacetemplate_webhook.go\<close>: the admission of workspace
  templates, one check after the other as the code has them. The message of a denial is its
  constructor; the parsers of the cron, YAML and text libraries are parameters.
\<close>

datatype template_denial =
    DeclaredTwice string
  | BadParams string violation
  | BadUserParams string violation
  | KasmOnWindows
  | RdpOnLinux
  | AudioNotVnc string
  | AudioPortCollision string
  | SeveralDefaults
  | KasmNotAlone
  | ConfigWithoutKasm
  | ConfigNotYaml
  | ConfigManagedKeys "string list"
  | BadSchedule schedule_error
  | BadPattern name_error
  | BadMeta string metakey_error

record 'l template_libs =
  tl_text :: text_lib
  tl_cron :: "'l cron_lib"
  tl_yaml :: "string \<Rightarrow> (string \<times> yaml) list option"


section \<open>The checks\<close>

definition check_entry :: "string \<Rightarrow> string set \<Rightarrow> workspace_protocol \<Rightarrow> template_denial option" where
  "check_entry os seen e =
     (if wp_name e \<in> seen then Some (DeclaredTwice (wp_name e))
      else case validate_template_params (wp_name e) (wp_params e) of
        Some x \<Rightarrow> Some (BadParams (wp_name e) x)
      | None \<Rightarrow> (case validate_user_param_names (wp_name e) (wp_user_params e) of
          Some x \<Rightarrow> Some (BadUserParams (wp_name e) x)
        | None \<Rightarrow>
            if wp_name e = ''kasmvnc'' \<and> os = os_windows then Some KasmOnWindows
            else if wp_name e = ''rdp'' \<and> os \<noteq> os_windows then Some RdpOnLinux
            else if wp_expose_audio_port e \<and> wp_name e \<noteq> ''vnc'' then Some (AudioNotVnc (wp_name e))
            else None))"

text \<open>The loop, with the names seen; it ends with all the names.\<close>

fun check_entries :: "string \<Rightarrow> string set \<Rightarrow> workspace_protocol list \<Rightarrow> template_denial + string set" where
  "check_entries os seen [] = Inr seen"
| "check_entries os seen (e # es) =
     (case check_entry os seen e of
        Some d \<Rightarrow> Inl d
      | None \<Rightarrow> check_entries os (insert (wp_name e) seen) es)"

definition first_failure :: "'e option list \<Rightarrow> 'e option" where
  "first_failure xs = (case find (\<lambda>x. x \<noteq> None) xs of Some x \<Rightarrow> x | None \<Rightarrow> None)"

definition fail_if :: "bool \<Rightarrow> 'e \<Rightarrow> 'e option" where
  "fail_if b e = (if b then Some e else None)"

definition meta_check :: "string \<Rightarrow> (string \<times> string) list \<Rightarrow> template_denial option" where
  "meta_check what m = map_option (BadMeta what) (check_meta m)"

definition check_kasm_config :: "'l template_libs \<Rightarrow> string \<Rightarrow> template_denial option" where
  "check_kasm_config libs raw =
     (if raw = [] then None
      else case policy_managed_clipboard_keys (tl_yaml libs) raw of
        None \<Rightarrow> Some ConfigNotYaml
      | Some bad \<Rightarrow> fail_if (bad \<noteq> []) (ConfigManagedKeys bad))"

definition check_placement :: "'l template_libs \<Rightarrow> workspace_placement \<Rightarrow> template_denial option list" where
  "check_placement libs p =
     [if pl_namespace p = [] then None else map_option BadPattern (validate_pattern (tl_text libs) (pl_namespace p)),
      meta_check ''placement.namespaceLabels'' (pl_namespace_labels p),
      meta_check ''placement.namespaceAnnotations'' (pl_namespace_annotations p)]"

definition validate_template :: "'l template_libs \<Rightarrow> template_spec \<Rightarrow> template_denial option" where
  "validate_template libs s =
     (case check_entries (ts_os s) {} (ts_protocols s) of
        Inl d \<Rightarrow> Some d
      | Inr seen \<Rightarrow> first_failure
          ([if audio_port_exposed s
              then map_option (\<lambda>e. AudioPortCollision (wp_name e)) (find (\<lambda>e. wp_port e = pulse_audio_port) (ts_protocols s))
              else None,
            fail_if (1 < length (filter wp_default (ts_protocols s))) SeveralDefaults,
            fail_if (''kasmvnc'' \<in> seen \<and> 1 < card seen) KasmNotAlone,
            fail_if (ts_kasmvnc_config s \<noteq> [] \<and> ''kasmvnc'' \<notin> seen) ConfigWithoutKasm,
            check_kasm_config libs (ts_kasmvnc_config s),
            (case ts_schedule s of
               None \<Rightarrow> None
             | Some sc \<Rightarrow> map_option BadSchedule (validate_schedule (tl_cron libs)
                 \<lparr>timezone = sch_timezone sc, uptime = sch_uptime sc, downtime = sch_downtime sc\<rparr>))] @
           (case ts_placement s of None \<Rightarrow> [] | Some p \<Rightarrow> check_placement libs p) @
           (case ts_workload s of
              None \<Rightarrow> []
            | Some w \<Rightarrow> [meta_check ''workload.labels'' (wl_labels w), meta_check ''workload.annotations'' (wl_annotations w)]) @
           (case ts_home_volume s of
              None \<Rightarrow> []
            | Some hv \<Rightarrow> [meta_check ''homeVolume.labels'' (hv_labels hv), meta_check ''homeVolume.annotations'' (hv_annotations hv)])))"

section \<open>Facts\<close>

lemma first_failure_None: "first_failure xs = None \<longleftrightarrow> (\<forall>x \<in> set xs. x = None)"
  by (auto simp: first_failure_def find_None_iff split: option.splits dest: find_SomeD)

lemma fail_if_None [simp]: "fail_if b e = None \<longleftrightarrow> \<not> b"
  by (simp add: fail_if_def)

definition entry_ok :: "string \<Rightarrow> workspace_protocol \<Rightarrow> bool" where
  "entry_ok os e \<longleftrightarrow> validate_template_params (wp_name e) (wp_params e) = None \<and>
     validate_user_param_names (wp_name e) (wp_user_params e) = None \<and>
     (os = os_windows \<longrightarrow> wp_name e \<noteq> ''kasmvnc'') \<and> (os \<noteq> os_windows \<longrightarrow> wp_name e \<noteq> ''rdp'') \<and>
     (wp_expose_audio_port e \<longrightarrow> wp_name e = ''vnc'')"

lemma check_entry_None: "check_entry os seen e = None \<longleftrightarrow> wp_name e \<notin> seen \<and> entry_ok os e"
  by (auto simp: check_entry_def entry_ok_def split: option.splits)

lemma check_entries_Inr:
  "check_entries os seen es = Inr names \<longleftrightarrow> distinct (map wp_name es) \<and> seen \<inter> wp_name ` set es = {} \<and>
     list_all (entry_ok os) es \<and> names = seen \<union> wp_name ` set es"
proof (induction os seen es rule: check_entries.induct)
  case (2 os seen e es)
  show ?case
  proof (cases "check_entry os seen e")
    case None
    then have ok: "wp_name e \<notin> seen" "entry_ok os e" using check_entry_None [of os seen e] by simp_all
    have step: "check_entries os seen (e # es) = check_entries os (insert (wp_name e) seen) es" by (simp add: None)
    show ?thesis unfolding step 2 [OF None] using ok by auto
  next
    case (Some d)
    then have "\<not> (wp_name e \<notin> seen \<and> entry_ok os e)" using check_entry_None [of os seen e] by simp
    with Some show ?thesis by auto
  qed
qed auto

lemma meta_check_None [simp]: "meta_check what m = None \<longleftrightarrow> check_meta m = None"
  by (simp add: meta_check_def)

lemma validate_template_None:
  assumes "validate_template libs s = None"
  shows "distinct (map wp_name (ts_protocols s))" "list_all (entry_ok (ts_os s)) (ts_protocols s)"
    "audio_port_exposed s \<Longrightarrow> \<forall>e \<in> set (ts_protocols s). wp_port e \<noteq> pulse_audio_port"
    "length (filter wp_default (ts_protocols s)) \<le> 1"
    "''kasmvnc'' \<in> wp_name ` set (ts_protocols s) \<Longrightarrow> card (wp_name ` set (ts_protocols s)) \<le> 1"
    "ts_kasmvnc_config s \<noteq> [] \<Longrightarrow> ''kasmvnc'' \<in> wp_name ` set (ts_protocols s)"
    "check_kasm_config libs (ts_kasmvnc_config s) = None"
    "ts_placement s = Some p \<Longrightarrow> check_meta (pl_namespace_labels p) = None \<and> check_meta (pl_namespace_annotations p) = None \<and>
       (pl_namespace p = [] \<or> validate_pattern (tl_text libs) (pl_namespace p) = None)"
    "ts_workload s = Some w \<Longrightarrow> check_meta (wl_labels w) = None \<and> check_meta (wl_annotations w) = None"
    "ts_home_volume s = Some hv \<Longrightarrow> check_meta (hv_labels hv) = None \<and> check_meta (hv_annotations hv) = None"
proof -
  obtain seen where s: "check_entries (ts_os s) {} (ts_protocols s) = Inr seen"
    using assms by (cases "check_entries (ts_os s) {} (ts_protocols s)") (simp_all add: validate_template_def)
  then have seen: "seen = wp_name ` set (ts_protocols s)" "distinct (map wp_name (ts_protocols s))"
    "list_all (entry_ok (ts_os s)) (ts_protocols s)" by (simp_all add: check_entries_Inr)
  note a = assms [unfolded validate_template_def s sum.case first_failure_None]
  show "distinct (map wp_name (ts_protocols s))" "list_all (entry_ok (ts_os s)) (ts_protocols s)" by (fact seen)+
  show "\<forall>e \<in> set (ts_protocols s). wp_port e \<noteq> pulse_audio_port" if "audio_port_exposed s"
    using a that by (auto simp: find_None_iff)
  show "length (filter wp_default (ts_protocols s)) \<le> 1"
    "''kasmvnc'' \<in> wp_name ` set (ts_protocols s) \<Longrightarrow> card (wp_name ` set (ts_protocols s)) \<le> 1"
    "ts_kasmvnc_config s \<noteq> [] \<Longrightarrow> ''kasmvnc'' \<in> wp_name ` set (ts_protocols s)"
    "check_kasm_config libs (ts_kasmvnc_config s) = None"
    using a by (simp_all add: seen not_less [symmetric])
  show "check_meta (pl_namespace_labels p) = None \<and> check_meta (pl_namespace_annotations p) = None \<and>
      (pl_namespace p = [] \<or> validate_pattern (tl_text libs) (pl_namespace p) = None)" if "ts_placement s = Some p"
    using a that by (simp add: check_placement_def split: if_splits)
  show "check_meta (wl_labels w) = None \<and> check_meta (wl_annotations w) = None" if "ts_workload s = Some w"
    using a that by simp
  show "check_meta (hv_labels hv) = None \<and> check_meta (hv_annotations hv) = None" if "ts_home_volume s = Some hv"
    using a that by simp
qed

section \<open>Properties\<close>

text \<open>A template the webhook admits is coherent: each protocol is declared once and at most one is the default, a
  kasmvnc entry is the only entry, rdp is declared on windows alone and kasmvnc never there, the PulseAudio port
  belongs to nobody else, and no metadata of its namespace, workload or volume is under a reserved domain.\<close>

lemma admitted_template_coherent:
  assumes "validate_template libs s = None"
  shows "distinct (map wp_name (ts_protocols s)) \<and> length (filter wp_default (ts_protocols s)) \<le> 1 \<and>
    (''kasmvnc'' \<in> wp_name ` set (ts_protocols s) \<longrightarrow> length (ts_protocols s) = 1 \<and> ts_os s \<noteq> os_windows) \<and>
    (''rdp'' \<in> wp_name ` set (ts_protocols s) \<longrightarrow> ts_os s = os_windows) \<and>
    (\<forall>e \<in> set (ts_protocols s). wp_expose_audio_port e \<longrightarrow> wp_name e = ''vnc'' \<and>
      (\<forall>e' \<in> set (ts_protocols s). wp_port e' \<noteq> pulse_audio_port)) \<and>
    (\<forall>p. ts_placement s = Some p \<longrightarrow> check_meta (pl_namespace_labels p) = None \<and> check_meta (pl_namespace_annotations p) = None) \<and>
    (\<forall>w. ts_workload s = Some w \<longrightarrow> check_meta (wl_labels w) = None \<and> check_meta (wl_annotations w) = None) \<and>
    (\<forall>hv. ts_home_volume s = Some hv \<longrightarrow> check_meta (hv_labels hv) = None \<and> check_meta (hv_annotations hv) = None)"
proof -
  note v = validate_template_None [OF assms]
  have ok: "entry_ok (ts_os s) e" if "e \<in> set (ts_protocols s)" for e using v(2) that by (simp add: list_all_iff)
  have one: "length (ts_protocols s) = 1" if "''kasmvnc'' \<in> wp_name ` set (ts_protocols s)"
  proof -
    have "card (wp_name ` set (ts_protocols s)) = length (ts_protocols s)"
      using v(1) by (metis distinct_card length_map set_map)
    with v(5) [OF that] that show ?thesis by (cases "ts_protocols s") auto
  qed
  have "audio_port_exposed s" if "e \<in> set (ts_protocols s)" "wp_expose_audio_port e" for e
    using that by (auto simp: audio_port_exposed_def effective_protocols_def list_ex_iff)
  with v(3) ok have audio: "\<forall>e \<in> set (ts_protocols s). wp_expose_audio_port e \<longrightarrow> wp_name e = ''vnc'' \<and>
      (\<forall>e' \<in> set (ts_protocols s). wp_port e' \<noteq> pulse_audio_port)"
    by (auto simp: entry_ok_def)
  have os: "(''kasmvnc'' \<in> wp_name ` set (ts_protocols s) \<longrightarrow> ts_os s \<noteq> os_windows)"
    "(''rdp'' \<in> wp_name ` set (ts_protocols s) \<longrightarrow> ts_os s = os_windows)"
    using ok by (force simp: entry_ok_def)+
  show ?thesis using v(1,4,8,9,10) one audio os by simp
qed

text \<open>What an admitted template gives guacd is its to give: no protocol entry sets a parameter the platform owns, every
  value fits its kind and bounds, and every name its delegations expand to is one a user may override.\<close>

lemma admitted_template_parameters:
  assumes "validate_template libs s = None" "e \<in> set (ts_protocols s)"
  shows "list_all (settable (wp_name e)) (wp_params e) \<and>
    list_all (\<lambda>n. \<exists>p. lookup_param (wp_name e) n = Some p \<and> ptier p \<noteq> TierPlatform)
      (resolve_user_param_names (wp_name e) (wp_user_params e))"
proof -
  have ok: "entry_ok (ts_os s) e" using validate_template_None(2) [OF assms(1)] assms(2) by (simp add: list_all_iff)
  have "delegable (wp_name e) n" if n: "n \<in> set (resolve_user_param_names (wp_name e) (wp_user_params e))" for n
  proof -
    from n obtain x where "x \<in> set (wp_user_params e)" "n \<in> expansion (wp_name e) x"
      by (auto simp: resolve_user_param_names_def set_resolve_loop)
    with ok expansion_delegable show ?thesis by (auto simp: entry_ok_def validate_user_param_names_iff)
  qed
  with ok show ?thesis by (simp add: entry_ok_def validate_template_params_iff list_all_iff delegable_def)
qed

text \<open>A kasmvnc configuration that passes with the YAML library reading it sets none of the keys the platform derives
  from the clipboard policy, and it comes with a kasmvnc protocol entry.\<close>

lemma admitted_template_config:
  assumes "validate_template libs s = None" "trim_space (ts_kasmvnc_config s) \<noteq> []"
  shows "\<exists>root. tl_yaml libs (ts_kasmvnc_config s) = Some root \<and>
    list_all (\<lambda>ks. \<not> has_nested_key root ks) managed_clipboard_key_paths \<and>
    ''kasmvnc'' \<in> wp_name ` set (ts_protocols s)"
proof -
  have ne: "ts_kasmvnc_config s \<noteq> []" using assms(2) by auto
  from validate_template_None(7) [OF assms(1)] ne assms(2) obtain root where
    "tl_yaml libs (ts_kasmvnc_config s) = Some root"
    "filter (has_nested_key root) managed_clipboard_key_paths = []"
    by (auto simp: check_kasm_config_def policy_managed_clipboard_keys_def fail_if_def split: option.splits if_splits)
  with validate_template_None(6) [OF assms(1) ne] show ?thesis
    by (auto simp: filter_empty_conv list_all_iff)
qed

section \<open>Two templates\<close>

definition demo_libs :: "unit template_libs" where
  "demo_libs = \<lparr>tl_text = ascii_lib, tl_cron = office_lib, tl_yaml = (\<lambda>_. Some [(''encoding'', YScalar ''fast'')])\<rparr>"

definition demo_entry :: "string \<Rightarrow> int \<Rightarrow> (string \<times> string) list \<Rightarrow> string list \<Rightarrow> workspace_protocol" where
  "demo_entry n port ps us = \<lparr>wp_name = n, wp_port = port, wp_default = True, wp_params = ps, wp_user_params = us,
     wp_expose_audio_port = False, wp_credentials_secret_ref = []\<rparr>"

definition demo_spec :: "workspace_protocol \<Rightarrow> string \<Rightarrow> template_spec" where
  "demo_spec e config = \<lparr>ts_display_name = ''T'', ts_description = [], ts_logo = [], ts_os = os_linux, ts_image = ''i'', ts_port = 0,
     ts_resources = \<lparr>rr_limits = Map.empty, rr_requests = Map.empty\<rparr>, ts_home_size = None, ts_home_mount_path = [],
     ts_kasmvnc_config = config, ts_storage_class_name = None, ts_env = [], ts_workload = None, ts_home_volume = None,
     ts_protocols = [e], ts_overrides = None, ts_schedule = None, ts_placement = None\<rparr>"

lemma demo_entries_ok:
  "check_entry os_linux {} (demo_entry ''vnc'' 5901 [(''read-only'', ''true'')] [''cat:audio'']) = None"
  "check_entry os_linux {} (demo_entry ''kasmvnc'' 6901 [] []) = None"
  unfolding check_entry_None entry_ok_def demo_entry_def by code_simp+

lemma demo_templates_admitted:
  "validate_template demo_libs (demo_spec (demo_entry ''vnc'' 5901 [(''read-only'', ''true'')] [''cat:audio'']) []) = None"
  "validate_template demo_libs (demo_spec (demo_entry ''kasmvnc'' 6901 [] []) ''encoding: fast'') = None"
proof -
  let ?v = "demo_entry ''vnc'' 5901 [(''read-only'', ''true'')] [''cat:audio'']" and ?k = "demo_entry ''kasmvnc'' 6901 [] []"
  have a: "\<not> audio_port_exposed (demo_spec e c)" if "\<not> wp_expose_audio_port e" for e c
    using that by (simp add: audio_port_exposed_def effective_protocols_def demo_spec_def)
  have k: "check_kasm_config demo_libs ''encoding: fast'' = None"
    by (simp add: check_kasm_config_def policy_managed_clipboard_keys_def demo_libs_def managed_clipboard_key_paths_def)
  show "validate_template demo_libs (demo_spec ?v []) = None"
    using demo_entries_ok(1) a [of ?v]
    by (simp add: validate_template_def first_failure_None check_kasm_config_def)
      (simp add: demo_spec_def demo_entry_def first_failure_None check_kasm_config_def)
  show "validate_template demo_libs (demo_spec ?k ''encoding: fast'') = None"
    using demo_entries_ok(2) a [of ?k] k
    by (simp add: validate_template_def first_failure_None)
      (simp add: demo_spec_def demo_entry_def first_failure_None)
qed

theorem admitted_template_coherent_witness:
  "let s = demo_spec (demo_entry ''kasmvnc'' 6901 [] []) ''encoding: fast'' in length (ts_protocols s) = 1 \<and> ts_os s \<noteq> os_windows"
  using admitted_template_coherent [OF demo_templates_admitted(2)] by (simp add: demo_spec_def demo_entry_def)

theorem admitted_template_parameters_witness: "settable ''vnc'' (''read-only'', ''true'')"
  using admitted_template_parameters [OF demo_templates_admitted(1), of "demo_entry ''vnc'' 5901 [(''read-only'', ''true'')] [''cat:audio'']"]
  by (simp add: demo_spec_def demo_entry_def)

theorem admitted_template_config_witness:
  "\<exists>root. tl_yaml demo_libs ''encoding: fast'' = Some root \<and> list_all (\<lambda>ks. \<not> has_nested_key root ks) managed_clipboard_key_paths"
proof -
  have "ts_kasmvnc_config (demo_spec (demo_entry ''kasmvnc'' 6901 [] []) ''encoding: fast'') = ''encoding: fast''"
    by (simp add: demo_spec_def)
  moreover have "trim_space ''encoding: fast'' \<noteq> []" by (simp add: trim_space_ascii is_space_rune_def)
  ultimately show ?thesis using admitted_template_config [OF demo_templates_admitted(2)] by auto
qed

end
