(* ===== verification/Namespaces.thy ===== *)
theory Namespaces
  imports Workspace_Status
begin

text \<open>
  Where workloads are placed, in the operator: the bootstrap of a target namespace (\<open>placement.go\<close>), the
  rules of its network policy (\<open>desktopEgressRules\<close> of \<open>desktop_egress.go\<close>), and the janitor that reclaims
  empty namespaces (\<open>namespace_janitor.go\<close>), over stores of namespaces, quotas and network policies. What a
  list call returns is a parameter. The inventory of kinds is that of \<open>api/v1alpha1/managed.go\<close>.
\<close>

section \<open>Objects\<close>

definition label_cleanup :: string where "label_cleanup = ''waas.xorhub.io/cleanup''"
definition cleanup_delete_when_empty :: string where "cleanup_delete_when_empty = ''DeleteWhenEmpty''"
definition netpol_name :: string where "netpol_name = ''waas-default-ingress''"
definition quota_name :: string where "quota_name = ''waas-quota''"

record desktop_egress_config =
  de_enabled :: bool
  de_allow_internet :: bool
  de_blocked :: "string list"
  de_extra :: "string list"

text \<open>The types of the network policy API: a label selector (the empty one selects everything), a peer, a port and a rule
  of either direction. A nil map or slice is the empty one, as the semantic comparison of the code has it.\<close>

record label_selector =
  sl_labels :: "string \<rightharpoonup> string"
  sl_expressions :: "(string \<times> string \<times> string list) list"

definition every_label :: label_selector where
  "every_label = \<lparr>sl_labels = Map.empty, sl_expressions = []\<rparr>"

record network_peer =
  pe_pods :: "label_selector option"
  pe_namespaces :: "label_selector option"
  pe_block :: "(string \<times> string list) option"

datatype int_or_string = IntPort int | NamedPort string

record network_port =
  pt_protocol :: "string option"
  pt_port :: "int_or_string option"
  pt_end :: "int option"

record network_rule =
  ru_peers :: "network_peer list"
  ru_ports :: "network_port list"

definition port_rule :: "(string \<times> int) list \<Rightarrow> network_rule" where
  "port_rule ports = \<lparr>ru_peers = [],
     ru_ports = map (\<lambda>(proto, n). \<lparr>pt_protocol = Some proto, pt_port = Some (IntPort n), pt_end = None\<rparr>) ports\<rparr>"

definition block_rule :: "string \<Rightarrow> string list \<Rightarrow> network_rule" where
  "block_rule cidr except = \<lparr>ru_peers = [\<lparr>pe_pods = None, pe_namespaces = None, pe_block = Some (cidr, except)\<rparr>], ru_ports = []\<rparr>"

lemma rules_distinct [simp]:
  "block_rule c e = block_rule c' e' \<longleftrightarrow> c = c' \<and> e = e'" "block_rule c e \<noteq> port_rule ps"
  by (simp_all add: block_rule_def port_rule_def)

definition desktop_egress_rules :: "desktop_egress_config \<Rightarrow> network_rule list" where
  "desktop_egress_rules cfg =
     [port_rule [(''UDP'', 53), (''TCP'', 53)]] @
     (if de_allow_internet cfg then [block_rule ''0.0.0.0/0'' (de_blocked cfg)] else []) @
     map (\<lambda>c. block_rule c []) (de_extra cfg)"

record policy_spec =
  nps_pods :: label_selector
  nps_types :: "string list"
  nps_ingress :: "network_rule list"
  nps_egress :: "network_rule list"

record network_policy =
  np_meta :: object_meta
  np_spec :: policy_spec

record resource_quota =
  qt_meta :: object_meta
  qt_hard :: "(string \<times> quantity) list"

record namespace_world =
  nw_namespaces :: "object_meta store"
  nw_quotas :: "resource_quota store"
  nw_policies :: "network_policy store"

record namespace_calls =
  nc_namespace :: "object_meta api"
  nc_quota :: "resource_quota api"
  nc_policy :: "network_policy api"

record placement_config =
  plc_platform :: string
  plc_egress :: desktop_egress_config
  plc_text :: text_lib

datatype namespace_error =
    FetchNamespaceFailed string
  | CreateNamespaceFailed string
  | StampCleanupFailed string
  | CreateQuotaFailed string
  | FetchPolicyFailed string
  | CreatePolicyFailed string
  | HealPolicyFailed string

datatype namespace_event =
    NamespaceCreated string
  | NamespacePolicyHealed string "string list"

definition namespace_key :: "string \<Rightarrow> object_key" where "namespace_key n = ([], n)"

section \<open>Bootstrap\<close>

definition workspace_owner_labels :: "workspace \<Rightarrow> (string \<times> string) list" where
  "workspace_owner_labels ws = [(label_managed_by, manager_name), (label_owner, sp_owner (ws_spec ws))]"

definition is_personal_namespace :: "text_lib \<Rightarrow> workspace \<Rightarrow> bool" where
  "is_personal_namespace lib ws \<longleftrightarrow>
     (let username = ws_annotation ws annotation_username in
      if username = [] then False
      else is_personal_namespace_of lib username (sp_owner (ws_spec ws)) (effective_target_namespace ws))"

definition hard_limit :: "string list \<Rightarrow> quantity option \<Rightarrow> (string \<times> quantity) list" where
  "hard_limit names q = (case q of None \<Rightarrow> [] | Some v \<Rightarrow> map (\<lambda>n. (n, v)) names)"

text \<open>The policies of the namespace, or nothing when the list fails; the empty list is no quota.\<close>

definition namespace_quota :: "workspace_policy list option \<Rightarrow> workspace \<Rightarrow> (string \<times> quantity) list" where
  "namespace_quota policies ws =
     (case policies of
        None \<Rightarrow> []
      | Some ps \<Rightarrow> (case resolve_policy ps (identity_of ws) of
          Inl _ \<Rightarrow> []
        | Inr (pol, _) \<Rightarrow> (case lm_aggregate (po_limits pol) of
            None \<Rightarrow> []
          | Some agg \<Rightarrow>
              hard_limit [''requests.cpu'', ''limits.cpu''] (ag_cpu agg) @
              hard_limit [''requests.memory'', ''limits.memory''] (ag_memory agg) @
              hard_limit [''requests.storage''] (ag_storage agg))))"

definition namespace_peer :: "string \<Rightarrow> network_peer" where
  "namespace_peer n = \<lparr>pe_pods = None,
     pe_namespaces = Some \<lparr>sl_labels = [''kubernetes.io/metadata.name'' \<mapsto> n], sl_expressions = []\<rparr>, pe_block = None\<rparr>"

definition policy_peers :: "placement_config \<Rightarrow> workspace \<Rightarrow> string list" where
  "policy_peers cfg ws =
     (let ns = md_namespace (ws_meta ws); p = plc_platform cfg in ns # (if p \<noteq> [] \<and> p \<noteq> ns then [p] else []))"

definition desired_policy :: "placement_config \<Rightarrow> workspace \<Rightarrow> policy_spec" where
  "desired_policy cfg ws =
     (let desired = \<lparr>nps_pods = every_label, nps_types = [''Ingress''],
            nps_ingress = [\<lparr>ru_peers = map namespace_peer (policy_peers cfg ws), ru_ports = []\<rparr>], nps_egress = []\<rparr>
      in if de_enabled (plc_egress cfg)
         then desired\<lparr>nps_types := nps_types desired @ [''Egress''], nps_egress := desktop_egress_rules (plc_egress cfg)\<rparr>
         else desired)"

definition bootstrap_meta :: "workspace \<Rightarrow> string \<Rightarrow> string \<Rightarrow> object_meta" where
  "bootstrap_meta ws name ns = \<lparr>md_name = name, md_namespace = ns, md_uid = [], md_labels = map_of (workspace_owner_labels ws),
     md_annotations = Map.empty, md_deleted = False, md_created = 0\<rparr>"

definition ensure_namespace_policy ::
  "network_policy api \<Rightarrow> placement_config \<Rightarrow> workspace \<Rightarrow> string \<Rightarrow> network_policy store
     \<Rightarrow> (namespace_error + namespace_event list) \<times> network_policy store" where
  "ensure_namespace_policy c cfg ws name st =
     (let key = (name, netpol_name); desired = desired_policy cfg ws in
      case kube_get c st key of
        Missing \<Rightarrow> (case kube_create c st key \<lparr>np_meta = bootstrap_meta ws netpol_name name, np_spec = desired\<rparr> of
          (r, st') \<Rightarrow> (if created_or_there r then Inr [] else Inl (CreatePolicyFailed name), st'))
      | Failed \<Rightarrow> (Inl (FetchPolicyFailed name), st)
      | Found np \<Rightarrow>
          if label_of (np_meta np) label_managed_by \<noteq> manager_name then (Inr [], st)
          else if np_spec np = desired then (Inr [], st)
          else (case kube_update c st key (np\<lparr>np_spec := desired\<rparr>) of
            (r, st') \<Rightarrow> (if r = Done then Inr [NamespacePolicyHealed name (policy_peers cfg ws)] else Inl (HealPolicyFailed name), st')))"

definition ensure_cleanup_label ::
  "object_meta api \<Rightarrow> template_spec \<Rightarrow> string \<Rightarrow> object_meta \<Rightarrow> object_meta store \<Rightarrow> bool \<times> object_meta store" where
  "ensure_cleanup_label c s name ns st =
     (if label_of ns label_managed_by \<noteq> manager_name \<or> label_of ns label_cleanup \<noteq> [] then (True, st)
      else case kube_update c st (namespace_key name)
          (ns\<lparr>md_labels := (md_labels ns)(label_cleanup \<mapsto> cleanup_policy_or_default s)\<rparr>) of
        (r, st') \<Rightarrow> (r = Done, st'))"

definition bootstrap_namespace ::
  "namespace_calls \<Rightarrow> placement_config \<Rightarrow> workspace_policy list option \<Rightarrow> workspace \<Rightarrow> string \<Rightarrow> namespace_world
     \<Rightarrow> (namespace_error + namespace_event list) \<times> namespace_world" where
  "bootstrap_namespace cs cfg policies ws name w =
     (let hard = namespace_quota policies ws in
      case (if hard \<noteq> [] \<and> is_personal_namespace (plc_text cfg) ws
            then kube_create (nc_quota cs) (nw_quotas w) (name, quota_name) \<lparr>qt_meta = bootstrap_meta ws quota_name name, qt_hard = hard\<rparr>
            else (Done, nw_quotas w)) of
        (r, quotas) \<Rightarrow>
          if \<not> created_or_there r then (Inl (CreateQuotaFailed name), w\<lparr>nw_quotas := quotas\<rparr>)
          else (case ensure_namespace_policy (nc_policy cs) cfg ws name (nw_policies w) of
            (res, policies') \<Rightarrow> (res, w\<lparr>nw_quotas := quotas, nw_policies := policies'\<rparr>)))"

definition platform_namespace_labels :: "placement_config \<Rightarrow> workspace \<Rightarrow> template_spec \<Rightarrow> (string \<times> string) list" where
  "platform_namespace_labels cfg ws s =
     [(label_managed_by, manager_name), (label_cleanup, cleanup_policy_or_default s),
      (''pod-security.kubernetes.io/enforce'', ''baseline''), (''pod-security.kubernetes.io/warn'', ''restricted'')] @
     (if is_personal_namespace (plc_text cfg) ws then [(label_owner, sp_owner (ws_spec ws))] else [])"

definition new_namespace :: "placement_config \<Rightarrow> workspace \<Rightarrow> template_spec \<Rightarrow> string \<Rightarrow> object_meta" where
  "new_namespace cfg ws s name =
     (let (labels, anns) = (case ts_placement s of None \<Rightarrow> ([], []) | Some p \<Rightarrow> (pl_namespace_labels p, pl_namespace_annotations p)) in
      \<lparr>md_name = name, md_namespace = [], md_uid = [], md_labels = merge_allowed labels (platform_namespace_labels cfg ws s),
       md_annotations = merge_allowed anns [], md_deleted = False, md_created = 0\<rparr>)"

definition ensure_namespace ::
  "namespace_calls \<Rightarrow> placement_config \<Rightarrow> workspace_policy list option \<Rightarrow> workspace \<Rightarrow> template_spec \<Rightarrow> namespace_world
     \<Rightarrow> (namespace_error + namespace_event list) \<times> namespace_world" where
  "ensure_namespace cs cfg policies ws s w =
     (let name = effective_target_namespace ws in
      if name = md_namespace (ws_meta ws) then (Inr [], w)
      else case kube_get (nc_namespace cs) (nw_namespaces w) (namespace_key name) of
        Failed \<Rightarrow> (Inl (FetchNamespaceFailed name), w)
      | Found ns \<Rightarrow>
          (case ensure_cleanup_label (nc_namespace cs) s name ns (nw_namespaces w) of
             (ok, nss) \<Rightarrow>
               if \<not> ok then (Inl (StampCleanupFailed name), w\<lparr>nw_namespaces := nss\<rparr>)
               else (case ensure_namespace_policy (nc_policy cs) cfg ws name (nw_policies w) of
                 (res, ps) \<Rightarrow> (res, w\<lparr>nw_namespaces := nss, nw_policies := ps\<rparr>)))
      | Missing \<Rightarrow>
          (case kube_create (nc_namespace cs) (nw_namespaces w) (namespace_key name) (new_namespace cfg ws s name) of
             (r, nss) \<Rightarrow>
               if \<not> created_or_there r then (Inl (CreateNamespaceFailed name), w\<lparr>nw_namespaces := nss\<rparr>)
               else (case bootstrap_namespace cs cfg policies ws name (w\<lparr>nw_namespaces := nss\<rparr>) of
                 (Inl e, w') \<Rightarrow> (Inl e, w')
               | (Inr evs, w') \<Rightarrow> (Inr (NamespaceCreated name # evs), w'))))"

section \<open>The janitor\<close>

definition workspace_content_kinds :: "string list" where
  "workspace_content_kinds = [''Deployment'', ''StatefulSet'', ''Pod'', ''Service'', ''PersistentVolumeClaim'', ''Secret'', ''ConfigMap'',
     ''VirtualMachine'']"

definition namespace_bootstrap_kinds :: "string list" where
  "namespace_bootstrap_kinds = [''ResourceQuota'', ''NetworkPolicy'']"

definition managed_namespaced_kinds :: "string list" where
  "managed_namespaced_kinds = workspace_content_kinds @ namespace_bootstrap_kinds"

text \<open>A list call by kind and namespace: the objects, a kind the server does not know, or an error.\<close>

datatype listing = Listed "object_meta list" | NoKind | ListFailed

definition counts_as_content :: "string \<Rightarrow> object_meta \<Rightarrow> bool" where
  "counts_as_content kind m \<longleftrightarrow>
     label_of m label_managed_by = manager_name \<and> \<not> (kind = ''Secret'' \<and> label_of m label_pull_secret = ''true'')"

fun no_content :: "(string \<Rightarrow> listing) \<Rightarrow> string list \<Rightarrow> unit + bool" where
  "no_content ls [] = Inr True"
| "no_content ls (kind # kinds) =
     (case ls kind of
        NoKind \<Rightarrow> no_content ls kinds
      | ListFailed \<Rightarrow> Inl ()
      | Listed objs \<Rightarrow> if list_ex (counts_as_content kind) objs then Inr False else no_content ls kinds)"

definition namespace_is_empty :: "workspace list option \<Rightarrow> (string \<Rightarrow> string \<Rightarrow> listing) \<Rightarrow> string \<Rightarrow> unit + bool" where
  "namespace_is_empty workspaces lister name =
     (case workspaces of
        None \<Rightarrow> Inl ()
      | Some wss \<Rightarrow>
         if list_ex (\<lambda>ws. effective_target_namespace ws = name) wss then Inr False
         else no_content (lister name) workspace_content_kinds)"

datatype janitor_error = JanitorFetchFailed | EvaluationFailed string | ReclaimFailed string

definition janitor_reconcile ::
  "object_meta api \<Rightarrow> workspace list option \<Rightarrow> (string \<Rightarrow> string \<Rightarrow> listing) \<Rightarrow> string \<Rightarrow> object_meta store
     \<Rightarrow> (janitor_error + bool) \<times> object_meta store" where
  "janitor_reconcile c workspaces lister name st =
     (case kube_get c st (namespace_key name) of
        Missing \<Rightarrow> (Inr False, st)
      | Failed \<Rightarrow> (Inl JanitorFetchFailed, st)
      | Found ns \<Rightarrow>
          if md_deleted ns then (Inr False, st)
          else if label_of ns label_managed_by \<noteq> manager_name \<or> label_of ns label_cleanup \<noteq> cleanup_delete_when_empty then (Inr False, st)
          else (case namespace_is_empty workspaces lister (md_name ns) of
            Inl _ \<Rightarrow> (Inl (EvaluationFailed (md_name ns)), st)
          | Inr False \<Rightarrow> (Inr False, st)
          | Inr True \<Rightarrow> (case kube_delete c st (namespace_key name) of
              (r, st') \<Rightarrow> (if deleted_or_gone r then Inr True else Inl (ReclaimFailed (md_name ns)), st'))))"

section \<open>Facts on the network policy\<close>

definition policy_settled :: "placement_config \<Rightarrow> workspace \<Rightarrow> string \<Rightarrow> network_policy store \<Rightarrow> bool" where
  "policy_settled cfg ws name st \<longleftrightarrow>
     (case st (name, netpol_name) of
        None \<Rightarrow> False
      | Some np \<Rightarrow> label_of (np_meta np) label_managed_by \<noteq> manager_name \<or> np_spec np = desired_policy cfg ws)"

lemma ensure_namespace_policy_settles:
  "quiet c \<Longrightarrow> ensure_namespace_policy c cfg ws name st = (Inr evs, st') \<Longrightarrow> policy_settled cfg ws name st'"
  by (auto simp: ensure_namespace_policy_def policy_settled_def Let_def kube_simps kube_create_def kube_update_def quiet_def
      split: fetched.splits if_splits prod.splits)

interpretation policy: convergent_step "\<lambda>c. ensure_namespace_policy c cfg ws name" quiet "policy_settled cfg ws name"
proof
  fix c st r st'
  assume "quiet c" "ensure_namespace_policy c cfg ws name st = (Inr r, st')"
  then show "policy_settled cfg ws name st'" by (rule ensure_namespace_policy_settles)
next
  fix c st
  assume "policy_settled cfg ws name st"
  then show "snd (ensure_namespace_policy c cfg ws name st) = st"
    by (auto simp: ensure_namespace_policy_def policy_settled_def Let_def kube_get_def split: fetched.split option.splits)
qed

lemma bootstrap_namespace_policy:
  assumes "bootstrap_namespace cs cfg policies ws name w = (Inr evs, w')" "quiet (nc_policy cs)"
  shows "policy_settled cfg ws name (nw_policies w') \<and> nw_namespaces w' = nw_namespaces w"
  using assms
  by (auto simp: bootstrap_namespace_def Let_def split: prod.splits if_splits intro: ensure_namespace_policy_settles)

lemma ensure_cleanup_label_at:
  assumes "ensure_cleanup_label c s name ns st = (ok, st')" "st (namespace_key name) = Some ns"
  shows "\<exists>ns'. st' (namespace_key name) = Some ns' \<and>
    ns' \<in> {ns, ns\<lparr>md_labels := (md_labels ns)(label_cleanup \<mapsto> cleanup_policy_or_default s)\<rparr>} \<and>
    (label_of ns label_managed_by \<noteq> manager_name \<or> label_of ns label_cleanup \<noteq> [] \<longrightarrow> ns' = ns)"
    "key \<noteq> namespace_key name \<Longrightarrow> st' key = st key"
  using assms by (auto simp: ensure_cleanup_label_def kube_update_def split: if_splits option.splits)

lemma desired_policy_guards:
  "sl_labels (nps_pods (desired_policy cfg ws)) = Map.empty" "sl_expressions (nps_pods (desired_policy cfg ws)) = []"
  "''Ingress'' \<in> set (nps_types (desired_policy cfg ws))"
  "\<exists>peers. nps_ingress (desired_policy cfg ws) = [\<lparr>ru_peers = peers, ru_ports = []\<rparr>] \<and>
     set peers = {\<lparr>pe_pods = None, pe_namespaces = Some \<lparr>sl_labels = [''kubernetes.io/metadata.name'' \<mapsto> n],
       sl_expressions = []\<rparr>, pe_block = None\<rparr> | n. n = md_namespace (ws_meta ws) \<or> n = plc_platform cfg \<and> n \<noteq> []}"
  "''Egress'' \<in> set (nps_types (desired_policy cfg ws)) \<longleftrightarrow> de_enabled (plc_egress cfg)"
  "set (nps_egress (desired_policy cfg ws)) =
     (if \<not> de_enabled (plc_egress cfg) then {}
      else {port_rule [(''UDP'', 53), (''TCP'', 53)]} \<union>
        (if de_allow_internet (plc_egress cfg) then {block_rule ''0.0.0.0/0'' (de_blocked (plc_egress cfg))} else {}) \<union>
        {block_rule c [] | c. c \<in> set (de_extra (plc_egress cfg))})"
  by (auto simp: desired_policy_def every_label_def policy_peers_def namespace_peer_def desktop_egress_rules_def Let_def)

text \<open>C21: A desktop's namespace is never open. When a pass over the target namespace of a placed workspace succeeds and
  nobody else created the namespace or the policy between the pass's read and its write, the namespace exists
  and holds the default network policy, whatever was there before: unless an administrator took the policy over
  by removing the operator's label, it selects every pod of the namespace, and it has one ingress rule, which
  admits exactly the namespace of the workspace and the platform's. With egress enabled it also restricts egress
  to DNS, the internet minus the blocked ranges where that is configured, and the extra ranges; without, it says
  nothing of egress.
\<close>

theorem placed_namespace_guarded:
  assumes "effective_target_namespace ws \<noteq> md_namespace (ws_meta ws)" "quiet (nc_policy cs)" "quiet (nc_namespace cs)"
    "ensure_namespace cs cfg policies ws s w = (Inr evs, w')"
  shows "nw_namespaces w' (namespace_key (effective_target_namespace ws)) \<noteq> None \<and>
    (\<exists>np. nw_policies w' (effective_target_namespace ws, ''waas-default-ingress'') = Some np \<and>
      (label_of (np_meta np) label_managed_by \<noteq> manager_name \<or>
       sl_labels (nps_pods (np_spec np)) = Map.empty \<and> sl_expressions (nps_pods (np_spec np)) = [] \<and>
       ''Ingress'' \<in> set (nps_types (np_spec np)) \<and>
       (\<exists>peers. nps_ingress (np_spec np) = [\<lparr>ru_peers = peers, ru_ports = []\<rparr>] \<and>
          set peers = {\<lparr>pe_pods = None, pe_namespaces = Some \<lparr>sl_labels = [''kubernetes.io/metadata.name'' \<mapsto> n],
              sl_expressions = []\<rparr>, pe_block = None\<rparr> | n. n = md_namespace (ws_meta ws) \<or> n = plc_platform cfg \<and> n \<noteq> []}) \<and>
       (''Egress'' \<in> set (nps_types (np_spec np)) \<longleftrightarrow> de_enabled (plc_egress cfg)) \<and>
       set (nps_egress (np_spec np)) =
         (if \<not> de_enabled (plc_egress cfg) then {}
          else {port_rule [(''UDP'', 53), (''TCP'', 53)]} \<union>
            (if de_allow_internet (plc_egress cfg) then {block_rule ''0.0.0.0/0'' (de_blocked (plc_egress cfg))} else {}) \<union>
            {block_rule c [] | c. c \<in> set (de_extra (plc_egress cfg))})))"
proof -
  let ?n = "effective_target_namespace ws"
  have "nw_namespaces w' (namespace_key ?n) \<noteq> None \<and> policy_settled cfg ws ?n (nw_policies w')"
  proof (cases "kube_get (nc_namespace cs) (nw_namespaces w) (namespace_key ?n)")
    case (Found ns)
    then have ns: "nw_namespaces w (namespace_key ?n) = Some ns" by (simp add: kube_simps)
    obtain ok nss where l: "ensure_cleanup_label (nc_namespace cs) s ?n ns (nw_namespaces w) = (ok, nss)" by fastforce
    obtain res ps where p: "ensure_namespace_policy (nc_policy cs) cfg ws ?n (nw_policies w) = (res, ps)" by fastforce
    have ok and res: "res = Inr evs" "w' = w\<lparr>nw_namespaces := nss, nw_policies := ps\<rparr>"
      using assms(1,4) Found l p by (auto simp: ensure_namespace_def Let_def split: if_splits)
    with ensure_cleanup_label_at(1) [OF l ns] ensure_namespace_policy_settles [OF assms(2)] p show ?thesis by auto
  next
    case Missing
    obtain r nss where c: "kube_create (nc_namespace cs) (nw_namespaces w) (namespace_key ?n) (new_namespace cfg ws s ?n) = (r, nss)"
      by fastforce
    with assms(1,4) Missing have r: "created_or_there r" by (auto simp: ensure_namespace_def Let_def split: if_splits)
    from assms(1,4) Missing c r obtain evs' where b: "bootstrap_namespace cs cfg policies ws ?n (w\<lparr>nw_namespaces := nss\<rparr>) = (Inr evs', w')"
      by (auto simp: ensure_namespace_def Let_def split: prod.splits sum.splits)
    have "nss (namespace_key ?n) \<noteq> None"
      using kube_create_at [OF c r assms(3)] Missing by (auto simp: kube_simps)
    with bootstrap_namespace_policy [OF b assms(2)] show ?thesis by simp
  next
    case Failed
    with assms(1,4) show ?thesis by (auto simp: ensure_namespace_def Let_def)
  qed
  then obtain np where w': "nw_namespaces w' (namespace_key ?n) \<noteq> None" "nw_policies w' (?n, ''waas-default-ingress'') = Some np"
    "label_of (np_meta np) label_managed_by \<noteq> manager_name \<or> np_spec np = desired_policy cfg ws"
    by (auto simp: policy_settled_def netpol_name_def split: option.splits)
  then show ?thesis using desired_policy_guards [of cfg ws] by (elim disjE) auto
qed

text \<open>A namespace belongs to a user only if it is that user's own. The owner label of a namespace the operator
  creates, which is the proof of ownership admission relies on, is the owner of the workspace when the
  namespace is the one derived from the owner's name, and absent otherwise, whatever labels the template asks
  for; and the cleanup policy is frozen from the template.
\<close>

lemma owner_label_only_on_personal:
  "md_labels (new_namespace cfg ws s name) label_owner =
     (if is_personal_namespace (plc_text cfg) ws then Some (sp_owner (ws_spec ws)) else None) \<and>
   md_labels (new_namespace cfg ws s name) label_managed_by = Some manager_name \<and>
   md_labels (new_namespace cfg ws s name) label_cleanup = Some (cleanup_policy_or_default s)"
proof -
  have cleanup: "check_key label_cleanup \<noteq> None"
    by (simp add: label_cleanup_def check_key_def domain_denied_def denied_domains_def has_suffix_def)
  have filtered: "map_of (rev (filter (\<lambda>kv. check_key (fst kv) = None) user)) k = None" if "check_key k \<noteq> None" for k user
    using that by (auto simp: map_of_eq_None_iff)
  have "check_key label_owner \<noteq> None" using platform_keys_denied by simp
  with filtered [of label_owner] show ?thesis
    by (auto simp: new_namespace_def merge_allowed_map platform_namespace_labels_def label_names label_cleanup_def map_add_def
        split: prod.split option.split)
qed

section \<open>Facts on the quota\<close>

record namespace_pass =
  na_calls :: namespace_calls
  na_config :: placement_config
  na_policies :: "workspace_policy list option"
  na_workspace :: workspace
  na_spec :: template_spec

definition namespace_step :: "namespace_pass \<Rightarrow> namespace_world \<Rightarrow> (namespace_error + namespace_event list) \<times> namespace_world" where
  "namespace_step p = ensure_namespace (na_calls p) (na_config p) (na_policies p) (na_workspace p) (na_spec p)"

text \<open>Once the namespace exists, a pass for it writes no quota and at most fills its cleanup label.\<close>

lemma existing_namespace_step:
  assumes "nw_namespaces w (namespace_key name) = Some ns" "effective_target_namespace (na_workspace p) = name"
  shows "nw_quotas (snd (namespace_step p w)) = nw_quotas w \<and>
    (\<exists>ns'. nw_namespaces (snd (namespace_step p w)) (namespace_key name) = Some ns' \<and>
       (ns' = ns \<or> (label_of ns label_managed_by = manager_name \<and> label_of ns label_cleanup = [] \<and>
          ns' = ns\<lparr>md_labels := (md_labels ns)(label_cleanup \<mapsto> cleanup_policy_or_default (na_spec p))\<rparr>)))"
proof (cases "name = md_namespace (ws_meta (na_workspace p)) \<or> \<not> on_get (nc_namespace (na_calls p))")
  case True
  with assms show ?thesis
    by (auto simp: namespace_step_def ensure_namespace_def Let_def kube_get_def)
next
  case False
  obtain ok nss where l: "ensure_cleanup_label (nc_namespace (na_calls p)) (na_spec p) name ns (nw_namespaces w) = (ok, nss)" by fastforce
  obtain res ps where p: "ensure_namespace_policy (nc_policy (na_calls p)) (na_config p) (na_workspace p) name (nw_policies w) = (res, ps)"
    by fastforce
  have "snd (namespace_step p w) = (if ok then w\<lparr>nw_namespaces := nss, nw_policies := ps\<rparr> else w\<lparr>nw_namespaces := nss\<rparr>)"
    using False assms l p by (auto simp: namespace_step_def ensure_namespace_def Let_def kube_get_def)
  with ensure_cleanup_label_at(1) [OF l assms(1)] show ?thesis by auto
qed

text \<open>A quota missed at creation is missed for good. The resource quota of a personal namespace is written in the
  pass that creates the namespace and in no other: if that pass fails at the quota, the namespace exists
  without one, and no later pass for that namespace, however it goes and whatever the policies say, creates it.
\<close>

lemma missed_quota_never_created:
  assumes "effective_target_namespace ws = name"
    "ensure_namespace cs cfg policies ws s w = (Inl (CreateQuotaFailed name), w1)" "quiet (nc_namespace cs)"
    "list_all (\<lambda>p. effective_target_namespace (na_workspace p) = name) ps"
  shows "nw_namespaces w1 (namespace_key name) \<noteq> None \<and> nw_quotas (passes namespace_step ps w1) = nw_quotas w"
proof -
  have keep: "nw_quotas (passes namespace_step ps v) = nw_quotas v"
    if "nw_namespaces v (namespace_key name) \<noteq> None" "list_all (\<lambda>p. effective_target_namespace (na_workspace p) = name) ps" for v
    using that
  proof (induction ps arbitrary: v)
    case (Cons p ps)
    then obtain ns where "nw_namespaces v (namespace_key name) = Some ns" by auto
    with existing_namespace_step [of v name ns p] Cons.prems
    have "nw_quotas (snd (namespace_step p v)) = nw_quotas v" "nw_namespaces (snd (namespace_step p v)) (namespace_key name) \<noteq> None"
      by auto
    with Cons show ?case by simp
  qed simp
  have heal: "ensure_namespace_policy c cfg ws n st \<noteq> (Inl (CreateQuotaFailed m), st')" for c n m st st'
    by (auto simp: ensure_namespace_policy_def Let_def split: fetched.split prod.split)
  have miss: "kube_get (nc_namespace cs) (nw_namespaces w) (namespace_key name) = Missing"
    using assms(1,2) heal
    by (cases "kube_get (nc_namespace cs) (nw_namespaces w) (namespace_key name)")
      (auto simp: ensure_namespace_def Let_def split: prod.splits if_splits)
  obtain r nss where c: "kube_create (nc_namespace cs) (nw_namespaces w) (namespace_key name) (new_namespace cfg ws s name) = (r, nss)"
    by fastforce
  with assms(1,2) miss have r: "created_or_there r" by (auto simp: ensure_namespace_def Let_def split: if_splits)
  from assms(1,2) miss c r have b: "bootstrap_namespace cs cfg policies ws name (w\<lparr>nw_namespaces := nss\<rparr>) = (Inl (CreateQuotaFailed name), w1)"
    by (auto simp: ensure_namespace_def Let_def split: prod.splits sum.splits if_splits)
  obtain q quotas where k: "(if namespace_quota policies ws \<noteq> [] \<and> is_personal_namespace (plc_text cfg) ws
       then kube_create (nc_quota cs) (nw_quotas w) (name, quota_name)
         \<lparr>qt_meta = bootstrap_meta ws quota_name name, qt_hard = namespace_quota policies ws\<rparr>
       else (Done, nw_quotas w)) = (q, quotas)" by fastforce
  have q: "\<not> created_or_there q" "w1 = w\<lparr>nw_namespaces := nss, nw_quotas := quotas\<rparr>"
    using b k heal by (auto simp: bootstrap_namespace_def Let_def split: prod.splits if_splits)
  have "quotas = nw_quotas w" using k q(1) by (auto simp: kube_create_def split: if_splits option.splits)
  moreover have "nss (namespace_key name) \<noteq> None"
    using kube_create_at [OF c r assms(3)] miss by (auto simp: kube_simps)
  ultimately show ?thesis using keep [of w1] assms(4) q(2) by simp
qed

section \<open>Facts on the janitor\<close>

lemma no_content_true:
  "no_content ls kinds = Inr True \<longleftrightarrow>
    (\<forall>k \<in> set kinds. ls k = NoKind \<or> (\<exists>objs. ls k = Listed objs \<and> \<not> list_ex (counts_as_content k) objs))"
  by (induction kinds) (auto split: listing.split)

text \<open>The janitor never reclaims a namespace in use. When a janitor pass makes a namespace disappear, the operator had
  created it with the cleanup policy that allows it, no workspace, live or terminating, targets it, and every list of
  workspace content came back without a managed object other than the shared registry credentials: in particular
  no retained home volume; any failed list keeps the namespace, and no other namespace is touched.
\<close>

lemma reclaimed_namespace_unused:
  assumes "janitor_reconcile c workspaces lister name st = (r, st')" "st key = Some ns" "st' key = None"
    "md_name ns = snd key"
  shows "key = namespace_key name \<and> label_of ns label_managed_by = manager_name \<and>
    label_of ns label_cleanup = cleanup_delete_when_empty \<and>
    (\<exists>wss. workspaces = Some wss \<and> (\<forall>ws \<in> set wss. effective_target_namespace ws \<noteq> name)) \<and>
    (\<forall>kind \<in> set workspace_content_kinds. lister name kind = NoKind \<or>
      (\<exists>objs. lister name kind = Listed objs \<and>
        (\<forall>m \<in> set objs. label_of m label_managed_by = manager_name \<longrightarrow> kind = ''Secret'' \<and> label_of m label_pull_secret = ''true'')))"
proof -
  have key: "key = namespace_key name"
    using assms(1,2,3) by (auto simp: janitor_reconcile_def kube_delete_def
        split: fetched.splits if_splits sum.splits bool.splits prod.splits option.splits)
  with assms(2) have found: "on_get c \<Longrightarrow> kube_get c st (namespace_key name) = Found ns" by (simp add: kube_simps)
  have get: "on_get c"
    using assms(1,2,3) by (cases "on_get c") (auto simp: janitor_reconcile_def kube_get_def)
  have name: "md_name ns = name" using assms(4) key by (simp add: namespace_key_def)
  have del: "label_of ns label_managed_by = manager_name" "label_of ns label_cleanup = cleanup_delete_when_empty"
      "namespace_is_empty workspaces lister name = Inr True"
    using assms(1,2,3) found [OF get] name unfolding janitor_reconcile_def
    by (auto split: if_splits sum.splits bool.splits)
  from del(3) obtain wss where wss: "workspaces = Some wss" "\<not> list_ex (\<lambda>ws. effective_target_namespace ws = name) wss"
    and none: "no_content (lister name) workspace_content_kinds = Inr True"
    by (auto simp: namespace_is_empty_def split: option.splits if_splits)
  from none have "\<forall>kind \<in> set workspace_content_kinds. lister name kind = NoKind \<or>
      (\<exists>objs. lister name kind = Listed objs \<and>
        (\<forall>m \<in> set objs. label_of m label_managed_by = manager_name \<longrightarrow> kind = ''Secret'' \<and> label_of m label_pull_secret = ''true''))"
    unfolding no_content_true by (auto simp: list_ex_iff counts_as_content_def)
  with key del(1,2) wss show ?thesis by (auto simp: list_ex_iff)
qed

section \<open>Instances\<close>

definition demo_placement :: placement_config where
  "demo_placement = \<lparr>plc_platform = ''waas-system'', plc_egress = \<lparr>de_enabled = True, de_allow_internet = True,
     de_blocked = [''10.0.0.0/8''], de_extra = []\<rparr>, plc_text = ascii_lib\<rparr>"

definition demo_namespace_calls :: namespace_calls where
  "demo_namespace_calls = \<lparr>nc_namespace = answering, nc_quota = answering, nc_policy = answering\<rparr>"

definition no_namespaces :: namespace_world where
  "no_namespaces = \<lparr>nw_namespaces = Map.empty, nw_quotas = Map.empty, nw_policies = Map.empty\<rparr>"

lemma placed_namespace: "effective_target_namespace placed_workspace = ''waas-u1''" "md_namespace (ws_meta placed_workspace) = ''waas''"
  by (simp_all add: placed_workspace_def demo_workspace_def demo_meta_def effective_target_namespace_def)

lemma placed_not_personal: "\<not> is_personal_namespace lib placed_workspace"
  by (simp add: is_personal_namespace_def ws_annotation_def placed_workspace_def demo_workspace_def demo_meta_def Let_def)

theorem placed_namespace_guarded_witness:
  "\<exists>(w' :: namespace_world) np. nw_policies w' (''waas-u1'', ''waas-default-ingress'') = Some np \<and>
     (label_of (np_meta np) label_managed_by \<noteq> manager_name \<or> sl_labels (nps_pods (np_spec np)) = Map.empty \<and>
      (\<exists>peers. nps_ingress (np_spec np) = [\<lparr>ru_peers = peers, ru_ports = []\<rparr>] \<and>
        set peers = {namespace_peer ''waas'', namespace_peer ''waas-system''}))"
proof -
  have "\<exists>evs w'. ensure_namespace demo_namespace_calls demo_placement None placed_workspace demo_spec no_namespaces = (Inr evs, w')"
    by (simp add: ensure_namespace_def bootstrap_namespace_def ensure_namespace_policy_def kube_get_def kube_create_def
        placed_namespace demo_namespace_calls_def no_namespaces_def namespace_quota_def Let_def)
  then obtain evs w' where ok: "ensure_namespace demo_namespace_calls demo_placement None placed_workspace demo_spec no_namespaces = (Inr evs, w')"
    by blast
  have "effective_target_namespace placed_workspace \<noteq> md_namespace (ws_meta placed_workspace)" by (simp add: placed_namespace)
  from placed_namespace_guarded [OF this _ _ ok] obtain np where np: "nw_policies w' (''waas-u1'', ''waas-default-ingress'') = Some np"
    "label_of (np_meta np) label_managed_by \<noteq> manager_name \<or> sl_labels (nps_pods (np_spec np)) = Map.empty \<and>
       (\<exists>peers. nps_ingress (np_spec np) = [\<lparr>ru_peers = peers, ru_ports = []\<rparr>] \<and>
          set peers = {\<lparr>pe_pods = None, pe_namespaces = Some \<lparr>sl_labels = [''kubernetes.io/metadata.name'' \<mapsto> n],
            sl_expressions = []\<rparr>, pe_block = None\<rparr> | n. n = ''waas'' \<or> n = ''waas-system'' \<and> n \<noteq> []})"
    by (auto simp: placed_namespace demo_namespace_calls_def demo_placement_def)
  have "{\<lparr>pe_pods = None, pe_namespaces = Some \<lparr>sl_labels = [''kubernetes.io/metadata.name'' \<mapsto> n], sl_expressions = []\<rparr>,
      pe_block = None\<rparr> | n. n = ''waas'' \<or> n = ''waas-system'' \<and> n \<noteq> []} = {namespace_peer ''waas'', namespace_peer ''waas-system''}"
    by (auto simp: namespace_peer_def)
  with np show ?thesis by (intro exI [of _ w'] exI [of _ np]) simp
qed

definition personal_workspace :: workspace where
  "personal_workspace = placed_workspace\<lparr>ws_meta := (ws_meta placed_workspace)\<lparr>md_annotations := [annotation_username \<mapsto> ''u1'']\<rparr>\<rparr>"

definition capped_policy :: workspace_policy where
  "capped_policy = (demo_policy ''p'' 0 [])\<lparr>po_limits := demo_limits\<lparr>lm_aggregate :=
     Some \<lparr>ag_cpu = Some 4, ag_memory = None, ag_storage = None\<rparr>\<rparr>\<rparr>"

lemma capped_quota: "namespace_quota (Some [capped_policy]) ws = [(''requests.cpu'', 4), (''limits.cpu'', 4)]"
  by (simp add: namespace_quota_def resolve_policy_def capped_policy_def demo_policy_def demo_limits_def subjects_match_def
      matched_via_def hard_limit_def)

lemma personal_workspace_personal: "is_personal_namespace ascii_lib personal_workspace"
  by code_simp

lemma personal_namespace_of: "effective_target_namespace personal_workspace = ''waas-u1''" "md_namespace (ws_meta personal_workspace) = ''waas''"
  by (simp_all add: personal_workspace_def placed_workspace_def demo_workspace_def demo_meta_def effective_target_namespace_def)

theorem missed_quota_never_created_witness:
  "\<exists>w1 :: namespace_world. nw_namespaces w1 (namespace_key ''waas-u1'') \<noteq> None \<and>
     nw_quotas (passes namespace_step [\<lparr>na_calls = demo_namespace_calls, na_config = demo_placement,
       na_policies = Some [capped_policy], na_workspace = personal_workspace, na_spec = demo_spec\<rparr>] w1) = Map.empty"
proof -
  let ?cs = "demo_namespace_calls\<lparr>nc_quota := answering\<lparr>on_create := False\<rparr>\<rparr>"
  have "\<exists>w1. ensure_namespace ?cs demo_placement (Some [capped_policy]) personal_workspace demo_spec no_namespaces
      = (Inl (CreateQuotaFailed ''waas-u1''), w1)"
    using personal_workspace_personal
    by (simp add: ensure_namespace_def bootstrap_namespace_def kube_get_def kube_create_def capped_quota personal_namespace_of
        demo_namespace_calls_def demo_placement_def no_namespaces_def Let_def)
  then obtain w1 where "ensure_namespace ?cs demo_placement (Some [capped_policy]) personal_workspace demo_spec no_namespaces
      = (Inl (CreateQuotaFailed ''waas-u1''), w1)" ..
  from missed_quota_never_created [OF personal_namespace_of(1) this, of "[\<lparr>na_calls = demo_namespace_calls,
      na_config = demo_placement, na_policies = Some [capped_policy], na_workspace = personal_workspace, na_spec = demo_spec\<rparr>]"]
  show ?thesis by (auto simp: personal_namespace_of demo_namespace_calls_def no_namespaces_def)
qed

definition reclaimable :: object_meta where
  "reclaimable = (demo_meta ''waas-u1'')\<lparr>md_labels := [label_managed_by \<mapsto> manager_name, label_cleanup \<mapsto> ''DeleteWhenEmpty'']\<rparr>"

theorem reclaimed_namespace_unused_witness:
  "janitor_reconcile answering (Some []) (\<lambda>_ _. Listed []) ''waas-u1'' [namespace_key ''waas-u1'' \<mapsto> reclaimable] = (Inr True, Map.empty) \<and>
   label_of reclaimable label_cleanup = cleanup_delete_when_empty"
proof -
  have "no_content (\<lambda>_. Listed []) kinds = Inr True" for kinds by (induction kinds) auto
  moreover have "label_of reclaimable label_managed_by = manager_name" "label_of reclaimable label_cleanup = cleanup_delete_when_empty"
    "\<not> md_deleted reclaimable" "md_name reclaimable = ''waas-u1''"
    by (simp_all add: reclaimable_def label_of_def str_at_def demo_meta_def cleanup_delete_when_empty_def label_names label_cleanup_def)
  ultimately have j: "janitor_reconcile answering (Some []) (\<lambda>_ _. Listed []) ''waas-u1'' [namespace_key ''waas-u1'' \<mapsto> reclaimable] = (Inr True, Map.empty)"
    by (simp add: janitor_reconcile_def kube_get_def kube_delete_def namespace_is_empty_def)
  have "[namespace_key ''waas-u1'' \<mapsto> reclaimable] (namespace_key ''waas-u1'') = Some reclaimable"
    "md_name reclaimable = snd (namespace_key ''waas-u1'')"
    by (simp_all add: reclaimable_def demo_meta_def namespace_key_def)
  from reclaimed_namespace_unused [OF j this(1) _ this(2)] j show ?thesis by simp
qed

end
