(* ===== verification/Reconcile.thy ===== *)
theory Reconcile
  imports Namespaces
begin

text \<open>
  The reconcile loop of a workspace: \<open>Reconcile\<close> of \<open>workspace_controller.go\<close> with its helpers, the governance
  re-check of \<open>workspace_governance.go\<close> and the teardown of \<open>placement.go\<close>, composed from the components that
  keep each object. The world holds every store the loop writes and the events it records; what the
  cluster and the libraries answer during one pass is the record \<open>reconcile_env\<close>. A stage either yields a
  value or ends the pass, as the early returns do.
\<close>

section \<open>State\<close>

record world =
  wd_objects :: "workspace_object store"
  wd_claims :: claims
  wd_namespaces :: namespace_world
  wd_secrets :: "secret store"
  wd_configs :: "config_map store"
  wd_workloads :: workloads
  wd_services :: "service store"
  wd_events :: "string list"

record 'l reconcile_env =
  rv_cluster :: cluster
  rv_object :: "workspace_object api"
  rv_status :: "workspace_object api"
  rv_kubevirt :: bool
  rv_machine_known :: bool
  rv_now :: int
  rv_now_text :: string
  rv_parse_time :: "string \<Rightarrow> int option"
  rv_volume :: volume_api
  rv_ledger :: ledger_codec
  rv_expire :: api_outcome
  rv_namespace :: namespace_calls
  rv_placement :: placement_config
  rv_pattern :: string
  rv_order :: "overridable_field set \<Rightarrow> overridable_field list"
  rv_kasm :: secret_calls
  rv_desktop :: secret_calls
  rv_config :: "config_map api"
  rv_yaml :: yaml_codec
  rv_pull :: pull_calls
  rv_workload :: workload_calls
  rv_digest :: "string \<Rightarrow> string"
  rv_fingerprint :: "pod_template \<Rightarrow> string"
  rv_service :: "service api"
  rv_pods :: "observed_pod list option"
  rv_cron :: "'l cron_lib"
  rv_probe :: "string \<Rightarrow> bool"

datatype reconcile_error =
    FetchingWorkspace
  | FinalizingHome volume_error
  | TearingDown string
  | RemovingFinalizer
  | AddingFinalizer
  | FetchingTemplate
  | WritingStatus status_error
  | EnforcingLifetime volume_error
  | ReadingCompute
  | EnsuringNamespace namespace_error
  | EnsuringHome volume_error
  | EnsuringSecrets secret_error
  | EnsuringConfig kasm_config_error
  | EnsuringWorkload workload_error
  | ClearingReload
  | EnsuringService service_error
  | ListingPods

text \<open>How a pass ends: an error, retried with backoff, or a requeue after a delay, zero for none.\<close>

datatype pass_end = Retry reconcile_error | Finished int

type_synonym 'a stage = "world \<Rightarrow> (pass_end + 'a) \<times> world"

definition and_then :: "'a stage \<Rightarrow> ('a \<Rightarrow> 'b stage) \<Rightarrow> 'b stage" where
  "and_then m f w = (case m w of (Inl e, w') \<Rightarrow> (Inl e, w') | (Inr a, w') \<Rightarrow> f a w')"

definition yield :: "'a \<Rightarrow> 'a stage" where "yield a w = (Inr a, w)"

definition finish :: "pass_end \<Rightarrow> 'a stage" where "finish e w = (Inl e, w)"

definition record_events :: "string list \<Rightarrow> unit stage" where
  "record_events evs w = (Inr (), w\<lparr>wd_events := wd_events w @ evs\<rparr>)"

text \<open>An operation on one store of the world, whose error ends the pass.\<close>

definition on_store ::
  "(world \<Rightarrow> 's) \<Rightarrow> ('s \<Rightarrow> world \<Rightarrow> world) \<Rightarrow> ('e \<Rightarrow> reconcile_error) \<Rightarrow> ('s \<Rightarrow> ('e + 'a) \<times> 's) \<Rightarrow> 'a stage" where
  "on_store get put err f w =
     (case f (get w) of
        (Inl e, s) \<Rightarrow> (Inl (Retry (err e)), put s w)
      | (Inr a, s) \<Rightarrow> (Inr a, put s w))"

definition second :: int where "second = 1000000000"
definition requeue_transient :: int where "requeue_transient = 5 * second"
definition requeue_missing :: int where "requeue_missing = 30 * second"
definition finalizer_teardown :: string where "finalizer_teardown = ''waas.xorhub.io/teardown''"
definition annotation_manual_state_at :: string where "annotation_manual_state_at = ''waas.xorhub.io/manual-state-at''"

definition build_input_of :: "'l reconcile_env \<Rightarrow> workspace \<Rightarrow> build_input" where
  "build_input_of env ws =
     \<lparr>bi_catalog = cl_images (rv_cluster env) (md_namespace (ws_meta ws)),
      bi_policies = cl_policies (rv_cluster env) (md_namespace (ws_meta ws)),
      bi_codec = rv_yaml env, bi_digest = rv_digest env, bi_fingerprint = rv_fingerprint env\<rparr>"

definition put_status ::
  "'l reconcile_env \<Rightarrow> workspace \<Rightarrow> (workspace_status \<Rightarrow> workspace_status) \<Rightarrow> unit stage" where
  "put_status env ws mutate =
     on_store wd_objects (\<lambda>s w. w\<lparr>wd_objects := s\<rparr>) WritingStatus (patch_status (rv_status env) ws mutate)"

definition mark_unready :: "'l reconcile_env \<Rightarrow> workspace \<Rightarrow> string \<Rightarrow> string \<Rightarrow> string list \<Rightarrow> unit stage" where
  "mark_unready env ws phase rsn message =
     on_store wd_objects (\<lambda>s w. w\<lparr>wd_objects := s\<rparr>) WritingStatus (set_unready (rv_status env) (rv_now env) ws phase rsn message)"

section \<open>Deletion\<close>

text \<open>A failing status write does not hide the failure it reports.\<close>

definition report_teardown_failure :: "'l reconcile_env \<Rightarrow> workspace \<Rightarrow> string \<Rightarrow> world \<Rightarrow> world" where
  "report_teardown_failure env ws stage w =
     (let w1 = w\<lparr>wd_events := wd_events w @ [''TeardownFailed'']\<rparr> in
      w1\<lparr>wd_objects := snd (patch_status (rv_status env) ws
        (\<lambda>st. set_condition (rv_now env) ''False'' ''TeardownFailed'' [stage] (st\<lparr>st_phase := ''Terminating''\<rparr>)) (wd_objects w1))\<rparr>)"

definition delete_kind :: "'l reconcile_env \<Rightarrow> object_key \<Rightarrow> string \<Rightarrow> world \<Rightarrow> outcome \<times> world" where
  "delete_kind env key kind w =
     (let wk = wd_workloads w; cs = rv_workload env in
      if kind = ''Deployment'' then
        (case kube_delete (wc_deployment cs) (wk_deployments wk) key of (r, s) \<Rightarrow> (r, w\<lparr>wd_workloads := wk\<lparr>wk_deployments := s\<rparr>\<rparr>))
      else if kind = ''StatefulSet'' then
        (case kube_delete (wc_stateful_set cs) (wk_stateful_sets wk) key of (r, s) \<Rightarrow> (r, w\<lparr>wd_workloads := wk\<lparr>wk_stateful_sets := s\<rparr>\<rparr>))
      else if kind = ''Pod'' then
        (case delete_pod (wc_pod cs) (wk_pods wk) key of (r, s) \<Rightarrow> (r, w\<lparr>wd_workloads := wk\<lparr>wk_pods := s\<rparr>\<rparr>))
      else if kind = ''Service'' then
        (case kube_delete (rv_service env) (wd_services w) key of (r, s) \<Rightarrow> (r, w\<lparr>wd_services := s\<rparr>))
      else if kind = ''Secret'' then
        (case kube_delete (se_pod (rv_kasm env)) (wd_secrets w) key of (r, s) \<Rightarrow> (r, w\<lparr>wd_secrets := s\<rparr>))
      else if kind = ''ConfigMap'' then
        (case kube_delete (rv_config env) (wd_configs w) key of (r, s) \<Rightarrow> (r, w\<lparr>wd_configs := s\<rparr>))
      else if rv_machine_known env then
        (case kube_delete (wc_machine cs) (wk_machines wk) key of (r, s) \<Rightarrow> (r, w\<lparr>wd_workloads := wk\<lparr>wk_machines := s\<rparr>\<rparr>))
      else (Gone, w))"

fun teardown_kinds :: "'l reconcile_env \<Rightarrow> object_key \<Rightarrow> string list \<Rightarrow> world \<Rightarrow> (string + unit) \<times> world" where
  "teardown_kinds env key [] w = (Inr (), w)"
| "teardown_kinds env key (kind # kinds) w =
     (if kind = ''PersistentVolumeClaim'' then teardown_kinds env key kinds w
      else case delete_kind env key kind w of
        (r, w') \<Rightarrow> if deleted_or_gone r then teardown_kinds env key kinds w' else (Inl kind, w'))"

definition teardown_placement :: "'l reconcile_env \<Rightarrow> workspace \<Rightarrow> world \<Rightarrow> (string + unit) \<times> world" where
  "teardown_placement env ws w =
     (if effective_target_namespace ws = md_namespace (ws_meta ws) then (Inr (), w)
      else teardown_kinds env (compute_key ws) workspace_content_kinds w)"

definition volume_event_name :: "volume_event \<Rightarrow> string" where
  "volume_event_name ev = (case ev of HomeVolumeDeleted _ \<Rightarrow> ''HomeVolumeDeleted'' | HomeVolumeRetained _ \<Rightarrow> ''HomeVolumeRetained''
     | HomeVolumeMetaSynced _ \<Rightarrow> ''HomeVolumeMetaSynced'' | MaxLifetimeReached \<Rightarrow> ''MaxLifetimeReached'')"

text \<open>Removing the last finalizer of a workspace being deleted lets the server drop it.\<close>

definition remove_finalizer :: "'l reconcile_env \<Rightarrow> object_key \<Rightarrow> workspace_object \<Rightarrow> world \<Rightarrow> pass_end \<times> world" where
  "remove_finalizer env key o' w =
     (let rest = filter (\<lambda>f. f \<noteq> finalizer_teardown) (wo_finalizers o') in
      case kube_update (rv_object env) (wd_objects w) key (o'\<lparr>wo_finalizers := rest\<rparr>) of
        (Done, s) \<Rightarrow> (Finished 0, w\<lparr>wd_objects := (if rest = [] then s(key := None) else s)\<rparr>)
      | (Gone, s) \<Rightarrow> (Finished 0, w\<lparr>wd_objects := s\<rparr>)
      | (_, s) \<Rightarrow> (Retry RemovingFinalizer, w\<lparr>wd_objects := s\<rparr>))"

definition reconcile_deleted :: "'l reconcile_env \<Rightarrow> object_key \<Rightarrow> workspace_object \<Rightarrow> world \<Rightarrow> pass_end \<times> world" where
  "reconcile_deleted env key o' w =
     (let ws = wo_workspace o' in
      if finalizer_teardown \<notin> set (wo_finalizers o') then (Finished 0, w)
      else case finalize_home_volume (rv_volume env) (rv_now_text env) ws (wd_claims w) of
        (Inl e, cl) \<Rightarrow> (Retry (FinalizingHome e), report_teardown_failure env ws ''finalizing home volume'' (w\<lparr>wd_claims := cl\<rparr>))
      | (Inr evs, cl) \<Rightarrow>
          (let w1 = w\<lparr>wd_claims := cl, wd_events := wd_events w @ map volume_event_name evs\<rparr> in
           case teardown_placement env ws w1 of
             (Inl kind, w2) \<Rightarrow> (Retry (TearingDown kind), report_teardown_failure env ws ''tearing down placed objects'' w2)
           | (Inr _, w2) \<Rightarrow> remove_finalizer env key o' w2))"

section \<open>Governance\<close>

definition sibling_loads :: "cluster \<Rightarrow> workspace \<Rightarrow> workspace_image list \<Rightarrow> load list option" where
  "sibling_loads cl ws catalog =
     (case (cl_workspaces cl (md_namespace (ws_meta ws)), cl_templates cl (md_namespace (ws_meta ws)), cl_claims cl) of
        (Some all, Some templates, Some claims) \<Rightarrow>
          Some (owner_loads all (sp_owner (ws_spec ws)) (md_name (ws_meta ws)) (templates_by_name templates) catalog @
                retained_volume_loads (filter (retained_of (sp_owner (ws_spec ws))) claims)
                  (effective_target_namespace ws, sp_home_volume_name (ws_spec ws)))
      | _ \<Rightarrow> None)"

definition evaluate_governance ::
  "'l reconcile_env \<Rightarrow> workspace \<Rightarrow> workspace_template \<Rightarrow> workspace_policy option \<times> denial option" where
  "evaluate_governance env ws tpl =
     (let cl = rv_cluster env; ns = md_namespace (ws_meta ws); i = identity_of ws; ref = ts_image (tp_spec tpl) in
      case cl_images cl ns of
        None \<Rightarrow> (None, Some (deny ReasonInternalError [''catalog'']))
      | Some catalog \<Rightarrow> (case cl_policies cl ns of
          None \<Rightarrow> (None, Some (deny ReasonInternalError [''policies'']))
        | Some policies \<Rightarrow>
           if policies = [] \<and> catalog = [] then (None, None)
           else case resolve_policy policies i of
             Inl d \<Rightarrow> (None, Some d)
           | Inr (pol, _) \<Rightarrow> (case find_image catalog ref of
               None \<Rightarrow> (Some pol, Some (deny ReasonImageNotInCatalog [ref]))
             | Some img \<Rightarrow>
                (case first_denial [image_allowed img pol i, check_tag_discipline img ref, check_protocol tpl img,
                       check_overrides (plc_text (rv_placement env)) (rv_order env) ws tpl (Some pol) i (rv_pattern env)] of
                   Some d \<Rightarrow> (Some pol, Some d)
                 | None \<Rightarrow> (case sibling_loads cl ws catalog of
                     None \<Rightarrow> (Some pol, Some (deny ReasonInternalError [''usage'']))
                   | Some others \<Rightarrow> (case load_of ws tpl (Some img) of
                       (ld, known) \<Rightarrow> (Some pol, check_limits ld known img pol others)))))))"

section \<open>Schedule\<close>

definition effective_schedule :: "workspace \<Rightarrow> template_spec \<Rightarrow> schedule_spec" where
  "effective_schedule ws s =
     (case (case sp_overrides (ws_spec ws) of None \<Rightarrow> None | Some ov \<Rightarrow> ov_schedule ov) of
        Some src \<Rightarrow> schedule_spec_of src
      | None \<Rightarrow> (case ts_schedule s of
          Some src \<Rightarrow> schedule_spec_of src
        | None \<Rightarrow> \<lparr>timezone = [], uptime = [], downtime = []\<rparr>))"

definition manual_state_at :: "(string \<Rightarrow> int option) \<Rightarrow> workspace \<Rightarrow> int option" where
  "manual_state_at parse ws =
     (let v = ws_annotation ws annotation_manual_state_at in if v = [] then None else parse v)"

definition earliest_requeue :: "int list \<Rightarrow> int" where
  "earliest_requeue durs = foldl (\<lambda>best d. if 0 < d \<and> (best = 0 \<or> d < best) then d else best) 0 durs"

definition schedule_decision :: "'l reconcile_env \<Rightarrow> workspace \<Rightarrow> template_spec \<Rightarrow> decision" where
  "schedule_decision env ws s =
     resolve_schedule (rv_cron env) (effective_schedule ws s) (rv_now env) (sp_paused (ws_spec ws))
       (manual_state_at (rv_parse_time env) ws)"

definition schedule_requeue :: "'l reconcile_env \<Rightarrow> decision \<Rightarrow> int" where
  "schedule_requeue env d =
     (case dec_next d of None \<Rightarrow> 0 | Some e \<Rightarrow> if 0 < edge_time e - rv_now env then edge_time e - rv_now env else 0)"

section \<open>The stages\<close>

text \<open>The finalizer is written before anything else exists; the pass goes on with the updated object.\<close>

definition add_finalizer :: "'l reconcile_env \<Rightarrow> object_key \<Rightarrow> workspace_object \<Rightarrow> unit stage" where
  "add_finalizer env key o' w =
     (if finalizer_teardown \<in> set (wo_finalizers o') then (Inr (), w)
      else case kube_update (rv_object env) (wd_objects w) key (o'\<lparr>wo_finalizers := wo_finalizers o' @ [finalizer_teardown]\<rparr>) of
        (r, s) \<Rightarrow> (if r = Done then Inr () else Inl (Retry AddingFinalizer), w\<lparr>wd_objects := s\<rparr>))"

definition fetch_template :: "'l reconcile_env \<Rightarrow> workspace \<Rightarrow> workspace_template stage" where
  "fetch_template env ws =
     (case cl_template (rv_cluster env) (md_namespace (ws_meta ws)) (sp_template_ref (ws_spec ws)) of
        Found tpl \<Rightarrow> yield tpl
      | Missing \<Rightarrow> and_then (mark_unready env ws ''Pending'' ''TemplateNotFound'' [sp_template_ref (ws_spec ws)])
          (\<lambda>_. finish (Finished requeue_missing))
      | Failed \<Rightarrow> finish (Retry FetchingTemplate))"

definition check_kubevirt :: "'l reconcile_env \<Rightarrow> workspace \<Rightarrow> template_spec \<Rightarrow> unit stage" where
  "check_kubevirt env ws s =
     (if ts_os s = os_windows \<and> \<not> rv_kubevirt env
      then and_then (mark_unready env ws ''Failed'' ''KubeVirtUnavailable'' []) (\<lambda>_. finish (Finished 0))
      else yield ())"

text \<open>The request to delete the expired workspace marks it; its finalizer decides the rest.\<close>

definition mark_workspace_deleted :: "object_key \<Rightarrow> workspace_object store \<Rightarrow> workspace_object store" where
  "mark_workspace_deleted key st = st(key := map_option (\<lambda>o'. o'\<lparr>wo_workspace := (wo_workspace o')\<lparr>ws_meta :=
     (ws_meta (wo_workspace o'))\<lparr>md_deleted := True\<rparr>\<rparr>\<rparr>) (st key))"

definition apply_lifetime :: "'l reconcile_env \<Rightarrow> object_key \<Rightarrow> workspace \<Rightarrow> int stage" where
  "apply_lifetime env key ws w =
     (case enforce_lifetime (rv_volume env) (rv_expire env) (cl_policies (rv_cluster env) (md_namespace (ws_meta ws)))
             (rv_now env) ws (wd_claims w) of
        (res, evs, cl) \<Rightarrow>
          (let w1 = w\<lparr>wd_claims := cl, wd_events := wd_events w @ map volume_event_name evs\<rparr> in
           case res of
             Inl e \<Rightarrow> (Inl (Retry (EnforcingLifetime e)), w1)
           | Inr (True, _) \<Rightarrow> (Inl (Finished 0),
               if rv_expire env = ApiOk then w1\<lparr>wd_objects := mark_workspace_deleted key (wd_objects w1)\<rparr> else w1)
           | Inr (False, d) \<Rightarrow> (Inr d, w1)))"

definition govern :: "'l reconcile_env \<Rightarrow> workspace \<Rightarrow> workspace_template \<Rightarrow> unit stage" where
  "govern env ws tpl w =
     (if sp_paused (ws_spec ws) then (Inr (), w)
      else case compute_exists (rv_workload env) ws (tp_spec tpl) (wd_workloads w) of
        Inl _ \<Rightarrow> (Inl (Retry ReadingCompute), w)
      | Inr True \<Rightarrow> (Inr (), w)
      | Inr False \<Rightarrow> (case evaluate_governance env ws tpl of
          (_, Some d) \<Rightarrow> and_then (record_events [''GovernanceDenied''])
             (\<lambda>_. and_then (mark_unready env ws ''Failed'' ''GovernanceDenied'' (dn_about d)) (\<lambda>_. finish (Finished requeue_missing))) w
        | (Some _, None) \<Rightarrow> record_events [''PolicyApplied''] w
        | (None, None) \<Rightarrow> (Inr (), w)))"

text \<open>Everything the workload needs before it: the namespace, the home volume, credentials and configuration.\<close>

definition place_namespace :: "'l reconcile_env \<Rightarrow> workspace \<Rightarrow> template_spec \<Rightarrow> unit stage" where
  "place_namespace env ws s =
     and_then (on_store wd_namespaces (\<lambda>n w. w\<lparr>wd_namespaces := n\<rparr>) EnsuringNamespace
         (ensure_namespace (rv_namespace env) (rv_placement env) (cl_policies (rv_cluster env) (md_namespace (ws_meta ws))) ws s))
       (\<lambda>evs. record_events (map (\<lambda>ev. case ev of NamespaceCreated _ \<Rightarrow> ''NamespaceCreated''
          | NamespacePolicyHealed _ _ \<Rightarrow> ''NamespacePolicyHealed'') evs))"

definition place_home :: "'l reconcile_env \<Rightarrow> workspace \<Rightarrow> template_spec \<Rightarrow> string stage" where
  "place_home env ws s =
     and_then (on_store wd_claims (\<lambda>c w. w\<lparr>wd_claims := c\<rparr>) EnsuringHome (ensure_home_pvc (rv_volume env) (rv_ledger env) ws s))
       (\<lambda>(name, evs). and_then (record_events (map volume_event_name evs)) (\<lambda>_. yield name))"

definition place_secrets :: "'l reconcile_env \<Rightarrow> workspace \<Rightarrow> template_spec \<Rightarrow> unit stage" where
  "place_secrets env ws s =
     and_then (on_store wd_secrets (\<lambda>x w. w\<lparr>wd_secrets := x\<rparr>) EnsuringSecrets (ensure_kasm_credentials (rv_kasm env) ws s))
       (\<lambda>_. on_store wd_secrets (\<lambda>x w. w\<lparr>wd_secrets := x\<rparr>) EnsuringSecrets (ensure_desktop_credentials (rv_desktop env) ws s))"

definition place_config :: "'l reconcile_env \<Rightarrow> workspace \<Rightarrow> template_spec \<Rightarrow> unit stage" where
  "place_config env ws s =
     on_store wd_configs (\<lambda>x w. w\<lparr>wd_configs := x\<rparr>) EnsuringConfig
       (ensure_kasm_config (rv_yaml env) (rv_config env) (cl_policies (rv_cluster env) (md_namespace (ws_meta ws))) ws s)"

definition place_pull_secret :: "'l reconcile_env \<Rightarrow> workspace \<Rightarrow> template_spec \<Rightarrow> unit stage" where
  "place_pull_secret env ws s =
     and_then (on_store wd_secrets (\<lambda>x w. w\<lparr>wd_secrets := x\<rparr>) EnsuringSecrets
         (ensure_pull_secret (rv_pull env) (cl_images (rv_cluster env) (md_namespace (ws_meta ws))) ws s))
       (\<lambda>d. case d of
          None \<Rightarrow> yield ()
        | Some _ \<Rightarrow> and_then (record_events [''PullSecretMissing''])
            (\<lambda>_. and_then (mark_unready env ws ''Failed'' ''PullSecretMissing'' [ts_image s])
               (\<lambda>_. finish (Finished requeue_missing))))"

definition converge_workload :: "'l reconcile_env \<Rightarrow> workspace \<Rightarrow> template_spec \<Rightarrow> string \<Rightarrow> bool \<Rightarrow> ensured stage" where
  "converge_workload env ws s pvc down =
     on_store wd_workloads (\<lambda>x w. w\<lparr>wd_workloads := x\<rparr>) EnsuringWorkload
       (\<lambda>wk. if ts_os s = os_windows
         then (case ensure_virtual_machine (wc_machine (rv_workload env)) ws s pvc (\<not> down) (wk_machines wk) of
           (res, vms) \<Rightarrow> (map_sum id (\<lambda>ready. \<lparr>en_ready = ready, en_drifted = False, en_reloaded = False\<rparr>) res, wk\<lparr>wk_machines := vms\<rparr>))
         else ensure_workload (rv_workload env) (build_input_of env ws) ws s pvc down wk)"

definition clear_reload_request :: "'l reconcile_env \<Rightarrow> workspace \<Rightarrow> unit stage" where
  "clear_reload_request env ws w =
     (let key = workspace_key ws in
      case kube_get (rv_object env) (wd_objects w) key of
        Missing \<Rightarrow> (Inr (), w)
      | Failed \<Rightarrow> (Inl (Retry ClearingReload), w)
      | Found o' \<Rightarrow>
          (let m = ws_meta (wo_workspace o') in
           if md_annotations m annotation_reload_requested_at = None then (Inr (), w)
           else case kube_update (rv_object env) (wd_objects w) key
               (o'\<lparr>wo_workspace := (wo_workspace o')\<lparr>ws_meta := m\<lparr>md_annotations := (md_annotations m)(annotation_reload_requested_at := None)\<rparr>\<rparr>\<rparr>) of
             (r, st) \<Rightarrow> (if r = Done then Inr () else Inl (Retry ClearingReload), w\<lparr>wd_objects := st\<rparr>)))"

definition consume_reload :: "'l reconcile_env \<Rightarrow> workspace \<Rightarrow> ensured \<Rightarrow> bool \<Rightarrow> unit stage" where
  "consume_reload env ws report down =
     (if reload_requested ws \<and> (en_reloaded report \<or> down \<or> \<not> en_drifted report)
      then and_then (record_events (if en_reloaded report then [''WorkloadReloaded''] else [])) (\<lambda>_. clear_reload_request env ws)
      else yield ())"

definition place_service :: "'l reconcile_env \<Rightarrow> workspace \<Rightarrow> template_spec \<Rightarrow> unit stage" where
  "place_service env ws s =
     on_store wd_services (\<lambda>x w. w\<lparr>wd_services := x\<rparr>) EnsuringService (ensure_service (rv_service env) ws s)"

section \<open>The report\<close>

definition service_address :: "workspace \<Rightarrow> string" where
  "service_address ws = effective_workload_name ws @ ''.'' @ effective_target_namespace ws @ ''.svc.cluster.local''"

definition down_phase :: "decision \<Rightarrow> string \<times> string" where
  "down_phase d = (if dec_manual d then (''Paused'', ''Paused'') else (''Stopped'', ''ScheduledDowntime''))"

definition report_down ::
  "'l reconcile_env \<Rightarrow> workspace_object \<Rightarrow> template_spec \<Rightarrow> string \<Rightarrow> decision \<Rightarrow> ensured \<Rightarrow> int \<Rightarrow> 'b stage" where
  "report_down env o' s pvc d report lifetime =
     (let ws = wo_workspace o'; (phase, rsn) = down_phase d in
      and_then (record_events (if st_phase (wo_status o') \<noteq> phase then [phase] else []))
        (\<lambda>_. and_then (put_status env ws (\<lambda>st. set_drift_condition (rv_now env) (en_drifted report)
             (set_condition (rv_now env) ''False'' rsn []
               (st\<lparr>st_phase := phase, st_os := ts_os s, st_pvc_name := pvc, st_address := [], st_port := 0, st_protocol := [],
                  st_protocols := [], st_next_transition := dec_next d\<rparr>))))
        (\<lambda>_. finish (Finished (earliest_requeue [schedule_requeue env d, lifetime])))))"

definition diagnose :: "'l reconcile_env \<Rightarrow> workspace \<Rightarrow> template_spec \<Rightarrow> ensured \<Rightarrow> (workload_failure option \<times> string) stage" where
  "diagnose env ws s report =
     (if en_ready report \<or> ts_os s = os_windows then yield (None, [])
      else case detect_workload_failure (rv_pods env) ws of
        Inl _ \<Rightarrow> finish (Retry ListingPods)
      | Inr fd \<Rightarrow> yield fd)"

definition up_phase :: "ensured \<Rightarrow> workload_failure option \<Rightarrow> string" where
  "up_phase report failure =
     (if en_ready report then ''Running'' else if failure \<noteq> None then ''Failed'' else ''Provisioning'')"

definition phase_event :: "string \<Rightarrow> workload_failure option \<Rightarrow> string" where
  "phase_event phase failure =
     (if phase = ''Running'' then ''Ready'' else if phase = ''Failed'' then (case failure of Some f \<Rightarrow> wf_reason f | None \<Rightarrow> [])
      else phase)"

definition connection_check :: "'l reconcile_env \<Rightarrow> workspace \<Rightarrow> template_spec \<Rightarrow> ensured \<Rightarrow> bool \<times> string" where
  "connection_check env ws s report =
     (if \<not> en_ready report then (False, ''DesktopDown'')
      else if rv_probe env (service_address ws @ '':'' @ itoa (wp_port (effective_protocol ws s)))
        then (True, ''DesktopListening'') else (False, ''DesktopNotListening''))"

definition ready_condition :: "int \<Rightarrow> ensured \<Rightarrow> workload_failure option \<Rightarrow> string \<Rightarrow> workspace_status \<Rightarrow> workspace_status" where
  "ready_condition now report failure detail st =
     (if en_ready report then set_condition now ''True'' ''WorkspaceReady'' [] st
      else case failure of
        Some f \<Rightarrow> set_condition now ''False'' (wf_reason f) (wf_message f) st
      | None \<Rightarrow> set_condition now ''False'' ''Provisioning'' (if detail \<noteq> [] then [detail] else []) st)"

definition up_status ::
  "'l reconcile_env \<Rightarrow> workspace \<Rightarrow> template_spec \<Rightarrow> string \<Rightarrow> decision \<Rightarrow> ensured \<Rightarrow> workload_failure option \<Rightarrow> string \<Rightarrow> bool \<Rightarrow> string
     \<Rightarrow> workspace_status \<Rightarrow> workspace_status" where
  "up_status env ws s pvc d report failure detail conn rsn st =
     (let def = effective_protocol ws s;
          base = st\<lparr>st_phase := up_phase report failure, st_os := ts_os s, st_pvc_name := pvc, st_address := service_address ws,
             st_port := wp_port def, st_protocol := wp_name def,
             st_protocols := map (\<lambda>p. \<lparr>prs_name = wp_name p, prs_port = wp_port p, prs_default = wp_name p = wp_name def\<rparr>) (effective_protocols s),
             st_next_transition := dec_next d\<rparr>
      in set_drift_condition (rv_now env) (en_drifted report)
           (set_typed_condition (rv_now env) condition_connection_ready (if conn then ''True'' else ''False'') rsn []
             (ready_condition (rv_now env) report failure detail base)))"

definition up_requeue :: "'l reconcile_env \<Rightarrow> decision \<Rightarrow> int \<Rightarrow> ensured \<Rightarrow> bool \<Rightarrow> int" where
  "up_requeue env d lifetime report conn =
     (if \<not> en_ready report then earliest_requeue [requeue_transient, schedule_requeue env d]
      else if \<not> conn then earliest_requeue [10 * second, earliest_requeue [schedule_requeue env d, lifetime]]
      else earliest_requeue [schedule_requeue env d, lifetime])"

definition report_up ::
  "'l reconcile_env \<Rightarrow> workspace_object \<Rightarrow> template_spec \<Rightarrow> string \<Rightarrow> decision \<Rightarrow> ensured \<Rightarrow> int \<Rightarrow> 'b stage" where
  "report_up env o' s pvc d report lifetime =
     (let ws = wo_workspace o' in
      and_then (diagnose env ws s report) (\<lambda>(failure, detail).
        (let phase = up_phase report failure; (conn, rsn) = connection_check env ws s report in
         and_then (record_events
             ((if en_drifted report \<and> \<not> has_drift_condition (wo_status o') then [''TemplateDrifted''] else []) @
              (if st_phase (wo_status o') \<noteq> phase then [phase_event phase failure] else [])))
           (\<lambda>_. and_then (put_status env ws (up_status env ws s pvc d report failure detail conn rsn))
             (\<lambda>_. finish (Finished (up_requeue env d lifetime report conn)))))))"

section \<open>The pass\<close>

text \<open>From the placement on: what the workload needs, the workload, and the report.\<close>

definition provision :: "'l reconcile_env \<Rightarrow> workspace_object \<Rightarrow> template_spec \<Rightarrow> int \<Rightarrow> unit stage" where
  "provision env o' s lifetime =
     (let ws = wo_workspace o'; d = schedule_decision env ws s; down = dec_down d in
      and_then (place_namespace env ws s) (\<lambda>_.
      and_then (place_home env ws s) (\<lambda>pvc.
      and_then (place_secrets env ws s) (\<lambda>_.
      and_then (place_config env ws s) (\<lambda>_.
      and_then (place_pull_secret env ws s) (\<lambda>_.
      and_then (converge_workload env ws s pvc down) (\<lambda>report.
      and_then (consume_reload env ws report down) (\<lambda>_.
      and_then (place_service env ws s) (\<lambda>_.
        if down then report_down env o' s pvc d report lifetime
        else report_up env o' s pvc d report lifetime)))))))))"

definition reconcile_live :: "'l reconcile_env \<Rightarrow> object_key \<Rightarrow> workspace_object \<Rightarrow> unit stage" where
  "reconcile_live env key o' =
     (let ws = wo_workspace o' in
      and_then (add_finalizer env key o') (\<lambda>_.
      and_then (fetch_template env ws) (\<lambda>tpl.
      and_then (check_kubevirt env ws (tp_spec tpl)) (\<lambda>_.
      and_then (apply_lifetime env key ws) (\<lambda>lifetime.
      and_then (govern env ws tpl) (\<lambda>_.
      provision env o' (tp_spec tpl) lifetime))))))"

definition end_of :: "pass_end + unit \<Rightarrow> pass_end" where
  "end_of r = (case r of Inl e \<Rightarrow> e | Inr _ \<Rightarrow> Finished 0)"

definition reconcile :: "'l reconcile_env \<Rightarrow> object_key \<Rightarrow> world \<Rightarrow> pass_end \<times> world" where
  "reconcile env key w =
     (case kube_get (rv_object env) (wd_objects w) key of
        Missing \<Rightarrow> (Finished 0, w)
      | Failed \<Rightarrow> (Retry FetchingWorkspace, w)
      | Found o' \<Rightarrow>
          if md_deleted (ws_meta (wo_workspace o')) then reconcile_deleted env key o' w
          else (case reconcile_live env key o' w of (r, w') \<Rightarrow> (end_of r, w')))"

section \<open>Reasoning on stages\<close>

lemma and_then_cases:
  assumes "and_then m f w = (r, w')"
  obtains (stop) e where "m w = (Inl e, w')" "r = Inl e"
    | (go) a w1 where "m w = (Inr a, w1)" "f a w1 = (r, w')"
  using assms by (auto simp: and_then_def split: prod.splits sum.splits)

text \<open>A stage keeps a relation when the world after it is related to the world before it.\<close>

definition keeps :: "(world \<Rightarrow> world \<Rightarrow> bool) \<Rightarrow> 'a stage \<Rightarrow> bool" where
  "keeps R m \<longleftrightarrow> (\<forall>w. R w (snd (m w)))"

lemma keepsD: "keeps R m \<Longrightarrow> m w = (r, w') \<Longrightarrow> R w w'"
  by (metis keeps_def snd_conv)

text \<open>The relations used below are preorders on worlds; a relation that stages keep is kept by their composition.\<close>

locale world_relation =
  fixes R :: "world \<Rightarrow> world \<Rightarrow> bool"
  assumes R_refl: "R w w" and R_trans: "R u v \<Longrightarrow> R v w \<Longrightarrow> R u w"
begin

lemma keeps_and_then: "keeps R m \<Longrightarrow> (\<And>a. keeps R (f a)) \<Longrightarrow> keeps R (and_then m f)"
  by (auto simp: keeps_def and_then_def split: prod.split sum.split) (metis R_trans snd_conv)+

lemma keeps_basic: "keeps R (yield a)" "keeps R (finish e)"
  by (simp_all add: keeps_def yield_def finish_def R_refl)

lemma keeps_on_store:
  "(\<And>w. R w (put (snd (f (get w))) w)) \<Longrightarrow> keeps R (on_store get put err f)"
  by (auto simp: keeps_def on_store_def split: prod.split sum.split) (metis snd_conv)+

lemma keeps_if: "keeps R m \<Longrightarrow> keeps R n \<Longrightarrow> keeps R (if b then m else n)"
  by simp

lemmas keeps_intros = keeps_and_then keeps_basic keeps_on_store keeps_if

end

text \<open>Everything the loop creates outside the workspace objects.\<close>

definition same_content :: "world \<Rightarrow> world \<Rightarrow> bool" where
  "same_content w w' \<longleftrightarrow> wd_claims w' = wd_claims w \<and> wd_namespaces w' = wd_namespaces w \<and> wd_secrets w' = wd_secrets w \<and>
     wd_configs w' = wd_configs w \<and> wd_workloads w' = wd_workloads w \<and> wd_services w' = wd_services w"

definition same_workloads :: "world \<Rightarrow> world \<Rightarrow> bool" where
  "same_workloads w w' \<longleftrightarrow> wd_workloads w' = wd_workloads w"

definition same_finalizers :: "world \<Rightarrow> world \<Rightarrow> bool" where
  "same_finalizers w w' \<longleftrightarrow>
     (\<forall>key. map_option wo_finalizers (wd_objects w' key) = map_option wo_finalizers (wd_objects w key))"

interpretation content: world_relation same_content by unfold_locales (auto simp: same_content_def)
interpretation workload: world_relation same_workloads by unfold_locales (auto simp: same_workloads_def)
interpretation finalizer: world_relation same_finalizers by unfold_locales (auto simp: same_finalizers_def)

lemma patch_status_finalizers:
  "map_option wo_finalizers (snd (patch_status c ws mutate st) key) = map_option wo_finalizers (st key)"
  by (auto simp: patch_status_def kube_update_def kube_simps Let_def split: fetched.split option.split prod.split)

lemma keeps_status:
  "keeps same_content (put_status env ws mutate)" "keeps same_content (mark_unready env ws phase rsn msg)"
  "keeps same_workloads (put_status env ws mutate)" "keeps same_workloads (mark_unready env ws phase rsn msg)"
  "keeps same_finalizers (put_status env ws mutate)" "keeps same_finalizers (mark_unready env ws phase rsn msg)"
  unfolding put_status_def mark_unready_def set_unready_def
  by (rule content.keeps_on_store workload.keeps_on_store finalizer.keeps_on_store,
      simp add: same_content_def same_workloads_def same_finalizers_def patch_status_finalizers)+

lemma keeps_events:
  "keeps same_content (record_events evs)" "keeps same_workloads (record_events evs)" "keeps same_finalizers (record_events evs)"
  by (simp_all add: keeps_def record_events_def same_content_def same_workloads_def same_finalizers_def)

lemma keeps_reads:
  "keeps same_content (fetch_template env ws)" "keeps same_workloads (fetch_template env ws)" "keeps same_finalizers (fetch_template env ws)"
  "keeps same_content (check_kubevirt env ws s)" "keeps same_workloads (check_kubevirt env ws s)" "keeps same_finalizers (check_kubevirt env ws s)"
  unfolding fetch_template_def check_kubevirt_def
  by (auto split: fetched.split intro!: content.keeps_intros workload.keeps_intros finalizer.keeps_intros keeps_status)

context world_relation
begin

lemma govern_kept:
  assumes "\<And>evs. keeps R (record_events evs)" "\<And>phase rsn msg. keeps R (mark_unready env ws phase rsn msg)"
  shows "keeps R (govern env ws tpl)"
  unfolding keeps_def
proof
  fix w
  let ?denied = "\<lambda>d. and_then (record_events [''GovernanceDenied''])
     (\<lambda>_. and_then (mark_unready env ws ''Failed'' ''GovernanceDenied'' (dn_about d)) (\<lambda>_. finish (Finished requeue_missing))) :: unit stage"
  have "keeps R (?denied d)" for d :: denial by (intro keeps_and_then keeps_basic assms)
  then have denied: "R w (snd (?denied d w))" for d :: denial by (simp add: keeps_def)
  have event: "R w (snd (record_events evs w))" for evs using assms(1) unfolding keeps_def by blast
  obtain p d where g: "evaluate_governance env ws tpl = (p, d)" by fastforce
  show "R w (snd (govern env ws tpl w))"
  proof (cases "sp_paused (ws_spec ws) \<or> compute_exists (rv_workload env) ws (tp_spec tpl) (wd_workloads w) \<noteq> Inr False")
    case True
    then show ?thesis by (auto simp: govern_def R_refl split: sum.split bool.split)
  next
    case False
    then have "govern env ws tpl w = (case (p, d) of
          (_, Some d) \<Rightarrow> ?denied d w | (Some _, None) \<Rightarrow> record_events [''PolicyApplied''] w | (None, None) \<Rightarrow> (Inr (), w))"
      using g by (simp add: govern_def)
    with denied event show ?thesis by (cases d; cases p) (simp_all add: R_refl)
  qed
qed

end

lemma keeps_govern:
  "keeps same_content (govern env ws tpl)" "keeps same_workloads (govern env ws tpl)" "keeps same_finalizers (govern env ws tpl)"
  by (intro content.govern_kept workload.govern_kept finalizer.govern_kept keeps_events keeps_status)+

lemma keeps_places:
  "keeps same_workloads (place_namespace env ws s)" "keeps same_finalizers (place_namespace env ws s)"
  "keeps same_workloads (place_home env ws s)" "keeps same_finalizers (place_home env ws s)"
  "keeps same_workloads (place_secrets env ws s)" "keeps same_finalizers (place_secrets env ws s)"
  "keeps same_workloads (place_config env ws s)" "keeps same_finalizers (place_config env ws s)"
  "keeps same_workloads (place_pull_secret env ws s)" "keeps same_finalizers (place_pull_secret env ws s)"
  "keeps same_workloads (place_service env ws s)" "keeps same_finalizers (place_service env ws s)"
  unfolding place_namespace_def place_home_def place_secrets_def place_config_def place_pull_secret_def place_service_def
  by (auto split: option.split prod.split simp: same_workloads_def same_finalizers_def
      intro!: workload.keeps_intros finalizer.keeps_intros keeps_events keeps_status)

lemma keeps_converge: "keeps same_finalizers (converge_workload env ws s pvc down)"
  unfolding converge_workload_def by (rule finalizer.keeps_on_store) (simp add: same_finalizers_def)

lemma keeps_reload: "keeps same_workloads (consume_reload env ws report down)" "keeps same_finalizers (consume_reload env ws report down)"
proof -
  have "keeps same_workloads (clear_reload_request env ws)" "keeps same_finalizers (clear_reload_request env ws)"
    by (auto simp: keeps_def clear_reload_request_def same_workloads_def same_finalizers_def kube_update_def kube_simps Let_def
        split: fetched.split prod.split option.split)
  then show "keeps same_workloads (consume_reload env ws report down)" "keeps same_finalizers (consume_reload env ws report down)"
    unfolding consume_reload_def
    by (auto intro!: workload.keeps_intros finalizer.keeps_intros keeps_events)
qed

lemma keeps_reports:
  "keeps same_workloads (report_down env o' s pvc d report lifetime)" "keeps same_finalizers (report_down env o' s pvc d report lifetime)"
  "keeps same_workloads (report_up env o' s pvc d report lifetime)" "keeps same_finalizers (report_up env o' s pvc d report lifetime)"
proof -
  have "keeps same_workloads (diagnose env ws s report)" "keeps same_finalizers (diagnose env ws s report)" for ws
    unfolding diagnose_def by (auto split: sum.split intro!: workload.keeps_intros finalizer.keeps_intros)
  then show
    "keeps same_workloads (report_down env o' s pvc d report lifetime)" "keeps same_finalizers (report_down env o' s pvc d report lifetime)"
    "keeps same_workloads (report_up env o' s pvc d report lifetime)" "keeps same_finalizers (report_up env o' s pvc d report lifetime)"
    unfolding report_down_def report_up_def Let_def
    by (auto split: prod.split intro!: workload.keeps_intros finalizer.keeps_intros keeps_events keeps_status)
qed

lemma keeps_lifetime: "keeps same_workloads (apply_lifetime env key ws)" "keeps same_finalizers (apply_lifetime env key ws)"
  by (auto simp: keeps_def apply_lifetime_def same_workloads_def same_finalizers_def mark_workspace_deleted_def Let_def
      option.map_comp comp_def split: prod.split sum.split bool.split)

lemma add_finalizer_done:
  assumes "add_finalizer env key o' w = (Inr a, w1)" "wd_objects w key = Some o'"
  shows "\<exists>o1. wd_objects w1 key = Some o1 \<and> finalizer_teardown \<in> set (wo_finalizers o1)"
proof (cases "finalizer_teardown \<in> set (wo_finalizers o')")
  case False
  obtain r s where u: "kube_update (rv_object env) (wd_objects w) key (o'\<lparr>wo_finalizers := wo_finalizers o' @ [finalizer_teardown]\<rparr>) = (r, s)"
    by fastforce
  with assms(1) False have "r = Done" "w1 = w\<lparr>wd_objects := s\<rparr>" by (simp_all add: add_finalizer_def split: if_splits)
  with u assms(2) show ?thesis by (auto simp: kube_update_def split: if_splits)
qed (use assms in \<open>simp add: add_finalizer_def\<close>)

lemma add_finalizer_content: "keeps same_content (add_finalizer env key o')"
  by (simp add: keeps_def add_finalizer_def same_content_def split: prod.split)

lemma keeps_provision: "keeps same_finalizers (provision env o' s lifetime)"
  unfolding provision_def Let_def
  by (intro finalizer.keeps_and_then finalizer.keeps_if keeps_places keeps_converge keeps_reload keeps_reports)

text \<open>C17: Nothing exists without the teardown finalizer. Whenever a pass over a live workspace changes a volume, a
  namespace, a secret, a configuration, a workload or a service, the stored workspace carries the teardown
  finalizer at the end of that pass, so its deletion goes through the teardown of what was created.
\<close>

theorem finalizer_before_content:
  assumes "wd_objects w key = Some o'" "\<not> md_deleted (ws_meta (wo_workspace o'))" "reconcile env key w = (res, w')"
    "\<not> same_content w w'"
  shows "\<exists>o''. wd_objects w' key = Some o'' \<and> finalizer_teardown \<in> set (wo_finalizers o'')"
proof -
  have get: "on_get (rv_object env)"
    using assms(1,3,4) by (cases "on_get (rv_object env)") (auto simp: reconcile_def kube_get_def same_content_def)
  with assms(1,2,3) obtain r where live: "reconcile_live env key o' w = (r, w')"
    by (auto simp: reconcile_def kube_get_def split: prod.splits)
  let ?ws = "wo_workspace o'"
  from live [unfolded reconcile_live_def Let_def] show ?thesis
  proof (cases rule: and_then_cases)
    case (stop e)
    from keepsD [OF add_finalizer_content stop(1)] have "same_content w w'" .
    with assms(4) show ?thesis ..
  next
    case (go a w1)
    obtain o1 where o1: "wd_objects w1 key = Some o1" "finalizer_teardown \<in> set (wo_finalizers o1)"
      using add_finalizer_done [OF go(1) assms(1)] by blast
    have "keeps same_finalizers (and_then (fetch_template env ?ws) (\<lambda>tpl.
      and_then (check_kubevirt env ?ws (tp_spec tpl)) (\<lambda>_. and_then (apply_lifetime env key ?ws) (\<lambda>lifetime.
      and_then (govern env ?ws tpl) (\<lambda>_. provision env o' (tp_spec tpl) lifetime)))))"
      by (intro finalizer.keeps_and_then keeps_reads keeps_lifetime keeps_govern keeps_provision)
    from keepsD [OF this go(2)] have "same_finalizers w1 w'" .
    then have "\<forall>k. map_option wo_finalizers (wd_objects w' k) = map_option wo_finalizers (wd_objects w1 k)"
      unfolding same_finalizers_def .
    from spec [OF this, of key] have "map_option wo_finalizers (wd_objects w' key) = Some (wo_finalizers o1)"
      by (simp only: o1(1) option.map)
    then obtain o2 where "wd_objects w' key = Some o2" "wo_finalizers o2 = wo_finalizers o1"
      by (cases "wd_objects w' key") simp_all
    with o1(2) show ?thesis by simp
  qed
qed

section \<open>Running sessions\<close>

text \<open>What a running session rests on, at the key of the workload: a deployment or a stateful set at one replica, a pod.\<close>

definition session_kept :: "object_key \<Rightarrow> world \<Rightarrow> world \<Rightarrow> bool" where
  "session_kept ck w w' \<longleftrightarrow>
     (\<forall>d. wk_deployments (wd_workloads w) ck = Some d \<longrightarrow> sw_replicas d = Some 1 \<longrightarrow> wk_deployments (wd_workloads w') ck = Some d) \<and>
     (\<forall>d. wk_stateful_sets (wd_workloads w) ck = Some d \<longrightarrow> sw_replicas d = Some 1 \<longrightarrow> wk_stateful_sets (wd_workloads w') ck = Some d) \<and>
     (\<forall>x. wk_pods (wd_workloads w) ck = Some x \<longrightarrow> wk_pods (wd_workloads w') ck = Some x)"

interpretation session: world_relation "session_kept ck" by unfold_locales (auto simp: session_kept_def)

lemma keeps_session: "keeps same_workloads m \<Longrightarrow> keeps (session_kept ck) m"
  by (simp add: keeps_def same_workloads_def session_kept_def)

lemma converge_keeps_session:
  assumes "compute_key ws = ck" "\<not> reload_requested ws"
  shows "keeps (session_kept ck) (converge_workload env ws s pvc False)"
proof -
  let ?p = "\<lparr>lp_calls = rv_workload env, lp_input = build_input_of env ws, lp_workspace = ws, lp_spec = s, lp_claim = pvc, lp_paused = False\<rparr>"
  have c: "calm_pass ck ?p" using assms by (simp add: calm_pass_def)
  have step: "workload_step ?p w = ensure_workload (rv_workload env) (build_input_of env ws) ws s pvc False w" for w
    by (simp add: workload_step_def)
  note k = workload_step_keeps [OF c, unfolded step]
  show ?thesis unfolding converge_workload_def
  proof (rule session.keeps_on_store)
    fix w
    show "session_kept ck w (w\<lparr>wd_workloads := snd (if ts_os s = os_windows
         then (case ensure_virtual_machine (wc_machine (rv_workload env)) ws s pvc (\<not> False) (wk_machines (wd_workloads w)) of
           (res, vms) \<Rightarrow> (map_sum id (\<lambda>ready. \<lparr>en_ready = ready, en_drifted = False, en_reloaded = False\<rparr>) res,
             (wd_workloads w)\<lparr>wk_machines := vms\<rparr>))
         else ensure_workload (rv_workload env) (build_input_of env ws) ws s pvc False (wd_workloads w))\<rparr>)"
      using k [of "wd_workloads w"] by (simp add: session_kept_def split: prod.split)
  qed
qed

text \<open>A pass that finds the workspace up: it is not being deleted, nobody asked for a reload, and neither its pause nor
  the schedule in force, its own or its template's, puts it down at that moment.\<close>

definition finds_up :: "'l reconcile_env \<Rightarrow> object_key \<Rightarrow> object_key \<Rightarrow> world \<Rightarrow> bool" where
  "finds_up env key ck w \<longleftrightarrow> (\<forall>o'. wd_objects w key = Some o' \<longrightarrow>
     (let ws = wo_workspace o' in
      compute_key ws = ck \<and> \<not> md_deleted (ws_meta ws) \<and> \<not> reload_requested ws \<and>
      (\<forall>tpl. cl_template (rv_cluster env) (md_namespace (ws_meta ws)) (sp_template_ref (ws_spec ws)) = Found tpl \<longrightarrow>
         \<not> dec_down (schedule_decision env ws (tp_spec tpl)))))"

lemma reconcile_keeps_session:
  assumes "finds_up env key ck w"
  shows "session_kept ck w (snd (reconcile env key w))"
proof (cases "kube_get (rv_object env) (wd_objects w) key")
  case (Found o')
  let ?ws = "wo_workspace o'"
  have up: "compute_key ?ws = ck" "\<not> md_deleted (ws_meta ?ws)" "\<not> reload_requested ?ws"
    "cl_template (rv_cluster env) (md_namespace (ws_meta ?ws)) (sp_template_ref (ws_spec ?ws)) = Found tpl \<Longrightarrow>
       \<not> dec_down (schedule_decision env ?ws (tp_spec tpl))" for tpl
    using assms Found by (auto simp: finds_up_def Let_def kube_simps)
  have fin: "keeps (session_kept ck) (add_finalizer env key o')"
    using add_finalizer_content [of env key o'] by (simp add: keeps_def same_content_def session_kept_def)
  note st = keeps_places(1,3,5,7,9,11) [THEN keeps_session] keeps_reload(1) [THEN keeps_session] keeps_reports(3) [THEN keeps_session]
  have prov: "keeps (session_kept ck) (provision env o' s l)" if "\<not> dec_down (schedule_decision env ?ws s)" for s l
  proof -
    have d: "dec_down (schedule_decision env ?ws s) = False" using that by simp
    show ?thesis unfolding provision_def Let_def d if_False by (intro session.keeps_and_then st converge_keeps_session up(1,3))
  qed
  have "keeps (session_kept ck) (and_then (fetch_template env ?ws) (\<lambda>tpl.
      and_then (check_kubevirt env ?ws (tp_spec tpl)) (\<lambda>_. and_then (apply_lifetime env key ?ws) (\<lambda>lifetime.
      and_then (govern env ?ws tpl) (\<lambda>_. provision env o' (tp_spec tpl) lifetime)))))"
    (is "keeps _ (and_then _ ?rest)")
  proof (cases "cl_template (rv_cluster env) (md_namespace (ws_meta ?ws)) (sp_template_ref (ws_spec ?ws))")
    case (Found tpl)
    have "and_then (fetch_template env ?ws) ?rest = ?rest tpl"
      by (rule ext) (simp add: fetch_template_def Found and_then_def yield_def)
    moreover have "keeps (session_kept ck) (?rest tpl)"
      by (intro session.keeps_and_then keeps_session keeps_reads keeps_lifetime keeps_govern prov up(4) Found)
    ultimately show ?thesis by simp
  next
    case Missing
    have "and_then (fetch_template env ?ws) ?rest =
        and_then (mark_unready env ?ws ''Pending'' ''TemplateNotFound'' [sp_template_ref (ws_spec ?ws)]) (\<lambda>_. finish (Finished requeue_missing))"
      by (rule ext) (simp add: fetch_template_def Missing and_then_def finish_def split: prod.split sum.split)
    moreover have "keeps (session_kept ck) \<dots>" by (intro session.keeps_and_then keeps_session keeps_status session.keeps_basic)
    ultimately show ?thesis by simp
  next
    case Failed
    have "and_then (fetch_template env ?ws) ?rest = finish (Retry FetchingTemplate)"
      by (rule ext) (simp add: fetch_template_def Failed and_then_def finish_def)
    then show ?thesis by (simp add: session.keeps_basic)
  qed
  with fin have "keeps (session_kept ck) (reconcile_live env key o')"
    unfolding reconcile_live_def Let_def by (rule session.keeps_and_then)
  then have "session_kept ck w (snd (reconcile_live env key o' w))" by (simp add: keeps_def)
  with Found up(2) show ?thesis by (cases "reconcile_live env key o' w") (simp add: reconcile_def)
qed (simp_all add: reconcile_def session.R_refl)

text \<open>Passes over the workspace, anybody writing anything but the workloads between them.\<close>

primrec up_passes :: "object_key \<Rightarrow> object_key \<Rightarrow> 'l reconcile_env list \<Rightarrow> world \<Rightarrow> world \<Rightarrow> bool" where
  "up_passes key ck [] w w' \<longleftrightarrow> same_workloads w w'"
| "up_passes key ck (env # envs) w w' \<longleftrightarrow>
     (\<exists>v. same_workloads w v \<and> finds_up env key ck v \<and> up_passes key ck envs (snd (reconcile env key v)) w')"

text \<open>C19: No reconciliation interrupts a session of a workspace that is up. Over any number of whole passes, between which
  anybody may change anything but the workloads themselves (the template, its kind, the overrides, the catalog, the
  policies, the workspace's own schedule), and whatever calls fail, every deployment or stateful set at one replica and
  every pod of the workspace stays exactly the object it was: same pod template, same replicas. The passes are those that
  find the workspace up: not being deleted, without a reload request, and put down neither by its pause nor by the
  schedule in force at the pass; what a schedule's edge, a pause, a reload or a deletion interrupts is not covered. A pass
  that finds the lifetime of the workspace over only asks for its deletion.
\<close>

theorem running_session_untouched:
  assumes "up_passes key ck envs w w'"
  shows "(\<forall>d. wk_deployments (wd_workloads w) ck = Some d \<longrightarrow> sw_replicas d = Some 1 \<longrightarrow> wk_deployments (wd_workloads w') ck = Some d) \<and>
    (\<forall>d. wk_stateful_sets (wd_workloads w) ck = Some d \<longrightarrow> sw_replicas d = Some 1 \<longrightarrow> wk_stateful_sets (wd_workloads w') ck = Some d) \<and>
    (\<forall>x. wk_pods (wd_workloads w) ck = Some x \<longrightarrow> wk_pods (wd_workloads w') ck = Some x)"
proof -
  have same: "session_kept ck u v" if "same_workloads u v" for u v
    using that by (simp add: same_workloads_def session_kept_def)
  have "session_kept ck w w'" using assms
  proof (induction envs arbitrary: w)
    case (Cons env envs)
    then obtain v where "same_workloads w v" "finds_up env key ck v" "up_passes key ck envs (snd (reconcile env key v)) w'" by auto
    with Cons.IH same reconcile_keeps_session show ?case by (meson session.R_trans)
  qed (simp add: same)
  then show ?thesis by (simp add: session_kept_def)
qed

section \<open>Governance before compute\<close>

text \<open>What a governance decision without a denial means.\<close>

definition governed :: "'l reconcile_env \<Rightarrow> workspace \<Rightarrow> workspace_template \<Rightarrow> bool" where
  "governed env ws tpl \<longleftrightarrow>
     (let cl = rv_cluster env; ns = md_namespace (ws_meta ws) in
      cl_images cl ns = Some [] \<and> cl_policies cl ns = Some [] \<or>
      (\<exists>catalog policies pol tie img others.
         cl_images cl ns = Some catalog \<and> cl_policies cl ns = Some policies \<and>
         resolve_policy policies (identity_of ws) = Inr (pol, tie) \<and>
         find_image catalog (ts_image (tp_spec tpl)) = Some img \<and>
         image_allowed img pol (identity_of ws) = None \<and> check_tag_discipline img (ts_image (tp_spec tpl)) = None \<and>
         check_protocol tpl img = None \<and>
         check_overrides (plc_text (rv_placement env)) (rv_order env) ws tpl (Some pol) (identity_of ws) (rv_pattern env) = None \<and>
         sibling_loads cl ws catalog = Some others \<and>
         check_limits (fst (load_of ws tpl (Some img))) (snd (load_of ws tpl (Some img))) img pol others = None))"

lemma evaluate_governance_governed:
  assumes "evaluate_governance env ws tpl = (p, None)"
  shows "governed env ws tpl"
proof -
  let ?cl = "rv_cluster env" and ?ns = "md_namespace (ws_meta ws)" and ?i = "identity_of ws" and ?ref = "ts_image (tp_spec tpl)"
  obtain catalog policies where lists: "cl_images ?cl ?ns = Some catalog" "cl_policies ?cl ?ns = Some policies"
    using assms by (auto simp: evaluate_governance_def Let_def split: option.splits)
  show ?thesis
  proof (cases "policies = [] \<and> catalog = []")
    case True
    with lists show ?thesis by (simp add: governed_def Let_def)
  next
    case False
    obtain pol tie where pol: "resolve_policy policies ?i = Inr (pol, tie)"
      using assms lists False by (auto simp: evaluate_governance_def Let_def split: sum.splits)
    obtain img where img: "find_image catalog ?ref = Some img"
      using assms lists False pol by (auto simp: evaluate_governance_def Let_def split: option.splits)
    have checks: "first_denial [image_allowed img pol ?i, check_tag_discipline img ?ref, check_protocol tpl img,
        check_overrides (plc_text (rv_placement env)) (rv_order env) ws tpl (Some pol) ?i (rv_pattern env)] = None"
      using assms lists False pol img by (auto simp: evaluate_governance_def Let_def split: option.splits)
    obtain others where others: "sibling_loads ?cl ws catalog = Some others"
      using assms lists False pol img checks by (auto simp: evaluate_governance_def Let_def split: option.splits)
    have "check_limits (fst (load_of ws tpl (Some img))) (snd (load_of ws tpl (Some img))) img pol others = None"
      using assms lists False pol img checks others by (simp add: evaluate_governance_def Let_def split: prod.splits)
    with lists pol img checks others show ?thesis
      unfolding governed_def Let_def by (intro disjI2 exI conjI) (auto simp: first_denial_None)
  qed
qed

text \<open>The stages between the lists and the workload leave the workloads alone, and so do those after it.\<close>

lemma govern_passed:
  assumes "govern env ws tpl w = (Inr a, w1)"
  shows "sp_paused (ws_spec ws) \<or> compute_exists (rv_workload env) ws (tp_spec tpl) (wd_workloads w) = Inr True \<or>
    governed env ws tpl"
proof (cases "sp_paused (ws_spec ws) \<or> compute_exists (rv_workload env) ws (tp_spec tpl) (wd_workloads w) = Inr True")
  case False
  obtain p d where g: "evaluate_governance env ws tpl = (p, d)" by fastforce
  have "compute_exists (rv_workload env) ws (tp_spec tpl) (wd_workloads w) = Inr False"
    using assms False by (auto simp: govern_def split: sum.splits bool.splits)
  with assms False g have "d = None"
    by (auto simp: govern_def and_then_def finish_def record_events_def split: option.splits sum.splits prod.splits)
  with g evaluate_governance_governed show ?thesis by blast
qed auto

text \<open>A pass that changes a workload went past every stage that leaves them alone.\<close>

lemma and_then_changed:
  assumes "and_then m f w = (r, w')" "wd_workloads w' \<noteq> wd_workloads w" "keeps same_workloads m"
  obtains a w1 where "m w = (Inr a, w1)" "f a w1 = (r, w')" "wd_workloads w1 = wd_workloads w"
  using assms(1)
proof (cases rule: and_then_cases)
  case (stop e)
  with keepsD [OF assms(3) stop(1)] assms(2) show ?thesis by (simp add: same_workloads_def)
next
  case (go a w1)
  with keepsD [OF assms(3) go(1)] that show ?thesis by (simp add: same_workloads_def)
qed

lemma fetch_template_found:
  "fetch_template env ws w = (Inr tpl, w') \<Longrightarrow>
     cl_template (rv_cluster env) (md_namespace (ws_meta ws)) (sp_template_ref (ws_spec ws)) = Found tpl"
  by (auto simp: fetch_template_def yield_def finish_def and_then_def split: fetched.splits prod.splits sum.splits)

lemma add_finalizer_workloads: "keeps same_workloads (add_finalizer env key o')"
  by (simp add: keeps_def add_finalizer_def same_workloads_def split: prod.split)

text \<open>C2: No compute without governance. When a pass changes any deployment, stateful set, pod or virtual machine, its
  template was read, and the workspace is paused, or had its workload before, or passes the whole decision on the
  identity stored with it: an approved image under the resolved policy with a pinned tag and a served protocol,
  override rights, and every quota against the owner's other workspaces; or the namespace holds no governance
  object at all.
\<close>

theorem compute_needs_governance:
  assumes "wd_objects w key = Some o'" "\<not> md_deleted (ws_meta (wo_workspace o'))" "reconcile env key w = (res, w')"
    "wd_workloads w' \<noteq> wd_workloads w" "ws = wo_workspace o'"
  shows "\<exists>tpl. cl_template (rv_cluster env) (md_namespace (ws_meta ws)) (sp_template_ref (ws_spec ws)) = Found tpl \<and>
    (sp_paused (ws_spec ws) \<or> compute_exists (rv_workload env) ws (tp_spec tpl) (wd_workloads w) = Inr True \<or>
     governed env ws tpl)"
proof -
  have get: "on_get (rv_object env)"
    using assms(1,3,4) by (cases "on_get (rv_object env)") (auto simp: reconcile_def kube_get_def)
  with assms(1,2,3) obtain r where live: "reconcile_live env key o' w = (r, w')"
    by (auto simp: reconcile_def kube_get_def split: prod.splits)
  have ne: "wd_workloads w' \<noteq> wd_workloads v" if "wd_workloads v = wd_workloads w" for v using assms(4) that by simp
  note live [unfolded reconcile_live_def Let_def, folded assms(5)]
  then obtain a w1 where s: "and_then (fetch_template env ws) (\<lambda>tpl.
      and_then (check_kubevirt env ws (tp_spec tpl)) (\<lambda>_. and_then (apply_lifetime env key ws) (\<lambda>lifetime.
      and_then (govern env ws tpl) (\<lambda>_. provision env o' (tp_spec tpl) lifetime)))) w1 = (r, w')"
    and w1: "wd_workloads w1 = wd_workloads w"
    by (rule and_then_changed) (rule assms(4), rule add_finalizer_workloads, simp)
  from s obtain tpl w2 where f: "fetch_template env ws w1 = (Inr tpl, w2)"
    and s: "and_then (check_kubevirt env ws (tp_spec tpl)) (\<lambda>_. and_then (apply_lifetime env key ws) (\<lambda>lifetime.
      and_then (govern env ws tpl) (\<lambda>_. provision env o' (tp_spec tpl) lifetime))) w2 = (r, w')"
    and w2: "wd_workloads w2 = wd_workloads w"
    by (rule and_then_changed) (rule ne, rule w1, rule keeps_reads, simp add: w1)
  from s obtain b w3 where s: "and_then (apply_lifetime env key ws) (\<lambda>lifetime.
      and_then (govern env ws tpl) (\<lambda>_. provision env o' (tp_spec tpl) lifetime)) w3 = (r, w')"
    and w3: "wd_workloads w3 = wd_workloads w"
    by (rule and_then_changed) (rule ne, rule w2, rule keeps_reads, simp add: w2)
  from s obtain lifetime w4 where s: "and_then (govern env ws tpl) (\<lambda>_. provision env o' (tp_spec tpl) lifetime) w4 = (r, w')"
    and w4: "wd_workloads w4 = wd_workloads w"
    by (rule and_then_changed) (rule ne, rule w3, rule keeps_lifetime, simp add: w3)
  from s obtain c w5 where "govern env ws tpl w4 = (Inr c, w5)"
    by (rule and_then_changed) (rule ne, rule w4, rule keeps_govern, simp)
  from govern_passed [OF this] w4 fetch_template_found [OF f] show ?thesis by auto
qed

text \<open>A workspace first reconciled while paused is never governed by the reconciler. The pass that pauses it
  creates its deployment at zero replicas, and from then on the gate takes that deployment for existing
  compute: once the workspace is resumed, whatever the catalog, the policies and the usage of the owner
  have become, the gate passes without an event and the workload stage starts the desktop.
\<close>

lemma created_paused_never_governed:
  assumes "workload_kind_or_default s = ''Deployment''" "ts_os s \<noteq> os_windows" "quiet (wc_deployment (rv_workload env))"
    "converge_workload env ws s pvc True w = (Inr report, w1)"
    "compute_key ws' = compute_key ws" "tp_spec tpl = s" "on_get (wc_deployment (rv_workload env'))"
    "quiet (wc_deployment (rv_workload env'))" "wd_workloads w2 = wd_workloads w1"
  shows "govern env' ws' tpl w2 = (Inr (), w2) \<and>
    (\<forall>pvc' report' w3. converge_workload env' ws' s pvc' False w2 = (Inr report', w3) \<longrightarrow>
       (\<exists>d. wk_deployments (wd_workloads w3) (compute_key ws') = Some d \<and> sw_replicas d = Some 1))"
proof -
  have runs: "\<exists>d. wk_deployments (wd_workloads v') (compute_key u) = Some d \<and> sw_replicas d = Some (desired_replicas down)"
    if "converge_workload e u s pv down v = (Inr r, v')" "quiet (wc_deployment (rv_workload e))"
    for e :: "'l reconcile_env" and u pv down v r v'
  proof -
    from that(1) assms(1,2) obtain st' where "ensure_deployment (wc_deployment (rv_workload e)) (build_input_of e u) u s pv down
        (wk_deployments (wd_workloads v)) = (Inr r, st')" "wk_deployments (wd_workloads v') = st'"
      by (auto simp: converge_workload_def on_store_def ensure_workload_def split: prod.splits sum.splits)
    with deployment.converged [OF that(2)] show ?thesis by blast
  qed
  from runs [OF assms(4,3)] assms(5,9) obtain d where "wk_deployments (wd_workloads w2) (compute_key ws') = Some d" by auto
  then have "compute_exists (rv_workload env') ws' (tp_spec tpl) (wd_workloads w2) = Inr True"
    using assms(2,6,7) by (simp add: compute_exists_def exists_or_def kube_get_def Let_def)
  then have "govern env' ws' tpl w2 = (Inr (), w2)" by (simp add: govern_def)
  moreover have "\<exists>d. wk_deployments (wd_workloads w3) (compute_key ws') = Some d \<and> sw_replicas d = Some 1"
    if "converge_workload env' ws' s pvc' False w2 = (Inr report', w3)" for pvc' report' w3
    using runs [OF that assms(8)] by (simp add: desired_replicas_def)
  ultimately show ?thesis by blast
qed

section \<open>The requeue\<close>

lemma earliest_requeue_fold:
  assumes "0 \<le> (b :: int)"
  shows "let m = foldl (\<lambda>best d. if 0 < d \<and> (best = 0 \<or> d < best) then d else best) b ds in
    0 \<le> m \<and> (0 < b \<longrightarrow> 0 < m \<and> m \<le> b) \<and> (\<forall>d \<in> set ds. 0 < d \<longrightarrow> 0 < m \<and> m \<le> d)"
  using assms
proof (induction ds arbitrary: b)
  case (Cons d ds)
  have "0 \<le> (if 0 < d \<and> (b = 0 \<or> d < b) then d else b)" using Cons.prems by auto
  from Cons.IH [OF this] Cons.prems show ?case by (fastforce simp: Let_def split: if_splits)
qed simp

text \<open>The earliest of some delays is no later than any of those that are set.\<close>

lemma earliest_requeue_least: "d \<in> set ds \<Longrightarrow> 0 < d \<Longrightarrow> 0 < earliest_requeue ds \<and> earliest_requeue ds \<le> d"
  using earliest_requeue_fold [of 0 ds] by (auto simp: earliest_requeue_def Let_def)

text \<open>Every early end of a stage satisfies a predicate; composition keeps it.\<close>

definition stops_with :: "(pass_end \<Rightarrow> bool) \<Rightarrow> 'a stage \<Rightarrow> bool" where
  "stops_with P m \<longleftrightarrow> (\<forall>w e w'. m w = (Inl e, w') \<longrightarrow> P e)"

lemma stops_and_then: "stops_with P m \<Longrightarrow> (\<And>a. stops_with P (f a)) \<Longrightarrow> stops_with P (and_then m f)"
  by (fastforce simp: stops_with_def and_then_def split: prod.splits sum.splits)

lemma stops_basic: "stops_with P (yield a)" "P e \<Longrightarrow> stops_with P (finish e)" "stops_with P (record_events evs)"
  by (simp_all add: stops_with_def yield_def finish_def record_events_def)

lemma stops_if: "(b \<Longrightarrow> stops_with P m) \<Longrightarrow> (\<not> b \<Longrightarrow> stops_with P n) \<Longrightarrow> stops_with P (if b then m else n)"
  by simp

lemma stops_on_store: "(\<And>e. P (Retry e)) \<Longrightarrow> stops_with P (on_store get put err f)"
  by (auto simp: stops_with_def on_store_def split: prod.splits sum.splits)

lemmas stops_intros = stops_and_then stops_basic stops_if stops_on_store

text \<open>The ends that wake up the reconciler by an instant, or sooner than that anyway.\<close>

definition wakes_by :: "int \<Rightarrow> pass_end \<Rightarrow> bool" where
  "wakes_by delay e = (case e of Retry _ \<Rightarrow> True | Finished d \<Rightarrow> 0 < d \<and> (d \<le> delay \<or> d = requeue_missing))"

lemma wakes_retry [simp]: "wakes_by delay (Retry e)" "wakes_by delay (Finished requeue_missing)"
  by (simp_all add: wakes_by_def requeue_missing_def second_def)

lemma wakes_earliest: "delay \<in> set ds \<Longrightarrow> 0 < delay \<Longrightarrow> wakes_by delay (Finished (earliest_requeue ds))"
  using earliest_requeue_least [of delay ds] by (simp add: wakes_by_def)

lemma stops_places:
  "stops_with (wakes_by delay) (place_namespace env ws s)" "stops_with (wakes_by delay) (place_home env ws s)"
  "stops_with (wakes_by delay) (place_secrets env ws s)" "stops_with (wakes_by delay) (place_config env ws s)"
  "stops_with (wakes_by delay) (place_pull_secret env ws s)" "stops_with (wakes_by delay) (converge_workload env ws s pvc down)"
  "stops_with (wakes_by delay) (consume_reload env ws report down)" "stops_with (wakes_by delay) (place_service env ws s)"
proof -
  have "stops_with (wakes_by delay) (clear_reload_request env ws)"
    by (auto simp: stops_with_def clear_reload_request_def Let_def split: fetched.splits prod.splits if_splits)
  then show "stops_with (wakes_by delay) (consume_reload env ws report down)"
    unfolding consume_reload_def by (intro stops_intros)
qed (auto simp: place_namespace_def place_home_def place_secrets_def place_config_def place_pull_secret_def converge_workload_def
    place_service_def mark_unready_def split: option.split intro!: stops_intros)

lemma up_requeue_wakes:
  assumes "0 < delay" "schedule_requeue env d = delay"
  shows "wakes_by delay (Finished (up_requeue env d lifetime report conn))"
proof -
  have e: "0 < earliest_requeue [delay, lifetime] \<and> earliest_requeue [delay, lifetime] \<le> delay"
    using assms(1) by (intro earliest_requeue_least) simp_all
  then have "0 < earliest_requeue [10 * second, earliest_requeue [delay, lifetime]] \<and>
      earliest_requeue [10 * second, earliest_requeue [delay, lifetime]] \<le> earliest_requeue [delay, lifetime]"
    by (intro earliest_requeue_least) simp_all
  with e assms show ?thesis
    using wakes_earliest [of delay "[requeue_transient, delay]"] by (auto simp: up_requeue_def wakes_by_def)
qed


section \<open>Teardown\<close>

text \<open>What is left of one kind at a key: nothing, or a pod that is terminating.\<close>

definition cleared :: "'l reconcile_env \<Rightarrow> object_key \<Rightarrow> string \<Rightarrow> world \<Rightarrow> bool" where
  "cleared env key kind w \<longleftrightarrow>
     (if kind = ''Deployment'' then wk_deployments (wd_workloads w) key = None
      else if kind = ''StatefulSet'' then wk_stateful_sets (wd_workloads w) key = None
      else if kind = ''Pod'' then (\<forall>p. wk_pods (wd_workloads w) key = Some p \<longrightarrow> md_deleted (dp_meta p))
      else if kind = ''Service'' then wd_services w key = None
      else if kind = ''Secret'' then wd_secrets w key = None
      else if kind = ''ConfigMap'' then wd_configs w key = None
      else rv_machine_known env \<longrightarrow> wk_machines (wd_workloads w) key = None)"

lemma kube_delete_clears: "kube_delete c st key = (r, st') \<Longrightarrow> deleted_or_gone r \<Longrightarrow> st' key = None"
  by (auto simp: kube_delete_def split: if_splits option.splits)

lemma kube_delete_none: "kube_delete c st j = (r, st') \<Longrightarrow> st key = None \<Longrightarrow> st' key = None"
  by (auto simp: kube_delete_def split: if_splits option.splits)

lemma delete_pod_clears:
  "delete_pod c st key = (r, st') \<Longrightarrow> deleted_or_gone r \<Longrightarrow> st' key = Some p \<Longrightarrow> md_deleted (dp_meta p)"
  by (auto simp: delete_pod_def split: if_splits option.splits)

lemma delete_pod_deleted:
  "delete_pod c st j = (r, st') \<Longrightarrow> \<forall>p. st key = Some p \<longrightarrow> md_deleted (dp_meta p) \<Longrightarrow>
    \<forall>p. st' key = Some p \<longrightarrow> md_deleted (dp_meta p)"
  by (auto simp: delete_pod_def split: if_splits option.splits)

lemma delete_kind_clears: "delete_kind env key kind w = (r, w') \<Longrightarrow> deleted_or_gone r \<Longrightarrow> cleared env key kind w'"
  by (auto simp: delete_kind_def cleared_def Let_def dest: kube_delete_clears delete_pod_clears split: prod.splits if_splits)

lemma delete_kind_frame:
  assumes "delete_kind env key kind w = (r, w')"
  shows "wk_deployments (wd_workloads w) j = None \<Longrightarrow> wk_deployments (wd_workloads w') j = None"
    "wk_stateful_sets (wd_workloads w) j = None \<Longrightarrow> wk_stateful_sets (wd_workloads w') j = None"
    "wk_machines (wd_workloads w) j = None \<Longrightarrow> wk_machines (wd_workloads w') j = None"
    "wd_services w j = None \<Longrightarrow> wd_services w' j = None" "wd_secrets w j = None \<Longrightarrow> wd_secrets w' j = None"
    "wd_configs w j = None \<Longrightarrow> wd_configs w' j = None"
    "\<forall>p. wk_pods (wd_workloads w) j = Some p \<longrightarrow> md_deleted (dp_meta p) \<Longrightarrow>
       \<forall>p. wk_pods (wd_workloads w') j = Some p \<longrightarrow> md_deleted (dp_meta p)"
  using assms unfolding delete_kind_def Let_def
  by (auto dest: kube_delete_none delete_pod_deleted split: prod.splits if_splits)

lemma delete_kind_keeps: "delete_kind env key kind w = (r, w') \<Longrightarrow> cleared env key k w \<Longrightarrow> cleared env key k w'"
  using delete_kind_frame [of env key kind w r w' key] unfolding cleared_def by (simp split: if_splits)

lemma teardown_keeps: "cleared env key k w \<Longrightarrow> cleared env key k (snd (teardown_kinds env key kinds w))"
proof (induction env key kinds w rule: teardown_kinds.induct)
  case (2 env key kind kinds w)
  obtain r w1 where d: "delete_kind env key kind w = (r, w1)" by fastforce
  from delete_kind_keeps [OF d 2(3)] 2 d show ?case by (cases "kind = ''PersistentVolumeClaim''") auto
qed simp

lemma teardown_clears:
  "teardown_kinds env key kinds w = (Inr u, w') \<Longrightarrow> kind \<in> set kinds \<Longrightarrow> kind \<noteq> ''PersistentVolumeClaim'' \<Longrightarrow> cleared env key kind w'"
proof (induction env key kinds w rule: teardown_kinds.induct)
  case (2 env key k kinds w)
  show ?case
  proof (cases "k = ''PersistentVolumeClaim''")
    case True
    with 2 show ?thesis by auto
  next
    case False
    obtain r w1 where d: "delete_kind env key k w = (r, w1)" by fastforce
    with 2(3) False have ok: "deleted_or_gone r" and rest: "teardown_kinds env key kinds w1 = (Inr u, w')" by (auto split: if_splits)
    show ?thesis
    proof (cases "kind = k")
      case True
      from teardown_keeps [OF delete_kind_clears [OF d ok], of kinds] rest show ?thesis by (simp add: True)
    next
      case neq: False
      with 2(2) [OF False d [symmetric] ok rest] 2(4,5) show ?thesis by simp
    qed
  qed
qed simp

text \<open>C18: A deleted workspace leaves no compute behind in the namespace it was placed in. When the deletion pass of a
  workspace with the teardown finalizer ends without a retry, there is no deployment, stateful set, service, secret
  or configuration at its workload name any more, no virtual machine where that kind exists, and a pod only
  if it is terminating. The home volume is not among these (its own policy decides), nor are the copies of
  registry credentials, which workspaces of the namespace share.
\<close>

theorem teardown_leaves_nothing:
  assumes "reconcile_deleted env key o' w = (Finished d, w')" "finalizer_teardown \<in> set (wo_finalizers o')"
    "effective_target_namespace (wo_workspace o') \<noteq> md_namespace (ws_meta (wo_workspace o'))"
  shows "let key = compute_key (wo_workspace o') in
    wk_deployments (wd_workloads w') key = None \<and> wk_stateful_sets (wd_workloads w') key = None \<and>
    wd_services w' key = None \<and> wd_secrets w' key = None \<and> wd_configs w' key = None \<and>
    (\<forall>p. wk_pods (wd_workloads w') key = Some p \<longrightarrow> md_deleted (dp_meta p)) \<and>
    (rv_machine_known env \<longrightarrow> wk_machines (wd_workloads w') key = None)"
proof -
  from assms obtain evs cl w1 u where f: "finalize_home_volume (rv_volume env) (rv_now_text env) (wo_workspace o') (wd_claims w) = (Inr evs, cl)"
    and t: "teardown_kinds env (compute_key (wo_workspace o')) workspace_content_kinds
        (w\<lparr>wd_claims := cl, wd_events := wd_events w @ map volume_event_name evs\<rparr>) = (Inr u, w1)"
    and r: "remove_finalizer env key o' w1 = (Finished d, w')"
    by (auto simp: reconcile_deleted_def teardown_placement_def Let_def split: prod.splits sum.splits)
  have "wd_workloads w' = wd_workloads w1 \<and> wd_services w' = wd_services w1 \<and> wd_secrets w' = wd_secrets w1 \<and> wd_configs w' = wd_configs w1"
    using r by (auto simp: remove_finalizer_def Let_def split: prod.splits outcome.splits)
  then have "cleared env (compute_key (wo_workspace o')) kind w' = cleared env (compute_key (wo_workspace o')) kind w1" for kind
    by (simp add: cleared_def)
  with teardown_clears [OF t]
  have c: "kind \<in> set workspace_content_kinds \<Longrightarrow> kind \<noteq> ''PersistentVolumeClaim'' \<Longrightarrow> cleared env (compute_key (wo_workspace o')) kind w'" for kind
    by simp
  show ?thesis
    using c [of "''Deployment''"] c [of "''StatefulSet''"] c [of "''Pod''"] c [of "''Service''"] c [of "''Secret''"]
      c [of "''ConfigMap''"] c [of "''VirtualMachine''"]
    by (simp add: workspace_content_kinds_def cleared_def Let_def)
qed

section \<open>Instances\<close>

definition demo_object :: workspace_object where
  "demo_object = \<lparr>wo_workspace = demo_workspace, wo_generation = 1, wo_finalizers = [], wo_status = empty_status\<rparr>"

definition demo_pass_env :: "unit cron_lib \<Rightarrow> service api \<Rightarrow> unit reconcile_env" where
  "demo_pass_env lib sv = \<lparr>rv_cluster = demo_cluster, rv_object = answering, rv_status = answering, rv_kubevirt = False,
     rv_machine_known = False, rv_now = 0, rv_now_text = [], rv_parse_time = (\<lambda>_. None), rv_volume = demo_api,
     rv_ledger = demo_codec, rv_expire = ApiOk, rv_namespace = demo_namespace_calls, rv_placement = demo_placement,
     rv_pattern = [], rv_order = (\<lambda>S. filter (\<lambda>f. f \<in> S) all_overridable_fields), rv_kasm = demo_secret_calls, rv_desktop = demo_secret_calls,
     rv_config = answering, rv_yaml = plain_codec, rv_pull = \<lparr>pc_source = True, pc_dest = answering\<rparr>,
     rv_workload = demo_calls, rv_digest = id, rv_fingerprint = pt_image, rv_service = sv,
     rv_pods = Some [], rv_cron = lib, rv_probe = (\<lambda>_. False)\<rparr>"

definition demo_world :: world where
  "demo_world = \<lparr>wd_objects = [(''waas'', ''w1'') \<mapsto> demo_object], wd_claims = Map.empty, wd_namespaces = no_namespaces,
     wd_secrets = Map.empty, wd_configs = Map.empty,
     wd_workloads = \<lparr>wk_deployments = Map.empty, wk_stateful_sets = Map.empty, wk_pods = Map.empty, wk_machines = Map.empty\<rparr>,
     wd_services = Map.empty, wd_events = []\<rparr>"

lemma demo_owner_identity: "identity_of demo_workspace = demo_caller_identity"
  by (simp add: identity_of_def ws_annotation_def webhook_demo str_at_def split_list_def)

lemma demo_governed: "evaluate_governance (demo_pass_env lib sv) demo_workspace demo_sized_template = (Some (demo_policy ''p'' 0 []), None)"
proof -
  have l: "sibling_loads demo_cluster demo_workspace [demo_image ''i'' ''''] = Some [retained_load 5]"
    by (simp add: sibling_loads_def demo_cluster_def owner_loads_def retained_volume_loads_def retained_of_def demo_claim_def
        label_names demo_meta_def demo_workspace_def effective_target_namespace_def)
  have e: "rv_cluster (demo_pass_env lib sv) = demo_cluster" "plc_text (rv_placement (demo_pass_env lib sv)) = v_text demo_validator"
    "rv_order (demo_pass_env lib sv) = v_order demo_validator" "rv_pattern (demo_pass_env lib sv) = v_pattern demo_validator"
    by (simp_all add: demo_pass_env_def demo_placement_def demo_validator_def)
  show ?thesis by (simp add: evaluate_governance_def e demo_owner_identity l Let_def demo_decision first_denial_None)
qed


lemma demo_compute_key: "compute_key demo_workspace = (''waas'', ''ws-w1'')"
  by (simp add: compute_key_def effective_target_namespace_def effective_workload_name_def webhook_demo)


lemmas pass_demo = demo_pass_env_def demo_world_def demo_object_def

lemma demo_start:
  "add_finalizer (demo_pass_env lib sv) (''waas'', ''w1'') demo_object demo_world =
     (Inr (), demo_world\<lparr>wd_objects := [(''waas'', ''w1'') \<mapsto> demo_object\<lparr>wo_finalizers := [finalizer_teardown]\<rparr>]\<rparr>)"
  by (simp add: add_finalizer_def kube_update_def pass_demo)

lemma demo_fetch: "fetch_template (demo_pass_env lib sv) demo_workspace w = (Inr demo_sized_template, w)"
  by (simp add: fetch_template_def demo_pass_env_def demo_cluster_def demo_workspace_def yield_def)

lemma demo_linux: "check_kubevirt (demo_pass_env lib sv) demo_workspace (tp_spec demo_sized_template) w = (Inr (), w)"
  by (simp add: check_kubevirt_def demo_sized_template_def demo_template_def os_linux_def os_windows_def yield_def)


lemma demo_no_expiry: "apply_lifetime (demo_pass_env lib sv) key demo_workspace w = (Inr 0, w)"
  by (simp add: apply_lifetime_def enforce_lifetime_def demo_pass_env_def demo_decision demo_owner_identity)
    (simp add: demo_policy_def)

lemma demo_allowed: "govern (demo_pass_env lib sv) demo_workspace demo_sized_template w = record_events [''PolicyApplied''] w"
  if "wd_workloads w = wd_workloads demo_world"
proof -
  have "compute_exists (rv_workload (demo_pass_env lib sv)) demo_workspace (tp_spec demo_sized_template) (wd_workloads w) = Inr False"
    unfolding that by (simp add: compute_exists_def exists_or_def kube_get_def pass_demo demo_calls_def Let_def)
  moreover have "\<not> sp_paused (ws_spec demo_workspace)" by (simp add: demo_workspace_def)
  ultimately show ?thesis by (simp add: govern_def demo_governed)
qed


text \<open>The desktop of the demo template under any schedule.\<close>

definition demo_desktop :: "workspace_schedule option \<Rightarrow> template_spec" where
  "demo_desktop sch = (tp_spec demo_sized_template)\<lparr>ts_schedule := sch\<rparr>"

lemma demo_desktop_unscheduled: "tp_spec demo_sized_template = demo_desktop None"
  by (simp add: demo_desktop_def demo_sized_template_def demo_template_def)

lemma demo_local: "effective_target_namespace demo_workspace = md_namespace (ws_meta demo_workspace)"
  "\<not> template_has_kasmvnc (demo_desktop sch)" "\<not> kasm_password_generated demo_workspace (demo_desktop sch)"
  by (simp_all add: effective_target_namespace_def webhook_demo demo_desktop_def template_has_kasmvnc_def kasm_password_generated_def
      effective_protocols_def os_linux_def os_windows_def protocol_kasmvnc_def)


text \<open>What the remaining stages find in the stores they write; each stage leaves the later stores empty.\<close>

lemma demo_placed: "\<exists>w1. place_namespace (demo_pass_env lib sv) demo_workspace (demo_desktop sch) w = (Inr (), w1) \<and>
   wd_claims w1 = wd_claims w \<and> wd_secrets w1 = wd_secrets w \<and> wd_configs w1 = wd_configs w \<and> wd_workloads w1 = wd_workloads w"
  by (simp add: place_namespace_def ensure_namespace_def demo_local on_store_def and_then_def record_events_def)

lemma demo_homed: "wd_claims w = Map.empty \<Longrightarrow>
   \<exists>w1. place_home (demo_pass_env lib sv) demo_workspace (demo_desktop sch) w = (Inr (home_pvc_name demo_workspace), w1) \<and>
     wd_secrets w1 = wd_secrets w \<and> wd_configs w1 = wd_configs w \<and> wd_workloads w1 = wd_workloads w"
  by (simp add: place_home_def ensure_home_pvc_def on_store_def and_then_def record_events_def get_claim_def demo_pass_env_def
     demo_api_def yield_def Let_def)

lemma demo_secret: "wd_secrets w = Map.empty \<Longrightarrow>
   \<exists>w1. place_secrets (demo_pass_env lib sv) demo_workspace (demo_desktop sch) w = (Inr (), w1) \<and>
     wd_configs w1 = wd_configs w \<and> wd_workloads w1 = wd_workloads w"
  by (simp add: place_secrets_def ensure_kasm_credentials_def demo_local ensure_desktop_credentials_def ensure_password_def resolve_password_def
     sync_pod_copy_def kube_get_def kube_create_def  on_store_def and_then_def demo_pass_env_def demo_secret_calls_def Let_def)

lemma demo_config: "wd_configs w = Map.empty \<Longrightarrow>
   \<exists>w1. place_config (demo_pass_env lib sv) demo_workspace (demo_desktop sch) w = (Inr (), w1) \<and> wd_workloads w1 = wd_workloads w"
  by (simp add: place_config_def ensure_kasm_config_def demo_local kube_get_def on_store_def demo_pass_env_def Let_def)

lemma demo_pull: "\<exists>w1. place_pull_secret (demo_pass_env lib sv) demo_workspace (demo_desktop sch) w = (Inr (), w1) \<and>
   wd_workloads w1 = wd_workloads w"
proof -
  have "ts_image (demo_desktop sch) = ts_image (tp_spec demo_sized_template)" by (simp add: demo_desktop_def)
  then have "image_pull_secret_ref (cl_images demo_cluster ns) (demo_desktop sch) = []" for ns
    by (simp add: image_pull_secret_ref_def demo_decision) (simp add: demo_image_def)
  then show ?thesis
    by (simp add: place_pull_secret_def ensure_pull_secret_def on_store_def and_then_def demo_pass_env_def yield_def)
qed


lemma demo_converged: "wd_workloads w = wd_workloads demo_world \<Longrightarrow>
   \<exists>w1. converge_workload (demo_pass_env lib sv) demo_workspace (demo_desktop sch) h down w = (Inr nothing_yet, w1) \<and>
     wk_deployments (wd_workloads w1) (compute_key demo_workspace) \<noteq> None"
proof -
  assume w: "wd_workloads w = wd_workloads demo_world"
  have linux: "ts_os (demo_desktop sch) \<noteq> os_windows" "workload_kind_or_default (demo_desktop sch) = ''Deployment''"
    by (simp_all add: demo_desktop_def demo_sized_template_def demo_template_def os_linux_def os_windows_def workload_kind_or_default_def)
  have calls: "rv_workload (demo_pass_env lib sv) = demo_calls" "wd_workloads demo_world = \<lparr>wk_deployments = Map.empty,
      wk_stateful_sets = Map.empty, wk_pods = Map.empty, wk_machines = Map.empty\<rparr>"
    by (simp_all add: demo_pass_env_def demo_world_def)
  show ?thesis
    by (simp add: converge_workload_def on_store_def ensure_workload_def linux ensure_deployment_def ensure_scaled_def
        kube_get_def kube_create_def calls w demo_calls_def Let_def)
qed

text \<open>The pass from the workload on, and the whole pass up to it.\<close>

definition demo_rest :: "'l reconcile_env \<Rightarrow> workspace_object \<Rightarrow> template_spec \<Rightarrow> unit stage" where
  "demo_rest env o' s =
     (let ws = wo_workspace o'; d = schedule_decision env ws s; pvc = home_pvc_name ws in
      and_then (consume_reload env ws nothing_yet (dec_down d)) (\<lambda>_.
      and_then (place_service env ws s) (\<lambda>_.
        if dec_down d then report_down env o' s pvc d nothing_yet 0 else report_up env o' s pvc d nothing_yet 0)))"

lemma demo_rest_workloads: "wd_workloads (snd (demo_rest env o' s w)) = wd_workloads w"
proof -
  have "keeps same_workloads (demo_rest env o' s)"
    unfolding demo_rest_def Let_def
    by (intro workload.keeps_and_then workload.keeps_if keeps_reload keeps_places keeps_reports)
  then have "same_workloads w (snd (demo_rest env o' s w))" unfolding keeps_def by (rule spec)
  then show ?thesis unfolding same_workloads_def .
qed

lemma demo_provisioned:
  assumes "wd_claims w = Map.empty" "wd_secrets w = Map.empty" "wd_configs w = Map.empty" "wd_workloads w = wd_workloads demo_world"
    "wo_workspace o' = demo_workspace"
  obtains w' where "provision (demo_pass_env lib sv) o' (demo_desktop sch) 0 w = demo_rest (demo_pass_env lib sv) o' (demo_desktop sch) w'"
    "wk_deployments (wd_workloads w') (compute_key demo_workspace) \<noteq> None"
proof -
  let ?e = "demo_pass_env lib sv" and ?s = "demo_desktop sch"
  let ?d = "schedule_decision ?e demo_workspace ?s"
  obtain w1 where 1: "place_namespace ?e demo_workspace ?s w = (Inr (), w1)"
    "wd_claims w1 = wd_claims w" "wd_secrets w1 = wd_secrets w" "wd_configs w1 = wd_configs w" "wd_workloads w1 = wd_workloads w"
    using demo_placed by blast
  then obtain w2 where 2: "place_home ?e demo_workspace ?s w1 = (Inr (home_pvc_name demo_workspace), w2)"
    "wd_secrets w2 = wd_secrets w" "wd_configs w2 = wd_configs w" "wd_workloads w2 = wd_workloads w"
    using demo_homed [of w1] assms by metis
  then obtain w3 where 3: "place_secrets ?e demo_workspace ?s w2 = (Inr (), w3)"
    "wd_configs w3 = wd_configs w" "wd_workloads w3 = wd_workloads w"
    using demo_secret [of w2] assms by metis
  then obtain w4 where 4: "place_config ?e demo_workspace ?s w3 = (Inr (), w4)" "wd_workloads w4 = wd_workloads w"
    using demo_config [of w3] assms by metis
  then obtain w5 where 5: "place_pull_secret ?e demo_workspace ?s w4 = (Inr (), w5)" "wd_workloads w5 = wd_workloads w"
    using demo_pull [of _ _ _ w4] by metis
  then obtain w6 where 6: "converge_workload ?e demo_workspace ?s (home_pvc_name demo_workspace) (dec_down ?d) w5 = (Inr nothing_yet, w6)"
    "wk_deployments (wd_workloads w6) (compute_key demo_workspace) \<noteq> None"
    using demo_converged [of w5] assms by metis
  have "provision ?e o' ?s 0 w = demo_rest ?e o' ?s w6"
    unfolding provision_def demo_rest_def Let_def assms(5)
    by (simp only: and_then_def [of _ _ w] and_then_def [of _ _ w1] and_then_def [of _ _ w2] and_then_def [of _ _ w3]
        and_then_def [of _ _ w4] and_then_def [of _ _ w5] 1(1) 2(1) 3(1) 4(1) 5(1) 6(1) prod.case sum.case)
  with 6(2) that show ?thesis by blast
qed

lemma demo_reconciled:
  "wk_deployments (wd_workloads (snd (reconcile (demo_pass_env lib sv) (''waas'', ''w1'') demo_world))) (''waas'', ''ws-w1'') \<noteq> None"
proof -
  let ?w1 = "demo_world\<lparr>wd_objects := [(''waas'', ''w1'') \<mapsto> demo_object\<lparr>wo_finalizers := [finalizer_teardown]\<rparr>]\<rparr>"
  have ws: "wo_workspace demo_object = demo_workspace" by (simp add: demo_object_def)
  have a: "govern (demo_pass_env lib sv) demo_workspace demo_sized_template ?w1 = (Inr (), ?w1\<lparr>wd_events := [''PolicyApplied'']\<rparr>)"
    by (subst demo_allowed) (simp_all add: demo_world_def record_events_def)
  have "reconcile_live (demo_pass_env lib sv) (''waas'', ''w1'') demo_object demo_world =
      provision (demo_pass_env lib sv) demo_object (demo_desktop None) 0 (?w1\<lparr>wd_events := [''PolicyApplied'']\<rparr>)"
    unfolding reconcile_live_def Let_def ws demo_desktop_unscheduled [symmetric]
    by (simp only: and_then_def demo_start demo_fetch demo_linux demo_no_expiry a prod.case sum.case)
  moreover have "reconcile (demo_pass_env lib sv) (''waas'', ''w1'') demo_world =
      (case reconcile_live (demo_pass_env lib sv) (''waas'', ''w1'') demo_object demo_world of (r, w') \<Rightarrow> (end_of r, w'))"
    by (simp add: reconcile_def kube_get_def demo_pass_env_def demo_world_def) (simp add: demo_object_def demo_workspace_def demo_meta_def)?
  ultimately have whole: "snd (reconcile (demo_pass_env lib sv) (''waas'', ''w1'') demo_world) =
      snd (provision (demo_pass_env lib sv) demo_object (demo_desktop None) 0 (?w1\<lparr>wd_events := [''PolicyApplied'']\<rparr>))"
    by (simp split: prod.split)
  have "wd_claims (?w1\<lparr>wd_events := [''PolicyApplied'']\<rparr>) = Map.empty" "wd_secrets (?w1\<lparr>wd_events := [''PolicyApplied'']\<rparr>) = Map.empty"
    "wd_configs (?w1\<lparr>wd_events := [''PolicyApplied'']\<rparr>) = Map.empty"
    "wd_workloads (?w1\<lparr>wd_events := [''PolicyApplied'']\<rparr>) = wd_workloads demo_world"
    by (simp_all add: demo_world_def)
  from demo_provisioned [OF this ws, of lib sv None] obtain w' where
    p: "provision (demo_pass_env lib sv) demo_object (demo_desktop None) 0 (?w1\<lparr>wd_events := [''PolicyApplied'']\<rparr>) =
        demo_rest (demo_pass_env lib sv) demo_object (demo_desktop None) w'"
    and d: "wk_deployments (wd_workloads w') (compute_key demo_workspace) \<noteq> None" by blast
  show ?thesis unfolding whole p demo_rest_workloads using d by (simp add: demo_compute_key)
qed

theorem finalizer_before_content_witness:
  "\<exists>o''. wd_objects (snd (reconcile (demo_pass_env office_lib answering) (''waas'', ''w1'') demo_world)) (''waas'', ''w1'') = Some o'' \<and>
     finalizer_teardown \<in> set (wo_finalizers o'')"
proof -
  have "wd_objects demo_world (''waas'', ''w1'') = Some demo_object" "\<not> md_deleted (ws_meta (wo_workspace demo_object))"
    by (simp_all add: demo_world_def demo_object_def demo_workspace_def demo_meta_def)
  moreover have "\<not> same_content demo_world (snd (reconcile (demo_pass_env office_lib answering) (''waas'', ''w1'') demo_world))"
    using demo_reconciled [of office_lib answering] by (auto simp: same_content_def demo_world_def)
  ultimately show ?thesis using finalizer_before_content prod.collapse [symmetric] by blast
qed

theorem compute_needs_governance_witness:
  "governed (demo_pass_env office_lib answering) demo_workspace demo_sized_template \<and> cl_images demo_cluster ''waas'' \<noteq> Some []"
proof -
  have "wd_objects demo_world (''waas'', ''w1'') = Some demo_object" "\<not> md_deleted (ws_meta (wo_workspace demo_object))"
    "demo_workspace = wo_workspace demo_object"
    by (simp_all add: demo_world_def) (simp_all add: demo_object_def demo_workspace_def demo_meta_def)?
  moreover have "wd_workloads (snd (reconcile (demo_pass_env office_lib answering) (''waas'', ''w1'') demo_world)) \<noteq> wd_workloads demo_world"
    using demo_reconciled [of office_lib answering] by (auto simp: demo_world_def)
  ultimately have "\<exists>tpl. cl_template (rv_cluster (demo_pass_env office_lib answering)) (md_namespace (ws_meta demo_workspace)) (sp_template_ref (ws_spec demo_workspace)) = Found tpl \<and>
      (sp_paused (ws_spec demo_workspace) \<or> compute_exists (rv_workload (demo_pass_env office_lib answering)) demo_workspace (tp_spec tpl) (wd_workloads demo_world) = Inr True \<or>
       governed (demo_pass_env office_lib answering) demo_workspace tpl)"
    using compute_needs_governance prod.collapse [symmetric] by blast
  moreover have "compute_exists (rv_workload (demo_pass_env office_lib answering)) demo_workspace (tp_spec demo_sized_template) (wd_workloads demo_world) = Inr False"
    by (simp add: compute_exists_def exists_or_def kube_get_def pass_demo demo_calls_def Let_def)
  moreover have "\<not> sp_paused (ws_spec demo_workspace)" "cl_template (rv_cluster (demo_pass_env office_lib answering)) (md_namespace (ws_meta demo_workspace))
      (sp_template_ref (ws_spec demo_workspace)) = Found demo_sized_template"
    by (simp_all add: demo_pass_env_def demo_cluster_def) (simp_all add: demo_workspace_def)
  ultimately show ?thesis by (auto simp: demo_decision)
qed

theorem created_paused_never_governed_witness:
  "\<exists>w2. govern ((demo_pass_env office_lib answering)\<lparr>rv_cluster := demo_cluster\<lparr>cl_images := \<lambda>_. None\<rparr>\<rparr>) demo_workspace
      demo_sized_template w2 = (Inr (), w2) \<and> wk_deployments (wd_workloads w2) (''waas'', ''ws-w1'') \<noteq> None"
proof -
  let ?e = "demo_pass_env office_lib answering" and ?s = "tp_spec demo_sized_template"
  let ?env = "?e\<lparr>rv_cluster := demo_cluster\<lparr>cl_images := \<lambda>_. None\<rparr>\<rparr>"
  have linux: "workload_kind_or_default ?s = ''Deployment''" "ts_os ?s \<noteq> os_windows"
    by (simp_all add: demo_sized_template_def demo_template_def os_linux_def os_windows_def workload_kind_or_default_def)
  have api: "wc_deployment (rv_workload ?e) = answering" "wc_deployment (rv_workload ?env) = answering"
    by (simp_all add: demo_pass_env_def demo_calls_def)
  obtain w1 where w1: "converge_workload ?e demo_workspace ?s ''h'' True demo_world = (Inr nothing_yet, w1)"
    "wk_deployments (wd_workloads w1) (compute_key demo_workspace) \<noteq> None"
    using demo_converged [OF refl] unfolding demo_desktop_unscheduled by blast
  have "govern ?env demo_workspace demo_sized_template w1 = (Inr (), w1)"
    using created_paused_never_governed [OF linux _ w1(1) refl refl _ _ refl, of ?env] unfolding api by simp
  with w1(2) show ?thesis by (auto simp: demo_compute_key)
qed

definition once_lib :: "unit cron_lib" where
  "once_lib = \<lparr>parse_cron = (\<lambda>_. Some (\<lambda>_ t. if t < 100 then Some 100 else None)), load_location = (\<lambda>_. Some ())\<rparr>"

definition once_schedule :: workspace_schedule where
  "once_schedule = \<lparr>sch_timezone = ''UTC'', sch_uptime = [''x''], sch_downtime = []\<rparr>"

lemma demo_edge:
  "dec_next (schedule_decision (demo_pass_env once_lib answering) demo_workspace (demo_desktop (Some once_schedule))) =
    Some \<lparr>edge_time = 100, edge_up = True\<rparr>"
proof -
  have "effective_schedule demo_workspace (demo_desktop (Some once_schedule)) = schedule_spec_of once_schedule"
    by (simp add: effective_schedule_def demo_desktop_def) (simp add: demo_workspace_def empty_overrides_def)
  moreover have "dec_next (resolve_schedule lib s now p m) = next_edge lib s now" for lib :: "unit cron_lib" and s now p m
    by (simp add: resolve_schedule_def Let_def split: option.split)
  moreover have "next_edge once_lib (schedule_spec_of once_schedule) 0 = Some \<lparr>edge_time = 100, edge_up = True\<rparr>"
    by (simp add: next_edge_def is_zero_def location_def next_of_def once_lib_def once_schedule_def schedule_spec_of_def)
  ultimately show ?thesis by (simp add: schedule_decision_def demo_pass_env_def)
qed

lemma demo_served: "\<exists>w1. place_service (demo_pass_env lib answering) ws s w = (Inr (), w1)"
  by (auto simp: place_service_def on_store_def ensure_service_def demo_pass_env_def kube_get_def kube_create_def kube_update_def Let_def
      split: option.split prod.split)

lemma demo_status_put: "\<exists>w1. put_status (demo_pass_env lib sv) ws m w = (Inr (), w1)"
  by (auto simp: put_status_def on_store_def patch_status_def demo_pass_env_def kube_get_def kube_update_def Let_def split: option.split)

lemma demo_finished:
  assumes "wo_workspace o' = demo_workspace"
  shows "\<exists>d w1. demo_rest (demo_pass_env lib answering) o' (demo_desktop sch) w = (Inl (Finished d), w1)"
proof -
  let ?e = "demo_pass_env lib answering" and ?s = "demo_desktop sch"
  have reload: "consume_reload ?e demo_workspace r b v = (Inr (), v)" for r b v
    using demo_no_reload by (simp add: consume_reload_def yield_def)
  have diagnosed: "\<exists>fd. diagnose ?e demo_workspace ?s nothing_yet v = (Inr fd, v)" for v
    by (auto simp: diagnose_def yield_def detect_workload_failure_def demo_pass_env_def)
  obtain w1 where s: "place_service ?e demo_workspace ?s w = (Inr (), w1)" using demo_served by blast
  have put: "\<exists>w2. and_then (record_events evs) (\<lambda>_. and_then (put_status ?e u m) (\<lambda>_. finish (Finished d))) v =
      (Inl (Finished d) :: pass_end + unit, w2)" for evs u m d v
  proof -
    obtain v' where "put_status ?e u m (v\<lparr>wd_events := wd_events v @ evs\<rparr>) = (Inr (), v')" using demo_status_put by blast
    then show ?thesis by (simp add: and_then_def record_events_def finish_def)
  qed
  have down: "\<exists>d w2. report_down ?e o' ?s pvc dn nothing_yet 0 v = (Inl (Finished d) :: pass_end + unit, w2)" for pvc dn v
    unfolding report_down_def Let_def by (cases "down_phase dn") (simp only: prod.case, rule exI, rule put)
  have up: "\<exists>d w2. report_up ?e o' ?s pvc dn nothing_yet 0 v = (Inl (Finished d) :: pass_end + unit, w2)" for pvc dn v
  proof -
    obtain failure detail where "diagnose ?e demo_workspace ?s nothing_yet v = (Inr (failure, detail), v)" using diagnosed by fastforce
    then show ?thesis unfolding report_up_def Let_def assms and_then_def [of _ _ v]
      by (cases "connection_check ?e demo_workspace ?s nothing_yet") (simp only: prod.case sum.case, rule exI, rule put)
  qed
  show ?thesis using down up
    by (simp add: demo_rest_def Let_def assms and_then_def [of _ _ w] and_then_def [of _ _ w1] reload s)
qed


definition running_world :: world where
  "running_world = demo_world\<lparr>wd_workloads := demo_running\<rparr>"

theorem running_session_untouched_witness:
  "\<exists>w'. snd (reconcile (demo_pass_env office_lib answering) (''waas'', ''w1'') running_world) = w' \<and>
     wk_deployments (wd_workloads w') (compute_key demo_workspace) = Some demo_deployment"
proof -
  let ?e = "demo_pass_env office_lib answering" and ?k = "(''waas'', ''w1'')"
  have up: "finds_up ?e ?k (compute_key demo_workspace) running_world"
    unfolding finds_up_def Let_def
  proof (intro allI impI conjI)
    fix o' tpl
    assume "wd_objects running_world ?k = Some o'"
    then have o': "wo_workspace o' = demo_workspace" by (auto simp: running_world_def demo_world_def demo_object_def)
    show "compute_key (wo_workspace o') = compute_key demo_workspace" by (simp add: o')
    show "\<not> md_deleted (ws_meta (wo_workspace o'))" by (simp add: o' demo_workspace_def demo_meta_def)
    show "\<not> reload_requested (wo_workspace o')" by (simp add: o' demo_no_reload)
    assume "cl_template (rv_cluster ?e) (md_namespace (ws_meta (wo_workspace o'))) (sp_template_ref (ws_spec (wo_workspace o'))) = Found tpl"
    then have "tpl = demo_sized_template" by (simp add: o' demo_pass_env_def demo_cluster_def demo_workspace_def split: if_splits)
    then show "\<not> dec_down (schedule_decision ?e (wo_workspace o') (tp_spec tpl))"
      by (simp add: o' schedule_decision_def effective_schedule_def resolve_schedule_def scheduled_down_def is_zero_def Let_def demo_workspace_def empty_overrides_def
          demo_sized_template_def demo_template_def)
  qed
  have "up_passes ?k (compute_key demo_workspace) [?e] running_world (snd (reconcile ?e ?k running_world))"
    using up by (auto simp: same_workloads_def)
  from running_session_untouched [OF this] demo_deployment_up show ?thesis
    by (simp add: running_world_def demo_running_def)
qed

definition placed_object :: workspace_object where
  "placed_object = demo_object\<lparr>wo_workspace := placed_workspace, wo_finalizers := [finalizer_teardown]\<rparr>"

definition placed_world :: world where
  "placed_world = demo_world\<lparr>wd_objects := [(''waas'', ''w1'') \<mapsto> placed_object],
     wd_services := [(''waas-u1'', ''desk'') \<mapsto> new_service placed_workspace (demo_desktop None)],
     wd_secrets := [(''waas-u1'', ''desk'') \<mapsto> password_secret placed_workspace (''waas-u1'', ''desk'') ''pw'']\<rparr>"

theorem teardown_leaves_nothing_witness:
  "\<exists>w'. reconcile_deleted (demo_pass_env office_lib answering) (''waas'', ''w1'') placed_object placed_world = (Finished 0, w') \<and>
    wd_services w' (''waas-u1'', ''desk'') = None \<and> wd_secrets w' (''waas-u1'', ''desk'') = None"
proof -
  let ?e = "demo_pass_env office_lib answering"
  have ws: "wo_workspace placed_object = placed_workspace" "finalizer_teardown \<in> set (wo_finalizers placed_object)"
    "effective_target_namespace placed_workspace \<noteq> md_namespace (ws_meta placed_workspace)"
    by (simp_all add: placed_object_def placed_namespace)
  have key: "compute_key placed_workspace = (''waas-u1'', ''desk'')"
    by (simp add: compute_key_def placed_namespace effective_workload_name_def) (simp add: placed_workspace_def)
  have f: "finalize_home_volume (rv_volume ?e) (rv_now_text ?e) placed_workspace (wd_claims placed_world) = (Inr [], wd_claims placed_world)"
    by (simp add: finalize_home_volume_def get_claim_def placed_world_def demo_world_def demo_pass_env_def demo_api_def Let_def)
  have "\<exists>w1. teardown_kinds ?e (''waas-u1'', ''desk'') workspace_content_kinds placed_world = (Inr (), w1) \<and>
      wd_objects w1 = wd_objects placed_world"
    by (simp add: workspace_content_kinds_def delete_kind_def kube_delete_def delete_pod_def placed_world_def demo_world_def
        demo_pass_env_def demo_calls_def demo_secret_calls_def Let_def)
  then obtain w1 where t: "teardown_kinds ?e (''waas-u1'', ''desk'') workspace_content_kinds placed_world = (Inr (), w1)"
    "wd_objects w1 = wd_objects placed_world" by blast
  have "\<exists>w'. remove_finalizer ?e (''waas'', ''w1'') placed_object w1 = (Finished 0, w')"
    by (simp add: remove_finalizer_def kube_update_def t(2) placed_world_def placed_object_def demo_pass_env_def)
  then obtain w' where r: "remove_finalizer ?e (''waas'', ''w1'') placed_object w1 = (Finished 0, w')" by blast
  have "reconcile_deleted ?e (''waas'', ''w1'') placed_object placed_world = (Finished 0, w')"
    using ws(2,3) t(1) r unfolding reconcile_deleted_def teardown_placement_def ws(1) key f Let_def by simp
  from teardown_leaves_nothing [OF this ws(2)] this ws(3) show ?thesis by (auto simp: ws(1) key Let_def)
qed

end
