(* ===== verification/Connect.thy ===== *)
theory Connect
  imports Fleet Tokens Params Template_Webhook Reconcile
begin

text \<open>
  Opening a desktop, in \<open>api-server/internal/service/workspace_service.go\<close>: \<open>Connect\<close> vets the
  caller's choice of protocol and parameters, resolves the clipboard rights and signs the connection
  token; \<open>ConnectionInfo\<close> resolves the session the token names into the target and its credentials.
  The reads of both (cluster, accounts, database) are an environment record. The theory ends with the
  path from the token to the relay of \<open>Proxy\<close> and from the credentials to those of the pod.
\<close>

section \<open>Parameters\<close>

text \<open>\<open>strconv.ParseBool\<close>.\<close>

definition parse_bool :: "string \<Rightarrow> bool option" where
  "parse_bool s =
     (if s \<in> set [''1'', ''t'', ''T'', ''TRUE'', ''true'', ''True''] then Some True
      else if s \<in> set [''0'', ''f'', ''F'', ''FALSE'', ''false'', ''False''] then Some False
      else None)"

definition clipboard_param_blocks :: "string \<Rightarrow> bool" where
  "clipboard_param_blocks v = (if v = [] then False else case parse_bool v of None \<Rightarrow> True | Some b \<Rightarrow> b)"

definition clamp_clipboard_grant :: "clipboard_grant \<Rightarrow> (string \<rightharpoonup> string) \<Rightarrow> clipboard_grant" where
  "clamp_clipboard_grant g ps =
     \<lparr>grant_c = (grant_c g \<and> \<not> clipboard_param_blocks (str_at ps ''disable-copy'')),
      grant_p = (grant_p g \<and> \<not> clipboard_param_blocks (str_at ps ''disable-paste''))\<rparr>"

definition merge_params :: "(string \<times> string) list \<Rightarrow> (string \<times> string) list \<Rightarrow> (string \<rightharpoonup> string)" where
  "merge_params base over = map_of base ++ map_of over"

datatype clipboard_lock = NoLock | LockedByParams | LockedByPolicy

record session_capabilities =
  sk_copy :: bool
  sk_paste :: bool
  sk_copy_lock :: clipboard_lock
  sk_paste_lock :: clipboard_lock

definition clipboard_lock_of :: "bool \<Rightarrow> bool \<Rightarrow> clipboard_lock" where
  "clipboard_lock_of allowed effective =
     (if effective then NoLock else if allowed then LockedByParams else LockedByPolicy)"

definition clipboard_capabilities :: "clipboard_grant \<Rightarrow> clipboard_grant \<Rightarrow> session_capabilities" where
  "clipboard_capabilities pol eff =
     \<lparr>sk_copy = grant_c eff, sk_paste = grant_p eff,
      sk_copy_lock = clipboard_lock_of (grant_c pol) (grant_c eff),
      sk_paste_lock = clipboard_lock_of (grant_p pol) (grant_p eff)\<rparr>"

section \<open>What a request reads\<close>

record portal =
  px_namespace :: string
  px_fleet :: "fleet option"
  px_templates :: "string \<Rightarrow> workspace_template fetched"
  px_policies :: "workspace_policy list option"
  px_users :: "string \<Rightarrow> user fetched"
  px_secrets :: "secret store"
  px_secret_calls :: "string \<Rightarrow> secret api"
  px_remotes :: "(string \<Rightarrow> remote_workspace fetched) option"
  px_sessions_ok :: bool
  px_sign :: "token_payload \<Rightarrow> string option"
  px_issuer :: string
  px_connection_ttl :: int
  px_now :: int
  px_fresh_id :: string

definition user_identity :: "user \<Rightarrow> identity" where
  "user_identity u = \<lparr>id_owner = us_id u, id_username = us_username u, id_groups = us_groups u\<rparr>"

definition actor_policy :: "portal \<Rightarrow> actor \<Rightarrow> workspace_policy option" where
  "actor_policy env act =
     (case px_users env (ac_id act) of
        Found u \<Rightarrow> (case px_policies env of
            None \<Rightarrow> None
          | Some ps \<Rightarrow> (case resolve_policy ps (user_identity u) of Inl _ \<Rightarrow> None | Inr (pol, _) \<Rightarrow> Some pol))
      | _ \<Rightarrow> None)"

definition no_clipboard :: clipboard_grant where
  "no_clipboard = \<lparr>grant_c = False, grant_p = False\<rparr>"

definition resolve_clipboard_grant :: "portal \<Rightarrow> actor \<Rightarrow> clipboard_grant" where
  "resolve_clipboard_grant env act =
     (case px_users env (ac_id act) of
        Found u \<Rightarrow> (case px_policies env of
            None \<Rightarrow> no_clipboard
          | Some ps \<Rightarrow> (case resolve_policy ps (user_identity u) of
              Inl _ \<Rightarrow> no_clipboard
            | Inr (pol, _) \<Rightarrow> (case clipboard_of (Some pol) of (c, p) \<Rightarrow> \<lparr>grant_c = c, grant_p = p\<rparr>)))
      | _ \<Rightarrow> no_clipboard)"

definition actor_is_template_owner :: "portal \<Rightarrow> actor \<Rightarrow> workspace_template \<Rightarrow> bool" where
  "actor_is_template_owner env act tpl =
     (case ts_overrides (tp_spec tpl) of
        None \<Rightarrow> False
      | Some ov \<Rightarrow> if to_owner ov = [] then False
          else case px_users env (ac_id act) of Found u \<Rightarrow> us_username u = to_owner ov | _ \<Rightarrow> False)"

section \<open>Connect\<close>

record connect_input =
  cn_protocol :: string
  cn_params :: "(string \<times> string) list"

record connect_result =
  cr_session_id :: string
  cr_token :: string
  cr_protocol :: string
  cr_capabilities :: session_capabilities

text \<open>The rights and values of a choice made at connect time; a plain connect has nothing to vet.\<close>

definition vet_choice ::
  "portal \<Rightarrow> actor \<Rightarrow> connect_input \<Rightarrow> string \<Rightarrow> workspace_template fetched \<Rightarrow> workspace_protocol option \<Rightarrow> api_error option" where
  "vet_choice env act inp protocol tpl entry =
     (if cn_params inp = [] \<and> cn_protocol inp = [] then None
      else case tpl of
        Found t \<Rightarrow> (case entry of
          None \<Rightarrow> Some (BadRequest [''protocol is not offered by this workspace'', protocol])
        | Some e \<Rightarrow>
           (let is_admin = (ac_role act = role_admin);
                allow = resolve_user_param_names protocol (wp_user_params e) in
            case validate_user_overrides protocol (cn_params inp) allow is_admin of
              Some v \<Rightarrow> Some (Forbidden [vname v])
            | None \<Rightarrow>
               if cn_params inp \<noteq> [] \<and> \<not> is_admin then
                 (if \<not> actor_is_template_owner env act t \<and> \<not> field_overridable (tp_spec t) FieldProtocolParams
                  then Some (Forbidden [''template does not allow overriding'', md_name (tp_meta t)])
                  else case actor_policy env act of
                    None \<Rightarrow> None
                  | Some pol \<Rightarrow> if \<not> policy_allows (Some pol) FieldProtocolParams
                      then Some (Forbidden [''policy does not allow overriding'', wp_meta_name pol]) else None)
               else None))
      | _ \<Rightarrow> Some (Unexpected [''fetching template'']))"

definition chosen_protocol :: "workspace_object \<Rightarrow> connect_input \<Rightarrow> string" where
  "chosen_protocol obj inp = (if cn_protocol inp \<noteq> [] then cn_protocol inp else st_protocol (wo_status obj))"

definition template_of :: "portal \<Rightarrow> workspace_object \<Rightarrow> workspace_template fetched" where
  "template_of env obj = px_templates env (sp_template_ref (ws_spec (wo_workspace obj)))"

definition entry_of :: "workspace_template fetched \<Rightarrow> string \<Rightarrow> workspace_protocol option" where
  "entry_of tpl protocol = (case tpl of Found t \<Rightarrow> protocol_named (tp_spec t) protocol | _ \<Rightarrow> None)"

text \<open>The policy's grant and the effective one.\<close>

definition connect_grants ::
  "portal \<Rightarrow> actor \<Rightarrow> connect_input \<Rightarrow> workspace_template fetched \<Rightarrow> workspace_protocol option \<Rightarrow> clipboard_grant \<times> clipboard_grant" where
  "connect_grants env act inp tpl entry =
     (case tpl of
        Found t \<Rightarrow>
          (let pol = resolve_clipboard_grant env act;
               locked = (case entry of None \<Rightarrow> [] | Some e \<Rightarrow> wp_params e) in
           (pol, clamp_clipboard_grant pol (merge_params locked (cn_params inp))))
      | _ \<Rightarrow> (no_clipboard, no_clipboard))"

definition new_session :: "portal \<Rightarrow> actor \<Rightarrow> workspace_object \<Rightarrow> string \<Rightarrow> connect_input \<Rightarrow> session" where
  "new_session env act obj protocol inp =
     \<lparr>sn_id = px_fresh_id env, sn_user_id = ac_id act, sn_workspace_id = md_uid (ws_meta (wo_workspace obj)),
      sn_workspace_name = md_name (ws_meta (wo_workspace obj)), sn_protocol = protocol, sn_client_ip = ac_client_ip act,
      sn_started_at = px_now env, sn_ended_at = None, sn_params = cn_params inp, sn_kind = []\<rparr>"

definition connect ::
  "portal \<Rightarrow> actor \<Rightarrow> string \<Rightarrow> connect_input \<Rightarrow> session list \<Rightarrow> (api_error + connect_result) \<times> session list" where
  "connect env act uid inp rows =
     (case fetch_by_id (px_fleet env) act uid of
        Inl e \<Rightarrow> (Inl e, rows)
      | Inr i \<Rightarrow>
         if st_phase (wo_status (fi_object i)) \<noteq> ''Running''
         then (Inl (Conflict [''workspace is not Running'', st_phase (wo_status (fi_object i))]), rows)
         else
           (let obj = fi_object i; protocol = chosen_protocol obj inp;
                tpl = template_of env obj; entry = entry_of tpl protocol in
            case vet_choice env act inp protocol tpl entry of
              Some e \<Rightarrow> (Inl e, rows)
            | None \<Rightarrow>
               (let s = new_session env act obj protocol inp in
                case session_create (px_sessions_ok env) s rows of
                  (Inl e, rows') \<Rightarrow> (Inl e, rows')
                | (Inr _, rows') \<Rightarrow>
                   (let (pol, eff) = connect_grants env act inp tpl entry;
                        claims = new_connection_claims (px_issuer env) (ac_id act) (sn_id s) (sn_workspace_id s) eff
                                   (px_now env) (px_connection_ttl env) in
                    case px_sign env (ConnectionPayload (fst claims) (snd claims)) of
                      None \<Rightarrow> (Inl (Unexpected [''issuing connection token'']), rows')
                    | Some token \<Rightarrow>
                       (Inr \<lparr>cr_session_id = sn_id s, cr_token = token, cr_protocol = protocol,
                             cr_capabilities = clipboard_capabilities pol eff\<rparr>, rows')))))"

section \<open>ConnectionInfo\<close>

text \<open>A secret as the API serves it: what was written as \<open>StringData\<close> is merged into \<open>Data\<close>.\<close>

definition served_data :: "secret \<Rightarrow> string \<rightharpoonup> string" where
  "served_data s = map_of (sc_data s) ++ map_of (sc_string_data s)"

definition read_over :: "string option \<Rightarrow> string \<Rightarrow> string" where
  "read_over v old = (case v of None \<Rightarrow> old | Some x \<Rightarrow> x)"

definition add_param :: "string \<Rightarrow> string option \<Rightarrow> (string \<rightharpoonup> string) \<Rightarrow> (string \<rightharpoonup> string)" where
  "add_param k v ps = (case v of None \<Rightarrow> ps | Some x \<Rightarrow> ps(k \<mapsto> x))"

definition apply_credentials_secret :: "portal \<Rightarrow> string \<Rightarrow> connection_info \<Rightarrow> api_error + connection_info" where
  "apply_credentials_secret env name info =
     (case kube_get (px_secret_calls env name) (px_secrets env) (px_namespace env, name) of
        Found s \<Rightarrow> Inr (info\<lparr>ci_username := read_over (served_data s ''username'') (ci_username info),
            ci_password := read_over (served_data s ''password'') (ci_password info),
            ci_params := add_param ''passphrase'' (served_data s ''passphrase'')
                           (add_param ''private-key'' (served_data s ''private-key'') (ci_params info))\<rparr>)
      | _ \<Rightarrow> Inl (Unexpected [''resolving credentials secret'', name]))"

definition kasm_defaults :: "connection_info \<Rightarrow> connection_info" where
  "kasm_defaults info = (if ci_protocol info = protocol_kasmvnc \<and> ci_username info = [] then info\<lparr>ci_username := ''kasm_user''\<rparr> else info)"

definition desktop_defaults :: "connection_info \<Rightarrow> connection_info" where
  "desktop_defaults info = (if ci_protocol info = protocol_vnc \<and> ci_username info = [] then info\<lparr>ci_username := ''waas_user''\<rparr> else info)"

definition remote_connection_info :: "portal \<Rightarrow> session \<Rightarrow> api_error + connection_info" where
  "remote_connection_info env s =
     (case px_remotes env of
        None \<Rightarrow> Inl (NotFound [''remote workspaces are not configured on this server''])
      | Some reg \<Rightarrow> (case reg (sn_workspace_id s) of
          Missing \<Rightarrow> Inl (NotFound [''remote workspace not found''])
        | Failed \<Rightarrow> Inl (Unexpected [''finding remote workspace''])
        | Found rw \<Rightarrow>
           (let entry = (if sn_protocol s \<noteq> [] then (case remote_protocol_named rw (sn_protocol s) of
                           Some p \<Rightarrow> p | None \<Rightarrow> remote_default_protocol rw)
                         else remote_default_protocol rw);
                info = \<lparr>ci_protocol = rp_name entry, ci_hostname = rw_hostname rw, ci_port = rp_port entry,
                        ci_username = [], ci_password = [], ci_params = merge_params (rp_params entry) (sn_params s)\<rparr> in
            case apply_credentials_secret env (rw_secret_name rw) info of
              Inl e \<Rightarrow> Inl e
            | Inr info' \<Rightarrow> Inr (kasm_defaults info'))))"

text \<open>The endpoint the session asked for, when the status still lists it; else the default one.\<close>

definition session_endpoint :: "workspace_status \<Rightarrow> session \<Rightarrow> string \<times> int" where
  "session_endpoint st s =
     (if sn_protocol s \<noteq> [] \<and> sn_protocol s \<noteq> st_protocol st
      then (case find (\<lambda>p. prs_name p = sn_protocol s) (st_protocols st) of
              Some p \<Rightarrow> (prs_name p, prs_port p)
            | None \<Rightarrow> (st_protocol st, st_port st))
      else (st_protocol st, st_port st))"

text \<open>The template's locked parameters under the session's, and the credentials the entry names.\<close>

definition template_info :: "portal \<Rightarrow> workspace_template fetched \<Rightarrow> session \<Rightarrow> connection_info \<Rightarrow> api_error + connection_info" where
  "template_info env tpl s info =
     (case tpl of
        Found t \<Rightarrow> (case protocol_named (tp_spec t) (ci_protocol info) of
            Some e \<Rightarrow>
             (let merged = info\<lparr>ci_params := merge_params (wp_params e) (sn_params s)\<rparr> in
              if wp_credentials_secret_ref e \<noteq> [] then apply_credentials_secret env (wp_credentials_secret_ref e) merged
              else Inr merged)
          | None \<Rightarrow> Inr (if sn_params s \<noteq> [] then info\<lparr>ci_params := map_of (sn_params s)\<rparr> else info))
      | _ \<Rightarrow> Inr info)"

definition kasm_credentials_info :: "portal \<Rightarrow> workspace \<Rightarrow> connection_info \<Rightarrow> api_error + connection_info" where
  "kasm_credentials_info env ws info =
     (if ci_protocol info = protocol_kasmvnc \<and> ci_password info = []
      then apply_credentials_secret env (kasm_secret_name (md_name (ws_meta ws))) info
      else Inr info)"

definition desktop_credentials_info ::
  "portal \<Rightarrow> workspace \<Rightarrow> workspace_template fetched \<Rightarrow> connection_info \<Rightarrow> api_error + connection_info" where
  "desktop_credentials_info env ws tpl info =
     (if (ci_protocol info = protocol_vnc \<or> ci_protocol info = protocol_rdp) \<and> ci_password info = []
      then (if (case tpl of Found t \<Rightarrow> ts_os (tp_spec t) = os_windows | _ \<Rightarrow> False)
            then Inl (Conflict [''no credentialsSecretRef on a windows VM'', ci_protocol info])
            else apply_credentials_secret env (desktop_secret_name (md_name (ws_meta ws))) info)
      else Inr info)"

definition workspace_connection_info :: "portal \<Rightarrow> session \<Rightarrow> api_error + connection_info" where
  "workspace_connection_info env s =
     (case find_by_uid (px_fleet env) (sn_workspace_id s) of
        Inl e \<Rightarrow> Inl e
      | Inr i \<Rightarrow>
         (let ws = wo_workspace (fi_object i); st = wo_status (fi_object i);
              tpl = template_of env (fi_object i) in
          if st_phase st \<noteq> ''Running'' \<or> st_address st = [] then Inl (Conflict [''workspace is not running''])
          else
            (let ep = session_endpoint st s;
                 info = \<lparr>ci_protocol = fst ep, ci_hostname = st_address st, ci_port = snd ep,
                         ci_username = [], ci_password = [], ci_params = Map.empty\<rparr> in
             result_bind (template_info env tpl s info) (\<lambda>info.
             result_bind (kasm_credentials_info env ws info) (\<lambda>info.
             result_bind (desktop_credentials_info env ws tpl info) (\<lambda>info.
               Inr (desktop_defaults (kasm_defaults info))))))))"

definition resolve_connection_info :: "portal \<Rightarrow> string \<Rightarrow> session list \<Rightarrow> api_error + connection_info" where
  "resolve_connection_info env sid rows =
     (case session_find (px_sessions_ok env) sid rows of
        Missing \<Rightarrow> Inl (NotFound [''session not found''])
      | Failed \<Rightarrow> Inl (Unexpected [''finding session'', sid])
      | Found s \<Rightarrow>
         if sn_ended_at s \<noteq> None then Inl (Conflict [''session already ended''])
         else if sn_kind s = session_kind_remote then remote_connection_info env s
         else workspace_connection_info env s)"

text \<open>\<open>EffectiveKasmVNCConfig\<close>: the config map the operator materialized, shown to the owner only.\<close>

definition effective_kasmvnc_config ::
  "portal \<Rightarrow> (object_key \<Rightarrow> config_map fetched) \<Rightarrow> actor \<Rightarrow> string \<Rightarrow> api_error + string" where
  "effective_kasmvnc_config env configs act uid =
     (case fetch_by_id (px_fleet env) act uid of
        Inl e \<Rightarrow> Inl e
      | Inr i \<Rightarrow>
         (let ws = wo_workspace (fi_object i) in
          case configs (effective_target_namespace ws, effective_workload_name ws) of
            Missing \<Rightarrow> Inl (NotFound [''this workspace has no KasmVNC configuration''])
          | Failed \<Rightarrow> Inl (Unexpected [''fetching kasmvnc config''])
          | Found cm \<Rightarrow> (case map_of (cm_data cm) kasm_config_key of
              None \<Rightarrow> Inl (NotFound [''this workspace has no KasmVNC configuration''])
            | Some c \<Rightarrow> Inr c)))"

section \<open>What a connection has\<close>

lemma grant_le_refl [simp]: "str_at Map.empty k = []"
  by simp

lemma clamp_restricts:
  "grant_c (clamp_clipboard_grant g ps) \<Longrightarrow> grant_c g" "grant_p (clamp_clipboard_grant g ps) \<Longrightarrow> grant_p g"
  by (simp_all add: clamp_clipboard_grant_def)

text \<open>The claims of a session's token.\<close>

definition session_claims :: "portal \<Rightarrow> actor \<Rightarrow> string \<Rightarrow> clipboard_grant \<Rightarrow> registered_claims \<times> connection_claims" where
  "session_claims env act wid g =
     new_connection_claims (px_issuer env) (ac_id act) (px_fresh_id env) wid g (px_now env) (px_connection_ttl env)"

lemma connectE:
  assumes "connect env act uid inp rows = (Inr r, rows')"
  obtains i where "fetch_by_id (px_fleet env) act uid = Inr i" "st_phase (wo_status (fi_object i)) = ''Running''"
    "vet_choice env act inp (chosen_protocol (fi_object i) inp) (template_of env (fi_object i))
       (entry_of (template_of env (fi_object i)) (chosen_protocol (fi_object i) inp)) = None"
    "session_create (px_sessions_ok env) (new_session env act (fi_object i) (chosen_protocol (fi_object i) inp) inp) rows = (Inr (), rows')"
    "(case session_claims env act (md_uid (item_meta i)) (snd (connect_grants env act inp (template_of env (fi_object i))
         (entry_of (template_of env (fi_object i)) (chosen_protocol (fi_object i) inp)))) of
        (rc, cc) \<Rightarrow> px_sign env (ConnectionPayload rc cc) = Some (cr_token r))"
    "cr_session_id r = px_fresh_id env" "cr_protocol r = chosen_protocol (fi_object i) inp"
    "cr_capabilities r = (case connect_grants env act inp (template_of env (fi_object i))
         (entry_of (template_of env (fi_object i)) (chosen_protocol (fi_object i) inp)) of
        (pol, eff) \<Rightarrow> clipboard_capabilities pol eff)"
proof -
  obtain i where i: "fetch_by_id (px_fleet env) act uid = Inr i"
    using assms by (auto simp: connect_def split: sum.splits)
  note d = assms [unfolded connect_def i Let_def, simplified]
  show thesis
    by (rule that [OF i])
      (use d in \<open>auto simp: session_claims_def new_session_def item_meta_def new_connection_claims_def
         split: if_splits option.splits prod.splits sum.splits\<close>)
qed

lemma session_created:
  assumes "session_create ok s rows = (Inr (), rows')" "sn_kind s = []"
  shows "ok \<and> sn_id s \<notin> sn_id ` set rows \<and> rows' = rows @ [s\<lparr>sn_kind := session_kind_workspace\<rparr>]"
  using assms by (auto simp: session_create_def split: if_splits)

text \<open>The grant of the token is bounded by the policy the webhook's own resolution picks for the caller.\<close>

lemma resolve_clipboard_grant_bounded:
  assumes "g = resolve_clipboard_grant env act" "grant_c g \<or> grant_p g"
  shows "\<exists>u ps pol tie. px_users env (ac_id act) = Found u \<and> px_policies env = Some ps \<and>
    resolve_policy ps (user_identity u) = Inr (pol, tie) \<and> clipboard_of (Some pol) = (grant_c g, grant_p g)"
  using assms by (auto simp: resolve_clipboard_grant_def no_clipboard_def split: fetched.splits option.splits sum.splits prod.splits)

lemma connect_grants_bounded:
  assumes "connect_grants env act inp tpl entry = (pol, eff)"
  shows "grant_c eff \<Longrightarrow> grant_c (resolve_clipboard_grant env act) \<and>
      \<not> clipboard_param_blocks (str_at (merge_params (case entry of None \<Rightarrow> [] | Some e \<Rightarrow> wp_params e) (cn_params inp)) ''disable-copy'')"
    "grant_p eff \<Longrightarrow> grant_p (resolve_clipboard_grant env act) \<and>
      \<not> clipboard_param_blocks (str_at (merge_params (case entry of None \<Rightarrow> [] | Some e \<Rightarrow> wp_params e) (cn_params inp)) ''disable-paste'')"
  using assms by (auto simp: connect_grants_def no_clipboard_def clamp_clipboard_grant_def Let_def split: fetched.splits)

lemma vet_choice_none:
  assumes "vet_choice env act inp protocol tpl entry = None" "(n, v) \<in> set (cn_params inp)"
  shows "\<exists>t e. tpl = Found t \<and> entry = Some e \<and> settable protocol (n, v) \<and>
    (ac_role act = role_admin \<or>
      n \<in> set (resolve_user_param_names protocol (wp_user_params e)) \<and>
      (actor_is_template_owner env act t \<or> field_overridable (tp_spec t) FieldProtocolParams) \<and>
      (\<forall>pol. actor_policy env act = Some pol \<longrightarrow> policy_allows (Some pol) FieldProtocolParams))"
proof -
  have ne: "cn_params inp \<noteq> []" using assms(2) by auto
  obtain t e where t: "tpl = Found t" "entry = Some e"
    using assms(1) ne by (auto simp: vet_choice_def split: fetched.splits option.splits)
  let ?allow = "resolve_user_param_names protocol (wp_user_params e)"
  have v: "validate_user_overrides protocol (cn_params inp) ?allow (ac_role act = role_admin) = None"
    using assms(1) ne t by (auto simp: vet_choice_def Let_def split: option.splits)
  then have ok: "settable protocol (n, v)" "ac_role act = role_admin \<or> n \<in> set ?allow"
    using assms(2) by (auto simp: validate_user_overrides_iff)
  have "actor_is_template_owner env act t \<or> field_overridable (tp_spec t) FieldProtocolParams"
    "\<forall>pol. actor_policy env act = Some pol \<longrightarrow> policy_allows (Some pol) FieldProtocolParams" if "ac_role act \<noteq> role_admin"
    using assms(1) ne t v that by (auto simp: vet_choice_def Let_def split: if_splits)
  with t ok show ?thesis by blast
qed

text \<open>C7: A desktop is opened by its owner and by nobody else, administrators included: a connection token is issued only when
  the workspace the caller names exists, is owned by the caller and runs. The request adds exactly one session, open,
  under an id no session had, for that caller, workspace, protocol and parameters; the token issued is the signature of
  the caller, of the id of that very session, of that workspace and of the clipboard grants, with the issuer, the audience
  and the lifetime of connection tokens. The grants go no further than what the policy that governs the caller leaves
  undenied, and the answer's session id and capabilities are those of the token.
\<close>

theorem connect_authorized:
  assumes "connect env act uid inp rows = (Inr r, rows')"
  shows "\<exists>fl i s g. px_fleet env = Some fl \<and> i \<in> set (fl_items fl) \<and> md_uid (item_meta i) = uid \<and>
    sp_owner (item_spec i) = ac_id act \<and> st_phase (wo_status (fi_object i)) = ''Running'' \<and>
    rows' = rows @ [s] \<and> sn_id s = cr_session_id r \<and> sn_id s \<notin> sn_id ` set rows \<and> sn_user_id s = ac_id act \<and>
    sn_workspace_id s = uid \<and> sn_protocol s = cr_protocol r \<and> sn_params s = cn_params inp \<and> sn_ended_at s = None \<and>
    px_sign env (ConnectionPayload
        (registered (px_issuer env) (ac_id act) ''waas-connection'' (px_now env) (px_connection_ttl env))
        \<lparr>session_id = sn_id s, workspace_id = uid, clipboard = g\<rparr>) = Some (cr_token r) \<and>
    (grant_c g \<or> grant_p g \<longrightarrow> (\<exists>u ps pol. px_users env (ac_id act) = Found u \<and> px_policies env = Some ps \<and>
       governs pol ps (user_identity u) \<and>
       (grant_c g \<longrightarrow> (\<forall>b. po_clipboard pol = Some b \<longrightarrow> cb_copy b \<noteq> Some False)) \<and>
       (grant_p g \<longrightarrow> (\<forall>b. po_clipboard pol = Some b \<longrightarrow> cb_paste b \<noteq> Some False)))) \<and>
    sk_copy (cr_capabilities r) = grant_c g \<and> sk_paste (cr_capabilities r) = grant_p g"
proof -
  obtain i where i: "fetch_by_id (px_fleet env) act uid = Inr i" "st_phase (wo_status (fi_object i)) = ''Running''"
    and c: "session_create (px_sessions_ok env) (new_session env act (fi_object i) (chosen_protocol (fi_object i) inp) inp) rows = (Inr (), rows')"
    and k: "(case session_claims env act (md_uid (item_meta i)) (snd (connect_grants env act inp (template_of env (fi_object i))
         (entry_of (template_of env (fi_object i)) (chosen_protocol (fi_object i) inp)))) of
        (rc, cc) \<Rightarrow> px_sign env (ConnectionPayload rc cc) = Some (cr_token r))"
    and r: "cr_session_id r = px_fresh_id env" "cr_protocol r = chosen_protocol (fi_object i) inp"
    and cap: "cr_capabilities r = (case connect_grants env act inp (template_of env (fi_object i))
         (entry_of (template_of env (fi_object i)) (chosen_protocol (fi_object i) inp)) of
        (pol, eff) \<Rightarrow> clipboard_capabilities pol eff)"
    by (rule connectE [OF assms])
  define s where "s = new_session env act (fi_object i) (chosen_protocol (fi_object i) inp) inp"
  have s: "sn_id s \<notin> sn_id ` set rows" "rows' = rows @ [s\<lparr>sn_kind := session_kind_workspace\<rparr>]"
    using session_created [OF c] by (simp_all add: s_def new_session_def)
  obtain fl where fl: "px_fleet env = Some fl" "i \<in> set (fl_items fl)" "md_uid (item_meta i) = uid" "sp_owner (item_spec i) = ac_id act"
    using fetch_by_id_ok [OF i(1)] by blast
  obtain pol g where g: "connect_grants env act inp (template_of env (fi_object i))
      (entry_of (template_of env (fi_object i)) (chosen_protocol (fi_object i) inp)) = (pol, g)" by fastforce
  have pol: "\<exists>u ps p. px_users env (ac_id act) = Found u \<and> px_policies env = Some ps \<and> governs p ps (user_identity u) \<and>
       (grant_c g \<longrightarrow> (\<forall>b. po_clipboard p = Some b \<longrightarrow> cb_copy b \<noteq> Some False)) \<and>
       (grant_p g \<longrightarrow> (\<forall>b. po_clipboard p = Some b \<longrightarrow> cb_paste b \<noteq> Some False))" if gr: "grant_c g \<or> grant_p g"
  proof -
    obtain u ps p tie where "px_users env (ac_id act) = Found u" "px_policies env = Some ps"
      "resolve_policy ps (user_identity u) = Inr (p, tie)"
      "grant_c g \<longrightarrow> fst (clipboard_of (Some p))" "grant_p g \<longrightarrow> snd (clipboard_of (Some p))"
      using resolve_clipboard_grant_bounded [OF refl, of env act] connect_grants_bounded [OF g] gr by fastforce
    with clipboard_of_Some [OF prod.collapse [symmetric], of p] resolve_policy_governs show ?thesis by metis
  qed
  have sign: "px_sign env (ConnectionPayload
        (registered (px_issuer env) (ac_id act) ''waas-connection'' (px_now env) (px_connection_ttl env))
        \<lparr>session_id = px_fresh_id env, workspace_id = uid, clipboard = g\<rparr>) = Some (cr_token r)"
    using k g fl(3) by (simp add: session_claims_def new_connection_claims_def audience_connection_def)
  have "sk_copy (cr_capabilities r) = grant_c g \<and> sk_paste (cr_capabilities r) = grant_p g"
    using cap g by (simp add: clipboard_capabilities_def)
  with i(2) fl s sign r pol show ?thesis
    by (intro exI [of _ fl] exI [of _ i] exI [of _ "s\<lparr>sn_kind := session_kind_workspace\<rparr>"] exI [of _ g])
      (auto simp: s_def new_session_def item_meta_def)
qed

section \<open>From the token to the relay\<close>

text \<open>The proxy's check accepts what the API server's JWT library signed: one library at both ends.\<close>

definition same_signer :: "signing_library \<Rightarrow> portal \<Rightarrow> ws_env \<Rightarrow> bool" where
  "same_signer lib env wenv \<longleftrightarrow> px_sign env = sl_sign lib \<and>
     (\<forall>token claims. env_validate wenv token = Inr claims \<longrightarrow>
        (\<exists>now rc. sl_parse lib now [''RS256''] (px_issuer env) audience_connection True token = Some (ConnectionPayload rc claims)))"

lemma token_is_of_session:
  assumes "honest_library lib" "same_signer lib env wenv" "env_validate wenv token = Inr claims"
    and "case session_claims env act uid g of (rc, cc) \<Rightarrow> px_sign env (ConnectionPayload rc cc) = Some token"
  shows "claims = \<lparr>session_id = px_fresh_id env, workspace_id = uid, clipboard = g\<rparr>"
proof -
  obtain rc cc where rc: "session_claims env act uid g = (rc, cc)" by fastforce
  with assms(2,4) have s: "sl_sign lib (ConnectionPayload rc cc) = Some token" by (simp add: same_signer_def)
  obtain now rc' where "sl_parse lib now [''RS256''] (px_issuer env) audience_connection True token = Some (ConnectionPayload rc' claims)"
    using assms(2,3) unfolding same_signer_def by blast
  from honest_libraryD(1) [OF assms(1) this] honest_library_inj [OF assms(1) s] have "claims = cc" by blast
  with rc show ?thesis by (auto simp: session_claims_def new_connection_claims_def)
qed

text \<open>The token a connect hands out, with the grants its capabilities report.\<close>

lemma connect_token:
  assumes "connect env act uid inp rows = (Inr r, rows')"
  obtains g where "case session_claims env act uid g of (rc, cc) \<Rightarrow> px_sign env (ConnectionPayload rc cc) = Some (cr_token r)"
    "sk_copy (cr_capabilities r) = grant_c g" "sk_paste (cr_capabilities r) = grant_p g"
    "grant_c g \<Longrightarrow> grant_c (resolve_clipboard_grant env act)" "grant_p g \<Longrightarrow> grant_p (resolve_clipboard_grant env act)"
proof -
  obtain i where i: "fetch_by_id (px_fleet env) act uid = Inr i"
    and k: "(case session_claims env act (md_uid (item_meta i)) (snd (connect_grants env act inp (template_of env (fi_object i))
         (entry_of (template_of env (fi_object i)) (chosen_protocol (fi_object i) inp)))) of
        (rc, cc) \<Rightarrow> px_sign env (ConnectionPayload rc cc) = Some (cr_token r))"
    and cap: "cr_capabilities r = (case connect_grants env act inp (template_of env (fi_object i))
         (entry_of (template_of env (fi_object i)) (chosen_protocol (fi_object i) inp)) of
        (pol, eff) \<Rightarrow> clipboard_capabilities pol eff)"
    by (rule connectE [OF assms])
  obtain pol g where g: "connect_grants env act inp (template_of env (fi_object i))
      (entry_of (template_of env (fi_object i)) (chosen_protocol (fi_object i) inp)) = (pol, g)" by fastforce
  show thesis
    by (rule that [of g])
      (use k cap g connect_grants_bounded [OF g] fetch_by_id_ok(2) [OF i] in \<open>auto simp: clipboard_capabilities_def\<close>)
qed

text \<open>C23: A denied clipboard holds end to end. If the policy resolved for the caller does not let the clipboard out of the
  desktop, or none resolves, or the answer of the connect reports that copying is off, then whatever relay
  the WebSocket proxy opens with the token of that connect, and whatever the desktop and the browser send
  in whatever order, the browser receives the desktop's stream with every clipboard stream cut out.
\<close>

theorem denied_copy_never_leaves:
  assumes "connect env act uid inp rows = (Inr r, rows')"
    and "\<not> grant_c (resolve_clipboard_grant env act) \<or> \<not> sk_copy (cr_capabilities r)"
    and "honest_library lib" "same_signer lib env wenv"
    and "q_token req = cr_token r" "Pipe rest f \<in> set (serve_ws wenv req)"
    and "pipe_run (new_pipe f) evs = (p', outs)" "guacd_bytes evs = encode_all is" "list_all wf_instruction is"
    and "list_all (\<lambda>i. length (encode i) \<le> max_pending_bytes) is"
  shows "\<exists>js ks. is = js @ ks \<and> (p_open p' \<longrightarrow> ks = []) \<and> browser_frames outs = encode_all (strip_clipboard {} js)"
proof -
  obtain g where k: "case session_claims env act uid g of (rc, cc) \<Rightarrow> px_sign env (ConnectionPayload rc cc) = Some (cr_token r)"
    and no: "\<not> grant_c g"
    using connect_token [OF assms(1)] assms(2) by metis
  obtain claims where c: "env_validate wenv (q_token req) = Inr claims"
    and f: "f = new_clipboard_filter (grant_c (clipboard claims)) (grant_p (clipboard claims))"
    using serve_ws_pipe [OF assms(6)] by metis
  have "clipboard claims = g" using token_is_of_session [OF assms(3,4) _ k] c assms(5) by simp
  with f no have f': "f = new_clipboard_filter False (grant_p g)" by simp
  let ?p = "new_pipe f"
  have p: "pending (p_framer ?p) = []" "blocked_server (p_filter ?p) = {}"
    by (simp_all add: f' new_pipe_def new_clipboard_filter_def)
  have inv: "pipe_inv False (grant_p g) ?p" unfolding f' by (rule pipe_inv_new)
  have "pending (p_framer ?p) @ guacd_bytes evs = encode_all is" "complete_prefix (pending (p_framer ?p)) = Inr 0"
    using assms(8) p by simp_all
  from pipe_run_copy_denied [OF assms(7) inv this(1) assms(9,10) this(2)] p(2) show ?thesis by simp
qed

section \<open>What the connection is made of\<close>

text \<open>The steps of the resolution keep the target and every parameter but the two keys of a secret.\<close>

definition same_target :: "connection_info \<Rightarrow> connection_info \<Rightarrow> bool" where
  "same_target a b \<longleftrightarrow> ci_protocol b = ci_protocol a \<and> ci_hostname b = ci_hostname a \<and> ci_port b = ci_port a \<and>
     (\<forall>n. n \<noteq> ''private-key'' \<longrightarrow> n \<noteq> ''passphrase'' \<longrightarrow> ci_params b n = ci_params a n)"

lemma same_target_refl [simp]: "same_target a a"
  by (simp add: same_target_def)

lemma same_target_trans: "same_target a b \<Longrightarrow> same_target b c \<Longrightarrow> same_target a c"
  by (simp add: same_target_def)

lemma apply_credentials_target: "apply_credentials_secret env name a = Inr b \<Longrightarrow> same_target a b"
  by (auto simp: apply_credentials_secret_def same_target_def add_param_def split: fetched.splits option.splits)

lemma kasm_credentials_target: "kasm_credentials_info env ws a = Inr b \<Longrightarrow> same_target a b"
  by (auto simp: kasm_credentials_info_def apply_credentials_target split: if_splits)

lemma desktop_credentials_target: "desktop_credentials_info env ws tpl a = Inr b \<Longrightarrow> same_target a b"
  by (auto simp: desktop_credentials_info_def apply_credentials_target split: if_splits)

lemma defaults_target: "same_target a (desktop_defaults (kasm_defaults a))"
  by (simp add: same_target_def desktop_defaults_def kasm_defaults_def)

lemma defaults_password [simp]: "ci_password (desktop_defaults (kasm_defaults a)) = ci_password a"
  by (simp add: desktop_defaults_def kasm_defaults_def)

text \<open>The parameters before any secret is read.\<close>

definition base_params :: "workspace_template fetched \<Rightarrow> string \<Rightarrow> session \<Rightarrow> string \<rightharpoonup> string" where
  "base_params tpl protocol s =
     (case tpl of
        Found t \<Rightarrow> (case protocol_named (tp_spec t) protocol of
            Some e \<Rightarrow> merge_params (wp_params e) (sn_params s) | None \<Rightarrow> map_of (sn_params s))
      | _ \<Rightarrow> Map.empty)"

lemma template_info_target:
  assumes "template_info env tpl s a = Inr b" "ci_params a = Map.empty"
  shows "same_target (a\<lparr>ci_params := base_params tpl (ci_protocol a) s\<rparr>) b"
  using assms
  by (auto simp: template_info_def base_params_def same_target_def add_param_def apply_credentials_secret_def Let_def
      split: fetched.splits option.splits if_splits)

lemma workspace_infoE:
  assumes "workspace_connection_info env s = Inr info"
  obtains i where "find_by_uid (px_fleet env) (sn_workspace_id s) = Inr i"
    "st_phase (wo_status (fi_object i)) = ''Running''" "ci_hostname info = st_address (wo_status (fi_object i))"
    "(ci_protocol info, ci_port info) = session_endpoint (wo_status (fi_object i)) s"
    "\<And>n. n \<noteq> ''private-key'' \<Longrightarrow> n \<noteq> ''passphrase'' \<Longrightarrow>
       ci_params info n = base_params (template_of env (fi_object i)) (ci_protocol info) s n"
proof -
  obtain i where i: "find_by_uid (px_fleet env) (sn_workspace_id s) = Inr i"
    using assms by (auto simp: workspace_connection_info_def split: sum.splits)
  let ?st = "wo_status (fi_object i)" and ?tpl = "template_of env (fi_object i)" and ?ws = "wo_workspace (fi_object i)"
  define a where "a = \<lparr>ci_protocol = fst (session_endpoint ?st s), ci_hostname = st_address ?st,
    ci_port = snd (session_endpoint ?st s), ci_username = [], ci_password = [], ci_params = Map.empty\<rparr>"
  have run: "st_phase ?st = ''Running''" using assms i by (auto simp: workspace_connection_info_def Let_def split: if_splits)
  have "result_bind (template_info env ?tpl s a) (\<lambda>info. result_bind (kasm_credentials_info env ?ws info)
      (\<lambda>info. result_bind (desktop_credentials_info env ?ws ?tpl info)
        (\<lambda>info. Inr (desktop_defaults (kasm_defaults info))))) = Inr info"
    using assms i by (simp add: workspace_connection_info_def Let_def a_def split: if_splits)
  then obtain b c d where bcd: "template_info env ?tpl s a = Inr b" "kasm_credentials_info env ?ws b = Inr c"
    "desktop_credentials_info env ?ws ?tpl c = Inr d" "info = desktop_defaults (kasm_defaults d)"
    by (auto simp: result_bind_eq_Inr)
  have "same_target (a\<lparr>ci_params := base_params ?tpl (ci_protocol a) s\<rparr>) info"
    using template_info_target [OF bcd(1)] kasm_credentials_target [OF bcd(2)] desktop_credentials_target [OF bcd(3)]
      defaults_target [of d] bcd(4) same_target_trans by (metis a_def connection_info.select_convs(6))
  then show thesis
    by (intro that [OF i run]) (simp_all add: same_target_def a_def)
qed

text \<open>A served secret whose password was written by the operator.\<close>

definition plain_secret :: "secret \<Rightarrow> bool" where
  "plain_secret s \<longleftrightarrow> (sc_data s = [] \<or> sc_string_data s = []) \<and> served_data s ''password'' \<noteq> None"

lemma plain_secret_password: "plain_secret s \<Longrightarrow> served_data s ''password'' = Some (secret_password s)"
  by (auto simp: plain_secret_def served_data_def secret_password_def str_at_def)

text \<open>The session a connect recorded, read back later, still carries its choice.\<close>

lemma connect_session:
  assumes "connect env act uid inp rows = (Inr r, rows')" "same_session (last rows') s"
  shows "sn_id s = cr_session_id r" "sn_kind s = session_kind_workspace" "sn_workspace_id s = uid"
    "sn_protocol s = cr_protocol r" "sn_params s = cn_params inp"
proof -
  obtain i where i: "fetch_by_id (px_fleet env) act uid = Inr i"
    and c: "session_create (px_sessions_ok env) (new_session env act (fi_object i) (chosen_protocol (fi_object i) inp) inp) rows = (Inr (), rows')"
    and r: "cr_session_id r = px_fresh_id env" "cr_protocol r = chosen_protocol (fi_object i) inp"
    by (rule connectE [OF assms(1)])
  define s0 where "s0 = last rows'"
  have s0: "sn_id s0 = cr_session_id r" "sn_kind s0 = session_kind_workspace" "sn_workspace_id s0 = uid"
    "sn_protocol s0 = cr_protocol r" "sn_params s0 = cn_params inp"
    using session_created [OF c] r fetch_by_id_ok(2) [OF i] by (simp_all add: s0_def new_session_def item_meta_def)
  have eq: "s\<lparr>sn_ended_at := None\<rparr> = s0\<lparr>sn_ended_at := None\<rparr>"
    using assms(2) by (simp add: same_session_def s0_def)
  show "sn_id s = cr_session_id r" "sn_kind s = session_kind_workspace" "sn_workspace_id s = uid"
    "sn_protocol s = cr_protocol r" "sn_params s = cn_params inp"
    using s0 arg_cong [OF eq, of sn_id] arg_cong [OF eq, of sn_kind] arg_cong [OF eq, of sn_workspace_id]
      arg_cong [OF eq, of sn_protocol] arg_cong [OF eq, of sn_params] by simp_all
qed

lemma resolved_workspace_session:
  assumes "resolve_connection_info env sid rows = Inr info" "session_find (px_sessions_ok env) sid rows = Found s"
    "sn_kind s = session_kind_workspace"
  shows "workspace_connection_info env s = Inr info" "sn_ended_at s = None"
  using assms by (auto simp: resolve_connection_info_def session_kind_workspace_def session_kind_remote_def split: if_splits)

text \<open>What the template locks stays locked, from the request to guacd. When a user who is no administrator connects and the
  proxy resolves the recorded session, every parameter the template does not delegate for that protocol
  reaches guacd with the template's own value, or not at all when the template has none, whatever
  parameters the request carried.
\<close>

lemma locked_parameters_kept:
  assumes "connect env act uid inp rows = (Inr r, rows')" "ac_role act \<noteq> role_admin"
    and "fetch_by_id (px_fleet env) act uid = Inr i" "template_of env (fi_object i) = Found t"
    and "protocol_named (tp_spec t) (cr_protocol r) = Some e"
    and "session_find (px_sessions_ok env') (cr_session_id r) later_rows = Found s" "same_session (last rows') s"
    and "resolve_connection_info env' (cr_session_id r) later_rows = Inr info"
    and "find_by_uid (px_fleet env') uid = Inr i'" "template_of env' (fi_object i') = Found t"
    and "session_endpoint (wo_status (fi_object i')) s = (cr_protocol r, port)"
    and "n \<notin> set (resolve_user_param_names (cr_protocol r) (wp_user_params e))" "n \<noteq> ''private-key''" "n \<noteq> ''passphrase''"
  shows "ci_params info n = map_of (wp_params e) n"
proof -
  note s = connect_session [OF assms(1,7)]
  obtain j where j: "fetch_by_id (px_fleet env) act uid = Inr j" "cr_protocol r = chosen_protocol (fi_object j) inp"
    and v: "vet_choice env act inp (chosen_protocol (fi_object j) inp) (template_of env (fi_object j))
       (entry_of (template_of env (fi_object j)) (chosen_protocol (fi_object j) inp)) = None"
    by (rule connectE [OF assms(1)])
  have "n \<notin> fst ` set (cn_params inp)"
    using vet_choice_none [OF v] j assms(2-5,12) by (fastforce simp: entry_of_def)
  then have over: "map_of (cn_params inp) n = None" by (simp add: map_of_eq_None_iff)
  have w: "workspace_connection_info env' s = Inr info" using resolved_workspace_session [OF assms(8,6) s(2)] by blast
  obtain k where "find_by_uid (px_fleet env') (sn_workspace_id s) = Inr k"
    "(ci_protocol info, ci_port info) = session_endpoint (wo_status (fi_object k)) s"
    "ci_params info n = base_params (template_of env' (fi_object k)) (ci_protocol info) s n"
    by (rule workspace_infoE [OF w]) (use assms(13,14) in blast)
  with assms(9-11) s(3) have "ci_params info n = base_params (Found t) (cr_protocol r) s n" by simp
  with assms(5) s(5) over show ?thesis by (simp add: base_params_def merge_params_def map_add_def)
qed

text \<open>The one way around that lock. When the protocol a session was vetted for is no longer among the endpoints of the
  status, the resolution falls back to the default protocol but keeps the session's parameters, so a value
  vetted against one protocol's delegation overrides what the template locks for another.
\<close>

lemma stale_status_unlocks:
  assumes "workspace_connection_info env s = Inr info" "find_by_uid (px_fleet env) (sn_workspace_id s) = Inr i"
    and "sn_protocol s \<noteq> []" "\<forall>p \<in> set (st_protocols (wo_status (fi_object i))). prs_name p \<noteq> sn_protocol s"
    and "template_of env (fi_object i) = Found t"
    and "protocol_named (tp_spec t) (st_protocol (wo_status (fi_object i))) = Some e"
    and "map_of (wp_params e) n = Some locked" "map_of (sn_params s) n = Some v"
    and "n \<noteq> ''private-key''" "n \<noteq> ''passphrase''"
  shows "ci_protocol info = st_protocol (wo_status (fi_object i)) \<and> ci_params info n = Some v"
proof -
  obtain k where k: "find_by_uid (px_fleet env) (sn_workspace_id s) = Inr k"
    "(ci_protocol info, ci_port info) = session_endpoint (wo_status (fi_object k)) s"
    "ci_params info n = base_params (template_of env (fi_object k)) (ci_protocol info) s n"
    by (rule workspace_infoE [OF assms(1)]) (use assms(9,10) in blast)
  have "find (\<lambda>p. prs_name p = sn_protocol s) (st_protocols (wo_status (fi_object i))) = None"
    using assms(4) by (simp add: find_None_iff)
  with k assms(2) have p: "ci_protocol info = st_protocol (wo_status (fi_object i))"
    by (auto simp: session_endpoint_def split: if_splits)
  with k(1,3) assms(2,5-8) show ?thesis by (simp add: base_params_def merge_params_def)
qed

section \<open>One password for the pod and the connection\<close>

definition generated_secret_name :: "workspace \<Rightarrow> string \<Rightarrow> string" where
  "generated_secret_name ws protocol =
     (if protocol = protocol_kasmvnc then kasm_secret_name (md_name (ws_meta ws)) else desktop_secret_name (md_name (ws_meta ws)))"

text \<open>On an admitted linux template the operator generates for the very protocol the session uses.\<close>

lemma admitted_generates:
  assumes "validate_template libs s = None" "ts_os s \<noteq> os_windows"
    and "protocol_named s p = Some e" "wp_credentials_secret_ref e = []" "p = protocol_vnc \<or> p = protocol_kasmvnc"
    and "\<forall>v \<in> set (merge_env (ts_env s) (override_env ws)). ev_name v \<noteq> ''VNC_PW'' \<and> ev_name v \<noteq> ''WAAS_DESKTOP_PASSWORD''"
  shows "kasm_password_generated ws s \<longleftrightarrow> p = protocol_kasmvnc" "desktop_password_generated ws s \<longleftrightarrow> p = protocol_vnc"
proof -
  have e: "e \<in> set (effective_protocols s)" "wp_name e = p" using protocol_named_some [OF assms(3)] by simp_all
  have env: "\<not> list_ex (\<lambda>v. ev_name v = ''VNC_PW'') (merge_env (ts_env s) (override_env ws))"
    "\<not> list_ex (\<lambda>v. ev_name v = ''WAAS_DESKTOP_PASSWORD'') (merge_env (ts_env s) (override_env ws))"
    using assms(6) by (auto simp: list_ex_iff)
  have kasm: "kasm_password_generated ws s \<longleftrightarrow> p = protocol_kasmvnc"
  proof (cases "p = protocol_kasmvnc")
    case True
    with assms(2-4) env show ?thesis by (simp add: kasm_password_generated_def protocol_named_def)
  next
    case False
    with assms(5) have p: "p = ''vnc''" by (simp add: protocol_vnc_def)
    have "wp_name x \<noteq> protocol_kasmvnc" if x: "x \<in> set (effective_protocols s)" for x
    proof
      assume kx: "wp_name x = protocol_kasmvnc"
      show False
      proof (cases "ts_protocols s = []")
        case True
        with x kx assms(2) show False by (simp add: effective_protocols_def protocol_kasmvnc_def)
      next
        case False
        then have eff: "effective_protocols s = ts_protocols s" by (simp add: effective_protocols_def)
        with x kx have "''kasmvnc'' \<in> wp_name ` set (ts_protocols s)" by (force simp: protocol_kasmvnc_def)
        with admitted_template_coherent [OF assms(1)] have "length (ts_protocols s) = 1" by blast
        with x e eff have "x = e" by (cases "ts_protocols s") auto
        with kx e p show False by (simp add: protocol_kasmvnc_def)
      qed
    qed
    then have "find (\<lambda>x. wp_name x = protocol_kasmvnc) (effective_protocols s) = None" by (simp add: find_None_iff)
    with False show ?thesis by (simp add: kasm_password_generated_def)
  qed
  show "kasm_password_generated ws s \<longleftrightarrow> p = protocol_kasmvnc" by (fact kasm)
  show "desktop_password_generated ws s \<longleftrightarrow> p = protocol_vnc"
  proof (cases "p = protocol_kasmvnc")
    case True
    with kasm show ?thesis by (simp add: desktop_password_generated_def protocol_kasmvnc_def protocol_vnc_def)
  next
    case False
    with assms(5) have p: "p = protocol_vnc" by simp
    have "list_ex (\<lambda>x. (wp_name x = protocol_vnc \<or> wp_name x = protocol_rdp) \<and> wp_credentials_secret_ref x = []) (effective_protocols s)"
      using e p assms(4) by (auto simp: list_ex_iff)
    with p kasm False assms(2) env(2) show ?thesis by (simp add: desktop_password_generated_def)
  qed
qed

text \<open>A pass that succeeded on the secrets left the two copies of that password in agreement.\<close>

lemma secrets_pass_agrees:
  assumes "ensure_kasm_credentials ke ws s st = (Inr (), st1)" "ensure_desktop_credentials de ws s st1 = (Inr (), st2)"
    and "quiet (se_pod ke)" "quiet (se_pod de)" "p = protocol_vnc \<or> p = protocol_kasmvnc"
    and "kasm_password_generated ws s \<longleftrightarrow> p = protocol_kasmvnc" "desktop_password_generated ws s \<longleftrightarrow> p = protocol_vnc"
  shows "passwords_agree (generated_secret_name ws p) ws st2"
proof (cases "p = protocol_kasmvnc")
  case True
  then have "\<not> desktop_password_generated ws s" using assms(7) by (simp add: protocol_kasmvnc_def protocol_vnc_def)
  with True assms(1-3,6) show ?thesis
    by (auto simp: ensure_kasm_credentials_def ensure_desktop_credentials_def generated_secret_name_def dest: ensure_password_agrees)
next
  case False
  with assms(2,4,5,7) show ?thesis
    by (auto simp: ensure_desktop_credentials_def generated_secret_name_def dest: ensure_password_agrees)
qed

lemma apply_found:
  assumes "px_secrets env (px_namespace env, name) = Some x" "on_get (px_secret_calls env name)" "plain_secret x"
  shows "\<exists>b. apply_credentials_secret env name a = Inr b \<and> ci_password b = secret_password x \<and> ci_protocol b = ci_protocol a"
  using assms by (simp add: apply_credentials_secret_def kube_get_def plain_secret_password read_over_def)

text \<open>The password a connection is opened with is the one the desktop runs with. On a linux template the webhook admits,
  for a protocol that names no credentials secret and an environment that sets no password, once the
  operator's pass over the secrets has succeeded, resolving an open session of a running workspace
  succeeds and yields the very password the pod reads.
\<close>

lemma connection_uses_pod_password:
  assumes "validate_template libs (tp_spec t) = None" "ts_os (tp_spec t) \<noteq> os_windows"
    and "protocol_named (tp_spec t) p = Some e" "wp_credentials_secret_ref e = []" "p = protocol_vnc \<or> p = protocol_kasmvnc"
    and "\<forall>v \<in> set (merge_env (ts_env (tp_spec t)) (override_env ws)). ev_name v \<noteq> ''VNC_PW'' \<and> ev_name v \<noteq> ''WAAS_DESKTOP_PASSWORD''"
    and "ensure_kasm_credentials ke ws (tp_spec t) st = (Inr (), st1)" "ensure_desktop_credentials de ws (tp_spec t) st1 = (Inr (), px_secrets env)"
    and "quiet (se_pod ke)" "quiet (se_pod de)" "px_namespace env = md_namespace (ws_meta ws)"
    and "on_get (px_secret_calls env (generated_secret_name ws p))"
    and "\<forall>x. px_secrets env (md_namespace (ws_meta ws), generated_secret_name ws p) = Some x \<longrightarrow> plain_secret x"
    and "find_by_uid (px_fleet env) (sn_workspace_id s) = Inr i" "wo_workspace (fi_object i) = ws"
    and "template_of env (fi_object i) = Found t" "st_phase (wo_status (fi_object i)) = ''Running''"
    and "st_address (wo_status (fi_object i)) \<noteq> []" "session_endpoint (wo_status (fi_object i)) s = (p, port)"
  shows "\<exists>info b. workspace_connection_info env s = Inr info \<and> ci_protocol info = p \<and>
    px_secrets env (compute_key ws) = Some b \<and> ci_password info = secret_password b"
proof -
  note gen = admitted_generates [OF assms(1-6)]
  have "passwords_agree (generated_secret_name ws p) ws (px_secrets env)"
    by (rule secrets_pass_agrees [OF assms(7-10,5)]) (fact gen)+
  then obtain a b where a: "px_secrets env (md_namespace (ws_meta ws), generated_secret_name ws p) = Some a"
    and b: "px_secrets env (compute_key ws) = Some b" and ab: "secret_password a = secret_password b"
    by (auto simp: passwords_agree_def split: option.splits)
  have plain: "plain_secret a" using assms(13) a by blast
  define info0 where "info0 = \<lparr>ci_protocol = p, ci_hostname = st_address (wo_status (fi_object i)), ci_port = port,
    ci_username = [], ci_password = [], ci_params = merge_params (wp_params e) (sn_params s)\<rparr>"
  obtain info1 where i1: "apply_credentials_secret env (generated_secret_name ws p) info0 = Inr info1"
    "ci_password info1 = secret_password a" "ci_protocol info1 = p"
    using apply_found [of env "generated_secret_name ws p" a info0] a assms(11,12) plain by (auto simp: info0_def)
  have start: "workspace_connection_info env s = result_bind (kasm_credentials_info env ws info0) (\<lambda>info.
      result_bind (desktop_credentials_info env ws (Found t) info) (\<lambda>info. Inr (desktop_defaults (kasm_defaults info))))"
    using assms(3,4,14-19) by (simp add: workspace_connection_info_def template_info_def Let_def info0_def)
  have "workspace_connection_info env s = Inr (desktop_defaults (kasm_defaults info1))"
  proof (cases "p = protocol_kasmvnc")
    case True
    then have np: "p \<noteq> protocol_vnc" "p \<noteq> protocol_rdp" by (simp_all add: protocol_kasmvnc_def protocol_vnc_def protocol_rdp_def)
    have "kasm_credentials_info env ws info0 = Inr info1"
      using i1(1) True by (simp add: kasm_credentials_info_def info0_def generated_secret_name_def)
    moreover have "desktop_credentials_info env ws (Found t) info1 = Inr info1"
      using i1(3) np by (simp add: desktop_credentials_info_def)
    ultimately show ?thesis using start by simp
  next
    case False
    with assms(5) have p: "p = protocol_vnc" by simp
    have "kasm_credentials_info env ws info0 = Inr info0" using False by (simp add: kasm_credentials_info_def info0_def)
    moreover have "desktop_credentials_info env ws (Found t) info0 = Inr info1"
      using i1(1) p False assms(2) by (simp add: desktop_credentials_info_def info0_def generated_secret_name_def)
    ultimately show ?thesis using start by simp
  qed
  with i1 ab b show ?thesis by (auto simp: desktop_defaults_def kasm_defaults_def)
qed

section \<open>A concrete desktop\<close>

definition desk_template :: workspace_template where
  "desk_template = demo_template\<lparr>tp_spec := (tp_spec demo_template)\<lparr>
     ts_protocols := [\<lparr>wp_name = ''vnc'', wp_port = 5901, wp_default = True, wp_params = [(''disable-copy'', ''true'')],
       wp_user_params = [''read-only''], wp_expose_audio_port = False, wp_credentials_secret_ref = []\<rparr>],
     ts_overrides := Some \<lparr>to_allowed_fields = [FieldProtocolParams], to_owner = []\<rparr>\<rparr>\<rparr>"

definition desk_status :: workspace_status where
  "desk_status = empty_status\<lparr>st_phase := ''Running'', st_address := ''desk'', st_port := 5901, st_protocol := ''vnc'',
     st_protocols := [\<lparr>prs_name = ''vnc'', prs_port = 5901, prs_default = True\<rparr>]\<rparr>"

definition desk_item :: fleet_item where
  "desk_item = \<lparr>fi_version = 1, fi_object = demo_object\<lparr>wo_status := desk_status\<rparr>\<rparr>"

definition desk_fleet :: fleet where
  "desk_fleet = \<lparr>fl_revision = 1, fl_items = [desk_item]\<rparr>"

definition desk_user :: user where
  "desk_user = \<lparr>us_id = ''u1'', us_username = ''zoe'', us_display_name = [], us_email = [], us_password_hash = ''h'',
     us_role = ''user'', us_active = True, us_max_workspaces = 3, us_created_at = 0, us_updated_at = 0, us_last_login_at = None,
     us_tokens_valid_after = None, us_groups = [''dev''], us_preferences = [], us_oidc_subject = []\<rparr>"

definition desk_actor :: actor where
  "desk_actor = \<lparr>ac_id = ''u1'', ac_username = ''zoe'', ac_role = ''user'', ac_client_ip = []\<rparr>"

definition desk_payload :: token_payload where
  "desk_payload = ConnectionPayload (registered ''waas'' ''u1'' audience_connection 0 60000000000)
     \<lparr>session_id = ''s1'', workspace_id = ''uid-w1'', clipboard = \<lparr>grant_c = False, grant_p = True\<rparr>\<rparr>"

definition desk_library :: signing_library where
  "desk_library = \<lparr>sl_sign = (\<lambda>p. if p = desk_payload then Some ''good'' else None),
     sl_parse = (\<lambda>now algs issuer aud exp token. if token = ''good'' \<and> issuer = ''waas'' \<and> aud = audience_connection \<and> now < 60000000000
       then Some desk_payload else None)\<rparr>"

definition desk_portal :: portal where
  "desk_portal = \<lparr>px_namespace = ''waas'', px_fleet = Some desk_fleet, px_templates = (\<lambda>n. if n = ''t1'' then Found desk_template else Missing),
     px_policies = Some [(demo_policy ''p'' 0 [])\<lparr>po_overrides := Some [FieldProtocolParams]\<rparr>],
     px_users = (\<lambda>n. if n = ''u1'' then Found desk_user else Missing),
     px_secrets = [(''waas'', ''waas-desktop-w1'') \<mapsto> password_secret demo_workspace (''waas'', ''waas-desktop-w1'') ''pw''],
     px_secret_calls = (\<lambda>_. answering), px_remotes = None, px_sessions_ok = True,
     px_sign = sl_sign desk_library, px_issuer = ''waas'', px_connection_ttl = 60000000000, px_now = 0, px_fresh_id = ''s1''\<rparr>"

definition desk_input :: connect_input where
  "desk_input = \<lparr>cn_protocol = [], cn_params = [(''read-only'', ''true'')]\<rparr>"

definition desk_session :: session where
  "desk_session = \<lparr>sn_id = ''s1'', sn_user_id = ''u1'', sn_workspace_id = ''uid-w1'', sn_workspace_name = ''w1'', sn_protocol = ''vnc'',
     sn_client_ip = [], sn_started_at = 0, sn_ended_at = None, sn_params = [(''read-only'', ''true'')], sn_kind = ''workspace''\<rparr>"

definition desk_result :: connect_result where
  "desk_result = \<lparr>cr_session_id = ''s1'', cr_token = ''good'', cr_protocol = ''vnc'',
     cr_capabilities = \<lparr>sk_copy = False, sk_paste = True, sk_copy_lock = LockedByParams, sk_paste_lock = NoLock\<rparr>\<rparr>"

lemmas desk_defs = desk_template_def desk_status_def desk_item_def desk_fleet_def desk_user_def desk_actor_def desk_portal_def
  desk_input_def desk_session_def desk_result_def demo_object_def demo_workspace_def demo_meta_def demo_template_def demo_policy_def
  empty_status_def

lemma desk_item_facts [simp]:
  "md_uid (item_meta desk_item) = ''uid-w1''" "md_name (item_meta desk_item) = ''w1''" "sp_owner (item_spec desk_item) = ''u1''"
  "wo_status (fi_object desk_item) = desk_status" "wo_workspace (fi_object desk_item) = demo_workspace"
  "template_of desk_portal (fi_object desk_item) = Found desk_template"
  by (simp_all add: desk_defs item_meta_def item_spec_def template_of_def)

lemma desk_found [simp]:
  "find_by_uid (px_fleet desk_portal) ''uid-w1'' = Inr desk_item"
  "fetch_by_id (px_fleet desk_portal) desk_actor ''uid-w1'' = Inr desk_item"
  using desk_item_facts
  by (simp_all add: find_by_uid_def fetch_by_id_def desk_portal_def desk_fleet_def desk_actor_def)

lemma desk_grant: "resolve_clipboard_grant desk_portal desk_actor = \<lparr>grant_c = True, grant_p = True\<rparr>"
  by (simp add: resolve_clipboard_grant_def resolve_policy_def desk_defs user_identity_def subjects_match_def matched_via_def clipboard_of_def)

definition desk_vnc :: workspace_protocol where
  "desk_vnc = \<lparr>wp_name = ''vnc'', wp_port = 5901, wp_default = True, wp_params = [(''disable-copy'', ''true'')],
     wp_user_params = [''read-only''], wp_expose_audio_port = False, wp_credentials_secret_ref = []\<rparr>"

lemma desk_facts [simp]:
  "protocol_named (tp_spec desk_template) ''vnc'' = Some desk_vnc" "field_overridable (tp_spec desk_template) FieldProtocolParams"
  "wp_user_params desk_vnc = [''read-only'']" "wp_params desk_vnc = [(''disable-copy'', ''true'')]" "wp_credentials_secret_ref desk_vnc = []"
  "cn_params desk_input = [(''read-only'', ''true'')]" "cn_protocol desk_input = []"
  "ac_role desk_actor \<noteq> role_admin" "ac_id desk_actor = ''u1''"
  "st_phase desk_status = ''Running''" "px_sessions_ok desk_portal" "px_issuer desk_portal = ''waas''" "px_now desk_portal = 0"
  "px_connection_ttl desk_portal = 60000000000" "px_sign desk_portal desk_payload = Some ''good''"
  by (simp_all add: protocol_named_def effective_protocols_def desk_template_def desk_vnc_def field_overridable_def desk_input_def
      desk_actor_def role_admin_def desk_status_def desk_portal_def desk_library_def)

lemma desk_vetted: "validate_user_overrides ''vnc'' [(''read-only'', ''true'')] (resolve_user_param_names ''vnc'' [''read-only'']) False = None"
  by code_simp

lemma desk_connect: "connect desk_portal desk_actor ''uid-w1'' desk_input [] = (Inr desk_result, [desk_session])"
proof -
  have p: "chosen_protocol (fi_object desk_item) desk_input = ''vnc''"
    by (simp add: chosen_protocol_def desk_input_def desk_status_def)
  have pol: "actor_policy desk_portal desk_actor = Some ((demo_policy ''p'' 0 [])\<lparr>po_overrides := Some [FieldProtocolParams]\<rparr>)"
    by (simp add: actor_policy_def resolve_policy_def desk_defs user_identity_def subjects_match_def matched_via_def)
  have v: "vet_choice desk_portal desk_actor desk_input ''vnc'' (Found desk_template) (entry_of (Found desk_template) ''vnc'') = None"
    using desk_vetted pol
    by (simp add: vet_choice_def entry_of_def Let_def policy_allows_def del: validate_user_overrides.simps)
  have g: "connect_grants desk_portal desk_actor desk_input (Found desk_template) (entry_of (Found desk_template) ''vnc'') =
      (\<lparr>grant_c = True, grant_p = True\<rparr>, \<lparr>grant_c = False, grant_p = True\<rparr>)"
    by (simp add: connect_grants_def entry_of_def desk_grant Let_def clamp_clipboard_grant_def merge_params_def
        clipboard_param_blocks_def str_at_def parse_bool_def)
  have s: "new_session desk_portal desk_actor (fi_object desk_item) ''vnc'' desk_input = desk_session\<lparr>sn_kind := []\<rparr>"
    by (simp add: new_session_def) (simp add: desk_defs)
  have k: "sn_kind (desk_session\<lparr>sn_kind := []\<rparr>) = []" "sn_id desk_session = ''s1''" "sn_workspace_id desk_session = ''uid-w1''"
    "desk_session\<lparr>sn_kind := session_kind_workspace\<rparr> = desk_session"
    by (simp_all add: desk_session_def session_kind_workspace_def)
  have pay: "ConnectionPayload (registered ''waas'' ''u1'' audience_connection 0 60000000000)
      \<lparr>session_id = ''s1'', workspace_id = ''uid-w1'', clipboard = \<lparr>grant_c = False, grant_p = True\<rparr>\<rparr> = desk_payload"
    by (simp add: desk_payload_def)
  show ?thesis
    using k by (simp add: connect_def p v g s pay session_create_def Let_def new_connection_claims_def
        clipboard_capabilities_def clipboard_lock_of_def desk_result_def)
qed

theorem connect_authorized_witness:
  "\<exists>fl i g. px_fleet desk_portal = Some fl \<and> i \<in> set (fl_items fl) \<and> sp_owner (item_spec i) = ''u1'' \<and>
    px_sign desk_portal (ConnectionPayload (registered ''waas'' ''u1'' ''waas-connection'' 0 60000000000)
      \<lparr>session_id = cr_session_id desk_result, workspace_id = ''uid-w1'', clipboard = g\<rparr>) = Some (cr_token desk_result)"
proof -
  have "ac_id desk_actor = ''u1''" "px_issuer desk_portal = ''waas''" "px_now desk_portal = 0" "px_connection_ttl desk_portal = 60000000000"
    by (simp_all add: desk_actor_def desk_portal_def)
  with connect_authorized [OF desk_connect] show ?thesis by (elim exE conjE) (simp, blast)
qed

lemma desk_honest: "honest_library desk_library"
proof -
  have "payload_registered desk_payload = registered ''waas'' ''u1'' audience_connection 0 60000000000"
    by (simp add: desk_payload_def)
  then show ?thesis
    by (auto simp: honest_library_def desk_library_def registered_def numeric_date_def split: if_splits)
qed

definition desk_ws_env :: ws_env where
  "desk_ws_env = demo_env\<lparr>env_validate := (\<lambda>t. if t = ''good'' then Inr \<lparr>session_id = ''s1'', workspace_id = ''uid-w1'',
     clipboard = \<lparr>grant_c = False, grant_p = True\<rparr>\<rparr> else Inl MissingToken)\<rparr>"

lemma desk_same_signer: "same_signer desk_library desk_portal desk_ws_env"
proof -
  have "sl_parse desk_library 0 [''RS256''] ''waas'' audience_connection True ''good'' = Some desk_payload"
    by (simp add: desk_library_def)
  then show ?thesis
    by (auto simp: same_signer_def desk_ws_env_def desk_payload_def split: if_splits) (auto simp: desk_portal_def)
qed

lemma desk_relay: "Pipe ''x'' (new_clipboard_filter False True) \<in> set (serve_ws desk_ws_env (demo_request ''good''))"
proof -
  have "ws_params (demo_request ''good'') (demo_info ''vnc'') = vnc_params"
    by (simp add: ws_params_def demo_request_def demo_info_def vnc_params_def int_query_def atoi_full_def)
  then show ?thesis
    by (simp add: serve_ws_def desk_ws_env_def demo_env_def demo_request_def vnc_handshake [unfolded demo_env_def] demo_info_def)
qed

theorem denied_copy_never_leaves_witness:
  "\<exists>p' outs js ks. pipe_run (new_pipe (new_clipboard_filter False True)) [GuacdRead (encode_all paste_stream) True] = (p', outs) \<and>
     paste_stream = js @ ks \<and> (p_open p' \<longrightarrow> ks = []) \<and> browser_frames outs = encode_all (strip_clipboard {} js)"
proof -
  obtain p' outs where run: "pipe_run (new_pipe (new_clipboard_filter False True)) [GuacdRead (encode_all paste_stream) True] = (p', outs)"
    by (metis prod.exhaust)
  have "guacd_bytes [GuacdRead (encode_all paste_stream) True] = encode_all paste_stream" by simp
  moreover have "\<not> grant_c (resolve_clipboard_grant desk_portal desk_actor) \<or> \<not> sk_copy (cr_capabilities desk_result)"
    "q_token (demo_request ''good'') = cr_token desk_result"
    by (simp_all add: desk_result_def demo_request_def)
  ultimately show ?thesis
    using denied_copy_never_leaves [OF desk_connect _ desk_honest desk_same_signer _ desk_relay run _ paste_stream_wf paste_stream_small] run
    by blast
qed

lemma desk_endpoint: "session_endpoint (wo_status (fi_object desk_item)) desk_session = (''vnc'', 5901)"
  by (simp add: session_endpoint_def desk_status_def desk_session_def)

lemma desk_resolves: "\<exists>info. resolve_connection_info desk_portal ''s1'' [desk_session] = Inr info"
proof -
  have s: "sn_id desk_session = ''s1''" "sn_ended_at desk_session = None" "sn_kind desk_session = ''workspace''"
    "sn_workspace_id desk_session = ''uid-w1''" "st_address desk_status \<noteq> []"
    by (simp_all add: desk_session_def desk_status_def)
  have "plain_secret (password_secret demo_workspace (''waas'', ''waas-desktop-w1'') ''pw'')"
    by (simp add: plain_secret_def password_secret_def served_data_def)
  then have "\<exists>b. apply_credentials_secret desk_portal ''waas-desktop-w1'' a = Inr b" for a
    using apply_found [of desk_portal "''waas-desktop-w1''"] by (auto simp: desk_portal_def)
  then have "apply_credentials_secret desk_portal ''waas-desktop-w1'' a \<noteq> Inl x" for a x by (metis sum.distinct(1))
  moreover have "desktop_secret_name (md_name (ws_meta demo_workspace)) = ''waas-desktop-w1''"
    by (simp add: desktop_secret_name_def demo_workspace_def demo_meta_def)
  moreover have "ts_os (tp_spec desk_template) \<noteq> os_windows" by (simp add: desk_template_def demo_template_def os_linux_def os_windows_def)
  ultimately show ?thesis
    using s desk_endpoint
    by (auto simp: resolve_connection_info_def session_find_def session_kind_remote_def workspace_connection_info_def Let_def
        template_info_def kasm_credentials_info_def desktop_credentials_info_def protocol_kasmvnc_def protocol_vnc_def result_bind_def
        split: sum.splits)
qed

theorem locked_parameters_kept_witness:
  "\<exists>info. resolve_connection_info desk_portal ''s1'' [desk_session] = Inr info \<and> ci_params info ''disable-copy'' = Some ''true''"
proof -
  obtain info where info: "resolve_connection_info desk_portal ''s1'' [desk_session] = Inr info" using desk_resolves by blast
  have d: "''disable-copy'' \<notin> set (resolve_user_param_names ''vnc'' [''read-only''])" by code_simp
  have "ci_params info ''disable-copy'' = map_of (wp_params desk_vnc) ''disable-copy''"
    by (rule locked_parameters_kept [OF desk_connect, of desk_item desk_template desk_vnc desk_portal "[desk_session]" desk_session info desk_item 5901])
      (use info d desk_endpoint in \<open>simp_all add: desk_result_def session_find_def desk_session_def\<close>)
  with info show ?thesis by simp
qed

text \<open>A session for an endpoint the status no longer lists, with a parameter the default protocol locks.\<close>

definition stale_session :: session where
  "stale_session = desk_session\<lparr>sn_protocol := ''rdp'', sn_params := [(''disable-copy'', ''false'')]\<rparr>"

theorem stale_status_unlocks_witness:
  "\<exists>info. workspace_connection_info desk_portal stale_session = Inr info \<and> ci_protocol info = ''vnc'' \<and>
    ci_params info ''disable-copy'' = Some ''false''"
proof -
  have ep: "session_endpoint desk_status stale_session = (''vnc'', 5901)" "sn_workspace_id stale_session = ''uid-w1''"
    "st_address desk_status \<noteq> []"
    by (simp_all add: session_endpoint_def desk_status_def desk_session_def stale_session_def)
  have "plain_secret (password_secret demo_workspace (''waas'', ''waas-desktop-w1'') ''pw'')"
    by (simp add: plain_secret_def password_secret_def served_data_def)
  then have "\<exists>b. apply_credentials_secret desk_portal ''waas-desktop-w1'' a = Inr b" for a
    using apply_found [of desk_portal "''waas-desktop-w1''"] by (auto simp: desk_portal_def)
  then have "apply_credentials_secret desk_portal ''waas-desktop-w1'' a \<noteq> Inl x" for a x by (metis sum.distinct(1))
  moreover have "desktop_secret_name (md_name (ws_meta demo_workspace)) = ''waas-desktop-w1''"
    by (simp add: desktop_secret_name_def demo_workspace_def demo_meta_def)
  moreover have "ts_os (tp_spec desk_template) \<noteq> os_windows" by (simp add: desk_template_def demo_template_def os_linux_def os_windows_def)
  ultimately have "\<exists>info. workspace_connection_info desk_portal stale_session = Inr info"
    using ep
    by (auto simp: workspace_connection_info_def Let_def template_info_def kasm_credentials_info_def desktop_credentials_info_def
        protocol_kasmvnc_def protocol_vnc_def result_bind_def split: sum.splits)
  then obtain info where info: "workspace_connection_info desk_portal stale_session = Inr info" by blast
  have "ci_protocol info = st_protocol (wo_status (fi_object desk_item)) \<and> ci_params info ''disable-copy'' = Some ''false''"
    by (rule stale_status_unlocks [OF info, of desk_item desk_template desk_vnc "''disable-copy''" "''true''"])
      (use ep in \<open>simp_all add: stale_session_def desk_session_def desk_status_def\<close>)
  with info show ?thesis by (auto simp: desk_status_def)
qed

text \<open>A kasmvnc desktop whose password one pass of the operator generated.\<close>

definition kasm_template :: workspace_template where
  "kasm_template = demo_template\<lparr>tp_spec := demo_kasm_spec\<rparr>"

definition kasm_item :: fleet_item where
  "kasm_item = desk_item\<lparr>fi_object := demo_object\<lparr>wo_status := desk_status\<lparr>st_protocol := ''kasmvnc'', st_port := 6901\<rparr>\<rparr>\<rparr>"

definition kasm_secrets :: "secret store" where
  "kasm_secrets = [(''waas'', ''waas-kasm-w1'') \<mapsto> password_secret demo_workspace (''waas'', ''waas-kasm-w1'') ''0a1b'',
     (''waas'', ''ws-w1'') \<mapsto> password_secret demo_workspace (''waas'', ''ws-w1'') ''0a1b'']"

definition kasm_portal :: portal where
  "kasm_portal = desk_portal\<lparr>px_fleet := Some \<lparr>fl_revision = 1, fl_items = [kasm_item]\<rparr>, px_templates := (\<lambda>_. Found kasm_template),
     px_secrets := kasm_secrets\<rparr>"

lemma kasm_secrets_made: "ensure_kasm_credentials demo_secret_calls demo_workspace demo_kasm_spec Map.empty = (Inr (), kasm_secrets)"
proof -
  have c: "se_resolver demo_secret_calls = answering" "se_pod demo_secret_calls = answering" "se_random demo_secret_calls = Some ''0a1b''"
    by (simp_all add: demo_secret_calls_def)
  have m: "md_namespace (ws_meta demo_workspace) = ''waas''" "md_name (ws_meta demo_workspace) = ''w1''"
    "compute_key demo_workspace = (''waas'', ''ws-w1'')"
    by (simp_all add: demo_workspace_def demo_meta_def compute_key_def effective_target_namespace_def effective_workload_name_def)
  show ?thesis
    using demo_generated
    by (simp add: ensure_kasm_credentials_def ensure_password_def resolve_password_def sync_pod_copy_def c m kube_get_def kube_create_def
        kasm_secret_name_def kasm_secrets_def Let_def)
qed

theorem connection_uses_pod_password_witness:
  "\<exists>info b. workspace_connection_info kasm_portal (desk_session\<lparr>sn_protocol := ''kasmvnc''\<rparr>) = Inr info \<and> ci_protocol info = ''kasmvnc'' \<and>
    kasm_secrets (''waas'', ''ws-w1'') = Some b \<and> ci_password info = secret_password b"
proof -
  let ?k = "demo_entry ''kasmvnc'' 6901 [] []"
  have e: "ts_protocols demo_kasm_spec = [?k]" "ts_os demo_kasm_spec = os_linux"
    by (simp_all add: demo_kasm_spec_def demo_entry_def demo_template_def)
  have "\<not> audio_port_exposed demo_kasm_spec"
    by (simp add: audio_port_exposed_def effective_protocols_def e demo_entry_def)
  then have ok: "validate_template demo_libs demo_kasm_spec = None"
    using demo_entries_ok(2) e
    by (simp add: validate_template_def first_failure_None check_kasm_config_def)
      (simp add: demo_kasm_spec_def demo_template_def demo_entry_def check_kasm_config_def first_failure_None)
  have p: "protocol_named demo_kasm_spec ''kasmvnc'' = Some ?k" "ts_os demo_kasm_spec \<noteq> os_windows"
    "\<forall>v \<in> set (merge_env (ts_env demo_kasm_spec) (override_env demo_workspace)).
       ev_name v \<noteq> ''VNC_PW'' \<and> ev_name v \<noteq> ''WAAS_DESKTOP_PASSWORD''"
    by (simp_all add: protocol_named_def effective_protocols_def e demo_entry_def os_linux_def os_windows_def)
      (simp add: demo_kasm_spec_def demo_template_def override_env_def demo_workspace_def merge_env_def overlay_def)
  have gen: "\<not> desktop_password_generated demo_workspace demo_kasm_spec"
    using demo_generated by (simp add: desktop_password_generated_def)
  have d: "ensure_desktop_credentials demo_secret_calls demo_workspace demo_kasm_spec kasm_secrets = (Inr (), px_secrets kasm_portal)"
    using gen by (simp add: ensure_desktop_credentials_def kasm_portal_def)
  have w: "px_namespace kasm_portal = ''waas''" "px_secrets kasm_portal = kasm_secrets" "px_secret_calls kasm_portal x = answering"
    "find_by_uid (px_fleet kasm_portal) (sn_workspace_id desk_session) = Inr kasm_item" "wo_workspace (fi_object kasm_item) = demo_workspace"
    "template_of kasm_portal (fi_object kasm_item) = Found kasm_template" "tp_spec kasm_template = demo_kasm_spec"
    "wo_status (fi_object kasm_item) = desk_status\<lparr>st_protocol := ''kasmvnc'', st_port := 6901\<rparr>" for x
    by (simp_all add: kasm_portal_def desk_portal_def find_by_uid_def desk_session_def kasm_item_def desk_item_def item_meta_def
        demo_object_def demo_workspace_def demo_meta_def template_of_def kasm_template_def)
  have m: "md_namespace (ws_meta demo_workspace) = ''waas''" "compute_key demo_workspace = (''waas'', ''ws-w1'')"
    "generated_secret_name demo_workspace ''kasmvnc'' = ''waas-kasm-w1''"
    by (simp_all add: demo_workspace_def demo_meta_def compute_key_def effective_target_namespace_def effective_workload_name_def
        generated_secret_name_def protocol_kasmvnc_def kasm_secret_name_def)
  have plain: "\<forall>x. kasm_secrets (''waas'', ''waas-kasm-w1'') = Some x \<longrightarrow> plain_secret x"
    by (simp add: kasm_secrets_def plain_secret_def password_secret_def served_data_def)
  have ep: "session_endpoint (desk_status\<lparr>st_protocol := ''kasmvnc'', st_port := 6901\<rparr>) (desk_session\<lparr>sn_protocol := ''kasmvnc''\<rparr>) = (''kasmvnc'', 6901)"
    "sn_workspace_id (desk_session\<lparr>sn_protocol := ''kasmvnc''\<rparr>) = sn_workspace_id desk_session"
    by (simp_all add: session_endpoint_def)
  have "\<exists>info b. workspace_connection_info kasm_portal (desk_session\<lparr>sn_protocol := ''kasmvnc''\<rparr>) = Inr info \<and> ci_protocol info = ''kasmvnc'' \<and>
      px_secrets kasm_portal (compute_key demo_workspace) = Some b \<and> ci_password info = secret_password b"
    by (rule connection_uses_pod_password [of demo_libs kasm_template "''kasmvnc''" ?k demo_workspace demo_secret_calls Map.empty kasm_secrets
          demo_secret_calls kasm_portal _ kasm_item 6901])
      (use ok p d w m plain ep kasm_secrets_made in \<open>simp_all add: demo_entry_def protocol_kasmvnc_def demo_secret_calls_def desk_status_def\<close>)
  with w(2) m(2) show ?thesis by simp
qed

end
