(* ===== verification/Accounts.thy ===== *)
theory Accounts
  imports Tokens Policy
begin

text \<open>
  The accounts of the API server: the statements of \<open>repository/user_sql.go\<close> on the table of users, the
  account service (\<open>service/user_service.go\<close>, \<open>username_placement.go\<close>) and local sign-in
  (\<open>service/auth_service.go\<close>). Statements of different requests interleave in any order, so what must
  hold under concurrency is stated over sequences of statements. Password hashing is a parameter.
\<close>

section \<open>The table\<close>

datatype repo_error = UserGone | Duplicate | LastAdmin | Database "string list"

text \<open>The groups of a row are one comma-joined column.\<close>

definition split_groups :: "string \<Rightarrow> string list" where
  "split_groups s = (if s = [] then [] else filter (\<lambda>g. g \<noteq> []) (map trim_space (split_on CHR '','' s)))"

definition join_groups :: "string list \<Rightarrow> string" where
  "join_groups gs = join_with '','' gs"

definition user_at :: "string \<Rightarrow> user list \<Rightarrow> user option" where
  "user_at i rows = find (\<lambda>u. us_id u = i) rows"

definition find_user :: "bool \<Rightarrow> (user \<Rightarrow> bool) \<Rightarrow> user list \<Rightarrow> user fetched" where
  "find_user ok P rows = (if \<not> ok then Failed else case find P rows of None \<Rightarrow> Missing | Some u \<Rightarrow> Found u)"

definition find_by_id :: "bool \<Rightarrow> user list \<Rightarrow> string \<Rightarrow> user fetched" where
  "find_by_id ok rows i = find_user ok (\<lambda>u. us_id u = i) rows"

definition find_by_username :: "bool \<Rightarrow> user list \<Rightarrow> string \<Rightarrow> user fetched" where
  "find_by_username ok rows n = find_user ok (\<lambda>u. us_username u = n) rows"

definition find_by_subject :: "bool \<Rightarrow> user list \<Rightarrow> string \<Rightarrow> user fetched" where
  "find_by_subject ok rows sub = (if sub = [] then Missing else find_user ok (\<lambda>u. us_oidc_subject u = sub) rows)"

text \<open>The primary key, the unique username and the partial unique index on the subject.\<close>

definition unique_violation :: "user \<Rightarrow> user list \<Rightarrow> bool" where
  "unique_violation u rows \<longleftrightarrow> list_ex (\<lambda>r. us_id r = us_id u \<or> us_username r = us_username u \<or>
     us_oidc_subject u \<noteq> [] \<and> us_oidc_subject r = us_oidc_subject u) rows"

definition users_insert :: "bool \<Rightarrow> user \<Rightarrow> user list \<Rightarrow> (repo_error + unit) \<times> user list" where
  "users_insert ok u rows =
     (if \<not> ok then (Inl (Database [''creating user'', us_username u]), rows)
      else if unique_violation u rows then (Inl Duplicate, rows)
      else (Inr (), rows @ [u\<lparr>us_groups := split_groups (join_groups (us_groups u))\<rparr>]))"

text \<open>One targeted \<open>UPDATE ... WHERE id\<close>: no row touched is an error.\<close>

definition users_write :: "bool \<Rightarrow> string \<Rightarrow> (user \<Rightarrow> user) \<Rightarrow> user list \<Rightarrow> (repo_error + unit) \<times> user list" where
  "users_write ok i f rows =
     (if \<not> ok then (Inl (Database [''updating user'', i]), rows)
      else if user_at i rows = None then (Inl UserGone, rows)
      else (Inr (), map (\<lambda>r. if us_id r = i then f r else r) rows))"

text \<open>The columns \<open>Update\<close> writes back: neither the role, nor the activation, nor the token bound.\<close>

definition update_row :: "user \<Rightarrow> user \<Rightarrow> user" where
  "update_row u r = r\<lparr>us_email := us_email u, us_password_hash := us_password_hash u, us_max_workspaces := us_max_workspaces u,
     us_updated_at := us_updated_at u, us_last_login_at := us_last_login_at u,
     us_groups := split_groups (join_groups (us_groups u)), us_display_name := us_display_name u,
     us_preferences := us_preferences u, us_oidc_subject := us_oidc_subject u\<rparr>"

definition subject_taken :: "user \<Rightarrow> user list \<Rightarrow> bool" where
  "subject_taken u rows \<longleftrightarrow> us_oidc_subject u \<noteq> [] \<and> user_at (us_id u) rows \<noteq> None \<and>
     list_ex (\<lambda>r. us_id r \<noteq> us_id u \<and> us_oidc_subject r = us_oidc_subject u) rows"

text \<open>A subject another row has violates the partial unique index, and the statement fails.\<close>

definition users_update :: "bool \<Rightarrow> user \<Rightarrow> user list \<Rightarrow> (repo_error + unit) \<times> user list" where
  "users_update ok u rows = users_write (ok \<and> \<not> subject_taken u rows) (us_id u) (update_row u) rows"

definition record_login :: "bool \<Rightarrow> string \<Rightarrow> int \<Rightarrow> user list \<Rightarrow> (repo_error + unit) \<times> user list" where
  "record_login ok i tm = users_write ok i (\<lambda>r. r\<lparr>us_last_login_at := Some tm, us_updated_at := tm\<rparr>)"

definition set_role :: "bool \<Rightarrow> string \<Rightarrow> string \<Rightarrow> user list \<Rightarrow> (repo_error + unit) \<times> user list" where
  "set_role ok i role = users_write ok i (\<lambda>r. r\<lparr>us_role := role\<rparr>)"

definition set_active :: "bool \<Rightarrow> string \<Rightarrow> bool \<Rightarrow> user list \<Rightarrow> (repo_error + unit) \<times> user list" where
  "set_active ok i b = users_write ok i (\<lambda>r. r\<lparr>us_active := b\<rparr>)"

definition set_tokens_valid_after :: "bool \<Rightarrow> string \<Rightarrow> int \<Rightarrow> user list \<Rightarrow> (repo_error + unit) \<times> user list" where
  "set_tokens_valid_after ok i tm = users_write ok i (\<lambda>r. r\<lparr>us_tokens_valid_after := Some tm\<rparr>)"

text \<open>\<open>referenced\<close> tells whether a row of another table still names the account, which its foreign key protects.\<close>

definition users_delete :: "bool \<Rightarrow> (string \<Rightarrow> bool) \<Rightarrow> string \<Rightarrow> user list \<Rightarrow> (repo_error + unit) \<times> user list" where
  "users_delete ok referenced i rows =
     (if \<not> ok then (Inl (Database [''deleting user'', i]), rows)
      else if user_at i rows = None then (Inl UserGone, rows)
      else if referenced i then (Inl (Database [''foreign key'', i]), rows)
      else (Inr (), filter (\<lambda>r. us_id r \<noteq> i) rows))"

definition active_admin :: "user \<Rightarrow> bool" where
  "active_admin u \<longleftrightarrow> us_role u = role_admin \<and> us_active u"

definition count_active_admins :: "user list \<Rightarrow> nat" where
  "count_active_admins rows = length (filter active_admin rows)"

text \<open>The write, judged before the commit of the transaction that performs it.\<close>

definition with_admin_floor :: "bool \<Rightarrow> string \<Rightarrow> (user \<Rightarrow> user) \<Rightarrow> user list \<Rightarrow> (repo_error + unit) \<times> user list" where
  "with_admin_floor ok i f rows =
     (if \<not> ok then (Inl (Database [''admin floor'', i]), rows)
      else case user_at i rows of
        None \<Rightarrow> (Inl UserGone, rows)
      | Some u \<Rightarrow>
         (let rows' = map (\<lambda>r. if us_id r = i then f r else r) rows in
          if active_admin u \<and> count_active_admins rows' = 0 then (Inl LastAdmin, rows) else (Inr (), rows')))"

definition set_role_unless_last_admin :: "bool \<Rightarrow> string \<Rightarrow> string \<Rightarrow> user list \<Rightarrow> (repo_error + unit) \<times> user list" where
  "set_role_unless_last_admin ok i role = with_admin_floor ok i (\<lambda>r. r\<lparr>us_role := role\<rparr>)"

definition set_active_unless_last_admin :: "bool \<Rightarrow> string \<Rightarrow> bool \<Rightarrow> user list \<Rightarrow> (repo_error + unit) \<times> user list" where
  "set_active_unless_last_admin ok i b = with_admin_floor ok i (\<lambda>r. r\<lparr>us_active := b\<rparr>)"

section \<open>Sequences of statements\<close>

datatype statement =
    Insert user
  | UpdateRow user
  | RecordLogin string int
  | SetRole string string
  | SetActive string bool
  | GuardedRole string string
  | GuardedActive string bool
  | Revoke string int
  | DeleteRow string bool

text \<open>A deletion comes with whether the account is referenced from another table.\<close>

fun run_statement :: "statement \<Rightarrow> user list \<Rightarrow> user list" where
  "run_statement (Insert u) rows = snd (users_insert True u rows)"
| "run_statement (UpdateRow u) rows = snd (users_update True u rows)"
| "run_statement (RecordLogin i t) rows = snd (record_login True i t rows)"
| "run_statement (SetRole i role) rows = snd (set_role True i role rows)"
| "run_statement (SetActive i b) rows = snd (set_active True i b rows)"
| "run_statement (GuardedRole i role) rows = snd (set_role_unless_last_admin True i role rows)"
| "run_statement (GuardedActive i b) rows = snd (set_active_unless_last_admin True i b rows)"
| "run_statement (Revoke i t) rows = snd (set_tokens_valid_after True i t rows)"
| "run_statement (DeleteRow i referenced) rows = snd (users_delete True (\<lambda>_. referenced) i rows)"

fun run_statements :: "statement list \<Rightarrow> user list \<Rightarrow> user list" where
  "run_statements [] rows = rows"
| "run_statements (s # ss) rows = run_statements ss (run_statement s rows)"

section \<open>Creating accounts\<close>

record hashing =
  hs_hash :: "string \<Rightarrow> string option"
  hs_verify :: "string \<Rightarrow> string \<Rightarrow> bool option"

text \<open>What one request meets: the clock, fresh values, the libraries, and whether each statement reaches the database.\<close>

record account_env =
  ae_text :: text_lib
  ae_hashing :: hashing
  ae_now :: int
  ae_fresh_id :: string
  ae_issuer :: string
  ae_access_ttl :: int
  ae_stream_ttl :: int
  ae_sign :: "token_payload \<Rightarrow> string option"
  ae_read_ok :: bool
  ae_row_ok :: bool
  ae_role_ok :: bool
  ae_active_ok :: bool
  ae_revoke_ok :: bool
  ae_floor_off :: bool

definition default_max_workspaces :: int where "default_max_workspaces = 3"

text \<open>The account whose personal namespace a candidate username would share, and that namespace.\<close>

definition placement_username_conflict ::
  "text_lib \<Rightarrow> string list option \<Rightarrow> string \<Rightarrow> api_error + (string \<times> string) option" where
  "placement_username_conflict lib usernames candidate =
     (let personal = personal_namespace lib candidate [] in
      if personal = [] then Inr None
      else case usernames of
        None \<Rightarrow> Inl (Unexpected [''checking username placement collision''])
      | Some names \<Rightarrow> Inr (map_option (\<lambda>n. (n, personal))
          (find (\<lambda>n. n \<noteq> candidate \<and> personal_namespace lib n [] = personal) names)))"

definition list_usernames :: "bool \<Rightarrow> user list \<Rightarrow> string list option" where
  "list_usernames ok rows = (if ok then Some (map us_username rows) else None)"

fun normalize_loop :: "string list \<Rightarrow> string list \<Rightarrow> string list" where
  "normalize_loop [] out = out"
| "normalize_loop (g # gs) out =
     (let t = trim_space g in normalize_loop gs (if t = [] \<or> t \<in> set out then out else out @ [t]))"

definition normalize_groups :: "string list \<Rightarrow> string list" where
  "normalize_groups gs = normalize_loop gs []"

record create_user_input =
  cu_username :: string
  cu_email :: string
  cu_password :: string
  cu_role :: string
  cu_max_workspaces :: int
  cu_groups :: "string list"

definition create_user :: "account_env \<Rightarrow> create_user_input \<Rightarrow> user list \<Rightarrow> (api_error + user) \<times> user list" where
  "create_user env inp rows =
     (let role = (if cu_role inp = [] then role_user else cu_role inp) in
      if cu_username inp = [] \<or> cu_password inp = [] then (Inl (BadRequest [''username and password are required'']), rows)
      else if role \<noteq> role_admin \<and> role \<noteq> role_user then (Inl (BadRequest [''role must be admin or user'']), rows)
      else case placement_username_conflict (ae_text env) (list_usernames (ae_read_ok env) rows) (cu_username inp) of
        Inl e \<Rightarrow> (Inl e, rows)
      | Inr (Some (other, ns)) \<Rightarrow> (Inl (Conflict [''username collides with the existing account'', other, ns]), rows)
      | Inr None \<Rightarrow> (case hs_hash (ae_hashing env) (cu_password inp) of
          None \<Rightarrow> (Inl (Unexpected [''hashing password'']), rows)
        | Some h \<Rightarrow>
           (let u = \<lparr>us_id = ae_fresh_id env, us_username = cu_username inp, us_display_name = [], us_email = cu_email inp,
                us_password_hash = h, us_role = role, us_active = True,
                us_max_workspaces = (if cu_max_workspaces inp \<le> 0 then default_max_workspaces else cu_max_workspaces inp),
                us_created_at = ae_now env, us_updated_at = ae_now env, us_last_login_at = None, us_tokens_valid_after = None,
                us_groups = normalize_groups (cu_groups inp), us_preferences = [], us_oidc_subject = []\<rparr> in
            case users_insert (ae_row_ok env) u rows of
              (Inr _, rows') \<Rightarrow> (Inr u, rows')
            | (Inl Duplicate, rows') \<Rightarrow> (Inl (Conflict [''username is already taken'', us_username u]), rows')
            | (Inl _, rows') \<Rightarrow> (Inl (Unexpected [''creating user'', us_username u]), rows'))))"

definition ensure_bootstrap_admin :: "account_env \<Rightarrow> bool \<Rightarrow> string \<Rightarrow> string \<Rightarrow> user list \<Rightarrow> (api_error + unit) \<times> user list" where
  "ensure_bootstrap_admin env count_ok username password rows =
     (if \<not> count_ok then (Inl (Unexpected [''checking for existing users'']), rows)
      else if rows \<noteq> [] then (Inr (), rows)
      else case create_user env \<lparr>cu_username = username, cu_email = [], cu_password = password, cu_role = role_admin,
          cu_max_workspaces = 0, cu_groups = []\<rparr> rows of
        (Inl e, rows') \<Rightarrow> (Inl e, rows')
      | (Inr _, rows') \<Rightarrow> (Inr (), rows'))"

section \<open>Editing accounts\<close>

record update_user_input =
  uu_email :: "string option"
  uu_password :: "string option"
  uu_role :: "string option"
  uu_active :: "bool option"
  uu_max_workspaces :: "int option"
  uu_groups :: "string list option"

text \<open>What the first half of an edit decides from its read, before any write.\<close>

record update_plan =
  up_user :: user
  up_revoke :: bool
  up_guard :: bool

definition read_opt :: "'a option \<Rightarrow> 'a \<Rightarrow> 'a" where
  "read_opt v old = (case v of None \<Rightarrow> old | Some x \<Rightarrow> x)"

definition edited_user :: "update_user_input \<Rightarrow> string \<Rightarrow> int \<Rightarrow> user \<Rightarrow> user" where
  "edited_user inp h now u = u\<lparr>us_email := read_opt (uu_email inp) (us_email u),
     us_password_hash := (case uu_password inp of None \<Rightarrow> us_password_hash u | Some _ \<Rightarrow> h),
     us_role := read_opt (uu_role inp) (us_role u), us_active := read_opt (uu_active inp) (us_active u),
     us_max_workspaces := read_opt (uu_max_workspaces inp) (us_max_workspaces u),
     us_groups := read_opt (uu_groups inp) (us_groups u), us_updated_at := now\<rparr>"

definition revoking_edit :: "update_user_input \<Rightarrow> user \<Rightarrow> bool" where
  "revoking_edit inp u \<longleftrightarrow> uu_password inp \<noteq> None \<or>
     (\<exists>r \<in> set_option (uu_role inp). r \<noteq> us_role u) \<or> (\<exists>b \<in> set_option (uu_active inp). us_active u \<and> \<not> b)"

definition last_admin_error :: api_error where
  "last_admin_error = BadRequest [''the platform must keep at least one active administrator'']"

definition plan_update :: "account_env \<Rightarrow> string \<Rightarrow> update_user_input \<Rightarrow> user list \<Rightarrow> api_error + update_plan" where
  "plan_update env i inp rows =
     (case find_by_id (ae_read_ok env) rows i of
        Missing \<Rightarrow> Inl (NotFound [''user not found''])
      | Failed \<Rightarrow> Inl (Unexpected [''finding user by id''])
      | Found u \<Rightarrow>
         (case (case uu_password inp of None \<Rightarrow> Some [] | Some pw \<Rightarrow> hs_hash (ae_hashing env) pw) of
            None \<Rightarrow> Inl (Unexpected [''hashing password''])
          | Some h \<Rightarrow>
             if \<not> list_all (\<lambda>r. r = role_admin \<or> r = role_user) (case uu_role inp of None \<Rightarrow> [] | Some r \<Rightarrow> [r])
             then Inl (BadRequest [''role must be admin or user''])
             else
               (let u' = edited_user inp h (ae_now env) u;
                    guard = (active_admin u \<and> \<not> active_admin u' \<and> \<not> ae_floor_off env) in
                if guard \<and> count_active_admins rows \<le> 1 then Inl last_admin_error
                else Inr \<lparr>up_user = u', up_revoke = revoking_edit inp u, up_guard = guard\<rparr>)))"

definition setter_error :: "string \<Rightarrow> repo_error \<Rightarrow> api_error" where
  "setter_error what e = (if e = LastAdmin then last_admin_error else Unexpected [what])"

text \<open>The second half: the row, then the role and the activation when the request carried them, then the bound.\<close>

definition apply_role :: "account_env \<Rightarrow> update_plan \<Rightarrow> update_user_input \<Rightarrow> user list \<Rightarrow> (api_error + unit) \<times> user list" where
  "apply_role env p inp rows =
     (case uu_role inp of
        None \<Rightarrow> (Inr (), rows)
      | Some r \<Rightarrow> (case (if up_guard p then set_role_unless_last_admin else set_role) (ae_role_ok env) (us_id (up_user p)) r rows of
          (Inl e, rows') \<Rightarrow> (Inl (setter_error ''setting role'' e), rows')
        | (Inr _, rows') \<Rightarrow> (Inr (), rows')))"

definition apply_active :: "account_env \<Rightarrow> update_plan \<Rightarrow> update_user_input \<Rightarrow> user list \<Rightarrow> (api_error + unit) \<times> user list" where
  "apply_active env p inp rows =
     (case uu_active inp of
        None \<Rightarrow> (Inr (), rows)
      | Some b \<Rightarrow> (case (if up_guard p then set_active_unless_last_admin else set_active) (ae_active_ok env) (us_id (up_user p)) b rows of
          (Inl e, rows') \<Rightarrow> (Inl (setter_error ''setting activation'' e), rows')
        | (Inr _, rows') \<Rightarrow> (Inr (), rows')))"

definition apply_revoke :: "account_env \<Rightarrow> update_plan \<Rightarrow> user list \<Rightarrow> (api_error + unit) \<times> user list" where
  "apply_revoke env p rows =
     (if \<not> up_revoke p then (Inr (), rows)
      else case set_tokens_valid_after (ae_revoke_ok env) (us_id (up_user p)) (us_updated_at (up_user p)) rows of
        (Inl e, rows') \<Rightarrow> (Inl (Unexpected [''revoking tokens'']), rows')
      | (Inr _, rows') \<Rightarrow> (Inr (), rows'))"

definition apply_row :: "account_env \<Rightarrow> update_plan \<Rightarrow> user list \<Rightarrow> (api_error + unit) \<times> user list" where
  "apply_row env p rows =
     (case users_update (ae_row_ok env) (up_user p) rows of
        (Inl e, rows') \<Rightarrow> (Inl (Unexpected [''updating user'']), rows')
      | (Inr _, rows') \<Rightarrow> (Inr (), rows'))"

definition seq_writes ::
  "('s \<Rightarrow> ('e + unit) \<times> 's) \<Rightarrow> ('s \<Rightarrow> ('e + unit) \<times> 's) \<Rightarrow> 's \<Rightarrow> ('e + unit) \<times> 's" where
  "seq_writes f g s = (case f s of (Inl e, s') \<Rightarrow> (Inl e, s') | (Inr _, s') \<Rightarrow> g s')"

definition apply_update :: "account_env \<Rightarrow> update_plan \<Rightarrow> update_user_input \<Rightarrow> user list \<Rightarrow> (api_error + unit) \<times> user list" where
  "apply_update env p inp =
     seq_writes (apply_row env p) (seq_writes (apply_role env p inp) (seq_writes (apply_active env p inp) (apply_revoke env p)))"

definition update_user ::
  "account_env \<Rightarrow> string \<Rightarrow> update_user_input \<Rightarrow> user list \<Rightarrow> (api_error + user \<times> bool) \<times> user list" where
  "update_user env i inp rows =
     (case plan_update env i inp rows of
        Inl e \<Rightarrow> (Inl e, rows)
      | Inr p \<Rightarrow> (case apply_update env p inp rows of
          (Inl e, rows') \<Rightarrow> (Inl e, rows')
        | (Inr _, rows') \<Rightarrow>
            (Inr ((if up_revoke p then (up_user p)\<lparr>us_tokens_valid_after := Some (us_updated_at (up_user p))\<rparr> else up_user p),
                  up_revoke p), rows')))"

record profile_input =
  pi_display_name :: "string option"
  pi_email :: "string option"
  pi_preferences :: "k8s_value option"
  pi_current_password :: string
  pi_new_password :: string

definition profile_user :: "profile_input \<Rightarrow> int \<Rightarrow> string \<Rightarrow> user \<Rightarrow> user" where
  "profile_user inp now h u = u\<lparr>us_display_name := read_opt (pi_display_name inp) (us_display_name u),
     us_email := read_opt (pi_email inp) (us_email u), us_preferences := read_opt (pi_preferences inp) (us_preferences u),
     us_password_hash := h, us_updated_at := now\<rparr>"

text \<open>The hash a profile edit stores: the old one, or that of a new password whose predecessor was proved.\<close>

definition profile_hash :: "account_env \<Rightarrow> profile_input \<Rightarrow> user \<Rightarrow> api_error + string" where
  "profile_hash env inp u =
     (if pi_new_password inp = [] then Inr (us_password_hash u)
      else case hs_verify (ae_hashing env) (pi_current_password inp) (us_password_hash u) of
        None \<Rightarrow> Inl (Unexpected [''verifying current password''])
      | Some False \<Rightarrow> Inl (BadRequest [''current password is incorrect''])
      | Some True \<Rightarrow> (case hs_hash (ae_hashing env) (pi_new_password inp) of
          None \<Rightarrow> Inl (Unexpected [''hashing password'']) | Some h \<Rightarrow> Inr h))"

definition update_profile :: "account_env \<Rightarrow> actor \<Rightarrow> profile_input \<Rightarrow> user list \<Rightarrow> (api_error + user) \<times> user list" where
  "update_profile env act inp rows =
     (case find_by_id (ae_read_ok env) rows (ac_id act) of
        Missing \<Rightarrow> (Inl (NotFound [''user not found'']), rows)
      | Failed \<Rightarrow> (Inl (Unexpected [''finding user by id'']), rows)
      | Found u \<Rightarrow>
         if us_oidc_subject u \<noteq> [] \<and> (pi_display_name inp \<noteq> None \<or> pi_email inp \<noteq> None)
         then (Inl (Forbidden [''identity fields are managed by your identity provider'']), rows)
         else if us_oidc_subject u \<noteq> [] \<and> (pi_new_password inp \<noteq> [] \<or> pi_current_password inp \<noteq> [])
         then (Inl (Forbidden [''password sign-in is managed by your identity provider'']), rows)
         else (case profile_hash env inp u of
            Inl e \<Rightarrow> (Inl e, rows)
          | Inr h \<Rightarrow>
             (let u' = profile_user inp (ae_now env) h u in
              case users_update (ae_row_ok env) u' rows of
                (Inl e, rows') \<Rightarrow> (Inl (Unexpected [''updating user'']), rows')
              | (Inr _, rows') \<Rightarrow>
                 if pi_new_password inp = [] then (Inr u', rows')
                 else case set_tokens_valid_after (ae_revoke_ok env) (us_id u') (ae_now env) rows' of
                   (Inl e, rows'') \<Rightarrow> (Inl (Unexpected [''revoking tokens'']), rows'')
                 | (Inr _, rows'') \<Rightarrow> (Inr (u'\<lparr>us_tokens_valid_after := Some (ae_now env)\<rparr>), rows''))))"

definition delete_user :: "account_env \<Rightarrow> (string \<Rightarrow> bool) \<Rightarrow> actor \<Rightarrow> string \<Rightarrow> user list \<Rightarrow> (api_error + unit) \<times> user list" where
  "delete_user env referenced act i rows =
     (if ac_id act = i then (Inl (BadRequest [''you cannot delete your own account'']), rows)
      else case users_delete (ae_row_ok env) referenced i rows of
        (Inl UserGone, rows') \<Rightarrow> (Inl (NotFound [''user not found'']), rows')
      | (Inl e, rows') \<Rightarrow> (Inl (Unexpected [''deleting user'', i]), rows')
      | (Inr _, rows') \<Rightarrow> (Inr (), rows'))"

section \<open>Signing in and out\<close>

record login_result =
  lr_token :: string
  lr_user :: user

definition login_failed :: "string \<Rightarrow> string \<Rightarrow> string \<Rightarrow> string \<Rightarrow> audit_entry" where
  "login_failed ip username i why = record_audit (named_actor username ip) ''user.login_failed'' ''user'' i [why]"

definition login :: "account_env \<Rightarrow> string \<Rightarrow> string \<Rightarrow> string \<Rightarrow> user list \<Rightarrow> (api_error + login_result) \<times> user list \<times> audit_entry list" where
  "login env ip username password rows =
     (case find_by_username (ae_read_ok env) rows username of
        Failed \<Rightarrow> (Inl (Unexpected [''looking up user'', username]), rows, [])
      | Missing \<Rightarrow> (Inl (Unauthorized [''invalid credentials'']), rows, [login_failed ip username [] ''unknown username''])
      | Found u \<Rightarrow>
         if us_password_hash u = []
         then (Inl (Unauthorized [''invalid credentials'']), rows, [login_failed ip username (us_id u) ''sso-only account''])
         else case hs_verify (ae_hashing env) password (us_password_hash u) of
           None \<Rightarrow> (Inl (Unexpected [''verifying password for'', username]), rows, [])
         | Some ok \<Rightarrow>
            if \<not> ok \<or> \<not> us_active u then (Inl (Unauthorized [''invalid credentials'']), rows, [login_failed ip username (us_id u) []])
            else case ae_sign env (AccessPayload (new_access_claims (ae_issuer env) (us_id u) (us_role u) (ae_now env) (ae_access_ttl env))) of
              None \<Rightarrow> (Inl (Unexpected [''issuing access token for'', username]), rows, [])
            | Some token \<Rightarrow> (case record_login (ae_row_ok env) (us_id u) (ae_now env) rows of
                (Inl e, rows') \<Rightarrow> (Inl (Unexpected [''recording last login for'', username]), rows', [])
              | (Inr _, rows') \<Rightarrow>
                  (Inr \<lparr>lr_token = token, lr_user = u\<lparr>us_last_login_at := Some (ae_now env), us_updated_at := ae_now env\<rparr>\<rparr>, rows',
                   [record_audit ((named_actor (us_username u) ip)\<lparr>ac_id := us_id u\<rparr>) ''user.logged_in'' ''user'' (us_id u) []])))"

definition logout :: "account_env \<Rightarrow> actor \<Rightarrow> user list \<Rightarrow> (api_error + unit) \<times> user list" where
  "logout env act rows =
     (case set_tokens_valid_after (ae_revoke_ok env) (ac_id act) (ae_now env) rows of
        (Inl UserGone, rows') \<Rightarrow> (Inr (), rows')
      | (Inl e, rows') \<Rightarrow> (Inl (Unexpected [''revoking tokens for'', ac_id act]), rows')
      | (Inr _, rows') \<Rightarrow> (Inr (), rows'))"

definition stream_token :: "account_env \<Rightarrow> string \<Rightarrow> user list \<Rightarrow> api_error + string" where
  "stream_token env i rows =
     (case find_by_id (ae_read_ok env) rows i of
        Missing \<Rightarrow> Inl (Unauthorized [''account no longer exists''])
      | Failed \<Rightarrow> Inl (Unexpected [''looking up user'', i])
      | Found u \<Rightarrow>
         if \<not> us_active u then Inl (Unauthorized [''account is disabled''])
         else case ae_sign env (AccessPayload (new_stream_claims (ae_issuer env) (us_id u) (us_role u) (ae_now env) (ae_stream_ttl env))) of
           None \<Rightarrow> Inl (Unexpected [''issuing stream token for'', i]) | Some token \<Rightarrow> Inr token)"

definition me :: "account_env \<Rightarrow> string \<Rightarrow> user list \<Rightarrow> api_error + user" where
  "me env i rows =
     (case find_by_id (ae_read_ok env) rows i of
        Missing \<Rightarrow> Inl (Unauthorized [''account no longer exists'']) | Failed \<Rightarrow> Inl (Unexpected [''finding user by id'']) | Found u \<Rightarrow> Inr u)"

section \<open>An administrator remains\<close>

lemma count_pos: "0 < count_active_admins rows \<longleftrightarrow> (\<exists>u \<in> set rows. active_admin u)"
  by (auto simp: count_active_admins_def filter_empty_conv)

lemma active_admin_update [simp]:
  "active_admin (update_row u r) = active_admin r" "active_admin (r\<lparr>us_last_login_at := x, us_updated_at := y\<rparr>) = active_admin r"
  "active_admin (r\<lparr>us_tokens_valid_after := z\<rparr>) = active_admin r"
  by (simp_all add: active_admin_def update_row_def)

text \<open>The primary key: at most one row per id, which no statement breaks.\<close>

definition keyed :: "user list \<Rightarrow> bool" where
  "keyed rows \<longleftrightarrow> distinct (map us_id rows)"

lemma user_at_Some: "user_at i rows = Some u \<Longrightarrow> u \<in> set rows \<and> us_id u = i"
  by (auto simp: user_at_def dest: find_SomeD)

lemma user_at_keyed:
  assumes "keyed rows"
  shows "user_at i rows = Some u \<longleftrightarrow> u \<in> set rows \<and> us_id u = i"
proof
  assume u: "u \<in> set rows \<and> us_id u = i"
  then obtain v where v: "user_at i rows = Some v" by (cases "user_at i rows") (auto simp: user_at_def find_None_iff)
  from user_at_Some [OF v] u assms have "v = u" by (auto simp: keyed_def distinct_map dest: inj_onD)
  with v show "user_at i rows = Some u" by simp
qed (rule user_at_Some)

lemma map_ids: "(\<And>r. us_id (f r) = us_id r) \<Longrightarrow> map us_id (map (\<lambda>r. if us_id r = i then f r else r) rows) = map us_id rows"
  by (induction rows) auto

lemma users_write_keyed: "(\<And>r. us_id (f r) = us_id r) \<Longrightarrow> keyed rows \<Longrightarrow> keyed (snd (users_write ok i f rows))"
  unfolding keyed_def by (simp add: users_write_def map_ids del: map_map)

lemma admin_floor_keyed: "(\<And>r. us_id (f r) = us_id r) \<Longrightarrow> keyed rows \<Longrightarrow> keyed (snd (with_admin_floor ok i f rows))"
  unfolding keyed_def by (simp add: with_admin_floor_def Let_def map_ids del: map_map split: option.split)

lemma users_insert_keyed: "keyed rows \<Longrightarrow> keyed (snd (users_insert ok u rows))"
  by (auto simp: keyed_def users_insert_def unique_violation_def list_ex_iff)

lemma users_write_keeps_admin:
  assumes "\<And>r. active_admin r \<Longrightarrow> active_admin (f r)" "0 < count_active_admins rows"
  shows "0 < count_active_admins (snd (users_write ok i f rows))"
proof -
  obtain u where u: "u \<in> set rows" "active_admin u" using assms(2) by (auto simp: count_pos)
  let ?g = "\<lambda>r. if us_id r = i then f r else r"
  have "?g u \<in> set (map ?g rows)" "active_admin (?g u)" using u assms(1) by (auto intro: imageI)
  then have "0 < count_active_admins (map ?g rows)" unfolding count_pos by blast
  with assms(2) show ?thesis by (simp add: users_write_def)
qed

lemma admin_floor_keeps_admin:
  assumes "0 < count_active_admins rows" "keyed rows"
  shows "0 < count_active_admins (snd (with_admin_floor ok i f rows))"
proof -
  let ?rows' = "map (\<lambda>r. if us_id r = i then f r else r) rows"
  have "0 < count_active_admins ?rows'" if u: "user_at i rows = Some u" "\<not> active_admin u" for u
  proof -
    obtain a where a: "a \<in> set rows" "active_admin a" using assms(1) by (auto simp: count_pos)
    have "us_id a \<noteq> i"
    proof
      assume "us_id a = i"
      with a(1) assms(2) have "user_at i rows = Some a" by (simp add: user_at_keyed)
      with u a(2) show False by simp
    qed
    with a show ?thesis by (force simp: count_pos)
  qed
  with assms(1) show ?thesis by (auto simp: with_admin_floor_def Let_def split: option.split)
qed

text \<open>The statements that keep an administrator in any interleaving: an unguarded setter may only grant.\<close>

fun floor_safe :: "statement \<Rightarrow> bool" where
  "floor_safe (SetRole i role) \<longleftrightarrow> role = role_admin"
| "floor_safe (SetActive i b) \<longleftrightarrow> b"
| "floor_safe (DeleteRow i referenced) \<longleftrightarrow> False"
| "floor_safe s \<longleftrightarrow> True"

lemma users_delete_keyed: "keyed rows \<Longrightarrow> keyed (snd (users_delete ok referenced i rows))"
  by (simp add: keyed_def users_delete_def distinct_map_filter)

lemma run_statement_keyed: "keyed rows \<Longrightarrow> keyed (run_statement s rows)"
  by (cases s) (auto simp: users_insert_keyed users_delete_keyed users_update_def record_login_def set_role_def set_active_def set_tokens_valid_after_def
      set_role_unless_last_admin_def set_active_unless_last_admin_def update_row_def intro!: users_write_keyed admin_floor_keyed)

lemma run_statement_floor:
  assumes "floor_safe s" "keyed rows" "0 < count_active_admins rows"
  shows "0 < count_active_admins (run_statement s rows)"
proof (cases s)
  case (Insert u)
  with assms(3) show ?thesis by (auto simp: users_insert_def count_pos)
next
  case (GuardedRole i role)
  with admin_floor_keeps_admin [OF assms(3,2)] show ?thesis by (simp add: set_role_unless_last_admin_def)
next
  case (GuardedActive i b)
  with admin_floor_keeps_admin [OF assms(3,2)] show ?thesis by (simp add: set_active_unless_last_admin_def)
qed (use assms in \<open>auto simp: users_update_def record_login_def set_role_def set_active_def set_tokens_valid_after_def
    active_admin_def update_row_def intro!: users_write_keeps_admin\<close>)

text \<open>The deletion of an account that is, at that moment, the only active administrator.\<close>

definition deletes_last_admin :: "statement \<Rightarrow> user list \<Rightarrow> bool" where
  "deletes_last_admin s rows \<longleftrightarrow> (\<exists>i referenced u. s = DeleteRow i referenced \<and> user_at i rows = Some u \<and> active_admin u \<and>
     (\<forall>v \<in> set rows. active_admin v \<longrightarrow> us_id v = i))"

lemma deletion_empties_floor:
  assumes "keyed rows" "0 < count_active_admins rows" "\<not> 0 < count_active_admins (run_statement (DeleteRow i referenced) rows)"
  shows "deletes_last_admin (DeleteRow i referenced) rows"
proof -
  have d: "run_statement (DeleteRow i referenced) rows = filter (\<lambda>r. us_id r \<noteq> i) rows"
    using assms(2,3) by (auto simp: users_delete_def split: if_splits)
  obtain a where a: "a \<in> set rows" "active_admin a" using assms(2) by (auto simp: count_pos)
  have only: "us_id v = i" if "v \<in> set rows" "active_admin v" for v
    using assms(3) that unfolding d count_pos by auto
  then have "user_at i rows = Some a" using a by (simp add: user_at_keyed [OF assms(1)])
  with a only show ?thesis by (auto simp: deletes_last_admin_def)
qed

text \<open>C10: The platform keeps an administrator, deletions apart. From a table with an active administrator, whatever
  statements of any number of account operations run in whatever interleaving (row updates from stale copies,
  logins, revocations, creations, grants, deletions), as long as every role or activation that takes rights away is
  written through the guarded setters, either an active administrator is left or one of the statements was the
  deletion of an account that was the only active administrator when it ran. Deletion has no floor of its own in
  the code, which only refuses to delete one's own account.
\<close>

theorem admin_floor_held:
  assumes "keyed rows" "0 < count_active_admins rows" "\<forall>s \<in> set ss. floor_safe s \<or> (\<exists>i referenced. s = DeleteRow i referenced)"
  shows "0 < count_active_admins (run_statements ss rows) \<or>
    (\<exists>a s b. ss = a @ s # b \<and> deletes_last_admin s (run_statements a rows))"
  using assms
proof (induction ss arbitrary: rows)
  case (Cons s ss)
  have keyed: "keyed (run_statement s rows)" using Cons.prems(1) by (rule run_statement_keyed)
  show ?case
  proof (cases "0 < count_active_admins (run_statement s rows)")
    case True
    have "\<forall>s \<in> set ss. floor_safe s \<or> (\<exists>i referenced. s = DeleteRow i referenced)" using Cons.prems(3) by simp
    from Cons.IH [OF keyed True this] show ?thesis
    proof (elim disjE exE conjE)
      fix a s' b
      assume "ss = a @ s' # b" "deletes_last_admin s' (run_statements a (run_statement s rows))"
      then have "s # ss = (s # a) @ s' # b \<and> deletes_last_admin s' (run_statements (s # a) rows)" by simp
      then show ?thesis by blast
    qed simp_all
  next
    case False
    then have "\<not> floor_safe s" using run_statement_floor [OF _ Cons.prems(1,2), of s] by (cases "floor_safe s") simp_all
    with Cons.prems(3) obtain i referenced where "s = DeleteRow i referenced" by auto
    with deletion_empties_floor [OF Cons.prems(1,2)] False have "deletes_last_admin s (run_statements [] rows)" by simp
    then show ?thesis by (metis append_Nil)
  qed
qed simp

text \<open>A request alone keeps one too, whichever of its statements fails; two shapes of invariant carry the proof.\<close>

definition kept :: "('s \<Rightarrow> bool) \<Rightarrow> ('s \<Rightarrow> ('e + unit) \<times> 's) \<Rightarrow> bool" where
  "kept P f \<longleftrightarrow> (\<forall>s. P s \<longrightarrow> P (snd (f s)))"

lemma kept_seq: "kept P f \<Longrightarrow> kept P g \<Longrightarrow> kept P (seq_writes f g)"
  by (fastforce simp: kept_def seq_writes_def split: prod.split sum.split)

lemma apply_steps_kept:
  assumes "\<And>r. kept P (set_role (ae_role_ok env) (us_id (up_user p)) r) \<or> uu_role inp \<noteq> Some r \<or> up_guard p"
    and "\<And>r. kept P (set_role_unless_last_admin (ae_role_ok env) (us_id (up_user p)) r) \<or> \<not> up_guard p"
    and "\<And>b. kept P (set_active (ae_active_ok env) (us_id (up_user p)) b) \<or> uu_active inp \<noteq> Some b \<or> up_guard p"
    and "\<And>b. kept P (set_active_unless_last_admin (ae_active_ok env) (us_id (up_user p)) b) \<or> \<not> up_guard p"
    and "kept P (users_update (ae_row_ok env) (up_user p))"
    and "\<And>t. kept P (set_tokens_valid_after (ae_revoke_ok env) (us_id (up_user p)) t)"
  shows "kept P (apply_update env p inp)"
proof -
  have "kept P (apply_row env p)" "kept P (apply_revoke env p)"
    using assms(5,6) unfolding kept_def apply_row_def apply_revoke_def
    by (auto split: prod.splits sum.splits) (metis snd_conv)+
  moreover have "kept P (apply_role env p inp)"
    using assms(1,2) unfolding kept_def apply_role_def
    by (auto split: prod.splits sum.splits option.splits) (metis snd_conv)+
  moreover have "kept P (apply_active env p inp)"
    using assms(3,4) unfolding kept_def apply_active_def
    by (auto split: prod.splits sum.splits option.splits) (metis snd_conv)+
  ultimately show ?thesis unfolding apply_update_def by (intro kept_seq)
qed

lemma kept_update:
  assumes "\<And>ok. kept P (users_write ok (us_id u) (update_row u))"
  shows "kept P (users_update ok u)"
  using assms unfolding kept_def users_update_def by blast

lemma kept_write:
  assumes "\<And>r. us_id (f r) = us_id r" "\<And>r. active_admin r \<Longrightarrow> active_admin (f r)"
  shows "kept (\<lambda>rows. keyed rows \<and> 0 < count_active_admins rows) (users_write ok i f)"
  unfolding kept_def using users_write_keyed [of f, OF assms(1)] users_write_keeps_admin [of f, OF assms(2)] by blast

lemma kept_floor:
  assumes "\<And>r. us_id (f r) = us_id r"
  shows "kept (\<lambda>rows. keyed rows \<and> 0 < count_active_admins rows) (with_admin_floor ok i f)"
  unfolding kept_def using admin_floor_keyed [of f, OF assms] admin_floor_keeps_admin by blast

text \<open>An administrator other than the edited account stays, whatever is written to that account.\<close>

definition other_admin :: "string \<Rightarrow> user list \<Rightarrow> bool" where
  "other_admin i rows \<longleftrightarrow> (\<exists>a \<in> set rows. us_id a \<noteq> i \<and> active_admin a)"

lemma kept_other: "kept (other_admin i) (users_write ok i f)"
proof -
  have "other_admin i (map (\<lambda>r. if us_id r = i then f r else r) rows)" if o': "other_admin i rows" for rows
  proof -
    obtain a where a: "a \<in> set rows" "us_id a \<noteq> i" "active_admin a" using o' by (auto simp: other_admin_def)
    then have "a \<in> set (map (\<lambda>r. if us_id r = i then f r else r) rows)" by force
    with a show ?thesis unfolding other_admin_def by blast
  qed
  then show ?thesis by (simp add: kept_def users_write_def)
qed

lemma plan_updateD:
  assumes "plan_update env i inp rows = Inr p"
  shows "\<exists>u h. user_at i rows = Some u \<and> us_id (up_user p) = i \<and> up_user p = edited_user inp h (ae_now env) u \<and>
    up_revoke p = revoking_edit inp u \<and> up_guard p = (active_admin u \<and> \<not> active_admin (up_user p) \<and> \<not> ae_floor_off env)"
  using assms
  by (auto simp: plan_update_def find_by_id_def find_user_def user_at_def edited_user_def Let_def
      split: if_splits option.splits dest!: find_SomeD)

text \<open>One edit of an account, by itself, never leaves the platform without an active administrator, whichever of its
  statements fails or is refused; the deployments that hand administration to the identity provider are
  the one exception.
\<close>

lemma edit_keeps_admin:
  assumes "keyed rows" "0 < count_active_admins rows" "\<not> ae_floor_off env"
  shows "0 < count_active_admins (snd (update_user env i inp rows))"
proof (cases "plan_update env i inp rows")
  case (Inl e)
  with assms(2) show ?thesis by (simp add: update_user_def)
next
  case (Inr p)
  from plan_updateD [OF this] obtain u h where u: "user_at i rows = Some u" "us_id (up_user p) = i"
    "up_user p = edited_user inp h (ae_now env) u" "up_guard p = (active_admin u \<and> \<not> active_admin (up_user p) \<and> \<not> ae_floor_off env)"
    by blast
  have rest: "snd (update_user env i inp rows) = snd (apply_update env p inp rows)"
    by (simp add: update_user_def Inr split: prod.split sum.split)
  let ?P = "\<lambda>rows. keyed rows \<and> 0 < count_active_admins rows"
  show ?thesis
  proof (cases "up_guard p \<or> active_admin u")
    case True
    then have grant: "up_guard p \<or> active_admin (up_user p)" using u(4) assms(3) by blast
    have "kept ?P (apply_update env p inp)"
    proof (rule apply_steps_kept)
      show "kept ?P (set_role (ae_role_ok env) (us_id (up_user p)) r) \<or> uu_role inp \<noteq> Some r \<or> up_guard p" for r
        using grant u(3) by (auto simp: set_role_def active_admin_def edited_user_def read_opt_def intro!: kept_write)
      show "kept ?P (set_active (ae_active_ok env) (us_id (up_user p)) b) \<or> uu_active inp \<noteq> Some b \<or> up_guard p" for b
        using grant u(3) by (auto simp: set_active_def active_admin_def edited_user_def read_opt_def intro!: kept_write)
    qed (auto simp: set_role_unless_last_admin_def set_active_unless_last_admin_def set_tokens_valid_after_def
        update_row_def active_admin_def intro!: kept_update kept_write kept_floor)
    with assms(1,2) show ?thesis unfolding rest kept_def by blast
  next
    case False
    have start: "other_admin i rows"
    proof -
      obtain a where a: "a \<in> set rows" "active_admin a" using assms(2) by (auto simp: count_pos)
      have "us_id a \<noteq> i"
      proof
        assume "us_id a = i"
        with a(1) assms(1) have "user_at i rows = Some a" by (simp add: user_at_keyed)
        with u(1) a(2) False show False by simp
      qed
      with a show ?thesis by (auto simp: other_admin_def)
    qed
    have "kept (other_admin i) (apply_update env p inp)"
      by (rule apply_steps_kept) (use False u(2) in \<open>simp_all add: set_role_def set_active_def kept_update
          set_tokens_valid_after_def kept_other\<close>)
    with start show ?thesis unfolding rest kept_def count_pos by (auto simp: other_admin_def)
  qed
qed

text \<open>The floor does not hold between requests that overlap. The choice of the guarded setters is made on the first read:
  an edit that read its target while it was no active administrator demotes it unguarded, also when by
  then it has become the only one.
\<close>

lemma stale_guard_empties_floor:
  assumes "plan_update env i inp rows0 = Inr p" "\<not> up_guard p" "uu_role inp = Some role_user" "uu_active inp = None"
    and "ae_row_ok env" "ae_role_ok env" "\<not> subject_taken (up_user p) rows1"
    and "user_at i rows1 \<noteq> None" "\<forall>a \<in> set rows1. active_admin a \<longrightarrow> us_id a = i"
  shows "count_active_admins (snd (apply_update env p inp rows1)) = 0"
proof -
  have i: "us_id (up_user p) = i" using plan_updateD [OF assms(1)] by blast
  let ?w = "\<lambda>f rows. map (\<lambda>r. if us_id r = i then f r else r) rows"
  have at_i: "user_at i (?w f rows) \<noteq> None" if "user_at i rows \<noteq> None" "\<And>r. us_id (f r) = us_id r" for f rows
    using that by (auto simp: user_at_def find_None_iff)
  define rows2 where "rows2 = ?w (update_row (up_user p)) rows1"
  define rows3 where "rows3 = ?w (\<lambda>r. r\<lparr>us_role := role_user\<rparr>) rows2"
  have p2: "user_at i rows2 \<noteq> None" unfolding rows2_def by (rule at_i [OF assms(8)]) (simp add: update_row_def)
  have row: "apply_row env p rows1 = (Inr (), rows2)"
    using assms(5,7,8) i by (simp add: apply_row_def users_update_def users_write_def rows2_def)
  have role: "apply_role env p inp rows2 = (Inr (), rows3)"
    using assms(2,3,6) p2 i by (simp add: apply_role_def set_role_def users_write_def rows3_def)
  have "active_admin a \<longrightarrow> us_id a = i" if "a \<in> set rows2" for a
    using that assms(9) by (auto simp: rows2_def update_row_def)
  then have n3: "\<not> active_admin a" if "a \<in> set rows3" for a
    using that by (auto simp: rows3_def active_admin_def role_user_def role_admin_def)
  have "\<not> active_admin a" if "a \<in> set (snd (apply_revoke env p rows3))" for a
    using that n3 by (auto simp: apply_revoke_def set_tokens_valid_after_def users_write_def split: if_splits sum.splits prod.splits)
  moreover have "snd (apply_update env p inp rows1) = snd (apply_revoke env p rows3)"
    using row role assms(4) by (simp add: apply_update_def seq_writes_def apply_active_def)
  ultimately show ?thesis by (simp add: count_active_admins_def filter_empty_conv)
qed

text \<open>Deleting an account has no floor at all: two administrators who delete each other at once both succeed.\<close>

lemma mutual_deletion:
  assumes "ac_id act = a" "ac_id act' = b" "a \<noteq> b" "user_at a rows \<noteq> None" "user_at b rows \<noteq> None"
    and "\<not> referenced a" "\<not> referenced b" "ae_row_ok env" "\<forall>r \<in> set rows. active_admin r \<longrightarrow> us_id r \<in> {a, b}"
    and "delete_user env referenced act b rows = (r1, rows1)" "delete_user env referenced act' a rows1 = (r2, rows2)"
  shows "r1 = Inr () \<and> r2 = Inr () \<and> count_active_admins rows2 = 0"
proof -
  have 1: "r1 = Inr ()" "rows1 = filter (\<lambda>r. us_id r \<noteq> b) rows"
    using assms by (auto simp: delete_user_def users_delete_def)
  have "user_at a rows1 \<noteq> None" using assms(3,4) unfolding 1 by (auto simp: user_at_def find_None_iff)
  then have "r2 = Inr ()" "rows2 = filter (\<lambda>r. us_id r \<noteq> a) rows1"
    using assms by (auto simp: delete_user_def users_delete_def)
  with 1 assms(9) show ?thesis by (auto simp: count_active_admins_def filter_empty_conv)
qed

text \<open>An account with a session on record is refused whatever its age: sessions are closed, never removed.\<close>

lemma referenced_never_deleted:
  assumes "referenced i" "user_at i rows \<noteq> None" "ac_id act \<noteq> i"
  shows "delete_user env referenced act i rows = (Inl (Unexpected [''deleting user'', i]), rows)"
  using assms by (auto simp: delete_user_def users_delete_def)

text \<open>A refusal of the last-administrator guard can come after the row is written: the new password stays, the old tokens too.\<close>

lemma refused_edit_half_applied:
  assumes "plan_update env i inp rows = Inr p" "apply_row env p rows = (Inr (), rows1)"
    and "apply_role env p inp rows1 = (Inl e, rows2)"
  shows "apply_update env p inp rows = (Inl e, rows1)"
proof -
  have "rows2 = rows1"
    using assms(3) by (auto simp: apply_role_def set_role_def set_role_unless_last_admin_def users_write_def with_admin_floor_def Let_def
        split: if_splits option.splits sum.splits prod.splits)
  with assms show ?thesis by (simp add: apply_update_def seq_writes_def)
qed

section \<open>Groups\<close>

text \<open>The groups of an account survive the database exactly when none of them contains a comma: the column joins them
  with one, so that a group of the identity provider whose name has a comma comes back as several other
  groups, each of which policies and templates may name.
\<close>

lemma groups_roundtrip:
  assumes "\<forall>g \<in> set gs. g \<noteq> [] \<and> trim_space g = g"
  shows "split_groups (join_groups gs) = gs \<longleftrightarrow> (\<forall>g \<in> set gs. CHR '','' \<notin> set g)"
proof
  assume free: "\<forall>g \<in> set gs. CHR '','' \<notin> set g"
  show "split_groups (join_groups gs) = gs"
  proof (cases "gs = []")
    case False
    then have "join_groups gs \<noteq> []" using assms by (cases gs; cases "tl gs") (auto simp: join_groups_def join_with_Cons)
    moreover have "split_on CHR '','' (join_groups gs) = gs" using split_join [OF False free] by (simp add: join_groups_def)
    moreover have "map trim_space gs = gs" using assms by (intro map_idI) blast
    moreover have "filter (\<lambda>g. g \<noteq> []) gs = gs" using assms by (simp add: filter_id_conv)
    ultimately show ?thesis by (simp add: split_groups_def)
  qed (simp add: split_groups_def join_groups_def)
next
  have free: "CHR '','' \<notin> set g" if g: "g \<in> set (split_groups s)" for g s
  proof -
    obtain w where w: "w \<in> set (split_on CHR '','' s)" "g = trim_space w" using g by (auto simp: split_groups_def split: if_splits)
    obtain a b where "w = a @ g @ b" using trim_space_sublist [of w] w(2) by blast
    with split_on_words [OF w(1)] show ?thesis by simp
  qed
  assume "split_groups (join_groups gs) = gs"
  with free [of _ "join_groups gs"] show "\<forall>g \<in> set gs. CHR '','' \<notin> set g" by simp
qed

section \<open>Personal namespaces\<close>

definition personal_disjoint :: "text_lib \<Rightarrow> user list \<Rightarrow> bool" where
  "personal_disjoint lib rows \<longleftrightarrow> (\<forall>u \<in> set rows. \<forall>v \<in> set rows.
     personal_namespace lib (us_username u) [] \<noteq> [] \<longrightarrow>
     personal_namespace lib (us_username u) [] = personal_namespace lib (us_username v) [] \<longrightarrow> us_username u = us_username v)"

text \<open>Two accounts created one after the other never share a personal namespace, however their usernames normalise: what
  creation leaves in the table, on success or failure, keeps the namespaces of all accounts apart.
\<close>

lemma personal_namespaces_apart:
  assumes "personal_disjoint (ae_text env) rows"
  shows "personal_disjoint (ae_text env) (snd (create_user env inp rows))"
proof (cases "snd (create_user env inp rows) = rows")
  case False
  let ?ns = "\<lambda>n. personal_namespace (ae_text env) n []"
  have c: "placement_username_conflict (ae_text env) (list_usernames (ae_read_ok env) rows) (cu_username inp) = Inr None"
    using False by (auto simp: create_user_def Let_def split: if_splits sum.splits option.splits)
  have "\<exists>u'. us_username u' = cu_username inp \<and> snd (create_user env inp rows) = rows @ [u']"
    using False by (auto simp: create_user_def users_insert_def Let_def c split: if_splits sum.splits option.splits prod.splits repo_error.splits)
  then obtain u' where u': "us_username u' = cu_username inp" "snd (create_user env inp rows) = rows @ [u']" by blast
  have "us_username v = cu_username inp" if "v \<in> set rows" "?ns (cu_username inp) \<noteq> []" "?ns (us_username v) = ?ns (cu_username inp)" for v
    using c that by (auto simp: placement_username_conflict_def list_usernames_def Let_def find_None_iff split: if_splits)
  with assms show ?thesis unfolding u'(2) personal_disjoint_def by (auto simp: u'(1))
qed (use assms in simp)

text \<open>Two creations that overlap are not kept apart: both read before either writes.\<close>

lemma personal_namespace_race:
  assumes "unique_violation v (rows @ [u]) = False" "personal_namespace lib (us_username u) [] = personal_namespace lib (us_username v) []"
    and "personal_namespace lib (us_username u) [] \<noteq> []" "us_username u \<noteq> us_username v" "unique_violation u rows = False"
  shows "\<not> personal_disjoint lib (run_statements [Insert u, Insert v] rows)"
  using assms by (auto simp: users_insert_def personal_disjoint_def unique_violation_def)

section \<open>Revoked rights\<close>

text \<open>The account, if it is there, has its tokens bounded by \<open>t\<close> or later.\<close>

definition bounded_from :: "string \<Rightarrow> int \<Rightarrow> user list \<Rightarrow> bool" where
  "bounded_from i t rows \<longleftrightarrow>
     (\<forall>r \<in> set rows. us_id r = i \<longrightarrow> (\<exists>b. us_tokens_valid_after r = Some b \<and> t \<le> b))"

text \<open>Nothing lowers the bound of the account: no revocation of its own that was timed earlier comes later, and no new
  account gets its id. Every revocation is written unconditionally, so the first is a real restriction.\<close>

fun keeps_bound :: "string \<Rightarrow> int \<Rightarrow> statement \<Rightarrow> bool" where
  "keeps_bound i t (Revoke j b) \<longleftrightarrow> j = i \<longrightarrow> t \<le> b"
| "keeps_bound i t (Insert u) \<longleftrightarrow> us_id u \<noteq> i"
| "keeps_bound i t s \<longleftrightarrow> True"

lemma user_at_map:
  assumes "\<And>r. us_id (f r) = us_id r"
  shows "user_at i (map (\<lambda>r. if us_id r = j then f r else r) rows) = None \<longleftrightarrow> user_at i rows = None"
  using assms by (induction rows) (auto simp: user_at_def)

lemma write_bounded:
  assumes "\<And>r. us_id (f r) = us_id r"
    and "\<And>r b. j = i \<Longrightarrow> us_tokens_valid_after r = Some b \<Longrightarrow> t \<le> b \<Longrightarrow> \<exists>b'. us_tokens_valid_after (f r) = Some b' \<and> t \<le> b'"
    and "bounded_from i t rows"
  shows "bounded_from i t (map (\<lambda>r. if us_id r = j then f r else r) rows)"
proof -
  have "\<exists>b. us_tokens_valid_after (if us_id r = j then f r else r) = Some b \<and> t \<le> b" if r: "r \<in> set rows" "us_id r = i" for r
  proof -
    obtain b where "us_tokens_valid_after r = Some b" "t \<le> b" using assms(3) r by (auto simp: bounded_from_def)
    with assms(2) r(2) show ?thesis by auto
  qed
  moreover have "us_id (if us_id r = j then f r else r) = us_id r" for r using assms(1) by simp
  ultimately show ?thesis unfolding bounded_from_def set_map by fastforce
qed

lemma users_write_bounded:
  assumes "\<And>r. us_id (f r) = us_id r"
    and "\<And>r b. j = i \<Longrightarrow> us_tokens_valid_after r = Some b \<Longrightarrow> t \<le> b \<Longrightarrow> \<exists>b'. us_tokens_valid_after (f r) = Some b' \<and> t \<le> b'"
    and "bounded_from i t rows"
  shows "bounded_from i t (snd (users_write ok j f rows))" "bounded_from i t (snd (with_admin_floor ok j f rows))"
  using write_bounded [of f j i t rows, OF assms(1) assms(2) assms(3)] assms(3)
  by (auto simp: users_write_def with_admin_floor_def Let_def split: option.splits)

lemma run_statement_bounded:
  assumes "bounded_from i t rows" "keeps_bound i t s"
  shows "bounded_from i t (run_statement s rows)"
proof (cases s)
  case (Insert u)
  with assms show ?thesis by (auto simp: users_insert_def bounded_from_def)
next
  case (DeleteRow j referenced)
  with assms show ?thesis by (auto simp: users_delete_def bounded_from_def)
qed (use assms in \<open>simp_all add: users_update_def record_login_def set_role_def set_active_def set_tokens_valid_after_def
    set_role_unless_last_admin_def set_active_unless_last_admin_def update_row_def users_write_bounded\<close>)

lemma run_statements_bounded:
  "bounded_from i t rows \<Longrightarrow> list_all (keeps_bound i t) ss \<Longrightarrow> bounded_from i t (run_statements ss rows)"
  by (induction ss arbitrary: rows) (simp_all add: run_statement_bounded)

lemma revoke_bounds:
  assumes "set_tokens_valid_after ok i t rows = (Inr (), rows')"
  shows "bounded_from i t rows'"
proof -
  have r: "user_at i rows \<noteq> None" "rows' = map (\<lambda>r. if us_id r = i then r\<lparr>us_tokens_valid_after := Some t\<rparr> else r) rows"
    using assms by (auto simp: set_tokens_valid_after_def users_write_def split: if_splits)
  have "us_tokens_valid_after a = Some t" if a: "a \<in> set rows'" "us_id a = i" for a
  proof -
    obtain b where b: "b \<in> set rows" "a = (if us_id b = i then b\<lparr>us_tokens_valid_after := Some t\<rparr> else b)"
      using a(1) unfolding r(2) set_map by blast
    with a(2) show ?thesis by (cases "us_id b = i") simp_all
  qed
  then show ?thesis unfolding bounded_from_def by blast
qed

lemma apply_revoke_done:
  assumes "apply_revoke env p rows = (Inr (), rows')" "up_revoke p"
  shows "bounded_from (us_id (up_user p)) (us_updated_at (up_user p)) rows'"
proof -
  obtain r rows1 where r: "set_tokens_valid_after (ae_revoke_ok env) (us_id (up_user p)) (us_updated_at (up_user p)) rows = (r, rows1)"
    by fastforce
  with assms have "r = Inr ()" "rows1 = rows'" by (cases r; simp add: apply_revoke_def)+
  with r show ?thesis using revoke_bounds by simp
qed

lemma seq_writes_done:
  assumes "seq_writes f g s = (Inr (), s')"
  obtains s1 where "f s = (Inr (), s1)" "g s1 = (Inr (), s')"
proof -
  obtain r s1 where r: "f s = (r, s1)" by fastforce
  with assms that show thesis by (cases r) (simp_all add: seq_writes_def)
qed

lemma apply_update_done:
  assumes "apply_update env p inp rows = (Inr (), rows')"
  obtains rows1 where "apply_revoke env p rows1 = (Inr (), rows')"
  using assms unfolding apply_update_def by (elim seq_writes_done) (rule that)

lemma update_bounds:
  assumes "update_user env i inp rows = (Inr (u, True), rows')"
  shows "bounded_from i (ae_now env) rows'"
proof -
  obtain p where p: "plan_update env i inp rows = Inr p" using assms by (cases "plan_update env i inp rows") (simp_all add: update_user_def)
  obtain r rows1 where r: "apply_update env p inp rows = (r, rows1)" by fastforce
  with p assms have ok: "r = Inr ()" "rows1 = rows'" "up_revoke p" by (cases r; simp add: update_user_def)+
  from plan_updateD [OF p] have u: "us_id (up_user p) = i" "us_updated_at (up_user p) = ae_now env" by (auto simp: edited_user_def)
  obtain rows2 where "apply_revoke env p rows2 = (Inr (), rows')" using r unfolding ok(1,2) by (rule apply_update_done)
  from apply_revoke_done [OF this ok(3)] u show ?thesis by simp
qed

lemma profile_bounds:
  assumes "update_profile env act inp rows = (Inr u, rows')" "pi_new_password inp \<noteq> []"
  shows "bounded_from (ac_id act) (ae_now env) rows'"
proof -
  obtain v h rows1 where "find_by_id (ae_read_ok env) rows (ac_id act) = Found v"
    "set_tokens_valid_after (ae_revoke_ok env) (us_id (profile_user inp (ae_now env) h v)) (ae_now env) rows1 = (Inr (), rows')"
    using assms by (auto simp: update_profile_def Let_def split: sum.splits prod.splits fetched.splits if_splits)
  moreover from this(1) have "us_id v = ac_id act"
    by (auto simp: find_by_id_def find_user_def split: if_splits option.splits dest: find_SomeD)
  ultimately show ?thesis using revoke_bounds by (simp add: profile_user_def)
qed

lemma logout_bounds:
  assumes "logout env act rows = (Inr (), rows')" "user_at (ac_id act) rows \<noteq> None"
  shows "bounded_from (ac_id act) (ae_now env) rows'"
proof -
  have "set_tokens_valid_after (ae_revoke_ok env) (ac_id act) (ae_now env) rows = (Inr (), rows')"
    using assms by (auto simp: logout_def set_tokens_valid_after_def users_write_def split: sum.splits prod.splits repo_error.splits if_splits)
  then show ?thesis by (rule revoke_bounds)
qed

lemma bounded_never_vetted:
  assumes "bounded_from i t rows" "rc_subject (al_registered c) = i" "rc_issued_at (al_registered c) = Some d" "d < t"
  shows "vet_bearer (find_by_id ok rows) c \<noteq> None"
proof
  assume "vet_bearer (find_by_id ok rows) c = None"
  then obtain u where u: "find_by_id ok rows i = Found u" "\<not> revoked u c" using assms(2) by (auto simp: vet_bearer_none)
  then have "u \<in> set rows" "us_id u = i"
    by (auto simp: find_by_id_def find_user_def split: if_splits option.splits dest: find_SomeD)
  then obtain b where "us_tokens_valid_after u = Some b" "t \<le> b" using assms(1) by (auto simp: bounded_from_def)
  with u(2) assms(3,4) show False by (simp add: revoked_def)
qed

text \<open>A revocation timed before another one but written after it takes the bound back, and tokens of the time between
  the two pass again: two requests that overlap can do that, since the bound is written whatever is there.\<close>

lemma late_revocation_reopens:
  assumes "rows = [u]" "us_id u = i" "us_active u" "us_role u = al_role c" "rc_subject (al_registered c) = i"
    "rc_issued_at (al_registered c) = Some d" "t1 \<le> d" "d < t2"
  shows "vet_bearer (find_by_id True (run_statements [Revoke i t2] rows)) c \<noteq> None \<and>
    vet_bearer (find_by_id True (run_statements [Revoke i t2, Revoke i t1] rows)) c = None"
  using assms by (simp add: set_tokens_valid_after_def users_write_def user_at_def find_by_id_def find_user_def vet_bearer_def revoked_def)


section \<open>Concrete accounts\<close>

definition ada :: user where "ada = badge_user"
definition bob :: user where "bob = badge_user\<lparr>us_id := ''b'', us_username := ''bob'', us_active := False\<rparr>"

definition desk_accounts :: account_env where
  "desk_accounts = \<lparr>ae_text = ascii_lib, ae_hashing = \<lparr>hs_hash = (\<lambda>p. Some (''#'' @ p)), hs_verify = (\<lambda>p h. Some (h = ''#'' @ p))\<rparr>,
     ae_now = 9000000000, ae_fresh_id = ''c'', ae_issuer = ''waas'', ae_access_ttl = 3600000000000, ae_stream_ttl = 60000000000,
     ae_sign = sl_sign badge_library, ae_read_ok = True, ae_row_ok = True, ae_role_ok = True, ae_active_ok = True, ae_revoke_ok = True,
     ae_floor_off = False\<rparr>"

definition demotion :: update_user_input where
  "demotion = \<lparr>uu_email = None, uu_password = None, uu_role = Some role_user, uu_active = None, uu_max_workspaces = None, uu_groups = None\<rparr>"

lemmas account_defs = ada_def bob_def badge_user_def desk_accounts_def demotion_def role_admin_def role_user_def

lemma account_ids [simp]: "us_id ada = ''a''" "us_id bob = ''b''"
  by (simp_all add: ada_def bob_def badge_user_def)

lemma account_roles: "active_admin ada" "\<not> active_admin bob" "us_role bob = role_admin"
  by (simp_all add: account_defs active_admin_def)

theorem admin_floor_held_witness:
  "let ss = [GuardedActive ''a'' False, SetActive ''b'' True, DeleteRow ''a'' False, GuardedRole ''b'' role_user] in
   0 < count_active_admins (run_statements ss [ada, bob]) \<or>
   (\<exists>a s b. ss = a @ s # b \<and> deletes_last_admin s (run_statements a [ada, bob]))"
  unfolding Let_def by (rule admin_floor_held) (auto simp: keyed_def count_active_admins_def account_roles)

text \<open>Bob is read while inactive; then he is activated and Ada, no longer the last, deactivated.\<close>

definition bob_alone :: "user list" where
  "bob_alone = run_statements [SetActive ''b'' True, GuardedActive ''a'' False] [ada, bob]"

lemma bob_alone_rows: "bob_alone = [ada\<lparr>us_active := False\<rparr>, bob\<lparr>us_active := True\<rparr>]"
  using account_roles by (simp add: bob_alone_def set_active_def users_write_def set_active_unless_last_admin_def with_admin_floor_def
      user_at_def count_active_admins_def active_admin_def)

lemma demotion_planned:
  "plan_update desk_accounts ''b'' demotion [ada, bob] =
     Inr \<lparr>up_user = edited_user demotion [] 9000000000 bob, up_revoke = True, up_guard = False\<rparr>"
  using account_roles by (simp add: plan_update_def find_by_id_def find_user_def desk_accounts_def demotion_def revoking_edit_def Let_def
      role_admin_def role_user_def)

theorem stale_guard_empties_floor_witness:
  "count_active_admins (snd (apply_update desk_accounts
     \<lparr>up_user = edited_user demotion [] 9000000000 bob, up_revoke = True, up_guard = False\<rparr> demotion bob_alone)) = 0"
  by (rule stale_guard_empties_floor [OF demotion_planned])
    (simp_all add: demotion_def desk_accounts_def bob_alone_rows user_at_def active_admin_def subject_taken_def edited_user_def
      ada_def bob_def badge_user_def)

theorem groups_roundtrip_witness:
  "split_groups (join_groups [''devs'', ''cn=a,admins'']) \<noteq> [''devs'', ''cn=a,admins'']"
  using groups_roundtrip [of "[''devs'', ''cn=a,admins'']"] by (simp add: trim_space_ascii is_space_rune_def)

definition ada_actor :: actor where
  "ada_actor = \<lparr>ac_id = ''a'', ac_username = ''ada'', ac_role = role_admin, ac_client_ip = []\<rparr>"


section \<open>Signing in\<close>

text \<open>
  A token is given for the password of an active local account only, and signing in writes nothing of the
  account but the time of its login; a refusal of a credential is one and the same answer, whether the account
  is missing, without a password, inactive or the password wrong.
\<close>

lemma login_sound:
  assumes "login env ip n pw rows = (Inr res, rows', au)"
  shows "\<exists>u \<in> set rows. us_username u = n \<and> us_active u \<and> us_password_hash u \<noteq> [] \<and>
    hs_verify (ae_hashing env) pw (us_password_hash u) = Some True \<and>
    ae_sign env (AccessPayload (new_access_claims (ae_issuer env) (us_id u) (us_role u) (ae_now env) (ae_access_ttl env))) = Some (lr_token res) \<and>
    record_login (ae_row_ok env) (us_id u) (ae_now env) rows = (Inr (), rows')"
  using assms
  by (auto simp: login_def find_by_username_def find_user_def split: if_splits option.splits sum.splits prod.splits dest!: find_SomeD)

lemma login_refusals_alike:
  assumes "login env ip n pw rows = (Inl e, rows', au)" "is_unauthorized e"
  shows "e = Unauthorized [''invalid credentials''] \<and> rows' = rows \<and> map au_action au = [''user.login_failed'']"
  using assms
  by (auto simp: login_def is_unauthorized_def login_failed_def record_audit_def split: if_splits option.splits sum.splits prod.splits fetched.splits)

end
