(* ===== verification/Lifecycle.thy ===== *)
theory Lifecycle
  imports Connect Accounts
begin

text \<open>
  The life of a workspace in the API server: creation, listing, the edits of an existing workspace and its
  deletion (\<open>service/workspace_service.go\<close>, \<open>workspace_lifecycle.go\<close>, \<open>quantities.go\<close>). Edits run under the
  conflict retry of \<open>Fleet\<close>; the admission webhook answers each write. The theory ends with what the webhook
  of \<open>Webhook\<close> makes of the objects these requests write.
\<close>

section \<open>The projection of a workspace\<close>

record protocol_view =
  pw_name :: string
  pw_port :: int
  pw_default :: bool
  pw_user_params :: "string list"
  pw_resolved :: "string list"
  pw_expose_audio :: bool

record runtime_view =
  rt_env :: "env_var list"
  rt_node_selector :: "(string \<times> string) list"
  rt_tolerations :: "k8s_value list"
  rt_resources :: "(string \<rightharpoonup> quantity) option"
  rt_labels :: "(string \<times> string) list"
  rt_annotations :: "(string \<times> string) list"
  rt_schedule :: "workspace_schedule option"

definition no_runtime :: runtime_view where
  "no_runtime = \<lparr>rt_env = [], rt_node_selector = [], rt_tolerations = [], rt_resources = None, rt_labels = [], rt_annotations = [],
     rt_schedule = None\<rparr>"

record workspace_view =
  vw_id :: string
  vw_name :: string
  vw_display_name :: string
  vw_template_ref :: string
  vw_owner_id :: string
  vw_owner_username :: string
  vw_phase :: string
  vw_os :: string
  vw_protocol :: string
  vw_paused :: bool
  vw_message :: "string list"
  vw_created_at :: int
  vw_namespace :: string
  vw_workload_name :: string
  vw_protocols :: "protocol_view list"
  vw_schedule :: "workspace_schedule option"
  vw_next_transition :: "edge option"
  vw_drifted :: bool
  vw_home_volume :: "(string \<times> quantity option) option"
  vw_runtime :: "runtime_view option"

definition view_protocol :: "string \<Rightarrow> int \<Rightarrow> bool \<Rightarrow> protocol_view" where
  "view_protocol name port dflt =
     \<lparr>pw_name = name, pw_port = port, pw_default = dflt, pw_user_params = [], pw_resolved = [], pw_expose_audio = False\<rparr>"

text \<open>The protocols the status lists, or else those the template declares, with what the template delegates on each.\<close>

definition view_protocols :: "workspace_status \<Rightarrow> template_spec option \<Rightarrow> protocol_view list" where
  "view_protocols st tpl =
     (let listed = map (\<lambda>p. view_protocol (prs_name p) (prs_port p) (prs_default p)) (st_protocols st) in
      case tpl of
        None \<Rightarrow> listed
      | Some s \<Rightarrow>
          map (\<lambda>p. case protocol_named s (pw_name p) of
                 None \<Rightarrow> p
               | Some e \<Rightarrow> p\<lparr>pw_user_params := wp_user_params e, pw_resolved := resolve_user_param_names (wp_name e) (wp_user_params e),
                     pw_expose_audio := wp_expose_audio_port e\<rparr>)
            (if listed = []
             then map (\<lambda>p. view_protocol (wp_name p) (wp_port p) (wp_name p = wp_name (default_protocol s))) (effective_protocols s)
             else listed))"

definition runtime_of :: "workspace_spec \<Rightarrow> runtime_view" where
  "runtime_of sp =
     (let r = (case sp_overrides sp of
          None \<Rightarrow> no_runtime
        | Some ov \<Rightarrow> no_runtime\<lparr>rt_env := ov_env ov, rt_node_selector := ov_node_selector ov, rt_tolerations := ov_tolerations ov,
            rt_labels := ov_labels ov, rt_annotations := ov_annotations ov, rt_schedule := ov_schedule ov\<rparr>) in
      r\<lparr>rt_resources := map_option rr_requests (sp_resources sp)\<rparr>)"

definition has_runtime :: "runtime_view \<Rightarrow> bool" where
  "has_runtime r \<longleftrightarrow> rt_env r \<noteq> [] \<or> rt_node_selector r \<noteq> [] \<or> rt_tolerations r \<noteq> [] \<or> \<not> Option.is_none (rt_resources r) \<or>
     rt_labels r \<noteq> [] \<or> rt_annotations r \<noteq> [] \<or> rt_schedule r \<noteq> None"

definition view_schedule :: "workspace_spec \<Rightarrow> template_spec option \<Rightarrow> workspace_schedule option" where
  "view_schedule sp tpl =
     (case (case sp_overrides sp of None \<Rightarrow> None | Some ov \<Rightarrow> ov_schedule ov) of
        Some s \<Rightarrow> Some s
      | None \<Rightarrow> (case tpl of None \<Rightarrow> None | Some s \<Rightarrow> ts_schedule s))"

text \<open>The message of the last condition that says the workspace is not ready.\<close>

definition view_message :: "workspace_status \<Rightarrow> string list" where
  "view_message st =
     fold (\<lambda>c m. if cd_type c = condition_ready \<and> cd_status c \<noteq> ''True'' then cd_message c else m) (st_conditions st) []"

definition workspace_to_model :: "workspace_object \<Rightarrow> template_spec option \<Rightarrow> workspace_view" where
  "workspace_to_model obj tpl =
     (let ws = wo_workspace obj; m = ws_meta ws; sp = ws_spec ws; st = wo_status obj;
          phase = (if md_deleted m then ''Terminating'' else st_phase st);
          runtime = runtime_of sp in
      \<lparr>vw_id = md_uid m, vw_name = md_name m, vw_display_name = sp_display_name sp, vw_template_ref = sp_template_ref sp,
       vw_owner_id = sp_owner sp, vw_owner_username = [], vw_phase = (if phase = [] then ''Pending'' else phase), vw_os = st_os st,
       vw_protocol = st_protocol st, vw_paused = sp_paused sp, vw_message = view_message st, vw_created_at = md_created m,
       vw_namespace = sp_target_namespace sp, vw_workload_name = sp_workload_name sp, vw_protocols = view_protocols st tpl,
       vw_schedule = view_schedule sp tpl, vw_next_transition = st_next_transition st,
       vw_drifted = (case find (\<lambda>c. cd_type c = condition_template_drifted) (st_conditions st) of
           None \<Rightarrow> False | Some c \<Rightarrow> cd_status c = ''True''),
       vw_home_volume = (if st_pvc_name st = [] then None
          else Some (st_pvc_name st, case tpl of None \<Rightarrow> None | Some s \<Rightarrow> ts_home_size s)),
       vw_runtime = (if has_runtime runtime then Some runtime else None)\<rparr>)"

definition template_spec_of :: "portal \<Rightarrow> workspace_object \<Rightarrow> template_spec option" where
  "template_spec_of env obj = (case template_of env obj of Found t \<Rightarrow> Some (tp_spec t) | _ \<Rightarrow> None)"

definition get_workspace :: "portal \<Rightarrow> actor \<Rightarrow> string \<Rightarrow> api_error + workspace_view" where
  "get_workspace env act uid =
     (case fetch_by_id (px_fleet env) act uid of
        Inl e \<Rightarrow> Inl e
      | Inr i \<Rightarrow> Inr (workspace_to_model (fi_object i) (template_spec_of env (fi_object i))))"

text \<open>The listing goes by the owner label; the template list is best effort, the usernames are for the fleet view only.\<close>

definition list_workspaces :: "portal \<Rightarrow> workspace_template list option \<Rightarrow> actor \<Rightarrow> bool \<Rightarrow> api_error + workspace_view list" where
  "list_workspaces env templates act everyone =
     (case px_fleet env of
        None \<Rightarrow> Inl (Unexpected [''listing workspaces''])
      | Some fl \<Rightarrow>
          Inr (map (\<lambda>i. let obj = fi_object i;
                      tpl = (case templates of None \<Rightarrow> None | Some ts \<Rightarrow>
                        find (\<lambda>t. md_name (tp_meta t) = sp_template_ref (item_spec i)) (rev ts));
                      v = workspace_to_model obj (map_option tp_spec tpl) in
                    if everyone then v\<lparr>vw_owner_username := (case px_users env (vw_owner_id v) of Found u \<Rightarrow> us_username u | _ \<Rightarrow> [])\<rparr>
                    else v)
               (filter (\<lambda>i. everyone \<or> md_labels (item_meta i) label_owner = Some (ac_id act)) (fl_items fl))))"

section \<open>Sizes\<close>

fun requirements_loop :: "(string \<Rightarrow> quantity option) \<Rightarrow> (string \<times> string) list \<Rightarrow> (string \<rightharpoonup> quantity) \<Rightarrow> api_error + (string \<rightharpoonup> quantity)" where
  "requirements_loop parse [] rl = Inr rl"
| "requirements_loop parse ((k, v) # m) rl =
     (if k \<noteq> ''cpu'' \<and> k \<noteq> ''memory'' then Inl (BadRequest [''resources: unknown key'', k])
      else case parse v of
        None \<Rightarrow> Inl (BadRequest [''resources: invalid quantity'', k, v])
      | Some q \<Rightarrow> requirements_loop parse m (rl(k \<mapsto> q)))"

definition requirements_from :: "(string \<Rightarrow> quantity option) \<Rightarrow> (string \<times> string) list \<Rightarrow> api_error + resource_requirements option" where
  "requirements_from parse m =
     (if m = [] then Inr None
      else case requirements_loop parse m Map.empty of
        Inl e \<Rightarrow> Inl e
      | Inr rl \<Rightarrow> Inr (Some \<lparr>rr_limits = rl, rr_requests = rl\<rparr>))"

section \<open>Edits of a workspace\<close>

text \<open>What one request meets: the retry helper, the attempts, the clock as text, the parser of quantities.\<close>

record edit_env =
  ed_retry :: "workspace_object retry_helper"
  ed_attempts :: "nat \<Rightarrow> attempt"
  ed_now_text :: string
  ed_parse_qty :: "string \<Rightarrow> quantity option"

definition with_spec :: "(workspace_spec \<Rightarrow> workspace_spec) \<Rightarrow> workspace_object \<Rightarrow> workspace_object" where
  "with_spec f obj = obj\<lparr>wo_workspace := (wo_workspace obj)\<lparr>ws_spec := f (ws_spec (wo_workspace obj))\<rparr>\<rparr>"

definition annotated :: "string \<Rightarrow> string \<Rightarrow> workspace_object \<Rightarrow> workspace_object" where
  "annotated k v obj = obj\<lparr>wo_workspace := (wo_workspace obj)\<lparr>ws_meta := (ws_meta (wo_workspace obj))
     \<lparr>md_annotations := (md_annotations (ws_meta (wo_workspace obj)))(k \<mapsto> v)\<rparr>\<rparr>\<rparr>"

definition policy_denial :: "update_error \<Rightarrow> string list option" where
  "policy_denial e = (case e of Admission d \<Rightarrow> Some d | Problem p \<Rightarrow> None)"

text \<open>A denial of the webhook is a 403 with its reason and an audit line; any other error is passed on.\<close>

definition edit_failed :: "actor \<Rightarrow> string \<Rightarrow> update_error \<Rightarrow> api_error \<times> audit_entry list" where
  "edit_failed act uid e =
     (case policy_denial e of
        Some d \<Rightarrow> (Forbidden d, [record_audit act ''workspace.denied'' ''workspace'' uid d])
      | None \<Rightarrow> (case e of Problem p \<Rightarrow> (p, []) | Admission d \<Rightarrow> (Unexpected d, [])))"

definition pause_edit :: "string \<Rightarrow> bool \<Rightarrow> workspace_object \<Rightarrow> api_error + workspace_object" where
  "pause_edit now_text paused obj =
     Inr (annotated annotation_manual_state_at now_text (with_spec (\<lambda>s. s\<lparr>sp_paused := paused\<rparr>) obj))"

definition set_paused ::
  "edit_env \<Rightarrow> portal \<Rightarrow> actor \<Rightarrow> string \<Rightarrow> bool \<Rightarrow> fleet \<Rightarrow> (api_error + workspace_view) \<times> fleet \<times> audit_entry list" where
  "set_paused e env act uid paused fl =
     (case update_with_conflict_retry (ed_retry e) (ed_attempts e) act uid (pause_edit (ed_now_text e) paused) fl of
        (Inl err, fl') \<Rightarrow> (case edit_failed act uid err of (p, au) \<Rightarrow> (Inl p, fl', au))
      | (Inr obj, fl') \<Rightarrow>
          (Inr (workspace_to_model obj (template_spec_of env obj)), fl',
           [record_audit act (if paused then ''workspace.paused'' else ''workspace.resumed'') ''workspace'' uid
              [md_name (ws_meta (wo_workspace obj))]]))"

record update_overrides_input =
  uo_env :: "env_var list option"
  uo_node_selector :: "(string \<times> string) list option"
  uo_tolerations :: "k8s_value list option"
  uo_resources :: "(string \<times> string) list option"
  uo_labels :: "(string \<times> string) list option"
  uo_annotations :: "(string \<times> string) list option"
  uo_schedule :: "workspace_schedule option"

definition empty_schedule :: workspace_schedule where
  "empty_schedule = \<lparr>sch_timezone = [], sch_uptime = [], sch_downtime = []\<rparr>"

definition reject_value_from_env :: "env_var list \<Rightarrow> api_error option" where
  "reject_value_from_env env =
     map_option (\<lambda>e. BadRequest [''overrides.env: valueFrom is not permitted'', ev_name e]) (find (\<lambda>e. ev_value_from e \<noteq> None) env)"

definition replaced_overrides :: "update_overrides_input \<Rightarrow> workspace_overrides \<Rightarrow> workspace_overrides" where
  "replaced_overrides inp ov = ov\<lparr>ov_env := read_opt (uo_env inp) (ov_env ov),
     ov_node_selector := read_opt (uo_node_selector inp) (ov_node_selector ov),
     ov_tolerations := read_opt (uo_tolerations inp) (ov_tolerations ov),
     ov_labels := read_opt (uo_labels inp) (ov_labels ov), ov_annotations := read_opt (uo_annotations inp) (ov_annotations ov),
     ov_schedule := (case uo_schedule inp of None \<Rightarrow> ov_schedule ov | Some s \<Rightarrow> if s = empty_schedule then None else Some s)\<rparr>"

text \<open>An overrides block in which nothing is set is stored as none.\<close>

definition overrides_spec :: "update_overrides_input \<Rightarrow> resource_requirements option \<Rightarrow> workspace_spec \<Rightarrow> workspace_spec" where
  "overrides_spec inp rr sp =
     (let ov = replaced_overrides inp (read_opt (sp_overrides sp) empty_overrides) in
      sp\<lparr>sp_overrides := (if ov = empty_overrides then None else Some ov),
         sp_resources := (case uo_resources inp of None \<Rightarrow> sp_resources sp | Some _ \<Rightarrow> rr)\<rparr>)"

definition overrides_edit :: "update_overrides_input \<Rightarrow> resource_requirements option \<Rightarrow> workspace_object \<Rightarrow> api_error + workspace_object" where
  "overrides_edit inp rr obj = Inr (with_spec (overrides_spec inp rr) obj)"

text \<open>The audit line of an edit: the fields and the names of variables, no value.\<close>

definition update_overrides_summary :: "update_overrides_input \<Rightarrow> string list" where
  "update_overrides_summary inp =
     (case uo_env inp of None \<Rightarrow> [] | Some es \<Rightarrow> [''env='' @ join_with '','' (map ev_name es)]) @
     (if uo_node_selector inp = None then [] else [''nodeSelector'']) @ (if uo_tolerations inp = None then [] else [''tolerations'']) @
     (if uo_resources inp = None then [] else [''resources'']) @ (if uo_labels inp = None then [] else [''labels'']) @
     (if uo_annotations inp = None then [] else [''annotations'']) @ (if uo_schedule inp = None then [] else [''schedule''])"

definition no_override_field :: "update_overrides_input \<Rightarrow> bool" where
  "no_override_field inp \<longleftrightarrow> uo_env inp = None \<and> uo_node_selector inp = None \<and> uo_tolerations inp = None \<and> uo_resources inp = None \<and>
     uo_labels inp = None \<and> uo_annotations inp = None \<and> uo_schedule inp = None"

definition update_overrides ::
  "edit_env \<Rightarrow> portal \<Rightarrow> actor \<Rightarrow> string \<Rightarrow> update_overrides_input \<Rightarrow> fleet \<Rightarrow> (api_error + workspace_view) \<times> fleet \<times> audit_entry list" where
  "update_overrides e env act uid inp fl =
     (if no_override_field inp then (Inl (BadRequest [''no override field provided'']), fl, [])
      else case reject_value_from_env (read_opt (uo_env inp) []) of
        Some p \<Rightarrow> (Inl p, fl, [])
      | None \<Rightarrow> (case requirements_from (ed_parse_qty e) (read_opt (uo_resources inp) []) of
          Inl p \<Rightarrow> (Inl p, fl, [])
        | Inr rr \<Rightarrow>
           (case update_with_conflict_retry (ed_retry e) (ed_attempts e) act uid (overrides_edit inp rr) fl of
              (Inl err, fl') \<Rightarrow> (case edit_failed act uid err of (p, au) \<Rightarrow> (Inl p, fl', au))
            | (Inr obj, fl') \<Rightarrow>
                (Inr (workspace_to_model obj (template_spec_of env obj)), fl',
                 [record_audit act ''workspace.overrides_updated'' ''workspace'' uid
                    (md_name (ws_meta (wo_workspace obj)) # update_overrides_summary inp)]))))"

definition reload_edit :: "string \<Rightarrow> workspace_object \<Rightarrow> api_error + workspace_object" where
  "reload_edit now_text obj =
     (if st_phase (wo_status obj) \<noteq> ''Running'' then Inl (Conflict [''workspace is not Running'', st_phase (wo_status obj)])
      else Inr (annotated annotation_reload_requested_at now_text obj))"

text \<open>A denial is not translated here: it surfaces as an internal error.\<close>

definition reload ::
  "edit_env \<Rightarrow> portal \<Rightarrow> actor \<Rightarrow> string \<Rightarrow> fleet \<Rightarrow> (api_error + workspace_view) \<times> fleet \<times> audit_entry list" where
  "reload e env act uid fl =
     (case update_with_conflict_retry (ed_retry e) (ed_attempts e) act uid (reload_edit (ed_now_text e)) fl of
        (Inl (Problem p), fl') \<Rightarrow> (Inl p, fl', [])
      | (Inl (Admission d), fl') \<Rightarrow> (Inl (Unexpected d), fl', [])
      | (Inr obj, fl') \<Rightarrow>
          (Inr (workspace_to_model obj (template_spec_of env obj)), fl',
           [record_audit act ''workspace.reloaded'' ''workspace'' uid [md_name (ws_meta (wo_workspace obj))]]))"

section \<open>Creation\<close>

record create_workspace_input =
  cw_name :: string
  cw_template_ref :: string
  cw_display_name :: string
  cw_owner_id :: string
  cw_resources :: "(string \<times> string) list"
  cw_overrides :: "workspace_overrides option"
  cw_target_namespace :: string
  cw_home_volume_name :: string
  cw_paused :: bool

text \<open>
  What a creation meets beside the portal: the text functions, the platform pattern, \<open>IsDNS1123Subdomain\<close> of the
  validation library, the claims of the cluster, fresh identifiers and the answer to the write.
\<close>

record create_env =
  ca_text :: text_lib
  ca_pattern :: string
  ca_valid_name :: "string \<Rightarrow> bool"
  ca_claims :: "string \<Rightarrow> string \<Rightarrow> volume_claim fetched"
  ca_parse_qty :: "string \<Rightarrow> quantity option"
  ca_uuid :: string
  ca_uid :: string
  ca_now :: int
  ca_write :: write_call

definition name_rune :: "nat \<Rightarrow> char" where
  "name_rune r = (if 97 \<le> r \<and> r \<le> 122 \<or> 48 \<le> r \<and> r \<le> 57 \<or> r = 45 then char_of r else CHR ''-'')"

definition trim_dashes :: "string \<Rightarrow> string" where
  "trim_dashes s = trim_right_dash (dropWhile (\<lambda>c. c = CHR ''-'') s)"

definition generate_workspace_name :: "text_lib \<Rightarrow> string \<Rightarrow> string \<Rightarrow> string" where
  "generate_workspace_name lib uuid username =
     (let s = trim_dashes (map name_rune (runes (to_lower (lower_rune lib) username)));
          s' = (if s = [] then ''user'' else s) in
      take 40 s' @ ''-'' @ take 8 uuid)"

definition create_pattern_values :: "workspace_template \<Rightarrow> user \<Rightarrow> string \<Rightarrow> pattern_values" where
  "create_pattern_values t u display =
     \<lparr>pv_user = us_username u, pv_user_id = us_id u, pv_workspace = display, pv_template = md_name (tp_meta t), pv_os = ts_os (tp_spec t)\<rparr>"

definition resolve_default_namespace :: "create_env \<Rightarrow> workspace_template \<Rightarrow> user \<Rightarrow> string \<Rightarrow> name_error + string" where
  "resolve_default_namespace c t u display =
     resolve_namespace (ca_text c) (effective_pattern (placement_namespace_pattern (tp_spec t)) (ca_pattern c)) (create_pattern_values t u display)"

definition namespace_preview :: "create_env \<Rightarrow> portal \<Rightarrow> actor \<Rightarrow> string \<Rightarrow> string \<Rightarrow> api_error + string" where
  "namespace_preview c env act template_ref display =
     (case px_users env (ac_id act) of
        Found u \<Rightarrow> (case px_templates env template_ref of
            Missing \<Rightarrow> Inl (NotFound [''template does not exist'', template_ref])
          | Failed \<Rightarrow> Inl (Unexpected [''fetching template'', template_ref])
          | Found t \<Rightarrow> (case resolve_default_namespace c t u display of
              Inl e \<Rightarrow> Inl (Unexpected [''template placement'']) | Inr n \<Rightarrow> Inr n))
      | _ \<Rightarrow> Inl (NotFound [''user not found'']))"

text \<open>A claim that cannot be read does not count as taking the name.\<close>

definition name_taken :: "create_env \<Rightarrow> fleet \<Rightarrow> string \<Rightarrow> string \<Rightarrow> bool" where
  "name_taken c fl ns name \<longleftrightarrow>
     list_ex (\<lambda>i. effective_target_namespace (wo_workspace (fi_object i)) = ns \<and> effective_workload_name (wo_workspace (fi_object i)) = name) (fl_items fl) \<or>
     (case ca_claims c ns (name @ ''-home'') of Found _ \<Rightarrow> True | _ \<Rightarrow> False)"

definition resolve_workload_name :: "create_env \<Rightarrow> portal \<Rightarrow> string \<Rightarrow> string \<Rightarrow> string \<Rightarrow> api_error + string" where
  "resolve_workload_name c env cr_name display target =
     (let base = (if display = [] then cr_name else display);
          candidate = sanitize_with_limit (ca_text c) base (int max_label - 6);
          ns = (if target = [] then px_namespace env else target) in
      case px_fleet env of
        None \<Rightarrow> Inl (Unexpected [''listing workspaces''])
      | Some fl \<Rightarrow>
         if \<not> name_taken c fl ns candidate then Inr candidate
         else
           (let suffixed = candidate @ suffix_of (ca_text c) cr_name in
            if name_taken c fl ns suffixed then Inl (Conflict [''workload name is already in use'', suffixed, ns]) else Inr suffixed))"

definition new_workspace ::
  "create_env \<Rightarrow> portal \<Rightarrow> actor \<Rightarrow> create_workspace_input \<Rightarrow> user \<Rightarrow> string \<Rightarrow> string \<Rightarrow> string \<Rightarrow> resource_requirements option \<Rightarrow> workspace" where
  "new_workspace c env act inp owner name target workload rr =
     \<lparr>ws_meta = \<lparr>md_name = name, md_namespace = px_namespace env, md_uid = ca_uid c, md_labels = [label_owner \<mapsto> us_id owner],
        md_annotations = [annotation_username \<mapsto> us_username owner, annotation_groups \<mapsto> join_with '','' (us_groups owner),
          annotation_role \<mapsto> ac_role act], md_deleted = False, md_created = ca_now c\<rparr>,
      ws_spec = \<lparr>sp_template_ref = cw_template_ref inp, sp_owner = us_id owner, sp_display_name = cw_display_name inp,
        sp_paused = cw_paused inp, sp_target_namespace = target, sp_workload_name = workload,
        sp_home_volume_name = cw_home_volume_name inp, sp_resources = rr, sp_overrides = cw_overrides inp\<rparr>\<rparr>"

definition new_object :: "workspace \<Rightarrow> workspace_object" where
  "new_object ws = \<lparr>wo_workspace = ws, wo_generation = 1, wo_finalizers = [],
     wo_status = \<lparr>st_phase = [], st_observed_generation = 0, st_os = [], st_address = [], st_port = 0, st_protocol = [], st_protocols = [],
       st_pvc_name = [], st_next_transition = None, st_conditions = []\<rparr>\<rparr>"

datatype create_answer = Created | NameTaken | CreateDenied "string list" | NotCreated

text \<open>Admission answers before the name is looked up.\<close>

definition fleet_create :: "write_call \<Rightarrow> workspace_object \<Rightarrow> fleet \<Rightarrow> create_answer \<times> fleet" where
  "fleet_create c obj fl =
     (if \<not> wc_reaches c then (NotCreated, fl)
      else case wc_admission c None (wo_workspace obj) of
        Some d \<Rightarrow> (CreateDenied d, fl)
      | None \<Rightarrow>
          if item_named fl (md_name (ws_meta (wo_workspace obj))) \<noteq> None then (NameTaken, fl)
          else (Created, \<lparr>fl_revision = Suc (fl_revision fl), fl_items = fl_items fl @ [\<lparr>fi_version = Suc (fl_revision fl), fi_object = obj\<rparr>]\<rparr>))"

definition overrides_summary :: "workspace_overrides option \<Rightarrow> string list" where
  "overrides_summary overrides =
     (case overrides of
        None \<Rightarrow> []
      | Some ov \<Rightarrow>
          (if ov_env ov = [] then [] else [''env='' @ join_with '','' (map ev_name (ov_env ov))]) @
          (if ov_security_context ov = None then [] else [''securityContext'']) @
          (if ov_pod_security_context ov = None then [] else [''podSecurityContext'']) @
          (if ov_volumes ov = [] \<and> ov_volume_mounts ov = [] then [] else [''volumes'']) @
          (if ov_node_selector ov = [] then [] else [''nodeSelector'']) @ (if ov_tolerations ov = [] then [] else [''tolerations'']) @
          (if ov_protocol ov = [] then [] else [''protocol='' @ ov_protocol ov]))"

text \<open>What a creation decides before it writes: the template and the object.\<close>

definition plan_creation :: "create_env \<Rightarrow> portal \<Rightarrow> actor \<Rightarrow> create_workspace_input \<Rightarrow> api_error + workspace_template \<times> workspace" where
  "plan_creation c env act inp =
     (let owner_id = (if cw_owner_id inp \<noteq> [] \<and> ac_role act = role_admin then cw_owner_id inp else ac_id act) in
      case px_users env owner_id of
        Missing \<Rightarrow> Inl (NotFound [''owner user not found''])
      | Failed \<Rightarrow> Inl (Unexpected [''looking up owner'', owner_id])
      | Found owner \<Rightarrow>
         if cw_template_ref inp = [] then Inl (BadRequest [''templateRef is required''])
         else case (case cw_overrides inp of None \<Rightarrow> None | Some ov \<Rightarrow> reject_value_from_env (ov_env ov)) of
           Some e \<Rightarrow> Inl e
         | None \<Rightarrow> (case px_templates env (cw_template_ref inp) of
             Missing \<Rightarrow> Inl (BadRequest [''template does not exist'', cw_template_ref inp])
           | Failed \<Rightarrow> Inl (Unexpected [''fetching template'', cw_template_ref inp])
           | Found t \<Rightarrow>
              (let name = (if cw_name inp = [] then generate_workspace_name (ca_text c) (ca_uuid c) (us_username owner) else cw_name inp) in
               if \<not> ca_valid_name c name then Inl (BadRequest [''name must be a valid DNS-1123 subdomain''])
               else case (if cw_target_namespace inp \<noteq> [] then Inr (cw_target_namespace inp)
                          else resolve_default_namespace c t owner (cw_display_name inp)) of
                 Inl e \<Rightarrow> Inl (BadRequest [''template placement''])
               | Inr target \<Rightarrow> (case resolve_workload_name c env name (cw_display_name inp) target of
                   Inl e \<Rightarrow> Inl e
                 | Inr workload \<Rightarrow> (case requirements_from (ca_parse_qty c) (cw_resources inp) of
                     Inl e \<Rightarrow> Inl e
                   | Inr rr \<Rightarrow> Inr (t, new_workspace c env act inp owner name target workload rr))))))"

definition create_workspace ::
  "create_env \<Rightarrow> portal \<Rightarrow> actor \<Rightarrow> create_workspace_input \<Rightarrow> fleet \<Rightarrow> (api_error + workspace_view) \<times> fleet \<times> audit_entry list" where
  "create_workspace c env act inp fl =
     (case plan_creation c env act inp of
        Inl e \<Rightarrow> (Inl e, fl, [])
      | Inr (t, ws) \<Rightarrow>
         (let name = md_name (ws_meta ws) in
          case fleet_create (ca_write c) (new_object ws) fl of
            (NameTaken, fl') \<Rightarrow> (Inl (Conflict [''workspace already exists'', name]), fl', [])
          | (CreateDenied d, fl') \<Rightarrow> (Inl (Forbidden d), fl', [record_audit act ''workspace.denied'' ''workspace'' name d])
          | (NotCreated, fl') \<Rightarrow> (Inl (Unexpected [''creating workspace'', name]), fl', [])
          | (Created, fl') \<Rightarrow>
              (Inr (workspace_to_model (new_object ws) (Some (tp_spec t))), fl',
               record_audit act ''workspace.created'' ''workspace'' (md_uid (ws_meta ws)) [name] #
               (if overrides_summary (cw_overrides inp) = [] then []
                else [record_audit act ''workspace.overrides_applied'' ''workspace'' (md_uid (ws_meta ws)) (name # overrides_summary (cw_overrides inp))]))))"

section \<open>Deletion\<close>

text \<open>The two writes of a deletion, what others do in between, and whether the sessions can be closed.\<close>

record delete_calls =
  dk_others :: "fleet \<Rightarrow> fleet"
  dk_stamp :: write_call
  dk_between :: "fleet \<Rightarrow> fleet"
  dk_reaches :: bool
  dk_sessions :: bool
  dk_now :: int

text \<open>Deletion goes by name; an object with finalizers is marked and stays.\<close>

definition fleet_delete :: "bool \<Rightarrow> string \<Rightarrow> fleet \<Rightarrow> bool \<times> fleet" where
  "fleet_delete ok name fl =
     (if \<not> ok then (False, fl)
      else case item_named fl name of
        None \<Rightarrow> (False, fl)
      | Some i \<Rightarrow>
          if wo_finalizers (fi_object i) = []
          then (True, \<lparr>fl_revision = Suc (fl_revision fl), fl_items = filter (\<lambda>j. md_name (item_meta j) \<noteq> name) (fl_items fl)\<rparr>)
          else (True, put_item i ((fi_object i)\<lparr>wo_workspace := (wo_workspace (fi_object i))
             \<lparr>ws_meta := (item_meta i)\<lparr>md_deleted := True\<rparr>\<rparr>\<rparr>) fl))"

definition delete_workspace ::
  "delete_calls \<Rightarrow> portal \<Rightarrow> actor \<Rightarrow> string \<Rightarrow> bool \<Rightarrow> bool \<Rightarrow> fleet \<times> session list
     \<Rightarrow> (api_error + unit) \<times> (fleet \<times> session list) \<times> audit_entry list" where
  "delete_workspace k env act uid keep_volume as_admin = (\<lambda>(fl, rows).
     (case (if as_admin then find_by_uid (px_fleet env) uid else fetch_by_id (px_fleet env) act uid) of
        Inl e \<Rightarrow> (Inl e, (fl, rows), [])
      | Inr i \<Rightarrow>
         (let name = md_name (item_meta i) in
          case (if keep_volume then (Written, dk_others k fl)
                else fleet_update (dk_stamp k) i (annotated annotation_delete_home ''true'' (fi_object i)) (dk_others k fl)) of
            (Written, fl1) \<Rightarrow> (case fleet_delete (dk_reaches k) name (dk_between k fl1) of
                (False, fl2) \<Rightarrow> (Inl (Unexpected [''deleting workspace'', name]), (fl2, rows), [])
              | (True, fl2) \<Rightarrow>
                 (case (if dk_sessions k then end_all_for_workspace uid (dk_now k) rows else (0, rows)) of
                    (n, rows') \<Rightarrow>
                      (Inr (), (fl2, rows'),
                       (if n = 0 then [] else [record_audit act ''session.ended_with_workspace'' ''workspace'' uid [name]]) @
                       [record_audit act ''workspace.deleted'' ''workspace'' uid
                          ([name, if keep_volume then ''keepVolume=true'' else ''keepVolume=false''] @
                           (if as_admin then [sp_owner (item_spec i)] else []))])))
          | (_, fl1) \<Rightarrow> (Inl (Unexpected [''stamping volume choice on'', name]), (fl1, rows), []))))"

definition end_session :: "bool \<Rightarrow> string \<Rightarrow> int \<Rightarrow> session list \<Rightarrow> (api_error + unit) \<times> session list" where
  "end_session ok sid now rows = (if ok then (Inr (), session_end sid now rows) else (Inl (Unexpected [''ending session'', sid]), rows))"

section \<open>An edit is exactly its edit\<close>

text \<open>What the requests on an existing workspace may change: the pause, the overrides, the size and two annotations.\<close>

definition settings_edit :: "workspace_object \<Rightarrow> workspace_object \<Rightarrow> bool" where
  "settings_edit old new \<longleftrightarrow>
     wo_status new = wo_status old \<and> wo_finalizers new = wo_finalizers old \<and> wo_generation new = wo_generation old \<and>
     (\<exists>ann. ws_meta (wo_workspace new) = (ws_meta (wo_workspace old))\<lparr>md_annotations := ann\<rparr> \<and>
        (\<forall>k. k \<noteq> annotation_manual_state_at \<and> k \<noteq> annotation_reload_requested_at \<longrightarrow>
           ann k = md_annotations (ws_meta (wo_workspace old)) k)) \<and>
     (\<exists>p ov rr. ws_spec (wo_workspace new) =
        (ws_spec (wo_workspace old))\<lparr>sp_paused := p, sp_overrides := ov, sp_resources := rr\<rparr>)"

lemma settings_editI:
  assumes "wo_status new = wo_status old" "wo_finalizers new = wo_finalizers old" "wo_generation new = wo_generation old"
    and "ws_meta (wo_workspace new) = (ws_meta (wo_workspace old))\<lparr>md_annotations := ann\<rparr>"
    and "\<And>k. k \<noteq> annotation_manual_state_at \<Longrightarrow> k \<noteq> annotation_reload_requested_at \<Longrightarrow> ann k = md_annotations (ws_meta (wo_workspace old)) k"
    and "ws_spec (wo_workspace new) = (ws_spec (wo_workspace old))\<lparr>sp_paused := p, sp_overrides := ov, sp_resources := rr\<rparr>"
  shows "settings_edit old new"
  unfolding settings_edit_def using assms by blast

lemma settings_edit_with_spec:
  assumes "f (ws_spec (wo_workspace old)) = (ws_spec (wo_workspace old))\<lparr>sp_paused := p, sp_overrides := ov, sp_resources := rr\<rparr>"
  shows "settings_edit old (with_spec f old)"
  by (rule settings_editI [where ann = "md_annotations (ws_meta (wo_workspace old))"]) (simp_all add: with_spec_def assms)

lemma settings_edit_annotated:
  assumes "k = annotation_manual_state_at \<or> k = annotation_reload_requested_at" "settings_edit old new"
  shows "settings_edit old (annotated k v new)"
proof -
  obtain ann p ov rr where a: "ws_meta (wo_workspace new) = (ws_meta (wo_workspace old))\<lparr>md_annotations := ann\<rparr>"
    "\<forall>k. k \<noteq> annotation_manual_state_at \<and> k \<noteq> annotation_reload_requested_at \<longrightarrow> ann k = md_annotations (ws_meta (wo_workspace old)) k"
    "ws_spec (wo_workspace new) = (ws_spec (wo_workspace old))\<lparr>sp_paused := p, sp_overrides := ov, sp_resources := rr\<rparr>"
    using assms(2) unfolding settings_edit_def by blast
  have "ws_meta (wo_workspace (annotated k v new)) = (ws_meta (wo_workspace old))\<lparr>md_annotations := ann(k \<mapsto> v)\<rparr>"
    by (simp add: annotated_def a(1))
  moreover have "\<forall>j. j \<noteq> annotation_manual_state_at \<and> j \<noteq> annotation_reload_requested_at \<longrightarrow>
      (ann(k \<mapsto> v)) j = md_annotations (ws_meta (wo_workspace old)) j"
    using a(2) assms(1) by auto
  moreover have "wo_status (annotated k v new) = wo_status old" "wo_finalizers (annotated k v new) = wo_finalizers old"
    "wo_generation (annotated k v new) = wo_generation old" "ws_spec (wo_workspace (annotated k v new)) = ws_spec (wo_workspace new)"
    using assms(2) by (simp_all add: annotated_def settings_edit_def)
  ultimately show ?thesis unfolding settings_edit_def using a(3) by auto
qed

lemma settings_edit_refl: "settings_edit old old"
  by (rule settings_editI [where ann = "md_annotations (ws_meta (wo_workspace old))" and p = "sp_paused (ws_spec (wo_workspace old))"
      and ov = "sp_overrides (ws_spec (wo_workspace old))" and rr = "sp_resources (ws_spec (wo_workspace old))"]) simp_all

lemma pause_edit_settings:
  assumes "pause_edit t p old = Inr new"
  shows "settings_edit old new"
proof -
  have "settings_edit old (with_spec (\<lambda>s. s\<lparr>sp_paused := p\<rparr>) old)"
    by (rule settings_edit_with_spec [where p = p and ov = "sp_overrides (ws_spec (wo_workspace old))"
        and rr = "sp_resources (ws_spec (wo_workspace old))"]) simp
  from settings_edit_annotated [OF disjI1 [OF refl] this] assms show ?thesis by (auto simp: pause_edit_def)
qed

lemma overrides_edit_settings:
  assumes "overrides_edit inp rr old = Inr new"
  shows "settings_edit old new"
proof -
  let ?s = "ws_spec (wo_workspace old)"
  have "\<exists>ov r. overrides_spec inp rr ?s = ?s\<lparr>sp_paused := sp_paused ?s, sp_overrides := ov, sp_resources := r\<rparr>"
    unfolding overrides_spec_def Let_def by (intro exI) simp
  then obtain ov r where "overrides_spec inp rr ?s = ?s\<lparr>sp_paused := sp_paused ?s, sp_overrides := ov, sp_resources := r\<rparr>" by blast
  from settings_edit_with_spec [of "overrides_spec inp rr" old, OF this] assms show ?thesis by (simp add: overrides_edit_def)
qed

lemma reload_edit_settings: "reload_edit t old = Inr new \<Longrightarrow> settings_edit old new"
  using settings_edit_annotated [OF disjI2 [OF refl] settings_edit_refl] by (auto simp: reload_edit_def split: if_splits)

lemma annotation_kept:
  assumes "settings_edit old new" "k \<noteq> annotation_manual_state_at" "k \<noteq> annotation_reload_requested_at"
  shows "ws_annotation (wo_workspace new) k = ws_annotation (wo_workspace old) k"
  using assms by (auto simp: settings_edit_def ws_annotation_def str_at_def)

lemma settings_edit_frozen:
  assumes "settings_edit old new"
  shows "check_frozen (wo_workspace old) (wo_workspace new) = None"
proof -
  obtain p ov rr where s: "ws_spec (wo_workspace new) = (ws_spec (wo_workspace old))\<lparr>sp_paused := p, sp_overrides := ov, sp_resources := rr\<rparr>"
    using assms unfolding settings_edit_def by blast
  have "ws_annotation (wo_workspace new) k = ws_annotation (wo_workspace old) k"
    if "k \<in> {annotation_username, annotation_groups, annotation_role}" for k
    by (rule annotation_kept [OF assms]) (use that in \<open>auto simp: annotation_names annotation_manual_state_at_def annotation_reload_requested_at_def\<close>)
  then show ?thesis by (simp add: check_frozen_def Let_def s first_denial_None deny_if_def)
qed

lemma pause_mutates: "set_paused e env act uid p fl = (Inr v, fl', au) \<Longrightarrow>
    \<exists>new. update_with_conflict_retry (ed_retry e) (ed_attempts e) act uid (pause_edit (ed_now_text e) p) fl = (Inr new, fl') \<and>
      v = workspace_to_model new (template_spec_of env new)"
  by (auto simp: set_paused_def split: prod.splits sum.splits)

lemma overrides_mutates: "update_overrides e env act uid inp fl = (Inr v, fl', au) \<Longrightarrow>
    \<exists>rr new. update_with_conflict_retry (ed_retry e) (ed_attempts e) act uid (overrides_edit inp rr) fl = (Inr new, fl') \<and>
      requirements_from (ed_parse_qty e) (read_opt (uo_resources inp) []) = Inr rr \<and> v = workspace_to_model new (template_spec_of env new)"
  by (auto simp: update_overrides_def split: if_splits option.splits prod.splits sum.splits)

lemma reload_mutates: "reload e env act uid fl = (Inr v, fl', au) \<Longrightarrow>
    \<exists>new. update_with_conflict_retry (ed_retry e) (ed_attempts e) act uid (reload_edit (ed_now_text e)) fl = (Inr new, fl') \<and>
      v = workspace_to_model new (template_spec_of env new)"
  by (auto simp: reload_def split: prod.splits sum.splits update_error.splits)

text \<open>The requests of an owner on an existing workspace, and what each of them asks for, field by field.\<close>

datatype owner_request = Pausing bool | Overriding update_overrides_input | Reloading

definition perform ::
  "owner_request \<Rightarrow> edit_env \<Rightarrow> portal \<Rightarrow> actor \<Rightarrow> string \<Rightarrow> fleet \<Rightarrow> (api_error + workspace_view) \<times> fleet \<times> audit_entry list" where
  "perform req e env act uid fl =
     (case req of
        Pausing p \<Rightarrow> set_paused e env act uid p fl
      | Overriding inp \<Rightarrow> update_overrides e env act uid inp fl
      | Reloading \<Rightarrow> reload e env act uid fl)"

text \<open>An override in force: a workspace without the block overrides nothing.\<close>

definition in_force :: "(workspace_overrides \<Rightarrow> 'a) \<Rightarrow> workspace_spec \<Rightarrow> 'a" where
  "in_force f sp = (case sp_overrides sp of None \<Rightarrow> f empty_overrides | Some ov \<Rightarrow> f ov)"

definition given_or_kept :: "'a option \<Rightarrow> (workspace_overrides \<Rightarrow> 'a) \<Rightarrow> workspace_spec \<Rightarrow> workspace_spec \<Rightarrow> bool" where
  "given_or_kept given f old new \<longleftrightarrow> in_force f new = (case given of None \<Rightarrow> in_force f old | Some x \<Rightarrow> x)"

text \<open>A size as the request gives it: requests and limits alike, each entry parsed; an empty one is the template's.\<close>

definition asked_size :: "(string \<Rightarrow> quantity option) \<Rightarrow> (string \<times> string) list \<Rightarrow> resource_requirements option \<Rightarrow> bool" where
  "asked_size parse m rr \<longleftrightarrow>
     (if m = [] then rr = None
      else \<exists>f. rr = Some \<lparr>rr_limits = f, rr_requests = f\<rparr> \<and> (\<forall>k. f k = Option.bind (map_of (rev m) k) parse))"

definition overrides_as_asked :: "(string \<Rightarrow> quantity option) \<Rightarrow> update_overrides_input \<Rightarrow> workspace_spec \<Rightarrow> workspace_spec \<Rightarrow> bool" where
  "overrides_as_asked parse inp old new \<longleftrightarrow>
     given_or_kept (uo_env inp) ov_env old new \<and> given_or_kept (uo_node_selector inp) ov_node_selector old new \<and>
     given_or_kept (uo_tolerations inp) ov_tolerations old new \<and> given_or_kept (uo_labels inp) ov_labels old new \<and>
     given_or_kept (uo_annotations inp) ov_annotations old new \<and>
     given_or_kept (map_option (\<lambda>s. if s = empty_schedule then None else Some s) (uo_schedule inp)) ov_schedule old new \<and>
     given_or_kept None ov_security_context old new \<and> given_or_kept None ov_pod_security_context old new \<and>
     given_or_kept None ov_volumes old new \<and> given_or_kept None ov_volume_mounts old new \<and> given_or_kept None ov_protocol old new \<and>
     sp_overrides new \<noteq> Some empty_overrides \<and>
     (case uo_resources inp of None \<Rightarrow> sp_resources new = sp_resources old | Some m \<Rightarrow> asked_size parse m (sp_resources new)) \<and>
     new = old\<lparr>sp_overrides := sp_overrides new, sp_resources := sp_resources new\<rparr>"

definition as_requested :: "owner_request \<Rightarrow> edit_env \<Rightarrow> workspace_object \<Rightarrow> workspace_object \<Rightarrow> bool" where
  "as_requested req e old new \<longleftrightarrow>
     wo_status new = wo_status old \<and> wo_finalizers new = wo_finalizers old \<and> wo_generation new = wo_generation old \<and>
     (let m = ws_meta (wo_workspace old); m' = ws_meta (wo_workspace new); sp = ws_spec (wo_workspace old); sp' = ws_spec (wo_workspace new) in
      case req of
        Pausing p \<Rightarrow> sp' = sp\<lparr>sp_paused := p\<rparr> \<and>
          m' = m\<lparr>md_annotations := (md_annotations m)(annotation_manual_state_at \<mapsto> ed_now_text e)\<rparr>
      | Overriding inp \<Rightarrow> overrides_as_asked (ed_parse_qty e) inp sp sp' \<and> m' = m
      | Reloading \<Rightarrow> st_phase (wo_status old) = ''Running'' \<and> sp' = sp \<and>
          m' = m\<lparr>md_annotations := (md_annotations m)(annotation_reload_requested_at \<mapsto> ed_now_text e)\<rparr>)"

lemma requirements_loop_parsed:
  "requirements_loop parse m rl = Inr rl' \<Longrightarrow>
    rl' k = (case map_of (rev m) k of None \<Rightarrow> rl k | Some v \<Rightarrow> parse v)"
proof (induction parse m rl rule: requirements_loop.induct)
  case (2 parse j v m rl)
  from 2(2) obtain q where q: "parse v = Some q" "requirements_loop parse m (rl(j \<mapsto> q)) = Inr rl'" "j = ''cpu'' \<or> j = ''memory''"
    by (auto split: if_splits option.splits)
  from 2(1) [OF _ q(1,2)] q(3) have "rl' k = (case map_of (rev m) k of None \<Rightarrow> (rl(j \<mapsto> q)) k | Some v \<Rightarrow> parse v)" by blast
  with q(1) show ?case by (auto simp: map_add_def split: option.splits)
qed simp

lemma requirements_asked:
  assumes "requirements_from parse m = Inr rr"
  shows "asked_size parse m rr"
proof (cases "m = []")
  case False
  with assms obtain rl where "requirements_loop parse m Map.empty = Inr rl" "rr = Some \<lparr>rr_limits = rl, rr_requests = rl\<rparr>"
    by (auto simp: requirements_from_def split: sum.splits)
  with False requirements_loop_parsed [of parse m Map.empty rl] show ?thesis
    by (auto simp: asked_size_def Option.bind_def split: option.splits)
qed (use assms in \<open>simp add: asked_size_def requirements_from_def\<close>)

lemma overrides_spec_as_asked:
  assumes "requirements_from parse (read_opt (uo_resources inp) []) = Inr rr"
  shows "overrides_as_asked parse inp sp (overrides_spec inp rr sp)"
proof -
  let ?ov = "replaced_overrides inp (read_opt (sp_overrides sp) empty_overrides)" and ?new = "overrides_spec inp rr sp"
  have f: "in_force f ?new = f ?ov" for f :: "workspace_overrides \<Rightarrow> 'b"
    by (simp add: in_force_def overrides_spec_def Let_def)
  have old: "in_force f sp = f (read_opt (sp_overrides sp) empty_overrides)" for f :: "workspace_overrides \<Rightarrow> 'b"
    by (simp add: in_force_def read_opt_def split: option.split)
  have "sp_overrides ?new \<noteq> Some empty_overrides" by (simp add: overrides_spec_def Let_def)
  moreover have "case uo_resources inp of None \<Rightarrow> sp_resources ?new = sp_resources sp | Some m \<Rightarrow> asked_size parse m (sp_resources ?new)"
    using requirements_asked [OF assms] by (simp add: overrides_spec_def Let_def read_opt_def split: option.splits)
  moreover have "?new = sp\<lparr>sp_overrides := sp_overrides ?new, sp_resources := sp_resources ?new\<rparr>"
    by (simp add: overrides_spec_def Let_def)
  ultimately show ?thesis
    unfolding overrides_as_asked_def given_or_kept_def f old by (simp add: replaced_overrides_def read_opt_def split: option.split)
qed

text \<open>C33: No edit of a workspace loses another writer's change or touches more than it says. A pause or resumption, an edit of the
  overrides or a reload that succeeds was computed from the very object it replaced, whatever the operator and
  other requests wrote meanwhile and however often it had to retry, and that object belonged to the caller. A
  pause sets the pause and the time of the manual action and nothing else; an edit replaces exactly the
  overrides and the size it gives, keeps every other one, and stores no empty block; a reload, of a running
  workspace, stamps its annotation only. Status, finalizers, labels and the frozen fields stay, and the answer
  is the view of what was stored.
\<close>

theorem edits_lose_nothing:
  assumes "documented_retry n (ed_retry e)" "well_behaved (ed_attempts e)" "fleet_ok fl"
    and "perform req e env act uid fl = (Inr v, fl', au)"
  shows "\<exists>m i new. later fl m \<and> item_named m (md_name (item_meta i)) = Some i \<and> md_uid (item_meta i) = uid \<and>
    sp_owner (item_spec i) = ac_id act \<and> fl' = put_item i new m \<and> as_requested req e (fi_object i) new \<and>
    check_frozen (wo_workspace (fi_object i)) (wo_workspace new) = None \<and> v = workspace_to_model new (template_spec_of env new)"
proof -
  have "\<exists>mutate new. update_with_conflict_retry (ed_retry e) (ed_attempts e) act uid mutate fl = (Inr new, fl') \<and>
    v = workspace_to_model new (template_spec_of env new) \<and>
    (\<forall>old. mutate old = Inr new \<longrightarrow> as_requested req e old new \<and> settings_edit old new)"
  proof (cases req)
    case (Pausing p)
    with assms(4) have "set_paused e env act uid p fl = (Inr v, fl', au)" by (simp add: perform_def)
    from pause_mutates [OF this] obtain new where
      "update_with_conflict_retry (ed_retry e) (ed_attempts e) act uid (pause_edit (ed_now_text e) p) fl = (Inr new, fl')"
      "v = workspace_to_model new (template_spec_of env new)" by blast
    moreover have "as_requested req e old new" if "pause_edit (ed_now_text e) p old = Inr new" for old new
      using that Pausing by (auto simp: as_requested_def pause_edit_def annotated_def with_spec_def Let_def)
    ultimately show ?thesis using pause_edit_settings by (intro exI conjI allI impI) assumption+
  next
    case (Overriding inp)
    with assms(4) have "update_overrides e env act uid inp fl = (Inr v, fl', au)" by (simp add: perform_def)
    from overrides_mutates [OF this] obtain rr new where
      "update_with_conflict_retry (ed_retry e) (ed_attempts e) act uid (overrides_edit inp rr) fl = (Inr new, fl')"
      "v = workspace_to_model new (template_spec_of env new)"
      and rr: "requirements_from (ed_parse_qty e) (read_opt (uo_resources inp) []) = Inr rr" by blast
    moreover have "as_requested req e old new" if "overrides_edit inp rr old = Inr new" for old new
      using that overrides_spec_as_asked [OF rr] Overriding by (auto simp: as_requested_def overrides_edit_def with_spec_def Let_def)
    ultimately show ?thesis using overrides_edit_settings by (intro exI conjI allI impI) assumption+
  next
    case Reloading
    with assms(4) have "reload e env act uid fl = (Inr v, fl', au)" by (simp add: perform_def)
    from reload_mutates [OF this] obtain new where
      "update_with_conflict_retry (ed_retry e) (ed_attempts e) act uid (reload_edit (ed_now_text e)) fl = (Inr new, fl')"
      "v = workspace_to_model new (template_spec_of env new)" by blast
    moreover have "as_requested req e old new" if "reload_edit (ed_now_text e) old = Inr new" for old new
      using that Reloading by (auto simp: as_requested_def reload_edit_def annotated_def Let_def split: if_splits)
    ultimately show ?thesis using reload_edit_settings by (intro exI conjI allI impI) assumption+
  qed
  then obtain mutate new where m: "update_with_conflict_retry (ed_retry e) (ed_attempts e) act uid mutate fl = (Inr new, fl')"
    "v = workspace_to_model new (template_spec_of env new)"
    "\<And>old. mutate old = Inr new \<Longrightarrow> as_requested req e old new \<and> settings_edit old new" by blast
  from update_written [OF assms(1-3) m(1)] m(2,3) settings_edit_frozen show ?thesis unfolding owner_write_def by blast
qed

section \<open>A raced edit gets through\<close>

text \<open>
  An attempt nothing but other writers stands in the way of: the API server answers, the admission accepts, and the
  others, however they write the workspace, neither delete nor reassign it.
\<close>

definition stays :: "actor \<Rightarrow> string \<Rightarrow> (fleet \<Rightarrow> fleet) \<Rightarrow> bool" where
  "stays act uid others \<longleftrightarrow> (\<forall>g i. fleet_ok g \<longrightarrow> fetch_by_id (Some g) act uid = Inr i \<longrightarrow>
     (\<exists>j. fetch_by_id (Some (others g)) act uid = Inr j \<and> md_name (item_meta j) = md_name (item_meta i)))"

definition unhindered :: "actor \<Rightarrow> string \<Rightarrow> attempt \<Rightarrow> bool" where
  "unhindered act uid a \<longleftrightarrow> at_served a \<and> wc_reaches (at_write a) \<and> (\<forall>old new. wc_admission (at_write a) old new = None) \<and>
     stays act uid (at_others a) \<and> stays act uid (at_backoff a)"

text \<open>Nobody writes the workspace between the read and the write of the attempt.\<close>

definition left_alone :: "actor \<Rightarrow> string \<Rightarrow> attempt \<Rightarrow> bool" where
  "left_alone act uid a \<longleftrightarrow>
     (\<forall>g. fleet_ok g \<longrightarrow> fetch_by_id (Some (at_others a g)) act uid = fetch_by_id (Some g) act uid)"

lemma fetched_named:
  assumes "fleet_ok g" "fetch_by_id (Some g) act uid = Inr j"
  shows "item_named g (md_name (item_meta j)) = Some j"
  using fetch_by_id_ok(1) [OF assms(2)] assms(1) by (simp add: item_named_mem)

lemma find_map_same: "find P xs = Some x \<Longrightarrow> \<forall>y \<in> set xs. P (h y) = P y \<Longrightarrow> find P (map h xs) = Some (h x)"
  by (induction xs) (auto split: if_splits)

lemma fetch_put_item:
  assumes "fleet_ok g" "fetch_by_id (Some g) act uid = Inr j" "md_name (item_meta j) = md_name (item_meta i)"
    and "md_uid (ws_meta (wo_workspace new)) = uid" "sp_owner (ws_spec (wo_workspace new)) = ac_id act"
  shows "fetch_by_id (Some (put_item i new g)) act uid = Inr \<lparr>fi_version = Suc (fl_revision g), fi_object = new\<rparr>"
proof -
  let ?b = "\<lparr>fi_version = Suc (fl_revision g), fi_object = new\<rparr>"
  let ?h = "\<lambda>x. if md_name (item_meta x) = md_name (item_meta i) then ?b else x"
  have f: "find (\<lambda>i. md_uid (item_meta i) = uid) (fl_items g) = Some j" "j \<in> set (fl_items g)"
    using assms(2) by (auto simp: fetch_by_id_def find_by_uid_def split: option.splits if_splits dest: find_SomeD)
  have "md_uid (item_meta (?h y)) = uid \<longleftrightarrow> md_uid (item_meta y) = uid" if "y \<in> set (fl_items g)" for y
  proof (cases "md_name (item_meta y) = md_name (item_meta i)")
    case True
    with assms(1,3) f(2) that have "y = j" by (auto simp: fleet_ok_def distinct_map inj_on_def)
    with True fetch_by_id_ok(2) [OF assms(2)] assms(4) show ?thesis by (simp add: item_meta_def)
  qed simp
  then have "find (\<lambda>i. md_uid (item_meta i) = uid) (map ?h (fl_items g)) = Some (?h j)"
    by (intro find_map_same [OF f(1)]) blast
  then show ?thesis
    using assms(3,5) by (simp add: fetch_by_id_def find_by_uid_def put_item_def item_spec_def)
qed

text \<open>An edit that keeps the identity of what it is given.\<close>

definition total_edit :: "(workspace_object \<Rightarrow> api_error + workspace_object) \<Rightarrow> bool" where
  "total_edit mutate \<longleftrightarrow> (\<forall>old. \<exists>new. mutate old = Inr new \<and> md_uid (ws_meta (wo_workspace new)) = md_uid (ws_meta (wo_workspace old)) \<and>
     sp_owner (ws_spec (wo_workspace new)) = sp_owner (ws_spec (wo_workspace old)))"

text \<open>One such attempt either loses its race, and leaves the workspace in place, or has stored the edit.\<close>

lemma attempt_races_or_stores:
  assumes "total_edit mutate" "fleet_ok g" "fleet_ok (at_others a g)" "unhindered act uid a" "fetch_by_id (Some g) act uid = Inr i"
  shows "one_attempt a act uid mutate g = (Inl Raced, at_backoff a (at_others a g)) \<and> \<not> left_alone act uid a \<and>
      (\<exists>j. fetch_by_id (Some (at_backoff a (at_others a g))) act uid = Inr j) \<or>
    (\<exists>new g' v. one_attempt a act uid mutate g = (Inr new, g') \<and> mutate (fi_object i) = Inr new \<and>
      fetch_by_id (Some g') act uid = Inr \<lparr>fi_version = v, fi_object = new\<rparr>)"
proof -
  obtain new where n: "mutate (fi_object i) = Inr new" "md_uid (ws_meta (wo_workspace new)) = md_uid (item_meta i)"
    "sp_owner (ws_spec (wo_workspace new)) = sp_owner (item_spec i)"
    using assms(1) by (auto simp: total_edit_def item_meta_def item_spec_def)
  obtain j where j: "fetch_by_id (Some (at_others a g)) act uid = Inr j" "md_name (item_meta j) = md_name (item_meta i)"
    using assms(2,4,5) unfolding unhindered_def stays_def by blast
  note at = fetched_named [OF assms(3) j(1), unfolded j(2)]
  show ?thesis
  proof (cases "fi_version j = fi_version i")
    case True
    then have w: "fleet_update (at_write a) i new (at_others a g) = (Written, put_item i new (at_others a g))"
      using assms(4) at by (simp add: fleet_update_def unhindered_def)
    have "fetch_by_id (Some (put_item i new (at_others a g))) act uid = Inr \<lparr>fi_version = Suc (fl_revision (at_others a g)), fi_object = new\<rparr>"
      by (rule fetch_put_item [OF assms(3) j]) (use n fetch_by_id_ok(2,3) [OF assms(5)] in simp_all)
    moreover have "one_attempt a act uid mutate g = (Inr new, put_item i new (at_others a g))"
      using assms(4,5) n(1) w by (simp add: one_attempt_def unhindered_def)
    ultimately show ?thesis using n(1) by blast
  next
    case False
    then have "fleet_update (at_write a) i new (at_others a g) = (Conflicted, at_others a g)"
      using assms(4) at by (simp add: fleet_update_def unhindered_def)
    then have "one_attempt a act uid mutate g = (Inl Raced, at_backoff a (at_others a g))"
      using assms(4,5) n(1) by (simp add: one_attempt_def unhindered_def)
    moreover have "\<not> left_alone act uid a"
    proof
      assume "left_alone act uid a"
      with assms(2) have "fetch_by_id (Some (at_others a g)) act uid = fetch_by_id (Some g) act uid" by (simp add: left_alone_def)
      with False j(1) assms(5) show False by simp
    qed
    moreover have "\<exists>j. fetch_by_id (Some (at_backoff a (at_others a g))) act uid = Inr j"
      using assms(3,4) j(1) unfolding unhindered_def stays_def by blast
    ultimately show ?thesis by blast
  qed
qed

lemma loop_gets_through:
  assumes "well_behaved ats" "total_edit mutate" "\<forall>k < n. unhindered act uid (ats k)" "j < n" "left_alone act uid (ats j)"
    and "k + m = n" "k \<le> j" "fleet_ok g" "fetch_by_id (Some g) act uid = Inr i"
  shows "\<exists>old new g' v. retry_on_conflict m (\<lambda>k. one_attempt (ats k) act uid mutate) k g = (Inr new, g') \<and> mutate old = Inr new \<and>
    fetch_by_id (Some g') act uid = Inr \<lparr>fi_version = v, fi_object = new\<rparr>"
  using assms(6-9)
proof (induction m arbitrary: k g i)
  case 0
  with assms(4) show ?case by simp
next
  case (Suc m)
  have k: "unhindered act uid (ats k)" using assms(3) Suc.prems(1) by simp
  have l: "later g (at_others (ats k) g)" using assms(1) Suc.prems(3) by (simp add: well_behaved_def)
  then have ok: "fleet_ok (at_others (ats k) g)" by (simp add: later_def)
  then have ok': "fleet_ok (at_backoff (ats k) (at_others (ats k) g))" using assms(1) by (auto simp: well_behaved_def later_def)
  from attempt_races_or_stores [OF assms(2) Suc.prems(3) ok k Suc.prems(4)] show ?case
  proof (elim disjE conjE exE)
    fix i'
    assume r: "one_attempt (ats k) act uid mutate g = (Inl Raced, at_backoff (ats k) (at_others (ats k) g))" "\<not> left_alone act uid (ats k)"
      "fetch_by_id (Some (at_backoff (ats k) (at_others (ats k) g))) act uid = Inr i'"
    have "k \<noteq> j" using assms(5) r(2) by blast
    then have "Suc k + m = n" "Suc k \<le> j" using Suc.prems(1,2) by simp_all
    from Suc.IH [OF this ok' r(3)] r(1) show ?thesis by simp
  next
    fix new g' v
    assume "one_attempt (ats k) act uid mutate g = (Inr new, g')" "mutate (fi_object i) = Inr new"
      "fetch_by_id (Some g') act uid = Inr \<lparr>fi_version = v, fi_object = new\<rparr>"
    then show ?thesis by (intro exI conjI) simp_all
  qed
qed

lemma view_paused: "vw_paused (workspace_to_model obj tpl) = sp_paused (ws_spec (wo_workspace obj))"
  by (simp add: workspace_to_model_def Let_def)

text \<open>C35: A pause or a resumption is not lost to other writers as long as one of its attempts is left alone. However the operator
  and other requests write the workspace during the other attempts and the waits between them, without deleting
  or reassigning it, with an API server that answers and an admission that accepts: if nobody writes it between
  the read and the write of just one of the attempts the retry helper makes, the request succeeds and the
  workspace is stored with the pause that was asked for.
\<close>

theorem raced_edit_gets_through:
  assumes "documented_retry n (ed_retry e)" "well_behaved (ed_attempts e)" "fleet_ok fl" "fetch_by_id (Some fl) act uid = Inr i"
    and "\<forall>k < n. unhindered act uid (ed_attempts e k)" "j < n" "left_alone act uid (ed_attempts e j)"
  shows "\<exists>v fl' au i'. set_paused e env act uid p fl = (Inr v, fl', au) \<and> vw_paused v = p \<and>
    fetch_by_id (Some fl') act uid = Inr i' \<and> sp_paused (item_spec i') = p"
proof -
  have t: "total_edit (pause_edit (ed_now_text e) p)"
    by (simp add: total_edit_def pause_edit_def annotated_def with_spec_def)
  from loop_gets_through [OF assms(2) t assms(5-7), of 0 n, OF _ _ assms(3,4)] obtain old new fl' v where
    r: "retry_on_conflict n (\<lambda>k. one_attempt (ed_attempts e k) act uid (pause_edit (ed_now_text e) p)) 0 fl = (Inr new, fl')"
    and w: "pause_edit (ed_now_text e) p old = Inr new" "fetch_by_id (Some fl') act uid = Inr \<lparr>fi_version = v, fi_object = new\<rparr>" by auto
  have "update_with_conflict_retry (ed_retry e) (ed_attempts e) act uid (pause_edit (ed_now_text e) p) fl = (Inr new, fl')"
    using assms(1) r by (simp add: update_with_conflict_retry_def documented_retry_def)
  moreover have "sp_paused (ws_spec (wo_workspace new)) = p"
    using w(1) by (auto simp: pause_edit_def annotated_def with_spec_def)
  moreover from this have "sp_paused (item_spec \<lparr>fi_version = v, fi_object = new\<rparr>) = p" by (simp add: item_spec_def)
  ultimately show ?thesis using w(2) by (simp add: set_paused_def view_paused)
qed

section \<open>What the admission makes of a created workspace\<close>

lemma plan_creationE:
  assumes "plan_creation c env act inp = Inr (t, ws)"
  obtains owner name target workload rr where
    "px_users env (if cw_owner_id inp \<noteq> [] \<and> ac_role act = role_admin then cw_owner_id inp else ac_id act) = Found owner"
    "px_templates env (cw_template_ref inp) = Found t"
    "(if cw_target_namespace inp \<noteq> [] then Inr (cw_target_namespace inp) else resolve_default_namespace c t owner (cw_display_name inp)) = Inr target"
    "resolve_workload_name c env name (cw_display_name inp) target = Inr workload"
    "requirements_from (ca_parse_qty c) (cw_resources inp) = Inr rr"
    "ws = new_workspace c env act inp owner name target workload rr"
  using assms by (auto simp: plan_creation_def Let_def split: fetched.splits if_splits option.splits sum.splits)

lemma new_workspace_annotations:
  "ws_annotation (new_workspace c env act inp u n t w rr) annotation_username = us_username u"
  "ws_annotation (new_workspace c env act inp u n t w rr) annotation_groups = join_with '','' (us_groups u)"
  "ws_annotation (new_workspace c env act inp u n t w rr) annotation_role = ac_role act"
  by (simp_all add: new_workspace_def ws_annotation_def annotation_names)

lemma split_list_groups: "split_list s = split_groups s"
  by (simp add: split_list_def split_groups_def)

lemma joined_groups_split:
  assumes "\<forall>g \<in> set gs. g \<noteq> [] \<and> trim_space g = g \<and> CHR '','' \<notin> set g"
  shows "split_groups (join_with '','' gs) = gs"
proof (cases "gs = []")
  case False
  then have "join_with '','' gs \<noteq> []" using assms by (cases gs; cases "tl gs") (auto simp: join_with_Cons)
  moreover have "split_on CHR '','' (join_with '','' gs) = gs" using split_join [OF False] assms by simp
  moreover have "map trim_space gs = gs" using assms by (intro map_idI) blast
  moreover have "filter (\<lambda>g. g \<noteq> []) gs = gs" using assms by (simp add: filter_id_conv)
  ultimately show ?thesis by (simp add: split_groups_def)
qed (simp add: split_groups_def)

text \<open>C34: The API server and the admission webhook agree on who owns a new workspace and where it belongs. The identity the webhook
  reads from the object is the account of the owner, and a workspace created without a namespace of its own
  lands exactly where the webhook recomputes the default, so it needs no right to deviate and passes the
  ownership check of the placement in any cluster.
\<close>

theorem created_workspace_agrees:
  assumes "plan_creation c env act inp = Inr (t, ws)" "cw_target_namespace inp = []"
    and "v_text v = ca_text c" "v_pattern v = ca_pattern c" "rq_username req \<in> set (v_trusted_writers v)"
    and "\<And>i u. px_users env i = Found u \<Longrightarrow> us_id u = i \<and> (\<forall>g \<in> set (us_groups u). g \<noteq> [] \<and> trim_space g = g \<and> CHR '','' \<notin> set g)"
  shows "\<exists>u. px_users env (sp_owner (ws_spec ws)) = Found u \<and> resolve_identity v req ws = Inr (user_identity u) \<and>
    resolved_default_namespace (v_text v) ws t (user_identity u) (v_pattern v) = Inr (sp_target_namespace (ws_spec ws)) \<and>
    \<not> placement_deviates (v_text v) ws t (user_identity u) (v_pattern v) \<and>
    check_placement_ownership v cl ws t (user_identity u) = None"
proof -
  obtain owner name target workload rr where p:
    "px_users env (if cw_owner_id inp \<noteq> [] \<and> ac_role act = role_admin then cw_owner_id inp else ac_id act) = Found owner"
    "resolve_default_namespace c t owner (cw_display_name inp) = Inr target"
    "ws = new_workspace c env act inp owner name target workload rr"
    by (rule plan_creationE [OF assms(1)]) (use assms(2) in auto)
  have s: "sp_owner (ws_spec ws) = us_id owner" "sp_target_namespace (ws_spec ws) = target" "sp_display_name (ws_spec ws) = cw_display_name inp"
    by (simp_all add: p(3) new_workspace_def)
  have o': "px_users env (us_id owner) = Found owner" using p(1) assms(6) [OF p(1)] by simp
  have g: "\<forall>g \<in> set (us_groups owner). g \<noteq> [] \<and> trim_space g = g \<and> CHR '','' \<notin> set g" using assms(6) o' by blast
  have i: "resolve_identity v req ws = Inr (user_identity owner)"
    using assms(5) s(1) joined_groups_split [OF g] unfolding p(3)
    by (simp add: resolve_identity_def user_identity_def new_workspace_annotations split_list_groups)
  have "placement_values ws t (user_identity owner) = create_pattern_values t owner (cw_display_name inp)"
    by (simp add: placement_values_def create_pattern_values_def user_identity_def s(3))
  with p(2) have d: "resolved_default_namespace (v_text v) ws t (user_identity owner) (v_pattern v) = Inr target"
    using assms(3,4) by (simp add: resolved_default_namespace_def resolve_default_namespace_def)
  then have "\<not> placement_deviates (v_text v) ws t (user_identity owner) (v_pattern v)"
    "check_placement_ownership v cl ws t (user_identity owner) = None"
    using s(2) by (simp_all add: placement_deviates_def check_placement_ownership_def Let_def)
  with i d s o' show ?thesis by auto
qed

text \<open>A workspace an administrator creates for a user frees that user from every override right. Creation stamps the role of the
  administrator on the object, the stamp is frozen, and the admission reads it as the role of whoever writes
  later: any override the owner edits in afterwards passes the check of the template's and the policy's rights.
\<close>

lemma admin_created_unrestricted:
  assumes "plan_creation c env adm inp = Inr (t, ws)" "ac_role adm = role_admin"
    and "settings_edit (new_object ws) old" "overrides_edit edit rr old = Inr new"
  shows "check_overrides lib order (wo_workspace new) t' pol i pat = None"
proof -
  obtain owner name target workload r where "ws = new_workspace c env adm inp owner name target workload r"
    by (rule plan_creationE [OF assms(1)])
  then have r: "ws_annotation ws annotation_role = ''admin''" using assms(2) by (simp add: new_workspace_annotations role_admin_def)
  have n: "annotation_role \<noteq> annotation_manual_state_at" "annotation_role \<noteq> annotation_reload_requested_at"
    by (simp_all add: annotation_names annotation_manual_state_at_def annotation_reload_requested_at_def)
  have "ws_annotation (wo_workspace new) annotation_role = ws_annotation (wo_workspace (new_object ws)) annotation_role"
    using annotation_kept [OF assms(3) n] annotation_kept [OF overrides_edit_settings [OF assms(4)] n] by simp
  with r show ?thesis by (simp add: check_overrides_def new_object_def)
qed

section \<open>Deletion and its volume choice\<close>

text \<open>The item an update leaves under its name.\<close>

lemma put_item_named:
  assumes "item_named fl (md_name (item_meta i)) = Some i" "md_name (ws_meta (wo_workspace new)) = md_name (item_meta i)"
  shows "item_named (put_item i new fl) (md_name (item_meta i)) = Some \<lparr>fi_version = Suc (fl_revision fl), fi_object = new\<rparr>"
proof -
  have "find (\<lambda>j. md_name (item_meta j) = n) (map (\<lambda>j. if md_name (item_meta j) = n then b else j) js) = Some b"
    if "find (\<lambda>j. md_name (item_meta j) = n) js \<noteq> None" "md_name (item_meta b) = n" for b n js
    using that by (induction js) (auto split: if_splits)
  from this [of "md_name (item_meta i)" "fl_items fl" "\<lparr>fi_version = Suc (fl_revision fl), fi_object = new\<rparr>"] assms
  show ?thesis by (simp add: item_named_def put_item_def item_meta_def)
qed

lemma fleet_delete_marks:
  assumes "item_named fl n = Some i" "wo_finalizers (fi_object i) \<noteq> []"
  shows "\<exists>j. item_named (snd (fleet_delete True n fl)) n = Some j \<and> md_deleted (item_meta j) \<and>
    md_annotations (item_meta j) = md_annotations (item_meta i) \<and> ws_spec (wo_workspace (fi_object j)) = item_spec i \<and>
    md_namespace (item_meta j) = md_namespace (item_meta i) \<and> md_name (item_meta j) = md_name (item_meta i)"
proof -
  let ?new = "(fi_object i)\<lparr>wo_workspace := (wo_workspace (fi_object i))\<lparr>ws_meta := (item_meta i)\<lparr>md_deleted := True\<rparr>\<rparr>\<rparr>"
  have n: "md_name (item_meta i) = n" using assms(1) by (auto simp: item_named_def dest: find_SomeD)
  have "item_named (put_item i ?new fl) (md_name (item_meta i)) = Some \<lparr>fi_version = Suc (fl_revision fl), fi_object = ?new\<rparr>"
    by (rule put_item_named) (use assms(1) n in simp_all)
  with assms n show ?thesis by (simp add: fleet_delete_def item_meta_def item_spec_def)
qed

text \<open>The choice to delete the home volume outlives a deletion that failed. When the stamp of the choice is written but the
  deletion itself is not, the workspace lives on with it, and a later deletion that asks to keep the volume
  leaves an object whose finalizer deletes it.
\<close>

lemma failed_deletion_dooms_volume:
  assumes "find_by_uid (Some fl) uid = Inr i" "item_named fl (md_name (item_meta i)) = Some i" "wo_finalizers (fi_object i) \<noteq> []"
    and "px_fleet env = Some fl" "wc_reaches (dk_stamp k)" "\<And>x. wc_admission (dk_stamp k) x (wo_workspace (annotated annotation_delete_home ''true'' (fi_object i))) = None"
    and "\<not> dk_reaches k" "dk_others k = id" "dk_between k = id"
    and "delete_workspace k env act uid False True (fl, rows) = (r, (fl1, rows1), au)"
    and "px_fleet env' = Some fl1" "dk_reaches k'" "dk_others k' = id" "dk_between k' = id"
    and "find_by_uid (Some fl1) uid = Inr i1" "md_name (item_meta i1) = md_name (item_meta i)"
    and "delete_workspace k' env' act' uid True True (fl1, rows1) = (r', (fl2, rows2), au')"
    and "get_claim api st (home_key (wo_workspace (fi_object i))) = Found pvc" "api_delete api = ApiOk"
    and "label_of (vc_meta pvc) label_workspace = md_name (item_meta i)"
  shows "r \<noteq> Inr () \<and> r' = Inr () \<and> (\<exists>j. item_named fl2 (md_name (item_meta i)) = Some j \<and> md_deleted (item_meta j) \<and>
    snd (finalize_home_volume api now (wo_workspace (fi_object j)) st) (home_key (wo_workspace (fi_object j))) = Some (mark_deleted pvc))"
proof -
  let ?n = "md_name (item_meta i)" and ?s = "annotated annotation_delete_home ''true'' (fi_object i)"
  have u: "fleet_update (dk_stamp k) i ?s fl = (Written, put_item i ?s fl)"
    using assms(2,5,6) by (simp add: fleet_update_def)
  have 1: "r \<noteq> Inr ()" "fl1 = put_item i ?s fl" "rows1 = rows"
    using assms(1,4,7-10) u by (auto simp: delete_workspace_def Let_def fleet_delete_def)
  have named: "item_named fl1 ?n = Some \<lparr>fi_version = Suc (fl_revision fl), fi_object = ?s\<rparr>"
    unfolding 1(2) by (rule put_item_named) (use assms(2) in \<open>simp_all add: annotated_def item_meta_def\<close>)
  let ?i1 = "\<lparr>fi_version = Suc (fl_revision fl), fi_object = ?s\<rparr>"
  have fin: "wo_finalizers (fi_object ?i1) \<noteq> []" using assms(3) by (simp add: annotated_def)
  have ok: "fst (fleet_delete True ?n fl1)" using named by (auto simp: fleet_delete_def)
  have d: "r' = Inr ()" "fl2 = snd (fleet_delete True ?n fl1)"
    using assms(11-17) ok by (auto simp: delete_workspace_def Let_def split: prod.splits if_splits)
  obtain j where j: "item_named fl2 ?n = Some j" "md_deleted (item_meta j)" "md_annotations (item_meta j) = md_annotations (item_meta ?i1)"
    "ws_spec (wo_workspace (fi_object j)) = item_spec ?i1" "md_namespace (item_meta j) = md_namespace (item_meta ?i1)"
    "md_name (item_meta j) = md_name (item_meta ?i1)"
    using fleet_delete_marks [OF named fin] unfolding d(2) by blast
  let ?ws = "wo_workspace (fi_object j)" and ?w = "wo_workspace (fi_object i)"
  have spec: "ws_spec ?ws = ws_spec ?w" "md_namespace (ws_meta ?ws) = md_namespace (ws_meta ?w)" "md_name (ws_meta ?ws) = md_name (ws_meta ?w)"
    using j by (simp_all add: item_spec_def item_meta_def annotated_def)
  have key: "home_key ?ws = home_key ?w"
    using spec by (simp add: home_key_def home_pvc_name_def effective_target_namespace_def effective_workload_name_def)
  have ann: "ws_annotation ?ws annotation_delete_home = ''true''"
    using j(3) by (simp add: ws_annotation_def item_meta_def annotated_def)
  have at_key: "st (home_key ?ws) = Some pvc" using assms(18) by (auto simp: get_claim_def key split: if_splits option.splits)
  have "snd (finalize_home_volume api now ?ws st) = snd (delete_claim api st (home_key ?ws))"
    using assms(18,20) ann spec(3) by (simp add: finalize_home_volume_def key item_meta_def Let_def split: prod.splits)
  with at_key assms(19) have "snd (finalize_home_volume api now ?ws st) (home_key ?ws) = Some (mark_deleted pvc)"
    by (simp add: delete_claim_def)
  with 1(1) d(1) j(1,2) show ?thesis by blast
qed

section \<open>Listing\<close>

text \<open>Every object carries the label of its owner, which creation writes and no edit changes.\<close>

definition labelled_fleet :: "fleet \<Rightarrow> bool" where
  "labelled_fleet fl \<longleftrightarrow> (\<forall>i \<in> set (fl_items fl). md_labels (item_meta i) label_owner = Some (sp_owner (item_spec i)))"

text \<open>On such a fleet the personal listing shows exactly the workspaces its caller may act on.\<close>

lemma find_distinct:
  assumes "distinct (map f xs)"
  shows "find (\<lambda>x. f x = k) xs = Some x \<longleftrightarrow> x \<in> set xs \<and> f x = k"
proof
  assume x: "x \<in> set xs \<and> f x = k"
  then obtain y where y: "find (\<lambda>x. f x = k) xs = Some y" by (cases "find (\<lambda>x. f x = k) xs") (auto simp: find_None_iff)
  then have "y \<in> set xs" "f y = k" by (auto dest: find_SomeD)
  with x assms have "y = x" by (auto simp: distinct_map dest: inj_onD)
  with y show "find (\<lambda>x. f x = k) xs = Some x" by simp
qed (auto dest: find_SomeD)

lemma listing_is_own:
  assumes "px_fleet env = Some fl" "labelled_fleet fl" "distinct (map (\<lambda>i. md_uid (item_meta i)) (fl_items fl))"
  shows "\<exists>vs. list_workspaces env ts act False = Inr vs \<and>
    (\<forall>uid. uid \<in> vw_id ` set vs \<longleftrightarrow> (\<exists>i. fetch_by_id (Some fl) act uid = Inr i))"
proof -
  let ?own = "filter (\<lambda>i. md_labels (item_meta i) label_owner = Some (ac_id act)) (fl_items fl)"
  have own: "set ?own = {i \<in> set (fl_items fl). sp_owner (item_spec i) = ac_id act}"
    using assms(2) by (auto simp: labelled_fleet_def)
  have id: "vw_id (workspace_to_model (fi_object i) t) = md_uid (item_meta i)" for i t
    by (simp add: workspace_to_model_def item_meta_def Let_def)
  have fetch: "(\<exists>i. fetch_by_id (Some fl) act uid = Inr i) \<longleftrightarrow> (\<exists>i \<in> set (fl_items fl). md_uid (item_meta i) = uid \<and> sp_owner (item_spec i) = ac_id act)" for uid
  proof
    assume "\<exists>i. fetch_by_id (Some fl) act uid = Inr i"
    then show "\<exists>i \<in> set (fl_items fl). md_uid (item_meta i) = uid \<and> sp_owner (item_spec i) = ac_id act"
      using fetch_by_id_ok by fastforce
  next
    assume "\<exists>i \<in> set (fl_items fl). md_uid (item_meta i) = uid \<and> sp_owner (item_spec i) = ac_id act"
    then obtain i where "i \<in> set (fl_items fl)" "md_uid (item_meta i) = uid" "sp_owner (item_spec i) = ac_id act" by blast
    then have "fetch_by_id (Some fl) act uid = Inr i"
      using find_distinct [OF assms(3), of uid i] by (simp add: fetch_by_id_def find_by_uid_def)
    then show "\<exists>i. fetch_by_id (Some fl) act uid = Inr i" by blast
  qed
  have "\<exists>f. list_workspaces env ts act False = Inr (map f ?own) \<and> (\<forall>i. vw_id (f i) = md_uid (item_meta i))"
    using id by (auto simp: list_workspaces_def assms(1) Let_def)
  then obtain f where f: "list_workspaces env ts act False = Inr (map f ?own)" "\<And>i. vw_id (f i) = md_uid (item_meta i)" by blast
  have "vw_id ` set (map f ?own) = (\<lambda>i. md_uid (item_meta i)) ` {i \<in> set (fl_items fl). sp_owner (item_spec i) = ac_id act}"
    unfolding set_map own image_image f(2) ..
  with f(1) show ?thesis using fetch by auto
qed

lemma edit_labelled:
  assumes "labelled_fleet m" "item_named m (md_name (item_meta i)) = Some i" "settings_edit (fi_object i) new"
  shows "labelled_fleet (put_item i new m)"
proof -
  have i: "i \<in> set (fl_items m)" using assms(2) by (auto simp: item_named_def dest: find_SomeD)
  obtain ann p ov rr where "ws_meta (wo_workspace new) = (item_meta i)\<lparr>md_annotations := ann\<rparr>"
    "ws_spec (wo_workspace new) = (item_spec i)\<lparr>sp_paused := p, sp_overrides := ov, sp_resources := rr\<rparr>"
    using assms(3) unfolding settings_edit_def item_meta_def item_spec_def by blast
  then have "md_labels (ws_meta (wo_workspace new)) = md_labels (item_meta i)" "sp_owner (ws_spec (wo_workspace new)) = sp_owner (item_spec i)"
    by simp_all
  with assms(1) i have n: "md_labels (ws_meta (wo_workspace new)) label_owner = Some (sp_owner (ws_spec (wo_workspace new)))"
    by (simp add: labelled_fleet_def)
  have "md_labels (item_meta j) label_owner = Some (sp_owner (item_spec j))" if j: "j \<in> set (fl_items (put_item i new m))" for j
  proof -
    obtain j0 where "j0 \<in> set (fl_items m)" "j = (if md_name (item_meta j0) = md_name (item_meta i)
        then \<lparr>fi_version = Suc (fl_revision m), fi_object = new\<rparr> else j0)"
      using j by (auto simp: put_item_def)
    with n assms(1) show ?thesis by (cases "md_name (item_meta j0) = md_name (item_meta i)") (simp_all add: labelled_fleet_def item_meta_def item_spec_def)
  qed
  then show ?thesis unfolding labelled_fleet_def by blast
qed

lemma create_labelled:
  assumes "labelled_fleet fl" "plan_creation c env act inp = Inr (t, ws)"
  shows "labelled_fleet (snd (fleet_create call (new_object ws) fl))"
proof -
  obtain owner name target workload r where w: "ws = new_workspace c env act inp owner name target workload r"
    by (rule plan_creationE [OF assms(2)])
  have "md_labels (ws_meta ws) label_owner = Some (sp_owner (ws_spec ws))" by (simp add: w new_workspace_def)
  with assms(1) show ?thesis
    by (auto simp: fleet_create_def labelled_fleet_def new_object_def item_meta_def item_spec_def split: option.split)
qed

section \<open>Concrete requests\<close>

definition quiet_attempt :: attempt where
  "quiet_attempt = \<lparr>at_served = True, at_others = (\<lambda>g. g), at_write = \<lparr>wc_reaches = True, wc_admission = (\<lambda>_ _. None)\<rparr>, at_backoff = (\<lambda>g. g)\<rparr>"

text \<open>The first attempt loses its race against a write of the operator.\<close>

definition touch :: "fleet \<Rightarrow> fleet" where
  "touch g = (case fetch_by_id (Some g) desk_actor ''uid-w1'' of Inr i \<Rightarrow> put_item i (fi_object i) g | Inl _ \<Rightarrow> g)"

definition racing_attempts :: "nat \<Rightarrow> attempt" where
  "racing_attempts k = (if k = 0 then quiet_attempt\<lparr>at_others := touch\<rparr> else quiet_attempt)"

definition five_steps :: "workspace_object retry_helper" where
  "five_steps f s = retry_on_conflict 5 f 0 s"

lemma five_steps_documented: "documented_retry 5 five_steps"
  by (simp add: documented_retry_def five_steps_def)

lemma racing_well_behaved: "well_behaved racing_attempts"
proof -
  have "later g (touch g)" if "fleet_ok g" for g
    using later_put_item [OF that] later_refl [OF that] by (simp add: touch_def item_meta_def split: sum.split)
  then show ?thesis by (simp add: well_behaved_def racing_attempts_def quiet_attempt_def later_refl)
qed

definition desk_edits :: edit_env where
  "desk_edits = \<lparr>ed_retry = five_steps, ed_attempts = racing_attempts, ed_now_text = ''t'', ed_parse_qty = (\<lambda>_. Some 1)\<rparr>"

lemma desk_fleet_ok: "fleet_ok desk_fleet"
  by (simp add: fleet_ok_def desk_fleet_def desk_item_def)

lemma desk_pause_written: "\<exists>v fl' au. set_paused desk_edits desk_portal desk_actor ''uid-w1'' True desk_fleet = (Inr v, fl', au)"
proof -
  have "case fst (set_paused desk_edits desk_portal desk_actor ''uid-w1'' True desk_fleet) of Inl _ \<Rightarrow> False | Inr _ \<Rightarrow> True"
    by code_simp
  then show ?thesis by (cases "set_paused desk_edits desk_portal desk_actor ''uid-w1'' True desk_fleet") (auto split: sum.splits)
qed

theorem edits_lose_nothing_witness:
  "\<exists>v fl' au m i new. perform (Pausing True) desk_edits desk_portal desk_actor ''uid-w1'' desk_fleet = (Inr v, fl', au) \<and>
    later desk_fleet m \<and> item_named m (md_name (item_meta i)) = Some i \<and> md_uid (item_meta i) = ''uid-w1'' \<and>
    fl' = put_item i new m \<and> as_requested (Pausing True) desk_edits (fi_object i) new"
proof -
  obtain v fl' au where s: "perform (Pausing True) desk_edits desk_portal desk_actor ''uid-w1'' desk_fleet = (Inr v, fl', au)"
    using desk_pause_written by (auto simp: perform_def)
  have d: "documented_retry 5 (ed_retry desk_edits)" "well_behaved (ed_attempts desk_edits)"
    using five_steps_documented racing_well_behaved by (simp_all add: desk_edits_def)
  from edits_lose_nothing [OF d desk_fleet_ok s] s show ?thesis by blast
qed

text \<open>The first of five attempts is disturbed by the operator, the second is not.\<close>

lemma racing_unhindered: "unhindered desk_actor ''uid-w1'' (racing_attempts k)"
proof -
  have "stays desk_actor ''uid-w1'' touch"
    unfolding stays_def
  proof (intro allI impI)
    fix g i assume g: "fleet_ok g" "fetch_by_id (Some g) desk_actor ''uid-w1'' = Inr i"
    have "fetch_by_id (Some (put_item i (fi_object i) g)) desk_actor ''uid-w1'' =
        Inr \<lparr>fi_version = Suc (fl_revision g), fi_object = fi_object i\<rparr>"
      by (rule fetch_put_item [OF g refl]) (use fetch_by_id_ok(2,3) [OF g(2)] in \<open>simp_all add: item_meta_def item_spec_def\<close>)
    with g(2) show "\<exists>j. fetch_by_id (Some (touch g)) desk_actor ''uid-w1'' = Inr j \<and> md_name (item_meta j) = md_name (item_meta i)"
      by (simp add: touch_def item_meta_def)
  qed
  moreover have "stays act uid (\<lambda>g. g)" for act uid by (simp add: stays_def)
  ultimately show ?thesis by (simp add: unhindered_def racing_attempts_def quiet_attempt_def)
qed

theorem raced_edit_gets_through_witness:
  "\<exists>v fl' au i'. set_paused desk_edits desk_portal desk_actor ''uid-w1'' True desk_fleet = (Inr v, fl', au) \<and>
    fetch_by_id (Some fl') desk_actor ''uid-w1'' = Inr i' \<and> sp_paused (item_spec i')"
proof -
  have d: "documented_retry 5 (ed_retry desk_edits)" "well_behaved (ed_attempts desk_edits)"
    "\<forall>k < 5. unhindered desk_actor ''uid-w1'' (ed_attempts desk_edits k)" "left_alone desk_actor ''uid-w1'' (ed_attempts desk_edits 1)"
    using five_steps_documented racing_well_behaved racing_unhindered
    by (simp_all add: desk_edits_def left_alone_def) (simp add: racing_attempts_def quiet_attempt_def)
  have "fetch_by_id (Some desk_fleet) desk_actor ''uid-w1'' = Inr desk_item" using desk_found(2) unfolding desk_portal_def portal.simps .
  from raced_edit_gets_through [OF d(1,2) desk_fleet_ok this d(3) _ d(4), of desk_portal True] show ?thesis by auto
qed

definition desk_creation :: create_workspace_input where
  "desk_creation = \<lparr>cw_name = ''w2'', cw_template_ref = ''t1'', cw_display_name = ''lab'', cw_owner_id = ''u1'', cw_resources = [],
     cw_overrides = None, cw_target_namespace = [], cw_home_volume_name = [], cw_paused = False\<rparr>"

definition desk_create :: create_env where
  "desk_create = \<lparr>ca_text = ascii_lib, ca_pattern = [], ca_valid_name = (\<lambda>_. True), ca_claims = (\<lambda>_ _. Missing), ca_parse_qty = (\<lambda>_. Some 1),
     ca_uuid = ''01234567'', ca_uid = ''uid-w2'', ca_now = 0, ca_write = \<lparr>wc_reaches = True, wc_admission = (\<lambda>_ _. None)\<rparr>\<rparr>"

definition desk_admin :: actor where
  "desk_admin = \<lparr>ac_id = ''root'', ac_username = ''root'', ac_role = ''admin'', ac_client_ip = []\<rparr>"

lemma desk_creates:
  "case plan_creation desk_create desk_portal desk_actor desk_creation of Inl _ \<Rightarrow> False | Inr _ \<Rightarrow> True"
  "case plan_creation desk_create desk_portal desk_admin desk_creation of Inl _ \<Rightarrow> False | Inr _ \<Rightarrow> True"
  by code_simp+

definition desk_validator :: "unit validator" where
  "desk_validator = \<lparr>v_kubevirt = False, v_trusted_writers = [''api''], v_bypass_subjects = [], v_pattern = [], v_text = ascii_lib,
     v_cron = office_lib, v_order = (\<lambda>_. []), v_same_spec = (\<lambda>a b. a = b)\<rparr>"

lemma desk_accounts_named:
  assumes "px_users desk_portal i = Found u"
  shows "us_id u = i \<and> (\<forall>g \<in> set (us_groups u). g \<noteq> [] \<and> trim_space g = g \<and> CHR '','' \<notin> set g)"
  using assms by (auto simp: desk_portal_def desk_user_def trim_space_ascii is_space_rune_def split: if_splits)

theorem created_workspace_agrees_witness:
  "\<exists>t ws u. plan_creation desk_create desk_portal desk_admin desk_creation = Inr (t, ws) \<and>
    resolve_identity desk_validator \<lparr>rq_username = ''api'', rq_groups = []\<rparr> ws = Inr (user_identity u) \<and>
    \<not> placement_deviates ascii_lib ws t (user_identity u) []"
proof -
  obtain t ws where p: "plan_creation desk_create desk_portal desk_admin desk_creation = Inr (t, ws)"
    using desk_creates(2) by (cases "plan_creation desk_create desk_portal desk_admin desk_creation") auto
  have "cw_target_namespace desk_creation = []" "v_text desk_validator = ca_text desk_create" "v_pattern desk_validator = ca_pattern desk_create"
    "rq_username \<lparr>rq_username = ''api'', rq_groups = []\<rparr> \<in> set (v_trusted_writers desk_validator)"
    "v_text desk_validator = ascii_lib" "v_pattern desk_validator = []"
    by (simp_all add: desk_creation_def desk_validator_def desk_create_def)
  with created_workspace_agrees [OF p, of desk_validator "\<lparr>rq_username = ''api'', rq_groups = []\<rparr>", OF _ _ _ _ desk_accounts_named] p
  show ?thesis by metis
qed

definition open_edit :: update_overrides_input where
  "open_edit = \<lparr>uo_env = Some [\<lparr>ev_name = ''A'', ev_value = ''b'', ev_value_from = None\<rparr>], uo_node_selector = None, uo_tolerations = None,
     uo_resources = None, uo_labels = None, uo_annotations = None, uo_schedule = None\<rparr>"

theorem admin_created_unrestricted_witness:
  "\<exists>t ws new. plan_creation desk_create desk_portal desk_admin desk_creation = Inr (t, ws) \<and>
    overrides_edit open_edit None (new_object ws) = Inr new \<and>
    check_overrides ascii_lib (\<lambda>_. [FieldEnv]) (wo_workspace new) t None (user_identity desk_user) [] = None"
proof -
  obtain t ws where p: "plan_creation desk_create desk_portal desk_admin desk_creation = Inr (t, ws)"
    using desk_creates(2) by (cases "plan_creation desk_create desk_portal desk_admin desk_creation") auto
  have r: "ac_role desk_admin = role_admin" by (simp add: desk_admin_def role_admin_def)
  have "overrides_edit open_edit None (new_object ws) = Inr (with_spec (overrides_spec open_edit None) (new_object ws))"
    by (simp add: overrides_edit_def)
  with admin_created_unrestricted [OF p r settings_edit_refl this] p show ?thesis by blast
qed

section \<open>Names and audit lines\<close>

text \<open>A generated name is a label whatever the username holds, given a hexadecimal identifier.\<close>

lemma name_rune_body: "label_body (name_rune r)"
proof -
  have "label_rune r \<Longrightarrow> label_char (char_of r)" by (rule label_char_of)
  moreover have "char_of (45 :: nat) = CHR ''-''" by code_simp
  ultimately show ?thesis by (auto simp: name_rune_def label_body_def label_rune_def)
qed

lemma trim_dashes_head: "trim_dashes s \<noteq> [] \<Longrightarrow> hd (trim_dashes s) \<noteq> CHR ''-''"
proof -
  assume n: "trim_dashes s \<noteq> []"
  let ?d = "dropWhile (\<lambda>c. c = CHR ''-'') s"
  have "\<exists>t. ?d = trim_right_dash ?d @ t" unfolding trim_right_dash_def
    by (metis rev_rev_ident rev_append takeWhile_dropWhile_id)
  then obtain t where t: "?d = trim_dashes s @ t" by (auto simp: trim_dashes_def)
  then have "?d \<noteq> []" "hd ?d = hd (trim_dashes s)" using n by (simp_all add: t)
  then show ?thesis using hd_dropWhile [of "\<lambda>c. c = CHR ''-''" s] by fastforce
qed

lemma trim_dashes_set: "set (trim_dashes s) \<subseteq> set s"
proof -
  have d: "set (dropWhile P t) \<subseteq> set t" for P and t :: string using set_dropWhileD by fast
  show ?thesis unfolding trim_dashes_def trim_right_dash_def set_rev using d d by (metis order.trans set_rev)
qed

lemma generated_name_label:
  assumes "list_all label_char uuid" "8 \<le> length uuid"
  shows "validate_label (generate_workspace_name lib uuid username) = None"
proof -
  let ?r = "map name_rune (runes (to_lower (lower_rune lib) username))"
  define s where "s = (if trim_dashes ?r = [] then ''user'' else trim_dashes ?r)"
  have name: "generate_workspace_name lib uuid username = take 40 s @ ''-'' @ take 8 uuid"
    by (simp add: generate_workspace_name_def s_def Let_def)
  have body: "\<forall>c \<in> set s. label_body c"
  proof (cases "trim_dashes ?r = []")
    case True
    then show ?thesis by (simp add: s_def label_body_def label_char_def label_rune_def)
  next
    case False
    with trim_dashes_set [of ?r] name_rune_body show ?thesis by (auto simp: s_def)
  qed
  have hd: "s \<noteq> []" "label_char (hd s)"
  proof -
    show "s \<noteq> []" by (simp add: s_def)
    show "label_char (hd s)"
    proof (cases "trim_dashes ?r = []")
      case True
      then show ?thesis by (simp add: s_def label_char_def label_rune_def)
    next
      case False
      then have "s = trim_dashes ?r" by (simp add: s_def)
      with trim_dashes_head [OF False] body False show ?thesis by (auto simp: label_body_def)
    qed
  qed
  have u: "take 8 uuid \<noteq> []" using assms by auto
  then have "last (take 8 uuid) \<in> set uuid" by (meson in_set_takeD last_in_set)
  then have l: "label_char (last (take 8 uuid))" using assms(1) by (simp add: list_all_iff)
  have "\<forall>c \<in> set (take 40 s @ ''-'' @ take 8 uuid). label_body c"
    using body assms(1) by (auto simp: list_all_iff label_body_def dest: in_set_takeD)
  moreover have "hd (take 40 s @ ''-'' @ take 8 uuid) = hd s" using hd(1) by (cases s) simp_all
  ultimately have "labelish (take 40 s @ ''-'' @ take 8 uuid)"
    using hd(2) u l by (simp add: labelish_def list_all_iff)
  moreover have "length (take 40 s @ ''-'' @ take 8 uuid) \<le> max_label" by (simp add: max_label_def)
  ultimately show ?thesis unfolding name validate_label_iff by simp
qed

text \<open>The audit line of an edit tells the names of the variables and nothing of their values.\<close>

lemma summary_without_values:
  "map ev_name es = map ev_name es' \<Longrightarrow>
    update_overrides_summary (inp\<lparr>uo_env := Some es\<rparr>) = update_overrides_summary (inp\<lparr>uo_env := Some es'\<rparr>)"
  by (simp add: update_overrides_summary_def)

end
