(* ===== verification/Sweepers.thy ===== *)
theory Sweepers
  imports Lifecycle
begin

text \<open>
  The loops that tidy up behind the users, \<open>service/idle_sweeper.go\<close> and \<open>session_sweeper.go\<close>, and the two services
  that reach past the custom resource: the resize of a running desktop (\<open>workspace_resize.go\<close>) and the retained
  volumes (\<open>volume_service.go\<close>). A sweep is one pass; its ticker is not modelled.
\<close>

section \<open>Idle workspaces\<close>

text \<open>The reads of one pass, each of which may fail, and per workspace the answer to its write.\<close>

record idle_env =
  ie_policies :: "workspace_policy list option"
  ie_listed :: "fleet option"
  ie_activity :: "session list option"
  ie_now :: int
  ie_others :: "string \<Rightarrow> fleet \<Rightarrow> fleet"
  ie_write :: "string \<Rightarrow> write_call"

definition idle_suspend_after :: "workspace_policy \<Rightarrow> int option" where
  "idle_suspend_after pol = (case po_lifecycle pol of None \<Rightarrow> None | Some l \<Rightarrow> lc_idle_suspend_after l)"

text \<open>The start of the idle clock: the last activity of its sessions, or the creation.\<close>

definition idle_since :: "session list \<Rightarrow> workspace \<Rightarrow> int" where
  "idle_since rows ws =
     (case session_activity rows (md_uid (ws_meta ws)) of
        None \<Rightarrow> md_created (ws_meta ws)
      | Some a \<Rightarrow> if md_created (ws_meta ws) < wa_last a then wa_last a else md_created (ws_meta ws))"

definition idle_due :: "workspace_policy list \<Rightarrow> session list \<Rightarrow> int \<Rightarrow> workspace \<Rightarrow> workspace_policy option" where
  "idle_due policies rows now ws =
     (if sp_paused (ws_spec ws) \<or> md_deleted (ws_meta ws) then None
      else case resolve_policy policies (identity_of ws) of
        Inl _ \<Rightarrow> None
      | Inr (pol, _) \<Rightarrow> (case idle_suspend_after pol of
          None \<Rightarrow> None
        | Some after \<Rightarrow>
            if after \<le> 0 then None
            else if (case session_activity rows (md_uid (ws_meta ws)) of None \<Rightarrow> False | Some a \<Rightarrow> wa_active_now a) then None
            else if now - idle_since rows ws < after then None
            else Some pol))"

definition pause_item :: "fleet_item \<Rightarrow> workspace_object" where
  "pause_item i = with_spec (\<lambda>s. s\<lparr>sp_paused := True\<rparr>) (fi_object i)"

fun idle_loop :: "idle_env \<Rightarrow> workspace_policy list \<Rightarrow> session list \<Rightarrow> fleet_item list \<Rightarrow> fleet \<Rightarrow> fleet \<times> audit_entry list" where
  "idle_loop env policies rows [] fl = (fl, [])"
| "idle_loop env policies rows (i # is) fl =
     (let ws = wo_workspace (fi_object i) in
      case idle_due policies rows (ie_now env) ws of
        None \<Rightarrow> idle_loop env policies rows is fl
      | Some pol \<Rightarrow>
         (case fleet_update (ie_write env (md_name (ws_meta ws))) i (pause_item i) (ie_others env (md_name (ws_meta ws)) fl) of
            (Written, fl') \<Rightarrow>
              (case idle_loop env policies rows is fl' of (fl'', au) \<Rightarrow>
                 (fl'', record_audit (named_actor ''idle-sweeper'' []) ''workspace.auto_paused'' ''workspace'' (md_uid (ws_meta ws))
                    [md_name (ws_meta ws), wp_meta_name pol] # au))
          | (_, fl') \<Rightarrow> idle_loop env policies rows is fl'))"

definition idle_sweep :: "idle_env \<Rightarrow> fleet \<Rightarrow> (api_error + unit) \<times> fleet \<times> audit_entry list" where
  "idle_sweep env fl =
     (case ie_policies env of
        None \<Rightarrow> (Inl (Unexpected [''listing policies'']), fl, [])
      | Some [] \<Rightarrow> (Inr (), fl, [])
      | Some policies \<Rightarrow> (case ie_listed env of
          None \<Rightarrow> (Inl (Unexpected [''listing workspaces'']), fl, [])
        | Some listed \<Rightarrow> (case ie_activity env of
            None \<Rightarrow> (Inl (Unexpected [''aggregating session activity'']), fl, [])
          | Some rows \<Rightarrow> (case idle_loop env policies rows (fl_items listed) fl of (fl', au) \<Rightarrow> (Inr (), fl', au)))))"

section \<open>Orphaned sessions\<close>

record session_env =
  se_listed :: "fleet option"
  se_remotes :: "(string \<Rightarrow> remote_workspace fetched) option"
  se_end_ok :: "string \<Rightarrow> bool"
  se_now :: int

text \<open>Whether the target of a session is gone, when that can be told.\<close>

definition orphaned :: "session_env \<Rightarrow> fleet \<Rightarrow> session \<Rightarrow> api_error + bool" where
  "orphaned env listed s =
     (if sn_kind s = session_kind_remote then
        (case se_remotes env of
           None \<Rightarrow> Inr False
         | Some reg \<Rightarrow> (case reg (sn_workspace_id s) of
             Missing \<Rightarrow> Inr True
           | Found _ \<Rightarrow> Inr False
           | Failed \<Rightarrow> Inl (Unexpected [''resolving remote workspace'', sn_workspace_id s])))
      else Inr (\<not> list_ex (\<lambda>i. md_uid (item_meta i) = sn_workspace_id s) (fl_items listed)))"

fun orphan_loop :: "session_env \<Rightarrow> fleet \<Rightarrow> session list \<Rightarrow> session list \<Rightarrow> (api_error + unit) \<times> session list \<times> audit_entry list" where
  "orphan_loop env listed [] rows = (Inr (), rows, [])"
| "orphan_loop env listed (s # ss) rows =
     (case orphaned env listed s of
        Inl e \<Rightarrow> (Inl e, rows, [])
      | Inr False \<Rightarrow> orphan_loop env listed ss rows
      | Inr True \<Rightarrow>
          if \<not> se_end_ok env (sn_id s) then (Inl (Unexpected [''ending orphaned session'', sn_id s]), rows, [])
          else (case orphan_loop env listed ss (session_end (sn_id s) (se_now env) rows) of (r, rows', au) \<Rightarrow>
            (r, rows', record_audit (named_actor ''session-sweeper'' []) ''session.orphan_ended'' ''session'' (sn_id s)
               [sn_workspace_name s, sn_kind s] # au)))"

definition session_sweep :: "session_env \<Rightarrow> bool \<Rightarrow> session list \<Rightarrow> (api_error + unit) \<times> session list \<times> audit_entry list" where
  "session_sweep env ok rows =
     (if \<not> ok then (Inl (Unexpected [''listing open sessions'']), rows, [])
      else if list_open rows = [] then (Inr (), rows, [])
      else case se_listed env of
        None \<Rightarrow> (Inl (Unexpected [''listing workspaces'']), rows, [])
      | Some listed \<Rightarrow> orphan_loop env listed (list_open rows) rows)"

section \<open>Resize\<close>

record pod_view =
  pd_namespace :: string
  pd_name :: string
  pd_workspace :: string
  pd_phase :: string
  pd_deleted :: bool
  pd_containers :: "string list"

definition min_resize_dimension :: int where "min_resize_dimension = 100"
definition max_resize_dimension :: int where "max_resize_dimension = 7680"

definition workspace_pod :: "pod_view list option \<Rightarrow> workspace \<Rightarrow> api_error + pod_view" where
  "workspace_pod pods ws =
     (case pods of
        None \<Rightarrow> Inl (Unexpected [''listing pods of workspace'', md_name (ws_meta ws)])
      | Some ps \<Rightarrow>
         (case find (\<lambda>p. pd_phase p = ''Running'' \<and> \<not> pd_deleted p \<and> pd_containers p \<noteq> [])
             (filter (\<lambda>p. pd_namespace p = effective_target_namespace ws \<and> pd_workspace p = md_name (ws_meta ws)) ps) of
            None \<Rightarrow> Inl (Conflict [''no running pod found for this workspace'']) | Some p \<Rightarrow> Inr p))"

text \<open>A command is the pod, its container and the arguments; the executor, where there is one, may fail.\<close>

type_synonym pod_command = "string \<times> string \<times> string \<times> string list"

definition resize_command :: "pod_view \<Rightarrow> int \<Rightarrow> int \<Rightarrow> pod_command" where
  "resize_command p w h = (pd_namespace p, pd_name p, hd (pd_containers p), [''waas-resize'', itoa w @ ''x'' @ itoa h])"

definition resize ::
  "portal \<Rightarrow> pod_view list option \<Rightarrow> (pod_command \<Rightarrow> bool) option \<Rightarrow> actor \<Rightarrow> string \<Rightarrow> int \<Rightarrow> int
     \<Rightarrow> (api_error + unit) \<times> pod_command list \<times> audit_entry list" where
  "resize env pods exec act uid w h =
     (if w < min_resize_dimension \<or> max_resize_dimension < w \<or> h < min_resize_dimension \<or> max_resize_dimension < h
      then (Inl (BadRequest [''width and height out of range'']), [], [])
      else case fetch_by_id (px_fleet env) act uid of
        Inl e \<Rightarrow>
          (if status_of e = 404 then
             (case px_remotes env of
                None \<Rightarrow> (Inl e, [], [])
              | Some reg \<Rightarrow> (case reg uid of
                  Found rw \<Rightarrow> if rw_owner_id rw = ac_id act
                    then (Inl (BadRequest [''remote workspaces cannot be resized'']), [], []) else (Inl e, [], [])
                | _ \<Rightarrow> (Inl e, [], [])))
           else (Inl e, [], []))
      | Inr i \<Rightarrow>
         if st_phase (wo_status (fi_object i)) \<noteq> ''Running''
         then (Inl (Conflict [''workspace is not Running'', st_phase (wo_status (fi_object i))]), [], [])
         else case exec of
           None \<Rightarrow> (Inl (Unavailable [''resize is not available on this deployment'']), [], [])
         | Some run \<Rightarrow> (case workspace_pod pods (wo_workspace (fi_object i)) of
             Inl e \<Rightarrow> (Inl e, [], [])
           | Inr p \<Rightarrow>
              (let c = resize_command p w h in
               if \<not> run c then (Inl (Unavailable [''resize failed'']), [c], [])
               else (Inr (), [c], [record_audit act ''workspace.resized'' ''workspace'' uid [md_name (item_meta i), itoa w, itoa h]]))))"

section \<open>Retained volumes\<close>

record retained_view =
  rv_name :: string
  rv_namespace :: string
  rv_size :: "quantity option"
  rv_owner_id :: string
  rv_owner_username :: string
  rv_origin :: string
  rv_retained_at :: "int option"

definition retained_volume_to_model :: "(string \<Rightarrow> int option) \<Rightarrow> volume_claim \<Rightarrow> retained_view" where
  "retained_volume_to_model parse_time pvc =
     (let m = vc_meta pvc in
      \<lparr>rv_name = md_name m, rv_namespace = md_namespace m, rv_size = vc_storage pvc, rv_owner_id = label_of m label_owner,
       rv_owner_username = [], rv_origin = str_at (md_annotations m) annotation_origin_workspace,
       rv_retained_at = parse_time (str_at (md_annotations m) annotation_retained_at)\<rparr>)"

definition list_retained_volumes ::
  "portal \<Rightarrow> (string \<Rightarrow> int option) \<Rightarrow> volume_claim list option \<Rightarrow> actor \<Rightarrow> bool \<Rightarrow> api_error + retained_view list" where
  "list_retained_volumes env parse_time pvcs act everyone =
     (case pvcs of
        None \<Rightarrow> Inl (Unexpected [''listing retained volumes''])
      | Some cs \<Rightarrow>
          Inr (map (\<lambda>c. let v = retained_volume_to_model parse_time c in
                      if everyone then v\<lparr>rv_owner_username := (case px_users env (rv_owner_id v) of Found u \<Rightarrow> us_username u | _ \<Rightarrow> [])\<rparr> else v)
               (filter (\<lambda>c. md_labels (vc_meta c) label_retained = Some ''true'' \<and>
                  (everyone \<or> md_labels (vc_meta c) label_owner = Some (ac_id act)) \<and> \<not> md_deleted (vc_meta c)) cs)))"

definition delete_retained_volume ::
  "volume_api \<Rightarrow> actor \<Rightarrow> string \<Rightarrow> string \<Rightarrow> bool \<Rightarrow> claims \<Rightarrow> (api_error + unit) \<times> claims \<times> audit_entry list" where
  "delete_retained_volume api act ns name as_admin st =
     (case get_claim api st (ns, name) of
        Missing \<Rightarrow> (Inl (NotFound [''volume not found'']), st, [])
      | Failed \<Rightarrow> (Inl (Unexpected [''fetching volume'', ns, name]), st, [])
      | Found pvc \<Rightarrow>
         (let m = vc_meta pvc in
          if label_of m label_managed_by \<noteq> manager_name \<or> label_of m label_retained \<noteq> ''true'' then (Inl (NotFound [''volume not found'']), st, [])
          else if \<not> as_admin \<and> label_of m label_owner \<noteq> ac_id act then (Inl (NotFound [''volume not found'']), st, [])
          else case delete_claim api st (ns, name) of
            (False, st') \<Rightarrow> (Inl (Unexpected [''deleting volume'', ns, name]), st', [])
          | (True, st') \<Rightarrow> (Inr (), st', [record_audit act ''volume.deleted'' ''volume'' name [ns, label_of m label_owner]])))"

section \<open>What an idle sweep pauses\<close>

lemma idle_due_facts:
  assumes "idle_due policies rows now ws = Some pol"
  shows "\<not> sp_paused (ws_spec ws) \<and> \<not> md_deleted (ws_meta ws) \<and> (\<exists>tie. resolve_policy policies (identity_of ws) = Inr (pol, tie)) \<and>
    (\<exists>after > 0. idle_suspend_after pol = Some after \<and> md_created (ws_meta ws) + after \<le> now \<and>
      (\<forall>s \<in> set rows. sn_workspace_id s = md_uid (ws_meta ws) \<longrightarrow> sn_ended_at s \<noteq> None \<and> last_seen s + after \<le> now))"
proof -
  obtain after tie where a: "\<not> sp_paused (ws_spec ws)" "\<not> md_deleted (ws_meta ws)" "resolve_policy policies (identity_of ws) = Inr (pol, tie)"
    "idle_suspend_after pol = Some after" "0 < after" "after \<le> now - idle_since rows ws"
    "\<not> (case session_activity rows (md_uid (ws_meta ws)) of None \<Rightarrow> False | Some a \<Rightarrow> wa_active_now a)"
    using assms unfolding idle_due_def by (auto split: if_splits sum.splits prod.splits option.splits)
  have c: "md_created (ws_meta ws) \<le> idle_since rows ws"
    by (simp add: idle_since_def split: option.split)
  have "sn_ended_at s \<noteq> None \<and> last_seen s \<le> idle_since rows ws" if s: "s \<in> set rows" "sn_workspace_id s = md_uid (ws_meta ws)" for s
  proof -
    let ?own = "{s \<in> set rows. sn_workspace_id s = md_uid (ws_meta ws)}"
    have w: "session_activity rows (md_uid (ws_meta ws)) =
        Some \<lparr>wa_last = Max (last_seen ` ?own), wa_active_now = (\<exists>s \<in> set rows. sn_workspace_id s = md_uid (ws_meta ws) \<and> sn_ended_at s = None)\<rparr>"
      unfolding session_activity_spec using s by auto
    have "last_seen s \<le> Max (last_seen ` ?own)" by (rule Max_ge) (use s in auto)
    also have "\<dots> \<le> idle_since rows ws" by (simp add: idle_since_def w)
    finally have "last_seen s \<le> idle_since rows ws" .
    moreover have "sn_ended_at s \<noteq> None" using a(7) s unfolding w by auto
    ultimately show ?thesis by blast
  qed
  with a c show ?thesis by fastforce
qed

text \<open>
  A workspace that may be suspended, as the listing and the recorded sessions have it: neither paused nor being
  deleted; the policy that governs its owner suspends idle ones; every session of it has ended, and the creation
  and all activity lie the policy's delay back.
\<close>

definition long_idle :: "workspace_policy list \<Rightarrow> session list \<Rightarrow> int \<Rightarrow> fleet_item \<Rightarrow> bool" where
  "long_idle policies rows now i \<longleftrightarrow> \<not> sp_paused (item_spec i) \<and> \<not> md_deleted (item_meta i) \<and>
     (\<exists>pol after. governs pol policies (identity_of (wo_workspace (fi_object i))) \<and> idle_suspend_after pol = Some after \<and> 0 < after \<and>
        md_created (item_meta i) + after \<le> now \<and>
        (\<forall>s \<in> set rows. sn_workspace_id s = md_uid (item_meta i) \<longrightarrow> sn_ended_at s \<noteq> None \<and> last_seen s + after \<le> now))"

text \<open>
  What may happen to the namespace during a sweep: a write of somebody else, or the suspension of a long idle workspace
  that nobody has written since it was listed, which changes its pause and nothing else.
\<close>

inductive sweeping :: "(string \<Rightarrow> fleet \<Rightarrow> fleet) \<Rightarrow> (fleet_item \<Rightarrow> bool) \<Rightarrow> fleet \<Rightarrow> fleet \<Rightarrow> bool" for others due where
  nothing: "sweeping others due fl fl"
| someone: "sweeping others due (others n fl) fl' \<Longrightarrow> sweeping others due fl fl'"
| suspended: "item_named fl (md_name (item_meta i)) = Some i \<Longrightarrow> due i \<Longrightarrow> paused = with_spec (\<lambda>s. s\<lparr>sp_paused := True\<rparr>) (fi_object i) \<Longrightarrow>
    sweeping others due (put_item i paused fl) fl' \<Longrightarrow> sweeping others due fl fl'"

lemma idle_due_long_idle:
  "idle_due policies rows now (wo_workspace (fi_object i)) = Some pol \<Longrightarrow> long_idle policies rows now i"
  using idle_due_facts [of policies rows now "wo_workspace (fi_object i)" pol] resolve_policy_governs
  unfolding long_idle_def item_spec_def item_meta_def by blast

lemma idle_loop_sweeps:
  assumes "fleet_ok fl0" "\<And>n g. fleet_ok g \<Longrightarrow> later g (ie_others env n g)"
    and "set is \<subseteq> set (fl_items fl0)" "later fl0 fl" "idle_loop env policies rows is fl = (fl', au)"
  shows "sweeping (ie_others env) (\<lambda>i. i \<in> set (fl_items fl0) \<and> long_idle policies rows (ie_now env) i) fl fl'"
  using assms(3-5)
proof (induction "is" arbitrary: fl fl' au)
  case Nil
  then show ?case by (simp add: sweeping.nothing)
next
  case (Cons i "is")
  let ?n = "md_name (ws_meta (wo_workspace (fi_object i)))"
  have i: "i \<in> set (fl_items fl0)" "set is \<subseteq> set (fl_items fl0)" using Cons.prems(1) by simp_all
  show ?case
  proof (cases "idle_due policies rows (ie_now env) (wo_workspace (fi_object i))")
    case None
    then have "idle_loop env policies rows is fl = (fl', au)" using Cons.prems(3) by (simp add: Let_def)
    then show ?thesis by (rule Cons.IH [OF i(2) Cons.prems(2)])
  next
    case (Some pol)
    let ?others = "ie_others env ?n fl"
    have l: "later fl0 ?others" using Cons.prems(2) assms(2) by (meson later_def later_trans)
    obtain r g where u: "fleet_update (ie_write env ?n) i (pause_item i) ?others = (r, g)" by fastforce
    obtain au' where rest: "idle_loop env policies rows is g = (fl', au')"
      using Cons.prems(3) Some u by (cases r) (auto simp: Let_def split: prod.splits)
    show ?thesis
    proof (cases "r = Written")
      case False
      then have g: "g = ?others" using fleet_update_rejected [OF u] by simp
      show ?thesis by (rule sweeping.someone [of _ _ ?n], rule Cons.IH [OF i(2) l]) (use rest g in simp)
    next
      case True
      have w: "item_named ?others (md_name (item_meta i)) = Some i" "g = put_item i (pause_item i) ?others"
        using fleet_update_written [of _ i "pause_item i" ?others g fl0] u True assms(1) l i(1) by simp_all
      have "later ?others g" unfolding w(2)
        by (rule later_put_item) (use l in \<open>simp_all add: later_def pause_item_def with_spec_def item_meta_def\<close>)
      with l have lg: "later fl0 g" by (rule later_trans)
      have due: "i \<in> set (fl_items fl0) \<and> long_idle policies rows (ie_now env) i" using i(1) idle_due_long_idle [OF Some] by blast
      have "sweeping (ie_others env) (\<lambda>i. i \<in> set (fl_items fl0) \<and> long_idle policies rows (ie_now env) i) (put_item i (pause_item i) ?others) fl'"
        using Cons.IH [OF i(2) lg rest] w(2) by simp
      from sweeping.someone [OF sweeping.suspended [OF w(1) due pause_item_def this]] show ?thesis .
    qed
  qed
qed

text \<open>C36: The idle sweeper suspends only what is idle. Whatever others write before each of its own writes, all that a sweep does to
  the namespace is to pause workspaces of its listing that nobody has written since they were listed, that were
  neither paused nor being deleted, whose owner's governing policy suspends idle ones, and that had no open
  session and no activity within the policy's delay, by the sessions recorded when the sweep read them; it changes
  nothing else of them. A session opened after that read is not seen: the sweep has no second look.
\<close>

theorem idle_sweep_spares_active:
  assumes "idle_sweep env fl = (r, fl', au)" "ie_policies env = Some policies" "ie_listed env = Some listed" "ie_activity env = Some rows"
    and "fleet_ok listed" "later listed fl" "\<And>n g. fleet_ok g \<Longrightarrow> later g (ie_others env n g)"
  shows "sweeping (ie_others env) (\<lambda>i. i \<in> set (fl_items listed) \<and> long_idle policies rows (ie_now env) i) fl fl'"
proof (cases policies)
  case Nil
  with assms(1,2) show ?thesis by (simp add: idle_sweep_def sweeping.nothing)
next
  case (Cons p ps)
  with assms(1-4) have loop: "idle_loop env policies rows (fl_items listed) fl = (fl', au)"
    by (auto simp: idle_sweep_def split: prod.splits)
  show ?thesis by (rule idle_loop_sweeps [OF assms(5) _ order.refl assms(6) loop]) (rule assms(7))
qed

text \<open>A sweep that cannot read what it needs touches nothing.\<close>

lemma idle_sweep_blind:
  "ie_policies env = None \<or> ie_listed env = None \<or> ie_activity env = None \<Longrightarrow> fst (snd (idle_sweep env fl)) = fl"
  by (auto simp: idle_sweep_def split: option.splits list.splits prod.splits)

text \<open>On a workspace with a schedule the sweeper's pause does nothing. It stamps no manual action, so unless a newer manual
  edge exists the schedule decides alone, and while the schedule says up the next pass of the operator keeps
  the desktop running, paused as the object is.
\<close>

lemma idle_pause_ignored_by_schedule:
  assumes "fi_object j = pause_item i" "manual_state_at (rv_parse_time env) (wo_workspace (fi_object i)) = None"
    and "scheduled_down (rv_cron env) (effective_schedule (wo_workspace (fi_object i)) s) (rv_now env) = Some False"
  shows "sp_paused (item_spec j) \<and> \<not> dec_down (schedule_decision env (wo_workspace (fi_object j)) s)"
proof -
  let ?ws = "wo_workspace (fi_object i)" and ?ws' = "wo_workspace (fi_object j)"
  have s: "sp_paused (item_spec j)" "ws_spec ?ws' = (ws_spec ?ws)\<lparr>sp_paused := True\<rparr>" "ws_meta ?ws' = ws_meta ?ws"
    by (simp_all add: assms(1) pause_item_def with_spec_def item_spec_def)
  have "effective_schedule ?ws' s = effective_schedule ?ws s" by (simp add: effective_schedule_def s(2))
  moreover have "manual_state_at (rv_parse_time env) ?ws' = None"
    using assms(2) by (simp add: manual_state_at_def ws_annotation_def s(3))
  ultimately show ?thesis using s(1) assms(3) by (simp add: schedule_decision_def resolve_schedule_def Let_def)
qed

section \<open>What a session sweep closes\<close>

lemma orphan_loop_rows:
  assumes "orphan_loop env listed ss rows = (Inr (), rows', au)"
  shows "rows' = map (\<lambda>r. if \<exists>s \<in> set ss. sn_id s = sn_id r \<and> orphaned env listed s = Inr True then close_row (se_now env) r else r) rows"
  using assms
proof (induction ss arbitrary: rows rows' au)
  case (Cons s ss)
  have c: "close_row t (close_row t r) = close_row t r" "sn_id (close_row t r) = sn_id r" for t and r :: session
    by (simp_all add: close_row_def)
  show ?case
  proof (cases "orphaned env listed s")
    case (Inl e)
    with Cons.prems show ?thesis by simp
  next
    case (Inr b)
    show ?thesis
    proof (cases b)
      case False
      with Inr Cons show ?thesis by simp
    next
      case True
      obtain au' where rest: "orphan_loop env listed ss (session_end (sn_id s) (se_now env) rows) = (Inr (), rows', au')"
        using Cons.prems Inr True by (auto split: if_splits prod.splits)
      show ?thesis unfolding Cons.IH [OF rest] session_end_def using Inr True by (auto simp: c)
    qed
  qed
qed simp

lemma orphan_loop_spares:
  assumes "orphan_loop env listed ss rows = (r, rows', au)"
  shows "list_all2 (\<lambda>s s'. s' = s \<or> (\<exists>x \<in> set ss. sn_id x = sn_id s \<and> orphaned env listed x = Inr True) \<and> s' = close_row (se_now env) s) rows rows'"
  using assms
proof (induction ss arbitrary: rows rows' au)
  case Nil
  then show ?case by (simp add: list.rel_refl)
next
  case (Cons s ss)
  have refl: "list_all2 (\<lambda>s s'. s' = s \<or> Q s s') xs xs" for Q and xs :: "session list" by (simp add: list.rel_refl)
  show ?case
  proof (cases "orphaned env listed s = Inr True \<and> se_end_ok env (sn_id s)")
    case False
    with Cons.prems have "rows' = rows \<or> orphan_loop env listed ss rows = (r, rows', au)" by (auto split: sum.splits if_splits prod.splits bool.splits)
    then show ?thesis
    proof
      assume "rows' = rows"
      then show ?thesis by (simp add: refl)
    next
      assume "orphan_loop env listed ss rows = (r, rows', au)"
      from Cons.IH [OF this] show ?thesis by (rule list_all2_mono) auto
    qed
  next
    case True
    then obtain au' where "orphan_loop env listed ss (session_end (sn_id s) (se_now env) rows) = (r, rows', au')"
      using Cons.prems by (auto split: prod.splits)
    from Cons.IH [OF this] True show ?thesis
      by (auto simp: session_end_def list_all2_map1 close_row_def elim!: list_all2_mono split: if_splits)
  qed
qed

text \<open>What a session was opened on is gone: the machine has no row in the registry, or no workspace listed has the uid.\<close>

definition target_gone :: "session_env \<Rightarrow> fleet \<Rightarrow> session \<Rightarrow> bool" where
  "target_gone env listed s \<longleftrightarrow>
     (if sn_kind s = session_kind_remote then \<exists>reg. se_remotes env = Some reg \<and> reg (sn_workspace_id s) = Missing
      else \<forall>i \<in> set (fl_items listed). md_uid (item_meta i) \<noteq> sn_workspace_id s)"

lemma orphaned_iff: "orphaned env listed s = Inr True \<longleftrightarrow> target_gone env listed s"
  by (auto simp: orphaned_def target_gone_def list_ex_iff split: option.splits fetched.splits)

text \<open>C37: A session sweep closes exactly the orphans. However a pass ends, it changes no session but open ones on a workspace no
  listed object has the uid of, or on a machine the registry no longer has, and those by closing them at the time
  of the sweep; a pass that succeeds has closed all of them. The registry answers alike throughout the pass, and
  the sessions have no other writer in between.
\<close>

theorem session_sweep_exact:
  assumes "session_sweep env True rows = (r, rows', au)" "distinct (map sn_id rows)" "se_listed env = Some listed"
  shows "list_all2 (\<lambda>s s'. s' = s \<or> sn_ended_at s = None \<and> target_gone env listed s \<and> s' = s\<lparr>sn_ended_at := Some (se_now env)\<rparr>) rows rows' \<and>
    (r = Inr () \<longrightarrow>
      rows' = map (\<lambda>s. if sn_ended_at s = None \<and> target_gone env listed s then s\<lparr>sn_ended_at := Some (se_now env)\<rparr> else s) rows)"
proof -
  have open_only: "(\<exists>s \<in> set (list_open rows). sn_id s = sn_id x \<and> orphaned env listed s = Inr True) \<longleftrightarrow>
      sn_ended_at x = None \<and> target_gone env listed x" if x: "x \<in> set rows" for x
  proof -
    have "s = x" if "s \<in> set rows" "sn_id s = sn_id x" for s using that x assms(2) by (auto simp: distinct_map dest: inj_onD)
    then show ?thesis using x by (auto simp: list_open_set orphaned_iff)
  qed
  show ?thesis
  proof (cases "list_open rows = []")
    case True
    with assms(1) have "rows' = rows" by (simp add: session_sweep_def)
    moreover have "sn_ended_at s \<noteq> None" if "s \<in> set rows" for s using True that list_open_set [of rows] by auto
    ultimately show ?thesis by (auto simp: list.rel_refl intro: map_idI [symmetric])
  next
    case False
    with assms(1,3) have loop: "orphan_loop env listed (list_open rows) rows = (r, rows', au)" by (simp add: session_sweep_def)
    have "list_all2 (\<lambda>s s'. s' = s \<or> sn_ended_at s = None \<and> target_gone env listed s \<and> s' = s\<lparr>sn_ended_at := Some (se_now env)\<rparr>) rows rows'"
      using orphan_loop_spares [OF loop] open_only by (auto simp: list_all2_conv_all_nth close_row_def)
    moreover have "rows' = map (\<lambda>s. if sn_ended_at s = None \<and> target_gone env listed s then s\<lparr>sn_ended_at := Some (se_now env)\<rparr> else s) rows"
      if "r = Inr ()"
      using orphan_loop_rows [OF loop [unfolded that]] open_only by (auto simp: close_row_def)
    ultimately show ?thesis by blast
  qed
qed

section \<open>Resize and volumes\<close>

text \<open>A resize that runs anything runs one fixed command, in a running pod of a running workspace in the namespace it
  targets, and with dimensions inside the limits. The lookup behind it admits the owner only, where
  \<open>docs/session-resize.md\<close> and the comment on the handler say an administrator may resize too.
\<close>

lemma resize_bounded:
  assumes "resize env pods (Some run) act uid w h = (r, cs, au)" "cs \<noteq> []"
  shows "100 \<le> w \<and> w \<le> 7680 \<and> 100 \<le> h \<and> h \<le> 7680 \<and>
    (\<exists>i p ps. fetch_by_id (px_fleet env) act uid = Inr i \<and> sp_owner (item_spec i) = ac_id act \<and>
      st_phase (wo_status (fi_object i)) = ''Running'' \<and> pods = Some ps \<and> p \<in> set ps \<and> pd_phase p = ''Running'' \<and> \<not> pd_deleted p \<and>
      pd_namespace p = effective_target_namespace (wo_workspace (fi_object i)) \<and> pd_workspace p = md_name (item_meta i) \<and>
      cs = [(pd_namespace p, pd_name p, hd (pd_containers p), [''waas-resize'', itoa w @ ''x'' @ itoa h])])"
proof -
  have b: "min_resize_dimension \<le> w" "w \<le> max_resize_dimension" "min_resize_dimension \<le> h" "h \<le> max_resize_dimension"
    using assms unfolding resize_def by (auto split: if_splits)
  obtain i where i: "fetch_by_id (px_fleet env) act uid = Inr i"
    using assms b unfolding resize_def by (cases "fetch_by_id (px_fleet env) act uid") (auto split: if_splits option.splits fetched.splits)
  have ph: "st_phase (wo_status (fi_object i)) = ''Running''"
    using assms b i unfolding resize_def by (auto split: if_splits)
  obtain p where p: "workspace_pod pods (wo_workspace (fi_object i)) = Inr p" "cs = [resize_command p w h]"
    using assms b i ph unfolding resize_def
    by (cases "workspace_pod pods (wo_workspace (fi_object i))") (auto simp: Let_def split: if_splits)
  obtain ps where ps: "pods = Some ps" "find (\<lambda>p. pd_phase p = ''Running'' \<and> \<not> pd_deleted p \<and> pd_containers p \<noteq> [])
      (filter (\<lambda>q. pd_namespace q = effective_target_namespace (wo_workspace (fi_object i)) \<and>
         pd_workspace q = md_name (ws_meta (wo_workspace (fi_object i)))) ps) = Some p"
    using p(1) by (auto simp: workspace_pod_def split: option.splits)
  from find_SomeD [OF ps(2)] b i ph p(2) ps(1) fetch_by_id_ok(3) [OF i] show ?thesis
    unfolding min_resize_dimension_def max_resize_dimension_def resize_command_def item_meta_def by auto
qed

text \<open>The volume service deletes nothing but retained volumes. If a request changes any claim of the cluster, it is the one
  the request names, which carried the platform's mark and the mark of a retained volume, and belonged to the
  caller unless the request came by the administrators' route; and all that happens to it is that its deletion
  begins.
\<close>

lemma only_retained_deleted:
  assumes "delete_retained_volume api act ns name as_admin st = (r, st', au)" "st' k \<noteq> st k"
  shows "k = (ns, name) \<and> (\<exists>pvc. st k = Some pvc \<and> label_of (vc_meta pvc) label_managed_by = manager_name \<and>
    label_of (vc_meta pvc) label_retained = ''true'' \<and> (as_admin \<or> label_of (vc_meta pvc) label_owner = ac_id act) \<and>
    st' k = Some (mark_deleted pvc))"
proof -
  obtain pvc where g: "get_claim api st (ns, name) = Found pvc"
    using assms by (cases "get_claim api st (ns, name)") (auto simp: delete_retained_volume_def)
  then have at_key: "st (ns, name) = Some pvc" by (auto simp: get_claim_def split: if_splits option.splits)
  have l: "label_of (vc_meta pvc) label_managed_by = manager_name" "label_of (vc_meta pvc) label_retained = ''true''"
    "as_admin \<or> label_of (vc_meta pvc) label_owner = ac_id act"
    using assms g by (auto simp: delete_retained_volume_def Let_def split: if_splits)
  have "st' = snd (delete_claim api st (ns, name))"
    using assms(1) g l by (auto simp: delete_retained_volume_def Let_def split: if_splits prod.splits bool.splits)
  with assms(2) delete_claim_at [of api st "(ns, name)" k] at_key l show ?thesis by auto
qed

section \<open>Concrete sweeps\<close>

definition idle_policy :: workspace_policy where
  "idle_policy = (demo_policy ''p'' 0 [])\<lparr>po_lifecycle := Some \<lparr>lc_idle_suspend_after = Some 10, lc_max_lifetime = None\<rparr>\<rparr>"

definition desk_idle :: idle_env where
  "desk_idle = \<lparr>ie_policies = Some [idle_policy], ie_listed = Some desk_fleet, ie_activity = Some [desk_session\<lparr>sn_ended_at := Some 50\<rparr>],
     ie_now = 100, ie_others = (\<lambda>_ g. g), ie_write = (\<lambda>_. \<lparr>wc_reaches = True, wc_admission = (\<lambda>_ _. None)\<rparr>)\<rparr>"

lemma desk_swept: "list_ex (\<lambda>j. sp_paused (item_spec j)) (fl_items (fst (snd (idle_sweep desk_idle desk_fleet))))"
  by code_simp

theorem idle_sweep_spares_active_witness:
  "let fl' = fst (snd (idle_sweep desk_idle desk_fleet)) in
   sweeping (ie_others desk_idle)
     (\<lambda>i. i \<in> set (fl_items desk_fleet) \<and> long_idle [idle_policy] [desk_session\<lparr>sn_ended_at := Some 50\<rparr>] (ie_now desk_idle) i)
     desk_fleet fl' \<and> list_ex (\<lambda>j. sp_paused (item_spec j)) (fl_items fl')"
proof -
  obtain r fl' au where s: "idle_sweep desk_idle desk_fleet = (r, fl', au)" using prod_cases3 by blast
  have h: "ie_policies desk_idle = Some [idle_policy]" "ie_listed desk_idle = Some desk_fleet"
    "ie_activity desk_idle = Some [desk_session\<lparr>sn_ended_at := Some 50\<rparr>]" "\<And>n g. ie_others desk_idle n g = g"
    by (simp_all add: desk_idle_def)
  have "fleet_ok g \<Longrightarrow> later g (ie_others desk_idle n g)" for n g using h(4) later_refl by simp
  from idle_sweep_spares_active [OF s h(1-3) desk_fleet_ok later_refl [OF desk_fleet_ok] this] desk_swept show ?thesis
    unfolding Let_def s by simp
qed

text \<open>The workspace of one open session is gone, that of the other is listed; a third is closed already.\<close>

definition desk_orphans :: session_env where
  "desk_orphans = \<lparr>se_listed = Some desk_fleet, se_remotes = None, se_end_ok = (\<lambda>_. True), se_now = 9\<rparr>"

definition open_sessions :: "session list" where
  "open_sessions = [desk_session\<lparr>sn_id := ''s0'', sn_workspace_id := ''uid-gone''\<rparr>, desk_session,
     desk_session\<lparr>sn_id := ''s9'', sn_workspace_id := ''uid-gone'', sn_ended_at := Some 5\<rparr>]"

theorem session_sweep_exact_witness:
  "\<exists>au. session_sweep desk_orphans True open_sessions =
    (Inr (), [(hd open_sessions)\<lparr>sn_ended_at := Some 9\<rparr>, desk_session, open_sessions ! 2], au)"
proof -
  have "case fst (session_sweep desk_orphans True open_sessions) of Inl _ \<Rightarrow> False | Inr _ \<Rightarrow> True" by code_simp
  then obtain rows' au where s: "session_sweep desk_orphans True open_sessions = (Inr (), rows', au)"
    by (cases "session_sweep desk_orphans True open_sessions") (auto split: sum.splits)
  have "distinct (map sn_id open_sessions)" "se_listed desk_orphans = Some desk_fleet"
    by (simp_all add: open_sessions_def desk_session_def desk_orphans_def)
  note exact = session_sweep_exact [OF s this, THEN conjunct2, rule_format, OF refl]
  have "rows' = [(hd open_sessions)\<lparr>sn_ended_at := Some 9\<rparr>, desk_session, open_sessions ! 2]"
    unfolding exact by (simp add: open_sessions_def target_gone_def desk_orphans_def desk_fleet_def desk_session_def session_kind_remote_def)
  with s show ?thesis by blast
qed

definition desk_pod :: pod_view where
  "desk_pod = \<lparr>pd_namespace = effective_target_namespace demo_workspace, pd_name = ''pod'', pd_workspace = ''w1'', pd_phase = ''Running'',
     pd_deleted = False, pd_containers = [''desktop'']\<rparr>"

theorem resize_bounded_witness:
  "\<exists>r cs au. resize desk_portal (Some [desk_pod]) (Some (\<lambda>_. True)) desk_actor ''uid-w1'' 1920 1080 = (r, cs, au) \<and>
    cs = [(pd_namespace desk_pod, ''pod'', ''desktop'', [''waas-resize'', itoa 1920 @ ''x'' @ itoa 1080])]"
proof -
  obtain r cs au where s: "resize desk_portal (Some [desk_pod]) (Some (\<lambda>_. True)) desk_actor ''uid-w1'' 1920 1080 = (r, cs, au)"
    using prod_cases3 by blast
  have "fst (snd (resize desk_portal (Some [desk_pod]) (Some (\<lambda>_. True)) desk_actor ''uid-w1'' 1920 1080)) \<noteq> []" by code_simp
  with resize_bounded [OF s] s show ?thesis by (auto simp: desk_pod_def)
qed

definition kept_claim :: volume_claim where
  "kept_claim = \<lparr>vc_meta = \<lparr>md_name = ''v'', md_namespace = ''ns'', md_uid = [],
     md_labels = [label_managed_by \<mapsto> manager_name, label_retained \<mapsto> ''true'', label_owner \<mapsto> ''u1''],
     md_annotations = Map.empty, md_deleted = False, md_created = 0\<rparr>, vc_storage = None, vc_storage_class = None\<rparr>"

theorem only_retained_deleted_witness:
  "\<exists>r st' au. delete_retained_volume \<lparr>api_get = True, api_update = ApiOk, api_delete = ApiOk, api_create = ApiOk\<rparr> desk_actor ''ns'' ''v'' False
      [(''ns'', ''v'') \<mapsto> kept_claim] = (r, st', au) \<and> st' (''ns'', ''v'') = Some (mark_deleted kept_claim)"
proof -
  let ?api = "\<lparr>api_get = True, api_update = ApiOk, api_delete = ApiOk, api_create = ApiOk\<rparr>" and ?st = "[(''ns'', ''v'') \<mapsto> kept_claim]"
  obtain r st' au where s: "delete_retained_volume ?api desk_actor ''ns'' ''v'' False ?st = (r, st', au)" using prod_cases3 by blast
  have l: "label_of (vc_meta kept_claim) label_managed_by = manager_name" "label_of (vc_meta kept_claim) label_retained = ''true''"
    "label_of (vc_meta kept_claim) label_owner = ac_id desk_actor" "\<not> md_deleted (vc_meta kept_claim)"
    by (simp_all add: kept_claim_def label_of_def label_managed_by_def label_retained_def label_owner_def str_at_def)
  have "st' = ?st((''ns'', ''v'') := Some (mark_deleted kept_claim))"
    using s l by (auto simp: delete_retained_volume_def get_claim_def delete_claim_def Let_def)
  moreover have "mark_deleted kept_claim \<noteq> kept_claim" using l(4) mark_deleted_facts(2) by metis
  ultimately have "st' (''ns'', ''v'') \<noteq> ?st (''ns'', ''v'')" by simp
  from only_retained_deleted [OF s this] s show ?thesis by auto
qed

theorem idle_pause_ignored_by_schedule_witness:
  "\<not> dec_down (schedule_decision ((demo_pass_env once_lib answering)\<lparr>rv_now := 200\<rparr>)
     (wo_workspace (pause_item desk_item)) (demo_desktop (Some once_schedule)))"
proof -
  let ?env = "(demo_pass_env once_lib answering)\<lparr>rv_now := 200\<rparr>"
  have "effective_schedule (wo_workspace (fi_object desk_item)) (demo_desktop (Some once_schedule)) = schedule_spec_of once_schedule"
    by (simp add: effective_schedule_def demo_desktop_def) (simp add: demo_workspace_def empty_overrides_def)
  moreover have "scheduled_down once_lib (schedule_spec_of once_schedule) 200 = Some False"
  proof -
    let ?u = "\<lambda>t :: int. if t < 100 then Some (100 :: int) else None"
    have p: "location once_lib (schedule_spec_of once_schedule) = Inr ()" "parse_all once_lib () (uptime (schedule_spec_of once_schedule)) = [?u]"
      "parse_all once_lib () (downtime (schedule_spec_of once_schedule)) = []"
      by (simp_all add: location_def once_lib_def once_schedule_def schedule_spec_of_def)
    have "cron_laws (\<lambda>f. f = 100) ?u" by (auto simp: cron_laws_def)
    moreover have "latest (\<lambda>f. f = 100) 200 (Some 100)" by (simp add: latest_def scan_horizon_def)
    ultimately have "last_of [?u] 200 = Some 100" using latest_unique last_of_single by blast
    then show ?thesis using parsed_not_zero [of once_lib "()" "schedule_spec_of once_schedule"] p
      by (simp add: scheduled_down_decide decide_def last_of_def)
  qed
  ultimately have s: "scheduled_down (rv_cron ?env) (effective_schedule (wo_workspace (fi_object desk_item)) (demo_desktop (Some once_schedule))) (rv_now ?env) = Some False"
    by (simp add: demo_pass_env_def)
  have m: "manual_state_at (rv_parse_time ?env) (wo_workspace (fi_object desk_item)) = None"
    by (simp add: manual_state_at_def demo_pass_env_def)
  show ?thesis
    using idle_pause_ignored_by_schedule [of "\<lparr>fi_version = 2, fi_object = pause_item desk_item\<rparr>" desk_item ?env "demo_desktop (Some once_schedule)"] s m
    by simp
qed

end
