(* ===== verification/Net_Addr.thy ===== *)
theory Net_Addr
  imports Go_Text "HOL-Library.Word"
begin

unbundle bit_operations_syntax

text \<open>
  The part of Go's \<open>net\<close> package the code filters addresses with: \<open>net.ParseIP\<close> and \<open>net.ParseCIDR\<close> (both read
  an address with \<open>netip.ParseAddr\<close>), masks, containment and the classes of addresses. An address is its list
  of bytes, four or sixteen; what a parser returns has sixteen, an IPv4 address in its mapped form.
\<close>

type_synonym ip = "8 word list"

section \<open>Reading addresses\<close>

text \<open>The fields of a dotted quad: those read, the one being read and its digits so far.\<close>

fun ipv4_loop :: "nat list \<Rightarrow> nat \<Rightarrow> nat \<Rightarrow> string \<Rightarrow> nat list option" where
  "ipv4_loop fs v n [] = (if length fs < 3 then None else Some (fs @ [v]))"
| "ipv4_loop fs v n (c # s) =
     (if is_digit c then
        if n = 1 \<and> v = 0 then None
        else if 255 < v * 10 + digit_value c then None
        else ipv4_loop fs (v * 10 + digit_value c) (Suc n) s
      else if c = CHR ''.'' then
        if n = 0 \<or> s = [] then None
        else if length fs = 3 then None
        else ipv4_loop (fs @ [v]) 0 0 s
      else None)"

definition is_hex :: "char \<Rightarrow> bool" where
  "is_hex c \<longleftrightarrow> is_digit c \<or> 97 \<le> byte c \<and> byte c \<le> 102 \<or> 65 \<le> byte c \<and> byte c \<le> 70"

definition hex_digit :: "char \<Rightarrow> nat" where
  "hex_digit c = (if is_digit c then digit_value c else if 97 \<le> byte c then byte c - 87 else byte c - 55)"

definition hex_value :: "string \<Rightarrow> int" where
  "hex_value s = foldl (\<lambda>n c. n * 16 + int (hex_digit c)) 0 s"

text \<open>The groups of an IPv6 address: how many may follow, the bytes read, where the \<open>::\<close> was.\<close>

fun ipv6_groups :: "nat \<Rightarrow> nat list \<Rightarrow> nat option \<Rightarrow> string \<Rightarrow> (nat list \<times> nat option \<times> string) option" where
  "ipv6_groups 0 bs el s = Some (bs, el, s)"
| "ipv6_groups (Suc n) bs el s =
     (let h = takeWhile is_hex s; r = dropWhile is_hex s; bs' = bs @ [nat (hex_value h div 256), nat (hex_value h mod 256)] in
      if h = [] \<or> 4 < length h then None
      else case r of
        [] \<Rightarrow> Some (bs', el, [])
      | c # t \<Rightarrow>
          if c = CHR ''.'' then
            if el = None \<and> length bs \<noteq> 12 \<or> 16 < length bs + 4 then None
            else (case ipv4_loop [] 0 0 s of None \<Rightarrow> None | Some f \<Rightarrow> Some (bs @ f, el, []))
          else if c \<noteq> CHR '':'' \<or> t = [] then None
          else if hd t = CHR '':'' then
            if el \<noteq> None then None
            else if tl t = [] then Some (bs', Some (length bs'), [])
            else ipv6_groups n bs' (Some (length bs')) (tl t)
          else ipv6_groups n bs' el t)"

definition ipv6_finish :: "nat list \<times> nat option \<times> string \<Rightarrow> nat list option" where
  "ipv6_finish = (\<lambda>(bs, el, rest).
     if rest \<noteq> [] then None
     else if length bs < 16 then
       (case el of None \<Rightarrow> None | Some e \<Rightarrow> Some (take e bs @ replicate (16 - length bs) 0 @ drop e bs))
     else if el \<noteq> None then None else Some bs)"

definition parse_ipv6 :: "string \<Rightarrow> nat list option" where
  "parse_ipv6 s =
     (if has_prefix s ''::'' then
        (if drop 2 s = [] then Some (replicate 16 0) else Option.bind (ipv6_groups 8 [] (Some 0) (drop 2 s)) ipv6_finish)
      else Option.bind (ipv6_groups 8 [] None s) ipv6_finish)"

text \<open>Whether the address is IPv4, with its sixteen bytes; an address with a zone is refused by both callers.\<close>

definition parse_addr :: "string \<Rightarrow> (bool \<times> ip) option" where
  "parse_addr s =
     (if CHR ''%'' \<in> set s then None
      else case find (\<lambda>c. c = CHR ''.'' \<or> c = CHR '':'') s of
        None \<Rightarrow> None
      | Some c \<Rightarrow>
         if c = CHR ''.'' then map_option (\<lambda>f. (True, replicate 10 0 @ [255, 255] @ map word_of_nat f)) (ipv4_loop [] 0 0 s)
         else map_option (\<lambda>bs. (False, map word_of_nat bs)) (parse_ipv6 s))"

definition parse_ip :: "string \<Rightarrow> ip option" where
  "parse_ip s = map_option snd (parse_addr s)"

section \<open>Networks\<close>

record ip_net =
  in_ip :: ip
  in_mask :: ip

definition mask_byte :: "nat \<Rightarrow> 8 word" where
  "mask_byte k = (if 8 \<le> k then 255 else NOT (drop_bit k 255))"

definition cidr_mask :: "nat \<Rightarrow> nat \<Rightarrow> ip" where
  "cidr_mask n bits = map (\<lambda>j. mask_byte (n - 8 * j)) [0 ..< bits div 8]"

definition mapped_prefix :: ip where
  "mapped_prefix = replicate 10 0 @ [255, 255]"

definition to4 :: "ip \<Rightarrow> ip option" where
  "to4 a = (if length a = 4 then Some a
            else if length a = 16 \<and> take 12 a = mapped_prefix then Some (drop 12 a) else None)"

definition ip_mask :: "ip \<Rightarrow> ip \<Rightarrow> ip option" where
  "ip_mask a m =
     (let m' = (if length m = 16 \<and> length a = 4 \<and> take 12 m = replicate 12 255 then drop 12 m else m);
          a' = (if length m' = 4 \<and> length a = 16 \<and> take 12 a = mapped_prefix then drop 12 a else a) in
      if length a' \<noteq> length m' then None else Some (map2 (AND) a' m'))"

definition parse_cidr :: "string \<Rightarrow> (ip \<times> ip_net) option" where
  "parse_cidr s =
     (case cut_at CHR ''/'' s of (addr, bits_text, found) \<Rightarrow>
        if \<not> found then None
        else case parse_addr addr of
          None \<Rightarrow> None
        | Some (is4, a) \<Rightarrow>
            let bits = (if is4 then 32 else 128) in
            if bits_text = [] \<or> \<not> list_all is_digit bits_text \<or> bits < dec_value bits_text then None
            else case ip_mask a (cidr_mask (dec_value bits_text) bits) of
              None \<Rightarrow> None | Some n \<Rightarrow> Some (a, \<lparr>in_ip = n, in_mask = cidr_mask (dec_value bits_text) bits\<rparr>))"

text \<open>The bytes a network compares and the mask over them.\<close>

definition network_number_and_mask :: "ip_net \<Rightarrow> (ip \<times> ip) option" where
  "network_number_and_mask n =
     (case (case to4 (in_ip n) of Some a \<Rightarrow> Some a | None \<Rightarrow> if length (in_ip n) = 16 then Some (in_ip n) else None) of
        None \<Rightarrow> None
      | Some a \<Rightarrow>
          if length (in_mask n) = 4 then (if length a \<noteq> 4 then None else Some (a, in_mask n))
          else if length (in_mask n) = 16 then Some (a, if length a = 4 then drop 12 (in_mask n) else in_mask n)
          else None)"

definition net_contains :: "ip_net \<Rightarrow> ip \<Rightarrow> bool" where
  "net_contains n a =
     (let a' = (case to4 a of Some x \<Rightarrow> x | None \<Rightarrow> a) in
      case network_number_and_mask n of
        None \<Rightarrow> length a' = 0
      | Some (nn, m) \<Rightarrow> length a' = length nn \<and> list_all (\<lambda>i. nn ! i AND m ! i = a' ! i AND m ! i) [0 ..< length a'])"

section \<open>Classes of addresses\<close>

definition ip_equal :: "ip \<Rightarrow> ip \<Rightarrow> bool" where
  "ip_equal a b \<longleftrightarrow>
     (if length a = length b then a = b
      else if length a = 4 \<and> length b = 16 then take 12 b = mapped_prefix \<and> a = drop 12 b
      else if length a = 16 \<and> length b = 4 then take 12 a = mapped_prefix \<and> drop 12 a = b
      else False)"

definition ipv6_loopback :: ip where "ipv6_loopback = replicate 15 0 @ [1]"
definition ipv6_unspecified :: ip where "ipv6_unspecified = replicate 16 0"
definition ipv4_zero :: ip where "ipv4_zero = mapped_prefix @ [0, 0, 0, 0]"

definition is_loopback :: "ip \<Rightarrow> bool" where
  "is_loopback a = (case to4 a of Some b \<Rightarrow> b ! 0 = 127 | None \<Rightarrow> ip_equal a ipv6_loopback)"

definition is_unspecified :: "ip \<Rightarrow> bool" where
  "is_unspecified a \<longleftrightarrow> ip_equal a ipv4_zero \<or> ip_equal a ipv6_unspecified"

definition is_multicast :: "ip \<Rightarrow> bool" where
  "is_multicast a = (case to4 a of Some b \<Rightarrow> b ! 0 AND 0xF0 = 0xE0 | None \<Rightarrow> length a = 16 \<and> a ! 0 = 0xFF)"

definition is_interface_local_multicast :: "ip \<Rightarrow> bool" where
  "is_interface_local_multicast a \<longleftrightarrow> length a = 16 \<and> a ! 0 = 0xFF \<and> a ! 1 AND 0x0F = 0x01"

definition is_link_local_unicast :: "ip \<Rightarrow> bool" where
  "is_link_local_unicast a =
     (case to4 a of
        Some b \<Rightarrow> b ! 0 = 169 \<and> b ! 1 = 254
      | None \<Rightarrow> length a = 16 \<and> a ! 0 = 0xFE \<and> a ! 1 AND 0xC0 = 0x80)"

section \<open>Containment is agreement on the prefix\<close>

text \<open>The bits of an address, the first one first.\<close>

definition addr_bit :: "ip \<Rightarrow> nat \<Rightarrow> bool" where
  "addr_bit a i = bit (a ! (i div 8)) (7 - i mod 8)"

definition same_prefix :: "nat \<Rightarrow> ip \<Rightarrow> ip \<Rightarrow> bool" where
  "same_prefix n a b \<longleftrightarrow> list_all (\<lambda>i. addr_bit a i = addr_bit b i) [0 ..< n]"

lemma same_prefix_iff: "same_prefix n a b \<longleftrightarrow> (\<forall>i < n. addr_bit a i = addr_bit b i)"
  by (auto simp: same_prefix_def list_all_iff)

lemma bit_mask_byte: "bit (mask_byte k) j \<longleftrightarrow> j < 8 \<and> 8 - k \<le> j"
proof -
  have f: "(255 :: 8 word) = - 1" by simp
  show ?thesis unfolding mask_byte_def f by (auto simp: bit_simps)
qed

lemma masked_byte_eq:
  fixes x y :: "8 word"
  shows "x AND mask_byte k = y AND mask_byte k \<longleftrightarrow> (\<forall>i < 8. i < k \<longrightarrow> bit x (7 - i) = bit y (7 - i))"
proof
  assume e: "x AND mask_byte k = y AND mask_byte k"
  show "\<forall>i < 8. i < k \<longrightarrow> bit x (7 - i) = bit y (7 - i)"
  proof (intro allI impI)
    fix i :: nat
    assume "i < 8" "i < k"
    then show "bit x (7 - i) = bit y (7 - i)"
      using arg_cong [OF e, of "\<lambda>w. bit w (7 - i)"] by (auto simp: bit_and_iff bit_mask_byte)
  qed
next
  assume a: "\<forall>i < 8. i < k \<longrightarrow> bit x (7 - i) = bit y (7 - i)"
  show "x AND mask_byte k = y AND mask_byte k"
  proof (rule bit_word_eqI)
    fix j
    assume "j < LENGTH(8)"
    then have j: "j < 8" by simp
    have "8 - k \<le> j \<Longrightarrow> bit x j = bit y j"
      using a [rule_format, of "7 - j"] j by auto
    then show "bit (x AND mask_byte k) j = bit (y AND mask_byte k) j"
      by (auto simp: bit_and_iff bit_mask_byte)
  qed
qed

lemma cidr_mask_nth: "j < bits div 8 \<Longrightarrow> cidr_mask n bits ! j = mask_byte (n - 8 * j)"
  by (simp add: cidr_mask_def)

lemma length_cidr_mask [simp]: "length (cidr_mask n bits) = bits div 8"
  by (simp add: cidr_mask_def)

lemma masked_iff_same_prefix:
  assumes "n \<le> 8 * l"
  shows "(\<forall>j < l. a ! j AND cidr_mask n (8 * l) ! j = b ! j AND cidr_mask n (8 * l) ! j) \<longleftrightarrow> same_prefix n a b"
proof -
  have "(\<forall>j < l. a ! j AND cidr_mask n (8 * l) ! j = b ! j AND cidr_mask n (8 * l) ! j) \<longleftrightarrow>
    (\<forall>j < l. \<forall>i < 8. i < n - 8 * j \<longrightarrow> bit (a ! j) (7 - i) = bit (b ! j) (7 - i))"
    by (simp add: cidr_mask_nth masked_byte_eq)
  also have "\<dots> \<longleftrightarrow> same_prefix n a b" unfolding same_prefix_iff addr_bit_def
  proof (rule iffI)
    assume h: "\<forall>j < l. \<forall>i < 8. i < n - 8 * j \<longrightarrow> bit (a ! j) (7 - i) = bit (b ! j) (7 - i)"
    show "\<forall>i < n. bit (a ! (i div 8)) (7 - i mod 8) = bit (b ! (i div 8)) (7 - i mod 8)"
    proof (rule allI, rule impI)
      fix i
      assume i: "i < n"
      then have "i < l * 8" using assms by simp
      then have "i div 8 < l" by (rule less_mult_imp_div_less)
      moreover have "i mod 8 < n - 8 * (i div 8)" using i mult_div_mod_eq [of 8 i] by linarith
      ultimately show "bit (a ! (i div 8)) (7 - i mod 8) = bit (b ! (i div 8)) (7 - i mod 8)"
        using h [rule_format, of "i div 8" "i mod 8"] by simp
    qed
  next
    assume h: "\<forall>i < n. bit (a ! (i div 8)) (7 - i mod 8) = bit (b ! (i div 8)) (7 - i mod 8)"
    show "\<forall>j < l. \<forall>i < 8. i < n - 8 * j \<longrightarrow> bit (a ! j) (7 - i) = bit (b ! j) (7 - i)"
    proof (intro allI impI)
      fix j i :: nat
      assume "j < l" "i < 8" "i < n - 8 * j"
      then show "bit (a ! j) (7 - i) = bit (b ! j) (7 - i)"
        using h [rule_format, of "8 * j + i"] by simp
    qed
  qed
  finally show ?thesis .
qed

lemma ipv4_loop_length: "ipv4_loop fs v n s = Some r \<Longrightarrow> length fs \<le> 3 \<Longrightarrow> length r = 4"
  by (induction fs v n s rule: ipv4_loop.induct) (auto split: if_splits)

lemma parse_addr4:
  assumes "parse_addr s = Some (True, a)"
  shows "take 12 a = mapped_prefix" "length a = 16"
  using assms ipv4_loop_length by (auto simp: parse_addr_def mapped_prefix_def split: if_splits option.splits)

text \<open>
  A network written in dotted decimal contains an IPv4 address exactly when they agree on as many leading
  bits as the prefix says, and contains no other address.
\<close>

lemma quad_networkE:
  assumes "parse_cidr s = Some (x, n)" "cut_at CHR ''/'' s = (q, l, True)" "parse_addr q = Some (True, a)"
  shows "x = a" "n = \<lparr>in_ip = map2 (AND) (drop 12 a) (cidr_mask (dec_value l) 32), in_mask = cidr_mask (dec_value l) 32\<rparr>"
    "dec_value l \<le> 32"
proof -
  let ?m = "cidr_mask (dec_value l) 32"
  have m: "ip_mask a ?m = Some (map2 (AND) (drop 12 a) ?m)"
    using parse_addr4 [OF assms(3)] by (simp add: ip_mask_def)
  show "x = a" "n = \<lparr>in_ip = map2 (AND) (drop 12 a) ?m, in_mask = ?m\<rparr>" "dec_value l \<le> 32"
    using assms(1) by (auto simp: parse_cidr_def assms(2,3) m split: if_splits)
qed

lemma quad_network_contains:
  assumes "parse_cidr s = Some (x, n)" "cut_at CHR ''/'' s = (q, l, True)" "parse_addr q = Some (True, x)" "length b = 4"
  shows "net_contains n (mapped_prefix @ b) \<longleftrightarrow> same_prefix (dec_value l) (drop 12 x) b"
proof -
  let ?m = "cidr_mask (dec_value l) 32"
  note q = quad_networkE [OF assms(1-3)] and x = parse_addr4 [OF assms(3)]
  have "net_contains n (mapped_prefix @ b) \<longleftrightarrow>
    (\<forall>j < 4. in_ip n ! j AND ?m ! j = b ! j AND ?m ! j)"
    using assms(4) x q(2)
    by (simp add: net_contains_def network_number_and_mask_def to4_def mapped_prefix_def list_all_iff Ball_def)
  also have "\<dots> \<longleftrightarrow> (\<forall>j < 4. drop 12 x ! j AND ?m ! j = b ! j AND ?m ! j)"
    using x q(2) by (simp add: ac_simps)
  also have "\<dots> \<longleftrightarrow> same_prefix (dec_value l) (drop 12 x) b"
    using masked_iff_same_prefix [of "dec_value l" 4 "drop 12 x" b] q(3) by simp
  finally show ?thesis .
qed

text \<open>A network written as an IPv6 prefix contains every IPv6 address that agrees with it on the prefix; an
  address that is really IPv4 is compared as such, and agrees with no IPv6 one.\<close>

lemma ipv6_groups_length:
  "ipv6_groups n bs el s = Some (bs', el', r) \<Longrightarrow> length bs + 2 * n \<le> 16 \<Longrightarrow> length bs' \<le> 16"
proof (induction n arbitrary: bs el s)
  case (Suc n)
  have ih: "length bs' \<le> 16" if "ipv6_groups n (bs @ [u, v]) k t = Some (bs', el', r)" for u v k t
    using Suc.IH [OF that] Suc.prems(2) by simp
  from Suc.prems show ?case
    by (auto simp: Let_def split: if_splits list.splits option.splits dest: ih ipv4_loop_length)
qed simp

lemma ipv6_finish_length:
  assumes "ipv6_finish (bs, el, r) = Some x" "length bs \<le> 16"
  shows "length x = 16"
  using assms by (auto simp: ipv6_finish_def split: if_splits option.splits)

lemma parse_addr6_length:
  assumes "parse_addr s = Some (False, x)"
  shows "length x = 16"
proof -
  have "length bs = 16" if p: "parse_ipv6 t = Some bs" for t bs
  proof -
    have "\<exists>g. ipv6_finish g = Some bs \<and> length (fst g) \<le> 16" if b: "Option.bind (ipv6_groups 8 [] el t) ipv6_finish = Some bs" for el t
    proof -
      from b obtain g where "ipv6_groups 8 [] el t = Some g" "ipv6_finish g = Some bs" by (auto simp: Option.bind_eq_Some_conv)
      moreover then have "length (fst g) \<le> 16" by (cases g) (auto dest: ipv6_groups_length)
      ultimately show ?thesis by blast
    qed
    with p have "length bs = 16 \<or> (\<exists>g. ipv6_finish g = Some bs \<and> length (fst g) \<le> 16)"
      by (auto simp: parse_ipv6_def split: if_splits)
    then show ?thesis using ipv6_finish_length by fastforce
  qed
  with assms show ?thesis by (auto simp: parse_addr_def split: if_splits option.splits)
qed

lemma mask_byte_full: "x AND mask_byte k = 255 \<Longrightarrow> 8 \<le> k \<and> x = 255"
proof -
  assume a: "x AND mask_byte k = 255"
  have f: "(255 :: 8 word) = - 1" by simp
  have b: "bit x j \<and> bit (mask_byte k) j" if "j < 8" for j
    using arg_cong [OF a, of "\<lambda>w. bit w j"] that unfolding f by (simp add: bit_and_iff)
  have "8 \<le> k" using b [of 0] by (simp add: bit_mask_byte)
  moreover have "x = - 1" by (rule bit_word_eqI) (use b in simp)
  ultimately show ?thesis by simp
qed

lemma group_network_contains:
  assumes "parse_cidr s = Some (y, n)" "cut_at CHR ''/'' s = (q, l, True)" "parse_addr q = Some (False, x)"
    "length a = 16" "to4 a = None" "same_prefix (dec_value l) x a"
  shows "net_contains n a"
proof -
  let ?m = "cidr_mask (dec_value l) 128"
  note x = parse_addr6_length [OF assms(3)]
  have k: "ip_mask x ?m = Some (map2 (AND) x ?m)" using x by (simp add: ip_mask_def)
  have n: "n = \<lparr>in_ip = map2 (AND) x ?m, in_mask = ?m\<rparr>" "dec_value l \<le> 128"
    using assms(1) by (auto simp: parse_cidr_def assms(2,3) k split: if_splits)
  have e: "x ! j AND ?m ! j = a ! j AND ?m ! j" if "j < 16" for j
    using masked_iff_same_prefix [of "dec_value l" 16 x a] n(2) assms(6) that by simp
  have "to4 (in_ip n) = None"
  proof (rule ccontr)
    assume "to4 (in_ip n) \<noteq> None"
    then have t: "take 12 (in_ip n) = mapped_prefix" using n(1) x by (auto simp: to4_def split: if_splits)
    have at: "a ! j AND ?m ! j = mapped_prefix ! j" if "j < 12" for j
      using arg_cong [OF t, of "\<lambda>w. w ! j"] that e [of j] x n(1) by simp
    have "8 \<le> dec_value l - 88"
      using at [of 11] mask_byte_full [of "a ! 11" "dec_value l - 88"] by (simp add: mapped_prefix_def cidr_mask_nth nth_append)
    then have "?m ! j = - 1" if "j < 12" for j using that by (simp add: cidr_mask_nth mask_byte_def)
    then have "a ! j = mapped_prefix ! j" if "j < 12" for j using at [OF that] that by simp
    then have "take 12 a = mapped_prefix" using assms(4) by (intro nth_equalityI) (simp_all add: mapped_prefix_def)
    with assms(4,5) show False by (simp add: to4_def)
  qed
  then show ?thesis
    using x assms(4,5) e n(1) by (simp add: net_contains_def network_number_and_mask_def list_all_iff ac_simps)
qed

section \<open>Hardware addresses\<close>

text \<open>\<open>net.ParseMAC\<close>: pairs of hexadecimal digits behind colons or hyphens, or groups of four behind dots; 6, 8 or 20 bytes.\<close>

fun hex_pairs :: "char \<Rightarrow> string \<Rightarrow> nat list option" where
  "hex_pairs sep [a, b] = (if is_hex a \<and> is_hex b then Some [hex_digit a * 16 + hex_digit b] else None)"
| "hex_pairs sep (a # b # c # s) =
     (if is_hex a \<and> is_hex b \<and> c = sep then map_option ((#) (hex_digit a * 16 + hex_digit b)) (hex_pairs sep s) else None)"
| "hex_pairs sep s = None"

fun hex_quads :: "string \<Rightarrow> nat list option" where
  "hex_quads [a, b, c, d] =
     (if is_hex a \<and> is_hex b \<and> is_hex c \<and> is_hex d then Some [hex_digit a * 16 + hex_digit b, hex_digit c * 16 + hex_digit d] else None)"
| "hex_quads (a # b # c # d # e # s) =
     (if is_hex a \<and> is_hex b \<and> is_hex c \<and> is_hex d \<and> e = CHR ''.''
      then map_option (\<lambda>bs. (hex_digit a * 16 + hex_digit b) # (hex_digit c * 16 + hex_digit d) # bs) (hex_quads s) else None)"
| "hex_quads s = None"

definition mac_lengths :: "nat list" where "mac_lengths = [6, 8, 20]"

definition parse_mac :: "string \<Rightarrow> nat list option" where
  "parse_mac s =
     (if length s < 14 then None
      else if s ! 2 = CHR '':'' \<or> s ! 2 = CHR ''-'' then
        (if (length s + 1) mod 3 = 0 \<and> (length s + 1) div 3 \<in> set mac_lengths then hex_pairs (s ! 2) s else None)
      else if s ! 4 = CHR ''.'' then
        (if (length s + 1) mod 5 = 0 \<and> 2 * (length s + 1) div 5 \<in> set mac_lengths then hex_quads s else None)
      else None)"

definition hex_char :: "nat \<Rightarrow> char" where
  "hex_char n = (if n < 10 then char_of (48 + n) else char_of (87 + n))"

fun mac_string :: "nat list \<Rightarrow> string" where
  "mac_string [] = []"
| "mac_string [b] = [hex_char (b div 16), hex_char (b mod 16)]"
| "mac_string (b # bs) = [hex_char (b div 16), hex_char (b mod 16), CHR '':''] @ mac_string bs"

lemma hex_char_props:
  assumes "n < 16"
  shows "is_hex (hex_char n)" "hex_digit (hex_char n) = n" "byte (hex_char n) < 128"
    "33 \<le> byte (hex_char n)"
proof -
  have "n \<in> {0..<16}" using assms by simp
  then have "is_hex (hex_char n) \<and> hex_digit (hex_char n) = n \<and> byte (hex_char n) < 128 \<and> 33 \<le> byte (hex_char n)"
    unfolding atLeastLessThan_upt by (simp add: upt_conv_Cons)
      (elim disjE; simp add: is_hex_def hex_digit_def hex_char_def is_digit_def digit_value_def)
  then show "is_hex (hex_char n)" "hex_digit (hex_char n) = n" "byte (hex_char n) < 128"
    "33 \<le> byte (hex_char n)" by simp_all
qed

lemma hex_digit_less: "is_hex c \<Longrightarrow> hex_digit c < 16"
  by (auto simp: is_hex_def hex_digit_def is_digit_def digit_value_def)

lemma mac_string_length: "bs \<noteq> [] \<Longrightarrow> length (mac_string bs) + 1 = 3 * length bs"
  by (induction bs rule: mac_string.induct) auto

lemma hex_pairs_mac_string:
  "bs \<noteq> [] \<Longrightarrow> list_all (\<lambda>b. b < 256) bs \<Longrightarrow> hex_pairs CHR '':'' (mac_string bs) = Some bs"
proof (induction bs rule: mac_string.induct)
  case (2 b)
  then have "b div 16 < 16" "b mod 16 < 16" by auto
  then show ?case by (simp add: hex_char_props)
next
  case (3 b c bs)
  then have "b div 16 < 16" "b mod 16 < 16" by auto
  with 3 show ?case by (cases "mac_string (c # bs)") (simp_all add: hex_char_props)
qed simp

lemma hex_pairs_range: "hex_pairs sep s = Some bs \<Longrightarrow> list_all (\<lambda>b. b < 256) bs \<and> length s + 1 = 3 * length bs"
proof (induction sep s arbitrary: bs rule: hex_pairs.induct)
  case (1 sep a b)
  then show ?case using hex_digit_less [of a] hex_digit_less [of b] by (auto split: if_splits)
next
  case (2 sep a b c s)
  then show ?case using hex_digit_less [of a] hex_digit_less [of b] by (auto split: if_splits)
qed auto

lemma hex_quads_range: "hex_quads s = Some bs \<Longrightarrow> list_all (\<lambda>b. b < 256) bs \<and> 2 * (length s + 1) = 5 * length bs"
proof (induction s arbitrary: bs rule: hex_quads.induct)
  case (1 a b c d)
  then show ?case using hex_digit_less [of a] hex_digit_less [of b] hex_digit_less [of c] hex_digit_less [of d]
    by (auto split: if_splits)
next
  case (2 a b c d e s)
  then show ?case using hex_digit_less [of a] hex_digit_less [of b] hex_digit_less [of c] hex_digit_less [of d]
    by (auto split: if_splits)
qed auto

lemma parse_mac_range:
  assumes "parse_mac s = Some bs"
  shows "list_all (\<lambda>b. b < 256) bs" "length bs \<in> set mac_lengths"
  using assms hex_pairs_range [of "s ! 2" s bs] hex_quads_range [of s bs]
  by (auto simp: parse_mac_def split: if_splits)

text \<open>What \<open>HardwareAddr.String\<close> writes, \<open>ParseMAC\<close> reads back.\<close>

lemma parse_mac_string:
  assumes "list_all (\<lambda>b. b < 256) bs" "length bs \<in> set mac_lengths"
  shows "parse_mac (mac_string bs) = Some bs"
proof -
  obtain b c r where bs: "bs = b # c # r" and ne: "bs \<noteq> []"
    using assms(2) by (cases bs; cases "tl bs") (auto simp: mac_lengths_def)
  have l: "length (mac_string bs) + 1 = 3 * length bs" using mac_string_length ne by blast
  have "14 \<le> length (mac_string bs)" using l assms(2) by (auto simp: mac_lengths_def)
  moreover have "mac_string bs ! 2 = CHR '':''" by (simp add: bs)
  ultimately show ?thesis
    using l assms hex_pairs_mac_string [OF ne assms(1)] by (simp add: parse_mac_def)
qed

lemma net_examples:
  "parse_ip ''10.0.0.1'' = Some (mapped_prefix @ [10, 0, 0, 1])" "parse_ip ''10.0.0.01'' = None" "parse_ip ''1.2.3'' = None"
  "parse_ip ''::1'' = Some ipv6_loopback" "parse_ip ''::ffff:10.0.0.1'' = parse_ip ''10.0.0.1''" "parse_ip ''fe80::1%eth0'' = None"
  "parse_ip ''1:2:3:4:5:6:7:8:9'' = None" "parse_ip ''1::2::3'' = None" "parse_ip ''localhost'' = None"
  "map_option (\<lambda>c. net_contains (snd c) (the (parse_ip ''10.1.2.3''))) (parse_cidr ''10.0.0.0/8'') = Some True"
  "map_option (\<lambda>c. net_contains (snd c) (the (parse_ip ''11.1.2.3''))) (parse_cidr ''10.0.0.0/8'') = Some False"
  "map_option (\<lambda>c. net_contains (snd c) (the (parse_ip ''10.1.2.3''))) (parse_cidr ''::ffff:10.0.0.0/104'') = Some True"
  "map_option mac_string (parse_mac ''AA-bb-0C-dd-ee-ff'') = Some ''aa:bb:0c:dd:ee:ff''"
  "map_option mac_string (parse_mac ''aabb.0cdd.eeff'') = Some ''aa:bb:0c:dd:ee:ff''" "parse_mac ''aa:bb:cc:dd:ee'' = None"
  by code_simp+

end
