(* ===== verification/Remote_Guard.thy ===== *)
theory Remote_Guard
  imports Net_Addr Connect Namespaces
begin

text \<open>
  The network filters of the platform. \<open>remote_host_guard.go\<close> of the API server refuses a remote workspace whose host
  is the cluster itself, by the shape of its name and by the addresses it resolves to (the resolver is a
  parameter: an answer or a failure); \<open>cluster_domain.go\<close> finds the cluster's domain in \<open>resolv.conf\<close>. \<open>desktop_egress.go\<close>
  of the operator reads the networks desktops may not reach from the environment (a function from names to values).
\<close>

section \<open>The host guard\<close>

record host_guard =
  hg_domain :: string
  hg_blocked :: "ip_net list"
  hg_api_server :: "ip option"

fun parse_blocked_cidrs :: "string list \<Rightarrow> string + ip_net list" where
  "parse_blocked_cidrs [] = Inr []"
| "parse_blocked_cidrs (c # cs) =
     (case parse_cidr (trim_space c) of
        None \<Rightarrow> Inl c
      | Some (_, n) \<Rightarrow> (case parse_blocked_cidrs cs of Inl e \<Rightarrow> Inl e | Inr ns \<Rightarrow> Inr (n # ns)))"

text \<open>\<open>strings.Trim(s, ".")\<close>.\<close>

definition trim_dots :: "string \<Rightarrow> string" where
  "trim_dots s = rev (dropWhile (\<lambda>c. c = CHR ''.'') (rev (dropWhile (\<lambda>c. c = CHR ''.'') s)))"

definition new_host_guard :: "(nat \<Rightarrow> nat) \<Rightarrow> string \<Rightarrow> ip_net list \<Rightarrow> string \<Rightarrow> host_guard" where
  "new_host_guard ul domain nets service_host =
     \<lparr>hg_domain = to_lower ul (trim_dots (if domain = [] then ''cluster.local'' else domain)),
      hg_blocked = nets, hg_api_server = (if service_host = [] then None else parse_ip service_host)\<rparr>"

definition deny_host :: "string \<Rightarrow> api_error" where
  "deny_host host = BadRequest [''hostname points at the cluster network'', host]"

definition check_ip :: "host_guard \<Rightarrow> string \<Rightarrow> ip \<Rightarrow> api_error option" where
  "check_ip g host a =
     (if is_loopback a \<or> is_link_local_unicast a \<or> is_unspecified a \<or> is_multicast a \<or> is_interface_local_multicast a
      then Some (deny_host host)
      else if (case hg_api_server g of None \<Rightarrow> False | Some s \<Rightarrow> ip_equal a s) then Some (deny_host host)
      else if list_ex (\<lambda>n. net_contains n a) (hg_blocked g) then Some (deny_host host)
      else None)"

fun check_addresses :: "host_guard \<Rightarrow> string \<Rightarrow> ip list \<Rightarrow> api_error option" where
  "check_addresses g host [] = None"
| "check_addresses g host (a # as) = (case check_ip g host a of Some e \<Rightarrow> Some e | None \<Rightarrow> check_addresses g host as)"

definition in_cluster_name :: "host_guard \<Rightarrow> string \<Rightarrow> bool" where
  "in_cluster_name g name \<longleftrightarrow>
     name = ''localhost'' \<or> has_suffix name ''.localhost'' \<or> \<not> contains name ''.'' \<or>
     list_ex (has_suffix name) [''.svc'', ''.svc.'' @ hg_domain g, ''.'' @ hg_domain g]"

text \<open>\<open>Check\<close>; no guard at all allows everything, and a name that does not resolve is allowed.\<close>

definition host_check :: "(nat \<Rightarrow> nat) \<Rightarrow> (string \<Rightarrow> ip list option) \<Rightarrow> host_guard option \<Rightarrow> string \<Rightarrow> api_error option" where
  "host_check ul resolver guard host0 =
     (case guard of
        None \<Rightarrow> None
      | Some g \<Rightarrow>
         (let host = trim_space host0 in
          case parse_ip host of
            Some a \<Rightarrow> check_ip g host a
          | None \<Rightarrow>
             (if in_cluster_name g (to_lower ul (trim_suffix host ''.'')) then Some (deny_host host)
              else case resolver host of None \<Rightarrow> None | Some as \<Rightarrow> check_addresses g host as)))"

section \<open>The cluster's domain\<close>

text \<open>\<open>strings.Fields\<close>: the runs of characters that are no white space.\<close>

fun fields_of :: "string list \<Rightarrow> string list \<Rightarrow> string list" where
  "fields_of acc [] = (if acc = [] then [] else [concat (rev acc)])"
| "fields_of acc (w # ws) =
     (if is_space_chunk w then (if acc = [] then fields_of [] ws else concat (rev acc) # fields_of [] ws)
      else fields_of (w # acc) ws)"

definition go_fields :: "string \<Rightarrow> string list" where
  "go_fields s = fields_of [] (rune_chunks s)"

fun svc_entry :: "string list \<Rightarrow> string option" where
  "svc_entry [] = None"
| "svc_entry (e # es) =
     (if has_prefix e ''svc.'' \<and> trim_prefix e ''svc.'' \<noteq> [] then Some (trim_prefix e ''svc.'') else svc_entry es)"

fun domain_in_lines :: "string list \<Rightarrow> string" where
  "domain_in_lines [] = ''cluster.local''"
| "domain_in_lines (line # rest) =
     (let fs = go_fields line in
      if length fs < 2 \<or> hd fs \<noteq> ''search'' then domain_in_lines rest
      else case svc_entry (tl fs) of Some d \<Rightarrow> d | None \<Rightarrow> domain_in_lines rest)"

definition discover_cluster_domain :: "string option \<Rightarrow> string" where
  "discover_cluster_domain content =
     (case content of None \<Rightarrow> ''cluster.local'' | Some d \<Rightarrow> domain_in_lines (split_on (CHR 0x0A) d))"

lemma discovered_domain_nonempty: "discover_cluster_domain content \<noteq> []"
proof -
  have e: "svc_entry es = Some d \<Longrightarrow> d \<noteq> []" for es d by (induction es) (auto split: if_splits)
  have "domain_in_lines ls \<noteq> []" for ls by (induction ls) (auto simp: Let_def split: option.splits dest: e)
  then show ?thesis by (simp add: discover_cluster_domain_def split: option.split)
qed

section \<open>What the guard refuses\<close>

lemma check_addresses_refuses:
  "check_addresses g host as \<noteq> None \<longleftrightarrow> (\<exists>a \<in> set as. check_ip g host a \<noteq> None)"
  by (induction as) (auto split: option.splits)

lemma guard_answers_bad_request:
  "check_ip g host a = Some e \<Longrightarrow> e = deny_host host"
  "check_addresses g host as = Some e \<Longrightarrow> e = deny_host host"
proof -
  show one: "check_ip g host a = Some e \<Longrightarrow> e = deny_host host" for a
    by (auto simp: check_ip_def split: if_splits)
  show "check_addresses g host as = Some e \<Longrightarrow> e = deny_host host"
    by (induction as) (auto split: option.splits dest: one)
qed

lemma parse_blocked_member:
  "parse_blocked_cidrs cs = Inr ns \<Longrightarrow> c \<in> set cs \<Longrightarrow> \<exists>x n. parse_cidr (trim_space c) = Some (x, n) \<and> n \<in> set ns"
  by (induction cs arbitrary: ns) (auto split: option.splits sum.splits)

text \<open>The addresses a host stands for: its own when it is a literal, else those the resolver answers.\<close>

definition host_addresses :: "(string \<Rightarrow> ip list option) \<Rightarrow> string \<Rightarrow> ip list" where
  "host_addresses resolver host =
     (case parse_ip (trim_space host) of
        Some a \<Rightarrow> [a] | None \<Rightarrow> (case resolver (trim_space host) of None \<Rightarrow> [] | Some as \<Rightarrow> as))"

lemma passed_addresses:
  assumes "host_check ul resolver (Some g) host = None" "a \<in> set (host_addresses resolver host)"
  shows "check_ip g (trim_space host) a = None"
proof (cases "parse_ip (trim_space host)")
  case (Some b)
  with assms show ?thesis by (simp add: host_check_def host_addresses_def)
next
  case None
  with assms obtain as where "resolver (trim_space host) = Some as" "a \<in> set as" "check_addresses g (trim_space host) as = None"
    by (auto simp: host_check_def host_addresses_def Let_def split: option.splits if_splits)
  then show ?thesis using check_addresses_refuses by blast
qed

lemma multicast_byte: "(224 :: 8 word) \<le> x \<and> x < 240 \<longleftrightarrow> x AND 0xF0 = 0xE0"
proof -
  have "\<forall>n \<in> set [0 ..< 256]. (224 :: 8 word) \<le> word_of_nat n \<and> (word_of_nat n :: 8 word) < 240 \<longleftrightarrow>
      (word_of_nat n :: 8 word) AND 0xF0 = 0xE0" by code_simp
  from bspec [OF this, of "unat x"] show ?thesis using unsigned_less [of x] by simp
qed

lemma quad_passes:
  assumes "parse_blocked_cidrs cs = Inr nets" "check_ip (new_host_guard ul domain nets service_host) h a = None"
    "length b = 4" "a = b \<or> a = mapped_prefix @ b"
  shows "(\<forall>c \<in> set cs. \<forall>q l x. cut_at CHR ''/'' (trim_space c) = (q, l, True) \<and> parse_addr q = Some (True, x) \<longrightarrow>
      \<not> same_prefix (dec_value l) (drop 12 x) b) \<and>
    b ! 0 \<noteq> 127 \<and> \<not> (b ! 0 = 169 \<and> b ! 1 = 254) \<and> b \<noteq> [0, 0, 0, 0] \<and> \<not> (224 \<le> b ! 0 \<and> b ! 0 < 240) \<and>
    (service_host \<noteq> [] \<longrightarrow> parse_ip service_host \<noteq> Some (mapped_prefix @ b))"
proof -
  let ?g = "new_host_guard ul domain nets service_host"
  have four: "to4 a = Some b" "to4 (mapped_prefix @ b) = Some b" using assms(3,4) by (auto simp: to4_def mapped_prefix_def)
  have p: "\<not> is_loopback a" "\<not> is_link_local_unicast a" "\<not> is_unspecified a" "\<not> is_multicast a"
    "service_host \<noteq> [] \<Longrightarrow> parse_ip service_host = Some k \<Longrightarrow> \<not> ip_equal a k" "n \<in> set nets \<Longrightarrow> \<not> net_contains n a" for k n
    using assms(2) by (auto simp: check_ip_def new_host_guard_def list_ex_iff split: if_splits)
  have "b ! 0 \<noteq> 127" "\<not> (b ! 0 = 169 \<and> b ! 1 = 254)" using p(1,2) four by (simp_all add: is_loopback_def is_link_local_unicast_def)
  moreover have "b \<noteq> [0, 0, 0, 0]"
    using p(3) assms(4) by (auto simp: is_unspecified_def ip_equal_def ipv4_zero_def mapped_prefix_def)
  moreover have "\<not> (224 \<le> b ! 0 \<and> b ! 0 < 240)" using p(4) four unfolding multicast_byte by (simp add: is_multicast_def)
  moreover have "service_host \<noteq> [] \<longrightarrow> parse_ip service_host \<noteq> Some (mapped_prefix @ b)"
    using p(5) assms(3,4) by (auto simp: ip_equal_def mapped_prefix_def)
  moreover have "\<not> same_prefix (dec_value l) (drop 12 x) b"
    if c: "c \<in> set cs" "cut_at CHR ''/'' (trim_space c) = (q, l, True)" "parse_addr q = Some (True, x)" for c q l x
  proof -
    obtain y n where n: "parse_cidr (trim_space c) = Some (y, n)" "n \<in> set nets"
      using parse_blocked_member [OF assms(1) c(1)] by blast
    have y: "y = x" by (rule quad_networkE(1) [OF n(1) c(2,3)])
    have "net_contains n a = net_contains n (mapped_prefix @ b)" by (simp add: net_contains_def four)
    then show ?thesis
      using p(6) n(2) quad_network_contains [OF n(1) [unfolded y] c(2,3) assms(3)] by simp
  qed
  ultimately show ?thesis by blast
qed

lemma group_passes:
  assumes "parse_blocked_cidrs cs = Inr nets" "check_ip (new_host_guard ul domain nets service_host) h a = None"
    "length a = 16" "take 12 a \<noteq> mapped_prefix"
  shows "(\<forall>c \<in> set cs. \<forall>q l x. cut_at CHR ''/'' (trim_space c) = (q, l, True) \<and> parse_addr q = Some (False, x) \<longrightarrow>
      \<not> same_prefix (dec_value l) x a) \<and>
    a \<noteq> replicate 15 0 @ [1] \<and> a \<noteq> replicate 16 0 \<and> a ! 0 \<noteq> 0xFF \<and> \<not> (a ! 0 = 0xFE \<and> a ! 1 AND 0xC0 = 0x80) \<and>
    (service_host \<noteq> [] \<longrightarrow> parse_ip service_host \<noteq> Some a)"
proof -
  have six: "to4 a = None" using assms(3,4) by (simp add: to4_def)
  have p: "\<not> is_loopback a" "\<not> is_link_local_unicast a" "\<not> is_unspecified a" "\<not> is_multicast a"
    "service_host \<noteq> [] \<Longrightarrow> parse_ip service_host = Some k \<Longrightarrow> \<not> ip_equal a k" "n \<in> set nets \<Longrightarrow> \<not> net_contains n a" for k n
    using assms(2) by (auto simp: check_ip_def new_host_guard_def list_ex_iff split: if_splits)
  have "a \<noteq> replicate 15 0 @ [1]" using p(1) six by (auto simp: is_loopback_def ip_equal_def ipv6_loopback_def)
  moreover have "a \<noteq> replicate 16 0" using p(3) by (auto simp: is_unspecified_def ip_equal_def ipv6_unspecified_def)
  moreover have "a ! 0 \<noteq> 0xFF" using p(4) six assms(3) by (simp add: is_multicast_def)
  moreover have "\<not> (a ! 0 = 0xFE \<and> a ! 1 AND 0xC0 = 0x80)" using p(2) six assms(3) by (simp add: is_link_local_unicast_def)
  moreover have "service_host \<noteq> [] \<longrightarrow> parse_ip service_host \<noteq> Some a" using p(5) by (auto simp: ip_equal_def)
  moreover have "\<not> same_prefix (dec_value l) x a"
    if c: "c \<in> set cs" "cut_at CHR ''/'' (trim_space c) = (q, l, True)" "parse_addr q = Some (False, x)" for c q l x
    using parse_blocked_member [OF assms(1) c(1)] group_network_contains [OF _ c(2,3) assms(3) six] p(6) by blast
  ultimately show ?thesis by blast
qed

text \<open>C38: What the host guard refuses, and it is no more than a guardrail: it judges the literal the user typed, if it
  is canonical dotted decimal or IPv6, or the addresses the resolver answers at that moment, a name without an answer
  passing. Of those addresses (IPv4 ones in either length), a host that passes has none that agrees with an IPv4 entry of the
  configured list (dotted decimal) on the bits of its prefix, none that is IPv6 and agrees with an IPv6 entry, no loopback,
  link-local, unspecified or multicast address, and not that of the Kubernetes API server; and when it is no literal, its
  name is not \<open>localhost\<close> nor under it, has at least two labels, and ends neither in \<open>.svc\<close> nor in the cluster's domain.
\<close>

theorem guard_blocks_cluster:
  assumes "parse_blocked_cidrs cs = Inr nets"
    "host_check ul resolver (Some (new_host_guard ul domain nets service_host)) host = None"
  shows "(\<forall>a \<in> set (host_addresses resolver host).
      (\<forall>b. length b = 4 \<and> (a = b \<or> a = mapped_prefix @ b) \<longrightarrow>
        (\<forall>c \<in> set cs. \<forall>q l x. cut_at CHR ''/'' (trim_space c) = (q, l, True) \<and> parse_addr q = Some (True, x) \<longrightarrow>
          \<not> same_prefix (dec_value l) (drop 12 x) b) \<and>
        b ! 0 \<noteq> 127 \<and> \<not> (b ! 0 = 169 \<and> b ! 1 = 254) \<and> b \<noteq> [0, 0, 0, 0] \<and> \<not> (224 \<le> b ! 0 \<and> b ! 0 < 240) \<and>
        (service_host \<noteq> [] \<longrightarrow> parse_ip service_host \<noteq> Some (mapped_prefix @ b))) \<and>
      (length a = 16 \<and> take 12 a \<noteq> mapped_prefix \<longrightarrow>
        (\<forall>c \<in> set cs. \<forall>q l x. cut_at CHR ''/'' (trim_space c) = (q, l, True) \<and> parse_addr q = Some (False, x) \<longrightarrow>
          \<not> same_prefix (dec_value l) x a) \<and>
        a \<noteq> replicate 15 0 @ [1] \<and> a \<noteq> replicate 16 0 \<and> a ! 0 \<noteq> 0xFF \<and> \<not> (a ! 0 = 0xFE \<and> a ! 1 AND 0xC0 = 0x80) \<and>
        (service_host \<noteq> [] \<longrightarrow> parse_ip service_host \<noteq> Some a))) \<and>
    (parse_ip (trim_space host) = None \<longrightarrow>
      (let name = to_lower ul (trim_suffix (trim_space host) ''.'') in
       name \<noteq> ''localhost'' \<and> \<not> has_suffix name ''.localhost'' \<and> contains name ''.'' \<and> \<not> has_suffix name ''.svc'' \<and>
       \<not> has_suffix name (''.'' @ to_lower ul (trim_dots (if domain = [] then ''cluster.local'' else domain)))))"
proof (intro conjI ballI)
  let ?g = "new_host_guard ul domain nets service_host"
  show "parse_ip (trim_space host) = None \<longrightarrow>
      (let name = to_lower ul (trim_suffix (trim_space host) ''.'') in
       name \<noteq> ''localhost'' \<and> \<not> has_suffix name ''.localhost'' \<and> contains name ''.'' \<and> \<not> has_suffix name ''.svc'' \<and>
       \<not> has_suffix name (''.'' @ to_lower ul (trim_dots (if domain = [] then ''cluster.local'' else domain))))"
    using assms(2) by (cases "parse_ip (trim_space host)")
      (simp_all add: host_check_def Let_def in_cluster_name_def new_host_guard_def split: if_splits)
  fix a
  assume "a \<in> set (host_addresses resolver host)"
  then have p: "check_ip ?g (trim_space host) a = None" using passed_addresses assms(2) by blast
  show "\<forall>b. length b = 4 \<and> (a = b \<or> a = mapped_prefix @ b) \<longrightarrow>
        (\<forall>c \<in> set cs. \<forall>q l x. cut_at CHR ''/'' (trim_space c) = (q, l, True) \<and> parse_addr q = Some (True, x) \<longrightarrow>
          \<not> same_prefix (dec_value l) (drop 12 x) b) \<and>
        b ! 0 \<noteq> 127 \<and> \<not> (b ! 0 = 169 \<and> b ! 1 = 254) \<and> b \<noteq> [0, 0, 0, 0] \<and> \<not> (224 \<le> b ! 0 \<and> b ! 0 < 240) \<and>
        (service_host \<noteq> [] \<longrightarrow> parse_ip service_host \<noteq> Some (mapped_prefix @ b))"
    by (intro allI impI) (elim conjE, rule quad_passes [OF assms(1) p])
  show "length a = 16 \<and> take 12 a \<noteq> mapped_prefix \<longrightarrow>
        (\<forall>c \<in> set cs. \<forall>q l x. cut_at CHR ''/'' (trim_space c) = (q, l, True) \<and> parse_addr q = Some (False, x) \<longrightarrow>
          \<not> same_prefix (dec_value l) x a) \<and>
        a \<noteq> replicate 15 0 @ [1] \<and> a \<noteq> replicate 16 0 \<and> a ! 0 \<noteq> 0xFF \<and> \<not> (a ! 0 = 0xFE \<and> a ! 1 AND 0xC0 = 0x80) \<and>
        (service_host \<noteq> [] \<longrightarrow> parse_ip service_host \<noteq> Some a)"
    by (intro impI) (elim conjE, rule group_passes [OF assms(1) p])
qed

definition pod_networks :: "string list" where "pod_networks = [''10.42.0.0/16'']"

definition pod_nets :: "ip_net list" where
  "pod_nets = [\<lparr>in_ip = [10, 42, 0, 0], in_mask = [255, 255, 0, 0]\<rparr>]"

definition desk_dns :: "string \<Rightarrow> ip list option" where
  "desk_dns h = (if h = ''nas.corp.lan'' then Some [[192, 168, 1, 40]] else None)"

definition desk_guard :: host_guard where
  "desk_guard = \<lparr>hg_domain = ''cluster.local'', hg_blocked = pod_nets, hg_api_server = Some (mapped_prefix @ [10, 43, 0, 1])\<rparr>"

lemma desk_guard_built: "new_host_guard (\<lambda>r. r) [] pod_nets ''10.43.0.1'' = desk_guard"
  by code_simp

theorem guard_blocks_cluster_witness:
  "\<not> same_prefix (dec_value ''16'') [10, 42, 0, 0] [192, 168, 1, 40] \<and> contains ''nas.corp.lan'' ''.'' \<and>
   host_check (\<lambda>r. r) desk_dns (Some desk_guard) ''nas.corp.lan'' = None"
proof -
  have ok: "parse_blocked_cidrs pod_networks = Inr pod_nets" by code_simp
  have pass: "host_check (\<lambda>r. r) desk_dns (Some desk_guard) ''nas.corp.lan'' = None" by code_simp
  have addr: "[192, 168, 1, 40] \<in> set (host_addresses desk_dns ''nas.corp.lan'')" by code_simp
  have c: "''10.42.0.0/16'' \<in> set pod_networks" by (simp add: pod_networks_def)
  have q: "cut_at CHR ''/'' (trim_space ''10.42.0.0/16'') = (''10.42.0.0'', ''16'', True) \<and>
    parse_addr ''10.42.0.0'' = Some (True, mapped_prefix @ [10, 42, 0, 0])" by code_simp
  have d: "drop 12 (mapped_prefix @ [10, 42, 0, 0]) = [10, 42, 0, 0]" by (simp add: mapped_prefix_def)
  have n: "parse_ip (trim_space ''nas.corp.lan'') = None \<and>
    to_lower (\<lambda>r. r) (trim_suffix (trim_space ''nas.corp.lan'') ''.'') = ''nas.corp.lan''" by code_simp
  note g = guard_blocks_cluster [OF ok pass [folded desk_guard_built]]
  have four: "length [192, 168, 1, 40 :: 8 word] = 4 \<and>
    ([192, 168, 1, 40] = [192, 168, 1, 40 :: 8 word] \<or> [192, 168, 1, 40] = mapped_prefix @ [192, 168, 1, 40])" by simp
  have "\<not> same_prefix (dec_value ''16'') (drop 12 (mapped_prefix @ [10, 42, 0, 0])) [192, 168, 1, 40]"
    using mp [OF bspec [OF conjunct1 [OF g] addr, THEN conjunct1, THEN spec, of "[192, 168, 1, 40]"], OF four] c q by blast
  moreover have "contains ''nas.corp.lan'' ''.''"
    using mp [OF conjunct2 [OF g] conjunct1 [OF n]] unfolding Let_def conjunct2 [OF n] by blast
  ultimately show ?thesis using pass unfolding d by blast
qed

text \<open>
  The literal test reads canonical dotted decimal only: a short form or an octal byte, which the C library's
  resolver of the proxy reads as an address, is a name here, and is let through when no server answers for it.
  So is the name of a service with its namespace, which the search path of a pod completes, when it resolves to
  an address outside the configured networks.
\<close>

lemma unread_literals_pass:
  "host_check (\<lambda>r. r) (\<lambda>h. None) (Some desk_guard) ''127.1'' = None"
  "host_check (\<lambda>r. r) (\<lambda>h. None) (Some desk_guard) ''0177.0.0.1'' = None"
  "host_check (\<lambda>r. r) (\<lambda>h. Some [mapped_prefix @ [10, 43, 7, 7]]) (Some desk_guard) ''postgres.waas'' = None"
  by code_simp+

section \<open>The networks desktops may not reach\<close>

definition default_blocked_egress_cidrs :: "string list" where
  "default_blocked_egress_cidrs = [''169.254.169.254/32'', ''10.0.0.0/8'', ''172.16.0.0/12'', ''192.168.0.0/16'']"

datatype egress_error = BadBool string string | BadCidr string string | NotIpv4 string string | NotStrict string string

type_synonym environment = "string \<rightharpoonup> string"

definition env_bool :: "environment \<Rightarrow> string \<Rightarrow> bool \<Rightarrow> egress_error + bool" where
  "env_bool env name def =
     (let v = (case env name of None \<Rightarrow> [] | Some x \<Rightarrow> x) in
      if v = [] then Inr def else case parse_bool v of None \<Rightarrow> Inl (BadBool name v) | Some b \<Rightarrow> Inr b)"

fun read_cidrs :: "string \<Rightarrow> string list \<Rightarrow> egress_error + string list" where
  "read_cidrs name [] = Inr []"
| "read_cidrs name (c0 # cs) =
     (let c = trim_space c0 in
      if c = [] then read_cidrs name cs
      else case parse_cidr c of
        None \<Rightarrow> Inl (BadCidr name c)
      | Some _ \<Rightarrow> (case read_cidrs name cs of Inl e \<Rightarrow> Inl e | Inr out \<Rightarrow> Inr (c # out)))"

definition env_cidr_list :: "environment \<Rightarrow> string \<Rightarrow> string list \<Rightarrow> egress_error + string list" where
  "env_cidr_list env name def = (case env name of None \<Rightarrow> Inr def | Some v \<Rightarrow> read_cidrs name (split_on CHR '','' v))"

text \<open>\<open>Mask.Size\<close>: how many leading ones, 0 when a one follows a zero.\<close>

definition mask_ones :: "ip \<Rightarrow> nat" where
  "mask_ones m =
     (let bs = map (addr_bit m) [0 ..< 8 * length m]; n = length (takeWhile id bs) in
      if list_ex id (drop n bs) then 0 else n)"

fun validate_except_cidrs :: "string \<Rightarrow> string list \<Rightarrow> egress_error option" where
  "validate_except_cidrs name [] = None"
| "validate_except_cidrs name (c # cs) =
     (case parse_cidr c of
        None \<Rightarrow> Some (BadCidr name c)
      | Some (a, n) \<Rightarrow>
          if to4 a = None then Some (NotIpv4 name c)
          else if mask_ones (in_mask n) = 0 then Some (NotStrict name c)
          else validate_except_cidrs name cs)"

definition desktop_egress_from_env :: "environment \<Rightarrow> egress_error + desktop_egress_config" where
  "desktop_egress_from_env env =
     result_bind (env_bool env ''WAAS_DESKTOP_EGRESS_ENABLED'' True) (\<lambda>enabled.
     result_bind (env_bool env ''WAAS_DESKTOP_EGRESS_ALLOW_INTERNET'' True) (\<lambda>internet.
     result_bind (env_cidr_list env ''WAAS_DESKTOP_EGRESS_BLOCKED_CIDRS'' default_blocked_egress_cidrs) (\<lambda>carved.
       case validate_except_cidrs ''WAAS_DESKTOP_EGRESS_BLOCKED_CIDRS'' carved of
         Some e \<Rightarrow> Inl e
       | None \<Rightarrow>
          result_bind (env_cidr_list env ''WAAS_DESKTOP_EGRESS_EXTRA_ALLOWED_CIDRS'' []) (\<lambda>extra.
            Inr \<lparr>de_enabled = enabled, de_allow_internet = internet, de_blocked = carved, de_extra = extra\<rparr>))))"

lemma validate_except_none:
  "validate_except_cidrs name cs = None \<Longrightarrow> c \<in> set cs \<Longrightarrow>
     \<exists>a n. parse_cidr c = Some (a, n) \<and> to4 a \<noteq> None \<and> 0 < mask_ones (in_mask n)"
  by (induction cs) (auto split: option.splits if_splits)

lemma read_cidrs_valid:
  "read_cidrs name cs = Inr out \<Longrightarrow> c \<in> set out \<Longrightarrow> parse_cidr c \<noteq> None"
proof (induction cs arbitrary: out)
  case (Cons d ds)
  then show ?case by (auto simp: Let_def split: if_splits option.splits sum.splits)
qed simp

text \<open>The networks of RFC 1918 and the metadata address of the clouds.\<close>

definition private_address :: "ip \<Rightarrow> bool" where
  "private_address b \<longleftrightarrow> same_prefix 8 [10, 0, 0, 0] b \<or> same_prefix 12 [172, 16, 0, 0] b \<or>
     same_prefix 16 [192, 168, 0, 0] b \<or> same_prefix 32 [169, 254, 169, 254] b"

lemma default_network:
  assumes "parse_cidr c = Some (mapped_prefix @ q, n) \<and> cut_at CHR ''/'' c = (t, l, True) \<and>
    parse_addr t = Some (True, mapped_prefix @ q)" "same_prefix (dec_value l) q b" "length b = 4"
  shows "\<exists>x n. parse_cidr c = Some (x, n) \<and> net_contains n (mapped_prefix @ b)"
  using assms quad_network_contains [of c "mapped_prefix @ q" n t l b] by (auto simp: mapped_prefix_def)

lemma default_networks_contain:
  assumes "private_address b" "length b = 4"
  shows "\<exists>c \<in> set default_blocked_egress_cidrs. \<exists>x n. parse_cidr c = Some (x, n) \<and> net_contains n (mapped_prefix @ b)"
proof -
  have d: "dec_value ''8'' = 8" "dec_value ''12'' = 12" "dec_value ''16'' = 16" "dec_value ''32'' = 32" by code_simp+
  have net: "\<exists>x n. parse_cidr c = Some (x, n) \<and> net_contains n (mapped_prefix @ b)"
    if "case (parse_cidr c, cut_at CHR ''/'' c) of (Some (x, _), (t, l', f)) \<Rightarrow> x = mapped_prefix @ q \<and> l' = l \<and> f \<and> parse_addr t = Some (True, x) | _ \<Rightarrow> False"
      "same_prefix (dec_value l) q b" for c q l
    using that default_network [of c q _ _ l b] assms(2) by (auto split: option.splits prod.splits)
  have "same_prefix 8 [10, 0, 0, 0] b \<Longrightarrow> \<exists>x n. parse_cidr ''10.0.0.0/8'' = Some (x, n) \<and> net_contains n (mapped_prefix @ b)"
    "same_prefix 12 [172, 16, 0, 0] b \<Longrightarrow> \<exists>x n. parse_cidr ''172.16.0.0/12'' = Some (x, n) \<and> net_contains n (mapped_prefix @ b)"
    "same_prefix 16 [192, 168, 0, 0] b \<Longrightarrow> \<exists>x n. parse_cidr ''192.168.0.0/16'' = Some (x, n) \<and> net_contains n (mapped_prefix @ b)"
    "same_prefix 32 [169, 254, 169, 254] b \<Longrightarrow> \<exists>x n. parse_cidr ''169.254.169.254/32'' = Some (x, n) \<and> net_contains n (mapped_prefix @ b)"
    by (rule net [where q = "[10, 0, 0, 0]" and l = "''8''"], code_simp, simp only: d)
      (rule net [where q = "[172, 16, 0, 0]" and l = "''12''"], code_simp, simp only: d,
       rule net [where q = "[192, 168, 0, 0]" and l = "''16''"], code_simp, simp only: d,
       rule net [where q = "[169, 254, 169, 254]" and l = "''32''"], code_simp, simp only: d)
  then show ?thesis using assms(1) unfolding private_address_def default_blocked_egress_cidrs_def by auto
qed

lemma egress_envE:
  assumes "desktop_egress_from_env env = Inr cfg"
  shows "env_cidr_list env ''WAAS_DESKTOP_EGRESS_BLOCKED_CIDRS'' default_blocked_egress_cidrs = Inr (de_blocked cfg)"
    "validate_except_cidrs ''WAAS_DESKTOP_EGRESS_BLOCKED_CIDRS'' (de_blocked cfg) = None"
    "env_cidr_list env ''WAAS_DESKTOP_EGRESS_EXTRA_ALLOWED_CIDRS'' [] = Inr (de_extra cfg)"
    "env_bool env ''WAAS_DESKTOP_EGRESS_ENABLED'' True = Inr (de_enabled cfg)"
  using assms by (auto simp: desktop_egress_from_env_def result_simps split: option.splits)

text \<open>An operator that starts has a checked egress posture: every carved-out network is an IPv4 network the API
  server accepts as a strict part of 0.0.0.0/0, every extra network is well formed, the policy is switched off
  only by an explicit false; and unless the list is given, the internet rule of a placed namespace leaves out
  every private address and the clouds' metadata address.
\<close>

lemma egress_fails_closed:
  assumes "desktop_egress_from_env env = Inr cfg"
  shows "(\<forall>c \<in> set (de_blocked cfg). \<exists>a n. parse_cidr c = Some (a, n) \<and> to4 a \<noteq> None \<and> 0 < mask_ones (in_mask n)) \<and>
    (\<forall>c \<in> set (de_extra cfg). parse_cidr c \<noteq> None) \<and>
    (\<not> de_enabled cfg \<longrightarrow> (\<exists>v. env ''WAAS_DESKTOP_EGRESS_ENABLED'' = Some v \<and> parse_bool v = Some False)) \<and>
    (env ''WAAS_DESKTOP_EGRESS_BLOCKED_CIDRS'' = None \<longrightarrow> (\<forall>b. private_address b \<and> length b = 4 \<longrightarrow>
      (\<forall>cidr except. block_rule cidr except \<in> set (desktop_egress_rules cfg) \<and> cidr \<notin> set (de_extra cfg) \<longrightarrow>
        (\<exists>c \<in> set except. \<exists>x n. parse_cidr c = Some (x, n) \<and> net_contains n (mapped_prefix @ b)))))"
proof (intro conjI)
  note e = egress_envE [OF assms]
  show "\<forall>c \<in> set (de_blocked cfg). \<exists>a n. parse_cidr c = Some (a, n) \<and> to4 a \<noteq> None \<and> 0 < mask_ones (in_mask n)"
    using validate_except_none e(2) by blast
  show "\<forall>c \<in> set (de_extra cfg). parse_cidr c \<noteq> None"
    using e(3) read_cidrs_valid by (fastforce simp: env_cidr_list_def split: option.splits)
  show "\<not> de_enabled cfg \<longrightarrow> (\<exists>v. env ''WAAS_DESKTOP_EGRESS_ENABLED'' = Some v \<and> parse_bool v = Some False)"
    using e(4) by (auto simp: env_bool_def Let_def split: option.splits if_splits)
  show "env ''WAAS_DESKTOP_EGRESS_BLOCKED_CIDRS'' = None \<longrightarrow> (\<forall>b. private_address b \<and> length b = 4 \<longrightarrow>
      (\<forall>cidr except. block_rule cidr except \<in> set (desktop_egress_rules cfg) \<and> cidr \<notin> set (de_extra cfg) \<longrightarrow>
        (\<exists>c \<in> set except. \<exists>x n. parse_cidr c = Some (x, n) \<and> net_contains n (mapped_prefix @ b))))"
    using e(1) default_networks_contain by (auto simp: env_cidr_list_def desktop_egress_rules_def split: if_splits)
qed

theorem egress_fails_closed_witness:
  "case desktop_egress_from_env Map.empty of
     Inr cfg \<Rightarrow> (\<exists>c \<in> set (de_blocked cfg). \<exists>x n. parse_cidr c = Some (x, n) \<and> net_contains n (mapped_prefix @ [10, 1, 2, 3]))
   | Inl _ \<Rightarrow> False"
proof -
  have k: "case desktop_egress_from_env Map.empty of Inr cfg \<Rightarrow> de_blocked cfg = default_blocked_egress_cidrs \<and> de_allow_internet cfg \<and> de_extra cfg = [] | Inl _ \<Rightarrow> False"
    by code_simp
  have p: "private_address [10, 1, 2, 3]" by code_simp
  obtain cfg where c: "desktop_egress_from_env Map.empty = Inr cfg" "de_allow_internet cfg" "de_extra cfg = []"
    using k by (auto split: sum.splits)
  have r: "block_rule ''0.0.0.0/0'' (de_blocked cfg) \<in> set (desktop_egress_rules cfg)"
    using c(2) by (simp add: desktop_egress_rules_def)
  show ?thesis
    using egress_fails_closed [OF c(1)] p r c by (simp only: sum.case) auto
qed

end
