(* ===== verification/Remotes.thy ===== *)
theory Remotes
  imports Remote_Guard "HOL-Library.AList"
begin

text \<open>
  The registry of machines outside the cluster: \<open>remote_workspace_service.go\<close> over the table of
  \<open>remote_workspace_sql.go\<close>, one credentials secret per row and the sessions opened towards it. A request runs in an
  environment: the portal's parameters, the guard and its resolver, what the API server answers for the secret,
  whether the table answers, and the wake relay.
\<close>

section \<open>Inputs\<close>

text \<open>A pointer: nil keeps the stored value, the empty text deletes it.\<close>

record remote_credentials_input =
  rc_username :: "string option"
  rc_password :: "string option"
  rc_private_key :: "string option"
  rc_passphrase :: "string option"

definition secret_keys :: "remote_credentials_input option \<Rightarrow> (string \<times> string option) list" where
  "secret_keys inp =
     (case inp of None \<Rightarrow> []
      | Some c \<Rightarrow> [(''username'', rc_username c), (''password'', rc_password c), (''private-key'', rc_private_key c),
                   (''passphrase'', rc_passphrase c)])"

record remote_protocol_input =
  rpi_name :: string
  rpi_port :: int
  rpi_default :: bool
  rpi_params :: "(string \<times> string) list"

record remote_input =
  ri_name :: string
  ri_hostname :: string
  ri_port :: int
  ri_protocol :: string
  ri_protocols :: "remote_protocol_input list"
  ri_mac_address :: string
  ri_params :: "(string \<times> string) list"
  ri_credentials :: "remote_credentials_input option"

record remote_env =
  re_portal :: portal
  re_guard :: "host_guard option"
  re_resolver :: "string \<Rightarrow> ip list option"
  re_lower :: "nat \<Rightarrow> nat"
  re_secret :: "secret api"
  re_reads_ok :: bool
  re_writes_ok :: bool
  re_relay :: "(string \<Rightarrow> string option) option"

record registry =
  rg_rows :: "remote_workspace list"
  rg_secrets :: "secret store"
  rg_sessions :: "session list"
  rg_audit :: "audit_entry list"
  rg_notified :: "string list"

section \<open>Validation\<close>

text \<open>An administrator passes; anyone else needs a policy that opts in.\<close>

definition require_feature :: "portal \<Rightarrow> actor \<Rightarrow> api_error option" where
  "require_feature env act =
     (if ac_role act = role_admin then None
      else case px_users env (ac_id act) of
        Found u \<Rightarrow> (case px_policies env of
            None \<Rightarrow> Some (Unexpected [''listing workspace policies''])
          | Some ps \<Rightarrow> (case resolve_policy ps (user_identity u) of
              Inl _ \<Rightarrow> Some (Forbidden [''remote workspaces are not enabled for your policy''])
            | Inr (pol, _) \<Rightarrow> if remote_workspaces_allowed (Some pol) then None
                else Some (Forbidden [''remote workspaces are not enabled for your policy''])))
      | _ \<Rightarrow> Some (Forbidden [''remote workspaces are not enabled for your account'']))"

definition validate_remote_protocol_name :: "string \<Rightarrow> api_error option" where
  "validate_remote_protocol_name name =
     (if name = ''kasmvnc'' then Some (BadRequest [''kasmvnc is not supported for remote workspaces''])
      else if name \<notin> set protocols then Some (BadRequest (''protocol must be one of'' # filter (\<lambda>p. p \<noteq> ''kasmvnc'') protocols))
      else None)"

fun protocols_loop ::
  "string list \<Rightarrow> nat \<Rightarrow> remote_protocol_input list \<Rightarrow> api_error + remote_protocol list \<times> nat" where
  "protocols_loop seen n [] = Inr ([], n)"
| "protocols_loop seen n (e # es) =
     (case validate_remote_protocol_name (rpi_name e) of
        Some err \<Rightarrow> Inl err
      | None \<Rightarrow>
         if rpi_name e \<in> set seen then Inl (BadRequest [''protocol is declared twice'', rpi_name e])
         else if rpi_port e < 1 \<or> 65535 < rpi_port e then Inl (BadRequest [''port must be between 1 and 65535'', rpi_name e])
         else case validate_template_params (rpi_name e) (rpi_params e) of
           Some v \<Rightarrow> Inl (BadRequest [''params'', rpi_name e, vname v])
         | None \<Rightarrow>
            (case protocols_loop (rpi_name e # seen) (if rpi_default e then Suc n else n) es of
               Inl err \<Rightarrow> Inl err
             | Inr (out, k) \<Rightarrow>
                 Inr (\<lparr>rp_name = rpi_name e, rp_port = rpi_port e, rp_default = rpi_default e, rp_params = rpi_params e\<rparr> # out, k)))"

definition normalize_remote_protocols :: "remote_input \<Rightarrow> api_error + remote_protocol list" where
  "normalize_remote_protocols inp =
     (let entries = (if ri_protocols inp = []
                     then [\<lparr>rpi_name = ri_protocol inp, rpi_port = ri_port inp, rpi_default = True, rpi_params = ri_params inp\<rparr>]
                     else ri_protocols inp) in
      case protocols_loop [] 0 entries of
        Inl e \<Rightarrow> Inl e
      | Inr (out, n) \<Rightarrow>
          if 1 < n then Inl (BadRequest [''at most one protocol may be marked default''])
          else if n = 0 then Inr (case out of [] \<Rightarrow> [] | p # ps \<Rightarrow> p\<lparr>rp_default := True\<rparr> # ps)
          else Inr out)"

definition normalize_mac :: "string \<Rightarrow> string option" where
  "normalize_mac m = map_option mac_string (parse_mac (trim_space m))"

definition canonical_mac :: "string \<Rightarrow> string" where
  "canonical_mac m = (if m = [] then [] else case normalize_mac m of Some c \<Rightarrow> c | None \<Rightarrow> m)"

definition validate_remote_input :: "remote_env \<Rightarrow> remote_input \<Rightarrow> api_error option" where
  "validate_remote_input env inp =
     (if trim_space (ri_name inp) = [] then Some (BadRequest [''name is required''])
      else let host = trim_space (ri_hostname inp) in
        if host = [] \<or> list_ex (\<lambda>c. c \<in> {CHR '' '', CHR 0x09, CHR ''/'', CHR ''@''}) host
        then Some (BadRequest [''hostname must be a bare host or IP''])
        else case host_check (re_lower env) (re_resolver env) (re_guard env) host of
          Some e \<Rightarrow> Some e
        | None \<Rightarrow>
           if ri_mac_address inp \<noteq> [] \<and> normalize_mac (ri_mac_address inp) = None
           then Some (BadRequest [''macAddress: not a valid MAC address'']) else None)"

definition sync_legacy_protocol_fields :: "remote_workspace \<Rightarrow> remote_workspace" where
  "sync_legacy_protocol_fields rw =
     (let d = remote_default_protocol rw in rw\<lparr>rw_protocol := rp_name d, rw_port := rp_port d, rw_params := rp_params d\<rparr>)"

section \<open>The table\<close>

definition name_clash :: "remote_workspace \<Rightarrow> remote_workspace list \<Rightarrow> bool" where
  "name_clash rw rows \<longleftrightarrow>
     list_ex (\<lambda>r. rw_id r \<noteq> rw_id rw \<and> rw_owner_id r = rw_owner_id rw \<and> rw_name r = rw_name rw) rows"

datatype row_outcome = RowDone | RowDuplicate | RowMissing | RowFailed

definition remotes_create :: "bool \<Rightarrow> remote_workspace \<Rightarrow> remote_workspace list \<Rightarrow> row_outcome \<times> remote_workspace list" where
  "remotes_create ok rw rows =
     (if \<not> ok then (RowFailed, rows)
      else if rw_id rw \<in> rw_id ` set rows \<or> name_clash rw rows then (RowDuplicate, rows)
      else (RowDone, rows @ [rw]))"

text \<open>A row read back: one from before several endpoints were stored has its single one.\<close>

definition scan_remote_workspace :: "remote_workspace \<Rightarrow> remote_workspace" where
  "scan_remote_workspace rw = rw\<lparr>rw_protocols := remote_effective_protocols rw\<rparr>"

definition remotes_find :: "bool \<Rightarrow> string \<Rightarrow> remote_workspace list \<Rightarrow> remote_workspace fetched" where
  "remotes_find ok i rows =
     (if \<not> ok then Failed
      else case find (\<lambda>r. rw_id r = i) rows of None \<Rightarrow> Missing | Some r \<Rightarrow> Found (scan_remote_workspace r))"

definition remotes_by_owner :: "bool \<Rightarrow> string \<Rightarrow> remote_workspace list \<Rightarrow> remote_workspace list option" where
  "remotes_by_owner ok owner rows =
     (if ok then Some (sort_key rw_name (map scan_remote_workspace (filter (\<lambda>r. rw_owner_id r = owner) rows))) else None)"

definition remotes_all :: "bool \<Rightarrow> remote_workspace list \<Rightarrow> remote_workspace list option" where
  "remotes_all ok rows =
     (if ok then Some (sort_key (\<lambda>r. (rw_owner_id r, rw_name r)) (map scan_remote_workspace rows)) else None)"

text \<open>The columns \<open>UPDATE\<close> sets; the owner, the secret's name and the creation time stay.\<close>

definition updated_row :: "remote_workspace \<Rightarrow> remote_workspace \<Rightarrow> remote_workspace" where
  "updated_row rw r = r\<lparr>rw_name := rw_name rw, rw_hostname := rw_hostname rw, rw_port := rw_port rw, rw_protocol := rw_protocol rw,
     rw_protocols := rw_protocols rw, rw_mac_address := rw_mac_address rw, rw_params := rw_params rw,
     rw_credential_keys := rw_credential_keys rw, rw_updated_at := rw_updated_at rw\<rparr>"

definition remotes_update :: "bool \<Rightarrow> remote_workspace \<Rightarrow> remote_workspace list \<Rightarrow> row_outcome \<times> remote_workspace list" where
  "remotes_update ok rw rows =
     (if \<not> ok then (RowFailed, rows)
      else if rw_id rw \<notin> rw_id ` set rows then (RowMissing, rows)
      else if name_clash rw rows then (RowDuplicate, rows)
      else (RowDone, map (\<lambda>r. if rw_id r = rw_id rw then updated_row rw r else r) rows))"

definition remotes_delete :: "bool \<Rightarrow> string \<Rightarrow> remote_workspace list \<Rightarrow> row_outcome \<times> remote_workspace list" where
  "remotes_delete ok i rows =
     (if \<not> ok then (RowFailed, rows)
      else if i \<notin> rw_id ` set rows then (RowMissing, rows)
      else (RowDone, filter (\<lambda>r. rw_id r \<noteq> i) rows))"

section \<open>Credentials\<close>

definition label_remote :: string where "label_remote = ''waas.xorhub.io/remote-workspace''"

text \<open>The data of a secret as the API serves it.\<close>

definition data_entries :: "secret \<Rightarrow> (string \<times> string) list" where
  "data_entries s = fold (\<lambda>(k, v). AList.update k v) (sc_string_data s) (sc_data s)"

definition change_entry :: "string \<times> string option \<Rightarrow> (string \<times> string) list \<Rightarrow> (string \<times> string) list" where
  "change_entry = (\<lambda>(k, v) d. case v of None \<Rightarrow> d | Some x \<Rightarrow> if x = [] then AList.delete k d else AList.update k x d)"

definition remote_key :: "remote_env \<Rightarrow> remote_workspace \<Rightarrow> object_key" where
  "remote_key env rw = (px_namespace (re_portal env), rw_secret_name rw)"

definition blank_secret :: "object_key \<Rightarrow> secret" where
  "blank_secret k = \<lparr>sc_meta = \<lparr>md_name = snd k, md_namespace = fst k, md_uid = [], md_labels = Map.empty,
     md_annotations = Map.empty, md_deleted = False, md_created = 0\<rparr>, sc_type = [], sc_data = [], sc_string_data = [],
     sc_controller = None\<rparr>"

definition credentials_secret :: "remote_workspace \<Rightarrow> remote_credentials_input option \<Rightarrow> secret \<Rightarrow> secret" where
  "credentials_secret rw inp s =
     s\<lparr>sc_meta := (sc_meta s)\<lparr>md_labels := (md_labels (sc_meta s))(label_managed_by \<mapsto> ''waas-api-server'',
          label_remote \<mapsto> rw_id rw, label_owner \<mapsto> rw_owner_id rw)\<rparr>,
       sc_data := fold change_entry (secret_keys inp) (data_entries s), sc_string_data := []\<rparr>"

definition credential_keys :: "secret \<Rightarrow> string list" where
  "credential_keys s = sort (remdups (map fst (sc_data s)))"

definition secret_failed :: "string \<Rightarrow> remote_workspace \<Rightarrow> api_error" where
  "secret_failed what rw = Unexpected [what, rw_secret_name rw]"

definition write_credentials ::
  "remote_env \<Rightarrow> remote_workspace \<Rightarrow> remote_credentials_input option \<Rightarrow> bool \<Rightarrow> secret store
     \<Rightarrow> (api_error + string list) \<times> secret store" where
  "write_credentials env rw inp new st =
     (let k = remote_key env rw;
          put = (\<lambda>call s. let s' = credentials_secret rw inp s in
                   case call (re_secret env) st k s' of
                     (Done, st') \<Rightarrow> (Inr (credential_keys s'), st')
                   | (_, st') \<Rightarrow> (Inl (secret_failed ''writing credentials secret'' rw), st')) in
      if new then put kube_create (blank_secret k)
      else case kube_get (re_secret env) st k of
        Failed \<Rightarrow> (Inl (secret_failed ''reading credentials secret'' rw), st)
      | Missing \<Rightarrow> put kube_create (blank_secret k)
      | Found s \<Rightarrow> put kube_update s)"

section \<open>Operations\<close>

definition duplicate_name :: "remote_workspace \<Rightarrow> api_error" where
  "duplicate_name rw = Conflict [''you already have a remote workspace named'', rw_name rw]"

definition row_error :: "remote_workspace \<Rightarrow> row_outcome \<Rightarrow> api_error" where
  "row_error rw r = (if r = RowDuplicate then duplicate_name rw else Unexpected [''writing remote workspace'', rw_id rw])"

definition noted :: "actor \<Rightarrow> string \<Rightarrow> string \<Rightarrow> string list \<Rightarrow> registry \<Rightarrow> registry" where
  "noted act action i about st = st\<lparr>rg_audit := rg_audit st @ [record_audit act action ''remote_workspace'' i about]\<rparr>"

definition notified :: "string \<Rightarrow> registry \<Rightarrow> registry" where
  "notified owner st = st\<lparr>rg_notified := rg_notified st @ [owner]\<rparr>"

definition list_remotes :: "remote_env \<Rightarrow> actor \<Rightarrow> registry \<Rightarrow> api_error + remote_workspace list" where
  "list_remotes env act st =
     (case require_feature (re_portal env) act of
        Some e \<Rightarrow> Inl e
      | None \<Rightarrow> (case remotes_by_owner (re_reads_ok env) (ac_id act) (rg_rows st) of
          None \<Rightarrow> Inl (Unexpected [''listing remote workspaces'']) | Some rs \<Rightarrow> Inr rs))"

text \<open>The fields a request writes, on a new row or on a stored one.\<close>

definition described :: "remote_env \<Rightarrow> remote_input \<Rightarrow> remote_protocol list \<Rightarrow> remote_workspace \<Rightarrow> remote_workspace" where
  "described env inp ps rw = sync_legacy_protocol_fields
     (rw\<lparr>rw_name := trim_space (ri_name inp), rw_hostname := trim_space (ri_hostname inp), rw_protocols := ps,
         rw_mac_address := canonical_mac (ri_mac_address inp), rw_updated_at := px_now (re_portal env)\<rparr>)"

definition new_remote :: "remote_env \<Rightarrow> actor \<Rightarrow> remote_workspace" where
  "new_remote env act =
     \<lparr>rw_id = px_fresh_id (re_portal env), rw_owner_id = ac_id act, rw_name = [], rw_hostname = [], rw_port = 0, rw_protocol = [],
      rw_protocols = [], rw_mac_address = [], rw_params = [], rw_secret_name = ''waas-remote-'' @ px_fresh_id (re_portal env),
      rw_credential_keys = [], rw_created_at = px_now (re_portal env), rw_updated_at = px_now (re_portal env)\<rparr>"

definition create_remote :: "remote_env \<Rightarrow> actor \<Rightarrow> remote_input \<Rightarrow> registry \<Rightarrow> (api_error + remote_workspace) \<times> registry" where
  "create_remote env act inp st =
     (case require_feature (re_portal env) act of
        Some e \<Rightarrow> (Inl e, st)
      | None \<Rightarrow> (case validate_remote_input env inp of
          Some e \<Rightarrow> (Inl e, st)
        | None \<Rightarrow> (case normalize_remote_protocols inp of
            Inl e \<Rightarrow> (Inl e, st)
          | Inr ps \<Rightarrow>
             (let rw = described env inp ps (new_remote env act) in
              case write_credentials env rw (ri_credentials inp) True (rg_secrets st) of
                (Inl e, ss) \<Rightarrow> (Inl e, st\<lparr>rg_secrets := ss\<rparr>)
              | (Inr ks, ss) \<Rightarrow>
                 (let rw' = rw\<lparr>rw_credential_keys := ks\<rparr> in
                  case remotes_create (re_writes_ok env) rw' (rg_rows st) of
                    (RowDone, rows) \<Rightarrow>
                      (Inr rw', notified (rw_owner_id rw') (noted act ''remote_workspace.created'' (rw_id rw')
                         [rw_name rw', rw_hostname rw', rw_protocol rw'] (st\<lparr>rg_secrets := ss, rg_rows := rows\<rparr>)))
                  | (r, _) \<Rightarrow>
                      (Inl (row_error rw' r), st\<lparr>rg_secrets := snd (kube_delete (re_secret env) ss (remote_key env rw'))\<rparr>))))))"

definition fetch_owned :: "remote_env \<Rightarrow> actor \<Rightarrow> string \<Rightarrow> registry \<Rightarrow> api_error + remote_workspace" where
  "fetch_owned env act i st =
     (case remotes_find (re_reads_ok env) i (rg_rows st) of
        Missing \<Rightarrow> Inl (NotFound [''remote workspace not found''])
      | Failed \<Rightarrow> Inl (Unexpected [''finding remote workspace'', i])
      | Found rw \<Rightarrow> if rw_owner_id rw \<noteq> ac_id act then Inl (NotFound [''remote workspace not found'']) else Inr rw)"

text \<open>The gate of every operation on one entry: the feature, then the ownership.\<close>

definition owned_remote :: "remote_env \<Rightarrow> actor \<Rightarrow> string \<Rightarrow> registry \<Rightarrow> api_error + remote_workspace" where
  "owned_remote env act i st =
     (case require_feature (re_portal env) act of Some e \<Rightarrow> Inl e | None \<Rightarrow> fetch_owned env act i st)"

definition get_remote :: "remote_env \<Rightarrow> actor \<Rightarrow> string \<Rightarrow> registry \<Rightarrow> api_error + remote_workspace" where
  "get_remote env act i st = owned_remote env act i st"

definition update_remote ::
  "remote_env \<Rightarrow> actor \<Rightarrow> string \<Rightarrow> remote_input \<Rightarrow> registry \<Rightarrow> (api_error + remote_workspace) \<times> registry" where
  "update_remote env act i inp st =
     (case owned_remote env act i st of
        Inl e \<Rightarrow> (Inl e, st)
      | Inr rw0 \<Rightarrow> (case validate_remote_input env inp of
          Some e \<Rightarrow> (Inl e, st)
        | None \<Rightarrow> (case normalize_remote_protocols inp of
            Inl e \<Rightarrow> (Inl e, st)
          | Inr ps \<Rightarrow>
             (let rw = described env inp ps rw0 in
              case write_credentials env rw (ri_credentials inp) False (rg_secrets st) of
                (Inl e, ss) \<Rightarrow> (Inl e, st\<lparr>rg_secrets := ss\<rparr>)
              | (Inr ks, ss) \<Rightarrow>
                 (let rw' = rw\<lparr>rw_credential_keys := ks\<rparr> in
                  case remotes_update (re_writes_ok env) rw' (rg_rows st) of
                    (RowDone, rows) \<Rightarrow>
                      (Inr rw', notified (rw_owner_id rw') (noted act ''remote_workspace.updated'' (rw_id rw')
                         [rw_name rw', rw_hostname rw', rw_protocol rw'] (st\<lparr>rg_secrets := ss, rg_rows := rows\<rparr>)))
                  | (r, _) \<Rightarrow> (Inl (row_error rw' r), st\<lparr>rg_secrets := ss\<rparr>))))))"

definition delete_remote :: "remote_env \<Rightarrow> actor \<Rightarrow> string \<Rightarrow> registry \<Rightarrow> (api_error + unit) \<times> registry" where
  "delete_remote env act i st =
     (case owned_remote env act i st of
        Inl e \<Rightarrow> (Inl e, st)
      | Inr rw \<Rightarrow> (case remotes_delete (re_writes_ok env) (rw_id rw) (rg_rows st) of
          (RowDone, rows) \<Rightarrow>
            (case kube_delete (re_secret env) (rg_secrets st) (remote_key env rw) of (r, ss) \<Rightarrow>
              if \<not> deleted_or_gone r
              then (Inl (secret_failed ''deleting credentials secret'' rw), st\<lparr>rg_rows := rows, rg_secrets := ss\<rparr>)
              else let sessions = (if px_sessions_ok (re_portal env)
                         then snd (end_all_for_workspace (rw_id rw) (px_now (re_portal env)) (rg_sessions st)) else rg_sessions st) in
                (Inr (), notified (rw_owner_id rw) (noted act ''remote_workspace.deleted'' (rw_id rw) [rw_name rw]
                   (st\<lparr>rg_rows := rows, rg_secrets := ss, rg_sessions := sessions\<rparr>))))
        | (_, _) \<Rightarrow> (Inl (Unexpected [''deleting remote workspace'', i]), st)))"

text \<open>The endpoint a connection asks for.\<close>

definition remote_entry :: "remote_workspace \<Rightarrow> connect_input \<Rightarrow> remote_protocol option" where
  "remote_entry rw inp =
     (if cn_protocol inp \<noteq> [] then remote_protocol_named rw (cn_protocol inp) else Some (remote_default_protocol rw))"

definition remote_session :: "portal \<Rightarrow> actor \<Rightarrow> remote_workspace \<Rightarrow> remote_protocol \<Rightarrow> connect_input \<Rightarrow> session" where
  "remote_session env act rw e inp =
     \<lparr>sn_id = px_fresh_id env, sn_user_id = ac_id act, sn_workspace_id = rw_id rw, sn_workspace_name = rw_name rw,
      sn_protocol = rp_name e, sn_client_ip = ac_client_ip act, sn_started_at = px_now env, sn_ended_at = None,
      sn_params = cn_params inp, sn_kind = session_kind_remote\<rparr>"

definition remote_refusal :: "remote_env \<Rightarrow> remote_workspace \<Rightarrow> remote_protocol \<Rightarrow> connect_input \<Rightarrow> api_error option" where
  "remote_refusal env rw e inp =
     (case validate_remote_protocol_name (rp_name e) of
        Some err \<Rightarrow> Some err
      | None \<Rightarrow> (case host_check (re_lower env) (re_resolver env) (re_guard env) (rw_hostname rw) of
          Some err \<Rightarrow> Some err
        | None \<Rightarrow> (case validate_template_params (rp_name e) (cn_params inp) of
            Some v \<Rightarrow> Some (BadRequest [''params'', vname v]) | None \<Rightarrow> None)))"

definition connect_remote ::
  "remote_env \<Rightarrow> actor \<Rightarrow> string \<Rightarrow> connect_input \<Rightarrow> registry \<Rightarrow> (api_error + connect_result) \<times> registry" where
  "connect_remote env act i inp st =
     (case owned_remote env act i st of
        Inl e \<Rightarrow> (Inl e, st)
      | Inr rw \<Rightarrow> (case remote_entry rw inp of
          None \<Rightarrow> (Inl (BadRequest [''protocol is not declared by this remote workspace'', cn_protocol inp]), st)
        | Some entry \<Rightarrow> (case remote_refusal env rw entry inp of
            Some e \<Rightarrow> (Inl e, st)
          | None \<Rightarrow>
             (let p = re_portal env; s = remote_session p act rw entry inp in
              case session_create (px_sessions_ok p) s (rg_sessions st) of
                (Inl e, _) \<Rightarrow> (Inl (Unexpected [''recording session'']), st)
              | (Inr _, sessions) \<Rightarrow>
                 (let grant = resolve_clipboard_grant p act;
                      eff = clamp_clipboard_grant grant (merge_params (rp_params entry) (cn_params inp));
                      claims = session_claims p act (rw_id rw) eff;
                      st' = st\<lparr>rg_sessions := sessions\<rparr> in
                  case px_sign p (ConnectionPayload (fst claims) (snd claims)) of
                    None \<Rightarrow> (Inl (Unexpected [''issuing connection token'']), st')
                  | Some token \<Rightarrow>
                     (Inr \<lparr>cr_session_id = sn_id s, cr_token = token, cr_protocol = rp_name entry,
                           cr_capabilities = clipboard_capabilities grant eff\<rparr>,
                      st'\<lparr>rg_audit := rg_audit st @ [record_audit act ''session.started'' ''session'' (sn_id s)
                            [rw_name rw, rw_hostname rw, rp_name entry]]\<rparr>))))))"

definition wake_remote :: "remote_env \<Rightarrow> actor \<Rightarrow> string \<Rightarrow> registry \<Rightarrow> (api_error + unit) \<times> registry" where
  "wake_remote env act i st =
     (case owned_remote env act i st of
        Inl e \<Rightarrow> (Inl e, st)
      | Inr rw \<Rightarrow>
         if rw_mac_address rw = [] then (Inl (BadRequest [''this remote workspace has no MAC address'']), st)
         else case re_relay env of
           None \<Rightarrow> (Inl (Unavailable [''Wake-on-LAN is not configured on this platform'']), st)
         | Some relay \<Rightarrow> (case relay (rw_mac_address rw) of
             Some err \<Rightarrow> (Inl (Unavailable [''wake relay failed'', err]), st)
           | None \<Rightarrow> (Inr (), noted act ''remote_workspace.woke'' (rw_id rw) [rw_name rw, rw_mac_address rw] st)))"

record remote_admin_row =
  ra_id :: string
  ra_owner_id :: string
  ra_owner_username :: string
  ra_name :: string
  ra_hostname :: string
  ra_port :: int
  ra_protocol :: string
  ra_mac_address :: string
  ra_has_credentials :: bool
  ra_last_connected_at :: "int option"
  ra_active_now :: bool
  ra_created_at :: int

definition admin_row :: "remote_env \<Rightarrow> registry \<Rightarrow> remote_workspace \<Rightarrow> remote_admin_row" where
  "admin_row env st rw =
     (let act = session_activity (rg_sessions st) (rw_id rw) in
      \<lparr>ra_id = rw_id rw, ra_owner_id = rw_owner_id rw,
       ra_owner_username = (case px_users (re_portal env) (rw_owner_id rw) of Found u \<Rightarrow> us_username u | _ \<Rightarrow> []),
       ra_name = rw_name rw, ra_hostname = rw_hostname rw, ra_port = rw_port rw, ra_protocol = rw_protocol rw,
       ra_mac_address = rw_mac_address rw, ra_has_credentials = rw_credential_keys rw \<noteq> [],
       ra_last_connected_at = map_option wa_last act, ra_active_now = (case act of None \<Rightarrow> False | Some a \<Rightarrow> wa_active_now a),
       ra_created_at = rw_created_at rw\<rparr>)"

definition admin_list_remotes :: "remote_env \<Rightarrow> registry \<Rightarrow> api_error + remote_admin_row list" where
  "admin_list_remotes env st =
     (case remotes_all (re_reads_ok env) (rg_rows st) of
        None \<Rightarrow> Inl (Unexpected [''listing all remote workspaces''])
      | Some rows \<Rightarrow> if \<not> px_sessions_ok (re_portal env) then Inl (Unexpected [''reading activity''])
          else Inr (map (admin_row env st) rows))"

section \<open>Canonical addresses and endpoints\<close>

lemma trim_space_plain: "list_all (\<lambda>c. 33 \<le> byte c \<and> byte c < 128) s \<Longrightarrow> trim_space s = s"
proof -
  assume a: "list_all (\<lambda>c. 33 \<le> byte c \<and> byte c < 128) s"
  have keep: "list_all (\<lambda>c. 33 \<le> byte c \<and> byte c < 128) t \<Longrightarrow> dropWhile (\<lambda>c. is_space_rune (byte c)) t = t" for t
    by (cases t) (auto simp: is_space_rune_def)
  have "list_all (\<lambda>c. byte c < 128) s" using a by (auto simp: list_all_iff)
  then show ?thesis using a keep [of s] keep [of "rev s"] by (simp add: trim_space_ascii Let_def list_all_iff)
qed

lemma mac_string_plain:
  "list_all (\<lambda>b. b < 256) bs \<Longrightarrow> list_all (\<lambda>c. 33 \<le> byte c \<and> byte c < 128) (mac_string bs)"
proof (induction bs rule: mac_string.induct)
  case (2 b)
  then show ?case using hex_char_props [of "b div 16"] hex_char_props [of "b mod 16"] by auto
next
  case (3 b c bs)
  then show ?case using hex_char_props [of "b div 16"] hex_char_props [of "b mod 16"] by auto
qed simp

lemma normalize_mac_canonical:
  assumes "normalize_mac m = Some c"
  shows "normalize_mac c = Some c" "c \<noteq> []"
proof -
  obtain bs where bs: "parse_mac (trim_space m) = Some bs" "c = mac_string bs"
    using assms by (auto simp: normalize_mac_def)
  note r = parse_mac_range [OF bs(1)]
  show "normalize_mac c = Some c"
    using r by (simp add: normalize_mac_def bs(2) trim_space_plain mac_string_plain parse_mac_string)
  show "c \<noteq> []" using r(2) by (cases bs rule: mac_string.cases) (auto simp: bs(2) mac_lengths_def)
qed

definition protocols_ok :: "remote_protocol list \<Rightarrow> bool" where
  "protocols_ok ps \<longleftrightarrow> ps \<noteq> [] \<and> distinct (map rp_name ps) \<and> length (filter rp_default ps) = 1 \<and>
     (\<forall>p \<in> set ps. rp_name p \<in> set protocols \<and> rp_name p \<noteq> ''kasmvnc'' \<and> 1 \<le> rp_port p \<and> rp_port p \<le> 65535 \<and>
        (\<forall>nv \<in> set (rp_params p). settable (rp_name p) nv))"

lemma protocols_loop_ok:
  "protocols_loop seen n es = Inr (out, k) \<Longrightarrow>
     (out = [] \<longleftrightarrow> es = []) \<and> distinct (map rp_name out) \<and> set (map rp_name out) \<inter> set seen = {} \<and>
     k = n + length (filter rp_default out) \<and>
     (\<forall>p \<in> set out. rp_name p \<in> set protocols \<and> rp_name p \<noteq> ''kasmvnc'' \<and> 1 \<le> rp_port p \<and> rp_port p \<le> 65535 \<and>
        (\<forall>nv \<in> set (rp_params p). settable (rp_name p) nv))"
proof (induction es arbitrary: seen n out k)
  case (Cons e es)
  from Cons.prems obtain out' where o: "protocols_loop (rpi_name e # seen) (if rpi_default e then Suc n else n) es = Inr (out', k)"
    "out = \<lparr>rp_name = rpi_name e, rp_port = rpi_port e, rp_default = rpi_default e, rp_params = rpi_params e\<rparr> # out'"
    "validate_remote_protocol_name (rpi_name e) = None" "rpi_name e \<notin> set seen" "1 \<le> rpi_port e" "rpi_port e \<le> 65535"
    "validate_template_params (rpi_name e) (rpi_params e) = None"
    by (auto split: option.splits if_splits sum.splits)
  have n: "rpi_name e \<in> set protocols" "rpi_name e \<noteq> ''kasmvnc''"
    using o(3) by (auto simp: validate_remote_protocol_name_def split: if_splits)
  have p: "\<forall>nv \<in> set (rpi_params e). settable (rpi_name e) nv"
    using o(7) by (simp add: validate_template_params_iff)
  show ?case using Cons.IH [OF o(1)] o(2,4-6) n p by auto
qed simp

lemma normalized_ok:
  assumes "normalize_remote_protocols inp = Inr ps"
  shows "protocols_ok ps"
proof -
  define es where "es = (if ri_protocols inp = []
      then [\<lparr>rpi_name = ri_protocol inp, rpi_port = ri_port inp, rpi_default = True, rpi_params = ri_params inp\<rparr>]
      else ri_protocols inp)"
  obtain out n where o: "protocols_loop [] 0 es = Inr (out, n)" "n \<le> 1"
    "ps = (if n = 0 then (case out of [] \<Rightarrow> [] | p # ps \<Rightarrow> p\<lparr>rp_default := True\<rparr> # ps) else out)"
    using assms by (auto simp: normalize_remote_protocols_def Let_def es_def [symmetric] split: sum.splits prod.splits if_splits)
  note f = protocols_loop_ok [OF o(1)]
  have "es \<noteq> []" by (simp add: es_def)
  then obtain p out' where c: "out = p # out'" using f by (cases out) auto
  show ?thesis
  proof (cases "n = 0")
    case True
    then have "filter rp_default out = []" using f by simp
    with True f c show ?thesis by (auto simp: protocols_ok_def o(3) split: if_splits)
  next
    case False
    with o(2) have "n = 1" by simp
    with f c False show ?thesis by (auto simp: protocols_ok_def o(3))
  qed
qed

text \<open>A stored entry; the single-protocol fields are its default endpoint.\<close>

definition remote_ok :: "remote_workspace \<Rightarrow> bool" where
  "remote_ok rw \<longleftrightarrow> protocols_ok (rw_protocols rw) \<and>
     (\<forall>p \<in> set (rw_protocols rw). rp_default p \<longrightarrow> rw_protocol rw = rp_name p \<and> rw_port rw = rp_port p \<and> rw_params rw = rp_params p) \<and>
     (rw_mac_address rw = [] \<or> normalize_mac (rw_mac_address rw) = Some (rw_mac_address rw)) \<and>
     rw_name rw \<noteq> [] \<and> rw_hostname rw \<noteq> [] \<and> set (rw_hostname rw) \<inter> {CHR '' '', CHR 0x09, CHR ''/'', CHR ''@''} = {} \<and>
     rw_secret_name rw = ''waas-remote-'' @ rw_id rw"

definition registry_ok :: "registry \<Rightarrow> bool" where
  "registry_ok st \<longleftrightarrow> (\<forall>rw \<in> set (rg_rows st). remote_ok rw) \<and> distinct (map rw_id (rg_rows st)) \<and>
     distinct (map (\<lambda>r. (rw_owner_id r, rw_name r)) (rg_rows st))"

lemma the_default:
  assumes "protocols_ok ps" "p \<in> set ps" "rp_default p" "q \<in> set ps" "rp_default q"
  shows "p = q"
proof -
  obtain d where "filter rp_default ps = [d]"
    using assms(1) by (auto simp: protocols_ok_def length_Suc_conv)
  moreover have "p \<in> set (filter rp_default ps)" "q \<in> set (filter rp_default ps)" using assms(2-5) by simp_all
  ultimately show ?thesis by simp
qed

lemma described_fields [simp]:
  "rw_id (described env inp ps rw) = rw_id rw" "rw_owner_id (described env inp ps rw) = rw_owner_id rw"
  "rw_secret_name (described env inp ps rw) = rw_secret_name rw" "rw_protocols (described env inp ps rw) = ps"
  "rw_name (described env inp ps rw) = trim_space (ri_name inp)" "rw_hostname (described env inp ps rw) = trim_space (ri_hostname inp)"
  "rw_mac_address (described env inp ps rw) = canonical_mac (ri_mac_address inp)"
  by (simp_all add: described_def sync_legacy_protocol_fields_def Let_def)

lemma described_ok:
  assumes "validate_remote_input env inp = None" "normalize_remote_protocols inp = Inr ps"
    "rw_secret_name rw = ''waas-remote-'' @ rw_id rw"
  shows "remote_ok (described env inp ps rw)"
proof -
  note ps = normalized_ok [OF assms(2)]
  let ?rw = "described env inp ps rw"
  have d: "rw_protocol ?rw = rp_name p \<and> rw_port ?rw = rp_port p \<and> rw_params ?rw = rp_params p"
    if p: "p \<in> set ps" "rp_default p" for p
  proof -
    have "remote_default_protocol r = p" if "rw_protocols r = ps" for r
    proof -
      obtain q where "find rp_default ps = Some q" using p by (cases "find rp_default ps") (auto simp: find_None_iff)
      moreover from this have "q \<in> set ps \<and> rp_default q" by (rule find_SomeD)
      ultimately show ?thesis
        using the_default [OF ps _ _ p, of q] that ps by (simp add: remote_default_protocol_def remote_effective_protocols_def protocols_ok_def)
    qed
    then show ?thesis by (simp add: described_def sync_legacy_protocol_fields_def Let_def)
  qed
  have mac: "canonical_mac (ri_mac_address inp) = [] \<or>
      normalize_mac (canonical_mac (ri_mac_address inp)) = Some (canonical_mac (ri_mac_address inp))"
    using assms(1) normalize_mac_canonical(1)
    by (auto simp: canonical_mac_def validate_remote_input_def Let_def split: if_splits option.splits)
  have names: "trim_space (ri_name inp) \<noteq> []" "trim_space (ri_hostname inp) \<noteq> []"
    "set (trim_space (ri_hostname inp)) \<inter> {CHR '' '', CHR 0x09, CHR ''/'', CHR ''@''} = {}"
    using assms(1) by (auto simp: validate_remote_input_def Let_def list_ex_iff split: if_splits)
  show ?thesis using ps d mac names assms(3) by (simp add: remote_ok_def)
qed

section \<open>What a request does to the table\<close>

lemma owned_remoteE:
  assumes "owned_remote env act i st = Inr rw"
  obtains r where "r \<in> set (rg_rows st)" "rw_id r = i" "rw_owner_id r = ac_id act" "rw = scan_remote_workspace r"
    "require_feature (re_portal env) act = None"
  using assms by (auto simp: owned_remote_def fetch_owned_def remotes_find_def scan_remote_workspace_def
      split: option.splits fetched.splits if_splits dest!: find_SomeD)

lemma scan_effective [simp]: "remote_effective_protocols (scan_remote_workspace r) = remote_effective_protocols r"
  by (simp add: scan_remote_workspace_def remote_effective_protocols_def)

lemma scan_fields [simp]:
  "rw_id (scan_remote_workspace r) = rw_id r" "rw_owner_id (scan_remote_workspace r) = rw_owner_id r"
  "rw_secret_name (scan_remote_workspace r) = rw_secret_name r" "rw_hostname (scan_remote_workspace r) = rw_hostname r"
  "rw_name (scan_remote_workspace r) = rw_name r" "rw_mac_address (scan_remote_workspace r) = rw_mac_address r"
  "rw_protocols (scan_remote_workspace r) = remote_effective_protocols r"
  "remote_default_protocol (scan_remote_workspace r) = remote_default_protocol r"
  "remote_protocol_named (scan_remote_workspace r) n = remote_protocol_named r n"
  unfolding remote_default_protocol_def remote_protocol_named_def scan_effective
  by (simp_all add: scan_remote_workspace_def)

lemma noted_fields [simp]:
  "rg_rows (noted act action i about st) = rg_rows st" "rg_secrets (noted act action i about st) = rg_secrets st"
  "rg_sessions (noted act action i about st) = rg_sessions st" "rg_rows (notified owner st) = rg_rows st"
  "rg_secrets (notified owner st) = rg_secrets st" "rg_sessions (notified owner st) = rg_sessions st"
  by (simp_all add: noted_def notified_def)

definition stored_now :: "remote_env \<Rightarrow> remote_input \<Rightarrow> remote_workspace \<Rightarrow> string list \<Rightarrow> remote_workspace \<Rightarrow> bool" where
  "stored_now env inp rw0 ks rw \<longleftrightarrow> validate_remote_input env inp = None \<and>
     (\<exists>ps. normalize_remote_protocols inp = Inr ps \<and> rw = (described env inp ps rw0)\<lparr>rw_credential_keys := ks\<rparr>)"

lemma remote_ok_keys [simp]: "remote_ok (rw\<lparr>rw_credential_keys := ks\<rparr>) = remote_ok rw"
  by (simp add: remote_ok_def)

lemma stored_now_ok:
  "stored_now env inp rw0 ks rw \<Longrightarrow> rw_secret_name rw0 = ''waas-remote-'' @ rw_id rw0 \<Longrightarrow>
     remote_ok rw \<and> rw_id rw = rw_id rw0 \<and> rw_owner_id rw = rw_owner_id rw0 \<and> rw_secret_name rw = rw_secret_name rw0"
  using described_ok [of env inp _ rw0] by (auto simp: stored_now_def simp del: append.simps)

lemma remotes_create_rows:
  "remotes_create ok rw rows = (RowDone, rows') \<Longrightarrow> rw_id rw \<notin> rw_id ` set rows \<and> \<not> name_clash rw rows \<and> rows' = rows @ [rw]"
  by (auto simp: remotes_create_def split: if_splits)

lemma remotes_update_rows:
  "remotes_update ok rw rows = (RowDone, rows') \<Longrightarrow> \<not> name_clash rw rows \<and>
     rows' = map (\<lambda>r. if rw_id r = rw_id rw then updated_row rw r else r) rows"
  by (auto simp: remotes_update_def split: if_splits)

lemma create_rows:
  assumes "create_remote env act inp st = (res, st')"
  shows "rg_sessions st' = rg_sessions st \<and> (rg_rows st' = rg_rows st \<or>
    (\<exists>ks rw. stored_now env inp (new_remote env act) ks rw \<and> rw_id rw \<notin> rw_id ` set (rg_rows st) \<and>
       \<not> name_clash rw (rg_rows st) \<and> rg_rows st' = rg_rows st @ [rw]))"
proof (cases "require_feature (re_portal env) act = None \<and> validate_remote_input env inp = None \<and> is_ok (normalize_remote_protocols inp)")
  case False
  with assms show ?thesis by (auto simp: create_remote_def is_ok_def split: option.splits sum.splits)
next
  case True
  then obtain ps where f: "require_feature (re_portal env) act = None" "validate_remote_input env inp = None"
    "normalize_remote_protocols inp = Inr ps" by (auto simp: is_ok_def split: sum.splits)
  define rw where "rw = described env inp ps (new_remote env act)"
  obtain w ss where w: "write_credentials env rw (ri_credentials inp) True (rg_secrets st) = (w, ss)" by fastforce
  show ?thesis
  proof (cases w)
    case (Inl e)
    with assms f w show ?thesis by (auto simp: create_remote_def rw_def Let_def)
  next
    case (Inr ks)
    obtain r rows where r: "remotes_create (re_writes_ok env) (rw\<lparr>rw_credential_keys := ks\<rparr>) (rg_rows st) = (r, rows)" by fastforce
    have s: "stored_now env inp (new_remote env act) ks (rw\<lparr>rw_credential_keys := ks\<rparr>)"
      using f by (simp add: stored_now_def rw_def)
    show ?thesis
    proof (cases "r = RowDone")
      case True
      with assms f w Inr r have "rg_rows st' = rows" "rg_sessions st' = rg_sessions st"
        by (auto simp: create_remote_def rw_def Let_def)
      with remotes_create_rows [of "re_writes_ok env" "rw\<lparr>rw_credential_keys := ks\<rparr>" "rg_rows st" rows] r True s show ?thesis by blast
    next
      case False
      with assms f w Inr r show ?thesis by (cases r) (auto simp: create_remote_def rw_def Let_def)
    qed
  qed
qed

lemma update_rows:
  assumes "update_remote env act i inp st = (res, st')"
  shows "rg_sessions st' = rg_sessions st \<and> (rg_rows st' = rg_rows st \<or>
    (\<exists>ks r rw. r \<in> set (rg_rows st) \<and> rw_id r = i \<and> rw_owner_id r = ac_id act \<and>
       stored_now env inp (scan_remote_workspace r) ks rw \<and> \<not> name_clash rw (rg_rows st) \<and>
       rg_rows st' = map (\<lambda>r. if rw_id r = i then updated_row rw r else r) (rg_rows st)))"
proof (cases "is_ok (owned_remote env act i st) \<and> validate_remote_input env inp = None \<and> is_ok (normalize_remote_protocols inp)")
  case False
  with assms show ?thesis by (auto simp: update_remote_def is_ok_def split: option.splits sum.splits)
next
  case True
  then obtain rw0 ps where f: "owned_remote env act i st = Inr rw0" "validate_remote_input env inp = None"
    "normalize_remote_protocols inp = Inr ps" by (auto simp: is_ok_def split: sum.splits)
  obtain r where r0: "r \<in> set (rg_rows st)" "rw_id r = i" "rw_owner_id r = ac_id act" "rw0 = scan_remote_workspace r"
    using owned_remoteE [OF f(1)] by blast
  define rw where "rw = described env inp ps rw0"
  obtain w ss where w: "write_credentials env rw (ri_credentials inp) False (rg_secrets st) = (w, ss)" by fastforce
  show ?thesis
  proof (cases w)
    case (Inl e)
    with assms f w show ?thesis by (auto simp: update_remote_def rw_def Let_def)
  next
    case (Inr ks)
    define rw' where "rw' = rw\<lparr>rw_credential_keys := ks\<rparr>"
    obtain q rows where q: "remotes_update (re_writes_ok env) rw' (rg_rows st) = (q, rows)" by fastforce
    have s: "stored_now env inp (scan_remote_workspace r) ks rw'"
      using f r0(4) by (simp add: stored_now_def rw'_def rw_def)
    show ?thesis
    proof (cases "q = RowDone")
      case True
      with assms f w Inr q have "rg_rows st' = rows" "rg_sessions st' = rg_sessions st"
        by (auto simp: update_remote_def rw_def rw'_def Let_def)
      moreover have "rw_id rw' = i" by (simp add: rw'_def rw_def r0)
      ultimately show ?thesis
        using remotes_update_rows [of "re_writes_ok env" rw' "rg_rows st" rows] q True s r0(1-3) by auto
    next
      case False
      with assms f w Inr q show ?thesis by (cases q) (auto simp: update_remote_def rw_def rw'_def Let_def)
    qed
  qed
qed

lemma delete_rows:
  assumes "delete_remote env act i st = (res, st')"
  shows "rg_rows st' = rg_rows st \<or> rg_rows st' = filter (\<lambda>r. rw_id r \<noteq> i) (rg_rows st)"
proof (cases "owned_remote env act i st")
  case (Inr rw)
  then have "rw_id rw = i" by (elim owned_remoteE) simp
  with Inr assms show ?thesis
    by (auto simp: delete_remote_def remotes_delete_def Let_def split: if_splits prod.splits row_outcome.splits)
qed (use assms in \<open>simp add: delete_remote_def\<close>)

lemma connect_rows: "connect_remote env act i inp st = (res, st') \<Longrightarrow> rg_rows st' = rg_rows st \<and> rg_secrets st' = rg_secrets st"
  by (auto simp: connect_remote_def Let_def split: sum.splits option.splits prod.splits)

lemma wake_rows:
  "wake_remote env act i st = (res, st') \<Longrightarrow> rg_rows st' = rg_rows st \<and> rg_secrets st' = rg_secrets st \<and> rg_sessions st' = rg_sessions st"
  by (auto simp: wake_remote_def split: sum.splits option.splits if_splits)

section \<open>Sequences of requests\<close>

datatype remote_request =
    CreateRemote remote_input
  | UpdateRemote string remote_input
  | DeleteRemote string
  | ConnectRemote string connect_input
  | WakeRemote string

definition answer_of :: "(api_error + 'a) \<times> registry \<Rightarrow> api_error option \<times> registry" where
  "answer_of = (\<lambda>(res, st). (case res of Inl e \<Rightarrow> Some e | Inr _ \<Rightarrow> None, st))"

fun remote_step :: "remote_env \<Rightarrow> actor \<Rightarrow> remote_request \<Rightarrow> registry \<Rightarrow> api_error option \<times> registry" where
  "remote_step env act (CreateRemote inp) st = answer_of (create_remote env act inp st)"
| "remote_step env act (UpdateRemote i inp) st = answer_of (update_remote env act i inp st)"
| "remote_step env act (DeleteRemote i) st = answer_of (delete_remote env act i st)"
| "remote_step env act (ConnectRemote i inp) st = answer_of (connect_remote env act i inp st)"
| "remote_step env act (WakeRemote i) st = answer_of (wake_remote env act i st)"

fun run_remotes :: "(remote_env \<times> actor \<times> remote_request) list \<Rightarrow> registry \<Rightarrow> registry" where
  "run_remotes [] st = st"
| "run_remotes ((env, act, r) # rs) st = run_remotes rs (snd (remote_step env act r st))"

lemma answer_of_eq: "answer_of p = (e, st) \<longleftrightarrow> (\<exists>res. p = (res, st) \<and> e = (case res of Inl e \<Rightarrow> Some e | Inr _ \<Rightarrow> None))"
  by (cases p) (auto simp: answer_of_def)

lemma answer_of_error: "answer_of p = (Some e, st) \<longleftrightarrow> p = (Inl e, st)"
  by (cases p; cases "fst p") (auto simp: answer_of_def)

lemma updated_row_fields [simp]:
  "rw_id (updated_row rw r) = rw_id r" "rw_owner_id (updated_row rw r) = rw_owner_id r"
  "rw_secret_name (updated_row rw r) = rw_secret_name r" "rw_name (updated_row rw r) = rw_name rw"
  by (simp_all add: updated_row_def)

lemma updated_row_ok: "remote_ok rw \<Longrightarrow> remote_ok r \<Longrightarrow> remote_ok (updated_row rw r)"
  by (simp add: remote_ok_def updated_row_def)

lemma distinct_after_update:
  assumes "distinct (map rw_id rows)" "distinct (map (\<lambda>r. (rw_owner_id r, rw_name r)) rows)"
    "r \<in> set rows" "rw_id r = rw_id rw" "rw_owner_id r = rw_owner_id rw" "\<not> name_clash rw rows"
  shows "distinct (map (\<lambda>r. (rw_owner_id r, rw_name r)) (map (\<lambda>r. if rw_id r = rw_id rw then updated_row rw r else r) rows))"
proof -
  have one: "x = r" if "x \<in> set rows" "rw_id x = rw_id rw" for x
    using assms(1,3,4) that by (auto simp: distinct_map inj_on_def)
  have no: "\<not> (rw_owner_id x = rw_owner_id rw \<and> rw_name x = rw_name rw)" if "x \<in> set rows" "rw_id x \<noteq> rw_id rw" for x
    using assms(6) that by (auto simp: name_clash_def list_ex_iff)
  have "inj_on (\<lambda>x. (rw_owner_id (if rw_id x = rw_id rw then updated_row rw x else x),
      rw_name (if rw_id x = rw_id rw then updated_row rw x else x))) (set rows)"
    using assms(2,5) one no by (auto simp: inj_on_def distinct_map split: if_splits) metis+
  moreover have "distinct rows" using assms(1) by (simp add: distinct_map)
  ultimately show ?thesis by (simp add: distinct_map comp_def)
qed

lemma remote_step_ok:
  assumes "registry_ok st" "remote_step env act q st = (e, st')"
  shows "registry_ok st'"
proof (cases q)
  case (CreateRemote inp)
  with assms obtain res where "create_remote env act inp st = (res, st')" by (auto simp: answer_of_eq)
  from create_rows [OF this] consider "rg_rows st' = rg_rows st"
    | ks rw where "stored_now env inp (new_remote env act) ks rw" "rw_id rw \<notin> rw_id ` set (rg_rows st)"
      "\<not> name_clash rw (rg_rows st)" "rg_rows st' = rg_rows st @ [rw]" by blast
  then show ?thesis
  proof cases
    case 2
    have "remote_ok rw" using stored_now_ok [OF 2(1)] by (simp add: new_remote_def)
    moreover have "(rw_owner_id rw, rw_name rw) \<notin> (\<lambda>r. (rw_owner_id r, rw_name r)) ` set (rg_rows st)"
      using 2(2,3) by (auto simp: name_clash_def list_ex_iff) (metis image_eqI)
    ultimately show ?thesis using assms(1) 2(2) by (simp add: registry_ok_def 2(4))
  qed (use assms(1) in \<open>simp add: registry_ok_def\<close>)
next
  case (UpdateRemote i inp)
  with assms obtain res where "update_remote env act i inp st = (res, st')" by (auto simp: answer_of_eq)
  from update_rows [OF this] consider "rg_rows st' = rg_rows st"
    | ks r rw where "r \<in> set (rg_rows st)" "rw_id r = i" "stored_now env inp (scan_remote_workspace r) ks rw"
      "\<not> name_clash rw (rg_rows st)" "rg_rows st' = map (\<lambda>r. if rw_id r = i then updated_row rw r else r) (rg_rows st)" by blast
  then show ?thesis
  proof cases
    case 2
    have "rw_secret_name r = ''waas-remote-'' @ rw_id r" using assms(1) 2(1) by (auto simp: registry_ok_def remote_ok_def)
    then have n: "remote_ok rw" "rw_id rw = i" "rw_owner_id rw = rw_owner_id r"
      using stored_now_ok [OF 2(3)] 2(2) by simp_all
    have rows: "rg_rows st' = map (\<lambda>r. if rw_id r = rw_id rw then updated_row rw r else r) (rg_rows st)"
      using 2(5) n(2) by simp
    have "distinct (map (\<lambda>r. (rw_owner_id r, rw_name r)) (rg_rows st'))"
      unfolding rows by (rule distinct_after_update [of _ r]) (use assms(1) 2 n in \<open>auto simp: registry_ok_def\<close>)
    moreover have "map rw_id (rg_rows st') = map rw_id (rg_rows st)" by (simp add: rows)
    moreover have "\<forall>r \<in> set (rg_rows st'). remote_ok r"
      using assms(1) n(1) updated_row_ok by (auto simp: rows registry_ok_def)
    ultimately show ?thesis using assms(1) by (simp add: registry_ok_def)
  qed (use assms(1) in \<open>simp add: registry_ok_def\<close>)
next
  case (DeleteRemote i)
  with assms obtain res where "delete_remote env act i st = (res, st')" by (auto simp: answer_of_eq)
  from delete_rows [OF this] assms(1) show ?thesis by (auto simp: registry_ok_def distinct_map_filter)
next
  case (ConnectRemote i inp)
  with assms connect_rows show ?thesis by (fastforce simp: answer_of_eq registry_ok_def)
next
  case (WakeRemote i)
  with assms wake_rows show ?thesis by (fastforce simp: answer_of_eq registry_ok_def)
qed

text \<open>C29: Every entry of the registry is well formed, whatever requests ran: it has at least one endpoint, of a
  supported protocol other than kasmvnc, each named once, on a port from 1 to 65535, with parameters the registry of
  guacd lets a user set; exactly one endpoint is the default and the single-protocol fields are that one; a
  hardware address is in canonical form; the name and host are not empty; ids are unique, and so are the names of
  each owner's entries.
\<close>

theorem registry_stays_well_formed:
  assumes "registry_ok st"
  shows "registry_ok (run_remotes rs st)"
  using assms
proof (induction rs arbitrary: st)
  case (Cons x rs)
  obtain env act q where x: "x = (env, act, q)" by (cases x)
  obtain e st' where s: "remote_step env act q st = (e, st')" by fastforce
  with Cons x remote_step_ok show ?case by (metis run_remotes.simps(2) snd_conv)
qed simp

section \<open>Ownership\<close>

lemma write_credentials_frame:
  "write_credentials env rw inp new ss = (res, ss') \<Longrightarrow> k \<noteq> remote_key env rw \<Longrightarrow> ss' k = ss k"
  using kube_frame(1,2) [of k "remote_key env rw" "re_secret env" ss]
  by (auto simp: write_credentials_def Let_def split: if_splits fetched.splits prod.splits outcome.splits) (metis snd_conv)+

lemma create_secrets:
  assumes "create_remote env act inp st = (res, st')" "snd k \<noteq> ''waas-remote-'' @ px_fresh_id (re_portal env)"
  shows "rg_secrets st' k = rg_secrets st k"
proof (cases "require_feature (re_portal env) act = None \<and> validate_remote_input env inp = None \<and> is_ok (normalize_remote_protocols inp)")
  case False
  with assms(1) show ?thesis by (auto simp: create_remote_def is_ok_def split: option.splits sum.splits)
next
  case True
  then obtain ps where f: "require_feature (re_portal env) act = None" "validate_remote_input env inp = None"
    "normalize_remote_protocols inp = Inr ps" by (auto simp: is_ok_def split: sum.splits)
  define rw where "rw = described env inp ps (new_remote env act)"
  have k: "k \<noteq> remote_key env rw" "remote_key env (rw\<lparr>rw_credential_keys := x\<rparr>) = remote_key env rw" for x
    using assms(2) by (auto simp: remote_key_def rw_def new_remote_def)
  obtain w ss where w: "write_credentials env rw (ri_credentials inp) True (rg_secrets st) = (w, ss)" by fastforce
  have "ss k = rg_secrets st k" using write_credentials_frame [OF w k(1)] .
  moreover have "snd (kube_delete (re_secret env) ss (remote_key env rw)) k = ss k" using kube_frame(3) k(1) .
  ultimately show ?thesis
    using assms(1) f w k(2) by (cases w) (auto simp: create_remote_def rw_def [symmetric] Let_def split: prod.splits row_outcome.splits)
qed

lemma update_secrets:
  assumes "update_remote env act i inp st = (res, st')" "\<And>r. r \<in> set (rg_rows st) \<Longrightarrow> rw_id r = i \<Longrightarrow>
    rw_owner_id r = ac_id act \<Longrightarrow> snd k \<noteq> rw_secret_name r"
  shows "rg_secrets st' k = rg_secrets st k"
proof (cases "is_ok (owned_remote env act i st) \<and> validate_remote_input env inp = None \<and> is_ok (normalize_remote_protocols inp)")
  case False
  with assms(1) show ?thesis by (auto simp: update_remote_def is_ok_def split: option.splits sum.splits)
next
  case True
  then obtain rw0 ps where f: "owned_remote env act i st = Inr rw0" "validate_remote_input env inp = None"
    "normalize_remote_protocols inp = Inr ps" by (auto simp: is_ok_def split: sum.splits)
  define rw where "rw = described env inp ps rw0"
  have k: "k \<noteq> remote_key env rw"
    using owned_remoteE [OF f(1)] assms(2) by (metis described_fields(3) remote_key_def rw_def scan_fields(3) snd_conv)
  obtain w ss where w: "write_credentials env rw (ri_credentials inp) False (rg_secrets st) = (w, ss)" by fastforce
  have "ss k = rg_secrets st k" using write_credentials_frame [OF w k] .
  then show ?thesis
    using assms(1) f w by (cases w) (auto simp: update_remote_def rw_def [symmetric] Let_def split: prod.splits row_outcome.splits)
qed

lemma delete_frame:
  assumes "delete_remote env act i st = (res, st')" "\<And>r. r \<in> set (rg_rows st) \<Longrightarrow> rw_id r = i \<Longrightarrow>
    rw_owner_id r = ac_id act \<Longrightarrow> snd k \<noteq> rw_secret_name r \<and> wid \<noteq> i"
  shows "rg_secrets st' k = rg_secrets st k \<and>
    filter (\<lambda>s. sn_workspace_id s = wid) (rg_sessions st') = filter (\<lambda>s. sn_workspace_id s = wid) (rg_sessions st) \<and>
    ((\<exists>r \<in> set (rg_rows st). rw_id r = i \<and> rw_owner_id r = ac_id act) \<or> rg_rows st' = rg_rows st)"
proof (cases "owned_remote env act i st")
  case (Inr rw)
  obtain r where r: "r \<in> set (rg_rows st)" "rw_id r = i" "rw_owner_id r = ac_id act" "rw = scan_remote_workspace r"
    using owned_remoteE [OF Inr] by blast
  have k: "k \<noteq> remote_key env rw" "wid \<noteq> rw_id rw" using assms(2) [OF r(1-3)] r(2,4) by (auto simp: remote_key_def)
  obtain o' ss where d: "kube_delete (re_secret env) (rg_secrets st) (remote_key env rw) = (o', ss)" by fastforce
  have "ss k = rg_secrets st k" using kube_frame(3) [OF k(1), of "re_secret env" "rg_secrets st"] d by simp
  moreover have "filter (\<lambda>s. sn_workspace_id s = wid) (snd (end_all_for_workspace (rw_id rw) tm rows)) =
      filter (\<lambda>s. sn_workspace_id s = wid) rows" for tm rows
    using k(2) by (induction rows) (auto simp: end_all_for_workspace_def close_row_def)
  ultimately show ?thesis
    using assms(1) Inr r(1-3) d
    by (auto simp: delete_remote_def Let_def split: prod.splits row_outcome.splits if_splits)
qed (use assms(1) in \<open>simp add: delete_remote_def\<close>)

lemma connect_sessions:
  assumes "connect_remote env act i inp st = (res, st')" "\<And>r. r \<in> set (rg_rows st) \<Longrightarrow> rw_id r = i \<Longrightarrow>
    rw_owner_id r = ac_id act \<Longrightarrow> wid \<noteq> i"
  shows "filter (\<lambda>s. sn_workspace_id s = wid) (rg_sessions st') = filter (\<lambda>s. sn_workspace_id s = wid) (rg_sessions st)"
proof (cases "owned_remote env act i st")
  case (Inr rw)
  obtain r where r: "r \<in> set (rg_rows st)" "rw_id r = i" "rw_owner_id r = ac_id act" "rw = scan_remote_workspace r"
    using owned_remoteE [OF Inr] by blast
  have w: "wid \<noteq> rw_id rw" using assms(2) [OF r(1-3)] r(2,4) by simp
  have "session_create ok (remote_session p act rw e inp) rows = (c, rows') \<Longrightarrow>
      filter (\<lambda>s. sn_workspace_id s = wid) rows' = filter (\<lambda>s. sn_workspace_id s = wid) rows" for ok p e rows c rows'
    using w by (auto simp: session_create_def remote_session_def split: if_splits)
  with assms(1) Inr show ?thesis
    by (auto simp: connect_remote_def Let_def split: option.splits sum.splits prod.splits)
qed (use assms(1) in \<open>simp add: connect_remote_def\<close>)

text \<open>C27: Remote workspaces are personal, administrators included: no request of one account changes an entry of another
  account, the secret that holds its credentials in any namespace, or the sessions opened towards it.
\<close>

theorem remote_requests_stay_own:
  assumes "registry_ok st" "rw \<in> set (rg_rows st)" "rw_owner_id rw \<noteq> ac_id act" "px_fresh_id (re_portal env) \<noteq> rw_id rw"
  shows "case remote_step env act q st of (e, st') \<Rightarrow>
    rw \<in> set (rg_rows st') \<and> rg_secrets st' (ns, rw_secret_name rw) = rg_secrets st (ns, rw_secret_name rw) \<and>
    filter (\<lambda>s. sn_workspace_id s = rw_id rw) (rg_sessions st') = filter (\<lambda>s. sn_workspace_id s = rw_id rw) (rg_sessions st)"
proof -
  let ?k = "(ns, rw_secret_name rw)"
  have own: "snd ?k \<noteq> rw_secret_name r \<and> rw_id rw \<noteq> i" if "r \<in> set (rg_rows st)" "rw_id r = i" "rw_owner_id r = ac_id act" for r i
  proof -
    have "rw_id rw \<noteq> rw_id r" using assms(1-3) that by (auto simp: registry_ok_def distinct_map inj_on_def)
    moreover have "rw_secret_name rw = ''waas-remote-'' @ rw_id rw" "rw_secret_name r = ''waas-remote-'' @ rw_id r"
      using assms(1,2) that(1) by (auto simp: registry_ok_def remote_ok_def)
    ultimately show ?thesis using that(2) by simp
  qed
  obtain e st' where s: "remote_step env act q st = (e, st')" by fastforce
  have "rw \<in> set (rg_rows st') \<and> rg_secrets st' ?k = rg_secrets st ?k \<and>
    filter (\<lambda>s. sn_workspace_id s = rw_id rw) (rg_sessions st') = filter (\<lambda>s. sn_workspace_id s = rw_id rw) (rg_sessions st)"
  proof (cases q)
    case (CreateRemote inp)
    with s obtain res where c: "create_remote env act inp st = (res, st')" by (auto simp: answer_of_eq)
    have "rw_secret_name rw = ''waas-remote-'' @ rw_id rw" using assms(1,2) by (auto simp: registry_ok_def remote_ok_def)
    then have "snd ?k \<noteq> ''waas-remote-'' @ px_fresh_id (re_portal env)" using assms(4) by simp
    then show ?thesis using create_rows [OF c] create_secrets [OF c] assms(2) by auto
  next
    case (UpdateRemote i inp)
    with s obtain res where c: "update_remote env act i inp st = (res, st')" by (auto simp: answer_of_eq)
    have "rg_secrets st' ?k = rg_secrets st ?k" using update_secrets [OF c] own by blast
    then show ?thesis using update_rows [OF c] own [of _ i] assms(2) by (auto simp: image_iff)
  next
    case (DeleteRemote i)
    with s obtain res where c: "delete_remote env act i st = (res, st')" by (auto simp: answer_of_eq)
    show ?thesis using delete_frame [OF c, of ?k "rw_id rw"] delete_rows [OF c] own assms(2) by auto
  next
    case (ConnectRemote i inp)
    with s obtain res where c: "connect_remote env act i inp st = (res, st')" by (auto simp: answer_of_eq)
    show ?thesis using connect_sessions [OF c, of "rw_id rw"] connect_rows [OF c] own assms(2) by auto
  next
    case (WakeRemote i)
    with s obtain res where c: "wake_remote env act i st = (res, st')" by (auto simp: answer_of_eq)
    show ?thesis using wake_rows [OF c] assms(2) by auto
  qed
  with s show ?thesis by simp
qed

section \<open>Opening a session\<close>

lemma remote_session_created:
  "session_create ok (remote_session p act rw e inp) rows = (Inr u, rows') \<Longrightarrow>
     px_fresh_id p \<notin> sn_id ` set rows \<and> rows' = rows @ [remote_session p act rw e inp]"
  by (auto simp: session_create_def remote_session_def session_kind_remote_def split: if_splits)

lemma remote_refusal_none:
  assumes "remote_refusal env rw e inp = None"
  shows "rp_name e \<in> set protocols" "rp_name e \<noteq> ''kasmvnc''"
    "host_check (re_lower env) (re_resolver env) (re_guard env) (rw_hostname rw) = None"
    "\<forall>nv \<in> set (cn_params inp). settable (rp_name e) nv"
  using assms by (auto simp: remote_refusal_def validate_remote_protocol_name_def validate_template_params_iff split: if_splits option.splits)

lemma connect_remoteE:
  assumes "connect_remote env act i inp st = (Inr res, st')"
  obtains r e where "r \<in> set (rg_rows st)" "rw_id r = i" "rw_owner_id r = ac_id act" "require_feature (re_portal env) act = None"
    "remote_entry r inp = Some e" "remote_refusal env r e inp = None"
    "px_fresh_id (re_portal env) \<notin> sn_id ` set (rg_sessions st)"
    "rg_sessions st' = rg_sessions st @ [remote_session (re_portal env) act r e inp]"
    "cr_session_id res = px_fresh_id (re_portal env)" "cr_protocol res = rp_name e"
    "case session_claims (re_portal env) act i (clamp_clipboard_grant (resolve_clipboard_grant (re_portal env) act)
        (merge_params (rp_params e) (cn_params inp))) of
      (rc, cc) \<Rightarrow> px_sign (re_portal env) (ConnectionPayload rc cc) = Some (cr_token res)"
proof -
  from assms obtain rw where o: "owned_remote env act i st = Inr rw" by (auto simp: connect_remote_def split: sum.splits)
  obtain r where r: "r \<in> set (rg_rows st)" "rw_id r = i" "rw_owner_id r = ac_id act" "rw = scan_remote_workspace r"
    "require_feature (re_portal env) act = None" using owned_remoteE [OF o] by blast
  have e: "remote_entry rw inp = remote_entry r inp" "remote_session p act rw e inp = remote_session p act r e inp"
    "remote_refusal env rw e inp = remote_refusal env r e inp" for p e
    unfolding r(4) remote_entry_def remote_session_def remote_refusal_def scan_fields by simp_all
  from assms obtain ent where ent: "remote_entry r inp = Some ent" "remote_refusal env r ent inp = None"
    by (auto simp: connect_remote_def o e split: option.splits)
  obtain u rows where c: "session_create (px_sessions_ok (re_portal env)) (remote_session (re_portal env) act r ent inp) (rg_sessions st) = (Inr u, rows)"
    using assms by (auto simp: connect_remote_def o e ent Let_def split: sum.splits prod.splits)
  note d = assms [unfolded connect_remote_def o sum.case e ent option.case Let_def c prod.case]
  obtain token where t: "px_sign (re_portal env) (ConnectionPayload
      (fst (session_claims (re_portal env) act (rw_id rw) (clamp_clipboard_grant (resolve_clipboard_grant (re_portal env) act)
        (merge_params (rp_params ent) (cn_params inp)))))
      (snd (session_claims (re_portal env) act (rw_id rw) (clamp_clipboard_grant (resolve_clipboard_grant (re_portal env) act)
        (merge_params (rp_params ent) (cn_params inp)))))) = Some token"
    using d by (auto split: option.splits)
  note d' = d [unfolded t option.case prod.inject sum.inject]
  have i: "rw_id rw = i" by (simp add: r(2,4))
  show thesis
    by (rule that [OF r(1-3,5) ent])
      (use d' remote_session_created [OF c] t [unfolded i] in \<open>auto simp: remote_session_def case_prod_beta\<close>)
qed

text \<open>C28: A remote machine is opened by the account that registered it and by nobody else: a connection token is issued
  only when the policy that governs the caller opts in (an administrator needs none), for an endpoint the entry declares
  that is not kasmvnc, to a host the guard lets through at that moment, with parameters a user may set. The request adds
  exactly one session, open, under an id no session had, for that caller, entry and endpoint; the token issued is the
  signature of the caller, of the id of that very session, of that entry and of the clipboard grants, which go no further
  than those of the policy resolved for the caller.
\<close>

theorem remote_connect_authorized:
  assumes "connect_remote env act i inp st = (Inr res, st')"
  shows "\<exists>r e s g. r \<in> set (rg_rows st) \<and> rw_id r = i \<and> rw_owner_id r = ac_id act \<and>
    (ac_role act = role_admin \<or> (\<exists>u ps pol. px_users (re_portal env) (ac_id act) = Found u \<and> px_policies (re_portal env) = Some ps \<and>
       governs pol ps (user_identity u) \<and> po_remote_workspaces pol)) \<and>
    e \<in> set (remote_effective_protocols r) \<and> (cn_protocol inp \<noteq> [] \<longrightarrow> rp_name e = cn_protocol inp) \<and> rp_name e \<noteq> ''kasmvnc'' \<and>
    host_check (re_lower env) (re_resolver env) (re_guard env) (rw_hostname r) = None \<and>
    (\<forall>nv \<in> set (cn_params inp). settable (rp_name e) nv) \<and>
    rg_sessions st' = rg_sessions st @ [s] \<and> sn_id s = cr_session_id res \<and> sn_id s \<notin> sn_id ` set (rg_sessions st) \<and>
    sn_user_id s = ac_id act \<and> sn_workspace_id s = i \<and> sn_protocol s = rp_name e \<and> sn_ended_at s = None \<and>
    px_sign (re_portal env) (ConnectionPayload
        (registered (px_issuer (re_portal env)) (ac_id act) ''waas-connection'' (px_now (re_portal env)) (px_connection_ttl (re_portal env)))
        \<lparr>session_id = sn_id s, workspace_id = i, clipboard = g\<rparr>) = Some (cr_token res) \<and>
    (grant_c g \<longrightarrow> grant_c (resolve_clipboard_grant (re_portal env) act)) \<and>
    (grant_p g \<longrightarrow> grant_p (resolve_clipboard_grant (re_portal env) act))"
proof -
  obtain r e where r: "r \<in> set (rg_rows st)" "rw_id r = i" "rw_owner_id r = ac_id act" "require_feature (re_portal env) act = None"
    and e: "remote_entry r inp = Some e" "remote_refusal env r e inp = None"
    and s: "px_fresh_id (re_portal env) \<notin> sn_id ` set (rg_sessions st)"
      "rg_sessions st' = rg_sessions st @ [remote_session (re_portal env) act r e inp]"
      "cr_session_id res = px_fresh_id (re_portal env)" "cr_protocol res = rp_name e"
    and t: "case session_claims (re_portal env) act i (clamp_clipboard_grant (resolve_clipboard_grant (re_portal env) act)
        (merge_params (rp_params e) (cn_params inp))) of
      (rc, cc) \<Rightarrow> px_sign (re_portal env) (ConnectionPayload rc cc) = Some (cr_token res)"
    using connect_remoteE [OF assms] by blast
  have f: "ac_role act = role_admin \<or> (\<exists>u ps pol. px_users (re_portal env) (ac_id act) = Found u \<and>
      px_policies (re_portal env) = Some ps \<and> governs pol ps (user_identity u) \<and> po_remote_workspaces pol)"
    using r(4) resolve_policy_governs
    by (fastforce simp: require_feature_def remote_workspaces_allowed_def split: if_splits fetched.splits option.splits sum.splits)
  have t': "px_sign (re_portal env) (ConnectionPayload
        (registered (px_issuer (re_portal env)) (ac_id act) ''waas-connection'' (px_now (re_portal env)) (px_connection_ttl (re_portal env)))
        \<lparr>session_id = px_fresh_id (re_portal env), workspace_id = i, clipboard = clamp_clipboard_grant
          (resolve_clipboard_grant (re_portal env) act) (merge_params (rp_params e) (cn_params inp))\<rparr>) = Some (cr_token res)"
    using t by (simp add: session_claims_def new_connection_claims_def audience_connection_def)
  have p: "e \<in> set (remote_effective_protocols r)" "cn_protocol inp \<noteq> [] \<longrightarrow> rp_name e = cn_protocol inp"
    using e(1) remote_default_protocol_in by (auto simp: remote_entry_def remote_protocol_named_def split: if_splits dest!: find_SomeD)
  show ?thesis
    using r f p remote_refusal_none [OF e(2)] s t' clamp_restricts [of "resolve_clipboard_grant (re_portal env) act"]
    by (intro exI [of _ r] exI [of _ e] exI [of _ "remote_session (re_portal env) act r e inp"]
        exI [of _ "clamp_clipboard_grant (resolve_clipboard_grant (re_portal env) act) (merge_params (rp_params e) (cn_params inp))"])
      (auto simp: remote_session_def)
qed

section \<open>What a refusal leaves behind\<close>

lemma write_credentials_error: "write_credentials env rw inp new ss = (Inl e, ss') \<Longrightarrow> status_of e = 0"
  by (auto simp: write_credentials_def secret_failed_def Let_def split: if_splits fetched.splits prod.splits outcome.splits)

lemma row_error_status: "status_of (row_error rw r) \<in> {0, 409}"
  by (simp add: row_error_def duplicate_name_def)

lemma create_remote_error:
  assumes "create_remote env act inp st = (Inl e, st')"
  shows "st' = st \<or> status_of e \<in> {0, 409}"
proof (cases "require_feature (re_portal env) act = None \<and> validate_remote_input env inp = None \<and> is_ok (normalize_remote_protocols inp)")
  case False
  with assms show ?thesis by (auto simp: create_remote_def is_ok_def split: option.splits sum.splits)
next
  case True
  then obtain ps where f: "require_feature (re_portal env) act = None" "validate_remote_input env inp = None"
    "normalize_remote_protocols inp = Inr ps" by (auto simp: is_ok_def split: sum.splits)
  define rw where "rw = described env inp ps (new_remote env act)"
  obtain w ss where w: "write_credentials env rw (ri_credentials inp) True (rg_secrets st) = (w, ss)" by fastforce
  note d = assms [unfolded create_remote_def f option.case sum.case rw_def [symmetric] Let_def w prod.case]
  show ?thesis
  proof (cases w)
    case (Inl e')
    with d write_credentials_error [of env rw "ri_credentials inp" True "rg_secrets st" e'] w show ?thesis by simp
  next
    case (Inr ks)
    obtain r rows where "remotes_create (re_writes_ok env) (rw\<lparr>rw_credential_keys := ks\<rparr>) (rg_rows st) = (r, rows)" by fastforce
    with d Inr obtain rw' where "e = row_error rw' r" by (cases r) auto
    then show ?thesis using row_error_status [of rw' r] by simp
  qed
qed

lemma update_remote_error:
  assumes "update_remote env act i inp st = (Inl e, st')"
  shows "st' = st \<or> status_of e \<in> {0, 409}"
proof (cases "is_ok (owned_remote env act i st) \<and> validate_remote_input env inp = None \<and> is_ok (normalize_remote_protocols inp)")
  case False
  with assms show ?thesis by (auto simp: update_remote_def is_ok_def split: option.splits sum.splits)
next
  case True
  then obtain rw0 ps where f: "owned_remote env act i st = Inr rw0" "validate_remote_input env inp = None"
    "normalize_remote_protocols inp = Inr ps" by (auto simp: is_ok_def split: sum.splits)
  define rw where "rw = described env inp ps rw0"
  obtain w ss where w: "write_credentials env rw (ri_credentials inp) False (rg_secrets st) = (w, ss)" by fastforce
  note d = assms [unfolded update_remote_def f option.case sum.case rw_def [symmetric] Let_def w prod.case]
  show ?thesis
  proof (cases w)
    case (Inl e')
    with d write_credentials_error [of env rw "ri_credentials inp" False "rg_secrets st" e'] w show ?thesis by simp
  next
    case (Inr ks)
    obtain r rows where "remotes_update (re_writes_ok env) (rw\<lparr>rw_credential_keys := ks\<rparr>) (rg_rows st) = (r, rows)" by fastforce
    with d Inr obtain rw' where "e = row_error rw' r" by (cases r) auto
    then show ?thesis using row_error_status [of rw' r] by simp
  qed
qed

text \<open>C40: A request for a remote workspace that is refused for its input, for the caller's rights, for a missing entry
  or for a missing relay (400, 403, 404, 503) changes nothing: no row, no secret, no session, no audit line.
\<close>

theorem refused_remote_requests_change_nothing:
  assumes "remote_step env act q st = (Some e, st')" "status_of e \<in> {400, 403, 404, 503}"
  shows "st' = st"
proof (cases q)
  case (CreateRemote inp)
  with assms(1) have "create_remote env act inp st = (Inl e, st')" by (simp add: answer_of_error)
  with assms(2) show ?thesis using create_remote_error by fastforce
next
  case (UpdateRemote i inp)
  with assms(1) have "update_remote env act i inp st = (Inl e, st')" by (simp add: answer_of_error)
  with assms(2) show ?thesis using update_remote_error by fastforce
next
  case (DeleteRemote i)
  then show ?thesis
    using assms by (auto simp: answer_of_error delete_remote_def secret_failed_def Let_def split: sum.splits prod.splits row_outcome.splits if_splits)
next
  case (ConnectRemote i inp)
  then show ?thesis
    using assms by (auto simp: answer_of_error connect_remote_def Let_def split: option.splits sum.splits prod.splits)
next
  case (WakeRemote i)
  then show ?thesis
    using assms by (auto simp: answer_of_error wake_remote_def split: option.splits sum.splits if_splits)
qed

section \<open>A machine on a private network\<close>

definition home_portal :: portal where
  "home_portal = desk_portal\<lparr>px_policies := Some [(demo_policy ''p'' 0 [])\<lparr>po_remote_workspaces := True\<rparr>],
     px_sign := (\<lambda>p. Some ''token'')\<rparr>"

definition home_env :: remote_env where
  "home_env = \<lparr>re_portal = home_portal, re_guard = Some desk_guard, re_resolver = desk_dns, re_lower = (\<lambda>r. r), re_secret = answering,
     re_reads_ok = True, re_writes_ok = True, re_relay = None\<rparr>"

definition nas_input :: remote_input where
  "nas_input = \<lparr>ri_name = '' nas'', ri_hostname = ''nas.corp.lan'', ri_port = 0, ri_protocol = [],
     ri_protocols = [\<lparr>rpi_name = ''ssh'', rpi_port = 22, rpi_default = False, rpi_params = []\<rparr>],
     ri_mac_address = ''AA-bb-0C-dd-ee-ff'', ri_params = [],
     ri_credentials = Some \<lparr>rc_username = Some ''zoe'', rc_password = Some ''old'', rc_private_key = None, rc_passphrase = None\<rparr>\<rparr>"

definition no_registry :: registry where
  "no_registry = \<lparr>rg_rows = [], rg_secrets = Map.empty, rg_sessions = [], rg_audit = [], rg_notified = []\<rparr>"

definition nas_protocol :: remote_protocol where
  "nas_protocol = \<lparr>rp_name = ''ssh'', rp_port = 22, rp_default = True, rp_params = []\<rparr>"

definition nas_row :: remote_workspace where
  "nas_row = \<lparr>rw_id = ''s1'', rw_owner_id = ''u1'', rw_name = ''nas'', rw_hostname = ''nas.corp.lan'', rw_port = 22, rw_protocol = ''ssh'',
     rw_protocols = [nas_protocol], rw_mac_address = ''aa:bb:0c:dd:ee:ff'', rw_params = [], rw_secret_name = ''waas-remote-s1'',
     rw_credential_keys = [''password'', ''username''], rw_created_at = 0, rw_updated_at = 0\<rparr>"

definition nas_secret :: secret where
  "nas_secret = credentials_secret nas_row (ri_credentials nas_input) (blank_secret (''waas'', ''waas-remote-s1''))"

definition home_registry :: registry where
  "home_registry = \<lparr>rg_rows = [nas_row], rg_secrets = [(''waas'', ''waas-remote-s1'') \<mapsto> nas_secret], rg_sessions = [],
     rg_audit = [record_audit desk_actor ''remote_workspace.created'' ''remote_workspace'' ''s1'' [''nas'', ''nas.corp.lan'', ''ssh'']],
     rg_notified = [''u1'']\<rparr>"

definition stranger :: actor where
  "stranger = \<lparr>ac_id = ''u2'', ac_username = ''eve'', ac_role = ''admin'', ac_client_ip = []\<rparr>"

lemma home_fields [simp]:
  "re_portal home_env = home_portal" "re_secret home_env = answering" "re_writes_ok home_env" "re_reads_ok home_env"
  "px_namespace home_portal = ''waas''" "px_fresh_id home_portal = ''s1''" "px_now home_portal = 0" "px_sessions_ok home_portal"
  "px_sign home_portal p = Some ''token''"
  by (simp_all add: home_env_def home_portal_def desk_portal_def)

lemma home_gates:
  "require_feature home_portal desk_actor = None" "require_feature home_portal stranger = None"
  "host_check (\<lambda>r. r) desk_dns (Some desk_guard) ''nas.corp.lan'' = None"
  by code_simp+

lemma nas_texts:
  "trim_space '' nas'' = ''nas''" "trim_space ''nas.corp.lan'' = ''nas.corp.lan''" "canonical_mac ''AA-bb-0C-dd-ee-ff'' = ''aa:bb:0c:dd:ee:ff''"
  "normalize_mac ''AA-bb-0C-dd-ee-ff'' \<noteq> None" "normalize_remote_protocols nas_input = Inr [nas_protocol]"
  by code_simp+

lemma nas_valid: "validate_remote_input home_env nas_input = None"
  using nas_texts home_gates(3) by (simp add: validate_remote_input_def nas_input_def home_env_def Let_def)

lemma nas_described:
  "described home_env nas_input [nas_protocol] (new_remote home_env desk_actor) = nas_row\<lparr>rw_credential_keys := []\<rparr>"
  using nas_texts(1-3)
  by (simp add: described_def new_remote_def sync_legacy_protocol_fields_def nas_row_def nas_input_def desk_actor_def Let_def
      remote_default_protocol_def remote_effective_protocols_def nas_protocol_def)

lemma nas_keys: "credential_keys nas_secret = [''password'', ''username'']"
  by code_simp

lemma home_created: "remote_step home_env desk_actor (CreateRemote nas_input) no_registry = (None, home_registry)"
proof -
  let ?rw = "nas_row\<lparr>rw_credential_keys := []\<rparr>"
  have k: "remote_key home_env ?rw = (''waas'', ''waas-remote-s1'')" by (simp add: remote_key_def nas_row_def)
  have s: "credentials_secret ?rw inp x = credentials_secret nas_row inp x" for inp x
    by (simp add: credentials_secret_def nas_row_def)
  have w: "write_credentials home_env ?rw (ri_credentials nas_input) True (rg_secrets no_registry) =
      (Inr [''password'', ''username''], [(''waas'', ''waas-remote-s1'') \<mapsto> nas_secret])"
    using nas_keys by (simp add: write_credentials_def k s nas_secret_def no_registry_def kube_create_def answering_def Let_def)
  have c: "remotes_create True (?rw\<lparr>rw_credential_keys := [''password'', ''username'']\<rparr>) (rg_rows no_registry) = (RowDone, [nas_row])"
    by (simp add: remotes_create_def no_registry_def name_clash_def nas_row_def)
  show ?thesis
    using w c home_gates(1) nas_valid nas_texts(5) nas_described
    by (simp add: create_remote_def answer_of_def notified_def noted_def no_registry_def home_registry_def Let_def)
      (simp add: nas_row_def)
qed

lemma no_registry_ok: "registry_ok no_registry"
  by (simp add: registry_ok_def no_registry_def)

lemma home_registry_ok: "registry_ok home_registry"
  using remote_step_ok [OF no_registry_ok home_created] .

theorem registry_stays_well_formed_witness:
  "registry_ok (run_remotes [(home_env, desk_actor, CreateRemote nas_input), (home_env, stranger, DeleteRemote ''s1'')] no_registry) \<and>
   snd (remote_step home_env desk_actor (CreateRemote nas_input) no_registry) = home_registry"
  using registry_stays_well_formed [OF no_registry_ok] by (simp only: home_created snd_conv simp_thms)

theorem remote_requests_stay_own_witness:
  "nas_row \<in> set (rg_rows (snd (remote_step (home_env\<lparr>re_portal := home_portal\<lparr>px_fresh_id := ''s2''\<rparr>\<rparr>) stranger (DeleteRemote ''s1'') home_registry)))"
proof -
  have h: "nas_row \<in> set (rg_rows home_registry)" "rw_owner_id nas_row \<noteq> ac_id stranger"
    "px_fresh_id (re_portal (home_env\<lparr>re_portal := home_portal\<lparr>px_fresh_id := ''s2''\<rparr>\<rparr>)) \<noteq> rw_id nas_row"
    by (simp_all add: home_registry_def nas_row_def stranger_def)
  show ?thesis
    using remote_requests_stay_own [OF home_registry_ok h, where q = "DeleteRemote ''s1''" and ns = "''waas''"]
    by (simp only: split_beta)
qed

definition plain_connect :: connect_input where
  "plain_connect = \<lparr>cn_protocol = [], cn_params = []\<rparr>"

lemma home_owned: "owned_remote home_env desk_actor ''s1'' home_registry = Inr nas_row"
  using home_gates(1)
  by (simp add: owned_remote_def fetch_owned_def remotes_find_def home_registry_def nas_row_def desk_actor_def scan_remote_workspace_def
      remote_effective_protocols_def)

lemma home_connects: "is_ok (fst (connect_remote home_env desk_actor ''s1'' plain_connect home_registry))"
proof -
  have e: "remote_entry nas_row plain_connect = Some nas_protocol"
    by (simp add: remote_entry_def plain_connect_def remote_default_protocol_def remote_effective_protocols_def nas_row_def nas_protocol_def)
  have n: "validate_remote_protocol_name ''ssh'' = None" by code_simp
  have r: "remote_refusal home_env nas_row nas_protocol plain_connect = None"
    using n home_gates(3)
    by (simp add: remote_refusal_def nas_protocol_def nas_row_def plain_connect_def home_env_def)
  have c: "session_create True s (rg_sessions home_registry) = (Inr (), [s])" if "sn_kind s = session_kind_remote" for s
    using that by (simp add: session_create_def home_registry_def session_kind_remote_def)
  have k: "sn_kind (remote_session p a nas_row nas_protocol plain_connect) = session_kind_remote" for p a
    by (simp add: remote_session_def)
  show ?thesis by (simp add: connect_remote_def home_owned e r c k Let_def)
qed

theorem remote_connect_authorized_witness:
  "\<exists>r \<in> set (rg_rows home_registry). rw_owner_id r = ''u1'' \<and>
    host_check (re_lower home_env) (re_resolver home_env) (re_guard home_env) (rw_hostname r) = None"
proof -
  obtain res st' where "connect_remote home_env desk_actor ''s1'' plain_connect home_registry = (Inr res, st')"
    using home_connects by (cases "connect_remote home_env desk_actor ''s1'' plain_connect home_registry")
      (auto simp: is_ok_def split: sum.splits)
  from remote_connect_authorized [OF this] show ?thesis by (auto simp: desk_actor_def)
qed

lemma stranger_refused:
  "remote_step home_env stranger (DeleteRemote ''s1'') home_registry = (Some (NotFound [''remote workspace not found'']), home_registry)"
  using home_gates(2)
  by (simp add: delete_remote_def owned_remote_def fetch_owned_def remotes_find_def answer_of_def home_registry_def nas_row_def stranger_def)

theorem refused_remote_requests_change_nothing_witness:
  "snd (remote_step home_env stranger (DeleteRemote ''s1'') home_registry) = home_registry"
  using refused_remote_requests_change_nothing [of home_env stranger "DeleteRemote ''s1''" home_registry] stranger_refused by simp

section \<open>Two half-done requests\<close>

text \<open>
  An update refused because the owner has another entry of that name has already rotated the credentials: the
  secret is written before the row is.
\<close>

definition tower_row :: remote_workspace where
  "tower_row = nas_row\<lparr>rw_id := ''s9'', rw_name := ''tower'', rw_secret_name := ''waas-remote-s9''\<rparr>"

definition two_registry :: registry where
  "two_registry = home_registry\<lparr>rg_rows := [nas_row, tower_row],
     rg_secrets := (rg_secrets home_registry)((''waas'', ''waas-remote-s9'') \<mapsto> nas_secret)\<rparr>"

definition rotation :: remote_input where
  "rotation = nas_input\<lparr>ri_credentials := Some \<lparr>rc_username = None, rc_password = Some ''new'', rc_private_key = None, rc_passphrase = None\<rparr>\<rparr>"

lemma refused_update_rotates_credentials:
  "case remote_step home_env desk_actor (UpdateRemote ''s9'' rotation) two_registry of
     (e, st) \<Rightarrow> e = Some (Conflict [''you already have a remote workspace named'', ''nas'']) \<and> rg_rows st = rg_rows two_registry \<and>
       map_option (\<lambda>s. map_of (sc_data s) ''password'') (rg_secrets two_registry (''waas'', ''waas-remote-s9'')) = Some (Some ''old'') \<and>
       map_option (\<lambda>s. map_of (sc_data s) ''password'') (rg_secrets st (''waas'', ''waas-remote-s9'')) = Some (Some ''new'')"
proof -
  let ?rw = "described home_env rotation [nas_protocol] tower_row"
  have o: "owned_remote home_env desk_actor ''s9'' two_registry = Inr tower_row"
    using home_gates(1)
    by (simp add: owned_remote_def fetch_owned_def remotes_find_def two_registry_def tower_row_def nas_row_def desk_actor_def
        scan_remote_workspace_def remote_effective_protocols_def)
  have v: "validate_remote_input home_env rotation = None" "normalize_remote_protocols rotation = Inr [nas_protocol]"
  proof -
    have f: "ri_name rotation = ri_name nas_input" "ri_hostname rotation = ri_hostname nas_input" "ri_port rotation = ri_port nas_input"
      "ri_protocol rotation = ri_protocol nas_input" "ri_protocols rotation = ri_protocols nas_input"
      "ri_mac_address rotation = ri_mac_address nas_input" "ri_params rotation = ri_params nas_input"
      by (simp_all add: rotation_def)
    have "validate_remote_input home_env rotation = validate_remote_input home_env nas_input"
      unfolding validate_remote_input_def f by (rule refl)
    moreover have "normalize_remote_protocols rotation = normalize_remote_protocols nas_input"
      unfolding normalize_remote_protocols_def f by (rule refl)
    ultimately show "validate_remote_input home_env rotation = None" "normalize_remote_protocols rotation = Inr [nas_protocol]"
      using nas_valid nas_texts(5) by simp_all
  qed
  have n: "rw_name ?rw = ''nas''" using nas_texts(1) by (simp add: rotation_def nas_input_def)
  have k: "remote_key home_env ?rw = (''waas'', ''waas-remote-s9'')" by (simp add: remote_key_def tower_row_def)
  have d: "sc_data (credentials_secret ?rw (ri_credentials rotation) nas_secret) = [(''username'', ''zoe''), (''password'', ''new'')]"
    "sc_data nas_secret = [(''username'', ''zoe''), (''password'', ''old'')]"
    by (simp_all add: credentials_secret_def nas_secret_def data_entries_def secret_keys_def rotation_def nas_input_def change_entry_def
        blank_secret_def)
  obtain ks where w: "write_credentials home_env ?rw (ri_credentials rotation) False (rg_secrets two_registry) =
      (Inr ks, (rg_secrets two_registry)((''waas'', ''waas-remote-s9'') \<mapsto> credentials_secret ?rw (ri_credentials rotation) nas_secret))"
    by (simp add: write_credentials_def k two_registry_def kube_get_def kube_update_def answering_def Let_def)
  have c: "remotes_update True (?rw\<lparr>rw_credential_keys := ks\<rparr>) (rg_rows two_registry) = (RowDuplicate, rg_rows two_registry)"
    using n by (simp add: remotes_update_def name_clash_def two_registry_def tower_row_def nas_row_def)
  show ?thesis
    using n d
    by (simp add: update_remote_def answer_of_def o v w c Let_def row_error_def duplicate_name_def)
      (simp add: two_registry_def)
qed

text \<open>
  A deletion that removes the row but cannot remove the secret leaves the credentials behind: the request answers
  an error, and repeating it finds no entry.
\<close>

lemma failed_deletion_orphans_secret:
  fixes env :: remote_env
  defines "env \<equiv> home_env\<lparr>re_secret := answering\<lparr>on_delete := False\<rparr>\<rparr>"
  shows "case remote_step env desk_actor (DeleteRemote ''s1'') home_registry of
     (e, st) \<Rightarrow> e \<noteq> None \<and> rg_rows st = [] \<and> rg_secrets st (''waas'', ''waas-remote-s1'') = Some nas_secret \<and>
       fst (remote_step home_env desk_actor (DeleteRemote ''s1'') st) = Some (NotFound [''remote workspace not found''])"
proof -
  have o: "owned_remote env desk_actor ''s1'' home_registry = Inr nas_row"
    using home_gates(1)
    by (simp add: owned_remote_def fetch_owned_def remotes_find_def home_registry_def nas_row_def desk_actor_def scan_remote_workspace_def
        remote_effective_protocols_def env_def)
  have k: "remote_key env nas_row = (''waas'', ''waas-remote-s1'')" by (simp add: remote_key_def nas_row_def env_def)
  have d: "delete_remote env desk_actor ''s1'' home_registry =
      (Inl (secret_failed ''deleting credentials secret'' nas_row), home_registry\<lparr>rg_rows := []\<rparr>)"
    by (simp add: delete_remote_def o k) (simp add: remotes_delete_def kube_delete_def env_def home_registry_def nas_row_def)
  show ?thesis
    using home_gates(1)
    by (simp add: answer_of_def d) (simp add: delete_remote_def owned_remote_def fetch_owned_def remotes_find_def home_registry_def)
qed

end
