(* ===== verification/Config.thy ===== *)
theory Config
  imports Remote_Guard
begin

text \<open>
  The configuration of the API server (\<open>internal/config/config.go\<close>): every setting from the environment (a function
  from names to values; an unset variable reads as the empty text), with Go's \<open>time.ParseDuration\<close>. The product
  of a decimal fraction with its unit is computed in floating point there; it is the parameter \<open>frac\<close>.
\<close>

section \<open>Durations\<close>

definition two63 :: nat where "two63 = 9223372036854775808"

text \<open>\<open>leadingInt\<close>: the digits a text starts with and the rest, or no answer on overflow.\<close>

fun leading_int :: "nat \<Rightarrow> string \<Rightarrow> (nat \<times> string) option" where
  "leading_int x [] = Some (x, [])"
| "leading_int x (c # cs) =
     (if \<not> is_digit c then Some (x, c # cs)
      else if two63 div 10 < x then None
      else let y = x * 10 + digit_value c in if two63 < y then None else leading_int y cs)"

text \<open>\<open>leadingFraction\<close>: digits that no longer fit are skipped; the second value counts those that do.\<close>

fun leading_fraction :: "bool \<Rightarrow> nat \<Rightarrow> nat \<Rightarrow> string \<Rightarrow> nat \<times> nat \<times> string" where
  "leading_fraction full x k [] = (x, k, [])"
| "leading_fraction full x k (c # cs) =
     (if \<not> is_digit c then (x, k, c # cs)
      else if full then leading_fraction True x k cs
      else if (two63 - 1) div 10 < x then leading_fraction True x k cs
      else let y = x * 10 + digit_value c in
        if two63 < y then leading_fraction True x k cs else leading_fraction False y (k + 1) cs)"

definition unit_char :: "char \<Rightarrow> bool" where
  "unit_char c \<longleftrightarrow> \<not> (c = CHR ''.'' \<or> is_digit c)"

definition duration_unit :: "string \<Rightarrow> nat option" where
  "duration_unit u = map_of
     [(''ns'', 1), (''us'', 1000), ([CHR 0xC2, CHR 0xB5, CHR ''s''], 1000), ([CHR 0xCE, CHR 0xBC, CHR ''s''], 1000),
      (''ms'', 1000000), (''s'', 1000000000), (''m'', 60000000000), (''h'', 3600000000000)] u"

text \<open>One number with its unit: its value in nanoseconds and what follows it.\<close>

definition duration_item :: "(nat \<Rightarrow> nat \<Rightarrow> nat \<Rightarrow> nat) \<Rightarrow> string \<Rightarrow> (nat \<times> string) option" where
  "duration_item frac s =
     (if s = [] \<or> unit_char (hd s) then None
      else case leading_int 0 s of
        None \<Rightarrow> None
      | Some (v, s1) \<Rightarrow>
         (let pre = (length s1 \<noteq> length s); dot = (s1 \<noteq> [] \<and> hd s1 = CHR ''.'');
              (f, k, s2) = (if dot then leading_fraction False 0 0 (tl s1) else (0, 0, s1));
              post = (dot \<and> length s2 \<noteq> length (tl s1)) in
          if \<not> pre \<and> \<not> post then None
          else let u = takeWhile unit_char s2; rest = dropWhile unit_char s2 in
            case duration_unit u of
              None \<Rightarrow> None
            | Some n \<Rightarrow>
               if two63 div n < v then None
               else let w = v * n + (if 0 < f then frac f n k else 0) in
                 if 0 < f \<and> two63 < w then None else Some (w, rest)))"

lemma leading_int_length: "leading_int x s = Some (v, r) \<Longrightarrow> length r \<le> length s"
  by (induction x s rule: leading_int.induct) (fastforce simp: Let_def split: if_splits)+

lemma leading_fraction_length: "leading_fraction b x k s = (f, j, r) \<Longrightarrow> length r \<le> length s"
  by (induction b x k s rule: leading_fraction.induct) (fastforce simp: Let_def split: if_splits)+

lemma duration_item_shorter:
  assumes "duration_item frac s = Some (w, r)"
  shows "length r < length s"
proof -
  obtain v s1 where 1: "leading_int 0 s = Some (v, s1)"
    using assms by (auto simp: duration_item_def split: if_splits option.splits)
  define s2 where "s2 = snd (snd (if s1 \<noteq> [] \<and> hd s1 = CHR ''.'' then leading_fraction False 0 0 (tl s1) else (0, 0, s1)))"
  have "length s2 \<le> length s1"
  proof (cases "s1 \<noteq> [] \<and> hd s1 = CHR ''.''")
    case True
    obtain f j t where t: "leading_fraction False 0 0 (tl s1) = (f, j, t)" by (cases "leading_fraction False 0 0 (tl s1)")
    from leading_fraction_length [OF this] True t show ?thesis by (simp add: s2_def)
  qed (auto simp: s2_def)
  moreover have "takeWhile unit_char s2 \<noteq> []" "r = dropWhile unit_char s2"
    using assms 1 by (auto simp: duration_item_def s2_def Let_def duration_unit_def split: if_splits option.splits prod.splits)
  moreover have "length (takeWhile unit_char s2) + length (dropWhile unit_char s2) = length s2"
    by (metis length_append takeWhile_dropWhile_id)
  ultimately show ?thesis using leading_int_length [OF 1] by (cases "takeWhile unit_char s2") auto
qed

function duration_items :: "(nat \<Rightarrow> nat \<Rightarrow> nat \<Rightarrow> nat) \<Rightarrow> nat \<Rightarrow> string \<Rightarrow> nat option" where
  "duration_items frac d s =
     (if s = [] then Some d
      else case duration_item frac s of
        None \<Rightarrow> None
      | Some (v, rest) \<Rightarrow>
         (let d' = (d + v) mod 18446744073709551616 in if two63 < d' then None else duration_items frac d' rest))"
  by pat_completeness auto
termination by (relation "measure (\<lambda>(_, _, s). length s)") (auto dest: duration_item_shorter)

declare duration_items.simps [simp del]

definition parse_duration :: "(nat \<Rightarrow> nat \<Rightarrow> nat \<Rightarrow> nat) \<Rightarrow> string \<Rightarrow> int option" where
  "parse_duration frac s0 =
     (let neg = (s0 \<noteq> [] \<and> hd s0 = CHR ''-''); s = (if neg \<or> s0 \<noteq> [] \<and> hd s0 = CHR ''+'' then tl s0 else s0) in
      if s = ''0'' then Some 0
      else if s = [] then None
      else case duration_items frac 0 s of
        None \<Rightarrow> None
      | Some d \<Rightarrow> if neg then Some (- int d) else if two63 - 1 < d then None else Some (int d))"

section \<open>Reading the environment\<close>

definition env_or :: "(string \<Rightarrow> string) \<Rightarrow> string \<Rightarrow> string \<Rightarrow> string" where
  "env_or env k fallback = (if env k \<noteq> [] then env k else fallback)"

definition list_setting :: "string \<Rightarrow> string list" where
  "list_setting s = (if s = [] then [] else filter (\<lambda>p. p \<noteq> []) (map trim_space (split_on CHR '','' s)))"

definition duration_or :: "(nat \<Rightarrow> nat \<Rightarrow> nat \<Rightarrow> nat) \<Rightarrow> (string \<Rightarrow> string) \<Rightarrow> string \<Rightarrow> int \<Rightarrow> int" where
  "duration_or frac env k fallback =
     (if env k = [] then fallback else case parse_duration frac (env k) of Some d \<Rightarrow> d | None \<Rightarrow> fallback)"

definition duration_or_logged :: "(nat \<Rightarrow> nat \<Rightarrow> nat \<Rightarrow> nat) \<Rightarrow> (string \<Rightarrow> string) \<Rightarrow> string \<Rightarrow> int \<Rightarrow> int" where
  "duration_or_logged frac env k fallback =
     (if env k = [] then fallback
      else case parse_duration frac (env k) of Some d \<Rightarrow> if d \<le> 0 then fallback else d | None \<Rightarrow> fallback)"

section \<open>The configuration\<close>

record oidc_config =
  oc_issuer_url :: string
  oc_client_id :: string
  oc_client_secret :: string
  oc_redirect_url :: string
  oc_scopes :: "string list"
  oc_username_claim :: string
  oc_groups_claim :: string
  oc_admin_groups :: "string list"
  oc_provider_name :: string
  oc_frontend_url :: string
  oc_only :: bool

definition oidc_enabled :: "oidc_config \<Rightarrow> bool" where
  "oidc_enabled c \<longleftrightarrow> oc_issuer_url c \<noteq> [] \<and> oc_client_id c \<noteq> []"

record wol_config =
  wl_relay_url :: string
  wl_auth_token :: string

definition wol_enabled :: "wol_config \<Rightarrow> bool" where
  "wol_enabled w \<longleftrightarrow> wl_relay_url w \<noteq> []"

record config =
  cg_listen_addr :: string
  cg_database_url :: string
  cg_dev_mode :: bool
  cg_workspace_namespace :: string
  cg_default_namespace_pattern :: string
  cg_jwt_issuer :: string
  cg_jwt_key_path :: string
  cg_access_ttl :: int
  cg_connection_ttl :: int
  cg_stream_ttl :: int
  cg_internal_token :: string
  cg_cluster_domain :: string
  cg_remote_blocked_cidrs :: "string list"
  cg_admin_username :: string
  cg_admin_password :: string
  cg_tls_cert :: string
  cg_tls_key :: string
  cg_cors_origins :: "string list"
  cg_idle_sweep_interval :: int
  cg_session_sweep_interval :: int
  cg_events_poll_interval :: int
  cg_catalog_sync_interval :: int
  cg_metrics_enabled :: bool
  cg_oidc :: oidc_config
  cg_wol :: wol_config

definition one_second :: int where "one_second = 1000000000"

definition read_oidc :: "(string \<Rightarrow> string) \<Rightarrow> oidc_config" where
  "read_oidc env =
     \<lparr>oc_issuer_url = env ''WAAS_OIDC_ISSUER'', oc_client_id = env ''WAAS_OIDC_CLIENT_ID'',
      oc_client_secret = env ''WAAS_OIDC_CLIENT_SECRET'', oc_redirect_url = env ''WAAS_OIDC_REDIRECT_URL'',
      oc_scopes = list_setting (env_or env ''WAAS_OIDC_SCOPES'' ''openid,profile,email''),
      oc_username_claim = env_or env ''WAAS_OIDC_USERNAME_CLAIM'' ''preferred_username'',
      oc_groups_claim = env_or env ''WAAS_OIDC_GROUPS_CLAIM'' ''groups'',
      oc_admin_groups = list_setting (env ''WAAS_OIDC_ADMIN_GROUPS''),
      oc_provider_name = env_or env ''WAAS_OIDC_PROVIDER_NAME'' ''OIDC'',
      oc_frontend_url = env_or env ''WAAS_OIDC_FRONTEND_URL'' ''/'',
      oc_only = (env ''WAAS_LOGIN_OIDC_ONLY'' = ''true'')\<rparr>"

text \<open>\<open>resolv\<close> is the content of the pod's \<open>resolv.conf\<close>, when it can be read.\<close>

definition read_config :: "(nat \<Rightarrow> nat \<Rightarrow> nat \<Rightarrow> nat) \<Rightarrow> string option \<Rightarrow> (string \<Rightarrow> string) \<Rightarrow> config" where
  "read_config frac resolv env =
     \<lparr>cg_listen_addr = env_or env ''WAAS_LISTEN_ADDR'' '':8080'', cg_database_url = env ''WAAS_DATABASE_URL'',
      cg_dev_mode = (env ''WAAS_DEV'' = ''true''), cg_workspace_namespace = env_or env ''WAAS_WORKSPACE_NAMESPACE'' ''waas'',
      cg_default_namespace_pattern = env ''WAAS_DEFAULT_NAMESPACE_PATTERN'', cg_jwt_issuer = env_or env ''WAAS_JWT_ISSUER'' ''waas'',
      cg_jwt_key_path = env ''WAAS_JWT_PRIVATE_KEY_FILE'',
      cg_access_ttl = duration_or frac env ''WAAS_ACCESS_TOKEN_TTL'' (28800 * one_second),
      cg_connection_ttl = duration_or frac env ''WAAS_CONNECTION_TOKEN_TTL'' (300 * one_second),
      cg_stream_ttl = duration_or frac env ''WAAS_STREAM_TOKEN_TTL'' (120 * one_second),
      cg_internal_token = env ''WAAS_INTERNAL_TOKEN'',
      cg_cluster_domain = env_or env ''WAAS_CLUSTER_DOMAIN'' (discover_cluster_domain resolv),
      cg_remote_blocked_cidrs = list_setting (env ''WAAS_REMOTE_BLOCKED_CIDRS''),
      cg_admin_username = env_or env ''WAAS_ADMIN_USERNAME'' ''admin'', cg_admin_password = env ''WAAS_ADMIN_PASSWORD'',
      cg_tls_cert = env ''WAAS_TLS_CERT_FILE'', cg_tls_key = env ''WAAS_TLS_KEY_FILE'',
      cg_cors_origins =
        (let origins = env ''WAAS_CORS_ALLOWED_ORIGINS'' in if origins = [] then [] else split_on CHR '','' origins),
      cg_idle_sweep_interval = duration_or frac env ''WAAS_IDLE_SWEEP_INTERVAL'' (300 * one_second),
      cg_session_sweep_interval = duration_or frac env ''WAAS_SESSION_SWEEP_INTERVAL'' (60 * one_second),
      cg_events_poll_interval = duration_or frac env ''WAAS_EVENTS_POLL_INTERVAL'' (10 * one_second),
      cg_catalog_sync_interval = duration_or_logged frac env ''WAAS_CATALOG_SYNC_INTERVAL'' (21600 * one_second),
      cg_metrics_enabled = (env ''WAAS_METRICS_ENABLED'' = ''true''), cg_oidc = read_oidc env,
      cg_wol = \<lparr>wl_relay_url = env ''WAAS_WOL_RELAY_URL'', wl_auth_token = env ''WAAS_WOL_RELAY_TOKEN''\<rparr>\<rparr>"

text \<open>The gates of \<open>Load\<close>, by the variable whose value they refuse.\<close>

definition load_config :: "(nat \<Rightarrow> nat \<Rightarrow> nat \<Rightarrow> nat) \<Rightarrow> string option \<Rightarrow> (string \<Rightarrow> string) \<Rightarrow> string + config" where
  "load_config frac resolv env =
     (let c = read_config frac resolv env; o' = cg_oidc c in
      if oidc_enabled o' \<and> oc_client_secret o' = [] then Inl ''WAAS_OIDC_CLIENT_SECRET''
      else if oidc_enabled o' \<and> oc_redirect_url o' = [] then Inl ''WAAS_OIDC_REDIRECT_URL''
      else if oc_only o' \<and> \<not> oidc_enabled o' then Inl ''WAAS_LOGIN_OIDC_ONLY''
      else if cg_database_url c = [] \<and> \<not> cg_dev_mode c then Inl ''WAAS_DATABASE_URL''
      else let c' = (if cg_database_url c = [] then c\<lparr>cg_database_url := ''waas-dev.db''\<rparr> else c) in
        if cg_internal_token c' = [] \<and> \<not> cg_dev_mode c' then Inl ''WAAS_INTERNAL_TOKEN'' else Inr c')"

section \<open>What a loaded configuration guarantees\<close>

definition well_configured :: "config \<Rightarrow> bool" where
  "well_configured c \<longleftrightarrow>
     (oidc_enabled (cg_oidc c) \<longrightarrow> oc_client_secret (cg_oidc c) \<noteq> [] \<and> oc_redirect_url (cg_oidc c) \<noteq> []) \<and>
     (oc_only (cg_oidc c) \<longrightarrow> oidc_enabled (cg_oidc c)) \<and> cg_database_url c \<noteq> [] \<and>
     (cg_internal_token c \<noteq> [] \<or> cg_dev_mode c) \<and> cg_cluster_domain c \<noteq> [] \<and> cg_jwt_issuer c \<noteq> [] \<and>
     0 < cg_catalog_sync_interval c \<and> oc_username_claim (cg_oidc c) \<noteq> [] \<and> oc_groups_claim (cg_oidc c) \<noteq> []"

lemma duration_or_logged_pos: "0 < fallback \<Longrightarrow> 0 < duration_or_logged frac env k fallback"
  by (simp add: duration_or_logged_def split: option.split)

lemma env_or_nonempty: "fallback \<noteq> [] \<Longrightarrow> env_or env k fallback \<noteq> []"
  by (simp add: env_or_def)

lemma read_config_filled:
  "cg_cluster_domain (read_config frac resolv env) \<noteq> []" "cg_jwt_issuer (read_config frac resolv env) \<noteq> []"
  "0 < cg_catalog_sync_interval (read_config frac resolv env)"
  "oc_username_claim (cg_oidc (read_config frac resolv env)) \<noteq> []" "oc_groups_claim (cg_oidc (read_config frac resolv env)) \<noteq> []"
  by (simp_all add: read_config_def read_oidc_def env_or_nonempty discovered_domain_nonempty one_second_def duration_or_logged_pos)

lemma load_config_well_configured:
  assumes "load_config frac resolv env = Inr c"
  shows "well_configured c"
proof -
  obtain c0 where c0: "c0 = read_config frac resolv env" by blast
  note d = assms [unfolded load_config_def Let_def, folded c0]
  have c: "c = (if cg_database_url c0 = [] then c0\<lparr>cg_database_url := ''waas-dev.db''\<rparr> else c0)"
    using d by (simp split: if_split_asm)
  have "(oidc_enabled (cg_oidc c0) \<longrightarrow> oc_client_secret (cg_oidc c0) \<noteq> [] \<and> oc_redirect_url (cg_oidc c0) \<noteq> [])"
    "oc_only (cg_oidc c0) \<longrightarrow> oidc_enabled (cg_oidc c0)" "cg_internal_token c0 \<noteq> [] \<or> cg_dev_mode c0"
    using d by (simp_all split: if_split_asm)
  moreover note read_config_filled [of frac resolv env, folded c0]
  ultimately show ?thesis unfolding c by (simp add: well_configured_def)
qed

text \<open>A blank or a separator in a list setting never yields an empty entry.\<close>

lemma list_setting_entries: "p \<in> set (list_setting s) \<Longrightarrow> p \<noteq> []"
  by (auto simp: list_setting_def split: if_splits)

text \<open>Durations are what \<open>time.ParseDuration\<close> reads, and bounded by its type.\<close>

lemma duration_items_bound: "d \<le> two63 \<Longrightarrow> duration_items frac d s = Some e \<Longrightarrow> e \<le> two63"
proof (induction frac d s rule: duration_items.induct)
  case (1 frac d s)
  then show ?case
    by (subst (asm) (2) duration_items.simps) (auto simp: Let_def split: if_splits option.splits prod.splits)
qed

lemma parse_duration_bounds: "parse_duration frac s = Some d \<Longrightarrow> min_int64 \<le> d \<and> d \<le> max_int64"
  using duration_items_bound [of 0 frac]
  by (fastforce simp: parse_duration_def Let_def two63_def min_int64_def max_int64_def split: if_splits option.splits)

lemma parse_duration_demo:
  "parse_duration frac ''8h'' = Some (28800 * one_second)" "parse_duration frac ''-1m30s'' = Some (- 90 * one_second)"
  "parse_duration frac ''90'' = None" "parse_duration frac '''' = None" "parse_duration frac ''+0'' = Some 0"
  by (simp_all add: parse_duration_def one_second_def two63_def duration_items.simps duration_item_def duration_unit_def unit_char_def
      is_digit_def digit_value_def Let_def)

end
