(* ===== verification/Sso.thy ===== *)
theory Sso
  imports Accounts Config
begin

text \<open>
  Sign-in through an OpenID provider: \<open>service/oidc_service.go\<close> over the accounts, and the routes of
  \<open>handler/auth_handler.go\<close> (cookies, redirects, the switch that disables local sign-in). The provider and the
  OAuth library are parameters: the redirect they build, the code exchange and the verification of an ID token.
\<close>

section \<open>The identity provider\<close>

text \<open>A JSON value as \<open>map[string]any\<close> holds it; only texts and lists matter.\<close>

datatype claim = ClaimText string | ClaimList "claim list" | ClaimOther

record id_token =
  it_subject :: string
  it_nonce :: string
  it_claims :: "(string \<rightharpoonup> claim) option"

record oauth_client =
  oa_client_id :: string
  oa_client_secret :: string
  oa_redirect_url :: string
  oa_scopes :: "string list"

text \<open>A discovered provider. The exchange fails, or yields a token with or without an ID token in it.\<close>

record idp =
  ip_auth_url :: "oauth_client \<Rightarrow> string \<Rightarrow> string \<Rightarrow> string \<Rightarrow> string"
  ip_exchange :: "oauth_client \<Rightarrow> string \<Rightarrow> string \<Rightarrow> string option option"
  ip_verify :: "string \<Rightarrow> string \<Rightarrow> id_token option"

text \<open>Discovery runs once it is needed and until it has succeeded.\<close>

definition ensure_provider :: "idp option \<Rightarrow> idp option \<Rightarrow> idp option \<times> idp option" where
  "ensure_provider discovery cached =
     (case cached of Some p \<Rightarrow> (Some p, cached) | None \<Rightarrow> (discovery, discovery))"

definition oauth_config :: "oidc_config \<Rightarrow> oauth_client" where
  "oauth_config cfg = \<lparr>oa_client_id = oc_client_id cfg, oa_client_secret = oc_client_secret cfg,
     oa_redirect_url = oc_redirect_url cfg, oa_scopes = oc_scopes cfg\<rparr>"

section \<open>The authorization request\<close>

record auth_request =
  aq_url :: string
  aq_state :: string
  aq_verifier :: string
  aq_nonce :: string

text \<open>\<open>base64.RawURLEncoding\<close>.\<close>

definition b64url_digit :: "nat \<Rightarrow> char" where
  "b64url_digit n = ''ABCDEFGHIJKLMNOPQRSTUVWXYZabcdefghijklmnopqrstuvwxyz0123456789-_'' ! n"

fun base64url :: "string \<Rightarrow> string" where
  "base64url [] = []"
| "base64url [a] = [b64url_digit (byte a div 4), b64url_digit (byte a mod 4 * 16)]"
| "base64url [a, b] = [b64url_digit (byte a div 4), b64url_digit (byte a mod 4 * 16 + byte b div 16),
     b64url_digit (byte b mod 16 * 4)]"
| "base64url (a # b # c # s) = b64url_digit (byte a div 4) # b64url_digit (byte a mod 4 * 16 + byte b div 16) #
     b64url_digit (byte b mod 16 * 4 + byte c div 64) # b64url_digit (byte c mod 64) # base64url s"

text \<open>24 bytes of the system's randomness.\<close>

definition random_token :: "string \<Rightarrow> string" where
  "random_token entropy = base64url (take 24 entropy)"

text \<open>\<open>verifier\<close> is what \<open>oauth2.GenerateVerifier\<close> returned.\<close>

definition auth_url ::
  "oidc_config \<Rightarrow> idp option \<Rightarrow> idp option \<Rightarrow> string \<Rightarrow> string \<Rightarrow> string \<Rightarrow> (api_error + auth_request) \<times> idp option" where
  "auth_url cfg discovery cached entropy verifier entropy' =
     (case ensure_provider discovery cached of
        (None, c) \<Rightarrow> (Inl (Unavailable [''SSO provider is unreachable'']), c)
      | (Some p, c) \<Rightarrow>
         (let state = random_token entropy; nonce = random_token entropy' in
          (Inr \<lparr>aq_url = ip_auth_url p (oauth_config cfg) state verifier nonce, aq_state = state,
                aq_verifier = verifier, aq_nonce = nonce\<rparr>, c)))"

section \<open>From the token to an identity\<close>

record oidc_identity =
  oi_username :: string
  oi_email :: string
  oi_display_name :: string
  oi_groups :: "string list"

definition text_claim :: "(string \<rightharpoonup> claim) \<Rightarrow> string \<Rightarrow> string" where
  "text_claim claims k = (case claims k of Some (ClaimText v) \<Rightarrow> v | _ \<Rightarrow> [])"

fun group_names :: "claim list \<Rightarrow> string list" where
  "group_names [] = []"
| "group_names (ClaimText g # gs) = (if g \<noteq> [] then g # group_names gs else group_names gs)"
| "group_names (_ # gs) = group_names gs"

definition identity_from_claims :: "oidc_config \<Rightarrow> string \<Rightarrow> (string \<rightharpoonup> claim) \<Rightarrow> oidc_identity" where
  "identity_from_claims cfg subject claims =
     \<lparr>oi_username = (if text_claim claims (oc_username_claim cfg) \<noteq> [] then text_claim claims (oc_username_claim cfg) else subject),
      oi_email = text_claim claims ''email'', oi_display_name = text_claim claims ''name'',
      oi_groups = (case claims (oc_groups_claim cfg) of Some (ClaimList gs) \<Rightarrow> group_names gs | _ \<Rightarrow> [])\<rparr>"

definition verified_identity :: "oidc_config \<Rightarrow> idp \<Rightarrow> string \<Rightarrow> string \<Rightarrow> string \<Rightarrow> api_error + string \<times> oidc_identity" where
  "verified_identity cfg p code verifier nonce =
     (case ip_exchange p (oauth_config cfg) code verifier of
        None \<Rightarrow> Inl (Unauthorized [''SSO code exchange failed''])
      | Some None \<Rightarrow> Inl (Unauthorized [''SSO provider returned no id_token''])
      | Some (Some raw) \<Rightarrow>
         (case ip_verify p (oc_client_id cfg) raw of
            None \<Rightarrow> Inl (Unauthorized [''SSO id_token verification failed''])
          | Some t \<Rightarrow>
             if it_nonce t \<noteq> nonce then Inl (Unauthorized [''SSO nonce mismatch''])
             else case it_claims t of
               None \<Rightarrow> Inl (Unexpected [''decoding id_token claims''])
             | Some claims \<Rightarrow>
                (let who = identity_from_claims cfg (it_subject t) claims in
                 if it_subject t = [] then Inl (Unauthorized [''id_token carries no subject''])
                 else if oi_username who = [] then Inl (Unauthorized [''id_token carries no usable claim'', oc_username_claim cfg])
                 else Inr (it_subject t, who))))"

section \<open>From the identity to an account\<close>

text \<open>Which of the statements only this service sends reach the database: the lookup by name, the list, the closing update.\<close>

record sso_env = account_env +
  se_name_ok :: bool
  se_list_ok :: bool
  se_update_ok :: bool

definition admin_by_groups :: "oidc_config \<Rightarrow> string list \<Rightarrow> bool" where
  "admin_by_groups cfg groups = list_ex (\<lambda>g. g \<in> set groups) (oc_admin_groups cfg)"

definition directory_role :: "oidc_config \<Rightarrow> string list \<Rightarrow> string" where
  "directory_role cfg groups = (if admin_by_groups cfg groups then role_admin else role_user)"

definition sso_refusal :: api_error where
  "sso_refusal = Unauthorized [''SSO login failed for this account'']"

definition resolve_user ::
  "sso_env \<Rightarrow> string \<Rightarrow> oidc_identity \<Rightarrow> string \<Rightarrow> user list \<Rightarrow> (api_error + user option) \<times> audit_entry list" where
  "resolve_user env subject who ip rows =
     (case find_by_subject (ae_read_ok env) rows subject of
        Found u \<Rightarrow> (Inr (Some u), [])
      | Failed \<Rightarrow> (Inl (Unexpected [''looking up SSO subject'']), [])
      | Missing \<Rightarrow> (case find_by_username (se_name_ok env) rows (oi_username who) of
          Found u \<Rightarrow>
            (Inl sso_refusal, [record_audit (named_actor (oi_username who) ip) ''user.sso_link_conflict'' ''user'' (us_id u)
               [''username claim collides with an existing account'']])
        | Failed \<Rightarrow> (Inl (Unexpected [''looking up SSO user'', oi_username who]), [])
        | Missing \<Rightarrow> (case placement_username_conflict (ae_text env) (list_usernames (se_list_ok env) rows) (oi_username who) of
            Inl e \<Rightarrow> (Inl e, [])
          | Inr (Some (other, ns)) \<Rightarrow>
              (Inl sso_refusal, [record_audit (named_actor (oi_username who) ip) ''user.sso_placement_conflict'' ''user'' []
                 [oi_username who, ns, other]])
          | Inr None \<Rightarrow> (Inr None, []))))"

definition provisioned_user :: "sso_env \<Rightarrow> oidc_config \<Rightarrow> string \<Rightarrow> oidc_identity \<Rightarrow> user" where
  "provisioned_user env cfg subject who =
     \<lparr>us_id = ae_fresh_id env, us_username = oi_username who, us_display_name = oi_display_name who, us_email = oi_email who,
      us_password_hash = [], us_role = directory_role cfg (oi_groups who), us_active = True,
      us_max_workspaces = default_max_workspaces, us_created_at = ae_now env, us_updated_at = ae_now env,
      us_last_login_at = None, us_tokens_valid_after = None, us_groups = oi_groups who, us_preferences = [],
      us_oidc_subject = subject\<rparr>"

text \<open>The end of every sign-in: the whole row is written back from the copy in memory.\<close>

definition finish_login ::
  "sso_env \<Rightarrow> oidc_identity \<Rightarrow> string \<Rightarrow> user \<Rightarrow> user list \<Rightarrow> audit_entry list \<Rightarrow> (api_error + user) \<times> user list \<times> audit_entry list" where
  "finish_login env who ip u rows au =
     (let u' = u\<lparr>us_last_login_at := Some (ae_now env)\<rparr> in
      case users_update (se_update_ok env) u' rows of
        (Inl e, rows') \<Rightarrow> (Inl (Unexpected [''recording SSO login for'', oi_username who]), rows', au)
      | (Inr _, rows') \<Rightarrow> (Inr u', rows', au @
          [record_audit ((named_actor (us_username u) ip)\<lparr>ac_id := us_id u\<rparr>) ''user.logged_in'' ''user'' (us_id u) [''provider=oidc'']]))"

definition provision_user ::
  "sso_env \<Rightarrow> oidc_config \<Rightarrow> string \<Rightarrow> oidc_identity \<Rightarrow> string \<Rightarrow> user list \<Rightarrow> (api_error + user) \<times> user list \<times> audit_entry list" where
  "provision_user env cfg subject who ip rows =
     (let u = provisioned_user env cfg subject who in
      case users_insert (ae_row_ok env) u rows of
        (Inl e, rows') \<Rightarrow> (Inl (Unexpected [''provisioning SSO user'', oi_username who]), rows', [])
      | (Inr _, rows') \<Rightarrow> finish_login env who ip u rows'
          [record_audit ((named_actor (us_username u) ip)\<lparr>ac_id := us_id u\<rparr>) ''user.provisioned_oidc'' ''user'' (us_id u)
             [us_username u]])"

definition refreshed_user :: "sso_env \<Rightarrow> oidc_config \<Rightarrow> oidc_identity \<Rightarrow> user \<Rightarrow> user" where
  "refreshed_user env cfg who u = u\<lparr>us_groups := oi_groups who,
     us_email := (if oi_email who \<noteq> [] then oi_email who else us_email u),
     us_display_name := (if us_display_name u = [] \<and> oi_display_name who \<noteq> [] then oi_display_name who else us_display_name u),
     us_role := (if oc_admin_groups cfg \<noteq> [] then directory_role cfg (oi_groups who) else us_role u),
     us_updated_at := ae_now env\<rparr>"

text \<open>The account as it was read, against the table as it is now.\<close>

definition refresh_user ::
  "sso_env \<Rightarrow> oidc_config \<Rightarrow> oidc_identity \<Rightarrow> string \<Rightarrow> user \<Rightarrow> user list \<Rightarrow> (api_error + user) \<times> user list \<times> audit_entry list" where
  "refresh_user env cfg who ip u rows =
     (if \<not> us_active u
      then (Inl (Unauthorized [''account is deactivated'']), rows, [login_failed ip (oi_username who) (us_id u) ''provider=oidc inactive''])
      else let u' = refreshed_user env cfg who u in
        if us_role u' \<noteq> us_role u
        then (case set_role (ae_role_ok env) (us_id u) (us_role u') rows of
            (Inl e, rows') \<Rightarrow> (Inl (Unexpected [''syncing role for SSO user'', oi_username who]), rows', [])
          | (Inr _, rows') \<Rightarrow> finish_login env who ip u' rows' [])
        else finish_login env who ip u' rows [])"

definition sync_user ::
  "sso_env \<Rightarrow> oidc_config \<Rightarrow> string \<Rightarrow> oidc_identity \<Rightarrow> string \<Rightarrow> user list \<Rightarrow> (api_error + user) \<times> user list \<times> audit_entry list" where
  "sync_user env cfg subject who ip rows =
     (case resolve_user env subject who ip rows of
        (Inl e, au) \<Rightarrow> (Inl e, rows, au)
      | (Inr None, au) \<Rightarrow> provision_user env cfg subject who ip rows
      | (Inr (Some u), au) \<Rightarrow> refresh_user env cfg who ip u rows)"

definition sso_callback ::
  "sso_env \<Rightarrow> oidc_config \<Rightarrow> idp option \<Rightarrow> idp option \<Rightarrow> string \<Rightarrow> string \<Rightarrow> string \<Rightarrow> string \<Rightarrow> user list \<Rightarrow>
     (api_error + login_result) \<times> idp option \<times> user list \<times> audit_entry list" where
  "sso_callback env cfg discovery cached code verifier nonce ip rows =
     (case ensure_provider discovery cached of
        (None, c) \<Rightarrow> (Inl (Unavailable [''SSO provider is unreachable'']), c, rows, [])
      | (Some p, c) \<Rightarrow> (case verified_identity cfg p code verifier nonce of
          Inl e \<Rightarrow> (Inl e, c, rows, [])
        | Inr (subject, who) \<Rightarrow> (case sync_user env cfg subject who ip rows of
            (Inl e, rows', au) \<Rightarrow> (Inl e, c, rows', au)
          | (Inr u, rows', au) \<Rightarrow>
              (case ae_sign env (AccessPayload (new_access_claims (ae_issuer env) (us_id u) (us_role u) (ae_now env) (ae_access_ttl env))) of
                 None \<Rightarrow> (Inl (Unexpected [''issuing access token for'', us_username u]), c, rows', au)
               | Some token \<Rightarrow> (Inr \<lparr>lr_token = token, lr_user = u\<rparr>, c, rows', au)))))"

section \<open>The routes\<close>

text \<open>What becomes of the cookie that pins an authorization request in the browser.\<close>

datatype state_cookie = KeepState | PinState string bool | ClearState

datatype sso_answer = Problem api_error | RedirectTo string

record sso_response =
  sr_answer :: sso_answer
  sr_state :: state_cookie
  sr_session :: "session_cookie option"

definition pack_auth_cookie :: "auth_request \<Rightarrow> string" where
  "pack_auth_cookie q = aq_state q @ ''.'' @ aq_verifier q @ ''.'' @ aq_nonce q"

definition unpack_auth_cookie :: "string \<Rightarrow> (string \<times> string \<times> string) option" where
  "unpack_auth_cookie v =
     (case split_on CHR ''.'' v of
        [state, verifier, nonce] \<Rightarrow> if state = [] \<or> verifier = [] \<or> nonce = [] then None else Some (state, verifier, nonce)
      | _ \<Rightarrow> None)"

text \<open>\<open>url.QueryEscape\<close>, which \<open>url.Values.Encode\<close> applies to a value.\<close>

definition upper_hex :: "nat \<Rightarrow> char" where
  "upper_hex n = ''0123456789ABCDEF'' ! n"

definition query_plain :: "char \<Rightarrow> bool" where
  "query_plain c \<longleftrightarrow> is_digit c \<or> 65 \<le> byte c \<and> byte c \<le> 90 \<or> 97 \<le> byte c \<and> byte c \<le> 122 \<or> c \<in> set ''-_.~''"

fun query_escape :: "string \<Rightarrow> string" where
  "query_escape [] = []"
| "query_escape (c # s) =
     (if c = CHR '' '' then CHR ''+'' # query_escape s
      else if query_plain c then c # query_escape s
      else CHR ''%'' # upper_hex (byte c div 16) # upper_hex (byte c mod 16) # query_escape s)"

definition frontend_target :: "oidc_config \<Rightarrow> string option \<Rightarrow> string" where
  "frontend_target cfg err =
     trim_suffix (oc_frontend_url cfg) ''/'' @ ''/auth/callback'' @
     (case err of None \<Rightarrow> [] | Some m \<Rightarrow> ''#error='' @ query_escape m)"

definition refuse :: "api_error \<Rightarrow> sso_response" where
  "refuse e = \<lparr>sr_answer = Problem e, sr_state = KeepState, sr_session = None\<rparr>"

definition to_frontend :: "oidc_config \<Rightarrow> string option \<Rightarrow> session_cookie option \<Rightarrow> sso_response" where
  "to_frontend cfg err session = \<lparr>sr_answer = RedirectTo (frontend_target cfg err), sr_state = ClearState, sr_session = session\<rparr>"

text \<open>Only the detail of a problem reaches the user.\<close>

definition shown_error :: "api_error \<Rightarrow> string" where
  "shown_error e = (if status_of e = 0 then ''SSO login failed'' else concat (snd (written_problem e)))"

text \<open>\<open>wired\<close>: the service exists, which \<open>main\<close> decides by \<open>OIDCConfig.Enabled\<close>.\<close>

definition oidc_start ::
  "oidc_config \<Rightarrow> bool \<Rightarrow> idp option \<Rightarrow> idp option \<Rightarrow> string \<Rightarrow> string \<Rightarrow> string \<Rightarrow> http_request \<Rightarrow> sso_response \<times> idp option" where
  "oidc_start cfg wired discovery cached entropy verifier entropy' r =
     (if \<not> wired then (refuse (NotFound [''SSO login is not configured'']), cached)
      else case auth_url cfg discovery cached entropy verifier entropy' of
        (Inl e, c) \<Rightarrow> (refuse e, c)
      | (Inr q, c) \<Rightarrow>
          (\<lparr>sr_answer = RedirectTo (aq_url q), sr_state = PinState (pack_auth_cookie q) (is_https r), sr_session = None\<rparr>, c))"

definition state_mismatch :: sso_response where
  "state_mismatch = refuse (Unauthorized [''SSO state mismatch''])"

definition oidc_callback ::
  "sso_env \<Rightarrow> oidc_config \<Rightarrow> bool \<Rightarrow> idp option \<Rightarrow> idp option \<Rightarrow> string option \<Rightarrow> (string \<Rightarrow> string) \<Rightarrow> http_request \<Rightarrow> user list \<Rightarrow>
     sso_response \<times> idp option \<times> user list \<times> audit_entry list" where
  "oidc_callback env cfg wired discovery cached cookie query r rows =
     (if \<not> wired then (refuse (NotFound [''SSO login is not configured'']), cached, rows, [])
      else case cookie of
        None \<Rightarrow> (state_mismatch, cached, rows, [])
      | Some v \<Rightarrow> (case unpack_auth_cookie v of
          None \<Rightarrow> (state_mismatch, cached, rows, [])
        | Some (state, verifier, nonce) \<Rightarrow>
            if state \<noteq> query ''state'' then (state_mismatch, cached, rows, [])
            else if query ''error'' \<noteq> [] then (to_frontend cfg (Some (query ''error'')) None, cached, rows, [])
            else (case sso_callback env cfg discovery cached (query ''code'') verifier nonce (ac_client_ip (actor_of r None)) rows of
                (Inl e, c, rows', au) \<Rightarrow> (to_frontend cfg (Some (shown_error e)) None, c, rows', au)
              | (Inr res, c, rows', au) \<Rightarrow> (to_frontend cfg None (Some (set_session_cookie r (lr_token res))), c, rows', au))))"

text \<open>Local sign-in; \<open>body\<close> is the decoded request.\<close>

definition login_route ::
  "account_env \<Rightarrow> oidc_config \<Rightarrow> http_request \<Rightarrow> (string \<times> string) option \<Rightarrow> user list \<Rightarrow>
     (api_error + login_result \<times> session_cookie) \<times> user list \<times> audit_entry list" where
  "login_route env cfg r body rows =
     (if oc_only cfg then (Inl (NotFound [''local login is disabled'']), rows, [])
      else case body of
        None \<Rightarrow> (Inl (BadRequest [''invalid JSON body'']), rows, [])
      | Some (username, password) \<Rightarrow>
          (case login env (ac_client_ip (actor_of r None)) username password rows of
             (Inl e, rows', au) \<Rightarrow> (Inl e, rows', au)
           | (Inr res, rows', au) \<Rightarrow> (Inr (res, set_session_cookie r (lr_token res)), rows', au)))"

definition logout_route ::
  "account_env \<Rightarrow> http_request \<Rightarrow> access_claims \<Rightarrow> user list \<Rightarrow> (api_error + session_cookie) \<times> user list" where
  "logout_route env r claims rows =
     (case logout env (actor_of r (Some claims)) rows of
        (Inl e, rows') \<Rightarrow> (Inl e, rows') | (Inr _, rows') \<Rightarrow> (Inr (clear_session_cookie r), rows'))"

definition me_route :: "account_env \<Rightarrow> http_request \<Rightarrow> access_claims \<Rightarrow> user list \<Rightarrow> api_error + user" where
  "me_route env r claims rows = me env (ac_id (actor_of r (Some claims))) rows"

definition stream_token_route :: "account_env \<Rightarrow> http_request \<Rightarrow> access_claims \<Rightarrow> user list \<Rightarrow> api_error + string" where
  "stream_token_route env r claims rows = stream_token env (ac_id (actor_of r (Some claims))) rows"

record login_methods =
  lm_local :: bool
  lm_oidc :: bool
  lm_name :: string
  lm_start_url :: string

definition providers_route :: "oidc_config \<Rightarrow> bool \<Rightarrow> login_methods" where
  "providers_route cfg wired =
     (if wired then \<lparr>lm_local = (\<not> oc_only cfg), lm_oidc = True, lm_name = oc_provider_name cfg,
          lm_start_url = ''/api/v1/auth/oidc/start''\<rparr>
      else \<lparr>lm_local = (\<not> oc_only cfg), lm_oidc = False, lm_name = [], lm_start_url = []\<rparr>)"

section \<open>The browser's cookie\<close>

lemma b64url_digit_plain: "n < 64 \<Longrightarrow> b64url_digit n \<noteq> CHR ''.''"
proof -
  assume "n < 64"
  then have "b64url_digit n \<in> set ''ABCDEFGHIJKLMNOPQRSTUVWXYZabcdefghijklmnopqrstuvwxyz0123456789-_''"
    unfolding b64url_digit_def by (intro nth_mem) simp
  then show ?thesis by auto
qed

lemma base64url_plain: "CHR ''.'' \<notin> set (base64url s)"
proof (induction s rule: base64url.induct)
  case (4 a b c s)
  have "byte a div 4 < 64" "byte a mod 4 * 16 + byte b div 16 < 64" "byte b mod 16 * 4 + byte c div 64 < 64" "byte c mod 64 < 64"
    using byte_lt [of a] byte_lt [of b] byte_lt [of c] by linarith+
  with 4 b64url_digit_plain show ?case by (simp add: eq_commute [of "CHR ''.''"])
next
  case (2 a)
  have "byte a div 4 < 64" "byte a mod 4 * 16 < 64" using byte_lt [of a] by linarith+
  with b64url_digit_plain show ?case by (simp add: eq_commute [of "CHR ''.''"])
next
  case (3 a b)
  have "byte a div 4 < 64" "byte a mod 4 * 16 + byte b div 16 < 64" "byte b mod 16 * 4 < 64"
    using byte_lt [of a] byte_lt [of b] by linarith+
  with b64url_digit_plain show ?case by (simp add: eq_commute [of "CHR ''.''"])
qed simp

lemma base64url_nonempty: "s \<noteq> [] \<Longrightarrow> base64url s \<noteq> []"
  by (cases s rule: base64url.cases) simp_all

lemma random_token_plain: "CHR ''.'' \<notin> set (random_token entropy)"
  by (simp add: random_token_def base64url_plain)

lemma random_token_nonempty: "entropy \<noteq> [] \<Longrightarrow> random_token entropy \<noteq> []"
  by (simp add: random_token_def base64url_nonempty)

lemma split_three:
  assumes "CHR ''.'' \<notin> set a" "CHR ''.'' \<notin> set b" "CHR ''.'' \<notin> set c"
  shows "split_on CHR ''.'' (a @ ''.'' @ b @ ''.'' @ c) = [a, b, c]"
  using split_join [of "[a, b, c]" "CHR ''.''"] assms by simp

lemma unpack_pack:
  assumes "aq_state q \<noteq> []" "aq_verifier q \<noteq> []" "aq_nonce q \<noteq> []"
    and "CHR ''.'' \<notin> set (aq_state q)" "CHR ''.'' \<notin> set (aq_verifier q)" "CHR ''.'' \<notin> set (aq_nonce q)"
  shows "unpack_auth_cookie (pack_auth_cookie q) = Some (aq_state q, aq_verifier q, aq_nonce q)"
  using assms by (simp add: unpack_auth_cookie_def pack_auth_cookie_def split_three del: append.simps)

lemma unpack_shape:
  assumes "unpack_auth_cookie v = Some (s, w, n)"
  shows "v = s @ ''.'' @ w @ ''.'' @ n \<and> s \<noteq> [] \<and> w \<noteq> [] \<and> n \<noteq> []"
proof -
  have "split_on CHR ''.'' v = [s, w, n]" "s \<noteq> []" "w \<noteq> []" "n \<noteq> []"
    using assms by (auto simp: unpack_auth_cookie_def split: list.splits if_splits)
  with join_split [of "CHR ''.''" v] show ?thesis by simp
qed

section \<open>Who is signed in\<close>

lemma finish_login_done:
  assumes "finish_login env who ip u rows au = (Inr v, rows', au')"
  shows "v = u\<lparr>us_last_login_at := Some (ae_now env)\<rparr> \<and> user_at (us_id u) rows \<noteq> None \<and>
    rows' = map (\<lambda>r. if us_id r = us_id u then update_row v r else r) rows"
  using assms by (auto simp: finish_login_def Let_def users_update_def users_write_def split: if_splits)

lemma finish_login_failed:
  "finish_login env who ip u rows au = (Inl e, rows', au') \<Longrightarrow> rows' = rows \<and> status_of e = 0"
  by (auto simp: finish_login_def Let_def users_update_def users_write_def split: if_splits)

lemma user_at_map_update:
  assumes "user_at i rows = Some r" "us_id (f r) = us_id r"
  shows "user_at i (map (\<lambda>r. if us_id r = i then f r else r) rows) = Some (f r)"
  using assms by (induction rows) (auto simp: user_at_def)

text \<open>What a sign-in as \<open>u\<close> under a subject leaves in the table.\<close>

definition mirrored :: "oidc_config \<Rightarrow> string \<Rightarrow> oidc_identity \<Rightarrow> user \<Rightarrow> user \<Rightarrow> bool" where
  "mirrored cfg subject who u w \<longleftrightarrow>
     us_oidc_subject w = subject \<and> us_active w \<and> us_role w = us_role u \<and> us_groups w = split_groups (join_groups (oi_groups who)) \<and>
     (oc_admin_groups cfg \<noteq> [] \<longrightarrow> us_role w = directory_role cfg (oi_groups who))"

lemma provision_done:
  assumes "provision_user env cfg subject who ip rows = (Inr v, rows', au)" "keyed rows"
  shows "us_id v = ae_fresh_id env \<and> us_username v = oi_username who \<and> (\<forall>r \<in> set rows. us_id r \<noteq> us_id v) \<and> set rows \<subseteq> set rows' \<and>
    (\<forall>r \<in> set rows'. us_id r \<noteq> us_id v \<longrightarrow> r \<in> set rows) \<and>
    (\<exists>w. user_at (us_id v) rows' = Some w \<and> mirrored cfg subject who v w)"
proof -
  define u where "u = provisioned_user env cfg subject who"
  define u1 where "u1 = u\<lparr>us_groups := split_groups (join_groups (us_groups u))\<rparr>"
  obtain au0 where f: "finish_login env who ip u (rows @ [u1]) au0 = (Inr v, rows', au)" and n: "\<not> unique_violation u rows"
    using assms(1) by (auto simp: provision_user_def Let_def users_insert_def u_def [symmetric] u1_def split: if_splits)
  have fresh: "us_id r \<noteq> us_id u" if "r \<in> set rows" for r using n that by (auto simp: unique_violation_def list_ex_iff)
  note d = finish_login_done [OF f]
  have id1: "us_id u1 = us_id u" by (simp add: u1_def)
  have v: "v = u\<lparr>us_last_login_at := Some (ae_now env)\<rparr>" using d by blast
  have map_rows: "map (\<lambda>r. if us_id r = us_id u then update_row v r else r) rows = rows" using fresh by (intro map_idI) simp
  have rows': "rows' = rows @ [update_row v u1]" using d id1 map_rows by simp
  have "user_at (us_id u) rows' = Some (update_row v u1)"
    unfolding rows' user_at_def using fresh by (induction rows) (simp_all add: id1 update_row_def)
  moreover have "mirrored cfg subject who v (update_row v u1)"
    by (auto simp: mirrored_def v u1_def u_def provisioned_user_def update_row_def)
  moreover have "us_id v = us_id u" "us_id (update_row v u1) = us_id u" using v id1 by (simp_all add: update_row_def)
  moreover have "us_id u = ae_fresh_id env" "us_username v = oi_username who" using v by (simp_all add: u_def provisioned_user_def)
  ultimately show ?thesis using fresh unfolding rows' by auto
qed

lemma refresh_done:
  assumes "refresh_user env cfg who ip u rows = (Inr v, rows', au)" "keyed rows" "u \<in> set rows" "us_oidc_subject u = subject"
  shows "us_id v = us_id u \<and> us_active u \<and> (\<forall>r \<in> set rows. us_id r \<noteq> us_id u \<longrightarrow> r \<in> set rows') \<and>
    (\<forall>r \<in> set rows'. us_id r \<noteq> us_id u \<longrightarrow> r \<in> set rows) \<and>
    (\<exists>w. user_at (us_id u) rows' = Some w \<and> mirrored cfg subject who v w)"
proof -
  define u' where "u' = refreshed_user env cfg who u"
  have idu: "us_id u' = us_id u" "us_active u' = us_active u" "us_oidc_subject u' = subject"
    using assms(4) by (simp_all add: u'_def refreshed_user_def)
  have act: "us_active u" using assms(1) by (simp add: refresh_user_def split: if_split_asm)
  have at: "user_at (us_id u) rows = Some u" using assms(2,3) user_at_keyed by blast
  define g where "g r = (if us_role u' \<noteq> us_role u then r\<lparr>us_role := us_role u'\<rparr> else r)" for r :: user
  define rows1 where "rows1 = map (\<lambda>r. if us_id r = us_id u then g r else r) rows"
  have "rows1 = rows" if "us_role u' = us_role u" using that by (simp add: rows1_def g_def cong: if_cong)
  then have f: "finish_login env who ip u' rows1 [] = (Inr v, rows', au)"
  proof (cases "us_role u' = us_role u")
    case False
    then have "g r = r\<lparr>us_role := us_role u'\<rparr>" for r by (simp add: g_def)
    with assms(1) act at False show ?thesis
      by (simp add: refresh_user_def Let_def flip: u'_def) (simp add: set_role_def users_write_def rows1_def cong: if_cong split: if_split_asm)
  qed (use assms(1) act in \<open>simp add: refresh_user_def Let_def flip: u'_def\<close>)
  note d = finish_login_done [OF f]
  have at1: "user_at (us_id u) rows1 = Some (g u)"
    unfolding rows1_def by (rule user_at_map_update [OF at]) (simp add: g_def)
  have rows': "rows' = map (\<lambda>r. if us_id r = us_id u then update_row v r else r) rows1" using d idu by simp
  have at2: "user_at (us_id u) rows' = Some (update_row v (g u))"
    unfolding rows' by (rule user_at_map_update [OF at1]) (simp add: update_row_def)
  have v: "v = u'\<lparr>us_last_login_at := Some (ae_now env)\<rparr>" using d by simp
  have "mirrored cfg subject who v (update_row v (g u))"
    using act assms(4) by (simp add: mirrored_def v update_row_def g_def u'_def refreshed_user_def)
  with at2 idu v act show ?thesis unfolding rows' rows1_def by (auto simp: g_def update_row_def split: if_splits)
qed

lemma refresh_user_failed:
  assumes "refresh_user env cfg who ip u rows = (Inl e, rows', au)" "status_of e \<noteq> 0"
  shows "rows' = rows"
  using assms by (auto simp: refresh_user_def Let_def set_role_def users_write_def dest: finish_login_failed split: if_splits prod.splits)

lemma resolve_some:
  assumes "resolve_user env subject who ip rows = (Inr (Some u), au)"
  shows "u \<in> set rows \<and> us_oidc_subject u = subject \<and> subject \<noteq> []"
  using assms by (auto simp: resolve_user_def find_by_subject_def find_by_username_def find_user_def
      split: if_splits option.splits fetched.splits sum.splits dest: find_SomeD)

lemma resolve_none:
  assumes "resolve_user env subject who ip rows = (Inr None, au)" "subject \<noteq> []"
  shows "\<forall>r \<in> set rows. us_oidc_subject r \<noteq> subject \<and> us_username r \<noteq> oi_username who \<and>
    (personal_namespace (ae_text env) (oi_username who) [] \<noteq> [] \<longrightarrow>
       personal_namespace (ae_text env) (us_username r) [] \<noteq> personal_namespace (ae_text env) (oi_username who) [])"
  using assms by (auto simp: resolve_user_def find_by_subject_def find_by_username_def find_user_def find_None_iff
      placement_username_conflict_def list_usernames_def Let_def split: if_splits option.splits fetched.splits sum.splits)

text \<open>A completed synchronisation, whichever branch it took.\<close>

lemma sync_done:
  assumes "sync_user env cfg subject who ip rows = (Inr v, rows', au)" "keyed rows" "subject \<noteq> []"
  shows "(\<exists>w. user_at (us_id v) rows' = Some w \<and> mirrored cfg subject who v w) \<and>
    (\<forall>r \<in> set rows. us_id r \<noteq> us_id v \<longrightarrow> r \<in> set rows') \<and> (\<forall>r \<in> set rows'. us_id r \<noteq> us_id v \<longrightarrow> r \<in> set rows) \<and>
    ((\<exists>u \<in> set rows. us_id u = us_id v \<and> us_oidc_subject u = subject \<and> us_active u) \<or>
     us_id v = ae_fresh_id env \<and> us_username v = oi_username who \<and>
     (\<forall>r \<in> set rows. us_id r \<noteq> us_id v \<and> us_oidc_subject r \<noteq> subject \<and> us_username r \<noteq> us_username v \<and>
        (personal_namespace (ae_text env) (us_username v) [] \<noteq> [] \<longrightarrow>
           personal_namespace (ae_text env) (us_username r) [] \<noteq> personal_namespace (ae_text env) (us_username v) [])))"
proof (cases "resolve_user env subject who ip rows")
  case (Pair res au0)
  show ?thesis
  proof (cases res)
    case (Inl e)
    with assms(1) Pair show ?thesis by (simp add: sync_user_def)
  next
    case (Inr found)
    show ?thesis
    proof (cases found)
      case None
      with assms(1) Pair Inr have d: "provision_user env cfg subject who ip rows = (Inr v, rows', au)" by (simp add: sync_user_def)
      from resolve_none [of env subject who ip rows au0] Pair Inr None assms(3) provision_done [OF d assms(2)]
      show ?thesis by (auto simp: subset_iff)
    next
      case (Some u)
      with Pair Inr have u: "u \<in> set rows" "us_oidc_subject u = subject" using resolve_some by blast+
      from assms(1) Pair Inr Some have "refresh_user env cfg who ip u rows = (Inr v, rows', au)" by (simp add: sync_user_def)
      from refresh_done [OF this assms(2) u] u show ?thesis by auto
    qed
  qed
qed

lemma provision_failed:
  assumes "provision_user env cfg subject who ip rows = (Inl e, rows', au)"
  shows "status_of e = 0"
  using assms by (auto simp: provision_user_def Let_def dest: finish_login_failed split: sum.splits prod.splits)

lemma sync_refused:
  assumes "sync_user env cfg subject who ip rows = (Inl e, rows', au)" "status_of e \<noteq> 0"
  shows "rows' = rows"
  using assms by (auto simp: sync_user_def dest: refresh_user_failed provision_failed split: prod.splits sum.splits option.splits)

lemma callback_done:
  assumes "sso_callback env cfg discovery cached code verifier nonce ip rows = (Inr res, c, rows', au)"
  obtains p subject who where "ensure_provider discovery cached = (Some p, c)"
    "verified_identity cfg p code verifier nonce = Inr (subject, who)"
    "sync_user env cfg subject who ip rows = (Inr (lr_user res), rows', au)"
    "ae_sign env (AccessPayload (new_access_claims (ae_issuer env) (us_id (lr_user res)) (us_role (lr_user res)) (ae_now env)
       (ae_access_ttl env))) = Some (lr_token res)"
proof -
  obtain q c1 where e: "ensure_provider discovery cached = (q, c1)" by fastforce
  note d = assms [unfolded sso_callback_def e prod.case]
  obtain p where p: "q = Some p" using d by (cases q) simp_all
  obtain subject who where v: "verified_identity cfg p code verifier nonce = Inr (subject, who)"
    using d p by (cases "verified_identity cfg p code verifier nonce") auto
  obtain s rows1 au1 where s: "sync_user env cfg subject who ip rows = (s, rows1, au1)" by (rule prod_cases3)
  note d' = d [unfolded p option.case v sum.case prod.case s]
  obtain u where u: "s = Inr u" using d' by (cases s) simp_all
  show thesis
    by (rule that [of p subject who]) (use d' u e p v s in \<open>auto split: option.splits\<close>)
qed

lemma verified_done:
  assumes "verified_identity cfg p code verifier nonce = Inr (subject, who)"
  shows "\<exists>raw t claims. ip_exchange p (oauth_config cfg) code verifier = Some (Some raw) \<and> ip_verify p (oc_client_id cfg) raw = Some t \<and>
    it_nonce t = nonce \<and> it_subject t = subject \<and> subject \<noteq> [] \<and> it_claims t = Some claims \<and> who = identity_from_claims cfg subject claims"
  using assms by (auto simp: verified_identity_def Let_def split: option.splits if_splits)

text \<open>The branch for a token without a usable username is dead: the subject stands in for it.\<close>

lemma username_never_empty: "subject \<noteq> [] \<Longrightarrow> oi_username (identity_from_claims cfg subject claims) \<noteq> []"
  by (simp add: identity_from_claims_def)

lemma callback_route_done:
  assumes "oidc_callback env cfg wired discovery cached cookie query r rows = (resp, c, rows', au)" "sr_session resp = Some ck"
  obtains state verifier nonce and lr :: login_result and p subject who where "cookie = Some (state @ ''.'' @ verifier @ ''.'' @ nonce)" "state \<noteq> []"
    "unpack_auth_cookie (state @ ''.'' @ verifier @ ''.'' @ nonce) = Some (state, verifier, nonce)"
    "query ''state'' = state" "resp = to_frontend cfg None (Some (set_session_cookie r (lr_token lr)))"
    "ensure_provider discovery cached = (Some p, c)" "verified_identity cfg p (query ''code'') verifier nonce = Inr (subject, who)"
    "sync_user env cfg subject who (ac_client_ip (actor_of r None)) rows = (Inr (lr_user lr), rows', au)"
    "ae_sign env (AccessPayload (new_access_claims (ae_issuer env) (us_id (lr_user lr)) (us_role (lr_user lr)) (ae_now env)
       (ae_access_ttl env))) = Some (lr_token lr)"
proof -
  note none = state_mismatch_def refuse_def to_frontend_def
  have wired: "wired"
  proof (rule ccontr)
    assume "\<not> wired"
    with assms show False by (simp add: oidc_callback_def none) (auto simp: none)
  qed
  obtain v where v: "cookie = Some v" using assms wired by (cases cookie) (auto simp: oidc_callback_def none)
  obtain state verifier nonce where n: "unpack_auth_cookie v = Some (state, verifier, nonce)"
    using assms wired v by (cases "unpack_auth_cookie v") (auto simp: oidc_callback_def none)
  obtain res c1 rows1 au1 where s:
    "sso_callback env cfg discovery cached (query ''code'') verifier nonce (ac_client_ip (actor_of r None)) rows = (res, c1, rows1, au1)"
    by (rule prod_cases4)
  have q: "query ''state'' = state" "query ''error'' = []"
    using assms wired v n by (auto simp: oidc_callback_def none split: if_split_asm)
  note d = assms(1) [unfolded oidc_callback_def v option.case n prod.case s]
  obtain lr where lr: "res = Inr lr" using d q assms(2) wired by (cases res) (auto simp: none)
  have e: "rows1 = rows'" "resp = to_frontend cfg None (Some (set_session_cookie r (lr_token lr)))" "c1 = c" "au1 = au"
    using d q wired by (auto simp: lr)
  show thesis
    by (rule callback_done [OF s [unfolded lr e]], rule that [where lr = lr]) (use unpack_shape [OF n] n v q e in simp_all)
qed

section \<open>What one browser asks in turn\<close>

text \<open>The pinning cookie lives in the browser's jar, which only the server's answers fill here. A browser asks to start a
  sign-in (as often as it likes, in several tabs), comes back with whatever query, or loses the cookie, which the
  server bounds to ten minutes.
\<close>

datatype sso_visit =
    StartVisit "idp option" "idp option" string string string http_request
  | CallbackVisit sso_env "idp option" "idp option" "string \<Rightarrow> string" http_request "user list"
  | CookieExpires

definition jar_keeps :: "state_cookie \<Rightarrow> string option \<Rightarrow> string option" where
  "jar_keeps sc jar = (case sc of KeepState \<Rightarrow> jar | PinState v _ \<Rightarrow> Some v | ClearState \<Rightarrow> None)"

fun jar_after :: "oidc_config \<Rightarrow> bool \<Rightarrow> sso_visit list \<Rightarrow> string option \<Rightarrow> string option" where
  "jar_after cfg wired [] jar = jar"
| "jar_after cfg wired (StartVisit discovery cached entropy verifier entropy' r # vs) jar =
     jar_after cfg wired vs (jar_keeps (sr_state (fst (oidc_start cfg wired discovery cached entropy verifier entropy' r))) jar)"
| "jar_after cfg wired (CallbackVisit env discovery cached query r rows # vs) jar =
     jar_after cfg wired vs (jar_keeps (sr_state (fst (oidc_callback env cfg wired discovery cached jar query r rows))) jar)"
| "jar_after cfg wired (CookieExpires # vs) jar = jar_after cfg wired vs None"

text \<open>The cookie pinned by one of the starts: the provider answered, and its three parts are what this start drew.\<close>

definition pinned_by :: "oidc_config \<Rightarrow> sso_visit \<Rightarrow> string \<Rightarrow> string \<Rightarrow> string \<Rightarrow> string \<Rightarrow> bool" where
  "pinned_by cfg visit v state verifier nonce \<longleftrightarrow>
     (\<exists>discovery cached entropy entropy' r. visit = StartVisit discovery cached entropy verifier entropy' r \<and>
        (cached \<noteq> None \<or> discovery \<noteq> None) \<and> state = random_token entropy \<and> nonce = random_token entropy' \<and>
        v = state @ ''.'' @ verifier @ ''.'' @ nonce)"

lemma callback_never_pins:
  "sr_state (fst (oidc_callback env cfg wired discovery cached cookie query r rows)) \<in> {KeepState, ClearState}"
  by (auto simp: oidc_callback_def refuse_def state_mismatch_def to_frontend_def split: option.split prod.split sum.split)

lemma start_pins:
  "jar_keeps (sr_state (fst (oidc_start cfg wired discovery cached entropy verifier entropy' r))) jar = jar \<or>
   (\<exists>v. jar_keeps (sr_state (fst (oidc_start cfg wired discovery cached entropy verifier entropy' r))) jar = Some v \<and>
     pinned_by cfg (StartVisit discovery cached entropy verifier entropy' r) v (random_token entropy) verifier (random_token entropy'))"
proof (cases "wired \<and> (cached \<noteq> None \<or> discovery \<noteq> None)")
  case True
  then show ?thesis
    by (cases cached; cases discovery)
      (auto simp: oidc_start_def auth_url_def ensure_provider_def Let_def jar_keeps_def pack_auth_cookie_def pinned_by_def)
qed (auto simp: oidc_start_def auth_url_def ensure_provider_def jar_keeps_def refuse_def)

lemma jar_pinned:
  assumes "jar_after cfg wired vs jar = Some v" "jar \<noteq> Some v"
  shows "\<exists>visit \<in> set vs. \<exists>state verifier nonce. pinned_by cfg visit v state verifier nonce"
  using assms
proof (induction cfg wired vs jar rule: jar_after.induct)
  case (2 cfg wired discovery cached entropy verifier entropy' r vs jar)
  let ?jar = "jar_keeps (sr_state (fst (oidc_start cfg wired discovery cached entropy verifier entropy' r))) jar"
  show ?case
  proof (cases "?jar = Some v")
    case True
    with start_pins [of cfg wired discovery cached entropy verifier entropy' r jar] 2(3)
    have "pinned_by cfg (StartVisit discovery cached entropy verifier entropy' r) v (random_token entropy) verifier (random_token entropy')"
      by auto
    then show ?thesis by auto
  qed (use 2 in auto)
next
  case (3 cfg wired env discovery cached query r rows vs jar)
  let ?sc = "sr_state (fst (oidc_callback env cfg wired discovery cached jar query r rows))"
  have "jar_keeps ?sc jar = jar \<or> jar_keeps ?sc jar = None"
    using callback_never_pins [of env cfg wired discovery cached jar query r rows] by (auto simp: jar_keeps_def)
  with 3 show ?case by auto
qed auto

text \<open>Whatever the verifier holds, a cookie that unpacks gives back the three parts it was packed from.\<close>

lemma unpack_pinned:
  assumes "unpack_auth_cookie (s @ ''.'' @ w @ ''.'' @ n) = Some (s', w', n')" "CHR ''.'' \<notin> set s" "CHR ''.'' \<notin> set n"
  shows "s' = s \<and> w' = w \<and> n' = n"
proof -
  have split: "split_on CHR ''.'' (s @ ''.'' @ w @ ''.'' @ n) = s # split_on CHR ''.'' w @ [n]"
    using assms(2,3) by (simp add: split_on_append_sep split_on_free)
  have "split_on CHR ''.'' (s @ ''.'' @ w @ ''.'' @ n) = [s', w', n']"
    using assms(1) by (auto simp: unpack_auth_cookie_def split: list.splits if_splits simp del: append.simps)
  with split have "s' = s" "split_on CHR ''.'' w @ [n] = [w', n']" by simp_all
  then have "split_on CHR ''.'' w = [w']" "n' = n" by (simp_all add: append_eq_Cons_conv)
  with \<open>s' = s\<close> join_split [of "CHR ''.''" w] show ?thesis by simp
qed

text \<open>C11: A browser gets a session only at the end of a sign-in it started itself. Take a browser whose pinning cookie comes
  from the server's own answers: any sequence of starts, callbacks and expiries, from an empty jar. If a callback
  then sets a session cookie, one of these starts had reached the provider, the state in the query is the one
  that start drew, the code was exchanged with that start's PKCE verifier, the ID token passed the provider's
  verification for this client and names that start's nonce and a subject; the session is a token signed for the account that carries exactly this
  subject, active, with the role it has now (the one its groups give, where administration follows the
  directory) and with the groups of the token's claim, as the column keeps them, and the redirect carries
  nothing.
\<close>

theorem sso_session_bound:
  assumes "oidc_callback env cfg wired discovery cached (jar_after cfg wired visits None) query r rows = (resp, c, rows', au)"
    and "sr_session resp = Some ck" "keyed rows"
  shows "\<exists>d0 k0 entropy verifier entropy' r0 p raw t claims w.
    StartVisit d0 k0 entropy verifier entropy' r0 \<in> set visits \<and> (k0 \<noteq> None \<or> d0 \<noteq> None) \<and>
    jar_after cfg wired visits None = Some (random_token entropy @ ''.'' @ verifier @ ''.'' @ random_token entropy') \<and>
    query ''state'' = random_token entropy \<and> random_token entropy \<noteq> [] \<and>
    (cached = Some p \<or> cached = None \<and> discovery = Some p) \<and>
    ip_exchange p (oauth_config cfg) (query ''code'') verifier = Some (Some raw) \<and>
    ip_verify p (oc_client_id cfg) raw = Some t \<and> it_nonce t = random_token entropy' \<and> it_subject t \<noteq> [] \<and>
    it_claims t = Some claims \<and> user_at (us_id w) rows' = Some w \<and> us_oidc_subject w = it_subject t \<and> us_active w \<and>
    us_groups w = split_groups (join_groups (oi_groups (identity_from_claims cfg (it_subject t) claims))) \<and>
    (oc_admin_groups cfg \<noteq> [] \<longrightarrow> us_role w = directory_role cfg (oi_groups (identity_from_claims cfg (it_subject t) claims))) \<and>
    ae_sign env (AccessPayload (new_access_claims (ae_issuer env) (us_id w) (us_role w) (ae_now env) (ae_access_ttl env))) =
      Some (ck_value ck) \<and> ck_http_only ck \<and>
    sr_answer resp = RedirectTo (trim_suffix (oc_frontend_url cfg) ''/'' @ ''/auth/callback'')"
proof -
  obtain state verifier nonce and lr :: login_result and p subject who
    where h: "jar_after cfg wired visits None = Some (state @ ''.'' @ verifier @ ''.'' @ nonce)" "state \<noteq> []"
    "unpack_auth_cookie (state @ ''.'' @ verifier @ ''.'' @ nonce) = Some (state, verifier, nonce)"
    "query ''state'' = state" "resp = to_frontend cfg None (Some (set_session_cookie r (lr_token lr)))"
    and cb: "ensure_provider discovery cached = (Some p, c)" "verified_identity cfg p (query ''code'') verifier nonce = Inr (subject, who)"
    "sync_user env cfg subject who (ac_client_ip (actor_of r None)) rows = (Inr (lr_user lr), rows', au)"
    "ae_sign env (AccessPayload (new_access_claims (ae_issuer env) (us_id (lr_user lr)) (us_role (lr_user lr)) (ae_now env)
       (ae_access_ttl env))) = Some (lr_token lr)"
    by (rule callback_route_done [OF assms(1,2)]) (rule that)
  obtain visit s' w' n' where pin: "visit \<in> set visits" "pinned_by cfg visit (state @ ''.'' @ verifier @ ''.'' @ nonce) s' w' n'"
    using jar_pinned [OF h(1)] by blast
  then obtain d0 k0 entropy entropy' r0 where start: "visit = StartVisit d0 k0 entropy w' entropy' r0" "k0 \<noteq> None \<or> d0 \<noteq> None"
    "state @ ''.'' @ verifier @ ''.'' @ nonce = random_token entropy @ ''.'' @ w' @ ''.'' @ random_token entropy'"
    unfolding pinned_by_def by blast
  have same: "state = random_token entropy" "verifier = w'" "nonce = random_token entropy'"
    using unpack_pinned [OF h(3) [unfolded start(3)] random_token_plain random_token_plain] by simp_all
  from verified_done [OF cb(2)] obtain raw t claims where t: "ip_exchange p (oauth_config cfg) (query ''code'') verifier = Some (Some raw)"
    "ip_verify p (oc_client_id cfg) raw = Some t" "it_nonce t = nonce" "it_subject t = subject" "subject \<noteq> []"
    "it_claims t = Some claims" "who = identity_from_claims cfg subject claims" by blast
  from sync_done [OF cb(3) assms(3) t(5)] obtain w where w: "user_at (us_id (lr_user lr)) rows' = Some w"
    "mirrored cfg subject who (lr_user lr) w" by blast
  have p: "cached = Some p \<or> cached = None \<and> discovery = Some p"
    using cb(1) by (auto simp: ensure_provider_def split: option.splits)
  have idw: "us_id w = us_id (lr_user lr)" using user_at_Some [OF w(1)] by simp
  note m = w(2) [unfolded mirrored_def]
  moreover have ck: "ck_value ck = lr_token lr" "ck_http_only ck" using assms(2) h(5) by (auto simp: to_frontend_def set_session_cookie_def)
  ultimately have sign: "ae_sign env (AccessPayload (new_access_claims (ae_issuer env) (us_id w) (us_role w) (ae_now env)
      (ae_access_ttl env))) = Some (ck_value ck)" using cb(4) idw by simp
  have at_w: "user_at (us_id w) rows' = Some w" using w(1) idw by simp
  have to: "sr_answer resp = RedirectTo (trim_suffix (oc_frontend_url cfg) ''/'' @ ''/auth/callback'')"
    by (simp add: h(5) to_frontend_def frontend_target_def)
  have m': "us_oidc_subject w = it_subject t" "us_active w"
    "us_groups w = split_groups (join_groups (oi_groups (identity_from_claims cfg (it_subject t) claims)))" "it_subject t \<noteq> []"
    "oc_admin_groups cfg \<noteq> [] \<longrightarrow> us_role w = directory_role cfg (oi_groups (identity_from_claims cfg (it_subject t) claims))"
    using m [unfolded t(7)] t(4,5) by auto
  show ?thesis
    by (rule exI [of _ d0], rule exI [of _ k0], rule exI [of _ entropy], rule exI [of _ verifier], rule exI [of _ entropy'],
        rule exI [of _ r0], rule exI [of _ p], rule exI [of _ raw], rule exI [of _ t], rule exI [of _ claims], rule exI [of _ w],
        intro conjI)
      (fact pin(1) [unfolded start(1) same(2) [symmetric]] start(2) h(1) [unfolded same(1,3)] h(4) [unfolded same(1)]
        h(2) [unfolded same(1)] p t(1,2,6) t(3) [unfolded same(3)] m' at_w sign ck(2) to)+
qed

text \<open>Rows bound to another subject, or to none, are the same before and after.\<close>

definition spares_others :: "string \<Rightarrow> user list \<Rightarrow> user list \<Rightarrow> bool" where
  "spares_others subject rows rows' \<longleftrightarrow> (\<forall>r. us_oidc_subject r \<noteq> subject \<longrightarrow> r \<in> set rows \<longleftrightarrow> r \<in> set rows')"

definition owned_id :: "string \<Rightarrow> string \<Rightarrow> user list \<Rightarrow> bool" where
  "owned_id subject i rows \<longleftrightarrow> (\<forall>r \<in> set rows. us_id r = i \<longrightarrow> us_oidc_subject r = subject)"

lemma spares_others_refl [simp]: "spares_others subject rows rows"
  by (simp add: spares_others_def)

lemma spares_others_trans: "spares_others s a b \<Longrightarrow> spares_others s b c \<Longrightarrow> spares_others s a c"
  by (simp add: spares_others_def)

lemma users_write_spares:
  assumes "owned_id s i rows" "\<And>r. us_oidc_subject r = s \<Longrightarrow> us_oidc_subject (f r) = s" "\<And>r. us_id (f r) = us_id r"
  shows "spares_others s rows (snd (users_write ok i f rows))" "owned_id s i (snd (users_write ok i f rows))"
proof -
  let ?g = "\<lambda>r. if us_id r = i then f r else r"
  have g: "us_oidc_subject (?g x) = s" if "x \<in> set rows" "us_id x = i" for x using assms(1,2) that by (simp add: owned_id_def)
  have "r \<in> set rows \<longleftrightarrow> r \<in> ?g ` set rows" if r: "us_oidc_subject r \<noteq> s" for r
  proof
    assume "r \<in> set rows"
    moreover from this have "?g r = r" using assms(1) r by (auto simp: owned_id_def)
    ultimately show "r \<in> ?g ` set rows" by force
  next
    assume "r \<in> ?g ` set rows"
    then obtain x where x: "x \<in> set rows" "r = ?g x" by blast
    with g [of x] r have "us_id x \<noteq> i" by auto
    with x show "r \<in> set rows" by simp
  qed
  then show "spares_others s rows (snd (users_write ok i f rows))" by (simp add: spares_others_def users_write_def)
  have "us_oidc_subject r = s" if r: "r \<in> ?g ` set rows" "us_id r = i" for r
  proof -
    obtain x where x: "x \<in> set rows" "r = ?g x" using r(1) by blast
    then have "us_id x = i" using r(2) assms(3) by (cases "us_id x = i") simp_all
    with g x show ?thesis by simp
  qed
  then have "owned_id s i (map ?g rows)" unfolding owned_id_def set_map by blast
  with assms(1) show "owned_id s i (snd (users_write ok i f rows))" by (simp add: users_write_def)
qed

lemma finish_login_spares:
  assumes "owned_id s (us_id u) rows" "us_oidc_subject u = s"
  shows "spares_others s rows (fst (snd (finish_login env who ip u rows au)))"
proof -
  have "spares_others s rows (snd (users_update (se_update_ok env) (u\<lparr>us_last_login_at := Some (ae_now env)\<rparr>) rows))"
    unfolding users_update_def by (rule users_write_spares) (use assms in \<open>simp_all add: update_row_def\<close>)
  then show ?thesis
    by (cases "users_update (se_update_ok env) (u\<lparr>us_last_login_at := Some (ae_now env)\<rparr>) rows")
      (auto simp: finish_login_def Let_def split: sum.splits)
qed

lemma provision_spares:
  "spares_others s rows (fst (snd (provision_user env cfg s who ip rows)))"
proof (cases "ae_row_ok env \<and> \<not> unique_violation (provisioned_user env cfg s who) rows")
  case True
  define u where "u = provisioned_user env cfg s who"
  have su: "us_oidc_subject u = s" by (simp add: u_def provisioned_user_def)
  let ?rows1 = "rows @ [u\<lparr>us_groups := split_groups (join_groups (us_groups u))\<rparr>]"
  have "spares_others s rows ?rows1" using su by (auto simp: spares_others_def)
  moreover have "owned_id s (us_id u) ?rows1"
    using True su by (auto simp: owned_id_def unique_violation_def list_ex_iff u_def)
  note finish_login_spares [OF this su]
  ultimately show ?thesis
    using True by (auto simp: provision_user_def Let_def users_insert_def simp flip: u_def intro: spares_others_trans)
qed (auto simp: provision_user_def Let_def users_insert_def)

lemma refresh_spares:
  assumes "owned_id s (us_id u) rows" "us_oidc_subject u = s"
  shows "spares_others s rows (fst (snd (refresh_user env cfg who ip u rows)))"
proof -
  let ?u' = "refreshed_user env cfg who u"
  have u': "us_id ?u' = us_id u" "us_oidc_subject ?u' = s" using assms(2) by (simp_all add: refreshed_user_def)
  have r: "spares_others s rows (snd (set_role (ae_role_ok env) (us_id u) (us_role ?u') rows))"
    "owned_id s (us_id u) (snd (set_role (ae_role_ok env) (us_id u) (us_role ?u') rows))"
    unfolding set_role_def by (rule users_write_spares [OF assms(1)]; simp)+
  have f: "spares_others s rs (fst (snd (finish_login env who ip ?u' rs au)))" if "owned_id s (us_id u) rs" for rs au
    using finish_login_spares [of s ?u' rs] that u' by simp
  show ?thesis
    using r f [OF assms(1)] f [OF r(2)] by (auto simp: refresh_user_def Let_def split: prod.splits sum.splits intro: spares_others_trans)
qed

text \<open>C12: Single sign-on never takes an account over. Whatever it answers, every account that is not bound to the verified
  subject is left exactly as it was, a refusal changes no account at all, and who is signed in is the active
  account already bound to the subject, or a new one whose id, username and personal namespace no account has.
\<close>

theorem sso_never_takes_over:
  assumes "keyed rows" "subject \<noteq> []" "sync_user env cfg subject who ip rows = (res, rows', au)"
  shows "(\<forall>r. us_oidc_subject r \<noteq> subject \<longrightarrow> r \<in> set rows \<longleftrightarrow> r \<in> set rows') \<and>
    (\<forall>e. res = Inl e \<and> status_of e \<noteq> 0 \<longrightarrow> rows' = rows) \<and>
    (\<forall>v. res = Inr v \<longrightarrow>
      (\<exists>u \<in> set rows. us_id u = us_id v \<and> us_oidc_subject u = subject \<and> us_active u) \<or>
      us_username v = oi_username who \<and>
      (\<forall>r \<in> set rows. us_id r \<noteq> us_id v \<and> us_oidc_subject r \<noteq> subject \<and> us_username r \<noteq> us_username v \<and>
        (personal_namespace (ae_text env) (us_username v) [] \<noteq> [] \<longrightarrow>
           personal_namespace (ae_text env) (us_username r) [] \<noteq> personal_namespace (ae_text env) (us_username v) [])))"
proof (intro conjI)
  have "spares_others subject rows (fst (snd (sync_user env cfg subject who ip rows)))"
  proof (cases "resolve_user env subject who ip rows")
    case (Pair r au0)
    have "owned_id subject (us_id u) rows \<and> us_oidc_subject u = subject" if "r = Inr (Some u)" for u
      using resolve_some Pair that assms(1) by (fastforce simp: owned_id_def keyed_def distinct_map dest: inj_onD)
    then show ?thesis
      using Pair refresh_spares provision_spares by (auto simp: sync_user_def split: sum.split option.split)
  qed
  then show "\<forall>r. us_oidc_subject r \<noteq> subject \<longrightarrow> r \<in> set rows \<longleftrightarrow> r \<in> set rows'" by (simp add: spares_others_def assms(3))
  show "\<forall>e. res = Inl e \<and> status_of e \<noteq> 0 \<longrightarrow> rows' = rows" using sync_refused assms(3) by blast
next
  show "\<forall>v. res = Inr v \<longrightarrow>
      (\<exists>u \<in> set rows. us_id u = us_id v \<and> us_oidc_subject u = subject \<and> us_active u) \<or>
      us_username v = oi_username who \<and>
      (\<forall>r \<in> set rows. us_id r \<noteq> us_id v \<and> us_oidc_subject r \<noteq> subject \<and> us_username r \<noteq> us_username v \<and>
        (personal_namespace (ae_text env) (us_username v) [] \<noteq> [] \<longrightarrow>
           personal_namespace (ae_text env) (us_username r) [] \<noteq> personal_namespace (ae_text env) (us_username v) []))"
    using sync_done [of env cfg subject who ip rows _ rows' au] assms by blast
qed

section \<open>Starting and resuming\<close>

text \<open>C32: What a start pins is what the callback resumes. If the start answered with a redirect, the callback of a browser that
  returns its cookie and the pinned state, in a request where the provider reports no error, exchanges the code with exactly the pinned verifier and nonce; with
  any other state it is refused before the provider is asked and without a change. The entropy read is not
  empty and the generated verifier is a non-empty text without a dot, as base64url is.
\<close>

theorem started_sign_in_resumes:
  assumes "oidc_start cfg True discovery cached entropy verifier entropy' r = (resp, c)" "sr_state resp = PinState v secure"
    and "entropy \<noteq> []" "entropy' \<noteq> []" "verifier \<noteq> []" "CHR ''.'' \<notin> set verifier" "query ''error'' = []"
  shows "oidc_callback env cfg True discovery' cached' (Some v) query r' rows =
    (if query ''state'' = random_token entropy
     then (case sso_callback env cfg discovery' cached' (query ''code'') verifier (random_token entropy') (hr_client_ip r') rows of
         (Inl e, c, rows', au) \<Rightarrow> (to_frontend cfg (Some (shown_error e)) None, c, rows', au)
       | (Inr res, c, rows', au) \<Rightarrow> (to_frontend cfg None (Some (set_session_cookie r' (lr_token res))), c, rows', au))
     else (refuse (Unauthorized [''SSO state mismatch'']), cached', rows, []))"
proof -
  obtain q where a: "auth_url cfg discovery cached entropy verifier entropy' = (Inr q, c)" and v: "v = pack_auth_cookie q"
    using assms(1,2) by (auto simp: oidc_start_def refuse_def split: prod.splits sum.splits)
  then have q: "aq_state q = random_token entropy" "aq_verifier q = verifier" "aq_nonce q = random_token entropy'"
    by (auto simp: auth_url_def Let_def split: prod.splits option.splits)
  have "unpack_auth_cookie v = Some (random_token entropy, verifier, random_token entropy')"
    unfolding v by (subst unpack_pack) (use q assms in \<open>simp_all add: random_token_plain random_token_nonempty\<close>)
  with assms(7) show ?thesis by (simp add: oidc_callback_def state_mismatch_def actor_of_def)
qed

text \<open>Nothing that reaches the redirect's fragment leaves it: every byte of a message is a plain one, a plus or an escape.\<close>

lemma query_escape_plain: "c \<in> set (query_escape s) \<Longrightarrow> query_plain c \<or> c = CHR ''+'' \<or> c = CHR ''%''"
proof (induction s rule: query_escape.induct)
  case (2 d s)
  have hex: "query_plain (upper_hex n)" if "n < 16" for n
  proof -
    have "upper_hex n \<in> set ''0123456789ABCDEF''" unfolding upper_hex_def by (rule nth_mem) (use that in simp)
    then show ?thesis by (auto simp: query_plain_def is_digit_def)
  qed
  have "byte d div 16 < 16" "byte d mod 16 < 16" using byte_lt [of d] by linarith+
  with 2 hex show ?case by (auto split: if_splits)
qed simp

section \<open>Signing in beside an edit\<close>

text \<open>A single sign-on loses a concurrent edit. The row is written back from the copy read before: whatever the table says
  by then, quota, preferences, display name and password hash of the account become those of the copy again,
  while the role only changes with the directory and the activation and the token bound stay.
\<close>

lemma sso_login_loses_edit:
  assumes "refresh_user env cfg who ip u rows1 = (Inr v, rows2, au)" "user_at (us_id u) rows1 = Some now"
  shows "\<exists>w. user_at (us_id u) rows2 = Some w \<and> us_max_workspaces w = us_max_workspaces u \<and> us_preferences w = us_preferences u \<and>
    us_password_hash w = us_password_hash u \<and>
    (us_display_name u \<noteq> [] \<longrightarrow> us_display_name w = us_display_name u) \<and> us_active w = us_active now \<and>
    us_tokens_valid_after w = us_tokens_valid_after now"
proof -
  define u' where "u' = refreshed_user env cfg who u"
  have act: "us_active u" using assms(1) by (simp add: refresh_user_def split: if_split_asm)
  have iu: "us_id u' = us_id u" by (simp add: u'_def refreshed_user_def)
  define g where "g r = (if us_role u' \<noteq> us_role u then r\<lparr>us_role := us_role u'\<rparr> else r)" for r :: user
  define rows where "rows = map (\<lambda>r. if us_id r = us_id u then g r else r) rows1"
  have f: "finish_login env who ip u' rows [] = (Inr v, rows2, au)"
  proof (cases "us_role u' = us_role u")
    case False
    then have "g r = r\<lparr>us_role := us_role u'\<rparr>" for r by (simp add: g_def)
    with assms act False show ?thesis
      by (simp add: refresh_user_def Let_def flip: u'_def) (simp add: set_role_def users_write_def rows_def cong: if_cong split: if_split_asm)
  next
    case True
    then have "rows = rows1" by (simp add: rows_def g_def cong: if_cong)
    with True assms(1) act show ?thesis by (simp add: refresh_user_def Let_def flip: u'_def)
  qed
  have at1: "user_at (us_id u) rows = Some (g now)" unfolding rows_def by (rule user_at_map_update [OF assms(2)]) (simp add: g_def)
  note d = finish_login_done [OF f]
  then have "rows2 = map (\<lambda>r. if us_id r = us_id u then update_row v r else r) rows" using iu by simp
  then have "user_at (us_id u) rows2 = Some (update_row v (g now))"
    using user_at_map_update [OF at1, of "update_row v"] by (simp add: update_row_def)
  with d show ?thesis by (simp add: update_row_def g_def u'_def refreshed_user_def)
qed

section \<open>Local sign-in switched off\<close>

text \<open>With \<open>WAAS_LOGIN_OIDC_ONLY\<close> no password is looked at and nothing is recorded.\<close>

lemma local_login_off: "oc_only cfg \<Longrightarrow> login_route env cfg r body rows = (Inl (NotFound [''local login is disabled'']), rows, [])"
  by (simp add: login_route_def)

text \<open>No configuration locks everybody out silently. Whatever the environment holds, a server that starts has a database,
  an internal token outside of development, the secret and the callback address single sign-on needs, and
  offers at least one way to sign in: local sign-in is off only while the provider is configured.
\<close>

lemma configured_sign_in_offered:
  assumes "load_config frac resolv env = Inr c"
  shows "(lm_local (providers_route (cg_oidc c) (oidc_enabled (cg_oidc c))) \<or> lm_oidc (providers_route (cg_oidc c) (oidc_enabled (cg_oidc c)))) \<and>
    (\<not> oc_only (cg_oidc c) \<longleftrightarrow> lm_local (providers_route (cg_oidc c) (oidc_enabled (cg_oidc c)))) \<and>
    cg_database_url c \<noteq> [] \<and> (cg_internal_token c \<noteq> [] \<or> cg_dev_mode c) \<and>
    (oidc_enabled (cg_oidc c) \<longrightarrow> oc_client_secret (cg_oidc c) \<noteq> [] \<and> oc_redirect_url (cg_oidc c) \<noteq> [])"
  using load_config_well_configured [OF assms] unfolding well_configured_def providers_route_def by auto

section \<open>Concrete instances\<close>

text \<open>Ada's account is bound to a subject of the provider; Bob's is local.\<close>

definition sso_ada :: user where "sso_ada = ada\<lparr>us_oidc_subject := ''sub-1'', us_groups := [''old'']\<rparr>"

definition desk_sso :: sso_env where
  "desk_sso = \<lparr>ae_text = ascii_lib, ae_hashing = \<lparr>hs_hash = (\<lambda>p. Some (''#'' @ p)), hs_verify = (\<lambda>p h. Some (h = ''#'' @ p))\<rparr>,
     ae_now = 5000000000, ae_fresh_id = ''c'', ae_issuer = ''waas'', ae_access_ttl = 3600000000000, ae_stream_ttl = 60000000000,
     ae_sign = sl_sign badge_library, ae_read_ok = True, ae_row_ok = True, ae_role_ok = True, ae_active_ok = True, ae_revoke_ok = True,
     ae_floor_off = False, se_name_ok = True, se_list_ok = True, se_update_ok = True\<rparr>"

definition desk_oidc :: oidc_config where
  "desk_oidc = \<lparr>oc_issuer_url = ''https://idp'', oc_client_id = ''waas'', oc_client_secret = ''s3'', oc_redirect_url = ''https://waas/cb'',
     oc_scopes = [''openid''], oc_username_claim = ''preferred_username'', oc_groups_claim = ''groups'', oc_admin_groups = [],
     oc_provider_name = ''IdP'', oc_frontend_url = ''/'', oc_only = False\<rparr>"

definition desk_claims :: "string \<rightharpoonup> claim" where
  "desk_claims = [''preferred_username'' \<mapsto> ClaimText ''ada'', ''groups'' \<mapsto> ClaimList [ClaimText ''devs'', ClaimOther, ClaimText []]]"

definition desk_idp :: idp where
  "desk_idp = \<lparr>ip_auth_url = (\<lambda>_ s _ _. ''https://idp/auth?state='' @ s),
     ip_exchange = (\<lambda>_ code verifier. if code = ''c1'' \<and> verifier = ''v1'' then Some (Some ''raw'') else None),
     ip_verify = (\<lambda>client raw. if client = ''waas'' \<and> raw = ''raw''
       then Some \<lparr>it_subject = ''sub-1'', it_nonce = random_token ''noise'', it_claims = Some desk_claims\<rparr> else None)\<rparr>"

definition desk_query :: "string \<Rightarrow> string" where
  "desk_query k = (if k = ''state'' then ''s1'' else if k = ''code'' then ''c1'' else [])"

lemmas sso_demo_defs = desk_sso_def desk_oidc_def sso_ada_def ada_def bob_def badge_user_def

lemma desk_identity:
  "verified_identity desk_oidc desk_idp ''c1'' ''v1'' (random_token ''noise'') =
     Inr (''sub-1'', \<lparr>oi_username = ''ada'', oi_email = [], oi_display_name = [], oi_groups = [''devs'']\<rparr>)"
  by (simp add: verified_identity_def desk_idp_def desk_oidc_def desk_claims_def identity_from_claims_def text_claim_def)

lemma desk_signed:
  "sl_sign badge_library (AccessPayload (new_access_claims ''waas'' ''a'' role_admin 5000000000 3600000000000)) = Some ''badge''"
  using badge_signed by (simp add: badge_payload_def)

text \<open>The browser starts twice and comes back from the second sign-in.\<close>

definition desk_visits :: "sso_visit list" where
  "desk_visits = [StartVisit (Some desk_idp) None ''early'' ''v0'' ''rustle'' badge_request, CookieExpires,
     StartVisit (Some desk_idp) None ''entropy'' ''v1'' ''noise'' badge_request]"

definition back_query :: "string \<Rightarrow> string" where
  "back_query k = (if k = ''state'' then random_token ''entropy'' else if k = ''code'' then ''c1'' else [])"

lemma desk_jar:
  "jar_after desk_oidc True desk_visits None = Some (random_token ''entropy'' @ ''.'' @ ''v1'' @ ''.'' @ random_token ''noise'')"
  by (simp add: desk_visits_def oidc_start_def auth_url_def ensure_provider_def Let_def jar_keeps_def pack_auth_cookie_def)

lemma desk_callback:
  "\<exists>rows' au. oidc_callback desk_sso desk_oidc True (Some desk_idp) None (jar_after desk_oidc True desk_visits None) back_query badge_request
     [sso_ada, bob] = (to_frontend desk_oidc None (Some (set_session_cookie badge_request ''badge'')), Some desk_idp, rows', au)"
proof -
  have u: "unpack_auth_cookie (random_token ''entropy'' @ ''.'' @ ''v1'' @ ''.'' @ random_token ''noise'') =
      Some (random_token ''entropy'', ''v1'', random_token ''noise'')"
    using unpack_pack [of "\<lparr>aq_url = [], aq_state = random_token ''entropy'', aq_verifier = ''v1'', aq_nonce = random_token ''noise''\<rparr>"]
    by (simp add: pack_auth_cookie_def random_token_plain random_token_nonempty)
  have "\<exists>v rows' au. sync_user desk_sso desk_oidc ''sub-1'' \<lparr>oi_username = ''ada'', oi_email = [], oi_display_name = [], oi_groups = [''devs'']\<rparr>
      ip [sso_ada, bob] = (Inr v, rows', au) \<and> us_id v = ''a'' \<and> us_role v = role_admin" for ip
    by (simp add: sync_user_def resolve_user_def find_by_subject_def find_user_def refresh_user_def refreshed_user_def finish_login_def
        users_update_def subject_taken_def users_write_def user_at_def Let_def sso_demo_defs)
  then obtain v rows' au where s: "sync_user desk_sso desk_oidc ''sub-1''
      \<lparr>oi_username = ''ada'', oi_email = [], oi_display_name = [], oi_groups = [''devs'']\<rparr> (ac_client_ip (actor_of badge_request None))
      [sso_ada, bob] = (Inr v, rows', au)" "us_id v = ''a''" "us_role v = role_admin" by blast
  have e: "ae_issuer desk_sso = ''waas''" "ae_now desk_sso = 5000000000" "ae_access_ttl desk_sso = 3600000000000"
    "ae_sign desk_sso = sl_sign badge_library" by (simp_all add: desk_sso_def)
  have q: "back_query ''state'' = random_token ''entropy''" "back_query ''code'' = ''c1''" "back_query ''error'' = []"
    by (simp_all add: back_query_def)
  have c: "sso_callback desk_sso desk_oidc (Some desk_idp) None ''c1'' ''v1'' (random_token ''noise'') (ac_client_ip (actor_of badge_request None))
      [sso_ada, bob] = (Inr \<lparr>lr_token = ''badge'', lr_user = v\<rparr>, Some desk_idp, rows', au)"
    using s desk_signed by (simp add: sso_callback_def ensure_provider_def desk_identity e)
  show ?thesis unfolding oidc_callback_def desk_jar option.case u prod.case q c
    by (simp add: q)
qed

theorem sso_session_bound_witness:
  "\<exists>d0 k0 entropy verifier entropy' r0 (p :: idp). StartVisit d0 k0 entropy verifier entropy' r0 \<in> set desk_visits \<and>
     back_query ''state'' = random_token entropy \<and> ip_exchange p (oauth_config desk_oidc) (back_query ''code'') verifier \<noteq> None"
proof -
  obtain rows' au where c: "oidc_callback desk_sso desk_oidc True (Some desk_idp) None (jar_after desk_oidc True desk_visits None) back_query
      badge_request [sso_ada, bob] = (to_frontend desk_oidc None (Some (set_session_cookie badge_request ''badge'')), Some desk_idp, rows', au)"
    using desk_callback by blast
  have "keyed [sso_ada, bob]" by (simp add: keyed_def sso_demo_defs)
  moreover have "sr_session (to_frontend desk_oidc None (Some (set_session_cookie badge_request ''badge''))) =
      Some (set_session_cookie badge_request ''badge'')" by (simp add: to_frontend_def)
  ultimately show ?thesis using sso_session_bound [OF c] by blast
qed

theorem sso_never_takes_over_witness:
  "{sso_ada, bob} \<subseteq> set (fst (snd (sync_user desk_sso desk_oidc ''sub-2''
     \<lparr>oi_username = ''ada'', oi_email = [], oi_display_name = [], oi_groups = [''admins'']\<rparr> ''10.0.0.9'' [sso_ada, bob])))"
proof -
  let ?who = "\<lparr>oi_username = ''ada'', oi_email = [], oi_display_name = [], oi_groups = [''admins'']\<rparr>"
  obtain res rows' au where r: "sync_user desk_sso desk_oidc ''sub-2'' ?who ''10.0.0.9'' [sso_ada, bob] = (res, rows', au)"
    by (rule prod_cases3)
  have "keyed [sso_ada, bob]" "us_oidc_subject sso_ada \<noteq> ''sub-2''" "us_oidc_subject bob \<noteq> ''sub-2''"
    by (simp_all add: keyed_def sso_demo_defs)
  moreover from this sso_never_takes_over [OF _ _ r]
  have "\<forall>x. us_oidc_subject x \<noteq> ''sub-2'' \<longrightarrow> x \<in> set [sso_ada, bob] \<longleftrightarrow> x \<in> set rows'" by simp
  ultimately have "sso_ada \<in> set rows'" "bob \<in> set rows'" by auto
  then show ?thesis by (simp add: r)
qed

theorem started_sign_in_resumes_witness:
  "oidc_callback desk_sso desk_oidc True (Some desk_idp) None (Some (pack_auth_cookie
       \<lparr>aq_url = [], aq_state = random_token ''entropy'', aq_verifier = ''v1'', aq_nonce = random_token ''noise''\<rparr>)) desk_query badge_request [sso_ada, bob] =
     (refuse (Unauthorized [''SSO state mismatch'']), None, [sso_ada, bob], [])"
proof -
  let ?q = "\<lparr>aq_url = ''https://idp/auth?state='' @ random_token ''entropy'', aq_state = random_token ''entropy'', aq_verifier = ''v1'',
     aq_nonce = random_token ''noise''\<rparr>"
  have s: "oidc_start desk_oidc True (Some desk_idp) None ''entropy'' ''v1'' ''noise'' badge_request =
      (\<lparr>sr_answer = RedirectTo (aq_url ?q), sr_state = PinState (pack_auth_cookie ?q) True, sr_session = None\<rparr>, Some desk_idp)"
    by (simp add: oidc_start_def auth_url_def ensure_provider_def Let_def desk_idp_def is_https_def badge_request_def)
  have "desk_query ''state'' \<noteq> random_token ''entropy''" by (simp add: desk_query_def random_token_def)
  moreover have "desk_query ''error'' = []" by (simp add: desk_query_def)
  ultimately show ?thesis
    using started_sign_in_resumes [OF s, of "pack_auth_cookie ?q" True desk_query desk_sso "Some desk_idp" None badge_request "[sso_ada, bob]"]
    by (simp add: pack_auth_cookie_def)
qed

text \<open>An administrator raises Ada's quota between the read and the write of her sign-in.\<close>

theorem sso_login_loses_edit_witness:
  "\<exists>w. user_at ''a'' (fst (snd (refresh_user desk_sso desk_oidc
       \<lparr>oi_username = ''ada'', oi_email = [], oi_display_name = [], oi_groups = [''devs'']\<rparr> [] sso_ada
       [sso_ada\<lparr>us_max_workspaces := 10\<rparr>, bob]))) = Some w \<and> us_max_workspaces w = 3"
proof -
  let ?who = "\<lparr>oi_username = ''ada'', oi_email = [], oi_display_name = [], oi_groups = [''devs'']\<rparr>"
  let ?rows = "[sso_ada\<lparr>us_max_workspaces := 10\<rparr>, bob]"
  have "\<exists>v rows2 au. refresh_user desk_sso desk_oidc ?who [] sso_ada ?rows = (Inr v, rows2, au)"
    by (simp add: refresh_user_def refreshed_user_def finish_login_def users_update_def
        subject_taken_def users_write_def user_at_def Let_def sso_demo_defs)
  then obtain v rows2 au where r: "refresh_user desk_sso desk_oidc ?who [] sso_ada ?rows = (Inr v, rows2, au)" by blast
  have "us_id sso_ada = ''a''" "us_max_workspaces sso_ada = 3" by (simp_all add: sso_demo_defs)
  with sso_login_loses_edit [OF r, of "sso_ada\<lparr>us_max_workspaces := 10\<rparr>"] show ?thesis by (auto simp: r user_at_def)
qed

definition bare_environment :: "string \<Rightarrow> string" where
  "bare_environment k = (if k = ''WAAS_DATABASE_URL'' then ''postgres://db'' else if k = ''WAAS_INTERNAL_TOKEN'' then ''t'' else [])"

theorem configured_sign_in_offered_witness:
  "lm_local (providers_route (read_oidc bare_environment) False)"
proof -
  obtain c where c: "load_config (\<lambda>_ _ _. 0) None bare_environment = Inr c" "cg_oidc c = read_oidc bare_environment"
    by (simp add: load_config_def read_config_def read_oidc_def Let_def oidc_enabled_def bare_environment_def)
  have "\<not> oc_only (cg_oidc c)" "\<not> oidc_enabled (cg_oidc c)"
    by (simp_all add: c(2) read_oidc_def oidc_enabled_def bare_environment_def)
  with configured_sign_in_offered [OF c(1)] show ?thesis by (simp add: c(2))
qed

end
