(* ===== verification/Catalog_Sync.thy ===== *)
theory Catalog_Sync
  imports Portal Policy
begin

text \<open>
  The image catalogs: the manifest format (\<open>shared/catalog/catalog.go\<close>), the table of \<open>repository/catalog_sql.go\<close> and
  the worker of \<open>service/catalog_sync_worker.go\<close> with its three entrances, the ticker, the forced sync and the
  watch. YAML decoding, JSON encoding of a recommendation and the HTTP client are parameters; JSON columns are
  the values they encode. The second half is the worker's concurrency: who wakes whom, and that it converges.
\<close>

section \<open>The manifest\<close>

record manifest_entry =
  me_image :: string
  me_os :: string
  me_app :: string
  me_version :: string
  me_icon :: string
  me_display_name :: string
  me_description :: string
  me_profile :: string
  me_architectures :: "string list"
  me_recommended :: "k8s_value option"

record manifest_file =
  mf_api_version :: string
  mf_images :: "manifest_entry list"

definition catalog_api_version :: string where "catalog_api_version = ''waas.xorhub.io/catalog/v1''"
definition profile_hardened :: string where "profile_hardened = ''hardened''"
definition profile_normal :: string where "profile_normal = ''normal''"

text \<open>What went wrong in a sync; \<open>SyncBusy\<close> is the semaphore's error.\<close>

datatype sync_error = SyncBusy | SourceError "string list" | StoreError "string list" | StatusError "string list"

definition parse_manifest :: "(string \<Rightarrow> manifest_file option) \<Rightarrow> string \<Rightarrow> sync_error + manifest_file" where
  "parse_manifest unmarshal raw =
     (case unmarshal raw of
        None \<Rightarrow> Inl (SourceError [''parsing catalog manifest''])
      | Some f \<Rightarrow> if mf_api_version f \<noteq> catalog_api_version
          then Inl (SourceError [''unsupported catalog apiVersion'', mf_api_version f]) else Inr f)"

section \<open>Untrusted values\<close>

definition normalize_os :: "string \<Rightarrow> string" where
  "normalize_os os = (if os \<noteq> os_linux \<and> os \<noteq> os_windows then [] else os)"

definition normalize_profile :: "string \<Rightarrow> string" where
  "normalize_profile p = (if p \<noteq> profile_hardened \<and> p \<noteq> profile_normal then [] else p)"

text \<open>\<open>strings.ToValidUTF8(s, "")\<close>: an undecodable byte is a chunk of one byte that reads as the error rune.\<close>

definition broken_chunk :: "string \<Rightarrow> bool" where
  "broken_chunk w \<longleftrightarrow> decode_rune w = (rune_error, 1)"

definition to_valid_utf8 :: "string \<Rightarrow> string" where
  "to_valid_utf8 s = concat (filter (\<lambda>w. \<not> broken_chunk w) (rune_chunks s))"

definition max_description :: nat where "max_description = 2048"

definition normalize_description :: "string \<Rightarrow> string" where
  "normalize_description desc =
     (let d = trim_space desc in if max_description < length d then to_valid_utf8 (take max_description d) else d)"

fun keep_architectures :: "string list \<Rightarrow> string list \<Rightarrow> string list" where
  "keep_architectures [] out = out"
| "keep_architectures (a # as) out =
     keep_architectures as (if (a = ''amd64'' \<or> a = ''arm64'') \<and> a \<notin> set out then out @ [a] else out)"

definition normalize_architectures :: "string list \<Rightarrow> string list" where
  "normalize_architectures archs = keep_architectures archs []"

text \<open>\<open>sql.NullString\<close>: NULL reads as the empty text.\<close>

definition read_text :: "'a list option \<Rightarrow> 'a list" where
  "read_text v = (case v of None \<Rightarrow> [] | Some s \<Rightarrow> s)"

text \<open>Absent stays absent, and what cannot be encoded is dropped.\<close>

definition marshal_recommended :: "(k8s_value \<Rightarrow> string option) \<Rightarrow> k8s_value option \<Rightarrow> string" where
  "marshal_recommended json r = (case r of None \<Rightarrow> [] | Some v \<Rightarrow> read_text (json v))"

section \<open>The table\<close>

record discovered_entry =
  ce_image :: string
  ce_os :: string
  ce_app :: string
  ce_version :: string
  ce_icon :: string
  ce_display_name :: string
  ce_description :: string
  ce_profile :: string
  ce_recommended :: string
  ce_architectures :: "string list"
  ce_synced_at :: int

text \<open>A row: the columns that may be NULL are options.\<close>

record catalog_row =
  cr_owner :: string
  cr_image :: string
  cr_os :: "string option"
  cr_app :: "string option"
  cr_version :: "string option"
  cr_icon :: "string option"
  cr_display_name :: "string option"
  cr_description :: "string option"
  cr_profile :: "string option"
  cr_recommended :: "string option"
  cr_architectures :: "string list option"
  cr_synced_at :: int

definition nullable :: "'a list \<Rightarrow> 'a list option" where
  "nullable s = (if s = [] then None else Some s)"

definition catalog_row_of :: "string \<Rightarrow> discovered_entry \<Rightarrow> catalog_row" where
  "catalog_row_of owner e =
     \<lparr>cr_owner = owner, cr_image = ce_image e, cr_os = nullable (ce_os e), cr_app = nullable (ce_app e), cr_version = nullable (ce_version e),
      cr_icon = nullable (ce_icon e), cr_display_name = nullable (ce_display_name e), cr_description = nullable (ce_description e),
      cr_profile = nullable (ce_profile e), cr_recommended = nullable (ce_recommended e),
      cr_architectures = nullable (ce_architectures e), cr_synced_at = ce_synced_at e\<rparr>"

definition scan_catalog_entry :: "catalog_row \<Rightarrow> discovered_entry" where
  "scan_catalog_entry r =
     \<lparr>ce_image = cr_image r, ce_os = read_text (cr_os r), ce_app = read_text (cr_app r), ce_version = read_text (cr_version r),
      ce_icon = read_text (cr_icon r), ce_display_name = read_text (cr_display_name r), ce_description = read_text (cr_description r),
      ce_profile = read_text (cr_profile r), ce_recommended = read_text (cr_recommended r),
      ce_architectures = read_text (cr_architectures r), ce_synced_at = cr_synced_at r\<rparr>"

text \<open>One transaction: a statement that fails, or a second row of one image under one owner, rolls everything back.\<close>

definition replace_entries :: "bool \<Rightarrow> string \<Rightarrow> discovered_entry list \<Rightarrow> catalog_row list \<Rightarrow> (sync_error + unit) \<times> catalog_row list" where
  "replace_entries ok owner es rows =
     (if \<not> ok \<or> \<not> distinct (map ce_image es) then (Inl (StoreError [''replacing catalog entries of'', owner]), rows)
      else (Inr (), filter (\<lambda>r. cr_owner r \<noteq> owner) rows @ map (catalog_row_of owner) es))"

text \<open>\<open>rank\<close> is the place of a text in the collation of the database.\<close>

definition list_entries :: "(string \<Rightarrow> nat) \<Rightarrow> bool \<Rightarrow> string \<Rightarrow> catalog_row list \<Rightarrow> discovered_entry list option" where
  "list_entries rank ok owner rows =
     (if \<not> ok then None
      else Some (map scan_catalog_entry (sort_key (\<lambda>r. rank (cr_image r)) (filter (\<lambda>r. cr_owner r = owner) rows))))"

section \<open>Sources\<close>

definition catalog_sync_eligible :: "workspace_image \<Rightarrow> bool" where
  "catalog_sync_eligible img \<longleftrightarrow> im_registry img \<noteq> [] \<and> im_catalog img \<noteq> None"

definition catalog_default_key :: string where "catalog_default_key = ''catalog.yaml''"
definition catalog_token_key :: string where "catalog_token_key = ''token''"
definition source_fetched :: string where "source_fetched = ''Fetched''"
definition source_static :: string where "source_static = ''Static''"

record config_map =
  cm_data :: "string \<rightharpoonup> string"
  cm_binary :: "string \<rightharpoonup> string"

text \<open>An HTTP answer: no request could be built, no answer came, or a status with a body that may fail to read.\<close>

datatype http_answer = BadRequestUrl | NoAnswer | HttpAnswer nat "string option"

record sync_env =
  sy_namespace :: string
  sy_get_config_map :: "object_key \<Rightarrow> config_map fetched"
  sy_get_secret :: "object_key \<Rightarrow> (string \<rightharpoonup> string) fetched"
  sy_http :: "string \<Rightarrow> string option \<Rightarrow> http_answer"
  sy_unmarshal :: "string \<Rightarrow> manifest_file option"
  sy_json :: "k8s_value \<Rightarrow> string option"
  sy_store_ok :: bool
  sy_patch_ok :: bool
  sy_now :: int

text \<open>The authorization header of the fetch, from the token secret when one is named.\<close>

definition bearer_header :: "sync_env \<Rightarrow> string option \<Rightarrow> sync_error + string option" where
  "bearer_header env ref =
     (case ref of
        None \<Rightarrow> Inr None
      | Some n \<Rightarrow> (case sy_get_secret env (sy_namespace env, n) of
          Found data \<Rightarrow> (case data catalog_token_key of
            Some token \<Rightarrow> Inr (Some (''Bearer '' @ token))
          | None \<Rightarrow> Inl (SourceError [''bearer-token secret has no key'', n, catalog_token_key]))
        | _ \<Rightarrow> Inl (SourceError [''reading bearer-token secret'', n])))"

definition fetch_manifest :: "sync_env \<Rightarrow> string \<Rightarrow> string option \<Rightarrow> sync_error + string" where
  "fetch_manifest env url ref =
     (if sy_http env url None = BadRequestUrl then Inl (SourceError [''building catalog request''])
      else case bearer_header env ref of
        Inl e \<Rightarrow> Inl e
      | Inr header \<Rightarrow> (case sy_http env url header of
          HttpAnswer status body \<Rightarrow>
            if status \<noteq> 200 then Inl (SourceError [''fetching catalog: HTTP'', nat_to_dec status, url])
            else (case body of None \<Rightarrow> Inl (SourceError [''reading catalog response'']) | Some b \<Rightarrow> Inr b)
        | _ \<Rightarrow> Inl (SourceError [''fetching catalog''])))"

definition read_config_map_key :: "sync_env \<Rightarrow> catalog_key_ref \<Rightarrow> sync_error + string" where
  "read_config_map_key env ref =
     (case sy_get_config_map env (sy_namespace env, ck_name ref) of
        Found cm \<Rightarrow>
          (let k = (if ck_key ref = [] then catalog_default_key else ck_key ref) in
           case cm_data cm k of
             Some v \<Rightarrow> Inr v
           | None \<Rightarrow> (case cm_binary cm k of
               Some v \<Rightarrow> Inr v
             | None \<Rightarrow> Inl (SourceError [''catalog configmap has no key'', ck_name ref, k])))
      | _ \<Rightarrow> Inl (SourceError [''reading catalog configmap'', ck_name ref]))"

definition read_secret_key :: "sync_env \<Rightarrow> catalog_key_ref \<Rightarrow> sync_error + string" where
  "read_secret_key env ref =
     (case sy_get_secret env (sy_namespace env, ck_name ref) of
        Found data \<Rightarrow> (case data (ck_key ref) of
          Some v \<Rightarrow> Inr v | None \<Rightarrow> Inl (SourceError [''catalog secret has no key'', ck_name ref, ck_key ref]))
      | _ \<Rightarrow> Inl (SourceError [''reading catalog secret'', ck_name ref]))"

definition fetch_and_parse :: "sync_env \<Rightarrow> image_catalog \<Rightarrow> sync_error + manifest_entry list \<times> string" where
  "fetch_and_parse env c =
     (let from = ic_from c;
          raw = (if src_url from \<noteq> [] then fetch_manifest env (src_url from) (ic_bearer_secret c)
            else case src_config_map from of
              Some ref \<Rightarrow> read_config_map_key env ref
            | None \<Rightarrow> (case src_secret from of
                Some ref \<Rightarrow> read_secret_key env ref
              | None \<Rightarrow> Inl (SourceError [''spec.catalog.from has no source set'']))) in
      case raw of
        Inl e \<Rightarrow> Inl e
      | Inr r \<Rightarrow> (case parse_manifest (sy_unmarshal env) r of
          Inl e \<Rightarrow> Inl e
        | Inr f \<Rightarrow> Inr (mf_images f, if src_url from \<noteq> [] then source_fetched else source_static)))"

section \<open>One sync\<close>

record catalog_status =
  cst_source :: string
  cst_last_time :: "int option"
  cst_error :: "sync_error option"

text \<open>The status a nil pointer reads as.\<close>

definition no_status :: catalog_status where
  "no_status = \<lparr>cst_source = [], cst_last_time = None, cst_error = None\<rparr>"

text \<open>A merge patch of the status: the fields that differ from the copy the sync started from.\<close>

definition patch_status :: "catalog_status \<Rightarrow> catalog_status \<Rightarrow> catalog_status \<Rightarrow> catalog_status" where
  "patch_status orig new stored =
     \<lparr>cst_source = (if cst_source new \<noteq> cst_source orig then cst_source new else cst_source stored),
      cst_last_time = (if cst_last_time new \<noteq> cst_last_time orig then cst_last_time new else cst_last_time stored),
      cst_error = (if cst_error new \<noteq> cst_error orig then cst_error new else cst_error stored)\<rparr>"

text \<open>What a sync reads and writes: the table, the images with their statuses, the sources last attempted.\<close>

record sync_world =
  sw_rows :: "catalog_row list"
  sw_status :: "string \<rightharpoonup> catalog_status"
  sw_last :: "string \<rightharpoonup> image_catalog"

definition synced_entry :: "sync_env \<Rightarrow> manifest_entry \<Rightarrow> discovered_entry" where
  "synced_entry env e =
     \<lparr>ce_image = me_image e, ce_os = normalize_os (me_os e), ce_app = me_app e, ce_version = me_version e, ce_icon = me_icon e,
      ce_display_name = me_display_name e, ce_description = normalize_description (me_description e),
      ce_profile = normalize_profile (me_profile e), ce_recommended = marshal_recommended (sy_json env) (me_recommended e),
      ce_architectures = normalize_architectures (me_architectures e), ce_synced_at = sy_now env\<rparr>"

definition record_source :: "string \<Rightarrow> image_catalog \<Rightarrow> sync_world \<Rightarrow> sync_world" where
  "record_source n c w = w\<lparr>sw_last := (sw_last w)(n \<mapsto> c)\<rparr>"

definition forget_source :: "string \<Rightarrow> sync_world \<Rightarrow> sync_world" where
  "forget_source n w = w\<lparr>sw_last := (sw_last w)(n := None)\<rparr>"

definition source_changed :: "workspace_image \<Rightarrow> sync_world \<Rightarrow> bool" where
  "source_changed img w \<longleftrightarrow> (case sw_last w (im_name img) of None \<Rightarrow> True | Some c \<Rightarrow> Some c \<noteq> im_catalog img)"

text \<open>The status patch of the object \<open>n\<close>, which fails when the server refuses or the object is gone.\<close>

definition write_status :: "sync_env \<Rightarrow> string \<Rightarrow> catalog_status \<Rightarrow> catalog_status \<Rightarrow> sync_world \<Rightarrow> (sync_error + unit) \<times> sync_world" where
  "write_status env n orig new w =
     (case sw_status w n of
        Some stored \<Rightarrow> if sy_patch_ok env then (Inr (), w\<lparr>sw_status := (sw_status w)(n \<mapsto> patch_status orig new stored)\<rparr>)
          else (Inl (StatusError [''patching catalog status of'', n]), w)
      | None \<Rightarrow> (Inl (StatusError [''patching catalog status of'', n]), w))"

text \<open>\<open>orig\<close> is the status of the copy in hand; the semaphore is held. The source is recorded first.\<close>

definition sync_rest ::
  "sync_env \<Rightarrow> string \<Rightarrow> image_catalog \<Rightarrow> catalog_status \<Rightarrow> sync_world \<Rightarrow> (sync_error + catalog_status) \<times> sync_world" where
  "sync_rest env n c orig w =
     (case fetch_and_parse env c of
        Inl e \<Rightarrow> (case write_status env n orig (orig\<lparr>cst_error := Some e\<rparr>) w of
            (Inl e', w') \<Rightarrow> (Inl e', w') | (Inr _, w') \<Rightarrow> (Inl e, w'))
      | Inr (es, source) \<Rightarrow> (case replace_entries (sy_store_ok env) n (map (synced_entry env) es) (sw_rows w) of
          (Inl e, rows) \<Rightarrow> (Inl e, w\<lparr>sw_rows := rows\<rparr>)
        | (Inr _, rows) \<Rightarrow>
           (let new = \<lparr>cst_source = source, cst_last_time = Some (sy_now env), cst_error = None\<rparr> in
            case write_status env n orig new (w\<lparr>sw_rows := rows\<rparr>) of
              (Inl e, w') \<Rightarrow> (Inl e, w') | (Inr _, w') \<Rightarrow> (Inr new, w'))))"

definition sync_locked ::
  "sync_env \<Rightarrow> string \<Rightarrow> image_catalog \<Rightarrow> catalog_status \<Rightarrow> sync_world \<Rightarrow> (sync_error + catalog_status) \<times> sync_world" where
  "sync_locked env n c orig w = sync_rest env n c orig (record_source n c w)"

text \<open>\<open>acquired\<close>: the semaphore was taken before the context ended.\<close>

definition sync_one ::
  "bool \<Rightarrow> sync_env \<Rightarrow> string \<Rightarrow> image_catalog \<Rightarrow> catalog_status \<Rightarrow> sync_world \<Rightarrow> (sync_error + catalog_status) \<times> sync_world" where
  "sync_one acquired env n c orig w = (if acquired then sync_locked env n c orig w else (Inl SyncBusy, w))"

definition sync_if_source_changed ::
  "bool \<Rightarrow> sync_env \<Rightarrow> workspace_image \<Rightarrow> catalog_status \<Rightarrow> sync_world \<Rightarrow> (sync_error + unit) \<times> sync_world" where
  "sync_if_source_changed acquired env img orig w =
     (if \<not> acquired then (Inl SyncBusy, w)
      else if \<not> catalog_sync_eligible img \<or> \<not> source_changed img w then (Inr (), w)
      else case im_catalog img of
        None \<Rightarrow> (Inr (), w)
      | Some c \<Rightarrow> (case sync_locked env (im_name img) c orig w of (Inl e, w') \<Rightarrow> (Inl e, w') | (Inr _, w') \<Rightarrow> (Inr (), w')))"

text \<open>The ticker's pass over the listed images, each with what its own sources answer.\<close>

fun sync_images :: "(string \<Rightarrow> sync_env) \<Rightarrow> (workspace_image \<times> catalog_status) list \<Rightarrow> sync_world \<Rightarrow> sync_world" where
  "sync_images env [] w = w"
| "sync_images env ((img, orig) # imgs) w =
     sync_images env imgs
       (case im_catalog img of
          Some c \<Rightarrow> if catalog_sync_eligible img then snd (sync_one True (env (im_name img)) (im_name img) c orig w) else w
        | None \<Rightarrow> w)"

definition sync_all :: "(string \<Rightarrow> sync_env) \<Rightarrow> (workspace_image \<times> catalog_status) list option \<Rightarrow> sync_world \<Rightarrow> sync_world" where
  "sync_all env listed w = (case listed of None \<Rightarrow> w | Some imgs \<Rightarrow> sync_images env imgs w)"

section \<open>The watch observer\<close>

datatype watch_event = Deleted string | Upserted workspace_image

text \<open>\<open>OnImageEvent\<close>: the world after the event, and the name it queues.\<close>

definition on_image_event :: "watch_event \<Rightarrow> sync_world \<Rightarrow> sync_world \<times> string option" where
  "on_image_event ev w =
     (case ev of
        Deleted n \<Rightarrow> (forget_source n w, None)
      | Upserted img \<Rightarrow>
          if \<not> catalog_sync_eligible img then (forget_source (im_name img) w, None)
          else if source_changed img w then (w, Some (im_name img))
          else (w, None))"

text \<open>One queued name: the image is read again, and skipped when it is gone.\<close>

definition sync_pending ::
  "bool \<Rightarrow> sync_env \<Rightarrow> (workspace_image \<times> catalog_status) fetched \<Rightarrow> sync_world \<Rightarrow> sync_world" where
  "sync_pending acquired env got w =
     (case got of Found (img, orig) \<Rightarrow> snd (sync_if_source_changed acquired env img orig w) | _ \<Rightarrow> w)"

section \<open>Any sequence of syncs\<close>

datatype sync_call =
    Tick "string \<Rightarrow> sync_env" "(workspace_image \<times> catalog_status) list option"
  | Force bool sync_env string image_catalog catalog_status
  | Pending bool sync_env "(workspace_image \<times> catalog_status) fetched"
  | Observe watch_event

fun run_call :: "sync_call \<Rightarrow> sync_world \<Rightarrow> sync_world" where
  "run_call (Tick env listed) w = sync_all env listed w"
| "run_call (Force acquired env n c orig) w = snd (sync_one acquired env n c orig w)"
| "run_call (Pending acquired env got) w = sync_pending acquired env got w"
| "run_call (Observe ev) w = fst (on_image_event ev w)"

text \<open>Whatever a sync does to a world, it does through \<open>sync_locked\<close> and the record of sources.\<close>

lemma sync_images_induct:
  assumes "P w" "\<And>env n c orig w. P w \<Longrightarrow> P (snd (sync_locked env n c orig w))"
  shows "P (sync_images env imgs w)"
  using assms(1)
proof (induction env imgs w rule: sync_images.induct)
  case (2 env img orig imgs w)
  then show ?case by (cases "im_catalog img") (simp_all add: sync_one_def assms(2))
qed simp

lemma run_calls_induct:
  assumes "P w" "\<And>env n c orig w. P w \<Longrightarrow> P (snd (sync_locked env n c orig w))" "\<And>n w. P w \<Longrightarrow> P (forget_source n w)"
  shows "P (fold run_call calls w)"
  using assms(1)
proof (induction calls arbitrary: w)
  case (Cons call calls)
  have "P (run_call call w)"
  proof (cases call)
    case (Tick env listed)
    with Cons.prems assms(2) show ?thesis by (cases listed) (auto simp: sync_all_def intro: sync_images_induct)
  next
    case (Force acquired env n c orig)
    with Cons.prems assms(2) show ?thesis by (simp add: sync_one_def)
  next
    case (Pending acquired env got)
    have "P (snd (sync_if_source_changed acquired env img orig w))" for img orig
      using assms(2) [OF Cons.prems] Cons.prems
      by (auto simp: sync_if_source_changed_def split: option.split prod.split sum.split) (metis snd_conv)+
    with Pending Cons.prems show ?thesis by (auto simp: sync_pending_def split: fetched.split)
  next
    case (Observe ev)
    with Cons.prems assms(3) show ?thesis by (simp add: on_image_event_def split: watch_event.split)
  qed
  with Cons.IH show ?case by simp
qed simp

section \<open>The table stays well formed\<close>

lemma filter_concat_length: "length (concat (filter P ws)) \<le> length (concat ws)"
  by (induction ws) auto

lemma normalize_description_bound: "length (normalize_description d) \<le> max_description"
proof -
  have "length (to_valid_utf8 s) \<le> length s" for s
    using filter_concat_length [of "\<lambda>w. \<not> broken_chunk w" "rune_chunks s"] by (simp add: to_valid_utf8_def)
  from this [of "take max_description (trim_space d)"] show ?thesis by (simp add: normalize_description_def Let_def)
qed

definition known_architectures :: "string list \<Rightarrow> bool" where
  "known_architectures as \<longleftrightarrow> distinct as \<and> set as \<subseteq> {''amd64'', ''arm64''}"

lemma keep_architectures_known: "known_architectures out \<Longrightarrow> known_architectures (keep_architectures as out)"
  by (induction as out rule: keep_architectures.induct) (auto simp: known_architectures_def)

lemma keep_architectures_complete:
  "set (keep_architectures as out) = set out \<union> (set as \<inter> {''amd64'', ''arm64''})"
  by (induction as out rule: keep_architectures.induct) auto

definition sane_entry :: "discovered_entry \<Rightarrow> bool" where
  "sane_entry e \<longleftrightarrow> ce_os e \<in> {[], os_linux, os_windows} \<and> ce_profile e \<in> {[], profile_hardened, profile_normal} \<and>
     length (ce_description e) \<le> max_description \<and> known_architectures (ce_architectures e)"

lemma entry_of_image [simp]: "ce_image (synced_entry env e) = me_image e"
  by (simp add: synced_entry_def)

lemma entry_of_sane: "sane_entry (synced_entry env e)"
  using normalize_description_bound [of "me_description e"] keep_architectures_known [of "[]" "me_architectures e"]
  by (simp add: sane_entry_def synced_entry_def normalize_os_def normalize_profile_def normalize_architectures_def known_architectures_def)

text \<open>Writing an entry and reading it back loses nothing, NULL columns included.\<close>

lemma scan_row: "scan_catalog_entry (catalog_row_of owner e) = e"
  by (simp add: scan_catalog_entry_def catalog_row_of_def nullable_def read_text_def)

definition catalog_well_formed :: "catalog_row list \<Rightarrow> bool" where
  "catalog_well_formed rows \<longleftrightarrow> distinct (map (\<lambda>r. (cr_owner r, cr_image r)) rows) \<and> (\<forall>r \<in> set rows. sane_entry (scan_catalog_entry r))"

lemma row_key [simp]: "cr_owner (catalog_row_of n e) = n" "cr_image (catalog_row_of n e) = ce_image e"
  by (simp_all add: catalog_row_of_def)

lemma replace_well_formed:
  assumes "catalog_well_formed rows" "\<forall>e \<in> set es. sane_entry e"
  shows "catalog_well_formed (snd (replace_entries ok n es rows))"
proof (cases "ok \<and> distinct (map ce_image es)")
  case True
  then have "distinct (map (\<lambda>r. (cr_owner r, cr_image r)) (map (catalog_row_of n) es))"
    by (auto simp: distinct_map inj_on_def)
  moreover have "distinct (map (\<lambda>r. (cr_owner r, cr_image r)) (filter (\<lambda>r. cr_owner r \<noteq> n) rows))"
    using assms(1) by (auto simp: catalog_well_formed_def distinct_map inj_on_def)
  ultimately show ?thesis
    using True assms by (auto simp: replace_entries_def catalog_well_formed_def scan_row)
qed (use assms in \<open>auto simp: replace_entries_def\<close>)

lemma write_status_rows: "sw_rows (snd (write_status env n orig new w)) = sw_rows w" "sw_last (snd (write_status env n orig new w)) = sw_last w"
  by (simp_all add: write_status_def split: option.split)

text \<open>The result of a sync, case by case.\<close>

lemma sync_rest_failed:
  assumes "fetch_and_parse env c = Inl e"
  shows "snd (sync_rest env n c orig w) = snd (write_status env n orig (orig\<lparr>cst_error := Some e\<rparr>) w)"
  using assms by (cases "write_status env n orig (orig\<lparr>cst_error := Some e\<rparr>) w") (auto simp: sync_rest_def split: sum.split)

lemma sync_rest_refused:
  assumes "fetch_and_parse env c = Inr (es, source)" "\<not> sy_store_ok env \<or> \<not> distinct (map me_image es)"
  shows "sync_rest env n c orig w = (Inl (StoreError [''replacing catalog entries of'', n]), w)"
  using assms by (auto simp: sync_rest_def replace_entries_def synced_entry_def comp_def)

lemma sync_rest_stored:
  assumes "fetch_and_parse env c = Inr (es, source)" "sy_store_ok env" "distinct (map me_image es)"
  shows "snd (sync_rest env n c orig w) = snd (write_status env n orig
    \<lparr>cst_source = source, cst_last_time = Some (sy_now env), cst_error = None\<rparr>
    (w\<lparr>sw_rows := filter (\<lambda>r. cr_owner r \<noteq> n) (sw_rows w) @ map (catalog_row_of n) (map (synced_entry env) es)\<rparr>))"
proof -
  let ?rows = "filter (\<lambda>r. cr_owner r \<noteq> n) (sw_rows w) @ map (catalog_row_of n) (map (synced_entry env) es)"
  have "replace_entries (sy_store_ok env) n (map (synced_entry env) es) (sw_rows w) = (Inr (), ?rows)"
    using assms(2,3) by (simp add: replace_entries_def synced_entry_def comp_def)
  with assms(1) show ?thesis
    by (cases "write_status env n orig \<lparr>cst_source = source, cst_last_time = Some (sy_now env), cst_error = None\<rparr> (w\<lparr>sw_rows := ?rows\<rparr>)")
      (auto simp: sync_rest_def Let_def split: sum.split)
qed

text \<open>The rows after a sync: the old ones, or those of the manifest for this image.\<close>

definition synced_rows :: "sync_env \<Rightarrow> string \<Rightarrow> image_catalog \<Rightarrow> catalog_row list \<Rightarrow> catalog_row list" where
  "synced_rows env n c rows =
     (case fetch_and_parse env c of
        Inl e \<Rightarrow> rows
      | Inr (es, source) \<Rightarrow> if sy_store_ok env \<and> distinct (map me_image es)
          then filter (\<lambda>r. cr_owner r \<noteq> n) rows @ map (catalog_row_of n) (map (synced_entry env) es) else rows)"

lemma sync_rest_world:
  "sw_rows (snd (sync_rest env n c orig w)) = synced_rows env n c (sw_rows w)"
  "sw_last (snd (sync_rest env n c orig w)) = sw_last w"
  "m \<noteq> n \<Longrightarrow> sw_status (snd (sync_rest env n c orig w)) m = sw_status w m"
proof -
  have st: "m \<noteq> n \<Longrightarrow> sw_status (snd (write_status env n orig new v)) m = sw_status v m" for new v
    by (simp add: write_status_def split: option.split)
  have "sw_rows (snd (sync_rest env n c orig w)) = synced_rows env n c (sw_rows w) \<and>
    sw_last (snd (sync_rest env n c orig w)) = sw_last w \<and> (m \<noteq> n \<longrightarrow> sw_status (snd (sync_rest env n c orig w)) m = sw_status w m)"
  proof (cases "fetch_and_parse env c")
    case (Inl e)
    then show ?thesis by (simp add: sync_rest_failed write_status_rows synced_rows_def st)
  next
    case (Inr p)
    obtain es source where p: "p = (es, source)" by fastforce
    show ?thesis
    proof (cases "sy_store_ok env \<and> distinct (map me_image es)")
      case True
      with Inr p show ?thesis by (simp add: sync_rest_stored write_status_rows synced_rows_def st)
    next
      case False
      then have "\<not> sy_store_ok env \<or> \<not> distinct (map me_image es)" by blast
      with Inr p show ?thesis by (auto simp: sync_rest_refused synced_rows_def)
    qed
  qed
  then show "sw_rows (snd (sync_rest env n c orig w)) = synced_rows env n c (sw_rows w)"
    "sw_last (snd (sync_rest env n c orig w)) = sw_last w" "m \<noteq> n \<Longrightarrow> sw_status (snd (sync_rest env n c orig w)) m = sw_status w m"
    by blast+
qed

lemma sync_locked_world:
  "sw_rows (snd (sync_locked env n c orig w)) = synced_rows env n c (sw_rows w)"
  "sw_last (snd (sync_locked env n c orig w)) = (sw_last w)(n \<mapsto> c)"
  "m \<noteq> n \<Longrightarrow> sw_status (snd (sync_locked env n c orig w)) m = sw_status w m"
  by (simp_all add: sync_locked_def sync_rest_world record_source_def)

lemma synced_rows_well_formed:
  assumes "catalog_well_formed rows"
  shows "catalog_well_formed (synced_rows env n c rows)"
proof -
  have r: "catalog_well_formed (snd (replace_entries True n (map (synced_entry env) es) rows))" for es
    by (rule replace_well_formed [OF assms]) (auto simp: entry_of_sane)
  have "catalog_well_formed (filter (\<lambda>r. cr_owner r \<noteq> n) rows @ map (catalog_row_of n) (map (synced_entry env) es))"
    if "distinct (map me_image es)" for es
    using r [of es] that by (simp add: replace_entries_def comp_def del: map_map) (simp add: comp_def)
  with assms show ?thesis by (auto simp: synced_rows_def simp del: map_map split: sum.split)
qed

text \<open>C30: The table of discovered images is always well formed, whatever manifests are published: through any sequence of ticks,
  forced syncs, watch-driven syncs and events, no image appears twice under one entry, and every row has a
  known operating system and profile or none, known architectures without repetition, and a description within
  the cap.
\<close>

theorem catalog_table_well_formed:
  assumes "catalog_well_formed (sw_rows w)"
  shows "catalog_well_formed (sw_rows (fold run_call calls w))"
  by (rule run_calls_induct [where P = "\<lambda>w. catalog_well_formed (sw_rows w)"])
    (simp_all add: assms sync_locked_world synced_rows_well_formed forget_source_def)

lemma synced_others: "m \<noteq> n \<Longrightarrow> filter (\<lambda>r. cr_owner r = m) (synced_rows env n c rows) = filter (\<lambda>r. cr_owner r = m) rows"
  by (auto simp: synced_rows_def filter_map comp_def intro: filter_cong split: sum.split)

lemma synced_own:
  assumes "fetch_and_parse env c = Inr (es, source)" "sy_store_ok env" "distinct (map me_image es)"
  shows "filter (\<lambda>r. cr_owner r = n) (synced_rows env n c rows) = map (catalog_row_of n) (map (synced_entry env) es)"
  using assms by (simp add: synced_rows_def filter_map comp_def)

lemma insort_key_map: "insort_key f (g x) (map g xs) = map g (insort_key (\<lambda>y. f (g y)) x xs)"
  by (induction xs) auto

lemma sort_key_map: "sort_key f (map g xs) = map g (sort_key (\<lambda>y. f (g y)) xs)"
  by (induction xs) (simp_all add: insort_key_map)

lemma list_entries_rows:
  "filter (\<lambda>r. cr_owner r = n) rows = map (catalog_row_of n) es \<Longrightarrow>
   list_entries rank True n rows = Some (sort_key (\<lambda>e. rank (ce_image e)) es)"
  by (simp add: list_entries_def sort_key_map scan_row comp_def)

text \<open>C16: Stale but served. A sync whose source cannot be read, whose manifest does not parse or that the database refuses
  leaves every published entry exactly as it was; a sync that gets through publishes precisely the entries of
  the manifest, made safe, in the order of the collation. Entries and status of other images never change, the
  source attempted is recorded in every case, and an unreadable source is what the status then says.
\<close>

theorem stale_but_served:
  fixes env n c orig w
  defines "w' \<equiv> snd (sync_locked env n c orig w)"
  shows "(\<forall>m. m \<noteq> n \<longrightarrow> list_entries rank ok m (sw_rows w') = list_entries rank ok m (sw_rows w) \<and> sw_status w' m = sw_status w m) \<and>
    sw_last w' = (sw_last w)(n \<mapsto> c) \<and>
    (case fetch_and_parse env c of
       Inl e \<Rightarrow> sw_rows w' = sw_rows w \<and>
         (sw_status w n = Some orig \<and> sy_patch_ok env \<longrightarrow> sw_status w' n = Some (orig\<lparr>cst_error := Some e\<rparr>))
     | Inr (es, source) \<Rightarrow>
         if sy_store_ok env \<and> distinct (map me_image es)
         then list_entries rank True n (sw_rows w') = Some (sort_key (\<lambda>e. rank (ce_image e)) (map (synced_entry env) es)) \<and>
           (sw_status w n = Some orig \<and> sy_patch_ok env \<longrightarrow>
              sw_status w' n = Some \<lparr>cst_source = source, cst_last_time = Some (sy_now env), cst_error = None\<rparr>)
         else sw_rows w' = sw_rows w \<and> sw_status w' = sw_status w)"
proof (intro conjI)
  show "\<forall>m. m \<noteq> n \<longrightarrow> list_entries rank ok m (sw_rows w') = list_entries rank ok m (sw_rows w) \<and> sw_status w' m = sw_status w m"
    by (simp add: w'_def sync_locked_world list_entries_def synced_others)
  show "sw_last w' = (sw_last w)(n \<mapsto> c)" by (simp add: w'_def sync_locked_world)
next
  let ?w = "record_source n c w"
  have w: "sw_status ?w = sw_status w" by (simp add: record_source_def)
  have patched: "patch_status orig new orig = new" for new by (simp add: patch_status_def)
  show "case fetch_and_parse env c of
       Inl e \<Rightarrow> sw_rows w' = sw_rows w \<and>
         (sw_status w n = Some orig \<and> sy_patch_ok env \<longrightarrow> sw_status w' n = Some (orig\<lparr>cst_error := Some e\<rparr>))
     | Inr (es, source) \<Rightarrow>
         if sy_store_ok env \<and> distinct (map me_image es)
         then list_entries rank True n (sw_rows w') = Some (sort_key (\<lambda>e. rank (ce_image e)) (map (synced_entry env) es)) \<and>
           (sw_status w n = Some orig \<and> sy_patch_ok env \<longrightarrow>
              sw_status w' n = Some \<lparr>cst_source = source, cst_last_time = Some (sy_now env), cst_error = None\<rparr>)
         else sw_rows w' = sw_rows w \<and> sw_status w' = sw_status w"
  proof (cases "fetch_and_parse env c")
    case (Inl e)
    then show ?thesis
      using w by (auto simp: w'_def sync_locked_world(1) synced_rows_def) (auto simp: sync_locked_def sync_rest_failed write_status_def patched)
  next
    case (Inr p)
    obtain es source where p: "p = (es, source)" by fastforce
    show ?thesis
    proof (cases "sy_store_ok env \<and> distinct (map me_image es)")
      case True
      with Inr p have own: "filter (\<lambda>r. cr_owner r = n) (sw_rows w') = map (catalog_row_of n) (map (synced_entry env) es)"
        by (simp add: w'_def sync_locked_world synced_own)
      have "sw_status w n = Some orig \<and> sy_patch_ok env \<longrightarrow>
          sw_status w' n = Some \<lparr>cst_source = source, cst_last_time = Some (sy_now env), cst_error = None\<rparr>"
        using True Inr p w by (auto simp: w'_def sync_locked_def sync_rest_stored write_status_def patched)
      with True Inr p list_entries_rows [OF own] show ?thesis by simp
    next
      case False
      then have "\<not> sy_store_ok env \<or> \<not> distinct (map me_image es)" by blast
      with False Inr p w show ?thesis
        by (auto simp: w'_def sync_locked_world(1) synced_rows_def) (auto simp: sync_locked_def sync_rest_refused record_source_def)
    qed
  qed
qed

text \<open>A manifest that lists an image twice is never published, and nothing says so: the table refuses the second row, the
  sync ends with the database's error, and the status keeps whatever the last sync left there.
\<close>

lemma duplicate_image_unreported:
  assumes "fetch_and_parse env c = Inr (es, source)" "\<not> distinct (map me_image es)"
  shows "fst (sync_locked env n c orig w) = Inl (StoreError [''replacing catalog entries of'', n])"
    "sw_rows (snd (sync_locked env n c orig w)) = sw_rows w" "sw_status (snd (sync_locked env n c orig w)) = sw_status w"
  using sync_rest_refused [OF assms(1), of n orig "record_source n c w"] assms(2)
  by (simp_all add: sync_locked_def record_source_def)

lemma sync_images_others:
  "m \<notin> im_name ` fst ` set imgs \<Longrightarrow>
   filter (\<lambda>r. cr_owner r = m) (sw_rows (sync_images env imgs w)) = filter (\<lambda>r. cr_owner r = m) (sw_rows w)"
proof (induction env imgs w rule: sync_images.induct)
  case (2 env img orig imgs w)
  then show ?case
    by (cases "im_catalog img") (auto simp: sync_one_def sync_locked_world synced_others)
qed simp

text \<open>A source in trouble never blocks the others. In a pass over the images, every eligible one whose own source answers with
  a manifest the table accepts ends with exactly that manifest's entries, whatever the sources of the other
  images do.
\<close>

lemma no_source_blocks_another:
  assumes "distinct (map (\<lambda>p. im_name (fst p)) imgs)" "(img, orig) \<in> set imgs" "catalog_sync_eligible img" "im_catalog img = Some c"
    and "fetch_and_parse (env (im_name img)) c = Inr (es, source)" "sy_store_ok (env (im_name img))" "distinct (map me_image es)"
  shows "list_entries rank True (im_name img) (sw_rows (sync_all env (Some imgs) w)) =
    Some (sort_key (\<lambda>e. rank (ce_image e)) (map (synced_entry (env (im_name img))) es))"
proof -
  have "filter (\<lambda>r. cr_owner r = im_name img) (sw_rows (sync_images env imgs w)) =
      map (catalog_row_of (im_name img)) (map (synced_entry (env (im_name img))) es)"
    using assms
  proof (induction env imgs w rule: sync_images.induct)
    case (2 env img' orig' imgs w)
    show ?case
    proof (cases "(img, orig) = (img', orig')")
      case True
      with "2.prems" have "im_name img \<notin> im_name ` fst ` set imgs" by (auto simp: image_image)
      with True "2.prems" show ?thesis
        by (simp add: sync_images_others sync_one_def sync_locked_world synced_own del: map_map)
    next
      case False
      with "2.prems" have "(img, orig) \<in> set imgs" "distinct (map (\<lambda>p. im_name (fst p)) imgs)" by auto
      with 2 show ?thesis by (simp del: map_map)
    qed
  qed simp
  from list_entries_rows [OF this] show ?thesis by (simp add: sync_all_def)
qed

section \<open>The worker's threads\<close>

text \<open>
  The images of the cluster, the watch that reports their changes in order, the queue of names between the
  watch and its consumer, and the other threads that sync (the ticker and forced syncs). A job holds a
  snapshot of its image: \<open>Snap\<close> waits for the semaphore, \<open>Run\<close> holds it with the source recorded.
\<close>

datatype job = Snap workspace_image | Run workspace_image

datatype consumer = Waiting | Woken | Working "string list" | Job job "string list"

text \<open>\<open>lp_signal\<close>: the watch goroutine is between adding a name and the send on the wake channel, whose capacity is one.
  \<open>lp_lost\<close> collects the names whose read failed or whose sync left the status as it was.\<close>

record loop_state =
  lp_cluster :: "string \<rightharpoonup> workspace_image"
  lp_events :: "watch_event list"
  lp_signal :: bool
  lp_pending :: "string set"
  lp_wake :: bool
  lp_consumer :: consumer
  lp_others :: "job list"
  lp_world :: sync_world
  lp_lost :: "string set"

fun event_name :: "watch_event \<Rightarrow> string" where
  "event_name (Deleted n) = n"
| "event_name (Upserted img) = im_name img"

definition latest :: "string \<Rightarrow> watch_event list \<Rightarrow> watch_event option" where
  "latest n evs = find (\<lambda>ev. event_name ev = n) (rev evs)"

fun is_run :: "job \<Rightarrow> bool" where
  "is_run (Run img) = True"
| "is_run (Snap img) = False"

definition running :: "loop_state \<Rightarrow> bool" where
  "running s \<longleftrightarrow> (case lp_consumer s of Job j ns \<Rightarrow> is_run j | _ \<Rightarrow> False) \<or> list_ex is_run (lp_others s)"

text \<open>A sync ends: what it wrote, and the watch event of its status patch, if that changed anything.\<close>

definition finish_job :: "sync_env \<Rightarrow> workspace_image \<Rightarrow> catalog_status \<Rightarrow> loop_state \<Rightarrow> loop_state" where
  "finish_job env img orig s =
     (case im_catalog img of
        None \<Rightarrow> s
      | Some c \<Rightarrow>
         (let w' = snd (sync_rest env (im_name img) c orig (lp_world s)); s' = s\<lparr>lp_world := w'\<rparr> in
          if sw_status w' (im_name img) = sw_status (lp_world s) (im_name img) then s'\<lparr>lp_lost := insert (im_name img) (lp_lost s)\<rparr>
          else case lp_cluster s (im_name img) of
            None \<Rightarrow> s' | Some cur \<Rightarrow> s'\<lparr>lp_events := lp_events s @ [Upserted cur]\<rparr>))"

definition start_job :: "workspace_image \<Rightarrow> loop_state \<Rightarrow> loop_state" where
  "start_job img s = (case im_catalog img of None \<Rightarrow> s | Some c \<Rightarrow> s\<lparr>lp_world := record_source (im_name img) c (lp_world s)\<rparr>)"

inductive loop_step :: "loop_state \<Rightarrow> loop_state \<Rightarrow> bool" where
  edit: "loop_step s (s\<lparr>lp_cluster := (lp_cluster s)(im_name img \<mapsto> img), lp_events := lp_events s @ [Upserted img]\<rparr>)"
| delete: "loop_step s (s\<lparr>lp_cluster := (lp_cluster s)(n := None), lp_events := lp_events s @ [Deleted n]\<rparr>)"
| relist: "(\<And>n img. lp_cluster s n = Some img \<Longrightarrow> latest n evs = Some (Upserted img)) \<Longrightarrow> loop_step s (s\<lparr>lp_events := evs\<rparr>)"
| deliver: "\<not> lp_signal s \<Longrightarrow> lp_events s = ev # evs \<Longrightarrow> on_image_event ev (lp_world s) = (w, None) \<Longrightarrow>
    loop_step s (s\<lparr>lp_events := evs, lp_world := w\<rparr>)"
| enqueue: "\<not> lp_signal s \<Longrightarrow> lp_events s = ev # evs \<Longrightarrow> on_image_event ev (lp_world s) = (w, Some n) \<Longrightarrow>
    loop_step s (s\<lparr>lp_events := evs, lp_world := w, lp_pending := insert n (lp_pending s), lp_signal := True\<rparr>)"
| signal: "lp_signal s \<Longrightarrow> loop_step s (s\<lparr>lp_signal := False, lp_wake := True\<rparr>)"
| wake: "lp_consumer s = Waiting \<Longrightarrow> lp_wake s \<Longrightarrow> loop_step s (s\<lparr>lp_consumer := Woken, lp_wake := False\<rparr>)"
| drain: "lp_consumer s = Woken \<Longrightarrow> set ns = lp_pending s \<Longrightarrow> distinct ns \<Longrightarrow>
    loop_step s (s\<lparr>lp_consumer := Working ns, lp_pending := {}\<rparr>)"
| drained: "lp_consumer s = Working [] \<Longrightarrow> loop_step s (s\<lparr>lp_consumer := Waiting\<rparr>)"
| read: "lp_consumer s = Working (n # ns) \<Longrightarrow> lp_cluster s n = Some img \<Longrightarrow> loop_step s (s\<lparr>lp_consumer := Job (Snap img) ns\<rparr>)"
| missing: "lp_consumer s = Working (n # ns) \<Longrightarrow> lp_cluster s n = None \<Longrightarrow> loop_step s (s\<lparr>lp_consumer := Working ns\<rparr>)"
| read_failed: "lp_consumer s = Working (n # ns) \<Longrightarrow> loop_step s (s\<lparr>lp_consumer := Working ns, lp_lost := insert n (lp_lost s)\<rparr>)"
| skip: "lp_consumer s = Job (Snap img) ns \<Longrightarrow> \<not> running s \<Longrightarrow> \<not> catalog_sync_eligible img \<or> \<not> source_changed img (lp_world s) \<Longrightarrow>
    loop_step s (s\<lparr>lp_consumer := Working ns\<rparr>)"
| start: "lp_consumer s = Job (Snap img) ns \<Longrightarrow> \<not> running s \<Longrightarrow> catalog_sync_eligible img \<Longrightarrow> source_changed img (lp_world s) \<Longrightarrow>
    loop_step s ((start_job img s)\<lparr>lp_consumer := Job (Run img) ns\<rparr>)"
| finish: "lp_consumer s = Job (Run img) ns \<Longrightarrow> loop_step s ((finish_job env img orig s)\<lparr>lp_consumer := Working ns\<rparr>)"
| other_read: "lp_cluster s n = Some img \<Longrightarrow> catalog_sync_eligible img \<Longrightarrow>
    loop_step s (s\<lparr>lp_others := lp_others s @ [Snap img]\<rparr>)"
| other_start: "lp_others s = js @ Snap img # js' \<Longrightarrow> \<not> running s \<Longrightarrow> loop_step s ((start_job img s)\<lparr>lp_others := js @ Run img # js'\<rparr>)"
| other_finish: "lp_others s = js @ Run img # js' \<Longrightarrow> loop_step s ((finish_job env img orig s)\<lparr>lp_others := js @ js'\<rparr>)"
| other_busy: "lp_others s = js @ Snap img # js' \<Longrightarrow> loop_step s (s\<lparr>lp_others := js @ js'\<rparr>)"

definition loop_start :: "loop_state \<Rightarrow> bool" where
  "loop_start s \<longleftrightarrow> (\<forall>n img. lp_cluster s n = Some img \<longrightarrow> im_name img = n \<and> latest n (lp_events s) = Some (Upserted img)) \<and>
     \<not> lp_signal s \<and> lp_pending s = {} \<and> \<not> lp_wake s \<and> lp_consumer s = Waiting \<and> lp_others s = [] \<and> lp_lost s = {} \<and>
     sw_last (lp_world s) = Map.empty"

inductive loop_reachable :: "loop_state \<Rightarrow> bool" where
  init: "loop_start s \<Longrightarrow> loop_reachable s"
| step: "loop_reachable s \<Longrightarrow> loop_step s s' \<Longrightarrow> loop_reachable s'"

section \<open>What every interleaving keeps\<close>

lemma latest_snoc: "latest n (evs @ [ev]) = (if event_name ev = n then Some ev else latest n evs)"
  by (simp add: latest_def)

lemma latest_Cons: "latest n (ev # evs) = (case latest n evs of Some e \<Rightarrow> Some e | None \<Rightarrow> if event_name ev = n then Some ev else None)"
  by (induction evs rule: rev_induct) (simp_all add: latest_def)

lemma latest_Nil [simp]: "latest n [] = None"
  by (simp add: latest_def)

text \<open>Somebody still has to look at the image, or its current source is the one last attempted.\<close>

definition consumer_owes :: "string \<Rightarrow> workspace_image \<Rightarrow> consumer \<Rightarrow> bool" where
  "consumer_owes n img k = (case k of
     Working ns \<Rightarrow> n \<in> set ns
   | Job j ns \<Rightarrow> n \<in> set ns \<or> j = Snap img \<or> (case j of Run i \<Rightarrow> im_name i = n | Snap i \<Rightarrow> False)
   | _ \<Rightarrow> False)"

definition owed :: "string \<Rightarrow> workspace_image \<Rightarrow> loop_state \<Rightarrow> bool" where
  "owed n img s \<longleftrightarrow> sw_last (lp_world s) n = im_catalog img \<or> n \<in> lp_pending s \<or> consumer_owes n img (lp_consumer s) \<or>
     (\<exists>i. Run i \<in> set (lp_others s) \<and> im_name i = n)"

definition tracked :: "loop_state \<Rightarrow> bool" where
  "tracked s \<longleftrightarrow> (\<forall>n img. lp_cluster s n = Some img \<longrightarrow> im_name img = n \<and>
     (catalog_sync_eligible img \<and> n \<notin> lp_lost s \<longrightarrow>
        (case latest n (lp_events s) of Some ev \<Rightarrow> ev = Upserted img | None \<Rightarrow> owed n img s)))"

definition woken :: "loop_state \<Rightarrow> bool" where
  "woken s \<longleftrightarrow> (lp_pending s \<noteq> {} \<longrightarrow> lp_signal s \<or> lp_wake s \<or> lp_consumer s = Woken)"

lemma on_event_last:
  assumes "on_image_event ev w = (w', queued)"
  shows "n \<noteq> event_name ev \<Longrightarrow> sw_last w' n = sw_last w n"
    "ev = Upserted img \<Longrightarrow> catalog_sync_eligible img \<Longrightarrow> queued = None \<Longrightarrow> sw_last w' (im_name img) = im_catalog img"
    "queued = Some m \<Longrightarrow> w' = w \<and> (\<exists>img. ev = Upserted img \<and> m = im_name img)"
    "ev = Upserted img \<Longrightarrow> catalog_sync_eligible img \<Longrightarrow> queued = Some m \<Longrightarrow> m = im_name img"
  using assms by (auto simp: on_image_event_def forget_source_def source_changed_def split: watch_event.splits if_splits option.splits)

lemma start_job_simps [simp]:
  "lp_cluster (start_job img s) = lp_cluster s" "lp_events (start_job img s) = lp_events s" "lp_signal (start_job img s) = lp_signal s"
  "lp_pending (start_job img s) = lp_pending s" "lp_wake (start_job img s) = lp_wake s" "lp_others (start_job img s) = lp_others s"
  "lp_lost (start_job img s) = lp_lost s" "lp_consumer (start_job img s) = lp_consumer s"
  by (simp_all add: start_job_def split: option.split)

lemma start_job_last: "n \<noteq> im_name img \<Longrightarrow> sw_last (lp_world (start_job img s)) n = sw_last (lp_world s) n"
  by (simp add: start_job_def record_source_def split: option.split)

lemma finish_job_simps [simp]:
  "lp_cluster (finish_job env img orig s) = lp_cluster s" "lp_signal (finish_job env img orig s) = lp_signal s"
  "lp_pending (finish_job env img orig s) = lp_pending s" "lp_wake (finish_job env img orig s) = lp_wake s"
  "lp_others (finish_job env img orig s) = lp_others s" "lp_consumer (finish_job env img orig s) = lp_consumer s"
  "sw_last (lp_world (finish_job env img orig s)) = sw_last (lp_world s)"
  by (simp_all add: finish_job_def Let_def sync_rest_world split: option.split)

text \<open>After a job every other image is as it was, and its own is reported by an event or counted as lost.\<close>

lemma finish_job_other:
  assumes "n \<noteq> im_name img" "\<And>m cur. lp_cluster s m = Some cur \<Longrightarrow> im_name cur = m"
  shows "latest n (lp_events (finish_job env img orig s)) = latest n (lp_events s)"
    "n \<in> lp_lost (finish_job env img orig s) \<longleftrightarrow> n \<in> lp_lost s"
  using assms by (auto simp: finish_job_def Let_def latest_snoc split: option.split)

lemma finish_job_own:
  assumes "lp_cluster s (im_name img) = Some cur" "im_name cur = im_name img" "im_catalog img \<noteq> None"
    and "im_name img \<notin> lp_lost (finish_job env img orig s)"
  shows "latest (im_name img) (lp_events (finish_job env img orig s)) = Some (Upserted cur)"
  using assms by (auto simp: finish_job_def Let_def latest_snoc split: if_splits)

lemma finish_job_lost: "n \<in> lp_lost s \<Longrightarrow> n \<in> lp_lost (finish_job env img orig s)"
  by (auto simp: finish_job_def Let_def split: option.split)

text \<open>Jobs only ever run for images that had a source.\<close>

fun job_image :: "job \<Rightarrow> workspace_image" where
  "job_image (Snap img) = img"
| "job_image (Run img) = img"

definition jobs_sourced :: "loop_state \<Rightarrow> bool" where
  "jobs_sourced s \<longleftrightarrow> (\<forall>j \<in> set (lp_others s). im_catalog (job_image j) \<noteq> None) \<and>
     (\<forall>img ns. lp_consumer s = Job (Run img) ns \<longrightarrow> im_catalog img \<noteq> None)"

lemma jobs_sourced_step: "loop_step s s' \<Longrightarrow> jobs_sourced s \<Longrightarrow> jobs_sourced s'"
  by (induction rule: loop_step.induct) (auto simp: jobs_sourced_def catalog_sync_eligible_def)

lemma woken_step: "loop_step s s' \<Longrightarrow> woken s \<Longrightarrow> woken s'"
  by (induction rule: loop_step.induct) (auto simp: woken_def)

lemma one_run_step:
  assumes "loop_step s s'" "length (filter is_run ((case lp_consumer s of Job j ns \<Rightarrow> [j] | _ \<Rightarrow> []) @ lp_others s)) \<le> 1"
  shows "length (filter is_run ((case lp_consumer s' of Job j ns \<Rightarrow> [j] | _ \<Rightarrow> []) @ lp_others s')) \<le> 1"
  using assms
  by (induction rule: loop_step.induct) (auto simp: running_def list_ex_iff filter_empty_conv split: consumer.splits if_splits)

lemma trackedD:
  assumes "tracked s" "lp_cluster s n = Some img"
  shows "im_name img = n" "catalog_sync_eligible img \<Longrightarrow> n \<notin> lp_lost s \<Longrightarrow> latest n (lp_events s) = Some ev \<Longrightarrow> ev = Upserted img"
    "catalog_sync_eligible img \<Longrightarrow> n \<notin> lp_lost s \<Longrightarrow> latest n (lp_events s) = None \<Longrightarrow> owed n img s"
proof -
  have "im_name img = n \<and> (catalog_sync_eligible img \<and> n \<notin> lp_lost s \<longrightarrow>
      (case latest n (lp_events s) of Some ev \<Rightarrow> ev = Upserted img | None \<Rightarrow> owed n img s))"
    using assms unfolding tracked_def by blast
  then show "im_name img = n" "catalog_sync_eligible img \<Longrightarrow> n \<notin> lp_lost s \<Longrightarrow> latest n (lp_events s) = Some ev \<Longrightarrow> ev = Upserted img"
    "catalog_sync_eligible img \<Longrightarrow> n \<notin> lp_lost s \<Longrightarrow> latest n (lp_events s) = None \<Longrightarrow> owed n img s"
    by auto
qed

lemma trackedI:
  assumes "\<And>n img. lp_cluster s n = Some img \<Longrightarrow> im_name img = n"
    and "\<And>n img ev. lp_cluster s n = Some img \<Longrightarrow> catalog_sync_eligible img \<Longrightarrow> n \<notin> lp_lost s \<Longrightarrow> latest n (lp_events s) = Some ev \<Longrightarrow> ev = Upserted img"
    and "\<And>n img. lp_cluster s n = Some img \<Longrightarrow> catalog_sync_eligible img \<Longrightarrow> n \<notin> lp_lost s \<Longrightarrow> latest n (lp_events s) = None \<Longrightarrow> owed n img s"
  shows "tracked s"
  unfolding tracked_def using assms by (auto split: option.split)

text \<open>A step that touches neither images nor events keeps the bookkeeping if it keeps what is owed.\<close>

lemma tracked_still:
  assumes "tracked s" "lp_cluster s' = lp_cluster s" "lp_events s' = lp_events s" "lp_lost s \<subseteq> lp_lost s'"
    and "\<And>n img. lp_cluster s n = Some img \<Longrightarrow> im_name img = n \<Longrightarrow> n \<notin> lp_lost s' \<Longrightarrow> catalog_sync_eligible img \<Longrightarrow>
      owed n img s \<Longrightarrow> owed n img s'"
  shows "tracked s'"
  unfolding tracked_def
proof (intro allI impI)
  fix n img
  assume "lp_cluster s' n = Some img"
  then have c: "lp_cluster s n = Some img" by (simp add: assms(2))
  from trackedD [OF assms(1) c] assms(3,4) assms(5) [OF c] show "im_name img = n \<and> (catalog_sync_eligible img \<and> n \<notin> lp_lost s' \<longrightarrow>
      (case latest n (lp_events s') of Some ev \<Rightarrow> ev = Upserted img | None \<Rightarrow> owed n img s'))"
    by (auto split: option.split)
qed

lemma tracked_finish:
  assumes t: "tracked s" and c: "im_catalog img \<noteq> None"
    and k: "lp_cluster s' = lp_cluster s" "lp_events s' = lp_events (finish_job env img orig s)" "lp_lost s' = lp_lost (finish_job env img orig s)"
    and o': "\<And>n i. n \<noteq> im_name img \<Longrightarrow> owed n i s \<Longrightarrow> owed n i s'"
  shows "tracked s'"
  unfolding tracked_def
proof (intro allI impI)
  fix n i
  assume "lp_cluster s' n = Some i"
  then have i: "lp_cluster s n = Some i" by (simp add: k)
  note names = trackedD(1) [OF t]
  show "im_name i = n \<and> (catalog_sync_eligible i \<and> n \<notin> lp_lost s' \<longrightarrow>
      (case latest n (lp_events s') of Some ev \<Rightarrow> ev = Upserted i | None \<Rightarrow> owed n i s'))"
  proof (cases "n = im_name img")
    case True
    with finish_job_own [of s img i env orig] i names [OF i] c show ?thesis by (auto simp: k)
  next
    case False
    note other = finish_job_other [OF False, of s env orig, OF names]
    from trackedD [OF t i] o' [OF False, of i] show ?thesis by (auto simp: k other split: option.split)
  qed
qed

lemma tracked_deliver:
  assumes t: "tracked s" and e: "lp_events s = ev # evs" "on_image_event ev (lp_world s) = (w, queued)"
    and k: "lp_cluster s' = lp_cluster s" "lp_events s' = evs" "lp_world s' = w" "lp_lost s' = lp_lost s" "lp_consumer s' = lp_consumer s"
      "lp_others s' = lp_others s" "lp_pending s' = lp_pending s \<union> set_option queued"
  shows "tracked s'"
  unfolding tracked_def
proof (intro allI impI)
  fix n i
  assume "lp_cluster s' n = Some i"
  then have i: "lp_cluster s n = Some i" by (simp add: k)
  note d = trackedD [OF t i]
  have "case latest n evs of Some ev \<Rightarrow> ev = Upserted i | None \<Rightarrow> owed n i s'" if el: "catalog_sync_eligible i" "n \<notin> lp_lost s"
  proof (cases "latest n evs")
    case None
    show ?thesis
    proof (cases "event_name ev = n")
      case True
      with None have "latest n (lp_events s) = Some ev" by (simp add: e latest_Cons)
      with d(2) el have u: "ev = Upserted i" by blast
      show ?thesis
      proof (cases queued)
        case None
        with on_event_last(2) [OF e(2) u el(1)] d(1) \<open>latest n evs = None\<close> show ?thesis by (simp add: owed_def k)
      next
        case (Some m)
        with on_event_last(4) [OF e(2) u el(1)] d(1) \<open>latest n evs = None\<close> show ?thesis by (simp add: owed_def k)
      qed
    next
      case False
      with None have "latest n (lp_events s) = None" by (simp add: e latest_Cons)
      with d(3) el have "owed n i s" by blast
      with on_event_last(1) [OF e(2)] False None show ?thesis by (auto simp: owed_def k)
    qed
  next
    case (Some a)
    then have "latest n (lp_events s) = Some a" by (simp add: e latest_Cons)
    with d(2) el Some show ?thesis by simp
  qed
  with d(1) show "im_name i = n \<and> (catalog_sync_eligible i \<and> n \<notin> lp_lost s' \<longrightarrow>
      (case latest n (lp_events s') of Some ev \<Rightarrow> ev = Upserted i | None \<Rightarrow> owed n i s'))"
    by (simp add: k)
qed

lemma latest_name: "latest n evs = Some (Upserted img) \<Longrightarrow> im_name img = n"
  by (auto simp: latest_def dest: find_SomeD)

lemma tracked_step:
  assumes "loop_step s s'" "tracked s" "jobs_sourced s"
  shows "tracked s'"
  using assms
proof (induction rule: loop_step.induct)
  case (edit s img)
  note d = trackedD [OF edit.prems(1)]
  have same: "owed n i s \<Longrightarrow> owed n i (s\<lparr>lp_cluster := (lp_cluster s)(im_name img \<mapsto> img), lp_events := lp_events s @ [Upserted img]\<rparr>)"
    for n i by (simp add: owed_def)
  show ?case
  proof (rule trackedI, goal_cases)
    case (1 n i)
    with d(1) show ?case by (cases "n = im_name img") simp_all
  next
    case (2 n i ev)
    with d(2) show ?case by (cases "n = im_name img") (simp_all add: latest_snoc)
  next
    case (3 n i)
    then have "n \<noteq> im_name img" "latest n (lp_events s) = None" by (auto simp: latest_snoc split: if_splits)
    with 3 d(3) [of n i] show ?case by (intro same) simp
  qed
next
  case (delete s n)
  note d = trackedD [OF delete.prems(1)]
  show ?case
    by (rule trackedI) (use d in \<open>auto simp: latest_snoc owed_def split: if_splits\<close>)
next
  case (relist s evs)
  then show ?case by (auto simp: tracked_def dest: latest_name)
next
  case (deliver s ev evs w)
  show ?case by (rule tracked_deliver [of s ev evs w None]) (use deliver in simp_all)
next
  case (enqueue s ev evs w n)
  show ?case by (rule tracked_deliver [of s ev evs w "Some n"]) (use enqueue in simp_all)
next
  case (skip s img ns)
  show ?case
  proof (rule tracked_still [OF skip.prems(1)])
    fix n i
    assume "lp_cluster s n = Some i" "im_name i = n" "catalog_sync_eligible i" "owed n i s"
    then show "owed n i (s\<lparr>lp_consumer := Working ns\<rparr>)"
      using skip.hyps by (auto simp: owed_def consumer_owes_def source_changed_def split: option.splits)
  qed simp_all
next
  case (start s img ns)
  show ?case
  proof (rule tracked_still [OF start.prems(1)])
    fix n i
    assume "lp_cluster s n = Some i" "im_name i = n" "catalog_sync_eligible i" "owed n i s"
    then show "owed n i ((start_job img s)\<lparr>lp_consumer := Job (Run img) ns\<rparr>)"
      using start.hyps start_job_last [of n img s] by (cases "n = im_name img") (auto simp: owed_def consumer_owes_def)
  qed simp_all
next
  case (finish s img ns env orig)
  then have c: "im_catalog img \<noteq> None" by (auto simp: jobs_sourced_def)
  show ?case
    by (rule tracked_finish [OF finish.prems(1) c, where env = env and orig = orig])
      (use finish.hyps in \<open>auto simp: owed_def consumer_owes_def\<close>)
next
  case (other_start s js img js')
  show ?case
  proof (rule tracked_still [OF other_start.prems(1)])
    fix n i
    assume "lp_cluster s n = Some i" "im_name i = n" "catalog_sync_eligible i" "owed n i s"
    then show "owed n i ((start_job img s)\<lparr>lp_others := js @ Run img # js'\<rparr>)"
      using other_start.hyps start_job_last [of n img s] by (cases "n = im_name img") (auto simp: owed_def)
  qed simp_all
next
  case (other_finish s js img js' env orig)
  then have c: "im_catalog img \<noteq> None" by (auto simp: jobs_sourced_def)
  show ?case
    by (rule tracked_finish [OF other_finish.prems(1) c, where env = env and orig = orig])
      (use other_finish.hyps in \<open>auto simp: owed_def\<close>)
qed (rule tracked_still, assumption, auto simp: owed_def consumer_owes_def)+

lemma loop_invariants: "loop_reachable s \<Longrightarrow> tracked s \<and> jobs_sourced s \<and> woken s"
proof (induction rule: loop_reachable.induct)
  case (init s)
  then show ?case by (auto simp: loop_start_def tracked_def jobs_sourced_def woken_def)
next
  case (step s s')
  then show ?case using tracked_step jobs_sourced_step woken_step by blast
qed

text \<open>Two syncs never overlap.\<close>

lemma one_sync_at_a_time:
  "loop_reachable s \<Longrightarrow> length (filter is_run ((case lp_consumer s of Job j ns \<Rightarrow> [j] | _ \<Rightarrow> []) @ lp_others s)) \<le> 1"
proof (induction rule: loop_reachable.induct)
  case (init s)
  then show ?case by (simp add: loop_start_def)
next
  case (step s s')
  show ?case by (rule one_run_step [OF step.hyps(2) step.IH])
qed

text \<open>C15: The image catalogs converge. However edits, deletions, lost watch connections, ticks, forced syncs and the steps of the
  watch and its consumer interleave: once every event is delivered, no wake-up is left and nobody is syncing,
  no name is still queued, and the source last attempted for every eligible image is its current one, unless a
  read of it failed or a sync changed nothing in its status. From then on an event that carries the image
  unchanged queues nothing, so a failing source is not retried in a loop.
\<close>

theorem catalog_converges:
  assumes "loop_reachable s" "lp_events s = []" "\<not> lp_signal s" "\<not> lp_wake s" "lp_consumer s = Waiting" "lp_others s = []"
    and "lp_cluster s n = Some img" "catalog_sync_eligible img" "n \<notin> lp_lost s"
  shows "lp_pending s = {} \<and> sw_last (lp_world s) n = im_catalog img \<and>
    on_image_event (Upserted img) (lp_world s) = (lp_world s, None)"
proof -
  from loop_invariants [OF assms(1)] have t: "tracked s" and w: "woken s" by blast+
  have p: "lp_pending s = {}" using w assms(3-5) by (auto simp: woken_def)
  have "owed n img s" by (rule trackedD(3) [OF t assms(7-9)]) (simp add: assms(2))
  with p assms(5,6) have l: "sw_last (lp_world s) n = im_catalog img" by (simp add: owed_def consumer_owes_def)
  moreover obtain c where "im_catalog img = Some c" using assms(8) by (auto simp: catalog_sync_eligible_def)
  ultimately show ?thesis
    using p trackedD(1) [OF t assms(7)] assms(8) by (auto simp: on_image_event_def source_changed_def)
qed

section \<open>Concrete instances\<close>

definition demo_catalog_source :: image_catalog where
  "demo_catalog_source = \<lparr>ic_from = \<lparr>src_url = ''https://r/c.yaml'', src_config_map = None, src_secret = None\<rparr>, ic_bearer_secret = None\<rparr>"

definition demo_image :: workspace_image where
  "demo_image = \<lparr>im_name = ''reg'', im_display_name = [], im_description = [], im_image = [], im_registry = ''r'', im_tag_policy = [],
     im_protocols = [], im_architectures = [], im_enabled = True, im_allowed_groups = [], im_image_pull_secret_ref = [],
     im_resources = None, im_catalog = Some demo_catalog_source\<rparr>"

definition demo_entry :: "string \<Rightarrow> manifest_entry" where
  "demo_entry ref = \<lparr>me_image = ref, me_os = ''beos'', me_app = ''firefox'', me_version = ''1'', me_icon = [], me_display_name = [],
     me_description = [], me_profile = ''hardened'', me_architectures = [''arm64'', ''riscv'', ''arm64''], me_recommended = None\<rparr>"

text \<open>A source that publishes \<open>refs\<close>, or does not answer.\<close>

definition demo_sync :: "string list option \<Rightarrow> sync_env" where
  "demo_sync refs = \<lparr>sy_namespace = ''waas'', sy_get_config_map = (\<lambda>_. Missing), sy_get_secret = (\<lambda>_. Missing),
     sy_http = (\<lambda>_ _. if refs = None then NoAnswer else HttpAnswer 200 (Some ''m'')),
     sy_unmarshal = (\<lambda>_. map_option (\<lambda>rs. \<lparr>mf_api_version = catalog_api_version, mf_images = map demo_entry rs\<rparr>) refs),
     sy_json = (\<lambda>_. None), sy_store_ok = True, sy_patch_ok = True, sy_now = 7\<rparr>"

lemma demo_fetched:
  "fetch_and_parse (demo_sync (Some refs)) demo_catalog_source = Inr (map demo_entry refs, source_fetched)"
  "fetch_and_parse (demo_sync None) demo_catalog_source = Inl (SourceError [''fetching catalog''])"
  by (simp_all add: fetch_and_parse_def demo_catalog_source_def fetch_manifest_def demo_sync_def bearer_header_def parse_manifest_def)

lemma demo_flags [simp]: "sy_store_ok (demo_sync refs)" "sy_patch_ok (demo_sync refs)" "sy_now (demo_sync refs) = 7"
  by (simp_all add: demo_sync_def)

definition demo_world :: sync_world where
  "demo_world = \<lparr>sw_rows = [], sw_status = [''reg'' \<mapsto> no_status], sw_last = Map.empty\<rparr>"

lemma demo_eligible: "catalog_sync_eligible demo_image" "im_name demo_image = ''reg''" "im_catalog demo_image = Some demo_catalog_source"
  by (simp_all add: demo_image_def catalog_sync_eligible_def)

theorem catalog_table_well_formed_witness:
  "catalog_well_formed (sw_rows (fold run_call
     [Tick (\<lambda>_. demo_sync (Some [''a'', ''b''])) (Some [(demo_image, no_status)]), Observe (Deleted ''reg'')] demo_world))"
  by (rule catalog_table_well_formed) (simp add: demo_world_def catalog_well_formed_def)

theorem stale_but_served_witness:
  "sw_status (snd (sync_locked (demo_sync None) ''reg'' demo_catalog_source no_status demo_world)) ''reg'' =
     Some (no_status\<lparr>cst_error := Some (SourceError [''fetching catalog''])\<rparr>)"
  using stale_but_served [of "''reg''" "\<lambda>_. 0" True "demo_sync None" demo_catalog_source no_status demo_world]
  by (simp add: demo_fetched demo_world_def)

definition silent_image :: workspace_image where "silent_image = demo_image\<lparr>im_name := ''down''\<rparr>"

theorem no_source_blocks_another_witness:
  "list_entries (\<lambda>_. 0) True ''reg'' (sw_rows (sync_all (\<lambda>n. if n = ''reg'' then demo_sync (Some [''a'']) else demo_sync None)
     (Some [(silent_image, no_status), (demo_image, no_status)]) demo_world)) = Some [synced_entry (demo_sync (Some [''a''])) (demo_entry ''a'')]"
proof -
  let ?env = "\<lambda>n. if n = ''reg'' then demo_sync (Some [''a'']) else demo_sync None"
  have "im_name silent_image \<noteq> im_name demo_image" by (simp add: silent_image_def demo_image_def)
  then show ?thesis
    using no_source_blocks_another [of "[(silent_image, no_status), (demo_image, no_status)]" demo_image no_status demo_catalog_source ?env
        "[demo_entry ''a'']" source_fetched "\<lambda>_. 0" demo_world]
    by (simp add: demo_eligible demo_fetched)
qed

text \<open>One image, from its first event to rest: queued, woken, drained, read, synced, and the event of its own patch ignored.\<close>

definition demo_loop :: "watch_event list \<Rightarrow> bool \<Rightarrow> string set \<Rightarrow> bool \<Rightarrow> consumer \<Rightarrow> sync_world \<Rightarrow> loop_state" where
  "demo_loop evs sig pend wk k w = \<lparr>lp_cluster = [''reg'' \<mapsto> demo_image], lp_events = evs, lp_signal = sig, lp_pending = pend,
     lp_wake = wk, lp_consumer = k, lp_others = [], lp_world = w, lp_lost = {}\<rparr>"

definition demo_recorded :: sync_world where
  "demo_recorded = record_source ''reg'' demo_catalog_source demo_world"

definition demo_synced :: sync_world where
  "demo_synced = snd (sync_rest (demo_sync (Some [''a''])) ''reg'' demo_catalog_source no_status demo_recorded)"

lemma demo_synced_status: "sw_status demo_synced ''reg'' \<noteq> sw_status demo_recorded ''reg''"
  by (simp add: demo_synced_def sync_rest_stored demo_fetched write_status_def demo_recorded_def record_source_def demo_world_def
      patch_status_def no_status_def source_fetched_def)

lemma demo_synced_last: "sw_last demo_synced = [''reg'' \<mapsto> demo_catalog_source]"
  by (simp add: demo_synced_def sync_rest_world demo_recorded_def record_source_def demo_world_def)

lemma demo_event: "on_image_event (Upserted demo_image) demo_world = (demo_world, Some ''reg'')"
  "on_image_event (Upserted demo_image) demo_synced = (demo_synced, None)"
  by (simp_all add: on_image_event_def demo_eligible source_changed_def demo_synced_last) (simp add: demo_world_def)

lemma demo_run: "loop_reachable (demo_loop [] False {} False Waiting demo_synced)"
proof -
  let ?ev = "Upserted demo_image"
  note d = demo_loop_def
  have "loop_reachable (demo_loop [?ev] False {} False Waiting demo_world)"
    by (rule loop_reachable.init) (simp add: loop_start_def d demo_eligible latest_Cons demo_world_def)
  then have "loop_reachable (demo_loop [] True {''reg''} False Waiting demo_world)"
    using loop_step.enqueue [of "demo_loop [?ev] False {} False Waiting demo_world" ?ev "[]" demo_world "''reg''"] demo_event
    by (auto simp: d intro: loop_reachable.step)
  then have "loop_reachable (demo_loop [] False {''reg''} True Waiting demo_world)"
    using loop_step.signal [of "demo_loop [] True {''reg''} False Waiting demo_world"] by (auto simp: d intro: loop_reachable.step)
  then have "loop_reachable (demo_loop [] False {''reg''} False Woken demo_world)"
    using loop_step.wake [of "demo_loop [] False {''reg''} True Waiting demo_world"] by (auto simp: d intro: loop_reachable.step)
  then have "loop_reachable (demo_loop [] False {} False (Working [''reg'']) demo_world)"
    using loop_step.drain [of "demo_loop [] False {''reg''} False Woken demo_world" "[''reg'']"] by (auto simp: d intro: loop_reachable.step)
  then have "loop_reachable (demo_loop [] False {} False (Job (Snap demo_image) []) demo_world)"
    using loop_step.read [of "demo_loop [] False {} False (Working [''reg'']) demo_world" "''reg''" "[]" demo_image]
    by (auto simp: d intro: loop_reachable.step)
  then have "loop_reachable (demo_loop [] False {} False (Job (Run demo_image) []) demo_recorded)"
    using loop_step.start [of "demo_loop [] False {} False (Job (Snap demo_image) []) demo_world" demo_image "[]"]
    by (auto simp: d running_def start_job_def demo_eligible source_changed_def demo_recorded_def demo_world_def intro: loop_reachable.step)
  then have "loop_reachable (demo_loop [?ev] False {} False (Working []) demo_synced)"
    using loop_step.finish [of "demo_loop [] False {} False (Job (Run demo_image) []) demo_recorded" demo_image "[]"
        "demo_sync (Some [''a''])" no_status] demo_synced_status
    by (auto simp: d finish_job_def Let_def demo_eligible simp flip: demo_synced_def intro: loop_reachable.step)
  then have "loop_reachable (demo_loop [?ev] False {} False Waiting demo_synced)"
    using loop_step.drained [of "demo_loop [?ev] False {} False (Working []) demo_synced"] by (auto simp: d intro: loop_reachable.step)
  then show ?thesis
    using loop_step.deliver [of "demo_loop [?ev] False {} False Waiting demo_synced" ?ev "[]" demo_synced] demo_event
    by (auto simp: d intro: loop_reachable.step)
qed

theorem catalog_converges_witness:
  "sw_last (lp_world (demo_loop [] False {} False Waiting demo_synced)) ''reg'' = Some demo_catalog_source \<and>
   on_image_event (Upserted demo_image) demo_synced = (demo_synced, None)"
  using catalog_converges [OF demo_run, of "''reg''" demo_image] by (simp add: demo_loop_def demo_eligible)

end
