(* ===== verification/Template_Service.thy ===== *)
theory Template_Service
  imports Template_Webhook Portal
begin

text \<open>
  The template service of the API server (\<open>service/template_service.go\<close>): the payload of the editor, its checks, its
  translation to a template object and back, and the requests. Parsing and printing quantities and the check of
  object names belong to libraries of Kubernetes and are parameters. A map of strings is the list of its
  entries in the order they are visited. The checks repeat those of the admission webhook in another order.
\<close>

section \<open>The payload\<close>

definition overridable_field_name :: "overridable_field \<Rightarrow> string" where
  "overridable_field_name f = (case f of
     FieldEnv \<Rightarrow> ''env'' | FieldSecurityContext \<Rightarrow> ''securityContext'' | FieldPodSecurityContext \<Rightarrow> ''podSecurityContext''
   | FieldVolumes \<Rightarrow> ''volumes'' | FieldNodeSelector \<Rightarrow> ''nodeSelector'' | FieldTolerations \<Rightarrow> ''tolerations''
   | FieldResources \<Rightarrow> ''resources'' | FieldProtocol \<Rightarrow> ''protocol'' | FieldProtocolParams \<Rightarrow> ''protocolParams''
   | FieldSchedule \<Rightarrow> ''schedule'' | FieldPlacement \<Rightarrow> ''placement'' | FieldMetadata \<Rightarrow> ''metadata'')"

definition field_of_name :: "string \<Rightarrow> overridable_field option" where
  "field_of_name n = find (\<lambda>f. overridable_field_name f = n) all_overridable_fields"

record template_protocol_input =
  pi_name :: string
  pi_port :: int
  pi_default :: bool
  pi_params :: "(string \<times> string) list"
  pi_user_params :: "string list"
  pi_credentials_secret_ref :: string
  pi_expose_audio_port :: bool

record template_overrides_input =
  oi_allowed_fields :: "string list"
  oi_owner :: string

record template_input =
  ti_name :: string
  ti_display_name :: string
  ti_description :: string
  ti_logo :: string
  ti_os :: string
  ti_image :: string
  ti_port :: int
  ti_home_size :: string
  ti_home_mount_path :: string
  ti_kasmvnc_config :: string
  ti_storage_class_name :: string
  ti_requests :: "(string \<times> string) list"
  ti_limits :: "(string \<times> string) list"
  ti_env :: "env_var list"
  ti_workload :: "workspace_workload option"
  ti_protocols :: "template_protocol_input list"
  ti_overrides :: "template_overrides_input option"
  ti_schedule :: "workspace_schedule option"
  ti_placement :: "workspace_placement option"
  ti_home_volume :: "workspace_home_volume option"

record quantity_lib =
  ql_parse :: "string \<Rightarrow> quantity option"
  ql_string :: "quantity \<Rightarrow> string"

fun resource_loop :: "quantity_lib \<Rightarrow> (string \<times> string) list \<Rightarrow> (string \<rightharpoonup> quantity) \<Rightarrow> api_error + (string \<rightharpoonup> quantity)" where
  "resource_loop lib [] out = Inr out"
| "resource_loop lib ((n, v) # rest) out =
     (case ql_parse lib v of
        None \<Rightarrow> Inl (BadRequest [''invalid quantity'', v, n])
      | Some q \<Rightarrow> resource_loop lib rest (out(n \<mapsto> q)))"

definition resource_list :: "quantity_lib \<Rightarrow> (string \<times> string) list \<Rightarrow> api_error + (string \<rightharpoonup> quantity)" where
  "resource_list lib entries = resource_loop lib entries Map.empty"

section \<open>From the payload to the template\<close>

definition protocol_from_input :: "template_protocol_input \<Rightarrow> workspace_protocol" where
  "protocol_from_input p =
     \<lparr>wp_name = pi_name p, wp_port = pi_port p, wp_default = pi_default p, wp_params = pi_params p, wp_user_params = pi_user_params p,
      wp_expose_audio_port = pi_expose_audio_port p, wp_credentials_secret_ref = pi_credentials_secret_ref p\<rparr>"

definition check_protocol_input :: "string \<Rightarrow> string set \<Rightarrow> template_protocol_input \<Rightarrow> api_error option" where
  "check_protocol_input os seen p =
     (if pi_name p = [] \<or> pi_port p \<le> 0 then Some (BadRequest [''each protocol needs a name and a port''])
      else if pi_name p \<in> seen then Some (BadRequest [''protocol is declared twice'', pi_name p])
      else if validate_template_params (pi_name p) (pi_params p) \<noteq> None then Some (BadRequest [''protocols.params'', pi_name p])
      else if validate_user_param_names (pi_name p) (pi_user_params p) \<noteq> None then Some (BadRequest [''protocols.userParams'', pi_name p])
      else if pi_name p = ''kasmvnc'' \<and> os = os_windows then Some (BadRequest [''protocol kasmvnc is not available on windows templates''])
      else if pi_name p = ''rdp'' \<and> os \<noteq> os_windows then Some (BadRequest [''protocol rdp is only available on windows templates''])
      else if pi_expose_audio_port p \<and> pi_name p \<noteq> ''vnc'' then Some (BadRequest [''protocols.exposeAudioPort'', pi_name p])
      else None)"

text \<open>The loop over the protocols, with the names seen; it ends with all of them.\<close>

fun protocols_from_input :: "string \<Rightarrow> string set \<Rightarrow> template_protocol_input list \<Rightarrow> api_error + string set \<times> workspace_protocol list" where
  "protocols_from_input os seen [] = Inr (seen, [])"
| "protocols_from_input os seen (p # ps) =
     (case check_protocol_input os seen p of
        Some e \<Rightarrow> Inl e
      | None \<Rightarrow> (case protocols_from_input os (insert (pi_name p) seen) ps of
          Inl e \<Rightarrow> Inl e
        | Inr (names, out) \<Rightarrow> Inr (names, protocol_from_input p # out)))"

definition check_config_input :: "'l template_libs \<Rightarrow> string \<Rightarrow> workspace_protocol list \<Rightarrow> api_error option" where
  "check_config_input libs config protos =
     (if config = [] then None
      else if \<not> list_ex (\<lambda>p. wp_name p = ''kasmvnc'') protos then Some (BadRequest [''kasmvncConfig requires a kasmvnc protocol entry''])
      else case policy_managed_clipboard_keys (tl_yaml libs) config of
        None \<Rightarrow> Some (BadRequest [''kasmvncConfig is not valid YAML''])
      | Some bad \<Rightarrow> fail_if (bad \<noteq> []) (BadRequest (''kasmvncConfig must not set'' # bad)))"

fun fields_from_input :: "string list \<Rightarrow> api_error + overridable_field list" where
  "fields_from_input [] = Inr []"
| "fields_from_input (n # ns) =
     (case field_of_name n of
        None \<Rightarrow> Inl (BadRequest [''unknown overridable field'', n])
      | Some f \<Rightarrow> (case fields_from_input ns of Inl e \<Rightarrow> Inl e | Inr fs \<Rightarrow> Inr (f # fs)))"

definition meta_input :: "string \<Rightarrow> (string \<times> string) list \<Rightarrow> api_error option" where
  "meta_input what m = (if check_meta m = None then None else Some (BadRequest [what]))"

definition check_blocks_input :: "'l template_libs \<Rightarrow> template_input \<Rightarrow> api_error option" where
  "check_blocks_input libs inp = first_failure
     ([case ti_schedule inp of
         None \<Rightarrow> None
       | Some sc \<Rightarrow> fail_if (validate_schedule (tl_cron libs)
           \<lparr>timezone = sch_timezone sc, uptime = sch_uptime sc, downtime = sch_downtime sc\<rparr> \<noteq> None) (BadRequest [''schedule''])] @
      (case ti_placement inp of
         None \<Rightarrow> []
       | Some p \<Rightarrow> [fail_if (pl_namespace p \<noteq> [] \<and> validate_pattern (tl_text libs) (pl_namespace p) \<noteq> None)
             (BadRequest [''placement.namespace'']),
           meta_input ''placement.namespaceLabels'' (pl_namespace_labels p),
           meta_input ''placement.namespaceAnnotations'' (pl_namespace_annotations p)]) @
      (case ti_workload inp of
         None \<Rightarrow> []
       | Some w \<Rightarrow> [meta_input ''workload.labels'' (wl_labels w), meta_input ''workload.annotations'' (wl_annotations w)]) @
      (case ti_home_volume inp of
         None \<Rightarrow> []
       | Some hv \<Rightarrow> [meta_input ''homeVolume.labels'' (hv_labels hv), meta_input ''homeVolume.annotations'' (hv_annotations hv)]))"

text \<open>The fields before the protocols.\<close>

definition base_from_input :: "quantity_lib \<Rightarrow> template_input \<Rightarrow> api_error + template_spec" where
  "base_from_input ql inp =
     (if ti_display_name inp = [] \<or> ti_image inp = [] then Inl (BadRequest [''displayName and image are required''])
      else if ti_os inp \<noteq> os_linux \<and> ti_os inp \<noteq> os_windows then Inl (BadRequest [''os must be linux or windows''])
      else if ti_home_mount_path inp \<noteq> [] \<and> \<not> has_prefix (ti_home_mount_path inp) ''/''
      then Inl (BadRequest [''homeMountPath must be an absolute path''])
      else if ti_home_size inp \<noteq> [] \<and> ql_parse ql (ti_home_size inp) = None then Inl (BadRequest [''homeSize must be a valid quantity''])
      else case resource_list ql (ti_requests inp) of
        Inl e \<Rightarrow> Inl e
      | Inr requests \<Rightarrow> (case resource_list ql (ti_limits inp) of
          Inl e \<Rightarrow> Inl e
        | Inr limits \<Rightarrow> Inr
            \<lparr>ts_display_name = ti_display_name inp, ts_description = ti_description inp, ts_logo = ti_logo inp, ts_os = ti_os inp,
             ts_image = ti_image inp, ts_port = ti_port inp, ts_resources = \<lparr>rr_limits = limits, rr_requests = requests\<rparr>,
             ts_home_size = (if ti_home_size inp = [] then None else ql_parse ql (ti_home_size inp)),
             ts_home_mount_path = ti_home_mount_path inp, ts_kasmvnc_config = ti_kasmvnc_config inp,
             ts_storage_class_name = (if ti_storage_class_name inp = [] then None else Some (ti_storage_class_name inp)),
             ts_env = ti_env inp, ts_workload = ti_workload inp, ts_home_volume = ti_home_volume inp, ts_protocols = [],
             ts_overrides = None, ts_schedule = ti_schedule inp, ts_placement = ti_placement inp\<rparr>))"

definition overrides_from_input :: "template_input \<Rightarrow> api_error + template_overrides option" where
  "overrides_from_input inp =
     (case ti_overrides inp of
        None \<Rightarrow> Inr None
      | Some v \<Rightarrow> (case fields_from_input (oi_allowed_fields v) of
          Inl e \<Rightarrow> Inl e
        | Inr fs \<Rightarrow> Inr (Some \<lparr>to_allowed_fields = fs, to_owner = oi_owner v\<rparr>)))"

definition spec_from_input :: "'l template_libs \<Rightarrow> quantity_lib \<Rightarrow> template_input \<Rightarrow> api_error + template_spec" where
  "spec_from_input libs ql inp =
     (case base_from_input ql inp of
        Inl e \<Rightarrow> Inl e
      | Inr base \<Rightarrow> (case protocols_from_input (ti_os inp) {} (ti_protocols inp) of
          Inl e \<Rightarrow> Inl e
        | Inr (seen, protos) \<Rightarrow>
           (let spec = base\<lparr>ts_protocols := protos\<rparr> in
            if 1 < length (filter pi_default (ti_protocols inp)) then Inl (BadRequest [''at most one protocol may be marked default''])
            else if ''kasmvnc'' \<in> seen \<and> 1 < card seen then Inl (BadRequest [''protocol kasmvnc cannot be combined with vnc/rdp''])
            else if audio_port_exposed spec \<and> list_ex (\<lambda>p. wp_port p = pulse_audio_port) protos
            then Inl (BadRequest [''protocols.port: collides with the exposed PulseAudio port''])
            else case check_config_input libs (ti_kasmvnc_config inp) protos of
              Some e \<Rightarrow> Inl e
            | None \<Rightarrow> (case overrides_from_input inp of
                Inl e \<Rightarrow> Inl e
              | Inr ov \<Rightarrow> (case check_blocks_input libs inp of
                  Some e \<Rightarrow> Inl e
                | None \<Rightarrow> Inr (spec\<lparr>ts_overrides := ov\<rparr>))))))"

section \<open>The portal agrees with the webhook\<close>

lemma check_protocol_input_None:
  "check_protocol_input os seen p = None \<longleftrightarrow>
     pi_name p \<noteq> [] \<and> 0 < pi_port p \<and> check_entry os seen (protocol_from_input p) = None"
  by (auto simp: check_protocol_input_def check_entry_None entry_ok_def protocol_from_input_def)

lemma protocols_from_input_iff:
  "protocols_from_input os seen ps = Inr (names, out) \<longleftrightarrow>
     (\<forall>p \<in> set ps. pi_name p \<noteq> [] \<and> 0 < pi_port p) \<and> out = map protocol_from_input ps \<and> check_entries os seen out = Inr names"
proof (induction os seen ps arbitrary: names out rule: protocols_from_input.induct)
  case (2 os seen p ps)
  have n: "wp_name (protocol_from_input p) = pi_name p" by (simp add: protocol_from_input_def)
  show ?case
  proof (cases "check_protocol_input os seen p")
    case None
    with check_protocol_input_None [of os seen p] have ok: "pi_name p \<noteq> []" "0 < pi_port p" "check_entry os seen (protocol_from_input p) = None"
      by simp_all
    show ?thesis
    proof (cases "protocols_from_input os (insert (pi_name p) seen) ps")
      case (Inl e)
      with 2 [OF None, of names "map protocol_from_input ps"] None ok n show ?thesis by auto
    next
      case (Inr r)
      with 2 [OF None, of "fst r" "snd r"] 2 [OF None, of names "snd r"] None ok n show ?thesis by (cases r) auto
    qed
  next
    case (Some e)
    with check_protocol_input_None [of os seen p] show ?thesis by (auto split: option.splits)
  qed
qed auto

lemma protocols_from_input_error: "protocols_from_input os seen ps = Inl e \<Longrightarrow> status_of e = 400"
  by (induction os seen ps rule: protocols_from_input.induct)
    (auto simp: check_protocol_input_def split: if_splits option.splits sum.splits prod.splits)

lemma meta_input_None [simp]: "meta_input what m = None \<longleftrightarrow> check_meta m = None"
  by (simp add: meta_input_def)

lemma resource_loop_error: "resource_loop ql es out = Inl e \<Longrightarrow> status_of e = 400"
  by (induction ql es out rule: resource_loop.induct) (auto split: option.splits)

lemma base_from_input_error: "base_from_input ql inp = Inl e \<Longrightarrow> status_of e = 400"
  by (auto simp: base_from_input_def resource_list_def split: if_splits sum.splits dest: resource_loop_error)

lemma fields_from_input_error: "fields_from_input ns = Inl e \<Longrightarrow> status_of e = 400"
  by (induction ns) (auto split: option.splits sum.splits)

lemma first_failure_Some: "first_failure xs = Some e \<Longrightarrow> Some e \<in> set xs"
  by (auto simp: first_failure_def split: option.splits dest: find_SomeD)

lemma meta_input_error: "meta_input what m = Some e \<Longrightarrow> status_of e = 400"
  by (auto simp: meta_input_def split: if_splits)

lemma fail_if_error: "fail_if b (BadRequest d) = Some e \<Longrightarrow> status_of e = 400"
  by (auto simp: fail_if_def split: if_splits)

lemma check_blocks_error: "check_blocks_input libs inp = Some e \<Longrightarrow> status_of e = 400"
  unfolding check_blocks_input_def
  by (drule first_failure_Some, cases "ti_schedule inp"; cases "ti_placement inp"; cases "ti_workload inp"; cases "ti_home_volume inp")
    (auto dest: meta_input_error fail_if_error [OF sym] meta_input_error [OF sym])

lemma config_error: "check_config_input libs c ps = Some e \<Longrightarrow> status_of e = 400"
  by (auto simp: check_config_input_def fail_if_def split: if_splits option.splits)

lemma base_fields:
  assumes "base_from_input ql inp = Inr base"
  shows "ts_os base = ti_os inp" "ts_kasmvnc_config base = ti_kasmvnc_config inp" "ts_workload base = ti_workload inp"
    "ts_home_volume base = ti_home_volume inp" "ts_schedule base = ti_schedule inp" "ts_placement base = ti_placement inp"
  using assms by (auto simp: base_from_input_def split: if_splits sum.splits)

text \<open>The template a payload stands for, when its own fields can be read at all.\<close>

definition readable_payload :: "quantity_lib \<Rightarrow> template_input \<Rightarrow> template_spec \<Rightarrow> bool" where
  "readable_payload ql inp s \<longleftrightarrow> (\<forall>p \<in> set (ti_protocols inp). pi_name p \<noteq> [] \<and> 0 < pi_port p) \<and>
     (\<exists>base ov. base_from_input ql inp = Inr base \<and> overrides_from_input inp = Inr ov \<and>
        s = base\<lparr>ts_protocols := map protocol_from_input (ti_protocols inp), ts_overrides := ov\<rparr>)"

lemma config_checks:
  assumes "names = wp_name ` set protos"
  shows "check_config_input libs c protos = None \<longleftrightarrow> (c \<noteq> [] \<longrightarrow> ''kasmvnc'' \<in> names) \<and> check_kasm_config libs c = None"
proof -
  have "list_ex (\<lambda>p. wp_name p = ''kasmvnc'') protos \<longleftrightarrow> ''kasmvnc'' \<in> names" unfolding assms list_ex_iff by force
  then show ?thesis by (simp add: check_config_input_def check_kasm_config_def split: option.split)
qed

lemma blocks_checks:
  "check_blocks_input libs inp = None \<longleftrightarrow>
     (\<forall>sc. ti_schedule inp = Some sc \<longrightarrow>
        validate_schedule (tl_cron libs) \<lparr>timezone = sch_timezone sc, uptime = sch_uptime sc, downtime = sch_downtime sc\<rparr> = None) \<and>
     (\<forall>p. ti_placement inp = Some p \<longrightarrow> list_all (\<lambda>d. d = None) (check_placement libs p)) \<and>
     (\<forall>w. ti_workload inp = Some w \<longrightarrow> check_meta (wl_labels w) = None \<and> check_meta (wl_annotations w) = None) \<and>
     (\<forall>hv. ti_home_volume inp = Some hv \<longrightarrow> check_meta (hv_labels hv) = None \<and> check_meta (hv_annotations hv) = None)"
  unfolding check_blocks_input_def first_failure_None
  by (cases "ti_schedule inp"; cases "ti_placement inp"; cases "ti_workload inp"; cases "ti_home_volume inp") (auto simp: check_placement_def)

lemma validate_template_iff:
  "validate_template libs s = None \<longleftrightarrow> (\<exists>seen. check_entries (ts_os s) {} (ts_protocols s) = Inr seen \<and>
     (audio_port_exposed s \<longrightarrow> \<not> list_ex (\<lambda>p. wp_port p = pulse_audio_port) (ts_protocols s)) \<and>
     \<not> 1 < length (filter wp_default (ts_protocols s)) \<and> \<not> (''kasmvnc'' \<in> seen \<and> 1 < card seen) \<and>
     \<not> (ts_kasmvnc_config s \<noteq> [] \<and> ''kasmvnc'' \<notin> seen) \<and> check_kasm_config libs (ts_kasmvnc_config s) = None \<and>
     (\<forall>sc. ts_schedule s = Some sc \<longrightarrow>
        validate_schedule (tl_cron libs) \<lparr>timezone = sch_timezone sc, uptime = sch_uptime sc, downtime = sch_downtime sc\<rparr> = None) \<and>
     (\<forall>p. ts_placement s = Some p \<longrightarrow> list_all (\<lambda>d. d = None) (check_placement libs p)) \<and>
     (\<forall>w. ts_workload s = Some w \<longrightarrow> check_meta (wl_labels w) = None \<and> check_meta (wl_annotations w) = None) \<and>
     (\<forall>hv. ts_home_volume s = Some hv \<longrightarrow> check_meta (hv_labels hv) = None \<and> check_meta (hv_annotations hv) = None))"
proof (cases "check_entries (ts_os s) {} (ts_protocols s)")
  case (Inr seen)
  have a: "(if audio_port_exposed s then map_option (\<lambda>e. AudioPortCollision (wp_name e)) (find (\<lambda>e. wp_port e = pulse_audio_port) (ts_protocols s))
      else None) = None \<longleftrightarrow> (audio_port_exposed s \<longrightarrow> \<not> list_ex (\<lambda>p. wp_port p = pulse_audio_port) (ts_protocols s))"
    by (auto simp: find_None_iff list_ex_iff)
  show ?thesis
    unfolding validate_template_def Inr sum.case first_failure_None
    by (cases "ts_schedule s"; cases "ts_placement s"; cases "ts_workload s"; cases "ts_home_volume s")
      (simp_all add: a check_placement_def)
qed (simp add: validate_template_def)

lemma spec_from_input_error: "spec_from_input libs ql inp = Inl e \<Longrightarrow> status_of e = 400"
  by (auto simp: spec_from_input_def Let_def overrides_from_input_def split: sum.splits prod.splits if_splits option.splits
      dest: base_from_input_error protocols_from_input_error config_error fields_from_input_error check_blocks_error)

text \<open>What follows once the fields, the protocols and the override rights are read.\<close>

lemma spec_from_input_read:
  assumes "base_from_input ql inp = Inr base" "protocols_from_input (ti_os inp) {} (ti_protocols inp) = Inr (seen, protos)"
    and "overrides_from_input inp = Inr ov"
  shows "spec_from_input libs ql inp = Inr s \<longleftrightarrow> s = base\<lparr>ts_protocols := protos, ts_overrides := ov\<rparr> \<and>
    \<not> 1 < length (filter pi_default (ti_protocols inp)) \<and> \<not> (''kasmvnc'' \<in> seen \<and> 1 < card seen) \<and>
    \<not> (audio_port_exposed (base\<lparr>ts_protocols := protos\<rparr>) \<and> list_ex (\<lambda>p. wp_port p = pulse_audio_port) protos) \<and>
    check_config_input libs (ti_kasmvnc_config inp) protos = None \<and> check_blocks_input libs inp = None"
  unfolding spec_from_input_def assms sum.case prod.case Let_def
  by (cases "check_config_input libs (ti_kasmvnc_config inp) protos"; cases "check_blocks_input libs inp") auto

lemma spec_from_input_reads:
  assumes "spec_from_input libs ql inp = Inr s"
  obtains base seen protos ov where "base_from_input ql inp = Inr base"
    "protocols_from_input (ti_os inp) {} (ti_protocols inp) = Inr (seen, protos)" "overrides_from_input inp = Inr ov"
proof -
  obtain base where b: "base_from_input ql inp = Inr base"
    using assms by (cases "base_from_input ql inp") (simp_all add: spec_from_input_def)
  obtain seen protos where p: "protocols_from_input (ti_os inp) {} (ti_protocols inp) = Inr (seen, protos)"
    using assms b by (cases "protocols_from_input (ti_os inp) {} (ti_protocols inp)") (auto simp: spec_from_input_def)
  obtain ov where "overrides_from_input inp = Inr ov"
    using assms b p
    by (cases "overrides_from_input inp") (auto simp: spec_from_input_def Let_def split: if_splits option.splits)
  with b p that show thesis by blast
qed

lemma spec_from_input_iff:
  "spec_from_input libs ql inp = Inr s \<longleftrightarrow> readable_payload ql inp s \<and> validate_template libs s = None"
proof (rule iffI)
  assume a: "spec_from_input libs ql inp = Inr s"
  obtain base seen protos ov where r: "base_from_input ql inp = Inr base"
    "protocols_from_input (ti_os inp) {} (ti_protocols inp) = Inr (seen, protos)" "overrides_from_input inp = Inr ov"
    using spec_from_input_reads [OF a] by blast
  note c = a [unfolded spec_from_input_read [OF r]]
  note p = r(2) [unfolded protocols_from_input_iff]
  then have names: "seen = wp_name ` set protos" by (simp add: check_entries_Inr)
  have "readable_payload ql inp s" unfolding readable_payload_def using r p c by blast
  moreover have "validate_template libs s = None"
    unfolding validate_template_iff
  proof (intro exI conjI)
    have "check_entries (ti_os inp) {} protos = Inr seen" using p by blast
    moreover have "ts_os s = ti_os inp" "ts_protocols s = protos" using c base_fields(1) [OF r(1)] by simp_all
    ultimately show "check_entries (ts_os s) {} (ts_protocols s) = Inr seen" by simp
    have "length (filter wp_default protos) = length (filter pi_default (ti_protocols inp))"
      using p by (simp add: filter_map comp_def protocol_from_input_def)
    with c show "\<not> 1 < length (filter wp_default (ts_protocols s))" by simp
    show "audio_port_exposed s \<longrightarrow> \<not> list_ex (\<lambda>p. wp_port p = pulse_audio_port) (ts_protocols s)"
      using c by (simp add: audio_port_exposed_def effective_protocols_def)
  qed (use c base_fields [OF r(1)] in \<open>auto simp: config_checks [OF names] blocks_checks\<close>)
  ultimately show "readable_payload ql inp s \<and> validate_template libs s = None" ..
next
  assume a: "readable_payload ql inp s \<and> validate_template libs s = None"
  then obtain base ov where b: "base_from_input ql inp = Inr base" "overrides_from_input inp = Inr ov"
    "s = base\<lparr>ts_protocols := map protocol_from_input (ti_protocols inp), ts_overrides := ov\<rparr>"
    "\<forall>p \<in> set (ti_protocols inp). pi_name p \<noteq> [] \<and> 0 < pi_port p" by (auto simp: readable_payload_def)
  let ?protos = "map protocol_from_input (ti_protocols inp)"
  from a obtain seen where v: "check_entries (ts_os s) {} (ts_protocols s) = Inr seen"
     "audio_port_exposed s \<longrightarrow> \<not> list_ex (\<lambda>p. wp_port p = pulse_audio_port) (ts_protocols s)"
     "\<not> 1 < length (filter wp_default (ts_protocols s))" "\<not> (''kasmvnc'' \<in> seen \<and> 1 < card seen)"
     "\<not> (ts_kasmvnc_config s \<noteq> [] \<and> ''kasmvnc'' \<notin> seen)" "check_kasm_config libs (ts_kasmvnc_config s) = None"
     "\<forall>sc. ts_schedule s = Some sc \<longrightarrow>
        validate_schedule (tl_cron libs) \<lparr>timezone = sch_timezone sc, uptime = sch_uptime sc, downtime = sch_downtime sc\<rparr> = None"
     "\<forall>p. ts_placement s = Some p \<longrightarrow> list_all (\<lambda>d. d = None) (check_placement libs p)"
     "\<forall>w. ts_workload s = Some w \<longrightarrow> check_meta (wl_labels w) = None \<and> check_meta (wl_annotations w) = None"
     "\<forall>hv. ts_home_volume s = Some hv \<longrightarrow> check_meta (hv_labels hv) = None \<and> check_meta (hv_annotations hv) = None"
    unfolding validate_template_iff by blast
  note f = base_fields [OF b(1)]
  have p: "protocols_from_input (ti_os inp) {} (ti_protocols inp) = Inr (seen, ?protos)"
    unfolding protocols_from_input_iff using b(4) v(1) f(1) by (simp add: b(3))
  have names: "seen = wp_name ` set ?protos" using v(1) by (simp add: check_entries_Inr b(3))
  have d: "length (filter wp_default ?protos) = length (filter pi_default (ti_protocols inp))"
    by (simp add: filter_map comp_def protocol_from_input_def)
  show "spec_from_input libs ql inp = Inr s"
    unfolding spec_from_input_read [OF b(1) p b(2)] config_checks [OF names] blocks_checks
  proof (intro conjI)
    show "\<not> 1 < length (filter pi_default (ti_protocols inp))" using v(3) d by (simp add: b(3))
    show "\<not> (audio_port_exposed (base\<lparr>ts_protocols := ?protos\<rparr>) \<and> list_ex (\<lambda>p. wp_port p = pulse_audio_port) ?protos)"
      using v(2) by (simp add: b(3) audio_port_exposed_def effective_protocols_def)
  qed (use v f b(3) in auto)
qed

text \<open>C13: The portal and the admission webhook accept the same templates. A payload becomes a template exactly when its own fields
  can be read (names, ports, quantities, override rights, absolute path) and the webhook admits the template it
  stands for, which is then the one produced; everything else is refused as a bad request, so a template the
  portal lets through is never denied by the webhook afterwards.
\<close>

theorem portal_agrees_with_webhook:
  "(spec_from_input libs ql inp = Inr s \<longleftrightarrow> readable_payload ql inp s \<and> validate_template libs s = None) \<and>
   (\<forall>e. spec_from_input libs ql inp = Inl e \<longrightarrow> status_of e = 400)"
  using spec_from_input_iff spec_from_input_error by blast

section \<open>The projection for the editor\<close>

record template_protocol_model =
  tpm_name :: string
  tpm_port :: int
  tpm_default :: bool
  tpm_params :: "(string \<times> string) list"
  tpm_user_params :: "string list"
  tpm_resolved_user_params :: "string list"
  tpm_credentials_secret_ref :: string
  tpm_expose_audio_port :: bool

record template_model =
  tm_id :: string
  tm_name :: string
  tm_display_name :: string
  tm_description :: string
  tm_logo :: string
  tm_os :: string
  tm_image :: string
  tm_port :: int
  tm_home_size :: string
  tm_home_mount_path :: string
  tm_kasmvnc_config :: string
  tm_requests :: "string \<rightharpoonup> string"
  tm_limits :: "string \<rightharpoonup> string"
  tm_created_at :: int
  tm_workload :: string
  tm_workload_spec :: "workspace_workload option"
  tm_env :: "env_var list"
  tm_storage_class_name :: string
  tm_protocols :: "template_protocol_model list"
  tm_allowed_overrides :: "string list"
  tm_overrides_owner :: string
  tm_schedule :: "workspace_schedule option"
  tm_placement :: "workspace_placement option"
  tm_home_volume :: "workspace_home_volume option"

definition protocol_to_model :: "string \<Rightarrow> workspace_protocol \<Rightarrow> template_protocol_model" where
  "protocol_to_model def p =
     \<lparr>tpm_name = wp_name p, tpm_port = wp_port p, tpm_default = (wp_name p = def), tpm_params = wp_params p,
      tpm_user_params = wp_user_params p, tpm_resolved_user_params = resolve_user_param_names (wp_name p) (wp_user_params p),
      tpm_credentials_secret_ref = wp_credentials_secret_ref p, tpm_expose_audio_port = wp_expose_audio_port p\<rparr>"

definition quantity_texts :: "quantity_lib \<Rightarrow> (string \<rightharpoonup> quantity) \<Rightarrow> string \<rightharpoonup> string" where
  "quantity_texts ql m n = map_option (ql_string ql) (m n)"

definition template_to_model :: "quantity_lib \<Rightarrow> workspace_template \<Rightarrow> template_model" where
  "template_to_model ql t =
     (let s = tp_spec t; m = tp_meta t in
      \<lparr>tm_id = md_uid m, tm_name = md_name m, tm_display_name = ts_display_name s, tm_description = ts_description s,
       tm_logo = ts_logo s, tm_os = ts_os s, tm_image = ts_image s, tm_port = desktop_port s,
       tm_home_size = (case ts_home_size s of None \<Rightarrow> [] | Some q \<Rightarrow> ql_string ql q), tm_home_mount_path = ts_home_mount_path s,
       tm_kasmvnc_config = ts_kasmvnc_config s, tm_requests = quantity_texts ql (rr_requests (ts_resources s)),
       tm_limits = quantity_texts ql (rr_limits (ts_resources s)), tm_created_at = md_created m,
       tm_workload = workload_kind_or_default s, tm_workload_spec = ts_workload s, tm_env = ts_env s,
       tm_storage_class_name = (case ts_storage_class_name s of None \<Rightarrow> [] | Some c \<Rightarrow> c),
       tm_protocols = map (protocol_to_model (wp_name (default_protocol s))) (effective_protocols s),
       tm_allowed_overrides = (case ts_overrides s of None \<Rightarrow> [] | Some v \<Rightarrow> map overridable_field_name (to_allowed_fields v)),
       tm_overrides_owner = (case ts_overrides s of None \<Rightarrow> [] | Some v \<Rightarrow> to_owner v),
       tm_schedule = ts_schedule s, tm_placement = ts_placement s, tm_home_volume = ts_home_volume s\<rparr>)"

section \<open>The requests\<close>

record template_calls =
  tc_namespace :: string
  tc_valid_name :: "string \<Rightarrow> bool"
  tc_api :: "workspace_template api"
  tc_uid :: string
  tc_now :: int

definition template_list :: "quantity_lib \<Rightarrow> workspace_template list option \<Rightarrow> api_error + template_model list" where
  "template_list ql listed =
     (case listed of None \<Rightarrow> Inl (Unexpected [''listing workspace templates'']) | Some ts \<Rightarrow> Inr (map (template_to_model ql) ts))"

definition fetch_stored_template :: "template_calls \<Rightarrow> workspace_template store \<Rightarrow> string \<Rightarrow> api_error + workspace_template" where
  "fetch_stored_template c st name =
     (case kube_get (tc_api c) st (tc_namespace c, name) of
        Missing \<Rightarrow> Inl (NotFound [''template not found'', name])
      | Failed \<Rightarrow> Inl (Unexpected [''fetching template'', name])
      | Found t \<Rightarrow> Inr t)"

definition template_get :: "quantity_lib \<Rightarrow> template_calls \<Rightarrow> workspace_template store \<Rightarrow> string \<Rightarrow> api_error + template_model" where
  "template_get ql c st name = map_sum (\<lambda>e. e) (template_to_model ql) (fetch_stored_template c st name)"

definition template_create ::
  "'l template_libs \<Rightarrow> quantity_lib \<Rightarrow> template_calls \<Rightarrow> actor \<Rightarrow> template_input \<Rightarrow> workspace_template store \<Rightarrow>
     (api_error + template_model) \<times> workspace_template store \<times> audit_entry list" where
  "template_create libs ql c act inp st =
     (if ti_name inp = [] \<or> \<not> tc_valid_name c (ti_name inp)
      then (Inl (BadRequest [''name must be a valid DNS-1123 subdomain'']), st, [])
      else case spec_from_input libs ql inp of
        Inl e \<Rightarrow> (Inl e, st, [])
      | Inr s \<Rightarrow>
         (let t = \<lparr>tp_meta = \<lparr>md_name = ti_name inp, md_namespace = tc_namespace c, md_uid = tc_uid c, md_labels = Map.empty,
                md_annotations = Map.empty, md_deleted = False, md_created = tc_now c\<rparr>, tp_spec = s\<rparr> in
          case kube_create (tc_api c) st (tc_namespace c, ti_name inp) t of
            (Done, st') \<Rightarrow> (Inr (template_to_model ql t), st',
              [record_audit act ''workspace_template.created'' ''workspace_template'' (ti_name inp) []])
          | (AlreadyThere, st') \<Rightarrow> (Inl (Conflict [''template already exists'', ti_name inp]), st', [])
          | (_, st') \<Rightarrow> (Inl (Unexpected [''creating template'', ti_name inp]), st', [])))"

definition template_update ::
  "'l template_libs \<Rightarrow> quantity_lib \<Rightarrow> template_calls \<Rightarrow> actor \<Rightarrow> string \<Rightarrow> template_input \<Rightarrow> workspace_template store \<Rightarrow>
     (api_error + template_model) \<times> workspace_template store \<times> audit_entry list" where
  "template_update libs ql c act name inp st =
     (case fetch_stored_template c st name of
        Inl e \<Rightarrow> (Inl e, st, [])
      | Inr t \<Rightarrow> (case spec_from_input libs ql (inp\<lparr>ti_name := name\<rparr>) of
          Inl e \<Rightarrow> (Inl e, st, [])
        | Inr s \<Rightarrow> (case kube_update (tc_api c) st (tc_namespace c, name) (t\<lparr>tp_spec := s\<rparr>) of
            (Done, st') \<Rightarrow> (Inr (template_to_model ql (t\<lparr>tp_spec := s\<rparr>)), st',
              [record_audit act ''workspace_template.updated'' ''workspace_template'' name []])
          | (_, st') \<Rightarrow> (Inl (Unexpected [''updating template'', name]), st', []))))"

text \<open>\<open>listed\<close>: the workspaces of the namespace as the list answered them, or nothing when it failed.\<close>

definition template_delete ::
  "template_calls \<Rightarrow> actor \<Rightarrow> string \<Rightarrow> workspace list option \<Rightarrow> workspace_template store \<Rightarrow>
     (api_error + unit) \<times> workspace_template store \<times> audit_entry list" where
  "template_delete c act name listed st =
     (case fetch_stored_template c st name of
        Inl e \<Rightarrow> (Inl e, st, [])
      | Inr t \<Rightarrow> (case listed of
          None \<Rightarrow> (Inl (Unexpected [''listing workspaces'']), st, [])
        | Some wss \<Rightarrow> (case find (\<lambda>ws. sp_template_ref (ws_spec ws) = name) wss of
            Some ws \<Rightarrow> (Inl (Conflict [''template is used by workspace'', name, md_name (ws_meta ws)]), st, [])
          | None \<Rightarrow> (case kube_delete (tc_api c) st (tc_namespace c, name) of
              (Done, st') \<Rightarrow> (Inr (), st', [record_audit act ''workspace_template.deleted'' ''workspace_template'' name []])
            | (_, st') \<Rightarrow> (Inl (Unexpected [''deleting template'', name]), st', [])))))"

section \<open>What the requests keep\<close>

datatype template_request =
    TCreate actor template_input
  | TUpdate actor string template_input
  | TDelete actor string "workspace list option"

fun run_template_request ::
  "'l template_libs \<Rightarrow> quantity_lib \<Rightarrow> template_calls \<Rightarrow> template_request \<Rightarrow> workspace_template store \<Rightarrow> workspace_template store" where
  "run_template_request libs ql c (TCreate act inp) st = fst (snd (template_create libs ql c act inp st))"
| "run_template_request libs ql c (TUpdate act name inp) st = fst (snd (template_update libs ql c act name inp st))"
| "run_template_request libs ql c (TDelete act name listed) st = fst (snd (template_delete c act name listed st))"

definition stored_valid :: "'l template_libs \<Rightarrow> workspace_template store \<Rightarrow> bool" where
  "stored_valid libs st \<longleftrightarrow> (\<forall>k t. st k = Some t \<longrightarrow> validate_template libs (tp_spec t) = None)"

lemma kube_create_stores: "snd (kube_create c st k v) = st \<or> (\<exists>w. raced c = Some w \<and> snd (kube_create c st k v) = st(k \<mapsto> w)) \<or>
    snd (kube_create c st k v) = st(k \<mapsto> v)"
  by (auto simp: kube_create_def split: option.split)

lemma template_create_store:
  "fst (snd (template_create libs ql c act inp st)) = st \<or>
   (\<exists>w. raced (tc_api c) = Some w \<and> fst (snd (template_create libs ql c act inp st)) = st((tc_namespace c, ti_name inp) \<mapsto> w)) \<or>
   (\<exists>t. validate_template libs (tp_spec t) = None \<and> fst (snd (template_create libs ql c act inp st)) = st((tc_namespace c, ti_name inp) \<mapsto> t))"
proof (cases "(ti_name inp = [] \<or> \<not> tc_valid_name c (ti_name inp)) \<or> (\<exists>e. spec_from_input libs ql inp = Inl e)")
  case False
  then obtain s where s: "spec_from_input libs ql inp = Inr s" by (cases "spec_from_input libs ql inp") auto
  let ?t = "\<lparr>tp_meta = \<lparr>md_name = ti_name inp, md_namespace = tc_namespace c, md_uid = tc_uid c, md_labels = Map.empty,
      md_annotations = Map.empty, md_deleted = False, md_created = tc_now c\<rparr>, tp_spec = s\<rparr>"
  have "fst (snd (template_create libs ql c act inp st)) = snd (kube_create (tc_api c) st (tc_namespace c, ti_name inp) ?t)"
    using False s by (auto simp: template_create_def Let_def split: prod.split outcome.split)
  moreover have "validate_template libs (tp_spec ?t) = None" using spec_from_input_iff [THEN iffD1, OF s] by simp
  ultimately show ?thesis using kube_create_stores [of "tc_api c" st "(tc_namespace c, ti_name inp)" ?t] by metis
qed (auto simp: template_create_def)

lemma template_update_store:
  "fst (snd (template_update libs ql c act name inp st)) = st \<or>
   (\<exists>t. validate_template libs (tp_spec t) = None \<and> fst (snd (template_update libs ql c act name inp st)) = st((tc_namespace c, name) \<mapsto> t))"
proof (cases "fetch_stored_template c st name")
  case (Inr t)
  show ?thesis
  proof (cases "spec_from_input libs ql (inp\<lparr>ti_name := name\<rparr>)")
    case (Inr s)
    have "fst (snd (template_update libs ql c act name inp st)) = snd (kube_update (tc_api c) st (tc_namespace c, name) (t\<lparr>tp_spec := s\<rparr>))"
      using Inr \<open>fetch_stored_template c st name = Inr t\<close> by (simp add: template_update_def split: prod.split outcome.split)
    moreover have "validate_template libs (tp_spec (t\<lparr>tp_spec := s\<rparr>)) = None" using spec_from_input_iff [THEN iffD1, OF Inr] by simp
    moreover have "snd (kube_update (tc_api c) st k v) = st \<or> snd (kube_update (tc_api c) st k v) = st(k \<mapsto> v)" for k v
      by (simp add: kube_update_def split: option.split)
    ultimately show ?thesis by metis
  qed (simp add: template_update_def Inr)
qed (simp add: template_update_def)

lemma template_delete_store:
  "template_delete c act name listed st = (r, st', au) \<Longrightarrow>
   st' = st \<or> st' = st((tc_namespace c, name) := None) \<and> r = Inr () \<and> st (tc_namespace c, name) \<noteq> None \<and>
     (\<exists>wss. listed = Some wss \<and> (\<forall>ws \<in> set wss. sp_template_ref (ws_spec ws) \<noteq> name))"
  by (auto simp: template_delete_def kube_delete_def find_None_iff fetch_stored_template_def kube_get_simps
      split: sum.splits option.splits prod.splits outcome.splits if_splits fetched.splits)

text \<open>C14: The template requests keep every stored template one the webhook admits, whatever else is created meanwhile that the
  webhook admits too, and a template goes only when the list of workspaces was read and none of them names it.
\<close>

theorem templates_stay_valid:
  assumes "stored_valid libs st" "\<forall>w. raced (tc_api c) = Some w \<longrightarrow> validate_template libs (tp_spec w) = None"
  shows "stored_valid libs (fold (run_template_request libs ql c) reqs st) \<and>
    (\<forall>act name listed k. st k \<noteq> None \<and> run_template_request libs ql c (TDelete act name listed) st k = None \<longrightarrow>
       k = (tc_namespace c, name) \<and> (\<exists>wss. listed = Some wss \<and> (\<forall>ws \<in> set wss. sp_template_ref (ws_spec ws) \<noteq> name)))"
proof (rule conjI)
  have step: "stored_valid libs (run_template_request libs ql c req s)" if v: "stored_valid libs s" for req s
  proof (cases req)
    case (TCreate act inp)
    with template_create_store [of libs ql c act inp s] assms(2) v show ?thesis by (auto simp: stored_valid_def split: if_splits)
  next
    case (TUpdate act name inp)
    with template_update_store [of libs ql c act name inp s] v show ?thesis by (auto simp: stored_valid_def split: if_splits)
  next
    case (TDelete act name listed)
    obtain r s' au where "template_delete c act name listed s = (r, s', au)" by (rule prod_cases3)
    with template_delete_store [OF this] v TDelete show ?thesis by (auto simp: stored_valid_def split: if_splits)
  qed
  show "stored_valid libs (fold (run_template_request libs ql c) reqs st)"
    using assms(1)
  proof (induction reqs arbitrary: st)
    case (Cons r reqs)
    then show ?case using step by simp
  qed simp
next
  show "\<forall>act name listed k. st k \<noteq> None \<and> run_template_request libs ql c (TDelete act name listed) st k = None \<longrightarrow>
       k = (tc_namespace c, name) \<and> (\<exists>wss. listed = Some wss \<and> (\<forall>ws \<in> set wss. sp_template_ref (ws_spec ws) \<noteq> name))"
  proof (intro allI impI)
    fix act name listed k
    assume k: "st k \<noteq> None \<and> run_template_request libs ql c (TDelete act name listed) st k = None"
    obtain r st' au where d: "template_delete c act name listed st = (r, st', au)" by (rule prod_cases3)
    with k template_delete_store [OF d]
    show "k = (tc_namespace c, name) \<and> (\<exists>wss. listed = Some wss \<and> (\<forall>ws \<in> set wss. sp_template_ref (ws_spec ws) \<noteq> name))"
      by (auto split: if_splits)
  qed
qed

section \<open>Editing without a change\<close>

text \<open>An editor's payload that repeats what the projection shows, field by field.\<close>

definition repeats_model :: "template_model \<Rightarrow> template_input \<Rightarrow> bool" where
  "repeats_model m inp \<longleftrightarrow>
     ti_display_name inp = tm_display_name m \<and> ti_description inp = tm_description m \<and> ti_logo inp = tm_logo m \<and> ti_os inp = tm_os m \<and>
     ti_image inp = tm_image m \<and> ti_port inp = tm_port m \<and> ti_home_size inp = tm_home_size m \<and>
     ti_home_mount_path inp = tm_home_mount_path m \<and> ti_kasmvnc_config inp = tm_kasmvnc_config m \<and>
     ti_storage_class_name inp = tm_storage_class_name m \<and> distinct (map fst (ti_requests inp)) \<and> distinct (map fst (ti_limits inp)) \<and>
     map_of (ti_requests inp) = tm_requests m \<and> map_of (ti_limits inp) = tm_limits m \<and> ti_env inp = tm_env m \<and>
     ti_workload inp = tm_workload_spec m \<and> ti_schedule inp = tm_schedule m \<and> ti_placement inp = tm_placement m \<and>
     ti_home_volume inp = tm_home_volume m \<and>
     ti_protocols inp = map (\<lambda>p. \<lparr>pi_name = tpm_name p, pi_port = tpm_port p, pi_default = tpm_default p, pi_params = tpm_params p,
       pi_user_params = tpm_user_params p, pi_credentials_secret_ref = tpm_credentials_secret_ref p,
       pi_expose_audio_port = tpm_expose_audio_port p\<rparr>) (tm_protocols m) \<and>
     ti_overrides inp = (if tm_allowed_overrides m = [] \<and> tm_overrides_owner m = [] then None
       else Some \<lparr>oi_allowed_fields = tm_allowed_overrides m, oi_owner = tm_overrides_owner m\<rparr>)"

text \<open>What saving such a payload leaves: the endpoints in force written out, the first of them made the default.\<close>

definition settled_spec :: "template_spec \<Rightarrow> template_spec" where
  "settled_spec s = s\<lparr>ts_port := desktop_port s,
     ts_protocols := map (\<lambda>p. p\<lparr>wp_default := (wp_name p = wp_name (default_protocol s))\<rparr>) (effective_protocols s)\<rparr>"

definition fully_stated :: "template_spec \<Rightarrow> bool" where
  "fully_stated s \<longleftrightarrow> ts_display_name s \<noteq> [] \<and> ts_image s \<noteq> [] \<and> (ts_os s = os_linux \<or> ts_os s = os_windows) \<and>
     (ts_home_mount_path s = [] \<or> has_prefix (ts_home_mount_path s) ''/'') \<and> ts_storage_class_name s \<noteq> Some [] \<and>
     (\<forall>p \<in> set (effective_protocols s). wp_name p \<noteq> [] \<and> 0 < wp_port p) \<and>
     (\<forall>v. ts_overrides s = Some v \<longrightarrow> to_allowed_fields v \<noteq> [] \<or> to_owner v \<noteq> [])"

definition faithful_quantities :: "quantity_lib \<Rightarrow> bool" where
  "faithful_quantities ql \<longleftrightarrow> (\<forall>q. ql_parse ql (ql_string ql q) = Some q \<and> ql_string ql q \<noteq> [])"

lemma field_of_name_inverse: "field_of_name (overridable_field_name f) = Some f"
  by (cases f) (simp_all add: field_of_name_def all_overridable_fields_def overridable_field_name_def)

lemma fields_roundtrip: "fields_from_input (map overridable_field_name fs) = Inr fs"
  by (induction fs) (simp_all add: field_of_name_inverse)

lemma resource_loop_roundtrip:
  assumes "distinct (map fst es)" "\<forall>(n, v) \<in> set es. \<exists>q. ql_parse ql v = Some q"
  shows "resource_loop ql es out = Inr (\<lambda>n. case map_of es n of None \<Rightarrow> out n | Some v \<Rightarrow> ql_parse ql v)"
  using assms
proof (induction ql es out rule: resource_loop.induct)
  case (2 ql n v rest out)
  then obtain q where q: "ql_parse ql v = Some q" by auto
  have n: "map_of rest n = None" using 2 by (simp add: map_of_eq_None_iff)
  have "resource_loop ql rest (out(n \<mapsto> q)) = Inr (\<lambda>m. case map_of rest m of None \<Rightarrow> (out(n \<mapsto> q)) m | Some x \<Rightarrow> ql_parse ql x)"
    by (rule "2.IH" [OF q]) (use "2.prems" in auto)
  moreover have "(\<lambda>m. case map_of rest m of None \<Rightarrow> (out(n \<mapsto> q)) m | Some x \<Rightarrow> ql_parse ql x) =
      (\<lambda>m. case map_of ((n, v) # rest) m of None \<Rightarrow> out m | Some x \<Rightarrow> ql_parse ql x)"
    using n q by (intro ext) (auto split: option.split)
  ultimately show ?case using q by simp
qed auto

lemma resource_list_roundtrip:
  assumes "faithful_quantities ql" "distinct (map fst es)" "map_of es = quantity_texts ql m"
  shows "resource_list ql es = Inr m"
proof -
  have "\<exists>q. ql_parse ql v = Some q" if v: "(n, v) \<in> set es" for n v
  proof -
    have "map_of es n = Some v" using assms(2) v by (simp add: map_of_is_SomeI)
    then obtain q where "v = ql_string ql q" using assms(3) by (auto simp: quantity_texts_def)
    with assms(1) show ?thesis by (auto simp: faithful_quantities_def)
  qed
  then have "resource_list ql es = Inr (\<lambda>n. case map_of es n of None \<Rightarrow> None | Some v \<Rightarrow> ql_parse ql v)"
    unfolding resource_list_def by (subst resource_loop_roundtrip) (use assms(2) in auto)
  also have "(\<lambda>n. case map_of es n of None \<Rightarrow> None | Some v \<Rightarrow> ql_parse ql v) = m"
    using assms(1) by (auto simp: assms(3) quantity_texts_def faithful_quantities_def fun_eq_iff split: option.split)
  finally show ?thesis .
qed

lemma default_names_once:
  assumes "distinct (map wp_name (effective_protocols s))"
  shows "length (filter (\<lambda>p. wp_name p = wp_name (default_protocol s)) (effective_protocols s)) \<le> 1"
proof -
  have "length (filter (\<lambda>p. f p = x) ps) \<le> 1" if "distinct (map f ps)" for f :: "workspace_protocol \<Rightarrow> string" and x ps
    using that
  proof (induction ps)
    case (Cons a ps)
    have "filter (\<lambda>p. f p = x) ps = []" if "f a = x" using that Cons.prems by (fastforce simp: filter_empty_conv image_iff)
    with Cons show ?case by auto
  qed simp
  from this [OF assms] show ?thesis .
qed

text \<open>The endpoints in force of an admitted template pass the entry checks, the derived one included.\<close>

lemma effective_entries_ok:
  assumes "check_entries (ts_os s) {} (ts_protocols s) = Inr seen"
  shows "distinct (map wp_name (effective_protocols s)) \<and> list_all (entry_ok (ts_os s)) (effective_protocols s)"
  using assms by (auto simp: effective_protocols_def check_entries_Inr entry_ok_def)

lemma settled_admitted:
  assumes "validate_template libs s = None"
  shows "validate_template libs (settled_spec s) = None"
proof -
  let ?def = "wp_name (default_protocol s)" and ?e = "effective_protocols s"
  let ?ps = "map (\<lambda>p. p\<lparr>wp_default := (wp_name p = ?def)\<rparr>) ?e"
  from assms obtain seen where v: "check_entries (ts_os s) {} (ts_protocols s) = Inr seen"
    "audio_port_exposed s \<longrightarrow> \<not> list_ex (\<lambda>p. wp_port p = pulse_audio_port) (ts_protocols s)"
    "\<not> (''kasmvnc'' \<in> seen \<and> 1 < card seen)" "\<not> (ts_kasmvnc_config s \<noteq> [] \<and> ''kasmvnc'' \<notin> seen)"
    "check_kasm_config libs (ts_kasmvnc_config s) = None"
    "\<forall>sc. ts_schedule s = Some sc \<longrightarrow>
        validate_schedule (tl_cron libs) \<lparr>timezone = sch_timezone sc, uptime = sch_uptime sc, downtime = sch_downtime sc\<rparr> = None"
    "\<forall>p. ts_placement s = Some p \<longrightarrow> list_all (\<lambda>d. d = None) (check_placement libs p)"
    "\<forall>w. ts_workload s = Some w \<longrightarrow> check_meta (wl_labels w) = None \<and> check_meta (wl_annotations w) = None"
    "\<forall>hv. ts_home_volume s = Some hv \<longrightarrow> check_meta (hv_labels hv) = None \<and> check_meta (hv_annotations hv) = None"
    unfolding validate_template_iff by blast
  note e = effective_entries_ok [OF v(1)]
  have ps: "wp_name ` set ?ps = wp_name ` set ?e" "map wp_name ?ps = map wp_name ?e" by (simp_all add: image_image comp_def)
  have ne: "?ps \<noteq> []" by simp
  have ok: "list_all (entry_ok (ts_os s)) ?ps" using e by (simp add: list_all_iff entry_ok_def)
  have c: "check_entries (ts_os s) {} ?ps = Inr (wp_name ` set ?e)"
    unfolding check_entries_Inr using e ok ps by (simp del: map_map set_map)
  have seen: "seen = wp_name ` set (ts_protocols s)" using v(1) by (simp add: check_entries_Inr)
  have kasm: "seen = wp_name ` set ?e \<or> ts_protocols s = []" unfolding seen by (simp add: effective_protocols_def)
  have legacy: "wp_name ` set ?e \<subseteq> {''rdp'', ''vnc''} \<and> card (wp_name ` set ?e) = 1" if "ts_protocols s = []"
    using that by (simp add: effective_protocols_def)
  show ?thesis
    unfolding validate_template_iff
  proof (intro exI conjI)
    show "check_entries (ts_os (settled_spec s)) {} (ts_protocols (settled_spec s)) = Inr (wp_name ` set ?e)"
      using c by (simp add: settled_spec_def)
    have "length (filter wp_default ?ps) \<le> 1" using default_names_once e by (simp add: filter_map comp_def)
    then show "\<not> 1 < length (filter wp_default (ts_protocols (settled_spec s)))" by (simp add: settled_spec_def)
    have "audio_port_exposed (settled_spec s) \<longleftrightarrow> audio_port_exposed s"
      using ne by (simp add: audio_port_exposed_def settled_spec_def effective_protocols_def list_ex_iff)
    moreover have "\<not> audio_port_exposed s" if "ts_protocols s = []" using that by (simp add: audio_port_exposed_def effective_protocols_def)
    ultimately show "audio_port_exposed (settled_spec s) \<longrightarrow> \<not> list_ex (\<lambda>p. wp_port p = pulse_audio_port) (ts_protocols (settled_spec s))"
      using v(2) by (auto simp: settled_spec_def effective_protocols_def list_ex_iff)
    show "\<not> (''kasmvnc'' \<in> wp_name ` set ?e \<and> 1 < card (wp_name ` set ?e))" using kasm legacy v(3) by auto
    show "\<not> (ts_kasmvnc_config (settled_spec s) \<noteq> [] \<and> ''kasmvnc'' \<notin> wp_name ` set ?e)"
      using kasm legacy v(4) seen by (auto simp: settled_spec_def)
  qed (use v in \<open>simp_all add: settled_spec_def\<close>)
qed

text \<open>The equations a repeated payload gives, once.\<close>

lemma repeats_modelD:
  assumes "repeats_model (template_to_model ql t) inp"
  shows "ti_display_name inp = ts_display_name (tp_spec t)" "ti_description inp = ts_description (tp_spec t)"
    "ti_logo inp = ts_logo (tp_spec t)" "ti_os inp = ts_os (tp_spec t)" "ti_image inp = ts_image (tp_spec t)"
    "ti_port inp = desktop_port (tp_spec t)"
    "ti_home_size inp = (case ts_home_size (tp_spec t) of None \<Rightarrow> [] | Some q \<Rightarrow> ql_string ql q)"
    "ti_home_mount_path inp = ts_home_mount_path (tp_spec t)" "ti_kasmvnc_config inp = ts_kasmvnc_config (tp_spec t)"
    "ti_storage_class_name inp = (case ts_storage_class_name (tp_spec t) of None \<Rightarrow> [] | Some c \<Rightarrow> c)"
    "ti_env inp = ts_env (tp_spec t)" "ti_workload inp = ts_workload (tp_spec t)" "ti_schedule inp = ts_schedule (tp_spec t)"
    "ti_placement inp = ts_placement (tp_spec t)" "ti_home_volume inp = ts_home_volume (tp_spec t)"
    "distinct (map fst (ti_requests inp))" "map_of (ti_requests inp) = quantity_texts ql (rr_requests (ts_resources (tp_spec t)))"
    "distinct (map fst (ti_limits inp))" "map_of (ti_limits inp) = quantity_texts ql (rr_limits (ts_resources (tp_spec t)))"
    "ti_protocols inp = map (\<lambda>p. \<lparr>pi_name = wp_name p, pi_port = wp_port p, pi_default = (wp_name p = wp_name (default_protocol (tp_spec t))),
       pi_params = wp_params p, pi_user_params = wp_user_params p, pi_credentials_secret_ref = wp_credentials_secret_ref p,
       pi_expose_audio_port = wp_expose_audio_port p\<rparr>) (effective_protocols (tp_spec t))"
    "ti_overrides inp = (case ts_overrides (tp_spec t) of None \<Rightarrow> None
       | Some v \<Rightarrow> if to_allowed_fields v = [] \<and> to_owner v = [] then None
           else Some \<lparr>oi_allowed_fields = map overridable_field_name (to_allowed_fields v), oi_owner = to_owner v\<rparr>)"
  using assms unfolding repeats_model_def template_to_model_def Let_def protocol_to_model_def
  by (simp_all add: comp_def split: option.split)

lemma base_roundtrip:
  assumes "faithful_quantities ql" "fully_stated (tp_spec t)" "repeats_model (template_to_model ql t) inp"
  shows "base_from_input ql inp = Inr ((tp_spec t)\<lparr>ts_port := desktop_port (tp_spec t), ts_protocols := [], ts_overrides := None\<rparr>)"
proof -
  let ?s = "tp_spec t"
  note r = repeats_modelD [OF assms(3)]
  have res: "resource_list ql (ti_requests inp) = Inr (rr_requests (ts_resources ?s))"
    "resource_list ql (ti_limits inp) = Inr (rr_limits (ts_resources ?s))"
    by (rule resource_list_roundtrip [OF assms(1)]; rule r)+
  have home: "(if ti_home_size inp = [] then None else ql_parse ql (ti_home_size inp)) = ts_home_size ?s"
    "ti_home_size inp \<noteq> [] \<longrightarrow> ql_parse ql (ti_home_size inp) \<noteq> None"
    using r(7) assms(1) by (auto simp: faithful_quantities_def split: option.splits)
  have sc: "(if ti_storage_class_name inp = [] then None else Some (ti_storage_class_name inp)) = ts_storage_class_name ?s"
    using r(10) assms(2) by (auto simp: fully_stated_def split: option.splits)
  have ok: "ts_display_name ?s \<noteq> []" "ts_image ?s \<noteq> []" "ts_os ?s = os_linux \<or> ts_os ?s = os_windows"
    "ts_home_mount_path ?s = [] \<or> has_prefix (ts_home_mount_path ?s) ''/''"
    using assms(2) unfolding fully_stated_def by blast+
  then have gates: "\<not> (ti_display_name inp = [] \<or> ti_image inp = [])" "\<not> (ti_os inp \<noteq> os_linux \<and> ti_os inp \<noteq> os_windows)"
    "\<not> (ti_home_mount_path inp \<noteq> [] \<and> \<not> has_prefix (ti_home_mount_path inp) ''/'')"
    "\<not> (ti_home_size inp \<noteq> [] \<and> ql_parse ql (ti_home_size inp) = None)"
    using home(2) unfolding r(1,4,5,8) by blast+
  show ?thesis
    unfolding base_from_input_def res sum.case home(1) sc
    by (simp only: gates if_False, rule arg_cong [of _ _ Inr], rule template_spec.equality) (simp_all add: r)
qed

lemma overrides_roundtrip:
  assumes "fully_stated (tp_spec t)" "repeats_model (template_to_model ql t) inp"
  shows "overrides_from_input inp = Inr (ts_overrides (tp_spec t))"
proof -
  note r = repeats_modelD(21) [OF assms(2)]
  show ?thesis
  proof (cases "ts_overrides (tp_spec t)")
    case None
    then show ?thesis using r by (simp add: overrides_from_input_def)
  next
    case (Some v)
    then have "to_allowed_fields v \<noteq> [] \<or> to_owner v \<noteq> []" using assms(1) by (simp add: fully_stated_def)
    then show ?thesis using r Some by (auto simp: overrides_from_input_def fields_roundtrip)
  qed
qed

text \<open>C31: Opening a template in the editor and saving it unchanged does not change what it means. For an admitted template whose
  fields the payload can state, saving exactly what the projection shows succeeds and stores the same template
  with its endpoints in force written out: the same protocols with the same ports, parameters and delegations,
  the same one as the default, and every other field as it was, quantities included. Quantities print to a text
  that parses back.
\<close>

theorem unchanged_edit_keeps_template:
  assumes "faithful_quantities ql" "validate_template libs (tp_spec t) = None" "fully_stated (tp_spec t)"
    and "repeats_model (template_to_model ql t) inp"
  shows "spec_from_input libs ql inp = Inr (settled_spec (tp_spec t)) \<and>
    default_protocol (settled_spec (tp_spec t)) = (default_protocol (tp_spec t))\<lparr>wp_default := True\<rparr> \<and>
    map wp_name (effective_protocols (settled_spec (tp_spec t))) = map wp_name (effective_protocols (tp_spec t))"
proof (intro conjI)
  let ?s = "tp_spec t" and ?def = "wp_name (default_protocol (tp_spec t))"
  note r = repeats_modelD(20) [OF assms(4)]
  have ps: "map protocol_from_input (ti_protocols inp) = ts_protocols (settled_spec ?s)"
    unfolding r by (simp add: settled_spec_def protocol_from_input_def comp_def)
  have ports: "\<forall>p \<in> set (ti_protocols inp). pi_name p \<noteq> [] \<and> 0 < pi_port p"
    using assms(3) unfolding r fully_stated_def by auto
  have "readable_payload ql inp (settled_spec ?s)"
    unfolding readable_payload_def
    using base_roundtrip [OF assms(1,3,4)] overrides_roundtrip [OF assms(3,4)] ports
    by (simp add: ps) (simp add: settled_spec_def)
  with settled_admitted [OF assms(2)] spec_from_input_iff show "spec_from_input libs ql inp = Inr (settled_spec ?s)" by blast
  have e: "effective_protocols (settled_spec ?s) = map (\<lambda>p. p\<lparr>wp_default := (wp_name p = ?def)\<rparr>) (effective_protocols ?s)"
    by (simp add: settled_spec_def effective_protocols_def [of "settled_spec ?s"]) (simp add: effective_protocols_def settled_spec_def)
  then show "map wp_name (effective_protocols (settled_spec ?s)) = map wp_name (effective_protocols ?s)" by simp
  obtain seen where "check_entries (ts_os ?s) {} (ts_protocols ?s) = Inr seen" using assms(2) validate_template_iff by blast
  then have d: "distinct (map wp_name (effective_protocols ?s))" using effective_entries_ok by blast
  let ?f = "\<lambda>p. p\<lparr>wp_default := (wp_name p = ?def)\<rparr>"
  have "find wp_default (map ?f (effective_protocols ?s)) = Some (?f (default_protocol ?s))"
  proof -
    have in_s: "default_protocol ?s \<in> set (effective_protocols ?s)" by (rule default_protocol_in)
    have "find wp_default (map ?f ps) = Some (?f q)" if "distinct (map wp_name ps)" "q \<in> set ps" "wp_name q = ?def" for ps q
      using that
    proof (induction ps)
      case (Cons a ps)
      show ?case
      proof (cases "wp_name a = ?def")
        case True
        with Cons.prems have "q = a" by (metis (no_types, lifting) distinct.simps(2) image_eqI list.simps(9) set_ConsD set_map)
        with True show ?thesis by simp
      next
        case False
        with Cons show ?thesis by auto
      qed
    qed simp
    from this [OF d in_s] show ?thesis by simp
  qed
  then show "default_protocol (settled_spec ?s) = (default_protocol ?s)\<lparr>wp_default := True\<rparr>"
    by (subst default_protocol_def) (simp add: e)
qed

section \<open>Concrete instances\<close>

text \<open>A notation of quantities that any number prints to and parses from.\<close>

definition tally_lib :: quantity_lib where
  "tally_lib = \<lparr>ql_parse = (\<lambda>s. if s = [] then None else Some (if hd s = CHR ''+'' then int (length s) - 1 else - int (length s))),
     ql_string = (\<lambda>q. if 0 \<le> q then replicate (nat q + 1) CHR ''+'' else replicate (nat (- q)) CHR ''-'')\<rparr>"

lemma tally_faithful: "faithful_quantities tally_lib"
  by (auto simp: faithful_quantities_def tally_lib_def hd_replicate)

definition demo_vnc :: workspace_protocol where
  "demo_vnc = Template_Webhook.demo_entry ''vnc'' 5901 [(''read-only'', ''true'')] [''cat:audio'']"

definition demo_payload :: template_input where
  "demo_payload = \<lparr>ti_name = ''t'', ti_display_name = ''T'', ti_description = [], ti_logo = [], ti_os = os_linux, ti_image = ''i'', ti_port = 5901,
     ti_home_size = [], ti_home_mount_path = [], ti_kasmvnc_config = [], ti_storage_class_name = [], ti_requests = [], ti_limits = [],
     ti_env = [], ti_workload = None, ti_protocols = [\<lparr>pi_name = ''vnc'', pi_port = 5901, pi_default = True, pi_params = [(''read-only'', ''true'')],
       pi_user_params = [''cat:audio''], pi_credentials_secret_ref = [], pi_expose_audio_port = False\<rparr>], ti_overrides = None,
     ti_schedule = None, ti_placement = None, ti_home_volume = None\<rparr>"

definition demo_stored :: workspace_template where
  "demo_stored = \<lparr>tp_meta = \<lparr>md_name = ''t'', md_namespace = ''waas'', md_uid = [], md_labels = Map.empty, md_annotations = Map.empty,
     md_deleted = False, md_created = 0\<rparr>, tp_spec = Template_Webhook.demo_spec demo_vnc []\<rparr>"

lemma demo_stored_valid: "validate_template demo_libs (tp_spec demo_stored) = None"
  using demo_templates_admitted(1) by (simp add: demo_stored_def demo_vnc_def)

lemma demo_effective: "effective_protocols (tp_spec demo_stored) = [demo_vnc]" "default_protocol (tp_spec demo_stored) = demo_vnc"
  "desktop_port (tp_spec demo_stored) = 5901"
  by (simp_all add: demo_stored_def effective_protocols_def default_protocol_def desktop_port_def Template_Webhook.demo_spec_def demo_vnc_def Template_Webhook.demo_entry_def)

lemma demo_repeats: "repeats_model (template_to_model tally_lib demo_stored) demo_payload"
proof -
  have "quantity_texts tally_lib Map.empty = Map.empty" by (simp add: quantity_texts_def fun_eq_iff)
  then show ?thesis
    unfolding repeats_model_def template_to_model_def Let_def demo_effective
    by (simp add: demo_stored_def demo_payload_def Template_Webhook.demo_spec_def protocol_to_model_def demo_vnc_def Template_Webhook.demo_entry_def)
qed

lemma demo_fully_stated: "fully_stated (tp_spec demo_stored)"
  unfolding fully_stated_def demo_effective by (simp add: demo_stored_def Template_Webhook.demo_spec_def demo_vnc_def Template_Webhook.demo_entry_def)

theorem unchanged_edit_keeps_template_witness:
  "spec_from_input demo_libs tally_lib demo_payload = Inr (settled_spec (tp_spec demo_stored))"
  using unchanged_edit_keeps_template [OF tally_faithful demo_stored_valid demo_fully_stated demo_repeats] by simp

text \<open>The same payload for a windows template with an entry the webhook denies there.\<close>

theorem portal_agrees_with_webhook_witness:
  "\<exists>e. spec_from_input demo_libs tally_lib (demo_payload\<lparr>ti_protocols := [\<lparr>pi_name = ''rdp'', pi_port = 3389, pi_default = True, pi_params = [],
     pi_user_params = [], pi_credentials_secret_ref = [], pi_expose_audio_port = False\<rparr>]\<rparr>) = Inl e \<and> status_of e = 400"
proof -
  let ?inp = "demo_payload\<lparr>ti_protocols := [\<lparr>pi_name = ''rdp'', pi_port = 3389, pi_default = True, pi_params = [],
     pi_user_params = [], pi_credentials_secret_ref = [], pi_expose_audio_port = False\<rparr>]\<rparr>"
  have "protocols_from_input (ti_os ?inp) {} (ti_protocols ?inp) = Inl (BadRequest [''protocol rdp is only available on windows templates''])"
    by (simp add: demo_payload_def check_protocol_input_def os_linux_def os_windows_def)
  then obtain e where e: "spec_from_input demo_libs tally_lib ?inp = Inl e"
    by (cases "base_from_input tally_lib ?inp") (simp_all add: spec_from_input_def)
  with portal_agrees_with_webhook [of demo_libs tally_lib ?inp] show ?thesis by blast
qed

definition demo_template_calls :: template_calls where
  "demo_template_calls = \<lparr>tc_namespace = ''waas'', tc_valid_name = (\<lambda>_. True), tc_api = answering, tc_uid = ''u'', tc_now = 0\<rparr>"

theorem templates_stay_valid_witness:
  "stored_valid demo_libs (fold (run_template_request demo_libs tally_lib demo_template_calls)
     [TCreate (named_actor ''ada'' []) demo_payload, TDelete (named_actor ''ada'' []) ''t'' (Some [])] Map.empty)"
  using templates_stay_valid [of demo_libs Map.empty demo_template_calls tally_lib
    "[TCreate (named_actor ''ada'' []) demo_payload, TDelete (named_actor ''ada'' []) ''t'' (Some [])]"]
  by (simp add: stored_valid_def demo_template_calls_def)

end
