(* ===== verification/Spec2Isabelle.thy ===== *)
theory Spec2Isabelle
  imports Kasm Sweepers Remotes Sso Catalog_Sync Template_Service
begin

text \<open>
  WaaS (workspaces as a service) runs remote desktops on Kubernetes. Three Go programs share the work:
  the operator (\<open>src/operator\<close>: custom resources, admission webhooks, reconcilers), the WebSocket
  tunnel (\<open>src/wwt\<close>: the relay between a browser and guacd or KasmVNC) and the API server
  (\<open>src/api-server\<close>, with \<open>src/shared\<close>). A workspace is a custom resource naming a template; the
  webhook admits it under the policy of its owner; the reconciler gives it a namespace, a home volume,
  credentials and a workload; the API server signs a connection token and the tunnel relays the session
  it names.

  This development models the operator, the tunnel and the core of the API server as functional programs and proves what they
  promise. The theories follow the code:

  \<^item> \<open>Prelude\<close>, \<open>Utf8\<close>, \<open>Go_Text\<close>: the pieces of the Go standard library the code calls on strings,
    where a string is a list of bytes. Each has the lemmas the components share. A Go map that is only
    looked up is a map of HOL; one whose order is visible is a list of pairs.
  \<^item> The tunnel. \<open>Guac_Instruction\<close> (\<open>wwt/internal/guac/instruction.go\<close>: the wire format, with its round
    trip), \<open>Guac_Framing\<close> (\<open>framing.go\<close>: the framer as a state machine whose frames are a partition of
    the stream, whatever the chunks), \<open>Guac_Clipboard\<close> (\<open>clipboard.go\<close>: the filter per direction and its
    fast path), \<open>Guac_Handshake\<close> (\<open>handshake.go\<close>), \<open>Jwks\<close> and \<open>Proxy\<close> (token validation and the relay of
    \<open>proxy.go\<close>; a relay is a sequence of steps over one filter state), \<open>Kasm\<close> (the reverse proxy for
    KasmVNC with its cache of sessions). The locales \<open>key_source\<close>, \<open>token_checker\<close> and \<open>session_gate\<close> of
    \<open>Proxy\<close> are the interface between the handlers and the key cache, interpreted on \<open>Jwks\<close>.
  \<^item> The operator's packages. \<open>Schedule\<close> (\<open>pkg/schedule\<close>), \<open>Params\<close> (\<open>pkg/params\<close>, the registry of connection
    parameters), \<open>Metakeys\<close> (\<open>pkg/metakeys\<close> and \<open>pkg/kasmcfg\<close>), \<open>Naming\<close> (\<open>pkg/naming\<close>), \<open>Policy\<close> (\<open>pkg/policy\<close>:
    resolution, image approval, quotas and override rights).
  \<^item> The custom resources. \<open>Api_Types\<close> holds the records of \<open>api/v1alpha1\<close> and the methods on them.
  \<^item> Admission. \<open>Webhook\<close> (\<open>workspace_webhook.go\<close>) and \<open>Template_Webhook\<close> (\<open>workspacetemplate_webhook.go\<close>)
    are functions of the request and of the answers of the cluster.
  \<^item> Reconciliation (\<open>internal/controller\<close>). \<open>Kube_Store\<close> is the API server of Kubernetes as the loop uses it:
    a store per kind, the calls on it, each with its failures, and the object another writer may create in
    between. \<open>Home_Volume\<close> is the life of the home volume claim: adoption, synchronisation of its metadata,
    retention or deletion, expiry. \<open>Desktop_Secrets\<close> is what surrounds the container: its environment
    (\<open>workload.go\<close>), the generated passwords (\<open>kasm_credentials.go\<close>, \<open>desktop_credentials.go\<close>), the effective
    \<open>kasmvnc.yaml\<close> (\<open>kasm_config.go\<close>) and the registry credentials (\<open>pull_secret.go\<close>). \<open>Workload\<close> is the pod
    template and the four kinds of compute with the service. \<open>Workspace_Status\<close> is the conditions and the
    failure diagnosis (\<open>workspace_status.go\<close>, \<open>workload_failure.go\<close>). \<open>Namespaces\<close> is the bootstrap of a
    target namespace and the janitor that reclaims it (\<open>placement.go\<close>, \<open>desktop_egress.go\<close>,
    \<open>namespace_janitor.go\<close>). \<open>Reconcile\<close> composes them the way \<open>Reconcile\<close> of \<open>workspace_controller.go\<close>
    does: one world holds every store, a stage yields a value or ends the pass, and the pass is the
    sequence of stages, with the governance re-check of \<open>workspace_governance.go\<close> in the middle.

  \<^item> The API server (\<open>src/api-server/internal\<close>). \<open>Portal\<close> has its records, the problem document and the table of
    sessions. \<open>Fleet\<close> is the namespace of workspaces as its services see it: versioned objects, strict
    ownership, and the update under conflict retry of \<open>workspace_lifecycle.go\<close>. \<open>Tokens\<close> is \<open>shared/auth\<close> with the
    middlewares that accept a token. \<open>Connect\<close> is \<open>Connect\<close> and \<open>ConnectionInfo\<close> of \<open>workspace_service.go\<close>, the
    two ends of the path through \<open>Proxy\<close>. \<open>Accounts\<close> is the table of users, the account service and local
    sign-in; what must hold between concurrent requests is stated over interleaved statements. \<open>Lifecycle\<close> is
    the rest of \<open>workspace_service.go\<close> and \<open>workspace_lifecycle.go\<close>: the view of a workspace, creation, the edits,
    deletion. \<open>Sweepers\<close> is what runs beside requests: the idle and the session sweeper, the resize of a
    running desktop and the retained volumes. \<open>Net_Addr\<close> is the part of Go's \<open>net\<close> package the filters use,
    \<open>Remote_Guard\<close> the host guard of \<open>remote_host_guard.go\<close> and the egress configuration of the operator
    (\<open>desktop_egress.go\<close>), and \<open>Remotes\<close> the registry of machines outside the cluster: a registry is its rows,
    the secrets and the sessions, and a request is a step on it. \<open>Config\<close> is the environment the server starts
    from (\<open>config.go\<close>), \<open>Sso\<close> sign-in through OpenID Connect with the routes of \<open>auth_handler.go\<close>, from the cookie of
    a started sign-in to the provisioned account. \<open>Catalog_Sync\<close> is the worker that mirrors image catalogs
    (\<open>catalog_sync_worker.go\<close>, \<open>catalog_sql.go\<close>, \<open>shared/catalog\<close>): one sync as a function, and the ticker, the
    forced syncs and the watch with its queue as the steps of one state. \<open>Template_Service\<close> is the editor of
    templates (\<open>template_service.go\<close>), which is shown to accept exactly what \<open>Template_Webhook\<close> admits.

  Interfaces. \<open>versioned_reads\<close> and \<open>retried\<close> (\<open>Fleet\<close>) are the contracts of an optimistic update: a copy whose
    version is still current is the current object, and a loop of attempts leaves the state to the others or
    does its work on what they left. \<open>convergent_step\<close> (\<open>Kube_Store\<close>) is the contract of a reconcile step: a pass that succeeds
  settles its object and a settled object rests; it is interpreted on the passwords, the configuration,
  the registry credentials, the service and the network policy, and gives that one successful pass
  suffices whatever came before. \<open>scaled_kind\<close> (\<open>Workload\<close>) is what deployments and stateful sets share.
  \<open>world_relation\<close> (\<open>Reconcile\<close>) is what a stage leaves alone, interpreted on the created content, the
  workloads and the finalizers; the lemmas \<open>keeps_\<close> carry it through the composition, and the lemmas
  \<open>stops_\<close> carry what an early end of a pass may be.

  What the lemmas show: per operation its behaviour on every branch, errors included; per component an
  invariant or the convergence to its desired state; across components that admission and reconciliation
  agree (a retained volume is adoptable, compute needs governance, deletion finds what creation made).
  Where the code does not do what it says, the theorem states what it does; such theorems speak of
  what is missed, unchecked or never done.

  A property is stated in terms of its own wherever it can be: who governs whom (\<open>governs\<close>, \<open>entitled\<close> in
  \<open>Policy\<close>), what an admission needs (\<open>approved_image\<close>, \<open>owners_to_use\<close>, \<open>within_quota\<close> in \<open>Webhook\<close>), what a
  clipboard is due (\<open>clipboard_due\<close>), what an edit asks for (\<open>as_requested\<close> in \<open>Lifecycle\<close>), which keys were
  published (\<open>published_key\<close> in \<open>Jwks\<close>), what a browser did before (\<open>jar_after\<close> in \<open>Sso\<close>), what a sweep may do
  (\<open>sweeping\<close> in \<open>Sweepers\<close>). These definitions model no code and are not in the map of the sources. Other
  writers appear as functions on the shared state, at the points where the code can be overtaken.

  Parameters: the cron parser, the YAML and JSON libraries, SHA-256, the Unicode tables, RSA and JWT
  verification, random bytes, the network probe, the answers of the cluster. A hypothesis on one of them is
  the documented behaviour, and a witness instantiates it. A log line is not modelled, a message is
  reduced to the values it is formatted from, an event to its reason.

  Bounds: the scan of a schedule takes at most \<open>scan_limit\<close> (200,000) activations, the constant of the code,
  and a cron expression fires at most once a minute, so the eight-day horizon needs fewer than 12,000; all
  other recursion is structural or has a measure. Durations are integers in nanoseconds and quantities
  integers in nano units; the 32-bit counters of policies stay words.

  Not modelled: of the API server the governance service and the HTTP client of the wake relay; the watches that trigger a pass (\<open>SetupWithManager\<close> and its map functions); in the reconciler the resource versions, where a
  conflicting update is an update that fails; the processes, metrics, generated deep copies, HTTP handlers,
  the frontend and the chart.
\<close>

end
